(* ===== verification/Oss_Prelude.thy ===== *)
theory Oss_Prelude
  imports Main "HOL-Library.Word" "HOL-Library.Signed_Division"
begin

text \<open>
  Shared vocabulary of the development: the machine types of the sources, the error codes
  as a datatype and the result type built on it, the shape of a byte memory, and the
  generic lemmas (ring-buffer arithmetic, list slices) the component theories use.
  The error codes are the names \<open>OSS_E...\<close> that \<open>setup/srcconf.c\<close> generates from the
  host's \<open>errno.h\<close>; a C function that returns a negative code on failure and a value
  otherwise returns \<open>Inl\<close> the code or \<open>Inr\<close> the value here.
\<close>

unbundle bit_operations_syntax

section \<open>Machine types and results\<close>

type_synonym u8 = "8 word"
type_synonym u16 = "16 word"
type_synonym u32 = "32 word"
type_synonym u64 = "64 word"

datatype oss_error =
    OSS_E2BIG | OSS_EACCES | OSS_EAGAIN | OSS_EBUSY | OSS_EFAULT | OSS_EIDRM | OSS_EINTR | OSS_EINVAL | OSS_EIO
  | OSS_ENODEV | OSS_ENOMEM | OSS_ENOSPC | OSS_ENOTSUP | OSS_ENXIO | OSS_EPERM | OSS_EWOULDBLOCK

type_synonym 'a oss_result = "oss_error + 'a"

named_theorems oss_defs \<open>definitions the component proofs unfold\<close>
named_theorems ring_simps \<open>arithmetic of indices that wrap around a ring\<close>

section \<open>Byte memory\<close>

text \<open>
  A block of bytes is a function from offsets to bytes; a read gives the bytes of a
  half-open range and a write replaces them. The ranges are written out by the callers,
  who also say what happens when a range leaves the block.
\<close>

type_synonym bytes = "u8 list"

definition read_bytes :: "(int \<Rightarrow> u8) \<Rightarrow> int \<Rightarrow> int \<Rightarrow> bytes" where
  "read_bytes m a n = map (\<lambda>i. m (a + int i)) [0..<nat n]"

definition write_bytes :: "(int \<Rightarrow> u8) \<Rightarrow> int \<Rightarrow> bytes \<Rightarrow> (int \<Rightarrow> u8)" where
  "write_bytes m a bs =
     (\<lambda>x. if a \<le> x \<and> x < a + int (length bs) then bs ! nat (x - a) else m x)"

lemma length_read_bytes [simp]: "length (read_bytes m a n) = nat n"
  by (simp add: read_bytes_def)

lemma read_bytes_nonpos [simp]: "n \<le> 0 \<Longrightarrow> read_bytes m a n = []"
  by (simp add: read_bytes_def)

lemma nth_read_bytes [simp]: "i < nat n \<Longrightarrow> read_bytes m a n ! i = m (a + int i)"
  by (simp add: read_bytes_def)

lemma read_write_same:
  "n = int (length bs) \<Longrightarrow> read_bytes (write_bytes m a bs) a n = bs"
  by (rule nth_equalityI) (auto simp: write_bytes_def)

lemma read_write_disjoint:
  "a + n \<le> b \<or> b + int (length bs) \<le> a \<Longrightarrow>
   read_bytes (write_bytes m b bs) a n = read_bytes m a n"
  by (rule nth_equalityI) (auto simp: write_bytes_def)

lemma read_bytes_append:
  assumes "0 \<le> n" and "0 \<le> k"
  shows "read_bytes m a (n + k) = read_bytes m a n @ read_bytes m (a + n) k"
proof (rule nth_equalityI)
  show "length (read_bytes m a (n + k)) = length (read_bytes m a n @ read_bytes m (a + n) k)"
    using assms by (simp add: nat_add_distrib)
  fix i assume "i < length (read_bytes m a (n + k))"
  then have "i < nat n \<or> (nat n \<le> i \<and> i - nat n < nat k)"
    using assms by (auto simp: nat_add_distrib)
  with assms show "read_bytes m a (n + k) ! i = (read_bytes m a n @ read_bytes m (a + n) k) ! i"
    by (auto simp: nth_append nat_add_distrib algebra_simps)
qed

lemma drop_read_bytes:
  assumes "0 \<le> k" and "k \<le> n"
  shows "drop (nat k) (read_bytes m a n) = read_bytes m (a + k) (n - k)"
proof -
  have "read_bytes m a (k + (n - k)) = read_bytes m a k @ read_bytes m (a + k) (n - k)"
    using assms by (intro read_bytes_append) auto
  with assms show ?thesis by simp
qed

lemma take_read_bytes:
  assumes "0 \<le> k" and "k \<le> n"
  shows "take (nat k) (read_bytes m a n) = read_bytes m a k"
proof -
  have "read_bytes m a (k + (n - k)) = read_bytes m a k @ read_bytes m (a + k) (n - k)"
    using assms by (intro read_bytes_append) auto
  with assms show ?thesis by simp
qed

section \<open>Ring indices\<close>

lemma mod_add_one_ring [ring_simps]:
  "0 \<le> i \<Longrightarrow> i < n \<Longrightarrow> (i + 1) mod n = (if i + 1 = n then 0 else i + (1::int))"
  by auto

lemma mod_sum_ring [ring_simps]:
  "0 \<le> a \<Longrightarrow> a < n \<Longrightarrow> 0 \<le> k \<Longrightarrow> k < n \<Longrightarrow>
   (a + k) mod n = (if a + k < n then a + k else a + k - (n::int))"
  using mod_pos_pos_trivial[of "a + k - n" n] by (auto simp: mod_pos_pos_trivial)

text \<open>The \<open>n\<close> entries of a table of \<open>N\<close> that start at index \<open>t\<close> and wrap around.\<close>

definition ring_list :: "nat \<Rightarrow> 'a list \<Rightarrow> int \<Rightarrow> nat \<Rightarrow> 'a list" where
  "ring_list N xs t n = map (\<lambda>k. xs ! nat ((t + int k) mod int N)) [0..<n]"

lemma length_ring_list [simp]: "length (ring_list N xs t n) = n"
  by (simp add: ring_list_def)

lemma ring_list_0 [simp]: "ring_list N xs t 0 = []"
  by (simp add: ring_list_def)

lemma ring_slot_neq:
  assumes "k < n" and "n < N" and "0 < N"
  shows "nat ((t + int k) mod int N) \<noteq> nat ((t + int n) mod int N)"
proof
  assume "nat ((t + int k) mod int N) = nat ((t + int n) mod int N)"
  then have "(t + int k) mod int N = (t + int n) mod int N"
    using assms by (simp add: eq_nat_nat_iff)
  then have "int N dvd (t + int n) - (t + int k)"
    by (simp add: mod_eq_dvd_iff dvd_diff_commute)
  then have "int N dvd int (n - k)"
    using assms by (simp add: of_nat_diff algebra_simps)
  then show False
    using assms by (auto simp: zdvd_not_zless dest: zdvd_imp_le)
qed

lemma ring_list_snoc:
  assumes "n < N" and "length xs = N"
  shows "ring_list N (xs[nat ((t + int n) mod int N) := x]) t (Suc n) = ring_list N xs t n @ [x]"
proof -
  have "nat ((t + int n) mod int N) < length xs"
    using assms by (simp add: nat_less_iff)
  moreover have "\<And>k. k < n \<Longrightarrow> nat ((t + int n) mod int N) \<noteq> nat ((t + int k) mod int N)"
    using ring_slot_neq[of _ n N t] assms by (metis gr_implies_not0 gr_zeroI)
  ultimately show ?thesis
    by (simp add: ring_list_def)
qed

lemma ring_list_last:
  "ring_list N xs t (Suc n) = ring_list N xs t n @ [xs ! nat ((t + int n) mod int N)]"
  by (simp add: ring_list_def)

lemma ring_list_Cons:
  "ring_list N xs t (Suc n) = xs ! nat (t mod int N) # ring_list N xs ((t + 1) mod int N) n"
proof -
  have "ring_list N xs t (Suc n) =
      map (\<lambda>k. xs ! nat ((t + int k) mod int N)) (0 # map Suc [0..<n])"
    by (simp add: ring_list_def map_Suc_upt upt_conv_Cons del: upt_Suc)
  then show ?thesis
    by (simp add: ring_list_def mod_simps algebra_simps)
qed

lemma ring_list_update_first:
  assumes "n < N" and "length xs = N"
  shows "ring_list N (xs[nat (t mod int N) := x]) t (Suc n)
    = x # ring_list N xs ((t + 1) mod int N) n"
proof -
  have "nat (t mod int N) < length xs"
    using assms by (simp add: nat_less_iff)
  moreover have "\<And>k. k < n \<Longrightarrow> nat (t mod int N) \<noteq> nat ((t + 1 + int k) mod int N)"
    using ring_slot_neq[of 0 "Suc _" N t] assms by (simp add: algebra_simps)
  ultimately show ?thesis
    unfolding ring_list_Cons by (simp add: ring_list_def mod_simps)
qed

section \<open>Nibbles of a byte\<close>

lemma uint_drop_bit_div: "uint (drop_bit n (d :: 'a::len word)) = uint d div 2 ^ n"
proof -
  have "uint (drop_bit n d) = drop_bit n (uint d)"
    by (rule bit_eqI) (simp add: bit_unsigned_iff bit_drop_bit_eq)
  then show ?thesis by (simp only: drop_bit_eq_div)
qed

lemma int_and_15: "(x :: int) AND 15 = x mod 16"
proof -
  have "x AND mask 4 = x mod 2 ^ 4" by (simp only: take_bit_eq_mask[symmetric] take_bit_eq_mod)
  moreover have "(mask 4 :: int) = 15" by (simp add: mask_eq_exp_minus_1)
  ultimately show ?thesis by simp
qed

lemma u8_low_nibble: "uint ((d :: u8) AND 0x0f) = uint d mod 16"
  by (simp add: unsigned_and_eq int_and_15)

lemma int_and_240: assumes "0 \<le> x" "x < 256" shows "(x :: int) AND 240 = 16 * (x div 16)"
proof -
  have m: "(240 :: int) = push_bit 4 (mask 4)" by (simp add: mask_eq_exp_minus_1 push_bit_eq_mult)
  have "x AND 240 = push_bit 4 (drop_bit 4 x AND mask 4)"
    unfolding m by (rule bit_eqI) (auto simp: bit_simps)
  also have "drop_bit 4 x AND mask 4 = (x div 16) mod 16"
    by (simp only: take_bit_eq_mask[symmetric] take_bit_eq_mod drop_bit_eq_div) simp
  also have "\<dots> = x div 16" using assms by simp
  finally show ?thesis by (simp add: push_bit_eq_mult)
qed

lemma u8_high_nibble: "uint ((d :: u8) AND 0xf0) = 16 * (uint d div 16)"
  using int_and_240[of "uint d"] uint_lt2p[of d] by (simp add: unsigned_and_eq)

lemma u8_status_bit: "(d :: u8) AND 0x80 \<noteq> 0 \<longleftrightarrow> 128 \<le> uint d"
proof -
  have "(0x80 :: u8) = 2 ^ 7" by simp
  then have "d AND 0x80 = 0 \<longleftrightarrow> \<not> bit d 7" by (metis and_exp_eq_0_iff_not_bit)
  moreover have "bit d 7 \<longleftrightarrow> bit (uint d) 7" by (simp add: bit_uint_iff)
  moreover have "bit (uint d) 7 \<longleftrightarrow> odd (uint d div 128)" by (simp only: bit_iff_odd) simp
  moreover have "uint d div 128 = 0 \<or> uint d div 128 = 1" using uint_lt2p[of d] uint_ge_0[of d] by auto
  ultimately show ?thesis by auto
qed

lemma u8_upper: "uint (d :: u8) < 256"
  using uint_lt2p[of d] by simp

end
