(* ===== verification/Midi_Queue.thy ===== *)
theory Midi_Queue
  imports Oss_Prelude
begin

text \<open>
  The MIDI message queue of \<open>kernel/framework/midi/oss_midi_queue.c\<close>: records of variable
  size laid out one after the other in a ring of \<open>QUEUE_BYTES\<close> bytes, and a ring of
  pointers to them. The bytes of the ring are kept at their offsets, so that the placement
  of a record matters: \<open>queue_fault\<close> records a write outside the ring, which in C is
  undefined behaviour. The header fields of a record are kept in its \<open>midi_buf\<close>; that
  they are not overwritten is what the disjointness part of the invariant shows. The
  mutex is not modelled: each operation is one critical section.
\<close>

section \<open>State\<close>

record packet_header =
  hdr_magic :: int
  hdr_event_type :: u16
  hdr_options :: u16
  hdr_time :: u64
  hdr_parm :: int
  hdr_filler :: "int list"

definition zero_header :: packet_header where
  "zero_header = \<lparr>hdr_magic = 0, hdr_event_type = 0, hdr_options = 0, hdr_time = 0,
     hdr_parm = 0, hdr_filler = [0, 0, 0]\<rparr>"

text \<open>
  On an LP64 host \<open>sizeof (midi_buf_t)\<close> is 64 and its member \<open>buf\<close> is at offset 56, so
  the prefix the code reserves is 63 bytes and the data of a record starts 56 bytes in.
\<close>

definition BUF_PREFIX_SIZE :: int where "BUF_PREFIX_SIZE = 63"
definition BUF_DATA_OFFSET :: int where "BUF_DATA_OFFSET = 56"
definition MIDI_PAYLOAD_SIZE :: int where "MIDI_PAYLOAD_SIZE = 1000"
definition MAX_QUEUE_DEPTH :: int where "MAX_QUEUE_DEPTH = 31"
definition QUEUE_BYTES :: int where
  "QUEUE_BYTES = (MAX_QUEUE_DEPTH + 1) * (BUF_PREFIX_SIZE + MIDI_PAYLOAD_SIZE)"

text \<open>\<open>b_start\<close> is the offset of the record itself, the value of the C pointer to it.\<close>

record midi_buf =
  b_start :: int
  b_len :: int
  b_hdr :: packet_header
  b_next :: int
  b_size :: int
  b_data :: int

record midi_queue =
  queue_buffer :: "int \<Rightarrow> u8"
  buf_head :: int
  buf_tail :: int
  debugging :: int
  q_head :: int
  q_tail :: int
  avail :: int
  writecount :: int
  readcount :: int
  buffers :: "midi_buf list"
  queue_fault :: bool

definition null_buf :: midi_buf where
  "null_buf = \<lparr>b_start = 0, b_len = 0, b_hdr = zero_header, b_next = 0, b_size = 0, b_data = 0\<rparr>"

section \<open>Operations\<close>

definition midi_queue_alloc :: "bool \<Rightarrow> midi_queue option" where
  "midi_queue_alloc malloc_ok =
     (if \<not> malloc_ok then None
      else Some \<lparr>queue_buffer = (\<lambda>_. 0), buf_head = 0, buf_tail = 0, debugging = 0,
             q_head = 0, q_tail = 0, avail = QUEUE_BYTES, writecount = 0, readcount = 0,
             buffers = replicate (nat MAX_QUEUE_DEPTH) null_buf, queue_fault = False\<rparr>)"

text \<open>A store into the ring: bytes outside it set the fault flag.\<close>

definition queue_store :: "midi_queue \<Rightarrow> int \<Rightarrow> bytes \<Rightarrow> midi_queue" where
  "queue_store q a bs = q\<lparr>queue_buffer := write_bytes (queue_buffer q) a bs,
     queue_fault := queue_fault q \<or> (bs \<noteq> [] \<and> (a < 0 \<or> QUEUE_BYTES < a + int (length bs)))\<rparr>"

definition queue_concat ::
  "midi_queue \<Rightarrow> bytes \<Rightarrow> packet_header option \<Rightarrow> bool \<times> midi_queue" where
  "queue_concat q data hdr =
     (let len = int (length data);
          p = (if q_head q - 1 < 0 then MAX_QUEUE_DEPTH - 1 else q_head q - 1);
          b = buffers q ! nat p in
      if buf_tail q = buf_head q then (False, q)
      else if avail q < len then (False, q)
      else if q_tail q = q_head q then (False, q)
      else if hdr = None \<or> hdr_time (b_hdr b) \<noteq> hdr_time (the hdr) then (False, q)
      else if b_len b + len > MIDI_PAYLOAD_SIZE then (False, q)
      else if b_next b + len \<ge> QUEUE_BYTES - 1 then (False, q)
      else if b_next b < buf_tail q \<and> b_next b + len \<ge> buf_tail q then (False, q)
      else
        let b' = b\<lparr>b_next := b_next b + len, b_size := b_size b + len, b_len := b_len b + len\<rparr>;
            q1 = q\<lparr>avail := avail q - len, writecount := writecount q + len\<rparr>;
            q2 = queue_store q1 (b_data b + b_len b) data
        in (True, q2\<lparr>buffers := (buffers q2)[nat p := b'], buf_head := b_next b'\<rparr>))"

text \<open>
  The first half of \<open>midi_queue_alloc_record\<close> decides where a record of \<open>len\<close> bytes can
  go: the two heads it may have rewound, the room it found there, or the error.
\<close>

definition alloc_place :: "midi_queue \<Rightarrow> int \<Rightarrow> oss_error + (int \<times> midi_queue)" where
  "alloc_place q len =
     (if (q_head q + 1) mod MAX_QUEUE_DEPTH = q_tail q then Inl OSS_ENOSPC
      else if avail q < BUF_PREFIX_SIZE + len then Inl OSS_ENOSPC
      else
        let n0 = q_head q - q_tail q;
            n = (if n0 \<le> 0 then n0 + MAX_QUEUE_DEPTH else n0) in
        if n < 1 then Inl OSS_ENOSPC
        else
          let room0 = (if buf_tail q > buf_head q then buf_tail q - buf_head q else 0);
              q1 = (if buf_tail q > buf_head q \<and> room0 < BUF_PREFIX_SIZE + len
                    then q\<lparr>buf_head := 0\<rparr> else q) in
          if buf_tail q1 = buf_head q1
          then Inr (QUEUE_BYTES, q1\<lparr>buf_tail := 0, buf_head := 0, avail := QUEUE_BYTES\<rparr>)
          else if buf_tail q1 < buf_head q1 then Inr (QUEUE_BYTES - buf_head q1, q1)
          else Inr (room0, q1))"

definition midi_queue_alloc_record ::
  "midi_queue \<Rightarrow> int \<Rightarrow> packet_header option \<Rightarrow> int oss_result \<times> int \<times> midi_queue" where
  "midi_queue_alloc_record q len0 hdr =
     (if len0 < 1 \<and> hdr = None then (Inl OSS_EIO, 0, q)
      else
        let len1 = (if len0 > MIDI_PAYLOAD_SIZE then MIDI_PAYLOAD_SIZE else len0) in
        case alloc_place q len1 of
          Inl e \<Rightarrow> (Inl e, 0, q)
        | Inr (room, q1) \<Rightarrow>
            let len = (if room < BUF_PREFIX_SIZE + len1 then room - BUF_PREFIX_SIZE else len1) in
            if room < BUF_PREFIX_SIZE + len1 \<and> len \<le> 0 then (Inl OSS_ENOSPC, 0, q1)
            else if buf_head q1 \<ge> QUEUE_BYTES then (Inl OSS_EIO, 0, q1)
            else if buf_head q1 + BUF_PREFIX_SIZE + len > QUEUE_BYTES then (Inl OSS_EIO, 0, q1)
            else
              let p = buf_head q1;
                  h = (p + BUF_PREFIX_SIZE + len) mod QUEUE_BYTES;
                  b = \<lparr>b_start = p, b_len = len,
                       b_hdr = (case hdr of None \<Rightarrow> zero_header | Some h' \<Rightarrow> h'),
                       b_next = h, b_size = BUF_PREFIX_SIZE + len,
                       b_data = p + BUF_DATA_OFFSET\<rparr>
              in (Inr len, b_data b,
                  q1\<lparr>buf_head := h, avail := avail q1 - b_size b,
                     writecount := writecount q1 + len,
                     buffers := (buffers q1)[nat (q_head q1) := b],
                     q_head := (q_head q1 + 1) mod MAX_QUEUE_DEPTH\<rparr>))"

definition midi_queue_put ::
  "midi_queue \<Rightarrow> bytes \<Rightarrow> packet_header option \<Rightarrow> int oss_result \<times> midi_queue" where
  "midi_queue_put q data hdr =
     (let len = int (length data) in
      if len < 1 then (Inr 0, q)
      else if len > MIDI_PAYLOAD_SIZE then (Inl OSS_E2BIG, q)
      else
        case (if len = 1 then queue_concat q data hdr else (False, q)) of
          (True, q1) \<Rightarrow> (Inr len, q1)
        | (False, q1) \<Rightarrow>
            (case midi_queue_alloc_record (q1\<lparr>debugging := 1\<rparr>) len hdr of
               (Inl e, _, q2) \<Rightarrow> (Inl e, q2)
             | (Inr ret, targetbuf, q2) \<Rightarrow>
                 if ret \<le> 0 then (Inr ret, q2)
                 else
                   let n = (if ret < len then ret else len);
                       q3 = queue_store (q2\<lparr>debugging := 0\<rparr>) targetbuf (take (nat n) data) in
                   if buf_head q3 \<ge> QUEUE_BYTES \<or> buf_tail q3 \<ge> QUEUE_BYTES
                   then (Inl OSS_EIO, q3) else (Inr n, q3)))"

text \<open>
  A record handed to a reader: the length, the bytes at the data pointer and the header.
  \<open>(Inr 0, None)\<close> is the C code's zero return with both pointers \<open>NULL\<close>.
\<close>

definition record_view :: "midi_queue \<Rightarrow> midi_buf \<Rightarrow> bytes \<times> packet_header" where
  "record_view q b = (read_bytes (queue_buffer q) (b_data b) (b_len b), b_hdr b)"

definition midi_queue_get ::
  "midi_queue \<Rightarrow> int oss_result \<times> (bytes \<times> packet_header) option \<times> midi_queue" where
  "midi_queue_get q =
     (if buf_head q \<ge> QUEUE_BYTES \<or> buf_tail q \<ge> QUEUE_BYTES then (Inl OSS_EIO, None, q)
      else if q_head q = q_tail q then (Inr 0, None, q)
      else
        let b = buffers q ! nat (q_tail q);
            q1 = q\<lparr>q_tail := (q_tail q + 1) mod MAX_QUEUE_DEPTH, buf_tail := b_next b,
                   avail := avail q + b_size b, readcount := readcount q + b_size b\<rparr>
        in (Inr (b_len b), Some (record_view q b), q1))"

definition midi_queue_find_buffer ::
  "midi_queue \<Rightarrow> int oss_result \<times> (bytes \<times> packet_header) option" where
  "midi_queue_find_buffer q =
     (if q_head q = q_tail q then (Inr 0, None)
      else let b = buffers q ! nat (q_tail q) in (Inr (b_len b), Some (record_view q b)))"

definition midi_queue_remove_chars :: "midi_queue \<Rightarrow> int \<Rightarrow> midi_queue" where
  "midi_queue_remove_chars q len =
     (if q_head q = q_tail q then q
      else
        let b = buffers q ! nat (q_tail q) in
        if len < b_len b
        then q\<lparr>buffers := (buffers q)[nat (q_tail q) :=
                   b\<lparr>b_data := b_data b + len, b_len := b_len b - len\<rparr>],
               readcount := readcount q + len\<rparr>
        else
          let q1 = q\<lparr>q_tail := (q_tail q + 1) mod MAX_QUEUE_DEPTH, buf_tail := b_next b,
                     avail := avail q + b_size b, readcount := readcount q + len\<rparr>;
              q2 = (if buf_tail q1 = buf_head q1 then q1\<lparr>buf_tail := 0, buf_head := 0\<rparr> else q1)
          in (if q_tail q2 = q_head q2 then q2\<lparr>q_tail := 0, q_head := 0\<rparr> else q2))"

definition midi_queue_removeall :: "midi_queue \<Rightarrow> midi_queue" where
  "midi_queue_removeall q =
     q\<lparr>buf_tail := 0, buf_head := 0, q_tail := 0, q_head := 0, avail := QUEUE_BYTES,
       readcount := 0, writecount := 0\<rparr>"

definition midi_queue_isempty :: "midi_queue \<Rightarrow> bool" where
  "midi_queue_isempty q \<longleftrightarrow> q_tail q = q_head q"

definition midi_queue_spaceleft :: "midi_queue \<Rightarrow> int" where
  "midi_queue_spaceleft q =
     (if (q_head q + 1) mod MAX_QUEUE_DEPTH = q_tail q then 0
      else if avail q < BUF_PREFIX_SIZE + 1 then 0
      else if avail q > MIDI_PAYLOAD_SIZE then MIDI_PAYLOAD_SIZE else avail q)"

definition midi_queue_debugging :: "midi_queue \<Rightarrow> midi_queue" where
  "midi_queue_debugging q = q\<lparr>debugging := 1\<rparr>"

end
