(* ===== verification/Byte_Pipe.thy ===== *)
theory Byte_Pipe
  imports Oss_Prelude
begin

text \<open>
  The contract between a buffer of bytes and the code that fills and drains it: what is
  taken in appears at the end of the stream, what is handed out was its beginning. The MIDI
  core relies on this of its input and output queues.
\<close>

datatype pipe_op = Offer bytes | Fetch nat

text \<open>A session with a pipe collects the bytes accepted and the bytes handed out.\<close>

fun pipe_run ::
  "(bytes \<Rightarrow> 'q \<Rightarrow> nat \<times> 'q) \<Rightarrow> (nat \<Rightarrow> 'q \<Rightarrow> bytes \<times> 'q) \<Rightarrow> pipe_op list \<Rightarrow> 'q \<Rightarrow>
   bytes \<times> bytes \<times> 'q" where
  "pipe_run offer fetch [] q = ([], [], q)"
| "pipe_run offer fetch (Offer d # ops) q =
     (let (n, q1) = offer d q; (ins, outs, q2) = pipe_run offer fetch ops q1
      in (take n d @ ins, outs, q2))"
| "pipe_run offer fetch (Fetch k # ops) q =
     (let (out, q1) = fetch k q; (ins, outs, q2) = pipe_run offer fetch ops q1
      in (ins, out @ outs, q2))"

locale byte_pipe =
  fixes inv :: "'q \<Rightarrow> bool"
    and stream :: "'q \<Rightarrow> bytes"
    and offer :: "bytes \<Rightarrow> 'q \<Rightarrow> nat \<times> 'q"
    and fetch :: "nat \<Rightarrow> 'q \<Rightarrow> bytes \<times> 'q"
  assumes offer_law: "inv q \<Longrightarrow> offer d q = (n, q') \<Longrightarrow>
      inv q' \<and> n \<le> length d \<and> stream q' = stream q @ take n d"
    and fetch_law: "inv q \<Longrightarrow> fetch k q = (out, q') \<Longrightarrow> inv q' \<and> stream q = out @ stream q'"
begin

lemma run_fifo:
  assumes "inv q" and "pipe_run offer fetch ops q = (ins, outs, q')"
  shows "inv q' \<and> stream q @ ins = outs @ stream q'"
  using assms
proof (induction ops arbitrary: q q' ins outs)
  case Nil
  then show ?case by simp
next
  case (Cons op ops)
  show ?case
  proof (cases op)
    case (Offer d)
    obtain n q1 where o1: "offer d q = (n, q1)" by fastforce
    obtain i os q2 where r: "pipe_run offer fetch ops q1 = (i, os, q2)" by (metis prod_cases3)
    from offer_law[OF Cons.prems(1) o1] have "inv q1" and s: "stream q1 = stream q @ take n d" by auto
    from Cons.IH[OF \<open>inv q1\<close> r] s Cons.prems(2) Offer o1 r show ?thesis by auto
  next
    case (Fetch k)
    obtain out q1 where f1: "fetch k q = (out, q1)" by fastforce
    obtain i os q2 where r: "pipe_run offer fetch ops q1 = (i, os, q2)" by (metis prod_cases3)
    from fetch_law[OF Cons.prems(1) f1] have "inv q1" and s: "stream q = out @ stream q1" by auto
    from Cons.IH[OF \<open>inv q1\<close> r] s Cons.prems(2) Fetch f1 r show ?thesis by auto
  qed
qed

text \<open>From an idle pipe the output is a prefix of what was accepted: nothing is invented.\<close>

lemma run_prefix:
  assumes "inv q" and "stream q = []" and "pipe_run offer fetch ops q = (ins, outs, q')"
  shows "\<exists>rest. ins = outs @ rest \<and> stream q' = rest"
  using run_fifo[OF assms(1,3)] assms(2) by auto

end

text \<open>
  A pipe that always accepts what fits its unit of transfer when it holds nothing: a writer
  that waits for the reader to catch up makes progress.
\<close>

locale progress_pipe = byte_pipe +
  fixes idle :: "'q \<Rightarrow> bool" and unit_size :: nat
  assumes idle_law: "inv q \<Longrightarrow> idle q \<Longrightarrow> length d \<le> unit_size \<Longrightarrow> fst (offer d q) = length d"
begin

lemma idle_offer_all:
  assumes "inv q" and "idle q" and "length d \<le> unit_size"
  shows "stream (snd (offer d q)) = stream q @ d"
proof -
  obtain n q1 where o1: "offer d q = (n, q1)" by fastforce
  with idle_law[OF assms] offer_law[OF assms(1) o1] show ?thesis by simp
qed

end

end
