(* ===== verification/Midi_Queue_Laws.thy ===== *)
theory Midi_Queue_Laws
  imports Midi_Queue Byte_Pipe
begin

text \<open>
  Correctness of the MIDI queue: the invariant that ties the two rings together, the
  abstraction to a list of messages, and what each operation does to that list.
\<close>

lemmas queue_consts = BUF_PREFIX_SIZE_def BUF_DATA_OFFSET_def MIDI_PAYLOAD_SIZE_def
  MAX_QUEUE_DEPTH_def QUEUE_BYTES_def

section \<open>Invariant and abstraction\<close>

definition queue_count :: "midi_queue \<Rightarrow> nat" where
  "queue_count q = nat ((q_head q - q_tail q) mod MAX_QUEUE_DEPTH)"

definition live :: "midi_queue \<Rightarrow> midi_buf list" where
  "live q = ring_list (nat MAX_QUEUE_DEPTH) (buffers q) (q_tail q) (queue_count q)"

definition total_size :: "midi_buf list \<Rightarrow> int" where
  "total_size bs = sum_list (map b_size bs)"

definition buf_ok :: "midi_buf \<Rightarrow> bool" where
  "buf_ok b \<longleftrightarrow> 0 \<le> b_start b \<and> BUF_PREFIX_SIZE \<le> b_size b \<and> b_start b + b_size b \<le> QUEUE_BYTES \<and>
     b_next b = (b_start b + b_size b) mod QUEUE_BYTES \<and> 0 \<le> b_len b \<and>
     b_start b + BUF_DATA_OFFSET \<le> b_data b \<and> b_data b + b_len b + 7 = b_start b + b_size b"

fun chain :: "int \<Rightarrow> midi_buf list \<Rightarrow> int \<Rightarrow> bool" where
  "chain t [] h \<longleftrightarrow> t = h"
| "chain t (b # bs) h \<longleftrightarrow> b_start b = t \<and> buf_ok b \<and> chain (b_next b) bs h"

definition queue_inv :: "midi_queue \<Rightarrow> bool" where
  "queue_inv q \<longleftrightarrow> \<not> queue_fault q \<and> length (buffers q) = nat MAX_QUEUE_DEPTH \<and>
     0 \<le> q_head q \<and> q_head q < MAX_QUEUE_DEPTH \<and> 0 \<le> q_tail q \<and> q_tail q < MAX_QUEUE_DEPTH \<and>
     0 \<le> buf_head q \<and> buf_head q < QUEUE_BYTES \<and> 0 \<le> buf_tail q \<and> buf_tail q < QUEUE_BYTES \<and>
     chain (buf_tail q) (live q) (buf_head q) \<and>
     total_size (live q) \<le> QUEUE_BYTES \<and> avail q = QUEUE_BYTES - total_size (live q)"

definition msgs :: "midi_queue \<Rightarrow> (bytes \<times> packet_header) list" where
  "msgs q = map (record_view q) (live q)"

lemma total_size_simps [simp]:
  "total_size [] = 0"
  "total_size (b # bs) = b_size b + total_size bs"
  "total_size (bs @ cs) = total_size bs + total_size cs"
  by (simp_all add: total_size_def)

lemma chain_append: "chain t (bs @ cs) h \<longleftrightarrow> (\<exists>m. chain t bs m \<and> chain m cs h)"
  by (induction bs arbitrary: t) auto

lemma chain_buf_ok: "chain t bs h \<Longrightarrow> b \<in> set bs \<Longrightarrow> buf_ok b"
  by (induction bs arbitrary: t) auto

lemma total_size_nonneg: "chain t bs h \<Longrightarrow> 0 \<le> total_size bs"
  by (induction bs arbitrary: t) (auto simp: buf_ok_def queue_consts)

text \<open>
  Where a chain lies: without wrap-around between its two ends, otherwise above the tail
  or below the head.
\<close>

lemma chain_extent:
  assumes "chain t bs h" and "0 \<le> t" and "t < QUEUE_BYTES" and "total_size bs \<le> QUEUE_BYTES"
  shows "if t + total_size bs < QUEUE_BYTES
    then h = t + total_size bs \<and>
      (\<forall>b\<in>set bs. t \<le> b_start b \<and> b_start b + b_size b \<le> h)
    else h = t + total_size bs - QUEUE_BYTES \<and>
      (\<forall>b\<in>set bs. t \<le> b_start b \<and> b_start b + b_size b \<le> QUEUE_BYTES \<or> b_start b + b_size b \<le> h)"
  using assms
proof (induction bs arbitrary: t)
  case Nil
  then show ?case by simp
next
  case (Cons b bs)
  from Cons.prems have b: "buf_ok b" "b_start b = t" "chain (b_next b) bs h" by auto
  have S: "0 \<le> total_size bs" using b(3) by (rule total_size_nonneg)
  have sz: "0 < b_size b" using b(1) by (auto simp: buf_ok_def queue_consts)
  show ?case
  proof (cases "t + b_size b = QUEUE_BYTES")
    case True
    with b have n0: "b_next b = 0" by (simp add: buf_ok_def)
    have "total_size bs < QUEUE_BYTES" using Cons.prems(4) sz by simp
    then have "h = total_size bs \<and> (\<forall>c\<in>set bs. 0 \<le> b_start c \<and> b_start c + b_size c \<le> h)"
      using Cons.IH[of "b_next b"] b(3) n0 by (auto simp: queue_consts split: if_splits)
    with True S b show ?thesis by auto
  next
    case False
    with b sz Cons.prems(2) have n: "b_next b = t + b_size b" "t + b_size b < QUEUE_BYTES"
      by (auto simp: buf_ok_def)
    have "total_size bs \<le> QUEUE_BYTES" using Cons.prems(4) sz by simp
    then have ih: "if (t + b_size b) + total_size bs < QUEUE_BYTES
      then h = (t + b_size b) + total_size bs \<and>
        (\<forall>c\<in>set bs. t + b_size b \<le> b_start c \<and> b_start c + b_size c \<le> h)
      else h = (t + b_size b) + total_size bs - QUEUE_BYTES \<and>
        (\<forall>c\<in>set bs. t + b_size b \<le> b_start c \<and> b_start c + b_size c \<le> QUEUE_BYTES
          \<or> b_start c + b_size c \<le> h)"
      using b(3) n Cons.prems(2) sz by (intro Cons.IH) auto
    show ?thesis
    proof (cases "t + b_size b + total_size bs < QUEUE_BYTES")
      case True
      with ih b sz S show ?thesis by (force simp: add.assoc)
    next
      case nw: False
      with ih b sz S n show ?thesis by (force simp: add.assoc)
    qed
  qed
qed

section \<open>The ring of record pointers\<close>

definition ptrs_ok :: "midi_queue \<Rightarrow> bool" where
  "ptrs_ok q \<longleftrightarrow> length (buffers q) = nat MAX_QUEUE_DEPTH \<and>
     0 \<le> q_head q \<and> q_head q < MAX_QUEUE_DEPTH \<and> 0 \<le> q_tail q \<and> q_tail q < MAX_QUEUE_DEPTH"

lemma queue_inv_ptrs: "queue_inv q \<Longrightarrow> ptrs_ok q"
  by (simp add: queue_inv_def ptrs_ok_def)

lemma queue_count_less: "queue_count q < nat MAX_QUEUE_DEPTH"
  by (simp add: queue_count_def queue_consts nat_less_iff)

lemma queue_count_eq:
  assumes "ptrs_ok q"
  shows "int (queue_count q) = (if q_tail q \<le> q_head q then q_head q - q_tail q
    else q_head q - q_tail q + MAX_QUEUE_DEPTH)"
proof -
  have "q_tail q > q_head q \<Longrightarrow> (q_head q - q_tail q) mod 31 = q_head q - q_tail q + 31"
    using assms mod_pos_pos_trivial[of "q_head q - q_tail q + 31" 31]
    by (simp add: ptrs_ok_def queue_consts)
  with assms show ?thesis
    by (simp add: queue_count_def ptrs_ok_def queue_consts)
qed

lemma queue_count_0: "ptrs_ok q \<Longrightarrow> queue_count q = 0 \<longleftrightarrow> q_head q = q_tail q"
  using queue_count_eq[of q] by (auto simp: ptrs_ok_def split: if_splits)

lemma queue_head_slot:
  "ptrs_ok q \<Longrightarrow> (q_tail q + int (queue_count q)) mod MAX_QUEUE_DEPTH = q_head q"
  by (simp add: queue_count_def ptrs_ok_def queue_consts mod_simps)

lemma live_empty_iff: "ptrs_ok q \<Longrightarrow> live q = [] \<longleftrightarrow> q_head q = q_tail q"
  using queue_count_0[of q] length_ring_list[of "nat MAX_QUEUE_DEPTH" "buffers q" "q_tail q" "queue_count q"]
  unfolding live_def length_0_conv[symmetric] by simp

lemma live_enqueue:
  assumes "ptrs_ok q" and "(q_head q + 1) mod MAX_QUEUE_DEPTH \<noteq> q_tail q"
    and "buffers q' = (buffers q)[nat (q_head q) := b]"
    and "q_head q' = (q_head q + 1) mod MAX_QUEUE_DEPTH" and "q_tail q' = q_tail q"
  shows "live q' = live q @ [b]"
proof -
  have ok': "ptrs_ok q'"
    using assms by (simp add: ptrs_ok_def queue_consts)
  have c: "queue_count q' = Suc (queue_count q)"
    using queue_count_eq[OF assms(1)] queue_count_eq[OF ok'] assms
    by (simp add: ptrs_ok_def queue_consts mod_add_one_ring split: if_splits)
  have "queue_count q < 31" using queue_count_less[of q] by (simp add: queue_consts)
  then show ?thesis
    using ring_list_snoc[of "queue_count q" 31 "buffers q" "q_tail q" b] assms c queue_head_slot[of q]
    by (simp add: live_def ptrs_ok_def queue_consts)
qed

lemma live_dequeue:
  assumes "ptrs_ok q" and "q_head q \<noteq> q_tail q" and "buffers q' = buffers q"
    and "q_head q' = q_head q" and "q_tail q' = (q_tail q + 1) mod MAX_QUEUE_DEPTH"
  shows "live q = buffers q ! nat (q_tail q) # live q'"
proof -
  have ok': "ptrs_ok q'"
    using assms by (simp add: ptrs_ok_def queue_consts)
  have "queue_count q = Suc (queue_count q')"
    using queue_count_eq[OF assms(1)] queue_count_eq[OF ok'] assms
    by (simp add: ptrs_ok_def queue_consts mod_add_one_ring split: if_splits)
  then show ?thesis
    using ring_list_Cons[of 31 "buffers q" "q_tail q" "queue_count q'"] assms
    by (simp add: live_def ptrs_ok_def queue_consts)
qed

lemma live_update_first:
  assumes "ptrs_ok q" and "q_head q \<noteq> q_tail q"
    and "buffers q' = (buffers q)[nat (q_tail q) := b]"
    and "q_head q' = q_head q" and "q_tail q' = q_tail q"
  shows "live q' = b # tl (live q) \<and> hd (live q) = buffers q ! nat (q_tail q)"
proof -
  obtain n where n: "queue_count q = Suc n"
    using queue_count_0[OF assms(1)] assms(2) by (cases "queue_count q") auto
  moreover have "queue_count q' = queue_count q"
    using assms by (simp add: queue_count_def)
  moreover have "n < 31" using queue_count_less[of q] n by (simp add: queue_consts)
  ultimately show ?thesis
    using ring_list_update_first[of n 31 "buffers q" "q_tail q" b] assms
      ring_list_Cons[of 31 "buffers q" "q_tail q" n]
    by (simp add: live_def ptrs_ok_def queue_consts)
qed

lemma live_update_last:
  assumes "ptrs_ok q" and "q_head q \<noteq> q_tail q"
    and "p = (if q_head q - 1 < 0 then MAX_QUEUE_DEPTH - 1 else q_head q - 1)"
    and "buffers q' = (buffers q)[nat p := b]"
    and "q_head q' = q_head q" and "q_tail q' = q_tail q"
  shows "live q' = butlast (live q) @ [b]" and "live q = butlast (live q) @ [buffers q ! nat p]"
proof -
  obtain n where n: "queue_count q = Suc n"
    using queue_count_0[OF assms(1)] assms(2) by (cases "queue_count q") auto
  have c: "queue_count q' = queue_count q"
    using assms by (simp add: queue_count_def)
  have n31: "n < 31" using queue_count_less[of q] n by (simp add: queue_consts)
  have "(q_tail q + int n) mod 31 = p"
    using queue_count_eq[OF assms(1)] assms(1,3) n n31 mod_sum_ring[of "q_tail q" 31 "int n"]
    by (simp add: ptrs_ok_def queue_consts split: if_splits)
  with n31 n c assms ring_list_snoc[of n 31 "buffers q" "q_tail q" b]
    ring_list_last[of 31 "buffers q" "q_tail q" n]
  show "live q' = butlast (live q) @ [b]" and "live q = butlast (live q) @ [buffers q ! nat p]"
    by (simp_all add: live_def ptrs_ok_def queue_consts)
qed

section \<open>Placing a record\<close>

definition free_at :: "midi_queue \<Rightarrow> int \<Rightarrow> int \<Rightarrow> bool" where
  "free_at q a n \<longleftrightarrow> (\<forall>b\<in>set (live q). a + n \<le> b_start b \<or> b_start b + b_size b \<le> a)"

lemma chain_total_pos: "chain t bs h \<Longrightarrow> bs \<noteq> [] \<Longrightarrow> 0 < total_size bs"
  by (cases bs) (auto simp: buf_ok_def queue_consts dest: total_size_nonneg)

lemma queue_inv_extent:
  assumes "queue_inv q"
  shows "if live q = [] then buf_head q = buf_tail q \<and> total_size (live q) = 0
    else if buf_tail q < buf_head q
    then total_size (live q) = buf_head q - buf_tail q \<and>
      (\<forall>b\<in>set (live q). buf_tail q \<le> b_start b \<and> b_start b + b_size b \<le> buf_head q)
    else total_size (live q) = QUEUE_BYTES + buf_head q - buf_tail q \<and>
      (\<forall>b\<in>set (live q). buf_tail q \<le> b_start b \<and> b_start b + b_size b \<le> QUEUE_BYTES
        \<or> b_start b + b_size b \<le> buf_head q)"
proof -
  have c: "chain (buf_tail q) (live q) (buf_head q)" and r: "0 \<le> buf_tail q" "buf_tail q < QUEUE_BYTES"
    and s: "total_size (live q) \<le> QUEUE_BYTES"
    using assms by (auto simp: queue_inv_def)
  show ?thesis
  proof (cases "live q = []")
    case True
    with c show ?thesis by simp
  next
    case False
    then have "0 < total_size (live q)" using c chain_total_pos by blast
    with False chain_extent[OF c r s] s show ?thesis by (auto split: if_splits)
  qed
qed

lemma queue_inv_cong:
  assumes "queue_inv q" and "queue_fault q' = queue_fault q" and "buffers q' = buffers q"
    and "q_head q' = q_head q" and "q_tail q' = q_tail q" and "buf_head q' = buf_head q"
    and "buf_tail q' = buf_tail q" and "avail q' = avail q"
  shows "queue_inv q'" and "live q' = live q"
proof -
  show l: "live q' = live q" using assms by (simp add: live_def queue_count_def)
  show "queue_inv q'" using assms l by (simp add: queue_inv_def)
qed

lemma alloc_place_ok:
  assumes inv: "queue_inv q" and len: "0 \<le> len" and place: "alloc_place q len = Inr (room, q1)"
  shows "queue_inv q1 \<and> live q1 = live q \<and> room \<le> QUEUE_BYTES - buf_head q1 \<and> room \<le> avail q1 \<and>
    0 < room \<and> free_at q1 (buf_head q1) room \<and> queue_buffer q1 = queue_buffer q \<and>
    (q_head q1 + 1) mod MAX_QUEUE_DEPTH \<noteq> q_tail q1 \<and> debugging q1 = debugging q \<and>
    (live q = [] \<longrightarrow> room = QUEUE_BYTES) \<and>
    (buf_tail q1 > buf_head q1 \<longrightarrow> BUF_PREFIX_SIZE + len \<le> room)"
proof -
  have av: "BUF_PREFIX_SIZE + len \<le> avail q" and nf: "(q_head q + 1) mod MAX_QUEUE_DEPTH \<noteq> q_tail q"
    using place by (auto simp: alloc_place_def split: if_splits)
  have avq: "avail q = QUEUE_BYTES - total_size (live q)" using inv by (simp add: queue_inv_def)
  note ext = queue_inv_extent[OF inv]
  have rng: "0 \<le> buf_head q" "buf_head q < QUEUE_BYTES" "0 \<le> buf_tail q"
    using inv by (auto simp: queue_inv_def)
  have pre: "0 < BUF_PREFIX_SIZE" by (simp add: queue_consts)
  consider (empty) "buf_tail q = buf_head q" | (straight) "buf_tail q < buf_head q"
    | (wrapped) "buf_head q < buf_tail q" by linarith
  then show ?thesis
  proof cases
    case empty
    then have l: "live q = []" using ext av avq len pre by (auto split: if_splits)
    have q1: "q1 = q\<lparr>buf_tail := 0, buf_head := 0, avail := QUEUE_BYTES\<rparr>" and room: "room = QUEUE_BYTES"
      using place empty by (auto simp: alloc_place_def Let_def split: if_splits)
    have l1: "live q1 = []" using l q1 by (simp add: live_def queue_count_def)
    with inv q1 have "queue_inv q1" by (simp add: queue_inv_def queue_consts)
    with l l1 q1 room nf show ?thesis by (simp add: free_at_def queue_consts)
  next
    case straight
    then have q1: "q1 = q" and room: "room = QUEUE_BYTES - buf_head q"
      using place by (auto simp: alloc_place_def Let_def split: if_splits)
    have "free_at q (buf_head q) room" using ext straight by (auto simp: free_at_def split: if_splits)
    moreover have "room \<le> avail q" "live q \<noteq> []" using ext straight avq rng room by (auto split: if_splits)
    ultimately show ?thesis using inv q1 room nf rng straight by simp
  next
    case wrapped
    have ne: "live q \<noteq> []" using ext wrapped by auto
    have a: "avail q = buf_tail q - buf_head q" using ext ne wrapped avq by auto
    then have q1: "q1 = q" and room: "room = buf_tail q - buf_head q"
      using place wrapped av by (auto simp: alloc_place_def Let_def split: if_splits)
    have "free_at q (buf_head q) room"
      using ext ne wrapped room by (auto simp: free_at_def split: if_splits)
    moreover have "buf_tail q < QUEUE_BYTES" using inv by (simp add: queue_inv_def)
    ultimately show ?thesis using inv q1 room nf ne wrapped a av by simp
  qed
qed

lemma mod_QUEUE_BYTES_range: "0 \<le> x mod QUEUE_BYTES \<and> x mod QUEUE_BYTES < QUEUE_BYTES"
  by (simp add: queue_consts)

lemma enqueue_inv:
  assumes inv: "queue_inv q" and nf: "(q_head q + 1) mod MAX_QUEUE_DEPTH \<noteq> q_tail q"
    and b: "buf_ok b" "b_start b = buf_head q" "b_size b \<le> avail q"
    and q': "buffers q' = (buffers q)[nat (q_head q) := b]"
      "q_head q' = (q_head q + 1) mod MAX_QUEUE_DEPTH" "q_tail q' = q_tail q"
      "buf_head q' = b_next b" "buf_tail q' = buf_tail q" "avail q' = avail q - b_size b"
      "queue_fault q' = queue_fault q"
  shows "queue_inv q' \<and> live q' = live q @ [b]"
proof -
  have l: "live q' = live q @ [b]"
    using queue_inv_ptrs[OF inv] nf q'(1-3) by (rule live_enqueue)
  have "chain (buf_tail q') (live q') (buf_head q')"
    using inv b q' by (auto simp: l chain_append queue_inv_def)
  moreover have "0 \<le> q_head q' \<and> q_head q' < MAX_QUEUE_DEPTH" by (simp add: q' queue_consts)
  moreover have "0 \<le> buf_head q' \<and> buf_head q' < QUEUE_BYTES"
    using b(1) mod_QUEUE_BYTES_range by (simp add: q' buf_ok_def)
  ultimately show ?thesis
    using inv b q' l by (simp add: queue_inv_def)
qed

lemma record_view_write:
  assumes "buf_ok b" and "a + int (length bs) \<le> b_start b \<or> b_start b + b_size b \<le> a"
  shows "record_view (q\<lparr>queue_buffer := write_bytes m a bs\<rparr>) b = record_view (q\<lparr>queue_buffer := m\<rparr>) b"
  using assms by (auto simp: record_view_def buf_ok_def queue_consts intro!: read_write_disjoint)

lemma record_view_cong: "queue_buffer q' = queue_buffer q \<Longrightarrow> record_view q' b = record_view q b"
  by (simp add: record_view_def)

lemma queue_inv_buf_ok: "queue_inv q \<Longrightarrow> b \<in> set (live q) \<Longrightarrow> buf_ok b"
  by (auto simp: queue_inv_def intro: chain_buf_ok)

text \<open>Allocation: either nothing happened to the contents, or one record was added.\<close>

lemma alloc_record_error:
  assumes "queue_inv q" and "0 \<le> len" and "midi_queue_alloc_record q len hdr = (Inl e, d, q')"
  shows "queue_inv q'" and "live q' = live q" and "queue_buffer q' = queue_buffer q"
proof -
  define len1 where "len1 = (if len > MIDI_PAYLOAD_SIZE then MIDI_PAYLOAD_SIZE else len)"
  have l1: "0 \<le> len1" using assms(2) by (simp add: len1_def queue_consts)
  have "q' = q \<or> (\<exists>room. alloc_place q len1 = Inr (room, q'))"
    using assms(3) unfolding midi_queue_alloc_record_def Let_def len1_def[symmetric]
    by (auto split: if_splits sum.splits)
  then show "queue_inv q'" and "live q' = live q" and "queue_buffer q' = queue_buffer q"
    using assms(1) alloc_place_ok[OF assms(1) l1] by auto
qed

lemma alloc_record_ok:
  assumes inv: "queue_inv q" and len: "0 \<le> len"
    and alloc: "midi_queue_alloc_record q len hdr = (Inr n, d, q')"
  obtains b where "queue_inv q'" "live q' = live q @ [b]" "b_len b = n" "d = b_data b"
    "b_hdr b = (case hdr of None \<Rightarrow> zero_header | Some h \<Rightarrow> h)" "buf_ok b"
    "b_data b = b_start b + BUF_DATA_OFFSET" "queue_buffer q' = queue_buffer q"
    "\<forall>c\<in>set (live q). b_start b + b_size b \<le> b_start c \<or> b_start c + b_size c \<le> b_start b"
    "0 \<le> n" "n \<le> len" "n \<le> MIDI_PAYLOAD_SIZE" "live q = [] \<and> len \<le> MIDI_PAYLOAD_SIZE \<Longrightarrow> n = len"
    "0 < len \<Longrightarrow> 0 < n"
proof -
  define len1 where "len1 = (if len > MIDI_PAYLOAD_SIZE then MIDI_PAYLOAD_SIZE else len)"
  have l1: "0 \<le> len1" "len1 \<le> len" "len1 \<le> MIDI_PAYLOAD_SIZE" using len by (auto simp: len1_def queue_consts)
  from alloc obtain room q1 where place: "alloc_place q len1 = Inr (room, q1)"
    unfolding midi_queue_alloc_record_def Let_def len1_def[symmetric]
    by (auto split: if_splits sum.splits)
  note p = alloc_place_ok[OF inv l1(1) place]
  define m where "m = (if room < BUF_PREFIX_SIZE + len1 then room - BUF_PREFIX_SIZE else len1)"
  define b where "b = \<lparr>b_start = buf_head q1, b_len = m,
    b_hdr = (case hdr of None \<Rightarrow> zero_header | Some h' \<Rightarrow> h'),
    b_next = (buf_head q1 + BUF_PREFIX_SIZE + m) mod QUEUE_BYTES, b_size = BUF_PREFIX_SIZE + m,
    b_data = buf_head q1 + BUF_DATA_OFFSET\<rparr>"
  define q2 where "q2 = q1\<lparr>buf_head := b_next b, avail := avail q1 - b_size b,
    writecount := writecount q1 + m, buffers := (buffers q1)[nat (q_head q1) := b],
    q_head := (q_head q1 + 1) mod MAX_QUEUE_DEPTH\<rparr>"
  have run: "n = m \<and> d = b_data b \<and> q' = q2 \<and> (room < BUF_PREFIX_SIZE + len1 \<longrightarrow> 0 < m)"
    using alloc place unfolding midi_queue_alloc_record_def Let_def len1_def[symmetric]
    by (auto simp: m_def b_def q2_def split: if_splits)
  have m: "0 \<le> m" "m \<le> len1" "BUF_PREFIX_SIZE + m \<le> room"
    using run l1 by (auto simp: m_def split: if_splits)
  have h: "0 \<le> buf_head q1" using p by (auto simp: queue_inv_def)
  have bok: "buf_ok b" using m p h by (auto simp: buf_ok_def b_def queue_consts add.assoc)
  have "queue_inv q2 \<and> live q2 = live q1 @ [b]"
    using p m bok by (intro enqueue_inv) (auto simp: q2_def b_def)
  moreover have "\<forall>c\<in>set (live q). b_start b + b_size b \<le> b_start c \<or> b_start c + b_size c \<le> b_start b"
    using p m by (force simp: free_at_def b_def)
  moreover have "live q = [] \<and> len \<le> MIDI_PAYLOAD_SIZE \<Longrightarrow> m = len"
    using p by (auto simp: m_def len1_def queue_consts)
  moreover have "0 < len \<Longrightarrow> 0 < m"
    using run by (auto simp: m_def len1_def queue_consts)
  moreover have "live q1 = live q" "queue_buffer q1 = queue_buffer q" using p by simp_all
  moreover have "b_len b = m" "b_hdr b = (case hdr of None \<Rightarrow> zero_header | Some h \<Rightarrow> h)"
    "b_data b = b_start b + BUF_DATA_OFFSET" "queue_buffer q2 = queue_buffer q1"
    by (simp_all add: b_def q2_def)
  ultimately show ?thesis
    using run m bok l1 by (intro that[of b]) simp_all
qed

section \<open>Appending to the newest record\<close>

definition concat_safe :: "midi_queue \<Rightarrow> bool" where
  "concat_safe q \<longleftrightarrow> live q = [] \<or> b_next (last (live q)) \<noteq> 0"

lemma concat_False [simp]: "queue_concat q data hdr = (False, q') \<Longrightarrow> q' = q"
  by (auto simp: queue_concat_def Let_def split: if_splits)

lemma concat_no_header: "queue_concat q data None = (False, q)"
  by (simp add: queue_concat_def Let_def)

lemma concat_True_cases:
  assumes "queue_inv q" and "queue_concat q data hdr = (True, q')"
  obtains bs b h where "live q = bs @ [b]" "hdr = Some h" "hdr_time (b_hdr b) = hdr_time h"
    "b_next b = buf_head q" "int (length data) \<le> avail q"
    "b_len b + int (length data) \<le> MIDI_PAYLOAD_SIZE"
    "b_next b + int (length data) < QUEUE_BYTES - 1"
    "\<not> (b_next b < buf_tail q \<and> b_next b + int (length data) \<ge> buf_tail q)"
    "buf_tail q \<noteq> buf_head q"
    "buf_head q' = b_next b + int (length data)" "buf_tail q' = buf_tail q"
    "q_head q' = q_head q" "q_tail q' = q_tail q" "avail q' = avail q - int (length data)"
    "queue_buffer q' = write_bytes (queue_buffer q) (b_data b + b_len b) data"
    "queue_fault q' \<longleftrightarrow> queue_fault q \<or> data \<noteq> [] \<and>
       (b_data b + b_len b < 0 \<or> QUEUE_BYTES < b_data b + b_len b + int (length data))"
    "live q' = bs @ [b\<lparr>b_next := b_next b + int (length data), b_size := b_size b + int (length data),
       b_len := b_len b + int (length data)\<rparr>]"
    "length (buffers q') = length (buffers q)"
proof -
  define p where "p = (if q_head q - 1 < 0 then MAX_QUEUE_DEPTH - 1 else q_head q - 1)"
  define b where "b = buffers q ! nat p"
  define n where "n = int (length data)"
  define b' where "b' = b\<lparr>b_next := b_next b + n, b_size := b_size b + n, b_len := b_len b + n\<rparr>"
  note c = assms(2)[unfolded queue_concat_def Let_def, folded p_def, folded b_def n_def, folded b'_def]
  have cond: "buf_tail q \<noteq> buf_head q" "n \<le> avail q" "q_tail q \<noteq> q_head q" "hdr \<noteq> None"
    "hdr_time (b_hdr b) = hdr_time (the hdr)" "b_len b + n \<le> MIDI_PAYLOAD_SIZE"
    "b_next b + n < QUEUE_BYTES - 1" "\<not> (b_next b < buf_tail q \<and> b_next b + n \<ge> buf_tail q)"
    and q': "q' = (queue_store q (b_data b + b_len b) data)\<lparr>avail := avail q - n,
       writecount := writecount q + n, buffers := (buffers q)[nat p := b'], buf_head := b_next b + n\<rparr>"
    using c by (auto simp: queue_store_def b'_def split: if_splits)
  have ne: "q_head q \<noteq> q_tail q" using cond(3) by simp
  have lq: "live q' = butlast (live q) @ [b']" "live q = butlast (live q) @ [b]"
    using live_update_last[OF queue_inv_ptrs[OF assms(1)] ne p_def, of q' b']
    by (auto simp: q' queue_store_def b_def)
  have nx: "b_next b = buf_head q"
    using assms(1) lq(2) unfolding queue_inv_def
    by (metis chain.simps(1) chain.simps(2) chain_append)
  obtain h where h: "hdr = Some h" using cond(4) by blast
  show ?thesis
    by (rule that[of "butlast (live q)" b h])
       (use lq nx h cond in \<open>simp_all add: q' queue_store_def b'_def n_def[symmetric]\<close>)
qed

lemma concat_ok:
  assumes inv: "queue_inv q" and safe: "concat_safe q" and run: "queue_concat q data hdr = (True, q')"
  shows "queue_inv q' \<and> msgs q \<noteq> [] \<and>
    msgs q' = butlast (msgs q) @ [(fst (last (msgs q)) @ data, snd (last (msgs q)))]"
proof -
  obtain bs b h where l: "live q = bs @ [b]" and nxt: "b_next b = buf_head q"
    and av: "int (length data) \<le> avail q" and grow: "b_next b + int (length data) < QUEUE_BYTES - 1"
    and room: "\<not> (b_next b < buf_tail q \<and> b_next b + int (length data) \<ge> buf_tail q)"
    and ne: "buf_tail q \<noteq> buf_head q"
    and q': "buf_head q' = b_next b + int (length data)" "buf_tail q' = buf_tail q"
      "q_head q' = q_head q" "q_tail q' = q_tail q" "avail q' = avail q - int (length data)"
      "queue_buffer q' = write_bytes (queue_buffer q) (b_data b + b_len b) data"
      "queue_fault q' \<longleftrightarrow> queue_fault q \<or> data \<noteq> [] \<and>
         (b_data b + b_len b < 0 \<or> QUEUE_BYTES < b_data b + b_len b + int (length data))"
    and l': "live q' = bs @ [b\<lparr>b_next := b_next b + int (length data),
       b_size := b_size b + int (length data), b_len := b_len b + int (length data)\<rparr>]"
    and len: "length (buffers q') = length (buffers q)"
    using concat_True_cases[OF inv run] by metis
  define n where "n = int (length data)"
  define b' where "b' = b\<lparr>b_next := b_next b + n, b_size := b_size b + n, b_len := b_len b + n\<rparr>"
  have n: "0 \<le> n" by (simp add: n_def)
  have ch: "chain (buf_tail q) bs (b_start b)" and bok: "buf_ok b"
    using inv l by (auto simp: queue_inv_def chain_append)
  have S: "total_size bs + b_size b \<le> QUEUE_BYTES" "0 \<le> total_size bs" "0 < b_size b"
    using inv l total_size_nonneg[OF ch] bok by (auto simp: queue_inv_def buf_ok_def queue_consts)
  have nz: "b_next b \<noteq> 0" using safe l by (simp add: concat_safe_def)
  then have end1: "b_start b + b_size b = b_next b"
    using bok mod_pos_pos_trivial[of "b_start b + b_size b" QUEUE_BYTES]
    by (cases "b_start b + b_size b = QUEUE_BYTES") (auto simp: buf_ok_def queue_consts)
  have bok': "buf_ok b'"
    using bok end1 grow n n_def by (auto simp: buf_ok_def b'_def queue_consts)
  have ext: "if buf_tail q + total_size bs < QUEUE_BYTES
    then b_start b = buf_tail q + total_size bs \<and>
      (\<forall>c\<in>set bs. buf_tail q \<le> b_start c \<and> b_start c + b_size c \<le> b_start b)
    else b_start b = buf_tail q + total_size bs - QUEUE_BYTES \<and>
      (\<forall>c\<in>set bs. buf_tail q \<le> b_start c \<and> b_start c + b_size c \<le> QUEUE_BYTES
        \<or> b_start c + b_size c \<le> b_start b)"
    using inv S by (intro chain_extent[OF ch]) (auto simp: queue_inv_def)
  have disj: "b_data b + b_len b + n \<le> b_start c \<or> b_start c + b_size c \<le> b_data b + b_len b"
    if "c \<in> set bs" for c
  proof -
    have at: "b_start b + BUF_DATA_OFFSET \<le> b_data b + b_len b" "b_data b + b_len b + 7 = b_next b"
      using bok end1 by (auto simp: buf_ok_def)
    show ?thesis
    proof (cases "buf_tail q + total_size bs < QUEUE_BYTES")
      case True
      with ext that at show ?thesis by (force simp: queue_consts)
    next
      case False
      with ext S end1 nxt ne room n_def
      have "b_next b + n \<le> buf_tail q" "b_start b < buf_tail q" by auto
      with ext False that at show ?thesis by (force simp: queue_consts)
    qed
  qed
  have l2: "live q' = bs @ [b']" using l' by (simp add: b'_def n_def)
  have "\<not> queue_fault q'"
    using inv bok bok' q'(7) by (auto simp: queue_inv_def buf_ok_def b'_def queue_consts n_def)
  moreover have "chain (buf_tail q) (live q') (b_next b + n)"
    using ch bok' bok unfolding l2 chain_append by (auto simp: b'_def buf_ok_def)
  moreover have "0 \<le> b_next b" using bok mod_QUEUE_BYTES_range by (simp add: buf_ok_def)
  ultimately have inv': "queue_inv q'"
    using inv av len grow n l l2 by (simp add: queue_inv_def q' b'_def n_def)
  have others: "record_view q' c = record_view q c" if "c \<in> set bs" for c
    using record_view_write[of c "b_data b + b_len b" data "queue_buffer q" q] disj[OF that]
      queue_inv_buf_ok[OF inv, of c] that l
    by (simp add: record_view_def q'(6) n_def)
  have newest: "record_view q' b' = (fst (record_view q b) @ data, b_hdr b)"
    using read_bytes_append[of "b_len b" n "queue_buffer q'" "b_data b"] bok n
      read_write_same[of n data "queue_buffer q" "b_data b + b_len b"]
      read_write_disjoint[of "b_data b" "b_len b" "b_data b + b_len b" data "queue_buffer q"]
    by (simp add: record_view_def b'_def q'(6) n_def buf_ok_def)
  have "msgs q' = map (record_view q) bs @ [(fst (record_view q b) @ data, b_hdr b)]"
    using others newest by (simp add: msgs_def l2)
  moreover have "msgs q = map (record_view q) bs @ [record_view q b]"
    by (simp add: msgs_def l)
  ultimately show ?thesis
    using inv' by (simp add: record_view_def)
qed

section \<open>What the operations do to the list of messages\<close>

definition header_of :: "packet_header option \<Rightarrow> packet_header" where
  "header_of hdr = (case hdr of None \<Rightarrow> zero_header | Some h \<Rightarrow> h)"

text \<open>
  The contract of a put: on an error nothing changed; otherwise the first \<open>n\<close> bytes were
  taken, either as a message of their own or, for a single byte with the time stamp of the
  newest message, at the end of that message.
\<close>

definition put_effect ::
  "(bytes \<times> packet_header) list \<Rightarrow> bytes \<Rightarrow> packet_header option \<Rightarrow> int oss_result \<Rightarrow>
   (bytes \<times> packet_header) list \<Rightarrow> bool" where
  "put_effect ms data hdr r ms' \<longleftrightarrow>
     (case r of
        Inl e \<Rightarrow> ms' = ms
      | Inr n \<Rightarrow> 0 \<le> n \<and> n \<le> int (length data) \<and>
          (ms' = ms @ (if n = 0 then [] else [(take (nat n) data, header_of hdr)]) \<or>
           (\<exists>h. hdr = Some h \<and> length data = 1 \<and> n = 1 \<and> ms \<noteq> [] \<and>
              hdr_time (snd (last ms)) = hdr_time h \<and>
              ms' = butlast ms @ [(fst (last ms) @ data, snd (last ms))])))"

lemma msgs_cong:
  assumes "queue_buffer q' = queue_buffer q" and "live q' = live q"
  shows "msgs q' = msgs q"
  using assms by (simp add: msgs_def record_view_def)

lemma alloc_store_msgs:
  assumes inv: "queue_inv q" and alloc: "midi_queue_alloc_record q (int (length data)) hdr = (Inr n, d, q2)"
    and q3: "q3 = queue_store (q2\<lparr>debugging := x\<rparr>) d (take (nat n) data)"
  shows "queue_inv q3" and "msgs q3 = msgs q @ [(take (nat n) data, header_of hdr)]"
    and "0 \<le> n" and "n \<le> int (length data)" and "data \<noteq> [] \<Longrightarrow> 0 < n"
    and "buf_head q3 < QUEUE_BYTES" and "buf_tail q3 < QUEUE_BYTES"
proof -
  obtain b where b: "queue_inv q2" "live q2 = live q @ [b]" "b_len b = n" "d = b_data b"
    "b_hdr b = header_of hdr" "buf_ok b" "b_data b = b_start b + BUF_DATA_OFFSET"
    "queue_buffer q2 = queue_buffer q"
    "\<forall>c\<in>set (live q). b_start b + b_size b \<le> b_start c \<or> b_start c + b_size c \<le> b_start b"
    "0 \<le> n" "n \<le> int (length data)" "0 < int (length data) \<longrightarrow> 0 < n"
    using alloc_record_ok[OF inv _ alloc] unfolding header_of_def by (metis of_nat_0_le_iff)
  define bs where "bs = take (nat n) data"
  have lbs: "int (length bs) = n" using b(10,11) by (auto simp: bs_def min_def)
  have fl: "queue_fault q3 = queue_fault q2"
    using b(4,6,10) lbs by (auto simp: q3 queue_store_def buf_ok_def bs_def[symmetric] b(3) queue_consts)
  show inv3: "queue_inv q3"
    using b(1) fl by (rule queue_inv_cong) (simp_all add: q3 queue_store_def)
  have l3: "live q3 = live q2"
    using b(1) fl by (rule queue_inv_cong) (simp_all add: q3 queue_store_def)
  have m3: "queue_buffer q3 = write_bytes (queue_buffer q) d bs"
    using b(8) by (simp add: q3 queue_store_def bs_def)
  have "record_view q3 c = record_view q c" if c: "c \<in> set (live q)" for c
  proof -
    have "buf_ok c" using inv c by (rule queue_inv_buf_ok)
    moreover have "d + int (length bs) \<le> b_start c \<or> b_start c + b_size c \<le> d"
      using bspec[OF b(9) c] b(4,6) lbs by (auto simp: buf_ok_def b(3) queue_consts)
    ultimately show ?thesis
      using record_view_write[of c d bs "queue_buffer q" q] by (simp add: record_view_def m3)
  qed
  moreover have "record_view q3 b = (bs, header_of hdr)"
    using read_write_same[of n bs "queue_buffer q" d] b(3-5) lbs by (simp add: record_view_def m3)
  ultimately show "msgs q3 = msgs q @ [(take (nat n) data, header_of hdr)]"
    by (simp add: msgs_def l3 b(2) bs_def)
  show "0 \<le> n" and "n \<le> int (length data)" and "data \<noteq> [] \<Longrightarrow> 0 < n" using b by auto
  show "buf_head q3 < QUEUE_BYTES" and "buf_tail q3 < QUEUE_BYTES"
    using inv3 by (auto simp: queue_inv_def)
qed

lemma queue_inv_debugging: "queue_inv (q\<lparr>debugging := x\<rparr>) = queue_inv q"
  and live_debugging: "live (q\<lparr>debugging := x\<rparr>) = live q"
  and msgs_debugging: "msgs (q\<lparr>debugging := x\<rparr>) = msgs q"
  by (simp_all add: queue_inv_def live_def msgs_def record_view_def queue_count_def)

lemma put_spec:
  assumes inv: "queue_inv q" and safe: "hdr = None \<or> concat_safe q"
    and put: "midi_queue_put q data hdr = (r, q')"
  shows "queue_inv q' \<and> put_effect (msgs q) data hdr r (msgs q')"
proof -
  let ?len = "int (length data)"
  consider (trivial) "q' = q" "r = Inr 0 \<or> r = Inl OSS_E2BIG"
    | (merged) "length data = 1" "queue_concat q data hdr = (True, q')" "r = Inr ?len"
    | (failed) e d q2 where "midi_queue_alloc_record (q\<lparr>debugging := 1\<rparr>) ?len hdr = (Inl e, d, q2)"
        "r = Inl e" "q' = q2"
    | (stored) n d q2 where "midi_queue_alloc_record (q\<lparr>debugging := 1\<rparr>) ?len hdr = (Inr n, d, q2)"
        "0 < n" "q' = queue_store (q2\<lparr>debugging := 0\<rparr>) d (take (nat (if n < ?len then n else ?len)) data)"
        "r = (if buf_head q' \<ge> QUEUE_BYTES \<or> buf_tail q' \<ge> QUEUE_BYTES then Inl OSS_EIO
          else Inr (if n < ?len then n else ?len))"
    | (empty) n d q2 where "midi_queue_alloc_record (q\<lparr>debugging := 1\<rparr>) ?len hdr = (Inr n, d, q2)"
        "n \<le> 0" "data \<noteq> []"
    using put unfolding midi_queue_put_def Let_def
    by (auto split: if_splits prod.splits bool.splits sum.splits dest!: concat_False)
  then show ?thesis
  proof cases
    case trivial
    with inv show ?thesis by (auto simp: put_effect_def)
  next
    case merged
    obtain bs b h where l: "live q = bs @ [b]" and h: "hdr = Some h" "hdr_time (b_hdr b) = hdr_time h"
      by (rule concat_True_cases[OF inv merged(2)]) blast
    have "hdr_time (snd (last (msgs q))) = hdr_time h"
      using h by (simp add: msgs_def l record_view_def)
    moreover have "concat_safe q" using safe merged(2) concat_no_header[of q data] by auto
    ultimately show ?thesis
      using concat_ok[OF inv _ merged(2)] merged h(1) by (auto simp: put_effect_def)
  next
    case failed
    from alloc_record_error[OF _ _ failed(1)] inv show ?thesis
      by (auto simp: failed put_effect_def queue_inv_debugging live_debugging msgs_def record_view_def)
  next
    case stored
    have i: "queue_inv (q\<lparr>debugging := 1\<rparr>)" using inv by (simp add: queue_inv_debugging)
    have n: "(if n < ?len then n else ?len) = n"
      using alloc_store_msgs(4)[OF i stored(1) refl] by auto
    show ?thesis
      using alloc_store_msgs[OF i stored(1) stored(3)[unfolded n]] stored(2) stored(4)[unfolded n]
      by (auto simp: put_effect_def msgs_debugging)
  next
    case empty
    have i: "queue_inv (q\<lparr>debugging := 1\<rparr>)" using inv by (simp add: queue_inv_debugging)
    from alloc_store_msgs(5)[OF i empty(1) refl empty(3)] empty(2) show ?thesis by simp
  qed
qed

lemma msgs_Nil_iff: "queue_inv q \<Longrightarrow> msgs q = [] \<longleftrightarrow> q_head q = q_tail q"
  by (simp add: msgs_def live_empty_iff queue_inv_ptrs)

lemma live_hd:
  assumes "queue_inv q" and "q_head q \<noteq> q_tail q"
  shows "live q = buffers q ! nat (q_tail q) # tl (live q)"
  using live_dequeue[OF queue_inv_ptrs[OF assms(1)] assms(2),
    of "q\<lparr>q_tail := (q_tail q + 1) mod MAX_QUEUE_DEPTH\<rparr>"] by simp

lemma record_view_length: "buf_ok b \<Longrightarrow> int (length (fst (record_view q b))) = b_len b"
  by (simp add: record_view_def buf_ok_def)

lemma find_buffer_spec:
  assumes "queue_inv q"
  shows "midi_queue_find_buffer q = (case msgs q of [] \<Rightarrow> (Inr 0, None)
    | m # ms \<Rightarrow> (Inr (int (length (fst m))), Some m))"
proof (cases "q_head q = q_tail q")
  case True
  then have "msgs q = []" using assms by (simp add: msgs_Nil_iff)
  with True show ?thesis by (simp add: midi_queue_find_buffer_def)
next
  case False
  note l = live_hd[OF assms False]
  have "buf_ok (buffers q ! nat (q_tail q))"
    using assms l queue_inv_buf_ok by (metis list.set_intros(1))
  moreover have "msgs q = record_view q (buffers q ! nat (q_tail q)) # map (record_view q) (tl (live q))"
    unfolding msgs_def by (subst l) simp
  ultimately show ?thesis
    using False by (simp add: midi_queue_find_buffer_def record_view_length Let_def)
qed

lemma dequeue_inv:
  assumes inv: "queue_inv q" and ne: "q_head q \<noteq> q_tail q"
    and q': "buffers q' = buffers q" "q_head q' = q_head q"
      "q_tail q' = (q_tail q + 1) mod MAX_QUEUE_DEPTH"
      "buf_tail q' = b_next (buffers q ! nat (q_tail q))" "buf_head q' = buf_head q"
      "avail q' = avail q + b_size (buffers q ! nat (q_tail q))"
      "queue_fault q' = queue_fault q" "queue_buffer q' = queue_buffer q"
  shows "queue_inv q'" and "live q = buffers q ! nat (q_tail q) # live q'"
    and "msgs q = record_view q (buffers q ! nat (q_tail q)) # msgs q'"
    and "buf_ok (buffers q ! nat (q_tail q))"
    and "buf_tail q' = buf_head q' \<Longrightarrow> live q' = []"
proof -
  let ?b = "buffers q ! nat (q_tail q)"
  show l: "live q = ?b # live q'"
    using queue_inv_ptrs[OF inv] ne q'(1-3) by (rule live_dequeue)
  show bok: "buf_ok ?b" using inv l queue_inv_buf_ok by (metis list.set_intros(1))
  then have rng: "0 \<le> b_next ?b" "b_next ?b < QUEUE_BYTES" "0 < b_size ?b"
    using mod_QUEUE_BYTES_range by (auto simp: buf_ok_def queue_consts)
  have "0 \<le> q_tail q' \<and> q_tail q' < MAX_QUEUE_DEPTH" by (simp add: q' queue_consts)
  with inv l rng show inv': "queue_inv q'" by (auto simp: queue_inv_def q')
  show "msgs q = record_view q ?b # msgs q'"
    by (simp add: msgs_def l record_view_def q')
  show "live q' = []" if "buf_tail q' = buf_head q'"
    using queue_inv_extent[OF inv'] that inv l rng by (auto simp: queue_inv_def split: if_splits)
qed

lemma get_spec:
  assumes "queue_inv q" and "midi_queue_get q = (r, v, q')"
  shows "queue_inv q' \<and> (case msgs q of [] \<Rightarrow> r = Inr 0 \<and> v = None \<and> q' = q
    | m # ms \<Rightarrow> r = Inr (int (length (fst m))) \<and> v = Some m \<and> msgs q' = ms)"
proof (cases "q_head q = q_tail q")
  case True
  then have "msgs q = []" using assms by (simp add: msgs_Nil_iff)
  moreover have "buf_head q < QUEUE_BYTES" "buf_tail q < QUEUE_BYTES"
    using assms(1) by (simp_all add: queue_inv_def)
  ultimately show ?thesis using True assms by (simp add: midi_queue_get_def)
next
  case False
  define q1 where "q1 = q\<lparr>q_tail := (q_tail q + 1) mod MAX_QUEUE_DEPTH,
    buf_tail := b_next (buffers q ! nat (q_tail q)),
    avail := avail q + b_size (buffers q ! nat (q_tail q)),
    readcount := readcount q + b_size (buffers q ! nat (q_tail q))\<rparr>"
  have "r = Inr (b_len (buffers q ! nat (q_tail q)))" "q' = q1"
    "v = Some (record_view q (buffers q ! nat (q_tail q)))"
    using assms False by (auto simp: midi_queue_get_def queue_inv_def q1_def Let_def)
  moreover note dequeue_inv[OF assms(1) False, of q1]
  ultimately show ?thesis by (simp add: q1_def record_view_length)
qed

lemma chain_replace_first:
  "chain t (b # bs) h \<Longrightarrow> buf_ok b' \<Longrightarrow> b_start b' = b_start b \<Longrightarrow> b_next b' = b_next b \<Longrightarrow>
   chain t (b' # bs) h"
  by simp

lemma remove_chars_spec:
  assumes inv: "queue_inv q" and len: "0 \<le> len"
  shows "queue_inv (midi_queue_remove_chars q len) \<and>
    msgs (midi_queue_remove_chars q len) = (case msgs q of [] \<Rightarrow> []
      | m # ms \<Rightarrow> if len < int (length (fst m)) then (drop (nat len) (fst m), snd m) # ms else ms)"
proof (cases "q_head q = q_tail q")
  case True
  then have "msgs q = []" using inv by (simp add: msgs_Nil_iff)
  with True inv show ?thesis by (simp add: midi_queue_remove_chars_def)
next
  case ne: False
  let ?b = "buffers q ! nat (q_tail q)"
  define q1 where "q1 = q\<lparr>q_tail := (q_tail q + 1) mod MAX_QUEUE_DEPTH, buf_tail := b_next ?b,
    avail := avail q + b_size ?b, readcount := readcount q + len\<rparr>"
  note deq = dequeue_inv[OF inv ne, of q1]
  have d: "queue_inv q1" "msgs q = record_view q ?b # msgs q1" "buf_ok ?b" "live q = ?b # live q1"
    "buf_tail q1 = buf_head q1 \<Longrightarrow> live q1 = []"
    using deq by (simp_all add: q1_def)
  show ?thesis
  proof (cases "len < b_len ?b")
    case True
    define b' where "b' = ?b\<lparr>b_data := b_data ?b + len, b_len := b_len ?b - len\<rparr>"
    define q2 where "q2 = q\<lparr>buffers := (buffers q)[nat (q_tail q) := b'], readcount := readcount q + len\<rparr>"
    have run: "midi_queue_remove_chars q len = q2"
      using ne True by (simp add: midi_queue_remove_chars_def Let_def q2_def b'_def)
    have l2: "live q2 = b' # live q1"
      using live_update_first[OF queue_inv_ptrs[OF inv] ne, of q2 b'] d(4) by (simp add: q2_def)
    have bok': "buf_ok b'" using d(3) len True by (auto simp: buf_ok_def b'_def)
    have "chain (buf_tail q) (b' # live q1) (buf_head q)"
      using inv bok' unfolding queue_inv_def d(4) by (auto simp: b'_def)
    then have "queue_inv q2"
      using inv l2 d(4) by (auto simp: queue_inv_def q2_def b'_def)
    moreover have "record_view q2 b' = (drop (nat len) (fst (record_view q ?b)), snd (record_view q ?b))"
      using drop_read_bytes[of len "b_len ?b" "queue_buffer q" "b_data ?b"] len True
      by (simp add: record_view_def q2_def b'_def)
    moreover have "map (record_view q2) (live q1) = msgs q1"
      by (simp add: msgs_def record_view_def q2_def q1_def)
    ultimately show ?thesis
      using run d(2) True record_view_length[OF d(3)] by (simp add: msgs_def l2)
  next
    case False
    define q2 where "q2 = (if buf_tail q1 = buf_head q1 then q1\<lparr>buf_tail := 0, buf_head := 0\<rparr> else q1)"
    define q3 where "q3 = (if q_tail q2 = q_head q2 then q2\<lparr>q_tail := 0, q_head := 0\<rparr> else q2)"
    have run: "midi_queue_remove_chars q len = q3"
      using ne False unfolding midi_queue_remove_chars_def Let_def q1_def[symmetric]
      by (simp add: q2_def q3_def)
    have emp: "live q1 = [] \<longleftrightarrow> q_head q1 = q_tail q1"
      using live_empty_iff queue_inv_ptrs d(1) by blast
    have "queue_inv q3 \<and> live q3 = live q1"
    proof (cases "live q1 = []")
      case True
      then have "buf_tail q1 = buf_head q1" using d(1) by (simp add: queue_inv_def)
      with True emp have q3: "q3 = q1\<lparr>buf_tail := 0, buf_head := 0, q_tail := 0, q_head := 0\<rparr>"
        by (simp add: q3_def q2_def)
      then have "live q3 = []" by (simp add: live_def queue_count_def)
      with True d(1) q3 show ?thesis by (simp add: queue_inv_def queue_consts)
    next
      case False
      with d(5) emp have "q3 = q1" by (auto simp: q3_def q2_def)
      with d(1) show ?thesis by simp
    qed
    moreover have "queue_buffer q3 = queue_buffer q1" by (simp add: q3_def q2_def)
    ultimately show ?thesis
      using run d(2) False record_view_length[OF d(3)] msgs_cong[of q3 q1] by simp
  qed
qed

lemma removeall_spec:
  assumes "queue_inv q"
  shows "queue_inv (midi_queue_removeall q) \<and> msgs (midi_queue_removeall q) = []"
proof -
  have "live (midi_queue_removeall q) = []"
    by (simp add: live_def queue_count_def midi_queue_removeall_def)
  with assms show ?thesis
    by (simp add: queue_inv_def msgs_def midi_queue_removeall_def queue_consts)
qed

lemma alloc_spec:
  "midi_queue_alloc ok = Some q \<Longrightarrow> queue_inv q \<and> msgs q = []"
  by (auto simp: midi_queue_alloc_def queue_inv_def msgs_def live_def queue_count_def queue_consts
      split: if_splits)

lemma isempty_spec: "queue_inv q \<Longrightarrow> midi_queue_isempty q \<longleftrightarrow> msgs q = []"
  by (auto simp: midi_queue_isempty_def msgs_Nil_iff)

section \<open>The queue as a pipe of bytes\<close>

definition queue_stream :: "midi_queue \<Rightarrow> bytes" where
  "queue_stream q = concat (map fst (msgs q))"

definition queue_offer :: "bytes \<Rightarrow> midi_queue \<Rightarrow> nat \<times> midi_queue" where
  "queue_offer d q = (case midi_queue_put q d None of
     (Inl e, q') \<Rightarrow> (0, q') | (Inr n, q') \<Rightarrow> (nat n, q'))"

text \<open>How a reader drains the queue: look at the oldest message, then remove what was used.\<close>

definition queue_fetch :: "nat \<Rightarrow> midi_queue \<Rightarrow> bytes \<times> midi_queue" where
  "queue_fetch k q = (case midi_queue_find_buffer q of
     (r, None) \<Rightarrow> ([], q)
   | (r, Some (bs, h)) \<Rightarrow> (take k bs, midi_queue_remove_chars q (int (min k (length bs)))))"

lemma queue_offer_law:
  assumes "queue_inv q" and "queue_offer d q = (n, q')"
  shows "queue_inv q' \<and> n \<le> length d \<and> queue_stream q' = queue_stream q @ take n d"
proof -
  obtain r q1 where p: "midi_queue_put q d None = (r, q1)" by fastforce
  have "queue_inv q1 \<and> put_effect (msgs q) d None r (msgs q1)"
    using assms(1) p by (intro put_spec) auto
  with assms(2) p show ?thesis
    by (auto simp: queue_offer_def put_effect_def queue_stream_def split: sum.splits)
qed

lemma queue_fetch_law:
  assumes "queue_inv q" and "queue_fetch k q = (out, q')"
  shows "queue_inv q' \<and> queue_stream q = out @ queue_stream q'"
proof (cases "msgs q")
  case Nil
  with assms find_buffer_spec[OF assms(1)] show ?thesis by (simp add: queue_fetch_def)
next
  case (Cons m ms)
  define n where "n = int (min k (length (fst m)))"
  have q': "q' = midi_queue_remove_chars q n" and out: "out = take k (fst m)"
    using assms(2) find_buffer_spec[OF assms(1)] Cons
    by (auto simp: queue_fetch_def n_def split: prod.splits)
  have "queue_inv q' \<and> msgs q' = (if n < int (length (fst m)) then (drop (nat n) (fst m), snd m) # ms else ms)"
    using remove_chars_spec[OF assms(1), of n] Cons by (simp add: q' n_def)
  then show ?thesis
    using out Cons by (auto simp: queue_stream_def n_def min_def split: if_splits)
qed

lemma put_empty:
  assumes inv: "queue_inv q" and "msgs q = []" and "int (length d) \<le> MIDI_PAYLOAD_SIZE"
  shows "fst (midi_queue_put q d hdr) = Inr (int (length d))"
proof (cases "d = []")
  case True
  then show ?thesis by (simp add: midi_queue_put_def)
next
  case False
  have e: "live q = []" "q_head q = q_tail q" "buf_tail q = buf_head q" "avail q = QUEUE_BYTES"
    using assms live_empty_iff[OF queue_inv_ptrs[OF inv]] by (auto simp: msgs_def queue_inv_def)
  have c: "queue_concat q d hdr = (False, q)" by (simp add: queue_concat_def Let_def e)
  let ?q1 = "q\<lparr>debugging := 1\<rparr>"
  have i: "queue_inv ?q1" using inv by (simp add: queue_inv_debugging)
  have pl: "alloc_place ?q1 (int (length d)) =
      Inr (QUEUE_BYTES, ?q1\<lparr>buf_tail := 0, buf_head := 0, avail := QUEUE_BYTES\<rparr>)"
    using e assms(3) mod_add_one_ring[of "q_tail q" 31] inv
    by (auto simp: alloc_place_def queue_consts queue_inv_def Let_def)
  then obtain t q2 where a: "midi_queue_alloc_record ?q1 (int (length d)) hdr = (Inr (int (length d)), t, q2)"
    using False assms(3) by (auto simp: midi_queue_alloc_record_def queue_consts Let_def)
  have h: "buf_head (queue_store (q2\<lparr>debugging := 0\<rparr>) t d) < QUEUE_BYTES"
    "buf_tail (queue_store (q2\<lparr>debugging := 0\<rparr>) t d) < QUEUE_BYTES"
    using alloc_store_msgs(6,7)[OF i a refl, of 0] by simp_all
  have "0 < int (length d)" using False by simp
  then show ?thesis
    using assms(3) c a h by (cases "length d = 1") (simp_all add: midi_queue_put_def Let_def)
qed

interpretation mq: byte_pipe queue_inv queue_stream queue_offer queue_fetch
  by unfold_locales (rule queue_offer_law queue_fetch_law; assumption)+

interpretation mqp: progress_pipe queue_inv queue_stream queue_offer queue_fetch
    "\<lambda>q. msgs q = []" "nat MIDI_PAYLOAD_SIZE"
  by unfold_locales
    (auto simp: queue_offer_def queue_consts split: prod.splits sum.splits dest: put_empty[of _ _ None])

end
