(* ===== verification/Midi_Queue_Reach.thy ===== *)
theory Midi_Queue_Reach
  imports Midi_Queue_Laws
begin

text \<open>
  The states a MIDI queue can get into. Without packet headers (the traditional mode) every
  reachable queue keeps the invariant. With headers it need not: a single byte appended to a
  record that ends at the end of the ring is written past the ring.
\<close>

inductive queue_reach :: "bool \<Rightarrow> midi_queue \<Rightarrow> bool" for timed :: bool where
  fresh: "midi_queue_alloc True = Some q \<Longrightarrow> queue_reach timed q"
| put: "queue_reach timed q \<Longrightarrow> hdr = None \<or> timed \<Longrightarrow>
    queue_reach timed (snd (midi_queue_put q data hdr))"
| get: "queue_reach timed q \<Longrightarrow> queue_reach timed (snd (snd (midi_queue_get q)))"
| remove_chars: "queue_reach timed q \<Longrightarrow> 0 \<le> len \<Longrightarrow>
    queue_reach timed (midi_queue_remove_chars q len)"
| removeall: "queue_reach timed q \<Longrightarrow> queue_reach timed (midi_queue_removeall q)"

lemma untimed_reach_inv: "queue_reach False q \<Longrightarrow> queue_inv q"
proof (induction rule: queue_reach.induct)
  case (fresh q)
  then show ?case using alloc_spec by blast
next
  case (put q hdr data)
  obtain r q' where "midi_queue_put q data hdr = (r, q')" by fastforce
  with put put_spec[of q hdr data r q'] show ?case by auto
next
  case (get q)
  obtain r v q' where "midi_queue_get q = (r, v, q')" using prod_cases3 by blast
  with get get_spec[of q r v q'] show ?case by auto
next
  case (remove_chars q len)
  with remove_chars_spec show ?case by blast
next
  case (removeall q)
  with removeall_spec show ?case by blast
qed

section \<open>A run to the end of the ring\<close>

text \<open>One record of 1000 bytes (937 of data) just below offset \<open>h\<close>.\<close>

definition one_record :: "int \<Rightarrow> midi_queue \<Rightarrow> bool" where
  "one_record h q \<longleftrightarrow> queue_inv q \<and> length (live q) = 1 \<and> buf_tail q = h - 1000 \<and> buf_head q = h"

lemma one_record_facts:
  assumes "one_record h q" and "1000 \<le> h"
  shows "avail q = QUEUE_BYTES - 1000" and "(q_head q + 1) mod MAX_QUEUE_DEPTH \<noteq> q_tail q"
    and "q_head q \<noteq> q_tail q" and "live q = [buffers q ! nat (q_tail q)]"
    and "b_len (buffers q ! nat (q_tail q)) \<le> 937" and "b_next (buffers q ! nat (q_tail q)) = h"
    and "q_head q = (q_tail q + 1) mod MAX_QUEUE_DEPTH"
proof -
  have inv: "queue_inv q" and len: "length (live q) = 1" using assms by (auto simp: one_record_def)
  note p = queue_inv_ptrs[OF inv]
  have c: "queue_count q = 1" using len by (simp add: live_def)
  show nf: "(q_head q + 1) mod MAX_QUEUE_DEPTH \<noteq> q_tail q" and ne: "q_head q \<noteq> q_tail q"
    and "q_head q = (q_tail q + 1) mod MAX_QUEUE_DEPTH"
    using queue_count_eq[OF p] c p mod_add_one_ring[of "q_head q" 31] mod_add_one_ring[of "q_tail q" 31]
    by (auto simp: ptrs_ok_def queue_consts split: if_splits)
  show l: "live q = [buffers q ! nat (q_tail q)]"
    using live_hd[OF inv ne] len by (cases "live q") auto
  have ext: "total_size (live q) = 1000"
    using queue_inv_extent[OF inv] assms by (auto simp: one_record_def l split: if_splits)
  then show "avail q = QUEUE_BYTES - 1000" using inv by (simp add: queue_inv_def)
  have bok: "buf_ok (buffers q ! nat (q_tail q))" using queue_inv_buf_ok[OF inv] l by simp
  with ext l show "b_len (buffers q ! nat (q_tail q)) \<le> 937" by (simp add: buf_ok_def queue_consts)
  show "b_next (buffers q ! nat (q_tail q)) = h"
    using inv l assms(1) by (auto simp: queue_inv_def one_record_def)
qed

lemma alloc_after_one_record:
  assumes "one_record h q" and "1000 \<le> h" and "0 < len" and "len \<le> MIDI_PAYLOAD_SIZE"
    and "n = (if QUEUE_BYTES - h < BUF_PREFIX_SIZE + len then QUEUE_BYTES - h - BUF_PREFIX_SIZE else len)"
    and "0 < n"
  shows "midi_queue_alloc_record (q\<lparr>debugging := x\<rparr>) len hdr =
    (let b = \<lparr>b_start = h, b_len = n, b_hdr = header_of hdr,
        b_next = (h + BUF_PREFIX_SIZE + n) mod QUEUE_BYTES, b_size = BUF_PREFIX_SIZE + n,
        b_data = h + BUF_DATA_OFFSET\<rparr>
     in (Inr n, b_data b, q\<lparr>debugging := x, buf_head := b_next b, avail := avail q - b_size b,
          writecount := writecount q + n, buffers := (buffers q)[nat (q_head q) := b],
          q_head := (q_head q + 1) mod MAX_QUEUE_DEPTH\<rparr>))"
proof -
  note f = one_record_facts[OF assms(1,2)]
  have b: "buf_tail q = h - 1000" "buf_head q = h" "h < QUEUE_BYTES"
    using assms(1) by (auto simp: one_record_def queue_inv_def)
  have "alloc_place (q\<lparr>debugging := x\<rparr>) len = Inr (QUEUE_BYTES - h, q\<lparr>debugging := x\<rparr>)"
    using f(1-3) b assms(3,4) queue_inv_ptrs[of q] assms(1)
    by (simp add: alloc_place_def queue_consts Let_def one_record_def ptrs_ok_def)
  then show ?thesis
    using assms(3,4) assms(5,6)[unfolded queue_consts] b
    by (simp add: midi_queue_alloc_record_def header_of_def queue_consts Let_def
      split: option.split if_splits)
qed

text \<open>One round of a writer that puts 937 bytes and a reader that removes the oldest record.\<close>

definition pump :: "midi_queue \<Rightarrow> midi_queue" where
  "pump q = midi_queue_remove_chars (snd (midi_queue_put q (replicate 937 0) None)) 1000"

lemma pump_reach: "queue_reach timed q \<Longrightarrow> queue_reach timed (pump q)"
  by (auto simp: pump_def intro: queue_reach.intros)

lemma pump_step:
  assumes "one_record h q" and "1000 \<le> h" and "h + 1000 < QUEUE_BYTES"
  shows "one_record (h + 1000) (pump q)"
proof -
  let ?d = "replicate 937 (0 :: u8)"
  note f = one_record_facts[OF assms(1,2)]
  have inv: "queue_inv q" and ht: "buf_tail q = h - 1000" "buf_head q = h"
    using assms(1) by (auto simp: one_record_def)
  have rng: "0 \<le> q_head q" "q_head q < 31" "0 \<le> q_tail q" "q_tail q < 31" "length (buffers q) = 31"
    using queue_inv_ptrs[OF inv] by (auto simp: ptrs_ok_def queue_consts)
  obtain r q3 where p: "midi_queue_put q ?d None = (r, q3)" by fastforce
  have ps: "queue_inv q3" "put_effect (msgs q) ?d None r (msgs q3)"
    using put_spec[OF inv _ p] by auto
  have a: "midi_queue_alloc_record (q\<lparr>debugging := 1\<rparr>) 937 None =
    (let b = \<lparr>b_start = h, b_len = 937, b_hdr = zero_header, b_next = h + 1000, b_size = 1000,
        b_data = h + 56\<rparr>
     in (Inr 937, h + 56, q\<lparr>debugging := 1, buf_head := h + 1000, avail := avail q - 1000,
          writecount := writecount q + 937, buffers := (buffers q)[nat (q_head q) := b],
          q_head := (q_head q + 1) mod MAX_QUEUE_DEPTH\<rparr>))"
    using alloc_after_one_record[OF assms(1,2), of 937 937 1 None] assms(2,3)
    by (simp add: queue_consts header_of_def add.commute)
  have q3: "r = Inr 937" "q_head q3 = (q_head q + 1) mod 31" "q_tail q3 = q_tail q"
    "buf_tail q3 = h - 1000" "buf_head q3 = h + 1000"
    "buffers q3 ! nat (q_tail q) = buffers q ! nat (q_tail q)"
    using p assms(2,3) ht rng f(3)
    by (auto simp: midi_queue_put_def a queue_store_def queue_consts Let_def nth_list_update)
  have m1: "length (msgs q) = 1" using f(4) by (simp add: msgs_def)
  then have m2: "length (msgs q3) = 2" using ps(2) q3(1) by (auto simp: put_effect_def)
  have hd3: "int (length (fst (hd (msgs q3)))) \<le> 937"
  proof -
    have "hd (msgs q3) = hd (msgs q)"
      using ps(2) q3(1) m1 by (cases "msgs q") (auto simp: put_effect_def)
    moreover have "hd (msgs q) = record_view q (buffers q ! nat (q_tail q))"
      by (simp add: msgs_def f(4))
    moreover have "buf_ok (buffers q ! nat (q_tail q))" using queue_inv_buf_ok[OF inv] f(4) by simp
    ultimately show ?thesis using f(5) record_view_length by simp
  qed
  have rm: "queue_inv (pump q)" "length (msgs (pump q)) = 1"
    using remove_chars_spec[OF ps(1), of 1000] m2 hd3 p
    by (auto simp: pump_def split: list.splits)
  have ne3: "q_head q3 \<noteq> q_tail q3" using q3 f(2) by (simp add: queue_consts)
  have "buf_tail (pump q) = h" "buf_head (pump q) = h + 1000"
    using ne3 q3 f(5,6) assms(2) rng mod_add_one_ring[of "q_tail q" 31]
    by (auto simp: pump_def p midi_queue_remove_chars_def Let_def queue_consts)
  with rm show ?thesis by (simp add: one_record_def msgs_def)
qed

definition fresh_queue :: midi_queue where
  "fresh_queue = the (midi_queue_alloc True)"

lemma fresh_queue_alloc: "midi_queue_alloc True = Some fresh_queue"
  by (simp add: fresh_queue_def midi_queue_alloc_def)

definition first_round :: midi_queue where
  "first_round = snd (midi_queue_put fresh_queue (replicate 937 0) None)"

lemma first_round_one_record: "one_record 1000 first_round"
proof -
  obtain r q where p: "midi_queue_put fresh_queue (replicate 937 0) None = (r, q)" by fastforce
  have i: "queue_inv fresh_queue \<and> msgs fresh_queue = []"
    using alloc_spec fresh_queue_alloc by blast
  then have s: "queue_inv q" "put_effect [] (replicate 937 0) None r (msgs q)"
    using put_spec[OF _ _ p] by auto
  have "r = Inr 937 \<and> buf_tail q = 0 \<and> buf_head q = 1000"
    using p unfolding fresh_queue_def midi_queue_alloc_def
    by (auto simp: midi_queue_put_def midi_queue_alloc_record_def alloc_place_def queue_store_def
      queue_consts Let_def)
  moreover from this s(2) have "length (live q) = 1"
    unfolding msgs_def by (auto simp: put_effect_def map_eq_Cons_conv)
  ultimately show ?thesis using s(1) p by (simp add: one_record_def first_round_def)
qed

lemma pump_rounds: "n \<le> 32 \<Longrightarrow> one_record (1000 + 1000 * int n) ((pump ^^ n) first_round)"
proof (induction n)
  case 0
  then show ?case using first_round_one_record by simp
next
  case (Suc n)
  then have "one_record (1000 + 1000 * int n) ((pump ^^ n) first_round)" by simp
  from pump_step[OF this] Suc.prems show ?case by (simp add: queue_consts algebra_simps)
qed

lemma pump_rounds_reach: "queue_reach timed ((pump ^^ n) first_round)"
proof (induction n)
  case 0
  have "queue_reach timed fresh_queue" using fresh_queue_alloc by (rule queue_reach.fresh)
  then show ?case by (auto simp: first_round_def intro: queue_reach.put)
next
  case (Suc n)
  then show ?case using pump_reach by simp
qed

section \<open>The byte past the end\<close>

text \<open>
  The newest record ends at the end of the ring, so the head is back at 0; \<open>k\<close> more bytes
  have been appended to it.
\<close>

definition at_end :: "u64 \<Rightarrow> int \<Rightarrow> midi_queue \<Rightarrow> bool" where
  "at_end t k q \<longleftrightarrow> length (buffers q) = 31 \<and> 0 \<le> q_head q \<and> q_head q < 31 \<and>
     q_head q \<noteq> q_tail q \<and> buf_tail q = 32000 \<and> buf_head q = k \<and> 1000 \<le> avail q + k \<and>
     (let b = buffers q ! nat (if q_head q - 1 < 0 then 30 else q_head q - 1)
      in b_len b = 953 + k \<and> b_next b = k \<and> b_data b = 33056 \<and> hdr_time (b_hdr b) = t)"

lemma at_end_step:
  assumes "at_end (hdr_time h) k q" and "0 \<le> k" and "k < 40"
  shows "at_end (hdr_time h) (k + 1) (snd (midi_queue_put q [x] (Some h)))"
    and "queue_fault (snd (midi_queue_put q [x] (Some h))) \<longleftrightarrow> queue_fault q \<or> 7 \<le> k"
proof -
  define p where "p = (if q_head q - 1 < 0 then MAX_QUEUE_DEPTH - 1 else q_head q - 1)"
  define b where "b = buffers q ! nat p"
  define b' where "b' = b\<lparr>b_next := k + 1, b_size := b_size b + 1, b_len := 954 + k\<rparr>"
  have p: "nat p < length (buffers q)" "(if q_head q - 1 < 0 then 30 else q_head q - 1) = p"
    using assms(1) by (auto simp: at_end_def p_def queue_consts)
  have f: "length (buffers q) = 31" "0 \<le> q_head q" "q_head q < 31" "q_tail q \<noteq> q_head q"
    "buf_tail q = 32000" "buf_head q = k" "1000 \<le> avail q + k"
    "b_len b = 953 + k" "b_next b = k" "b_data b = 33056" "hdr_time (b_hdr b) = hdr_time h"
    using assms(1) unfolding at_end_def Let_def p(2) b_def[symmetric] by simp_all
  define q' where "q' = (queue_store (q\<lparr>avail := avail q - 1, writecount := writecount q + 1\<rparr>)
    (34009 + k) [x])\<lparr>buffers := (buffers q)[nat p := b'], buf_head := k + 1\<rparr>"
  have c: "queue_concat q [x] (Some h) = (True, q')"
    using f assms(2,3) unfolding queue_concat_def Let_def p_def[symmetric] b_def[symmetric]
    by (simp add: queue_consts b'_def q'_def queue_store_def algebra_simps)
  have q'f: "length (buffers q') = 31" "q_head q' = q_head q" "q_tail q' = q_tail q"
    "buf_tail q' = 32000" "buf_head q' = k + 1" "avail q' = avail q - 1" "buffers q' ! nat p = b'"
    "queue_fault q' \<longleftrightarrow> queue_fault q \<or> 7 \<le> k"
    using f p(1) assms(2) by (auto simp: q'_def queue_store_def queue_consts)
  have run: "midi_queue_put q [x] (Some h) = (Inr 1, q')"
    by (simp add: midi_queue_put_def queue_consts c)
  show "at_end (hdr_time h) (k + 1) (snd (midi_queue_put q [x] (Some h)))"
    using q'f f(2-4,7,10,11) unfolding run at_end_def Let_def snd_conv q'f(2) p(2)
    by (simp add: b'_def)
  show "queue_fault (snd (midi_queue_put q [x] (Some h))) \<longleftrightarrow> queue_fault q \<or> 7 \<le> k"
    by (simp add: run q'f(8))
qed

fun put_chars :: "midi_queue \<Rightarrow> nat \<Rightarrow> midi_queue" where
  "put_chars q 0 = q"
| "put_chars q (Suc n) = snd (midi_queue_put (put_chars q n) [0] (Some zero_header))"

lemma put_chars_at_end:
  assumes "at_end 0 0 q" and "n \<le> 40"
  shows "at_end 0 (int n) (put_chars q n) \<and> (8 \<le> n \<longrightarrow> queue_fault (put_chars q n))"
  using assms(2)
proof (induction n)
  case 0
  with assms(1) show ?case by simp
next
  case (Suc n)
  then have "at_end (hdr_time zero_header) (int n) (put_chars q n)" by (simp add: zero_header_def)
  from at_end_step[OF this, of 0] Suc show ?case
    by (auto simp: zero_header_def algebra_simps)
qed

lemma last_record_at_end:
  assumes "one_record 33000 q"
  shows "at_end 0 0 (snd (midi_queue_put q (replicate 1000 0) (Some zero_header)))"
proof -
  have rng: "0 \<le> q_head q" "q_head q < 31" "0 \<le> q_tail q" "q_tail q < 31" "length (buffers q) = 31"
    using queue_inv_ptrs[of q] assms by (auto simp: ptrs_ok_def one_record_def queue_consts)
  have ht: "buf_tail q = 32000" "buf_head q = 33000" using assms by (auto simp: one_record_def)
  note f = one_record_facts[OF assms]
  have a: "midi_queue_alloc_record (q\<lparr>debugging := 1\<rparr>) 1000 (Some zero_header) =
    (let b = \<lparr>b_start = 33000, b_len = 953, b_hdr = zero_header, b_next = 0, b_size = 1016,
        b_data = 33056\<rparr>
     in (Inr 953, 33056, q\<lparr>debugging := 1, buf_head := 0, avail := avail q - 1016,
          writecount := writecount q + 953, buffers := (buffers q)[nat (q_head q) := b],
          q_head := (q_head q + 1) mod MAX_QUEUE_DEPTH\<rparr>))"
    using alloc_after_one_record[OF assms, of 1000 953 1 "Some zero_header"]
    by (simp add: queue_consts header_of_def)
  have "hdr_time zero_header = 0" by (simp add: zero_header_def)
  then show ?thesis
    using f(1,2) ht rng mod_add_one_ring[of "q_head q" 31]
    by (auto simp: midi_queue_put_def a queue_store_def queue_consts Let_def at_end_def)
qed

section \<open>A full queue\<close>

definition filled :: "int \<Rightarrow> midi_queue \<Rightarrow> bool" where
  "filled k q \<longleftrightarrow> q_head q = k \<and> q_tail q = 0 \<and> buf_head q = 64 * k \<and> buf_tail q = 0 \<and>
     avail q = QUEUE_BYTES - 64 * k"

lemma filled_step:
  assumes "filled k q" and "0 \<le> k" and "k < 30"
  shows "filled (k + 1) (snd (midi_queue_put q [0] None))"
proof -
  have f: "q_head q = k" "q_tail q = 0" "buf_head q = 64 * k" "buf_tail q = 0"
    "avail q = QUEUE_BYTES - 64 * k"
    using assms(1) by (simp_all add: filled_def)
  obtain room where pl: "alloc_place (q\<lparr>debugging := 1\<rparr>) 1 = Inr (room, q\<lparr>debugging := 1\<rparr>)"
    and room: "room = QUEUE_BYTES - 64 * k"
    using f assms(2,3) by (cases "k = 0") (simp_all add: alloc_place_def queue_consts Let_def)
  show ?thesis
    using f assms(2,3) concat_no_header[of q "[0]"]
    by (simp add: midi_queue_put_def midi_queue_alloc_record_def pl room queue_consts Let_def
        filled_def queue_store_def)
qed

lemma filled_rounds: "n \<le> 30 \<Longrightarrow> filled (int n) (((\<lambda>q. snd (midi_queue_put q [0] None)) ^^ n) fresh_queue)"
proof (induction n)
  case 0
  then show ?case by (simp add: filled_def fresh_queue_def midi_queue_alloc_def)
next
  case (Suc n)
  with filled_step[of "int n"] show ?case by (simp add: algebra_simps)
qed

definition full_queue :: midi_queue where
  "full_queue = ((\<lambda>q. snd (midi_queue_put q [0] None)) ^^ 30) fresh_queue"

lemma full_queue_facts: "filled 30 full_queue" "queue_inv full_queue"
proof -
  show "filled 30 full_queue" using filled_rounds[of 30] by (simp add: full_queue_def)
  have "queue_reach False (((\<lambda>q. snd (midi_queue_put q [0] None)) ^^ n) fresh_queue)" for n
    by (induction n) (auto intro: queue_reach.intros fresh_queue_alloc)
  then show "queue_inv full_queue" unfolding full_queue_def by (rule untimed_reach_inv)
qed

section \<open>Properties\<close>

text \<open>C13: In the traditional mode (no packet headers) a queue is memory safe: whatever sequence
  of puts, gets, removals and clears it went through, no byte was written outside its ring,
  its record chain is consistent and the free-byte count \<open>avail\<close> is exact.\<close>

theorem untimed_queue_safe:
  assumes "queue_reach False q"
  shows "\<not> queue_fault q \<and> avail q = QUEUE_BYTES - total_size (live q) \<and>
    chain (buf_tail q) (live q) (buf_head q)"
  using untimed_reach_inv[OF assms] by (simp add: queue_inv_def)

theorem untimed_queue_safe_witness:
  "\<not> queue_fault fresh_queue \<and> avail fresh_queue = QUEUE_BYTES - total_size (live fresh_queue) \<and>
    chain (buf_tail fresh_queue) (live fresh_queue) (buf_head fresh_queue)"
  by (rule untimed_queue_safe) (rule queue_reach.fresh[OF fresh_queue_alloc])

text \<open>With packet headers the queue is not memory safe: there is a sequence of puts and
  removals after which \<open>queue_concat\<close> has written past \<open>buffer[QUEUE_BYTES]\<close>, because it
  appends to a record that ends exactly at the end of the ring.\<close>

theorem timed_queue_overrun: "\<exists>q. queue_reach True q \<and> queue_fault q"
proof -
  define q where "q = snd (midi_queue_put ((pump ^^ 32) first_round) (replicate 1000 0) (Some zero_header))"
  have "at_end 0 0 q"
    using pump_rounds[of 32] last_record_at_end by (simp add: q_def)
  then have "queue_fault (put_chars q 8)" using put_chars_at_end[of q 8] by simp
  moreover have "queue_reach True (put_chars q n)" for n
    by (induction n) (auto simp: q_def pump_rounds_reach intro: queue_reach.put)
  ultimately show ?thesis by blast
qed

text \<open>C32: A put refines appending to a list of messages: an error leaves the messages alone, a
  success takes a prefix of the data, either as a new message or, for a single byte with the
  newest message's time stamp, at the end of that message; the invariant is kept. The only
  precondition beyond the invariant excludes the overrun above.\<close>

theorem queue_put_refines:
  assumes "queue_inv q" and "hdr = None \<or> concat_safe q"
  shows "queue_inv (snd (midi_queue_put q data hdr)) \<and>
    put_effect (msgs q) data hdr (fst (midi_queue_put q data hdr)) (msgs (snd (midi_queue_put q data hdr)))"
  using put_spec[OF assms, of data] by (cases "midi_queue_put q data hdr") auto

theorem queue_put_refines_witness:
  "put_effect (msgs fresh_queue) [1, 2] None (fst (midi_queue_put fresh_queue [1, 2] None))
    (msgs (snd (midi_queue_put fresh_queue [1, 2] None)))"
  using queue_put_refines[of fresh_queue None "[1, 2]"] alloc_spec[OF fresh_queue_alloc] by simp

text \<open>C33: Reading refines the list of messages: \<open>midi_queue_find_buffer\<close> shows the oldest
  message, \<open>midi_queue_get\<close> removes it, and \<open>midi_queue_remove_chars\<close> drops its first
  \<open>len\<close> bytes or, when that is all of it, the message.\<close>

theorem queue_reads_refine:
  assumes "queue_inv q" and "0 \<le> len"
  shows "(midi_queue_find_buffer q = (case msgs q of [] \<Rightarrow> (Inr 0, None)
      | m # ms \<Rightarrow> (Inr (int (length (fst m))), Some m))) \<and>
    msgs (snd (snd (midi_queue_get q))) = tl (msgs q) \<and>
    msgs (midi_queue_remove_chars q len) = (case msgs q of [] \<Rightarrow> []
      | m # ms \<Rightarrow> if len < int (length (fst m)) then (drop (nat len) (fst m), snd m) # ms else ms) \<and>
    queue_inv (snd (snd (midi_queue_get q))) \<and> queue_inv (midi_queue_remove_chars q len)"
proof -
  obtain r v q' where g: "midi_queue_get q = (r, v, q')" using prod_cases3 by blast
  note gs = get_spec[OF assms(1) g]
  have "msgs (snd (snd (midi_queue_get q))) = tl (msgs q)"
    using gs g by (cases "msgs q") auto
  then show ?thesis
    using gs g remove_chars_spec[OF assms] find_buffer_spec[OF assms(1)] by auto
qed

theorem queue_reads_refine_witness:
  "msgs (midi_queue_remove_chars fresh_queue 3) = []"
  using queue_reads_refine[of fresh_queue 3] alloc_spec[OF fresh_queue_alloc] by simp

text \<open>C14: First in, first out: over any session of writes and partial reads, the bytes accepted
  are exactly the bytes delivered followed by the bytes still queued.\<close>

theorem queue_fifo:
  assumes "pipe_run queue_offer queue_fetch ops fresh_queue = (ins, outs, q)"
  shows "ins = outs @ queue_stream q \<and> queue_inv q"
proof -
  have "queue_inv fresh_queue" "queue_stream fresh_queue = []"
    using alloc_spec[OF fresh_queue_alloc] by (auto simp: queue_stream_def)
  with mq.run_fifo[OF _ assms] show ?thesis by auto
qed

theorem queue_fifo_witness:
  "\<exists>ins outs q. pipe_run queue_offer queue_fetch [Offer [1, 2], Fetch 1] fresh_queue = (ins, outs, q) \<and>
     ins = outs @ queue_stream q"
  using queue_fifo[of "[Offer [1, 2], Fetch 1]"] by (metis prod_cases3)

text \<open>A writer that finds the queue empty is never refused and never cut short: any chunk of
  at most \<open>MIDI_PAYLOAD_SIZE\<close> bytes is taken whole, wherever the ring's indices stand.\<close>

lemma empty_queue_accepts:
  assumes "queue_inv q" and "msgs q = []" and "int (length d) \<le> MIDI_PAYLOAD_SIZE"
  shows "queue_stream (snd (midi_queue_put q d None)) = d \<and>
    fst (midi_queue_put q d None) = Inr (int (length d))"
proof -
  have 1: "fst (midi_queue_put q d None) = Inr (int (length d))" using assms by (rule put_empty)
  have "length d \<le> nat MIDI_PAYLOAD_SIZE" using assms(3) by simp
  from mqp.idle_offer_all[OF assms(1,2) this] 1 show ?thesis
    using assms(2) by (auto simp: queue_offer_def queue_stream_def split: prod.splits sum.splits)
qed

text \<open>When \<open>midi_queue_spaceleft\<close> reports no space, a write of any nonempty chunk fails with
  \<open>OSS_ENOSPC\<close> and changes nothing but the debugging flag.\<close>

lemma no_space_no_put:
  assumes "midi_queue_spaceleft q = 0" and "queue_inv q" and "d \<noteq> []"
    and "int (length d) \<le> MIDI_PAYLOAD_SIZE"
  shows "midi_queue_put q d None = (Inl OSS_ENOSPC, q\<lparr>debugging := 1\<rparr>)"
proof -
  have "0 \<le> avail q" using assms(2) by (simp add: queue_inv_def)
  then have full: "(q_head q + 1) mod MAX_QUEUE_DEPTH = q_tail q \<or> avail q < BUF_PREFIX_SIZE + 1"
    using assms(1) by (auto simp: midi_queue_spaceleft_def queue_consts split: if_splits)
  have l: "0 < int (length d)" using assms(3) by simp
  then have "avail q < BUF_PREFIX_SIZE + 1 \<Longrightarrow> avail q < BUF_PREFIX_SIZE + int (length d)"
    by linarith
  with full have "alloc_place (q\<lparr>debugging := 1\<rparr>) (int (length d)) = Inl OSS_ENOSPC"
    by (auto simp: alloc_place_def)
  then show ?thesis
    using l assms(4) concat_no_header[of q d]
    by (cases "length d = 1") (simp_all add: midi_queue_put_def midi_queue_alloc_record_def queue_consts)
qed

end
