(* ===== verification/Oss_Memblk.thy ===== *)
theory Oss_Memblk
  imports Oss_Prelude
begin

text \<open>
  The memory block chains of \<open>kernel/framework/osscore/oss_memblk.c\<close>. The heap maps the
  address of a live block header to its two fields; \<open>KERNEL_MALLOC\<close> is a parameter, the
  address it returned or \<open>None\<close> for \<open>NULL\<close>. A dereference of \<open>NULL\<close> or of freed memory has
  no defined result: the operation returns \<open>None\<close>.
\<close>

section \<open>State and operations\<close>

type_synonym addr = nat

record memblk =
  blk_next :: "addr option"
  blk_addr :: addr

type_synonym blk_heap = "addr \<Rightarrow> memblk option"

text \<open>\<open>sizeof (oss_memblk_t)\<close> on an LP64 host; the data of a block starts right after it.\<close>

definition MEMBLK_HEADER :: addr where "MEMBLK_HEADER = 16"

definition oss_memblk_malloc ::
  "addr option \<Rightarrow> blk_heap \<Rightarrow> addr option \<Rightarrow> (addr \<times> blk_heap \<times> addr option) option" where
  "oss_memblk_malloc allocated h blk =
     (case allocated of
        None \<Rightarrow> None
      | Some newblk \<Rightarrow>
          (case blk of
             None \<Rightarrow> Some (newblk + MEMBLK_HEADER,
               h(newblk \<mapsto> \<lparr>blk_next = None, blk_addr = newblk + MEMBLK_HEADER\<rparr>), Some newblk)
           | Some old \<Rightarrow> Some (newblk + MEMBLK_HEADER,
               h(newblk \<mapsto> \<lparr>blk_next = Some old, blk_addr = newblk + MEMBLK_HEADER\<rparr>), Some newblk)))"

text \<open>
  The loop of \<open>oss_memblk_free\<close>, with \<open>prev\<close> as the code has it: it is initialised to
  \<open>NULL\<close> and no iteration assigns it.
\<close>

partial_function (option) memblk_free_loop ::
  "blk_heap \<Rightarrow> addr option \<Rightarrow> addr \<Rightarrow> addr option \<Rightarrow> addr option \<Rightarrow> (blk_heap \<times> addr option) option" where
  "memblk_free_loop h blk a prev this =
     (case this of
        None \<Rightarrow> Some (h, blk)
      | Some p \<Rightarrow>
          (case h p of
             None \<Rightarrow> None
           | Some b \<Rightarrow>
               if blk_addr b = a
               then (case prev of
                       None \<Rightarrow> Some (h(p := None), blk_next b)
                     | Some pr \<Rightarrow>
                         (case h pr of
                            None \<Rightarrow> None
                          | Some pb \<Rightarrow> Some ((h(pr \<mapsto> pb\<lparr>blk_next := blk_next b\<rparr>))(p := None), blk)))
               else memblk_free_loop h blk a prev (blk_next b)))"

definition oss_memblk_free ::
  "blk_heap \<Rightarrow> addr option \<Rightarrow> addr \<Rightarrow> (blk_heap \<times> addr option) option" where
  "oss_memblk_free h blk a = memblk_free_loop h blk a None blk"

partial_function (option) memblk_unalloc_loop :: "blk_heap \<Rightarrow> addr option \<Rightarrow> blk_heap option" where
  "memblk_unalloc_loop h this =
     (case this of
        None \<Rightarrow> Some h
      | Some p \<Rightarrow>
          (case h p of
             None \<Rightarrow> None
           | Some b \<Rightarrow> memblk_unalloc_loop (h(p := None)) (blk_next b)))"

definition oss_memblk_unalloc :: "blk_heap \<Rightarrow> addr option \<Rightarrow> (blk_heap \<times> addr option) option" where
  "oss_memblk_unalloc h blk = map_option (\<lambda>h'. (h', None)) (memblk_unalloc_loop h blk)"

section \<open>Chains\<close>

fun on_chain :: "blk_heap \<Rightarrow> addr option \<Rightarrow> addr list \<Rightarrow> bool" where
  "on_chain h p [] \<longleftrightarrow> p = None"
| "on_chain h p (x # xs) \<longleftrightarrow> p = Some x \<and>
     (\<exists>b. h x = Some b \<and> blk_addr b = x + MEMBLK_HEADER \<and> on_chain h (blk_next b) xs)"

lemma on_chain_frame: "x \<notin> set xs \<Longrightarrow> on_chain (h(x := v)) p xs = on_chain h p xs"
  by (induction xs arbitrary: p) auto

lemma malloc_on_chain:
  assumes "on_chain h blk xs" and "x \<notin> set xs"
  shows "\<exists>h'. oss_memblk_malloc (Some x) h blk = Some (x + MEMBLK_HEADER, h', Some x) \<and>
    on_chain h' (Some x) (x # xs) \<and> dom h' = insert x (dom h)"
  using assms on_chain_frame[OF assms(2)]
  by (cases xs) (auto simp: oss_memblk_malloc_def)

lemma free_loop_skip:
  assumes "on_chain h (blk_next' :: addr option) (ys @ xs)" and "\<forall>y\<in>set ys. y + MEMBLK_HEADER \<noteq> a"
  shows "\<exists>p. on_chain h p xs \<and>
    memblk_free_loop h blk a prev blk_next' = memblk_free_loop h blk a prev p"
  using assms
proof (induction ys arbitrary: blk_next')
  case Nil
  then show ?case by auto
next
  case (Cons y ys)
  then obtain b where b: "blk_next' = Some y" "h y = Some b" "blk_addr b = y + MEMBLK_HEADER"
    "on_chain h (blk_next b) (ys @ xs)" by auto
  have "memblk_free_loop h blk a prev blk_next' = memblk_free_loop h blk a prev (blk_next b)"
    using b Cons.prems(2) by (subst memblk_free_loop.simps) simp
  with Cons.IH[OF b(4)] Cons.prems(2) show ?case by auto
qed

lemma free_absent:
  assumes "on_chain h blk xs" and "\<forall>x\<in>set xs. x + MEMBLK_HEADER \<noteq> a"
  shows "oss_memblk_free h blk a = Some (h, blk)"
proof -
  obtain p where "on_chain h p []" "memblk_free_loop h blk a None blk = memblk_free_loop h blk a None p"
    using free_loop_skip[of h blk xs "[]" a blk None] assms by auto
  then show ?thesis by (simp add: oss_memblk_free_def memblk_free_loop.simps)
qed

lemma free_present:
  assumes ch: "on_chain h blk (ys @ x # xs)" and d: "distinct (ys @ x # xs)"
  shows "\<exists>b. h x = Some b \<and> on_chain h (blk_next b) xs \<and>
    oss_memblk_free h blk (x + MEMBLK_HEADER) = Some (h(x := None), blk_next b)"
proof -
  have "\<forall>y\<in>set ys. y + MEMBLK_HEADER \<noteq> x + MEMBLK_HEADER" using d by auto
  from free_loop_skip[OF ch this, of blk None] obtain p where p: "on_chain h p (x # xs)"
    "memblk_free_loop h blk (x + MEMBLK_HEADER) None blk
     = memblk_free_loop h blk (x + MEMBLK_HEADER) None p" by auto
  then obtain b where b: "p = Some x" "h x = Some b" "blk_addr b = x + MEMBLK_HEADER"
    "on_chain h (blk_next b) xs" by auto
  then have "memblk_free_loop h blk (x + MEMBLK_HEADER) None p = Some (h(x := None), blk_next b)"
    by (subst memblk_free_loop.simps) simp
  with p b show ?thesis by (simp add: oss_memblk_free_def)
qed

lemma unalloc_loop:
  assumes "on_chain h p xs" and "distinct xs"
  shows "memblk_unalloc_loop h p = Some (\<lambda>y. if y \<in> set xs then None else h y)"
  using assms
proof (induction xs arbitrary: h p)
  case Nil
  then show ?case by (simp add: memblk_unalloc_loop.simps)
next
  case (Cons x xs)
  then obtain b where b: "p = Some x" "h x = Some b" "on_chain h (blk_next b) xs" by auto
  have "on_chain (h(x := None)) (blk_next b) xs" using b(3) Cons.prems(2) by (simp add: on_chain_frame)
  moreover have "distinct xs" using Cons.prems(2) by simp
  ultimately have "memblk_unalloc_loop (h(x := None)) (blk_next b)
      = Some (\<lambda>y. if y \<in> set xs then None else (h(x := None)) y)" by (rule Cons.IH)
  moreover have "(\<lambda>y. if y \<in> set xs then None else (h(x := None)) y)
      = (\<lambda>y. if y \<in> set (x # xs) then None else h y)" by (rule ext) simp
  moreover have "memblk_unalloc_loop h p = memblk_unalloc_loop (h(x := None)) (blk_next b)"
    by (subst memblk_unalloc_loop.simps) (simp only: b(1,2) option.case)
  ultimately show ?case by simp
qed

section \<open>Properties\<close>

text \<open>Allocation puts the new block in front of the chain, keeps every block that was on it,
  and \<open>oss_memblk_unalloc\<close> then frees exactly the blocks of the chain and empties it.\<close>

theorem memblk_malloc_unalloc:
  assumes "on_chain h blk xs" and "distinct (x # xs)"
  shows "\<exists>h'. oss_memblk_malloc (Some x) h blk = Some (x + MEMBLK_HEADER, h', Some x) \<and>
    on_chain h' (Some x) (x # xs) \<and>
    (\<exists>h''. oss_memblk_unalloc h' (Some x) = Some (h'', None) \<and> dom h'' = dom h - set (x # xs))"
proof -
  have "x \<notin> set xs" using assms(2) by simp
  from malloc_on_chain[OF assms(1) this] obtain h' where
    h': "oss_memblk_malloc (Some x) h blk = Some (x + MEMBLK_HEADER, h', Some x)"
    "on_chain h' (Some x) (x # xs)" "dom h' = insert x (dom h)" by auto
  define h'' where "h'' = (\<lambda>y. if y \<in> set (x # xs) then None else h' y)"
  have "oss_memblk_unalloc h' (Some x) = Some (h'', None)"
    using unalloc_loop[OF h'(2) assms(2)] by (simp add: oss_memblk_unalloc_def h''_def)
  moreover have "dom h'' = dom h' - set (x # xs)" by (auto simp: h''_def split: if_splits)
  ultimately show ?thesis using h' by auto
qed

theorem memblk_malloc_unalloc_witness:
  "\<exists>h'. oss_memblk_malloc (Some 32) Map.empty None = Some (32 + MEMBLK_HEADER, h', Some 32) \<and>
    on_chain h' (Some 32) [32] \<and>
    (\<exists>h''. oss_memblk_unalloc h' (Some 32) = Some (h'', None) \<and> dom h'' = dom Map.empty - set [32])"
  using memblk_malloc_unalloc[of Map.empty None "[]" 32] by simp

text \<open>Freeing one block unlinks every block in front of it as well: \<open>oss_memblk_free\<close> never
  advances \<open>prev\<close>, so it always takes the "first one in the chain" branch. The blocks in front
  stay allocated but are on no chain any more, and the later \<open>oss_memblk_unalloc\<close> of the chain
  does not free them.\<close>

theorem memblk_free_leaks_prefix:
  assumes "on_chain h blk (ys @ x # xs)" and "distinct (ys @ x # xs)"
  shows "\<exists>h' blk'. oss_memblk_free h blk (x + MEMBLK_HEADER) = Some (h', blk') \<and>
    on_chain h' blk' xs \<and> set ys \<subseteq> dom h' \<and> h' x = None \<and>
    (\<exists>h''. oss_memblk_unalloc h' blk' = Some (h'', None) \<and> set ys \<subseteq> dom h'')"
proof -
  from free_present[OF assms] obtain b where b: "h x = Some b" "on_chain h (blk_next b) xs"
    "oss_memblk_free h blk (x + MEMBLK_HEADER) = Some (h(x := None), blk_next b)" by auto
  have c: "on_chain (h(x := None)) (blk_next b) xs" using b(2) assms(2) by (simp add: on_chain_frame)
  have "set ys \<subseteq> dom h"
    using assms(1) by (induction ys arbitrary: blk) auto
  then have ys: "set ys \<subseteq> dom (h(x := None))" using assms(2) by auto
  have "oss_memblk_unalloc (h(x := None)) (blk_next b)
      = Some (\<lambda>y. if y \<in> set xs then None else (h(x := None)) y, None)"
    using unalloc_loop[OF c] assms(2) by (simp add: oss_memblk_unalloc_def)
  moreover have "set ys \<subseteq> dom (\<lambda>y. if y \<in> set xs then None else (h(x := None)) y)"
    using ys assms(2) by (force simp: dom_def)
  ultimately show ?thesis using b c ys by auto
qed

definition two_blocks :: blk_heap where
  "two_blocks = [32 \<mapsto> \<lparr>blk_next = Some 64, blk_addr = 48\<rparr>, 64 \<mapsto> \<lparr>blk_next = None, blk_addr = 80\<rparr>]"

theorem memblk_free_leaks_prefix_witness:
  "\<exists>h' blk'. oss_memblk_free two_blocks (Some 32) (64 + MEMBLK_HEADER) = Some (h', blk') \<and>
    on_chain h' blk' [] \<and> set [32] \<subseteq> dom h' \<and> h' 64 = None \<and>
    (\<exists>h''. oss_memblk_unalloc h' blk' = Some (h'', None) \<and> set [32] \<subseteq> dom h'')"
  by (rule memblk_free_leaks_prefix) (simp_all add: two_blocks_def MEMBLK_HEADER_def)

end
