(* ===== verification/Midi_Parser.thy ===== *)
theory Midi_Parser
  imports Oss_Prelude
begin

text \<open>
  The MIDI message parser of \<open>kernel/framework/midi/oss_midi_parser.c\<close> (the library
  \<open>lib/libOSSlib\<close> has the same code for user space). A parser consumes a stream one byte at a
  time and reports messages through two callbacks; here the calls it makes are the list of
  events an operation returns. An index outside the message buffer or the length table has no
  defined result in C: the operation is then \<open>None\<close>.
\<close>

section \<open>State\<close>

datatype midi_cat = CAT_VOICE | CAT_MTC | CAT_SYSEX | CAT_CHN | CAT_REALTIME

datatype mtc_direction = MTC_DIR_STOPPED | MTC_DIR_FORWARD | MTC_DIR_BACKWARD

record oss_mtc_data =
  hours :: u8
  minutes :: u8
  seconds :: u8
  frames :: u8
  qframes :: u8
  direction :: mtc_direction
  time_code_type :: u8
  mtc_flags :: u32

text \<open>\<open>struct _mtc_state\<close>. \<open>offset\<close> is a C \<open>int\<close> that grows by one per quarter frame until
  piece 7 arrives; only its value modulo 256 is used.\<close>

record mtc_state =
  prev_ix :: int
  mtc_run :: int
  offset :: int
  mtc :: oss_mtc_data
  mtc0 :: oss_mtc_data

definition MI_MAX :: int where "MI_MAX = 64"
definition MST_INIT :: int where "MST_INIT = 0"
definition MST_DATA :: int where "MST_DATA = 1"
definition MST_SYSEX :: int where "MST_SYSEX = 2"

record midi_input_info =
  m_buf :: bytes
  m_prev_status :: u8
  m_ptr :: int
  m_state :: int
  m_left :: int
  m_f1_flag :: bool

text \<open>\<open>struct midiparser_common\<close>: whether an MTC callback is registered stands for the pointer
  \<open>mtc_callback\<close>; \<open>callback\<close> and \<open>client_context\<close> are only passed through.\<close>

record midiparser =
  inc :: midi_input_info
  mtc_callback :: bool
  mtc_st :: mtc_state

text \<open>One call of \<open>callback (context, category, msg, ch, parms, len)\<close>, the bytes being
  \<open>parms[0..len)\<close>, or of \<open>mtc_callback (context, mtc)\<close>.\<close>

datatype midi_event =
    Callback midi_cat u8 u8 bytes
  | Mtc_Callback oss_mtc_data

section \<open>Bounded buffer access\<close>

definition buf_put :: "bytes \<Rightarrow> int \<Rightarrow> u8 \<Rightarrow> bytes option" where
  "buf_put b i v = (if 0 \<le> i \<and> i < int (length b) then Some (b[nat i := v]) else None)"

text \<open>The first \<open>n\<close> bytes of the buffer, as a callback sees them.\<close>

definition buf_view :: "bytes \<Rightarrow> int \<Rightarrow> bytes option" where
  "buf_view b n = (if 0 \<le> n \<and> n \<le> int (length b) then Some (take (nat n) b) else None)"

definition len_tab :: "int list" where
  "len_tab = [2, 2, 2, 2, 1, 1, 2, 0]"

definition len_of_status :: "u8 \<Rightarrow> int option" where
  "len_of_status s =
     (let i = uint (drop_bit 4 s) - 8
      in if 0 \<le> i \<and> i < 8 then Some (len_tab ! nat i) else None)"

section \<open>Message dispatch\<close>

definition callback3 :: "midi_cat \<Rightarrow> u8 \<Rightarrow> u8 \<Rightarrow> u8 \<Rightarrow> u8 \<Rightarrow> u8 \<Rightarrow> midi_event" where
  "callback3 cat msg ch p1 p2 p3 = Callback cat msg ch [p1, p2, p3]"

definition do_system_msg :: "bytes \<Rightarrow> int \<Rightarrow> midi_event list option" where
  "do_system_msg msg mlen = map_option (\<lambda>v. [Callback CAT_REALTIME (msg ! 0) 0 v]) (buf_view msg mlen)"

definition do_sysex_msg :: "bytes \<Rightarrow> int \<Rightarrow> midi_event list option" where
  "do_sysex_msg msg mlen = map_option (\<lambda>v. [Callback CAT_SYSEX 0 0 v]) (buf_view msg mlen)"

text \<open>\<open>do_midi_msg\<close> writes 64 into the buffer when it turns a note on with velocity 0 into a
  note off, so it returns the buffer too.\<close>

definition do_midi_msg :: "bytes \<Rightarrow> int \<Rightarrow> (bytes \<times> midi_event list) option" where
  "do_midi_msg msg mlen =
     (let status = msg ! 0 AND 0xf0; ch = msg ! 0 AND 0x0f
      in if status = 0x90 then
           (if msg ! 2 \<noteq> 0
            then Some (msg, [callback3 CAT_VOICE 0x90 ch (msg ! 1) (msg ! 2) 0])
            else let msg' = msg[2 := 64]
                 in Some (msg', [callback3 CAT_VOICE 0x80 ch (msg' ! 1) (msg' ! 2) 0]))
         else if status = 0x80 then
           Some (msg, [callback3 CAT_VOICE 0x80 ch (msg ! 1) (msg ! 2) 0])
         else if status = 0xA0 then
           Some (msg, [callback3 CAT_VOICE 0xA0 ch (msg ! 1) (msg ! 2) 0])
         else if status = 0xB0 then
           Some (msg, [callback3 CAT_CHN 0xB0 ch (msg ! 1) (msg ! 2) 0])
         else if status = 0xC0 then
           Some (msg, [callback3 CAT_CHN 0xC0 ch (msg ! 1) 0 0])
         else if status = 0xD0 then
           Some (msg, [callback3 CAT_CHN 0xD0 ch (msg ! 1) 0 0])
         else if status = 0xE0 then
           Some (msg, [callback3 CAT_VOICE 0xE0 ch (msg ! 1) (msg ! 2) 0])
         else if status = 0xf0 then
           map_option (\<lambda>ev. (msg, ev)) (do_system_msg msg mlen)
         else Some (msg, []))"

section \<open>Midi time code\<close>

definition send_mtc :: "mtc_state \<Rightarrow> midi_event" where
  "send_mtc st =
     (let m = mtc st;
          q = word_of_int (uint (qframes m) + offset st) :: u8;
          f = frames m + q div 4;
          q = q mod 4;
          tc = (if time_code_type m = 0 then 30 else time_code_type m);
          s = seconds m + f div tc;
          f = f mod tc;
          mi = minutes m + s div 60;
          s = s mod 60;
          h = hours m + mi div 60;
          mi = mi mod 60
      in Mtc_Callback (m\<lparr>hours := h, minutes := mi, seconds := s, frames := f, qframes := q,
                         time_code_type := tc\<rparr>))"

definition frame_types :: "u8 list" where "frame_types = [24, 25, 29, 30]"

text \<open>The \<open>switch\<close> over the piece number.\<close>

definition mtc_piece :: "int \<Rightarrow> u8 \<Rightarrow> mtc_state \<Rightarrow> mtc_state" where
  "mtc_piece ix d st =
     (let m = mtc0 st
      in if ix = 0 then st\<lparr>mtc0 := m\<lparr>qframes := 0, frames := d\<rparr>\<rparr>
         else if ix = 1 then st\<lparr>mtc0 := m\<lparr>frames := frames m OR push_bit 4 d\<rparr>\<rparr>
         else if ix = 2 then st\<lparr>mtc0 := m\<lparr>seconds := d\<rparr>\<rparr>
         else if ix = 3 then st\<lparr>mtc0 := m\<lparr>seconds := seconds m OR push_bit 4 d\<rparr>\<rparr>
         else if ix = 4 then st\<lparr>mtc0 := m\<lparr>minutes := d\<rparr>\<rparr>
         else if ix = 5 then st\<lparr>mtc0 := m\<lparr>minutes := minutes m OR push_bit 4 d\<rparr>\<rparr>
         else if ix = 6 then st\<lparr>mtc0 := m\<lparr>hours := d\<rparr>\<rparr>
         else if ix = 7 then
           (let h = hours m OR push_bit 4 d;
                m' = m\<lparr>time_code_type := frame_types ! unat (drop_bit 5 h AND 0x03), hours := h AND 0x1f\<rparr>
            in st\<lparr>mtc0 := m', mtc := m'\<rparr>)
         else st)"

definition mtc_message :: "mtc_state \<Rightarrow> u8 \<Rightarrow> mtc_state \<times> midi_event list" where
  "mtc_message st b =
     (let ix = uint (drop_bit 4 b);
          d = b AND 0x0f;
          previx = (prev_ix st + 1) smod 8;
          dir = (if ix = previx then MTC_DIR_FORWARD
                 else if ix = prev_ix st then MTC_DIR_STOPPED else MTC_DIR_BACKWARD);
          st = st\<lparr>mtc0 := (mtc0 st)\<lparr>direction := dir\<rparr>, mtc := (mtc st)\<lparr>direction := dir\<rparr>, prev_ix := ix\<rparr>
      in if mtc_run st = 0 \<and> ix \<noteq> 0 then (st, [])
         else let st = (if mtc_run st = 0 then st\<lparr>mtc_run := 1, offset := - 1\<rparr> else st);
                  st = mtc_piece ix d st;
                  st = (if ix = 7 then st\<lparr>offset := 7\<rparr> else st\<lparr>offset := offset st + 1\<rparr>)
              in (st, [send_mtc st]))"

section \<open>The byte scanner\<close>

definition with_inc :: "midiparser \<Rightarrow> midi_input_info \<Rightarrow> midiparser" where
  "with_inc p i = p\<lparr>inc := i\<rparr>"

text \<open>\<open>case MST_INIT\<close> of the state machine.\<close>

definition input_init :: "midi_input_info \<Rightarrow> u8 \<Rightarrow> (midi_input_info \<times> midi_event list) option" where
  "input_init i d =
     (if d AND 0x80 \<noteq> 0 then
        (if d AND 0xf0 = 0xf0 then
           (if d = 0xf0 then
              map_option (\<lambda>b. (i\<lparr>m_state := MST_SYSEX, m_ptr := 1, m_left := MI_MAX, m_buf := b\<rparr>, []))
                (buf_put (m_buf i) 0 d)
            else if d = 0xf1 \<or> d = 0xf3 then
              map_option (\<lambda>b. (i\<lparr>m_state := MST_DATA, m_ptr := 1, m_left := 1, m_buf := b\<rparr>, []))
                (buf_put (m_buf i) 0 d)
            else if d = 0xf2 then
              map_option (\<lambda>b. (i\<lparr>m_state := MST_DATA, m_ptr := 1, m_left := 2, m_buf := b\<rparr>, []))
                (buf_put (m_buf i) 0 d)
            else
              Option.bind (buf_put (m_buf i) 0 d) (\<lambda>b.
              map_option (\<lambda>(b', ev). (i\<lparr>m_buf := b', m_ptr := 0, m_left := 0\<rparr>, ev))
                (do_midi_msg b 1)))
         else
           Option.bind (len_of_status d) (\<lambda>n.
           map_option (\<lambda>b. (i\<lparr>m_state := MST_DATA, m_ptr := 1, m_left := n, m_buf := b, m_prev_status := d\<rparr>, []))
             (buf_put (m_buf i) 0 d)))
      else if m_prev_status i AND 0x80 \<noteq> 0 then
        Option.bind (len_of_status (m_prev_status i)) (\<lambda>n.
        Option.bind (buf_put (m_buf i) 0 (m_prev_status i)) (\<lambda>b.
        map_option (\<lambda>b'. (i\<lparr>m_state := MST_DATA, m_ptr := 2, m_left := n - 1, m_buf := b'\<rparr>, []))
          (buf_put b 1 d)))
      else Some (i, []))"

text \<open>\<open>case MST_DATA\<close>.\<close>

definition input_data :: "midi_input_info \<Rightarrow> u8 \<Rightarrow> (midi_input_info \<times> midi_event list) option" where
  "input_data i d =
     Option.bind (buf_put (m_buf i) (m_ptr i) d) (\<lambda>b.
       let i = i\<lparr>m_buf := b, m_ptr := m_ptr i + 1, m_left := m_left i - 1\<rparr>
       in if m_left i \<le> 0
          then map_option (\<lambda>(b', ev). (i\<lparr>m_state := MST_INIT, m_buf := b', m_ptr := 0\<rparr>, ev))
                 (do_midi_msg b (m_ptr i))
          else Some (i, []))"

text \<open>\<open>case MST_SYSEX\<close>.\<close>

definition input_sysex :: "midi_input_info \<Rightarrow> u8 \<Rightarrow> (midi_input_info \<times> midi_event list) option" where
  "input_sysex i d =
     Option.bind (buf_put (m_buf i) (m_ptr i) d) (\<lambda>b.
       let i = i\<lparr>m_buf := b, m_ptr := m_ptr i + 1\<rparr>
       in if d = 0xf7
          then map_option (\<lambda>ev. (i\<lparr>m_state := MST_INIT, m_left := 0, m_ptr := 0\<rparr>, ev))
                 (do_sysex_msg b (m_ptr i))
          else if MI_MAX \<le> m_ptr i
          then map_option (\<lambda>ev. (i\<lparr>m_ptr := 0\<rparr>, ev)) (do_sysex_msg b (m_ptr i))
          else Some (i, []))"

definition scan_state :: "midi_input_info \<Rightarrow> u8 \<Rightarrow> (midi_input_info \<times> midi_event list) option" where
  "scan_state i d =
     (if m_state i = MST_INIT then input_init i d
      else if m_state i = MST_DATA then input_data i d
      else if m_state i = MST_SYSEX then input_sysex i d
      else Some (i\<lparr>m_state := MST_INIT\<rparr>, []))"

definition handle_midi_input :: "midiparser \<Rightarrow> u8 \<Rightarrow> (midiparser \<times> midi_event list) option" where
  "handle_midi_input p d =
     (if d = 0xfe then Some (p, [])
      else if 0xf8 \<le> d then Some (p, [callback3 CAT_REALTIME d 0 0 0 0])
      else if d = 0xf1 then Some (with_inc p ((inc p)\<lparr>m_f1_flag := True\<rparr>), [])
      else if m_f1_flag (inc p) then
        (let p = with_inc p ((inc p)\<lparr>m_f1_flag := False\<rparr>)
         in if mtc_callback p
            then (let (st, ev) = mtc_message (mtc_st p) d in Some (p\<lparr>mtc_st := st\<rparr>, ev))
            else Some (p, [callback3 CAT_MTC 0xf1 0 d 0 0]))
      else map_option (\<lambda>(i, ev). (with_inc p i, ev)) (scan_state (inc p) d))"

section \<open>The parser's interface\<close>

definition zero_mtc :: oss_mtc_data where
  "zero_mtc = \<lparr>hours = 0, minutes = 0, seconds = 0, frames = 0, qframes = 0,
     direction = MTC_DIR_STOPPED, time_code_type = 0, mtc_flags = 0\<rparr>"

text \<open>\<open>malloc_ok\<close> tells whether \<open>KERNEL_MALLOC\<close> returned memory.\<close>

definition midiparser_create :: "bool \<Rightarrow> midiparser option" where
  "midiparser_create malloc_ok =
     (if malloc_ok
      then Some \<lparr>inc = \<lparr>m_buf = replicate 64 0, m_prev_status = 0, m_ptr = 0, m_state = 0, m_left = 0,
                        m_f1_flag = False\<rparr>,
                 mtc_callback = False,
                 mtc_st = \<lparr>prev_ix = - 1, mtc_run = 0, offset = 0, mtc = zero_mtc, mtc0 = zero_mtc\<rparr>\<rparr>
      else None)"

definition midiparser_mtc_callback :: "midiparser \<Rightarrow> bool \<Rightarrow> midiparser" where
  "midiparser_mtc_callback p cb = p\<lparr>mtc_callback := cb\<rparr>"

definition midiparser_input :: "midiparser \<Rightarrow> u8 \<Rightarrow> (midiparser \<times> midi_event list) option" where
  "midiparser_input p d = handle_midi_input p d"

fun midiparser_input_buf :: "midiparser \<Rightarrow> bytes \<Rightarrow> (midiparser \<times> midi_event list) option" where
  "midiparser_input_buf p [] = Some (p, [])"
| "midiparser_input_buf p (d # ds) =
     Option.bind (handle_midi_input p d) (\<lambda>(p, ev).
     map_option (\<lambda>(p, evs). (p, ev @ evs)) (midiparser_input_buf p ds))"

end
