(* ===== verification/Midi_Parser_Laws.thy ===== *)
theory Midi_Parser_Laws
  imports Midi_Parser
begin

text \<open>
  Properties of the MIDI parser: no input leaves the buffer or the length table, channel
  messages are reported once each and in order (also with running status), realtime bytes
  are transparent, system exclusive messages are reassembled from their chunks, and eight
  quarter frames give the transmitted time code.
\<close>

section \<open>The scanner's invariant\<close>

definition inc_inv :: "midi_input_info \<Rightarrow> bool" where
  "inc_inv i \<longleftrightarrow> length (m_buf i) = 64 \<and>
     (m_state i = MST_INIT \<or>
      m_state i = MST_DATA \<and> 1 \<le> m_ptr i \<and> m_ptr i \<le> 2 \<and> m_left i \<le> 2 \<and> m_ptr i + m_left i \<le> 3 \<or>
      m_state i = MST_SYSEX \<and> 0 \<le> m_ptr i \<and> m_ptr i < 64)"

lemmas mst_defs = MST_INIT_def MST_DATA_def MST_SYSEX_def MI_MAX_def

lemma status_ix: "128 \<le> uint (d :: u8) \<Longrightarrow> 8 \<le> uint d div 16 \<and> uint d div 16 < 16"
  using u8_upper[of d] by auto

lemma len_of_status_eq:
  "len_of_status d = (if uint d < 128 then None
     else if uint d < 192 \<or> 224 \<le> uint d \<and> uint d < 240 then Some 2
     else if uint d < 224 then Some 1 else Some 0)"
proof -
  have "uint d < 128 \<or> uint d div 16 \<in> {8, 9, 10, 11, 12, 13, 14, 15}"
    using status_ix[of d] by auto
  then show ?thesis
    by (auto simp: len_of_status_def uint_drop_bit_div len_tab_def)
qed

text \<open>The status nibble and the channel of a byte.\<close>

lemma high_nibble_eq:
  "uint c = 16 * k \<Longrightarrow> d AND 0xf0 = (c :: u8) \<longleftrightarrow> uint d div 16 = k"
  by (simp add: word_uint_eq_iff u8_high_nibble)

lemmas nibble_tests = high_nibble_eq[of 0x80 8, simplified] high_nibble_eq[of 0x90 9, simplified]
  high_nibble_eq[of 0xa0 10, simplified] high_nibble_eq[of 0xb0 11, simplified]
  high_nibble_eq[of 0xc0 12, simplified] high_nibble_eq[of 0xd0 13, simplified]
  high_nibble_eq[of 0xe0 14, simplified] high_nibble_eq[of 0xf0 15, simplified]

lemma len_of_status_some: "128 \<le> uint d \<Longrightarrow> \<exists>n. len_of_status d = Some n \<and> n \<le> 2"
  by (simp add: len_of_status_eq)

lemma buf_put_ok: "0 \<le> i \<Longrightarrow> i < int (length b) \<Longrightarrow> buf_put b i v = Some (b[nat i := v])"
  by (simp add: buf_put_def)

definition ev_ok :: "midi_event \<Rightarrow> bool" where
  "ev_ok e \<longleftrightarrow> (case e of Callback c m ch ps \<Rightarrow> 1 \<le> length ps \<and> length ps \<le> 64 | Mtc_Callback d \<Rightarrow> True)"

lemma do_midi_msg_ok:
  assumes "length b = 64" and "1 \<le> n" and "n \<le> 64"
  shows "\<exists>b' ev. do_midi_msg b n = Some (b', ev) \<and> length b' = 64 \<and> list_all ev_ok ev"
proof -
  have "buf_view b n = Some (take (nat n) b)" using assms by (simp add: buf_view_def)
  moreover have "1 \<le> nat n" "nat n \<le> 64" using assms by auto
  ultimately show ?thesis using assms
    by (auto simp: do_midi_msg_def Let_def do_system_msg_def callback3_def ev_ok_def)
qed

lemma do_sysex_msg_ok:
  assumes "length b = 64" and "1 \<le> n" and "n \<le> 64"
  shows "do_sysex_msg b n = Some [Callback CAT_SYSEX 0 0 (take (nat n) b)] \<and>
    list_all ev_ok [Callback CAT_SYSEX 0 0 (take (nat n) b)]"
  using assms by (auto simp: do_sysex_msg_def buf_view_def ev_ok_def nat_le_iff)

lemma input_init_ok:
  assumes "length (m_buf i) = 64" and "m_state i = MST_INIT"
  shows "\<exists>i' ev. input_init i d = Some (i', ev) \<and> inc_inv i' \<and> list_all ev_ok ev"
proof -
  have put: "\<And>v. buf_put (m_buf i) 0 v = Some ((m_buf i)[0 := v])"
    using assms by (simp add: buf_put_ok)
  have put1: "\<And>v w. buf_put ((m_buf i)[0 := v]) 1 w = Some ((m_buf i)[0 := v, Suc 0 := w])"
    using assms by (simp add: buf_put_ok)
  consider (common) "d AND 0x80 \<noteq> 0" "d AND 0xf0 = 0xf0" "d \<noteq> 0xf0" "d \<noteq> 0xf1" "d \<noteq> 0xf3" "d \<noteq> 0xf2"
    | (start) "d AND 0x80 \<noteq> 0" "d AND 0xf0 = 0xf0" "d = 0xf0 \<or> d = 0xf1 \<or> d = 0xf3 \<or> d = 0xf2"
    | (channel) "d AND 0x80 \<noteq> 0" "d AND 0xf0 \<noteq> 0xf0" | (data) "\<not> d AND 0x80 \<noteq> 0" by blast
  then show ?thesis
  proof cases
    case common
    obtain b' ev where "do_midi_msg ((m_buf i)[0 := d]) 1 = Some (b', ev)" "length b' = 64" "list_all ev_ok ev"
      using do_midi_msg_ok[of "(m_buf i)[0 := d]" 1] assms(1) by auto
    with common show ?thesis by (auto simp: input_init_def put inc_inv_def assms(2))
  next
    case start
    then show ?thesis using assms(1) by (auto simp: input_init_def put inc_inv_def mst_defs)
  next
    case channel
    then obtain n where "len_of_status d = Some n" "n \<le> 2"
      using len_of_status_some by (auto simp: u8_status_bit)
    with channel show ?thesis using assms(1) by (auto simp: input_init_def put inc_inv_def mst_defs)
  next
    case data
    show ?thesis
    proof (cases "m_prev_status i AND 0x80 \<noteq> 0")
      case True
      then obtain n where "len_of_status (m_prev_status i) = Some n" "n \<le> 2"
        using len_of_status_some by (auto simp: u8_status_bit)
      with True data show ?thesis using assms(1) by (auto simp: input_init_def put put1 inc_inv_def mst_defs)
    next
      case False
      with data show ?thesis using assms by (auto simp: input_init_def inc_inv_def)
    qed
  qed
qed

lemma input_data_ok:
  assumes "inc_inv i" and "m_state i = MST_DATA"
  shows "\<exists>i' ev. input_data i d = Some (i', ev) \<and> inc_inv i' \<and> list_all ev_ok ev"
proof -
  have b: "length (m_buf i) = 64" "1 \<le> m_ptr i" "m_ptr i \<le> 2" "m_ptr i + m_left i \<le> 3"
    using assms by (auto simp: inc_inv_def mst_defs)
  then have put: "buf_put (m_buf i) (m_ptr i) d = Some ((m_buf i)[nat (m_ptr i) := d])"
    by (simp add: buf_put_ok)
  obtain b' ev where "do_midi_msg ((m_buf i)[nat (m_ptr i) := d]) (m_ptr i + 1) = Some (b', ev)"
    "length b' = 64" "list_all ev_ok ev"
    using do_midi_msg_ok[of "(m_buf i)[nat (m_ptr i) := d]" "m_ptr i + 1"] b by auto
  then show ?thesis using b assms(2)
    by (auto simp: input_data_def put inc_inv_def Let_def mst_defs)
qed

lemma input_sysex_ok:
  assumes "inc_inv i" and "m_state i = MST_SYSEX"
  shows "\<exists>i' ev. input_sysex i d = Some (i', ev) \<and> inc_inv i' \<and> list_all ev_ok ev"
proof -
  have b: "length (m_buf i) = 64" "0 \<le> m_ptr i" "m_ptr i < 64"
    using assms by (auto simp: inc_inv_def mst_defs)
  then have put: "buf_put (m_buf i) (m_ptr i) d = Some ((m_buf i)[nat (m_ptr i) := d])"
    by (simp add: buf_put_ok)
  then show ?thesis
    using b assms(2) do_sysex_msg_ok[of "(m_buf i)[nat (m_ptr i) := d]" "m_ptr i + 1"]
    by (auto simp: input_sysex_def inc_inv_def Let_def mst_defs)
qed

lemma scan_state_ok:
  assumes "inc_inv i"
  shows "\<exists>i' ev. scan_state i d = Some (i', ev) \<and> inc_inv i' \<and> list_all ev_ok ev"
  using assms input_init_ok[of i d] input_data_ok[OF assms, of d] input_sysex_ok[OF assms, of d]
  unfolding scan_state_def by (auto simp: inc_inv_def)

lemma inc_inv_flag [simp]: "inc_inv (i\<lparr>m_f1_flag := f\<rparr>) = inc_inv i"
  by (simp add: inc_inv_def)

lemma mtc_message_ok: "list_all ev_ok (snd (mtc_message st b))"
proof -
  have "\<And>s. ev_ok (send_mtc s)" by (simp add: ev_ok_def send_mtc_def Let_def)
  then show ?thesis by (simp add: mtc_message_def Let_def)
qed

lemma handle_ok:
  assumes "inc_inv (inc p)"
  shows "\<exists>p' ev. handle_midi_input p d = Some (p', ev) \<and> inc_inv (inc p') \<and> list_all ev_ok ev"
  using assms scan_state_ok[OF assms, of d] mtc_message_ok[of "mtc_st p" d]
  by (auto simp: handle_midi_input_def with_inc_def Let_def callback3_def ev_ok_def split: prod.splits)

lemma input_buf_ok:
  assumes "inc_inv (inc p)"
  shows "\<exists>p' evs. midiparser_input_buf p ds = Some (p', evs) \<and> inc_inv (inc p') \<and> list_all ev_ok evs"
  using assms
proof (induction ds arbitrary: p)
  case Nil
  then show ?case by simp
next
  case (Cons d ds)
  obtain p1 ev where p1: "handle_midi_input p d = Some (p1, ev)" "inc_inv (inc p1)" "list_all ev_ok ev"
    using handle_ok[OF Cons.prems] by blast
  from Cons.IH[OF p1(2)] p1 show ?case by auto
qed

definition fresh_parser :: "bool \<Rightarrow> midiparser" where
  "fresh_parser cb = midiparser_mtc_callback (the (midiparser_create True)) cb"

lemma fresh_inv: "inc_inv (inc (fresh_parser cb))"
  by (simp add: fresh_parser_def midiparser_create_def midiparser_mtc_callback_def inc_inv_def MST_INIT_def)

text \<open>C16: Whatever bytes arrive, a parser made by \<open>midiparser_create\<close> never indexes outside its
  64-byte message buffer or the length table, never hands a callback an empty message or one of
  more than 64 bytes, and keeps the scanner's invariant.\<close>

theorem parser_safe:
  "\<exists>p evs. midiparser_input_buf (fresh_parser cb) ds = Some (p, evs) \<and> inc_inv (inc p) \<and>
     list_all ev_ok evs"
  by (rule input_buf_ok[OF fresh_inv])

section \<open>Channel messages\<close>

text \<open>The abstract view of a channel message, its encoding on the wire and the callback it
  should cause.\<close>

datatype chan_kind = Note_Off | Note_On | Poly_Pressure | Control_Change | Program_Change
  | Channel_Pressure | Pitch_Bend

record chan_msg =
  kind :: chan_kind
  chan :: u8
  data1 :: u8
  data2 :: u8

fun kind_base :: "chan_kind \<Rightarrow> u8" where
  "kind_base Note_Off = 0x80" | "kind_base Note_On = 0x90" | "kind_base Poly_Pressure = 0xa0"
| "kind_base Control_Change = 0xb0" | "kind_base Program_Change = 0xc0"
| "kind_base Channel_Pressure = 0xd0" | "kind_base Pitch_Bend = 0xe0"

definition one_byte :: "chan_kind \<Rightarrow> bool" where
  "one_byte k \<longleftrightarrow> k = Program_Change \<or> k = Channel_Pressure"

definition msg_status :: "chan_msg \<Rightarrow> u8" where
  "msg_status m = kind_base (kind m) + chan m"

definition msg_data :: "chan_msg \<Rightarrow> bytes" where
  "msg_data m = (if one_byte (kind m) then [data1 m] else [data1 m, data2 m])"

definition msg_valid :: "chan_msg \<Rightarrow> bool" where
  "msg_valid m \<longleftrightarrow> uint (chan m) < 16 \<and> uint (data1 m) < 128 \<and> uint (data2 m) < 128"

definition msg_event :: "chan_msg \<Rightarrow> midi_event" where
  "msg_event m =
     (case kind m of
        Note_On \<Rightarrow> if data2 m = 0 then Callback CAT_VOICE 0x80 (chan m) [data1 m, 64, 0]
                   else Callback CAT_VOICE 0x90 (chan m) [data1 m, data2 m, 0]
      | Control_Change \<Rightarrow> Callback CAT_CHN 0xb0 (chan m) [data1 m, data2 m, 0]
      | Program_Change \<Rightarrow> Callback CAT_CHN 0xc0 (chan m) [data1 m, 0, 0]
      | Channel_Pressure \<Rightarrow> Callback CAT_CHN 0xd0 (chan m) [data1 m, 0, 0]
      | k \<Rightarrow> Callback CAT_VOICE (kind_base k) (chan m) [data1 m, data2 m, 0])"

text \<open>A stream of messages; a flag asks to leave the status byte out (running status), which is
  done when the status is the one sent last and the message has two data bytes.\<close>

fun encode_msgs :: "u8 \<Rightarrow> (bool \<times> chan_msg) list \<Rightarrow> bytes" where
  "encode_msgs prev [] = []"
| "encode_msgs prev ((omit, m) # ms) =
     (if omit \<and> msg_status m = prev \<and> \<not> one_byte (kind m) then msg_data m
      else msg_status m # msg_data m) @ encode_msgs (msg_status m) ms"

definition idle :: "midiparser \<Rightarrow> bool" where
  "idle p \<longleftrightarrow> inc_inv (inc p) \<and> m_state (inc p) = MST_INIT \<and> \<not> m_f1_flag (inc p)"

lemma plain_byte: "uint (d :: u8) < 240 \<Longrightarrow> d \<noteq> 0xfe \<and> \<not> 0xf8 \<le> d \<and> d \<noteq> 0xf1"
  by (auto simp: word_le_def)

lemma handle_plain:
  assumes "uint d < 240" and "\<not> m_f1_flag (inc p)"
  shows "handle_midi_input p d = map_option (\<lambda>(i, ev). (with_inc p i, ev)) (scan_state (inc p) d)"
  using plain_byte[OF assms(1)] assms(2) by (simp add: handle_midi_input_def)

lemma handle_status:
  assumes "idle p" and "128 \<le> uint s" and "uint s < 240"
  shows "handle_midi_input p s = Some (with_inc p ((inc p)\<lparr>m_state := MST_DATA, m_ptr := 1,
      m_left := (if uint s < 192 \<or> 224 \<le> uint s then 2 else 1), m_buf := (m_buf (inc p))[0 := s],
      m_prev_status := s\<rparr>), [])"
proof -
  have "s AND 0x80 \<noteq> 0" using assms(2) by (simp only: u8_status_bit)
  moreover have "s AND 0xf0 \<noteq> 0xf0"
    using assms(3) u8_high_nibble[of s] by (auto simp: word_uint_eq_iff)
  moreover have "len_of_status s = Some (if uint s < 192 \<or> 224 \<le> uint s then 2 else 1)"
    using assms by (simp add: len_of_status_eq)
  moreover have "buf_put (m_buf (inc p)) 0 s = Some ((m_buf (inc p))[0 := s])"
    using assms(1) by (simp add: buf_put_def idle_def inc_inv_def)
  ultimately show ?thesis
    using assms(1) by (simp add: handle_plain[OF assms(3)] idle_def scan_state_def input_init_def)
qed

lemma handle_running:
  assumes "idle p" and "uint d < 128" and "128 \<le> uint (m_prev_status (inc p))"
    and "uint (m_prev_status (inc p)) < 240"
  shows "handle_midi_input p d = Some (with_inc p ((inc p)\<lparr>m_state := MST_DATA, m_ptr := 2,
      m_left := (if uint (m_prev_status (inc p)) < 192 \<or> 224 \<le> uint (m_prev_status (inc p)) then 1 else 0),
      m_buf := (m_buf (inc p))[0 := m_prev_status (inc p), 1 := d]\<rparr>), [])"
proof -
  have d: "uint d < 240" using assms(2) by simp
  have "\<not> d AND 0x80 \<noteq> 0" using assms(2) by (simp only: u8_status_bit)
  moreover have "m_prev_status (inc p) AND 0x80 \<noteq> 0" using assms(3) by (simp only: u8_status_bit)
  moreover have "len_of_status (m_prev_status (inc p))
      = Some (if uint (m_prev_status (inc p)) < 192 \<or> 224 \<le> uint (m_prev_status (inc p)) then 2 else 1)"
    using assms by (simp add: len_of_status_eq)
  ultimately show ?thesis
    using assms(1) by (simp add: handle_plain[OF d] idle_def scan_state_def input_init_def inc_inv_def buf_put_def)
qed

lemma handle_data_store:
  assumes "\<not> m_f1_flag (inc p)" and "m_state (inc p) = MST_DATA" and "uint d < 240"
    and "length (m_buf (inc p)) = 64" and "0 \<le> m_ptr (inc p)" and "m_ptr (inc p) < 64"
    and "1 < m_left (inc p)"
  shows "handle_midi_input p d = Some (with_inc p ((inc p)\<lparr>m_ptr := m_ptr (inc p) + 1,
      m_left := m_left (inc p) - 1, m_buf := (m_buf (inc p))[nat (m_ptr (inc p)) := d]\<rparr>), [])"
  using assms
  by (cases "inc p") (simp add: handle_plain[OF assms(3)] scan_state_def mst_defs input_data_def buf_put_def Let_def)

lemma handle_data_last:
  assumes "\<not> m_f1_flag (inc p)" and "m_state (inc p) = MST_DATA" and "uint d < 248" and "d \<noteq> 0xf1"
    and "length (m_buf (inc p)) = 64" and "0 \<le> m_ptr (inc p)" and "m_ptr (inc p) < 64"
    and "m_left (inc p) \<le> 1"
    and "do_midi_msg ((m_buf (inc p))[nat (m_ptr (inc p)) := d]) (m_ptr (inc p) + 1) = Some (b, ev)"
  shows "handle_midi_input p d = Some (with_inc p ((inc p)\<lparr>m_state := MST_INIT, m_ptr := 0,
      m_left := m_left (inc p) - 1, m_buf := b\<rparr>), ev)"
proof -
  have "d \<noteq> 0xfe" "\<not> 0xf8 \<le> d" using assms(3) by (auto simp: word_le_def)
  then show ?thesis
    using assms
    by (cases "inc p") (simp add: handle_midi_input_def scan_state_def mst_defs input_data_def buf_put_def Let_def)
qed

lemma msg_status_nibbles:
  assumes "msg_valid m"
  shows "\<exists>k. 8 \<le> k \<and> k \<le> 14 \<and> uint (kind_base (kind m)) = 16 * k \<and>
    uint (msg_status m) = 16 * k + uint (chan m) \<and> (one_byte (kind m) \<longleftrightarrow> k = 12 \<or> k = 13)"
proof -
  have "uint (chan m) < 16" using assms by (simp add: msg_valid_def)
  then show ?thesis
    by (cases "kind m") (simp_all add: msg_status_def uint_word_ariths one_byte_def)
qed

lemma nibble_sum: "0 \<le> c \<Longrightarrow> c < (16::int) \<Longrightarrow> (16 * k + c) div 16 = k \<and> (16 * k + c) mod 16 = c"
  by simp

lemma msg_status_facts:
  assumes "msg_valid m"
  shows "128 \<le> uint (msg_status m)" and "uint (msg_status m) < 240"
    and "uint (msg_status m) < 192 \<or> 224 \<le> uint (msg_status m) \<longleftrightarrow> \<not> one_byte (kind m)"
    and "msg_status m AND 0x0f = chan m" and "msg_status m AND 0xf0 = kind_base (kind m)"
proof -
  obtain k where k: "8 \<le> k" "k \<le> 14" "uint (kind_base (kind m)) = 16 * k"
    "uint (msg_status m) = 16 * k + uint (chan m)" "one_byte (kind m) \<longleftrightarrow> k = 12 \<or> k = 13"
    using msg_status_nibbles[OF assms] by blast
  have c: "uint (chan m) < 16" "0 \<le> uint (chan m)" using assms by (simp_all add: msg_valid_def)
  show "128 \<le> uint (msg_status m)" "uint (msg_status m) < 240" using k c by linarith+
  show "uint (msg_status m) < 192 \<or> 224 \<le> uint (msg_status m) \<longleftrightarrow> \<not> one_byte (kind m)"
    using k c by presburger
  show "msg_status m AND 0x0f = chan m"
    using nibble_sum[OF c(2) c(1)] k by (simp add: word_uint_eq_iff u8_low_nibble)
  show "msg_status m AND 0xf0 = kind_base (kind m)"
    using nibble_sum[OF c(2) c(1)] k by (simp add: word_uint_eq_iff u8_high_nibble)
qed

lemma dispatch_channel:
  assumes "msg_valid m" and "b ! 0 = msg_status m" and "b ! 1 = data1 m"
    and "\<not> one_byte (kind m) \<Longrightarrow> b ! 2 = data2 m" and "length b = 64"
  shows "\<exists>b'. do_midi_msg b n = Some (b', [msg_event m]) \<and> length b' = 64"
  using assms msg_status_facts(4,5)[OF assms(1)]
  by (cases "kind m") (simp_all add: do_midi_msg_def callback3_def msg_event_def one_byte_def)

lemma idle_with_inc:
  "length b = 64 \<Longrightarrow> \<not> m_f1_flag i \<Longrightarrow>
   idle (with_inc p (i\<lparr>m_state := MST_INIT, m_ptr := 0, m_left := l, m_buf := b\<rparr>))"
  by (simp add: idle_def with_inc_def inc_inv_def)

lemma input_buf_append:
  "midiparser_input_buf p (xs @ ys) =
     Option.bind (midiparser_input_buf p xs) (\<lambda>(p, ev).
     map_option (\<lambda>(p, evs). (p, ev @ evs)) (midiparser_input_buf p ys))"
proof (induction xs arbitrary: p)
  case Nil
  then show ?case by (simp add: option.map_id0 case_prod_beta flip: id_def)
next
  case (Cons x xs)
  then show ?case
    by (cases "handle_midi_input p x") (auto simp: Option.bind_map_option map_option_case
        split: option.splits prod.splits)
qed

lemma parse_with_status:
  assumes "idle p" and "msg_valid m"
  shows "\<exists>p'. midiparser_input_buf p (msg_status m # msg_data m) = Some (p', [msg_event m]) \<and>
    idle p' \<and> m_prev_status (inc p') = msg_status m"
proof -
  note r = msg_status_facts[OF assms(2)]
  define i where "i = (inc p)\<lparr>m_state := MST_DATA, m_ptr := 1,
      m_left := (if one_byte (kind m) then 1 else 2), m_buf := (m_buf (inc p))[0 := msg_status m],
      m_prev_status := msg_status m\<rparr>"
  have h: "handle_midi_input p (msg_status m) = Some (with_inc p i, [])"
    using handle_status[OF assms(1)] r by (simp add: i_def)
  have d: "uint (data1 m) < 128" "uint (data2 m) < 128" using assms(2) by (simp_all add: msg_valid_def)
  have l: "length (m_buf (inc p)) = 64" "\<not> m_f1_flag (inc p)"
    using assms(1) by (auto simp: idle_def inc_inv_def)
  show ?thesis
  proof (cases "one_byte (kind m)")
    case True
    obtain b where b: "do_midi_msg ((m_buf i)[1 := data1 m]) 2 = Some (b, [msg_event m])" "length b = 64"
      using dispatch_channel[OF assms(2), of "(m_buf i)[1 := data1 m]" 2] True l by (auto simp: i_def)
    have "handle_midi_input (with_inc p i) (data1 m) = Some (with_inc (with_inc p i)
        (i\<lparr>m_state := MST_INIT, m_ptr := 0, m_left := 0, m_buf := b\<rparr>), [msg_event m])"
      using handle_data_last[of "with_inc p i" "data1 m" b "[msg_event m]"] b l d True plain_byte[of "data1 m"]
      by (simp add: with_inc_def i_def)
    then show ?thesis using h True b l by (simp add: msg_data_def idle_with_inc i_def) (simp add: with_inc_def)
  next
    case False
    define i2 where "i2 = i\<lparr>m_ptr := 2, m_left := 1, m_buf := (m_buf i)[1 := data1 m]\<rparr>"
    have h2: "handle_midi_input (with_inc p i) (data1 m) = Some (with_inc (with_inc p i) i2, [])"
      using handle_data_store[of "with_inc p i" "data1 m"] l d False by (simp add: with_inc_def i_def i2_def)
    obtain b where b: "do_midi_msg ((m_buf i2)[2 := data2 m]) 3 = Some (b, [msg_event m])" "length b = 64"
      using dispatch_channel[OF assms(2), of "(m_buf i2)[2 := data2 m]" 3] False l by (auto simp: i_def i2_def)
    have "handle_midi_input (with_inc (with_inc p i) i2) (data2 m) = Some (with_inc (with_inc (with_inc p i) i2)
        (i2\<lparr>m_state := MST_INIT, m_ptr := 0, m_left := 0, m_buf := b\<rparr>), [msg_event m])"
      using handle_data_last[of "with_inc (with_inc p i) i2" "data2 m" b "[msg_event m]"] b l d False
        plain_byte[of "data2 m"]
      by (simp add: with_inc_def i_def i2_def)
    then show ?thesis using h h2 False b l
      by (simp add: msg_data_def idle_with_inc i_def i2_def) (simp add: with_inc_def)
  qed
qed

lemma parse_running:
  assumes "idle p" and "msg_valid m" and "\<not> one_byte (kind m)" and "m_prev_status (inc p) = msg_status m"
  shows "\<exists>p'. midiparser_input_buf p (msg_data m) = Some (p', [msg_event m]) \<and>
    idle p' \<and> m_prev_status (inc p') = msg_status m"
proof -
  note r = msg_status_facts[OF assms(2)]
  define i where "i = (inc p)\<lparr>m_state := MST_DATA, m_ptr := 2, m_left := 1,
      m_buf := (m_buf (inc p))[0 := msg_status m, 1 := data1 m]\<rparr>"
  have d: "uint (data1 m) < 128" "uint (data2 m) < 128" using assms(2) by (simp_all add: msg_valid_def)
  have l: "length (m_buf (inc p)) = 64" "\<not> m_f1_flag (inc p)"
    using assms(1) by (auto simp: idle_def inc_inv_def)
  have h: "handle_midi_input p (data1 m) = Some (with_inc p i, [])"
    using handle_running[OF assms(1) d(1)] r assms(3,4) by (simp add: i_def)
  obtain b where b: "do_midi_msg ((m_buf i)[2 := data2 m]) 3 = Some (b, [msg_event m])" "length b = 64"
    using dispatch_channel[OF assms(2), of "(m_buf i)[2 := data2 m]" 3] assms(3) l by (auto simp: i_def)
  have "handle_midi_input (with_inc p i) (data2 m) = Some (with_inc (with_inc p i)
      (i\<lparr>m_state := MST_INIT, m_ptr := 0, m_left := 0, m_buf := b\<rparr>), [msg_event m])"
    using handle_data_last[of "with_inc p i" "data2 m" b "[msg_event m]"] b l d plain_byte[of "data2 m"]
    by (simp add: with_inc_def i_def)
  then show ?thesis using h assms(3,4) b l
    by (simp add: msg_data_def idle_with_inc i_def) (simp add: with_inc_def)
qed

lemma parse_stream:
  assumes "idle p" and "m_prev_status (inc p) = prev" and "list_all (\<lambda>(omit, m). msg_valid m) ms"
  shows "\<exists>p'. midiparser_input_buf p (encode_msgs prev ms) = Some (p', map (msg_event \<circ> snd) ms) \<and> idle p'"
  using assms
proof (induction ms arbitrary: p prev)
  case Nil
  then show ?case by simp
next
  case (Cons om ms)
  obtain omit m where om: "om = (omit, m)" by (cases om)
  define bs where "bs = (if omit \<and> msg_status m = prev \<and> \<not> one_byte (kind m) then msg_data m
    else msg_status m # msg_data m)"
  have v: "msg_valid m" using Cons.prems om by simp
  obtain p1 where p1: "midiparser_input_buf p bs = Some (p1, [msg_event m])" "idle p1"
    "m_prev_status (inc p1) = msg_status m"
  proof (cases "omit \<and> msg_status m = prev \<and> \<not> one_byte (kind m)")
    case True
    then show ?thesis using parse_running[OF Cons.prems(1) v] Cons.prems(2) that bs_def by auto
  next
    case False
    then have "bs = msg_status m # msg_data m" by (simp add: bs_def)
    then show ?thesis using parse_with_status[OF Cons.prems(1) v] that by metis
  qed
  obtain p2 where p2: "midiparser_input_buf p1 (encode_msgs (msg_status m) ms)
    = Some (p2, map (msg_event \<circ> snd) ms)" "idle p2"
    using Cons.IH[OF p1(2) p1(3)] Cons.prems(3) by auto
  have "encode_msgs prev (om # ms) = bs @ encode_msgs (msg_status m) ms"
    by (simp only: om encode_msgs.simps bs_def)
  then show ?case using p1(1) p2 om by (simp add: input_buf_append)
qed

lemma fresh_idle: "idle (fresh_parser cb) \<and> m_prev_status (inc (fresh_parser cb)) = 0"
  using fresh_inv[of cb]
  by (simp add: idle_def fresh_parser_def midiparser_create_def midiparser_mtc_callback_def MST_INIT_def)

text \<open>C3: Encoding any sequence of channel messages, with or without running status on the
  messages with two data bytes, and parsing the bytes reports exactly those messages, once each
  and in order, and leaves the parser idle; a note on with velocity 0 is reported as a note off
  with velocity 64.\<close>

theorem parse_roundtrip:
  assumes "list_all (\<lambda>(omit, m). msg_valid m) ms"
  shows "\<exists>p'. midiparser_input_buf (fresh_parser cb) (encode_msgs 0 ms)
      = Some (p', map (msg_event \<circ> snd) ms) \<and> idle p'"
  using parse_stream[of "fresh_parser cb" 0 ms] fresh_idle[of cb] assms by simp

theorem parse_roundtrip_witness:
  "\<exists>p'. midiparser_input_buf (fresh_parser True) (encode_msgs 0
        [(False, \<lparr>kind = Note_On, chan = 3, data1 = 60, data2 = 100\<rparr>),
         (True, \<lparr>kind = Note_On, chan = 3, data1 = 60, data2 = 0\<rparr>)])
      = Some (p', map (msg_event \<circ> snd)
        [(False, \<lparr>kind = Note_On, chan = 3, data1 = 60, data2 = 100\<rparr>),
         (True, \<lparr>kind = Note_On, chan = 3, data1 = 60, data2 = 0\<rparr>)]) \<and> idle p'"
  by (rule parse_roundtrip) (simp add: msg_valid_def)

text \<open>Running status does not work for messages with one data byte: after a program change
  or channel pressure status, a further data byte alone reports nothing, and the message comes
  out only when the next byte of any kind, a new status byte included, is read and thrown away.\<close>

theorem running_status_swallows:
  assumes "idle p" and "msg_valid m" and "one_byte (kind m)" and "m_prev_status (inc p) = msg_status m"
    and "uint x < 248" and "x \<noteq> 0xf1"
  shows "midiparser_input_buf p [data1 m] \<noteq> None \<and>
    map_option snd (midiparser_input_buf p [data1 m]) = Some [] \<and>
    (\<exists>p'. midiparser_input_buf p [data1 m, x] = Some (p', [msg_event m]) \<and> idle p' \<and>
      m_prev_status (inc p') = msg_status m)"
proof -
  note r = msg_status_facts[OF assms(2)]
  define i where "i = (inc p)\<lparr>m_state := MST_DATA, m_ptr := 2, m_left := 0,
      m_buf := (m_buf (inc p))[0 := msg_status m, 1 := data1 m]\<rparr>"
  have d: "uint (data1 m) < 128" using assms(2) by (simp add: msg_valid_def)
  have l: "length (m_buf (inc p)) = 64" "\<not> m_f1_flag (inc p)"
    using assms(1) by (auto simp: idle_def inc_inv_def)
  have h: "handle_midi_input p (data1 m) = Some (with_inc p i, [])"
    using handle_running[OF assms(1) d(1)] r assms(3,4) by (simp add: i_def)
  obtain b where b: "do_midi_msg ((m_buf i)[2 := x]) 3 = Some (b, [msg_event m])" "length b = 64"
    using dispatch_channel[OF assms(2), of "(m_buf i)[2 := x]" 3] assms(3) l by (auto simp: i_def)
  have "handle_midi_input (with_inc p i) x = Some (with_inc (with_inc p i)
      (i\<lparr>m_state := MST_INIT, m_ptr := 0, m_left := - 1, m_buf := b\<rparr>), [msg_event m])"
    using handle_data_last[of "with_inc p i" x b "[msg_event m]"] b l assms(5,6)
    by (simp add: with_inc_def i_def)
  then show ?thesis using h b l assms(4)
    by (simp add: idle_with_inc i_def) (simp add: with_inc_def)
qed

definition after_program_change :: midiparser where
  "after_program_change = with_inc (fresh_parser False) ((inc (fresh_parser False))\<lparr>m_prev_status := 0xc5\<rparr>)"

theorem running_status_swallows_witness:
  "midiparser_input_buf after_program_change [data1 \<lparr>kind = Program_Change, chan = 5, data1 = 7, data2 = 0\<rparr>] \<noteq> None \<and>
   map_option snd (midiparser_input_buf after_program_change
     [data1 \<lparr>kind = Program_Change, chan = 5, data1 = 7, data2 = 0\<rparr>]) = Some [] \<and>
   (\<exists>p'. midiparser_input_buf after_program_change
       [data1 \<lparr>kind = Program_Change, chan = 5, data1 = 7, data2 = 0\<rparr>, 0x90]
       = Some (p', [msg_event \<lparr>kind = Program_Change, chan = 5, data1 = 7, data2 = 0\<rparr>]) \<and> idle p' \<and>
     m_prev_status (inc p') = msg_status \<lparr>kind = Program_Change, chan = 5, data1 = 7, data2 = 0\<rparr>)"
proof (rule running_status_swallows)
  show "idle after_program_change"
    using fresh_idle[of False] by (simp add: after_program_change_def with_inc_def idle_def inc_inv_def)
qed (simp_all add: msg_valid_def one_byte_def after_program_change_def with_inc_def msg_status_def)

section \<open>System exclusive messages\<close>

definition sysex_byte :: "u8 \<Rightarrow> bool" where
  "sysex_byte d \<longleftrightarrow> uint d < 248 \<and> d \<noteq> 0xf1 \<and> d \<noteq> 0xf7"

text \<open>Chunks of a long message: every one but the last is full.\<close>

fun full_chunks :: "bytes list \<Rightarrow> bool" where
  "full_chunks [] \<longleftrightarrow> False"
| "full_chunks [c] \<longleftrightarrow> 1 \<le> length c \<and> length c \<le> 64"
| "full_chunks (c # cs) \<longleftrightarrow> length c = 64 \<and> full_chunks cs"

lemma full_chunks_Cons: "length c = 64 \<Longrightarrow> full_chunks cs \<Longrightarrow> full_chunks (c # cs)"
  by (cases cs) auto

definition in_sysex :: "midiparser \<Rightarrow> bytes \<Rightarrow> bool" where
  "in_sysex p cur \<longleftrightarrow> inc_inv (inc p) \<and> m_state (inc p) = MST_SYSEX \<and> \<not> m_f1_flag (inc p) \<and>
     m_ptr (inc p) = int (length cur) \<and> length cur < 64 \<and> take (length cur) (m_buf (inc p)) = cur"

lemma take_update_snoc:
  "length cur < length b \<Longrightarrow> take (length cur) b = cur \<Longrightarrow>
   take (Suc (length cur)) (b[length cur := d]) = cur @ [d]"
  by (simp add: take_Suc_conv_app_nth)

lemma handle_sysex:
  assumes "m_state (inc p) = MST_SYSEX" and "\<not> m_f1_flag (inc p)" and "uint d < 248" and "d \<noteq> 0xf1"
  shows "handle_midi_input p d = map_option (\<lambda>(i, ev). (with_inc p i, ev)) (input_sysex (inc p) d)"
proof -
  have "d \<noteq> 0xfe" "\<not> 0xf8 \<le> d" using assms(3) by (auto simp: word_le_def)
  then show ?thesis using assms by (simp add: handle_midi_input_def scan_state_def mst_defs)
qed

lemma in_sysexD:
  assumes "in_sysex p cur"
  shows "length (m_buf (inc p)) = 64" and "m_ptr (inc p) = int (length cur)" and "length cur < 64"
    and "take (length cur) (m_buf (inc p)) = cur" and "m_state (inc p) = MST_SYSEX" and "\<not> m_f1_flag (inc p)"
  using assms by (auto simp: in_sysex_def inc_inv_def)

lemma sysex_store:
  assumes "in_sysex p cur"
  shows "buf_put (m_buf (inc p)) (m_ptr (inc p)) d = Some ((m_buf (inc p))[length cur := d])"
    and "take (Suc (length cur)) ((m_buf (inc p))[length cur := d]) = cur @ [d]"
  using in_sysexD[OF assms] by (simp_all add: buf_put_def take_update_snoc)

lemma sysex_view:
  assumes "in_sysex p cur"
  shows "do_sysex_msg ((m_buf (inc p))[length cur := d]) (m_ptr (inc p) + 1) = Some [Callback CAT_SYSEX 0 0 (cur @ [d])]"
proof -
  have "nat (m_ptr (inc p) + 1) = Suc (length cur)" using in_sysexD(2)[OF assms] by simp
  then show ?thesis
    using sysex_store(2)[OF assms, of d] in_sysexD(1,2,3)[OF assms]
    by (simp add: do_sysex_msg_def buf_view_def)
qed

lemma sysex_end:
  assumes "in_sysex p cur"
  shows "\<exists>p'. handle_midi_input p 0xf7 = Some (p', [Callback CAT_SYSEX 0 0 (cur @ [0xf7])]) \<and> idle p'"
  using in_sysexD[OF assms] sysex_view[OF assms, of "0xf7"] sysex_store(1)[OF assms, of "0xf7"]
  by (simp add: handle_sysex input_sysex_def Let_def idle_def inc_inv_def with_inc_def)

lemma sysex_full:
  assumes "in_sysex p cur" and "sysex_byte d" and "length cur = 63"
  shows "\<exists>p'. handle_midi_input p d = Some (p', [Callback CAT_SYSEX 0 0 (cur @ [d])]) \<and> in_sysex p' []"
  using in_sysexD[OF assms(1)] sysex_view[OF assms(1), of d] sysex_store(1)[OF assms(1), of d] assms(2,3)
  by (simp add: handle_sysex input_sysex_def Let_def sysex_byte_def MI_MAX_def in_sysex_def
      inc_inv_def with_inc_def)

lemma sysex_more:
  assumes "in_sysex p cur" and "sysex_byte d" and "length cur < 63"
  shows "\<exists>p'. handle_midi_input p d = Some (p', []) \<and> in_sysex p' (cur @ [d])"
  using in_sysexD[OF assms(1)] sysex_store[OF assms(1), of d] assms(2,3)
  by (simp add: handle_sysex input_sysex_def Let_def sysex_byte_def MI_MAX_def in_sysex_def
      inc_inv_def with_inc_def)

lemma sysex_rest:
  assumes "in_sysex p cur" and "list_all sysex_byte ds"
  shows "\<exists>p' cs. midiparser_input_buf p (ds @ [0xf7]) = Some (p', map (Callback CAT_SYSEX 0 0) cs) \<and>
    idle p' \<and> concat cs = cur @ ds @ [0xf7] \<and> full_chunks cs"
  using assms
proof (induction ds arbitrary: p cur)
  case Nil
  from sysex_end[OF Nil.prems(1)] obtain p' where
    "handle_midi_input p 0xf7 = Some (p', [Callback CAT_SYSEX 0 0 (cur @ [0xf7])])" "idle p'" by blast
  then show ?case using in_sysexD(3)[OF Nil.prems(1)]
    by (intro exI[of _ p'] exI[of _ "[cur @ [0xf7]]"]) simp
next
  case (Cons d ds)
  have d: "sysex_byte d" "list_all sysex_byte ds" using Cons.prems(2) by simp_all
  show ?case
  proof (cases "length cur = 63")
    case True
    obtain p1 where p1: "handle_midi_input p d = Some (p1, [Callback CAT_SYSEX 0 0 (cur @ [d])])" "in_sysex p1 []"
      using sysex_full[OF Cons.prems(1) d(1) True] by blast
    obtain p2 cs where p2: "midiparser_input_buf p1 (ds @ [0xf7]) = Some (p2, map (Callback CAT_SYSEX 0 0) cs)"
      "idle p2" "concat cs = ds @ [0xf7]" "full_chunks cs"
      using Cons.IH[OF p1(2) d(2)] by auto
    then show ?thesis using p1 True full_chunks_Cons[of "cur @ [d]" cs]
      by (intro exI[of _ p2] exI[of _ "(cur @ [d]) # cs"]) simp
  next
    case False
    then have "length cur < 63" using in_sysexD(3)[OF Cons.prems(1)] by simp
    then obtain p1 where p1: "handle_midi_input p d = Some (p1, [])" "in_sysex p1 (cur @ [d])"
      using sysex_more[OF Cons.prems(1) d(1)] by blast
    obtain p2 cs where p2: "midiparser_input_buf p1 (ds @ [0xf7]) = Some (p2, map (Callback CAT_SYSEX 0 0) cs)"
      "idle p2" "concat cs = (cur @ [d]) @ ds @ [0xf7]" "full_chunks cs"
      using Cons.IH[OF p1(2) d(2)] by auto
    then show ?thesis using p1 by (intro exI[of _ p2] exI[of _ cs]) simp
  qed
qed

lemma sysex_begin:
  assumes "idle p"
  shows "\<exists>p'. handle_midi_input p 0xf0 = Some (p', []) \<and> in_sysex p' [0xf0]"
proof -
  have "length (m_buf (inc p)) = 64" "m_state (inc p) = MST_INIT" "\<not> m_f1_flag (inc p)"
    using assms by (simp_all add: idle_def inc_inv_def)
  then show ?thesis
    by (simp add: handle_midi_input_def scan_state_def mst_defs input_init_def buf_put_def in_sysex_def
        inc_inv_def with_inc_def take_Suc_conv_app_nth)
qed

text \<open>C34: A system exclusive message of any length that reaches an idle parser is reported as a
  sequence of \<open>CAT_SYSEX\<close> callbacks whose bytes, put together, are the whole message from F0 to
  F7; every chunk but the last fills the 64-byte buffer, and the parser is idle again after it.\<close>

theorem sysex_reassembles:
  assumes "idle p" and "list_all sysex_byte ds"
  shows "\<exists>p' cs. midiparser_input_buf p (0xf0 # ds @ [0xf7]) = Some (p', map (Callback CAT_SYSEX 0 0) cs) \<and>
    idle p' \<and> concat cs = 0xf0 # ds @ [0xf7] \<and> full_chunks cs"
proof -
  obtain p1 where p1: "handle_midi_input p 0xf0 = Some (p1, [])" "in_sysex p1 [0xf0]"
    using sysex_begin[OF assms(1)] by blast
  from sysex_rest[OF p1(2) assms(2)] p1(1) show ?thesis by auto
qed

theorem sysex_reassembles_witness:
  "\<exists>p' cs. midiparser_input_buf (fresh_parser True) (0xf0 # replicate 100 0x7e @ [0xf7])
      = Some (p', map (Callback CAT_SYSEX 0 0) cs) \<and>
    idle p' \<and> concat cs = 0xf0 # replicate 100 0x7e @ [0xf7] \<and> full_chunks cs"
  using sysex_reassembles[of "fresh_parser True" "replicate 100 0x7e"] fresh_idle[of True]
  by (simp add: sysex_byte_def list_all_iff)

section \<open>Realtime bytes\<close>

definition realtime_event :: "midi_event \<Rightarrow> bool" where
  "realtime_event e \<longleftrightarrow> (case e of Callback c m ch ps \<Rightarrow> c = CAT_REALTIME \<and> 0xf8 \<le> m | Mtc_Callback _ \<Rightarrow> False)"

definition rt_inv :: "midi_input_info \<Rightarrow> bool" where
  "rt_inv i \<longleftrightarrow> inc_inv i \<and> m_prev_status i < 0xf8 \<and> (m_state i = MST_DATA \<longrightarrow> m_buf i ! 0 < 0xf8)"

lemma dispatch_not_realtime:
  assumes "do_midi_msg b n = Some (b', ev)" and "b ! 0 < 0xf8"
  shows "list_all (\<lambda>e. \<not> realtime_event e) ev"
  using assms
  by (auto simp: do_midi_msg_def Let_def callback3_def realtime_event_def do_system_msg_def split: if_splits)

lemma init_not_realtime:
  assumes "input_init i d = Some (i', ev)" and "rt_inv i" and "d < 0xf8" and "m_state i = MST_INIT"
  shows "m_prev_status i' < 0xf8 \<and> (m_state i' = MST_DATA \<longrightarrow> m_buf i' ! 0 < 0xf8) \<and>
    list_all (\<lambda>e. \<not> realtime_event e) ev"
proof -
  have l: "length (m_buf i) = 64" using assms(2) by (simp add: rt_inv_def inc_inv_def)
  have put: "\<And>v. buf_put (m_buf i) 0 v = Some ((m_buf i)[0 := v])"
    and put1: "\<And>v w. buf_put ((m_buf i)[0 := v]) 1 w = Some ((m_buf i)[0 := v, Suc 0 := w])"
    using l by (simp_all add: buf_put_ok)
  have hd: "\<And>v. (m_buf i)[0 := v] ! 0 = v" using l by simp
  have "\<And>b' e. do_midi_msg ((m_buf i)[0 := d]) 1 = Some (b', e) \<Longrightarrow> list_all (\<lambda>e. \<not> realtime_event e) e"
    using dispatch_not_realtime hd assms(3) by metis
  then show ?thesis
    using assms l by (auto simp: input_init_def put put1 rt_inv_def mst_defs bind_eq_Some_conv
        split: if_splits option.splits)
qed

lemma scan_not_realtime:
  assumes "scan_state i d = Some (i', ev)" and "rt_inv i" and "d < 0xf8"
  shows "rt_inv i' \<and> list_all (\<lambda>e. \<not> realtime_event e) ev"
proof -
  have inv: "inc_inv i'" using scan_state_ok[of i d] assms by (auto simp: rt_inv_def)
  consider (init) "m_state i = MST_INIT" | (data) "m_state i = MST_DATA" | (sysex) "m_state i = MST_SYSEX"
    using assms(2) by (auto simp: rt_inv_def inc_inv_def)
  then show ?thesis
  proof cases
    case init
    then show ?thesis using init_not_realtime[of i d i' ev] assms inv by (simp add: scan_state_def rt_inv_def)
  next
    case data
    have l: "length (m_buf i) = 64" "1 \<le> m_ptr i" "m_ptr i \<le> 2"
      using assms(2) data by (auto simp: rt_inv_def inc_inv_def mst_defs)
    then have hd: "(m_buf i)[nat (m_ptr i) := d] ! 0 = m_buf i ! 0" by simp
    have lt: "m_buf i ! 0 < 0xf8" "m_prev_status i < 0xf8" using assms(2) data by (auto simp: rt_inv_def)
    have "\<And>n b' e. do_midi_msg ((m_buf i)[nat (m_ptr i) := d]) n = Some (b', e) \<Longrightarrow>
        list_all (\<lambda>e. \<not> realtime_event e) e"
      using dispatch_not_realtime hd lt(1) by metis
    then show ?thesis
      using assms(1) data l hd lt inv
      by (auto simp: scan_state_def mst_defs input_data_def buf_put_def Let_def rt_inv_def split: if_splits option.splits)
  next
    case sysex
    have "\<And>b n e. do_sysex_msg b n = Some e \<Longrightarrow> list_all (\<lambda>e. \<not> realtime_event e) e"
      by (auto simp: do_sysex_msg_def realtime_event_def)
    then show ?thesis
      using assms(1,2) sysex inv
      by (auto simp: scan_state_def mst_defs input_sysex_def buf_put_def Let_def rt_inv_def
          split: if_splits option.splits)
  qed
qed

lemma handle_not_realtime:
  assumes "handle_midi_input p d = Some (p', ev)" and "rt_inv (inc p)" and "d < 0xf8"
  shows "rt_inv (inc p') \<and> list_all (\<lambda>e. \<not> realtime_event e) ev"
proof -
  have flag: "rt_inv ((inc p)\<lparr>m_f1_flag := f\<rparr>)" for f
    using assms(2) by (simp add: rt_inv_def)
  have mtc: "list_all (\<lambda>e. \<not> realtime_event e) (snd (mtc_message st b))" for st b
    by (simp add: mtc_message_def Let_def send_mtc_def realtime_event_def)
  show ?thesis
    using assms flag mtc[of "mtc_st p" d] scan_not_realtime[of "inc p" d]
    by (auto simp: handle_midi_input_def with_inc_def Let_def callback3_def realtime_event_def not_le
        split: if_splits prod.splits)
qed

lemma handle_realtime:
  assumes "\<not> d < 0xf8"
  shows "\<exists>ev. handle_midi_input p d = Some (p, ev) \<and> list_all realtime_event ev \<and>
    ev = (if d = 0xfe then [] else [Callback CAT_REALTIME d 0 [0, 0, 0]])"
  using assms by (auto simp: handle_midi_input_def callback3_def realtime_event_def not_less)

lemma input_buf_realtime:
  assumes "midiparser_input_buf p ds = Some (p', evs)" and "rt_inv (inc p)"
  shows "midiparser_input_buf p (filter (\<lambda>d. d < 0xf8) ds) = Some (p', filter (\<lambda>e. \<not> realtime_event e) evs) \<and>
    filter realtime_event evs
      = map (\<lambda>d. Callback CAT_REALTIME d 0 [0, 0, 0]) (filter (\<lambda>d. 0xf8 \<le> d \<and> d \<noteq> 0xfe) ds)"
  using assms
proof (induction ds arbitrary: p evs)
  case Nil
  then show ?case by simp
next
  case (Cons d ds)
  from Cons.prems(1) obtain p1 ev evs1 where s: "handle_midi_input p d = Some (p1, ev)"
    "midiparser_input_buf p1 ds = Some (p', evs1)" "evs = ev @ evs1"
    by (auto split: option.splits simp: bind_eq_Some_conv)
  show ?case
  proof (cases "d < 0xf8")
    case True
    note h = handle_not_realtime[OF s(1) Cons.prems(2) True]
    then have "filter realtime_event ev = []" "filter (\<lambda>e. \<not> realtime_event e) ev = ev"
      by (auto simp: list_all_iff filter_empty_conv filter_id_conv)
    moreover have "\<not> 0xf8 \<le> d" using True by (simp add: not_le)
    ultimately show ?thesis using Cons.IH[OF s(2)] h s True by simp
  next
    case False
    then have "p1 = p" and ev: "list_all realtime_event ev"
      "ev = (if d = 0xfe then [] else [Callback CAT_REALTIME d 0 [0, 0, 0]])"
      using handle_realtime[OF False, of p] s(1) by auto
    then have "filter realtime_event ev = ev" "filter (\<lambda>e. \<not> realtime_event e) ev = []"
      by (auto simp: list_all_iff filter_empty_conv filter_id_conv)
    moreover have "0xf8 \<le> d" using False by (simp add: not_less)
    ultimately show ?thesis using Cons.IH[OF s(2)] Cons.prems(2) s False ev(2) \<open>p1 = p\<close> by simp
  qed
qed

text \<open>C35: Realtime bytes are transparent wherever they fall, also in the middle of another
  message: leaving out every byte from F8 up changes neither the parser's final state nor any
  other report, and the realtime reports are exactly these bytes in order, active sensing (FE)
  excepted.\<close>

theorem realtime_transparent:
  "\<exists>p' evs. midiparser_input_buf (fresh_parser cb) ds = Some (p', evs) \<and>
     midiparser_input_buf (fresh_parser cb) (filter (\<lambda>d. d < 0xf8) ds)
       = Some (p', filter (\<lambda>e. \<not> realtime_event e) evs) \<and>
     filter realtime_event evs
       = map (\<lambda>d. Callback CAT_REALTIME d 0 [0, 0, 0]) (filter (\<lambda>d. 0xf8 \<le> d \<and> d \<noteq> 0xfe) ds)"
proof -
  obtain p' evs where p': "midiparser_input_buf (fresh_parser cb) ds = Some (p', evs)"
    using input_buf_ok[OF fresh_inv, of cb ds] by blast
  have "rt_inv (inc (fresh_parser cb))"
    using fresh_inv[of cb] fresh_idle[of cb] by (simp add: rt_inv_def idle_def mst_defs)
  from input_buf_realtime[OF p' this] p' show ?thesis by blast
qed

section \<open>Midi time code\<close>

text \<open>The eight quarter frames of a time code: piece \<open>k\<close> carries a nibble. The last one also
  carries the frame rate.\<close>

definition quarter :: "nat \<Rightarrow> nat \<Rightarrow> u8" where
  "quarter k n = word_of_nat (16 * k + n)"

definition quarter_frames :: "nat \<Rightarrow> nat \<Rightarrow> nat \<Rightarrow> nat \<Rightarrow> nat \<Rightarrow> bytes" where
  "quarter_frames ty h m s f =
     [quarter 0 (f mod 16), quarter 1 (f div 16), quarter 2 (s mod 16), quarter 3 (s div 16),
      quarter 4 (m mod 16), quarter 5 (m div 16), quarter 6 (h mod 16), quarter 7 (h div 16 + 2 * ty)]"

definition quarter_stream :: "bytes \<Rightarrow> bytes" where
  "quarter_stream bs = concat (map (\<lambda>b. [0xf1, b]) bs)"

text \<open>The number of quarter frames since 00:00:00.00 at a rate of \<open>fps\<close> frames per second.\<close>

definition quarter_count :: "nat \<Rightarrow> nat \<Rightarrow> nat \<Rightarrow> nat \<Rightarrow> nat \<Rightarrow> nat \<Rightarrow> nat" where
  "quarter_count fps h m s f q = q + 4 * (f + fps * (s + 60 * (m + 60 * h)))"

lemma uint_quarter:
  assumes "k < 8" and "n < 16"
  shows "uint (quarter k n) = 16 * int k + int n"
proof -
  have "(int n + int k * 16) mod 256 = int n + int k * 16" using assms by (intro mod_pos_pos_trivial) auto
  then show ?thesis
    by (simp add: quarter_def uint_word_of_int_eq take_bit_eq_mod uint_word_ariths unsigned_of_nat
        flip: of_nat_mult of_nat_add)
qed

lemma quarter_parts:
  assumes "k < 8" and "n < 16"
  shows "uint (drop_bit 4 (quarter k n)) = int k" and "quarter k n AND 0x0f = word_of_nat n"
proof -
  have "uint (quarter k n) div 16 = int k" "uint (quarter k n) mod 16 = int n"
    using assms nibble_sum[of "int n" "int k"] by (simp_all add: uint_quarter)
  moreover have "uint (word_of_nat n :: u8) = int n"
    using assms by (simp add: unsigned_of_nat take_bit_nat_eq_self_iff)
  ultimately show "uint (drop_bit 4 (quarter k n)) = int k" "quarter k n AND 0x0f = word_of_nat n"
    by (simp_all add: uint_drop_bit_div word_uint_eq_iff u8_low_nibble)
qed

lemma nibble_join:
  assumes "v < 256"
  shows "word_of_nat (v mod 16) OR push_bit 4 (word_of_nat (v div 16)) = (word_of_nat v :: u8)"
proof -
  have "v = (v mod 16) OR push_bit 4 (v div 16)"
  proof -
    have "v = take_bit 4 v OR push_bit 4 (drop_bit 4 v)"
      by (rule bit_eqI) (metis bit_drop_bit_eq bit_or_iff bit_push_bit_iff bit_take_bit_iff comp_apply
        le_add_diff_inverse not_le possible_bit_nat)
    then show ?thesis by (simp add: take_bit_eq_mod drop_bit_eq_div)
  qed
  then show ?thesis by (metis of_nat_or_eq of_nat_push_bit)
qed

text \<open>What piece \<open>k\<close> makes of the record being assembled, and the decoder's position after it.\<close>

definition piece_rec :: "nat \<Rightarrow> nat \<Rightarrow> oss_mtc_data \<Rightarrow> oss_mtc_data" where
  "piece_rec k n m = mtc0 (mtc_piece (int k) (word_of_nat n)
     \<lparr>prev_ix = 0, mtc_run = 0, offset = 0, mtc = m, mtc0 = m\<lparr>direction := MTC_DIR_FORWARD\<rparr>\<rparr>)"

definition mtc_at :: "int \<Rightarrow> oss_mtc_data \<Rightarrow> mtc_state \<Rightarrow> bool" where
  "mtc_at k m st \<longleftrightarrow> mtc_run st \<noteq> 0 \<and> prev_ix st = k \<and> mtc0 st = m"

lemma mtc_piece_frame:
  "prev_ix (mtc_piece k d st) = prev_ix st" "mtc_run (mtc_piece k d st) = mtc_run st"
  "mtc0 (mtc_piece k d st) = mtc0 (mtc_piece k d (base\<lparr>mtc0 := mtc0 st\<rparr>))"
  by (simp_all add: mtc_piece_def Let_def)

lemma mtc_first:
  assumes "prev_ix st = - 1 \<or> prev_ix st = 7" and "n < 16"
  shows "\<exists>st'. mtc_message st (quarter 0 n) = (st', [send_mtc st']) \<and>
    mtc_at 0 (piece_rec 0 n (mtc0 st)) st'"
proof -
  have "(prev_ix st + 1) smod 8 = 0" using assms(1) by (auto simp: signed_modulo_int_def)
  then show ?thesis using assms quarter_parts[of 0 n]
    by (simp add: mtc_message_def Let_def mtc_at_def piece_rec_def mtc_piece_def)
qed

lemma mtc_next:
  assumes "mtc_at (int k - 1) m st" and "n < 16" and "0 < k" and "k < 8"
  shows "\<exists>st'. mtc_message st (quarter k n) = (st', [send_mtc st']) \<and> mtc_at (int k) (piece_rec k n m) st' \<and>
    (k = 7 \<longrightarrow> offset st' = 7 \<and> mtc st' = mtc0 st')"
proof -
  have s: "(prev_ix st + 1) smod 8 = int k" using assms by (simp add: signed_modulo_int_def mtc_at_def)
  have c: "mtc_run st \<noteq> 0" "mtc0 st = m" using assms(1) by (simp_all add: mtc_at_def)
  define st1 where "st1 = st\<lparr>mtc0 := m\<lparr>direction := MTC_DIR_FORWARD\<rparr>,
    mtc := (mtc st)\<lparr>direction := MTC_DIR_FORWARD\<rparr>, prev_ix := int k\<rparr>"
  define st2 where "st2 = mtc_piece (int k) (word_of_nat n) st1"
  define st3 where "st3 = (if k = 7 then st2\<lparr>offset := 7\<rparr> else st2\<lparr>offset := offset st2 + 1\<rparr>)"
  have "mtc_message st (quarter k n) = (st3, [send_mtc st3])"
    using s c assms quarter_parts[of k n]
    by (simp add: mtc_message_def Let_def st1_def st2_def st3_def)
  moreover have "mtc_at (int k) (piece_rec k n m) st3"
    using c by (simp add: mtc_at_def piece_rec_def st3_def st2_def mtc_piece_frame(1,2) st1_def)
      (simp add: mtc_piece_def Let_def)
  moreover have "k = 7 \<longrightarrow> offset st3 = 7 \<and> mtc st3 = mtc0 st3"
    by (simp add: st3_def st2_def mtc_piece_def Let_def)
  ultimately show ?thesis by blast
qed

definition mtc_decoded :: "nat \<Rightarrow> nat \<Rightarrow> nat \<Rightarrow> nat \<Rightarrow> nat \<Rightarrow> oss_mtc_data \<Rightarrow> oss_mtc_data" where
  "mtc_decoded ty h m s f r = r\<lparr>direction := MTC_DIR_FORWARD, qframes := 0, frames := word_of_nat f,
     seconds := word_of_nat s, minutes := word_of_nat m, hours := word_of_nat h,
     time_code_type := frame_types ! ty\<rparr>"

lemma hours_piece:
  assumes "h < 32" and "ty < 4"
  shows "word_of_nat (h mod 16) OR push_bit 4 (word_of_nat (h div 16 + 2 * ty)) = (word_of_nat (h + 32 * ty) :: u8)"
    and "unat (drop_bit 5 (word_of_nat (h + 32 * ty) :: u8) AND 3) = ty"
    and "(word_of_nat (h + 32 * ty) :: u8) AND 31 = word_of_nat h"
proof -
  have "h + 32 * ty = h + 2 * ty * 16" by simp
  then have v: "(h + 32 * ty) mod 16 = h mod 16" "(h + 32 * ty) div 16 = h div 16 + 2 * ty" "h + 32 * ty < 256"
    using assms by (simp_all only: mod_mult_self1 div_mult_self1)
  show "word_of_nat (h mod 16) OR push_bit 4 (word_of_nat (h div 16 + 2 * ty)) = (word_of_nat (h + 32 * ty) :: u8)"
    using nibble_join[OF v(3)] v(1,2) by simp
  have n: "unat (word_of_nat (h + 32 * ty) :: u8) = h + 32 * ty"
    using v(3) by (simp add: unsigned_of_nat take_bit_nat_eq_self_iff del: of_nat_add)
  have m: "(x :: nat) AND mask k = x mod 2 ^ k" for x k by (simp only: take_bit_eq_mask[symmetric] take_bit_eq_mod)
  have "unat (drop_bit 5 w AND 3) = unat w div 32 AND mask 2" for w :: u8
    by (simp add: unsigned_and_eq unat_drop_bit_eq mask_eq_exp_minus_1 del: drop_bit_numeral_bit0
        drop_bit_numeral_bit1) (simp add: drop_bit_eq_div)
  then show "unat (drop_bit 5 (word_of_nat (h + 32 * ty) :: u8) AND 3) = ty" using assms n by (simp only: m) simp
  have "unat (w AND 31) = unat w AND mask 5" for w :: u8
    by (simp add: unsigned_and_eq mask_eq_exp_minus_1)
  then have "unat ((word_of_nat (h + 32 * ty) :: u8) AND 31) = h" using assms n by (simp only: m) simp
  then show "(word_of_nat (h + 32 * ty) :: u8) AND 31 = word_of_nat h"
    using assms(1) by (simp add: word_unat_eq_iff[of _ "word_of_nat h"] unsigned_of_nat
        take_bit_nat_eq_self_iff[of 8 h, THEN iffD2])
qed

lemma pieces_decode:
  assumes "h < 32" and "m < 256" and "s < 256" and "f < 256" and "ty < 4"
  shows "piece_rec 7 (h div 16 + 2 * ty) (piece_rec 6 (h mod 16) (piece_rec 5 (m div 16) (piece_rec 4 (m mod 16)
    (piece_rec 3 (s div 16) (piece_rec 2 (s mod 16) (piece_rec 1 (f div 16) (piece_rec 0 (f mod 16) r)))))))
    = mtc_decoded ty h m s f r"
  using nibble_join[OF assms(2)] nibble_join[OF assms(3)] nibble_join[OF assms(4)]
    hours_piece[OF assms(1,5)]
  by (cases r) (simp add: piece_rec_def mtc_piece_def mtc_decoded_def Let_def del: drop_bit_or of_nat_add of_nat_mult)

lemma send_decoded:
  assumes "mtc st = mtc_decoded ty h m s f r" and "offset st = 7" and "ty < 4"
    and "h < 24" and "m < 60" and "s < 60" and "f < unat (frame_types ! ty)"
  shows "\<exists>d. send_mtc st = Mtc_Callback d \<and> direction d = MTC_DIR_FORWARD \<and> time_code_type d = frame_types ! ty \<and>
    quarter_count (unat (frame_types ! ty)) (unat (hours d)) (unat (minutes d)) (unat (seconds d))
        (unat (frames d)) (unat (qframes d))
      = quarter_count (unat (frame_types ! ty)) h m s f 0 + 7 \<and>
    unat (qframes d) < 4 \<and> unat (frames d) < unat (frame_types ! ty) \<and> unat (seconds d) < 60 \<and>
    unat (minutes d) < 60 \<and> unat (hours d) \<le> 24"
proof -
  define fps where "fps = unat (frame_types ! ty)"
  have t: "ty = 0 \<or> ty = 1 \<or> ty = 2 \<or> ty = 3" using assms(3) by auto
  then have fps: "24 \<le> fps" "fps \<le> 30" "frame_types ! ty = word_of_nat fps"
    by (auto simp: fps_def frame_types_def)
  have tc0: "frame_types ! ty \<noteq> 0" using t by (auto simp: frame_types_def)
  define f1 where "f1 = f + 1"
  define s1 where "s1 = s + f1 div fps"
  define m1 where "m1 = m + s1 div 60"
  define h1 where "h1 = h + m1 div 60"
  have f1: "f1 \<le> fps" using assms(7) by (simp add: f1_def fps_def)
  have s1: "s1 \<le> 60" using assms(6) f1 fps(1) by (auto simp: s1_def div_le_mono le_antisym div_if)
  have m1: "m1 \<le> 60" using assms(5) s1 by (auto simp: m1_def div_if)
  have h1: "h1 \<le> 24" using assms(4) m1 by (auto simp: h1_def div_if)
  have u: "unat (word_of_nat x :: u8) = x" if "x < 256" for x
    using that by (simp add: unsigned_of_nat take_bit_nat_eq_self_iff)
  have dv: "(word_of_nat x :: u8) div word_of_nat y = word_of_nat (x div y)"
    "(word_of_nat x :: u8) mod word_of_nat y = word_of_nat (x mod y)" if "x < 256" "y < 256" for x y
    using that u by (simp_all add: word_arith_nat_div word_arith_nat_mod)
  have q: "(word_of_int (uint (0::u8) + 7) :: u8) = word_of_nat 7" by simp
  have step: "(word_of_nat f :: u8) + 1 = word_of_nat f1"
    "(word_of_nat s :: u8) + word_of_nat (f1 div fps) = word_of_nat s1"
    "(word_of_nat m :: u8) + word_of_nat (s1 div 60) = word_of_nat m1"
    "(word_of_nat h :: u8) + word_of_nat (m1 div 60) = word_of_nat h1"
    by (simp_all add: f1_def s1_def m1_def h1_def)
  have d60: "(word_of_nat x :: u8) div 60 = word_of_nat (x div 60)"
    "(word_of_nat x :: u8) mod 60 = word_of_nat (x mod 60)" if "x < 256" for x
    using dv[of x 60] that by simp_all
  define d where "d = r\<lparr>direction := MTC_DIR_FORWARD, qframes := 3,
      frames := word_of_nat (f1 mod fps), seconds := word_of_nat (s1 mod 60), minutes := word_of_nat (m1 mod 60),
      hours := word_of_nat h1, time_code_type := frame_types ! ty\<rparr>"
  have "f1 < 256" "s1 < 256" "m1 < 256" "fps < 256" using fps f1 s1 m1 by simp_all
  then have "send_mtc st = Mtc_Callback d"
    using assms(1,2) tc0
    by (simp add: send_mtc_def Let_def mtc_decoded_def fps(3) step dv d60 d_def)
  moreover have c: "f1 mod fps + fps * (s1 mod 60 + 60 * (m1 mod 60 + 60 * h1)) = f + 1 + fps * (s + 60 * (m + 60 * h))"
  proof -
    have a: "f1 mod fps + fps * (f1 div fps) = f1" "s1 mod 60 + 60 * (s1 div 60) = s1"
      "m1 mod 60 + 60 * (m1 div 60) = m1" by simp_all
    have "f1 mod fps + fps * (s1 mod 60 + 60 * (m1 mod 60 + 60 * h1))
        = f1 mod fps + fps * (s1 mod 60 + 60 * (m1 mod 60 + 60 * (m1 div 60) + 60 * h))"
      by (simp add: h1_def algebra_simps)
    also have "\<dots> = f1 mod fps + fps * (s1 mod 60 + 60 * (s1 div 60) + 60 * (m + 60 * h))"
      by (simp only: a(3)) (simp add: m1_def algebra_simps)
    also have "\<dots> = f1 mod fps + fps * (f1 div fps) + fps * (s + 60 * (m + 60 * h))"
      by (simp only: a(2)) (simp add: s1_def algebra_simps)
    finally show ?thesis by (simp only: a(1)) (simp add: f1_def)
  qed
  moreover have d: "unat (qframes d) = 3" "unat (frames d) = f1 mod fps" "unat (seconds d) = s1 mod 60"
    "unat (minutes d) = m1 mod 60" "unat (hours d) = h1" "direction d = MTC_DIR_FORWARD"
    "time_code_type d = frame_types ! ty"
    using u[of "f1 mod fps"] u[of "s1 mod 60"] u[of "m1 mod 60"] u[of h1] fps h1
    by (simp_all add: d_def less_trans[OF mod_less_divisor])
  moreover have "f1 mod fps < fps" "s1 mod 60 < 60" "m1 mod 60 < 60" using fps(1) by simp_all
  moreover have "quarter_count fps h1 (m1 mod 60) (s1 mod 60) (f1 mod fps) 3 = quarter_count fps h m s f 0 + 7"
    unfolding quarter_count_def c by (simp only: add_mult_distrib2)
  ultimately show ?thesis using h1 unfolding fps_def[symmetric]
    by (intro exI[of _ d] conjI) (simp_all only:)
qed

definition mtc_ready :: "midiparser \<Rightarrow> int \<Rightarrow> oss_mtc_data \<Rightarrow> bool" where
  "mtc_ready p k m \<longleftrightarrow> mtc_callback p \<and> mtc_at k m (mtc_st p)"

lemma quarter_input:
  assumes "mtc_callback p" and "k < 8" and "n < 16" and "mtc_message (mtc_st p) (quarter k n) = (st, ev)"
  shows "midiparser_input_buf p [0xf1, quarter k n]
    = Some (p\<lparr>inc := (inc p)\<lparr>m_f1_flag := False\<rparr>, mtc_st := st\<rparr>, ev)"
proof -
  have "uint (quarter k n) < 128" using assms(2,3) by (simp add: uint_quarter)
  then have "quarter k n \<noteq> 0xfe" "\<not> 0xf8 \<le> quarter k n" "quarter k n \<noteq> 0xf1"
    by (auto simp: word_le_def word_uint_eq_iff)
  then show ?thesis using assms(1,4) by (simp add: handle_midi_input_def with_inc_def Let_def)
qed

lemma quarter_first:
  assumes "mtc_callback p" and "prev_ix (mtc_st p) = - 1 \<or> prev_ix (mtc_st p) = 7" and "n < 16"
  shows "\<exists>p'. midiparser_input_buf p [0xf1, quarter 0 n] = Some (p', [send_mtc (mtc_st p')]) \<and>
    mtc_ready p' 0 (piece_rec 0 n (mtc0 (mtc_st p)))"
proof -
  obtain st' where "mtc_message (mtc_st p) (quarter 0 n) = (st', [send_mtc st'])"
    "mtc_at 0 (piece_rec 0 n (mtc0 (mtc_st p))) st'"
    using mtc_first[OF assms(2,3)] by blast
  then show ?thesis using quarter_input[OF assms(1), of 0 n] assms(1,3) by (simp add: mtc_ready_def)
qed

lemma quarter_next:
  assumes "mtc_ready p (int k - 1) m" and "n < 16" and "0 < k" and "k < 8"
  shows "\<exists>p'. midiparser_input_buf p [0xf1, quarter k n] = Some (p', [send_mtc (mtc_st p')]) \<and>
    mtc_ready p' (int k) (piece_rec k n m) \<and>
    (k = 7 \<longrightarrow> offset (mtc_st p') = 7 \<and> mtc (mtc_st p') = piece_rec k n m)"
proof -
  have c: "mtc_callback p" "mtc_at (int k - 1) m (mtc_st p)" using assms(1) by (simp_all add: mtc_ready_def)
  obtain st' where "mtc_message (mtc_st p) (quarter k n) = (st', [send_mtc st'])"
    "mtc_at (int k) (piece_rec k n m) st'" "k = 7 \<longrightarrow> offset st' = 7 \<and> mtc st' = mtc0 st'"
    using mtc_next[OF c(2) assms(2-4)] by blast
  then show ?thesis using quarter_input[OF c(1) assms(4,2)] c(1)
    by (auto simp: mtc_ready_def mtc_at_def)
qed

lemma quarter_stream_Cons: "quarter_stream (b # bs) = [0xf1, b] @ quarter_stream bs"
  by (simp add: quarter_stream_def)

lemma stream_then:
  assumes "midiparser_input_buf p xs = Some (p1, ev)" and "midiparser_input_buf p1 ys = Some (p2, evs)"
  shows "midiparser_input_buf p (xs @ ys) = Some (p2, ev @ evs)"
  using assms by (simp only: input_buf_append) simp

lemma quarter_chain:
  assumes "mtc_callback p" and "prev_ix (mtc_st p) = - 1 \<or> prev_ix (mtc_st p) = 7"
    and "h < 24" and "m < 60" and "s < 60" and "f < 30" and "ty < 4"
  shows "\<exists>p' evs. midiparser_input_buf p (quarter_stream (quarter_frames ty h m s f)) = Some (p', evs) \<and>
    length evs = 8 \<and> last evs = send_mtc (mtc_st p') \<and> mtc_callback p' \<and> prev_ix (mtc_st p') = 7 \<and>
    offset (mtc_st p') = 7 \<and> mtc (mtc_st p') = mtc_decoded ty h m s f (mtc0 (mtc_st p))"
proof -
  have n: "f mod 16 < 16" "f div 16 < 16" "s mod 16 < 16" "s div 16 < 16" "m mod 16 < 16" "m div 16 < 16"
    "h mod 16 < 16" "h div 16 + 2 * ty < 16"
    using assms(3-7) by auto
  obtain p0 where p0: "midiparser_input_buf p [0xf1, quarter 0 (f mod 16)] = Some (p0, [send_mtc (mtc_st p0)])"
    "mtc_ready p0 0 (piece_rec 0 (f mod 16) (mtc0 (mtc_st p)))"
    using quarter_first[OF assms(1,2) n(1)] by blast
  obtain p1 r1 where p1: "midiparser_input_buf p0 [0xf1, quarter 1 (f div 16)] = Some (p1, [send_mtc (mtc_st p1)])"
    "mtc_ready p1 1 r1" "r1 = piece_rec 1 (f div 16) (piece_rec 0 (f mod 16) (mtc0 (mtc_st p)))"
    using quarter_next[of p0 1 "piece_rec 0 (f mod 16) (mtc0 (mtc_st p))", OF _ n(2)] p0(2) by (auto simp del: midiparser_input_buf.simps)
  obtain p2 r2 where p2: "midiparser_input_buf p1 [0xf1, quarter 2 (s mod 16)] = Some (p2, [send_mtc (mtc_st p2)])"
    "mtc_ready p2 2 r2" "r2 = piece_rec 2 (s mod 16) r1"
    using quarter_next[of p1 2 r1, OF _ n(3)] p1(2) by (auto simp del: midiparser_input_buf.simps)
  obtain p3 r3 where p3: "midiparser_input_buf p2 [0xf1, quarter 3 (s div 16)] = Some (p3, [send_mtc (mtc_st p3)])"
    "mtc_ready p3 3 r3" "r3 = piece_rec 3 (s div 16) r2"
    using quarter_next[of p2 3 r2, OF _ n(4)] p2(2) by (auto simp del: midiparser_input_buf.simps)
  obtain p4 r4 where p4: "midiparser_input_buf p3 [0xf1, quarter 4 (m mod 16)] = Some (p4, [send_mtc (mtc_st p4)])"
    "mtc_ready p4 4 r4" "r4 = piece_rec 4 (m mod 16) r3"
    using quarter_next[of p3 4 r3, OF _ n(5)] p3(2) by (auto simp del: midiparser_input_buf.simps)
  obtain p5 r5 where p5: "midiparser_input_buf p4 [0xf1, quarter 5 (m div 16)] = Some (p5, [send_mtc (mtc_st p5)])"
    "mtc_ready p5 5 r5" "r5 = piece_rec 5 (m div 16) r4"
    using quarter_next[of p4 5 r4, OF _ n(6)] p4(2) by (auto simp del: midiparser_input_buf.simps)
  obtain p6 r6 where p6: "midiparser_input_buf p5 [0xf1, quarter 6 (h mod 16)] = Some (p6, [send_mtc (mtc_st p6)])"
    "mtc_ready p6 6 r6" "r6 = piece_rec 6 (h mod 16) r5"
    using quarter_next[of p5 6 r5, OF _ n(7)] p5(2) by (auto simp del: midiparser_input_buf.simps)
  obtain p7 r7 where p7: "midiparser_input_buf p6 [0xf1, quarter 7 (h div 16 + 2 * ty)] = Some (p7, [send_mtc (mtc_st p7)])"
    "mtc_ready p7 7 r7" "r7 = piece_rec 7 (h div 16 + 2 * ty) r6" "offset (mtc_st p7) = 7" "mtc (mtc_st p7) = r7"
    using quarter_next[of p6 7 r6, OF _ n(8)] p6(2) by (auto simp del: midiparser_input_buf.simps)
  have nil: "quarter_stream [] = []" by (simp add: quarter_stream_def)
  have "\<exists>es. length es = 7 \<and> midiparser_input_buf p (quarter_stream (quarter_frames ty h m s f))
      = Some (p7, es @ [send_mtc (mtc_st p7)])"
    unfolding quarter_frames_def quarter_stream_Cons nil append_Nil2
    using stream_then[OF p0(1) stream_then[OF p1(1) stream_then[OF p2(1) stream_then[OF p3(1)
      stream_then[OF p4(1) stream_then[OF p5(1) stream_then[OF p6(1) p7(1)]]]]]]]
    by (intro exI[of _ "map (\<lambda>q. send_mtc (mtc_st q)) [p0, p1, p2, p3, p4, p5, p6]"]) simp
  moreover have "r7 = mtc_decoded ty h m s f (mtc0 (mtc_st p))"
    using pieces_decode[of h m s f ty] assms(3-7) p1(3) p2(3) p3(3) p4(3) p5(3) p6(3) p7(3) by simp
  ultimately show ?thesis using p7 by (auto simp: mtc_ready_def mtc_at_def)
qed

lemma decode_quarters:
  assumes "mtc_callback p" and "prev_ix (mtc_st p) = - 1 \<or> prev_ix (mtc_st p) = 7"
    and "h < 24" and "m < 60" and "s < 60" and "ty < 4" and "f < unat (frame_types ! ty)"
  shows "\<exists>p' evs d. midiparser_input_buf p (quarter_stream (quarter_frames ty h m s f)) = Some (p', evs) \<and>
    length evs = 8 \<and> last evs = Mtc_Callback d \<and> prev_ix (mtc_st p') = 7 \<and>
    direction d = MTC_DIR_FORWARD \<and> time_code_type d = frame_types ! ty \<and>
    quarter_count (unat (frame_types ! ty)) (unat (hours d)) (unat (minutes d)) (unat (seconds d))
        (unat (frames d)) (unat (qframes d))
      = quarter_count (unat (frame_types ! ty)) h m s f 0 + 7 \<and>
    unat (qframes d) < 4 \<and> unat (frames d) < unat (frame_types ! ty) \<and> unat (seconds d) < 60 \<and>
    unat (minutes d) < 60 \<and> unat (hours d) \<le> 24"
proof -
  have "ty = 0 \<or> ty = 1 \<or> ty = 2 \<or> ty = 3" using assms(6) by auto
  then have f: "f < 30" using assms(7) by (auto simp: frame_types_def)
  obtain p' evs where p': "midiparser_input_buf p (quarter_stream (quarter_frames ty h m s f)) = Some (p', evs)"
    "length evs = 8" "last evs = send_mtc (mtc_st p')" "prev_ix (mtc_st p') = 7" "offset (mtc_st p') = 7"
    "mtc (mtc_st p') = mtc_decoded ty h m s f (mtc0 (mtc_st p))"
    using quarter_chain[OF assms(1-5) f assms(6)] by blast
  from send_decoded[OF p'(6,5) assms(6,3,4,5,7)] p' show ?thesis by metis
qed

text \<open>C24: The eight quarter frame messages of a valid time code, sent to a decoder that is
  between two time codes, cause eight MTC callbacks; the last one gives the forward direction, the
  transmitted frame rate and a normalised time that is the transmitted one advanced by the seven
  quarter frames that passed since its first piece. The hours are not wrapped at 24.\<close>

theorem mtc_decodes:
  assumes "mtc_callback p" and "prev_ix (mtc_st p) = - 1 \<or> prev_ix (mtc_st p) = 7"
    and "h < 24" and "m < 60" and "s < 60" and "ty < 4" and "f < unat (frame_types ! ty)"
  shows "\<exists>p' evs d. midiparser_input_buf p (quarter_stream (quarter_frames ty h m s f)) = Some (p', evs) \<and>
    length evs = 8 \<and> last evs = Mtc_Callback d \<and> prev_ix (mtc_st p') = 7 \<and>
    direction d = MTC_DIR_FORWARD \<and> time_code_type d = frame_types ! ty \<and>
    quarter_count (unat (frame_types ! ty)) (unat (hours d)) (unat (minutes d)) (unat (seconds d))
        (unat (frames d)) (unat (qframes d))
      = quarter_count (unat (frame_types ! ty)) h m s f 0 + 7 \<and>
    unat (qframes d) < 4 \<and> unat (frames d) < unat (frame_types ! ty) \<and> unat (seconds d) < 60 \<and>
    unat (minutes d) < 60 \<and> unat (hours d) \<le> 24"
  using assms by (rule decode_quarters)

theorem mtc_decodes_witness:
  "\<exists>p' evs d. midiparser_input_buf (fresh_parser True) (quarter_stream (quarter_frames 1 23 59 59 24)) = Some (p', evs) \<and>
    length evs = 8 \<and> last evs = Mtc_Callback d \<and> prev_ix (mtc_st p') = 7 \<and>
    direction d = MTC_DIR_FORWARD \<and> time_code_type d = frame_types ! 1 \<and>
    quarter_count (unat (frame_types ! 1)) (unat (hours d)) (unat (minutes d)) (unat (seconds d))
        (unat (frames d)) (unat (qframes d))
      = quarter_count (unat (frame_types ! 1)) 23 59 59 24 0 + 7 \<and>
    unat (qframes d) < 4 \<and> unat (frames d) < unat (frame_types ! 1) \<and> unat (seconds d) < 60 \<and>
    unat (minutes d) < 60 \<and> unat (hours d) \<le> 24"
  by (rule mtc_decodes)
    (simp_all add: fresh_parser_def midiparser_create_def midiparser_mtc_callback_def frame_types_def)

end
