(* ===== verification/Spdif.thy ===== *)
theory Spdif
  imports Oss_Prelude
begin

text \<open>
  The S/PDIF control bit and mixer extension manager of \<open>kernel/framework/audio/oss_spdif.c\<close>
  with its structures of \<open>kernel/framework/include/spdif.h\<close> and \<open>include/soundcard.h\<close>. What
  lies behind a device, the low level driver's hardware and the mixer extension tables, is a
  state of type \<open>'h\<close> that the driver's methods and the mixer services, both parameters, may
  change. A driver method that is \<open>NULL\<close> is \<open>None\<close>. The mutexes are not modelled: each
  operation is one critical section.
\<close>

section \<open>State\<close>

text \<open>\<open>filler[0..2]\<close> of the C structure are its last three fields here.\<close>

record oss_digital_control =
  dc_caps :: u32
  dc_valid :: u32
  dc_request :: u32
  dc_param :: u32
  dc_cbitin :: bytes
  dc_ubitin :: bytes
  dc_cbitout :: bytes
  dc_ubitout :: bytes
  dc_outsel :: u32
  dc_in_data :: int
  dc_in_locked :: int
  dc_in_quality :: int
  dc_in_vbit :: int
  dc_out_vbit :: int
  dc_in_errors :: u32
  dc_srate_in :: int
  dc_srate_out :: int
  dc_bits_in :: int
  dc_bits_out :: int
  pro_mode :: int
  rate_bits :: int
  emphasis_type :: int

record 'h spdif_driver =
  reprogram_device :: "(oss_digital_control \<Rightarrow> u32 \<Rightarrow> 'h \<Rightarrow> 'h) option"
  get_status :: "(oss_digital_control \<Rightarrow> u32 \<Rightarrow> 'h \<Rightarrow> int oss_result \<times> oss_digital_control \<times> 'h) option"

text \<open>The services of the mixer core; a negative result is \<open>Inl\<close> an error. The control's own
  method is always \<open>spdif_set_mixer_control\<close>.\<close>

record 'h mixer_ext =
  ext_truncate :: "int \<Rightarrow> int \<Rightarrow> 'h \<Rightarrow> 'h"
  ext_create_group :: "int \<Rightarrow> string \<Rightarrow> 'h \<Rightarrow> int oss_result \<times> 'h"
  ext_create_control :: "int \<Rightarrow> int \<Rightarrow> int \<Rightarrow> string \<Rightarrow> string \<Rightarrow> 'h \<Rightarrow> int oss_result \<times> 'h"

text \<open>The pointer \<open>ctl\<close> always refers to one of the two control blocks of its device.\<close>

datatype ctl_ref = Hot | Cold

record 'h spdif_devc =
  is_ok :: bool
  sp_flags :: u32
  sp_caps :: u32
  sp_driver :: "'h spdif_driver"
  ctl_sel :: ctl_ref
  hot_ctl :: oss_digital_control
  cold_ctl :: oss_digital_control
  sp_open_mode :: u32
  mixer_dev :: int
  group :: int
  mixer_blocked :: bool

definition SPDF_IN :: u32 where "SPDF_IN = 0x1"
definition SPDF_OUT :: u32 where "SPDF_OUT = 0x2"
definition SPDF_ENABLE :: u32 where "SPDF_ENABLE = 0x4"

definition REPGM_ALL :: u32 where "REPGM_ALL = 0xffffffff"
definition REPGM_RATE :: u32 where "REPGM_RATE = 0x1"
definition REPGM_VBIT :: u32 where "REPGM_VBIT = 0x2"
definition REPGM_CBIT0 :: u32 where "REPGM_CBIT0 = 0x10"
definition REPGM_CBIT1 :: u32 where "REPGM_CBIT1 = 0x20"
definition REPGM_CBIT3 :: u32 where "REPGM_CBIT3 = 0x80"
definition REPGM_OUTSEL :: u32 where "REPGM_OUTSEL = 0x400"

definition DIG_CBITOUT_MASK :: u32 where "DIG_CBITOUT_MASK = 0xf0"
definition DIG_UBITOUT :: u32 where "DIG_UBITOUT = 0x200"
definition DIG_VBITOUT :: u32 where "DIG_VBITOUT = 0x400"
definition DIG_PRO :: u32 where "DIG_PRO = 0x20000"
definition DIG_CONSUMER :: u32 where "DIG_CONSUMER = 0x40000"

definition VAL_CBITOUT :: u32 where "VAL_CBITOUT = 0x4"
definition VAL_UBITOUT :: u32 where "VAL_UBITOUT = 0x8"
definition VAL_ORATE :: u32 where "VAL_ORATE = 0x40"
definition VAL_OUTBITS :: u32 where "VAL_OUTBITS = 0x100"
definition VAL_REQUEST :: u32 where "VAL_REQUEST = 0x200"
definition VAL_OUTSEL :: u32 where "VAL_OUTSEL = 0x400"
definition VAL_OUTMASK :: u32 where
  "VAL_OUTMASK = VAL_CBITOUT OR VAL_UBITOUT OR VAL_ORATE OR VAL_OUTBITS OR VAL_OUTSEL"

definition OUTSEL_DIGITAL :: u32 where "OUTSEL_DIGITAL = 1"
definition VBIT_NOT_INDICATED :: int where "VBIT_NOT_INDICATED = 0"
definition VBIT_OFF :: int where "VBIT_OFF = 1"
definition VBIT_ON :: int where "VBIT_ON = 2"
definition OPEN_READ :: u32 where "OPEN_READ = 1"
definition OPEN_WRITE :: u32 where "OPEN_WRITE = 2"

section \<open>Control blocks\<close>

text \<open>The macros \<open>set_cbit\<close> and \<open>get_cbit\<close>; the arrays have 24 bytes and every use names one of
  the first four.\<close>

definition set_cbit :: "bytes \<Rightarrow> nat \<Rightarrow> nat \<Rightarrow> int \<Rightarrow> bytes" where
  "set_cbit a byte b v =
     (let a = a[byte := a ! byte AND NOT (push_bit b 1)]
      in a[byte := a ! byte OR push_bit b (word_of_int (v AND 1))])"

definition get_cbit :: "bytes \<Rightarrow> nat \<Rightarrow> nat \<Rightarrow> int" where
  "get_cbit a byte b = uint (drop_bit b (a ! byte)) AND 1"

definition zero_ctl :: oss_digital_control where
  "zero_ctl = \<lparr>dc_caps = 0, dc_valid = 0, dc_request = 0, dc_param = 0, dc_cbitin = replicate 24 0,
     dc_ubitin = replicate 24 0, dc_cbitout = replicate 24 0, dc_ubitout = replicate 24 0, dc_outsel = 0,
     dc_in_data = 0, dc_in_locked = 0, dc_in_quality = 0, dc_in_vbit = 0, dc_out_vbit = 0, dc_in_errors = 0,
     dc_srate_in = 0, dc_srate_out = 0, dc_bits_in = 0, dc_bits_out = 0,
     pro_mode = 0, rate_bits = 0, emphasis_type = 0\<rparr>"

definition init_ctl :: "'h spdif_devc \<Rightarrow> oss_digital_control" where
  "init_ctl d = zero_ctl\<lparr>dc_caps := sp_caps d\<rparr>"

definition ctl :: "'h spdif_devc \<Rightarrow> oss_digital_control" where
  "ctl d = (case ctl_sel d of Hot \<Rightarrow> hot_ctl d | Cold \<Rightarrow> cold_ctl d)"

definition set_ctl :: "oss_digital_control \<Rightarrow> 'h spdif_devc \<Rightarrow> 'h spdif_devc" where
  "set_ctl c d = (case ctl_sel d of Hot \<Rightarrow> d\<lparr>hot_ctl := c\<rparr> | Cold \<Rightarrow> d\<lparr>cold_ctl := c\<rparr>)"

definition block_mixer :: "'h spdif_devc \<Rightarrow> 'h spdif_devc" where
  "block_mixer d = d\<lparr>mixer_blocked := True, cold_ctl := hot_ctl d, ctl_sel := Cold\<rparr>"

definition unblock_mixer :: "'h spdif_devc \<Rightarrow> 'h spdif_devc" where
  "unblock_mixer d = d\<lparr>hot_ctl := cold_ctl d, ctl_sel := Hot, mixer_blocked := False\<rparr>"

section \<open>Opening and closing\<close>

definition oss_spdif_open :: "'h spdif_devc \<Rightarrow> u32 \<Rightarrow> unit oss_result \<times> 'h spdif_devc" where
  "oss_spdif_open d mode =
     (if \<not> is_ok d then (Inl OSS_EIO, d)
      else (Inr (), d\<lparr>sp_open_mode := sp_open_mode d OR mode\<rparr>))"

definition oss_spdif_close :: "'h spdif_devc \<Rightarrow> u32 \<Rightarrow> 'h spdif_devc" where
  "oss_spdif_close d mode =
     (if \<not> is_ok d then d
      else let d = d\<lparr>sp_open_mode := sp_open_mode d AND NOT mode\<rparr>
           in if mixer_blocked d \<and> mode AND OPEN_WRITE \<noteq> 0 then unblock_mixer d else d)"

section \<open>Sampling rate\<close>

text \<open>The \<open>switch\<close> of \<open>update_rate_bits\<close>: the code and the rate it stands for.\<close>

definition rate_code :: "int \<Rightarrow> u8 \<times> int" where
  "rate_code rate =
     (if rate = 48000 then (2, rate) else if rate = 32000 then (3, rate)
      else if rate = 88200 then (4, rate) else if rate = 96000 then (5, rate)
      else if rate = 176400 then (7, rate) else if rate = 192000 then (6, rate)
      else (0, 44100))"

definition update_rate_bits :: "'h spdif_devc \<Rightarrow> int \<Rightarrow> 'h spdif_devc" where
  "update_rate_bits d rate =
     (let (spd, rate) = rate_code rate;
          c = hot_ctl d;
          b = dc_cbitout c ! 3
      in d\<lparr>hot_ctl := c\<lparr>rate_bits := uint spd,
                       dc_cbitout := (dc_cbitout c)[3 := (b AND NOT 0x0f) OR (spd AND 0x0f)],
                       dc_srate_out := rate\<rparr>\<rparr>)"

definition call_reprogram :: "'h spdif_devc \<Rightarrow> u32 \<Rightarrow> 'h \<Rightarrow> 'h" where
  "call_reprogram d repgm h =
     (case reprogram_device (sp_driver d) of None \<Rightarrow> h | Some f \<Rightarrow> f (hot_ctl d) repgm h)"

definition oss_spdif_setrate :: "'h spdif_devc \<Rightarrow> int \<Rightarrow> 'h \<Rightarrow> 'h spdif_devc \<times> 'h" where
  "oss_spdif_setrate d rate h =
     (if \<not> is_ok d then (d, h)
      else let d = update_rate_bits d rate in (d, call_reprogram d (REPGM_RATE OR REPGM_CBIT3) h))"

definition update_hardware :: "'h spdif_devc \<Rightarrow> u32 \<Rightarrow> 'h \<Rightarrow> 'h spdif_devc \<times> 'h" where
  "update_hardware d repgm h =
     (let d = (if repgm AND REPGM_RATE \<noteq> 0 then update_rate_bits d (dc_srate_out (hot_ctl d)) else d)
      in (d, call_reprogram d repgm h))"

section \<open>Mixer extension controls\<close>

text \<open>One optional control of \<open>spdif_mix_init\<close>: skipped when its condition fails, or when an
  earlier one failed already.\<close>

definition mix_control ::
  "'h mixer_ext \<Rightarrow> 'h spdif_devc \<Rightarrow> bool \<Rightarrow> int \<Rightarrow> string \<Rightarrow> string \<Rightarrow> unit oss_result \<times> 'h \<Rightarrow> unit oss_result \<times> 'h" where
  "mix_control M d cond ctrl typ name r =
     (case r of (Inl e, h) \<Rightarrow> (Inl e, h)
      | (Inr _, h) \<Rightarrow>
          if cond
          then (case ext_create_control M (mixer_dev d) (group d) ctrl typ name h of
                  (Inl e, h) \<Rightarrow> (Inl e, h) | (Inr _, h) \<Rightarrow> (Inr (), h))
          else (Inr (), h))"

definition spdif_mix_init :: "'h mixer_ext \<Rightarrow> 'h spdif_devc \<Rightarrow> 'h \<Rightarrow> unit oss_result \<times> 'h spdif_devc \<times> 'h" where
  "spdif_mix_init M d h =
     (if \<not> is_ok d then (Inl OSS_EIO, d, h)
      else
        let h = (if group d > 0 then ext_truncate M (mixer_dev d) (group d) h else h);
            d = d\<lparr>group := 0\<rparr>
        in case ext_create_group M (mixer_dev d) ''SPDIF'' h of
             (Inl e, h) \<Rightarrow> (Inl e, d, h)
           | (Inr g, h) \<Rightarrow>
               let d = d\<lparr>group := g\<rparr>;
                   r = mix_control M d (sp_flags d AND SPDF_ENABLE \<noteq> 0) 1 ''ONOFF'' ''SPDIF_ENABLE'' (Inr (), h);
                   r = mix_control M d (sp_caps d AND DIG_CBITOUT_MASK \<noteq> 0) 3 ''ENUM'' ''SPDIF_AUDIO'' r;
                   r = mix_control M d (sp_caps d AND DIG_VBITOUT \<noteq> 0) 4 ''ONOFF'' ''SPDIF_VBIT'' r;
                   r = mix_control M d (sp_caps d AND DIG_CBITOUT_MASK \<noteq> 0) 7 ''ENUM'' ''SPDIF_PREEMPH'' r;
                   r = mix_control M d (sp_caps d AND DIG_PRO \<noteq> 0 \<and> sp_caps d AND DIG_CONSUMER \<noteq> 0)
                         2 ''ENUM'' ''SPDIF_MODE'' r;
                   copy = (sp_caps d AND DIG_CBITOUT_MASK \<noteq> 0 \<and> pro_mode (ctl d) = 0);
                   r = mix_control M d copy 5 ''ENUM'' ''SPDIF_COPYRIGHT'' r;
                   r = mix_control M d copy 6 ''ENUM'' ''SPDIF_GENERAT'' r
               in (fst r, d, snd r))"

definition oss_spdif_mix_init :: "'h mixer_ext \<Rightarrow> 'h spdif_devc \<Rightarrow> 'h \<Rightarrow> unit oss_result \<times> 'h spdif_devc \<times> 'h" where
  "oss_spdif_mix_init M d h = spdif_mix_init M d h"

text \<open>\<open>switch_mode\<close> on the control block \<open>which\<close> refers to.\<close>

definition switch_mode :: "'h mixer_ext \<Rightarrow> 'h spdif_devc \<Rightarrow> ctl_ref \<Rightarrow> 'h \<Rightarrow> 'h spdif_devc \<times> 'h" where
  "switch_mode M d which h =
     (let upd = (\<lambda>c. c\<lparr>pro_mode := uint (dc_cbitout c ! 0 AND 0x01)\<rparr>);
          d = (case which of Hot \<Rightarrow> d\<lparr>hot_ctl := upd (hot_ctl d)\<rparr> | Cold \<Rightarrow> d\<lparr>cold_ctl := upd (cold_ctl d)\<rparr>)
      in if which = ctl_sel d
         then (let (_, d, h) = spdif_mix_init M d h in (d, h))
         else (d, h))"

section \<open>The ioctl interface\<close>

definition readctl ::
  "'h spdif_devc \<Rightarrow> oss_digital_control \<Rightarrow> u32 \<Rightarrow> 'h \<Rightarrow> int oss_result \<times> oss_digital_control \<times> 'h" where
  "readctl d c0 mode h =
     (let valid = dc_valid c0 AND NOT VAL_OUTMASK;
          c = (hot_ctl d)\<lparr>pro_mode := 0, rate_bits := 0, emphasis_type := 0\<rparr>;
          c = c\<lparr>dc_valid := dc_valid c AND VAL_OUTMASK\<rparr>
      in if mode AND OPEN_READ \<noteq> 0
         then (case get_status (sp_driver d) of
                 Some f \<Rightarrow> f c valid h
               | None \<Rightarrow> if valid \<noteq> 0 then (Inl OSS_EIO, c, h) else (Inr 0, c, h))
         else (Inr 0, c, h))"

definition handle_request :: "'h spdif_devc \<Rightarrow> oss_digital_control \<Rightarrow> int oss_result" where
  "handle_request d c = Inl OSS_EIO"

text \<open>\<open>writectl\<close>: the sections of the function in order. The mask \<open>repgm\<close> it accumulates is
  never used, so it does not appear.\<close>

definition write_cbits ::
  "'h mixer_ext \<Rightarrow> u32 \<Rightarrow> 'h spdif_devc \<times> oss_digital_control \<times> 'h \<Rightarrow> 'h spdif_devc \<times> oss_digital_control \<times> 'h" where
  "write_cbits M valid s =
     (case s of (d, c, h) \<Rightarrow>
        if valid AND VAL_CBITOUT \<noteq> 0 \<and> sp_caps d AND DIG_CBITOUT_MASK \<noteq> 0
        then
          let smurf = (dc_cbitout (hot_ctl d) ! 0 XOR dc_cbitout c ! 0) AND 1;
              c = c\<lparr>dc_valid := dc_valid c OR VAL_CBITOUT\<rparr>;
              (d, h) = (if smurf \<noteq> 0 then switch_mode M d Hot h else (d, h))
          in (d\<lparr>hot_ctl := (hot_ctl d)\<lparr>dc_cbitout := dc_cbitout c\<rparr>\<rparr>, c, h)
        else (d, c, h))"

definition write_ubits :: "u32 \<Rightarrow> 'h spdif_devc \<times> oss_digital_control \<Rightarrow> 'h spdif_devc \<times> oss_digital_control" where
  "write_ubits valid s =
     (case s of (d, c) \<Rightarrow>
        if valid AND VAL_UBITOUT \<noteq> 0 \<and> sp_caps d AND DIG_UBITOUT \<noteq> 0
        then (d\<lparr>hot_ctl := (hot_ctl d)\<lparr>dc_ubitout := dc_ubitout c\<rparr>\<rparr>, c\<lparr>dc_valid := dc_valid c OR VAL_UBITOUT\<rparr>)
        else (d, c))"

definition write_vbit :: "'h spdif_devc \<times> oss_digital_control \<Rightarrow> 'h spdif_devc \<times> oss_digital_control" where
  "write_vbit s =
     (case s of (d, c) \<Rightarrow>
        let (d, c) =
          (if dc_out_vbit c \<noteq> VBIT_NOT_INDICATED \<and> sp_caps d AND DIG_VBITOUT \<noteq> 0
           then (d\<lparr>hot_ctl := (hot_ctl d)\<lparr>dc_out_vbit := dc_out_vbit c\<rparr>\<rparr>, c)
           else (d, c\<lparr>dc_out_vbit := VBIT_NOT_INDICATED\<rparr>))
        in (d, c\<lparr>dc_in_vbit := VBIT_NOT_INDICATED\<rparr>))"

definition write_orate :: "u32 \<Rightarrow> 'h spdif_devc \<times> oss_digital_control \<Rightarrow> 'h spdif_devc \<times> oss_digital_control" where
  "write_orate valid s =
     (case s of (d, c) \<Rightarrow>
        if valid AND VAL_ORATE \<noteq> 0
        then let d = update_rate_bits d (dc_srate_out c)
             in (d, c\<lparr>dc_valid := dc_valid c OR VAL_ORATE, dc_srate_out := dc_srate_out (hot_ctl d)\<rparr>)
        else (d, c))"

definition writectl ::
  "'h mixer_ext \<Rightarrow> 'h spdif_devc \<Rightarrow> oss_digital_control \<Rightarrow> 'h
    \<Rightarrow> int oss_result \<times> 'h spdif_devc \<times> oss_digital_control \<times> 'h" where
  "writectl M d c h =
     (let valid = dc_valid c;
          d = (if \<not> mixer_blocked d then block_mixer d else d);
          c = c\<lparr>dc_valid := 0, dc_caps := sp_caps d\<rparr>;
          (d, c, h) = write_cbits M valid (d, c, h);
          (d, c) = write_ubits valid (d, c);
          (d, c) = write_vbit (d, c);
          d = d\<lparr>hot_ctl := (hot_ctl d)\<lparr>dc_valid := valid\<rparr>\<rparr>;
          (d, c) = write_orate valid (d, c)
      in if valid AND VAL_REQUEST \<noteq> 0
         then (case handle_request d c of
                 Inl e \<Rightarrow> (Inl e, d, c, h)
               | Inr n \<Rightarrow> (Inr n, d, c\<lparr>dc_valid := dc_valid c OR VAL_REQUEST\<rparr>, h))
         else (Inr 0, d, c, h))"

datatype spdif_cmd = SNDCTL_DSP_WRITECTL | SNDCTL_DSP_READCTL | Other_Cmd int

text \<open>The result \<open>None\<close> is the code \<open>SPDIF_NOIOCTL\<close>: the command is not for this module.\<close>

definition oss_spdif_ioctl ::
  "'h mixer_ext \<Rightarrow> 'h spdif_devc \<Rightarrow> u32 \<Rightarrow> spdif_cmd \<Rightarrow> oss_digital_control \<Rightarrow> 'h
    \<Rightarrow> int oss_result option \<times> 'h spdif_devc \<times> oss_digital_control \<times> 'h" where
  "oss_spdif_ioctl M d mode cmd arg h =
     (if \<not> is_ok d then (None, d, arg, h)
      else case cmd of
        SNDCTL_DSP_WRITECTL \<Rightarrow>
          if mode AND OPEN_WRITE = 0 then (Some (Inl OSS_ENOTSUP), d, arg, h)
          else if sp_flags d AND SPDF_OUT = 0 then (Some (Inl OSS_ENOTSUP), d, arg, h)
          else (let (r, d, arg, h) = writectl M d arg h in (Some r, d, arg, h))
      | SNDCTL_DSP_READCTL \<Rightarrow>
          if sp_flags d AND (SPDF_OUT OR SPDF_IN) = 0 then (Some (Inl OSS_ENOTSUP), d, arg, h)
          else (let (r, arg, h) = readctl d arg mode h in (Some r, d, arg, h))
      | Other_Cmd _ \<Rightarrow> (None, d, arg, h))"

section \<open>The mixer's controls\<close>

definition int_of_bool :: "bool \<Rightarrow> int" where
  "int_of_bool b = (if b then 1 else 0)"

datatype mix_cmd = SNDCTL_MIX_READ | SNDCTL_MIX_WRITE | Other_Mix_Cmd int

definition read_control :: "oss_digital_control \<Rightarrow> int \<Rightarrow> int oss_result" where
  "read_control c ctrl =
     (if ctrl = 1 then Inr (int_of_bool (dc_outsel c AND OUTSEL_DIGITAL \<noteq> 0))
      else if ctrl = 2 then Inr (int_of_bool (dc_cbitout c ! 0 AND 1 \<noteq> 0))
      else if ctrl = 3 then Inr (int_of_bool (dc_cbitout c ! 0 AND 2 \<noteq> 0))
      else if ctrl = 4 then Inr (int_of_bool (dc_out_vbit c = VBIT_ON))
      else if ctrl = 5 then Inr (get_cbit (dc_cbitout c) 0 2)
      else if ctrl = 6 then Inr (get_cbit (dc_cbitout c) 1 0)
      else if ctrl = 7 then Inr (emphasis_type c)
      else Inl OSS_EINVAL)"

text \<open>The assignments to \<open>*devc->ctl\<close> of each control's write.\<close>

definition write_control :: "oss_digital_control \<Rightarrow> int \<Rightarrow> int \<Rightarrow> oss_digital_control" where
  "write_control c ctrl value =
     (let v = int_of_bool (value \<noteq> 0)
      in if ctrl = 1 then
           c\<lparr>dc_outsel := (if value \<noteq> 0 then dc_outsel c OR OUTSEL_DIGITAL
                          else dc_outsel c AND NOT OUTSEL_DIGITAL)\<rparr>
         else if ctrl = 2 then c\<lparr>dc_cbitout := set_cbit (dc_cbitout c) 0 0 v\<rparr>
         else if ctrl = 3 then c\<lparr>dc_cbitout := set_cbit (dc_cbitout c) 0 1 v\<rparr>
         else if ctrl = 4 then c\<lparr>dc_out_vbit := (if value \<noteq> 0 then VBIT_ON else VBIT_OFF)\<rparr>
         else if ctrl = 5 then c\<lparr>dc_cbitout := set_cbit (dc_cbitout c) 0 2 v\<rparr>
         else if ctrl = 6 then c\<lparr>dc_cbitout := set_cbit (dc_cbitout c) 1 0 v\<rparr>
         else if ctrl = 7 then
           (let b = dc_cbitout c ! 0;
                b = (if pro_mode c \<noteq> 0
                     then (if value \<noteq> 0 then (b AND NOT 0x1c) OR 0x0c else b AND NOT 0x1c)
                     else (if value \<noteq> 0 then (b AND NOT 0x28) OR 0x08 else b AND NOT 0x28))
            in c\<lparr>emphasis_type := v, dc_cbitout := (dc_cbitout c)[0 := b]\<rparr>)
         else c)"

definition control_repgm :: "int \<Rightarrow> u32" where
  "control_repgm ctrl =
     (if ctrl = 1 then REPGM_OUTSEL else if ctrl = 2 then REPGM_ALL else if ctrl = 3 then REPGM_CBIT0
      else if ctrl = 4 then REPGM_VBIT else if ctrl = 5 then REPGM_CBIT0
      else if ctrl = 6 then REPGM_CBIT1 else REPGM_CBIT0)"

definition spdif_set_control ::
  "'h mixer_ext \<Rightarrow> 'h spdif_devc \<Rightarrow> int \<Rightarrow> mix_cmd \<Rightarrow> int \<Rightarrow> 'h \<Rightarrow> int oss_result \<times> 'h spdif_devc \<times> 'h" where
  "spdif_set_control M d ctrl cmd value h =
     (case cmd of
        SNDCTL_MIX_READ \<Rightarrow> (read_control (ctl d) ctrl, d, h)
      | SNDCTL_MIX_WRITE \<Rightarrow>
          if ctrl < 1 \<or> 7 < ctrl then (Inl OSS_EINVAL, d, h)
          else
            let val = uint (dc_cbitout (ctl d) ! 0 AND 1);
                d = set_ctl (write_control (ctl d) ctrl value) d;
                (d, h) = (if ctrl = 2 \<and> val \<noteq> int_of_bool (value \<noteq> 0) then switch_mode M d (ctl_sel d) h else (d, h));
                (d, h) = update_hardware d (control_repgm ctrl) h
            in (if ctrl = 2 then Inr (get_cbit (dc_cbitout (ctl d)) 0 0)
                else if ctrl = 3 then Inr (get_cbit (dc_cbitout (ctl d)) 0 1)
                else if ctrl = 7 then Inr (int_of_bool (value \<noteq> 0))
                else read_control (ctl d) ctrl, d, h)
      | Other_Mix_Cmd _ \<Rightarrow> (Inl OSS_EINVAL, d, h))"

section \<open>The device table\<close>

text \<open>\<open>devc_list\<close> holds pointers to structures that belong to the low level drivers; here they
  are identifiers looked up in \<open>devs\<close>.\<close>

type_synonym devc_id = nat

definition MAX_DEV :: int where "MAX_DEV = 10"

record 'h spdif_table =
  ndevs :: int
  devc_list :: "devc_id option list"
  devs :: "devc_id \<Rightarrow> 'h spdif_devc"

definition empty_table :: "(devc_id \<Rightarrow> 'h spdif_devc) \<Rightarrow> 'h spdif_table" where
  "empty_table m = \<lparr>ndevs = 0, devc_list = replicate (nat MAX_DEV) None, devs = m\<rparr>"

fun free_slot :: "devc_id option list \<Rightarrow> int \<Rightarrow> int \<Rightarrow> int" where
  "free_slot [] i n = - 1"
| "free_slot (x # xs) i n = (if n \<le> i then - 1 else if x = None then i else free_slot xs (i + 1) n)"

text \<open>\<open>drv\<close> is \<open>None\<close> for a \<open>NULL\<close> driver; \<open>size_ok\<close> says whether \<open>driver_size\<close> is the size of
  the driver structure.\<close>

definition oss_spdif_install ::
  "'h spdif_table \<Rightarrow> devc_id \<Rightarrow> 'h spdif_driver option \<Rightarrow> bool \<Rightarrow> int \<Rightarrow> u32 \<Rightarrow> u32
    \<Rightarrow> unit oss_result \<times> 'h spdif_table" where
  "oss_spdif_install t i drv size_ok mixdev flags caps =
     (if is_ok (devs t i) then (Inr (), t)
      else case drv of
        None \<Rightarrow> (Inl OSS_EIO, t)
      | Some dr \<Rightarrow>
          if \<not> size_ok then (Inl OSS_EIO, t)
          else
            let d = \<lparr>is_ok = True, sp_flags = flags, sp_caps = caps, sp_driver = dr, ctl_sel = Hot,
                     hot_ctl = zero_ctl, cold_ctl = zero_ctl, sp_open_mode = 0, mixer_dev = mixdev,
                     group = 0, mixer_blocked = False\<rparr>;
                t = t\<lparr>devs := (devs t)(i := d)\<rparr>;
                pos = free_slot (devc_list t) 0 (ndevs t)
            in if pos = - 1 \<and> MAX_DEV \<le> ndevs t then (Inl OSS_EBUSY, t)
               else
                 let (pos, t) = (if pos = - 1 then (ndevs t, t\<lparr>ndevs := ndevs t + 1\<rparr>) else (pos, t));
                     d = d\<lparr>hot_ctl := init_ctl d, cold_ctl := init_ctl d\<rparr>
                 in (Inr (), t\<lparr>devc_list := (devc_list t)[nat pos := Some i], devs := (devs t)(i := d)\<rparr>))"

definition oss_spdif_uninstall :: "'h spdif_table \<Rightarrow> devc_id \<Rightarrow> 'h spdif_table" where
  "oss_spdif_uninstall t i =
     t\<lparr>devc_list := map (\<lambda>(k, x). if int k < ndevs t \<and> x = Some i then None else x)
                     (enumerate 0 (devc_list t))\<rparr>"

text \<open>The search of \<open>spdif_set_mixer_control\<close>: it reads \<open>mixer_dev\<close> through every entry up to
  the one it finds. A \<open>NULL\<close> entry has no \<open>mixer_dev\<close>; the outer \<open>None\<close> is that fault.\<close>

fun find_mixer :: "(devc_id \<Rightarrow> 'h spdif_devc) \<Rightarrow> int \<Rightarrow> devc_id option list \<Rightarrow> devc_id option option" where
  "find_mixer m dev [] = Some None"
| "find_mixer m dev (None # xs) = None"
| "find_mixer m dev (Some i # xs) = (if mixer_dev (m i) = dev then Some (Some i) else find_mixer m dev xs)"

definition spdif_set_mixer_control ::
  "'h mixer_ext \<Rightarrow> 'h spdif_table \<Rightarrow> int \<Rightarrow> int \<Rightarrow> mix_cmd \<Rightarrow> int \<Rightarrow> 'h
    \<Rightarrow> (int oss_result \<times> 'h spdif_table \<times> 'h) option" where
  "spdif_set_mixer_control M t dev ctrl cmd value h =
     (case find_mixer (devs t) dev (take (nat (ndevs t)) (devc_list t)) of
        None \<Rightarrow> None
      | Some None \<Rightarrow> Some (Inl OSS_EINVAL, t, h)
      | Some (Some i) \<Rightarrow>
          (let (r, d, h) = spdif_set_control M (devs t i) ctrl cmd value h
           in Some (r, t\<lparr>devs := (devs t)(i := d)\<rparr>, h)))"

end
