(* ===== verification/Spdif_Laws.thy ===== *)
theory Spdif_Laws
  imports Spdif
begin

text \<open>
  Properties of the S/PDIF manager: the mixer controls read back what was written and do not
  disturb each other, a control session of an application is isolated from the mixer and leaves
  no trace when it closes, the rate codes, and the faults found on the way: a mode change by
  \<open>writectl\<close> records the old mode and no \<open>writectl\<close> reaches the hardware, and a device table with
  a hole or without room breaks the mixer.
\<close>

section \<open>Bits of the control bytes\<close>

lemma get_cbit_bit: "get_cbit a i b = of_bool (bit (a ! i) b)"
proof -
  have "uint (drop_bit b (a ! i)) = uint (a ! i) div 2 ^ b" by (rule uint_drop_bit_div)
  moreover have "x AND 1 = x mod 2" for x :: int by (simp add: and_one_eq)
  ultimately have "get_cbit a i b = uint (a ! i) div 2 ^ b mod 2" by (simp add: get_cbit_def)
  also have "\<dots> = of_bool (odd (uint (a ! i) div 2 ^ b))" by (simp add: mod_2_eq_odd)
  also have "odd (uint (a ! i) div 2 ^ b) = bit (a ! i) b"
    using bit_uint_iff[of "a ! i" b] bit_imp_le_length[of "a ! i" b] by (auto simp: bit_iff_odd[of "uint _"])
  finally show ?thesis .
qed

lemma set_cbit_nth: "i < length a \<Longrightarrow> set_cbit a i b v ! i
    = (a ! i AND NOT (push_bit b 1)) OR push_bit b (word_of_int (v AND 1))"
  by (simp add: set_cbit_def Let_def)

lemma set_cbit_other: "j \<noteq> i \<Longrightarrow> set_cbit a i b v ! j = a ! j"
  by (simp add: set_cbit_def Let_def)

lemma length_set_cbit [simp]: "length (set_cbit a i b v) = length a"
  by (simp add: set_cbit_def Let_def)

lemma bit_set_cbit:
  assumes "i < length a" and "b < 8" and "k < 8"
  shows "bit (set_cbit a i b (int_of_bool v) ! i) k = (if k = b then v else bit (a ! i) k)"
proof -
  have "(int_of_bool v AND 1) = of_bool v" by (simp add: int_of_bool_def)
  then show ?thesis
    using assms by (auto simp: set_cbit_nth bit_simps)
qed

lemma word_and_one: "(x :: 'a::len word) AND 1 \<noteq> 0 \<longleftrightarrow> bit x 0"
proof -
  have "(1 :: 'a word) = 2 ^ 0" by simp
  then show ?thesis by (metis and_exp_eq_0_iff_not_bit)
qed

lemma u8_and_two: "(x :: u8) AND 2 \<noteq> 0 \<longleftrightarrow> bit x 1"
proof -
  have "(2 :: u8) = 2 ^ 1" by simp
  then show ?thesis by (metis and_exp_eq_0_iff_not_bit)
qed

text \<open>A control reads one bit, or one field, of the block.\<close>

lemma read_control_bits:
  "read_control c 1 = Inr (int_of_bool (bit (dc_outsel c) 0))"
  "read_control c 2 = Inr (int_of_bool (bit (dc_cbitout c ! 0) 0))"
  "read_control c 3 = Inr (int_of_bool (bit (dc_cbitout c ! 0) 1))"
  "read_control c 4 = Inr (int_of_bool (dc_out_vbit c = VBIT_ON))"
  "read_control c 5 = Inr (int_of_bool (bit (dc_cbitout c ! 0) 2))"
  "read_control c 6 = Inr (int_of_bool (bit (dc_cbitout c ! 1) 0))"
  "read_control c 7 = Inr (emphasis_type c)"
  by (simp_all only: read_control_def word_and_one u8_and_two get_cbit_bit OUTSEL_DIGITAL_def)
    (simp_all add: int_of_bool_def)

text \<open>The pre-emphasis bits: 0x1c in professional mode, bits 3 and 5 in consumer mode.\<close>

lemma emphasis_bits:
  fixes b :: u8
  shows "bit (b AND NOT 0x28) k = (bit b k \<and> k \<noteq> 3 \<and> k \<noteq> 5)"
    and "bit ((b AND NOT 0x28) OR 0x08) k = (bit b k \<and> k \<noteq> 5 \<or> k = 3)"
    and "k < 2 \<Longrightarrow> bit (b AND NOT 0x1c) k = bit b k"
    and "k < 2 \<Longrightarrow> bit ((b AND NOT 0x1c) OR 0x0c) k = bit b k"
proof -
  have a: "bit (0x28 :: u8) k \<longleftrightarrow> k = 3 \<or> k = 5"
  proof -
    have "(0x28 :: u8) = push_bit 3 1 OR push_bit 5 1" by (simp add: push_bit_eq_mult)
    then have "bit (0x28 :: u8) k \<longleftrightarrow> bit (push_bit 3 1 OR push_bit 5 1 :: u8) k" by (simp only:)
    then show ?thesis by (simp only: bit_or_iff bit_push_bit_iff bit_1_iff) auto
  qed
  have b: "bit (0x08 :: u8) k \<longleftrightarrow> k = 3"
  proof -
    have "(0x08 :: u8) = push_bit 3 1" by (simp add: push_bit_eq_mult)
    then have "bit (0x08 :: u8) k \<longleftrightarrow> bit (push_bit 3 1 :: u8) k" by (simp only:)
    then show ?thesis by (simp only: bit_push_bit_iff bit_1_iff) auto
  qed
  have c: "\<not> bit (push_bit 2 m :: u8) k" if "k < 2" for m using that by (simp add: bit_push_bit_iff)
  have "(0x1c :: u8) = push_bit 2 7" "(0x0c :: u8) = push_bit 2 3" by (simp_all add: push_bit_eq_mult)
  then have d: "\<not> bit (0x1c :: u8) k" "\<not> bit (0x0c :: u8) k" if "k < 2" using c[OF that] by metis+
  have n: "bit (NOT x) k \<longleftrightarrow> k < 8 \<and> \<not> bit x k" for x :: u8 by (simp add: bit_not_iff)
  show "bit (b AND NOT 0x28) k = (bit b k \<and> k \<noteq> 3 \<and> k \<noteq> 5)"
    using bit_imp_le_length[of b k] by (simp only: bit_and_iff n a) auto
  show "bit ((b AND NOT 0x28) OR 0x08) k = (bit b k \<and> k \<noteq> 5 \<or> k = 3)"
    using bit_imp_le_length[of b k] by (simp only: bit_or_iff bit_and_iff n a b) auto
  show "k < 2 \<Longrightarrow> bit (b AND NOT 0x1c) k = bit b k"
    using bit_imp_le_length[of b k] by (simp only: bit_and_iff n d) auto
  show "k < 2 \<Longrightarrow> bit ((b AND NOT 0x1c) OR 0x0c) k = bit b k"
    using bit_imp_le_length[of b k] by (simp only: bit_or_iff bit_and_iff n d) auto
qed

section \<open>The mixer's controls\<close>

lemma ctl_set_ctl [simp]: "ctl (set_ctl c d) = c" "ctl_sel (set_ctl c d) = ctl_sel d"
  by (cases "ctl_sel d"; simp add: ctl_def set_ctl_def)+

lemma write_control_cases:
  "write_control c 1 v = c\<lparr>dc_outsel := (if v \<noteq> 0 then dc_outsel c OR OUTSEL_DIGITAL else dc_outsel c AND NOT OUTSEL_DIGITAL)\<rparr>"
  "write_control c 2 v = c\<lparr>dc_cbitout := set_cbit (dc_cbitout c) 0 0 (int_of_bool (v \<noteq> 0))\<rparr>"
  "write_control c 3 v = c\<lparr>dc_cbitout := set_cbit (dc_cbitout c) 0 1 (int_of_bool (v \<noteq> 0))\<rparr>"
  "write_control c 4 v = c\<lparr>dc_out_vbit := (if v \<noteq> 0 then VBIT_ON else VBIT_OFF)\<rparr>"
  "write_control c 5 v = c\<lparr>dc_cbitout := set_cbit (dc_cbitout c) 0 2 (int_of_bool (v \<noteq> 0))\<rparr>"
  "write_control c 6 v = c\<lparr>dc_cbitout := set_cbit (dc_cbitout c) 1 0 (int_of_bool (v \<noteq> 0))\<rparr>"
  by (simp_all add: write_control_def)

lemma write_control_7:
  assumes "length (dc_cbitout c) = 24"
  shows "emphasis_type (write_control c 7 v) = int_of_bool (v \<noteq> 0)"
    and "dc_outsel (write_control c 7 v) = dc_outsel c"
    and "dc_out_vbit (write_control c 7 v) = dc_out_vbit c"
    and "dc_cbitout (write_control c 7 v) ! 1 = dc_cbitout c ! 1"
    and "k < 2 \<or> k = 2 \<and> pro_mode c = 0 \<Longrightarrow>
      bit (dc_cbitout (write_control c 7 v) ! 0) k = bit (dc_cbitout c ! 0) k"
  using assms emphasis_bits[where b="dc_cbitout c ! 0" and k=k]
  by (auto simp: write_control_def Let_def)

definition is_control :: "int \<Rightarrow> bool" where
  "is_control k \<longleftrightarrow> k = 1 \<or> k = 2 \<or> k = 3 \<or> k = 4 \<or> k = 5 \<or> k = 6 \<or> k = 7"

lemma is_controlI: "1 \<le> k \<Longrightarrow> k \<le> 7 \<Longrightarrow> is_control k"
  by (auto simp: is_control_def)

lemma outsel_bits:
  "bit (x OR OUTSEL_DIGITAL) 0" "\<not> bit (x AND NOT OUTSEL_DIGITAL) 0"
proof -
  have "bit OUTSEL_DIGITAL 0" by (simp add: OUTSEL_DIGITAL_def)
  then show "bit (x OR OUTSEL_DIGITAL) 0" "\<not> bit (x AND NOT OUTSEL_DIGITAL) 0"
    by (simp_all add: bit_or_iff bit_and_iff bit_not_iff del: bit_0)
qed

lemmas control_simps = read_control_bits write_control_cases bit_set_cbit set_cbit_other

lemma write_read_same:
  assumes "length (dc_cbitout c) = 24" and "is_control ctrl"
  shows "read_control (write_control c ctrl v) ctrl = Inr (int_of_bool (v \<noteq> 0))"
  using assms(2) unfolding is_control_def
proof (elim disjE)
  show "ctrl = 1 \<Longrightarrow> ?thesis" by (simp only: control_simps) (simp add: outsel_bits del: bit_0)
  show "ctrl = 2 \<Longrightarrow> ?thesis" using assms(1) by (simp only: control_simps) (simp add: bit_set_cbit del: bit_0)
  show "ctrl = 3 \<Longrightarrow> ?thesis" using assms(1) by (simp only: control_simps) (simp add: bit_set_cbit del: bit_0)
  show "ctrl = 4 \<Longrightarrow> ?thesis" by (simp only: control_simps) (simp add: VBIT_ON_def VBIT_OFF_def)
  show "ctrl = 5 \<Longrightarrow> ?thesis" using assms(1) by (simp only: control_simps) (simp add: bit_set_cbit del: bit_0)
  show "ctrl = 6 \<Longrightarrow> ?thesis" using assms(1) by (simp only: control_simps) (simp add: bit_set_cbit del: bit_0)
  show "ctrl = 7 \<Longrightarrow> ?thesis" using write_control_7(1)[OF assms(1)] by (simp only: control_simps)
qed

lemma write_read_other:
  assumes l: "length (dc_cbitout c) = 24" and k: "is_control k" and c: "is_control ctrl" and n: "k \<noteq> ctrl"
    and p: "ctrl = 7 \<and> k = 5 \<longrightarrow> pro_mode c = 0"
  shows "read_control (write_control c ctrl v) k = read_control c k"
  using c unfolding is_control_def
proof (elim disjE)
  assume e: "ctrl = 1"
  show ?thesis using k n unfolding is_control_def e by (elim disjE) (simp_all add: control_simps del: bit_0)
next
  assume e: "ctrl = 2"
  show ?thesis using k n l unfolding is_control_def e by (elim disjE) (simp_all add: control_simps del: bit_0)
next
  assume e: "ctrl = 3"
  show ?thesis using k n l unfolding is_control_def e by (elim disjE) (simp_all add: control_simps del: bit_0)
next
  assume e: "ctrl = 4"
  show ?thesis using k n unfolding is_control_def e by (elim disjE) (simp_all add: control_simps del: bit_0)
next
  assume e: "ctrl = 5"
  show ?thesis using k n l unfolding is_control_def e by (elim disjE) (simp_all add: control_simps del: bit_0)
next
  assume e: "ctrl = 6"
  show ?thesis using k n l unfolding is_control_def e by (elim disjE) (simp_all add: control_simps del: bit_0)
next
  assume e: "ctrl = 7"
  show ?thesis using k n p write_control_7[OF l, where v=v] unfolding is_control_def e
    by (elim disjE) (simp_all add: read_control_bits del: bit_0)
qed

lemma read_control_rate:
  assumes "is_control k"
  shows "read_control (ctl (update_rate_bits d r)) k = read_control (ctl d) k"
  using assms unfolding is_control_def
  by (cases "ctl_sel d"; elim disjE)
    (simp_all add: ctl_def update_rate_bits_def Let_def split_beta read_control_bits del: bit_0)

lemma read_control_update:
  assumes "is_control k"
  shows "read_control (ctl (fst (update_hardware d m h))) k = read_control (ctl d) k"
  by (simp add: update_hardware_def Let_def read_control_rate[OF assms])

lemma mix_init_ctl: "ctl (fst (snd (spdif_mix_init M d h))) = ctl d"
proof -
  have g: "ctl (d\<lparr>group := g\<rparr>) = ctl d" for g by (cases "ctl_sel d") (simp_all add: ctl_def)
  show ?thesis by (simp add: spdif_mix_init_def Let_def g split: prod.splits sum.splits)
qed

lemma read_control_switch:
  assumes "is_control k"
  shows "read_control (ctl (fst (switch_mode M d (ctl_sel d) h))) k = read_control (ctl d) k"
proof -
  have "read_control (c\<lparr>pro_mode := x\<rparr>) k = read_control c k" for c x
    using assms unfolding is_control_def by (elim disjE) (simp_all add: read_control_bits del: bit_0)
  moreover have "fst (switch_mode M d (ctl_sel d) h) = fst (snd (spdif_mix_init M
      (set_ctl ((ctl d)\<lparr>pro_mode := uint (dc_cbitout (ctl d) ! 0 AND 1)\<rparr>) d) h))"
    by (cases "ctl_sel d") (simp_all add: switch_mode_def Let_def split_beta ctl_def set_ctl_def)
  ultimately show ?thesis by (simp add: mix_init_ctl)
qed

lemma get_cbit_read:
  "Inr (get_cbit (dc_cbitout c) 0 0) = read_control c 2" "Inr (get_cbit (dc_cbitout c) 0 1) = read_control c 3"
  by (simp_all only: read_control_bits get_cbit_bit) (simp_all add: int_of_bool_def)

text \<open>C21: Each of the seven mixer controls of an S/PDIF device reads back what was last written to
  it: a write reports the new setting, a later read reports the same and changes nothing, and
  no write changes what another control reads, except that in professional mode the
  pre-emphasis bits include the bit the copyright control shows.\<close>

theorem spdif_control_readback:
  assumes "length (dc_cbitout (ctl d)) = 24" and "1 \<le> ctrl" and "ctrl \<le> 7"
    and "spdif_set_control M d ctrl SNDCTL_MIX_WRITE v h = (r, d', h')"
  shows "r = Inr (int_of_bool (v \<noteq> 0)) \<and> spdif_set_control M d' ctrl SNDCTL_MIX_READ w h' = (r, d', h') \<and>
    (\<forall>k. 1 \<le> k \<and> k \<le> 7 \<and> k \<noteq> ctrl \<and> (ctrl = 7 \<and> k = 5 \<longrightarrow> pro_mode (ctl d) = 0) \<longrightarrow>
      spdif_set_control M d' k SNDCTL_MIX_READ w h' = (fst (spdif_set_control M d k SNDCTL_MIX_READ w h), d', h'))"
proof -
  have ic: "is_control ctrl" using assms(2,3) by (rule is_controlI)
  define d1 where "d1 = set_ctl (write_control (ctl d) ctrl v) d"
  define s where "s = (if ctrl = 2 \<and> uint (dc_cbitout (ctl d) ! 0 AND 1) \<noteq> int_of_bool (v \<noteq> 0)
    then switch_mode M d1 (ctl_sel d1) h else (d1, h))"
  define u where "u = update_hardware (fst s) (control_repgm ctrl) (snd s)"
  have n: "(ctrl < 1 \<or> 7 < ctrl) = False" using assms(2,3) by simp
  have e: "spdif_set_control M d ctrl SNDCTL_MIX_WRITE v h =
     (if ctrl = 2 then Inr (get_cbit (dc_cbitout (ctl (fst u))) 0 0)
       else if ctrl = 3 then Inr (get_cbit (dc_cbitout (ctl (fst u))) 0 1)
       else if ctrl = 7 then Inr (int_of_bool (v \<noteq> 0)) else read_control (ctl (fst u)) ctrl, fst u, snd u)"
    by (simp only: spdif_set_control_def mix_cmd.case n if_False Let_def split_beta u_def s_def d1_def)
  have u: "d' = fst u" "h' = snd u"
    and r: "r = (if ctrl = 2 then Inr (get_cbit (dc_cbitout (ctl (fst u))) 0 0)
       else if ctrl = 3 then Inr (get_cbit (dc_cbitout (ctl (fst u))) 0 1)
       else if ctrl = 7 then Inr (int_of_bool (v \<noteq> 0)) else read_control (ctl (fst u)) ctrl)"
    using assms(4) unfolding e by auto
  have read: "read_control (ctl d') k = read_control (write_control (ctl d) ctrl v) k" if "is_control k" for k
  proof -
    have "read_control (ctl (fst s)) k = read_control (ctl d1) k"
      using read_control_switch[OF that, of M d1 h] by (simp add: s_def)
    then show ?thesis by (simp only: u u_def read_control_update[OF that]) (simp add: d1_def)
  qed
  have same: "read_control (ctl d') ctrl = Inr (int_of_bool (v \<noteq> 0))"
    using read[OF ic] write_read_same[OF assms(1) ic] by simp
  then have r': "r = Inr (int_of_bool (v \<noteq> 0))"
    using r u(1) get_cbit_read[of "ctl d'"] by (auto split: if_splits)
  have "read_control (ctl d') k = read_control (ctl d) k"
    if "1 \<le> k" "k \<le> 7" "k \<noteq> ctrl" "ctrl = 7 \<and> k = 5 \<longrightarrow> pro_mode (ctl d) = 0" for k
    using read[OF is_controlI[OF that(1,2)]] write_read_other[OF assms(1) is_controlI[OF that(1,2)] ic that(3,4)]
    by simp
  then show ?thesis using same r' by (simp add: spdif_set_control_def)
qed

text \<open>A device and mixer services to try the operations on: the hardware counts its calls.\<close>

definition counting_driver :: "nat spdif_driver" where
  "counting_driver = \<lparr>reprogram_device = Some (\<lambda>c m h. Suc h), get_status = None\<rparr>"

definition counting_mixer :: "nat mixer_ext" where
  "counting_mixer = \<lparr>ext_truncate = (\<lambda>d g h. h), ext_create_group = (\<lambda>d n h. (Inr 1, h)),
     ext_create_control = (\<lambda>d g c t n h. (Inr c, h))\<rparr>"

definition sample_devc :: "nat spdif_devc" where
  "sample_devc = \<lparr>is_ok = True, sp_flags = SPDF_OUT, sp_caps = 0x60070, sp_driver = counting_driver, ctl_sel = Hot,
     hot_ctl = zero_ctl, cold_ctl = zero_ctl, sp_open_mode = 0, mixer_dev = 0, group = 0, mixer_blocked = False\<rparr>"

theorem spdif_control_readback_witness:
  "(let (r, d', h') = spdif_set_control counting_mixer sample_devc 3 SNDCTL_MIX_WRITE 5 0
    in r = Inr 1 \<and> spdif_set_control counting_mixer d' 3 SNDCTL_MIX_READ 0 h' = (Inr 1, d', h'))"
proof -
  obtain r d' h' where e: "spdif_set_control counting_mixer sample_devc 3 SNDCTL_MIX_WRITE 5 0 = (r, d', h')"
    by (metis prod_cases3)
  have l: "length (dc_cbitout (ctl sample_devc)) = 24" by (simp add: ctl_def sample_devc_def zero_ctl_def)
  show ?thesis
    using spdif_control_readback[OF l _ _ e, of 0] e by (simp add: int_of_bool_def)
qed

section \<open>Control sessions\<close>

text \<open>A session: the control requests an application makes while the device is open.\<close>

fun spdif_session ::
  "'h mixer_ext \<Rightarrow> oss_digital_control list \<Rightarrow> 'h spdif_devc \<times> 'h \<Rightarrow> 'h spdif_devc \<times> 'h" where
  "spdif_session M [] s = s"
| "spdif_session M (c # cs) s = (let (_, d, _, h) = writectl M (fst s) c (snd s) in spdif_session M cs (d, h))"

definition frozen :: "'h spdif_devc \<Rightarrow> 'h spdif_devc \<Rightarrow> bool" where
  "frozen d d' \<longleftrightarrow> is_ok d' = is_ok d \<and> cold_ctl d' = hot_ctl d \<and> ctl_sel d' = Cold \<and> mixer_blocked d'"

lemma rate_frozen [simp]:
  "is_ok (update_rate_bits d r) = is_ok d" "cold_ctl (update_rate_bits d r) = cold_ctl d"
  "ctl_sel (update_rate_bits d r) = ctl_sel d" "mixer_blocked (update_rate_bits d r) = mixer_blocked d"
  by (simp_all add: update_rate_bits_def Let_def split_beta)

lemma switch_frozen:
  "ctl_sel d = Cold \<Longrightarrow> switch_mode M d Hot h
    = (d\<lparr>hot_ctl := (hot_ctl d)\<lparr>pro_mode := uint (dc_cbitout (hot_ctl d) ! 0 AND 1)\<rparr>\<rparr>, h)"
  by (simp add: switch_mode_def Let_def)

lemma frozen_hot [simp]: "frozen d0 (d\<lparr>hot_ctl := c\<rparr>) = frozen d0 d" "frozen d0 (update_rate_bits d r) = frozen d0 d"
  by (simp_all add: frozen_def)

lemma write_frozen:
  assumes "frozen d0 d"
  shows "write_cbits M valid (d, c, h) = (d', c', h') \<Longrightarrow> frozen d0 d' \<and> h' = h"
    and "write_ubits valid (d, c) = (d', c') \<Longrightarrow> frozen d0 d'"
    and "write_vbit (d, c) = (d', c') \<Longrightarrow> frozen d0 d'"
    and "write_orate valid (d, c) = (d', c') \<Longrightarrow> frozen d0 d'"
proof -
  have s: "ctl_sel d = Cold" using assms by (simp add: frozen_def)
  show "write_cbits M valid (d, c, h) = (d', c', h') \<Longrightarrow> frozen d0 d' \<and> h' = h"
    using assms by (auto simp: write_cbits_def Let_def switch_frozen[OF s] split: if_splits)
  show "write_ubits valid (d, c) = (d', c') \<Longrightarrow> frozen d0 d'"
    using assms by (auto simp: write_ubits_def split: if_splits)
  show "write_vbit (d, c) = (d', c') \<Longrightarrow> frozen d0 d'"
    using assms by (auto simp: write_vbit_def split: if_splits)
  show "write_orate valid (d, c) = (d', c') \<Longrightarrow> frozen d0 d'"
    using assms by (auto simp: write_orate_def Let_def split: if_splits)
qed

lemma writectl_frozen:
  assumes "frozen d0 (if mixer_blocked d then d else block_mixer d)" and "writectl M d c h = (r, d', c', h')"
  shows "frozen d0 d' \<and> h' = h"
proof -
  define v where "v = dc_valid c"
  define d1 where "d1 = (if \<not> mixer_blocked d then block_mixer d else d)"
  define c1 where "c1 = c\<lparr>dc_valid := 0, dc_caps := sp_caps d1\<rparr>"
  obtain d2 c2 h2 where a: "write_cbits M v (d1, c1, h) = (d2, c2, h2)" by (metis prod_cases3)
  obtain d3 c3 where b: "write_ubits v (d2, c2) = (d3, c3)" by fastforce
  obtain d4 c4 where e: "write_vbit (d3, c3) = (d4, c4)" by fastforce
  obtain d5 c5 where f: "write_orate v (d4\<lparr>hot_ctl := (hot_ctl d4)\<lparr>dc_valid := v\<rparr>\<rparr>, c4) = (d5, c5)" by fastforce
  have "d' = d5" "h' = h2"
    using assms(2) a b e f unfolding d1_def c1_def v_def
    by (auto simp: writectl_def Let_def split: if_splits sum.splits)
  moreover have "frozen d0 d1" using assms(1) by (simp add: d1_def split: if_splits)
  ultimately show ?thesis
    using write_frozen(1)[OF _ a] write_frozen(2)[OF _ b] write_frozen(3)[OF _ e] write_frozen(4)[OF _ f] by simp
qed

lemma session_frozen:
  assumes "frozen d0 d"
  shows "frozen d0 (fst (spdif_session M cs (d, h))) \<and> snd (spdif_session M cs (d, h)) = h"
  using assms
proof (induction cs arbitrary: d)
  case Nil
  then show ?case by simp
next
  case (Cons c cs)
  obtain r d' c' h' where w: "writectl M d c h = (r, d', c', h')" by (metis prod_cases4)
  have "mixer_blocked d" using Cons.prems by (simp add: frozen_def)
  then have "frozen d0 d' \<and> h' = h" using writectl_frozen[OF _ w, of d0] Cons.prems by simp
  then show ?case using Cons.IH[of d'] w by simp
qed

text \<open>C37: An application's control session leaves no trace on the settings: after any sequence of
  \<open>SNDCTL_DSP_WRITECTL\<close> requests, closing the output restores the control block the device had,
  and the mixer works on it again. The same statement shows that no request of the session
  reaches the hardware or the mixer's tables: \<open>writectl\<close> never calls \<open>update_hardware\<close>.\<close>

theorem spdif_session_isolated:
  assumes "is_ok d" and "\<not> mixer_blocked d" and "ctl_sel d = Hot"
  shows "let (d', h') = spdif_session M cs (d, h); d'' = oss_spdif_close d' OPEN_WRITE
    in hot_ctl d'' = hot_ctl d \<and> ctl d'' = hot_ctl d \<and> \<not> mixer_blocked d'' \<and> h' = h"
proof (cases cs)
  case Nil
  then show ?thesis using assms by (simp add: oss_spdif_close_def Let_def ctl_def)
next
  case (Cons c cs')
  obtain r d1 c1 h1 where w: "writectl M d c h = (r, d1, c1, h1)" by (metis prod_cases4)
  have "frozen d (block_mixer d)" by (simp add: frozen_def block_mixer_def)
  then have f: "frozen d d1" "h1 = h" using writectl_frozen[OF _ w, of d] assms(2) by simp_all
  obtain d' h' where s: "spdif_session M cs' (d1, h1) = (d', h')" by fastforce
  then have "frozen d d'" "h' = h" using session_frozen[OF f(1), of M cs' h1] f(2) by simp_all
  then show ?thesis using Cons w s assms(1)
    by (simp add: Let_def oss_spdif_close_def frozen_def OPEN_WRITE_def unblock_mixer_def ctl_def)
qed

theorem spdif_session_isolated_witness:
  "let (d', h') = spdif_session counting_mixer [zero_ctl\<lparr>dc_valid := 0x4, dc_cbitout := replicate 24 7\<rparr>] (sample_devc, 0);
       d'' = oss_spdif_close d' OPEN_WRITE
    in hot_ctl d'' = hot_ctl sample_devc \<and> ctl d'' = hot_ctl sample_devc \<and> \<not> mixer_blocked d'' \<and> h' = 0"
  by (rule spdif_session_isolated) (simp_all add: sample_devc_def)

text \<open>A \<open>writectl\<close> that switches a device between consumer and professional mode stores the
  new channel status bits but records the mode it leaves: \<open>switch_mode\<close> runs before the new
  bits are copied.\<close>

theorem writectl_records_old_mode:
  assumes "\<not> mixer_blocked d" and "dc_valid c AND VAL_CBITOUT \<noteq> 0" and "sp_caps d AND DIG_CBITOUT_MASK \<noteq> 0"
    and "(dc_cbitout (hot_ctl d) ! 0 XOR dc_cbitout c ! 0) AND 1 \<noteq> 0"
    and "dc_valid c AND VAL_ORATE = 0" and "dc_valid c AND VAL_REQUEST = 0"
  shows "\<exists>d' c'. writectl M d c h = (Inr 0, d', c', h) \<and> dc_cbitout (hot_ctl d') = dc_cbitout c \<and>
    pro_mode (hot_ctl d') = uint (dc_cbitout (hot_ctl d) ! 0 AND 1) \<and>
    pro_mode (hot_ctl d') \<noteq> uint (dc_cbitout c ! 0 AND 1)"
proof -
  define d1 where "d1 = block_mixer d"
  have s: "ctl_sel d1 = Cold" "hot_ctl d1 = hot_ctl d" "sp_caps d1 = sp_caps d"
    by (simp_all add: d1_def block_mixer_def)
  define c1 where "c1 = c\<lparr>dc_valid := 0, dc_caps := sp_caps d1\<rparr>"
  define d2 where "d2 = d1\<lparr>hot_ctl := (hot_ctl d)\<lparr>pro_mode := uint (dc_cbitout (hot_ctl d) ! 0 AND 1),
    dc_cbitout := dc_cbitout c\<rparr>\<rparr>"
  have w: "write_cbits M (dc_valid c) (d1, c1, h) = (d2, c1\<lparr>dc_valid := VAL_CBITOUT\<rparr>, h)"
    using assms(2-4) by (simp add: write_cbits_def Let_def s switch_frozen c1_def d2_def)
  obtain d3 c3 where u: "write_ubits (dc_valid c) (d2, c1\<lparr>dc_valid := VAL_CBITOUT\<rparr>) = (d3, c3)" by fastforce
  then have u3: "dc_cbitout (hot_ctl d3) = dc_cbitout c" "pro_mode (hot_ctl d3) = uint (dc_cbitout (hot_ctl d) ! 0 AND 1)"
    by (auto simp: write_ubits_def d2_def split: if_splits)
  obtain d4 c4 where v: "write_vbit (d3, c3) = (d4, c4)" by fastforce
  then have v4: "dc_cbitout (hot_ctl d4) = dc_cbitout c" "pro_mode (hot_ctl d4) = uint (dc_cbitout (hot_ctl d) ! 0 AND 1)"
    using u3 by (auto simp: write_vbit_def split: if_splits)
  have b: "uint (x AND 1) = of_bool (bit x 0)" for x :: u8
    by (simp add: unsigned_and_eq and_one_eq mod_2_eq_odd bit_0)
  have "bit (dc_cbitout (hot_ctl d) ! 0) 0 \<noteq> bit (dc_cbitout c ! 0) 0"
    using assms(4) unfolding word_and_one by (simp add: bit_xor_iff del: bit_0)
  then have "uint (dc_cbitout (hot_ctl d) ! 0 AND 1) \<noteq> uint (dc_cbitout c ! 0 AND 1)"
    unfolding b by auto
  moreover have "writectl M d c h = (Inr 0, d4\<lparr>hot_ctl := (hot_ctl d4)\<lparr>dc_valid := dc_valid c\<rparr>\<rparr>, c4, h)"
    using assms(1,5,6) w u v by (simp add: writectl_def Let_def d1_def c1_def write_orate_def)
  ultimately show ?thesis using v4 by simp
qed

theorem writectl_records_old_mode_witness:
  "\<exists>d' c'. writectl counting_mixer sample_devc (zero_ctl\<lparr>dc_valid := 4, dc_cbitout := 1 # replicate 23 0\<rparr>) 0 = (Inr 0, d', c', 0) \<and>
    dc_cbitout (hot_ctl d') = dc_cbitout (zero_ctl\<lparr>dc_valid := 4, dc_cbitout := 1 # replicate 23 0\<rparr>) \<and>
    pro_mode (hot_ctl d') = uint (dc_cbitout (hot_ctl sample_devc) ! 0 AND 1) \<and>
    pro_mode (hot_ctl d') \<noteq> uint (dc_cbitout (zero_ctl\<lparr>dc_valid := 4, dc_cbitout := 1 # replicate 23 0\<rparr>) ! 0 AND 1)"
  by (rule writectl_records_old_mode)
    (simp_all add: sample_devc_def zero_ctl_def VAL_CBITOUT_def DIG_CBITOUT_MASK_def VAL_ORATE_def VAL_REQUEST_def)

section \<open>Sampling rate\<close>

text \<open>What a receiver makes of the rate code in the low nibble of channel status byte 3.\<close>

definition rate_of_code :: "u8 \<Rightarrow> int" where
  "rate_of_code b = (if b = 2 then 48000 else if b = 3 then 32000 else if b = 4 then 88200 else if b = 5 then 96000
     else if b = 7 then 176400 else if b = 6 then 192000 else 44100)"

lemma rate_code_cases:
  "rate_of_code (fst (rate_code r)) = snd (rate_code r)" "uint (fst (rate_code r)) < 16"
  "r \<in> {32000, 44100, 48000, 88200, 96000, 176400, 192000} \<Longrightarrow> snd (rate_code r) = r"
  "r \<notin> {32000, 44100, 48000, 88200, 96000, 176400, 192000} \<Longrightarrow> snd (rate_code r) = 44100"
  by (auto simp: rate_code_def rate_of_code_def)

lemma nibble_insert:
  fixes b s :: u8
  assumes "uint s < 16"
  shows "((b AND NOT 0x0f) OR (s AND 0x0f)) AND 0x0f = s" "((b AND NOT 0x0f) OR (s AND 0x0f)) AND 0xf0 = b AND 0xf0"
proof -
  have m: "(0x0f :: u8) = mask 4" by (simp add: mask_eq_exp_minus_1)
  have n: "(0xf0 :: u8) = NOT (mask 4)" by (simp add: mask_eq_exp_minus_1)
  have s: "s AND mask 4 = s"
    using assms u8_low_nibble[of s] by (simp add: word_uint_eq_iff m[symmetric])
  have k: "k < 4" if "bit s k" for k using that s by (metis bit_and_iff bit_mask_iff)
  show "((b AND NOT 0x0f) OR (s AND 0x0f)) AND 0x0f = s"
    unfolding m s by (rule bit_eqI) (auto simp: bit_simps dest: k)
  show "((b AND NOT 0x0f) OR (s AND 0x0f)) AND 0xf0 = b AND 0xf0"
    unfolding m n by (rule bit_eqI) (auto simp: bit_simps)
qed

text \<open>Setting a sampling rate puts the code of a rate into the channel status bits and leaves
  the other bits of that byte alone; the rate reported afterwards is the one a receiver decodes,
  which is the requested one when it is supported and 44100 otherwise, and the driver is called
  with the updated block.\<close>

theorem spdif_setrate_code:
  assumes "is_ok d" and "length (dc_cbitout (hot_ctl d)) = 24" and "oss_spdif_setrate d rate h = (d', h')"
  shows "rate_of_code (dc_cbitout (hot_ctl d') ! 3 AND 0x0f) = dc_srate_out (hot_ctl d') \<and>
    dc_cbitout (hot_ctl d') ! 3 AND 0xf0 = dc_cbitout (hot_ctl d) ! 3 AND 0xf0 \<and>
    dc_srate_out (hot_ctl d') = (if rate \<in> {32000, 44100, 48000, 88200, 96000, 176400, 192000} then rate else 44100) \<and>
    h' = (case reprogram_device (sp_driver d) of None \<Rightarrow> h | Some f \<Rightarrow> f (hot_ctl d') (REPGM_RATE OR REPGM_CBIT3) h)"
proof -
  have d': "d' = update_rate_bits d rate" "h' = call_reprogram d' (REPGM_RATE OR REPGM_CBIT3) h"
    using assms(1,3) by (auto simp: oss_spdif_setrate_def Let_def)
  have "dc_cbitout (hot_ctl d') ! 3 = (dc_cbitout (hot_ctl d) ! 3 AND NOT 0x0f) OR (fst (rate_code rate) AND 0x0f)"
    "dc_srate_out (hot_ctl d') = snd (rate_code rate)" "sp_driver d' = sp_driver d"
    using assms(2) by (simp_all add: d'(1) update_rate_bits_def Let_def split_beta)
  then show ?thesis
    using nibble_insert[OF rate_code_cases(2)] rate_code_cases(1,3,4)[of rate] d'(2)
    by (simp add: call_reprogram_def)
qed

theorem spdif_setrate_code_witness:
  "let (d', h') = oss_spdif_setrate sample_devc 96000 0 in
     rate_of_code (dc_cbitout (hot_ctl d') ! 3 AND 0x0f) = dc_srate_out (hot_ctl d')"
proof -
  obtain d' h' where e: "oss_spdif_setrate sample_devc 96000 0 = (d', h')" by fastforce
  have "is_ok sample_devc" "length (dc_cbitout (hot_ctl sample_devc)) = 24"
    by (simp_all add: sample_devc_def zero_ctl_def)
  from spdif_setrate_code[OF this e] show ?thesis by (simp add: e)
qed

section \<open>The device table\<close>

text \<open>Uninstalling the first device of the table makes every later mixer access fault, for
  every device: \<open>oss_spdif_uninstall\<close> leaves a \<open>NULL\<close> entry and the search of
  \<open>spdif_set_mixer_control\<close> reads through it.\<close>

theorem uninstall_breaks_mixer:
  assumes "devc_list t \<noteq> []" and "devc_list t ! 0 = Some i" and "1 \<le> ndevs t"
  shows "spdif_set_mixer_control M (oss_spdif_uninstall t i) dev ctrl cmd v h = None"
proof -
  obtain xs where "devc_list t = Some i # xs" using assms(1,2) by (cases "devc_list t") auto
  moreover have "nat (ndevs t) = Suc (nat (ndevs t - 1))" using assms(3) by simp
  ultimately show ?thesis
    using assms(3) by (simp add: spdif_set_mixer_control_def oss_spdif_uninstall_def)
qed

definition two_devices :: "nat spdif_table" where
  "two_devices = \<lparr>ndevs = 2, devc_list = [Some 0, Some 1] @ replicate 8 None,
     devs = (\<lambda>i. sample_devc\<lparr>mixer_dev := int i\<rparr>)\<rparr>"

theorem uninstall_breaks_mixer_witness:
  "spdif_set_mixer_control counting_mixer (oss_spdif_uninstall two_devices 0) 1 3 SNDCTL_MIX_READ 0 0 = None"
  by (rule uninstall_breaks_mixer) (simp_all add: two_devices_def)

lemma free_slot_none:
  assumes "\<forall>x\<in>set xs. x \<noteq> None"
  shows "free_slot xs i n = - 1"
  using assms by (induction xs arbitrary: i) auto

text \<open>When the table is full, installing another device fails with \<open>OSS_EBUSY\<close>, but the device
  is left marked as initialised: a second attempt reports success although the device is not in
  the table.\<close>

theorem install_full_table:
  assumes "ndevs t = MAX_DEV" and "\<forall>x\<in>set (devc_list t). x \<noteq> None" and "Some i \<notin> set (devc_list t)"
    and "\<not> is_ok (devs t i)"
  shows "\<exists>t'. oss_spdif_install t i (Some drv) True mixdev flags caps = (Inl OSS_EBUSY, t') \<and>
    oss_spdif_install t' i (Some drv) True mixdev flags caps = (Inr (), t') \<and> Some i \<notin> set (devc_list t')"
  using assms free_slot_none[OF assms(2), of 0 "ndevs t"]
  by (simp add: oss_spdif_install_def Let_def)

definition full_table :: "nat spdif_table" where
  "full_table = \<lparr>ndevs = 10, devc_list = map Some [0..<10], devs = (\<lambda>i. sample_devc\<lparr>is_ok := i < 10\<rparr>)\<rparr>"

theorem install_full_table_witness:
  "\<exists>t'. oss_spdif_install full_table 10 (Some counting_driver) True 10 0 0 = (Inl OSS_EBUSY, t') \<and>
    oss_spdif_install t' 10 (Some counting_driver) True 10 0 0 = (Inr (), t') \<and> Some 10 \<notin> set (devc_list t')"
  by (rule install_full_table) (auto simp: full_table_def MAX_DEV_def)

end
