(* ===== verification/Midi_Timers.thy ===== *)
theory Midi_Timers
  imports Oss_Prelude
begin

text \<open>
  The MIDI timer core of \<open>kernel/framework/midi/oss_midi_timers.c\<close>: the table of timer drivers,
  the table of timer instances, and the queueing of wake-up times for the MIDI devices that
  share an instance. The state a driver keeps and the operating system's clock are of type
  \<open>'h\<close>; a driver is the record of its methods over it, \<open>None\<close> for \<open>NULL\<close>. A callback pointer is
  an identifier, and the parameter \<open>fire\<close> says what calling it for a device does to the whole
  state, re-entering the timer core included. The result \<open>None\<close> of an operation that takes
  \<open>fire\<close> or divides is the absence of a defined result: a division by zero, an instance freed
  under the code's feet, or the end of the fuel.
\<close>

section \<open>State\<close>

definition MAX_TIMER_DEV :: int where "MAX_TIMER_DEV = 36"
definition MAX_MIDI_DEV :: nat where "MAX_MIDI_DEV = 32"
definition MIDI_OPT_USECTIME :: u16 where "MIDI_OPT_USECTIME = 0x0004"

text \<open>A method's negative result is \<open>Inl\<close> an error code or \<open>Inr\<close> a negative number.\<close>

definition failed :: "int oss_result \<Rightarrow> bool" where
  "failed r \<longleftrightarrow> (case r of Inl e \<Rightarrow> True | Inr n \<Rightarrow> n < 0)"

type_synonym cb_id = nat

record 'h timer_ops =
  op_create_instance :: "(int \<Rightarrow> int \<Rightarrow> 'h \<Rightarrow> int oss_result \<times> 'h) option"
  op_free_instance :: "(int \<Rightarrow> int \<Rightarrow> 'h \<Rightarrow> 'h) option"
  op_attach_client :: "(int \<Rightarrow> int \<Rightarrow> 'h \<Rightarrow> int oss_result \<times> 'h) option"
  op_detach_client :: "(int \<Rightarrow> int \<Rightarrow> 'h \<Rightarrow> 'h) option"
  op_wait :: "(int \<Rightarrow> u64 \<Rightarrow> 'h \<Rightarrow> int \<times> 'h) option"
  op_get_current_time :: "(int \<Rightarrow> 'h \<Rightarrow> u64) option"
  op_set_tempo :: "(int \<Rightarrow> int \<Rightarrow> 'h \<Rightarrow> int oss_result \<times> 'h) option"
  op_set_timebase :: "(int \<Rightarrow> int \<Rightarrow> 'h \<Rightarrow> int oss_result \<times> 'h) option"
  op_start :: "(int \<Rightarrow> u64 \<Rightarrow> 'h \<Rightarrow> 'h) option"
  op_stop :: "(int \<Rightarrow> 'h \<Rightarrow> 'h) option"

record 'h timer_driver =
  drv_ops :: "'h timer_ops"
  drv_name :: string
  drv_flags :: u32
  max_instances :: int
  num_instances :: int
  resolution :: int

record tdev =
  driver_dev :: int
  timer_dev :: int
  refcount :: int
  next_tick :: u64
  prev_tick :: u64
  bookmark_tick :: u64
  bookmark_time :: u64
  tempo :: int
  pending_tempo :: int
  timebase :: int
  run_state :: int
  prev_time :: u64
  next_time :: u64
  tmr_callback :: "cb_id option"
  midimap :: u32
  midi_times :: "u64 list"
  midi_ticks :: "u64 list"

text \<open>\<open>oss_timer_devs\<close> and \<open>oss_timer_drivers\<close> hold their first \<open>oss_num_timers\<close> and
  \<open>oss_num_timer_drivers\<close> entries here; an instance is \<open>None\<close> for \<open>NULL\<close>.\<close>

record 'h timer_sys =
  timer_devs :: "tdev option list"
  timer_drivers :: "'h timer_driver list"
  num_mididevs :: int
  hz :: int
  hw :: 'h

abbreviation num_timers :: "'h timer_sys \<Rightarrow> int" where
  "num_timers s \<equiv> int (length (timer_devs s))"

definition get_timer :: "'h timer_sys \<Rightarrow> int \<Rightarrow> tdev option" where
  "get_timer s n = (if n < 0 \<or> num_timers s \<le> n then None else timer_devs s ! nat n)"

definition set_timer :: "int \<Rightarrow> tdev option \<Rightarrow> 'h timer_sys \<Rightarrow> 'h timer_sys" where
  "set_timer n t s = s\<lparr>timer_devs := (timer_devs s)[nat n := t]\<rparr>"

definition get_driver :: "'h timer_sys \<Rightarrow> int \<Rightarrow> 'h timer_driver" where
  "get_driver s n = timer_drivers s ! nat n"

definition ops_of :: "'h timer_sys \<Rightarrow> tdev \<Rightarrow> 'h timer_ops" where
  "ops_of s t = drv_ops (get_driver s (driver_dev t))"

definition add_instances :: "int \<Rightarrow> int \<Rightarrow> 'h timer_sys \<Rightarrow> 'h timer_sys" where
  "add_instances n k s = s\<lparr>timer_drivers := (timer_drivers s)[nat n :=
     (get_driver s n)\<lparr>num_instances := num_instances (get_driver s n) + k\<rparr>]\<rparr>"

section \<open>Drivers\<close>

definition OSS_TIMER_DRIVER_VERSION :: int where "OSS_TIMER_DRIVER_VERSION = 1"

definition oss_install_timer ::
  "'h timer_sys \<Rightarrow> int \<Rightarrow> string \<Rightarrow> 'h timer_ops \<Rightarrow> bool \<Rightarrow> u32 \<Rightarrow> int \<Rightarrow> int \<Rightarrow> bool
    \<Rightarrow> unit oss_result \<times> 'h timer_sys" where
  "oss_install_timer s version name d size_ok flags max_inst res malloc_ok =
     (if version \<noteq> OSS_TIMER_DRIVER_VERSION then (Inl OSS_EINVAL, s)
      else if \<not> size_ok then (Inl OSS_EINVAL, s)
      else if MAX_TIMER_DEV \<le> int (length (timer_drivers s)) then (Inl OSS_ENOMEM, s)
      else if \<not> malloc_ok then (Inl OSS_ENOMEM, s)
      else (Inr (), s\<lparr>timer_drivers := timer_drivers s @
              [\<lparr>drv_ops = d, drv_name = take 63 name, drv_flags = flags, max_instances = max_inst,
                num_instances = 0, resolution = res\<rparr>]\<rparr>))"

section \<open>Instances\<close>

definition fresh_tdev :: "int \<Rightarrow> int \<Rightarrow> tdev" where
  "fresh_tdev drv num = \<lparr>driver_dev = drv, timer_dev = num, refcount = 0, next_tick = 0, prev_tick = 0,
     bookmark_tick = 0, bookmark_time = 0, tempo = 0, pending_tempo = 0, timebase = 0, run_state = 0,
     prev_time = 0, next_time = 0, tmr_callback = None, midimap = 0,
     midi_times = replicate MAX_MIDI_DEV 0, midi_ticks = replicate MAX_MIDI_DEV 0\<rparr>"

fun free_timer :: "tdev option list \<Rightarrow> int \<Rightarrow> int" where
  "free_timer [] i = - 1"
| "free_timer (t # ts) i = (if t = None then i else free_timer ts (i + 1))"

definition oss_timer_create_instance :: "'h timer_sys \<Rightarrow> int \<Rightarrow> bool \<Rightarrow> int oss_result \<times> 'h timer_sys" where
  "oss_timer_create_instance s drv malloc_ok =
     (if drv < 0 \<or> int (length (timer_drivers s)) \<le> drv then (Inl OSS_ENXIO, s)
      else if max_instances (get_driver s drv) \<le> num_instances (get_driver s drv) then (Inl OSS_EBUSY, s)
      else
        let s = add_instances drv 1 s in
        if \<not> malloc_ok then (Inl OSS_ENOMEM, add_instances drv (- 1) s)
        else
          let num = free_timer (timer_devs s) 0 in
          if num = - 1 \<and> MAX_TIMER_DEV \<le> num_timers s then (Inl OSS_EBUSY, add_instances drv (- 1) s)
          else
            let (num, s) = (if num = - 1 then (num_timers s, s\<lparr>timer_devs := timer_devs s @ [None]\<rparr>) else (num, s));
                s = set_timer num (Some (fresh_tdev drv num)) s
            in case op_create_instance (drv_ops (get_driver s drv)) of
                 None \<Rightarrow> (Inr num, s)
               | Some f \<Rightarrow>
                   let (err, h) = f num drv (hw s); s = s\<lparr>hw := h\<rparr>
                   in if failed err then (err, add_instances drv (- 1) (set_timer num None s))
                      else (Inr num, s))"

definition oss_timer_attach_client :: "'h timer_sys \<Rightarrow> int \<Rightarrow> int \<Rightarrow> int oss_result \<times> 'h timer_sys" where
  "oss_timer_attach_client s dev mdev =
     (if dev < 0 \<or> num_timers s \<le> dev then (Inl OSS_ENXIO, s)
      else case get_timer s dev of
        None \<Rightarrow> (Inl OSS_EIO, s)
      | Some t \<Rightarrow>
          let (err, s) = (case op_attach_client (ops_of s t) of
                            None \<Rightarrow> (Inr 0, s)
                          | Some f \<Rightarrow> let (err, h) = f dev mdev (hw s) in (err, s\<lparr>hw := h\<rparr>))
          in if failed err then (err, s)
             else (Inr 0, set_timer dev (Some (t\<lparr>refcount := refcount t + 1,
                     midimap := midimap t OR push_bit (nat mdev) 1,
                     midi_times := (midi_times t)[nat mdev := 0]\<rparr>)) s))"

definition oss_timer_stop :: "'h timer_sys \<Rightarrow> int \<Rightarrow> 'h timer_sys" where
  "oss_timer_stop s dev =
     (case get_timer s dev of
        None \<Rightarrow> s
      | Some t \<Rightarrow>
          let s = (case op_stop (ops_of s t) of None \<Rightarrow> s | Some f \<Rightarrow> s\<lparr>hw := f dev (hw s)\<rparr>)
          in set_timer dev (Some (t\<lparr>run_state := 0, tmr_callback := None\<rparr>)) s)"

definition oss_timer_detach_client :: "'h timer_sys \<Rightarrow> int \<Rightarrow> int \<Rightarrow> 'h timer_sys" where
  "oss_timer_detach_client s dev mdev =
     (case get_timer s dev of
        None \<Rightarrow> s
      | Some t \<Rightarrow>
          let s = (case op_detach_client (ops_of s t) of
                     None \<Rightarrow> s | Some f \<Rightarrow> s\<lparr>hw := f dev mdev (hw s)\<rparr>);
              t = t\<lparr>refcount := refcount t - 1, midimap := midimap t AND NOT (push_bit (nat mdev) 1),
                    midi_times := (midi_times t)[nat mdev := 0]\<rparr>;
              s = set_timer dev (Some t) s
          in if refcount t \<le> 0
             then
               let s = oss_timer_stop s dev;
                   s = (case op_free_instance (ops_of s t) of
                          None \<Rightarrow> s | Some f \<Rightarrow> s\<lparr>hw := f dev (driver_dev t) (hw s)\<rparr>);
                   s = add_instances (driver_dev t) (- 1) (set_timer dev None s);
                   n = num_instances (get_driver s (driver_dev t))
               in (if n < 0 then add_instances (driver_dev t) (- n) s else s)
             else s)"

section \<open>Wake-up times\<close>

definition linked :: "tdev \<Rightarrow> nat \<Rightarrow> bool" where
  "linked t i \<longleftrightarrow> midimap t AND push_bit i 1 \<noteq> 0"

text \<open>The scan of \<open>timer_callback\<close>: the map has one 32-bit entry, so the outer loop runs once and
  its condition \<open>x < num_mididevs\<close> asks only for some device.\<close>

fun fire_due ::
  "(cb_id \<Rightarrow> nat \<Rightarrow> 'h timer_sys \<Rightarrow> 'h timer_sys option) \<Rightarrow> int \<Rightarrow> u64 \<Rightarrow> nat list \<Rightarrow> 'h timer_sys \<Rightarrow> 'h timer_sys option" where
  "fire_due fire dev t [] s = Some s"
| "fire_due fire dev t (i # is) s =
     (case get_timer s dev of
        None \<Rightarrow> None
      | Some tmr \<Rightarrow>
          if linked tmr i \<and> 0 < midi_times tmr ! i \<and> midi_times tmr ! i \<le> t
          then
            let s = set_timer dev (Some (tmr\<lparr>midi_times := (midi_times tmr)[i := 0]\<rparr>)) s
            in case tmr_callback tmr of
                 None \<Rightarrow> fire_due fire dev t is s
               | Some cb \<Rightarrow> Option.bind (fire cb i s) (fire_due fire dev t is)
          else fire_due fire dev t is s)"

text \<open>The scan of \<open>update_timer_state\<close>: the smallest time set, and the tick that goes with it.\<close>

fun min_time :: "tdev \<Rightarrow> nat list \<Rightarrow> u64 \<times> u64 \<Rightarrow> u64 \<times> u64" where
  "min_time tmr [] r = r"
| "min_time tmr (i # is) r =
     min_time tmr is
       (if linked tmr i \<and> midi_times tmr ! i \<noteq> 0 \<and> midi_times tmr ! i < fst r
        then (midi_times tmr ! i, midi_ticks tmr ! i) else r)"

definition scan_range :: "'h timer_sys \<Rightarrow> tdev \<Rightarrow> nat list" where
  "scan_range s tmr = (if midimap tmr \<noteq> 0 \<and> 0 < num_mididevs s then [0..<MAX_MIDI_DEV] else [])"

definition LARGEST_TIME :: u64 where "LARGEST_TIME = 0xffffffffffffffff"

definition default_tempo :: "'h timer_sys \<Rightarrow> tdev \<Rightarrow> tdev" where
  "default_tempo s tmr =
     (let tmr = (if tempo tmr < 1 then tmr\<lparr>tempo := 60\<rparr> else tmr)
      in if timebase tmr < 1 then tmr\<lparr>timebase := hz s\<rparr> else tmr)"

text \<open>\<open>update_timer_state\<close> and \<open>timer_callback\<close> call each other as long as the driver reports a
  time that is over already; the fuel bounds the number of calls.\<close>

fun update_timer_state ::
  "nat \<Rightarrow> (cb_id \<Rightarrow> nat \<Rightarrow> 'h timer_sys \<Rightarrow> 'h timer_sys option) \<Rightarrow> int \<Rightarrow> 'h timer_sys \<Rightarrow> (int \<times> 'h timer_sys) option"
and timer_callback ::
  "nat \<Rightarrow> (cb_id \<Rightarrow> nat \<Rightarrow> 'h timer_sys \<Rightarrow> 'h timer_sys option) \<Rightarrow> int \<Rightarrow> 'h timer_sys \<Rightarrow> 'h timer_sys option" where
  "update_timer_state 0 fire dev s = None"
| "update_timer_state (Suc n) fire dev s =
     (case get_timer s dev of
        None \<Rightarrow> None
      | Some tmr \<Rightarrow>
          let tmr = default_tempo s tmr;
              (t, tick) = min_time tmr (scan_range s tmr) (LARGEST_TIME, 0)
          in if t = LARGEST_TIME then Some (1, set_timer dev (Some tmr) s)
             else
               let tmr = tmr\<lparr>next_time := t, next_tick := tick\<rparr>;
                   s = set_timer dev (Some tmr) s
               in case op_wait (ops_of s tmr) of
                    None \<Rightarrow> Some (1, s)
                  | Some f \<Rightarrow>
                      let (state, h) = f (timer_dev tmr) t (hw s); s = s\<lparr>hw := h\<rparr>
                      in if state = 1
                         then map_option (\<lambda>s. (1, s)) (timer_callback n fire dev s)
                         else Some (0, s))"
| "timer_callback 0 fire dev s = None"
| "timer_callback (Suc n) fire dev s =
     (case get_timer s dev of
        None \<Rightarrow> None
      | Some tmr \<Rightarrow>
          let t = next_time tmr;
              s = set_timer dev (Some (tmr\<lparr>prev_time := t, prev_tick := next_tick tmr\<rparr>)) s
          in Option.bind (fire_due fire dev t (scan_range s tmr) s) (\<lambda>s.
             map_option snd (update_timer_state n fire dev s)))"

section \<open>Tempo and timebase\<close>

definition oss_timer_set_tempo :: "'h timer_sys \<Rightarrow> int \<Rightarrow> int \<Rightarrow> int oss_result \<times> 'h timer_sys" where
  "oss_timer_set_tempo s dev tmp =
     (case get_timer s dev of
        None \<Rightarrow> (Inl OSS_ENXIO, s)
      | Some t \<Rightarrow>
          let t = t\<lparr>pending_tempo := tmp\<rparr>;
              t = t\<lparr>tempo := pending_tempo t, bookmark_time := prev_time t, bookmark_tick := prev_tick t\<rparr>;
              s = set_timer dev (Some t) s
          in case op_set_tempo (ops_of s t) of
               None \<Rightarrow> (Inr 0, s)
             | Some f \<Rightarrow>
                 let (err, h) = f dev tmp (hw s); s = s\<lparr>hw := h\<rparr>
                 in (if failed err then err else Inr 0, s))"

definition oss_timer_set_timebase :: "'h timer_sys \<Rightarrow> int \<Rightarrow> int \<Rightarrow> int oss_result \<times> 'h timer_sys" where
  "oss_timer_set_timebase s dev tb =
     (case get_timer s dev of
        None \<Rightarrow> (Inl OSS_ENXIO, s)
      | Some t \<Rightarrow>
          (case op_set_timebase (ops_of s t) of
             None \<Rightarrow> (Inl OSS_ENXIO, s)
           | Some f \<Rightarrow>
               let s = set_timer dev (Some (t\<lparr>timebase := tb\<rparr>)) s;
                   (err, h) = f dev tb (hw s); s = s\<lparr>hw := h\<rparr>
               in (if failed err then err else Inr 0, s)))"

section \<open>Running a timer\<close>

definition oss_timer_start :: "'h timer_sys \<Rightarrow> int \<Rightarrow> 'h timer_sys" where
  "oss_timer_start s dev =
     (case get_timer s dev of
        None \<Rightarrow> s
      | Some t \<Rightarrow>
          let t = t\<lparr>pending_tempo := tempo t, next_tick := 0, prev_tick := 0, next_time := 0, prev_time := 0,
                    bookmark_tick := 0, bookmark_time := 0, run_state := 1\<rparr>;
              s = set_timer dev (Some t) s
          in case op_start (ops_of s t) of None \<Rightarrow> s | Some f \<Rightarrow> s\<lparr>hw := f dev 0 (hw s)\<rparr>)"

definition oss_timer_continue :: "'h timer_sys \<Rightarrow> int \<Rightarrow> 'h timer_sys" where
  "oss_timer_continue s dev =
     (case get_timer s dev of None \<Rightarrow> s | Some t \<Rightarrow> set_timer dev (Some (t\<lparr>run_state := 1\<rparr>)) s)"

definition oss_timer_is_running :: "'h timer_sys \<Rightarrow> int \<Rightarrow> int" where
  "oss_timer_is_running s dev = (case get_timer s dev of None \<Rightarrow> 0 | Some t \<Rightarrow> run_state t)"

text \<open>The product \<open>(oss_uint64_t) (tmr->tempo * tmr->timebase)\<close>.\<close>

definition tick_rate :: "tdev \<Rightarrow> u64" where
  "tick_rate t = word_of_int (tempo t * timebase t)"

text \<open>The tick and the absolute time \<open>oss_timer_wait_time\<close> computes. \<open>tick\<close> is an
  \<open>unsigned int\<close>, so the assignment \<open>t = tick = time\<close> keeps 32 bits of the time.\<close>

definition wait_deadline :: "tdev \<Rightarrow> int \<Rightarrow> u64 \<Rightarrow> u16 \<Rightarrow> (u32 \<times> u64) option" where
  "wait_deadline tmr latency time options =
     (let latency = (if latency < 0 then 0 else latency);
          tick = ucast time :: u32; t = ucast tick :: u64;
          early = (\<lambda>t. if word_of_int latency \<le> t then t - word_of_int latency else t)
      in if options AND MIDI_OPT_USECTIME = 0
         then (if tick_rate tmr = 0 then None
               else Some (tick, early (60000000 * (time - bookmark_tick tmr) div tick_rate tmr + bookmark_time tmr)))
         else Some (tick, early t))"

definition oss_timer_wait_time ::
  "nat \<Rightarrow> (cb_id \<Rightarrow> nat \<Rightarrow> 'h timer_sys \<Rightarrow> 'h timer_sys option) \<Rightarrow> 'h timer_sys \<Rightarrow> int \<Rightarrow> int \<Rightarrow> int \<Rightarrow> u64
    \<Rightarrow> cb_id option \<Rightarrow> u16 \<Rightarrow> (int \<times> 'h timer_sys) option" where
  "oss_timer_wait_time fuel fire s dev mdev latency time cb options =
     (if time = 0 then Some (1, s)
      else if dev < 0 \<or> num_timers s \<le> dev then Some (0, s)
      else if mdev < 0 \<or> num_mididevs s \<le> mdev then Some (0, s)
      else case get_timer s dev of
        None \<Rightarrow> Some (0, s)
      | Some tmr \<Rightarrow>
          let s = set_timer dev (Some (tmr\<lparr>tmr_callback := cb\<rparr>)) s;
              s = (if run_state tmr = 0 then oss_timer_start s dev else s)
          in case get_timer s dev of
               None \<Rightarrow> None
             | Some tmr \<Rightarrow>
                 (case wait_deadline tmr latency time options of
                    None \<Rightarrow> None
                  | Some (tick, t) \<Rightarrow>
                      if t \<le> prev_time tmr then Some (1, s)
                      else update_timer_state fuel fire dev
                             (set_timer dev (Some (tmr\<lparr>midi_times := (midi_times tmr)[nat mdev := t],
                                midi_ticks := (midi_ticks tmr)[nat mdev := ucast tick]\<rparr>)) s)))"

definition oss_timer_get_current_time :: "'h timer_sys \<Rightarrow> int \<Rightarrow> int \<Rightarrow> bool \<Rightarrow> u64 option" where
  "oss_timer_get_current_time s dev latency use_abs =
     (case get_timer s dev of
        None \<Rightarrow> Some 0
      | Some tmr \<Rightarrow>
          (case op_get_current_time (ops_of s tmr) of
             None \<Rightarrow> Some 0
           | Some f \<Rightarrow>
               if run_state tmr = 0 then Some 0
               else
                 let t = f dev (hw s) in
                 if use_abs then Some t
                 else if t < bookmark_time tmr then Some 0
                 else if tick_rate tmr = 0 then None
                 else
                   let t = t - bookmark_time tmr;
                       t = 60000000 * t div tick_rate tmr;
                       t = t * tick_rate tmr;
                       t = (t + 30000000) div 60000000
                   in Some (t + bookmark_tick tmr)))"

definition oss_timer_get_timeout :: "'h timer_sys \<Rightarrow> int \<Rightarrow> int \<Rightarrow> int" where
  "oss_timer_get_timeout s dev mdev =
     (case get_timer s dev of
        None \<Rightarrow> hz s
      | Some tmr \<Rightarrow>
          if next_time tmr \<le> prev_time tmr then hz s
          else
            let scale = (1000000 :: u64) div word_of_int (hz s) in
            if scale < 1 then hz s
            else
              let t = (next_time tmr - prev_time tmr) div scale + 1
              in if 1 < t then sint (ucast t :: u32) else hz s)"

definition oss_init_timers :: "'h timer_sys \<Rightarrow> int \<times> 'h timer_sys" where
  "oss_init_timers s = (0, s)"

definition oss_uninit_timers :: "'h timer_sys \<Rightarrow> int \<times> 'h timer_sys" where
  "oss_uninit_timers s = (0, s)"

end
