(* ===== verification/Default_Timer.thy ===== *)
theory Default_Timer
  imports Midi_Timers
begin

text \<open>
  The system timer of \<open>kernel/framework/midi/oss_default_timer.c\<close>, the driver behind every MIDI
  timer unless hardware brings its own. The operating system's clock and timeout services are a
  parameter over a state of type \<open>'o\<close>. The pointer \<open>timerc\<close> the driver keeps in an instance is
  the entry of \<open>timercs\<close> for that instance; \<open>null_deref\<close> records a use of it while \<open>NULL\<close>.
\<close>

section \<open>State\<close>

record deftmr_timerc =
  start_time :: u64
  timeout_id :: int

record 'o os_clock =
  os_jiffies :: "'o \<Rightarrow> u64"
  os_malloc_ok :: "'o \<Rightarrow> bool"
  os_timeout :: "int \<Rightarrow> u64 \<Rightarrow> 'o \<Rightarrow> int \<times> 'o"
  os_untimeout :: "int \<Rightarrow> 'o \<Rightarrow> 'o"

record 'o deftmr =
  timercs :: "int \<Rightarrow> deftmr_timerc option"
  tick_scale :: u64
  null_deref :: bool
  os :: 'o

section \<open>Methods\<close>

definition deftmr_create_instance :: "'o os_clock \<Rightarrow> int \<Rightarrow> int \<Rightarrow> 'o deftmr \<Rightarrow> int oss_result \<times> 'o deftmr" where
  "deftmr_create_instance K dev drv h =
     (if \<not> os_malloc_ok K (os h) then (Inl OSS_ENOMEM, h)
      else (Inr 0, h\<lparr>timercs := (timercs h)(dev \<mapsto> \<lparr>start_time = 0, timeout_id = 0\<rparr>)\<rparr>))"

definition deftmr_free_instance :: "'o os_clock \<Rightarrow> int \<Rightarrow> int \<Rightarrow> 'o deftmr \<Rightarrow> 'o deftmr" where
  "deftmr_free_instance K dev drv h =
     (case timercs h dev of
        None \<Rightarrow> h\<lparr>null_deref := True\<rparr>
      | Some c \<Rightarrow> h\<lparr>os := os_untimeout K (timeout_id c) (os h), timercs := (timercs h)(dev := None)\<rparr>)"

definition deftmr_attach_client :: "int \<Rightarrow> int \<Rightarrow> 'o deftmr \<Rightarrow> int oss_result \<times> 'o deftmr" where
  "deftmr_attach_client dev mdev h = (Inr 0, h)"

definition deftmr_detach_client :: "int \<Rightarrow> int \<Rightarrow> 'o deftmr \<Rightarrow> 'o deftmr" where
  "deftmr_detach_client dev mdev h = h"

definition deftmr_ioctl :: "int \<Rightarrow> u32 \<Rightarrow> int \<Rightarrow> int oss_result" where
  "deftmr_ioctl dev cmd arg = Inl OSS_EINVAL"

definition deftmr_set_source :: "int \<Rightarrow> int \<Rightarrow> int" where
  "deftmr_set_source dev source = source"

definition deftmr_set_tempo :: "int \<Rightarrow> int \<Rightarrow> 'o deftmr \<Rightarrow> int oss_result \<times> 'o deftmr" where
  "deftmr_set_tempo dev tmp h = (Inr tmp, h)"

definition deftmr_set_timebase :: "int \<Rightarrow> int \<Rightarrow> 'o deftmr \<Rightarrow> int oss_result \<times> 'o deftmr" where
  "deftmr_set_timebase dev tb h = (Inr tb, h)"

definition deftmr_start :: "'o os_clock \<Rightarrow> int \<Rightarrow> u64 \<Rightarrow> 'o deftmr \<Rightarrow> 'o deftmr" where
  "deftmr_start K dev tick h =
     (case timercs h dev of
        None \<Rightarrow> h
      | Some c \<Rightarrow> h\<lparr>timercs := (timercs h)(dev \<mapsto> c\<lparr>start_time := os_jiffies K (os h)\<rparr>)\<rparr>)"

definition deftmr_stop :: "'o os_clock \<Rightarrow> int \<Rightarrow> 'o deftmr \<Rightarrow> 'o deftmr" where
  "deftmr_stop K dev h =
     (case timercs h dev of
        None \<Rightarrow> h\<lparr>null_deref := True\<rparr>
      | Some c \<Rightarrow> h\<lparr>os := os_untimeout K (timeout_id c) (os h)\<rparr>)"

definition deftmr_cont :: "int \<Rightarrow> int" where
  "deftmr_cont dev = 0"

text \<open>The number of ticks \<open>deftmr_wait\<close> asks the system to wait. \<open>t\<close> is unsigned, so the test
  \<open>t < 0\<close> of the code never holds.\<close>

definition wait_ticks :: "u64 \<Rightarrow> u64 \<Rightarrow> u64 \<Rightarrow> u64 \<Rightarrow> u64" where
  "wait_ticks scale time start now = (time + scale div 2) div scale + start - now"

definition deftmr_wait :: "'o os_clock \<Rightarrow> int \<Rightarrow> u64 \<Rightarrow> 'o deftmr \<Rightarrow> int \<times> 'o deftmr" where
  "deftmr_wait K dev time h =
     (case timercs h dev of
        None \<Rightarrow> (0, h\<lparr>null_deref := True\<rparr>)
      | Some c \<Rightarrow>
          let o1 = os_untimeout K (timeout_id c) (os h);
              t = wait_ticks (tick_scale h) time (start_time c) (os_jiffies K o1)
          in if t < 0 then (1, h\<lparr>os := o1\<rparr>)
             else let (i, o2) = os_timeout K dev t o1
                  in (0, h\<lparr>os := o2, timercs := (timercs h)(dev \<mapsto> c\<lparr>timeout_id := i\<rparr>)\<rparr>))"

definition deftmr_get_current_time :: "'o os_clock \<Rightarrow> int \<Rightarrow> 'o deftmr \<Rightarrow> u64" where
  "deftmr_get_current_time K dev h =
     (case timercs h dev of
        None \<Rightarrow> 0
      | Some c \<Rightarrow>
          let t = os_jiffies K (os h)
          in if t < start_time c then 0 else (t - start_time c) * tick_scale h)"

definition default_midi_driver :: "'o os_clock \<Rightarrow> 'o deftmr timer_ops" where
  "default_midi_driver K = \<lparr>op_create_instance = Some (deftmr_create_instance K),
     op_free_instance = Some (deftmr_free_instance K), op_attach_client = Some deftmr_attach_client,
     op_detach_client = Some deftmr_detach_client, op_wait = Some (deftmr_wait K),
     op_get_current_time = Some (deftmr_get_current_time K), op_set_tempo = Some deftmr_set_tempo,
     op_set_timebase = Some deftmr_set_timebase, op_start = Some (deftmr_start K), op_stop = Some (deftmr_stop K)\<rparr>"

definition attach_oss_default_timer :: "'o os_clock \<Rightarrow> bool \<Rightarrow> 'o deftmr timer_sys \<Rightarrow> 'o deftmr timer_sys" where
  "attach_oss_default_timer K malloc_ok s =
     (let s = s\<lparr>hw := (hw s)\<lparr>tick_scale := word_of_int (1000000 div hz s)\<rparr>\<rparr>
      in snd (oss_install_timer s OSS_TIMER_DRIVER_VERSION ''System timer'' (default_midi_driver K) True 0 16
                (1000000 div hz s) malloc_ok))"

end
