(* ===== verification/Midi_Timers_Laws.thy ===== *)
theory Midi_Timers_Laws
  imports Default_Timer
begin

text \<open>
  Properties of the MIDI timers: the tables stay consistent under every operation whatever the
  driver and the callbacks do, a wake-up request leaves the driver armed for the earliest time,
  and the arithmetic faults of the conversions between MIDI time and microseconds.
\<close>

section \<open>The table invariant\<close>

definition uses :: "int \<Rightarrow> tdev option \<Rightarrow> int" where
  "uses d x = (case x of None \<Rightarrow> 0 | Some t \<Rightarrow> of_bool (driver_dev t = d))"

fun uses_in :: "int \<Rightarrow> tdev option list \<Rightarrow> int" where
  "uses_in d [] = 0"
| "uses_in d (x # xs) = uses d x + uses_in d xs"

lemma uses_in_update: "i < length xs \<Longrightarrow> uses_in d (xs[i := x]) = uses_in d xs - uses d (xs ! i) + uses d x"
  by (induction xs arbitrary: i) (auto split: nat.splits)

lemma uses_in_snoc: "uses_in d (xs @ [x]) = uses_in d xs + uses d x"
  by (induction xs) auto

lemma uses_nonneg [simp]: "0 \<le> uses d x"
  by (auto simp: uses_def split: option.splits)

lemma uses_in_nonneg [simp]: "0 \<le> uses_in d xs"
  by (induction xs) auto

lemma uses_in_zero: "\<forall>x\<in>set xs. uses d x = 0 \<Longrightarrow> uses_in d xs = 0"
  by (induction xs) auto

definition tdev_ok :: "nat \<Rightarrow> nat \<Rightarrow> tdev \<Rightarrow> bool" where
  "tdev_ok k n t \<longleftrightarrow> timer_dev t = int n \<and> 0 \<le> driver_dev t \<and> nat (driver_dev t) < k \<and>
     length (midi_times t) = MAX_MIDI_DEV \<and> length (midi_ticks t) = MAX_MIDI_DEV"

definition slots_ok :: "nat \<Rightarrow> tdev option list \<Rightarrow> bool" where
  "slots_ok k xs \<longleftrightarrow> (\<forall>n < length xs. \<forall>t. xs ! n = Some t \<longrightarrow> tdev_ok k n t)"

definition counts_ok :: "tdev option list \<Rightarrow> 'h timer_driver list \<Rightarrow> bool" where
  "counts_ok xs ds \<longleftrightarrow> (\<forall>d < length ds. num_instances (ds ! d) = uses_in (int d) xs \<and>
     num_instances (ds ! d) \<le> max 0 (max_instances (ds ! d)))"

definition timer_inv :: "'h timer_sys \<Rightarrow> bool" where
  "timer_inv s \<longleftrightarrow> int (length (timer_devs s)) \<le> MAX_TIMER_DEV \<and> int (length (timer_drivers s)) \<le> MAX_TIMER_DEV \<and>
     slots_ok (length (timer_drivers s)) (timer_devs s) \<and> counts_ok (timer_devs s) (timer_drivers s)"

lemma slots_update: "slots_ok k xs \<Longrightarrow> (\<And>t. x = Some t \<Longrightarrow> tdev_ok k i t) \<Longrightarrow> slots_ok k (xs[i := x])"
  unfolding slots_ok_def
proof (intro allI impI)
  fix n t
  assume a: "\<forall>n<length xs. \<forall>t. xs ! n = Some t \<longrightarrow> tdev_ok k n t" "\<And>t. x = Some t \<Longrightarrow> tdev_ok k i t"
    "n < length (xs[i := x])" "xs[i := x] ! n = Some t"
  then show "tdev_ok k n t" by (cases "i = n") simp_all
qed

lemma slots_snoc: "slots_ok k xs \<Longrightarrow> slots_ok k (xs @ [None])"
  by (auto simp: slots_ok_def nth_append split: if_splits)

lemma slots_more: "slots_ok k xs \<Longrightarrow> k \<le> m \<Longrightarrow> slots_ok m xs"
  by (fastforce simp: slots_ok_def tdev_ok_def)

lemma inv_hw [simp]: "timer_inv (s\<lparr>hw := h\<rparr>) = timer_inv s"
  by (simp add: timer_inv_def)

lemma get_timer_hw [simp]: "get_timer (s\<lparr>hw := h\<rparr>) n = get_timer s n"
  by (simp add: get_timer_def)

lemma get_driver_hw [simp]: "get_driver (s\<lparr>hw := h\<rparr>) n = get_driver s n"
  by (simp add: get_driver_def)

lemma ops_of_hw [simp]: "ops_of (s\<lparr>hw := h\<rparr>) t = ops_of s t"
  by (simp add: ops_of_def)

lemma get_timer_SomeD:
  assumes "get_timer s dev = Some t"
  shows "0 \<le> dev" and "dev < num_timers s" and "timer_devs s ! nat dev = Some t" and "nat dev < length (timer_devs s)"
  using assms by (auto simp: get_timer_def split: if_splits)

lemma inv_get:
  assumes "timer_inv s" and "get_timer s dev = Some t"
  shows "tdev_ok (length (timer_drivers s)) (nat dev) t"
  using assms(1) get_timer_SomeD[OF assms(2)] by (simp add: timer_inv_def slots_ok_def)

lemma get_set_timer [simp]:
  "get_timer s dev = Some t \<Longrightarrow> get_timer (set_timer dev x s) dev = x"
  using get_timer_SomeD[of s dev t] by (simp add: get_timer_def set_timer_def)

lemma set_timer_simps [simp]:
  "hw (set_timer dev x s) = hw s" "num_mididevs (set_timer dev x s) = num_mididevs s" "hz (set_timer dev x s) = hz s"
  "get_driver (set_timer dev x s) n = get_driver s n" "timer_drivers (set_timer dev x s) = timer_drivers s"
  "length (timer_devs (set_timer dev x s)) = length (timer_devs s)"
  "set_timer dev x (set_timer dev y s) = set_timer dev x s"
  "ops_of (set_timer dev x s) t = ops_of s t"
  by (simp_all add: set_timer_def get_driver_def ops_of_def)

text \<open>A change of the fields the invariant does not mention.\<close>

definition same_shape :: "tdev \<Rightarrow> tdev \<Rightarrow> bool" where
  "same_shape t t' \<longleftrightarrow> driver_dev t' = driver_dev t \<and> timer_dev t' = timer_dev t \<and>
     length (midi_times t') = length (midi_times t) \<and> length (midi_ticks t') = length (midi_ticks t)"

lemma inv_set_same:
  assumes "timer_inv s" and "get_timer s dev = Some t" and "same_shape t t'"
  shows "timer_inv (set_timer dev (Some t') s)"
proof -
  note g = get_timer_SomeD[OF assms(2)]
  have "uses d (Some t') = uses d (Some t)" for d using assms(3) by (simp add: uses_def same_shape_def)
  then have u: "uses_in d ((timer_devs s)[nat dev := Some t']) = uses_in d (timer_devs s)" for d
    using g by (simp add: uses_in_update)
  have "tdev_ok (length (timer_drivers s)) (nat dev) t'"
    using inv_get[OF assms(1,2)] assms(3) by (simp add: tdev_ok_def same_shape_def)
  then have "slots_ok (length (timer_drivers s)) ((timer_devs s)[nat dev := Some t'])"
    using assms(1) by (auto simp: timer_inv_def intro: slots_update)
  moreover have "counts_ok ((timer_devs s)[nat dev := Some t']) (timer_drivers s)"
    using assms(1) by (auto simp: timer_inv_def counts_ok_def u)
  ultimately show ?thesis using assms(1) by (simp add: timer_inv_def set_timer_def)
qed

lemma same_shape_simps:
  "same_shape t t" "same_shape t (t\<lparr>run_state := r, tmr_callback := c\<rparr>)" "same_shape t (t\<lparr>run_state := r\<rparr>)"
  "same_shape t (t\<lparr>tmr_callback := c\<rparr>)" "same_shape t (t\<lparr>timebase := tb\<rparr>)"
  by (simp_all add: same_shape_def)

lemma get_driver_add:
  assumes "0 \<le> d" and "nat d < length (timer_drivers s)"
  shows "get_driver (add_instances d k s) d = (get_driver s d)\<lparr>num_instances := num_instances (get_driver s d) + k\<rparr>"
    and "timer_devs (add_instances d k s) = timer_devs s"
    and "length (timer_drivers (add_instances d k s)) = length (timer_drivers s)"
    and "hw (add_instances d k s) = hw s"
  using assms by (simp_all add: get_driver_def add_instances_def)

lemma add_back:
  assumes "0 \<le> d" and "nat d < length (timer_drivers s)"
  shows "add_instances d (- k) (add_instances d k s) = s"
  using assms by (simp add: add_instances_def get_driver_def)

lemma add_set_commute: "add_instances d k (set_timer n x s) = set_timer n x (add_instances d k s)"
  by (simp add: add_instances_def set_timer_def get_driver_def)

lemma add_hw_commute: "add_instances d k (s\<lparr>hw := h\<rparr>) = (add_instances d k s)\<lparr>hw := h\<rparr>"
  by (simp add: add_instances_def get_driver_def)

lemma inv_driver:
  assumes "timer_inv s" and "get_timer s dev = Some t"
  shows "0 \<le> driver_dev t" and "nat (driver_dev t) < length (timer_drivers s)"
  using inv_get[OF assms] by (simp_all add: tdev_ok_def)

text \<open>Adding an instance to an empty slot, or removing one, together with the count.\<close>

lemma inv_add_slot:
  assumes "timer_inv s" and "0 \<le> n" and "n < num_timers s" and "timer_devs s ! nat n = None"
    and "0 \<le> d" and "nat d < length (timer_drivers s)"
    and "num_instances (get_driver s d) < max_instances (get_driver s d)"
  shows "timer_inv (set_timer n (Some (fresh_tdev d n)) (add_instances d 1 s))"
proof -
  have l: "nat n < length (timer_devs s)" using assms(2,3) by simp
  have u: "uses_in e ((timer_devs s)[nat n := Some (fresh_tdev d n)]) = uses_in e (timer_devs s) + of_bool (d = e)" for e
    using assms(4) l by (simp add: uses_in_update uses_def fresh_tdev_def)
  have "tdev_ok (length (timer_drivers s)) (nat n) (fresh_tdev d n)"
    using assms by (simp add: tdev_ok_def fresh_tdev_def MAX_MIDI_DEV_def)
  then have "slots_ok (length (timer_drivers s)) ((timer_devs s)[nat n := Some (fresh_tdev d n)])"
    using assms(1) by (auto simp: timer_inv_def intro: slots_update)
  moreover have "counts_ok ((timer_devs s)[nat n := Some (fresh_tdev d n)])
      ((timer_drivers s)[nat d := (get_driver s d)\<lparr>num_instances := num_instances (get_driver s d) + 1\<rparr>])"
    using assms(1,5-7) u by (auto simp: timer_inv_def counts_ok_def nth_list_update get_driver_def)
  ultimately show ?thesis using assms(1)
    by (simp add: timer_inv_def set_timer_def add_instances_def)
qed

lemma inv_drop_slot:
  assumes "timer_inv s" and "get_timer s n = Some t"
  shows "timer_inv (add_instances (driver_dev t) (- 1) (set_timer n None s))"
    and "0 \<le> num_instances (get_driver (add_instances (driver_dev t) (- 1) (set_timer n None s)) (driver_dev t))"
proof -
  note g = get_timer_SomeD[OF assms(2)] and d = inv_driver[OF assms]
  have u: "uses_in e ((timer_devs s)[nat n := None]) = uses_in e (timer_devs s) - of_bool (driver_dev t = e)" for e
    using g by (simp add: uses_in_update uses_def)
  have "slots_ok (length (timer_drivers s)) ((timer_devs s)[nat n := None])"
    using assms(1) by (auto simp: timer_inv_def intro: slots_update)
  moreover have c: "counts_ok ((timer_devs s)[nat n := None])
      ((timer_drivers s)[nat (driver_dev t) := (get_driver s (driver_dev t))\<lparr>num_instances :=
         num_instances (get_driver s (driver_dev t)) - 1\<rparr>])"
    using assms(1) d u by (auto simp: timer_inv_def counts_ok_def nth_list_update get_driver_def)
  ultimately show "timer_inv (add_instances (driver_dev t) (- 1) (set_timer n None s))"
    using assms(1) by (simp add: timer_inv_def set_timer_def add_instances_def get_driver_def)
  have "num_instances (get_driver s (driver_dev t)) - 1 = uses_in (driver_dev t) ((timer_devs s)[nat n := None])"
    using c d by (auto simp: counts_ok_def get_driver_def dest!: spec[of _ "nat (driver_dev t)"])
  then show "0 \<le> num_instances (get_driver (add_instances (driver_dev t) (- 1) (set_timer n None s)) (driver_dev t))"
    using d by (simp add: get_driver_add)
qed

section \<open>Every operation keeps the invariant\<close>

lemma inv_install: "timer_inv s \<Longrightarrow> timer_inv (snd (oss_install_timer s v name d size_ok flags mx res ok))"
proof -
  assume inv: "timer_inv s"
  have "uses_in (int (length (timer_drivers s))) (timer_devs s) = 0"
  proof -
    have "\<forall>x\<in>set (timer_devs s). uses (int (length (timer_drivers s))) x = 0"
    proof
      fix x assume "x \<in> set (timer_devs s)"
      then obtain n where n: "n < length (timer_devs s)" "timer_devs s ! n = x" by (auto simp: in_set_conv_nth)
      show "uses (int (length (timer_drivers s))) x = 0"
        using inv n by (cases x) (auto simp: uses_def timer_inv_def slots_ok_def tdev_ok_def)
    qed
    then show ?thesis by (rule uses_in_zero)
  qed
  moreover have "slots_ok (Suc (length (timer_drivers s))) (timer_devs s)"
    using inv by (auto simp: timer_inv_def intro: slots_more)
  ultimately have "counts_ok (timer_devs s) (timer_drivers s @
      [\<lparr>drv_ops = d, drv_name = take 63 name, drv_flags = flags, max_instances = mx, num_instances = 0, resolution = res\<rparr>])"
    "slots_ok (Suc (length (timer_drivers s))) (timer_devs s)"
    using inv by (auto simp: timer_inv_def counts_ok_def nth_append less_Suc_eq)
  then show ?thesis using inv by (simp add: oss_install_timer_def timer_inv_def)
qed

lemma free_timer_bound:
  "free_timer xs i = - 1 \<or> i \<le> free_timer xs i \<and> nat (free_timer xs i - i) < length xs \<and>
     xs ! nat (free_timer xs i - i) = None" if "0 \<le> i"
  using that
proof (induction xs arbitrary: i)
  case Nil
  then show ?case by simp
next
  case (Cons x xs)
  show ?case
  proof (cases "x = None")
    case True
    then show ?thesis by simp
  next
    case False
    define f where "f = free_timer xs (i + 1)"
    have "f = - 1 \<or> i + 1 \<le> f \<and> nat (f - (i + 1)) < length xs \<and> xs ! nat (f - (i + 1)) = None"
      using Cons.IH[of "i + 1"] Cons.prems by (simp add: f_def)
    moreover have "nat (f - i) = Suc (nat (f - (i + 1)))" if "i + 1 \<le> f" using that by simp
    ultimately show ?thesis using False by (auto simp: f_def[symmetric])
  qed
qed

lemma add_devs_commute:
  "(add_instances d k s)\<lparr>timer_devs := xs\<rparr> = add_instances d k (s\<lparr>timer_devs := xs\<rparr>)"
  by (cases s) (simp add: add_instances_def get_driver_def)

lemma get_driver_devs: "get_driver (s\<lparr>timer_devs := xs\<rparr>) d = get_driver s d"
  by (simp add: get_driver_def)

lemma inv_create:
  assumes "timer_inv s"
  shows "timer_inv (snd (oss_timer_create_instance s drv ok))"
proof (cases "drv < 0 \<or> int (length (timer_drivers s)) \<le> drv \<or>
    max_instances (get_driver s drv) \<le> num_instances (get_driver s drv)")
  case True
  then show ?thesis using assms by (auto simp: oss_timer_create_instance_def)
next
  case False
  then have d: "0 \<le> drv" "nat drv < length (timer_drivers s)"
    "num_instances (get_driver s drv) < max_instances (get_driver s drv)" by auto
  define num where "num = free_timer (timer_devs s) 0"
  define s1 where "s1 = (if num = - 1 then s\<lparr>timer_devs := timer_devs s @ [None]\<rparr> else s)"
  define n1 where "n1 = (if num = - 1 then num_timers s else num)"
  have e: "oss_timer_create_instance s drv ok =
    (if \<not> ok then (Inl OSS_ENOMEM, s)
     else if num = - 1 \<and> MAX_TIMER_DEV \<le> num_timers s then (Inl OSS_EBUSY, s)
     else let s2 = set_timer n1 (Some (fresh_tdev drv n1)) (add_instances drv 1 s1)
          in case op_create_instance (drv_ops (get_driver s2 drv)) of
               None \<Rightarrow> (Inr n1, s2)
             | Some f \<Rightarrow> let (err, h) = f n1 drv (hw s2); s3 = s2\<lparr>hw := h\<rparr>
                 in if failed err then (err, add_instances drv (- 1) (set_timer n1 None s3)) else (Inr n1, s3))"
    using False d unfolding n1_def s1_def
    by (cases "num = - 1") (simp_all add: oss_timer_create_instance_def Let_def add_back num_def[symmetric]
        get_driver_add add_devs_commute get_driver_devs split: option.splits)
  show ?thesis
  proof (cases "\<not> ok \<or> num = - 1 \<and> MAX_TIMER_DEV \<le> num_timers s")
    case True
    then show ?thesis using e assms by auto
  next
    case False
    have free: "num = - 1 \<or> 0 \<le> num \<and> nat num < length (timer_devs s) \<and> timer_devs s ! nat num = None"
      using free_timer_bound[of 0 "timer_devs s"] by (simp add: num_def)
    have "counts_ok (timer_devs s @ [None]) (timer_drivers s)"
      using assms by (auto simp: timer_inv_def counts_ok_def uses_in_snoc uses_def)
    then have i1: "timer_inv s1"
      using assms False slots_snoc by (auto simp: s1_def timer_inv_def)
    have b: "0 \<le> n1" "n1 < num_timers s1" "timer_devs s1 ! nat n1 = None"
      using free by (auto simp: n1_def s1_def nth_append)
    have dr: "timer_drivers s1 = timer_drivers s" "get_driver s1 drv = get_driver s drv"
      by (simp_all add: s1_def get_driver_def)
    define s2 where "s2 = set_timer n1 (Some (fresh_tdev drv n1)) (add_instances drv 1 s1)"
    have i2: "timer_inv s2"
      using inv_add_slot[OF i1 b d(1)] d dr by (simp add: s2_def)
    have g: "get_timer s2 n1 = Some (fresh_tdev drv n1)"
      using b by (simp add: get_timer_def s2_def set_timer_def add_instances_def)
    have i3: "timer_inv (add_instances drv (- 1) (set_timer n1 None (s2\<lparr>hw := h\<rparr>)))" for h
      using inv_drop_slot(1)[of "s2\<lparr>hw := h\<rparr>" n1 "fresh_tdev drv n1"] i2 g by (simp add: fresh_tdev_def)
    show ?thesis
      using e False i2 i3 by (auto simp: Let_def s2_def[symmetric] split: option.splits prod.splits)
  qed
qed

lemma inv_attach:
  assumes "timer_inv s"
  shows "timer_inv (snd (oss_timer_attach_client s dev m))"
proof (cases "get_timer s dev")
  case None
  then show ?thesis using assms by (simp add: oss_timer_attach_client_def)
next
  case (Some t)
  define t' where "t' = t\<lparr>refcount := refcount t + 1, midimap := midimap t OR push_bit (nat m) 1,
      midi_times := (midi_times t)[nat m := 0]\<rparr>"
  have "timer_inv (set_timer dev (Some t') (s\<lparr>hw := h\<rparr>))" for h
    using inv_set_same[of "s\<lparr>hw := h\<rparr>" dev t t'] assms Some by (simp add: t'_def same_shape_def)
  then show ?thesis
    using assms Some inv_set_same[OF assms Some, of t']
    by (auto simp: oss_timer_attach_client_def Let_def t'_def[symmetric] same_shape_def failed_def t'_def
        split: option.splits prod.splits)
qed

lemma inv_stop:
  assumes "timer_inv s"
  shows "timer_inv (oss_timer_stop s dev)"
proof (cases "get_timer s dev")
  case None
  then show ?thesis using assms by (simp add: oss_timer_stop_def)
next
  case (Some t)
  have "timer_inv (set_timer dev (Some (t\<lparr>run_state := 0, tmr_callback := None\<rparr>)) (s\<lparr>hw := h\<rparr>))" for h
    using inv_set_same[of "s\<lparr>hw := h\<rparr>" dev t] assms Some by (simp add: same_shape_simps)
  moreover have "timer_inv (set_timer dev (Some (t\<lparr>run_state := 0, tmr_callback := None\<rparr>)) s)"
    using inv_set_same[OF assms Some] by (simp add: same_shape_simps)
  ultimately show ?thesis using Some by (simp add: oss_timer_stop_def Let_def split: option.splits)
qed

lemma stop_keeps:
  assumes "get_timer s dev = Some t"
  shows "get_timer (oss_timer_stop s dev) dev = Some (t\<lparr>run_state := 0, tmr_callback := None\<rparr>)"
proof -
  have "get_timer (set_timer dev x (s\<lparr>hw := h\<rparr>)) dev = x" for x h
    using assms by (intro get_set_timer[of _ _ t]) simp
  moreover have "get_timer (set_timer dev x s) dev = x" for x using assms by simp
  ultimately show ?thesis using assms by (simp add: oss_timer_stop_def Let_def split: option.splits)
qed

lemma inv_detach:
  assumes "timer_inv s"
  shows "timer_inv (oss_timer_detach_client s dev m)"
proof (cases "get_timer s dev")
  case None
  then show ?thesis using assms by (simp add: oss_timer_detach_client_def)
next
  case (Some t)
  define s1 where "s1 = (case op_detach_client (ops_of s t) of None \<Rightarrow> s | Some f \<Rightarrow> s\<lparr>hw := f dev m (hw s)\<rparr>)"
  define t1 where "t1 = t\<lparr>refcount := refcount t - 1, midimap := midimap t AND NOT (push_bit (nat m) 1),
      midi_times := (midi_times t)[nat m := 0]\<rparr>"
  define s2 where "s2 = set_timer dev (Some t1) s1"
  define s3 where "s3 = oss_timer_stop s2 dev"
  define s4 where "s4 = (case op_free_instance (ops_of s3 t1) of None \<Rightarrow> s3 | Some f \<Rightarrow> s3\<lparr>hw := f dev (driver_dev t1) (hw s3)\<rparr>)"
  define s5 where "s5 = add_instances (driver_dev t1) (- 1) (set_timer dev None s4)"
  have e: "oss_timer_detach_client s dev m = (if refcount t1 \<le> 0
      then (let n = num_instances (get_driver s5 (driver_dev t1))
            in if n < 0 then add_instances (driver_dev t1) (- n) s5 else s5) else s2)"
    by (simp only: oss_timer_detach_client_def Some option.case Let_def s1_def t1_def s2_def s3_def s4_def s5_def)
  have g1: "get_timer s1 dev = Some t" "timer_inv s1" using Some assms by (auto simp: s1_def split: option.splits)
  have i2: "timer_inv s2" using inv_set_same[OF g1(2,1), of t1] by (simp add: s2_def t1_def same_shape_def)
  have g2: "get_timer s2 dev = Some t1" using g1(1) by (simp add: s2_def)
  have i3: "timer_inv s3" using inv_stop[OF i2] by (simp add: s3_def)
  have g3: "get_timer s3 dev = Some (t1\<lparr>run_state := 0, tmr_callback := None\<rparr>)"
    using stop_keeps[OF g2] by (simp add: s3_def)
  have i4: "timer_inv s4" and g4: "get_timer s4 dev = Some (t1\<lparr>run_state := 0, tmr_callback := None\<rparr>)"
    using i3 g3 by (auto simp: s4_def split: option.splits)
  have "timer_inv s5" "0 \<le> num_instances (get_driver s5 (driver_dev t1))"
    using inv_drop_slot[OF i4 g4] by (simp_all add: s5_def)
  then show ?thesis using e i2 by (auto simp: Let_def)
qed

text \<open>What the invariant needs of the callbacks.\<close>

definition keeps_inv :: "(cb_id \<Rightarrow> nat \<Rightarrow> 'h timer_sys \<Rightarrow> 'h timer_sys option) \<Rightarrow> bool" where
  "keeps_inv fire \<longleftrightarrow> (\<forall>cb i s s'. timer_inv s \<longrightarrow> fire cb i s = Some s' \<longrightarrow> timer_inv s')"

lemma keeps_invD: "keeps_inv fire \<Longrightarrow> timer_inv s \<Longrightarrow> fire cb i s = Some s' \<Longrightarrow> timer_inv s'"
  by (auto simp: keeps_inv_def)

lemma fire_due_inv:
  assumes "keeps_inv fire"
  shows "timer_inv s \<Longrightarrow> fire_due fire dev t is s = Some s' \<Longrightarrow> timer_inv s'"
proof (induction "is" arbitrary: s)
  case Nil
  then show ?case by simp
next
  case (Cons i "is")
  obtain tmr where tmr: "get_timer s dev = Some tmr" using Cons.prems(2) by (auto split: option.splits)
  define s1 where "s1 = set_timer dev (Some (tmr\<lparr>midi_times := (midi_times tmr)[i := 0]\<rparr>)) s"
  have "timer_inv s1" using inv_set_same[OF Cons.prems(1) tmr] by (simp add: s1_def same_shape_def)
  note s1 = this
  show ?case
  proof (cases "linked tmr i \<and> 0 < midi_times tmr ! i \<and> midi_times tmr ! i \<le> t")
    case False
    then have "fire_due fire dev t is s = Some s'" using Cons.prems(2) tmr by (auto split: if_splits)
    then show ?thesis using Cons.IH[OF Cons.prems(1)] by simp
  next
    case True
    show ?thesis
    proof (cases "tmr_callback tmr")
      case None
      then have "fire_due fire dev t is s1 = Some s'" using Cons.prems(2) tmr True by (simp add: Let_def s1_def)
      then show ?thesis using Cons.IH[OF s1] by simp
    next
      case (Some cb)
      then obtain s2 where "fire cb i s1 = Some s2" "fire_due fire dev t is s2 = Some s'"
        using Cons.prems(2) tmr True by (auto simp: Let_def s1_def bind_eq_Some_conv)
      then show ?thesis using Cons.IH keeps_invD[OF assms s1] by blast
    qed
  qed
qed

lemma default_tempo_shape: "same_shape t (default_tempo s t)"
  by (simp add: default_tempo_def same_shape_def Let_def)

lemma update_callback_inv_both:
  assumes f: "keeps_inv fire"
  shows "(\<forall>s r s'. timer_inv s \<longrightarrow> update_timer_state n fire dev s = Some (r, s') \<longrightarrow> timer_inv s') \<and>
    (\<forall>s s'. timer_inv s \<longrightarrow> timer_callback n fire dev s = Some s' \<longrightarrow> timer_inv s')"
proof (induction n)
  case 0
  show ?case by simp
next
  case (Suc n)
  show ?case
  proof (intro conjI allI impI)
    fix s r s'
    assume i: "timer_inv s" and u: "update_timer_state (Suc n) fire dev s = Some (r, s')"
    obtain tmr where tmr: "get_timer s dev = Some tmr" using u by (auto split: option.splits)
    obtain t tick where mt: "min_time (default_tempo s tmr) (scan_range s (default_tempo s tmr)) (LARGEST_TIME, 0) = (t, tick)"
      by fastforce
    have a: "timer_inv (set_timer dev (Some (default_tempo s tmr)) s)"
      using inv_set_same[OF i tmr default_tempo_shape] .
    define s1 where "s1 = set_timer dev (Some ((default_tempo s tmr)\<lparr>next_time := t, next_tick := tick\<rparr>)) s"
    have b: "timer_inv s1"
      using inv_set_same[OF i tmr] default_tempo_shape[of tmr s] by (simp add: s1_def same_shape_def)
    define f where "f = op_wait (ops_of s ((default_tempo s tmr)\<lparr>next_time := t, next_tick := tick\<rparr>))"
    have e: "update_timer_state (Suc n) fire dev s = (if t = LARGEST_TIME then Some (1, set_timer dev (Some (default_tempo s tmr)) s)
        else case f of None \<Rightarrow> Some (1, s1)
          | Some f \<Rightarrow> let (state, h) = f (timer_dev (default_tempo s tmr)) t (hw s1); s = s1\<lparr>hw := h\<rparr>
             in if state = 1 then map_option (\<lambda>s. (1, s)) (timer_callback n fire dev s) else Some (0, s))"
      by (simp add: tmr mt Let_def s1_def f_def split: option.split prod.split)
    note u1 = u[unfolded e]
    show "timer_inv s'"
    proof (cases "t = LARGEST_TIME \<or> f = None")
      case True
      then have "s' = set_timer dev (Some (default_tempo s tmr)) s \<or> s' = s1"
        using u1 by (cases "t = LARGEST_TIME") simp_all
      then show ?thesis using a b by auto
    next
      case False
      then obtain g where g: "f = Some g" by auto
      obtain state h where st: "g (timer_dev (default_tempo s tmr)) t (hw s1) = (state, h)" by fastforce
      have b2: "timer_inv (s1\<lparr>hw := h\<rparr>)" using b by simp
      show ?thesis
      proof (cases "state = 1")
        case True
        then obtain s3 where "timer_callback n fire dev (s1\<lparr>hw := h\<rparr>) = Some s3" "s' = s3"
          using u1 \<open>\<not> (t = LARGEST_TIME \<or> f = None)\<close> True g st by (auto simp: Let_def)
        then show ?thesis using Suc.IH b2 by blast
      next
        case False
        then have "s' = s1\<lparr>hw := h\<rparr>" using u1 \<open>\<not> (t = LARGEST_TIME \<or> f = None)\<close> g st by (auto simp: Let_def)
        then show ?thesis using b2 by simp
      qed
    qed
  next
    fix s s'
    assume i: "timer_inv s" and u: "timer_callback (Suc n) fire dev s = Some s'"
    obtain tmr where tmr: "get_timer s dev = Some tmr" using u by (auto split: option.splits)
    define s1 where "s1 = set_timer dev (Some (tmr\<lparr>prev_time := next_time tmr, prev_tick := next_tick tmr\<rparr>)) s"
    have i1: "timer_inv s1" using inv_set_same[OF i tmr] by (simp add: same_shape_def s1_def)
    have "Option.bind (fire_due fire dev (next_time tmr) (scan_range s1 tmr) s1)
        (\<lambda>s. map_option snd (update_timer_state n fire dev s)) = Some s'"
      using u by (simp only: timer_callback.simps tmr option.case Let_def s1_def)
    then obtain s2 s3 r where "fire_due fire dev (next_time tmr) (scan_range s1 tmr) s1 = Some s2"
      "update_timer_state n fire dev s2 = Some (r, s3)" "s' = s3"
      by (auto simp: bind_eq_Some_conv)
    then show "timer_inv s'" using Suc.IH fire_due_inv[OF f i1] by blast
  qed
qed

lemma update_callback_inv:
  assumes "keeps_inv fire" and "timer_inv s"
  shows "update_timer_state n fire dev s = Some (r, s') \<Longrightarrow> timer_inv s'"
    and "timer_callback n fire dev s = Some s' \<Longrightarrow> timer_inv s'"
  using update_callback_inv_both[OF assms(1), of n dev] assms(2) by blast+

lemma inv_start: "timer_inv s \<Longrightarrow> timer_inv (oss_timer_start s dev)"
proof (cases "get_timer s dev")
  case (Some t)
  assume i: "timer_inv s"
  show ?thesis using inv_set_same[OF i Some] Some
    by (simp add: oss_timer_start_def Let_def same_shape_def split: option.splits)
qed (simp add: oss_timer_start_def)

lemma inv_continue: "timer_inv s \<Longrightarrow> timer_inv (oss_timer_continue s dev)"
  using inv_set_same[of s dev] by (auto simp: oss_timer_continue_def same_shape_simps split: option.splits)

lemma inv_set_tempo: "timer_inv s \<Longrightarrow> timer_inv (snd (oss_timer_set_tempo s dev v))"
proof (cases "get_timer s dev")
  case (Some t)
  assume i: "timer_inv s"
  show ?thesis using inv_set_same[OF i Some] Some
    by (simp add: oss_timer_set_tempo_def Let_def same_shape_def split: option.splits prod.splits)
qed (simp add: oss_timer_set_tempo_def)

lemma inv_set_timebase: "timer_inv s \<Longrightarrow> timer_inv (snd (oss_timer_set_timebase s dev v))"
proof (cases "get_timer s dev")
  case (Some t)
  assume i: "timer_inv s"
  show ?thesis using inv_set_same[OF i Some] Some i
    by (simp add: oss_timer_set_timebase_def Let_def same_shape_def split: option.splits prod.splits)
qed (simp add: oss_timer_set_timebase_def)

lemma inv_wait_time:
  assumes f: "keeps_inv fire"
    and i: "timer_inv s" and w: "oss_timer_wait_time n fire s dev m lat time cb opts = Some (r, s')"
  shows "timer_inv s'"
proof (cases "time = 0 \<or> dev < 0 \<or> num_timers s \<le> dev \<or> m < 0 \<or> num_mididevs s \<le> m \<or> get_timer s dev = None")
  case True
  then show ?thesis using i w by (auto simp: oss_timer_wait_time_def split: if_splits)
next
  case False
  then obtain tmr where tmr: "get_timer s dev = Some tmr" by auto
  define s1 where "s1 = set_timer dev (Some (tmr\<lparr>tmr_callback := cb\<rparr>)) s"
  define s2 where "s2 = (if run_state tmr = 0 then oss_timer_start s1 dev else s1)"
  have i1: "timer_inv s1" using inv_set_same[OF i tmr] by (simp add: s1_def same_shape_simps)
  then have i2: "timer_inv s2" using inv_start[OF i1] by (simp add: s2_def)
  have w2: "(case get_timer s2 dev of None \<Rightarrow> None
      | Some tmr \<Rightarrow> case wait_deadline tmr lat time opts of None \<Rightarrow> None
        | Some (tick, t) \<Rightarrow> if t \<le> prev_time tmr then Some (1, s2)
            else update_timer_state n fire dev (set_timer dev (Some (tmr\<lparr>midi_times := (midi_times tmr)[nat m := t],
                   midi_ticks := (midi_ticks tmr)[nat m := ucast tick]\<rparr>)) s2)) = Some (r, s')"
  proof -
    have c: "(time = 0) = False" "(dev < 0 \<or> num_timers s \<le> dev) = False" "(m < 0 \<or> num_mididevs s \<le> m) = False"
      using False by auto
    show ?thesis
      using w by (simp only: oss_timer_wait_time_def c if_False tmr option.case Let_def s1_def s2_def)
  qed
  then obtain tm2 where t2: "get_timer s2 dev = Some tm2" by (auto split: option.splits)
  obtain tick t where d: "wait_deadline tm2 lat time opts = Some (tick, t)"
    using w2 t2 by (auto split: option.splits)
  have "timer_inv (set_timer dev (Some (tm2\<lparr>midi_times := (midi_times tm2)[nat m := t],
      midi_ticks := (midi_ticks tm2)[nat m := ucast tick]\<rparr>)) s2)"
    using inv_set_same[OF i2 t2] by (simp add: same_shape_def)
  from update_callback_inv(1)[OF f this] show ?thesis
    using w2 t2 d i2 by (auto split: if_splits)
qed

text \<open>C22: Every operation of the timer core keeps its tables consistent, whatever the drivers do and
  for every callback that respects them: an instance knows its own index and a registered
  driver, every driver's count of instances is the number of instances that exist and never
  exceeds its maximum, and the tables stay within their bounds. Failed creations give the
  instance count back.\<close>

theorem timer_tables_consistent:
  assumes "timer_inv s" and "keeps_inv fire"
  shows "timer_inv (snd (oss_install_timer s v name d size_ok flags mx res ok)) \<and>
    timer_inv (snd (oss_timer_create_instance s drv ok)) \<and>
    timer_inv (snd (oss_timer_attach_client s dev m)) \<and>
    timer_inv (oss_timer_detach_client s dev m) \<and>
    timer_inv (snd (oss_timer_set_tempo s dev k)) \<and> timer_inv (snd (oss_timer_set_timebase s dev k)) \<and>
    timer_inv (oss_timer_start s dev) \<and> timer_inv (oss_timer_continue s dev) \<and> timer_inv (oss_timer_stop s dev) \<and>
    (\<forall>r s'. oss_timer_wait_time n fire s dev m lat time cb opts = Some (r, s') \<longrightarrow> timer_inv s') \<and>
    (\<forall>s'. timer_callback n fire dev s = Some s' \<longrightarrow> timer_inv s')"
  by (intro conjI allI impI inv_install inv_create inv_attach inv_detach inv_set_tempo inv_set_timebase inv_start
      inv_continue inv_stop assms(1); erule inv_wait_time[OF assms(2,1)] update_callback_inv(2)[OF assms(2,1)])

text \<open>A system with one driver that keeps no state and one instance.\<close>

definition plain_ops :: "nat timer_ops" where
  "plain_ops = \<lparr>op_create_instance = None, op_free_instance = None, op_attach_client = None,
     op_detach_client = None, op_wait = Some (\<lambda>d t h. (0, h)), op_get_current_time = Some (\<lambda>d h. word_of_nat h),
     op_set_tempo = None, op_set_timebase = None, op_start = None, op_stop = None\<rparr>"

definition one_timer :: "nat timer_sys" where
  "one_timer = \<lparr>timer_devs = [Some ((fresh_tdev 0 0)\<lparr>run_state := 1, tempo := 60, timebase := 100, prev_time := 10,
       midimap := 1\<rparr>)],
     timer_drivers = [\<lparr>drv_ops = plain_ops, drv_name = ''test'', drv_flags = 0, max_instances = 4, num_instances = 1,
       resolution = 1\<rparr>],
     num_mididevs = 2, hz = 100, hw = 5000\<rparr>"

lemma one_timer_inv: "timer_inv one_timer"
  by (auto simp: timer_inv_def one_timer_def slots_ok_def tdev_ok_def counts_ok_def fresh_tdev_def uses_def
      MAX_TIMER_DEV_def MAX_MIDI_DEV_def)

lemma one_timer_get: "get_timer one_timer 0 = Some ((fresh_tdev 0 0)\<lparr>run_state := 1, tempo := 60, timebase := 100,
    prev_time := 10, midimap := 1\<rparr>)"
  by (simp add: get_timer_def one_timer_def)

theorem timer_tables_consistent_witness:
  "timer_inv (snd (oss_timer_create_instance one_timer 0 True)) \<and> timer_inv (oss_timer_detach_client one_timer 0 0)"
proof -
  have "keeps_inv (\<lambda>cb i s. Some s)" by (simp add: keeps_inv_def)
  from timer_tables_consistent[OF one_timer_inv this] show ?thesis by blast
qed

section \<open>Arming the driver\<close>

lemma min_time_spec:
  assumes "min_time tmr is r = (t, k)"
  shows "t \<le> fst r \<and> (\<forall>i\<in>set is. linked tmr i \<and> midi_times tmr ! i \<noteq> 0 \<longrightarrow> t \<le> midi_times tmr ! i) \<and>
    ((t, k) = r \<or> (\<exists>i\<in>set is. linked tmr i \<and> midi_times tmr ! i \<noteq> 0 \<and> t = midi_times tmr ! i \<and> k = midi_ticks tmr ! i))"
  using assms
proof (induction "is" arbitrary: r)
  case Nil
  then show ?case by auto
next
  case (Cons i "is")
  define r' where "r' = (if linked tmr i \<and> midi_times tmr ! i \<noteq> 0 \<and> midi_times tmr ! i < fst r
        then (midi_times tmr ! i, midi_ticks tmr ! i) else r)"
  have IH: "t \<le> fst r'" "\<forall>i\<in>set is. linked tmr i \<and> midi_times tmr ! i \<noteq> 0 \<longrightarrow> t \<le> midi_times tmr ! i"
    "(t, k) = r' \<or> (\<exists>i\<in>set is. linked tmr i \<and> midi_times tmr ! i \<noteq> 0 \<and> t = midi_times tmr ! i \<and> k = midi_ticks tmr ! i)"
    using Cons.IH[of r'] Cons.prems by (simp_all add: r'_def)
  have "fst r' \<le> fst r" "linked tmr i \<and> midi_times tmr ! i \<noteq> 0 \<longrightarrow> fst r' \<le> midi_times tmr ! i"
    by (auto simp: r'_def not_less)
  then have "t \<le> fst r" "linked tmr i \<and> midi_times tmr ! i \<noteq> 0 \<longrightarrow> t \<le> midi_times tmr ! i"
    using IH(1) by auto
  moreover have "r' = r \<or> linked tmr i \<and> midi_times tmr ! i \<noteq> 0 \<and> r' = (midi_times tmr ! i, midi_ticks tmr ! i)"
    by (simp add: r'_def)
  ultimately show ?case using IH(2,3) by auto
qed

text \<open>What the timer core relies on to be sure that a request returns: a driver whose \<open>wait\<close> never
  reports a time as over already.\<close>

definition armed :: "tdev \<Rightarrow> bool" where
  "armed t \<longleftrightarrow> (\<forall>i < MAX_MIDI_DEV. linked t i \<and> midi_times t ! i \<noteq> 0 \<longrightarrow> next_time t \<le> midi_times t ! i) \<and>
     (\<exists>i < MAX_MIDI_DEV. linked t i \<and> midi_times t ! i \<noteq> 0 \<and> next_time t = midi_times t ! i \<and> next_tick t = midi_ticks t ! i)"

locale quiet_clock =
  fixes wait :: "int \<Rightarrow> u64 \<Rightarrow> 'h \<Rightarrow> int \<times> 'h"
  assumes never_over: "fst (wait dev t h) \<noteq> 1"
begin

lemma update_arms:
  assumes "get_timer s dev = Some tmr" and "op_wait (ops_of s tmr) = Some wait" and "0 < num_mididevs s"
    and "j < MAX_MIDI_DEV" and "linked tmr j" and "midi_times tmr ! j \<noteq> 0" and "midi_times tmr ! j < LARGEST_TIME"
  shows "\<exists>s' tmr'. update_timer_state (Suc n) fire dev s = Some (0, s') \<and> get_timer s' dev = Some tmr' \<and>
    armed tmr' \<and> midi_times tmr' = midi_times tmr \<and> hw s' = snd (wait (timer_dev tmr) (next_time tmr') (hw s))"
proof -
  define t1 where "t1 = default_tempo s tmr"
  have t1: "midimap t1 = midimap tmr" "midi_times t1 = midi_times tmr" "midi_ticks t1 = midi_ticks tmr"
    "timer_dev t1 = timer_dev tmr" "driver_dev t1 = driver_dev tmr"
    by (simp_all add: t1_def default_tempo_def Let_def)
  have "midimap tmr \<noteq> 0" using assms(5) by (auto simp: linked_def)
  then have r: "scan_range s t1 = [0..<MAX_MIDI_DEV]" using assms(3) t1 by (simp add: scan_range_def)
  obtain t k where m: "min_time t1 [0..<MAX_MIDI_DEV] (LARGEST_TIME, 0) = (t, k)" by fastforce
  note spec = min_time_spec[OF m]
  have "t \<le> midi_times tmr ! j" using spec assms(4-6) t1 by (auto simp: linked_def)
  then have lt: "t \<noteq> LARGEST_TIME" using assms(7) by auto
  define t2 where "t2 = t1\<lparr>next_time := t, next_tick := k\<rparr>"
  have a: "armed t2"
    using spec lt by (auto simp: armed_def t2_def linked_def)
  have o: "op_wait (ops_of s t2) = Some wait" using assms(2) t1 by (simp add: ops_of_def t2_def)
  obtain st h where w: "wait (timer_dev tmr) t (hw s) = (st, h)" by fastforce
  have "st \<noteq> 1" using never_over[of "timer_dev tmr" t "hw s"] w by simp
  then have "update_timer_state (Suc n) fire dev s = Some (0, (set_timer dev (Some t2) s)\<lparr>hw := h\<rparr>)"
    using assms(1) r m lt o w t1 by (simp add: Let_def t1_def[symmetric] t2_def[symmetric]) (simp add: t2_def)
  then show ?thesis
    using assms(1) a t1 w by (simp add: t2_def)
qed

end

interpretation deftmr_clock: quiet_clock "deftmr_wait K" for K :: "'o os_clock"
  by unfold_locales (simp add: deftmr_wait_def Let_def split: option.splits prod.splits)

lemma wait_deadline_callback:
  "wait_deadline (tmr\<lparr>tmr_callback := cb\<rparr>) lat time opts = wait_deadline tmr lat time opts"
  by (cases tmr) (simp only: wait_deadline_def tick_rate_def tdev.simps)

text \<open>A wake-up request on a running instance of the system timer that lies in the future is
  queued for its MIDI device and returns at once; the instance is then armed for the earliest
  of all queued times, with the tick that belongs to it, and the driver has been asked to wait
  for exactly that time.\<close>

theorem timer_wait_arms:
  assumes "timer_inv s" and "get_timer s dev = Some tmr" and "drv_ops (get_driver s (driver_dev tmr)) = default_midi_driver K"
    and "run_state tmr \<noteq> 0" and "0 \<le> m" and "m < num_mididevs s" and "nat m < MAX_MIDI_DEV" and "linked tmr (nat m)"
    and "time \<noteq> 0" and "wait_deadline tmr lat time opts = Some (tick, t)" and "prev_time tmr < t" and "t < LARGEST_TIME"
  shows "\<exists>s' tmr'. oss_timer_wait_time (Suc n) fire s dev m lat time cb opts = Some (0, s') \<and>
    get_timer s' dev = Some tmr' \<and> midi_times tmr' = (midi_times tmr)[nat m := t] \<and> midi_times tmr' ! nat m = t \<and>
    armed tmr' \<and> hw s' = snd (deftmr_wait K dev (next_time tmr') (hw s))"
proof -
  define t1 where "t1 = tmr\<lparr>tmr_callback := cb, midi_times := (midi_times tmr)[nat m := t],
      midi_ticks := (midi_ticks tmr)[nat m := ucast tick]\<rparr>"
  define s1 where "s1 = set_timer dev (Some t1) s"
  have ok: "timer_dev tmr = dev" "length (midi_times tmr) = MAX_MIDI_DEV"
    using inv_get[OF assms(1,2)] get_timer_SomeD(1)[OF assms(2)] by (simp_all add: tdev_ok_def)
  have wd: "wait_deadline (tmr\<lparr>tmr_callback := cb\<rparr>) lat time opts = Some (tick, t)"
    using assms(10) by (simp only: wait_deadline_callback)
  have "t \<noteq> 0" using assms(11) by auto
  have np: "(t \<le> prev_time tmr) = False" using assms(11) by (simp add: not_le)
  have g: "get_timer s1 dev = Some t1" using assms(2) by (simp add: s1_def)
  have "op_wait (ops_of s1 t1) = Some (deftmr_wait K)"
    using assms(3) by (simp add: ops_of_def s1_def t1_def default_midi_driver_def)
  moreover have "linked t1 (nat m)" "midi_times t1 ! nat m = t"
    using assms(7,8) ok by (simp_all add: linked_def t1_def)
  ultimately obtain s' tmr' where u: "update_timer_state (Suc n) fire dev s1 = Some (0, s')"
    "get_timer s' dev = Some tmr'" "armed tmr'" "midi_times tmr' = midi_times t1"
    "hw s' = snd (deftmr_wait K (timer_dev t1) (next_time tmr') (hw s1))"
    using deftmr_clock.update_arms[OF g _ _ assms(7), of K n fire] assms(5,6,12) \<open>t \<noteq> 0\<close> by (auto simp: s1_def)
  have "oss_timer_wait_time (Suc n) fire s dev m lat time cb opts = update_timer_state (Suc n) fire dev s1"
    using assms(2,4-6,9) wd np get_timer_SomeD(1,2)[OF assms(2)]
    by (simp add: oss_timer_wait_time_def Let_def s1_def t1_def del: update_timer_state.simps)
  then show ?thesis using u ok assms(7) by (simp add: t1_def s1_def del: update_timer_state.simps)
qed

text \<open>A clock whose time stands still, and a running instance of the system timer on it.\<close>

definition still_clock :: "u64 os_clock" where
  "still_clock = \<lparr>os_jiffies = (\<lambda>j. j), os_malloc_ok = (\<lambda>j. True), os_timeout = (\<lambda>d t j. (1, j)), os_untimeout = (\<lambda>i j. j)\<rparr>"

definition system_timer :: "u64 deftmr timer_sys" where
  "system_timer = \<lparr>timer_devs = [Some ((fresh_tdev 0 0)\<lparr>run_state := 1, tempo := 60, timebase := 100, midimap := 1\<rparr>)],
     timer_drivers = [\<lparr>drv_ops = default_midi_driver still_clock, drv_name = ''System timer'', drv_flags = 0,
       max_instances = 16, num_instances = 1, resolution = 1000\<rparr>],
     num_mididevs = 1, hz = 1000,
     hw = \<lparr>timercs = [0 \<mapsto> \<lparr>start_time = 0, timeout_id = 0\<rparr>], tick_scale = 1000, null_deref = False, os = 7\<rparr>\<rparr>"

lemma system_timer_inv: "timer_inv system_timer"
  by (auto simp: timer_inv_def system_timer_def slots_ok_def tdev_ok_def counts_ok_def fresh_tdev_def uses_def
      MAX_TIMER_DEV_def MAX_MIDI_DEV_def)

lemma system_timer_get: "get_timer system_timer 0 = Some ((fresh_tdev 0 0)\<lparr>run_state := 1, tempo := 60,
    timebase := 100, midimap := 1\<rparr>)"
  by (simp add: get_timer_def system_timer_def)

theorem timer_wait_arms_witness:
  "\<exists>s' tmr'. oss_timer_wait_time (Suc 0) (\<lambda>cb i s. Some s) system_timer 0 0 0 5000 None MIDI_OPT_USECTIME = Some (0, s') \<and>
    get_timer s' 0 = Some tmr' \<and> midi_times tmr' ! 0 = 5000 \<and> armed tmr'"
proof -
  have d: "wait_deadline ((fresh_tdev 0 0)\<lparr>run_state := 1, tempo := 60, timebase := 100, midimap := 1\<rparr>) 0 5000 MIDI_OPT_USECTIME
      = Some (5000, 5000)"
    by (simp add: wait_deadline_def MIDI_OPT_USECTIME_def)
  have l: "linked ((fresh_tdev 0 0)\<lparr>run_state := 1, tempo := 60, timebase := 100, midimap := 1\<rparr>) (nat 0)"
    by (simp add: linked_def)
  have k: "drv_ops (get_driver system_timer (driver_dev ((fresh_tdev 0 0)\<lparr>run_state := 1, tempo := 60,
      timebase := 100, midimap := 1\<rparr>))) = default_midi_driver still_clock"
    by (simp add: get_driver_def system_timer_def fresh_tdev_def)
  show ?thesis
    using timer_wait_arms[OF system_timer_inv system_timer_get k _ _ _ _ l _ d, of 0 "\<lambda>cb i s. Some s" None]
    by (auto simp: system_timer_def MAX_MIDI_DEV_def fresh_tdev_def LARGEST_TIME_def)
qed

section \<open>Conversions of time\<close>

text \<open>A wake-up request with an absolute time is cut down to 32 bits of microseconds: past about
  71 minutes a time in the future whose low half is not past the timer's last event is reported
  as over at once, and nothing is queued.\<close>

theorem usec_request_truncated:
  assumes "get_timer s dev = Some tmr" and "run_state tmr \<noteq> 0" and "0 \<le> m" and "m < num_mididevs s"
    and "opts AND MIDI_OPT_USECTIME \<noteq> 0" and "lat \<le> 0" and "time \<noteq> 0" and "prev_time tmr < time"
    and "uint time mod 2 ^ 32 \<le> uint (prev_time tmr)"
  shows "oss_timer_wait_time n fire s dev m lat time cb opts = Some (1, set_timer dev (Some (tmr\<lparr>tmr_callback := cb\<rparr>)) s)"
proof -
  have "uint (ucast (ucast time :: u32) :: u64) = uint time mod 2 ^ 32"
    by (simp add: unsigned_ucast_eq take_bit_eq_mod uint_mod_distrib)
  then have "(ucast (ucast time :: u32) :: u64) \<le> prev_time tmr" using assms(9) by (simp add: word_le_def)
  then show ?thesis
    using assms get_timer_SomeD(1,2)[OF assms(1)] order_antisym[OF assms(6)]
    by (cases "lat < 0") (simp_all add: oss_timer_wait_time_def Let_def wait_deadline_def)
qed

theorem usec_request_truncated_witness:
  "(10 :: u64) < 0x100000005 \<and>
   fst (the (oss_timer_wait_time 5 (\<lambda>cb i s. Some s) one_timer 0 0 0 0x100000005 None MIDI_OPT_USECTIME)) = 1"
proof -
  have "oss_timer_wait_time 5 (\<lambda>cb i s. Some s) one_timer 0 0 0 0x100000005 None MIDI_OPT_USECTIME
      = Some (1, set_timer 0 (Some ((fresh_tdev 0 0)\<lparr>run_state := 1, tempo := 60, timebase := 100, prev_time := 10,
          midimap := 1, tmr_callback := None\<rparr>)) one_timer)"
    using usec_request_truncated[OF one_timer_get, of 0 MIDI_OPT_USECTIME 0 "0x100000005" 5 "\<lambda>cb i s. Some s" None]
    by (simp add: one_timer_def MIDI_OPT_USECTIME_def)
  then show ?thesis by simp
qed

lemma mult_div_back:
  fixes T R :: int
  assumes "0 < R" and "R \<le> 30000000" and "0 \<le> T"
  shows "(60000000 * T div R * R + 30000000) div 60000000 = T"
proof -
  have "60000000 * T div R * R = 60000000 * T - 60000000 * T mod R"
    using minus_mod_eq_div_mult[of "60000000 * T" R] by simp
  moreover have "0 \<le> 60000000 * T mod R" "60000000 * T mod R < R" using assms(1) by simp_all
  ultimately have "60000000 * T div R * R + 30000000 = T * 60000000 + (30000000 - 60000000 * T mod R)"
    "0 \<le> 30000000 - 60000000 * T mod R" "30000000 - 60000000 * T mod R < 60000000"
    using assms(2) by linarith+
  then show ?thesis by (simp add: div_pos_pos_trivial)
qed

text \<open>The conversion of \<open>oss_timer_get_current_time\<close> from microseconds to MIDI ticks does
  nothing: as long as the rate is at most 30 million and nothing overflows, it returns the
  microseconds since the bookmark, not the ticks, because it multiplies by the rate it has just
  divided by.\<close>

theorem current_time_not_converted:
  assumes "get_timer s dev = Some tmr" and "op_get_current_time (ops_of s tmr) = Some clock" and "run_state tmr \<noteq> 0"
    and "bookmark_time tmr \<le> clock dev (hw s)" and "0 < tempo tmr * timebase tmr" and "tempo tmr * timebase tmr \<le> 30000000"
    and "60000000 * uint (clock dev (hw s) - bookmark_time tmr) < 2 ^ 64 - 30000000"
  shows "oss_timer_get_current_time s dev lat False
    = Some (clock dev (hw s) - bookmark_time tmr + bookmark_tick tmr)"
proof -
  define t where "t = clock dev (hw s) - bookmark_time tmr"
  define T where "T = uint t"
  define R where "R = tempo tmr * timebase tmr"
  have T: "0 \<le> T" "60000000 * T < 2 ^ 64 - 30000000" using assms(7) by (simp_all add: T_def t_def)
  have R: "0 < R" "R \<le> 30000000" "uint (tick_rate tmr) = R"
    using assms(5,6) by (simp_all add: R_def tick_rate_def uint_word_of_int_eq take_bit_int_eq_self_iff del: of_int_mult)
  have a: "uint (60000000 * t) = 60000000 * T"
    using T by (simp add: uint_word_ariths T_def)
  have b: "uint (60000000 * t div tick_rate tmr) = 60000000 * T div R"
    by (simp add: uint_div_distrib a R(3))
  have d: "60000000 * T div R * R \<le> 60000000 * T" "0 \<le> 60000000 * T div R * R"
  proof -
    have "60000000 * T div R * R = 60000000 * T - 60000000 * T mod R"
      using minus_mod_eq_div_mult[of "60000000 * T" R] by simp
    moreover have "0 \<le> 60000000 * T mod R" using R(1) by simp
    ultimately show "60000000 * T div R * R \<le> 60000000 * T" by linarith
    have "0 \<le> 60000000 * T div R" using R(1) T(1) by (simp add: pos_imp_zdiv_nonneg_iff)
    then show "0 \<le> 60000000 * T div R * R" using R(1) by simp
  qed
  have c: "uint (60000000 * t div tick_rate tmr * tick_rate tmr) = 60000000 * T div R * R"
    using d T(2) by (simp add: uint_word_ariths(3) b R(3) mod_pos_pos_trivial)
  have e: "uint (60000000 * t div tick_rate tmr * tick_rate tmr + 30000000) = 60000000 * T div R * R + 30000000"
    using d T(2) by (simp add: uint_word_ariths(1) c mod_pos_pos_trivial)
  have "uint ((60000000 * t div tick_rate tmr * tick_rate tmr + 30000000) div 60000000) = T"
    using mult_div_back[OF R(1,2) T(1)] by (simp only: uint_div_distrib e) simp
  then have f: "(60000000 * t div tick_rate tmr * tick_rate tmr + 30000000) div 60000000 = t"
    by (simp add: T_def word_uint_eq_iff)
  have nz: "tick_rate tmr \<noteq> 0" using R by auto
  have nl: "\<not> clock dev (hw s) < bookmark_time tmr" using assms(4) by (simp add: not_less)
  show ?thesis
    using assms(1-3) nz nl
    by (simp only: oss_timer_get_current_time_def option.case if_False Let_def t_def[symmetric] f)
qed

theorem current_time_not_converted_witness:
  "oss_timer_get_current_time one_timer 0 0 False = Some 5000"
proof -
  have "op_get_current_time (ops_of one_timer ((fresh_tdev 0 0)\<lparr>run_state := 1, tempo := 60, timebase := 100,
      prev_time := 10, midimap := 1\<rparr>)) = Some (\<lambda>d h. word_of_nat h)"
    by (simp add: ops_of_def get_driver_def one_timer_def plain_ops_def fresh_tdev_def)
  from current_time_not_converted[OF one_timer_get this, of 0] show ?thesis
    by (simp add: fresh_tdev_def one_timer_def)
qed

text \<open>The system timer never reports a deadline as missed: when the time of a request lies
  \<open>d\<close> ticks in the past it asks the system for a timeout of \<open>2^64 - d\<close> ticks, since the test
  for a negative number of ticks is made on an unsigned variable.\<close>

theorem late_wait_never_fires:
  assumes "timercs h dev = Some c" and "d = uint (os_jiffies K (os_untimeout K (timeout_id c) (os h))) -
      ((uint time + uint (tick_scale h) div 2) div uint (tick_scale h) + uint (start_time c))"
    and "0 < d" and "uint time + uint (tick_scale h) div 2 < 2 ^ 64"
  shows "\<exists>t. uint t = 2 ^ 64 - d \<and> deftmr_wait K dev time h =
    (0, h\<lparr>os := snd (os_timeout K dev t (os_untimeout K (timeout_id c) (os h))),
         timercs := (timercs h)(dev \<mapsto> c\<lparr>timeout_id := fst (os_timeout K dev t (os_untimeout K (timeout_id c) (os h)))\<rparr>)\<rparr>)"
proof -
  define now where "now = os_jiffies K (os_untimeout K (timeout_id c) (os h))"
  define t where "t = wait_ticks (tick_scale h) time (start_time c) now"
  define D where "D = (uint time + uint (tick_scale h) div 2) div uint (tick_scale h)"
  have dv: "uint ((time + tick_scale h div 2) div tick_scale h) = D"
    using assms(4) by (simp add: uint_div_distrib uint_word_ariths(1) D_def)
  have d: "d = uint now - (D + uint (start_time c))" using assms(2) by (simp add: D_def now_def)
  have D0: "0 \<le> D" by (simp add: D_def pos_imp_zdiv_nonneg_iff div_int_pos_iff)
  have "uint now < 2 ^ 64" "0 \<le> uint (start_time c)" using uint_lt2p[of now] by simp_all
  then have lt: "d < 2 ^ 64" using d D0 by linarith
  have "uint t = (D + uint (start_time c) - uint now) mod 2 ^ 64"
    by (simp add: t_def wait_ticks_def uint_word_ariths(1,2) dv mod_simps)
  also have "\<dots> = (2 ^ 64 - d) mod 2 ^ 64"
    using d by (metis (no_types, opaque_lifting) add.commute diff_add_eq_diff_diff_swap mod_add_self1 uminus_add_conv_diff minus_diff_eq)
  also have "\<dots> = 2 ^ 64 - d" using lt assms(3) by (intro mod_pos_pos_trivial) simp_all
  finally have "uint t = 2 ^ 64 - d" .
  then show ?thesis
    using assms(1) by (intro exI[of _ t]) (simp add: deftmr_wait_def Let_def t_def now_def split_beta)
qed

theorem late_wait_never_fires_witness:
  "\<exists>t. uint t = 2 ^ 64 - 5 \<and> deftmr_wait still_clock 0 2000 (hw system_timer) =
    (0, (hw system_timer)\<lparr>os := snd (os_timeout still_clock 0 t (os_untimeout still_clock 0 (os (hw system_timer)))),
         timercs := (timercs (hw system_timer))(0 \<mapsto> (\<lparr>start_time = 0, timeout_id = 0\<rparr>\<lparr>timeout_id :=
           fst (os_timeout still_clock 0 t (os_untimeout still_clock 0 (os (hw system_timer))))\<rparr>))\<rparr>)"
  using late_wait_never_fires[of "hw system_timer" 0 "\<lparr>start_time = 0, timeout_id = 0\<rparr>" 5 still_clock 2000]
  by (simp add: system_timer_def still_clock_def)

end
