(* ===== verification/Audio_Format.thy ===== *)
theory Audio_Format
  imports Oss_Prelude
begin

text \<open>
  The audio format conversions of \<open>kernel/framework/audio/oss_audiofmt.c\<close> with the fast
  converters of \<open>audiocnv.inc\<close> and the mu-Law tables of \<open>ulaw.h\<close>, on a little-endian host.
  A converter works on two byte buffers: every stage reads the first one, writes the second
  one from its start and swaps them. A conversion is \<open>None\<close> where the code leaves a buffer,
  divides by zero or follows a \<open>NULL\<close> pointer. The resampler \<open>grc3\<close> is a parameter: a record
  of its functions over its state per channel.
  Byte counts are natural numbers: a stage only succeeds within the buffers, so the code's
  \<open>int\<close> does not overflow. Shifts of negative numbers are those of two's complement.
\<close>

section \<open>Formats\<close>

definition AFMT_MU_LAW :: u32 where "AFMT_MU_LAW = 0x1"
definition AFMT_A_LAW :: u32 where "AFMT_A_LAW = 0x2"
definition AFMT_IMA_ADPCM :: u32 where "AFMT_IMA_ADPCM = 0x4"
definition AFMT_U8 :: u32 where "AFMT_U8 = 0x8"
definition AFMT_S16_LE :: u32 where "AFMT_S16_LE = 0x10"
definition AFMT_S16_BE :: u32 where "AFMT_S16_BE = 0x20"
definition AFMT_S8 :: u32 where "AFMT_S8 = 0x40"
definition AFMT_U16_LE :: u32 where "AFMT_U16_LE = 0x80"
definition AFMT_U16_BE :: u32 where "AFMT_U16_BE = 0x100"
definition AFMT_MPEG :: u32 where "AFMT_MPEG = 0x200"
definition AFMT_AC3 :: u32 where "AFMT_AC3 = 0x400"
definition AFMT_S32_LE :: u32 where "AFMT_S32_LE = 0x1000"
definition AFMT_S32_BE :: u32 where "AFMT_S32_BE = 0x2000"
definition AFMT_S24_LE :: u32 where "AFMT_S24_LE = 0x8000"
definition AFMT_S24_BE :: u32 where "AFMT_S24_BE = 0x10000"
definition AFMT_SPDIF_RAW :: u32 where "AFMT_SPDIF_RAW = 0x20000"
definition AFMT_S24_PACKED :: u32 where "AFMT_S24_PACKED = 0x40000"

lemmas afmt_defs = AFMT_MU_LAW_def AFMT_A_LAW_def AFMT_IMA_ADPCM_def AFMT_U8_def AFMT_S16_LE_def
  AFMT_S16_BE_def AFMT_S8_def AFMT_U16_LE_def AFMT_U16_BE_def AFMT_MPEG_def AFMT_AC3_def
  AFMT_S32_LE_def AFMT_S32_BE_def AFMT_S24_LE_def AFMT_S24_BE_def AFMT_SPDIF_RAW_def
  AFMT_S24_PACKED_def

definition CONVERTABLE_FORMATS :: u32 where
  "CONVERTABLE_FORMATS = AFMT_U8 OR AFMT_S8 OR AFMT_MU_LAW OR AFMT_S16_LE OR AFMT_S16_BE OR
     AFMT_S24_LE OR AFMT_S24_BE OR AFMT_S32_LE OR AFMT_S32_BE OR AFMT_S24_PACKED"

definition UNIT_EXPAND :: int where "UNIT_EXPAND = 1024"
definition OSS_MAX_CONVERT_CHANNELS :: nat where "OSS_MAX_CONVERT_CHANNELS = 64"
definition TMP_CONVERT_MAX :: int where "TMP_CONVERT_MAX = 16 * 1024"
definition TMP_CONVERT_BUF_SIZE :: nat where "TMP_CONVERT_BUF_SIZE = 8 * (16 * 1024)"
definition DMAP_COOKED :: u32 where "DMAP_COOKED = 0x20"

datatype endianess = ENDIAN_NONE | ENDIAN_LITTLE | ENDIAN_BIG
datatype alignment = ALIGN_MSB | ALIGN_LSB

record audio_format_info_t =
  fi_name :: string
  fi_fmt :: u32
  fi_neutral_byte :: u8
  fi_bits :: int
  fi_is_linear :: bool
  fi_endianess :: endianess
  fi_is_signed :: bool
  fi_alignment :: alignment
  fi_no_convert :: bool

definition format_row ::
  "string \<Rightarrow> u32 \<Rightarrow> u8 \<Rightarrow> int \<Rightarrow> bool \<Rightarrow> endianess \<Rightarrow> bool \<Rightarrow> alignment \<Rightarrow> bool \<Rightarrow> audio_format_info_t" where
  "format_row n f z b l e s a c = \<lparr>fi_name = n, fi_fmt = f, fi_neutral_byte = z, fi_bits = b,
     fi_is_linear = l, fi_endianess = e, fi_is_signed = s, fi_alignment = a, fi_no_convert = c\<rparr>"

definition audio_format_info :: "audio_format_info_t list" where
  "audio_format_info = [
     format_row ''mu-Law'' AFMT_MU_LAW 0x80 8 False ENDIAN_NONE True ALIGN_MSB False,
     format_row ''A-Law'' AFMT_A_LAW 0x80 8 False ENDIAN_NONE True ALIGN_MSB False,
     format_row ''IMA-ADPCM'' AFMT_IMA_ADPCM 0x00 4 False ENDIAN_NONE False ALIGN_LSB True,
     format_row ''8'' AFMT_U8 0x80 8 True ENDIAN_NONE False ALIGN_MSB False,
     format_row ''16(LE)'' AFMT_S16_LE 0x00 16 True ENDIAN_LITTLE True ALIGN_MSB False,
     format_row ''16(BE)'' AFMT_S16_BE 0x00 16 True ENDIAN_BIG True ALIGN_MSB False,
     format_row ''8(signed)'' AFMT_S8 0x00 8 True ENDIAN_NONE True ALIGN_MSB False,
     format_row ''16(unsigned LE)'' AFMT_U16_LE 0x00 16 True ENDIAN_LITTLE False ALIGN_MSB False,
     format_row ''16(unsigned BE)'' AFMT_U16_BE 0x00 16 True ENDIAN_BIG False ALIGN_MSB False,
     format_row ''mp2/mp3'' AFMT_MPEG 0x00 8 False ENDIAN_NONE False ALIGN_LSB True,
     format_row ''AC3'' AFMT_AC3 0x00 16 False ENDIAN_NONE False ALIGN_LSB True,
     format_row ''SPDIF (RAW)'' AFMT_SPDIF_RAW 0x00 32 False ENDIAN_NONE False ALIGN_LSB True,
     format_row ''24(LE)'' AFMT_S24_LE 0x00 32 True ENDIAN_LITTLE True ALIGN_LSB False,
     format_row ''24(BE)'' AFMT_S24_BE 0x00 32 True ENDIAN_BIG True ALIGN_LSB False,
     format_row ''32(LE)'' AFMT_S32_LE 0x00 32 True ENDIAN_LITTLE True ALIGN_MSB False,
     format_row ''32(BE)'' AFMT_S32_BE 0x00 32 True ENDIAN_BIG True ALIGN_MSB False,
     format_row ''24(PACKED)'' AFMT_S24_PACKED 0x00 24 True ENDIAN_LITTLE True ALIGN_LSB False]"

fun find_format :: "audio_format_info_t list \<Rightarrow> u32 \<Rightarrow> audio_format_info_t option" where
  "find_format [] f = None"
| "find_format (i # is) f = (if fi_fmt i = f then Some i else find_format is f)"

definition oss_find_format :: "u32 \<Rightarrow> audio_format_info_t option" where
  "oss_find_format f = find_format audio_format_info f"

text \<open>The tables of \<open>ulaw.h\<close>: mu-Law to unsigned 8 bit samples and back.\<close>

definition ulaw_dsp :: "u8 list" where
  "ulaw_dsp = [
     3, 7, 11, 15, 19, 23, 27, 31, 35, 39, 43, 47, 51, 55, 59, 63, 66, 68, 70, 72,
     74, 76, 78, 80, 82, 84, 86, 88, 90, 92, 94, 96, 98, 99, 100, 101, 102, 103, 104, 105,
     106, 107, 108, 109, 110, 111, 112, 113, 113, 114, 114, 115, 115, 116, 116, 117, 117, 118, 118, 119,
     119, 120, 120, 121, 121, 121, 122, 122, 122, 122, 123, 123, 123, 123, 124, 124, 124, 124, 125, 125,
     125, 125, 125, 125, 126, 126, 126, 126, 126, 126, 126, 126, 127, 127, 127, 127, 127, 127, 127, 127,
     127, 127, 127, 127, 128, 128, 128, 128, 128, 128, 128, 128, 128, 128, 128, 128, 128, 128, 128, 128,
     128, 128, 128, 128, 128, 128, 128, 128, 253, 249, 245, 241, 237, 233, 229, 225, 221, 217, 213, 209,
     205, 201, 197, 193, 190, 188, 186, 184, 182, 180, 178, 176, 174, 172, 170, 168, 166, 164, 162, 160,
     158, 157, 156, 155, 154, 153, 152, 151, 150, 149, 148, 147, 146, 145, 144, 143, 143, 142, 142, 141,
     141, 140, 140, 139, 139, 138, 138, 137, 137, 136, 136, 135, 135, 135, 134, 134, 134, 134, 133, 133,
     133, 133, 132, 132, 132, 132, 131, 131, 131, 131, 131, 131, 130, 130, 130, 130, 130, 130, 130, 130,
     129, 129, 129, 129, 129, 129, 129, 129, 129, 129, 129, 129, 128, 128, 128, 128, 128, 128, 128, 128,
     128, 128, 128, 128, 128, 128, 128, 128, 128, 128, 128, 128, 128, 128, 128, 128]"

definition dsp_ulaw :: "u8 list" where
  "dsp_ulaw = [
     0, 0, 0, 0, 0, 1, 1, 1, 1, 2, 2, 2, 2, 3, 3, 3, 3, 4, 4, 4,
     4, 5, 5, 5, 5, 6, 6, 6, 6, 7, 7, 7, 7, 8, 8, 8, 8, 9, 9, 9,
     9, 10, 10, 10, 10, 11, 11, 11, 11, 12, 12, 12, 12, 13, 13, 13, 13, 14, 14, 14,
     14, 15, 15, 15, 15, 16, 16, 17, 17, 18, 18, 19, 19, 20, 20, 21, 21, 22, 22, 23,
     23, 24, 24, 25, 25, 26, 26, 27, 27, 28, 28, 29, 29, 30, 30, 31, 31, 32, 33, 34,
     35, 36, 37, 38, 39, 40, 41, 42, 43, 44, 45, 46, 47, 49, 51, 53, 55, 57, 59, 61,
     63, 66, 70, 74, 78, 84, 92, 104, 254, 231, 219, 211, 205, 201, 197, 193, 190, 188, 186, 184,
     182, 180, 178, 176, 175, 174, 173, 172, 171, 170, 169, 168, 167, 166, 165, 164, 163, 162, 161, 160,
     159, 159, 158, 158, 157, 157, 156, 156, 155, 155, 154, 154, 153, 153, 152, 152, 151, 151, 150, 150,
     149, 149, 148, 148, 147, 147, 146, 146, 145, 145, 144, 144, 143, 143, 143, 143, 142, 142, 142, 142,
     141, 141, 141, 141, 140, 140, 140, 140, 139, 139, 139, 139, 138, 138, 138, 138, 137, 137, 137, 137,
     136, 136, 136, 136, 135, 135, 135, 135, 134, 134, 134, 134, 133, 133, 133, 133, 132, 132, 132, 132,
     131, 131, 131, 131, 130, 130, 130, 130, 129, 129, 129, 129, 128, 128, 128, 128]"

section \<open>Buffers\<close>

record cnv_buf =
  p1 :: bytes
  p2 :: bytes
  cnt :: nat

text \<open>Write \<open>out\<close> to the second buffer, swap the buffers, and set the byte count.\<close>

definition emit :: "bytes \<Rightarrow> nat \<Rightarrow> cnv_buf \<Rightarrow> cnv_buf option" where
  "emit out n b = (if length out \<le> length (p2 b)
     then Some \<lparr>p1 = out @ drop (length out) (p2 b), p2 = p1 b, cnt = n\<rparr> else None)"

text \<open>The first \<open>l\<close> groups of \<open>k\<close> bytes of a buffer.\<close>

definition groups :: "nat \<Rightarrow> nat \<Rightarrow> bytes \<Rightarrow> bytes list" where
  "groups k l bs = map (\<lambda>i. take k (drop (k * i) bs)) [0..<l]"

text \<open>A loop over \<open>l\<close> groups of \<open>k\<close> bytes that writes \<open>f\<close> of each.\<close>

definition stage :: "nat \<Rightarrow> (bytes \<Rightarrow> bytes) \<Rightarrow> nat \<Rightarrow> nat \<Rightarrow> cnv_buf \<Rightarrow> cnv_buf option" where
  "stage k f l n b =
     (if k * l \<le> length (p1 b) then emit (concat (map f (groups k l (p1 b)))) n b else None)"

definition le16 :: "bytes \<Rightarrow> u16" where
  "le16 x = ucast (x ! 0) OR push_bit 8 (ucast (x ! 1))"

definition le32 :: "bytes \<Rightarrow> u32" where
  "le32 x = ucast (x ! 0) OR push_bit 8 (ucast (x ! 1)) OR push_bit 16 (ucast (x ! 2)) OR push_bit 24 (ucast (x ! 3))"

definition bytes16 :: "u16 \<Rightarrow> bytes" where
  "bytes16 w = [ucast w, ucast (drop_bit 8 w)]"

definition bytes32 :: "u32 \<Rightarrow> bytes" where
  "bytes32 w = [ucast w, ucast (drop_bit 8 w), ucast (drop_bit 16 w), ucast (drop_bit 24 w)]"

definition swap32 :: "u32 \<Rightarrow> u32" where
  "swap32 x = (let a = bytes32 x in le32 [a ! 3, a ! 2, a ! 1, a ! 0])"

section \<open>To the internal 24 bit format\<close>

definition from_u8 :: "u8 \<Rightarrow> u32" where
  "from_u8 x = push_bit 16 (scast (x XOR 0x80))"

definition from_s8 :: "u8 \<Rightarrow> u32" where
  "from_s8 x = (let t = push_bit 24 (scast x) in signed_drop_bit 8 t)"

definition from_mu_law :: "u8 \<Rightarrow> u32" where
  "from_mu_law x = push_bit 16 (scast ((ulaw_dsp ! unat x) XOR 0x80))"

definition from_s16_ne :: "u16 \<Rightarrow> u32" where
  "from_s16_ne x = push_bit 8 (scast x)"

definition from_s16_oe :: "u16 \<Rightarrow> u32" where
  "from_s16_oe tmp =
     (let t = push_bit 24 ((scast tmp :: u32) AND 0xff) OR push_bit 8 ((scast tmp :: u32) AND 0xff00)
      in signed_drop_bit 8 t)"

definition from_s32_ne :: "u32 \<Rightarrow> u32" where
  "from_s32_ne x = signed_drop_bit 8 x"

definition from_s32_oe :: "u32 \<Rightarrow> u32" where
  "from_s32_oe x = drop_bit 8 (swap32 x)"

definition from_s24_oe :: "u32 \<Rightarrow> u32" where
  "from_s24_oe x = swap32 x"

definition from_s24_packed :: "bytes \<Rightarrow> u32" where
  "from_s24_packed x = ucast (x ! 0) OR push_bit 8 (ucast (x ! 1)) OR push_bit 16 (ucast (x ! 2))"

definition to_24bit :: "u32 \<Rightarrow> cnv_buf \<Rightarrow> cnv_buf oss_result option" where
  "to_24bit f b =
     (if f = AFMT_S24_LE then Some (Inr b)
      else if f = AFMT_U8 then
        map_option Inr (stage 1 (\<lambda>x. bytes32 (from_u8 (x ! 0))) (cnt b) (cnt b * 4) b)
      else if f = AFMT_S8 then
        map_option Inr (stage 1 (\<lambda>x. bytes32 (from_s8 (x ! 0))) (cnt b) (cnt b * 4) b)
      else if f = AFMT_MU_LAW then
        map_option Inr (stage 1 (\<lambda>x. bytes32 (from_mu_law (x ! 0))) (cnt b) (cnt b * 4) b)
      else if f = AFMT_S16_LE then
        map_option Inr (stage 2 (\<lambda>x. bytes32 (from_s16_ne (le16 x))) (cnt b div 2) (cnt b div 2 * 4) b)
      else if f = AFMT_S16_BE then
        map_option Inr (stage 2 (\<lambda>x. bytes32 (from_s16_oe (le16 x))) (cnt b div 2) (cnt b div 2 * 4) b)
      else if f = AFMT_S32_LE then
        map_option Inr (stage 4 (\<lambda>x. bytes32 (from_s32_ne (le32 x))) (cnt b div 4) (cnt b) b)
      else if f = AFMT_S32_BE then
        map_option Inr (stage 4 (\<lambda>x. bytes32 (from_s32_oe (le32 x))) (cnt b div 4) (cnt b) b)
      else if f = AFMT_S24_BE then
        map_option Inr (stage 4 (\<lambda>x. bytes32 (from_s24_oe (le32 x))) (cnt b div 4) (cnt b) b)
      else if f = AFMT_S24_PACKED then
        map_option Inr (stage 3 (\<lambda>x. bytes32 (from_s24_packed x)) (cnt b div 3) (cnt b div 3 * 4) b)
      else Some (Inl OSS_EIO))"

section \<open>From the internal format\<close>

definition to_u8 :: "u32 \<Rightarrow> u8" where
  "to_u8 w = ucast (drop_bit 16 w XOR 0x80)"

definition to_s8 :: "u32 \<Rightarrow> u8" where
  "to_s8 w = ucast (signed_drop_bit 16 w)"

definition to_s16_ne :: "u32 \<Rightarrow> u16" where
  "to_s16_ne w = ucast (signed_drop_bit 8 w)"

definition to_s16_oe :: "u32 \<Rightarrow> bytes" where
  "to_s16_oe w = (let tmp = signed_drop_bit 8 w in
     [ucast (tmp AND 0xff), ucast (signed_drop_bit 8 tmp AND 0xff)])"

definition to_s32_ne :: "u32 \<Rightarrow> u32" where
  "to_s32_ne w = push_bit 8 w"

definition to_s32_oe :: "u32 \<Rightarrow> u32" where
  "to_s32_oe w = swap32 (push_bit 8 w)"

definition to_s24_oe :: "u32 \<Rightarrow> u32" where
  "to_s24_oe w = swap32 w"

definition to_s24_packed :: "u32 \<Rightarrow> bytes" where
  "to_s24_packed w =
     [ucast (w AND 0xff), ucast (signed_drop_bit 8 w AND 0xff), ucast (signed_drop_bit 16 w AND 0xff)]"

definition to_mu_law :: "u32 \<Rightarrow> u8" where
  "to_mu_law w = dsp_ulaw ! unat ((drop_bit 16 w AND 0xff) XOR 0x80)"

definition from_24bit :: "u32 \<Rightarrow> cnv_buf \<Rightarrow> cnv_buf oss_result option" where
  "from_24bit f b =
     (if f = AFMT_S24_LE then Some (Inr b)
      else if f = AFMT_U8 then
        map_option Inr (stage 4 (\<lambda>x. [to_u8 (le32 x)]) (cnt b div 4) (cnt b div 4) b)
      else if f = AFMT_S8 then
        map_option Inr (stage 4 (\<lambda>x. [to_s8 (le32 x)]) (cnt b div 4) (cnt b div 4) b)
      else if f = AFMT_S16_LE then
        map_option Inr (stage 4 (\<lambda>x. bytes16 (to_s16_ne (le32 x))) (cnt b div 4) (cnt b div 4 * 2) b)
      else if f = AFMT_S16_BE then
        map_option Inr (stage 4 (\<lambda>x. to_s16_oe (le32 x)) (cnt b div 4) (cnt b div 4 * 2) b)
      else if f = AFMT_S32_LE then
        map_option Inr (stage 4 (\<lambda>x. bytes32 (to_s32_ne (le32 x))) (cnt b div 4) (cnt b) b)
      else if f = AFMT_S32_BE then
        map_option Inr (stage 4 (\<lambda>x. bytes32 (to_s32_oe (le32 x))) (cnt b div 4) (cnt b) b)
      else if f = AFMT_S24_BE then
        map_option Inr (stage 4 (\<lambda>x. bytes32 (to_s24_oe (le32 x))) (cnt b div 4) (cnt b) b)
      else if f = AFMT_S24_PACKED then
        map_option Inr (stage 4 (\<lambda>x. to_s24_packed (le32 x)) (cnt b div 4) (cnt b div 4 * 3) b)
      else if f = AFMT_MU_LAW then
        map_option Inr (stage 4 (\<lambda>x. [to_mu_law (le32 x)]) (cnt b div 4) (cnt b div 4) b)
      else Some (Inl OSS_EIO))"

section \<open>Channels\<close>

definition mono_to_stereo :: "cnv_buf \<Rightarrow> cnv_buf option" where
  "mono_to_stereo b = stage 4 (\<lambda>x. x @ x) (cnt b div 4) (cnt b * 2) b"

definition stereo_to_mono :: "cnv_buf \<Rightarrow> cnv_buf option" where
  "stereo_to_mono b = stage 8 (take 4) (cnt b div 2 div 4) (cnt b div 2) b"

definition frame_channels :: "nat \<Rightarrow> nat \<Rightarrow> bytes \<Rightarrow> bytes" where
  "frame_channels sc tc x = take (4 * min sc tc) x @ replicate (4 * (tc - sc)) 0"

definition multi_channels :: "nat \<Rightarrow> nat \<Rightarrow> cnv_buf \<Rightarrow> cnv_buf option" where
  "multi_channels sc tc b =
     (if sc = 0 then None
      else
        let n = cnt b div 4 div sc;
            cnt' = cnt b * tc div sc;
            out = concat (map (frame_channels sc tc) (groups (4 * sc) n (p1 b)))
        in if 4 * sc * n \<le> length (p1 b)
           then emit (out @ replicate (cnt' - length out) 0) cnt' b
           else None)"

definition convert_channels :: "nat \<Rightarrow> nat \<Rightarrow> cnv_buf \<Rightarrow> cnv_buf option" where
  "convert_channels sc tc b =
     (if sc = tc then Some b
      else if sc = 1 \<and> tc = 2 then mono_to_stereo b
      else if sc = 2 \<and> tc = 1 then stereo_to_mono b
      else multi_channels sc tc b)"

end
