(* ===== verification/Audio_Convert.thy ===== *)
theory Audio_Convert
  imports Audio_Format
begin

text \<open>
  The converters of \<open>oss_audiofmt.c\<close> and \<open>audiocnv.inc\<close> and their selection: the default
  converter through the internal 24 bit format, the resampling stages around the functions of
  \<open>grc3\<close>, the six fast converters, and \<open>setup_format_conversions\<close>, which picks one.
\<close>

record sample_parms =
  sp_fmt :: u32
  sp_rate :: int
  sp_channels :: nat

text \<open>The functions of the resampler over the state \<open>'g\<close> of one channel. \<open>grc_convert\<close> takes the
  sample width, the quality, both buffers, the numbers of samples in and of room out, the number
  of channels and the channel; it returns its status, the second buffer and the new state.\<close>

record 'g grc3 =
  grc3_reset :: "'g \<Rightarrow> 'g"
  grc3_setup :: "'g \<Rightarrow> int \<Rightarrow> int \<Rightarrow> 'g"
  grc3_convert :: "'g \<Rightarrow> int \<Rightarrow> int \<Rightarrow> bytes \<Rightarrow> bytes \<Rightarrow> nat \<Rightarrow> nat \<Rightarrow> nat \<Rightarrow> nat \<Rightarrow> int \<times> bytes \<times> 'g"
  grc3_outsz :: "'g \<Rightarrow> nat"

datatype converter =
    Cnv_Default | Cnv_SrcOnly | Cnv_F8_T16 | Cnv_F8_T32 | Cnv_F16_T8 | Cnv_F16_T32 | Cnv_F32_T8 | Cnv_F32_T16

text \<open>The fields of \<open>dmap\<close> and \<open>adev\<close> that the conversions use.\<close>

record 'g cnv_dmap =
  expand_factor :: int
  convert_mode :: u32
  convert_func :: "converter option"
  dm_flags :: u32
  tmpbuf_len :: int
  tmpbuf_ptr :: int
  tmpbuf1 :: "bytes option"
  tmpbuf2 :: "bytes option"
  srcstate :: "'g option list"
  src_quality :: int

type_synonym ('a, 'g) cnv_result = "('a oss_result \<times> 'g cnv_dmap) option"

section \<open>Resampling\<close>

fun src_channels ::
  "'g grc3 \<Rightarrow> int \<Rightarrow> nat \<Rightarrow> nat \<Rightarrow> nat \<Rightarrow> nat \<Rightarrow> nat list \<Rightarrow> cnv_buf \<Rightarrow> 'g cnv_dmap \<Rightarrow> (cnv_buf, 'g) cnv_result" where
  "src_channels K bits ssize nsamples room channels [] b d = Some (Inr b, d)"
| "src_channels K bits ssize nsamples room channels (ch # chs) b d =
     (case (if ch < length (srcstate d) then srcstate d ! ch else None) of
        None \<Rightarrow> None
      | Some g \<Rightarrow>
          let (err, out, g) = grc3_convert K g bits (src_quality d) (p1 b) (p2 b) nsamples room channels ch;
              d = d\<lparr>srcstate := (srcstate d)[ch := Some g]\<rparr>;
              b = b\<lparr>p2 := out\<rparr>
          in if err < 0 then Some (Inl OSS_EIO, d)
             else src_channels K bits ssize nsamples room channels chs
                    (b\<lparr>cnt := grc3_outsz K g * ssize * channels\<rparr>) d)"

definition swap_buffers :: "cnv_buf \<Rightarrow> cnv_buf" where
  "swap_buffers b = \<lparr>p1 = p2 b, p2 = p1 b, cnt = cnt b\<rparr>"

definition do_src ::
  "'g grc3 \<Rightarrow> nat \<Rightarrow> int \<Rightarrow> nat \<Rightarrow> cnv_buf \<Rightarrow> 'g cnv_dmap \<Rightarrow> (cnv_buf, 'g) cnv_result" where
  "do_src K channels bits ssize b d =
     (if channels = 0 then None
      else
        let l = cnt b div ssize;
            room = TMP_CONVERT_BUF_SIZE div ssize div channels;
            nsamples = l div channels;
            bits = (if bits = 24 then 32 else bits)
        in src_channels K bits ssize nsamples room channels [0..<channels] b d)"

fun setup_states ::
  "'g grc3 \<Rightarrow> (nat \<Rightarrow> 'g option) \<Rightarrow> int \<Rightarrow> int \<Rightarrow> nat list \<Rightarrow> 'g cnv_dmap \<Rightarrow> 'g cnv_dmap option" where
  "setup_states K new srate trate [] d = Some d"
| "setup_states K new srate trate (ch # chs) d =
     (case (case srcstate d ! ch of None \<Rightarrow> new ch | Some g \<Rightarrow> Some g) of
        None \<Rightarrow> None
      | Some g \<Rightarrow>
          setup_states K new srate trate chs
            (d\<lparr>srcstate := (srcstate d)[ch := Some (grc3_setup K (grc3_reset K g) srate trate)]\<rparr>))"

definition setup_src ::
  "'g grc3 \<Rightarrow> (nat \<Rightarrow> 'g option) \<Rightarrow> 'g cnv_dmap \<Rightarrow> int \<Rightarrow> int \<Rightarrow> nat \<Rightarrow> nat \<Rightarrow> (unit, 'g) cnv_result" where
  "setup_src K new d srate trate sch tch =
     (let nch = (if tch < sch then tch else sch);
          d = (if src_quality d < 1 then d\<lparr>src_quality := 1\<rparr> else d);
          d = (if 5 < src_quality d then d\<lparr>src_quality := 5\<rparr> else d)
      in if OSS_MAX_CONVERT_CHANNELS < nch then Some (Inl OSS_EIO, d)
         else map_option (Pair (Inr ())) (setup_states K new srate trate [0..<nch] d))"

section \<open>The default converter\<close>

definition and_then ::
  "('a, 'g) cnv_result \<Rightarrow> ('a \<Rightarrow> 'g cnv_dmap \<Rightarrow> ('b, 'g) cnv_result) \<Rightarrow> ('b, 'g) cnv_result" where
  "and_then r f = (case r of None \<Rightarrow> None | Some (Inl e, d) \<Rightarrow> Some (Inl e, d) | Some (Inr x, d) \<Rightarrow> f x d)"

definition with_dmap :: "'g cnv_dmap \<Rightarrow> 'a oss_result option \<Rightarrow> ('a, 'g) cnv_result" where
  "with_dmap d r = map_option (\<lambda>r. (r, d)) r"

definition src_stage ::
  "'g grc3 \<Rightarrow> bool \<Rightarrow> nat \<Rightarrow> int \<Rightarrow> cnv_buf \<Rightarrow> 'g cnv_dmap \<Rightarrow> (cnv_buf, 'g) cnv_result" where
  "src_stage K needed channels bits b d =
     (if needed then and_then (do_src K channels bits 4 b d) (\<lambda>b d. Some (Inr (swap_buffers b), d))
      else Some (Inr b, d))"

definition cnv_default ::
  "'g grc3 \<Rightarrow> 'g cnv_dmap \<Rightarrow> cnv_buf \<Rightarrow> sample_parms \<Rightarrow> sample_parms \<Rightarrow> (cnv_buf, 'g) cnv_result" where
  "cnv_default K d b source target =
     and_then (with_dmap d (to_24bit (sp_fmt source) b)) (\<lambda>b d.
     and_then (src_stage K (sp_rate source \<noteq> sp_rate target \<and> sp_channels source \<le> sp_channels target)
                 (sp_channels source) 32 b d) (\<lambda>b d.
     and_then (with_dmap d (map_option Inr (convert_channels (sp_channels source) (sp_channels target) b))) (\<lambda>b d.
     and_then (src_stage K (sp_rate source \<noteq> sp_rate target \<and> sp_channels target < sp_channels source)
                 (sp_channels target) 24 b d) (\<lambda>b d.
     with_dmap d (from_24bit (sp_fmt target) b)))))"

definition sample_size :: "int \<Rightarrow> nat" where
  "sample_size bits = (if bits = 16 then 2 else if bits = 24 then 4 else if bits = 32 then 4 else 1)"

definition cnv_srconly ::
  "'g grc3 \<Rightarrow> 'g cnv_dmap \<Rightarrow> cnv_buf \<Rightarrow> sample_parms \<Rightarrow> sample_parms \<Rightarrow> (cnv_buf, 'g) cnv_result" where
  "cnv_srconly K d b source target =
     (case oss_find_format (sp_fmt source) of
        None \<Rightarrow> Some (Inl OSS_EIO, d)
      | Some f \<Rightarrow>
          and_then (do_src K (sp_channels source) (fi_bits f) (sample_size (fi_bits f)) b d)
            (\<lambda>b d. Some (Inr (swap_buffers b), d)))"

section \<open>The fast converters\<close>

definition cnv_F8bits_T16bits :: "cnv_buf \<Rightarrow> cnv_buf option" where
  "cnv_F8bits_T16bits b =
     stage 1 (\<lambda>x. bytes16 (push_bit 8 (ucast (x ! 0) - 128))) (cnt b) (cnt b * 2) b"

definition cnv_F8bits_T32bits :: "cnv_buf \<Rightarrow> cnv_buf option" where
  "cnv_F8bits_T32bits b =
     stage 1 (\<lambda>x. bytes32 (push_bit 24 (ucast (x ! 0) - 128))) (cnt b) (cnt b * 4) b"

definition cnv_F16bits_T8bits :: "cnv_buf \<Rightarrow> cnv_buf option" where
  "cnv_F16bits_T8bits b =
     stage 2 (\<lambda>x. [ucast (signed_drop_bit 8 (scast (le16 x) :: u32) + 128)]) (cnt b div 2) (cnt b div 2) b"

definition cnv_F16bits_T32bits :: "cnv_buf \<Rightarrow> cnv_buf option" where
  "cnv_F16bits_T32bits b =
     stage 2 (\<lambda>x. bytes32 (push_bit 16 (scast (le16 x)))) (cnt b div 2) (cnt b * 4 div 2) b"

definition cnv_F32bits_T8bits :: "cnv_buf \<Rightarrow> cnv_buf option" where
  "cnv_F32bits_T8bits b =
     stage 4 (\<lambda>x. [ucast (signed_drop_bit 24 (le32 x) + 128)]) (cnt b div 4) (cnt b div 4) b"

definition cnv_F32bits_T16bits :: "cnv_buf \<Rightarrow> cnv_buf option" where
  "cnv_F32bits_T16bits b =
     stage 4 (\<lambda>x. bytes16 (ucast (signed_drop_bit 16 (le32 x)))) (cnt b div 4) (cnt b * 2 div 4) b"

text \<open>The call of \<open>dmap->convert_func\<close>; \<open>None\<close> when it is \<open>NULL\<close>.\<close>

definition run_converter ::
  "'g grc3 \<Rightarrow> 'g cnv_dmap \<Rightarrow> cnv_buf \<Rightarrow> sample_parms \<Rightarrow> sample_parms \<Rightarrow> (cnv_buf, 'g) cnv_result" where
  "run_converter K d b source target =
     (case convert_func d of
        None \<Rightarrow> None
      | Some Cnv_Default \<Rightarrow> cnv_default K d b source target
      | Some Cnv_SrcOnly \<Rightarrow> cnv_srconly K d b source target
      | Some Cnv_F8_T16 \<Rightarrow> with_dmap d (map_option Inr (cnv_F8bits_T16bits b))
      | Some Cnv_F8_T32 \<Rightarrow> with_dmap d (map_option Inr (cnv_F8bits_T32bits b))
      | Some Cnv_F16_T8 \<Rightarrow> with_dmap d (map_option Inr (cnv_F16bits_T8bits b))
      | Some Cnv_F16_T32 \<Rightarrow> with_dmap d (map_option Inr (cnv_F16bits_T32bits b))
      | Some Cnv_F32_T8 \<Rightarrow> with_dmap d (map_option Inr (cnv_F32bits_T8bits b))
      | Some Cnv_F32_T16 \<Rightarrow> with_dmap d (map_option Inr (cnv_F32bits_T16bits b)))"

section \<open>Setting up a conversion\<close>

definition CNV_SRC :: u32 where "CNV_SRC = 0x1"
definition CNV_M2S :: u32 where "CNV_M2S = 0x10"
definition CNV_S2M :: u32 where "CNV_S2M = 0x20"
definition CNV_MULT :: u32 where "CNV_MULT = 0x40"
definition CNV_Flog :: u32 where "CNV_Flog = 0x1000"
definition CNV_F8bit :: u32 where "CNV_F8bit = 0x2000"
definition CNV_F16bit :: u32 where "CNV_F16bit = 0x4000"
definition CNV_F24bit :: u32 where "CNV_F24bit = 0x8000"
definition CNV_F32bit :: u32 where "CNV_F32bit = 0x10000"
definition CNV_Tlog :: u32 where "CNV_Tlog = 0x100000"
definition CNV_T8bit :: u32 where "CNV_T8bit = 0x200000"
definition CNV_T16bit :: u32 where "CNV_T16bit = 0x400000"
definition CNV_T24bit :: u32 where "CNV_T24bit = 0x800000"
definition CNV_T32bit :: u32 where "CNV_T32bit = 0x1000000"
definition CNV_SIGN :: u32 where "CNV_SIGN = 0x10000000"
definition CNV_ENDIAN :: u32 where "CNV_ENDIAN = 0x20000000"
definition CNV_TOLOG :: u32 where "CNV_TOLOG = 0x40000000"
definition CNV_FROMLOG :: u32 where "CNV_FROMLOG = 0x80000000"

lemmas cnv_flags = CNV_SRC_def CNV_M2S_def CNV_S2M_def CNV_MULT_def CNV_Flog_def CNV_F8bit_def
  CNV_F16bit_def CNV_F24bit_def CNV_F32bit_def CNV_Tlog_def CNV_T8bit_def CNV_T16bit_def
  CNV_T24bit_def CNV_T32bit_def CNV_SIGN_def CNV_ENDIAN_def CNV_TOLOG_def CNV_FROMLOG_def

definition select_converter :: "u32 \<Rightarrow> audio_format_info_t \<Rightarrow> audio_format_info_t \<Rightarrow> converter" where
  "select_converter cnv src_f tgt_f =
     (if cnv = CNV_SRC \<and> fi_fmt src_f AND (CONVERTABLE_FORMATS AND NOT AFMT_MU_LAW) \<noteq> 0
         \<and> fi_endianess src_f = ENDIAN_LITTLE then Cnv_SrcOnly
      else if cnv AND CNV_SRC \<noteq> 0 then Cnv_Default
      else if fi_endianess src_f \<noteq> fi_endianess tgt_f then Cnv_Default
      else if fi_endianess src_f \<noteq> ENDIAN_LITTLE then Cnv_Default
      else if cnv = CNV_F8bit OR CNV_T16bit then Cnv_F8_T16
      else if cnv = CNV_F8bit OR CNV_T32bit then Cnv_F8_T32
      else if cnv = CNV_F16bit OR CNV_T32bit then Cnv_F16_T32
      else if cnv = CNV_F32bit OR CNV_T16bit then Cnv_F32_T16
      else if cnv = CNV_F32bit OR CNV_T8bit then Cnv_F32_T8
      else if cnv = CNV_F16bit OR CNV_T8bit then Cnv_F16_T8
      else Cnv_Default)"

text \<open>\<open>(e * a) / b\<close> in \<open>int\<close>; \<open>None\<close> for a division by zero or an overflow.\<close>

definition c_int :: "int \<Rightarrow> bool" where
  "c_int x \<longleftrightarrow> - (2 ^ 31) \<le> x \<and> x < 2 ^ 31"

definition mul_div :: "int \<Rightarrow> int \<Rightarrow> int \<Rightarrow> int option" where
  "mul_div e a b = (if b = 0 \<or> \<not> c_int (e * a) \<or> \<not> c_int ((e * a) sdiv b) then None else Some ((e * a) sdiv b))"

definition expand_of ::
  "sample_parms \<Rightarrow> sample_parms \<Rightarrow> audio_format_info_t \<Rightarrow> audio_format_info_t \<Rightarrow> int option" where
  "expand_of source target src_f tgt_f =
     Option.bind (mul_div UNIT_EXPAND (sp_rate target) (sp_rate source)) (\<lambda>e.
     Option.bind (mul_div e (int (sp_channels target)) (int (sp_channels source))) (\<lambda>e.
     mul_div e (fi_bits tgt_f) (fi_bits src_f)))"

definition from_bits :: "int \<Rightarrow> u32" where
  "from_bits bits = (if bits = 8 then CNV_F8bit else if bits = 16 then CNV_F16bit
     else if bits = 24 then CNV_F24bit else if bits = 32 then CNV_F32bit else CNV_Flog)"

definition to_bits :: "int \<Rightarrow> u32" where
  "to_bits bits = (if bits = 8 then CNV_T8bit else if bits = 16 then CNV_T16bit
     else if bits = 24 then CNV_T24bit else if bits = 32 then CNV_T32bit else CNV_Tlog)"

definition channel_mode :: "nat \<Rightarrow> nat \<Rightarrow> u32" where
  "channel_mode sc tc =
     (if sc = tc then 0
      else if 2 < tc \<or> 2 < sc then CNV_MULT
      else if sc = 1 \<and> tc = 2 then CNV_M2S
      else CNV_S2M)"

definition format_mode :: "audio_format_info_t \<Rightarrow> audio_format_info_t \<Rightarrow> u32" where
  "format_mode s t =
     (let both = (fi_endianess s \<noteq> ENDIAN_NONE \<and> fi_endianess t \<noteq> ENDIAN_NONE) in
      (if fi_endianess s \<noteq> fi_endianess t \<and> both then CNV_ENDIAN else 0) OR
      (if both \<and> fi_is_signed s \<noteq> fi_is_signed t then CNV_SIGN else 0) OR
      (if fi_bits s \<noteq> fi_bits t then from_bits (fi_bits s) OR to_bits (fi_bits t) else 0) OR
      (if \<not> fi_is_linear s then CNV_FROMLOG else 0) OR
      (if \<not> fi_is_linear t then CNV_TOLOG else 0))"

definition convert_bits ::
  "sample_parms \<Rightarrow> sample_parms \<Rightarrow> audio_format_info_t \<Rightarrow> audio_format_info_t \<Rightarrow> u32" where
  "convert_bits source target src_f tgt_f =
     (if sp_rate source \<noteq> sp_rate target then CNV_SRC else 0) OR
     channel_mode (sp_channels source) (sp_channels target) OR
     (if sp_fmt source \<noteq> sp_fmt target then format_mode src_f tgt_f else 0)"

text \<open>The temporary buffers: an existing one is kept, a missing one is allocated.\<close>

definition alloc_tmpbufs :: "bytes option \<Rightarrow> bytes option \<Rightarrow> 'g cnv_dmap \<Rightarrow> 'g cnv_dmap" where
  "alloc_tmpbufs m1 m2 d = d\<lparr>tmpbuf_len := 0, tmpbuf_ptr := 0,
     tmpbuf1 := (case tmpbuf1 d of None \<Rightarrow> m1 | Some x \<Rightarrow> Some x),
     tmpbuf2 := (case tmpbuf2 d of None \<Rightarrow> m2 | Some x \<Rightarrow> Some x)\<rparr>"

definition setup_tail ::
  "'g grc3 \<Rightarrow> bytes option \<Rightarrow> bytes option \<Rightarrow> (nat \<Rightarrow> 'g option) \<Rightarrow> u32 \<Rightarrow> 'g cnv_dmap
    \<Rightarrow> sample_parms \<Rightarrow> sample_parms \<Rightarrow> (sample_parms \<times> sample_parms, 'g) cnv_result" where
  "setup_tail K m1 m2 new cnv d source target =
     (let d = alloc_tmpbufs m1 m2 d in
      if tmpbuf1 d = None \<or> tmpbuf2 d = None then Some (Inl OSS_ENOSPC, d)
      else if cnv AND CNV_SRC \<noteq> 0 then
        and_then (setup_src K new d (sp_rate source) (sp_rate target) (sp_channels source) (sp_channels target))
          (\<lambda>u d. Some (Inr (source, target), d))
      else Some (Inr (source, target), d))"

text \<open>The result holds the parameters as well, which the code updates in place for AC3.\<close>

definition setup_format_conversions ::
  "'g grc3 \<Rightarrow> bytes option \<Rightarrow> bytes option \<Rightarrow> (nat \<Rightarrow> 'g option) \<Rightarrow> 'g cnv_dmap
    \<Rightarrow> sample_parms \<Rightarrow> sample_parms \<Rightarrow> (sample_parms \<times> sample_parms, 'g) cnv_result" where
  "setup_format_conversions K m1 m2 new d source target =
     (let d = d\<lparr>expand_factor := UNIT_EXPAND\<rparr> in
      if sp_fmt source = AFMT_AC3 then
        Some (Inr (source\<lparr>sp_channels := 2, sp_rate := sp_rate target\<rparr>, target\<lparr>sp_channels := 2, sp_fmt := sp_fmt source\<rparr>),
              d\<lparr>convert_mode := 0, convert_func := None\<rparr>)
      else case oss_find_format (sp_fmt source) of None \<Rightarrow> Some (Inl OSS_EIO, d) | Some src_f \<Rightarrow>
        case oss_find_format (sp_fmt target) of None \<Rightarrow> Some (Inl OSS_EIO, d) | Some tgt_f \<Rightarrow>
        if OSS_MAX_CONVERT_CHANNELS < sp_channels source \<or> OSS_MAX_CONVERT_CHANNELS < sp_channels target
        then Some (Inl OSS_EIO, d\<lparr>dm_flags := dm_flags d AND NOT DMAP_COOKED\<rparr>)
        else case expand_of source target src_f tgt_f of None \<Rightarrow> None | Some expand \<Rightarrow>
          let cnv = convert_bits source target src_f tgt_f;
              d = d\<lparr>expand_factor := expand, convert_mode := cnv,
                    convert_func := Some (select_converter cnv src_f tgt_f)\<rparr>
          in setup_tail K m1 m2 new cnv d source target)"

text \<open>How many bytes the audio core feeds to a converter at once: on the recording side the
  limit before the truncation to whole frames, on the playback side the number of bytes taken of
  \<open>c\<close> left to write and \<open>l\<close> of them aligned, with \<open>spc\<close> bytes of space in the device's buffer.\<close>

definition convert_limit :: "int \<Rightarrow> int" where
  "convert_limit expand =
     (let max = (if UNIT_EXPAND < expand then TMP_CONVERT_MAX * UNIT_EXPAND div expand else TMP_CONVERT_MAX)
      in if TMP_CONVERT_MAX < max then TMP_CONVERT_MAX else max)"

definition write_chunk :: "int \<Rightarrow> int \<Rightarrow> int \<Rightarrow> int \<Rightarrow> int \<Rightarrow> int" where
  "write_chunk c l spc expand frame_size =
     (let spc = (if TMP_CONVERT_MAX < spc then TMP_CONVERT_MAX div 2 else spc);
          max = (if UNIT_EXPAND < expand \<and> int TMP_CONVERT_BUF_SIZE < spc * expand div UNIT_EXPAND
                 then int TMP_CONVERT_BUF_SIZE * UNIT_EXPAND div expand else spc);
          max = (if max < frame_size then frame_size else max);
          max = (if TMP_CONVERT_MAX < max then TMP_CONVERT_MAX div 2 else max);
          l = (if max < l then max else l);
          l = (if c - l < 64 then c else l);
          l = (l + frame_size - 1) div frame_size * frame_size
      in if c < l then c else l)"

end
