(* ===== verification/Audio_Format_Laws.thy ===== *)
theory Audio_Format_Laws
  imports Audio_Convert
begin

text \<open>
  Samples and buffers: the encodings of 16 and 32 bit words are inverse to each other, and a
  loop over the groups of a buffer maps its units. The default converter is refined from a
  specification on frames of samples; the round trips, the fast converters and the channel
  conversions follow from it.
\<close>

section \<open>Words as bytes\<close>

lemma bit_u8_beyond [simp]: "8 \<le> n \<Longrightarrow> \<not> bit (a :: u8) n"
  using bit_imp_le_length[of a n] by auto

lemma bit_u16_beyond [simp]: "16 \<le> n \<Longrightarrow> \<not> bit (a :: u16) n"
  using bit_imp_le_length[of a n] by auto

lemma bit_u32_beyond [simp]: "32 \<le> n \<Longrightarrow> \<not> bit (a :: u32) n"
  using bit_imp_le_length[of a n] by auto

lemma length_bytes [simp]: "length (bytes16 h) = 2" "length (bytes32 w) = 4"
  by (simp_all add: bytes16_def bytes32_def)

lemma le16_bytes16 [simp]: "le16 (bytes16 h @ r) = h" "le16 (bytes16 h) = h"
  by (rule bit_word_eqI; auto simp: le16_def bytes16_def bit_simps)+

lemma le32_bytes32 [simp]: "le32 (bytes32 w @ r) = w" "le32 (bytes32 w) = w"
proof -
  have a: "bit (le32 (bytes32 w @ s)) n \<longleftrightarrow> bit w n" if "n < 32" for s n
  proof -
    consider "n < 8" | "8 \<le> n" "n < 16" | "16 \<le> n" "n < 24" | "24 \<le> n" by linarith
    then show ?thesis
      using that by cases (auto simp: le32_def bytes32_def bit_simps)
  qed
  show "le32 (bytes32 w @ r) = w" by (rule bit_word_eqI) (simp add: a)
  show "le32 (bytes32 w) = w" using a[where s = "[]"] by (intro bit_word_eqI) simp
qed

lemma length_2: "length x = 2 \<Longrightarrow> x = [x ! 0, x ! 1]"
  by (cases x; cases "tl x"; cases "tl (tl x)") auto

lemma length_3: "length x = 3 \<Longrightarrow> x = [x ! 0, x ! 1, x ! 2]"
  by (cases x; cases "tl x"; cases "tl (tl x)"; cases "tl (tl (tl x))") auto

lemma length_4: "length x = 4 \<Longrightarrow> x = [x ! 0, x ! 1, x ! 2, x ! 3]"
  by (cases x; cases "tl x"; cases "tl (tl x)"; cases "tl (tl (tl x))"; cases "tl (tl (tl (tl x)))") auto

lemma bytes16_le16: 
  assumes "length x = 2"
  shows "bytes16 (le16 x) = x"
proof -
  have "bytes16 (le16 [a, b]) = [a, b]" for a b
    by (auto simp: le16_def bytes16_def bit_simps intro!: bit_word_eqI)
  then show ?thesis using length_2[OF assms] by metis
qed

lemma bytes32_le32:
  assumes "length x = 4"
  shows "bytes32 (le32 x) = x"
proof -
  have "bytes32 (le32 [a, b, c, d]) = [a, b, c, d]" for a b c d
    by (auto simp: le32_def bytes32_def bit_simps intro!: bit_word_eqI)
  then show ?thesis using length_4[OF assms] by metis
qed

lemma swap32_swap32 [simp]: "swap32 (swap32 w) = w"
proof -
  have "swap32 w = le32 (rev (bytes32 w))" for w
    by (simp add: swap32_def bytes32_def Let_def)
  then show ?thesis
    by (simp add: bytes32_le32)
qed

section \<open>Buffers\<close>

text \<open>\<open>holds b bs\<close>: the converted bytes in the first buffer are \<open>bs\<close>; \<open>room n b\<close>: both buffers
  have at least \<open>n\<close> bytes.\<close>

definition holds :: "cnv_buf \<Rightarrow> bytes \<Rightarrow> bool" where
  "holds b bs \<longleftrightarrow> cnt b = length bs \<and> take (length bs) (p1 b) = bs"

definition room :: "nat \<Rightarrow> cnv_buf \<Rightarrow> bool" where
  "room n b \<longleftrightarrow> n \<le> length (p1 b) \<and> n \<le> length (p2 b)"

lemma holds_cnt: "holds b bs \<Longrightarrow> cnt b = length bs"
  by (simp add: holds_def)

lemma holds_fits: "holds b bs \<Longrightarrow> length bs \<le> length (p1 b)"
  unfolding holds_def by (metis length_take min.absorb_iff2 min.commute)

lemma holds_unique: "holds b bs \<Longrightarrow> holds b cs \<Longrightarrow> bs = cs"
  by (simp add: holds_def)

lemma length_concat_const: "\<forall>u \<in> set us. length u = k \<Longrightarrow> length (concat us) = k * length us"
  by (induction us) auto

lemma take_drop_concat:
  assumes "\<forall>u \<in> set us. length u = k" and "i < length us"
  shows "take k (drop (k * i) (concat us @ r)) = us ! i"
  using assms
proof (induction us arbitrary: i)
  case (Cons u us)
  then show ?case by (cases i) (simp_all add: drop_append)
qed simp

lemma groups_concat:
  assumes "\<forall>u \<in> set us. length u = k" and "take (k * length us) bs = concat us"
  shows "groups k (length us) bs = us"
proof -
  have bs: "bs = concat us @ drop (k * length us) bs" using assms(2) by (metis append_take_drop_id)
  have "take k (drop (k * i) bs) = us ! i" if "i < length us" for i
    using take_drop_concat[OF assms(1) that] bs by metis
  then show ?thesis
    unfolding groups_def by (intro list_eq_iff_nth_eq[THEN iffD2]) simp
qed

lemma emit_holds:
  assumes "length out \<le> length (p2 b)" and "n = length out"
  shows "\<exists>b'. emit out n b = Some b' \<and> holds b' out \<and> (\<forall>m. room m b \<longrightarrow> room m b')"
  using assms by (auto simp: emit_def holds_def room_def)

text \<open>A loop over the units of a buffer maps them.\<close>

lemma stage_holds:
  assumes "holds b (concat us)" and "\<forall>u \<in> set us. length u = k" and "\<forall>u \<in> set us. length (f u) = m"
    and "m * length us \<le> length (p2 b)" and "l = length us" and "n = m * length us"
  shows "\<exists>b'. stage k f l n b = Some b' \<and> holds b' (concat (map f us)) \<and> (\<forall>r. room r b \<longrightarrow> room r b')"
proof -
  have len: "length (concat us) = k * length us" by (rule length_concat_const[OF assms(2)])
  have "groups k l (p1 b) = us"
    using assms(1,2,5) len by (auto simp: holds_def intro: groups_concat)
  moreover have "length (concat (map f us)) = m * length us"
    using length_concat_const[of "map f us" m] assms(3) by simp
  ultimately show ?thesis
    using emit_holds[of "concat (map f us)" b n] holds_fits[OF assms(1)] assms(4-6) len
    by (simp add: stage_def)
qed

section \<open>The formats as codecs\<close>

text \<open>The bytes of a sample, its decoding to 24 bits and its encoding, for the formats the
  default converter knows.\<close>

definition convertable :: "u32 \<Rightarrow> bool" where
  "convertable f \<longleftrightarrow> f \<in> set [AFMT_U8, AFMT_S8, AFMT_MU_LAW, AFMT_S16_LE, AFMT_S16_BE, AFMT_S24_LE,
     AFMT_S24_BE, AFMT_S32_LE, AFMT_S32_BE, AFMT_S24_PACKED]"

definition width :: "u32 \<Rightarrow> nat" where
  "width f = (if f \<in> set [AFMT_U8, AFMT_S8, AFMT_MU_LAW] then 1
     else if f \<in> set [AFMT_S16_LE, AFMT_S16_BE] then 2 else if f = AFMT_S24_PACKED then 3 else 4)"

definition decode :: "u32 \<Rightarrow> bytes \<Rightarrow> u32" where
  "decode f x =
     (if f = AFMT_S24_LE then le32 x
      else if f = AFMT_U8 then from_u8 (x ! 0)
      else if f = AFMT_S8 then from_s8 (x ! 0)
      else if f = AFMT_MU_LAW then from_mu_law (x ! 0)
      else if f = AFMT_S16_LE then from_s16_ne (le16 x)
      else if f = AFMT_S16_BE then from_s16_oe (le16 x)
      else if f = AFMT_S32_LE then from_s32_ne (le32 x)
      else if f = AFMT_S32_BE then from_s32_oe (le32 x)
      else if f = AFMT_S24_BE then from_s24_oe (le32 x)
      else from_s24_packed x)"

definition encode :: "u32 \<Rightarrow> u32 \<Rightarrow> bytes" where
  "encode f w =
     (if f = AFMT_S24_LE then bytes32 w
      else if f = AFMT_U8 then [to_u8 w]
      else if f = AFMT_S8 then [to_s8 w]
      else if f = AFMT_MU_LAW then [to_mu_law w]
      else if f = AFMT_S16_LE then bytes16 (to_s16_ne w)
      else if f = AFMT_S16_BE then to_s16_oe w
      else if f = AFMT_S32_LE then bytes32 (to_s32_ne w)
      else if f = AFMT_S32_BE then bytes32 (to_s32_oe w)
      else if f = AFMT_S24_BE then bytes32 (to_s24_oe w)
      else to_s24_packed w)"

lemmas format_cases = convertable_def[unfolded list.set insert_iff empty_iff, simplified]

lemma length_encode: "convertable f \<Longrightarrow> length (encode f w) = width f"
  by (auto simp: format_cases encode_def width_def afmt_defs to_s16_oe_def to_s24_packed_def Let_def)

lemma width_bounds [simp]: "0 < width f" "width f \<le> 4"
  by (auto simp: width_def)

lemma to_24bit_holds:
  assumes "convertable f" and "holds b (concat us)" and "\<forall>u \<in> set us. length u = width f"
    and "room (4 * length us) b"
  shows "\<exists>b'. to_24bit f b = Some (Inr b') \<and> holds b' (concat (map (bytes32 \<circ> decode f) us)) \<and>
    (\<forall>r. room r b \<longrightarrow> room r b')"
proof -
  have c: "cnt b = width f * length us"
    using length_concat_const[OF assms(3)] holds_cnt[OF assms(2)] by simp
  have room: "4 * length us \<le> length (p2 b)" using assms(4) by (simp add: room_def)
  have st: "\<exists>b'. map_option Inr (stage (width f) g (length us) (4 * length us) b) = Some (Inr b' :: cnv_buf oss_result) \<and>
      holds b' (concat (map g us)) \<and> (\<forall>r. room r b \<longrightarrow> room r b')" if "\<And>x. length (g x) = 4" for g
    using stage_holds[OF assms(2,3), of g 4] that room by auto
  show ?thesis
  proof (cases "f = AFMT_S24_LE")
    case True
    then have "map (bytes32 \<circ> decode f) us = us"
      using assms(3) by (intro map_idI) (simp add: decode_def width_def afmt_defs bytes32_le32)
    with True assms(2) show ?thesis by (simp add: to_24bit_def)
  next
    case False
    let ?g = "bytes32 \<circ> decode f"
    have "to_24bit f b = map_option Inr (stage (width f) ?g (length us) (4 * length us) b)"
      using assms(1) False c
      by (auto simp: format_cases to_24bit_def decode_def width_def afmt_defs comp_def mult.commute)
    then show ?thesis using st[of ?g] by simp
  qed
qed

lemma from_24bit_holds:
  assumes "convertable f" and "holds b (concat (map bytes32 ws))" and "room (4 * length ws) b"
  shows "\<exists>b'. from_24bit f b = Some (Inr b') \<and> holds b' (concat (map (encode f) ws)) \<and>
    (\<forall>r. room r b \<longrightarrow> room r b')"
proof -
  have u4: "\<forall>u \<in> set (map bytes32 ws). length u = 4" by simp
  have c: "cnt b = 4 * length ws"
    using length_concat_const[OF u4] holds_cnt[OF assms(2)] by simp
  show ?thesis
  proof (cases "f = AFMT_S24_LE")
    case True
    with assms(2) show ?thesis by (simp add: from_24bit_def encode_def[abs_def])
  next
    case False
    let ?g = "\<lambda>x. encode f (le32 x)"
    have "from_24bit f b = map_option Inr (stage 4 ?g (length ws) (width f * length ws) b)"
      using assms(1) False c
      by (auto simp: format_cases from_24bit_def encode_def width_def afmt_defs mult.commute)
    moreover have "width f * length ws \<le> length (p2 b)"
      by (rule order_trans[OF mult_le_mono1[OF width_bounds(2)]]) (use assms(3) in \<open>simp add: room_def\<close>)
    moreover have "map ?g (map bytes32 ws) = map (encode f) ws" by simp
    ultimately show ?thesis
      using stage_holds[OF assms(2) u4, of ?g "width f"] length_encode[OF assms(1)] by (auto simp: comp_def)
  qed
qed

section \<open>Channels\<close>

text \<open>What becomes of a frame of \<open>sc\<close> samples.\<close>

definition remix :: "nat \<Rightarrow> nat \<Rightarrow> u32 list \<Rightarrow> u32 list" where
  "remix sc tc fr =
     (if sc = tc then fr else if sc = 1 \<and> tc = 2 then fr @ fr else take tc fr @ replicate (tc - sc) 0)"

lemma length_remix: "length fr = sc \<Longrightarrow> length (remix sc tc fr) = tc"
  by (auto simp: remix_def)

lemma bytes32_0: "bytes32 0 = replicate 4 0"
  by (simp add: bytes32_def numeral_eq_Suc)

lemma take_concat_const:
  "\<forall>u \<in> set us. length u = k \<Longrightarrow> take (k * n) (concat us) = concat (take n us)"
proof (induction us arbitrary: n)
  case (Cons u us)
  then show ?case by (cases n) simp_all
qed simp

lemma concat_replicate_const: "concat (replicate n (replicate k x)) = replicate (k * n) x"
  by (induction n) (simp_all add: replicate_add)

lemma frame_channels_samples:
  assumes "length fr = sc"
  shows "frame_channels sc tc (concat (map bytes32 fr))
    = concat (map bytes32 (take tc fr @ replicate (tc - sc) 0))"
proof -
  have "\<forall>u \<in> set (map bytes32 fr). length u = 4" by simp
  from take_concat_const[OF this, of "min sc tc"]
  have "take (4 * min sc tc) (concat (map bytes32 fr)) = concat (map bytes32 (take tc fr))"
    using assms by (cases "sc \<le> tc") (simp_all add: take_map)
  then show ?thesis
    by (simp add: frame_channels_def bytes32_0 concat_replicate_const)
qed

lemma concat_concat_map: "concat (map (\<lambda>fr. concat (map g fr)) frs) = concat (map g (concat frs))"
  by (induction frs) auto

text \<open>The channel conversions remix the frames.\<close>

lemma convert_channels_holds:
  assumes frs: "\<forall>fr \<in> set frs. length fr = sc" and sc: "0 < sc"
    and h: "holds b (concat (map bytes32 (concat frs)))" and r: "room (4 * tc * length frs) b"
  shows "\<exists>b'. convert_channels sc tc b = Some b' \<and> holds b' (concat (map bytes32 (concat (map (remix sc tc) frs)))) \<and>
    (\<forall>r. room r b \<longrightarrow> room r b')"
proof -
  let ?us = "map (\<lambda>fr. concat (map bytes32 fr)) frs"
  let ?out = "\<lambda>fr. concat (map bytes32 (remix sc tc fr))"
  have h': "holds b (concat ?us)" using h by (simp only: concat_concat_map)
  have lw: "length (concat (map bytes32 ws)) = 4 * length ws" for ws
    using length_concat_const[of "map bytes32 ws" 4] by simp
  have us: "\<forall>u \<in> set ?us. length u = 4 * sc" using frs lw by simp
  have c: "cnt b = 4 * sc * length frs" using length_concat_const[OF us] holds_cnt[OF h'] by simp
  have out: "concat (map ?out frs) = concat (map bytes32 (concat (map (remix sc tc) frs)))"
    using concat_concat_map[of bytes32 "map (remix sc tc) frs"] by (simp add: comp_def)
  have lo: "length (?out fr) = 4 * tc" if "fr \<in> set frs" for fr
    using frs that by (simp add: lw length_remix del: length_concat)
  have p2: "4 * tc * length frs \<le> length (p2 b)" using r by (simp add: room_def)
  have loop: "\<exists>b'. stage (4 * sc) f l n b = Some b' \<and> holds b' (concat (map bytes32 (concat (map (remix sc tc) frs)))) \<and>
      (\<forall>r. room r b \<longrightarrow> room r b')"
    if f: "\<And>fr. fr \<in> set frs \<Longrightarrow> f (concat (map bytes32 fr)) = ?out fr"
      and "l = length frs" and "n = 4 * tc * length frs" for f l n
  proof -
    have "map f ?us = map ?out frs" using f by simp
    then have eq: "concat (map f ?us) = concat (map bytes32 (concat (map (remix sc tc) frs)))" by (simp only: out)
    have "\<forall>u \<in> set ?us. length (f u) = 4 * tc" using f lo by simp
    from stage_holds[OF h' us this, unfolded eq, of l n] show ?thesis using p2 that(2,3) by simp
  qed
  consider "sc = tc" | "sc = 1" "tc = 2" | "sc = 2" "tc = 1" | "sc \<noteq> tc" "\<not> (sc = 1 \<and> tc = 2)" "\<not> (sc = 2 \<and> tc = 1)"
    by blast
  then show ?thesis
  proof cases
    case 1
    then show ?thesis using h by (simp add: convert_channels_def remix_def[abs_def])
  next
    case 2
    have "convert_channels sc tc b = stage (4 * sc) (\<lambda>x. x @ x) (cnt b div 4) (cnt b * 2) b"
      using 2 by (simp add: convert_channels_def mono_to_stereo_def)
    then show ?thesis using loop[of "\<lambda>x. x @ x"] 2 c by (simp add: remix_def)
  next
    case 3
    have "take 4 (concat (map bytes32 fr)) = ?out fr" if "fr \<in> set frs" for fr
    proof -
      have "length fr = 2" using frs that 3 by simp
      then obtain x y where "fr = [x, y]" by (auto simp: numeral_2_eq_2 length_Suc_conv)
      then show ?thesis using 3 by (simp add: remix_def)
    qed
    moreover have "convert_channels sc tc b = stage (4 * sc) (take 4) (cnt b div 2 div 4) (cnt b div 2) b"
      using 3 by (simp add: convert_channels_def stereo_to_mono_def)
    ultimately show ?thesis using loop[of "take 4"] 3 c by simp
  next
    case 4
    have "frame_channels sc tc (concat (map bytes32 fr)) = ?out fr" if "fr \<in> set frs" for fr
      using frame_channels_samples[of fr sc tc] frs that 4 by (auto simp: remix_def)
    then have m: "map (frame_channels sc tc) ?us = map ?out frs" by simp
    have "length (concat (map ?out frs)) = 4 * tc * length frs"
      using length_concat_const[of "map ?out frs" "4 * tc"] lo by simp
    moreover have g: "groups (4 * sc) (length frs) (p1 b) = ?us"
      using groups_concat[OF us, of "p1 b"] h' length_concat_const[OF us] by (simp add: holds_def)
    moreover have "cnt b * tc div sc = 4 * tc * length frs"
      using sc c by (metis (no_types, lifting) mult.assoc mult.commute mult.left_commute nonzero_mult_div_cancel_left not_gr0)
    moreover have "cnt b div 4 div sc = length frs" using c sc by simp
    moreover have "4 * sc * length frs \<le> length (p1 b)"
      using holds_fits[OF h'] length_concat_const[OF us] by simp
    ultimately have "convert_channels sc tc b = emit (concat (map ?out frs)) (4 * tc * length frs) b"
      using 4 sc m by (auto simp: convert_channels_def multi_channels_def Let_def simp del: map_map length_concat)
    then show ?thesis
      using emit_holds[of "concat (map ?out frs)" b] p2 \<open>length (concat (map ?out frs)) = _\<close>
      by (simp add: out del: length_concat)
  qed
qed

section \<open>The default converter\<close>

text \<open>At equal sampling rates the resampling stages do nothing.\<close>

lemma src_stage_off [simp]: "src_stage K False n bits b d = Some (Inr b, d)"
  by (simp add: src_stage_def)

lemma and_then_simps [simp]:
  "and_then (Some (Inr x, d)) f = f x d" "and_then (Some (Inl e, d)) f = Some (Inl e, d)" "and_then None f = None"
  by (simp_all add: and_then_def)

lemma with_dmap_simps [simp]: "with_dmap d (Some r) = Some (r, d)" "with_dmap d None = None"
  by (simp_all add: with_dmap_def)

definition frame_bytes :: "u32 \<Rightarrow> nat \<Rightarrow> bytes list \<Rightarrow> bool" where
  "frame_bytes f n us \<longleftrightarrow> (\<forall>u \<in> set us. length u = width f) \<and> length us = n"

text \<open>The specification of a conversion of frames: decode, remix, encode.\<close>

definition convert_frames :: "u32 \<Rightarrow> u32 \<Rightarrow> nat \<Rightarrow> nat \<Rightarrow> bytes list list \<Rightarrow> bytes" where
  "convert_frames f g sc tc frs =
     concat (map (encode g) (concat (map (\<lambda>fr. remix sc tc (map (decode f) fr)) frs)))"

lemma default_front:
  assumes "convertable (sp_fmt s)" and "sp_rate s = sp_rate t"
    and "0 < sp_channels s" and frs: "\<forall>fr \<in> set frs. frame_bytes (sp_fmt s) (sp_channels s) fr"
    and "holds b (concat (concat frs))"
    and "room (4 * max (sp_channels s) (sp_channels t) * length frs) b"
  shows "\<exists>b' ws. cnv_default K d b s t = with_dmap d (from_24bit (sp_fmt t) b') \<and>
    ws = concat (map (\<lambda>fr. remix (sp_channels s) (sp_channels t) (map (decode (sp_fmt s)) fr)) frs) \<and>
    holds b' (concat (map bytes32 ws)) \<and> room (4 * length ws) b' \<and> (\<forall>r. room r b \<longrightarrow> room r b')"
proof -
  let ?sc = "sp_channels s" and ?tc = "sp_channels t"
  let ?ws = "map (map (decode (sp_fmt s))) frs"
  have len: "length (concat frs) = ?sc * length frs"
    using length_concat_const[of frs ?sc] frs by (simp add: frame_bytes_def)
  have us: "\<forall>u \<in> set (concat frs). length u = width (sp_fmt s)" using frs by (auto simp: frame_bytes_def)
  have mono: "room n b" if "n \<le> 4 * max ?sc ?tc * length frs" for n
    using assms(6) that by (simp add: room_def)
  have r1: "room (4 * length (concat frs)) b" by (rule mono) (simp add: len)
  from to_24bit_holds[OF assms(1,5) us r1] obtain b1 where b1: "to_24bit (sp_fmt s) b = Some (Inr b1)"
    "holds b1 (concat (map (bytes32 \<circ> decode (sp_fmt s)) (concat frs)))" "\<forall>r. room r b \<longrightarrow> room r b1" by auto
  have h1: "holds b1 (concat (map bytes32 (concat ?ws)))" using b1(2) by (simp add: map_concat comp_def)
  have w1: "\<forall>fr \<in> set ?ws. length fr = ?sc" using frs by (auto simp: frame_bytes_def)
  have r2: "room (4 * ?tc * length ?ws) b1" using b1(3) mono[of "4 * ?tc * length frs"] by simp
  from convert_channels_holds[OF w1 assms(3) h1 r2] obtain b2 where b2: "convert_channels ?sc ?tc b1 = Some b2"
    "holds b2 (concat (map bytes32 (concat (map (remix ?sc ?tc) ?ws))))" "\<forall>r. room r b1 \<longrightarrow> room r b2" by auto
  have "length (concat (map (remix ?sc ?tc) ?ws)) = ?tc * length frs"
    using length_concat_const[of "map (remix ?sc ?tc) ?ws" ?tc] w1 by (simp add: length_remix del: length_concat)
  then have r3: "room (4 * length (concat (map (remix ?sc ?tc) ?ws))) b2" using b2(3) r2 by (simp add: mult.assoc)
  have "cnv_default K d b s t = with_dmap d (from_24bit (sp_fmt t) b2)"
    using assms(2) by (simp add: cnv_default_def b1 b2)
  then show ?thesis using b1(3) b2(2,3) r3 by (intro exI[of _ b2]) (simp add: comp_def)
qed

lemma default_converter:
  assumes "convertable (sp_fmt s)" and "convertable (sp_fmt t)" and "sp_rate s = sp_rate t"
    and "0 < sp_channels s" and "\<forall>fr \<in> set frs. frame_bytes (sp_fmt s) (sp_channels s) fr"
    and "holds b (concat (concat frs))"
    and "room (4 * max (sp_channels s) (sp_channels t) * length frs) b"
  shows "\<exists>b'. cnv_default K d b s t = Some (Inr b', d) \<and>
    holds b' (convert_frames (sp_fmt s) (sp_fmt t) (sp_channels s) (sp_channels t) frs) \<and>
    (\<forall>r. room r b \<longrightarrow> room r b')"
proof -
  from default_front[OF assms(1,3-7), of K d] obtain b' ws where
    b': "cnv_default K d b s t = with_dmap d (from_24bit (sp_fmt t) b')"
    and ws: "ws = concat (map (\<lambda>fr. remix (sp_channels s) (sp_channels t) (map (decode (sp_fmt s)) fr)) frs)"
    and h: "holds b' (concat (map bytes32 ws))" "room (4 * length ws) b'" "\<forall>r. room r b \<longrightarrow> room r b'" by blast
  from from_24bit_holds[OF assms(2) h(1,2)] show ?thesis
    using b' h(3) by (auto simp: convert_frames_def ws)
qed

lemma not_convertable_EIO:
  "\<not> convertable f \<Longrightarrow> to_24bit f b = Some (Inl OSS_EIO)"
  "\<not> convertable f \<Longrightarrow> from_24bit f b = Some (Inl OSS_EIO)"
  by (simp_all add: convertable_def to_24bit_def from_24bit_def)

end
