(* ===== verification/Audio_Codecs.thy ===== *)
theory Audio_Codecs
  imports Audio_Format_Laws
begin

text \<open>
  The formats as codecs of 24 bit samples. A carrier keeps the bits from \<open>lo\<close> to 23 of every
  sample it encodes; a codec depends on those bits only and gives its own bytes back. A codec
  survives the trip through every carrier that keeps at least as many bits.
\<close>

section \<open>The interface\<close>

definition agree :: "nat \<Rightarrow> u32 \<Rightarrow> u32 \<Rightarrow> bool" where
  "agree lo w w' \<longleftrightarrow> (\<forall>i. lo \<le> i \<and> i < 24 \<longrightarrow> bit w i = bit w' i)"

lemma agree_mono: "agree lo w w' \<Longrightarrow> lo \<le> hi \<Longrightarrow> agree hi w w'"
  by (simp add: agree_def)

locale sample_carrier =
  fixes lo :: nat and dec :: "bytes \<Rightarrow> u32" and enc :: "u32 \<Rightarrow> bytes"
  assumes carry: "agree lo (dec (enc w)) w"

locale sample_codec = sample_carrier +
  fixes wd :: nat
  assumes narrow: "agree lo w w' \<Longrightarrow> enc w = enc w'"
    and exact: "length u = wd \<Longrightarrow> enc (dec u) = u"
begin

lemma through_carrier:
  assumes "sample_carrier lo' dec' enc'" and "lo' \<le> lo" and "length u = wd"
  shows "enc (dec' (enc' (dec u))) = u"
  using narrow[OF agree_mono[OF sample_carrier.carry[OF assms(1)] assms(2)], of "dec u"] exact[OF assms(3)]
  by simp

end

section \<open>The formats\<close>

lemma word_0x80: "(0x80 :: 'a::len word) = push_bit 7 1"
  by simp

lemma word_0xff: "(0xff :: 'a::len word) = mask 8"
  by (simp add: mask_eq_exp_minus_1)

lemma u8_carry: "agree 16 (from_u8 (to_u8 w)) w"
  unfolding agree_def from_u8_def to_u8_def word_0x80
  by (auto simp: bit_simps)

lemma s8_carry: "agree 16 (from_s8 (to_s8 w)) w"
  unfolding agree_def from_s8_def to_s8_def Let_def
  by (auto simp: bit_simps)

lemma s16_carry: "agree 8 (from_s16_ne (to_s16_ne w)) w"
  unfolding agree_def from_s16_ne_def to_s16_ne_def
  by (auto simp: bit_simps)

lemma s32_carry: "agree 0 (from_s32_ne (to_s32_ne w)) w"
  unfolding agree_def from_s32_ne_def to_s32_ne_def
  by (auto simp: bit_simps)

lemma s32_oe_carry: "agree 0 (from_s32_oe (to_s32_oe w)) w"
  unfolding agree_def from_s32_oe_def to_s32_oe_def
  by (auto simp: bit_simps)

lemma s24_packed_carry: "agree 0 (from_s24_packed (to_s24_packed w)) w"
proof -
  have "bit (from_s24_packed (to_s24_packed w)) i = bit w i" if "i < 24" for i
  proof -
    consider "i < 8" | "8 \<le> i" "i < 16" | "16 \<le> i" by linarith
    then show ?thesis
      using that by cases (auto simp: from_s24_packed_def to_s24_packed_def word_0xff bit_simps)
  qed
  then show ?thesis by (simp add: agree_def)
qed

text \<open>The codecs depend on the bits they keep only, and give their bytes back.\<close>

lemma to_u8_narrow: "agree 16 w w' \<Longrightarrow> to_u8 w = to_u8 w'"
  unfolding agree_def to_u8_def by (intro bit_word_eqI) (auto simp: bit_simps)

lemma to_s8_narrow: "agree 16 w w' \<Longrightarrow> to_s8 w = to_s8 w'"
  unfolding agree_def to_s8_def by (intro bit_word_eqI) (auto simp: bit_simps)

lemma to_s16_ne_narrow: "agree 8 w w' \<Longrightarrow> to_s16_ne w = to_s16_ne w'"
  unfolding agree_def to_s16_ne_def by (intro bit_word_eqI) (auto simp: bit_simps)

lemma to_s24_packed_narrow: "agree 0 w w' \<Longrightarrow> to_s24_packed w = to_s24_packed w'"
  unfolding agree_def to_s24_packed_def by (auto simp: bit_simps word_0xff intro!: bit_word_eqI)

lemma u8_exact: "to_u8 (from_u8 x) = x"
  unfolding from_u8_def to_u8_def word_0x80 by (rule bit_word_eqI) (auto simp: bit_simps)

lemma s8_exact: "to_s8 (from_s8 x) = x"
  unfolding from_s8_def to_s8_def Let_def by (rule bit_word_eqI) (auto simp: bit_simps)

lemma s16_ne_exact: "to_s16_ne (from_s16_ne x) = x"
  unfolding from_s16_ne_def to_s16_ne_def by (rule bit_word_eqI) (auto simp: bit_simps)

lemma s24_packed_exact: "to_s24_packed (from_s24_packed [a, b, c]) = [a, b, c]"
  unfolding from_s24_packed_def to_s24_packed_def word_0xff
  by (auto simp: bit_simps intro!: bit_word_eqI)

text \<open>The number of low bits of a 24 bit sample that a format drops.\<close>

definition format_lo :: "u32 \<Rightarrow> nat" where
  "format_lo f = (if f \<in> set [AFMT_U8, AFMT_S8] then 16 else if f = AFMT_S16_LE then 8 else 0)"

lemmas codec_defs = format_lo_def decode_def encode_def width_def

interpretation u8: sample_codec "format_lo AFMT_U8" "decode AFMT_U8" "encode AFMT_U8" "width AFMT_U8"
proof unfold_locales
  show "encode AFMT_U8 (decode AFMT_U8 u) = u" if "length u = width AFMT_U8" for u
    using that by (auto simp: codec_defs afmt_defs u8_exact length_Suc_conv)
qed (auto simp: codec_defs afmt_defs u8_carry dest: to_u8_narrow)

interpretation s8: sample_codec "format_lo AFMT_S8" "decode AFMT_S8" "encode AFMT_S8" "width AFMT_S8"
proof unfold_locales
  show "encode AFMT_S8 (decode AFMT_S8 u) = u" if "length u = width AFMT_S8" for u
    using that by (auto simp: codec_defs afmt_defs s8_exact length_Suc_conv)
qed (auto simp: codec_defs afmt_defs s8_carry dest: to_s8_narrow)

interpretation s16: sample_codec "format_lo AFMT_S16_LE" "decode AFMT_S16_LE" "encode AFMT_S16_LE" "width AFMT_S16_LE"
proof unfold_locales
  show "encode AFMT_S16_LE (decode AFMT_S16_LE u) = u" if "length u = width AFMT_S16_LE" for u
    using that bytes16_le16[of u] by (simp add: codec_defs afmt_defs s16_ne_exact)
qed (auto simp: codec_defs afmt_defs s16_carry dest: to_s16_ne_narrow)

interpretation packed: sample_codec "format_lo AFMT_S24_PACKED" "decode AFMT_S24_PACKED" "encode AFMT_S24_PACKED" "width AFMT_S24_PACKED"
proof unfold_locales
  show "encode AFMT_S24_PACKED (decode AFMT_S24_PACKED u) = u" if "length u = width AFMT_S24_PACKED" for u
    using that length_3[of u] s24_packed_exact[of "u ! 0" "u ! 1" "u ! 2"] by (simp add: codec_defs afmt_defs)
qed (auto simp: codec_defs afmt_defs s24_packed_carry dest: to_s24_packed_narrow)

interpretation s24: sample_carrier "format_lo AFMT_S24_LE" "decode AFMT_S24_LE" "encode AFMT_S24_LE"
  by unfold_locales (simp add: codec_defs afmt_defs agree_def)

interpretation s24_be: sample_carrier "format_lo AFMT_S24_BE" "decode AFMT_S24_BE" "encode AFMT_S24_BE"
  by unfold_locales (simp add: codec_defs afmt_defs agree_def from_s24_oe_def to_s24_oe_def)

interpretation s32: sample_carrier "format_lo AFMT_S32_LE" "decode AFMT_S32_LE" "encode AFMT_S32_LE"
  by unfold_locales (simp add: codec_defs afmt_defs s32_carry)

interpretation s32_be: sample_carrier "format_lo AFMT_S32_BE" "decode AFMT_S32_BE" "encode AFMT_S32_BE"
  by unfold_locales (simp add: codec_defs afmt_defs s32_oe_carry)

definition exact_format :: "u32 \<Rightarrow> bool" where
  "exact_format f \<longleftrightarrow> f \<in> set [AFMT_U8, AFMT_S8, AFMT_S16_LE, AFMT_S24_PACKED]"

definition carrier_format :: "u32 \<Rightarrow> bool" where
  "carrier_format f \<longleftrightarrow> convertable f \<and> f \<noteq> AFMT_MU_LAW \<and> f \<noteq> AFMT_S16_BE"

lemma exact_format_codec:
  "exact_format f \<Longrightarrow> sample_codec (format_lo f) (decode f) (encode f) (width f)"
  unfolding exact_format_def
  using u8.sample_codec_axioms s8.sample_codec_axioms s16.sample_codec_axioms packed.sample_codec_axioms by auto

lemma carrier_format_carrier:
  "carrier_format f \<Longrightarrow> sample_carrier (format_lo f) (decode f) (encode f)"
  unfolding carrier_format_def format_cases
  using u8.sample_carrier_axioms s8.sample_carrier_axioms s16.sample_carrier_axioms packed.sample_carrier_axioms
    s24.sample_carrier_axioms s24_be.sample_carrier_axioms s32.sample_carrier_axioms s32_be.sample_carrier_axioms by auto

end
