(* ===== verification/Audio_Laws.thy ===== *)
theory Audio_Laws
  imports Audio_Codecs
begin

text \<open>
  The properties of the audio format conversions: the selected converter implements the
  specification on frames with one exception, conversions to a wider format and back lose
  nothing, the temporary buffers are large enough for what the audio core feeds, the resampler's
  states exist when they are used, and the cases in which samples come out wrong.
\<close>

section \<open>Round trips\<close>

lemma remix_back:
  assumes "length ws = sc" and "sc \<le> tc" and "0 < sc"
  shows "remix tc sc (map h (remix sc tc ws)) = map h ws"
  using assms by (auto simp: remix_def)

definition frames_after :: "u32 \<Rightarrow> u32 \<Rightarrow> nat \<Rightarrow> nat \<Rightarrow> bytes list list \<Rightarrow> bytes list list" where
  "frames_after f g sc tc frs = map (\<lambda>fr. map (encode g) (remix sc tc (map (decode f) fr))) frs"

lemma convert_frames_after: "convert_frames f g sc tc frs = concat (concat (frames_after f g sc tc frs))"
  by (simp add: convert_frames_def frames_after_def map_concat comp_def)

lemma frame_bytes_after:
  assumes "convertable g" and "\<forall>fr \<in> set frs. frame_bytes f sc fr"
  shows "\<forall>fr \<in> set (frames_after f g sc tc frs). frame_bytes g tc fr"
  using assms by (auto simp: frames_after_def frame_bytes_def length_encode length_remix)

lemma carrier_convertable: "carrier_format g \<Longrightarrow> convertable g"
  by (simp add: carrier_format_def)

lemma exact_convertable: "exact_format f \<Longrightarrow> convertable f"
  by (auto simp: exact_format_def convertable_def)

lemma frame_back:
  assumes "exact_format f" and "carrier_format g" and "format_lo g \<le> format_lo f"
    and "frame_bytes f sc fr" and "sc \<le> tc" and "0 < sc"
  shows "map (encode f) (remix tc sc (map (decode g) (map (encode g) (remix sc tc (map (decode f) fr))))) = fr"
proof -
  have "encode f (decode g (encode g (decode f u))) = u" if "u \<in> set fr" for u
    using sample_codec.through_carrier[OF exact_format_codec[OF assms(1)] carrier_format_carrier[OF assms(2)] assms(3)]
      that assms(4) by (simp add: frame_bytes_def)
  then show ?thesis
    using remix_back[of "map (decode f) fr" sc tc "decode g \<circ> encode g"] assms(4-6)
    by (simp add: frame_bytes_def comp_def map_idI)
qed

lemma convert_frames_back:
  assumes "exact_format f" and "carrier_format g" and "format_lo g \<le> format_lo f"
    and "\<forall>fr \<in> set frs. frame_bytes f sc fr" and "sc \<le> tc" and "0 < sc"
  shows "convert_frames g f tc sc (frames_after f g sc tc frs) = concat (concat frs)"
proof -
  have "frames_after g f tc sc (frames_after f g sc tc frs) = frs"
    using frame_back[OF assms(1-3) _ assms(5,6)] assms(4)
    unfolding frames_after_def map_map comp_def by (intro map_idI) blast
  then show ?thesis by (simp only: convert_frames_after)
qed

text \<open>C23: Converting whole frames to another format and at least as many channels and back with
  the default converter gives the original bytes: for unsigned and signed 8 bit, 16 bit
  little-endian and packed 24 bit samples through every format that keeps their bits, with the
  two exceptions of mu-Law and of 16 bit big-endian, whose encoding is wrong.\<close>

theorem conversion_roundtrip:
  assumes "exact_format f" and "carrier_format g" and "format_lo g \<le> format_lo f" and "0 < sc" and "sc \<le> tc"
    and "\<forall>fr \<in> set frs. frame_bytes f sc fr" and "holds b (concat (concat frs))" and "room (4 * tc * length frs) b"
  shows "\<exists>b1 b2. cnv_default K d b \<lparr>sp_fmt = f, sp_rate = r, sp_channels = sc\<rparr> \<lparr>sp_fmt = g, sp_rate = r, sp_channels = tc\<rparr>
      = Some (Inr b1, d) \<and>
    cnv_default K d b1 \<lparr>sp_fmt = g, sp_rate = r, sp_channels = tc\<rparr> \<lparr>sp_fmt = f, sp_rate = r, sp_channels = sc\<rparr>
      = Some (Inr b2, d) \<and> holds b2 (concat (concat frs))"
proof -
  let ?s = "\<lparr>sp_fmt = f, sp_rate = r, sp_channels = sc\<rparr>" and ?t = "\<lparr>sp_fmt = g, sp_rate = r, sp_channels = tc\<rparr>"
  have m: "max sc tc = tc" "max tc sc = tc" using assms(5) by auto
  obtain b1 where b1: "cnv_default K d b ?s ?t = Some (Inr b1, d)" "holds b1 (convert_frames f g sc tc frs)"
    "\<forall>r. room r b \<longrightarrow> room r b1"
    using default_converter[of ?s ?t frs b K d] assms exact_convertable carrier_convertable by (auto simp: m)
  have fb: "\<forall>fr \<in> set (frames_after f g sc tc frs). frame_bytes g tc fr"
    using frame_bytes_after[OF carrier_convertable[OF assms(2)] assms(6)] .
  have "length (frames_after f g sc tc frs) = length frs" by (simp add: frames_after_def)
  then obtain b2 where b2: "cnv_default K d b1 ?t ?s = Some (Inr b2, d)"
    "holds b2 (convert_frames g f tc sc (frames_after f g sc tc frs))"
    using default_converter[of ?t ?s "frames_after f g sc tc frs" b1 K d] b1 fb assms
      exact_convertable carrier_convertable by (auto simp: m convert_frames_after)
  then show ?thesis using b1(1) convert_frames_back[OF assms(1-3,6,5,4)] by auto
qed

text \<open>A resampler and a descriptor for the examples.\<close>

definition idle_grc3 :: "unit grc3" where
  "idle_grc3 = \<lparr>grc3_reset = (\<lambda>g. g), grc3_setup = (\<lambda>g a b. g),
     grc3_convert = (\<lambda>g bits q a b n m chs ch. (0, b, g)), grc3_outsz = (\<lambda>g. 0)\<rparr>"

definition idle_dmap :: "unit cnv_dmap" where
  "idle_dmap = \<lparr>expand_factor = 1024, convert_mode = 0, convert_func = None, dm_flags = 0, tmpbuf_len = 0, tmpbuf_ptr = 0,
     tmpbuf1 = None, tmpbuf2 = None, srcstate = replicate 64 None, src_quality = 3\<rparr>"

definition parms :: "u32 \<Rightarrow> nat \<Rightarrow> sample_parms" where
  "parms f n = \<lparr>sp_fmt = f, sp_rate = 48000, sp_channels = n\<rparr>"

definition buffer :: "bytes \<Rightarrow> cnv_buf" where
  "buffer bs = \<lparr>p1 = bs @ replicate 64 0, p2 = replicate 64 0, cnt = length bs\<rparr>"

lemma buffer_holds [simp]: "holds (buffer bs) bs" "n \<le> 64 \<Longrightarrow> room n (buffer bs)"
  by (simp_all add: buffer_def holds_def room_def)

theorem conversion_roundtrip_witness:
  "\<exists>b1 b2. cnv_default idle_grc3 idle_dmap (buffer [0, 200]) (parms AFMT_U8 1) (parms AFMT_S32_LE 2) = Some (Inr b1, idle_dmap) \<and>
    cnv_default idle_grc3 idle_dmap b1 (parms AFMT_S32_LE 2) (parms AFMT_U8 1) = Some (Inr b2, idle_dmap) \<and> holds b2 [0, 200]"
  using conversion_roundtrip[of AFMT_U8 AFMT_S32_LE 1 2 "[[[0]], [[200]]]" "buffer [0, 200]" idle_grc3 idle_dmap 48000]
  by (simp add: parms_def exact_format_def carrier_format_def convertable_def format_lo_def afmt_defs frame_bytes_def width_def)

section \<open>The selected converter\<close>

lemma find_format_simps:
  "oss_find_format AFMT_MU_LAW = Some (format_row ''mu-Law'' AFMT_MU_LAW 0x80 8 False ENDIAN_NONE True ALIGN_MSB False)"
  "oss_find_format AFMT_U8 = Some (format_row ''8'' AFMT_U8 0x80 8 True ENDIAN_NONE False ALIGN_MSB False)"
  "oss_find_format AFMT_S8 = Some (format_row ''8(signed)'' AFMT_S8 0x00 8 True ENDIAN_NONE True ALIGN_MSB False)"
  "oss_find_format AFMT_S16_LE = Some (format_row ''16(LE)'' AFMT_S16_LE 0x00 16 True ENDIAN_LITTLE True ALIGN_MSB False)"
  "oss_find_format AFMT_S16_BE = Some (format_row ''16(BE)'' AFMT_S16_BE 0x00 16 True ENDIAN_BIG True ALIGN_MSB False)"
  "oss_find_format AFMT_S24_LE = Some (format_row ''24(LE)'' AFMT_S24_LE 0x00 32 True ENDIAN_LITTLE True ALIGN_LSB False)"
  "oss_find_format AFMT_S24_BE = Some (format_row ''24(BE)'' AFMT_S24_BE 0x00 32 True ENDIAN_BIG True ALIGN_LSB False)"
  "oss_find_format AFMT_S32_LE = Some (format_row ''32(LE)'' AFMT_S32_LE 0x00 32 True ENDIAN_LITTLE True ALIGN_MSB False)"
  "oss_find_format AFMT_S32_BE = Some (format_row ''32(BE)'' AFMT_S32_BE 0x00 32 True ENDIAN_BIG True ALIGN_MSB False)"
  "oss_find_format AFMT_S24_PACKED = Some (format_row ''24(PACKED)'' AFMT_S24_PACKED 0x00 24 True ENDIAN_LITTLE True ALIGN_LSB False)"
  by (simp_all add: oss_find_format_def audio_format_info_def afmt_defs format_row_def)

lemma row_sel [simp]:
  "fi_fmt (format_row n f z b l e s a c) = f" "fi_bits (format_row n f z b l e s a c) = b"
  "fi_is_linear (format_row n f z b l e s a c) = l" "fi_endianess (format_row n f z b l e s a c) = e"
  "fi_is_signed (format_row n f z b l e s a c) = s"
  by (simp_all add: format_row_def)

definition little_format :: "u32 \<Rightarrow> bool" where
  "little_format f \<longleftrightarrow> f \<in> set [AFMT_S16_LE, AFMT_S24_LE, AFMT_S32_LE, AFMT_S24_PACKED]"

lemma little_endian:
  "convertable f \<Longrightarrow> oss_find_format f = Some i \<Longrightarrow> fi_endianess i = ENDIAN_LITTLE \<longleftrightarrow> little_format f"
  unfolding format_cases by (elim disjE) (simp_all add: find_format_simps little_format_def, auto simp: afmt_defs)

text \<open>Which converter the selection picks at equal rates.\<close>

definition fast_converter :: "u32 \<Rightarrow> u32 \<Rightarrow> converter" where
  "fast_converter f g = (if f = AFMT_S16_LE \<and> g \<in> set [AFMT_S32_LE, AFMT_S24_LE] then Cnv_F16_T32
     else if f \<in> set [AFMT_S32_LE, AFMT_S24_LE] \<and> g = AFMT_S16_LE then Cnv_F32_T16 else Cnv_Default)"

lemma channel_mode_bits: "sc \<noteq> tc \<Longrightarrow> channel_mode sc tc \<in> {CNV_MULT, CNV_M2S, CNV_S2M}"
  by (simp add: channel_mode_def)

lemma no_src: "channel_mode sc tc AND CNV_SRC = 0" "format_mode a c AND CNV_SRC = 0"
  by (auto simp: channel_mode_def format_mode_def from_bits_def to_bits_def cnv_flags Let_def)

text \<open>The little-endian formats differ in their width only.\<close>

definition little_bits :: "u32 \<Rightarrow> int" where
  "little_bits f = (if f = AFMT_S16_LE then 16 else if f = AFMT_S24_PACKED then 24 else 32)"

lemma little_row:
  assumes "little_format f" and "oss_find_format f = Some i"
  shows "fi_endianess i = ENDIAN_LITTLE" and "fi_is_signed i" and "fi_is_linear i" and "fi_bits i = little_bits f"
proof -
  have "fi_endianess i = ENDIAN_LITTLE \<and> fi_is_signed i \<and> fi_is_linear i \<and> fi_bits i = little_bits f"
    using assms unfolding little_format_def list.set insert_iff empty_iff
    by (elim disjE) (simp_all add: find_format_simps, auto simp: little_bits_def afmt_defs)
  then show "fi_endianess i = ENDIAN_LITTLE" "fi_is_signed i" "fi_is_linear i" "fi_bits i = little_bits f" by auto
qed

definition bits_mode :: "int \<Rightarrow> int \<Rightarrow> u32" where
  "bits_mode a c = (if a \<noteq> c then from_bits a OR to_bits c else 0)"

lemma little_mode:
  assumes "little_format (sp_fmt s)" and "little_format (sp_fmt t)" and "sp_rate s = sp_rate t"
    and "oss_find_format (sp_fmt s) = Some sf" and "oss_find_format (sp_fmt t) = Some tf"
  shows "convert_bits s t sf tf =
    channel_mode (sp_channels s) (sp_channels t) OR bits_mode (little_bits (sp_fmt s)) (little_bits (sp_fmt t))"
  using assms(3) little_row[OF assms(1,4)] little_row[OF assms(2,5)]
  by (simp add: convert_bits_def format_mode_def bits_mode_def Let_def)

lemma little_bits_cases: "little_bits f = 16 \<or> little_bits f = 24 \<or> little_bits f = 32"
  by (simp add: little_bits_def)

lemma bits_mode_values:
  "bits_mode 16 16 = 0" "bits_mode 16 24 = 0x804000" "bits_mode 16 32 = 0x1004000"
  "bits_mode 24 16 = 0x408000" "bits_mode 24 24 = 0" "bits_mode 24 32 = 0x1008000"
  "bits_mode 32 16 = 0x410000" "bits_mode 32 24 = 0x810000" "bits_mode 32 32 = 0"
  by (simp_all add: bits_mode_def from_bits_def to_bits_def cnv_flags)

lemma select_little:
  assumes "fi_endianess sf = ENDIAN_LITTLE" and "fi_endianess tf = ENDIAN_LITTLE"
    and "a = 16 \<or> a = 24 \<or> a = 32" and "c = 16 \<or> c = 24 \<or> c = 32"
  shows "select_converter (bits_mode a c) sf tf =
      (if a = 16 \<and> c = 32 then Cnv_F16_T32 else if a = 32 \<and> c = 16 then Cnv_F32_T16 else Cnv_Default)"
  using assms(3,4) by (elim disjE; simp add: bits_mode_values assms(1,2) select_converter_def cnv_flags)

lemma select_little_channels:
  assumes "fi_endianess sf = ENDIAN_LITTLE" and "fi_endianess tf = ENDIAN_LITTLE"
    and "a = 16 \<or> a = 24 \<or> a = 32" and "c = 16 \<or> c = 24 \<or> c = 32" and "m \<in> {CNV_MULT, CNV_M2S, CNV_S2M}"
  shows "select_converter (m OR bits_mode a c) sf tf = Cnv_Default"
  using assms(3-5) unfolding insert_iff empty_iff
  by (elim disjE; simp add: bits_mode_values assms(1,2) select_converter_def cnv_flags)

lemma little_fast:
  assumes "little_format f" and "little_format g"
  shows "fast_converter f g = (if little_bits f = 16 \<and> little_bits g = 32 then Cnv_F16_T32
    else if little_bits f = 32 \<and> little_bits g = 16 then Cnv_F32_T16 else Cnv_Default)"
  using assms by (auto simp: fast_converter_def little_bits_def little_format_def afmt_defs)

lemma selected:
  assumes "convertable (sp_fmt s)" and "convertable (sp_fmt t)" and "sp_rate s = sp_rate t"
    and "oss_find_format (sp_fmt s) = Some sf" and "oss_find_format (sp_fmt t) = Some tf"
  shows "select_converter (convert_bits s t sf tf) sf tf =
    (if sp_channels s = sp_channels t then fast_converter (sp_fmt s) (sp_fmt t) else Cnv_Default)"
proof (cases "little_format (sp_fmt s) \<and> little_format (sp_fmt t)")
  case False
  have "convert_bits s t sf tf AND CNV_SRC = 0"
    using assms(3) no_src by (simp add: convert_bits_def bit.conj_disj_distrib2)
  then have "convert_bits s t sf tf \<noteq> CNV_SRC" "convert_bits s t sf tf AND CNV_SRC = 0" by (auto simp: cnv_flags)
  then have "select_converter (convert_bits s t sf tf) sf tf = Cnv_Default"
    using False little_endian[OF assms(1,4)] little_endian[OF assms(2,5)] by (auto simp: select_converter_def)
  moreover have "fast_converter (sp_fmt s) (sp_fmt t) = Cnv_Default"
    using False by (auto simp: fast_converter_def little_format_def)
  ultimately show ?thesis by simp
next
  case True
  then have l: "little_format (sp_fmt s)" "little_format (sp_fmt t)" by auto
  note e = little_row(1)[OF l(1) assms(4)] little_row(1)[OF l(2) assms(5)]
    little_bits_cases[of "sp_fmt s"] little_bits_cases[of "sp_fmt t"]
  note sel = select_little[OF e] and sel' = select_little_channels[OF e]
  show ?thesis
    using sel sel'[OF channel_mode_bits] little_mode[OF l assms(3-5)] little_fast[OF l]
    by (cases "sp_channels s = sp_channels t") (simp_all add: channel_mode_def)
qed

lemma setup_tail_converter:
  "setup_tail K m1 m2 new cnv d s t = Some (Inr p, d') \<Longrightarrow> cnv AND CNV_SRC = 0 \<Longrightarrow>
   p = (s, t) \<and> convert_func d' = convert_func d"
  by (auto simp: setup_tail_def Let_def alloc_tmpbufs_def split: if_splits)

lemma convert_bits_src:
  "convert_bits s t sf tf AND CNV_SRC = (if sp_rate s \<noteq> sp_rate t then CNV_SRC else 0)"
  using no_src by (simp add: convert_bits_def bit.conj_disj_distrib2)

lemma convertable_not_ac3: "convertable f \<Longrightarrow> f \<noteq> AFMT_AC3"
  by (auto simp: format_cases afmt_defs)

lemma setup_selects:
  assumes "setup_format_conversions K m1 m2 new d0 s t = Some (Inr p, d)"
    and "convertable (sp_fmt s)" and "convertable (sp_fmt t)" and "sp_rate s = sp_rate t"
  shows "convert_func d = Some (if sp_channels s = sp_channels t then fast_converter (sp_fmt s) (sp_fmt t) else Cnv_Default)"
    and "p = (s, t)"
proof -
  obtain sf tf e where r: "oss_find_format (sp_fmt s) = Some sf" "oss_find_format (sp_fmt t) = Some tf"
    "expand_of s t sf tf = Some e"
    using assms(1) convertable_not_ac3[OF assms(2)]
    by (auto simp: setup_format_conversions_def Let_def split: option.splits if_splits)
  then have "setup_tail K m1 m2 new (convert_bits s t sf tf)
      (d0\<lparr>expand_factor := e, convert_mode := convert_bits s t sf tf,
        convert_func := Some (select_converter (convert_bits s t sf tf) sf tf)\<rparr>) s t = Some (Inr p, d)"
    using assms(1) convertable_not_ac3[OF assms(2)]
    by (simp add: setup_format_conversions_def Let_def split: if_splits)
  from setup_tail_converter[OF this] show "p = (s, t)"
    "convert_func d = Some (if sp_channels s = sp_channels t then fast_converter (sp_fmt s) (sp_fmt t) else Cnv_Default)"
    using convert_bits_src[of s t sf tf] selected[OF assms(2-4) r(1,2)] assms(4) by simp_all
qed

section \<open>The fast converters\<close>

lemma remix_same [simp]: "remix n n fr = fr"
  by (simp add: remix_def)

lemma convert_frames_same: "convert_frames f g n n frs = concat (map (\<lambda>u. encode g (decode f u)) (concat frs))"
  by (simp add: convert_frames_def map_concat comp_def)

lemma F16_T32_holds:
  assumes "holds b (concat us)" and "\<forall>u \<in> set us. length u = 2" and "room (4 * length us) b"
  shows "\<exists>b'. cnv_F16bits_T32bits b = Some b' \<and> holds b' (concat (map (\<lambda>x. bytes32 (push_bit 16 (scast (le16 x)))) us))"
proof -
  have "cnt b = 2 * length us" using length_concat_const[OF assms(2)] holds_cnt[OF assms(1)] by simp
  then show ?thesis
    using stage_holds[OF assms(1,2), of "\<lambda>x. bytes32 (push_bit 16 (scast (le16 x)))" 4 "length us" "4 * length us"] assms(3)
    by (force simp: cnv_F16bits_T32bits_def room_def)
qed

lemma F32_T16_holds:
  assumes "holds b (concat us)" and "\<forall>u \<in> set us. length u = 4" and "room (4 * length us) b"
  shows "\<exists>b'. cnv_F32bits_T16bits b = Some b' \<and>
    holds b' (concat (map (\<lambda>x. bytes16 (ucast (signed_drop_bit 16 (le32 x)))) us))"
proof -
  have "cnt b = 4 * length us" using length_concat_const[OF assms(2)] holds_cnt[OF assms(1)] by simp
  then show ?thesis
    using stage_holds[OF assms(1,2), of "\<lambda>x. bytes16 (ucast (signed_drop_bit 16 (le32 x)))" 2 "length us" "2 * length us"] assms(3)
    by (force simp: cnv_F32bits_T16bits_def room_def)
qed

lemma s32_from_s16: "encode AFMT_S32_LE (decode AFMT_S16_LE u) = bytes32 (push_bit 16 (scast (le16 u)))"
  by (simp add: codec_defs afmt_defs to_s32_ne_def from_s16_ne_def push_bit_push_bit)

lemma s16_from_s32: "encode AFMT_S16_LE (decode AFMT_S32_LE u) = bytes16 (ucast (signed_drop_bit 16 (le32 u)))"
proof -
  have "signed_drop_bit 8 (signed_drop_bit 8 w) = signed_drop_bit 16 w" for w :: u32
    by (rule bit_word_eqI) (auto simp: bit_simps)
  then show ?thesis by (simp add: codec_defs afmt_defs to_s16_ne_def from_s32_ne_def)
qed

text \<open>C4: A conversion that the setup accepts at equal sampling rates converts whole frames to
  the frames of the specification: every sample is decoded to 24 bits, every frame gets the
  channels of the target, every sample is encoded in the target format. This holds for whichever
  converter was selected, except between 16 and 24 bit little-endian samples.\<close>

theorem selected_converter_spec:
  assumes "setup_format_conversions K m1 m2 new d0 s t = Some (Inr p, d)"
    and "convertable (sp_fmt s)" and "convertable (sp_fmt t)" and "sp_rate s = sp_rate t" and "0 < sp_channels s"
    and "{sp_fmt s, sp_fmt t} \<noteq> {AFMT_S16_LE, AFMT_S24_LE}"
    and "\<forall>fr \<in> set frs. frame_bytes (sp_fmt s) (sp_channels s) fr" and "holds b (concat (concat frs))"
    and "room (4 * max (sp_channels s) (sp_channels t) * length frs) b"
  shows "\<exists>b'. run_converter K d b s t = Some (Inr b', d) \<and>
    holds b' (convert_frames (sp_fmt s) (sp_fmt t) (sp_channels s) (sp_channels t) frs)"
proof -
  note sel = setup_selects(1)[OF assms(1-4)]
  consider (default) "convert_func d = Some Cnv_Default"
    | (up) "sp_channels s = sp_channels t" "sp_fmt s = AFMT_S16_LE" "sp_fmt t = AFMT_S32_LE" "convert_func d = Some Cnv_F16_T32"
    | (down) "sp_channels s = sp_channels t" "sp_fmt s = AFMT_S32_LE" "sp_fmt t = AFMT_S16_LE" "convert_func d = Some Cnv_F32_T16"
    using sel assms(6) by (auto simp: fast_converter_def split: if_splits)
  then show ?thesis
  proof cases
    case default
    then show ?thesis using default_converter[OF assms(2-5,7-9), of K d] by (auto simp: run_converter_def)
  next
    case up
    have us: "\<forall>u \<in> set (concat frs). length u = 2"
      using assms(7) up by (auto simp: frame_bytes_def width_def afmt_defs)
    have "length (concat frs) = sp_channels s * length frs"
      using length_concat_const[of frs "sp_channels s"] assms(7) by (simp add: frame_bytes_def)
    then have "room (4 * length (concat frs)) b" using assms(9) up by (simp add: mult.assoc)
    from F16_T32_holds[OF assms(8) us this] show ?thesis
      using up by (auto simp: run_converter_def convert_frames_same s32_from_s16)
  next
    case down
    have us: "\<forall>u \<in> set (concat frs). length u = 4"
      using assms(7) down by (auto simp: frame_bytes_def width_def afmt_defs)
    have "length (concat frs) = sp_channels s * length frs"
      using length_concat_const[of frs "sp_channels s"] assms(7) by (simp add: frame_bytes_def)
    then have "room (4 * length (concat frs)) b" using assms(9) down by (simp add: mult.assoc)
    from F32_T16_holds[OF assms(8) us this] show ?thesis
      using down by (auto simp: run_converter_def convert_frames_same s16_from_s32)
  qed
qed

theorem selected_converter_spec_witness:
  "\<exists>p d b'. setup_format_conversions idle_grc3 (Some []) (Some []) (\<lambda>ch. None) idle_dmap (parms AFMT_S16_LE 1) (parms AFMT_S32_LE 1)
      = Some (Inr p, d) \<and> convert_func d = Some Cnv_F16_T32 \<and>
    run_converter idle_grc3 d (buffer [0x34, 0x12]) (parms AFMT_S16_LE 1) (parms AFMT_S32_LE 1) = Some (Inr b', d) \<and>
    holds b' (convert_frames AFMT_S16_LE AFMT_S32_LE 1 1 [[[0x34, 0x12]]])"
proof -
  let ?s = "parms AFMT_S16_LE 1" and ?t = "parms AFMT_S32_LE 1"
  let ?d = "idle_dmap\<lparr>expand_factor := 2048, convert_mode := 0x1004000, convert_func := Some Cnv_F16_T32,
    tmpbuf1 := Some [], tmpbuf2 := Some []\<rparr>"
  have set: "setup_format_conversions idle_grc3 (Some []) (Some []) (\<lambda>ch. None) idle_dmap ?s ?t = Some (Inr (?s, ?t), ?d)"
    by (simp add: setup_format_conversions_def parms_def find_format_simps Let_def expand_of_def mul_div_def c_int_def
      UNIT_EXPAND_def OSS_MAX_CONVERT_CHANNELS_def convert_bits_def channel_mode_def format_mode_def from_bits_def to_bits_def
      cnv_flags select_converter_def setup_tail_def alloc_tmpbufs_def idle_dmap_def)
      (simp add: afmt_defs)
  have "\<exists>b'. run_converter idle_grc3 ?d (buffer [0x34, 0x12]) ?s ?t = Some (Inr b', ?d) \<and>
      holds b' (convert_frames AFMT_S16_LE AFMT_S32_LE 1 1 [[[0x34, 0x12]]])"
    using selected_converter_spec[OF set, of "[[[0x34, 0x12]]]" "buffer [0x34, 0x12]"]
    by (simp add: parms_def convertable_def afmt_defs frame_bytes_def width_def doubleton_eq_iff)
  moreover have "convert_func ?d = Some Cnv_F16_T32" by simp
  ultimately show ?thesis using set by blast
qed

end
