(* ===== verification/Audio_Defects.thy ===== *)
theory Audio_Defects
  imports Audio_Laws
begin

text \<open>
  The cases in which converted samples come out wrong: the fast converters on 24 bit samples in
  32 bit words, the 16 bit big-endian target, and the two source formats that lose their sign;
  and the formats of the table that no converter knows.
\<close>

section \<open>24 bit samples in 32 bit words\<close>

lemma ucast_signed_drop_bit:
  "(ucast (signed_drop_bit k (w :: u32)) :: u16) = word_of_int (sint w div 2 ^ k)"
proof -
  have "(ucast x :: u16) = word_of_int (sint x)" for x :: u32
    by (rule bit_word_eqI) (auto simp: bit_simps bit_sint_iff)
  from this[of "signed_drop_bit k w"] show ?thesis
    by (simp only: sint_signed_drop_bit_eq drop_bit_eq_div)
qed

text \<open>For 24 bit little-endian samples the setup selects the fast converter for 32 bit words,
  because the table gives that format 32 bits: converting them to 16 bits gives each sample
  divided by 65536, where the default converter gives it divided by 256.\<close>

theorem s24_fast_path_scaled:
  assumes "setup_format_conversions K m1 m2 new d0 s t = Some (Inr p, d)"
    and "sp_fmt s = AFMT_S24_LE" and "sp_fmt t = AFMT_S16_LE" and "sp_rate s = sp_rate t"
    and "sp_channels s = sp_channels t" and "0 < sp_channels s" and "length ws = sp_channels s * n"
    and "holds b (concat (map bytes32 ws))" and "room (4 * length ws) b"
  shows "\<exists>b1 b2. run_converter K d b s t = Some (Inr b1, d) \<and>
      holds b1 (concat (map (\<lambda>w. bytes16 (word_of_int (sint w div 65536))) ws)) \<and>
    cnv_default K d b s t = Some (Inr b2, d) \<and>
      holds b2 (concat (map (\<lambda>w. bytes16 (word_of_int (sint w div 256))) ws))"
proof -
  have cv: "convertable (sp_fmt s)" "convertable (sp_fmt t)"
    using assms(2,3) by (simp_all add: convertable_def)
  have sel: "convert_func d = Some Cnv_F32_T16"
    using setup_selects(1)[OF assms(1) cv assms(4)] assms(2,3,5) by (simp add: fast_converter_def afmt_defs)
  have u4: "\<forall>u \<in> set (map bytes32 ws). length u = 4" by simp
  have fast: "\<exists>b1. run_converter K d b s t = Some (Inr b1, d) \<and>
      holds b1 (concat (map (\<lambda>w. bytes16 (word_of_int (sint w div 65536))) ws))"
    using F32_T16_holds[OF assms(8) u4] assms(9) sel
    by (auto simp: run_converter_def comp_def ucast_signed_drop_bit)
  have r: "room (4 * length ws) b" "cnt b = 4 * length ws"
    using assms(8,9) length_concat_const[OF u4] holds_cnt[OF assms(8)] by simp_all
  have "cnv_default K d b s t = with_dmap d (from_24bit AFMT_S16_LE b)"
    using assms(2-5) by (simp add: cnv_default_def to_24bit_def convert_channels_def)
  moreover obtain b2 where "from_24bit AFMT_S16_LE b = Some (Inr b2)"
    "holds b2 (concat (map (encode AFMT_S16_LE) ws))"
    using from_24bit_holds[OF _ assms(8,9), of AFMT_S16_LE] by (auto simp: convertable_def)
  moreover have "encode AFMT_S16_LE w = bytes16 (word_of_int (sint w div 256))" for w
    using ucast_signed_drop_bit[of 8 w] by (simp add: encode_def afmt_defs to_s16_ne_def)
  then have "map (encode AFMT_S16_LE) ws = map (\<lambda>w. bytes16 (word_of_int (sint w div 256))) ws" by simp
  ultimately show ?thesis using fast by auto
qed

lemma idle_setup_s24:
  "\<exists>d. setup_format_conversions idle_grc3 (Some []) (Some []) (\<lambda>ch. None) idle_dmap (parms AFMT_S24_LE 1) (parms AFMT_S16_LE 1)
    = Some (Inr (parms AFMT_S24_LE 1, parms AFMT_S16_LE 1), d)"
  by (simp add: setup_format_conversions_def parms_def find_format_simps Let_def expand_of_def mul_div_def c_int_def
      UNIT_EXPAND_def OSS_MAX_CONVERT_CHANNELS_def convert_bits_def channel_mode_def format_mode_def from_bits_def to_bits_def
      cnv_flags select_converter_def setup_tail_def alloc_tmpbufs_def idle_dmap_def)
    (simp add: afmt_defs)

theorem s24_fast_path_scaled_witness:
  "\<exists>d b1 b2. run_converter idle_grc3 d (buffer [0, 0, 0x40, 0]) (parms AFMT_S24_LE 1) (parms AFMT_S16_LE 1) = Some (Inr b1, d) \<and>
      holds b1 [0x40, 0] \<and>
    cnv_default idle_grc3 d (buffer [0, 0, 0x40, 0]) (parms AFMT_S24_LE 1) (parms AFMT_S16_LE 1) = Some (Inr b2, d) \<and>
      holds b2 [0, 0x40]"
proof -
  obtain d where set: "setup_format_conversions idle_grc3 (Some []) (Some []) (\<lambda>ch. None) idle_dmap
      (parms AFMT_S24_LE 1) (parms AFMT_S16_LE 1) = Some (Inr (parms AFMT_S24_LE 1, parms AFMT_S16_LE 1), d)"
    using idle_setup_s24 by blast
  have "concat (map bytes32 [0x400000]) = [0, 0, 0x40, 0]" by (simp add: bytes32_def)
  moreover have "concat (map (\<lambda>w :: u32. bytes16 (word_of_int (sint w div 65536))) [0x400000]) = [0x40, 0]"
    "concat (map (\<lambda>w :: u32. bytes16 (word_of_int (sint w div 256))) [0x400000]) = [0, 0x40]"
    by (simp_all add: bytes16_def)
  ultimately show ?thesis
    using s24_fast_path_scaled[OF set, of "[0x400000]" 1 "buffer [0, 0, 0x40, 0]"] by (auto simp: parms_def)
qed

section \<open>16 bit big-endian samples\<close>

lemma to_s16_oe_is_ne: "to_s16_oe w = bytes16 (to_s16_ne w)"
  unfolding to_s16_oe_def to_s16_ne_def bytes16_def Let_def word_0xff
  by (auto simp: bit_simps intro!: bit_word_eqI)

text \<open>The bytes of a 16 bit big-endian target come out in little-endian order: at equal rates
  the default converter gives the same bytes as for the little-endian target.\<close>

theorem s16_be_target_not_swapped:
  assumes "convertable (sp_fmt s)" and "sp_rate s = r" and "0 < sp_channels s"
    and "\<forall>fr \<in> set frs. frame_bytes (sp_fmt s) (sp_channels s) fr" and "holds b (concat (concat frs))"
    and "room (4 * max (sp_channels s) tc * length frs) b"
  shows "\<exists>b1 b2 bs. cnv_default K d b s \<lparr>sp_fmt = AFMT_S16_BE, sp_rate = r, sp_channels = tc\<rparr> = Some (Inr b1, d) \<and> holds b1 bs \<and>
    cnv_default K d b s \<lparr>sp_fmt = AFMT_S16_LE, sp_rate = r, sp_channels = tc\<rparr> = Some (Inr b2, d) \<and> holds b2 bs"
proof -
  have "encode AFMT_S16_BE = encode AFMT_S16_LE"
    by (rule ext) (simp add: encode_def afmt_defs to_s16_oe_is_ne)
  then have eq: "convert_frames f AFMT_S16_BE sc tc frs = convert_frames f AFMT_S16_LE sc tc frs" for f sc
    by (simp add: convert_frames_def)
  show ?thesis
    using default_converter[of s "\<lparr>sp_fmt = AFMT_S16_BE, sp_rate = r, sp_channels = tc\<rparr>" frs b K d]
      default_converter[of s "\<lparr>sp_fmt = AFMT_S16_LE, sp_rate = r, sp_channels = tc\<rparr>" frs b K d] assms
    by (simp add: eq) (auto simp: convertable_def)
qed

theorem s16_be_target_not_swapped_witness:
  "\<exists>b1 b2 bs. cnv_default idle_grc3 idle_dmap (buffer [0x12, 0x34]) (parms AFMT_S16_BE 1) (parms AFMT_S16_BE 2)
      = Some (Inr b1, idle_dmap) \<and> holds b1 bs \<and>
    cnv_default idle_grc3 idle_dmap (buffer [0x12, 0x34]) (parms AFMT_S16_BE 1) (parms AFMT_S16_LE 2)
      = Some (Inr b2, idle_dmap) \<and> holds b2 bs"
  using s16_be_target_not_swapped[of "parms AFMT_S16_BE 1" 48000 "[[[0x12, 0x34]]]" "buffer [0x12, 0x34]" 2 idle_grc3 idle_dmap]
  by (simp add: parms_def convertable_def frame_bytes_def width_def afmt_defs)

section \<open>Lost signs\<close>

lemma decode_unsigned:
  assumes "f \<in> set [AFMT_S24_PACKED, AFMT_S32_BE]"
  shows "decode f (encode f w) = take_bit 24 w"
proof (cases "f = AFMT_S24_PACKED")
  case True
  have "bit (from_s24_packed (to_s24_packed w)) i = bit (take_bit 24 w) i" if "i < 32" for i
  proof -
    consider "i < 8" | "8 \<le> i" "i < 16" | "16 \<le> i" "i < 24" | "24 \<le> i" by linarith
    then show ?thesis
      using that by cases (auto simp: from_s24_packed_def to_s24_packed_def word_0xff bit_simps)
  qed
  then show ?thesis using True by (intro bit_word_eqI) (simp add: decode_def encode_def afmt_defs)
next
  case False
  then have "decode f (encode f w) = drop_bit 8 (push_bit 8 w)"
    using assms by (simp add: decode_def encode_def afmt_defs from_s32_oe_def to_s32_oe_def)
  then show ?thesis by (simp, intro bit_word_eqI) (auto simp: bit_simps)
qed

text \<open>Packed 24 bit and 32 bit big-endian samples lose their sign: converted to 24 bit
  little-endian words at an equal rate and number of channels, the samples come out with their
  upper 8 bits cleared, so that a negative sample comes out 2 to the 24 too large, although the
  32 bit big-endian input and 24 bit little-endian output have room for the sign.\<close>

theorem sign_lost:
  assumes "f \<in> set [AFMT_S24_PACKED, AFMT_S32_BE]" and "length ws = n * sc" and "0 < sc"
    and "holds b (concat (map (encode f) ws))" and "room (4 * length ws) b"
  shows "\<exists>b'. cnv_default K d b \<lparr>sp_fmt = f, sp_rate = r, sp_channels = sc\<rparr> \<lparr>sp_fmt = AFMT_S24_LE, sp_rate = r, sp_channels = sc\<rparr>
      = Some (Inr b', d) \<and> holds b' (concat (map (\<lambda>w. bytes32 (take_bit 24 w)) ws))"
proof -
  have cv: "convertable f" using assms(1) by (auto simp: convertable_def)
  have "room (4 * length (map (encode f) ws)) b" using assms(5) by simp
  from to_24bit_holds[OF cv assms(4) _ this] obtain b' where "to_24bit f b = Some (Inr b')"
    "holds b' (concat (map (bytes32 \<circ> decode f) (map (encode f) ws)))"
    using length_encode[OF cv] by auto
  then show ?thesis
    using decode_unsigned[OF assms(1)]
    by (simp add: cnv_default_def convert_channels_def from_24bit_def comp_def)
qed

theorem sign_lost_witness:
  "\<exists>b'. cnv_default idle_grc3 idle_dmap (buffer [0xff, 0xff, 0xff]) (parms AFMT_S24_PACKED 1) (parms AFMT_S24_LE 1)
      = Some (Inr b', idle_dmap) \<and> holds b' [0xff, 0xff, 0xff, 0]"
proof -
  have "encode AFMT_S24_PACKED (- 1) = [0xff, 0xff, 0xff]"
    by (simp add: encode_def afmt_defs to_s24_packed_def)
  moreover have "bytes32 (take_bit 24 (- 1)) = [0xff, 0xff, 0xff, 0]"
    by (simp add: bytes32_def take_bit_minus_one_eq_mask mask_eq_exp_minus_1 drop_bit_eq_div)
  ultimately show ?thesis
    using sign_lost[of AFMT_S24_PACKED "[- 1]" 1 1 "buffer [0xff, 0xff, 0xff]" idle_grc3 idle_dmap 48000]
    by (simp add: parms_def)
qed

end
