(* ===== verification/Audio_Safety.thy ===== *)
theory Audio_Safety
  imports Audio_Laws
begin

text \<open>
  Safety of the audio conversions: the temporary buffers hold every intermediate result of what
  the audio core feeds to a converter, the states of the resampler exist for every channel it is
  run on, and formats without a converter are rejected.
\<close>

section \<open>Room in the temporary buffers\<close>

lemma convertable_bits:
  assumes "convertable f" and "oss_find_format f = Some i"
  shows "fi_bits i = 8 * int (width f)"
  using assms unfolding format_cases
  by (elim disjE) (simp_all add: find_format_simps, auto simp: width_def afmt_defs)

lemma width_set: "1 \<le> width f" "width f \<le> 4"
  by (auto simp: width_def)

lemma sdiv_nonneg: "0 \<le> a \<Longrightarrow> 0 < b \<Longrightarrow> a sdiv b = a div (b :: int)"
  by (cases "a = 0") (simp_all add: signed_divide_int_def)

lemma mult_sdiv_self: "r \<noteq> 0 \<Longrightarrow> 0 < k \<Longrightarrow> (k * r) sdiv r = (k :: int)"
  by (cases "r < 0") (simp_all add: signed_divide_int_def sgn_mult abs_mult)

lemma mul_div_nonneg:
  "mul_div e a b = Some q \<Longrightarrow> 0 \<le> e \<Longrightarrow> 0 \<le> a \<Longrightarrow> 0 < b \<Longrightarrow> q = e * a div b"
  by (auto simp: mul_div_def sdiv_nonneg split: if_splits)

lemma expand_of_equal_rates:
  assumes "expand_of s t sf tf = Some e" and "sp_rate s = sp_rate t" and "0 < sp_channels s"
    and "0 < fi_bits sf" and "0 \<le> fi_bits tf"
  shows "e = UNIT_EXPAND * int (sp_channels t) div int (sp_channels s) * fi_bits tf div fi_bits sf"
proof -
  obtain e1 e2 where e: "mul_div UNIT_EXPAND (sp_rate t) (sp_rate s) = Some e1"
    "mul_div e1 (int (sp_channels t)) (int (sp_channels s)) = Some e2" "mul_div e2 (fi_bits tf) (fi_bits sf) = Some e"
    using assms(1) by (auto simp: expand_of_def bind_eq_Some_conv)
  have "e1 = UNIT_EXPAND"
    using e(1) assms(2) by (auto simp: mul_div_def UNIT_EXPAND_def mult_sdiv_self split: if_splits)
  moreover from this have "e2 = UNIT_EXPAND * int (sp_channels t) div int (sp_channels s)"
    using mul_div_nonneg[OF e(2)] assms(3) by (simp add: UNIT_EXPAND_def)
  moreover have "0 \<le> e2" using calculation assms(3) by (simp add: UNIT_EXPAND_def pos_imp_zdiv_nonneg_iff)
  ultimately show ?thesis using mul_div_nonneg[OF e(3)] assms(4,5) by simp
qed

lemma limit_bounds:
  assumes "0 \<le> len" and "len \<le> convert_limit e" and "0 \<le> e"
  shows "len \<le> 16384" and "len * e \<le> 16777216"
proof -
  have "len \<le> 16384 \<and> len * e \<le> 16777216"
  proof (cases "UNIT_EXPAND < e")
    case True
    then have "len \<le> 16777216 div e" "len \<le> 16384"
      using assms(2) by (auto simp: convert_limit_def TMP_CONVERT_MAX_def UNIT_EXPAND_def Let_def split: if_splits)
    moreover have "16777216 div e * e \<le> 16777216"
      using div_mult_mod_eq[of 16777216 e] pos_mod_sign[of e 16777216] True unfolding UNIT_EXPAND_def by linarith
    ultimately show ?thesis using mult_right_mono[of len "16777216 div e" e] assms(3) by linarith
  next
    case False
    then have "len \<le> 16384" "e \<le> 1024"
      using assms(2) by (simp_all add: convert_limit_def TMP_CONVERT_MAX_def UNIT_EXPAND_def Let_def)
    moreover from this have "len * e \<le> 16384 * 1024" using assms(1,3) by (intro mult_mono) auto
    ultimately show ?thesis by simp
  qed
  then show "len \<le> 16384" "len * e \<le> 16777216" by auto
qed

lemma div_bound: "0 < (b :: int) \<Longrightarrow> a < b * (a div b + 1)"
  unfolding distrib_left mult_1_right using mult_div_mod_eq[of b a] pos_mod_bound[of b a] by linarith

lemma expansion_fits:
  fixes N sc tc sb tb :: int
  assumes e: "e = 1024 * tc div sc * tb div sb" and len: "8 * len = N * sc * sb"
    and b: "len \<le> 16384" "len * e \<le> 16777216" and pos: "0 \<le> N" "0 < sc" "0 \<le> tc" "8 \<le> sb" "8 \<le> tb" "tb \<le> 32"
  shows "4 * (tc * N) \<le> 131072"
proof -
  define E where "E = 1024 * tc div sc"
  have E: "1024 * tc \<le> sc * (E + 1)" using div_bound[of sc "1024 * tc"] pos(2) by (simp add: E_def)
  have X: "E * tb \<le> sb * (e + 1)" using div_bound[of sb "E * tb"] pos(4) by (simp add: e E_def)
  have nsc: "0 \<le> N * sc" "N * sc \<le> len"
  proof -
    show "0 \<le> N * sc" using pos by simp
    then have "N * sc * 8 \<le> N * sc * sb" using pos by (intro mult_left_mono) auto
    then show "N * sc \<le> len" using len by simp
  qed
  have "8 * (1024 * tc * N) \<le> tb * (1024 * tc * N)"
    using pos by (intro mult_right_mono) auto
  also have "\<dots> = N * tb * (1024 * tc)" by (simp add: algebra_simps)
  also have "\<dots> \<le> N * tb * (sc * (E + 1))" using E pos by (intro mult_left_mono) auto
  also have "\<dots> = N * sc * (E * tb) + N * sc * tb" by (simp add: algebra_simps)
  also have "\<dots> \<le> N * sc * (sb * (e + 1)) + N * sc * tb" using X nsc by (intro add_right_mono mult_left_mono) auto
  also have "\<dots> = 8 * (len * e) + 8 * len + N * sc * tb" using len by (simp add: algebra_simps)
  also have "\<dots> \<le> 8 * 16777216 + 8 * 16384 + 16384 * 32"
    using b nsc pos mult_mono[of "N * sc" 16384 tb 32] by linarith
  finally show ?thesis by (simp add: algebra_simps)
qed

text \<open>C36: What the audio core feeds to a converter at once fits: if the setup computed the
  expansion factor \<open>e\<close> for a conversion at equal sampling rates, then whole frames of at most
  \<open>convert_limit e\<close> bytes never make any stage of the default converter leave temporary buffers
  of \<open>TMP_CONVERT_BUF_SIZE\<close> bytes, in spite of the rounding of the factor.\<close>

theorem fed_data_fits:
  assumes "convertable (sp_fmt s)" and "convertable (sp_fmt t)" and "sp_rate s = sp_rate t" and "0 < sp_channels s"
    and "oss_find_format (sp_fmt s) = Some sf" and "oss_find_format (sp_fmt t) = Some tf" and "expand_of s t sf tf = Some e"
    and "\<forall>fr \<in> set frs. frame_bytes (sp_fmt s) (sp_channels s) fr" and "holds b (concat (concat frs))"
    and "int (cnt b) \<le> convert_limit e" and "length (p1 b) = TMP_CONVERT_BUF_SIZE" and "length (p2 b) = TMP_CONVERT_BUF_SIZE"
  shows "\<exists>b'. cnv_default K d b s t = Some (Inr b', d) \<and> cnt b' \<le> TMP_CONVERT_BUF_SIZE"
proof -
  let ?N = "length frs" and ?sc = "sp_channels s" and ?tc = "sp_channels t" and ?w = "width (sp_fmt s)"
  note bits = convertable_bits[OF assms(1,5)] convertable_bits[OF assms(2,6)]
  have "length (concat (concat frs)) = ?w * length (concat frs)"
    using assms(8) by (intro length_concat_const) (auto simp: frame_bytes_def)
  moreover have "length (concat frs) = ?sc * ?N"
    using assms(8) by (intro length_concat_const) (auto simp: frame_bytes_def)
  ultimately have c: "cnt b = ?w * (?sc * ?N)" using holds_cnt[OF assms(9)] by simp
  have e: "e = 1024 * int ?tc div int ?sc * fi_bits tf div fi_bits sf"
    using expand_of_equal_rates[OF assms(7,3,4)] bits by (simp add: UNIT_EXPAND_def)
  have e0: "0 \<le> e" using assms(4) bits by (simp add: e pos_imp_zdiv_nonneg_iff div_int_pos_iff)
  note lim = limit_bounds[OF _ assms(10) e0, simplified]
  have "4 * (int ?tc * int ?N) \<le> 131072"
  proof (rule expansion_fits[OF e])
    show "8 * int (cnt b) = int ?N * int ?sc * fi_bits sf" by (simp add: c bits)
    show "8 \<le> fi_bits sf" "8 \<le> fi_bits tf" "fi_bits tf \<le> 32"
      using width_set[of "sp_fmt s"] width_set[of "sp_fmt t"] by (simp_all add: bits)
  qed (use lim assms(4) in auto)
  then have tc: "4 * (?tc * ?N) \<le> TMP_CONVERT_BUF_SIZE"
    by (simp add: TMP_CONVERT_BUF_SIZE_def flip: of_nat_mult)
  have "?sc * ?N \<le> cnt b" using width_set(1)[of "sp_fmt s"] by (simp add: c)
  then have "4 * (?sc * ?N) \<le> TMP_CONVERT_BUF_SIZE" using lim(1) by (simp add: TMP_CONVERT_BUF_SIZE_def)
  then have "4 * max ?sc ?tc * ?N \<le> TMP_CONVERT_BUF_SIZE" using tc by (simp add: max_def mult.assoc)
  then have "room (4 * max ?sc ?tc * ?N) b" using assms(11,12) by (simp add: room_def)
  from default_converter[OF assms(1-4,8,9) this, of K d] obtain b' where b': "cnv_default K d b s t = Some (Inr b', d)"
    "holds b' (convert_frames (sp_fmt s) (sp_fmt t) ?sc ?tc frs)" "\<forall>r. room r b \<longrightarrow> room r b'" by blast
  have "length (convert_frames (sp_fmt s) (sp_fmt t) ?sc ?tc frs) = width (sp_fmt t) * (?tc * ?N)"
  proof -
    have "length (concat (map (\<lambda>fr. remix ?sc ?tc (map (decode (sp_fmt s)) fr)) frs)) = ?tc * ?N"
      using length_concat_const[of "map (\<lambda>fr. remix ?sc ?tc (map (decode (sp_fmt s)) fr)) frs" ?tc] assms(8)
      by (simp add: length_remix frame_bytes_def del: length_concat)
    then show ?thesis
      using length_concat_const[of "map (encode (sp_fmt t)) (concat (map (\<lambda>fr. remix ?sc ?tc (map (decode (sp_fmt s)) fr)) frs))"
          "width (sp_fmt t)"] length_encode[OF assms(2)]
      by (simp add: convert_frames_def del: length_concat)
  qed
  moreover have "width (sp_fmt t) * (?tc * ?N) \<le> 4 * (?tc * ?N)" using width_set by (intro mult_right_mono) auto
  ultimately have "cnt b' \<le> TMP_CONVERT_BUF_SIZE" using holds_cnt[OF b'(2)] tc by linarith
  with b'(1) show ?thesis by blast
qed

theorem fed_data_fits_witness:
  "\<exists>b'. cnv_default idle_grc3 idle_dmap \<lparr>p1 = [1, 2] @ replicate (TMP_CONVERT_BUF_SIZE - 2) 0, p2 = replicate TMP_CONVERT_BUF_SIZE 0, cnt = 2\<rparr>
      (parms AFMT_U8 2) (parms AFMT_S32_LE 6) = Some (Inr b', idle_dmap) \<and> cnt b' \<le> TMP_CONVERT_BUF_SIZE"
proof (rule fed_data_fits[of "parms AFMT_U8 2" "parms AFMT_S32_LE 6" _ _ 12288 "[[[1], [2]]]"])
  show "expand_of (parms AFMT_U8 2) (parms AFMT_S32_LE 6) (format_row ''8'' AFMT_U8 0x80 8 True ENDIAN_NONE False ALIGN_MSB False)
      (format_row ''32(LE)'' AFMT_S32_LE 0x00 32 True ENDIAN_LITTLE True ALIGN_MSB False) = Some 12288"
    by (simp add: expand_of_def parms_def mul_div_def c_int_def UNIT_EXPAND_def)
qed (simp_all add: parms_def convertable_def find_format_simps frame_bytes_def width_def holds_def convert_limit_def
  TMP_CONVERT_MAX_def UNIT_EXPAND_def TMP_CONVERT_BUF_SIZE_def Let_def)

text \<open>The limit of the playback side looks at the size of the converted data only.\<close>

lemma emit_overflow: "length (p2 b) < length out \<Longrightarrow> emit out n b = None"
  by (simp add: emit_def)

lemma multi_overflow:
  assumes "sc \<noteq> tc" and "2 < sc \<or> 2 < tc" and "length (p2 b) < cnt b * tc div sc"
  shows "convert_channels sc tc b = None"
proof (cases "sc = 0")
  case False
  have "emit (xs @ replicate (cnt b * tc div sc - length xs) 0) (cnt b * tc div sc) b = None" for xs
    using assms(3) by (intro emit_overflow) simp
  then show ?thesis using assms(1,2) False by (auto simp: convert_channels_def multi_channels_def Let_def)
qed (use assms in \<open>auto simp: convert_channels_def multi_channels_def\<close>)

text \<open>On the playback side the limit on the bytes fed to a converter lets the temporary
  buffers overflow: when more than 8192 bytes of one channel of 16 bit samples are written to a
  device with 16 channels of 16 bit samples and as much room in its buffer, 8192 bytes are fed at
  once, and the channel conversion of the default converter, which works on 32 bit samples,
  writes past the end of its buffer.\<close>

theorem write_overflows_buffer:
  assumes "fs \<in> {2, 32}" and "64 \<le> c - 8192" and "16384 < spc" and "sp_fmt s = AFMT_S16_LE" and "sp_fmt t = AFMT_S16_LE"
    and "sp_rate s = sp_rate t" and "sp_channels s = 1" and "sp_channels t = 16" and "expand_of s t sf tf = Some e"
    and "fi_bits sf = 16" and "fi_bits tf = 16" and "int (cnt b) = write_chunk c c spc e fs"
    and "length (p1 b) = TMP_CONVERT_BUF_SIZE + 512" and "length (p2 b) = TMP_CONVERT_BUF_SIZE + 512"
  shows "cnv_default K d b s t = None"
proof -
  have e: "e = 16384" using expand_of_equal_rates[OF assms(9,6)] assms(7,8,10,11) by (simp add: UNIT_EXPAND_def)
  have "write_chunk c c spc e fs = 8192"
    using assms(1-3) by (auto simp: e write_chunk_def TMP_CONVERT_MAX_def UNIT_EXPAND_def TMP_CONVERT_BUF_SIZE_def Let_def)
  then have c: "cnt b = 8192" using assms(12) by simp
  define us where "us = groups 2 4096 (p1 b)"
  have us: "\<forall>u \<in> set us. length u = 2" "length us = 4096"
    using assms(13) by (auto simp: us_def groups_def TMP_CONVERT_BUF_SIZE_def)
  have "concat us = take 8192 (p1 b)"
  proof -
    have "concat (groups 2 n bs) = take (2 * n) bs" if "2 * n \<le> length bs" for n bs
      using that by (induction n) (simp_all add: groups_def flip: take_add)
    from this[of 4096 "p1 b"] show ?thesis using assms(13) by (simp add: us_def TMP_CONVERT_BUF_SIZE_def)
  qed
  then have h: "holds b (concat us)" using c assms(13) by (simp add: holds_def TMP_CONVERT_BUF_SIZE_def)
  have "room (4 * length us) b" using assms(13,14) us(2) by (simp add: room_def TMP_CONVERT_BUF_SIZE_def)
  moreover have "\<forall>u \<in> set us. length u = width AFMT_S16_LE" using us(1) by (simp add: width_def afmt_defs)
  moreover have "convertable AFMT_S16_LE" by (simp add: convertable_def)
  ultimately obtain b1 where b1: "to_24bit AFMT_S16_LE b = Some (Inr b1)"
    "holds b1 (concat (map (bytes32 \<circ> decode AFMT_S16_LE) us))" "\<forall>r. room r b \<longrightarrow> room r b1"
    using to_24bit_holds[OF _ h] by blast
  have "cnt b1 = 16384"
    using holds_cnt[OF b1(2)] length_concat_const[of "map (bytes32 \<circ> decode AFMT_S16_LE) us" 4] us(2) by simp
  moreover have "length (p2 b1) = TMP_CONVERT_BUF_SIZE + 512"
    using b1(1) assms(13,14) by (auto simp: to_24bit_def afmt_defs stage_def emit_def split: if_splits)
  ultimately have "convert_channels 1 16 b1 = None"
    by (intro multi_overflow) (simp_all add: TMP_CONVERT_BUF_SIZE_def)
  then show ?thesis using b1(1) assms(4-8) by (simp add: cnv_default_def)
qed

theorem write_overflows_buffer_witness:
  "cnv_default idle_grc3 idle_dmap \<lparr>p1 = replicate (TMP_CONVERT_BUF_SIZE + 512) 0, p2 = replicate (TMP_CONVERT_BUF_SIZE + 512) 0, cnt = 8192\<rparr>
      (parms AFMT_S16_LE 1) (parms AFMT_S16_LE 16) = None"
proof (rule write_overflows_buffer[of 2 16384 65536 _ _ "format_row ''16(LE)'' AFMT_S16_LE 0x00 16 True ENDIAN_LITTLE True ALIGN_MSB False"
    "format_row ''16(LE)'' AFMT_S16_LE 0x00 16 True ENDIAN_LITTLE True ALIGN_MSB False" 16384])
qed (simp_all add: parms_def expand_of_def mul_div_def c_int_def write_chunk_def TMP_CONVERT_MAX_def UNIT_EXPAND_def
  TMP_CONVERT_BUF_SIZE_def Let_def)

section \<open>The states of the resampler\<close>

definition states_upto :: "nat \<Rightarrow> 'g cnv_dmap \<Rightarrow> bool" where
  "states_upto n d \<longleftrightarrow> n \<le> length (srcstate d) \<and> (\<forall>ch < n. srcstate d ! ch \<noteq> None)"

lemma nth_update_if: "j < length xs \<Longrightarrow> xs[i := x] ! j = (if i = j then x else xs ! j)"
  by (cases "i = j") simp_all

lemma setup_states_fill:
  assumes "setup_states K new sr tr chs d = Some d'"
  shows "length (srcstate d') = length (srcstate d) \<and>
    (\<forall>ch < length (srcstate d). ch \<in> set chs \<or> srcstate d ! ch \<noteq> None \<longrightarrow> srcstate d' ! ch \<noteq> None)"
  using assms
proof (induction chs arbitrary: d)
  case (Cons c chs)
  from Cons.prems obtain g where
    "setup_states K new sr tr chs (d\<lparr>srcstate := (srcstate d)[c := Some (grc3_setup K (grc3_reset K g) sr tr)]\<rparr>) = Some d'"
    by (auto split: option.splits)
  from Cons.IH[OF this] show ?case by (auto simp: nth_update_if)
qed simp

lemma setup_states_convert_func: "setup_states K new sr tr chs d = Some d' \<Longrightarrow> convert_func d' = convert_func d"
  by (induction chs arbitrary: d) (auto split: option.splits)

lemma src_channels_defined:
  assumes "states_upto n d" and "\<forall>ch \<in> set chs. ch < n"
  shows "src_channels K bits ssize ns rm channels chs b d \<noteq> None"
  using assms
proof (induction chs arbitrary: b d)
  case (Cons c chs)
  then obtain g where g: "srcstate d ! c = Some g" "c < length (srcstate d)" by (auto simp: states_upto_def)
  obtain err out g' where r: "grc3_convert K g bits (src_quality d) (p1 b) (p2 b) ns rm channels c = (err, out, g')"
    by (cases "grc3_convert K g bits (src_quality d) (p1 b) (p2 b) ns rm channels c") auto
  have "states_upto n (d\<lparr>srcstate := (srcstate d)[c := Some g']\<rparr>)"
    using Cons.prems(1) by (auto simp: states_upto_def nth_update_if)
  from Cons.IH[OF this] Cons.prems(2) show ?case using g r by (simp add: Let_def)
qed simp

lemma setup_src_ready:
  assumes "setup_src K new d sr tr sc tc = Some (Inr (), d')" and "length (srcstate d) = OSS_MAX_CONVERT_CHANNELS"
  shows "states_upto (min sc tc) d'" and "convert_func d' = convert_func d"
proof -
  define q where "q = (let d = (if src_quality d < 1 then d\<lparr>src_quality := 1\<rparr> else d)
    in if 5 < src_quality d then d\<lparr>src_quality := 5\<rparr> else d)"
  have q: "srcstate q = srcstate d" "convert_func q = convert_func d" by (simp_all add: q_def Let_def)
  have nch: "(if tc < sc then tc else sc) = min sc tc" by simp
  have "setup_src K new d sr tr sc tc = (if OSS_MAX_CONVERT_CHANNELS < min sc tc then Some (Inl OSS_EIO, q)
      else map_option (Pair (Inr ())) (setup_states K new sr tr [0..<min sc tc] q))"
    unfolding setup_src_def nch q_def Let_def ..
  then have s: "setup_states K new sr tr [0..<min sc tc] q = Some d'" "min sc tc \<le> OSS_MAX_CONVERT_CHANNELS"
    using assms(1) by (cases "setup_states K new sr tr [0..<min sc tc] q"; auto split: if_splits)+
  show "states_upto (min sc tc) d'"
    using setup_states_fill[OF s(1)] s(2) assms(2) q(1) by (auto simp: states_upto_def)
  show "convert_func d' = convert_func d" using setup_states_convert_func[OF s(1)] q(2) by simp
qed

lemma only_src:
  assumes "convert_bits s t sf tf = CNV_SRC"
  shows "sp_channels s = sp_channels t"
proof (rule ccontr)
  assume ne: "sp_channels s \<noteq> sp_channels t"
  have f: "format_mode sf tf AND 0x70 = 0"
    by (auto simp: format_mode_def from_bits_def to_bits_def cnv_flags Let_def)
  have "convert_bits s t sf tf AND 0x70 = channel_mode (sp_channels s) (sp_channels t) AND 0x70"
    using f by (simp add: convert_bits_def bit.conj_disj_distrib2 cnv_flags)
  then show False
    using assms channel_mode_bits[OF ne] by (auto simp: cnv_flags)
qed

text \<open>A conversion with resampling that the setup accepts never follows a null resampler
  state: the setup selects the default converter or the converter that only resamples, and the
  latter only at equal numbers of channels, so that the resampling stage runs on as many channels
  as the smaller side has, and for all of these the state has been prepared.\<close>

theorem resampler_states_ready:
  assumes "setup_format_conversions K m1 m2 new d0 s t = Some (Inr p, d)" and "sp_fmt s \<noteq> AFMT_AC3"
    and "sp_rate s \<noteq> sp_rate t" and "length (srcstate d0) = OSS_MAX_CONVERT_CHANNELS"
    and "0 < sp_channels s" and "0 < sp_channels t"
  shows "do_src K (min (sp_channels s) (sp_channels t)) bits ssize b d \<noteq> None \<and>
    convert_func d \<in> {Some Cnv_Default, if sp_channels s = sp_channels t then Some Cnv_SrcOnly else Some Cnv_Default}"
proof -
  obtain sf tf e where r: "oss_find_format (sp_fmt s) = Some sf" "oss_find_format (sp_fmt t) = Some tf"
    "expand_of s t sf tf = Some e"
    using assms(1,2) by (auto simp: setup_format_conversions_def Let_def split: option.splits if_splits)
  let ?cnv = "convert_bits s t sf tf"
  let ?d = "alloc_tmpbufs m1 m2 (d0\<lparr>expand_factor := e, convert_mode := ?cnv,
    convert_func := Some (select_converter ?cnv sf tf)\<rparr>)"
  have src: "?cnv AND CNV_SRC \<noteq> 0" using assms(3) convert_bits_src[of s t sf tf] by (simp add: cnv_flags)
  have "setup_src K new ?d (sp_rate s) (sp_rate t) (sp_channels s) (sp_channels t) = Some (Inr (), d)"
    using assms(1,2) r src
    by (auto simp: setup_format_conversions_def setup_tail_def Let_def and_then_def split: if_splits option.splits sum.splits)
  from setup_src_ready[OF this] have d: "states_upto (min (sp_channels s) (sp_channels t)) d"
    "convert_func d = Some (select_converter ?cnv sf tf)"
    using assms(4) by (simp_all add: alloc_tmpbufs_def)
  have "do_src K (min (sp_channels s) (sp_channels t)) bits ssize b d \<noteq> None"
    using src_channels_defined[OF d(1)] assms(5,6) by (auto simp: do_src_def Let_def)
  moreover have "convert_func d \<in> {Some Cnv_Default, if sp_channels s = sp_channels t then Some Cnv_SrcOnly else Some Cnv_Default}"
    using d(2) src only_src[of s t sf tf] by (auto simp: select_converter_def)
  ultimately show ?thesis by blast
qed

theorem resampler_states_ready_witness:
  "\<exists>d. do_src idle_grc3 1 32 4 (buffer []) d \<noteq> None \<and> convert_func d = Some Cnv_Default"
proof -
  let ?s = "parms AFMT_S16_LE 1" and ?t = "(parms AFMT_S16_LE 2)\<lparr>sp_rate := 24000\<rparr>"
  have "\<exists>d. setup_format_conversions idle_grc3 (Some []) (Some []) (\<lambda>ch. Some ()) idle_dmap ?s ?t = Some (Inr (?s, ?t), d)"
    by (simp add: setup_format_conversions_def parms_def find_format_simps Let_def expand_of_def mul_div_def c_int_def
      UNIT_EXPAND_def OSS_MAX_CONVERT_CHANNELS_def convert_bits_def channel_mode_def
      cnv_flags select_converter_def setup_tail_def setup_src_def alloc_tmpbufs_def idle_dmap_def)
      (simp add: afmt_defs)
  then obtain d where set: "setup_format_conversions idle_grc3 (Some []) (Some []) (\<lambda>ch. Some ()) idle_dmap ?s ?t
      = Some (Inr (?s, ?t), d)" by blast
  from resampler_states_ready[OF set, of 32 4 "buffer []"] show ?thesis
    by (intro exI[of _ d]) (simp add: parms_def afmt_defs idle_dmap_def OSS_MAX_CONVERT_CHANNELS_def)
qed

section \<open>Formats without a converter\<close>

text \<open>A format the default converter does not know, as source or as target, makes the
  conversion fail with \<open>OSS_EIO\<close>, also when the table lists it and the setup accepted it: A-Law
  and the unsigned 16 bit formats among them.\<close>

theorem unknown_format_rejected:
  assumes "\<not> convertable (sp_fmt s) \<or> \<not> convertable (sp_fmt t)" and "sp_rate s = sp_rate t" and "0 < sp_channels s"
    and "\<forall>fr \<in> set frs. frame_bytes (sp_fmt s) (sp_channels s) fr" and "holds b (concat (concat frs))"
    and "room (4 * max (sp_channels s) (sp_channels t) * length frs) b"
  shows "cnv_default K d b s t = Some (Inl OSS_EIO, d)"
proof (cases "convertable (sp_fmt s)")
  case True
  then show ?thesis
    using default_front[OF True assms(2-6), of K d] not_convertable_EIO(2) assms(1) by auto
next
  case False
  then show ?thesis by (simp add: cnv_default_def not_convertable_EIO)
qed

theorem unknown_format_rejected_witness:
  "oss_find_format AFMT_U16_LE \<noteq> None \<and>
   cnv_default idle_grc3 idle_dmap (buffer [1, 2]) (parms AFMT_S16_LE 1) (parms AFMT_U16_LE 1) = Some (Inl OSS_EIO, idle_dmap)"
proof -
  have "oss_find_format AFMT_U16_LE \<noteq> None"
    by (simp add: oss_find_format_def audio_format_info_def format_row_def)
  then show ?thesis
    using unknown_format_rejected[of "parms AFMT_S16_LE 1" "parms AFMT_U16_LE 1" "[[[1, 2]]]" "buffer [1, 2]" idle_grc3 idle_dmap]
    by (simp add: parms_def convertable_def afmt_defs frame_bytes_def width_def)
qed

end
