(* ===== verification/Midi_Core.thy ===== *)
theory Midi_Core
  imports Midi_Queue Midi_Timers
begin

text \<open>
  The MIDI core of \<open>kernel/framework/midi/oss_midi_core.c\<close>, which ties the queues, the timers and
  the drivers of MIDI ports together: the state, the input side and the output side. The state
  of the timer core carries the MIDI state as its \<open>hw\<close>, so that a timer that fires re-enters the
  core. The state of the hardware and of the operating system is of type \<open>'h\<close>; a driver is the
  record of its methods, \<open>None\<close> for \<open>NULL\<close>, and the services of the system are a record too.
  The bytes and the header of a queued record are taken as values when the code takes pointers
  to them. \<open>None\<close> results stand for null pointers, a division by zero, the code's panics and
  the end of the fuel.
\<close>

section \<open>State\<close>

definition OPEN_READ :: u32 where "OPEN_READ = 1"
definition OPEN_WRITE :: u32 where "OPEN_WRITE = 2"
definition MFLAG_INPUT :: u32 where "MFLAG_INPUT = 0x80"
definition MFLAG_OUTPUT :: u32 where "MFLAG_OUTPUT = 0x100"
definition MFLAG_QUIET :: u32 where "MFLAG_QUIET = 0x800"
definition MIDI_HDR_MAGIC :: int where "MIDI_HDR_MAGIC = - 1"
definition MIDI_EV_WRITE :: u16 where "MIDI_EV_WRITE = 0"
definition MIDI_EV_TEMPO :: u16 where "MIDI_EV_TEMPO = 1"
definition MIDI_EV_START :: u16 where "MIDI_EV_START = 3"
definition MIDI_OPT_TIMED :: u16 where "MIDI_OPT_TIMED = 0x0001"
definition MIDI_OPT_BUSY :: u16 where "MIDI_OPT_BUSY = 0x0008"
definition MAX_MIDI_CLIENTS :: nat where "MAX_MIDI_CLIENTS = MAX_MIDI_DEV + 20"

datatype midi_mode = MIDI_MODE_TRADITIONAL | MIDI_MODE_TIMED | MIDI_MODE_TIMED_ABS

record 'h midi_driver =
  d_open :: "int \<Rightarrow> u32 \<Rightarrow> 'h \<Rightarrow> int oss_result \<times> 'h"
  d_close :: "int \<Rightarrow> u32 \<Rightarrow> 'h \<Rightarrow> 'h"
  d_ioctl :: "int \<Rightarrow> u32 \<Rightarrow> int \<Rightarrow> 'h \<Rightarrow> (int oss_result \<times> int) \<times> 'h"
  d_outputc :: "(int \<Rightarrow> u8 \<Rightarrow> 'h \<Rightarrow> bool \<times> 'h) option"
  d_bulk_write :: "(int \<Rightarrow> bytes \<Rightarrow> 'h \<Rightarrow> int \<times> 'h) option"
  d_flush_output :: "(int \<Rightarrow> 'h \<Rightarrow> 'h) option"
  d_wait_output :: "(int \<Rightarrow> 'h \<Rightarrow> bool \<times> 'h) option"
  d_timer_setup :: "(int \<Rightarrow> 'h \<Rightarrow> 'h) option"
  d_init_device :: "(int \<Rightarrow> 'h \<Rightarrow> 'h) option"

record 'h mididev =
  md_dev :: int
  md_name :: string
  md_d :: "'h midi_driver"
  md_caps :: u32
  md_open_mode :: u32
  md_working_mode :: midi_mode
  md_timebase :: int
  md_tempo :: int
  md_os_id :: nat
  md_enabled :: bool
  md_unloaded :: bool
  md_is_killed :: bool
  md_flags :: u32
  md_out_timeout :: int
  md_pid :: int
  md_prech_timeout :: int
  mtc_timebase :: int
  mtc_phase :: int
  mtc_t0 :: int
  mtc_prev_t :: int
  mtc_codetype :: int
  mtc_current :: int
  mtc_timeout_id :: int
  in_queue :: "midi_queue option"
  out_queue :: "midi_queue option"
  md_timer_driver :: int
  md_timer_dev :: int
  md_latency :: int
  is_timing_master :: bool

text \<open>A client points to its port by the port's number.\<close>

record midi_client =
  cl_num :: int
  cl_open_mode :: u32
  cl_mididev :: "nat option"

record 'h midi_core =
  midi_devs :: "'h mididev list"
  midi_clients :: "midi_client option list"
  num_midi_clients :: int
  midi_hw :: 'h

type_synonym 'h midi_sys = "'h midi_core timer_sys"

datatype core_callback = Mtc_Generator | Midi_Callback

record 'h midi_env =
  e_jiffies :: "'h \<Rightarrow> int"
  e_timeout :: "core_callback \<Rightarrow> int \<Rightarrow> int \<Rightarrow> 'h \<Rightarrow> int \<times> 'h"
  e_untimeout :: "int \<Rightarrow> 'h \<Rightarrow> 'h"
  e_sleep :: "int \<Rightarrow> bool \<Rightarrow> int \<Rightarrow> 'h midi_sys \<Rightarrow> (bool \<times> bool) \<times> 'h midi_sys"
  e_wakeup :: "int \<Rightarrow> bool \<Rightarrow> 'h \<Rightarrow> 'h"
  e_malloc_ok :: "'h \<Rightarrow> bool"

section \<open>Access to the state\<close>

definition get_dev :: "int \<Rightarrow> 'h midi_sys \<Rightarrow> 'h mididev option" where
  "get_dev d s = (if d < 0 \<or> int (length (midi_devs (hw s))) \<le> d then None else Some (midi_devs (hw s) ! nat d))"

definition upd_dev :: "int \<Rightarrow> ('h mididev \<Rightarrow> 'h mididev) \<Rightarrow> 'h midi_sys \<Rightarrow> 'h midi_sys" where
  "upd_dev d f s = s\<lparr>hw := (hw s)\<lparr>midi_devs := (midi_devs (hw s))[nat d := f (midi_devs (hw s) ! nat d)]\<rparr>\<rparr>"

definition get_client :: "int \<Rightarrow> 'h midi_sys \<Rightarrow> midi_client option" where
  "get_client d s = (if d < 0 \<or> int (length (midi_clients (hw s))) \<le> d then None else midi_clients (hw s) ! nat d)"

definition set_client :: "int \<Rightarrow> midi_client option \<Rightarrow> 'h midi_sys \<Rightarrow> 'h midi_sys" where
  "set_client d c s = s\<lparr>hw := (hw s)\<lparr>midi_clients := (midi_clients (hw s))[nat d := c]\<rparr>\<rparr>"

definition on_hw :: "('h \<Rightarrow> 'h) \<Rightarrow> 'h midi_sys \<Rightarrow> 'h midi_sys" where
  "on_hw f s = s\<lparr>hw := (hw s)\<lparr>midi_hw := f (midi_hw (hw s))\<rparr>\<rparr>"

definition run_hw :: "('h \<Rightarrow> 'a \<times> 'h) \<Rightarrow> 'h midi_sys \<Rightarrow> 'a \<times> 'h midi_sys" where
  "run_hw f s = (case f (midi_hw (hw s)) of (x, h) \<Rightarrow> (x, s\<lparr>hw := (hw s)\<lparr>midi_hw := h\<rparr>\<rparr>))"

definition opt_hw :: "(int \<Rightarrow> 'h \<Rightarrow> 'h) option \<Rightarrow> int \<Rightarrow> 'h midi_sys \<Rightarrow> 'h midi_sys" where
  "opt_hw m d s = (case m of None \<Rightarrow> s | Some f \<Rightarrow> on_hw (f d) s)"

lemmas core_access = get_dev_def upd_dev_def get_client_def set_client_def on_hw_def run_hw_def opt_hw_def

section \<open>Input\<close>

text \<open>\<open>queue_midi_input\<close>: an overflow is reported to the log only and counts as no bytes.\<close>

definition input_header :: "'h mididev \<Rightarrow> 'h midi_sys \<Rightarrow> packet_header option option" where
  "input_header m s =
     (if md_working_mode m = MIDI_MODE_TRADITIONAL then Some None
      else
        let use_abs = (md_working_mode m = MIDI_MODE_TIMED_ABS)
        in map_option (\<lambda>t. Some (zero_header\<lparr>hdr_magic := MIDI_HDR_MAGIC, hdr_event_type := MIDI_EV_WRITE,
               hdr_options := (if use_abs then MIDI_OPT_TIMED OR MIDI_OPT_USECTIME else MIDI_OPT_TIMED), hdr_time := t\<rparr>))
             (oss_timer_get_current_time s (md_timer_dev m) (md_latency m) use_abs))"

definition queue_midi_input :: "'h midi_env \<Rightarrow> int \<Rightarrow> bytes \<Rightarrow> 'h midi_sys \<Rightarrow> (int \<times> 'h midi_sys) option" where
  "queue_midi_input E d data s =
     Option.bind (get_dev d s) (\<lambda>m.
     Option.bind (input_header m s) (\<lambda>hdrp.
     Option.bind (in_queue m) (\<lambda>q.
       case midi_queue_put q data hdrp of
         (r, q) \<Rightarrow>
           Some (case r of Inl e \<Rightarrow> 0 | Inr n \<Rightarrow> n,
             on_hw (e_wakeup E d False) (upd_dev d (\<lambda>m. m\<lparr>in_queue := Some q\<rparr>) s)))))"

text \<open>The fields of the time code, and the data byte of one quarter frame. The code reduces the
  nibbles modulo 15 and the hours modulo 36.\<close>

definition mtc_fields :: "int \<Rightarrow> int \<Rightarrow> int \<times> int \<times> int \<times> int" where
  "mtc_fields tb t =
     (let t = t sdiv 4; f = t smod tb; t = t sdiv tb;
          s = t smod 60; t = t sdiv 60; m = t smod 60; t = t sdiv 60
      in (t smod 0x24, m, s, f))"

definition mtc_data :: "int \<Rightarrow> int \<Rightarrow> int \<times> int \<times> int \<times> int \<Rightarrow> u8" where
  "mtc_data phase codetype hmsf =
     (case hmsf of (h, m, s, f) \<Rightarrow>
        if phase = 0 then 0x00 OR word_of_int (f smod 0x0f)
        else if phase = 1 then 0x10 OR word_of_int (drop_bit 4 f smod 0x0f)
        else if phase = 2 then 0x20 OR word_of_int (s smod 0x0f)
        else if phase = 3 then 0x30 OR word_of_int (drop_bit 4 s smod 0x0f)
        else if phase = 4 then 0x40 OR word_of_int (m smod 0x0f)
        else if phase = 5 then 0x50 OR word_of_int (drop_bit 4 m smod 0x0f)
        else if phase = 6 then 0x60 OR word_of_int (h smod 0x0f)
        else if phase = 7 then 0x70 OR word_of_int (drop_bit 4 h smod 0x03) OR word_of_int (push_bit 1 codetype)
        else 0)"

definition mtc_generator :: "'h midi_env \<Rightarrow> int \<Rightarrow> 'h midi_sys \<Rightarrow> 'h midi_sys option" where
  "mtc_generator E d s =
     Option.bind (get_dev d s) (\<lambda>m.
       let t = signed_take_bit 31 (e_jiffies E (midi_hw (hw s)) - mtc_t0 m) in
       if mtc_timebase m < 1 then Some s
       else
         let (i, s) = run_hw (e_timeout E Mtc_Generator d (hz s sdiv 100)) s;
             s = upd_dev d (\<lambda>m. m\<lparr>mtc_timeout_id := i\<rparr>) s;
             step = hz s sdiv (mtc_timebase m * 4)
         in if step < 1 then Some s
            else
              let t = t sdiv step in
              if t \<le> mtc_prev_t m then Some s
              else
                let cur = (if mtc_phase m = 0 then t else mtc_current m);
                    data = mtc_data (mtc_phase m) (mtc_codetype m) (mtc_fields (mtc_timebase m) cur);
                    s = upd_dev d (\<lambda>m. m\<lparr>mtc_prev_t := t, mtc_current := cur, mtc_phase := (mtc_phase m + 1) smod 8\<rparr>) s
                in map_option snd (queue_midi_input E d [0xf1, data] s))"

definition oss_midi_input_byte :: "'h midi_env \<Rightarrow> int \<Rightarrow> u8 \<Rightarrow> 'h midi_sys \<Rightarrow> (int \<times> 'h midi_sys) option" where
  "oss_midi_input_byte E d data s =
     Option.bind (get_dev d s) (\<lambda>m.
       let s = (if data = 0xf1 then upd_dev d (\<lambda>m. m\<lparr>mtc_timebase := - 1\<rparr>) s else s)
       in queue_midi_input E d [data] s)"

text \<open>Every round of the loop of \<open>oss_midi_input_buf\<close> takes bytes away or stops.\<close>

function input_buf_loop :: "'h midi_env \<Rightarrow> int \<Rightarrow> bytes \<Rightarrow> int \<Rightarrow> 'h midi_sys \<Rightarrow> (int \<times> 'h midi_sys) option" where
  "input_buf_loop E d data n s =
     (if data = [] then Some (n, s)
      else
        let l = min (int (length data)) MIDI_PAYLOAD_SIZE; chunk = take (nat l) data in
        case get_dev d s of
          None \<Rightarrow> None
        | Some m \<Rightarrow>
            let s = (if 0xf1 \<in> set chunk then upd_dev d (\<lambda>m. m\<lparr>mtc_timebase := - 1\<rparr>) s else s) in
            (case queue_midi_input E d chunk s of
               None \<Rightarrow> None
             | Some (ret, s) \<Rightarrow>
                 let ret = (if ret < 0 then 0 else ret)
                 in if ret = 0 then Some (n, s) else input_buf_loop E d (drop (nat ret) data) (n + ret) s))"
  by pat_completeness auto
termination
  by (relation "measure (\<lambda>(E, d, data, n, s). length data)") (auto split: if_splits)

definition oss_midi_input_buf :: "'h midi_env \<Rightarrow> int \<Rightarrow> bytes \<Rightarrow> 'h midi_sys \<Rightarrow> (int \<times> 'h midi_sys) option" where
  "oss_midi_input_buf E d data s = Option.bind (get_dev d s) (\<lambda>m. input_buf_loop E d data 0 s)"

text \<open>\<open>oss_midi_input_event\<close> takes USB MIDI events of 4 bytes; \<open>event_length\<close> is the number of MIDI
  bytes in one. The loop advances \<open>i\<close>, and \<open>data\<close> and \<open>len\<close> as well: \<open>p\<close> is the advance of \<open>data\<close>.
  Reading past the end of the events is \<open>None\<close>.\<close>

definition event_length :: "u8 \<Rightarrow> nat" where
  "event_length b =
     (let c = b AND 0x0f in
      if c = 0x2 then 2 else if c = 0x4 then 3
      else if c \<in> {0x5, 0x6, 0x7} then unat c - 4
      else if c \<in> {0x8, 0x9, 0xa, 0xb, 0xe} then 3
      else if c \<in> {0xc, 0xd} then 2
      else if c = 0xf then 1 else 3)"

function event_loop :: "'h midi_env \<Rightarrow> int \<Rightarrow> bytes \<Rightarrow> nat \<Rightarrow> nat \<Rightarrow> int \<Rightarrow> 'h midi_sys \<Rightarrow> 'h midi_sys option" where
  "event_loop E d data p i len s =
     (if len \<le> int i then Some s
      else if length data \<le> p + i then None
      else
        let ev = drop (p + i) data; l = event_length (ev ! 0) in
        if ev ! 0 AND 0x0f = 0 then Some s
        else if l \<noteq> 0 \<and> length ev < l + 1 then None
        else if l = 0 \<or> ev ! 1 = 0xfe then event_loop E d data p (i + 4) len s
        else
          case queue_midi_input E d (take l (drop 1 ev)) s of
            None \<Rightarrow> None
          | Some (ret, s) \<Rightarrow>
              if ret \<le> 0 then Some s else event_loop E d data (p + nat ret) (i + 4) (len - ret) s)"
  by pat_completeness auto
termination
  by (relation "measure (\<lambda>(E, d, data, p, i, len, s). nat (len - int i))") auto

definition oss_midi_input_event :: "'h midi_env \<Rightarrow> int \<Rightarrow> bytes \<Rightarrow> 'h midi_sys \<Rightarrow> 'h midi_sys option" where
  "oss_midi_input_event E d data s =
     Option.bind (get_dev d s) (\<lambda>m. event_loop E d data 0 0 (int (length data)) s)"

declare input_buf_loop.simps [simp del] event_loop.simps [simp del]

end
