(* ===== verification/Midi_Output.thy ===== *)
theory Midi_Output
  imports Midi_Core
begin

text \<open>
  The output side of \<open>oss_midi_core.c\<close>: the timers of a port, the handler that sends queued
  records to the driver, called from the write and from the timers' callbacks, and the routines
  that send bytes past the queue or wait for it to drain. The handler and the timers call each
  other; the fuel bounds the depth of the calls and the number of records.
\<close>

section \<open>The timer of a port\<close>

definition setup_timebase :: "int \<Rightarrow> 'h midi_sys \<Rightarrow> (int oss_result \<times> 'h midi_sys) option" where
  "setup_timebase d s = Option.bind (get_dev d s) (\<lambda>m. Some
     (if md_timer_dev m < 0 then (Inr 0, s) else oss_timer_set_timebase s (md_timer_dev m) (md_timebase m)))"

definition setup_tempo :: "int \<Rightarrow> 'h midi_sys \<Rightarrow> (int oss_result \<times> 'h midi_sys) option" where
  "setup_tempo d s = Option.bind (get_dev d s) (\<lambda>m. Some
     (if md_timer_dev m < 0 then (Inr 0, s) else oss_timer_set_tempo s (md_timer_dev m) (md_tempo m)))"

definition setup_working_mode :: "int \<Rightarrow> bool \<Rightarrow> 'h midi_sys \<Rightarrow> (int oss_result \<times> 'h midi_sys) option" where
  "setup_working_mode d malloc_ok s = Option.bind (get_dev d s) (\<lambda>m.
     if md_timer_dev m < 0 then
       (if md_timer_driver m < 0 \<or> int (length (timer_drivers s)) \<le> md_timer_driver m then Some (Inl OSS_ENXIO, s)
        else case oss_timer_create_instance s (md_timer_driver m) malloc_ok of
          (Inl e, s) \<Rightarrow> Some (Inl e, s)
        | (Inr n, s) \<Rightarrow>
            if n < 0 then Some (Inr n, s)
            else
              let s = upd_dev d (\<lambda>m. m\<lparr>is_timing_master := True\<rparr>) s in
              (case oss_timer_attach_client s n d of
                 (err, s) \<Rightarrow>
                   if failed err then Some (err, oss_timer_detach_client s n d)
                   else
                     let s = upd_dev d (\<lambda>m. m\<lparr>md_timer_dev := n\<rparr>) s;
                         s = opt_hw (d_timer_setup (md_d m)) d s
                     in Some (if get_timer s n = None then Inl OSS_ENXIO else Inr 0, s)))
     else Some (if get_timer s (md_timer_dev m) = None then Inl OSS_ENXIO else Inr 0, s))"

definition oss_midi_copy_timer :: "int \<Rightarrow> int \<Rightarrow> 'h midi_sys \<Rightarrow> 'h midi_sys" where
  "oss_midi_copy_timer d source s =
     (case get_dev d s of
        None \<Rightarrow> s
      | Some m \<Rightarrow>
          let s = (if 0 \<le> md_timer_dev m then oss_timer_detach_client s (md_timer_dev m) d else s);
              s = upd_dev d (\<lambda>m. m\<lparr>md_timer_dev := - 1\<rparr>) s
          in case get_dev source s of
               None \<Rightarrow> s
             | Some sm \<Rightarrow>
                 if md_timer_dev sm < 0 then s
                 else (case oss_timer_attach_client s (md_timer_dev sm) d of
                         (err, s) \<Rightarrow>
                           if failed err then s
                           else upd_dev d (\<lambda>m. m\<lparr>md_timer_dev := md_timer_dev sm, md_timer_driver := md_timer_driver sm\<rparr>) s))"

section \<open>Sending queued records\<close>

definition OSS_MIDI_CALLBACK :: cb_id where "OSS_MIDI_CALLBACK = 0"

text \<open>\<open>hdr->options |= MIDI_OPT_BUSY\<close> on the first record of a queue.\<close>

definition mark_busy :: "midi_queue \<Rightarrow> midi_queue" where
  "mark_busy q = (let i = nat (q_tail q); b = buffers q ! i in
     q\<lparr>buffers := (buffers q)[i := b\<lparr>b_hdr := (b_hdr b)\<lparr>hdr_options := hdr_options (b_hdr b) OR MIDI_OPT_BUSY\<rparr>\<rparr>]\<rparr>)"

text \<open>Bytes sent one by one until the driver refuses one: how many it took.\<close>

fun send_chars :: "(u8 \<Rightarrow> 'h \<Rightarrow> bool \<times> 'h) \<Rightarrow> bytes \<Rightarrow> 'h \<Rightarrow> nat \<times> 'h" where
  "send_chars out [] h = (0, h)"
| "send_chars out (b # bs) h =
     (case out b h of (ok, h) \<Rightarrow>
        if \<not> ok then (0, h) else case send_chars out bs h of (n, h) \<Rightarrow> (Suc n, h))"

definition send_record :: "'h midi_driver \<Rightarrow> int \<Rightarrow> bytes \<Rightarrow> 'h midi_sys \<Rightarrow> (int \<times> 'h midi_sys) option" where
  "send_record D d buf s =
     (if d_outputc D = None \<or> (1 < length buf \<and> d_bulk_write D \<noteq> None) then
        Option.bind (d_bulk_write D) (\<lambda>w. case run_hw (w d buf) s of (n, s) \<Rightarrow> Some (if n \<le> 0 then 0 else n, s))
      else
        Option.bind (d_outputc D) (\<lambda>out. case run_hw (send_chars (out d) buf) s of (n, s) \<Rightarrow> Some (int n, s)))"

text \<open>What a record makes the core do before its bytes are sent.\<close>

definition record_event :: "int \<Rightarrow> packet_header \<Rightarrow> 'h midi_sys \<Rightarrow> 'h midi_sys option" where
  "record_event d hdr s = Option.bind (get_dev d s) (\<lambda>m.
     if hdr_event_type hdr = MIDI_EV_TEMPO then
       map_option snd (setup_tempo d (upd_dev d (\<lambda>m. m\<lparr>md_tempo := hdr_parm hdr\<rparr>) s))
     else if hdr_event_type hdr = MIDI_EV_START then
       Some (opt_hw (d_timer_setup (md_d m)) d (oss_timer_start s (md_timer_dev m)))
     else Some s)"

text \<open>Sending the record and removing what went out: whether everything did.\<close>

definition output_record :: "'h midi_env \<Rightarrow> int \<Rightarrow> bytes \<Rightarrow> 'h midi_sys \<Rightarrow> (bool \<times> 'h midi_sys) option" where
  "output_record E d buf s =
     Option.bind (get_dev d s) (\<lambda>m.
     Option.bind (send_record (md_d m) d buf s) (\<lambda>(n, s).
     Option.bind (get_dev d s) (\<lambda>m.
     Option.bind (out_queue m) (\<lambda>q.
       let len = int (length buf);
           s = (if 0 < n \<or> len = 0
                then on_hw (e_wakeup E d True) (upd_dev d (\<lambda>m. m\<lparr>out_queue := Some (midi_queue_remove_chars q n)\<rparr>) s) else s);
           s = (if n = len then opt_hw (d_flush_output (md_d m)) d s else s)
       in if n < len
          then Option.bind (get_dev d s) (\<lambda>m.
                 if md_out_timeout m = 0
                 then (case run_hw (e_timeout E Midi_Callback d 1) s of
                         (i, s) \<Rightarrow> Some (False, upd_dev d (\<lambda>m. m\<lparr>md_out_timeout := i\<rparr>) s))
                 else Some (False, s))
          else Some (True, s)))))"

fun midi_output_intr :: "nat \<Rightarrow> 'h midi_env \<Rightarrow> int \<Rightarrow> bool \<Rightarrow> 'h midi_sys \<Rightarrow> (int \<times> 'h midi_sys) option"
and output_loop :: "nat \<Rightarrow> 'h midi_env \<Rightarrow> int \<Rightarrow> bool \<Rightarrow> 'h midi_sys \<Rightarrow> (int \<times> 'h midi_sys) option" where
  "midi_output_intr 0 E d cb s = None"
| "midi_output_intr (Suc k) E d cb s =
     (case get_dev d s of
        None \<Rightarrow> None
      | Some m \<Rightarrow>
          let s = (if cb then upd_dev d (\<lambda>m. m\<lparr>md_out_timeout := 0\<rparr>) s else s)
          in if md_open_mode m AND OPEN_WRITE = 0 then Some (0, s) else output_loop k E d cb s)"
| "output_loop 0 E d cb s = None"
| "output_loop (Suc k) E d cb s =
     (case Option.bind (get_dev d s) out_queue of
        None \<Rightarrow> None
      | Some q \<Rightarrow>
          (case midi_queue_find_buffer q of
             (_, None) \<Rightarrow> Some (0, s)
           | (_, Some (buf, hdr)) \<Rightarrow>
               if \<not> cb \<and> hdr_options hdr AND MIDI_OPT_BUSY \<noteq> 0 then Some (0, s)
               else
                 let m = the (get_dev d s);
                     s = upd_dev d (\<lambda>m. m\<lparr>out_queue := Some (mark_busy q)\<rparr>) s;
                     timed = (0 \<le> md_timer_dev m \<and> hdr_options hdr AND MIDI_OPT_TIMED \<noteq> 0)
                 in case (if timed
                          then oss_timer_wait_time k
                                 (\<lambda>c i s. if c = OSS_MIDI_CALLBACK then map_option snd (midi_output_intr k E (int i) True s) else None)
                                 (opt_hw (d_flush_output (md_d m)) d s) (md_timer_dev m) d (md_latency m) (hdr_time hdr)
                                 (Some OSS_MIDI_CALLBACK) (hdr_options hdr OR MIDI_OPT_BUSY)
                          else Some (1, s)) of
                      None \<Rightarrow> None
                    | Some (r, s) \<Rightarrow>
                        if r \<le> 0 then Some (0, s)
                        else
                          case Option.bind (record_event d hdr s) (output_record E d buf) of
                            None \<Rightarrow> None
                          | Some (all_sent, s) \<Rightarrow> if all_sent then output_loop k E d cb s else Some (0, s)))"

definition oss_midi_output_intr :: "nat \<Rightarrow> 'h midi_env \<Rightarrow> int \<Rightarrow> 'h midi_sys \<Rightarrow> (int \<times> 'h midi_sys) option" where
  "oss_midi_output_intr k E d s = midi_output_intr k E d False s"

definition oss_midi_callback :: "nat \<Rightarrow> 'h midi_env \<Rightarrow> int \<Rightarrow> 'h midi_sys \<Rightarrow> 'h midi_sys option" where
  "oss_midi_callback k E d s = map_option snd (midi_output_intr k E d True s)"

section \<open>Sending past the queue\<close>

text \<open>\<open>put_output\<close> spends at most a budget of 1000 retries. \<open>bulk_write\<close> may take more or less
  than it is given; an error gives up.\<close>

fun put_bulk :: "nat \<Rightarrow> (bytes \<Rightarrow> 'h \<Rightarrow> int \<times> 'h) \<Rightarrow> bytes \<Rightarrow> 'h \<Rightarrow> 'h" where
  "put_bulk 0 w buf h = h"
| "put_bulk (Suc tmout) w buf h =
     (if buf = [] then h
      else case w buf h of (n, h) \<Rightarrow> if n < 0 then h else put_bulk tmout w (drop (nat n) buf) h)"

fun put_char :: "nat \<Rightarrow> (u8 \<Rightarrow> 'h \<Rightarrow> bool \<times> 'h) \<Rightarrow> u8 \<Rightarrow> 'h \<Rightarrow> nat \<times> 'h" where
  "put_char 0 out b h = (0, snd (out b h))"
| "put_char (Suc tmout) out b h =
     (case out b h of (ok, h) \<Rightarrow> if ok then (Suc tmout, h) else put_char tmout out b h)"

fun put_chars_out :: "nat \<Rightarrow> (u8 \<Rightarrow> 'h \<Rightarrow> bool \<times> 'h) \<Rightarrow> bytes \<Rightarrow> 'h \<Rightarrow> 'h" where
  "put_chars_out tmout out [] h = h"
| "put_chars_out tmout out (b # bs) h =
     (case put_char tmout out b h of (tmout, h) \<Rightarrow> put_chars_out tmout out bs h)"

definition put_output :: "'h midi_driver \<Rightarrow> int \<Rightarrow> bytes \<Rightarrow> 'h midi_sys \<Rightarrow> 'h midi_sys option" where
  "put_output D d buf s =
     (if d_outputc D = None \<or> (1 < length buf \<and> d_bulk_write D \<noteq> None) then
        (if buf = [] then Some s
         else Option.bind (d_bulk_write D) (\<lambda>w. Some (on_hw (put_bulk 1000 (w d) buf) s)))
      else Option.bind (d_outputc D) (\<lambda>out. Some (on_hw (put_chars_out 1000 (out d) buf) s)))"

section \<open>Waiting for the queue to drain\<close>

text \<open>The loop of \<open>sync_output\<close>: \<open>n\<close> counts the sleeps that timed out; \<open>Some True\<close> in the result
  means that the queue drained, \<open>Some False\<close> that the routine returns.\<close>

fun drain_loop :: "nat \<Rightarrow> 'h midi_env \<Rightarrow> int \<Rightarrow> nat \<Rightarrow> 'h midi_sys \<Rightarrow> (bool \<times> 'h midi_sys) option" where
  "drain_loop 0 E d n s = None"
| "drain_loop (Suc k) E d n s =
     Option.bind (get_dev d s) (\<lambda>m.
     Option.bind (out_queue m) (\<lambda>q.
       if midi_queue_isempty q then Some (True, s)
       else if 100 < n then Some (False, s)
       else
         case e_sleep E d True (oss_timer_get_timeout s (md_timer_dev m) d) s of
           ((woken, signalled), s) \<Rightarrow>
             if signalled
             then Some (False, upd_dev d (\<lambda>m. m\<lparr>md_is_killed := True\<rparr>) s)
             else drain_loop k E d (if woken then 0 else Suc n) s))"

text \<open>The loop over \<open>wait_output\<close>, at most 12 rounds: whether to go on.\<close>

fun wait_loop :: "nat \<Rightarrow> 'h midi_env \<Rightarrow> int \<Rightarrow> (int \<Rightarrow> 'h \<Rightarrow> bool \<times> 'h) \<Rightarrow> 'h midi_sys \<Rightarrow> (bool \<times> 'h midi_sys) option" where
  "wait_loop left E d w s =
     (case run_hw (w d) s of (busy, s) \<Rightarrow>
        if \<not> busy then Some (True, s)
        else case left of
          0 \<Rightarrow> Some (False, s)
        | Suc left \<Rightarrow>
            (case e_sleep E d True (hz s) s of
               ((woken, signalled), s) \<Rightarrow>
                 if signalled
                 then Some (False, upd_dev d (\<lambda>m. m\<lparr>md_is_killed := True\<rparr>) s)
                 else wait_loop left E d w s))"

definition remove_all_output :: "int \<Rightarrow> 'h midi_sys \<Rightarrow> 'h midi_sys option" where
  "remove_all_output d s = Option.bind (get_dev d s) (\<lambda>m. Option.bind (out_queue m) (\<lambda>q.
     Some (upd_dev d (\<lambda>m. m\<lparr>out_queue := Some (midi_queue_removeall q)\<rparr>) s)))"

definition sync_output :: "nat \<Rightarrow> 'h midi_env \<Rightarrow> int \<Rightarrow> 'h midi_sys \<Rightarrow> 'h midi_sys option" where
  "sync_output k E d s =
     Option.bind (get_dev d s) (\<lambda>m.
       if md_is_killed m then remove_all_output d s
       else if md_timer_dev m < 0 \<or> oss_timer_is_running s (md_timer_dev m) = 0 then remove_all_output d s
       else
         Option.bind (drain_loop k E d 0 (opt_hw (d_flush_output (md_d m)) d s)) (\<lambda>(drained, s).
           if \<not> drained then Some s
           else
             Option.bind (case d_wait_output (md_d m) of None \<Rightarrow> Some (True, s) | Some w \<Rightarrow> wait_loop 11 E d w s)
               (\<lambda>(go_on, s). Some (if go_on then snd (e_sleep E d True (hz s sdiv 2) s) else s))))"

declare wait_loop.simps [simp del]

end
