(* ===== verification/Midi_Files.thy ===== *)
theory Midi_Files
  imports Midi_Output
begin

text \<open>
  The device files of \<open>oss_midi_core.c\<close> and the binding of clients in \<open>oss_midi_mapper.c\<close>: open,
  release, read, write, ioctl and poll, and the installation of ports. A system call takes the
  application's bytes as a list, and \<open>uio_ok\<close> says whether copying from or to its memory
  succeeds; a read returns the bytes it copies. \<open>None\<close> stands for what the code does not define.
\<close>

section \<open>Opening a port\<close>

definition oss_midi_set_defaults :: "int \<Rightarrow> 'h midi_sys \<Rightarrow> 'h midi_sys" where
  "oss_midi_set_defaults d s = upd_dev d (\<lambda>m. m\<lparr>md_prech_timeout := 0, md_tempo := 120, md_timebase := hz s\<rparr>) s"

definition upd_client :: "int \<Rightarrow> (midi_client \<Rightarrow> midi_client) \<Rightarrow> 'h midi_sys \<Rightarrow> 'h midi_sys" where
  "upd_client c f s = s\<lparr>hw := (hw s)\<lparr>midi_clients := (midi_clients (hw s))[nat c := map_option f (midi_clients (hw s) ! nat c)]\<rparr>\<rparr>"

text \<open>The queues of a freshly opened port. \<open>Inl\<close> leaves it to the caller what to undo.\<close>

definition alloc_in :: "'h midi_env \<Rightarrow> int \<Rightarrow> u32 \<Rightarrow> 'h midi_sys \<Rightarrow> unit oss_result \<times> 'h midi_sys" where
  "alloc_in E d mode s =
     (if mode AND OPEN_READ = 0 then (Inr (), s)
      else let q = midi_queue_alloc (e_malloc_ok E (midi_hw (hw s))); s = upd_dev d (\<lambda>m. m\<lparr>in_queue := q\<rparr>) s
           in (if q = None then Inl OSS_ENOMEM else Inr (), s))"

definition alloc_out :: "'h midi_env \<Rightarrow> int \<Rightarrow> u32 \<Rightarrow> 'h midi_sys \<Rightarrow> unit oss_result \<times> 'h midi_sys" where
  "alloc_out E d mode s =
     (if mode AND OPEN_WRITE = 0 then (Inr (), s)
      else let q = midi_queue_alloc (e_malloc_ok E (midi_hw (hw s))); s = upd_dev d (\<lambda>m. m\<lparr>out_queue := q\<rparr>) s
           in (if q = None then Inl OSS_ENOMEM else Inr (), s))"

text \<open>A message of three bytes to every channel, past the queue.\<close>

fun put_channels :: "'h midi_driver \<Rightarrow> int \<Rightarrow> u8 \<Rightarrow> u8 \<Rightarrow> nat list \<Rightarrow> 'h midi_sys \<Rightarrow> 'h midi_sys option" where
  "put_channels D d a b [] s = Some s"
| "put_channels D d a b (i # is) s =
     Option.bind (put_output D d [0xb0 OR of_nat i, a, b] s) (put_channels D d a b is)"

definition undo_open :: "int \<Rightarrow> 'h midi_sys \<Rightarrow> 'h midi_sys" where
  "undo_open d s = upd_client d (\<lambda>c. c\<lparr>cl_open_mode := 0, cl_mididev := None\<rparr>) (upd_dev d (\<lambda>m. m\<lparr>md_open_mode := 0\<rparr>) s)"

definition open_queues :: "'h midi_env \<Rightarrow> int \<Rightarrow> u32 \<Rightarrow> 'h midi_sys \<Rightarrow> (int oss_result \<times> 'h midi_sys) option" where
  "open_queues E d mode s =
     Option.bind (get_dev d s) (\<lambda>m.
       case alloc_in E d mode s of
         (Inl e, s) \<Rightarrow> Some (Inl e, undo_open d s)
       | (Inr u, s) \<Rightarrow>
           (case alloc_out E d mode s of
              (Inl e, s) \<Rightarrow> Some (Inl e, undo_open d s)
            | (Inr u, s) \<Rightarrow>
                Option.bind
                  (if mode AND OPEN_WRITE = 0 then Some s
                   else map_option (opt_hw (d_flush_output (md_d m)) d)
                          (if md_flags m AND MFLAG_QUIET = 0 then put_channels (md_d m) d 121 127 [0..<16] s else Some s))
                  (\<lambda>s. Some (Inr 0, opt_hw (d_init_device (md_d m)) d s))))"

definition oss_midi_open :: "'h midi_env \<Rightarrow> int \<Rightarrow> u32 \<Rightarrow> int \<Rightarrow> 'h midi_sys \<Rightarrow> (int oss_result \<times> 'h midi_sys) option" where
  "oss_midi_open E d mode pid s =
     (case get_dev d s of
        None \<Rightarrow> Some (Inl OSS_ENXIO, s)
      | Some m \<Rightarrow>
          if mode = OPEN_READ \<and> md_flags m AND MFLAG_INPUT = 0 then Some (Inl OSS_EACCES, s)
          else if mode AND OPEN_WRITE \<noteq> 0 \<and> md_flags m AND MFLAG_OUTPUT = 0 then Some (Inl OSS_EACCES, s)
          else if \<not> md_enabled m then Some (Inl OSS_ENXIO, s)
          else if md_unloaded m then Some (Inl OSS_ENXIO, s)
          else case get_client d s of
            None \<Rightarrow> Some (Inl OSS_ENXIO, s)
          | Some c \<Rightarrow>
              if cl_open_mode c \<noteq> 0 \<or> md_open_mode m \<noteq> 0 then Some (Inl OSS_EBUSY, s)
              else
                let s = upd_client d (\<lambda>c. c\<lparr>cl_mididev := Some (nat d), cl_open_mode := mode\<rparr>) s;
                    s = upd_dev d (\<lambda>m. m\<lparr>md_open_mode := mode, md_pid := pid\<rparr>) s;
                    (err, s) = run_hw (d_open (md_d m) d mode) s
                in if failed err
                   then Some (err, upd_client d (\<lambda>c. c\<lparr>cl_open_mode := 0\<rparr>) (upd_dev d (\<lambda>m. m\<lparr>md_open_mode := 0\<rparr>) s))
                   else
                     let s = oss_midi_set_defaults d s;
                         s = upd_dev d (\<lambda>m. m\<lparr>is_timing_master := False\<rparr>) s;
                         s = upd_client d (\<lambda>c. c\<lparr>cl_num := d\<rparr>) s
                     in open_queues E d mode s)"

section \<open>Binding a client to the first free port\<close>

definition bind_port :: "'h midi_env \<Rightarrow> int \<Rightarrow> int \<Rightarrow> u32 \<Rightarrow> 'h midi_driver \<Rightarrow> 'h midi_sys \<Rightarrow> int oss_result \<times> 'h midi_sys" where
  "bind_port E c d mode D s =
     (let s = upd_dev d (\<lambda>m. m\<lparr>md_open_mode := mode\<rparr>) s;
          s = upd_client c (\<lambda>c. c\<lparr>cl_mididev := Some (nat d)\<rparr>) s;
          fail = (\<lambda>s. upd_dev d (\<lambda>m. m\<lparr>md_open_mode := 0\<rparr>) (on_hw (d_close D d mode) s))
      in case alloc_in E d mode s of
           (Inl e, s) \<Rightarrow> (Inl e, fail s)
         | (Inr u, s) \<Rightarrow>
             (case alloc_out E d mode s of
                (Inl e, s) \<Rightarrow> (Inl e, fail s)
              | (Inr u, s) \<Rightarrow> (Inr d, oss_midi_set_defaults d s)))"

fun autobind_loop :: "'h midi_env \<Rightarrow> int \<Rightarrow> u32 \<Rightarrow> u32 \<Rightarrow> int list \<Rightarrow> 'h midi_sys \<Rightarrow> int oss_result \<times> 'h midi_sys" where
  "autobind_loop E c cmode mode [] s = (Inl OSS_EBUSY, s)"
| "autobind_loop E c cmode mode (d # ds) s =
     (let m = midi_devs (hw s) ! nat d in
      if md_open_mode m \<noteq> 0 then autobind_loop E c cmode mode ds s
      else if mode AND OPEN_WRITE \<noteq> 0 \<and> md_flags m AND MFLAG_OUTPUT = 0 then autobind_loop E c cmode mode ds s
      else if mode = OPEN_READ \<and> md_flags m AND MFLAG_INPUT = 0 then autobind_loop E c cmode mode ds s
      else
        let (err, s) = run_hw (d_open (md_d m) d cmode) s in
        if failed err then autobind_loop E c cmode mode ds s
        else if md_open_mode (midi_devs (hw s) ! nat d) = 0 then bind_port E c d mode (md_d m) s
        else autobind_loop E c cmode mode ds s)"

definition midi_mapper_autobind :: "'h midi_env \<Rightarrow> int \<Rightarrow> u32 \<Rightarrow> 'h midi_sys \<Rightarrow> (int oss_result \<times> 'h midi_sys) option" where
  "midi_mapper_autobind E c mode s =
     map_option (\<lambda>cl. autobind_loop E c (cl_open_mode cl) mode (map int [0..<length (midi_devs (hw s))]) s) (get_client c s)"

text \<open>The port behind a client, bound now if it is not yet.\<close>

definition bound_port :: "'h midi_env \<Rightarrow> int \<Rightarrow> 'h midi_sys \<Rightarrow> (int oss_result \<times> 'h midi_sys) option" where
  "bound_port E c s =
     Option.bind (get_client c s) (\<lambda>cl.
     Option.bind (if cl_mididev cl = None then midi_mapper_autobind E c (cl_open_mode cl) s else Some (Inr 0, s)) (\<lambda>(err, s).
       if failed err then Some (err, s)
       else Option.bind (get_client c s) (\<lambda>cl.
         Some (case cl_mididev cl of None \<Rightarrow> Inl OSS_EBUSY | Some d \<Rightarrow> Inr (int d), s))))"

section \<open>Closing a port\<close>

definition hush :: "'h midi_driver \<Rightarrow> int \<Rightarrow> 'h midi_sys \<Rightarrow> 'h midi_sys option" where
  "hush D d s = Option.bind (put_output D d [0xfe] s) (put_channels D d 123 0 [0..<16])"

definition release_output :: "nat \<Rightarrow> 'h midi_env \<Rightarrow> int \<Rightarrow> 'h midi_sys \<Rightarrow> 'h midi_sys option" where
  "release_output k E d s =
     Option.bind (sync_output k E d s) (\<lambda>s.
     Option.bind (get_dev d s) (\<lambda>m.
       let s = (if is_timing_master m then oss_timer_stop s (md_timer_dev m) else s);
           s = upd_dev d (\<lambda>m. m\<lparr>md_is_killed := False\<rparr>) s
       in Option.bind (if md_flags m AND MFLAG_QUIET = 0 then hush (md_d m) d s else Some s) (sync_output k E d)))"

definition SNDCTL_SETSONG :: u32 where "SNDCTL_SETSONG = 0x40405902"

definition release_close :: "'h midi_driver \<Rightarrow> int \<Rightarrow> u32 \<Rightarrow> 'h midi_sys \<Rightarrow> 'h midi_sys" where
  "release_close D d mode s =
     (let s = snd (run_hw (d_ioctl D d SNDCTL_SETSONG 0) s);
          s = on_hw (d_close D d mode) s
      in upd_dev d (\<lambda>m. m\<lparr>md_open_mode := md_open_mode m AND NOT mode\<rparr>) s)"

definition release_detach :: "'h midi_env \<Rightarrow> int \<Rightarrow> int \<Rightarrow> 'h midi_sys \<Rightarrow> 'h midi_sys option" where
  "release_detach E c d s =
     Option.bind (get_dev d s) (\<lambda>m.
       let s = (if 0 \<le> md_timer_dev m then oss_timer_detach_client s (md_timer_dev m) d else s);
           s = upd_dev d (\<lambda>m. m\<lparr>md_timer_dev := - 1, md_timer_driver := 0, in_queue := None, md_pid := - 1,
                 out_queue := None\<rparr>) s;
           s = upd_client c (\<lambda>c. c\<lparr>cl_mididev := None\<rparr>) s;
           s = (if md_out_timeout m \<noteq> 0 then on_hw (e_untimeout E (md_out_timeout m)) s else s)
       in Some (upd_dev d (\<lambda>m. m\<lparr>md_out_timeout := 0\<rparr>) s))"

definition oss_midi_release :: "nat \<Rightarrow> 'h midi_env \<Rightarrow> int \<Rightarrow> u32 \<Rightarrow> 'h midi_sys \<Rightarrow> 'h midi_sys option" where
  "oss_midi_release k E c mode s =
     Option.bind (get_client c s) (\<lambda>cl.
       case cl_mididev cl of
         None \<Rightarrow> Some s
       | Some n \<Rightarrow>
           let d = int n in
           Option.bind (get_dev d s) (\<lambda>m.
             let s = on_hw (e_untimeout E (mtc_timeout_id m)) s;
                 s = upd_client c (\<lambda>c. c\<lparr>cl_open_mode := 0\<rparr>) s
             in Option.bind (if md_open_mode m AND OPEN_WRITE \<noteq> 0 then release_output k E d s else Some s) (\<lambda>s.
                release_detach E c d (release_close (md_d m) d mode s))))"

section \<open>Writing\<close>

text \<open>A packet header as the application lays it out: 32 bytes, least significant byte first.\<close>

fun le_bytes :: "bytes \<Rightarrow> u64" where
  "le_bytes [] = 0"
| "le_bytes (b # bs) = ucast b OR push_bit 8 (le_bytes bs)"

definition le_int :: "bytes \<Rightarrow> int" where
  "le_int bs = sint (ucast (le_bytes bs) :: u32)"

definition header_of_bytes :: "bytes \<Rightarrow> packet_header" where
  "header_of_bytes bs = \<lparr>hdr_magic = le_int (take 4 bs), hdr_event_type = ucast (le_bytes (take 2 (drop 4 bs))),
     hdr_options = ucast (le_bytes (take 2 (drop 6 bs))), hdr_time = le_bytes (take 8 (drop 8 bs)),
     hdr_parm = le_int (take 4 (drop 16 bs)),
     hdr_filler = [le_int (take 4 (drop 20 bs)), le_int (take 4 (drop 24 bs)), le_int (take 4 (drop 28 bs))]\<rparr>"

definition HDR_SIZE :: nat where "HDR_SIZE = 32"

text \<open>The loop of \<open>oss_midi_write\<close>: \<open>c\<close> bytes have been written, \<open>data\<close> is left. A round returns
  from the call or goes on with what is left; the code's limit on rounds without progress counts in
  \<open>loops\<close>, which every round that goes on resets.\<close>

datatype write_next = Write_Done "int oss_result" | Write_More int bytes

definition write_full :: "'h midi_env \<Rightarrow> int \<Rightarrow> int \<Rightarrow> bytes \<Rightarrow> 'h midi_sys \<Rightarrow> (write_next \<times> 'h midi_sys) option" where
  "write_full E d c data s =
     Option.bind (get_dev d s) (\<lambda>m.
       case e_sleep E d True (oss_timer_get_timeout s (md_timer_dev m) d) s of
         ((woken, signalled), s) \<Rightarrow>
           if \<not> woken then Some (Write_Done (if 0 < c then Inr c else Inl OSS_EIO), s)
           else if signalled then Some (Write_Done (Inl OSS_EINTR), upd_dev d (\<lambda>m. m\<lparr>md_is_killed := True\<rparr>) s)
           else Some (Write_More c data, s))"

definition write_step ::
  "nat \<Rightarrow> 'h midi_env \<Rightarrow> int \<Rightarrow> bool \<Rightarrow> packet_header \<Rightarrow> nat \<Rightarrow> int \<Rightarrow> bytes \<Rightarrow> 'h midi_sys \<Rightarrow> (write_next \<times> 'h midi_sys) option" where
  "write_step k E d uio_ok hdr loops c data s =
     (if 10 < loops then Some (Write_Done (Inl OSS_EIO), s)
      else
        let l = min (int (length data)) MIDI_PAYLOAD_SIZE in
        Option.bind (get_dev d s) (\<lambda>m.
        Option.bind (out_queue m) (\<lambda>q.
          case midi_queue_alloc_record q l (Some hdr) of
            (Inl e, a, q) \<Rightarrow>
              let s = upd_dev d (\<lambda>m. m\<lparr>out_queue := Some q\<rparr>) s in
              if e = OSS_ENOSPC then write_full E d c data s else Some (Write_Done (Inl e), s)
          | (Inr ret, a, q) \<Rightarrow>
              let l = (if ret < l then ret else l) in
              if 0 < l \<and> \<not> uio_ok then Some (Write_Done (Inl OSS_EFAULT), upd_dev d (\<lambda>m. m\<lparr>out_queue := Some q\<rparr>) s)
              else
                let q = (if 0 < l then queue_store q a (take (nat l) data) else q);
                    s = upd_dev d (\<lambda>m. m\<lparr>out_queue := Some q\<rparr>) s;
                    more = (if 0 < l then Write_More (c + l) (drop (nat l) data) else Write_More c data)
                in map_option (\<lambda>(r, s). (more, s)) (midi_output_intr k E d False s))))"

primrec write_loop ::
  "nat \<Rightarrow> 'h midi_env \<Rightarrow> int \<Rightarrow> bool \<Rightarrow> packet_header \<Rightarrow> bool \<Rightarrow> int \<Rightarrow> bytes \<Rightarrow> 'h midi_sys \<Rightarrow> (int oss_result \<times> 'h midi_sys) option" where
  "write_loop 0 E d uio_ok hdr save c data s = None"
| "write_loop (Suc k) E d uio_ok hdr save c data s =
     (if \<not> save \<and> data = [] then Some (Inr c, s)
      else Option.bind (write_step k E d uio_ok hdr 0 c data s) (\<lambda>(r, s).
        case r of Write_Done x \<Rightarrow> Some (x, s) | Write_More c data \<Rightarrow> write_loop k E d uio_ok hdr False c data s))"

definition oss_midi_write ::
  "nat \<Rightarrow> 'h midi_env \<Rightarrow> int \<Rightarrow> bool \<Rightarrow> bytes \<Rightarrow> 'h midi_sys \<Rightarrow> (int oss_result \<times> 'h midi_sys) option" where
  "oss_midi_write k E c uio_ok data s =
     Option.bind (bound_port E c s) (\<lambda>(r, s).
       case r of Inl e \<Rightarrow> Some (Inl e, s) | Inr d \<Rightarrow>
         Option.bind (get_dev d s) (\<lambda>m.
           let s = upd_dev d (\<lambda>m. m\<lparr>md_is_killed := False\<rparr>) s in
           if md_working_mode m = MIDI_MODE_TRADITIONAL
           then write_loop k E d uio_ok zero_header False 0 data s
           else if length data < HDR_SIZE then Some (Inl OSS_EINVAL, s)
           else if \<not> uio_ok then Some (Inl OSS_EFAULT, s)
           else
             let hdr = header_of_bytes (take HDR_SIZE data); data = drop HDR_SIZE data in
             if hdr_magic hdr \<noteq> MIDI_HDR_MAGIC then Some (Inl OSS_EINVAL, s)
             else write_loop k E d uio_ok hdr (data = []) (int HDR_SIZE) data s))"

section \<open>Reading\<close>

text \<open>A read returns what it copied: the header in the timed modes and the bytes.\<close>

definition do_read ::
  "int \<Rightarrow> bool \<Rightarrow> bytes \<Rightarrow> nat \<Rightarrow> packet_header option \<Rightarrow> 'h midi_sys
    \<Rightarrow> ((int \<times> packet_header option \<times> bytes) oss_result \<times> 'h midi_sys) option" where
  "do_read d uio_ok data max_bytes hdr s =
     Option.bind (get_dev d s) (\<lambda>m.
       let timed = (md_working_mode m \<noteq> MIDI_MODE_TRADITIONAL);
           l = (if timed then int HDR_SIZE else 0);
           c = (if int max_bytes < l + int (length data) then int max_bytes - l else int (length data))
       in if timed \<and> max_bytes \<le> HDR_SIZE then Some (Inl OSS_E2BIG, s)
          else if timed \<and> hdr = None then None
          else if timed \<and> \<not> uio_ok then Some (Inl OSS_EFAULT, s)
          else if c \<le> 0 then Some (Inl OSS_E2BIG, s)
          else if \<not> uio_ok then Some (Inl OSS_EFAULT, s)
          else
            Option.bind (in_queue m) (\<lambda>q.
              Some (Inr (l + c, if timed then map_option (\<lambda>h. h\<lparr>hdr_magic := MIDI_HDR_MAGIC\<rparr>) hdr else None, take (nat c) data),
                    upd_dev d (\<lambda>m. m\<lparr>in_queue := Some (midi_queue_remove_chars q c)\<rparr>) s)))"

text \<open>After the wait \<open>midi_queue_get\<close> takes the record off the queue.\<close>

definition read_wait ::
  "'h midi_env \<Rightarrow> int \<Rightarrow> bool \<Rightarrow> nat \<Rightarrow> 'h midi_sys \<Rightarrow> ((int \<times> packet_header option \<times> bytes) oss_result \<times> 'h midi_sys) option" where
  "read_wait E d uio_ok count s =
     Option.bind (get_dev d s) (\<lambda>m.
       case e_sleep E d False (md_prech_timeout m) s of
         ((woken, signalled), s) \<Rightarrow>
           if \<not> woken then Some (Inr (0, None, []), s)
           else if signalled then Some (Inl OSS_EINTR, upd_dev d (\<lambda>m. m\<lparr>md_is_killed := True\<rparr>) s)
           else
             Option.bind (get_dev d s) (\<lambda>m. Option.bind (in_queue m) (\<lambda>q.
               case midi_queue_get q of
                 (r, v, q) \<Rightarrow>
                   let s = upd_dev d (\<lambda>m. m\<lparr>in_queue := Some q\<rparr>) s in
                   case (r, v) of
                     (Inl e, _) \<Rightarrow> Some (Inl e, s)
                   | (Inr n, None) \<Rightarrow> Some (Inr (n, None, []), s)
                   | (Inr n, Some (data, hdr)) \<Rightarrow>
                       if 0 < n then do_read d uio_ok data count (Some hdr) s else Some (Inr (n, None, []), s))))"

definition oss_midi_read ::
  "'h midi_env \<Rightarrow> int \<Rightarrow> bool \<Rightarrow> nat \<Rightarrow> 'h midi_sys \<Rightarrow> ((int \<times> packet_header option \<times> bytes) oss_result \<times> 'h midi_sys) option" where
  "oss_midi_read E c uio_ok count s =
     Option.bind (bound_port E c s) (\<lambda>(r, s).
       case r of Inl e \<Rightarrow> Some (Inl e, s) | Inr d \<Rightarrow>
         Option.bind (get_dev d s) (\<lambda>m. Option.bind (in_queue m) (\<lambda>q.
           let wait = (if md_prech_timeout m < 0 then Some (Inl OSS_EWOULDBLOCK, s) else read_wait E d uio_ok count s)
           in case snd (midi_queue_find_buffer q) of
                Some (data, hdr) \<Rightarrow>
                  if data \<noteq> [] \<or> md_working_mode m \<noteq> MIDI_MODE_TRADITIONAL
                  then do_read d uio_ok data count (Some hdr) s else wait
              | None \<Rightarrow> wait)))"

end
