(* ===== verification/Midi_Ports.thy ===== *)
theory Midi_Ports
  imports Midi_Files
begin

text \<open>
  The rest of \<open>oss_midi_core.c\<close>: the ioctls and the poll of a MIDI file, the shared device file
  \<open>/dev/midi\<close>, which makes a client without a port, and the installation of ports. The number
  that an ioctl points to is an argument and a part of the result. Registering a device file and
  finding its minor number are arguments.
\<close>

section \<open>Ioctl\<close>

definition SNDCTL_MIDI_PRETIME :: u32 where "SNDCTL_MIDI_PRETIME = 0xc0046d00"
definition SNDCTL_MIDI_MTCINPUT :: u32 where "SNDCTL_MIDI_MTCINPUT = 0xc0046d03"
definition SNDCTL_MIDI_SETMODE :: u32 where "SNDCTL_MIDI_SETMODE = 0xc0046d06"
definition SNDCTL_MIDI_TIMEBASE :: u32 where "SNDCTL_MIDI_TIMEBASE = 0xc0046d07"
definition SNDCTL_MIDI_TEMPO :: u32 where "SNDCTL_MIDI_TEMPO = 0xc0046d08"

lemmas midi_ioctl_cmds = SNDCTL_MIDI_PRETIME_def SNDCTL_MIDI_MTCINPUT_def SNDCTL_MIDI_SETMODE_def
  SNDCTL_MIDI_TIMEBASE_def SNDCTL_MIDI_TEMPO_def

definition mode_of_int :: "int \<Rightarrow> midi_mode option" where
  "mode_of_int v = (if v = 0 then Some MIDI_MODE_TRADITIONAL else if v = 1 then Some MIDI_MODE_TIMED
     else if v = 2 then Some MIDI_MODE_TIMED_ABS else None)"

definition mtc_code :: "int \<Rightarrow> int \<Rightarrow> int option" where
  "mtc_code old v = (if v = 0 \<or> v = - 1 then Some old else if v = 24 then Some 0 else if v = 25 then Some 1
     else if v = 29 then Some 2 else if v = 30 then Some 3 else None)"

type_synonym 'h ioctl_result = "(int oss_result \<times> int) \<times> 'h midi_sys"

definition set_pretime :: "int \<Rightarrow> int \<Rightarrow> 'h midi_sys \<Rightarrow> 'h ioctl_result" where
  "set_pretime d val s =
     (if val < - 1 then ((Inl OSS_EINVAL, val), s)
      else let t = (if val \<noteq> - 1 then signed_take_bit 31 (hz s * val) sdiv 100 else val)
           in ((Inr 0, val), upd_dev d (\<lambda>m. m\<lparr>md_prech_timeout := t\<rparr>) s))"

definition set_mtcinput :: "'h midi_env \<Rightarrow> int \<Rightarrow> int \<Rightarrow> 'h midi_sys \<Rightarrow> 'h ioctl_result option" where
  "set_mtcinput E d val s = Option.bind (get_dev d s) (\<lambda>m. Some
     (case mtc_code (mtc_codetype m) val of
        None \<Rightarrow> ((Inl OSS_EINVAL, val), s)
      | Some code \<Rightarrow>
          let s = upd_dev d (\<lambda>m. m\<lparr>mtc_codetype := code, mtc_timebase := val, mtc_t0 := e_jiffies E (midi_hw (hw s)),
                    mtc_current := 0, mtc_prev_t := - 1, mtc_phase := 0\<rparr>) s
          in if val \<noteq> - 1
             then (case run_hw (e_timeout E Mtc_Generator d (hz s sdiv 100)) s of
                     (i, s) \<Rightarrow> ((Inr val, val), upd_dev d (\<lambda>m. m\<lparr>mtc_timeout_id := i\<rparr>) s))
             else ((Inr val, val), s)))"

text \<open>\<open>if ((err = f (...)) < 0) return err; ...\<close>\<close>

definition and_then ::
  "(int oss_result \<times> 'h midi_sys) option \<Rightarrow> ('h midi_sys \<Rightarrow> (int oss_result \<times> 'h midi_sys) option) \<Rightarrow> (int oss_result \<times> 'h midi_sys) option" where
  "and_then p f = Option.bind p (\<lambda>(err, s). if failed err then Some (err, s) else f s)"

definition set_mode :: "'h midi_env \<Rightarrow> int \<Rightarrow> int \<Rightarrow> 'h midi_sys \<Rightarrow> 'h ioctl_result option" where
  "set_mode E d val s =
     (case mode_of_int val of
        None \<Rightarrow> Some ((Inl OSS_EINVAL, val), s)
      | Some mode \<Rightarrow>
          let s = upd_dev d (\<lambda>m. m\<lparr>md_working_mode := mode\<rparr>) s
          in map_option (\<lambda>(r, s). ((r, val), s))
               (and_then (setup_working_mode d (e_malloc_ok E (midi_hw (hw s))) s) (\<lambda>s.
                and_then (setup_tempo d s) (\<lambda>s.
                and_then (setup_timebase d s) (\<lambda>s. Some (Inr 0, s))))))"

definition oss_midi_ioctl :: "'h midi_env \<Rightarrow> int \<Rightarrow> u32 \<Rightarrow> int \<Rightarrow> 'h midi_sys \<Rightarrow> 'h ioctl_result option" where
  "oss_midi_ioctl E c cmd val s =
     Option.bind (bound_port E c s) (\<lambda>(r, s).
       case r of Inl e \<Rightarrow> Some ((Inl e, val), s) | Inr d \<Rightarrow>
         Option.bind (get_dev d s) (\<lambda>m.
           if cmd = SNDCTL_MIDI_PRETIME then Some (set_pretime d val s)
           else if cmd = SNDCTL_MIDI_MTCINPUT then set_mtcinput E d val s
           else if cmd = SNDCTL_MIDI_SETMODE then set_mode E d val s
           else if cmd = SNDCTL_MIDI_TIMEBASE then
             (if val < 1 \<or> 1000 < val then Some ((Inl OSS_EINVAL, val), s)
              else map_option (\<lambda>(r, s). ((r, val), s)) (setup_timebase d (upd_dev d (\<lambda>m. m\<lparr>md_timebase := val\<rparr>) s)))
           else if cmd = SNDCTL_MIDI_TEMPO then
             (if val < 1 \<or> 200 < val then Some ((Inl OSS_EINVAL, val), s)
              else map_option (\<lambda>(r, s). ((r, val), s)) (setup_tempo d (upd_dev d (\<lambda>m. m\<lparr>md_tempo := val\<rparr>) s)))
           else Some (run_hw (d_ioctl (md_d m) d cmd val) s)))"

section \<open>Poll\<close>

text \<open>The events are \<open>POLLOUT | POLLWRNORM\<close> and \<open>POLLIN | POLLRDNORM\<close>: whether the caller asks for
  output and for input, and whether they are reported. \<open>register\<close> puts the caller on the port's
  queue of waiters for output (\<open>True\<close>) or input.\<close>

definition oss_midi_chpoll ::
  "(int \<Rightarrow> bool \<Rightarrow> 'h \<Rightarrow> 'h) \<Rightarrow> 'h midi_env \<Rightarrow> int \<Rightarrow> bool \<Rightarrow> bool \<Rightarrow> 'h midi_sys \<Rightarrow> ((bool \<times> bool) oss_result \<times> 'h midi_sys) option" where
  "oss_midi_chpoll register E c out inp s =
     (if c < 0 \<or> num_midi_clients (hw s) \<le> c then Some (Inl OSS_ENXIO, s)
      else Option.bind (get_client c s) (\<lambda>cl.
        Option.bind (if cl_mididev cl = None then midi_mapper_autobind E c (cl_open_mode cl) s else Some (Inr 0, s)) (\<lambda>(err, s).
          case err of Inl e \<Rightarrow> Some (Inl e, s) | Inr _ \<Rightarrow>
            Option.bind (get_client c s) (\<lambda>cl.
              case cl_mididev cl of
                None \<Rightarrow> Some (Inl OSS_EIO, s)
              | Some n \<Rightarrow>
                  Option.bind (get_dev (int n) s) (\<lambda>m.
                    let want_out = (out \<and> md_open_mode m AND OPEN_WRITE \<noteq> 0);
                        want_in = (inp \<and> md_open_mode m AND OPEN_READ \<noteq> 0);
                        out_ready = (case out_queue m of None \<Rightarrow> False | Some q \<Rightarrow> 10 \<le> midi_queue_spaceleft q);
                        in_ready = (case in_queue m of None \<Rightarrow> False | Some q \<Rightarrow> \<not> midi_queue_isempty q);
                        s = (if want_out \<and> \<not> out_ready then on_hw (register (int n) True) s else s);
                        s = (if want_in \<and> \<not> in_ready then on_hw (register (int n) False) s else s)
                    in Some (Inr (want_out \<and> out_ready, want_in \<and> in_ready), s))))))"

section \<open>The shared device file\<close>

definition free_client :: "'h midi_sys \<Rightarrow> nat option" where
  "free_client s =
     List.find (\<lambda>i. case midi_clients (hw s) ! i of None \<Rightarrow> False | Some c \<Rightarrow> cl_open_mode c = 0)
       [nat (num_mididevs s)..<nat (num_midi_clients (hw s))]"

definition new_client :: "(int \<Rightarrow> 'h \<Rightarrow> 'h) \<Rightarrow> 'h midi_env \<Rightarrow> 'h midi_sys \<Rightarrow> int oss_result \<times> 'h midi_sys" where
  "new_client install_chrdev E s =
     (let n = num_midi_clients (hw s) in
      if int MAX_MIDI_CLIENTS \<le> n then (Inl OSS_ENXIO, s)
      else if \<not> e_malloc_ok E (midi_hw (hw s)) then (Inl OSS_ENOMEM, s)
      else (Inr n, on_hw (install_chrdev n)
             (set_client n (Some \<lparr>cl_num = 0, cl_open_mode = 0, cl_mididev = None\<rparr>) (s\<lparr>hw := (hw s)\<lparr>num_midi_clients := n + 1\<rparr>\<rparr>))))"

definition oss_vmidi_open ::
  "(int \<Rightarrow> 'h \<Rightarrow> 'h) \<Rightarrow> (int \<Rightarrow> 'h \<Rightarrow> int oss_result) \<Rightarrow> nat \<Rightarrow> 'h midi_env \<Rightarrow> u32 \<Rightarrow> 'h midi_sys
     \<Rightarrow> (int oss_result \<times> 'h midi_sys) option" where
  "oss_vmidi_open install_chrdev find_minor k E mode s =
     (case (case free_client s of Some i \<Rightarrow> (Inr (int i), s) | None \<Rightarrow> new_client install_chrdev E s) of
        (Inl e, s) \<Rightarrow> Some (Inl e, s)
      | (Inr c, s) \<Rightarrow>
          let s = upd_client c (\<lambda>cl. cl\<lparr>cl_num := c, cl_open_mode := mode, cl_mididev := None\<rparr>) s
          in if failed (find_minor c (midi_hw (hw s)))
             then map_option (\<lambda>s. (find_minor c (midi_hw (hw s)), s)) (oss_midi_release k E c mode s)
             else Some (Inr c, s))"

section \<open>Installing a port\<close>

definition MIDI_CAP_INPUT :: u32 where "MIDI_CAP_INPUT = 0x00000002"
definition MIDI_CAP_OUTPUT :: u32 where "MIDI_CAP_OUTPUT = 0x00000004"

text \<open>A record of zeros with its driver, as it is for a new port.\<close>

definition fresh_mididev :: "'h midi_driver \<Rightarrow> 'h mididev" where
  "fresh_mididev D = \<lparr>md_dev = 0, md_name = [], md_d = D, md_caps = 0, md_open_mode = 0, md_working_mode = MIDI_MODE_TRADITIONAL,
     md_timebase = 0, md_tempo = 0, md_os_id = 0, md_enabled = False, md_unloaded = False, md_is_killed = False, md_flags = 0,
     md_out_timeout = 0, md_pid = 0, md_prech_timeout = 0, mtc_timebase = 0, mtc_phase = 0, mtc_t0 = 0, mtc_prev_t = 0,
     mtc_codetype = 0, mtc_current = 0, mtc_timeout_id = 0, in_queue = None, out_queue = None, md_timer_driver = 0,
     md_timer_dev = 0, md_latency = 0, is_timing_master = False\<rparr>"

definition find_unloaded :: "nat \<Rightarrow> 'h midi_sys \<Rightarrow> nat option" where
  "find_unloaded osid s =
     List.find (\<lambda>i. md_unloaded (midi_devs (hw s) ! i) \<and> md_os_id (midi_devs (hw s) ! i) = osid) [0..<length (midi_devs (hw s))]"

definition install_fields :: "int \<Rightarrow> string \<Rightarrow> u32 \<Rightarrow> nat \<Rightarrow> 'h mididev \<Rightarrow> 'h mididev" where
  "install_fields d name flags osid m =
     m\<lparr>md_dev := d, md_pid := - 1, md_os_id := osid, md_latency := - 1, md_flags := flags, md_enabled := True, md_unloaded := False,
       mtc_timebase := - 1, md_timer_driver := 0, md_timer_dev := - 1, md_name := take 63 name,
       md_caps := (if flags AND MFLAG_INPUT \<noteq> 0 then MIDI_CAP_INPUT else 0) OR (if flags AND MFLAG_OUTPUT \<noteq> 0 then MIDI_CAP_OUTPUT else 0)\<rparr>"

definition install_client :: "'h midi_env \<Rightarrow> int \<Rightarrow> 'h midi_sys \<Rightarrow> 'h midi_sys option" where
  "install_client E d s =
     (case midi_clients (hw s) ! nat d of
        Some cl \<Rightarrow> Some s
      | None \<Rightarrow>
          if \<not> e_malloc_ok E (midi_hw (hw s)) then None
          else let s = set_client d (Some \<lparr>cl_num = 0, cl_open_mode = 0, cl_mididev = None\<rparr>) s
               in Some (s\<lparr>hw := (hw s)\<lparr>num_midi_clients := num_mididevs s\<rparr>\<rparr>))"

definition oss_install_mididev ::
  "(int \<Rightarrow> 'h \<Rightarrow> 'h) \<Rightarrow> 'h midi_env \<Rightarrow> string \<Rightarrow> 'h midi_driver \<Rightarrow> u32 \<Rightarrow> nat \<Rightarrow> 'h midi_sys \<Rightarrow> (int oss_result \<times> 'h midi_sys) option" where
  "oss_install_mididev install_chrdev E name D flags osid s =
     (let flags = (if flags AND (MFLAG_INPUT OR MFLAG_OUTPUT) = 0 then flags OR (MFLAG_INPUT OR MFLAG_OUTPUT) else flags);
          finish = (\<lambda>d s. map_option (\<lambda>s. (Inr d, on_hw (install_chrdev d) s))
                            (install_client E d (upd_dev d (install_fields d name flags osid) s)))
      in case find_unloaded osid s of
           Some i \<Rightarrow> finish (int i) s
         | None \<Rightarrow>
             if int MAX_MIDI_DEV - 1 \<le> num_mididevs s then Some (Inl OSS_EIO, s)
             else if \<not> e_malloc_ok E (midi_hw (hw s)) then Some (Inl OSS_ENOMEM, s)
             else finish (num_mididevs s)
                    (s\<lparr>num_mididevs := num_mididevs s + 1, hw := (hw s)\<lparr>midi_devs := midi_devs (hw s) @ [fresh_mididev D]\<rparr>\<rparr>))"

section \<open>Initialisation\<close>

definition midi_mapper_init :: "'h midi_sys \<Rightarrow> 'h midi_sys" where "midi_mapper_init s = s"
definition midi_mapper_uninit :: "'h midi_sys \<Rightarrow> 'h midi_sys" where "midi_mapper_uninit s = s"

text \<open>The default timer is a timer driver over the hardware state, so attaching it is an argument.
  \<open>already_done\<close> is the static flag of the code.\<close>

definition oss_midi_init :: "('h midi_sys \<Rightarrow> 'h midi_sys) \<Rightarrow> bool \<Rightarrow> 'h midi_sys \<Rightarrow> bool \<times> 'h midi_sys" where
  "oss_midi_init attach_timer already_done s =
     (if already_done then (True, s)
      else if HDR_SIZE \<noteq> 32 then (True, s)
      else (True, attach_timer (snd (oss_init_timers (midi_mapper_init s)))))"

text \<open>The wait queues and locks of the ports that \<open>oss_midi_uninit\<close> then destroys are not part of the state.\<close>

definition oss_midi_uninit :: "('h midi_sys \<Rightarrow> 'h midi_sys) \<Rightarrow> 'h midi_sys \<Rightarrow> 'h midi_sys" where
  "oss_midi_uninit detach_timer s = snd (oss_uninit_timers (detach_timer (midi_mapper_uninit s)))"

end
