(* ===== verification/Midi_Core_Laws.thy ===== *)
theory Midi_Core_Laws
  imports Midi_Ports Midi_Queue_Laws
begin

text \<open>
  How the operations of the MIDI core act on the table of ports and on the queue of one port: the
  frame lemmas of the accessors, and the input side of an open port as a pipe of bytes from the
  driver to the reader.
\<close>

section \<open>Accessors\<close>

lemma get_dev_bounds: "get_dev d s = Some m \<Longrightarrow> 0 \<le> d \<and> nat d < length (midi_devs (hw s)) \<and> m = midi_devs (hw s) ! nat d"
  by (auto simp: get_dev_def split: if_splits)

lemma get_upd_dev [simp]:
  "get_dev d (upd_dev d f s) = map_option f (get_dev d s)"
  by (auto simp: get_dev_def upd_dev_def)

lemma get_upd_dev_other [simp]: "nat d \<noteq> nat d' \<Longrightarrow> get_dev d (upd_dev d' f s) = get_dev d s"
  by (simp add: get_dev_def upd_dev_def)

lemma get_dev_on_hw [simp]: "get_dev d (on_hw f s) = get_dev d s"
  by (simp add: get_dev_def on_hw_def)

lemma get_dev_opt_hw [simp]: "get_dev d (opt_hw f i s) = get_dev d s"
  by (simp add: opt_hw_def split: option.splits)

lemma get_dev_run_hw [simp]: "get_dev d (snd (run_hw f s)) = get_dev d s"
  by (simp add: get_dev_def run_hw_def split: prod.splits)

lemma get_client_frame [simp]:
  "get_client c (upd_dev d f s) = get_client c s" "get_client c (on_hw g s) = get_client c s"
  "get_client c (opt_hw p i s) = get_client c s" "get_client c (snd (run_hw r s)) = get_client c s"
  by (simp_all add: get_client_def upd_dev_def on_hw_def opt_hw_def run_hw_def split: option.splits prod.splits)

lemma get_dev_upd_client [simp]: "get_dev d (upd_client c f s) = get_dev d s"
  by (simp add: get_dev_def upd_client_def)

lemma get_upd_client [simp]: "get_client c (upd_client c f s) = map_option f (get_client c s)"
  by (auto simp: get_client_def upd_client_def)

lemma hz_frame [simp]:
  "hz (upd_dev d f s) = hz s" "hz (on_hw g s) = hz s" "hz (snd (run_hw r s)) = hz s"
  by (simp_all add: upd_dev_def on_hw_def run_hw_def split: prod.splits)

lemma run_hw_frame:
  assumes "run_hw f s = (x, s')"
  shows "get_dev d s' = get_dev d s" and "get_client c s' = get_client c s" and "hz s' = hz s"
  using get_dev_run_hw[of d f s] get_client_frame(4)[of c f s] hz_frame(3)[of f s]
  unfolding assms by simp_all

section \<open>The input of an open port as a pipe\<close>

text \<open>A port in the traditional mode that a non-blocking reader has open.\<close>

definition reader_ready :: "int \<Rightarrow> int \<Rightarrow> 'h midi_sys \<Rightarrow> bool" where
  "reader_ready c d s \<longleftrightarrow>
     (\<exists>m q. get_dev d s = Some m \<and> md_working_mode m = MIDI_MODE_TRADITIONAL \<and> md_prech_timeout m < 0 \<and>
        in_queue m = Some q \<and> queue_inv q) \<and>
     (\<exists>cl. get_client c s = Some cl \<and> cl_mididev cl = Some (nat d))"

definition port_stream :: "int \<Rightarrow> 'h midi_sys \<Rightarrow> bytes" where
  "port_stream d s = (case Option.bind (get_dev d s) in_queue of None \<Rightarrow> [] | Some q \<Rightarrow> queue_stream q)"

definition core_offer :: "'h midi_env \<Rightarrow> int \<Rightarrow> bytes \<Rightarrow> 'h midi_sys \<Rightarrow> nat \<times> 'h midi_sys" where
  "core_offer E d data s = (case oss_midi_input_buf E d data s of None \<Rightarrow> (0, s) | Some (n, s) \<Rightarrow> (nat n, s))"

definition core_fetch :: "'h midi_env \<Rightarrow> int \<Rightarrow> nat \<Rightarrow> 'h midi_sys \<Rightarrow> bytes \<times> 'h midi_sys" where
  "core_fetch E c count s = (case oss_midi_read E c True count s of
     Some (Inr (n, hdr, out), s) \<Rightarrow> (out, s) | Some (Inl e, s) \<Rightarrow> ([], s) | None \<Rightarrow> ([], s))"

lemma queue_input_spec:
  assumes "get_dev d s = Some m" and "md_working_mode m = MIDI_MODE_TRADITIONAL" and "in_queue m = Some q" and "queue_inv q"
  shows "\<exists>n q' f. queue_midi_input E d data s = Some (int n, on_hw f (upd_dev d (\<lambda>m. m\<lparr>in_queue := Some q'\<rparr>) s)) \<and>
    n \<le> length data \<and> queue_inv q' \<and> queue_stream q' = queue_stream q @ take n data"
proof -
  obtain r q' where p: "midi_queue_put q data None = (r, q')" by fastforce
  have e: "put_effect (msgs q) data None r (msgs q')" "queue_inv q'"
    using put_spec[OF assms(4) _ p] by simp_all
  obtain n where n: "queue_offer data q = (n, q')" "int n = (case r of Inl e \<Rightarrow> 0 | Inr n \<Rightarrow> n)"
    using p e(1) by (auto simp: queue_offer_def put_effect_def split: sum.splits)
  have h: "input_header m s = Some None" using assms(2) by (simp add: input_header_def)
  have "queue_midi_input E d data s
      = Some (int n, on_hw (e_wakeup E d False) (upd_dev d (\<lambda>m. m\<lparr>in_queue := Some q'\<rparr>) s))"
    unfolding queue_midi_input_def assms(1) bind.simps h assms(3) p prod.case n(2) by (simp split: sum.splits)
  with queue_offer_law[OF assms(4) n(1)] show ?thesis by blast
qed

lemma reader_ready_input:
  assumes "reader_ready c d s"
  shows "\<exists>n s'. queue_midi_input E d data s = Some (int n, s') \<and> reader_ready c d s' \<and> n \<le> length data \<and>
    port_stream d s' = port_stream d s @ take n data"
proof -
  obtain m q cl where m: "get_dev d s = Some m" "md_working_mode m = MIDI_MODE_TRADITIONAL" "md_prech_timeout m < 0"
      "in_queue m = Some q" "queue_inv q" and cl: "get_client c s = Some cl" "cl_mididev cl = Some (nat d)"
    using assms by (auto simp: reader_ready_def)
  obtain n q' f where q: "queue_midi_input E d data s = Some (int n, on_hw f (upd_dev d (\<lambda>m. m\<lparr>in_queue := Some q'\<rparr>) s))"
    "n \<le> length data" "queue_inv q'" "queue_stream q' = queue_stream q @ take n data"
    using queue_input_spec[OF m(1,2,4,5)] by blast
  with m cl show ?thesis by (auto simp: reader_ready_def port_stream_def)
qed

lemma reader_ready_upd:
  assumes "\<And>m. md_working_mode (f m) = md_working_mode m \<and> md_prech_timeout (f m) = md_prech_timeout m \<and> in_queue (f m) = in_queue m"
  shows "reader_ready c d (upd_dev d f s) = reader_ready c d s" and "port_stream d (upd_dev d f s) = port_stream d s"
  using assms by (cases "get_dev d s"; simp add: reader_ready_def port_stream_def)+

lemma input_buf_loop_spec:
  assumes "reader_ready c d s"
  shows "\<exists>n s'. input_buf_loop E d data k s = Some (k + int n, s') \<and> reader_ready c d s' \<and> n \<le> length data \<and>
    port_stream d s' = port_stream d s @ take n data"
  using assms
proof (induction E d data k s rule: input_buf_loop.induct)
  case (1 E d data k s)
  show ?case
  proof (cases "data = []")
    case True
    with 1(2) show ?thesis by (auto simp: input_buf_loop.simps)
  next
    case False
    obtain m where m: "get_dev d s = Some m" using 1(2) by (auto simp: reader_ready_def)
    define chunk where "chunk = take (nat (min (int (length data)) MIDI_PAYLOAD_SIZE)) data"
    define s1 where "s1 = (if 0xf1 \<in> set chunk then upd_dev d (\<lambda>m. m\<lparr>mtc_timebase := - 1\<rparr>) s else s)"
    have r1: "reader_ready c d s1" "port_stream d s1 = port_stream d s"
      using 1(2) by (auto simp: s1_def reader_ready_upd)
    obtain n s2 where n: "queue_midi_input E d chunk s1 = Some (int n, s2)" "reader_ready c d s2" "n \<le> length chunk"
        "port_stream d s2 = port_stream d s1 @ take n chunk"
      using reader_ready_input[OF r1(1)] by blast
    have tc: "take n chunk = take n data" "n \<le> length data"
      using n(3) by (simp_all only: chunk_def length_take take_take min.absorb1 min.bounded_iff)
    have step: "input_buf_loop E d data k s
        = (if n = 0 then Some (k, s2) else input_buf_loop E d (drop n data) (k + int n) s2)"
      using False m n(1) unfolding input_buf_loop.simps[of E d data k s] Let_def chunk_def[symmetric] s1_def[symmetric]
      by simp
    show ?thesis
    proof (cases "n = 0")
      case True
      with step n r1 show ?thesis by auto
    next
      case n0: False
      have "\<exists>j s'. input_buf_loop E d (drop n data) (k + int n) s2 = Some (k + int n + int j, s') \<and> reader_ready c d s' \<and>
          j \<le> length (drop n data) \<and> port_stream d s' = port_stream d s2 @ take j (drop n data)"
        using 1(1)[OF False refl refl m _ _ refl, of s1 "int n" s2] n0 n(1,2) by (simp add: chunk_def[symmetric] s1_def)
      then obtain j s' where "input_buf_loop E d data k s = Some (k + int (n + j), s')" "reader_ready c d s'"
          "n + j \<le> length data" "port_stream d s' = port_stream d s @ take n data @ take j (drop n data)"
        using step n0 n(4) r1 tc by auto
      then show ?thesis by (intro exI[of _ "n + j"] exI[of _ s']) (simp add: take_add)
    qed
  qed
qed

lemma core_offer_law:
  assumes "reader_ready c d s" and "core_offer E d data s = (n, s')"
  shows "reader_ready c d s' \<and> n \<le> length data \<and> port_stream d s' = port_stream d s @ take n data"
proof -
  obtain m where m: "get_dev d s = Some m" using assms(1) by (auto simp: reader_ready_def)
  show ?thesis using input_buf_loop_spec[OF assms(1), of E data 0] assms(2) m
    by (auto simp: core_offer_def oss_midi_input_buf_def)
qed

text \<open>A read with data in the queue, without waiting.\<close>

lemma bound_port_bound:
  assumes "get_client c s = Some cl" and "cl_mididev cl = Some (nat d)" and "0 \<le> d"
  shows "bound_port E c s = Some (Inr d, s)"
  using assms by (simp add: bound_port_def failed_def)

lemma do_read_spec:
  assumes "get_dev d s = Some m" and "md_working_mode m = MIDI_MODE_TRADITIONAL" and "in_queue m = Some q" and "queue_inv q"
    and "data \<noteq> []"
  shows "do_read d True data count hdr s = (if count = 0 then Some (Inl OSS_E2BIG, s)
    else Some (Inr (int (min count (length data)), None, take count data),
      upd_dev d (\<lambda>m. m\<lparr>in_queue := Some (midi_queue_remove_chars q (int (min count (length data))))\<rparr>) s))"
proof -
  have "count \<noteq> 0" if "length data \<le> count" using that assms(5) by (cases data) auto
  then show ?thesis using assms(1-3,5) by (cases "count < length data") (auto simp: do_read_def Let_def)
qed

lemma core_fetch_eq:
  assumes "get_dev d s = Some m" and "md_working_mode m = MIDI_MODE_TRADITIONAL" and "md_prech_timeout m < 0"
    and "in_queue m = Some q" and "queue_inv q" and "get_client c s = Some cl" and "cl_mididev cl = Some (nat d)"
  shows "core_fetch E c count s =
    (case msgs q of [] \<Rightarrow> ([], s)
     | (data, h) # ms \<Rightarrow>
         if data = [] \<or> count = 0 then ([], s)
         else (take count data,
           upd_dev d (\<lambda>m. m\<lparr>in_queue := Some (midi_queue_remove_chars q (int (min count (length data))))\<rparr>) s))"
proof -
  have d: "0 \<le> d" using get_dev_bounds[OF assms(1)] by simp
  note b = bound_port_bound[OF assms(6,7) d, of E]
  show ?thesis
    using assms(1-4) do_read_spec[OF assms(1,2,4,5)] find_buffer_spec[OF assms(5)]
    by (cases "msgs q") (auto simp: core_fetch_def oss_midi_read_def b)
qed

lemma core_fetch_law:
  assumes "reader_ready c d s" and "core_fetch E c count s = (out, s')"
  shows "reader_ready c d s' \<and> port_stream d s = out @ port_stream d s'"
proof -
  obtain m q cl where m: "get_dev d s = Some m" "md_working_mode m = MIDI_MODE_TRADITIONAL" "md_prech_timeout m < 0"
      "in_queue m = Some q" "queue_inv q" and cl: "get_client c s = Some cl" "cl_mididev cl = Some (nat d)"
    using assms by (auto simp: reader_ready_def)
  note e = core_fetch_eq[OF m cl, of E count]
  show ?thesis
  proof (cases "msgs q")
    case Nil
    with e assms show ?thesis by simp
  next
    case (Cons x ms)
    obtain data h where x: "x = (data, h)" by fastforce
    define n where "n = min count (length data)"
    have r: "queue_inv (midi_queue_remove_chars q (int n))"
      "msgs (midi_queue_remove_chars q (int n)) = (if n < length data then (drop n data, h) # ms else ms)"
      using remove_chars_spec[OF m(5), of "int n"] Cons x by auto
    show ?thesis
      using e assms Cons x r m cl
      by (auto simp: reader_ready_def port_stream_def queue_stream_def n_def[symmetric] split: if_splits)
        (auto simp: n_def min_def split: if_splits)
  qed
qed

interpretation core_in: byte_pipe "reader_ready c d" "port_stream d" "core_offer E d" "core_fetch E c"
  for E :: "'h midi_env" and c d
  by unfold_locales (rule core_offer_law core_fetch_law; assumption)+

section \<open>A port to try things on\<close>

text \<open>A hardware whose state is the system's clock, a driver that keeps silent, and a system of one port
  that its client has open for reading.\<close>

definition clock_env :: "int midi_env" where
  "clock_env = \<lparr>e_jiffies = (\<lambda>h. h), e_timeout = (\<lambda>f d t h. (1, h)), e_untimeout = (\<lambda>i h. h),
     e_sleep = (\<lambda>d out t s. ((False, False), s)), e_wakeup = (\<lambda>d out h. h), e_malloc_ok = (\<lambda>h. True)\<rparr>"

definition silent_driver :: "int midi_driver" where
  "silent_driver = \<lparr>d_open = (\<lambda>d mode h. (Inr 0, h)), d_close = (\<lambda>d mode h. h), d_ioctl = (\<lambda>d c v h. ((Inr 0, v), h)),
     d_outputc = Some (\<lambda>d b h. (True, h)), d_bulk_write = None, d_flush_output = None, d_wait_output = None,
     d_timer_setup = None, d_init_device = None\<rparr>"

definition reading_port :: "int mididev" where
  "reading_port = install_fields 0 [] (MFLAG_INPUT OR MFLAG_OUTPUT) 0
     ((fresh_mididev silent_driver)\<lparr>md_open_mode := OPEN_READ, md_prech_timeout := - 1, in_queue := midi_queue_alloc True\<rparr>)"

definition one_port_system :: "int mididev \<Rightarrow> midi_client \<Rightarrow> int midi_sys" where
  "one_port_system m cl = \<lparr>timer_devs = [], timer_drivers = [], num_mididevs = 1, hz = 100,
     hw = \<lparr>midi_devs = [m], midi_clients = Some cl # replicate 51 None, num_midi_clients = 1, midi_hw = 0\<rparr>\<rparr>"

definition reading_system :: "int midi_sys" where
  "reading_system = one_port_system reading_port \<lparr>cl_num = 0, cl_open_mode = OPEN_READ, cl_mididev = Some 0\<rparr>"

lemma alloc_True_ready: "\<exists>q. midi_queue_alloc True = Some q \<and> queue_inv q \<and> msgs q = []"
  using alloc_spec by (cases "midi_queue_alloc True") (auto simp: midi_queue_alloc_def)

lemma reading_system_port:
  "get_dev 0 reading_system = Some reading_port" "get_client 0 reading_system = Some \<lparr>cl_num = 0, cl_open_mode = OPEN_READ, cl_mididev = Some 0\<rparr>"
  and reading_system_hz [simp]: "hz reading_system = 100"
  by (simp_all add: get_dev_def get_client_def reading_system_def one_port_system_def)

lemma reading_system_ready: "reader_ready 0 0 reading_system" and reading_system_stream: "port_stream 0 reading_system = []"
  using alloc_True_ready
  by (auto simp: reader_ready_def port_stream_def reading_system_port reading_port_def install_fields_def fresh_mididev_def
      queue_stream_def)



end
