(* ===== verification/Midi_Mtc_Laws.thy ===== *)
theory Midi_Mtc_Laws
  imports Midi_Core_Laws Midi_Parser_Laws
begin

text \<open>
  The time code generator of the core against the decoder of the message parser: what a reader
  gets from a port while the generator runs, and what the decoder makes of it.
\<close>

section \<open>The data bytes\<close>

text \<open>What becomes of a field of the time code: its low nibble is reduced modulo 15.\<close>

definition mtc_sent :: "nat \<Rightarrow> nat" where
  "mtc_sent x = x mod 15 + 16 * (x div 16)"

lemma mtc_sent_fix:
  assumes "x < 64"
  shows "mtc_sent x = x \<longleftrightarrow> x < 15"
proof
  assume e: "mtc_sent x = x"
  define k where "k = x div 15"
  define j where "j = x div 16"
  have "15 * k + x mod 15 = x" by (simp add: k_def)
  moreover have "x mod 15 + 16 * j = x" using e by (simp add: mtc_sent_def j_def)
  ultimately have "15 * k = 16 * j" by linarith
  moreover have "k < 5" using assms by (auto simp: k_def)
  ultimately have "k = 0" by presburger
  then show "x < 15" by (auto simp: k_def div_eq_0_iff)
qed (simp add: mtc_sent_def)

lemma quarter_or:
  assumes "k < 8" and "n < 16"
  shows "word_of_nat (16 * k) OR (word_of_nat n :: u8) = quarter k n"
proof -
  have n: "16 * k + n < 256" using assms by simp
  have "(16 * k + n) mod 16 = n" "(16 * k + n) div 16 = k" using assms(2) by simp_all
  moreover have "push_bit 4 (word_of_nat k :: u8) = word_of_nat (16 * k)" by (simp add: push_bit_eq_mult)
  ultimately show ?thesis using nibble_join[OF n] by (simp add: quarter_def or.commute)
qed

lemma quarter_hours:
  assumes "b < 2" and "ty < 4"
  shows "0x70 OR word_of_nat b OR (word_of_nat (2 * ty) :: u8) = quarter 7 (b + 2 * ty)"
proof -
  have "b = 0 \<or> b = 1" "ty = 0 \<or> ty = 1 \<or> ty = 2 \<or> ty = 3" using assms by auto
  then show ?thesis by (elim disjE) (simp_all add: quarter_def)
qed

lemma sdiv_nat [simp]: "int a sdiv int b = int (a div b)"
  by (cases "a = 0 \<or> b = 0") (auto simp: signed_divide_int_def zdiv_int)

lemma smod_nat [simp]: "int a smod int b = int (a mod b)"
  by (cases "a = 0") (auto simp: signed_modulo_int_def zmod_int)

lemma smod_nat_numeral: "int a smod numeral b = int (a mod numeral b)"
  using smod_nat[of a "numeral b"] by simp

lemma sdiv_nat_numeral: "int a sdiv numeral b = int (a div numeral b)"
  using sdiv_nat[of a "numeral b"] by simp

lemmas smod_nats = smod_nat_numeral sdiv_nat_numeral smod_nat sdiv_nat

definition mtc_nats :: "nat \<Rightarrow> nat \<Rightarrow> nat \<times> nat \<times> nat \<times> nat" where
  "mtc_nats fps t = (let f = t div 4 in (f div fps div 3600, f div fps div 60 mod 60, f div fps mod 60, f mod fps))"

lemma mtc_fields_nat:
  assumes "mtc_nats fps t = (h, m, s, f)" and "h < 24" and "0 < fps"
  shows "mtc_fields (int fps) (int t) = (int h, int m, int s, int f)"
proof -
  have "t div 4 div fps div 60 div 60 = h" using assms(1) by (auto simp: mtc_nats_def Let_def div_mult2_eq[symmetric])
  then show ?thesis using assms
    by (auto simp: mtc_fields_def mtc_nats_def Let_def smod_nats)
qed

lemma mtc_data_quarters:
  assumes "h < 24" and "m < 60" and "s < 60" and "f < 60" and "ty < 4"
  shows "map (\<lambda>k. mtc_data (int k) (int ty) (int h, int m, int s, int f)) [0..<8]
    = quarter_frames ty (mtc_sent h) (mtc_sent m) (mtc_sent s) (mtc_sent f)"
proof -
  have low: "mtc_sent x mod 16 = x mod 15" "mtc_sent x div 16 = x div 16" for x
    by (simp_all add: mtc_sent_def)
  have q: "word_of_nat (16 * k) OR word_of_nat n = quarter k n" if "k < 8" "n < 16" for k n
    using that by (rule quarter_or)
  have lt: "x mod 15 < 16" for x :: nat by (rule less_trans[of _ 15]) simp_all
  have hi: "x div 16 mod 15 = x div 16" "x div 16 < 16" if "x < 60" for x :: nat using that by auto
  have l: "word_of_nat (16 * k) OR word_of_int (int x smod 15) = quarter k (x mod 15)" if "k < 8" for k x
    using q[OF that lt, of x] by (simp add: smod_nats)
  have u: "word_of_nat (16 * k) OR word_of_int (drop_bit 4 (int x) smod 15) = quarter k (x div 16)" if "k < 8" "x < 60" for k x
    proof -
    have "drop_bit 4 (int x) = int (x div 16)" by (simp add: drop_bit_eq_div zdiv_int)
    then have "drop_bit 4 (int x) smod 15 = int (x div 16 mod 15)" by (simp only: smod_nats)
    then show ?thesis using q[OF that(1) hi(2)[OF that(2)]] hi(1)[OF that(2)] by simp
  qed
  have h: "h div 16 < 2" using assms(1) by auto
  have top: "0x70 OR word_of_int (drop_bit 4 (int h) smod 3) OR word_of_int (push_bit 1 (int ty)) = quarter 7 (h div 16 + 2 * ty)"
  proof -
    have "drop_bit 4 (int h) = int (h div 16)" by (simp add: drop_bit_eq_div zdiv_int)
    then have "drop_bit 4 (int h) smod 3 = int (h div 16 mod 3)" by (simp only: smod_nats)
    then show ?thesis using quarter_hours[OF h assms(5)] h by (simp add: push_bit_eq_mult mult.commute)
  qed
  show ?thesis
    using l[of 0 f] u[of 1 f] l[of 2 s] u[of 3 s] l[of 4 m] u[of 5 m] l[of 6 h] top assms
    by (simp add: quarter_frames_def low mtc_data_def upt_rec)
qed

section \<open>The generator and a reader\<close>

text \<open>The system timer calls the generator when the hardware is in the states \<open>hs\<close>; the reader reads
  two bytes after each call.\<close>

fun mtc_session :: "'h midi_env \<Rightarrow> int \<Rightarrow> int \<Rightarrow> 'h list \<Rightarrow> 'h midi_sys \<Rightarrow> bytes \<times> 'h midi_sys" where
  "mtc_session E c d [] s = ([], s)"
| "mtc_session E c d (h # hs) s =
     (case mtc_generator E d (on_hw (\<lambda>_. h) s) of
        None \<Rightarrow> ([], s)
      | Some s1 \<Rightarrow>
          (case core_fetch E c 2 s1 of (out, s2) \<Rightarrow>
             case mtc_session E c d hs s2 of (outs, s3) \<Rightarrow> (out @ outs, s3)))"

text \<open>The number of quarter frames that the clock of a hardware state shows.\<close>

definition mtc_clock :: "'h midi_env \<Rightarrow> int \<Rightarrow> int \<Rightarrow> int \<Rightarrow> 'h \<Rightarrow> int" where
  "mtc_clock E freq tb t0 h = signed_take_bit 31 (e_jiffies E h - t0) sdiv (freq sdiv (tb * 4))"

text \<open>A generating port between two calls: \<open>k\<close> is the next piece, \<open>cur\<close> the time that is sent, \<open>prev\<close> the last
  call's time.\<close>

definition mtc_running :: "int \<Rightarrow> int \<Rightarrow> int \<Rightarrow> int \<Rightarrow> int \<Rightarrow> int \<Rightarrow> nat \<Rightarrow> int \<Rightarrow> int \<Rightarrow> 'h midi_sys \<Rightarrow> bool" where
  "mtc_running c d freq tb ty t0 k cur prev s \<longleftrightarrow>
     hz s = freq \<and>
     (\<exists>m q. get_dev d s = Some m \<and> md_working_mode m = MIDI_MODE_TRADITIONAL \<and> md_prech_timeout m < 0 \<and>
        in_queue m = Some q \<and> queue_inv q \<and> msgs q = [] \<and> mtc_timebase m = tb \<and> mtc_codetype m = ty \<and> mtc_t0 m = t0 \<and>
        mtc_phase m = int k \<and> mtc_current m = cur \<and> mtc_prev_t m = prev) \<and>
     (\<exists>cl. get_client c s = Some cl \<and> cl_mididev cl = Some (nat d))"

lemma mtc_tick:
  assumes "mtc_running c d freq tb ty t0 k cur prev s" and "k < 8" and "0 < tb" and "1 \<le> freq sdiv (tb * 4)"
    and "prev < mtc_clock E freq tb t0 h"
  shows "\<exists>s'. mtc_session E c d (h # hs) s =
      (let cur' = (if k = 0 then mtc_clock E freq tb t0 h else cur); (outs, s3) = mtc_session E c d hs s'
       in ([0xf1, mtc_data (int k) ty (mtc_fields tb cur')] @ outs, s3)) \<and>
    mtc_running c d freq tb ty t0 ((k + 1) mod 8) (if k = 0 then mtc_clock E freq tb t0 h else cur) (mtc_clock E freq tb t0 h) s'"
proof -
  obtain m q cl where m: "get_dev d s = Some m" "md_working_mode m = MIDI_MODE_TRADITIONAL" "md_prech_timeout m < 0"
      "in_queue m = Some q" "queue_inv q" "msgs q = []" "mtc_timebase m = tb" "mtc_codetype m = ty" "mtc_t0 m = t0"
      "mtc_phase m = int k" "mtc_current m = cur" "mtc_prev_t m = prev" and hz: "hz s = freq"
    and cl: "get_client c s = Some cl" "cl_mididev cl = Some (nat d)"
    using assms(1) by (auto simp: mtc_running_def)
  define t where "t = mtc_clock E freq tb t0 h"
  define cur' where "cur' = (if k = 0 then t else cur)"
  define data where "data = mtc_data (int k) ty (mtc_fields tb cur')"
  define s0 where "s0 = on_hw (\<lambda>_. h) s"
  obtain i s1 where r: "run_hw (e_timeout E Mtc_Generator d (hz s0 sdiv 100)) s0 = (i, s1)" by fastforce
  have s1: "get_dev d s1 = Some m" "get_client c s1 = Some cl" "hz s1 = freq"
    using run_hw_frame[OF r] m(1) cl(1) hz by (simp_all add: s0_def)
  define m2 where "m2 = m\<lparr>mtc_timeout_id := i, mtc_prev_t := t, mtc_current := cur', mtc_phase := int ((k + 1) mod 8)\<rparr>"
  define s2 where "s2 = upd_dev d (\<lambda>m. m\<lparr>mtc_prev_t := t, mtc_current := cur', mtc_phase := (mtc_phase m + 1) smod 8\<rparr>)
    (upd_dev d (\<lambda>m. m\<lparr>mtc_timeout_id := i\<rparr>) s1)"
  have ph: "(mtc_phase m + 1) smod 8 = int ((k + 1) mod 8)"
    using smod_nat_numeral[of "k + 1"] m(10) by (simp add: add.commute)
  have t: "signed_take_bit 31 (e_jiffies E (midi_hw (hw s0)) - mtc_t0 m) sdiv (freq sdiv (tb * 4)) = t"
    by (simp add: t_def mtc_clock_def m(9) s0_def on_hw_def)
  have g: "mtc_generator E d s0 = map_option snd (queue_midi_input E d [0xf1, data] s2)"
  proof -
    have "mtc_generator E d s0 = Option.bind (Some m) (\<lambda>m. map_option snd (queue_midi_input E d [0xf1, data] s2))"
      unfolding mtc_generator_def s0_def get_dev_on_hw m(1) bind.simps unfolding s0_def[symmetric]
      unfolding r prod.case Let_def
      using assms(3-5) m(7,12) s1(3) by (simp add: t m(8,10,11) cur'_def data_def s2_def t_def[symmetric])
    then show ?thesis by simp
  qed
  have s2: "get_dev d s2 = Some m2" "get_client c s2 = Some cl" "hz s2 = freq" by (simp_all add: s2_def s1 m2_def ph)
  obtain r' q' where p: "midi_queue_put q [0xf1, data] None = (r', q')" by fastforce
  have r': "r' = Inr 2" using put_empty[OF m(5,6), of "[0xf1, data]" None] p by (simp add: MIDI_PAYLOAD_SIZE_def)
  have q': "queue_inv q'" "msgs q' = [([0xf1, data], header_of None)]"
    using put_spec[OF m(5) _ p] m(6) by (simp_all add: r' put_effect_def)
  have h0: "input_header m2 s2 = Some None" using m(2) by (simp add: input_header_def m2_def)
  define s3 where "s3 = on_hw (e_wakeup E d False) (upd_dev d (\<lambda>m. m\<lparr>in_queue := Some q'\<rparr>) s2)"
  have "queue_midi_input E d [0xf1, data] s2 = Some (2, s3)"
    unfolding queue_midi_input_def s2(1) bind.simps h0 using m(4) p r' by (simp add: m2_def s3_def)
  then have g': "mtc_generator E d s0 = Some s3" using g by simp
  define q2 where "q2 = midi_queue_remove_chars q' 2"
  define s4 where "s4 = upd_dev d (\<lambda>m. m\<lparr>in_queue := Some q2\<rparr>) s3"
  have s3: "get_dev d s3 = Some (m2\<lparr>in_queue := Some q'\<rparr>)" "get_client c s3 = Some cl" "hz s3 = freq" by (simp_all add: s3_def s2)
  have f: "core_fetch E c 2 s3 = ([0xf1, data], s4)"
    using core_fetch_eq[OF s3(1) _ _ _ q'(1) s3(2) cl(2), of E 2] m(2,3) q'(2) by (simp add: m2_def s4_def q2_def)
  have q2: "queue_inv q2" "msgs q2 = []" using remove_chars_spec[OF q'(1), of 2] q'(2) by (simp_all add: q2_def)
  have "mtc_running c d freq tb ty t0 ((k + 1) mod 8) cur' t s4"
    using m cl s3 q2 by (auto simp: mtc_running_def s4_def m2_def)
  moreover have "mtc_session E c d (h # hs) s = (case mtc_session E c d hs s4 of (outs, s5) \<Rightarrow> ([0xf1, data] @ outs, s5))"
    using g' f by (simp add: s0_def)
  ultimately show ?thesis unfolding t_def[symmetric] cur'_def[symmetric] data_def
    by (intro exI[of _ s4]) (simp add: Let_def)
qed

lemma mtc_round:
  assumes "mtc_running c d freq tb ty t0 k cur prev s" and "0 < k" and "k + length hs \<le> 8" and "0 < tb"
    and "1 \<le> freq sdiv (tb * 4)" and "sorted_wrt (<) (prev # map (mtc_clock E freq tb t0) hs)"
  shows "\<exists>s'. mtc_session E c d hs s
    = (concat (map (\<lambda>j. [0xf1, mtc_data (int j) ty (mtc_fields tb cur)]) [k..<k + length hs]), s')"
  using assms
proof (induction hs arbitrary: k prev s)
  case Nil
  then show ?case by simp
next
  case (Cons h hs)
  have k: "k < 8" "k \<noteq> 0" using Cons.prems(2,3) by simp_all
  have p: "prev < mtc_clock E freq tb t0 h" using Cons.prems(6) by simp
  obtain s1 where s1: "mtc_session E c d (h # hs) s = (case mtc_session E c d hs s1 of (outs, s3) \<Rightarrow>
        ([0xf1, mtc_data (int k) ty (mtc_fields tb cur)] @ outs, s3))"
      "mtc_running c d freq tb ty t0 ((k + 1) mod 8) cur (mtc_clock E freq tb t0 h) s1"
    using mtc_tick[OF Cons.prems(1) k(1) Cons.prems(4,5) p, of hs] k(2) by (auto simp: Let_def)
  have up: "[k..<k + length (h # hs)] = k # [Suc k..<Suc k + length hs]" by (simp add: upt_rec)
  show ?case
  proof (cases "hs = []")
    case True
    with s1(1) show ?thesis by simp
  next
    case False
    then have "(k + 1) mod 8 = Suc k" using Cons.prems(3) by (cases hs) simp_all
    then obtain s' where "mtc_session E c d hs s1
        = (concat (map (\<lambda>j. [0xf1, mtc_data (int j) ty (mtc_fields tb cur)]) [Suc k..<Suc k + length hs]), s')"
      using Cons.IH[of "Suc k" "mtc_clock E freq tb t0 h" s1] s1(2) Cons.prems(3-6) by auto
    then show ?thesis unfolding s1(1) up by simp
  qed
qed

lemma quarter_stream_inj: "quarter_stream xs = quarter_stream ys \<longleftrightarrow> xs = ys"
proof (induction xs arbitrary: ys)
  case Nil
  show ?case by (cases ys) (auto simp: quarter_stream_def)
next
  case (Cons x xs)
  then show ?case by (cases ys) (simp_all add: quarter_stream_def)
qed

lemma quarter_inj:
  assumes "k < 8" and "n < 16" and "n' < 16" and "quarter k n = quarter k n'"
  shows "n = n'"
  using uint_quarter[OF assms(1,2), unfolded assms(4) uint_quarter[OF assms(1,3)]] by linarith

lemma mtc_sent_frames:
  assumes "h < 64" and "m < 64" and "s < 64" and "f < 64" and "ty < 4"
  shows "quarter_frames ty (mtc_sent h) (mtc_sent m) (mtc_sent s) (mtc_sent f) = quarter_frames ty h m s f
    \<longleftrightarrow> h < 15 \<and> m < 15 \<and> s < 15 \<and> f < 15"
proof -
  have eq: "mtc_sent x = x" if "k < 8" "quarter k (mtc_sent x mod 16) = quarter k (x mod 16)" for k x
  proof -
    have "mtc_sent x mod 16 = x mod 16" using quarter_inj[OF that(1) _ _ that(2)] by simp
    then show ?thesis by (simp add: mtc_sent_def)
  qed
  show ?thesis
  proof
    assume "quarter_frames ty (mtc_sent h) (mtc_sent m) (mtc_sent s) (mtc_sent f) = quarter_frames ty h m s f"
    then have "mtc_sent h = h" "mtc_sent m = m" "mtc_sent s = s" "mtc_sent f = f"
      using eq[of 0 f] eq[of 2 s] eq[of 4 m] eq[of 6 h] by (simp_all add: quarter_frames_def)
    then show "h < 15 \<and> m < 15 \<and> s < 15 \<and> f < 15" using assms mtc_sent_fix by blast
  next
    assume "h < 15 \<and> m < 15 \<and> s < 15 \<and> f < 15"
    then show "quarter_frames ty (mtc_sent h) (mtc_sent m) (mtc_sent s) (mtc_sent f) = quarter_frames ty h m s f"
      by (simp add: mtc_sent_def)
  qed
qed

lemma mtc_nats_facts:
  assumes "mtc_nats fps t = (h, m, s, f)" and "0 < fps"
  shows "m < 60" and "s < 60" and "f < fps" and "quarter_count fps h m s f 0 = t div 4 * 4"
proof -
  define F where "F = t div 4"
  define S where "S = F div fps"
  define M where "M = S div 60"
  have e: "f = F mod fps" "s = S mod 60" "m = M mod 60" "h = M div 60"
    using assms(1) by (auto simp: mtc_nats_def Let_def F_def S_def M_def div_mult2_eq[symmetric])
  then show "m < 60" "s < 60" "f < fps" using assms(2) by simp_all
  have "m + 60 * h = M" "s + 60 * M = S" "f + fps * S = F" by (simp_all add: e M_def S_def)
  then show "quarter_count fps h m s f 0 = t div 4 * 4" by (simp add: quarter_count_def F_def)
qed

lemma mtc_session_bytes:
  assumes "mtc_running c d freq (int fps) ty t0 0 cur prev s" and "0 < fps" and "int (fps * 4) \<le> freq" and "length hs = 8"
    and "sorted_wrt (<) (prev # map (mtc_clock E freq (int fps) t0) hs)" and "mtc_clock E freq (int fps) t0 (hd hs) = t"
  shows "fst (mtc_session E c d hs s) = quarter_stream (map (\<lambda>k. mtc_data (int k) ty (mtc_fields (int fps) t)) [0..<8])"
proof -
  obtain h hs' where hs: "hs = h # hs'" "length hs' = 7" using assms(4) by (cases hs) auto
  have st: "1 \<le> freq sdiv (int fps * 4)"
  proof -
    have "0 < freq" using assms(2,3) by (simp add: mult.commute)
    then have "freq sdiv (int fps * 4) = freq div (int fps * 4)" using assms(2) by (simp add: signed_divide_int_def)
    moreover have "(int fps * 4) div (int fps * 4) \<le> freq div (int fps * 4)" using assms(2,3) by (intro zdiv_mono1) simp_all
    ultimately show ?thesis using assms(2) by simp
  qed
  have p: "prev < mtc_clock E freq (int fps) t0 h" and pos: "0 < int fps" using assms(2,5) hs by simp_all
  obtain s1 where s1: "mtc_session E c d hs s = (case mtc_session E c d hs' s1 of (outs, s3) \<Rightarrow>
        ([0xf1, mtc_data 0 ty (mtc_fields (int fps) t)] @ outs, s3))"
      "mtc_running c d freq (int fps) ty t0 1 t t s1"
    using mtc_tick[OF assms(1) _ pos st p, of hs'] assms(6) hs by (auto simp: Let_def)
  have le: "(1::nat) + length hs' \<le> 8" "sorted_wrt (<) (t # map (mtc_clock E freq (int fps) t0) hs')"
    using assms(5,6) hs by auto
  obtain s' where "mtc_session E c d hs' s1
      = (concat (map (\<lambda>j. [0xf1, mtc_data (int j) ty (mtc_fields (int fps) t)]) [1..<1 + length hs']), s')"
    using mtc_round[OF s1(2) _ le(1) pos st le(2)] by auto
  moreover have "[0..<8] = 0 # [1..<1 + length hs']" by (simp add: upt_rec hs(2))
  ultimately show ?thesis using s1(1) by (simp add: quarter_stream_def comp_def)
qed

text \<open>C39: A reader that follows the time code generator over a full round of eight calls, however far
  apart they are, gets the eight quarter frame messages of the time of the first call with every
  field \<open>x\<close> sent as \<open>x mod 15 + 16 * (x div 16)\<close>. They are the messages of the time code if and only if
  hours, minutes, seconds and frames are all below 15, and then the parser decodes the time.\<close>

theorem mtc_generated:
  assumes "mtc_running c d freq (int fps) (int ty) t0 0 cur prev s" and "ty < 4" and "fps = unat (frame_types ! ty)"
    and "int (fps * 4) \<le> freq" and "length hs = 8" and "sorted_wrt (<) (prev # map (mtc_clock E freq (int fps) t0) hs)"
    and "mtc_clock E freq (int fps) t0 (hd hs) = int t" and "mtc_nats fps t = (hh, mm, ss, ff)" and "hh < 24"
    and "outs = fst (mtc_session E c d hs s)"
  shows "outs = quarter_stream (quarter_frames ty (mtc_sent hh) (mtc_sent mm) (mtc_sent ss) (mtc_sent ff)) \<and>
    (outs = quarter_stream (quarter_frames ty hh mm ss ff) \<longleftrightarrow> hh < 15 \<and> mm < 15 \<and> ss < 15 \<and> ff < 15) \<and>
    (hh < 15 \<and> mm < 15 \<and> ss < 15 \<and> ff < 15 \<longrightarrow>
      (\<exists>p evs tc. midiparser_input_buf (fresh_parser True) outs = Some (p, evs) \<and> last evs = Mtc_Callback tc \<and>
        quarter_count fps (unat (hours tc)) (unat (minutes tc)) (unat (seconds tc)) (unat (frames tc)) (unat (qframes tc))
          = t div 4 * 4 + 7))"
proof -
  have fps: "24 \<le> fps" "fps \<le> 30"
  proof -
    have "ty = 0 \<or> ty = 1 \<or> ty = 2 \<or> ty = 3" using assms(2) by auto
    then show "24 \<le> fps" "fps \<le> 30" using assms(3) by (auto simp: frame_types_def)
  qed
  then have pos: "0 < fps" by simp
  note n = mtc_nats_facts[OF assms(8) pos]
  have lt: "ff < 60" using n(3) fps(2) by simp
  have o: "outs = quarter_stream (quarter_frames ty (mtc_sent hh) (mtc_sent mm) (mtc_sent ss) (mtc_sent ff))"
    using mtc_session_bytes[OF assms(1) pos assms(4-7)] assms(10)
      mtc_fields_nat[OF assms(8,9) pos] mtc_data_quarters[OF assms(9) n(1,2) lt assms(2)] by simp
  have iff: "outs = quarter_stream (quarter_frames ty hh mm ss ff) \<longleftrightarrow> hh < 15 \<and> mm < 15 \<and> ss < 15 \<and> ff < 15"
    unfolding o quarter_stream_inj using assms(2,9) n(1,2) lt by (intro mtc_sent_frames) auto
  have init: "mtc_callback (fresh_parser True)" "prev_ix (mtc_st (fresh_parser True)) = - 1 \<or> prev_ix (mtc_st (fresh_parser True)) = 7"
    by (simp_all add: fresh_parser_def midiparser_create_def midiparser_mtc_callback_def)
  have ft: "ff < unat (frame_types ! ty)" using n(3) assms(3) by simp
  show ?thesis
    using o iff n(4) decode_quarters[OF init assms(9) n(1,2) assms(2) ft] assms(3) by auto
qed

definition mtc_system :: "int midi_sys" where
  "mtc_system = upd_dev 0 (\<lambda>m. m\<lparr>mtc_timebase := 24, mtc_prev_t := - 1\<rparr>) reading_system"

lemma mtc_system_running: "mtc_running 0 0 100 (int 24) (int 0) 0 0 0 (- 1) mtc_system"
  using alloc_True_ready
  by (auto simp: mtc_running_def mtc_system_def reading_system_port reading_port_def install_fields_def fresh_mididev_def)

theorem mtc_generated_witness:
  "fst (mtc_session clock_env 0 0 (map int [1920..<1928]) mtc_system) = quarter_stream (quarter_frames 0 0 0 21 0)"
proof -
  have c: "mtc_clock clock_env 100 (int 24) 0 (int t) = int t" if "t < 2000" for t
    using that by (simp add: mtc_clock_def clock_env_def signed_take_bit_int_eq_self)
  have hs: "map int [1920..<1928] = map int [1920, 1921, 1922, 1923, 1924, 1925, 1926, 1927]" by (simp add: upt_rec)
  have s: "sorted_wrt (<) (- 1 # map (mtc_clock clock_env 100 (int 24) 0) (map int [1920..<1928]))"
    by (simp add: hs c del: of_nat_numeral)
  have t: "mtc_clock clock_env 100 (int 24) 0 (hd (map int [1920..<1928])) = int 1920"
    by (simp add: hs c del: of_nat_numeral)
  from mtc_generated[OF mtc_system_running _ _ _ _ s t, of 0 0 20 0] show ?thesis
    by (simp add: frame_types_def mtc_nats_def mtc_sent_def)
qed

end
