(* ===== verification/Midi_File_Laws.thy ===== *)
theory Midi_File_Laws
  imports Midi_Core_Laws
begin

text \<open>
  What opening, binding, reading and closing the device files of the MIDI core do to the tables of
  clients and ports: which client has which port, and where the code loses data or clients.
\<close>

section \<open>A read that waits\<close>

text \<open>A read that finds the queue empty and waits loses data: it takes the first message off the
  queue, returns what fits of it, and then removes as many bytes as it returned from the next message.\<close>

theorem blocking_read_loses:
  assumes "get_client c s = Some cl" and "cl_mididev cl = Some (nat d)" and "get_dev d s = Some m"
    and "md_working_mode m = MIDI_MODE_TRADITIONAL" and "in_queue m = Some q" and "queue_inv q" and "msgs q = []"
    and "0 \<le> md_prech_timeout m" and "e_sleep E d False (md_prech_timeout m) s = ((True, False), s1)"
    and "get_dev d s1 = Some m1" and "md_working_mode m1 = MIDI_MODE_TRADITIONAL" and "in_queue m1 = Some q1"
    and "queue_inv q1" and "msgs q1 = (a, h) # rest" and "a \<noteq> []" and "0 < count" and "n = min count (length a)"
  shows "\<exists>s'. oss_midi_read E c True count s = Some (Inr (int n, None, take count a), s') \<and>
    port_stream d s1 = take count a @ (drop count a @ (case rest of [] \<Rightarrow> [] | (b, h') # ms \<Rightarrow> take n b)) @ port_stream d s'"
proof -
  have d: "0 \<le> d" using get_dev_bounds[OF assms(3)] by simp
  obtain r v q2 where g: "midi_queue_get q1 = (r, v, q2)" by (metis prod_cases3)
  have g2: "queue_inv q2" "r = Inr (int (length a))" "v = Some (a, h)" "msgs q2 = rest"
    using get_spec[OF assms(13) g] assms(14) by simp_all
  define s2 where "s2 = upd_dev d (\<lambda>m. m\<lparr>in_queue := Some q2\<rparr>) s1"
  have s2: "get_dev d s2 = Some (m1\<lparr>in_queue := Some q2\<rparr>)" using assms(10) by (simp add: s2_def)
  define q3 where "q3 = midi_queue_remove_chars q2 (int n)"
  define s3 where "s3 = upd_dev d (\<lambda>m. m\<lparr>in_queue := Some q3\<rparr>) s2"
  have "read_wait E d True count s = do_read d True a count (Some h) s2"
    using assms(3,9,10,12,15) g g2(2,3) by (simp add: read_wait_def s2_def)
  also have "\<dots> = Some (Inr (int n, None, take count a), s3)"
    using do_read_spec[OF s2 _ _ g2(1) assms(15), of count "Some h"] assms(11,16,17) by (simp add: s3_def q3_def)
  finally have w: "read_wait E d True count s = Some (Inr (int n, None, take count a), s3)" .
  have "oss_midi_read E c True count s = read_wait E d True count s"
    using bound_port_bound[OF assms(1,2) d, of E] find_buffer_spec[OF assms(6)] assms(3,5,7,8)
    by (simp add: oss_midi_read_def)
  moreover have "port_stream d s1 = a @ concat (map fst rest)"
    using assms(10,12,14) by (simp add: port_stream_def queue_stream_def)
  moreover have "port_stream d s3 = (case rest of [] \<Rightarrow> [] | (b, h') # ms \<Rightarrow> drop n b @ concat (map fst ms))"
    using remove_chars_spec[OF g2(1), of "int n"] g2(4) s2
    by (auto simp: port_stream_def queue_stream_def s3_def q3_def split: list.splits)
  ultimately show ?thesis using w by (intro exI[of _ s3]) (auto split: list.splits)
qed

text \<open>Two bytes arrive in one message while a reader of one byte waits.\<close>

definition arrived :: "midi_queue \<Rightarrow> midi_queue" where
  "arrived q = snd (midi_queue_put q [0xc0, 5] None)"

definition arrival_env :: "int midi_env" where
  "arrival_env = clock_env\<lparr>e_sleep := (\<lambda>d out t s. ((True, False), upd_dev d (\<lambda>m. m\<lparr>in_queue := map_option arrived (in_queue m)\<rparr>) s))\<rparr>"

definition waiting_system :: "int midi_sys" where
  "waiting_system = upd_dev 0 (\<lambda>m. m\<lparr>md_prech_timeout := 0\<rparr>) reading_system"

lemma arrived_msgs:
  assumes "queue_inv q" and "msgs q = []"
  shows "queue_inv (arrived q) \<and> msgs (arrived q) = [([0xc0, 5], header_of None)]"
proof -
  obtain r q' where p: "midi_queue_put q [0xc0, 5] None = (r, q')" by fastforce
  have "r = Inr 2" using put_empty[OF assms, of "[0xc0, 5]" None] p by (simp add: MIDI_PAYLOAD_SIZE_def)
  then show ?thesis using put_spec[OF assms(1) _ p] assms(2) p by (simp add: put_effect_def arrived_def)
qed

theorem blocking_read_loses_witness:
  "\<exists>s'. oss_midi_read arrival_env 0 True 1 waiting_system = Some (Inr (1, None, [0xc0]), s') \<and> port_stream 0 s' = []"
proof -
  obtain q where q: "midi_queue_alloc True = Some q" "queue_inv q" "msgs q = []" using alloc_True_ready by blast
  define m where "m = reading_port\<lparr>md_prech_timeout := 0\<rparr>"
  define s1 where "s1 = upd_dev 0 (\<lambda>m. m\<lparr>in_queue := map_option arrived (in_queue m)\<rparr>) waiting_system"
  have m: "get_dev 0 waiting_system = Some m" "in_queue m = Some q" "md_working_mode m = MIDI_MODE_TRADITIONAL" "md_prech_timeout m = 0"
    using q(1) by (simp_all add: waiting_system_def reading_system_port m_def reading_port_def install_fields_def fresh_mididev_def)
  have s1: "get_dev 0 s1 = Some (m\<lparr>in_queue := Some (arrived q)\<rparr>)" using m by (simp add: s1_def)
  have e: "e_sleep arrival_env 0 False (md_prech_timeout m) waiting_system = ((True, False), s1)"
    by (simp add: arrival_env_def s1_def)
  have c: "get_client 0 waiting_system = Some \<lparr>cl_num = 0, cl_open_mode = OPEN_READ, cl_mididev = Some 0\<rparr>"
    by (simp add: waiting_system_def reading_system_port)
  note a = arrived_msgs[OF q(2,3)]
  have "port_stream 0 s1 = [0xc0, 5]" using s1 a by (simp add: port_stream_def queue_stream_def)
  then show ?thesis
    using blocking_read_loses[OF c _ m(1,3,2) q(2,3) _ e s1, of "arrived q" "[0xc0, 5]" "header_of None" "[]" 1 1] a m(3,4)
    by (simp add: eq_commute[of "[]"])
qed

section \<open>Clients without a port\<close>

text \<open>Opening \<open>/dev/midi\<close> and closing it without having read or written anything.\<close>

definition vmidi_round ::
  "(int \<Rightarrow> 'h \<Rightarrow> 'h) \<Rightarrow> (int \<Rightarrow> 'h \<Rightarrow> int oss_result) \<Rightarrow> nat \<Rightarrow> 'h midi_env \<Rightarrow> u32 \<Rightarrow> 'h midi_sys \<Rightarrow> 'h midi_sys option" where
  "vmidi_round install minor k E mode s = Option.bind (oss_vmidi_open install minor k E mode s) (\<lambda>(r, s).
     case r of Inl e \<Rightarrow> Some s | Inr c \<Rightarrow> oss_midi_release k E c mode s)"

primrec vmidi_rounds ::
  "(int \<Rightarrow> 'h \<Rightarrow> 'h) \<Rightarrow> (int \<Rightarrow> 'h \<Rightarrow> int oss_result) \<Rightarrow> nat \<Rightarrow> 'h midi_env \<Rightarrow> u32 \<Rightarrow> nat \<Rightarrow> 'h midi_sys \<Rightarrow> 'h midi_sys option" where
  "vmidi_rounds install minor k E mode 0 s = Some s"
| "vmidi_rounds install minor k E mode (Suc n) s =
     Option.bind (vmidi_round install minor k E mode s) (vmidi_rounds install minor k E mode n)"

text \<open>No client is free and there are \<open>n\<close> entries left in the table.\<close>

definition clients_left :: "nat \<Rightarrow> 'h midi_sys \<Rightarrow> bool" where
  "clients_left n s \<longleftrightarrow> 0 \<le> num_mididevs s \<and> length (midi_clients (hw s)) = MAX_MIDI_CLIENTS \<and>
     num_midi_clients (hw s) + int n = int MAX_MIDI_CLIENTS \<and> num_mididevs s \<le> num_midi_clients (hw s) \<and> free_client s = None"

lemma free_client_None:
  "free_client s = None \<longleftrightarrow> (\<forall>i. nat (num_mididevs s) \<le> i \<and> i < nat (num_midi_clients (hw s)) \<longrightarrow>
     (case midi_clients (hw s) ! i of None \<Rightarrow> True | Some c \<Rightarrow> cl_open_mode c \<noteq> 0))"
  by (auto simp: free_client_def find_None_iff split: option.splits)

lemma vmidi_round_leaks:
  assumes "clients_left (Suc n) s" and "mode \<noteq> 0" and "\<And>h. e_malloc_ok E h" and "\<And>c h. \<not> failed (minor c h)"
  shows "\<exists>s'. vmidi_round install minor k E mode s = Some s' \<and> clients_left n s'"
proof -
  define c where "c = num_midi_clients (hw s)"
  have c: "0 \<le> c" "c < int MAX_MIDI_CLIENTS" "num_mididevs s \<le> c" "nat c < length (midi_clients (hw s))"
    "length (midi_clients (hw s)) = MAX_MIDI_CLIENTS" "0 \<le> num_mididevs s"
    using assms(1) by (auto simp: clients_left_def c_def)
  define s1 where "s1 = snd (new_client install E s)"
  have new: "new_client install E s = (Inr c, s1)"
    using c(2) assms(3) by (simp add: new_client_def s1_def c_def[symmetric] Let_def)
  define s2 where "s2 = upd_client c (\<lambda>cl. cl\<lparr>cl_num := c, cl_open_mode := mode, cl_mididev := None\<rparr>) s1"
  have o: "oss_vmidi_open install minor k E mode s = Some (Inr c, s2)"
    using assms(1,4) new by (simp add: oss_vmidi_open_def clients_left_def s2_def Let_def)
  have cl: "midi_clients (hw s2) = (midi_clients (hw s))[nat c := Some \<lparr>cl_num = c, cl_open_mode = mode, cl_mididev = None\<rparr>]"
    "num_midi_clients (hw s2) = c + 1" "num_mididevs s2 = num_mididevs s"
    using c(2,4) assms(3) by (simp_all add: s2_def upd_client_def s1_def new_client_def c_def[symmetric] Let_def on_hw_def set_client_def)
  have "get_client c s2 = Some \<lparr>cl_num = c, cl_open_mode = mode, cl_mididev = None\<rparr>"
    using c cl(1) by (simp add: get_client_def)
  then have "oss_midi_release k E c mode s2 = Some s2" by (simp add: oss_midi_release_def)
  then have r: "vmidi_round install minor k E mode s = Some s2" by (simp add: vmidi_round_def o)
  have "free_client s2 = None"
    unfolding free_client_None
  proof (intro allI impI)
    fix i
    assume i: "nat (num_mididevs s2) \<le> i \<and> i < nat (num_midi_clients (hw s2))"
    show "case midi_clients (hw s2) ! i of None \<Rightarrow> True | Some c \<Rightarrow> cl_open_mode c \<noteq> 0"
    proof (cases "i = nat c")
      case True
      then show ?thesis using c(4) assms(2) by (simp add: cl)
    next
      case False
      then have "nat (num_mididevs s) \<le> i \<and> i < nat c" using i c(1) by (auto simp: cl)
      then show ?thesis using assms(1) False
        by (auto simp: clients_left_def free_client_None cl c_def[symmetric])
    qed
  qed
  then have "clients_left n s2" using assms(1) c by (auto simp: clients_left_def cl c_def)
  with r show ?thesis by blast
qed

lemma vmidi_rounds_leak:
  assumes "clients_left (n + j) s" and "mode \<noteq> 0" and "\<And>h. e_malloc_ok E h" and "\<And>c h. \<not> failed (minor c h)"
  shows "\<exists>s'. vmidi_rounds install minor k E mode n s = Some s' \<and> clients_left j s'"
  using assms(1)
proof (induction n arbitrary: s)
  case (Suc n)
  obtain s1 where "vmidi_round install minor k E mode s = Some s1" "clients_left (n + j) s1"
    using vmidi_round_leaks[OF _ assms(2,3), of "n + j" s minor install k] Suc.prems assms(4) by auto
  with Suc.IH show ?case by simp
qed simp

text \<open>A client of \<open>/dev/midi\<close> that is closed before it was bound to a port is never freed. When no
  client is free and \<open>n\<close> entries of the client table are left, opening and closing the file \<open>n\<close> times
  uses them up, and after that every open fails with \<open>OSS_ENXIO\<close>, although nobody has the file open.\<close>

theorem vmidi_clients_leak:
  assumes "clients_left n s" and "mode \<noteq> 0" and "\<And>h. e_malloc_ok E h" and "\<And>c h. \<not> failed (minor c h)"
  shows "\<exists>s'. vmidi_rounds install minor k E mode n s = Some s' \<and>
    oss_vmidi_open install minor k E mode s' = Some (Inl OSS_ENXIO, s')"
proof -
  obtain s' where s': "vmidi_rounds install minor k E mode n s = Some s'" "clients_left 0 s'"
    using vmidi_rounds_leak[OF _ assms(2,3), of n 0 s minor install k] assms(1,4) by auto
  then have "oss_vmidi_open install minor k E mode s' = Some (Inl OSS_ENXIO, s')"
    by (simp add: oss_vmidi_open_def clients_left_def new_client_def)
  with s'(1) show ?thesis by blast
qed

theorem vmidi_clients_leak_witness:
  "\<exists>s'. vmidi_rounds (\<lambda>_ h. h) (\<lambda>c h. Inr 7) 0 clock_env OPEN_READ 51 reading_system = Some s' \<and>
     oss_vmidi_open (\<lambda>_ h. h) (\<lambda>c h. Inr 7) 0 clock_env OPEN_READ s' = Some (Inl OSS_ENXIO, s')"
proof -
  have "clients_left 51 reading_system"
    by (simp add: clients_left_def free_client_def reading_system_def one_port_system_def MAX_MIDI_CLIENTS_def MAX_MIDI_DEV_def)
  then show ?thesis
    by (intro vmidi_clients_leak) (simp_all add: OPEN_READ_def clock_env_def failed_def)
qed

section \<open>Which client has which port\<close>

text \<open>A client is open on a port.\<close>

definition open_on :: "'h midi_sys \<Rightarrow> nat \<Rightarrow> nat \<Rightarrow> bool" where
  "open_on s c i \<longleftrightarrow> c < length (midi_clients (hw s)) \<and>
     (\<exists>cl. midi_clients (hw s) ! c = Some cl \<and> cl_open_mode cl \<noteq> 0 \<and> cl_mididev cl = Some i)"

definition port_busy :: "'h midi_sys \<Rightarrow> nat \<Rightarrow> bool" where
  "port_busy s i \<longleftrightarrow> i < length (midi_devs (hw s)) \<and> md_open_mode (midi_devs (hw s) ! i) \<noteq> 0"

text \<open>Every port that a client is open on is marked as open, and no other client is open on it.\<close>

definition exclusive :: "'h midi_sys \<Rightarrow> bool" where
  "exclusive s \<longleftrightarrow> (\<forall>c i. open_on s c i \<longrightarrow> port_busy s i \<and> (\<forall>c'. open_on s c' i \<longrightarrow> c' = c))"

text \<open>The system calls on the files, in any order. An operation that leaves the tables of clients and the
  open modes of the ports alone, a read, a write or the input of a port, is an \<open>other\<close> step. Ports are
  closed without a timer, as they are in the traditional mode.\<close>

inductive file_reach :: "'h midi_env \<Rightarrow> 'h midi_sys \<Rightarrow> bool" for E where
  start: "(\<And>c cl. c < length (midi_clients (hw s)) \<Longrightarrow> midi_clients (hw s) ! c = Some cl \<Longrightarrow> cl_open_mode cl = 0) \<Longrightarrow> file_reach E s"
| opened: "file_reach E s \<Longrightarrow> mode \<noteq> 0 \<Longrightarrow> oss_midi_open E d mode pid s = Some (r, s') \<Longrightarrow> file_reach E s'"
| vopened: "file_reach E s \<Longrightarrow> mode \<noteq> 0 \<Longrightarrow> oss_vmidi_open install minor k E mode s = Some (r, s') \<Longrightarrow> file_reach E s'"
| bound: "file_reach E s \<Longrightarrow> bound_port E c s = Some (r, s') \<Longrightarrow> file_reach E s'"
| closed: "file_reach E s \<Longrightarrow> 0 \<le> c \<Longrightarrow> open_on s (nat c) i \<Longrightarrow> md_timer_dev (midi_devs (hw s) ! i) < 0 \<Longrightarrow>
    oss_midi_release k E c mode s = Some s' \<Longrightarrow> file_reach E s'"
| other: "file_reach E s \<Longrightarrow> midi_clients (hw s') = midi_clients (hw s) \<Longrightarrow>
    map md_open_mode (midi_devs (hw s')) = map md_open_mode (midi_devs (hw s)) \<Longrightarrow> file_reach E s'"

text \<open>The part of the state that decides exclusiveness.\<close>

definition same_files :: "'h midi_sys \<Rightarrow> 'h midi_sys \<Rightarrow> bool" where
  "same_files s s' \<longleftrightarrow> midi_clients (hw s') = midi_clients (hw s) \<and>
     map md_open_mode (midi_devs (hw s')) = map md_open_mode (midi_devs (hw s))"

lemma same_files_refl [simp]: "same_files s s"
  by (simp add: same_files_def)

lemma same_files_trans: "same_files s s1 \<Longrightarrow> same_files s1 s2 \<Longrightarrow> same_files s s2"
  by (simp add: same_files_def)

lemma same_files_cong:
  assumes "same_files s s'"
  shows "open_on s' c i = open_on s c i" and "port_busy s' i = port_busy s i" and "exclusive s' = exclusive s"
proof -
  have l: "length (midi_devs (hw s')) = length (midi_devs (hw s))"
    using assms by (metis length_map same_files_def)
  have "md_open_mode (midi_devs (hw s') ! i) = md_open_mode (midi_devs (hw s) ! i)" if "i < length (midi_devs (hw s))" for i
  proof -
    have "map md_open_mode (midi_devs (hw s')) ! i = map md_open_mode (midi_devs (hw s)) ! i"
      using assms by (simp only: same_files_def)
    then show ?thesis using that l by simp
  qed
  then have b: "port_busy s' = port_busy s" using l by (auto simp: port_busy_def fun_eq_iff)
  have c: "midi_clients (hw s') = midi_clients (hw s)" using assms by (simp add: same_files_def)
  have o: "open_on s' = open_on s" by (simp add: open_on_def fun_eq_iff c)
  show "open_on s' c i = open_on s c i" "port_busy s' i = port_busy s i" "exclusive s' = exclusive s"
    by (simp_all only: o b exclusive_def)
qed

lemma map_mode_update:
  "\<lbrakk>\<And>m. md_open_mode (f m) = md_open_mode m\<rbrakk> \<Longrightarrow> map md_open_mode (xs[i := f (xs ! i)]) = map md_open_mode xs"
  by (cases "i < length xs") (auto intro!: nth_equalityI simp: nth_list_update)

lemma same_files_upd_dev:
  "(\<And>m. md_open_mode (f m) = md_open_mode m) \<Longrightarrow> same_files s (upd_dev d f s)"
  by (simp add: same_files_def upd_dev_def map_mode_update)

lemma same_files_hw [simp]:
  "same_files s (on_hw g s)" "same_files s (opt_hw p i s)" "same_files s (snd (run_hw r s))"
  by (simp_all add: same_files_def on_hw_def opt_hw_def run_hw_def split: option.splits prod.splits)

section \<open>What each call does to the tables\<close>

text \<open>The tables after client \<open>c\<close> became \<open>cl\<close> and the open mode of port \<open>i\<close> became \<open>v\<close>.\<close>

definition files_after :: "nat \<Rightarrow> midi_client \<Rightarrow> nat \<Rightarrow> u32 \<Rightarrow> 'h midi_sys \<Rightarrow> 'h midi_sys \<Rightarrow> bool" where
  "files_after c cl i v s s' \<longleftrightarrow> midi_clients (hw s') = (midi_clients (hw s))[c := Some cl] \<and>
     map md_open_mode (midi_devs (hw s')) = (map md_open_mode (midi_devs (hw s)))[i := v]"

lemma files_after_simps:
  assumes "files_after c cl i v s s'" and "c < length (midi_clients (hw s))" and "i < length (midi_devs (hw s))"
  shows "open_on s' k j \<longleftrightarrow> (if k = c then cl_open_mode cl \<noteq> 0 \<and> cl_mididev cl = Some j else open_on s k j)"
    and "port_busy s' j \<longleftrightarrow> (if j = i then v \<noteq> 0 else port_busy s j)"
proof -
  have l: "length (midi_devs (hw s')) = length (midi_devs (hw s))"
    using assms(1) by (metis files_after_def length_list_update length_map)
  have "md_open_mode (midi_devs (hw s') ! j) = (map md_open_mode (midi_devs (hw s)))[i := v] ! j" if "j < length (midi_devs (hw s))"
  proof -
    have "map md_open_mode (midi_devs (hw s')) ! j = (map md_open_mode (midi_devs (hw s)))[i := v] ! j"
      using assms(1) by (simp only: files_after_def)
    then show ?thesis using that l by simp
  qed
  then show "port_busy s' j \<longleftrightarrow> (if j = i then v \<noteq> 0 else port_busy s j)"
    using l assms(3) by (auto simp: port_busy_def)
  have "midi_clients (hw s') = (midi_clients (hw s))[c := Some cl]" using assms(1) by (simp add: files_after_def)
  then show "open_on s' k j \<longleftrightarrow> (if k = c then cl_open_mode cl \<noteq> 0 \<and> cl_mididev cl = Some j else open_on s k j)"
    using assms(2) by (auto simp: open_on_def)
qed

text \<open>The changes that keep ports exclusive: taking a free port, giving a port back, leaving a port alone.\<close>

lemma exclusive_take:
  assumes "exclusive s" and "files_after c cl i v s s'" and "c < length (midi_clients (hw s))" and "i < length (midi_devs (hw s))"
    and "\<not> port_busy s i" and "v = 0 \<longrightarrow> cl_open_mode cl = 0" and "cl_mididev cl = Some i"
  shows "exclusive s'"
  using assms(1,5-7) unfolding exclusive_def files_after_simps[OF assms(2-4)] by auto

lemma exclusive_drop:
  assumes "exclusive s" and "files_after c cl i v s s'" and "c < length (midi_clients (hw s))" and "i < length (midi_devs (hw s))"
    and "\<not> port_busy s i \<or> open_on s c i" and "cl_open_mode cl = 0 \<or> cl_mididev cl = None"
  shows "exclusive s'"
  using assms(1,5,6) unfolding exclusive_def files_after_simps[OF assms(2-4)] by auto

definition tables :: "'h midi_sys \<Rightarrow> midi_client option list \<times> u32 list" where
  "tables s = (midi_clients (hw s), map md_open_mode (midi_devs (hw s)))"

lemma same_files_tables: "same_files s s' \<longleftrightarrow> tables s' = tables s"
  by (auto simp: same_files_def tables_def)

lemma files_after_tables:
  "files_after c cl i v s s' \<longleftrightarrow> tables s' = ((fst (tables s))[c := Some cl], (snd (tables s))[i := v])"
  by (auto simp: files_after_def tables_def)

lemma tables_upd_dev: "(\<And>m. md_open_mode (f m) = md_open_mode m) \<Longrightarrow> tables (upd_dev d f s) = tables s"
  using same_files_upd_dev same_files_tables by blast

lemma tables_hw [simp]: "tables (on_hw g s) = tables s" "tables (opt_hw p i s) = tables s" "tables (snd (run_hw r s)) = tables s"
  using same_files_hw same_files_tables by blast+

lemma tables_run_hw: "run_hw f s = (x, s') \<Longrightarrow> tables s' = tables s"
  using tables_hw(3)[of f s] by simp

lemma tables_mode:
  "(\<And>m. md_open_mode (f m) = v) \<Longrightarrow> tables (upd_dev d f s) = (fst (tables s), (snd (tables s))[nat d := v])"
  by (simp add: tables_def upd_dev_def map_update)

lemma tables_upd_client:
  "tables (upd_client c f s) = ((fst (tables s))[nat c := map_option f (fst (tables s) ! nat c)], snd (tables s))"
  by (simp add: tables_def upd_client_def)

lemma put_output_tables: "put_output D d buf s = Some s' \<Longrightarrow> tables s' = tables s"
  by (auto simp: put_output_def bind_eq_Some_conv split: if_splits)

lemma put_channels_tables: "put_channels D d a b is s = Some s' \<Longrightarrow> tables s' = tables s"
  by (induction "is" arbitrary: s) (auto simp: bind_eq_Some_conv dest!: put_output_tables)

lemma alloc_tables:
  "alloc_in E d mode s = (r, s') \<Longrightarrow> tables s' = tables s" "alloc_out E d mode s = (r, s') \<Longrightarrow> tables s' = tables s"
  by (auto simp: alloc_in_def alloc_out_def Let_def tables_upd_dev split: if_splits)

lemma tables_set_defaults: "tables (oss_midi_set_defaults d s) = tables s"
  by (simp add: oss_midi_set_defaults_def tables_upd_dev)

text \<open>What an accepted open, a failed driver and a failed allocation leave.\<close>

lemma tables_undo_open:
  "tables (undo_open d s) = ((fst (tables s))[nat d := map_option (\<lambda>c. c\<lparr>cl_open_mode := 0, cl_mididev := None\<rparr>) (fst (tables s) ! nat d)],
     (snd (tables s))[nat d := 0])"
  by (simp add: undo_open_def tables_upd_client tables_mode)

lemma open_queues_tables:
  assumes "open_queues E d mode s = Some (r, s')"
  shows "tables s' = tables s \<or> (\<exists>s1. tables s1 = tables s \<and> s' = undo_open d s1)"
proof -
  obtain m where m: "get_dev d s = Some m" using assms by (auto simp: open_queues_def bind_eq_Some_conv)
  obtain r1 s1 where a: "alloc_in E d mode s = (r1, s1)" by fastforce
  obtain r2 s2 where b: "alloc_out E d mode s1 = (r2, s2)" by fastforce
  note t = alloc_tables(1)[OF a] alloc_tables(2)[OF b]
  show ?thesis
  proof (cases r1)
    case (Inl e)
    with assms m a t(1) show ?thesis by (auto simp: open_queues_def)
  next
    case 1: (Inr u)
    show ?thesis
    proof (cases r2)
      case (Inl e)
      with assms m a b t 1 show ?thesis by (auto simp: open_queues_def)
    next
      case (Inr u')
      with assms m a b t 1 show ?thesis
        by (auto simp: open_queues_def bind_eq_Some_conv dest!: put_channels_tables split: if_splits)
    qed
  qed
qed

lemma tables_length:
  "length (fst (tables s)) = length (midi_clients (hw s))" "length (snd (tables s)) = length (midi_devs (hw s))"
  by (simp_all add: tables_def)

lemma port_busy_tables: "port_busy s i \<longleftrightarrow> i < length (snd (tables s)) \<and> snd (tables s) ! i \<noteq> 0"
  by (auto simp: port_busy_def tables_def)

lemma exclusive_cong: "tables s' = tables (s :: 'h midi_sys) \<Longrightarrow> exclusive (s' :: 'h midi_sys) = exclusive s"
  by (rule same_files_cong(3)) (simp only: same_files_tables)

lemma exclusive_open:
  assumes ex: "exclusive s" and mode: "mode \<noteq> 0" and op: "oss_midi_open E d mode pid s = Some (r, s')"
  shows "exclusive s'"
proof (cases "tables s' = tables s")
  case True
  from exclusive_cong[OF this] ex show ?thesis by simp
next
  case ne: False
  obtain m c where m: "get_dev d s = Some m" "md_open_mode m = 0" and c: "get_client d s = Some c"
    using op ne by (auto simp: oss_midi_open_def Let_def split: option.splits if_splits)
  have d: "0 \<le> d" "nat d < length (midi_devs (hw s))" "nat d < length (midi_clients (hw s))"
    "midi_devs (hw s) ! nat d = m" "midi_clients (hw s) ! nat d = Some c"
    using get_dev_bounds[OF m(1)] c by (auto simp: get_client_def split: if_splits)
  have nb: "\<not> port_busy s (nat d)" using m(2) d by (simp add: port_busy_def)
  define s1 where "s1 = upd_dev d (\<lambda>m. m\<lparr>md_open_mode := mode, md_pid := pid\<rparr>)
    (upd_client d (\<lambda>c. c\<lparr>cl_mididev := Some (nat d), cl_open_mode := mode\<rparr>) s)"
  obtain err s2 where r: "run_hw (d_open (md_d m) d mode) s1 = (err, s2)" by fastforce
  have t2: "tables s2 = ((fst (tables s))[nat d := Some (c\<lparr>cl_mididev := Some (nat d), cl_open_mode := mode\<rparr>)],
      (snd (tables s))[nat d := mode])"
    using tables_run_hw[OF r] d by (simp add: s1_def tables_mode tables_upd_client) (simp add: tables_def)
  have step: "(r, s') = (err, upd_client d (\<lambda>c. c\<lparr>cl_open_mode := 0\<rparr>) (upd_dev d (\<lambda>m. m\<lparr>md_open_mode := 0\<rparr>) s2)) \<or>
    open_queues E d mode (upd_client d (\<lambda>c. c\<lparr>cl_num := d\<rparr>)
      (upd_dev d (\<lambda>m. m\<lparr>is_timing_master := False\<rparr>) (oss_midi_set_defaults d s2))) = Some (r, s')"
    using op ne m c r by (auto simp: oss_midi_open_def Let_def s1_def split: if_splits)
  then show ?thesis
  proof
    assume "(r, s') = (err, upd_client d (\<lambda>c. c\<lparr>cl_open_mode := 0\<rparr>) (upd_dev d (\<lambda>m. m\<lparr>md_open_mode := 0\<rparr>) s2))"
    then have "files_after (nat d) (c\<lparr>cl_mididev := Some (nat d), cl_open_mode := 0\<rparr>) (nat d) 0 s s'"
      using t2 d by (simp add: files_after_tables tables_mode tables_upd_client tables_length)
    then show ?thesis by (rule exclusive_drop[OF ex]) (use d nb in simp_all)
  next
    define s3 where "s3 = upd_client d (\<lambda>c. c\<lparr>cl_num := d\<rparr>)
      (upd_dev d (\<lambda>m. m\<lparr>is_timing_master := False\<rparr>) (oss_midi_set_defaults d s2))"
    assume "open_queues E d mode (upd_client d (\<lambda>c. c\<lparr>cl_num := d\<rparr>)
      (upd_dev d (\<lambda>m. m\<lparr>is_timing_master := False\<rparr>) (oss_midi_set_defaults d s2))) = Some (r, s')"
    then have q: "tables s' = tables s3 \<or> (\<exists>s1. tables s1 = tables s3 \<and> s' = undo_open d s1)"
      unfolding s3_def by (rule open_queues_tables)
    have t3: "tables s3 = ((fst (tables s))[nat d := Some (c\<lparr>cl_mididev := Some (nat d), cl_open_mode := mode, cl_num := d\<rparr>)],
        (snd (tables s))[nat d := mode])"
      using t2 d by (simp add: s3_def tables_upd_client tables_upd_dev tables_set_defaults tables_length)
    from q show ?thesis
    proof
      assume "tables s' = tables s3"
      then have "files_after (nat d) (c\<lparr>cl_mididev := Some (nat d), cl_open_mode := mode, cl_num := d\<rparr>) (nat d) mode s s'"
        using t3 by (simp add: files_after_tables)
      then show ?thesis by (rule exclusive_take[OF ex]) (use d nb mode in simp_all)
    next
      assume "\<exists>s1. tables s1 = tables s3 \<and> s' = undo_open d s1"
      then have "files_after (nat d) (c\<lparr>cl_mididev := None, cl_open_mode := 0, cl_num := d\<rparr>) (nat d) 0 s s'"
        using t3 d by (cases c) (auto simp: files_after_tables tables_undo_open tables_length)
      then show ?thesis by (rule exclusive_drop[OF ex]) (use d nb in simp_all)
    qed
  qed
qed

lemma exclusive_unbind:
  assumes ex: "exclusive (s :: 'h midi_sys)" and t: "tables (s' :: 'h midi_sys) = ((fst (tables s))[c := x], snd (tables s))"
    and x: "\<And>cl. x = Some cl \<Longrightarrow> cl_open_mode cl = 0 \<or> cl_mididev cl = None"
  shows "exclusive s'"
proof -
  have cl: "midi_clients (hw s') = (midi_clients (hw s))[c := x]" and m: "map md_open_mode (midi_devs (hw s')) = map md_open_mode (midi_devs (hw s))"
    using t by (auto simp: tables_def)
  have "open_on s k i" if "open_on s' k i" for k i
    using that x by (cases "k = c") (auto simp: open_on_def cl)
  moreover have "port_busy s' i = port_busy s i" for i using t by (simp add: port_busy_tables)
  ultimately show ?thesis using ex unfolding exclusive_def by metis
qed

lemma release_unbound:
  assumes "get_client c s = Some cl" and "cl_mididev cl = None"
  shows "oss_midi_release k E c mode s = Some s"
  using assms by (simp add: oss_midi_release_def)

lemma tables_set_client: "tables (set_client c x s) = ((fst (tables s))[nat c := x], snd (tables s))"
  by (simp add: tables_def set_client_def)

lemma exclusive_vopen:
  assumes ex: "exclusive (s :: 'h midi_sys)" and op: "oss_vmidi_open install minor k E mode s = Some (r, s')"
  shows "exclusive s'"
proof -
  obtain r1 s1 where a: "(case free_client s of Some i \<Rightarrow> (Inr (int i), s) | None \<Rightarrow> new_client install E s) = (r1, s1)" by fastforce
  have t1: "tables s1 = tables s \<or> (\<exists>n. tables s1 = ((fst (tables s))[n := Some \<lparr>cl_num = 0, cl_open_mode = 0, cl_mididev = None\<rparr>], snd (tables s)))"
    using a by (auto simp: new_client_def Let_def tables_set_client tables_def on_hw_def set_client_def split: option.splits if_splits)
  have ex1: "exclusive s1"
    using t1
  proof
    assume "tables s1 = tables s"
    from exclusive_cong[OF this] ex show ?thesis by simp
  next
    assume "\<exists>n. tables s1 = ((fst (tables s))[n := Some \<lparr>cl_num = 0, cl_open_mode = 0, cl_mididev = None\<rparr>], snd (tables s))"
    then show ?thesis by (auto intro: exclusive_unbind[OF ex])
  qed
  show ?thesis
  proof (cases r1)
    case (Inl e)
    with op a ex1 show ?thesis by (auto simp: oss_vmidi_open_def)
  next
    case (Inr c)
    define s2 where "s2 = upd_client c (\<lambda>cl. cl\<lparr>cl_num := c, cl_open_mode := mode, cl_mididev := None\<rparr>) s1"
    have ex2: "exclusive s2"
      by (rule exclusive_unbind[OF ex1, of _ "nat c" "map_option (\<lambda>cl. cl\<lparr>cl_num := c, cl_open_mode := mode, cl_mididev := None\<rparr>) (fst (tables s1) ! nat c)"])
        (auto simp: s2_def tables_upd_client)
    have "s' = s2 \<or> oss_midi_release k E c mode s2 = Some s'"
      using op a Inr by (auto simp: oss_vmidi_open_def s2_def Let_def split: if_splits)
    moreover have "s' = s2" if rel: "oss_midi_release k E c mode s2 = Some s'"
    proof -
      obtain cl where cl: "get_client c s2 = Some cl" using rel by (auto simp: oss_midi_release_def bind_eq_Some_conv)
      then have "cl_mididev cl = None" by (auto simp: s2_def)
      with release_unbound[OF cl, of k E mode] rel show ?thesis by simp
    qed
    ultimately show ?thesis using ex2 by auto
  qed
qed

lemma bind_port_tables:
  assumes "\<And>h. e_malloc_ok E h" and "bind_port E c d mode D s = (r, s')"
  shows "tables s' = ((fst (tables s))[nat c := map_option (\<lambda>cl. cl\<lparr>cl_mididev := Some (nat d)\<rparr>) (fst (tables s) ! nat c)],
    (snd (tables s))[nat d := mode])"
proof -
  define s1 where "s1 = upd_client c (\<lambda>c. c\<lparr>cl_mididev := Some (nat d)\<rparr>) (upd_dev d (\<lambda>m. m\<lparr>md_open_mode := mode\<rparr>) s)"
  obtain r1 s2 where a: "alloc_in E d mode s1 = (r1, s2)" by fastforce
  obtain r2 s3 where b: "alloc_out E d mode s2 = (r2, s3)" by fastforce
  have ok: "r1 = Inr ()" "r2 = Inr ()"
    using a b assms(1) by (auto simp: alloc_in_def alloc_out_def midi_queue_alloc_def Let_def split: if_splits)
  have "s' = oss_midi_set_defaults d s3"
    using assms(2) a b by (simp add: bind_port_def Let_def s1_def[symmetric] ok)
  then show ?thesis
    using alloc_tables(1)[OF a] alloc_tables(2)[OF b] by (simp add: tables_set_defaults s1_def tables_upd_client tables_mode)
qed

lemma autobind_tables:
  assumes "\<And>h. e_malloc_ok E h" and "autobind_loop E c cm mode ds s = (r, s')"
    and "\<forall>d\<in>set ds. 0 \<le> d \<and> nat d < length (midi_devs (hw s))"
  shows "tables s' = tables s \<or> (\<exists>i<length (midi_devs (hw s)). \<not> port_busy s i \<and>
    tables s' = ((fst (tables s))[nat c := map_option (\<lambda>cl. cl\<lparr>cl_mididev := Some i\<rparr>) (fst (tables s) ! nat c)],
      (snd (tables s))[i := mode]))"
  using assms(2,3)
proof (induction ds arbitrary: s)
  case Nil
  then show ?case by simp
next
  case (Cons d ds)
  define m where "m = midi_devs (hw s) ! nat d"
  obtain err s1 where rr: "run_hw (d_open (md_d m) d cm) s = (err, s1)" by fastforce
  note t1 = tables_run_hw[OF rr]
  have l1: "length (midi_devs (hw s1)) = length (midi_devs (hw s))" using tables_length(2)[of s1] tables_length(2)[of s] t1 by simp
  have b1: "port_busy s1 i = port_busy s i" for i by (simp add: port_busy_tables t1)
  have rest: "\<forall>d\<in>set ds. 0 \<le> d \<and> nat d < length (midi_devs (hw s))" using Cons.prems(2) by simp
  consider "autobind_loop E c cm mode ds s = (r, s')" | "autobind_loop E c cm mode ds s1 = (r, s')"
    | "md_open_mode m = 0" "bind_port E c d mode (md_d m) s1 = (r, s')"
    using Cons.prems(1) rr by (auto simp: Let_def m_def split: if_splits)
  then show ?case
  proof cases
    case 1
    then show ?thesis using Cons.IH rest by blast
  next
    case 2
    have "\<forall>d\<in>set ds. 0 \<le> d \<and> nat d < length (midi_devs (hw s1))" using rest l1 by simp
    from Cons.IH[OF 2 this] show ?thesis by (simp only: t1 l1 b1)
  next
    case 3
    have "nat d < length (midi_devs (hw s))" "\<not> port_busy s (nat d)" using 3(1) Cons.prems(2) by (auto simp: port_busy_def m_def)
    with bind_port_tables[OF assms(1) 3(2)] show ?thesis by (auto simp: t1)
  qed
qed

lemma exclusive_bound:
  assumes ex: "exclusive (s :: 'h midi_sys)" and ok: "\<And>h. e_malloc_ok E h" and op: "bound_port E c s = Some (r, s')"
  shows "exclusive s'"
proof (cases "tables s' = tables s")
  case True
  from exclusive_cong[OF this] ex show ?thesis by simp
next
  case ne: False
  obtain cl where cl: "get_client c s = Some cl" using op by (auto simp: bound_port_def bind_eq_Some_conv)
  then have c: "nat c < length (midi_clients (hw s))" "midi_clients (hw s) ! nat c = Some cl"
    by (auto simp: get_client_def split: if_splits)
  have n: "cl_mididev cl = None" using op ne cl by (cases "cl_mididev cl") (auto simp: bound_port_def failed_def)
  obtain r1 s1 where a: "autobind_loop E c (cl_open_mode cl) (cl_open_mode cl) (map int [0..<length (midi_devs (hw s))]) s = (r1, s1)"
    by fastforce
  have "s' = s1" using op cl n a by (auto simp: bound_port_def midi_mapper_autobind_def bind_eq_Some_conv split: if_splits)
  then obtain i where i: "i < length (midi_devs (hw s))" "\<not> port_busy s i"
      "tables s' = ((fst (tables s))[nat c := map_option (\<lambda>cl. cl\<lparr>cl_mididev := Some i\<rparr>) (fst (tables s) ! nat c)],
        (snd (tables s))[i := cl_open_mode cl])"
    using autobind_tables[OF ok a] ne by auto
  have "fst (tables s) ! nat c = Some cl" using c by (simp add: tables_def)
  then have "files_after (nat c) (cl\<lparr>cl_mididev := Some i\<rparr>) i (cl_open_mode cl) s s'"
    using i(3) by (simp add: files_after_tables)
  then show ?thesis by (rule exclusive_take[OF ex]) (use i c in simp_all)
qed

section \<open>Closing a port without a timer\<close>

definition no_timer :: "int \<Rightarrow> 'h midi_sys \<Rightarrow> bool" where
  "no_timer d s \<longleftrightarrow> (\<exists>m. get_dev d s = Some m \<and> md_timer_dev m < 0)"

lemma no_timer_upd: "(\<And>m. md_timer_dev (f m) = md_timer_dev m) \<Longrightarrow> no_timer d s \<Longrightarrow> no_timer d (upd_dev d f s)"
  by (auto simp: no_timer_def)

lemma no_timer_hw [simp]:
  "no_timer d (on_hw g s) = no_timer d s" "no_timer d (opt_hw p i s) = no_timer d s"
  "no_timer d (snd (run_hw r s)) = no_timer d s" "no_timer d (upd_client c f s) = no_timer d s"
  by (simp_all add: no_timer_def)

lemma put_output_no_timer: "put_output D d buf s = Some s' \<Longrightarrow> no_timer i s' = no_timer i s"
  by (auto simp: put_output_def bind_eq_Some_conv split: if_splits)

lemma put_channels_no_timer: "put_channels D d a b is s = Some s' \<Longrightarrow> no_timer i s' = no_timer i s"
  by (induction "is" arbitrary: s) (auto simp: bind_eq_Some_conv dest!: put_output_no_timer)

lemma sync_no_timer:
  assumes "no_timer d s" and "sync_output k E d s = Some s'"
  shows "tables s' = tables s" and "no_timer d s'"
proof -
  have "remove_all_output d s = Some s'" using assms by (auto simp: sync_output_def no_timer_def split: if_splits)
  then obtain q where "s' = upd_dev d (\<lambda>m. m\<lparr>out_queue := Some q\<rparr>) s"
    by (auto simp: remove_all_output_def bind_eq_Some_conv)
  then show "tables s' = tables s" "no_timer d s'" using assms(1) by (auto simp: tables_upd_dev intro: no_timer_upd)
qed

lemma hush_tables: "hush D d s = Some s' \<Longrightarrow> tables s' = tables s"
  by (auto simp: hush_def bind_eq_Some_conv dest!: put_output_tables put_channels_tables)

lemma hush_no_timer: "hush D d s = Some s' \<Longrightarrow> no_timer i s' = no_timer i s"
  by (auto simp: hush_def bind_eq_Some_conv dest: put_output_no_timer[of _ _ _ _ _ i] put_channels_no_timer[of _ _ _ _ _ _ _ i])

lemma release_output_frame:
  assumes "no_timer d s" and "release_output k E d s = Some s'"
  shows "tables s' = tables s" and "no_timer d s'"
proof -
  obtain s1 where a: "sync_output k E d s = Some s1" using assms(2) by (auto simp: release_output_def bind_eq_Some_conv)
  note 1 = sync_no_timer[OF assms(1) a]
  obtain m where m: "get_dev d s1 = Some m" "md_timer_dev m < 0" using 1(2) by (auto simp: no_timer_def)
  define s2 where "s2 = upd_dev d (\<lambda>m. m\<lparr>md_is_killed := False\<rparr>) s1"
  have st: "(if is_timing_master m then oss_timer_stop s1 (md_timer_dev m) else s1) = s1"
    using m(2) by (simp add: oss_timer_stop_def get_timer_def)
  have 2: "tables s2 = tables s" "no_timer d s2" using 1 by (auto simp: s2_def tables_upd_dev intro: no_timer_upd)
  have "Option.bind (if md_flags m AND MFLAG_QUIET = 0 then hush (md_d m) d s2 else Some s2) (sync_output k E d) = Some s'"
    using assms(2) a m(1) by (simp add: release_output_def Let_def st s2_def cong: if_cong)
  then obtain s3 where b: "(if md_flags m AND MFLAG_QUIET = 0 then hush (md_d m) d s2 else Some s2) = Some s3"
      "sync_output k E d s3 = Some s'"
    by (auto simp: bind_eq_Some_conv)
  then have 3: "tables s3 = tables s" "no_timer d s3"
    using 2 by (auto split: if_splits dest: hush_tables hush_no_timer[of _ _ _ _ d])
  show "tables s' = tables s" "no_timer d s'" using sync_no_timer[OF 3(2) b(2)] 3(1) by simp_all
qed

lemma release_close_tables:
  "\<exists>v. tables (release_close D d mode s) = (fst (tables s), (snd (tables s))[nat d := v])"
  by (auto simp: release_close_def Let_def tables_def upd_dev_def map_update on_hw_def run_hw_def split: prod.splits)

lemma release_detach_tables:
  assumes "no_timer d s" and "release_detach E c d s = Some s'"
  shows "tables s' = ((fst (tables s))[nat c := map_option (\<lambda>cl. cl\<lparr>cl_mididev := None\<rparr>) (fst (tables s) ! nat c)], snd (tables s))"
  using assms by (auto simp: release_detach_def no_timer_def Let_def tables_upd_client tables_upd_dev)

lemma exclusive_close:
  assumes ex: "exclusive (s :: 'h midi_sys)" and c: "0 \<le> c" "open_on s (nat c) i" and t: "md_timer_dev (midi_devs (hw s) ! i) < 0"
    and op: "oss_midi_release k E c mode s = Some s'"
  shows "exclusive s'"
proof -
  obtain cl where cl: "nat c < length (midi_clients (hw s))" "midi_clients (hw s) ! nat c = Some cl" "cl_mididev cl = Some i"
    using c(2) by (auto simp: open_on_def)
  have i: "i < length (midi_devs (hw s))" using ex c(2) by (auto simp: exclusive_def port_busy_def)
  define m where "m = midi_devs (hw s) ! i"
  have gc: "get_client c s = Some cl" using cl c(1) by (simp add: get_client_def)
  have gd: "get_dev (int i) s = Some m" using i by (simp add: get_dev_def m_def)
  define s1 where "s1 = upd_client c (\<lambda>c. c\<lparr>cl_open_mode := 0\<rparr>) (on_hw (e_untimeout E (mtc_timeout_id m)) s)"
  have nt: "no_timer (int i) s1" using gd t by (simp add: s1_def no_timer_def m_def)
  obtain s2 where s2: "(if md_open_mode m AND OPEN_WRITE \<noteq> 0 then release_output k E (int i) s1 else Some s1) = Some s2"
    unfolding s1_def using op gc gd by (auto simp: oss_midi_release_def bind_eq_Some_conv cl(3) Let_def)
  have 2: "tables s2 = tables s1" "no_timer (int i) s2"
    using s2 nt by (auto split: if_splits dest: release_output_frame)
  define s3 where "s3 = release_close (md_d m) (int i) mode s2"
  have nt3: "no_timer (int i) s3" using 2(2) by (simp add: s3_def release_close_def no_timer_upd)
  have "release_detach E c (int i) s3 = Some s'"
    using op gc gd s2 unfolding oss_midi_release_def by (simp add: cl(3) Let_def s1_def[symmetric] s3_def[symmetric] cong: if_cong)
  note fin = release_detach_tables[OF nt3 this]
  obtain v where t3: "tables s3 = (fst (tables s2), (snd (tables s2))[i := v])"
    using release_close_tables[of "md_d m" "int i" mode s2] by (auto simp: s3_def)
  have "tables s1 = ((fst (tables s))[nat c := Some (cl\<lparr>cl_open_mode := 0\<rparr>)], snd (tables s))"
    using cl(2) by (simp add: s1_def tables_upd_client) (simp add: tables_def)
  then have "files_after (nat c) (cl\<lparr>cl_open_mode := 0, cl_mididev := None\<rparr>) i v s s'"
    using fin t3 2(1) cl(1) by (simp add: files_after_tables tables_length)
  then show ?thesis by (rule exclusive_drop[OF ex]) (use i cl c in simp_all)
qed


text \<open>A system with one port and three clients.\<close>

definition three_clients :: "int mididev \<Rightarrow> midi_client \<Rightarrow> midi_client \<Rightarrow> int \<Rightarrow> int midi_sys" where
  "three_clients m c1 c2 h = \<lparr>timer_devs = [], timer_drivers = [], num_mididevs = 1, hz = 100,
     hw = \<lparr>midi_devs = [m], midi_clients = [Some \<lparr>cl_num = 0, cl_open_mode = 0, cl_mididev = None\<rparr>, Some c1, Some c2],
       num_midi_clients = 3, midi_hw = h\<rparr>\<rparr>"

definition idle_port :: "int mididev" where
  "idle_port = install_fields 0 [] (MFLAG_INPUT OR MFLAG_OUTPUT) 0 (fresh_mididev silent_driver)"

abbreviation client :: "int \<Rightarrow> u32 \<Rightarrow> nat option \<Rightarrow> midi_client" where
  "client n mode d \<equiv> \<lparr>cl_num = n, cl_open_mode = mode, cl_mididev = d\<rparr>"

lemma three_vopen:
  "oss_vmidi_open (\<lambda>_ h. h) (\<lambda>_ _. Inr 0) 0 E mode (three_clients m (client 0 0 None) c2 h)
    = Some (Inr 1, three_clients m (client 1 mode None) c2 h)"
  "v \<noteq> 0 \<Longrightarrow> oss_vmidi_open (\<lambda>_ h. h) (\<lambda>_ _. Inr 0) 0 E mode (three_clients m (client 1 v d) (client 0 0 None) h)
    = Some (Inr 2, three_clients m (client 1 v d) (client 2 mode None) h)"
  by (simp_all add: oss_vmidi_open_def free_client_def three_clients_def upd_client_def failed_def Let_def upt_rec)

lemma three_start: "file_reach E (three_clients m (client 0 0 None) (client 0 0 None) h)"
  by (rule file_reach.start) (auto simp: three_clients_def nth_Cons split: nat.splits)

lemma three_bind:
  assumes "md_d m = silent_driver" and "md_flags m = MFLAG_INPUT OR MFLAG_OUTPUT" and "md_open_mode m = 0"
  shows "e_malloc_ok E h \<Longrightarrow> bound_port E 1 (three_clients m (client 1 OPEN_READ None) c2 h) = Some (Inr 0,
      three_clients (m\<lparr>md_open_mode := OPEN_READ, in_queue := midi_queue_alloc True, md_prech_timeout := 0, md_tempo := 120,
        md_timebase := 100\<rparr>) (client 1 OPEN_READ (Some 0)) c2 h)"
    and "\<not> e_malloc_ok E h \<Longrightarrow> bound_port E 1 (three_clients m (client 1 OPEN_READ None) c2 h) = Some (Inl OSS_ENOMEM,
      three_clients (m\<lparr>md_open_mode := 0, in_queue := None\<rparr>) (client 1 OPEN_READ (Some 0)) c2 h)"
    and "e_malloc_ok E h \<Longrightarrow> bound_port E 2 (three_clients m c1 (client 2 OPEN_READ None) h) = Some (Inr 0,
      three_clients (m\<lparr>md_open_mode := OPEN_READ, in_queue := midi_queue_alloc True, md_prech_timeout := 0, md_tempo := 120,
        md_timebase := 100\<rparr>) c1 (client 2 OPEN_READ (Some 0)) h)"
proof -
  have f: "OPEN_READ AND OPEN_WRITE = 0" "OPEN_READ AND OPEN_READ \<noteq> 0" "(MFLAG_INPUT OR MFLAG_OUTPUT) AND MFLAG_INPUT \<noteq> 0"
    by (simp_all add: OPEN_READ_def OPEN_WRITE_def MFLAG_INPUT_def MFLAG_OUTPUT_def)
  note defs = bound_port_def midi_mapper_autobind_def get_client_def three_clients_def bind_port_def alloc_in_def alloc_out_def
    run_hw_def upd_dev_def upd_client_def oss_midi_set_defaults_def on_hw_def failed_def Let_def silent_driver_def
  show "e_malloc_ok E h \<Longrightarrow> bound_port E 1 (three_clients m (client 1 OPEN_READ None) c2 h) = Some (Inr 0,
      three_clients (m\<lparr>md_open_mode := OPEN_READ, in_queue := midi_queue_alloc True, md_prech_timeout := 0, md_tempo := 120,
        md_timebase := 100\<rparr>) (client 1 OPEN_READ (Some 0)) c2 h)"
    "\<not> e_malloc_ok E h \<Longrightarrow> bound_port E 1 (three_clients m (client 1 OPEN_READ None) c2 h) = Some (Inl OSS_ENOMEM,
      three_clients (m\<lparr>md_open_mode := 0, in_queue := None\<rparr>) (client 1 OPEN_READ (Some 0)) c2 h)"
    "e_malloc_ok E h \<Longrightarrow> bound_port E 2 (three_clients m c1 (client 2 OPEN_READ None) h) = Some (Inr 0,
      three_clients (m\<lparr>md_open_mode := OPEN_READ, in_queue := midi_queue_alloc True, md_prech_timeout := 0, md_tempo := 120,
        md_timebase := 100\<rparr>) c1 (client 2 OPEN_READ (Some 0)) h)"
    using assms f by (simp_all add: defs midi_queue_alloc_def)
qed

text \<open>When memory runs out, ports are not exclusive: a client whose binding fails for lack of
  memory stays bound to the port it tried while the port is marked as free, so that a second client is bound to it too.\<close>

theorem shared_port_after_enomem:
  "\<exists>(E :: int midi_env) s c c' i. file_reach E s \<and> c \<noteq> c' \<and> open_on s c i \<and> open_on s c' i"
proof -
  define E :: "int midi_env" where "E = clock_env\<lparr>e_malloc_ok := (\<lambda>h. 0 < h)\<rparr>"
  have rd: "OPEN_READ \<noteq> 0" by (simp add: OPEN_READ_def)
  have i: "md_d idle_port = silent_driver" "md_flags idle_port = MFLAG_INPUT OR MFLAG_OUTPUT" "md_open_mode idle_port = 0"
    by (simp_all add: idle_port_def install_fields_def fresh_mididev_def)
  define m where "m = idle_port\<lparr>md_open_mode := 0, in_queue := None\<rparr>"
  have m: "md_d m = silent_driver" "md_flags m = MFLAG_INPUT OR MFLAG_OUTPUT" "md_open_mode m = 0" by (simp_all add: m_def i)
  have "file_reach E (three_clients idle_port (client 1 OPEN_READ None) (client 0 0 None) 0)"
    by (rule file_reach.vopened[OF three_start rd three_vopen(1)])
  then have "file_reach E (three_clients idle_port (client 1 OPEN_READ None) (client 2 OPEN_READ None) 0)"
    by (rule file_reach.vopened) (rule rd, rule three_vopen(2)[OF rd])
  moreover have "bound_port E 1 (three_clients idle_port (client 1 OPEN_READ None) (client 2 OPEN_READ None) 0)
      = Some (Inl OSS_ENOMEM, three_clients m (client 1 OPEN_READ (Some 0)) (client 2 OPEN_READ None) 0)"
    using three_bind(2)[OF i, of E 0 "client 2 OPEN_READ None"] by (simp add: E_def m_def)
  ultimately have "file_reach E (three_clients m (client 1 OPEN_READ (Some 0)) (client 2 OPEN_READ None) 0)"
    by (rule file_reach.bound)
  then have "file_reach E (three_clients m (client 1 OPEN_READ (Some 0)) (client 2 OPEN_READ None) 1)"
    by (rule file_reach.other) (simp_all add: three_clients_def)
  then have "\<exists>m'. file_reach E (three_clients m' (client 1 OPEN_READ (Some 0)) (client 2 OPEN_READ (Some 0)) 1)"
    using file_reach.bound[OF _ three_bind(3)[OF m, of E 1]] by (fastforce simp: E_def)
  then obtain s m' where s: "file_reach E s" "s = three_clients m' (client 1 OPEN_READ (Some 0)) (client 2 OPEN_READ (Some 0)) 1" by blast
  have "open_on s 1 0" "open_on s 2 0" using rd by (simp_all add: s(2) open_on_def three_clients_def)
  with s(1) show ?thesis by (intro exI[of _ E] exI[of _ s] exI[of _ 1] exI[of _ 2] exI[of _ 0]) simp
qed


end
