(* ===== verification/Midi_Output_Laws.thy ===== *)
theory Midi_Output_Laws
  imports Midi_Core_Laws
begin

text \<open>
  The output of a port in the traditional mode: what an application writes, what is queued and
  what the driver has sent. \<open>sent\<close> is the transcript of the driver's wire, a function of the state of the hardware.
\<close>

section \<open>The queue\<close>

lemma mark_busy_spec:
  assumes inv: "queue_inv q" and ms: "msgs q = (buf, hdr) # ms"
  shows "queue_inv (mark_busy q) \<and> msgs (mark_busy q) = (buf, hdr\<lparr>hdr_options := hdr_options hdr OR MIDI_OPT_BUSY\<rparr>) # ms"
proof -
  have ne: "q_head q \<noteq> q_tail q" using msgs_Nil_iff[OF inv] ms by auto
  define b where "b = buffers q ! nat (q_tail q)"
  define b' where "b' = b\<lparr>b_hdr := (b_hdr b)\<lparr>hdr_options := hdr_options (b_hdr b) OR MIDI_OPT_BUSY\<rparr>\<rparr>"
  define q2 where "q2 = q\<lparr>buffers := (buffers q)[nat (q_tail q) := b']\<rparr>"
  have run: "mark_busy q = q2" by (simp add: mark_busy_def q2_def b'_def b_def Let_def)
  have l: "live q = b # tl (live q)" using live_hd[OF inv ne] by (simp add: b_def)
  have l2: "live q2 = b' # tl (live q)"
    using live_update_first[OF queue_inv_ptrs[OF inv] ne, of q2 b'] by (simp add: q2_def)
  have "buf_ok b" using inv l queue_inv_buf_ok by (metis list.set_intros(1))
  then have bok: "buf_ok b'" by (simp add: buf_ok_def b'_def)
  have "chain (buf_tail q) (b # tl (live q)) (buf_head q)" using inv l by (simp add: queue_inv_def)
  then have ch: "chain (buf_tail q) (b' # tl (live q)) (buf_head q)" using bok by (simp add: b'_def)
  have tot: "total_size (b' # tl (live q)) = total_size (live q)" by (subst l) (simp add: b'_def)
  have "queue_inv q2" using inv ch l2 tot by (simp add: queue_inv_def q2_def)
  moreover have "msgs q = record_view q b # map (record_view q) (tl (live q))" unfolding msgs_def by (subst l) simp
  moreover have "record_view q2 = record_view q" by (simp add: fun_eq_iff record_view_def q2_def)
  moreover have "record_view q b' = (fst (record_view q b), (b_hdr b)\<lparr>hdr_options := hdr_options (b_hdr b) OR MIDI_OPT_BUSY\<rparr>)"
    "snd (record_view q b) = b_hdr b"
    by (simp_all add: record_view_def b'_def)
  ultimately show ?thesis using ms by (auto simp: run msgs_def l2)
qed

lemma alloc_empty:
  assumes inv: "queue_inv q" and "msgs q = []" and "0 < len" and "len \<le> MIDI_PAYLOAD_SIZE"
  shows "\<exists>a q'. midi_queue_alloc_record q len hdr = (Inr len, a, q')"
proof -
  have e: "live q = []" "q_head q = q_tail q" "buf_tail q = buf_head q" "avail q = QUEUE_BYTES"
    using assms live_empty_iff[OF queue_inv_ptrs[OF inv]] by (auto simp: msgs_def queue_inv_def)
  have pl: "alloc_place q len = Inr (QUEUE_BYTES, q\<lparr>buf_tail := 0, buf_head := 0, avail := QUEUE_BYTES\<rparr>)"
    using e assms(3,4) mod_add_one_ring[of "q_tail q" 31] inv
    by (auto simp: alloc_place_def queue_consts queue_inv_def Let_def)
  then show ?thesis using assms(3,4) by (auto simp: midi_queue_alloc_record_def queue_consts Let_def)
qed

section \<open>Drivers\<close>

text \<open>A driver that never refuses a byte and sends the bytes in the order it gets them; the other
  things the core asks of the hardware meanwhile do not send.\<close>

definition driver_sends :: "('h \<Rightarrow> bytes) \<Rightarrow> 'h midi_env \<Rightarrow> int \<Rightarrow> 'h midi_driver \<Rightarrow> bool" where
  "driver_sends sent E d D \<longleftrightarrow>
     (\<exists>f. d_outputc D = Some f \<and> (\<forall>b h. fst (f d b h) \<and> sent (snd (f d b h)) = sent h @ [b])) \<and>
     (\<forall>w. d_bulk_write D = Some w \<longrightarrow> (\<forall>buf h. fst (w d buf h) = int (length buf) \<and> sent (snd (w d buf h)) = sent h @ buf)) \<and>
     (\<forall>g. d_flush_output D = Some g \<longrightarrow> (\<forall>h. sent (g d h) = sent h)) \<and>
     (\<forall>h. sent (e_wakeup E d True h) = sent h)"

lemma send_chars_all:
  assumes "\<And>b h. fst (f b h) \<and> sent (snd (f b h)) = sent h @ [b]"
  shows "\<exists>h'. send_chars f buf h = (length buf, h') \<and> sent h' = sent h @ buf"
proof (induction buf arbitrary: h)
  case (Cons b buf)
  obtain h1 where "f b h = (True, h1)" "sent h1 = sent h @ [b]" using assms[of b h] by (metis prod.collapse)
  with Cons[of h1] show ?case by auto
qed simp

text \<open>The transcript of a system.\<close>

definition wire :: "('h \<Rightarrow> bytes) \<Rightarrow> 'h midi_sys \<Rightarrow> bytes" where
  "wire sent s = sent (midi_hw (hw s))"

lemma wire_simps [simp]: "wire sent (upd_dev d f s) = wire sent s" "wire sent (upd_client c g s) = wire sent s"
  "wire sent (on_hw h s) = sent (h (midi_hw (hw s)))"
  by (simp_all add: wire_def upd_dev_def upd_client_def on_hw_def)

lemma wire_run_hw: "run_hw f s = (x, s') \<Longrightarrow> f (midi_hw (hw s)) = (x, midi_hw (hw s'))"
  by (auto simp: run_hw_def split: prod.splits)

lemma send_record_all:
  assumes "driver_sends sent E d D"
  shows "\<exists>s'. send_record D d buf s = Some (int (length buf), s') \<and> wire sent s' = wire sent s @ buf \<and>
    (\<forall>i. get_dev i s' = get_dev i s) \<and> (\<forall>i. get_client i s' = get_client i s)"
proof -
  obtain f where f: "d_outputc D = Some f" "\<And>b h. fst (f d b h) \<and> sent (snd (f d b h)) = sent h @ [b]"
    using assms by (auto simp: driver_sends_def)
  show ?thesis
  proof (cases "1 < length buf \<and> d_bulk_write D \<noteq> None")
    case True
    then obtain w where w: "d_bulk_write D = Some w" by auto
    obtain n s1 where r: "run_hw (w d buf) s = (n, s1)" by fastforce
    have n: "n = int (length buf)" "wire sent s1 = wire sent s @ buf"
      using assms w wire_run_hw[OF r] by (auto simp: driver_sends_def wire_def split: prod.splits) (metis fst_conv, metis snd_conv)
    show ?thesis using f(1) w True r n run_hw_frame[OF r] by (simp add: send_record_def)
  next
    case False
    obtain n s1 where r: "run_hw (send_chars (f d) buf) s = (n, s1)" by fastforce
    have "n = length buf \<and> wire sent s1 = wire sent s @ buf"
      using send_chars_all[of "f d" sent buf "midi_hw (hw s)"] f(2) wire_run_hw[OF r] by (auto simp: wire_def)
    then show ?thesis using f(1) False r run_hw_frame[OF r] by (simp add: send_record_def)
  qed
qed

section \<open>The output handler\<close>

text \<open>A port in the traditional mode that is open for writing, with an empty queue or one record that
  is not a command to the timer.\<close>

definition writer_ready :: "('h \<Rightarrow> bytes) \<Rightarrow> 'h midi_env \<Rightarrow> int \<Rightarrow> int \<Rightarrow> (bytes \<times> packet_header) list \<Rightarrow> 'h midi_sys \<Rightarrow> bool" where
  "writer_ready sent E c d ms s \<longleftrightarrow>
     (\<exists>m q. get_dev d s = Some m \<and> md_working_mode m = MIDI_MODE_TRADITIONAL \<and> md_timer_dev m < 0 \<and>
        md_open_mode m AND OPEN_WRITE \<noteq> 0 \<and> driver_sends sent E d (md_d m) \<and>
        out_queue m = Some q \<and> queue_inv q \<and> msgs q = ms) \<and>
     (\<exists>cl. get_client c s = Some cl \<and> cl_mididev cl = Some (nat d))"

lemma output_loop_empty:
  assumes "writer_ready sent E c d [] s"
  shows "output_loop (Suc k) E d cb s = Some (0, s)"
proof -
  obtain m q where m: "get_dev d s = Some m" "out_queue m = Some q" "queue_inv q" "msgs q = []"
    using assms by (auto simp: writer_ready_def)
  then show ?thesis using find_buffer_spec[OF m(3)] by simp
qed

lemma output_loop_one:
  assumes "writer_ready sent E c d [(buf, zero_header)] s" and "buf \<noteq> []"
  shows "\<exists>s'. output_loop (Suc (Suc k)) E d cb s = Some (0, s') \<and> writer_ready sent E c d [] s' \<and> wire sent s' = wire sent s @ buf"
proof -
  obtain m q cl where m: "get_dev d s = Some m" "md_working_mode m = MIDI_MODE_TRADITIONAL" "md_timer_dev m < 0"
      "md_open_mode m AND OPEN_WRITE \<noteq> 0" "driver_sends sent E d (md_d m)" "out_queue m = Some q" "queue_inv q"
      "msgs q = [(buf, zero_header)]"
    and cl: "get_client c s = Some cl" "cl_mididev cl = Some (nat d)"
    using assms(1) by (auto simp: writer_ready_def)
  define q1 where "q1 = mark_busy q"
  have q1: "queue_inv q1" "msgs q1 = [(buf, zero_header\<lparr>hdr_options := hdr_options zero_header OR MIDI_OPT_BUSY\<rparr>)]"
    using mark_busy_spec[OF m(7,8)] by (simp_all add: q1_def)
  define m1 where "m1 = m\<lparr>out_queue := Some q1\<rparr>"
  define s1 where "s1 = upd_dev d (\<lambda>m. m\<lparr>out_queue := Some q1\<rparr>) s"
  have s1: "get_dev d s1 = Some m1" "get_client c s1 = Some cl" "wire sent s1 = wire sent s" using m(1) cl(1) by (simp_all add: s1_def m1_def)
  have ev: "record_event d zero_header s1 = Some s1"
    by (simp add: record_event_def s1(1) zero_header_def MIDI_EV_TEMPO_def MIDI_EV_START_def)
  obtain s2 where s2: "send_record (md_d m1) d buf s1 = Some (int (length buf), s2)" "wire sent s2 = wire sent s1 @ buf"
      "get_dev d s2 = Some m1" "get_client c s2 = Some cl"
    using send_record_all[of sent E d "md_d m1" buf s1] m(5) s1 by (auto simp: m1_def)
  define q2 where "q2 = midi_queue_remove_chars q1 (int (length buf))"
  have q2: "queue_inv q2" "msgs q2 = []" using remove_chars_spec[OF q1(1), of "int (length buf)"] q1(2) by (simp_all add: q2_def)
  define s3 where "s3 = on_hw (e_wakeup E d True) (upd_dev d (\<lambda>m. m\<lparr>out_queue := Some q2\<rparr>) s2)"
  define s4 where "s4 = opt_hw (d_flush_output (md_d m)) d s3"
  have hw2: "midi_hw (hw (upd_dev d f s)) = midi_hw (hw s)" for f and s :: "'a midi_sys" by (simp add: upd_dev_def)
  have w3: "wire sent s3 = wire sent s2" using m(5) by (simp add: s3_def driver_sends_def hw2) (simp add: wire_def)
  have w4: "wire sent s4 = wire sent s3"
    using m(5) by (cases "d_flush_output (md_d m)") (simp_all add: s4_def opt_hw_def driver_sends_def, simp add: wire_def)
  have o: "output_record E d buf s1 = Some (True, s4)"
    using s1(1) s2 assms(2) by (simp add: output_record_def Let_def m1_def s4_def s3_def q2_def)
  have r4: "writer_ready sent E c d [] s4"
    using m cl s2(3,4) q2 by (auto simp: writer_ready_def s4_def s3_def m1_def)
  have busy: "hdr_options zero_header AND MIDI_OPT_BUSY = 0" by (simp add: zero_header_def)
  have "output_loop (Suc (Suc k)) E d cb s = output_loop (Suc k) E d cb s4"
    using find_buffer_spec[OF m(7)] m(1,3,6,8) busy ev o by (simp add: s1_def[symmetric] q1_def[symmetric])
  then show ?thesis using output_loop_empty[OF r4] r4 w3 w4 s2(2) s1(3) by simp
qed

section \<open>Writing\<close>

lemma output_intr_one:
  assumes "writer_ready sent E c d [(buf, zero_header)] s" and "buf \<noteq> []" and "3 \<le> k"
  shows "\<exists>s'. midi_output_intr k E d False s = Some (0, s') \<and> writer_ready sent E c d [] s' \<and> wire sent s' = wire sent s @ buf"
proof -
  obtain j where k: "k = Suc (Suc (Suc j))" using le_Suc_ex[OF assms(3)] by (auto simp: numeral_3_eq_3)
  obtain m where m: "get_dev d s = Some m" "md_open_mode m AND OPEN_WRITE \<noteq> 0" using assms(1) by (auto simp: writer_ready_def)
  then have "midi_output_intr k E d False s = output_loop (Suc (Suc j)) E d False s" unfolding k by (simp del: output_loop.simps)
  with output_loop_one[OF assms(1,2), of j False] show ?thesis by simp
qed

lemma write_step_sends:
  assumes "writer_ready sent E c d [] s" and "data \<noteq> []" and "3 \<le> k"
    and "n = nat (min (int (length data)) MIDI_PAYLOAD_SIZE)"
  shows "\<exists>s'. write_step k E d True zero_header 0 cnt data s = Some (Write_More (cnt + int n) (drop n data), s') \<and>
    writer_ready sent E c d [] s' \<and> wire sent s' = wire sent s @ take n data"
proof -
  obtain m q cl where m: "get_dev d s = Some m" "out_queue m = Some q" "queue_inv q" "msgs q = []"
    and r: "md_working_mode m = MIDI_MODE_TRADITIONAL" "md_timer_dev m < 0" "md_open_mode m AND OPEN_WRITE \<noteq> 0"
      "driver_sends sent E d (md_d m)"
    and cl: "get_client c s = Some cl" "cl_mididev cl = Some (nat d)"
    using assms(1) by (auto simp: writer_ready_def)
  have n: "0 < n" "n \<le> length data" "int n \<le> MIDI_PAYLOAD_SIZE" "min (int (length data)) MIDI_PAYLOAD_SIZE = int n"
    using assms(2,4) by (auto simp: MIDI_PAYLOAD_SIZE_def min_def)
  have lt: "int (length (take n data)) = int n" using n(2) by simp
  obtain a q1 where al: "midi_queue_alloc_record q (int n) (Some zero_header) = (Inr (int n), a, q1)"
    using alloc_empty[OF m(3,4), of "int n" "Some zero_header"] n(1,3) by auto
  define q2 where "q2 = queue_store q1 a (take n data)"
  have "q2 = queue_store (q1\<lparr>debugging := debugging q1\<rparr>) a (take (nat (int n)) (take n data))" by (simp add: q2_def)
  note st = alloc_store_msgs(1,2)[OF m(3) al[folded lt] this[folded lt]]
  have q2: "queue_inv q2" "msgs q2 = [(take n data, zero_header)]" using st lt m(4) by (simp_all add: header_of_def)
  define s1 where "s1 = upd_dev d (\<lambda>m. m\<lparr>out_queue := Some q2\<rparr>) s"
  have "writer_ready sent E c d [(take n data, zero_header)] s1"
    using m r cl q2 by (auto simp: writer_ready_def s1_def)
  then obtain s2 where s2: "midi_output_intr k E d False s1 = Some (0, s2)" "writer_ready sent E c d [] s2"
      "wire sent s2 = wire sent s1 @ take n data"
    using output_intr_one[of sent E c d "take n data" s1 k] assms(2,3) n(1) by auto
  have "write_step k E d True zero_header 0 cnt data s = Some (Write_More (cnt + int n) (drop n data), s2)"
    using m al n s2(1) by (simp add: write_step_def q2_def[symmetric] s1_def)
  then show ?thesis using s2 by (simp add: s1_def)
qed

lemma write_loop_sends:
  assumes "writer_ready sent E c d [] s" and "length data + 4 \<le> k"
  shows "\<exists>s'. write_loop k E d True zero_header False cnt data s = Some (Inr (cnt + int (length data)), s') \<and>
    writer_ready sent E c d [] s' \<and> wire sent s' = wire sent s @ data"
  using assms
proof (induction k arbitrary: cnt data s)
  case 0
  then show ?case by simp
next
  case (Suc k)
  show ?case
  proof (cases "data = []")
    case True
    with Suc.prems show ?thesis by simp
  next
    case False
    define n where "n = nat (min (int (length data)) MIDI_PAYLOAD_SIZE)"
    have n: "0 < n" "n \<le> length data" using False by (auto simp: n_def MIDI_PAYLOAD_SIZE_def)
    obtain s1 where s1: "write_step k E d True zero_header 0 cnt data s = Some (Write_More (cnt + int n) (drop n data), s1)"
        "writer_ready sent E c d [] s1" "wire sent s1 = wire sent s @ take n data"
      using write_step_sends[OF Suc.prems(1) False _ n_def, of k cnt] Suc.prems(2) by auto
    have "length (drop n data) + 4 \<le> k" using n Suc.prems(2) by simp
    then obtain s2 where "write_loop k E d True zero_header False (cnt + int n) (drop n data) s1
        = Some (Inr (cnt + int n + int (length (drop n data))), s2)"
        "writer_ready sent E c d [] s2" "wire sent s2 = wire sent s1 @ drop n data"
      using Suc.IH[OF s1(2)] by blast
    then show ?thesis using False s1 n by (simp add: of_nat_diff)
  qed
qed

text \<open>C9: A write to a port in the traditional mode whose driver never refuses a byte returns the number
  of bytes written, and the driver has sent all of them, in order, when it returns; nothing stays queued. The fuel that
  is enough grows with the number of bytes.\<close>

theorem midi_write_sends:
  assumes "writer_ready sent E c d [] s" and "length data + 4 \<le> k"
  shows "\<exists>s'. oss_midi_write k E c True data s = Some (Inr (int (length data)), s') \<and>
    wire sent s' = wire sent s @ data \<and> writer_ready sent E c d [] s'"
proof -
  obtain m q cl where m: "get_dev d s = Some m" "md_working_mode m = MIDI_MODE_TRADITIONAL"
    and cl: "get_client c s = Some cl" "cl_mididev cl = Some (nat d)"
    using assms(1) by (auto simp: writer_ready_def)
  have d: "0 \<le> d" using get_dev_bounds[OF m(1)] by simp
  define s1 where "s1 = upd_dev d (\<lambda>m. m\<lparr>md_is_killed := False\<rparr>) s"
  have r: "writer_ready sent E c d [] s1" using assms(1) by (auto simp: writer_ready_def s1_def)
  have "oss_midi_write k E c True data s = write_loop k E d True zero_header False 0 data s1"
    using m by (simp add: oss_midi_write_def bound_port_bound[OF cl d] s1_def)
  moreover obtain s' where "write_loop k E d True zero_header False 0 data s1 = Some (Inr (int (length data)), s')"
      "writer_ready sent E c d [] s'" "wire sent s' = wire sent s @ data"
    using write_loop_sends[OF r assms(2), of 0] by (auto simp: s1_def)
  ultimately show ?thesis by simp
qed

text \<open>A port on a driver that records what it sends.\<close>

definition tape_driver :: "bytes midi_driver" where
  "tape_driver = \<lparr>d_open = (\<lambda>d mode h. (Inr 0, h)), d_close = (\<lambda>d mode h. h), d_ioctl = (\<lambda>d c v h. ((Inr 0, v), h)),
     d_outputc = Some (\<lambda>d b h. (True, h @ [b])), d_bulk_write = Some (\<lambda>d buf h. (int (length buf), h @ buf)),
     d_flush_output = None, d_wait_output = None, d_timer_setup = None, d_init_device = None\<rparr>"

definition tape_env :: "bytes midi_env" where
  "tape_env = \<lparr>e_jiffies = (\<lambda>h. 0), e_timeout = (\<lambda>f d t h. (1, h)), e_untimeout = (\<lambda>i h. h),
     e_sleep = (\<lambda>d out t s. ((False, False), s)), e_wakeup = (\<lambda>d out h. h), e_malloc_ok = (\<lambda>h. True)\<rparr>"

definition tape_port :: "bytes mididev" where
  "tape_port = install_fields 0 [] (MFLAG_INPUT OR MFLAG_OUTPUT) 0
     ((fresh_mididev tape_driver)\<lparr>md_open_mode := OPEN_WRITE, out_queue := midi_queue_alloc True\<rparr>)"

definition tape_system :: "bytes midi_sys" where
  "tape_system = \<lparr>timer_devs = [], timer_drivers = [], num_mididevs = 1, hz = 100,
     hw = \<lparr>midi_devs = [tape_port], midi_clients = [Some \<lparr>cl_num = 0, cl_open_mode = OPEN_WRITE, cl_mididev = Some 0\<rparr>],
       num_midi_clients = 1, midi_hw = []\<rparr>\<rparr>"

theorem midi_write_sends_witness:
  "\<exists>s'. oss_midi_write 7 tape_env 0 True [0x90, 60, 64] tape_system = Some (Inr 3, s') \<and> wire (\<lambda>h. h) s' = [0x90, 60, 64]"
proof -
  have "driver_sends (\<lambda>h. h) tape_env 0 tape_driver" by (simp add: driver_sends_def tape_driver_def tape_env_def)
  then have "writer_ready (\<lambda>h. h) tape_env 0 0 [] tape_system"
    using alloc_True_ready
    by (auto simp: writer_ready_def get_dev_def get_client_def tape_system_def tape_port_def install_fields_def fresh_mididev_def
        OPEN_WRITE_def)
  from midi_write_sends[OF this, of "[0x90, 60, 64]" 7] show ?thesis by (auto simp: wire_def tape_system_def)
qed

end
