(* ===== verification/Audio_Dmap.thy ===== *)
theory Audio_Dmap
  imports Audio_Convert
begin

text \<open>
  The state of an audio engine and of its device buffers (\<open>dmap\<close>), from \<open>audio_core.h\<close> and
  \<open>oss_audio_core.c\<close>: the queue lengths, resetting a buffer, the choice of the fragments, the
  error log, and the preparation and start of a device. The state holds one engine and what the
  rest of the system is made of, the hardware and the other engines, as \<open>'h\<close>; the
  methods of the driver, the services of the operating system and the options are an environment.
  A method may change the whole engine. Byte counters are 64 bit words; other integers are
  \<open>int\<close> with the overflow of products written out, except statistics (underruns, overruns,
  timeouts, interrupts), which are unbounded. \<open>None\<close> results stand for an access outside of a
  buffer, a division by zero, an overflow of a product or shift, and a loop that never ends.
\<close>

section \<open>State\<close>

definition PCM_ENABLE_INPUT :: u32 where "PCM_ENABLE_INPUT = 1"
definition PCM_ENABLE_OUTPUT :: u32 where "PCM_ENABLE_OUTPUT = 2"
definition DMASK_OUT :: u32 where "DMASK_OUT = 1"
definition DMASK_IN :: u32 where "DMASK_IN = 2"
definition DMA_MAP_MAPPED :: u32 where "DMA_MAP_MAPPED = 1"
definition DMAP_POST :: u32 where "DMAP_POST = 0x02"
definition DMAP_PREPARED :: u32 where "DMAP_PREPARED = 0x04"
definition DMAP_FRAGFIXED :: u32 where "DMAP_FRAGFIXED = 0x08"
definition DMAP_STARTED :: u32 where "DMAP_STARTED = 0x10"
definition OF_MMAP :: u32 where "OF_MMAP = 0x01"
definition OF_BLOCK :: u32 where "OF_BLOCK = 0x02"
definition OF_SMALLFRAGS :: u32 where "OF_SMALLFRAGS = 0x40"
definition ADEV_AUTOMODE :: u64 where "ADEV_AUTOMODE = 0x2"
definition ADEV_NOINPUT :: u64 where "ADEV_NOINPUT = 0x8"
definition ADEV_NOOUTPUT :: u64 where "ADEV_NOOUTPUT = 0x10"
definition ADEV_VMIX :: u64 where "ADEV_VMIX = 0x20"
definition ADEV_NOSRC :: u64 where "ADEV_NOSRC = 0x100000"
definition ADEV_HWMIX :: u64 where "ADEV_HWMIX = 0x2000000"
definition ADEV_NONINTERLEAVED :: u64 where "ADEV_NONINTERLEAVED = 0x8000000"
definition AINTR_NO_POINTER_UPDATES :: u32 where "AINTR_NO_POINTER_UPDATES = 2"
definition MAX_AUDIO_ERRORS :: nat where "MAX_AUDIO_ERRORS = 5"

lemmas audio_flags = PCM_ENABLE_INPUT_def PCM_ENABLE_OUTPUT_def DMASK_OUT_def DMASK_IN_def
  DMA_MAP_MAPPED_def DMAP_POST_def DMAP_PREPARED_def DMAP_FRAGFIXED_def DMAP_STARTED_def
  DMAP_COOKED_def OF_MMAP_def OF_BLOCK_def OF_SMALLFRAGS_def ADEV_AUTOMODE_def ADEV_NOINPUT_def
  ADEV_NOOUTPUT_def ADEV_VMIX_def ADEV_NOSRC_def ADEV_HWMIX_def ADEV_NONINTERLEAVED_def
  AINTR_NO_POINTER_UPDATES_def

datatype dir = Play | Rec

text \<open>A buffer. The fields the conversions use (the flags among them) are \<open>dm_cnv\<close>; the bytes
  that \<open>leftover_buf\<close> points to are kept by value; of the callback and of the method
  \<open>device_write\<close> only whether they are set.\<close>

record 'g dmap =
  dm_cnv :: "'g cnv_dmap"
  dm_dmabuf :: "bytes option"
  dm_phys :: int
  dm_buffsize :: int
  dm_neutral :: u8
  dma_mode :: u32
  nfrags :: int
  fragment_size :: int
  bytes_in_use :: int
  data_rate :: int
  frame_size :: int
  user_frame_size :: int
  fragsize_rq :: int
  low_water :: int
  low_water_rq :: int
  byte_counter :: u64
  user_counter :: u64
  interrupt_count :: int
  fragment_counter :: int
  mapping_flags :: u32
  play_underruns :: int
  rec_overruns :: int
  underrun_flag :: bool
  num_errors :: int
  dm_errors :: "(int \<times> int) list"
  dm_leftover :: bytes
  has_callback :: bool
  has_device_write :: bool

text \<open>\<open>dmap_in\<close> is a buffer of its own on a full duplex engine, else it is \<open>dmap_out\<close>.\<close>

record ('g, 'h) engine =
  ad_enabled :: bool
  ad_flags :: u64
  ad_open_flags :: u32
  ad_open_mode :: u32
  ad_dmask :: u32
  user_parms :: sample_parms
  hw_parms :: sample_parms
  ad_go :: bool
  enable_bits :: u32
  max_block :: int
  min_block :: int
  min_fragments :: int
  max_fragments :: int
  ad_max_intrate :: int
  ad_policy :: int
  ossd_registered :: bool
  ad_nonblock :: bool
  forced_nonblock :: bool
  cooked_enable :: bool
  timeout_count :: int
  getispace_error_count :: int
  setfragment_warned :: bool
  ad_duplex :: bool
  dmap_0 :: "'g dmap"
  dmap_1 :: "'g dmap"
  sync_seed :: u64
  ad_hw :: 'h

type_synonym ('a, 'g, 'h) audio_result = "('a oss_result \<times> ('g, 'h) engine) option"

record ('g, 'h) audio_env =
  a_output_block :: "(int \<Rightarrow> int \<Rightarrow> int \<Rightarrow> int \<Rightarrow> ('g, 'h) engine \<Rightarrow> ('g, 'h) engine) option"
  a_start_input :: "(int \<Rightarrow> int \<Rightarrow> int \<Rightarrow> int \<Rightarrow> ('g, 'h) engine \<Rightarrow> ('g, 'h) engine) option"
  a_prepare_for_output :: "int \<Rightarrow> int \<Rightarrow> ('g, 'h) engine \<Rightarrow> unit oss_result \<times> ('g, 'h) engine"
  a_prepare_for_input :: "int \<Rightarrow> int \<Rightarrow> ('g, 'h) engine \<Rightarrow> unit oss_result \<times> ('g, 'h) engine"
  a_halt_io :: "('g, 'h) engine \<Rightarrow> ('g, 'h) engine"
  a_halt_input :: "(('g, 'h) engine \<Rightarrow> ('g, 'h) engine) option"
  a_halt_output :: "(('g, 'h) engine \<Rightarrow> ('g, 'h) engine) option"
  a_local_qlen :: "(('g, 'h) engine \<Rightarrow> int) option"
  a_trigger :: "(u32 \<Rightarrow> ('g, 'h) engine \<Rightarrow> ('g, 'h) engine) option"
  a_set_rate :: "int \<Rightarrow> ('g, 'h) engine \<Rightarrow> int oss_result \<times> ('g, 'h) engine"
  a_set_format :: "u32 \<Rightarrow> ('g, 'h) engine \<Rightarrow> u32 \<times> ('g, 'h) engine"
  a_set_channels :: "int \<Rightarrow> ('g, 'h) engine \<Rightarrow> int \<times> ('g, 'h) engine"
  a_check_input :: "(('g, 'h) engine \<Rightarrow> unit oss_result \<times> ('g, 'h) engine) option"
  a_check_output :: "(('g, 'h) engine \<Rightarrow> unit oss_result \<times> ('g, 'h) engine) option"
  a_get_input_pointer :: "(('g, 'h) engine \<Rightarrow> int) option"
  a_get_output_pointer :: "(('g, 'h) engine \<Rightarrow> int) option"
  a_setup_fragments :: "(dir \<Rightarrow> ('g, 'h) engine \<Rightarrow> ('g, 'h) engine) option"
  a_device_write :: "bytes \<Rightarrow> int \<Rightarrow> int \<Rightarrow> int \<Rightarrow> ('g, 'h) engine \<Rightarrow> (int \<times> int) oss_result \<times> ('g, 'h) engine"
  a_callback :: "dir \<Rightarrow> ('g, 'h) engine \<Rightarrow> ('g, 'h) engine"
  a_sleep :: "dir \<Rightarrow> int \<Rightarrow> ('g, 'h) engine \<Rightarrow> (bool \<times> bool) \<times> ('g, 'h) engine"
  a_wakeup :: "dir \<Rightarrow> ('g, 'h) engine \<Rightarrow> ('g, 'h) engine"
  a_grc3 :: "'g grc3"
  a_tmpbuf :: "bytes option"
  a_srcstate :: "nat \<Rightarrow> 'g option"
  num_audio_engines :: int
  always_cooked :: bool
  opt_max_intrate :: int
  oss_hz :: int

section \<open>Access to the state\<close>

definition dmap_of :: "dir \<Rightarrow> ('g, 'h) engine \<Rightarrow> 'g dmap" where
  "dmap_of D s = (if D = Rec \<and> ad_duplex s then dmap_1 s else dmap_0 s)"

definition upd_dmap :: "dir \<Rightarrow> ('g dmap \<Rightarrow> 'g dmap) \<Rightarrow> ('g, 'h) engine \<Rightarrow> ('g, 'h) engine" where
  "upd_dmap D f s = (if D = Rec \<and> ad_duplex s then s\<lparr>dmap_1 := f (dmap_1 s)\<rparr> else s\<lparr>dmap_0 := f (dmap_0 s)\<rparr>)"

definition dm_has :: "u32 \<Rightarrow> 'g dmap \<Rightarrow> bool" where
  "dm_has f d \<longleftrightarrow> dm_flags (dm_cnv d) AND f \<noteq> 0"

definition upd_cnv :: "('g cnv_dmap \<Rightarrow> 'g cnv_dmap) \<Rightarrow> 'g dmap \<Rightarrow> 'g dmap" where
  "upd_cnv f d = d\<lparr>dm_cnv := f (dm_cnv d)\<rparr>"

definition dm_set :: "u32 \<Rightarrow> 'g dmap \<Rightarrow> 'g dmap" where
  "dm_set f = upd_cnv (\<lambda>c. c\<lparr>dm_flags := dm_flags c OR f\<rparr>)"

definition dm_clear :: "u32 \<Rightarrow> 'g dmap \<Rightarrow> 'g dmap" where
  "dm_clear f = upd_cnv (\<lambda>c. c\<lparr>dm_flags := dm_flags c AND NOT f\<rparr>)"

definition dm_mapped :: "'g dmap \<Rightarrow> bool" where
  "dm_mapped d \<longleftrightarrow> mapping_flags d AND DMA_MAP_MAPPED \<noteq> 0"

definition bump_seed :: "('g, 'h) engine \<Rightarrow> ('g, 'h) engine" where
  "bump_seed s = s\<lparr>sync_seed := sync_seed s + 1\<rparr>"

lemmas audio_access = dmap_of_def upd_dmap_def dm_has_def upd_cnv_def dm_set_def dm_clear_def
  dm_mapped_def bump_seed_def

text \<open>The conversion of a 64 bit word to \<open>int\<close> and back, and memory accesses.\<close>

definition to_int :: "u64 \<Rightarrow> int" where "to_int w = signed_take_bit 31 (uint w)"

definition chk :: "int \<Rightarrow> int option" where "chk x = (if c_int x then Some x else None)"

definition fill :: "int \<Rightarrow> u8 \<Rightarrow> bytes option \<Rightarrow> bytes option" where
  "fill n v buf = (case buf of None \<Rightarrow> None | Some xs \<Rightarrow>
     if n < 0 \<or> int (length xs) < n then None else Some (replicate (nat n) v @ drop (nat n) xs))"

definition peek :: "int \<Rightarrow> int \<Rightarrow> bytes option \<Rightarrow> bytes option" where
  "peek a n buf = (case buf of None \<Rightarrow> None | Some xs \<Rightarrow>
     if a < 0 \<or> n < 0 \<or> int (length xs) < a + n then None else Some (take (nat n) (drop (nat a) xs)))"

definition poke :: "int \<Rightarrow> bytes \<Rightarrow> bytes option \<Rightarrow> bytes option" where
  "poke a bs buf = (case buf of None \<Rightarrow> None | Some xs \<Rightarrow>
     if a < 0 \<or> int (length xs) < a + int (length bs) then None
     else Some (take (nat a) xs @ bs @ drop (nat a + length bs) xs))"

text \<open>A \<open>while\<close> loop of at most \<open>n\<close> rounds.\<close>

primrec rounds :: "nat \<Rightarrow> ('a \<Rightarrow> bool) \<Rightarrow> ('a \<Rightarrow> 'a option) \<Rightarrow> 'a \<Rightarrow> 'a option" where
  "rounds 0 c f x = (if c x then None else Some x)"
| "rounds (Suc n) c f x = (if c x then Option.bind (f x) (rounds n c f) else Some x)"

definition divu :: "u64 \<Rightarrow> int \<Rightarrow> u64 option" where
  "divu a b = (let b = word_of_int b in if b = 0 then None else Some (a div b))"

definition modu :: "u64 \<Rightarrow> int \<Rightarrow> u64 option" where
  "modu a b = (let b = word_of_int b in if b = 0 then None else Some (a mod b))"

section \<open>Queue lengths and positions\<close>

definition dmap_get_qlen :: "'g dmap \<Rightarrow> int option" where
  "dmap_get_qlen d =
     (if dma_mode d = PCM_ENABLE_OUTPUT then
        (if fragment_size d = 0 then Some 0
         else map_option (\<lambda>w. max 0 (to_int w)) (divu (user_counter d - byte_counter d) (fragment_size d)))
      else if dma_mode d = PCM_ENABLE_INPUT then
        (if fragment_size d = 0 then Some 0
         else map_option (\<lambda>w. max 0 (to_int w)) (divu (byte_counter d - user_counter d) (fragment_size d)))
      else Some 0)"

text \<open>The index of the fragment a counter is in.\<close>

definition frag_index :: "u64 \<Rightarrow> 'g dmap \<Rightarrow> int option" where
  "frag_index c d = map_option (\<lambda>p. uint (ucast p :: u32) div (uint (word_of_int (fragment_size d) :: u32))) (modu c (bytes_in_use d))"

definition dmap_get_qhead :: "'g dmap \<Rightarrow> int option" where
  "dmap_get_qhead d =
     (if fragment_size d = 0 then Some 0
      else if dma_mode d = PCM_ENABLE_OUTPUT then frag_index (byte_counter d) d
      else if dma_mode d = PCM_ENABLE_INPUT then frag_index (user_counter d) d
      else Some 0)"

definition dmap_get_qtail :: "'g dmap \<Rightarrow> int option" where
  "dmap_get_qtail d =
     (if fragment_size d = 0 then Some 0
      else if dma_mode d = PCM_ENABLE_INPUT then frag_index (byte_counter d) d
      else if dma_mode d = PCM_ENABLE_OUTPUT then frag_index (user_counter d) d
      else Some 0)"

section \<open>Reset and the error log\<close>

definition reset_dmap :: "'g dmap \<Rightarrow> 'g dmap" where
  "reset_dmap d =
     upd_cnv (\<lambda>c. c\<lparr>dm_flags := dm_flags c AND (DMAP_FRAGFIXED OR DMAP_COOKED), expand_factor := UNIT_EXPAND\<rparr>)
       (d\<lparr>dma_mode := 0, byte_counter := 0, user_counter := 0, fragment_counter := 0, interrupt_count := 0,
          play_underruns := 0, rec_overruns := 0, num_errors := 0, dm_leftover := []\<rparr>)"

text \<open>The log keeps \<open>MAX_AUDIO_ERRORS\<close> errors, the newest first; entry \<open>i\<close> holds the error and its
  parameter. The code moves the entries \<open>n\<close> down to \<open>1\<close> up, \<open>n\<close> being the number of errors logged
  before, at most \<open>MAX_AUDIO_ERRORS\<close>.\<close>

primrec move_errors :: "nat \<Rightarrow> (int \<times> int) list \<Rightarrow> (int \<times> int) list option" where
  "move_errors 0 es = Some es"
| "move_errors (Suc i) es =
     (if length es \<le> Suc i then None else move_errors i (es[Suc i := es ! i]))"

definition log_error :: "int \<Rightarrow> int \<Rightarrow> 'g dmap \<Rightarrow> 'g dmap option" where
  "log_error err parm d =
     (let n = (if int MAX_AUDIO_ERRORS < num_errors d then int MAX_AUDIO_ERRORS else num_errors d);
          d = d\<lparr>num_errors := num_errors d + 1\<rparr>
      in map_option (\<lambda>es. d\<lparr>dm_errors := es[0 := (err, parm)]\<rparr>) (move_errors (nat n) (dm_errors d)))"

definition oss_audio_set_error :: "dir \<Rightarrow> int \<Rightarrow> int \<Rightarrow> ('g, 'h) engine \<Rightarrow> ('g, 'h) engine option" where
  "oss_audio_set_error D err parm s =
     map_option (\<lambda>d. upd_dmap D (\<lambda>_. d) s) (log_error err parm (dmap_of D s))"

section \<open>Fragments\<close>

definition policies :: "(int \<times> int) list" where
  "policies = [(8, 2), (16, 2), (128, 2), (256, 4), (512, 4), (1024, 0), (2048, 0), (4096, 0),
     (16384, 0), (32768, 0), (256 * 1024, 0)]"

text \<open>Loops that double or halve a size take at most 32 rounds before the size overflows or
  is zero.\<close>

definition double_up :: "int \<Rightarrow> int \<Rightarrow> int option" where
  "double_up lim sz = rounds 32 (\<lambda>sz. sz < lim) (\<lambda>sz. chk (sz * 2)) sz"

definition halve_down :: "int \<Rightarrow> int \<Rightarrow> int option" where
  "halve_down lim sz = rounds 32 (\<lambda>sz. lim < sz) (\<lambda>sz. Some (sz sdiv 2)) sz"

definition small_frags :: "int \<Rightarrow> int \<times> int \<Rightarrow> (int \<times> int) option" where
  "small_frags lim = rounds 32 (\<lambda>(sz, mf). lim < sz) (\<lambda>(sz, mf). map_option (Pair (sz sdiv 2)) (chk (mf * 2)))"

text \<open>The size and the number of fragments that \<open>SNDCTL_DSP_SETFRAGMENT\<close> requested.\<close>

definition requested_size :: "int \<Rightarrow> 'g dmap \<Rightarrow> int option" where
  "requested_size v d =
     (if 31 \<le> v then None
      else
        let sz = 2 ^ nat v in
        Option.bind
          (if expand_factor (dm_cnv d) = UNIT_EXPAND then Some sz
           else Option.bind (mul_div sz (expand_factor (dm_cnv d)) UNIT_EXPAND)
                  (\<lambda>sz2. if sz < sz2 then double_up sz2 sz else halve_down sz2 sz))
          (\<lambda>sz.
             let sz = (if sz < 8 then 8 else sz)
             in Some (if dm_buffsize d sdiv 2 < sz then dm_buffsize d sdiv 2 else sz)))"

definition requested_frags :: "int \<Rightarrow> ('g, 'h) engine \<Rightarrow> int" where
  "requested_frags rq s =
     (let mf = drop_bit 16 rq AND 0x7fff;
          mf = (if mf = 0 then 0x7fff else if mf < 2 then 2 else mf)
      in if mf < min_fragments s then min_fragments s
         else if 2 \<le> max_fragments s \<and> max_fragments s < mf then max_fragments s else mf)"

definition requested_fragments :: "dir \<Rightarrow> ('g, 'h) engine \<Rightarrow> (int \<times> int) option" where
  "requested_fragments D s =
     (let d = dmap_of D s in
      if fragsize_rq d = 0 then Some (1024, 100000)
      else
        Option.bind (requested_size (fragsize_rq d AND 0xffff) d) (\<lambda>sz.
          let mf = requested_frags (fragsize_rq d) s
          in if ad_open_flags s AND OF_SMALLFRAGS \<noteq> 0 then small_frags (dm_buffsize d sdiv 8) (sz, mf)
             else Some (sz, mf)))"

definition policy_fragments :: "('g, 'h) engine \<Rightarrow> int \<times> int \<Rightarrow> int \<times> int" where
  "policy_fragments s p =
     (let (sz, mf) =
        (if 0 \<le> ad_policy s \<and> ad_policy s \<le> 10 then
           (let (sz, mf) = policies ! nat (ad_policy s) in (sz, if mf = 0 then 0xffff else mf))
         else p)
      in (if ossd_registered s then 256 else sz, mf))"

text \<open>The limits of the device on the fragment size, and the interrupt rate.\<close>

definition block_limits :: "('g, 'h) engine \<Rightarrow> ('g, 'h) engine" where
  "block_limits s =
     (if min_block s \<noteq> 0 \<and> max_block s \<noteq> 0 \<and> max_block s < min_block s
      then s\<lparr>min_block := 0, max_block := 0\<rparr> else s)"

definition clip_block :: "('g, 'h) engine \<Rightarrow> int \<Rightarrow> int" where
  "clip_block s sz =
     (let sz = (if 0 < max_block s \<and> max_block s < sz then max_block s else sz);
          sz = (if 0 < min_block s \<and> sz < min_block s then min_block s else sz)
      in if sz < 8 then 8 else sz)"

definition min_fragment :: "dir \<Rightarrow> ('g, 'h) engine \<Rightarrow> int option" where
  "min_fragment D s =
     (let d = dmap_of D s in
      Option.bind
        (if 0 < ad_max_intrate s then
           Option.bind (if data_rate d < 8000 then chk (sp_rate (hw_parms s) * 4) else Some (data_rate d))
             (\<lambda>r. let m = r sdiv ad_max_intrate s
                  in Some (if dm_buffsize d sdiv 2 < m then dm_buffsize d sdiv 2 else m))
         else Some 0)
        (\<lambda>m.
           let m = (if dm_has DMAP_COOKED d \<and> m < 256 then 256 else m)
           in Some (if max_block s \<noteq> 0 \<and> max_block s < m then max_block s else m)))"

definition choose_size :: "dir \<Rightarrow> ('g, 'h) engine \<Rightarrow> int \<Rightarrow> int option" where
  "choose_size D s sz =
     (let sz = clip_block s sz in
      Option.bind (min_fragment D s) (\<lambda>m.
        if sz < m then
          map_option (\<lambda>sz. if 0 < max_block s \<and> max_block s < sz then max_block s else sz) (double_up m sz)
        else Some sz))"

text \<open>The last adjustments: at least two fragments, and the device's limits on their number.\<close>

definition double_frags :: "int \<Rightarrow> 'g dmap \<Rightarrow> 'g dmap option" where
  "double_frags lim = rounds 32 (\<lambda>d. nfrags d < lim)
     (\<lambda>d. map_option (\<lambda>n. d\<lparr>nfrags := n, fragment_size := fragment_size d sdiv 2\<rparr>) (chk (nfrags d * 2)))"

definition halve_frags :: "int \<Rightarrow> 'g dmap \<Rightarrow> 'g dmap option" where
  "halve_frags lim = rounds 32 (\<lambda>d. lim < nfrags d)
     (\<lambda>d. map_option (\<lambda>z. d\<lparr>nfrags := nfrags d sdiv 2, fragment_size := z\<rparr>) (chk (fragment_size d * 2)))"

definition set_in_use :: "'g dmap \<Rightarrow> 'g dmap option" where
  "set_in_use d = map_option (\<lambda>n. d\<lparr>bytes_in_use := n\<rparr>) (chk (nfrags d * fragment_size d))"

definition adjust_fragments :: "('g, 'h) engine \<Rightarrow> 'g dmap \<Rightarrow> 'g dmap option" where
  "adjust_fragments s d =
     Option.bind (set_in_use d) (\<lambda>d.
     let d = (if nfrags d < 2 then d\<lparr>nfrags := 2, fragment_size := bytes_in_use d sdiv 2\<rparr> else d) in
     Option.bind (double_frags (min_fragments s) d) (\<lambda>d.
     Option.bind (if 2 \<le> max_fragments s then halve_frags (max_fragments s) d else Some d) (\<lambda>d.
     Option.bind (double_frags (min_fragments s) d) (\<lambda>d.
     map_option (\<lambda>d.
       let d = d\<lparr>low_water_rq := fragment_size d\<rparr>
       in if nfrags d < 4 \<and> low_water_rq d < bytes_in_use d sdiv 4 then d\<lparr>low_water_rq := bytes_in_use d sdiv 4\<rparr> else d)
     (set_in_use d)))))"

definition setup_fragments :: "('g, 'h) audio_env \<Rightarrow> dir \<Rightarrow> ('g, 'h) engine \<Rightarrow> ('g, 'h) engine option" where
  "setup_fragments E D s =
     (let s = (if ad_max_intrate s = 0 \<or> opt_max_intrate E < ad_max_intrate s
               then s\<lparr>ad_max_intrate := opt_max_intrate E\<rparr> else s) in
      if dm_has DMAP_FRAGFIXED (dmap_of D s) then Some s
      else
        let s = upd_dmap D (\<lambda>d. (dm_set DMAP_FRAGFIXED d)\<lparr>low_water_rq := 0, low_water := - 1\<rparr>) s in
        Option.bind (requested_fragments D s) (\<lambda>p.
          let (sz, maxfrags) = policy_fragments s p;
              s = block_limits s
          in Option.bind (choose_size D s sz) (\<lambda>sz.
          if sz = 0 then None
          else
            let n = dm_buffsize (dmap_of D s) sdiv sz;
                n = (if D = Play \<and> maxfrags < n then maxfrags else n);
                s = upd_dmap D (\<lambda>d. d\<lparr>fragment_size := sz, nfrags := n\<rparr>) s;
                s = (case a_setup_fragments E of None \<Rightarrow> s | Some f \<Rightarrow> f D s)
            in map_option (\<lambda>d. upd_dmap D (\<lambda>_. d) s) (adjust_fragments s (dmap_of D s)))))"

end
