(* ===== verification/Audio_Engine.thy ===== *)
theory Audio_Engine
  imports Audio_Dmap
begin

text \<open>
  The control of an audio engine in \<open>oss_audio_core.c\<close>: its sample format, channels and rate, the
  preparation and the start of its device in both directions, resetting it, and posting the data
  that waits in the playback buffer.
\<close>

section \<open>Sample parameters\<close>

definition audio_and ::
  "('a, 'g, 'h) audio_result \<Rightarrow> ('a \<Rightarrow> ('g, 'h) engine \<Rightarrow> ('b, 'g, 'h) audio_result) \<Rightarrow> ('b, 'g, 'h) audio_result" where
  "audio_and r f = (case r of None \<Rightarrow> None | Some (Inl e, s) \<Rightarrow> Some (Inl e, s) | Some (Inr x, s) \<Rightarrow> f x s)"

definition fail :: "oss_error \<Rightarrow> ('g, 'h) engine \<Rightarrow> ('a, 'g, 'h) audio_result" where
  "fail e s = Some (Inl e, s)"

definition done_with :: "'a \<Rightarrow> ('g, 'h) engine \<Rightarrow> ('a, 'g, 'h) audio_result" where
  "done_with x s = Some (Inr x, s)"

definition cook :: "dir \<Rightarrow> ('g, 'h) engine \<Rightarrow> ('g, 'h) engine" where
  "cook D s = (if ad_dmask s AND (if D = Play then DMASK_OUT else DMASK_IN) \<noteq> 0 then upd_dmap D (dm_set DMAP_COOKED) s else s)"

definition no_conversions :: "('g, 'h) engine \<Rightarrow> bool" where
  "no_conversions s \<longleftrightarrow> dm_mapped (dmap_of Play s) \<or> dm_mapped (dmap_of Rec s) \<or> ad_open_flags s AND OF_MMAP \<noteq> 0"

text \<open>AC3 data tolerates no conversion; the errors logged are 1018, 1019 and 1020.\<close>

definition check_ac3 :: "u32 \<Rightarrow> ('g, 'h) engine \<Rightarrow> (unit, 'g, 'h) audio_result" where
  "check_ac3 fmt s =
     (if fmt \<noteq> AFMT_AC3 then done_with () s
      else
        let s = s\<lparr>cooked_enable := False\<rparr> in
        if ad_flags s AND ADEV_VMIX \<noteq> 0 then Option.bind (oss_audio_set_error Rec 1018 0 s) (fail OSS_EIO)
        else if ad_flags s AND ADEV_HWMIX \<noteq> 0 then Option.bind (oss_audio_set_error Rec 1019 0 s) (fail OSS_EIO)
        else if ad_dmask s AND DMASK_OUT \<noteq> 0 \<and> dm_has DMAP_COOKED (dmap_of Play s)
        then Option.bind (oss_audio_set_error Rec 1020 0 s) (fail OSS_EIO)
        else done_with () s)"

definition set_neutral :: "u32 \<Rightarrow> ('g, 'h) engine \<Rightarrow> ('g, 'h) engine" where
  "set_neutral fmt s =
     (let v = (case oss_find_format fmt of None \<Rightarrow> 0 | Some f \<Rightarrow> fi_neutral_byte f);
          s = (if ad_dmask s AND DMASK_OUT \<noteq> 0 then upd_dmap Play (\<lambda>d. d\<lparr>dm_neutral := v\<rparr>) s else s)
      in if ad_dmask s AND DMASK_IN \<noteq> 0 then upd_dmap Rec (\<lambda>d. d\<lparr>dm_neutral := v\<rparr>) s else s)"

text \<open>The device's own format for data that is converted: 16 bit formats are preferred.\<close>

definition device_format ::
  "('g, 'h) audio_env \<Rightarrow> u32 \<Rightarrow> u32 \<Rightarrow> u32 \<Rightarrow> ('g, 'h) engine \<Rightarrow> ('g, 'h) engine" where
  "device_format E fmt ret fmask s =
     (if ret AND (AFMT_S16_LE OR AFMT_S16_BE) \<noteq> 0 then s
      else if fmt = AFMT_MU_LAW \<and> ret = AFMT_U8 then s
      else if fmask AND AFMT_S16_LE \<noteq> 0 \<or> fmask AND AFMT_S16_BE \<noteq> 0 then
        (case a_set_format E (if fmask AND AFMT_S16_LE \<noteq> 0 then AFMT_S16_LE else AFMT_S16_BE) s of
           (ret, s) \<Rightarrow> s\<lparr>hw_parms := (hw_parms s)\<lparr>sp_fmt := ret\<rparr>\<rparr>)
      else s)"

definition bad_engine :: "('g, 'h) audio_env \<Rightarrow> int \<Rightarrow> ('g, 'h) engine \<Rightarrow> bool" where
  "bad_engine E dev s \<longleftrightarrow> dev < 0 \<or> num_audio_engines E \<le> dev \<or> \<not> ad_enabled s"

definition oss_audio_set_format ::
  "('g, 'h) audio_env \<Rightarrow> int \<Rightarrow> u32 \<Rightarrow> u32 \<Rightarrow> ('g, 'h) engine \<Rightarrow> (u32, 'g, 'h) audio_result" where
  "oss_audio_set_format E dev fmt fmask s =
     (let s = bump_seed s in
      if bad_engine E dev s then fail OSS_ENXIO s
      else if fmt = 0 then done_with (sp_fmt (user_parms s)) s
      else
        audio_and (check_ac3 fmt s) (\<lambda>_ s.
          case a_set_format E fmt s of (ret, s) \<Rightarrow>
            let s = set_neutral ret (s\<lparr>user_parms := (user_parms s)\<lparr>sp_fmt := ret\<rparr>, hw_parms := (hw_parms s)\<lparr>sp_fmt := ret\<rparr>\<rparr>)
            in if no_conversions s \<or> ret = fmt \<or> \<not> cooked_enable s \<or> fmt AND CONVERTABLE_FORMATS = 0 then done_with ret s
               else done_with fmt (device_format E fmt ret fmask
                      (cook Rec (cook Play (s\<lparr>user_parms := (user_parms s)\<lparr>sp_fmt := fmt\<rparr>\<rparr>))))))"

definition oss_audio_set_channels ::
  "('g, 'h) audio_env \<Rightarrow> int \<Rightarrow> int \<Rightarrow> ('g, 'h) engine \<Rightarrow> (int, 'g, 'h) audio_result" where
  "oss_audio_set_channels E dev ch s =
     (let s = bump_seed s in
      if bad_engine E dev s then fail OSS_ENXIO s
      else if ch = 0 then done_with (int (sp_channels (user_parms s))) s
      else case a_set_channels E (signed_take_bit 15 ch) s of (ret, s) \<Rightarrow>
        if ret < 1 then fail OSS_EIO s
        else
          let ch = (if 2 < ch \<and> ret < ch then ret else ch);
              s = s\<lparr>user_parms := (user_parms s)\<lparr>sp_channels := nat ret\<rparr>, hw_parms := (hw_parms s)\<lparr>sp_channels := nat ret\<rparr>\<rparr>
          in if no_conversions s then done_with ret s
             else
               let s = (if 1 < ret \<and> ad_flags s AND ADEV_NONINTERLEAVED \<noteq> 0 then cook Rec (cook Play s) else s)
               in if \<not> cooked_enable s \<or> ret = ch \<or> \<not> (ch = 1 \<and> ret = 2 \<or> ch = 2 \<and> ret = 1) then done_with ret s
                  else done_with ch (cook Rec (cook Play (s\<lparr>user_parms := (user_parms s)\<lparr>sp_channels := nat ch\<rparr>\<rparr>))))"

definition oss_audio_set_rate ::
  "('g, 'h) audio_env \<Rightarrow> int \<Rightarrow> int \<Rightarrow> ('g, 'h) engine \<Rightarrow> (int, 'g, 'h) audio_result" where
  "oss_audio_set_rate E dev rate s =
     (let s = bump_seed s in
      if bad_engine E dev s then fail OSS_ENXIO s
      else if rate = 0 then done_with (sp_rate (user_parms s)) s
      else case a_set_rate E rate s of
        (Inl e, s) \<Rightarrow> fail e s
      | (Inr ret, s) \<Rightarrow>
          let s = s\<lparr>user_parms := (user_parms s)\<lparr>sp_rate := ret\<rparr>, hw_parms := (hw_parms s)\<lparr>sp_rate := ret\<rparr>\<rparr>
          in if no_conversions s \<or> ad_flags s AND ADEV_NOSRC \<noteq> 0 \<or> \<not> cooked_enable s \<or> ret = rate then done_with ret s
             else done_with rate (cook Rec (cook Play (s\<lparr>user_parms := (user_parms s)\<lparr>sp_rate := rate\<rparr>\<rparr>))))"

section \<open>Preparation\<close>

definition parm_frame :: "sample_parms \<Rightarrow> int option" where
  "parm_frame p =
     (let b = (case oss_find_format (sp_fmt p) of None \<Rightarrow> 8 | Some f \<Rightarrow> fi_bits f) sdiv 8
      in chk ((if b < 1 then 1 else b) * int (sp_channels p)))"

definition mark_cooked :: "('g, 'h) audio_env \<Rightarrow> dir \<Rightarrow> ('g, 'h) engine \<Rightarrow> ('g, 'h) engine" where
  "mark_cooked E D s =
     (let u = user_parms s; h = hw_parms s;
          needed = (sp_rate u \<noteq> sp_rate h \<or> sp_fmt u \<noteq> sp_fmt h \<or> sp_channels u \<noteq> sp_channels h \<or>
            ad_flags s AND ADEV_NONINTERLEAVED \<noteq> 0 \<and> 1 < sp_channels h \<or> always_cooked E)
      in upd_dmap D (\<lambda>d.
           let d = upd_cnv (\<lambda>c. c\<lparr>convert_func := None, convert_mode := 0, expand_factor := UNIT_EXPAND\<rparr>) (dm_clear DMAP_COOKED d)
           in if needed \<and> \<not> dm_mapped d then dm_set DMAP_COOKED d else d) s)"

definition setup_conversions :: "('g, 'h) audio_env \<Rightarrow> dir \<Rightarrow> ('g, 'h) engine \<Rightarrow> (unit, 'g, 'h) audio_result" where
  "setup_conversions E D s =
     (if \<not> dm_has DMAP_COOKED (dmap_of D s) then done_with () s
      else
        let u = user_parms s; h = hw_parms s
        in case setup_format_conversions (a_grc3 E) (a_tmpbuf E) (a_tmpbuf E) (a_srcstate E) (dm_cnv (dmap_of D s))
               (if D = Play then u else h) (if D = Play then h else u) of
             None \<Rightarrow> None
           | Some (r, c) \<Rightarrow>
               let s = upd_dmap D (\<lambda>d. d\<lparr>dm_cnv := c\<rparr>) s
               in case r of Inl e \<Rightarrow> fail e s
                  | Inr (src, tgt) \<Rightarrow>
                      done_with () (if D = Play then s\<lparr>user_parms := src, hw_parms := tgt\<rparr>
                                    else s\<lparr>user_parms := tgt, hw_parms := src\<rparr>))"

definition set_rates :: "dir \<Rightarrow> ('g, 'h) engine \<Rightarrow> ('g, 'h) engine option" where
  "set_rates D s =
     Option.bind (parm_frame (hw_parms s)) (\<lambda>f.
     Option.bind (chk (f * sp_rate (hw_parms s))) (\<lambda>r.
     Option.bind (parm_frame (user_parms s)) (\<lambda>u.
     Some (upd_dmap D (\<lambda>d. d\<lparr>frame_size := f, data_rate := (if r < 1 then 8000 else r), user_frame_size := u\<rparr>) s))))"

text \<open>The expansion factor of a prepared buffer: on the recording side it is inverted.\<close>

definition final_expand :: "dir \<Rightarrow> 'g dmap \<Rightarrow> 'g dmap" where
  "final_expand D = upd_cnv (\<lambda>c.
     let e = (if expand_factor c = 0 then UNIT_EXPAND else expand_factor c)
     in c\<lparr>expand_factor := (if D = Play then e else UNIT_EXPAND * UNIT_EXPAND sdiv e)\<rparr>)"

definition set_low_water :: "'g dmap \<Rightarrow> 'g dmap option" where
  "set_low_water d =
     (if low_water d = - 1 then
        map_option (\<lambda>w. d\<lparr>low_water := w\<rparr>) (mul_div (low_water_rq d) UNIT_EXPAND (expand_factor (dm_cnv d)))
      else Some d)"

definition prepare :: "('g, 'h) audio_env \<Rightarrow> dir \<Rightarrow> ('g, 'h) engine \<Rightarrow> (unit, 'g, 'h) audio_result" where
  "prepare E D s =
     (if dm_has DMAP_PREPARED (dmap_of D s) then done_with () s
      else
        audio_and (setup_conversions E D (mark_cooked E D s)) (\<lambda>_ s.
        Option.bind (set_rates D s) (\<lambda>s.
        Option.bind (setup_fragments E D s) (\<lambda>s.
        Option.bind (set_low_water (final_expand D (dmap_of D s))) (\<lambda>d.
          let s = upd_dmap D (\<lambda>_. d) s in
          case (if D = Play then a_prepare_for_output E else a_prepare_for_input E) (fragment_size d) (nfrags d) s of
            (Inl e, s) \<Rightarrow> fail e s
          | (Inr u, s) \<Rightarrow> done_with () (upd_dmap D (dm_set DMAP_PREPARED) s))))))"

definition prepare_output :: "('g, 'h) audio_env \<Rightarrow> ('g, 'h) engine \<Rightarrow> (unit, 'g, 'h) audio_result" where
  "prepare_output E = prepare E Play"

definition prepare_input :: "('g, 'h) audio_env \<Rightarrow> ('g, 'h) engine \<Rightarrow> (unit, 'g, 'h) audio_result" where
  "prepare_input E = prepare E Rec"

section \<open>Start\<close>

definition start_device ::
  "(int \<Rightarrow> int \<Rightarrow> int \<Rightarrow> int \<Rightarrow> ('g, 'h) engine \<Rightarrow> ('g, 'h) engine) option \<Rightarrow> dir \<Rightarrow> ('g, 'h) engine \<Rightarrow> ('g, 'h) engine" where
  "start_device m D s =
     (let d = dmap_of D s in
      case m of None \<Rightarrow> s
      | Some f \<Rightarrow> f (dm_phys d) (if ad_flags s AND ADEV_AUTOMODE \<noteq> 0 then bytes_in_use d else fragment_size d) (fragment_size d) 0 s)"

definition trigger_device :: "('g, 'h) audio_env \<Rightarrow> u32 \<Rightarrow> ('g, 'h) engine \<Rightarrow> ('g, 'h) engine" where
  "trigger_device E en s =
     (let bits = (if ad_go s then enable_bits s else 0) in
      case a_trigger E of None \<Rightarrow> s | Some f \<Rightarrow> if bits AND en \<noteq> 0 then f bits s else s)"

definition launch_output :: "('g, 'h) audio_env \<Rightarrow> ('g, 'h) engine \<Rightarrow> unit oss_result \<times> ('g, 'h) engine" where
  "launch_output E s =
     (let d = dmap_of Play s in
      if dm_has DMAP_STARTED d then (Inr (), s)
      else if user_counter d = 0 \<and> \<not> has_callback d \<and> mapping_flags d = 0 then (Inr (), s)
      else if \<not> dm_has DMAP_PREPARED d then (Inl OSS_EIO, s)
      else (Inr (), trigger_device E PCM_ENABLE_OUTPUT
             (upd_dmap Play (dm_set DMAP_STARTED) (start_device (a_output_block E) Play s))))"

definition launch_input :: "('g, 'h) audio_env \<Rightarrow> ('g, 'h) engine \<Rightarrow> unit oss_result \<times> ('g, 'h) engine" where
  "launch_input E s =
     (let d = dmap_of Rec s in
      if dm_has DMAP_STARTED d then (Inr (), s)
      else if \<not> dm_has DMAP_PREPARED d then (Inl OSS_EIO, s)
      else (Inr (), trigger_device E PCM_ENABLE_INPUT
             (upd_dmap Rec (dm_set DMAP_STARTED) (start_device (a_start_input E) Rec s))))"

section \<open>Reset\<close>

definition dir_mode :: "dir \<Rightarrow> u32" where
  "dir_mode D = (if D = Play then PCM_ENABLE_OUTPUT else PCM_ENABLE_INPUT)"

definition halt_method :: "('g, 'h) audio_env \<Rightarrow> dir \<Rightarrow> (('g, 'h) engine \<Rightarrow> ('g, 'h) engine) option" where
  "halt_method E D = (if D = Play then a_halt_output E else a_halt_input E)"

definition running :: "dir \<Rightarrow> ('g, 'h) engine \<Rightarrow> bool" where
  "running D s \<longleftrightarrow> dma_mode (dmap_of D s) = dir_mode D \<and> dm_has DMAP_STARTED (dmap_of D s)"

definition reset_dir :: "('g, 'h) audio_env \<Rightarrow> dir \<Rightarrow> ('g, 'h) engine \<Rightarrow> ('g, 'h) engine" where
  "reset_dir E D s =
     (if ad_open_mode s AND dir_mode D = 0 \<or> \<not> running D s then s
      else
        let s = upd_dmap D (dm_clear DMAP_PREPARED) s
        in upd_dmap D reset_dmap ((case halt_method E D of Some f \<Rightarrow> f | None \<Rightarrow> a_halt_io E) s))"

definition audio_reset_input :: "('g, 'h) audio_env \<Rightarrow> ('g, 'h) engine \<Rightarrow> ('g, 'h) engine" where
  "audio_reset_input E s = reset_dir E Rec s"

definition audio_reset_output :: "('g, 'h) audio_env \<Rightarrow> ('g, 'h) engine \<Rightarrow> ('g, 'h) engine" where
  "audio_reset_output E s = reset_dir E Play (bump_seed s)"

definition halt_if_running :: "(('g, 'h) engine \<Rightarrow> ('g, 'h) engine) \<Rightarrow> dir \<Rightarrow> ('g, 'h) engine \<Rightarrow> ('g, 'h) engine" where
  "halt_if_running f D s = (if running D s then upd_dmap D reset_dmap (f s) else s)"

definition audio_reset_adev :: "('g, 'h) audio_env \<Rightarrow> ('g, 'h) engine \<Rightarrow> ('g, 'h) engine option" where
  "audio_reset_adev E s =
     (let s = bump_seed s in
      if \<not> ad_enabled s then Some s
      else
        let s = s\<lparr>ad_go := True, enable_bits := ad_open_mode s\<rparr>;
            out = (ad_open_mode s AND PCM_ENABLE_OUTPUT \<noteq> 0);
            inp = (ad_open_mode s AND PCM_ENABLE_INPUT \<noteq> 0)
        in Option.bind
             (if out then
                let d = dm_clear DMAP_PREPARED (dmap_of Play s)
                in map_option (\<lambda>b. upd_dmap Play (\<lambda>_. d\<lparr>dm_dmabuf := Some b\<rparr>) s) (fill (dm_buffsize d) 0 (dm_dmabuf d))
              else Some s)
             (\<lambda>s. case (a_halt_input E, a_halt_output E) of
                (Some hi, Some ho) \<Rightarrow>
                  let s = (if inp then halt_if_running hi Rec (upd_dmap Rec (dm_clear DMAP_PREPARED) s) else s)
                  in Some (if out then halt_if_running ho Play s else s)
              | _ \<Rightarrow> Some (upd_dmap Rec reset_dmap (upd_dmap Play reset_dmap (a_halt_io E s)))))"

definition oss_audio_reset :: "('g, 'h) audio_env \<Rightarrow> int \<Rightarrow> ('g, 'h) engine \<Rightarrow> ('g, 'h) engine option" where
  "oss_audio_reset E dev s =
     (if dev < 0 \<or> num_audio_engines E \<le> dev then Some s
      else
        map_option (\<lambda>s.
          let s = (if ad_dmask s AND DMASK_OUT \<noteq> 0 then upd_dmap Play reset_dmap s else s)
          in if ad_dmask s AND DMASK_IN \<noteq> 0 then upd_dmap Rec reset_dmap s else s)
          (audio_reset_adev E s))"

section \<open>Posting and draining\<close>

text \<open>The bytes from the user's position on, as many as the free space and one more, are set to
  silence; the positions wrap around.\<close>

primrec clear_ring :: "nat \<Rightarrow> int \<Rightarrow> int \<Rightarrow> u8 \<Rightarrow> bytes option \<Rightarrow> bytes option" where
  "clear_ring 0 p len v b = b"
| "clear_ring (Suc n) p len v b =
     (case poke p [v] b of None \<Rightarrow> None
      | Some xs \<Rightarrow> if len = 0 then None else clear_ring n ((p + 1) smod len) len v (Some xs))"

definition clear_unused :: "'g dmap \<Rightarrow> 'g dmap option" where
  "clear_unused d =
     (let u = word_of_int (bytes_in_use d);
          limit = byte_counter d + u;
          limit = (if user_counter d + u < limit then user_counter d + u else limit);
          n = to_int (limit - user_counter d) + 1
      in Option.bind (modu (user_counter d) (bytes_in_use d)) (\<lambda>p.
           if n \<le> 0 then Some d
           else map_option (\<lambda>b. d\<lparr>dm_dmabuf := Some b\<rparr>)
                  (clear_ring (nat n) (to_int p) (bytes_in_use d) (dm_neutral d) (dm_dmabuf d))))"

definition oss_audio_post :: "('g, 'h) audio_env \<Rightarrow> ('g, 'h) engine \<Rightarrow> ('g, 'h) engine option" where
  "oss_audio_post E s =
     (let d = dmap_of Play s in
      if ad_open_mode s AND PCM_ENABLE_OUTPUT = 0 \<or> user_counter d = 0 \<or> dm_has DMAP_STARTED d then Some s
      else map_option (\<lambda>d. snd (launch_output E (upd_dmap Play (\<lambda>_. d) s))) (clear_unused d))"

text \<open>\<open>oss_audio_sync\<close> waits until the device has played what is in its buffer: at most \<open>nfrags\<close>
  rounds, and then as many as the queue inside of the device takes. The second loop reads the
  length of that queue again in every round; \<open>fuel\<close> bounds its rounds.\<close>

definition frag_timeout :: "('g, 'h) audio_env \<Rightarrow> int \<Rightarrow> 'g dmap \<Rightarrow> int option" where
  "frag_timeout E extra d = map_option (\<lambda>t. t + extra) (mul_div (fragment_size d) (oss_hz E) (data_rate d))"

primrec sync_loop :: "('g, 'h) audio_env \<Rightarrow> nat \<Rightarrow> u64 \<Rightarrow> ('g, 'h) engine \<Rightarrow> (bool \<times> ('g, 'h) engine) option" where
  "sync_loop E 0 uc s = Some (True, s)"
| "sync_loop E (Suc n) uc s =
     (let d = dmap_of Play s in
      if play_underruns d \<noteq> 0 \<or> uc \<le> byte_counter d then Some (True, s)
      else
        Option.bind (clear_unused d) (\<lambda>d.
          let s = upd_dmap Play (\<lambda>_. d) s in
          Option.bind (frag_timeout E (oss_hz E sdiv 10) d) (\<lambda>t.
            case a_sleep E Play t s of ((ok, sig), s) \<Rightarrow>
              if ok then sync_loop E n uc s else Some (False, s\<lparr>timeout_count := timeout_count s + 1\<rparr>))))"

primrec drain_device :: "('g, 'h) audio_env \<Rightarrow> nat \<Rightarrow> int \<Rightarrow> ('g, 'h) engine \<Rightarrow> ('g, 'h) engine option" where
  "drain_device E 0 n s = None"
| "drain_device E (Suc fuel) n s =
     (case a_local_qlen E of None \<Rightarrow> Some s
      | Some q \<Rightarrow>
          let d = dmap_of Play s in
          if fragment_size d = 0 then None
          else if q s sdiv fragment_size d < n then Some s
          else Option.bind (frag_timeout E (oss_hz E sdiv 10) d) (\<lambda>t.
                 drain_device E fuel (n + 1) (snd (a_sleep E Play t s))))"

definition oss_audio_sync :: "('g, 'h) audio_env \<Rightarrow> nat \<Rightarrow> ('g, 'h) engine \<Rightarrow> ('g, 'h) engine option" where
  "oss_audio_sync E fuel s =
     (let d = dmap_of Play s in
      if dma_mode d \<noteq> PCM_ENABLE_OUTPUT \<or> dm_mapped d then Some s
      else
        Option.bind (if dm_has DMAP_STARTED d then Some s else oss_audio_post E s) (\<lambda>s.
          if \<not> dm_has DMAP_STARTED (dmap_of Play s) \<or> \<not> ad_go s \<or> enable_bits s AND PCM_ENABLE_OUTPUT = 0 then Some s
          else
            let s = upd_dmap Play (dm_set DMAP_POST) s;
                d = dmap_of Play s;
                s = upd_dmap Play (\<lambda>d. d\<lparr>play_underruns := 0\<rparr>) s
            in Option.bind (sync_loop E (nat (nfrags d)) (user_counter d) s) (\<lambda>(ok, s).
                 if \<not> ok then Some s
                 else map_option (upd_dmap Play (\<lambda>d'. d'\<lparr>play_underruns := play_underruns d\<rparr>))
                        (drain_device E fuel 0 s))))"

end
