(* ===== verification/Audio_Write.thy ===== *)
theory Audio_Write
  imports Audio_Engine
begin

text \<open>
  Playback in \<open>oss_audio_core.c\<close>: the free space of the device's buffer, waiting for it, copying
  to it, and \<open>oss_audio_write\<close> with and without a format conversion. The data that the application
  writes is the list of bytes it has not handed over yet; taking more than there is
  is the failure of \<open>uiomove\<close>. The contents of the temporary buffers are not kept between calls:
  every use writes them first.
\<close>

section \<open>Space in the buffer\<close>

text \<open>An underrun, more free space than the buffer has, moves the user's position to the
  device's position; the buffer is silenced once per episode.\<close>

definition note_underrun :: "int \<Rightarrow> 'g dmap \<Rightarrow> 'g dmap option" where
  "note_underrun n d =
     (let d = d\<lparr>play_underruns := play_underruns d + 1\<rparr>
      in if underrun_flag d then Some d
         else map_option (\<lambda>b. d\<lparr>dm_dmabuf := Some b, underrun_flag := True\<rparr>) (fill n (dm_neutral d) (dm_dmabuf d)))"

definition free_space :: "'g dmap \<Rightarrow> int" where
  "free_space d = to_int (byte_counter d + word_of_int (bytes_in_use d) - user_counter d)"

definition audio_space_in_queue :: "('g, 'h) engine \<Rightarrow> (int \<times> ('g, 'h) engine) option" where
  "audio_space_in_queue s =
     (let d = dmap_of Play s; cnt = free_space d in
      if \<not> dm_mapped d \<and> bytes_in_use d < cnt then
        map_option (\<lambda>d. (bytes_in_use d, upd_dmap Play (\<lambda>_. d) s))
          (note_underrun (bytes_in_use d) (d\<lparr>user_counter := byte_counter d\<rparr>))
      else Some (cnt, s))"

text \<open>Waiting for space: \<open>k\<close> rounds are left of the 10001 of the code, \<open>n\<close> counts those that slept.\<close>

definition no_space :: "('g, 'h) audio_env \<Rightarrow> ('g, 'h) engine \<Rightarrow> (int, 'g, 'h) audio_result" where
  "no_space E s =
     (if enable_bits s AND PCM_ENABLE_OUTPUT \<noteq> 0 then fail OSS_EAGAIN s
      else Option.bind (oss_audio_set_error Play 1021 0 (snd (launch_output E s))) (fail OSS_EAGAIN))"

definition wait_output ::
  "('g, 'h) audio_env \<Rightarrow> int \<Rightarrow> ('g, 'h) engine \<Rightarrow> (int, 'g, 'h) audio_result" where
  "wait_output E len s =
     (let d = dmap_of Play s in
      Option.bind (frag_timeout E (oss_hz E) d) (\<lambda>t.
        if \<not> ad_go s then fail OSS_EAGAIN s
        else case a_sleep E Play t s of
          ((False, sig), s) \<Rightarrow>
            let s = s\<lparr>timeout_count := timeout_count s + 1\<rparr>
            in (case a_check_output E of None \<Rightarrow> fail OSS_EIO s
                | Some f \<Rightarrow> (case f s of (Inl e, s) \<Rightarrow> fail e s | (Inr u, s) \<Rightarrow> done_with len s))
        | ((True, sig), s) \<Rightarrow>
            if sig then fail OSS_EINTR s
            else map_option (\<lambda>(len, s). (Inr len, s)) (audio_space_in_queue s)))"

primrec space_loop ::
  "('g, 'h) audio_env \<Rightarrow> nat \<Rightarrow> int \<Rightarrow> int \<Rightarrow> ('g, 'h) engine \<Rightarrow> (int, 'g, 'h) audio_result" where
  "space_loop E 0 n len s = (if len < user_frame_size (dmap_of Play s) then fail OSS_EIO s else done_with len s)"
| "space_loop E (Suc k) n len s =
     (if \<not> len < user_frame_size (dmap_of Play s) then done_with len s
      else if ad_nonblock s \<or> enable_bits s AND PCM_ENABLE_OUTPUT = 0 then no_space E s
      else if nfrags (dmap_of Play s) * 2 < n then fail OSS_EIO (audio_reset_output E s)
      else audio_and (wait_output E len s) (\<lambda>len s. space_loop E k (n + 1) len s))"

text \<open>The result is the offset in the buffer and the number of free bytes from there on.\<close>

definition find_output_space :: "('g, 'h) audio_env \<Rightarrow> ('g, 'h) engine \<Rightarrow> (int \<times> int, 'g, 'h) audio_result" where
  "find_output_space E s =
     Option.bind (audio_space_in_queue s) (\<lambda>(len, s).
     audio_and (space_loop E 10001 0 len s) (\<lambda>len s.
       let d = dmap_of Play s in
       Option.bind (modu (user_counter d) (bytes_in_use d)) (\<lambda>p.
         let offs = to_int p;
             l2 = bytes_in_use d - offs;
             len = (if l2 < len then l2 else len);
             len = (if len < 0 then 0 else len)
         in if offs < 0 \<or> bytes_in_use d < offs + len then fail OSS_EIO s else done_with (offs, len) s)))"

section \<open>Copying to the buffer\<close>

definition move_wrpointer :: "('g, 'h) audio_env \<Rightarrow> int \<Rightarrow> ('g, 'h) engine \<Rightarrow> (unit, 'g, 'h) audio_result" where
  "move_wrpointer E len s =
     (let s = upd_dmap Play (\<lambda>d. d\<lparr>underrun_flag := False, user_counter := user_counter d + word_of_int len\<rparr>) s;
          d = dmap_of Play s
      in if dm_has DMAP_STARTED d \<or> enable_bits s AND PCM_ENABLE_OUTPUT = 0 then done_with () s
         else if user_counter d < word_of_int (fragment_size d * 2)
                 \<and> user_counter d < word_of_int (bytes_in_use d sdiv 2) then done_with () s
         else Some (launch_output E s))"

text \<open>The buffer of a non-interleaved device has a part per channel; samples are 32 bits wide.\<close>

definition scatter_sample :: "int \<Rightarrow> nat \<Rightarrow> int \<Rightarrow> bytes \<Rightarrow> nat \<Rightarrow> nat \<Rightarrow> bytes option \<Rightarrow> bytes option" where
  "scatter_sample sz nc offs buf ch i b =
     Option.bind (peek (int (4 * (ch + i * nc))) 4 (Some buf)) (\<lambda>x.
       poke (sz * int ch sdiv int nc + 4 * (offs sdiv 4 sdiv int nc + int i)) x b)"

fun scatter :: "int \<Rightarrow> nat \<Rightarrow> int \<Rightarrow> bytes \<Rightarrow> (nat \<times> nat) list \<Rightarrow> bytes option \<Rightarrow> bytes option" where
  "scatter sz nc offs buf [] b = b"
| "scatter sz nc offs buf ((ch, i) # is) b =
     (case scatter_sample sz nc offs buf ch i b of None \<Rightarrow> None
      | Some xs \<Rightarrow> scatter sz nc offs buf is (Some xs))"

definition copy_write_noninterleaved :: "nat \<Rightarrow> int \<Rightarrow> int \<Rightarrow> bytes \<Rightarrow> bytes option \<Rightarrow> bytes option" where
  "copy_write_noninterleaved nc sz offs buf b =
     scatter sz nc offs buf (List.product [0..<nc] [0..<length buf div (4 * nc)]) b"

definition noninterleaved :: "('g, 'h) engine \<Rightarrow> bool" where
  "noninterleaved s \<longleftrightarrow> ad_flags s AND ADEV_NONINTERLEAVED \<noteq> 0 \<and> 1 < sp_channels (hw_parms s)"

definition put_bytes :: "int \<Rightarrow> bytes \<Rightarrow> ('g, 'h) engine \<Rightarrow> ('g, 'h) engine option" where
  "put_bytes offs bs s =
     (let d = dmap_of Play s in
      map_option (\<lambda>b. upd_dmap Play (\<lambda>d. d\<lparr>dm_dmabuf := Some b\<rparr>) s)
        (if noninterleaved s then copy_write_noninterleaved (sp_channels (hw_parms s)) (dm_buffsize d) offs bs (dm_dmabuf d)
         else poke offs bs (dm_dmabuf d)))"

definition store_tmp_data :: "bytes \<Rightarrow> ('g, 'h) engine \<Rightarrow> ('g, 'h) engine" where
  "store_tmp_data bs = upd_dmap Play (\<lambda>d. d\<lparr>dm_leftover := bs\<rparr>)"

text \<open>A round of \<open>write_copy\<close> gives the number of bytes copied. A round that copies nothing
  would be repeated for ever.\<close>

definition copy_step :: "('g, 'h) audio_env \<Rightarrow> bytes \<Rightarrow> ('g, 'h) engine \<Rightarrow> (nat, 'g, 'h) audio_result" where
  "copy_step E buf s =
     (case find_output_space E s of None \<Rightarrow> None
      | Some (Inl e, s) \<Rightarrow>
          if e = OSS_EAGAIN then fail OSS_EAGAIN (snd (launch_output E (store_tmp_data buf s))) else fail e s
      | Some (Inr (offs, spc), s) \<Rightarrow>
          let l = min (int (length buf)) spc
          in if l \<le> 0 then None
             else Option.bind (put_bytes offs (take (nat l) buf) s) (\<lambda>s.
                    audio_and (move_wrpointer E l s) (\<lambda>_ s. done_with (nat l) s)))"

function write_copy :: "('g, 'h) audio_env \<Rightarrow> bytes \<Rightarrow> ('g, 'h) engine \<Rightarrow> (unit, 'g, 'h) audio_result" where
  "write_copy E buf s =
     (if buf = [] then done_with () s
      else case copy_step E buf s of None \<Rightarrow> None
        | Some (Inl e, s) \<Rightarrow> fail e s
        | Some (Inr l, s) \<Rightarrow> if l = 0 then None else write_copy E (drop l buf) s)"
  by pat_completeness auto
termination by (relation "measure (\<lambda>(E, buf, s). length buf)") auto

declare write_copy.simps [simp del]

section \<open>Writing\<close>

text \<open>A round of \<open>oss_audio_write\<close> with \<open>c\<close> bytes left of \<open>count\<close>, \<open>uio\<close> being those that were not
  taken yet: either the call returns, or \<open>l\<close> bytes are done.\<close>

datatype 'a round = Return "int oss_result" | Step int 'a

definition give_up :: "oss_error \<Rightarrow> int \<Rightarrow> int \<Rightarrow> int oss_result" where
  "give_up e count c =
     (if (e = OSS_EINTR \<or> e = OSS_EAGAIN) \<and> c \<noteq> count then Inr (count - c) else Inl e)"

definition uiomove :: "int \<Rightarrow> bytes \<Rightarrow> (bytes \<times> bytes) option" where
  "uiomove l uio = (if l < 0 \<or> int (length uio) < l then None else Some (take (nat l) uio, drop (nat l) uio))"

definition finish ::
  "int \<Rightarrow> 'a \<Rightarrow> (unit, 'g, 'h) audio_result \<Rightarrow> ('a round \<times> ('g, 'h) engine) option" where
  "finish l uio r = map_option (\<lambda>(r, s). (case r of Inl e \<Rightarrow> Return (Inl e) | Inr u \<Rightarrow> Step l uio, s)) r"

definition write_raw ::
  "('g, 'h) audio_env \<Rightarrow> int \<Rightarrow> int \<Rightarrow> int \<Rightarrow> bytes \<Rightarrow> ('g, 'h) engine \<Rightarrow> (bytes round \<times> ('g, 'h) engine) option" where
  "write_raw E offs spc l uio s =
     (let l = (if spc < l then spc else l) in
      if l < 0 then None
      else case uiomove l uio of None \<Rightarrow> Some (Return (Inl OSS_EFAULT), s)
      | Some (bs, uio) \<Rightarrow>
          Option.bind (poke offs bs (dm_dmabuf (dmap_of Play s))) (\<lambda>b.
            finish l uio (move_wrpointer E l (upd_dmap Play (\<lambda>d. d\<lparr>dm_dmabuf := Some b\<rparr>) s))))"

definition need_tmpbuf :: "('g, 'h) audio_env \<Rightarrow> ('g, 'h) engine \<Rightarrow> ('g, 'h) engine" where
  "need_tmpbuf E s =
     upd_dmap Play (upd_cnv (\<lambda>c. if tmpbuf1 c = None then c\<lparr>tmpbuf1 := a_tmpbuf E\<rparr> else c)) s"

definition write_device ::
  "('g, 'h) audio_env \<Rightarrow> int \<Rightarrow> int \<Rightarrow> int \<Rightarrow> bytes \<Rightarrow> ('g, 'h) engine \<Rightarrow> (bytes round \<times> ('g, 'h) engine) option" where
  "write_device E offs spc l uio s =
     (let s = need_tmpbuf E s;
          l = (if spc sdiv 2 < l then spc sdiv 2 else l);
          l = (if int TMP_CONVERT_BUF_SIZE div 2 < l then int TMP_CONVERT_BUF_SIZE div 2 else l)
      in if l < 0 then None
         else case uiomove l uio of None \<Rightarrow> Some (Return (Inl OSS_EFAULT), s)
         | Some (bs, uio) \<Rightarrow>
             if poke 0 bs (tmpbuf1 (dm_cnv (dmap_of Play s))) = None then None
             else case a_device_write E bs offs spc l s of
               (Inl e, s) \<Rightarrow> Some (Return (Inl e), s)
             | (Inr (l, l2), s) \<Rightarrow> finish l uio (move_wrpointer E l2 s))"

text \<open>With a conversion: a failure to take the data is only reported to the log; data that
  does not fit into the device's buffer is kept for the next call.\<close>

definition converted ::
  "('g, 'h) audio_env \<Rightarrow> int \<Rightarrow> bytes \<Rightarrow> bytes \<Rightarrow> ('g, 'h) engine \<Rightarrow> (bytes, 'g, 'h) audio_result" where
  "converted E l b1 b2 s =
     (case run_converter (a_grc3 E) (dm_cnv (dmap_of Play s)) \<lparr>p1 = b1, p2 = b2, cnt = nat l\<rparr> (user_parms s) (hw_parms s) of
        None \<Rightarrow> None
      | Some (r, c) \<Rightarrow>
          let s = upd_dmap Play (\<lambda>d. d\<lparr>dm_cnv := c\<rparr>) s
          in case r of Inl e \<Rightarrow> fail e s
             | Inr b \<Rightarrow> map_option (\<lambda>bs. (Inr bs, s)) (peek 0 (int (cnt b)) (Some (p1 b))))"

definition write_converted ::
  "('g, 'h) audio_env \<Rightarrow> int \<Rightarrow> int \<Rightarrow> int \<Rightarrow> int \<Rightarrow> bytes \<Rightarrow> ('g, 'h) engine \<Rightarrow> (bytes round \<times> ('g, 'h) engine) option" where
  "write_converted E count c spc l uio s =
     (let d = dmap_of Play s;
          l = write_chunk c l spc (expand_factor (dm_cnv d)) (frame_size d)
      in if frame_size d = 0 \<or> l < 0 then None
         else
           let (bs, uio) = (case uiomove l uio of None \<Rightarrow> ([], uio) | Some x \<Rightarrow> x)
           in case (poke 0 bs (tmpbuf1 (dm_cnv d)), tmpbuf2 (dm_cnv d)) of
                (Some b1, Some b2) \<Rightarrow>
                  (case audio_and (converted E l b1 b2 s) (write_copy E) of
                     None \<Rightarrow> None
                   | Some (Inl e, s) \<Rightarrow> Some (Return (if e = OSS_EAGAIN then give_up e count c else Inl e), s)
                   | Some (Inr u, s) \<Rightarrow> Some (Step l uio, s))
              | _ \<Rightarrow> None)"

definition write_round ::
  "('g, 'h) audio_env \<Rightarrow> int \<Rightarrow> int \<Rightarrow> bytes \<Rightarrow> ('g, 'h) engine \<Rightarrow> (bytes round \<times> ('g, 'h) engine) option" where
  "write_round E count c uio s =
     (let l = (if 8 < c then c AND NOT 7 else c) in
      case find_output_space E s of None \<Rightarrow> None
      | Some (Inl e, s) \<Rightarrow> Some (Return (give_up e count c), s)
      | Some (Inr (offs, spc), s) \<Rightarrow>
          let d = dmap_of Play s in
          if convert_func (dm_cnv d) \<noteq> None then write_converted E count c spc l uio s
          else if has_device_write d then write_device E offs spc l uio s
          else write_raw E offs spc l uio s)"

text \<open>A round that took nothing counts against 1001 rounds; one that took something resets the count.\<close>

function write_rounds ::
  "('g, 'h) audio_env \<Rightarrow> int \<Rightarrow> int \<Rightarrow> nat \<Rightarrow> bytes \<Rightarrow> ('g, 'h) engine \<Rightarrow> (int, 'g, 'h) audio_result" where
  "write_rounds E count c tmout uio s =
     (if c \<le> 0 then done_with (count - c) s
      else if 1000 < tmout then fail OSS_EIO s
      else case write_round E count c uio s of
        None \<Rightarrow> None
      | Some (Return r, s) \<Rightarrow> Some (r, s)
      | Some (Step l uio, s) \<Rightarrow>
          if l < 0 then None
          else write_rounds E count (c - l) (if 0 < l then 0 else tmout + 1) uio s)"
  by pat_completeness auto
termination
  by (relation "measures [\<lambda>(E, count, c, tmout, uio, s). nat c, \<lambda>(E, count, c, tmout, uio, s). 1001 - tmout]") auto

declare write_rounds.simps [simp del]

text \<open>The start of a call: the other direction of a half duplex engine is reset, the blocking mode
  of the file is taken over, the device is prepared, and data kept by an earlier call goes first.
  \<open>nb\<close> says whether the file is open in the non-blocking mode, and is \<open>None\<close> without a file.\<close>

definition set_nonblock :: "bool option \<Rightarrow> ('g, 'h) engine \<Rightarrow> ('g, 'h) engine" where
  "set_nonblock nb s =
     (case nb of None \<Rightarrow> s
      | Some b \<Rightarrow> s\<lparr>ad_nonblock := (b \<and> ad_open_flags s AND OF_BLOCK = 0 \<or> forced_nonblock s)\<rparr>)"

definition flush_leftover :: "('g, 'h) audio_env \<Rightarrow> ('g, 'h) engine \<Rightarrow> (unit, 'g, 'h) audio_result" where
  "flush_leftover E s =
     (let l = dm_leftover (dmap_of Play s) in
      if l = [] then done_with () s
      else audio_and (write_copy E l (store_tmp_data [] s)) (\<lambda>_ s. done_with () (store_tmp_data [] s)))"

definition start_write :: "('g, 'h) audio_env \<Rightarrow> bool option \<Rightarrow> ('g, 'h) engine \<Rightarrow> (unit, 'g, 'h) audio_result" where
  "start_write E nb s =
     (let s = (if dma_mode (dmap_of Play s) = PCM_ENABLE_INPUT
               then upd_dmap Play reset_dmap (audio_reset_input E s) else s);
          s = set_nonblock nb s
      in audio_and
           (if dma_mode (dmap_of Play s) \<noteq> PCM_ENABLE_OUTPUT
            then audio_and (prepare_output E s) (\<lambda>_ s. done_with () (upd_dmap Play (\<lambda>d. d\<lparr>dma_mode := PCM_ENABLE_OUTPUT\<rparr>) s))
            else done_with () s)
           (\<lambda>_ s. if \<not> dm_has DMAP_PREPARED (dmap_of Play s) then fail OSS_EIO s else flush_leftover E s))"

definition oss_audio_write ::
  "('g, 'h) audio_env \<Rightarrow> int \<Rightarrow> bool option \<Rightarrow> bytes \<Rightarrow> int \<Rightarrow> ('g, 'h) engine \<Rightarrow> (int, 'g, 'h) audio_result" where
  "oss_audio_write E dev nb uio count s =
     (let s = bump_seed s in
      if bad_engine E dev s then fail OSS_ENXIO s
      else if ad_flags s AND ADEV_NOOUTPUT \<noteq> 0 then fail OSS_EACCES s
      else if ad_open_mode s AND PCM_ENABLE_OUTPUT = 0 then fail OSS_ENOTSUP s
      else audio_and (start_write E nb s) (\<lambda>_ s. write_rounds E count count 0 uio s))"

end
