(* ===== verification/Audio_Read.thy ===== *)
theory Audio_Read
  imports Audio_Write
begin

text \<open>
  Recording in \<open>oss_audio_core.c\<close>: the position of the device, waiting for data, the copy from the
  device's buffer with or without a conversion, and \<open>oss_audio_read\<close>. The result of a read that
  succeeds or stops early is the number of bytes together with those bytes.
\<close>

section \<open>Positions of the device\<close>

definition get_output_pointer :: "('g, 'h) audio_env \<Rightarrow> ('g, 'h) engine \<Rightarrow> u64" where
  "get_output_pointer E s =
     (let d = dmap_of Play s in
      case a_get_output_pointer E of
        None \<Rightarrow> word_of_int (fragment_counter d * fragment_size d)
      | Some f \<Rightarrow> word_of_int (f s AND NOT 7))"

text \<open>With \<open>adjust\<close> the byte counter is set to the device's position.\<close>

definition get_input_pointer :: "('g, 'h) audio_env \<Rightarrow> bool \<Rightarrow> ('g, 'h) engine \<Rightarrow> (u64 \<times> ('g, 'h) engine) option" where
  "get_input_pointer E adjust s =
     (let d = dmap_of Rec s in
      case a_get_input_pointer E of
        None \<Rightarrow> Some (word_of_int (fragment_counter d * fragment_size d), s)
      | Some f \<Rightarrow>
          let ptr = word_of_int (f s AND NOT 7);
              ptr = (if ptr < byte_counter d then ptr + word_of_int (bytes_in_use d) else ptr)
          in Option.bind (modu ptr (bytes_in_use d)) (\<lambda>ptr.
             Option.bind (divu (byte_counter d) (bytes_in_use d)) (\<lambda>q.
               Some (ptr, if adjust then upd_dmap Rec (\<lambda>d. d\<lparr>byte_counter := q * word_of_int (bytes_in_use d) + ptr\<rparr>) s else s))))"

section \<open>Waiting for data\<close>

definition adjust_input :: "('g, 'h) audio_env \<Rightarrow> ('g, 'h) engine \<Rightarrow> ('g, 'h) engine option" where
  "adjust_input E s = (if ad_nonblock s then map_option snd (get_input_pointer E True s) else Some s)"

definition input_count :: "('g, 'h) engine \<Rightarrow> int" where
  "input_count s = (let d = dmap_of Rec s in to_int (byte_counter d - user_counter d))"

definition wait_input :: "('g, 'h) audio_env \<Rightarrow> int \<Rightarrow> ('g, 'h) engine \<Rightarrow> (int, 'g, 'h) audio_result" where
  "wait_input E count s =
     Option.bind (frag_timeout E (oss_hz E sdiv 2) (dmap_of Rec s)) (\<lambda>t.
       case a_sleep E Rec (if ad_go s then t else 0) s of
         ((False, sig), s) \<Rightarrow>
           let s = s\<lparr>timeout_count := timeout_count s + 1\<rparr>
           in (case a_check_input E of None \<Rightarrow> fail OSS_EIO s
               | Some f \<Rightarrow> (case f s of (Inl e, s) \<Rightarrow> fail e s | (Inr u, s) \<Rightarrow> done_with count s))
       | ((True, sig), s) \<Rightarrow> if sig then fail OSS_EINTR s else done_with (input_count s) s)"

text \<open>At most 101 rounds.\<close>

primrec data_loop :: "('g, 'h) audio_env \<Rightarrow> nat \<Rightarrow> int \<Rightarrow> int \<Rightarrow> ('g, 'h) engine \<Rightarrow> (unit, 'g, 'h) audio_result" where
  "data_loop E 0 lim count s =
     (if count < lim then fail (if ad_nonblock s then OSS_EAGAIN else OSS_EIO) s else done_with () s)"
| "data_loop E (Suc k) lim count s =
     (if \<not> count < lim then done_with () s
      else if ad_nonblock s then fail OSS_EAGAIN s
      else audio_and (wait_input E count s) (\<lambda>count s. data_loop E k lim count s))"

text \<open>The part of the ring that can be read at once: its offset and its length, which is clipped to
  the size of the buffer that was allocated.\<close>

definition input_part :: "'g dmap \<Rightarrow> (int \<times> int) option" where
  "input_part d =
     Option.bind (modu (user_counter d) (bytes_in_use d)) (\<lambda>offs.
     Option.bind (modu (byte_counter d) (bytes_in_use d)) (\<lambda>doffs.
       let count = (if offs \<le> doffs then to_int (doffs - offs) else to_int (word_of_int (bytes_in_use d) - offs));
           count = (if count = 0 then bytes_in_use d else count);
           offs = uint offs
       in if 0 < dm_buffsize d then
            let offs = (if dm_buffsize d \<le> offs then offs mod dm_buffsize d else offs)
            in Some (offs, if dm_buffsize d < offs + count then dm_buffsize d - offs else count)
          else Some (offs, count)))"

definition find_raw_input_space :: "('g, 'h) audio_env \<Rightarrow> ('g, 'h) engine \<Rightarrow> (int \<times> int, 'g, 'h) audio_result" where
  "find_raw_input_space E s =
     Option.bind (adjust_input E s) (\<lambda>s.
       let d = dmap_of Rec s in
       audio_and (data_loop E 101 (if dm_has DMAP_COOKED d then fragment_size d else 1) (input_count s) s) (\<lambda>_ s.
       Option.bind (adjust_input E s) (\<lambda>s.
       map_option (\<lambda>p. (Inr p, s)) (input_part (dmap_of Rec s)))))"

section \<open>Taking data\<close>

definition move_raw_rdpointer :: "int \<Rightarrow> ('g, 'h) engine \<Rightarrow> ('g, 'h) engine" where
  "move_raw_rdpointer len = upd_dmap Rec (\<lambda>d. d\<lparr>user_counter := user_counter d + word_of_int len\<rparr>)"

definition gather_sample :: "int \<Rightarrow> nat \<Rightarrow> int \<Rightarrow> bytes option \<Rightarrow> nat \<Rightarrow> nat \<Rightarrow> bytes option \<Rightarrow> bytes option" where
  "gather_sample sz nc offs dev ch i buf =
     Option.bind (peek (sz * int ch sdiv int nc + 4 * (offs sdiv 4 sdiv int nc + int i)) 4 dev) (\<lambda>x.
       poke (int (4 * (ch + i * nc))) x buf)"

fun gather :: "int \<Rightarrow> nat \<Rightarrow> int \<Rightarrow> bytes option \<Rightarrow> (nat \<times> nat) list \<Rightarrow> bytes option \<Rightarrow> bytes option" where
  "gather sz nc offs dev [] buf = buf"
| "gather sz nc offs dev ((ch, i) # is) buf =
     (case gather_sample sz nc offs dev ch i buf of None \<Rightarrow> None
      | Some xs \<Rightarrow> gather sz nc offs dev is (Some xs))"

definition copy_read_noninterleaved :: "nat \<Rightarrow> int \<Rightarrow> int \<Rightarrow> int \<Rightarrow> bytes option \<Rightarrow> bytes option \<Rightarrow> bytes option" where
  "copy_read_noninterleaved nc sz offs l dev buf =
     gather sz nc offs dev (List.product [0..<nc] [0..<nat l div (4 * nc)]) buf"

text \<open>The data copied to the first temporary buffer.\<close>

definition load_input :: "int \<Rightarrow> int \<Rightarrow> ('g, 'h) engine \<Rightarrow> bytes option" where
  "load_input dmapos l s =
     (let d = dmap_of Rec s; t1 = tmpbuf1 (dm_cnv d) in
      if noninterleaved s then copy_read_noninterleaved (sp_channels (hw_parms s)) (dm_buffsize d) dmapos l (dm_dmabuf d) t1
      else Option.bind (peek dmapos l (dm_dmabuf d)) (\<lambda>bs. poke 0 bs t1))"

definition convert_input ::
  "('g, 'h) audio_env \<Rightarrow> int \<Rightarrow> bytes \<Rightarrow> bytes \<Rightarrow> ('g, 'h) engine \<Rightarrow> (int, 'g, 'h) audio_result" where
  "convert_input E l b1 b2 s =
     (case run_converter (a_grc3 E) (dm_cnv (dmap_of Rec s)) \<lparr>p1 = b1, p2 = b2, cnt = nat l\<rparr> (hw_parms s) (user_parms s) of
        None \<Rightarrow> None
      | Some (Inl e, c) \<Rightarrow> fail e (upd_dmap Rec (\<lambda>d. d\<lparr>dm_cnv := c\<lparr>tmpbuf1 := Some b1\<rparr>\<rparr>) s)
      | Some (Inr b, c) \<Rightarrow>
          done_with (int (cnt b)) (upd_dmap Rec (\<lambda>d. d\<lparr>dm_cnv :=
            c\<lparr>tmpbuf1 := Some (p1 b), tmpbuf2 := Some (p2 b), tmpbuf_len := int (cnt b)\<rparr>\<rparr>) s))"

datatype source = From_Device int | From_Tmpbuf int

definition find_converted :: "('g, 'h) audio_env \<Rightarrow> ('g, 'h) engine \<Rightarrow> (source \<times> int, 'g, 'h) audio_result" where
  "find_converted E s =
     (let c = dm_cnv (dmap_of Rec s) in
      if tmpbuf_ptr c < tmpbuf_len c then done_with (From_Tmpbuf (tmpbuf_ptr c), tmpbuf_len c - tmpbuf_ptr c) s
      else
        audio_and (find_raw_input_space E (upd_dmap Rec (upd_cnv (\<lambda>c. c\<lparr>tmpbuf_len := 0, tmpbuf_ptr := 0\<rparr>)) s)) (\<lambda>(dmapos, l) s.
          let d = dmap_of Rec s;
              lim = convert_limit (expand_factor (dm_cnv d));
              l = (if lim < l then lim else l)
          in if frame_size d = 0 then None
             else
               let l = l sdiv frame_size d * frame_size d in
               if l < 0 then None
               else case (load_input dmapos l s, tmpbuf2 (dm_cnv d)) of
                 (Some b1, Some b2) \<Rightarrow>
                   audio_and (convert_input E l b1 b2 (move_raw_rdpointer l s)) (\<lambda>n s. done_with (From_Tmpbuf 0, n) s)
               | _ \<Rightarrow> None))"

definition find_input_space :: "('g, 'h) audio_env \<Rightarrow> ('g, 'h) engine \<Rightarrow> (source \<times> int, 'g, 'h) audio_result" where
  "find_input_space E s =
     (if dm_has DMAP_COOKED (dmap_of Rec s) then find_converted E s
      else audio_and (find_raw_input_space E s) (\<lambda>(p, l) s. done_with (From_Device p, l) s))"

definition move_rdpointer :: "int \<Rightarrow> ('g, 'h) engine \<Rightarrow> ('g, 'h) engine" where
  "move_rdpointer len s =
     (let d = dmap_of Rec s; c = dm_cnv d in
      if \<not> dm_has DMAP_COOKED d \<or> tmpbuf_len c \<le> tmpbuf_ptr c
      then move_raw_rdpointer len (upd_dmap Rec (upd_cnv (\<lambda>c. c\<lparr>tmpbuf_ptr := 0, tmpbuf_len := 0\<rparr>)) s)
      else if tmpbuf_len c \<le> tmpbuf_ptr c + len then upd_dmap Rec (upd_cnv (\<lambda>c. c\<lparr>tmpbuf_len := 0, tmpbuf_ptr := 0\<rparr>)) s
      else upd_dmap Rec (upd_cnv (\<lambda>c. c\<lparr>tmpbuf_ptr := tmpbuf_ptr c + len\<rparr>)) s)"

definition source_bytes :: "source \<Rightarrow> int \<Rightarrow> 'g dmap \<Rightarrow> bytes option" where
  "source_bytes src l d =
     (case src of From_Device p \<Rightarrow> peek p l (dm_dmabuf d) | From_Tmpbuf p \<Rightarrow> peek p l (tmpbuf1 (dm_cnv d)))"

text \<open>A round of \<open>oss_audio_read\<close> gives the bytes it copied to the application.\<close>

definition read_round :: "('g, 'h) audio_env \<Rightarrow> int \<Rightarrow> ('g, 'h) engine \<Rightarrow> (bytes, 'g, 'h) audio_result" where
  "read_round E c s =
     audio_and (find_input_space E s) (\<lambda>(src, l) s.
       let l = (if c < l then c else l)
       in map_option (\<lambda>bs. (Inr bs, move_rdpointer l s)) (source_bytes src l (dmap_of Rec s)))"

primrec read_rounds ::
  "('g, 'h) audio_env \<Rightarrow> nat \<Rightarrow> int \<Rightarrow> int \<Rightarrow> bytes \<Rightarrow> ('g, 'h) engine \<Rightarrow> (int \<times> bytes, 'g, 'h) audio_result" where
  "read_rounds E 0 count c out s = done_with (count - c, out) s"
| "read_rounds E (Suc n) count c out s =
     (if c \<le> 0 then done_with (count - c, out) s
      else case read_round E c s of
        None \<Rightarrow> None
      | Some (Inl e, s) \<Rightarrow> Some (map_sum id (\<lambda>r. (r, out)) (give_up e count c), s)
      | Some (Inr bs, s) \<Rightarrow> read_rounds E n count (c - int (length bs)) (out @ bs) s)"

definition start_read :: "('g, 'h) audio_env \<Rightarrow> bool option \<Rightarrow> ('g, 'h) engine \<Rightarrow> (unit, 'g, 'h) audio_result" where
  "start_read E nb s =
     (let s = (if dma_mode (dmap_of Rec s) = PCM_ENABLE_OUTPUT
               then upd_dmap Rec reset_dmap (audio_reset_output E s) else s);
          s = set_nonblock nb s
      in audio_and
           (if dma_mode (dmap_of Rec s) \<noteq> PCM_ENABLE_INPUT
            then audio_and (prepare_input E s) (\<lambda>_ s.
                   done_with () (snd (launch_input E (upd_dmap Rec (\<lambda>d. d\<lparr>dma_mode := PCM_ENABLE_INPUT\<rparr>) s))))
            else done_with () s)
           (\<lambda>_ s. if \<not> dm_has DMAP_PREPARED (dmap_of Rec s) then fail OSS_EIO s else done_with () s))"

definition oss_audio_read ::
  "('g, 'h) audio_env \<Rightarrow> int \<Rightarrow> bool option \<Rightarrow> int \<Rightarrow> ('g, 'h) engine \<Rightarrow> (int \<times> bytes, 'g, 'h) audio_result" where
  "oss_audio_read E dev nb count s =
     (let s = bump_seed s in
      if bad_engine E dev s then fail OSS_ENXIO s
      else if ad_flags s AND ADEV_NOINPUT \<noteq> 0 then fail OSS_EACCES s
      else if ad_open_mode s AND PCM_ENABLE_INPUT = 0 then fail OSS_ENOTSUP s
      else audio_and (start_read E nb s) (\<lambda>_ s. read_rounds E 1000 count count [] s))"

end
