(* ===== verification/Audio_Intr.thy ===== *)
theory Audio_Intr
  imports Audio_Read
begin

text \<open>
  The interrupts of an audio device in \<open>oss_audio_core.c\<close>: the driver calls them when a fragment was
  played or recorded; they move the device's position, detect underruns and overruns, wake
  up the application and hand the next fragment to the device.
\<close>

section \<open>Input\<close>

definition wake :: "('g, 'h) audio_env \<Rightarrow> dir \<Rightarrow> ('g, 'h) engine \<Rightarrow> ('g, 'h) engine" where
  "wake E D s = a_wakeup E D s"

definition callback :: "('g, 'h) audio_env \<Rightarrow> dir \<Rightarrow> ('g, 'h) engine \<Rightarrow> ('g, 'h) engine" where
  "callback E D s = (if has_callback (dmap_of D s) then a_callback E D s else s)"

definition tick :: "u32 \<Rightarrow> 'g dmap \<Rightarrow> 'g dmap" where
  "tick fl d =
     (if fl AND AINTR_NO_POINTER_UPDATES = 0
      then d\<lparr>byte_counter := byte_counter d + word_of_int (fragment_size d), interrupt_count := interrupt_count d + 1\<rparr>
      else d)"

definition next_fragment :: "'g dmap \<Rightarrow> 'g dmap option" where
  "next_fragment d =
     (if nfrags d = 0 then None else Some (d\<lparr>fragment_counter := (fragment_counter d + 1) smod nfrags d\<rparr>))"

definition overrun :: "'g dmap \<Rightarrow> bool" where
  "overrun d \<longleftrightarrow> user_counter d < byte_counter d \<and> bytes_in_use d < to_int (byte_counter d - user_counter d)"

text \<open>The loop that drops the oldest fragments: with fragments of at least a byte, as many rounds
  as there are bytes in the queue are enough.\<close>

definition drop_overrun :: "'g dmap \<Rightarrow> 'g dmap option" where
  "drop_overrun d =
     rounds (nat (to_int (byte_counter d - user_counter d))) overrun
       (\<lambda>d. Some (d\<lparr>user_counter := user_counter d + word_of_int (fragment_size d), rec_overruns := rec_overruns d + 1\<rparr>)) d"

definition start_next :: "('g, 'h) audio_env \<Rightarrow> ('g, 'h) engine \<Rightarrow> ('g, 'h) engine option" where
  "start_next E s =
     (let d = dmap_of Rec s in
      if ad_flags s AND ADEV_AUTOMODE \<noteq> 0 then Some s
      else map_option (\<lambda>q. case a_start_input E of None \<Rightarrow> s
             | Some f \<Rightarrow> f (dm_phys d + q * fragment_size d) (fragment_size d) (fragment_size d) 1 s)
             (dmap_get_qtail d))"

definition do_inputintr :: "('g, 'h) audio_env \<Rightarrow> u32 \<Rightarrow> ('g, 'h) engine \<Rightarrow> ('g, 'h) engine option" where
  "do_inputintr E fl s =
     Option.bind (Option.bind (drop_overrun (tick fl (dmap_of Rec s))) next_fragment) (\<lambda>d.
     Option.bind (start_next E (wake E Rec (upd_dmap Rec (\<lambda>_. d) s))) (\<lambda>s.
     Some (callback E Rec s)))"

primrec input_catch_up :: "('g, 'h) audio_env \<Rightarrow> u32 \<Rightarrow> u64 \<Rightarrow> nat \<Rightarrow> ('g, 'h) engine \<Rightarrow> ('g, 'h) engine option" where
  "input_catch_up E fl pos 0 s = Option.bind (dmap_get_qtail (dmap_of Rec s)) (\<lambda>q. Some s)"
| "input_catch_up E fl pos (Suc n) s =
     Option.bind (dmap_get_qtail (dmap_of Rec s)) (\<lambda>q.
       if word_of_int q = pos then Some s
       else Option.bind (do_inputintr E fl s) (input_catch_up E fl pos n))"

definition audio_inputintr :: "('g, 'h) audio_env \<Rightarrow> int \<Rightarrow> u32 \<Rightarrow> ('g, 'h) engine \<Rightarrow> ('g, 'h) engine option" where
  "audio_inputintr E dev fl s =
     (let d = dmap_of Rec s in
      if dev < 0 \<or> num_audio_engines E \<le> dev \<or> \<not> running Rec s then Some s
      else case a_get_input_pointer E of
        None \<Rightarrow> do_inputintr E fl s
      | Some f \<Rightarrow>
          if fl AND AINTR_NO_POINTER_UPDATES \<noteq> 0 then do_inputintr E fl s
          else if fragment_size d = 0 then None
          else input_catch_up E fl (word_of_int (f s sdiv fragment_size d)) (nat (nfrags d)) s)"

section \<open>Output\<close>

text \<open>An underrun: no more than the fragment that starts now is left, which is
  filled with silence.\<close>

definition check_underrun :: "'g dmap \<Rightarrow> 'g dmap option" where
  "check_underrun d =
     (if user_counter d \<le> byte_counter d \<and> \<not> dm_mapped d then
        map_option (\<lambda>d. d\<lparr>underrun_flag := True, user_counter := byte_counter d + word_of_int (fragment_size d)\<rparr>)
          (note_underrun (dm_buffsize d) d)
      else Some d)"

definition output_next :: "('g, 'h) audio_env \<Rightarrow> ('g, 'h) engine \<Rightarrow> ('g, 'h) engine option" where
  "output_next E s =
     (let d = dmap_of Play s in
      if ad_flags s AND ADEV_AUTOMODE \<noteq> 0 then Some s
      else map_option (\<lambda>q. case a_output_block E of None \<Rightarrow> s
             | Some f \<Rightarrow> f (dm_phys d + q * fragment_size d) (fragment_size d) (fragment_size d) 1 s)
             (dmap_get_qhead d))"

definition do_outputintr :: "('g, 'h) audio_env \<Rightarrow> u32 \<Rightarrow> ('g, 'h) engine \<Rightarrow> ('g, 'h) engine option" where
  "do_outputintr E fl s =
     (if dm_dmabuf (dmap_of Play s) = None then Some s
      else
        Option.bind (Option.bind (next_fragment (tick fl (dmap_of Play s))) check_underrun) (\<lambda>d.
        Option.bind (audio_space_in_queue (upd_dmap Play (\<lambda>_. d) s)) (\<lambda>(spc, s).
        Option.bind (output_next E (if 0 \<le> spc \<or> ad_nonblock s then wake E Play s else s)) (\<lambda>s.
        Some (callback E Play s)))))"

primrec output_catch_up :: "('g, 'h) audio_env \<Rightarrow> u32 \<Rightarrow> u64 \<Rightarrow> nat \<Rightarrow> ('g, 'h) engine \<Rightarrow> ('g, 'h) engine option" where
  "output_catch_up E fl pos 0 s = Option.bind (dmap_get_qhead (dmap_of Play s)) (\<lambda>q. Some s)"
| "output_catch_up E fl pos (Suc n) s =
     Option.bind (dmap_get_qhead (dmap_of Play s)) (\<lambda>q.
       if word_of_int q = pos then Some s
       else Option.bind (do_outputintr E fl s) (output_catch_up E fl pos n))"

definition audio_outputintr :: "('g, 'h) audio_env \<Rightarrow> int \<Rightarrow> u32 \<Rightarrow> ('g, 'h) engine \<Rightarrow> ('g, 'h) engine option" where
  "audio_outputintr E dev fl s =
     (let d = dmap_of Play s in
      if dev < 0 \<or> num_audio_engines E \<le> dev \<or> \<not> running Play s then Some s
      else if a_get_output_pointer E = None \<or> fl AND AINTR_NO_POINTER_UPDATES \<noteq> 0 then do_outputintr E fl s
      else Option.bind (divu (get_output_pointer E s) (fragment_size d)) (\<lambda>pos.
             output_catch_up E fl pos (nat (nfrags d)) s))"

definition oss_audio_inc_byte_counter :: "int \<Rightarrow> 'g dmap \<Rightarrow> 'g dmap option" where
  "oss_audio_inc_byte_counter n d =
     Option.bind (divu (byte_counter d) (fragment_size d)) (\<lambda>p1.
       let d = d\<lparr>byte_counter := byte_counter d + word_of_int n\<rparr>
       in map_option (\<lambda>p2. d\<lparr>interrupt_count := interrupt_count d + to_int (p2 - p1)\<rparr>)
            (divu (byte_counter d) (fragment_size d)))"

end
