(* ===== verification/Audio_Info.thy ===== *)
theory Audio_Info
  imports Audio_Intr
begin

text \<open>
  What an application can ask about the buffers of an engine in \<open>oss_audio_core.c\<close>: the positions
  of the device, the delay of playback, the free space and the recorded data, and the fragment
  size. The structures that the calls fill are records.
\<close>

record count_info =
  ci_bytes :: u32
  ci_blocks :: int
  ci_ptr :: int

record audio_buf_info =
  bi_fragments :: int
  bi_fragstotal :: int
  bi_fragsize :: int
  bi_bytes :: int

section \<open>Positions\<close>

definition zero_info :: count_info where
  "zero_info = \<lparr>ci_bytes = 0, ci_blocks = 0, ci_ptr = 0\<rparr>"

definition round_down :: "u64 \<Rightarrow> int \<Rightarrow> u64 option" where
  "round_down c n = map_option (\<lambda>q. q * word_of_int n) (divu c n)"

text \<open>Adjusted for format conversions; the byte count is a 32 bit word.\<close>

definition adjusted_info :: "u64 \<Rightarrow> 'g dmap \<Rightarrow> (count_info \<times> 'g dmap) option" where
  "adjusted_info pos d =
     (let e = expand_factor (dm_cnv d); ptr = to_int pos in
      Option.bind (round_down (byte_counter d) (bytes_in_use d)) (\<lambda>b.
        let b = b + word_of_int ptr;
            b = (if b < byte_counter d then b + word_of_int (bytes_in_use d) else b);
            w = (word_of_int e :: u32)
        in if w = 0 then None
           else map_option (\<lambda>p. (\<lparr>ci_bytes = (ucast b div w * word_of_int UNIT_EXPAND) AND 0x3fffffff,
                                  ci_blocks = interrupt_count d, ci_ptr = p\<rparr>, d\<lparr>interrupt_count := 0\<rparr>))
                  (mul_div ptr UNIT_EXPAND e)))"

definition get_optr :: "('g, 'h) audio_env \<Rightarrow> ('g, 'h) engine \<Rightarrow> (count_info \<times> ('g, 'h) engine) option" where
  "get_optr E s =
     (if \<not> running Play s then Some (zero_info, s)
      else map_option (\<lambda>(i, d). (i, upd_dmap Play (\<lambda>_. d) s))
             (adjusted_info (get_output_pointer E s) (dmap_of Play s)))"

definition get_iptr :: "('g, 'h) audio_env \<Rightarrow> ('g, 'h) engine \<Rightarrow> (count_info \<times> ('g, 'h) engine) option" where
  "get_iptr E s =
     (if \<not> running Rec s then Some (zero_info, s)
      else Option.bind (get_input_pointer E True s) (\<lambda>(p, s).
             map_option (\<lambda>(i, d). (i, upd_dmap Rec (\<lambda>_. d) s)) (adjusted_info p (dmap_of Rec s))))"

section \<open>Delay and space\<close>

definition get_odelay :: "('g, 'h) audio_env \<Rightarrow> ('g, 'h) engine \<Rightarrow> int option" where
  "get_odelay E s =
     (let d = dmap_of Play s; e = expand_factor (dm_cnv d) in
      if dma_mode d \<noteq> PCM_ENABLE_OUTPUT \<or> dm_mapped d then Some 0
      else Option.bind (round_down (byte_counter d) (bytes_in_use d)) (\<lambda>b.
        let v = sint (user_counter d - (b + get_output_pointer E s));
            v = (if v < 0 then 0 else v);
            v = (if bytes_in_use d < v then bytes_in_use d else v);
            v = v + (case a_local_qlen E of None \<Rightarrow> 0 | Some q \<Rightarrow> q s) + int (length (dm_leftover d))
        in if e = 0 then None else Some (signed_take_bit 31 (v * UNIT_EXPAND sdiv e))))"

text \<open>The size of a fragment as the application sees it, in whole frames.\<close>

definition user_fragsize :: "'g dmap \<Rightarrow> int option" where
  "user_fragsize d =
     Option.bind (mul_div (fragment_size d) UNIT_EXPAND (expand_factor (dm_cnv d))) (\<lambda>z.
       if user_frame_size d = 0 then None
       else Some ((z + user_frame_size d - 1) sdiv user_frame_size d * user_frame_size d))"

definition whole_frames :: "'g dmap \<Rightarrow> int \<Rightarrow> int option" where
  "whole_frames d n = (if user_frame_size d = 0 then None else Some (n sdiv user_frame_size d * user_frame_size d))"

definition clip_bytes :: "audio_buf_info \<Rightarrow> audio_buf_info" where
  "clip_bytes i = (if bi_fragsize i * bi_fragstotal i < bi_bytes i then i\<lparr>bi_bytes := bi_fragsize i * bi_fragstotal i\<rparr> else i)"

definition idle_space :: "int \<Rightarrow> 'g dmap \<Rightarrow> audio_buf_info option" where
  "idle_space fs d =
     (let b = to_int (word_of_int (bytes_in_use d) - user_counter d) in
      if expand_factor (dm_cnv d) = 0 then None
      else Option.bind (chk (b sdiv expand_factor (dm_cnv d) * UNIT_EXPAND)) (\<lambda>b.
           map_option (\<lambda>b. clip_bytes \<lparr>bi_fragments = nfrags d, bi_fragstotal = nfrags d, bi_fragsize = fs, bi_bytes = b\<rparr>)
             (whole_frames d b)))"

definition usable_space :: "int \<Rightarrow> 'g dmap \<Rightarrow> int" where
  "usable_space n d =
     (let cooked = dm_has DMAP_COOKED d;
          n = (if n < low_water d then 0 else n);
          n = (if cooked \<and> 0 < tmpbuf_ptr (dm_cnv d) then n - tmpbuf_ptr (dm_cnv d) else n);
          n = (if cooked \<and> n < fragment_size d sdiv 2 then 0 else n)
      in if n < 0 then 0 else n)"

definition busy_space :: "int \<Rightarrow> int \<Rightarrow> 'g dmap \<Rightarrow> audio_buf_info option" where
  "busy_space fs n d =
     Option.bind (mul_div (usable_space n d) UNIT_EXPAND (expand_factor (dm_cnv d))) (\<lambda>b.
     Option.bind (whole_frames d b) (\<lambda>b.
       let b = (if dm_has DMAP_COOKED d \<and> frame_size d \<le> b then b - frame_size d else b)
       in if fs = 0 then None
          else Some (clip_bytes \<lparr>bi_fragments = b sdiv fs, bi_fragstotal = nfrags d, bi_fragsize = fs, bi_bytes = b\<rparr>)))"

definition get_ospace :: "('g, 'h) audio_env \<Rightarrow> ('g, 'h) engine \<Rightarrow> (audio_buf_info, 'g, 'h) audio_result" where
  "get_ospace E s =
     Option.bind
       (if dm_has DMAP_PREPARED (dmap_of Play s) then Some s
        else Option.bind (setup_fragments E Play s) (\<lambda>s. map_option snd (prepare_output E s)))
       (\<lambda>s. let d = dmap_of Play s in
         Option.bind (user_fragsize d) (\<lambda>fs.
           if ad_open_mode s AND PCM_ENABLE_OUTPUT = 0 then fail OSS_EACCES s
           else if dm_mapped d then Option.bind (oss_audio_set_error Play 1000 0 s) (fail OSS_EPERM)
           else if \<not> dm_has DMAP_STARTED d then map_option (\<lambda>i. (Inr i, s)) (idle_space fs d)
           else Option.bind (audio_space_in_queue s) (\<lambda>(n, s).
                  map_option (\<lambda>i. (Inr i, s)) (busy_space fs n (dmap_of Play s)))))"

text \<open>A recording that has not started reports one fragment; the second such call is logged.\<close>

definition idle_input :: "int \<Rightarrow> ('g, 'h) engine \<Rightarrow> (audio_buf_info, 'g, 'h) audio_result" where
  "idle_input fs s =
     (let i = clip_bytes \<lparr>bi_fragments = 1, bi_fragstotal = nfrags (dmap_of Rec s), bi_fragsize = fs, bi_bytes = fs\<rparr>;
          n = getispace_error_count s;
          s = s\<lparr>getispace_error_count := n + 1\<rparr>
      in map_option (\<lambda>s. (Inr i, s)) (if n = 1 then oss_audio_set_error Rec 1004 0 s else Some s))"

definition recorded :: "'g dmap \<Rightarrow> int" where
  "recorded d =
     (let n = to_int (byte_counter d - user_counter d);
          nn = tmpbuf_len (dm_cnv d) - tmpbuf_ptr (dm_cnv d);
          n = (if dm_has DMAP_COOKED d \<and> 0 < nn then n + nn else n)
      in if bytes_in_use d < n then bytes_in_use d else n)"

definition get_ispace :: "('g, 'h) audio_env \<Rightarrow> ('g, 'h) engine \<Rightarrow> (audio_buf_info, 'g, 'h) audio_result" where
  "get_ispace E s =
     Option.bind (setup_fragments E Rec s) (\<lambda>s.
     Option.bind (prepare_input E s) (\<lambda>(r, s).
       let d = dmap_of Rec s in
       Option.bind (user_fragsize d) (\<lambda>fs.
         if ad_open_mode s AND PCM_ENABLE_INPUT = 0 then fail OSS_EACCES s
         else if dm_mapped d then Option.bind (oss_audio_set_error Rec 1003 0 s) (fail OSS_EPERM)
         else if \<not> dm_has DMAP_STARTED d then idle_input fs s
         else
           Option.bind (mul_div (recorded d) UNIT_EXPAND (expand_factor (dm_cnv d))) (\<lambda>b.
           Option.bind (whole_frames d b) (\<lambda>b.
             if fs = 0 then None
             else Some (Inr (clip_bytes \<lparr>bi_fragments = b sdiv fs, bi_fragstotal = nfrags d, bi_fragsize = fs, bi_bytes = b\<rparr>), s))))))"

definition getblksize :: "('g, 'h) audio_env \<Rightarrow> ('g, 'h) engine \<Rightarrow> (int \<times> ('g, 'h) engine) option" where
  "getblksize E s =
     (let ask = (\<lambda>D bit (size, s).
            if ad_dmask s AND bit \<noteq> 0 \<and> \<not> dm_has DMAP_FRAGFIXED (dmap_of D s)
            then map_option (\<lambda>s. (fragment_size (dmap_of D s), s)) (setup_fragments E D s)
            else Some (size, s))
      in Option.bind (ask Rec DMASK_IN (4096, s)) (ask Play DMASK_OUT))"

end
