(* ===== verification/Audio_Ring.thy ===== *)
theory Audio_Ring
  imports Audio_Info
begin

text \<open>
  The arithmetic of the device's buffer: the conversions between byte counters and positions, what
  copying a block to the ring does to the list of bytes that waits in it, and the frame lemmas
  of the accessors of an engine.
\<close>

section \<open>Counters\<close>

lemma to_int_small: "uint w < 2 ^ 31 \<Longrightarrow> to_int w = uint w"
  using uint_ge_0[of w] unfolding to_int_def
  by (intro signed_take_bit_int_eq_self) (auto intro: order_trans[of _ 0])

lemma uint_of_small: "0 \<le> x \<Longrightarrow> x < 2 ^ 64 \<Longrightarrow> uint (word_of_int x :: u64) = x"
  by (simp add: uint_word_of_int take_bit_int_eq_self)

lemma uint_add_small:
  "0 \<le> x \<Longrightarrow> uint (w :: u64) + x < 2 ^ 64 \<Longrightarrow> uint (w + word_of_int x) = uint w + x"
proof -
  assume "0 \<le> x" "uint w + x < 2 ^ 64"
  moreover have "w + word_of_int x = word_of_int (uint w + x)" by simp
  ultimately show ?thesis using uint_of_small[of "uint w + x"] by simp
qed

lemma uint_sub_small: "v \<le> (w :: u64) \<Longrightarrow> uint (w - v) = uint w - uint v"
  by (simp add: uint_minus_simple_alt word_le_def)

lemma modu_small:
  assumes "0 < n" and "n < 2 ^ 31"
  shows "\<exists>w. modu c n = Some w \<and> uint w = uint c mod n \<and> to_int w = uint c mod n"
proof -
  have n: "uint (word_of_int n :: u64) = n" using assms by (intro uint_of_small) auto
  then have "(word_of_int n :: u64) \<noteq> 0" using assms by auto
  moreover have m: "uint (c mod word_of_int n) = uint c mod n" by (simp add: uint_mod n)
  moreover have "uint c mod n < 2 ^ 31" using pos_mod_bound[of n "uint c"] assms by linarith
  ultimately show ?thesis by (simp add: modu_def to_int_small)
qed

lemma divu_small:
  assumes "0 < n" and "n < 2 ^ 31"
  shows "\<exists>w. divu c n = Some w \<and> uint w = uint c div n"
proof -
  have n: "uint (word_of_int n :: u64) = n" using assms by (intro uint_of_small) auto
  then have "(word_of_int n :: u64) \<noteq> 0" using assms by auto
  then show ?thesis by (simp add: divu_def uint_div n)
qed

lemma and_not_7: "(x :: int) AND NOT 7 = x - x mod 8"
proof -
  have m: "(7 :: int) = mask 3" by (simp add: mask_eq_exp_minus_1)
  have "x AND NOT 7 = push_bit 3 (drop_bit 3 x)"
    unfolding m by (rule bit_eqI) (auto simp: bit_simps)
  then show ?thesis by (simp add: push_bit_eq_mult drop_bit_eq_div minus_mod_eq_mult_div)
qed

lemma aligned_length:
  assumes "0 < (c :: int)"
  shows "0 < (if 8 < c then c AND NOT 7 else c)" and "(if 8 < c then c AND NOT 7 else c) \<le> c"
  using assms pos_mod_bound[of 8 c] pos_mod_sign[of 8 c] by (auto simp only: and_not_7 split: if_splits)

section \<open>Blocks in the ring\<close>

lemma ring_index_eq:
  assumes "(t + int k) mod int N = (t + int m) mod int N" and "k < m + N" and "m < k + N"
  shows "k = m"
proof (rule ccontr)
  assume "k \<noteq> m"
  have "int N dvd (t + int m) - (t + int k)" using assms(1) by (metis mod_eq_dvd_iff)
  then have "int N dvd int m - int k" by simp
  with \<open>k \<noteq> m\<close> have "int N \<le> \<bar>int m - int k\<bar>" by (intro zdvd_imp_le) (auto simp: dvd_abs_iff)
  with assms(2,3) show False by linarith
qed

lemma ring_list_cong:
  "(\<And>k. k < n \<Longrightarrow> xs ! nat ((t + int k) mod int N) = ys ! nat ((t + int k) mod int N)) \<Longrightarrow>
   ring_list N xs t n = ring_list N ys t n"
  by (simp add: ring_list_def)

lemma ring_list_append: "ring_list N xs t (n + m) = ring_list N xs t n @ ring_list N xs (t + int n) m"
proof (rule nth_equalityI)
  fix i assume "i < length (ring_list N xs t (n + m))"
  then have i: "i < n + m" by simp
  show "ring_list N xs t (n + m) ! i = (ring_list N xs t n @ ring_list N xs (t + int n) m) ! i"
    using i by (auto simp: ring_list_def nth_append of_nat_diff algebra_simps)
qed simp

lemma ring_list_split: "m \<le> n \<Longrightarrow> ring_list N xs t n = ring_list N xs t m @ ring_list N xs (t + int m) (n - m)"
  using ring_list_append[of N xs t m "n - m"] by simp

lemma drop_ring_list: "m \<le> n \<Longrightarrow> drop m (ring_list N xs t n) = ring_list N xs (t + int m) (n - m)"
  by (simp add: ring_list_split)

lemma take_ring_list: "m \<le> n \<Longrightarrow> take m (ring_list N xs t n) = ring_list N xs t m"
  by (simp add: ring_list_split)

lemma block_nth:
  assumes "a + length bs \<le> length xs" and "i < length xs"
  shows "(take a xs @ bs @ drop (a + length bs) xs) ! i = (if a \<le> i \<and> i < a + length bs then bs ! (i - a) else xs ! i)"
  using assms by (auto simp: nth_append min_def)

lemma ring_list_block:
  assumes a: "int a = (t + int n) mod int N" and fit: "a + length bs \<le> N" "n + length bs \<le> N" "N \<le> length xs"
    and ys: "ys = take a xs @ bs @ drop (a + length bs) xs"
  shows "ring_list N ys t (n + length bs) = ring_list N xs t n @ bs"
proof (cases "bs = []")
  case True
  then show ?thesis by (simp add: ys)
next
  case False
  then have "0 < length bs" by simp
  with fit have N: "0 < N" by linarith
  have idx: "nat ((t + int k) mod int N) < N" for k
    using N pos_mod_bound[of "int N" "t + int k"] pos_mod_sign[of "int N" "t + int k"] by linarith
  have at: "nat ((t + int (n + j)) mod int N) = a + j" if "j < length bs" for j
  proof -
    have "(t + int (n + j)) mod int N = (int a + int j) mod int N"
      unfolding a by (simp add: mod_simps algebra_simps)
    also have "\<dots> = int a + int j" using that fit by (intro mod_pos_pos_trivial) auto
    finally show ?thesis by simp
  qed
  have nth: "ys ! i = (if a \<le> i \<and> i < a + length bs then bs ! (i - a) else xs ! i)" if "i < N" for i
    unfolding ys by (rule block_nth) (use that fit in auto)
  have "ring_list N ys t n = ring_list N xs t n"
  proof (rule ring_list_cong)
    fix k assume k: "k < n"
    let ?i = "nat ((t + int k) mod int N)"
    have "\<not> (a \<le> ?i \<and> ?i < a + length bs)"
    proof
      define j where "j = ?i - a"
      assume i: "a \<le> ?i \<and> ?i < a + length bs"
      then have j: "j < length bs" "?i = a + j" by (auto simp: j_def)
      then have "nat ((t + int k) mod int N) = nat ((t + int (n + j)) mod int N)" using at[of j] by simp
      then have "(t + int k) mod int N = (t + int (n + j)) mod int N"
        using N by (metis eq_nat_nat_iff of_nat_0_less_iff pos_mod_sign)
      from ring_index_eq[OF this] j k fit show False by linarith
    qed
    then show "ys ! ?i = xs ! ?i" using nth[OF idx] by auto
  qed
  moreover have "ring_list N ys (t + int n) (length bs) = bs"
  proof (rule nth_equalityI)
    fix j assume "j < length (ring_list N ys (t + int n) (length bs))"
    then have j: "j < length bs" by simp
    then have "nat ((t + int n + int j) mod int N) = a + j" using at[OF j] by (simp add: algebra_simps)
    moreover have "ys ! (a + j) = bs ! j" using nth[of "a + j"] j fit by auto
    ultimately show "ring_list N ys (t + int n) (length bs) ! j = bs ! j" using j by (simp add: ring_list_def)
  qed simp
  ultimately show ?thesis by (simp add: ring_list_append)
qed

lemma poke_in:
  "0 \<le> a \<Longrightarrow> a + int (length bs) \<le> int (length xs) \<Longrightarrow>
   poke a bs (Some xs) = Some (take (nat a) xs @ bs @ drop (nat a + length bs) xs)"
  by (simp add: poke_def)

section \<open>Accessors\<close>

lemma dmap_of_upd [simp]: "dmap_of D (upd_dmap D f s) = f (dmap_of D s)"
  by (simp add: dmap_of_def upd_dmap_def)

lemma upd_upd_dmap [simp]: "upd_dmap D f (upd_dmap D g s) = upd_dmap D (\<lambda>d. f (g d)) s"
  by (simp add: upd_dmap_def)

lemma upd_dmap_const: "upd_dmap D f s = upd_dmap D (\<lambda>_. f (dmap_of D s)) s"
  by (simp add: dmap_of_def upd_dmap_def)

lemma upd_dmap_id [simp]: "upd_dmap D (\<lambda>_. dmap_of D s) s = s"
  by (simp add: dmap_of_def upd_dmap_def)

lemma dmap_of_hw [simp]: "dmap_of D (s\<lparr>ad_hw := h\<rparr>) = dmap_of D s"
  by (simp add: dmap_of_def)

lemma upd_dmap_hw: "(upd_dmap D f s)\<lparr>ad_hw := h\<rparr> = upd_dmap D f (s\<lparr>ad_hw := h\<rparr>)"
  by (simp add: upd_dmap_def)

lemma upd_dmap_frame [simp]:
  "ad_enabled (upd_dmap D f s) = ad_enabled s" "ad_flags (upd_dmap D f s) = ad_flags s"
  "ad_open_flags (upd_dmap D f s) = ad_open_flags s" "ad_open_mode (upd_dmap D f s) = ad_open_mode s"
  "ad_dmask (upd_dmap D f s) = ad_dmask s" "user_parms (upd_dmap D f s) = user_parms s"
  "hw_parms (upd_dmap D f s) = hw_parms s" "ad_go (upd_dmap D f s) = ad_go s"
  "enable_bits (upd_dmap D f s) = enable_bits s" "ad_nonblock (upd_dmap D f s) = ad_nonblock s"
  "forced_nonblock (upd_dmap D f s) = forced_nonblock s" "ad_duplex (upd_dmap D f s) = ad_duplex s"
  "cooked_enable (upd_dmap D f s) = cooked_enable s" "ad_hw (upd_dmap D f s) = ad_hw s"
  by (simp_all add: upd_dmap_def)

lemma dm_set_frame [simp]:
  "dm_dmabuf (dm_set b d) = dm_dmabuf d" "bytes_in_use (dm_set b d) = bytes_in_use d"
  "byte_counter (dm_set b d) = byte_counter d" "user_counter (dm_set b d) = user_counter d"
  "fragment_size (dm_set b d) = fragment_size d" "nfrags (dm_set b d) = nfrags d"
  "dm_buffsize (dm_set b d) = dm_buffsize d" "user_frame_size (dm_set b d) = user_frame_size d"
  "dma_mode (dm_set b d) = dma_mode d" "dm_neutral (dm_set b d) = dm_neutral d"
  "underrun_flag (dm_set b d) = underrun_flag d" "dm_leftover (dm_set b d) = dm_leftover d"
  "has_device_write (dm_set b d) = has_device_write d" "mapping_flags (dm_set b d) = mapping_flags d"
  "convert_func (dm_cnv (dm_set b d)) = convert_func (dm_cnv d)" "has_callback (dm_set b d) = has_callback d"
  "dm_mapped (dm_set b d) = dm_mapped d" "frame_size (dm_set b d) = frame_size d"
  by (simp_all add: dm_set_def upd_cnv_def dm_mapped_def)

lemma dm_has_set [simp]: "dm_has f d \<Longrightarrow> dm_has f (dm_set g d)"
proof -
  assume "dm_has f d"
  moreover have "(dm_flags (dm_cnv d) OR g) AND f = 0 \<Longrightarrow> dm_flags (dm_cnv d) AND f = 0"
    by (simp add: bit.conj_disj_distrib2 or_eq_0_iff)
  ultimately show ?thesis by (auto simp: dm_has_def dm_set_def upd_cnv_def)
qed

lemma audio_and_simps [simp]:
  "audio_and None f = None" "audio_and (Some (Inl e, s)) f = Some (Inl e, s)" "audio_and (Some (Inr x, s)) f = f x s"
  "audio_and (fail e s) f = Some (Inl e, s)" "audio_and (done_with y s) g = g y s"
  by (simp_all add: audio_and_def fail_def done_with_def)

end
