(* ===== verification/Audio_Playback_Laws.thy ===== *)
theory Audio_Playback_Laws
  imports Audio_Ring Byte_Pipe
begin

text \<open>
  Playback without a conversion: the device's buffer refines the list of bytes that wait to be
  played. A non-blocking write appends what it accepts, the device's interrupt takes
  fragments from the front, and an underrun inserts a fragment of silence.
\<close>

section \<open>The engine that plays\<close>

text \<open>A driver whose methods only work on the hardware.\<close>

definition hw_only :: "(('g, 'h) engine \<Rightarrow> ('g, 'h) engine) \<Rightarrow> bool" where
  "hw_only f \<longleftrightarrow> (\<forall>s. \<exists>h. f s = s\<lparr>ad_hw := h\<rparr>)"

definition quiet_driver :: "('g, 'h) audio_env \<Rightarrow> bool" where
  "quiet_driver E \<longleftrightarrow>
     (\<forall>f a b c e. a_output_block E = Some f \<longrightarrow> hw_only (f a b c e)) \<and>
     (\<forall>f a b c e. a_start_input E = Some f \<longrightarrow> hw_only (f a b c e)) \<and>
     (\<forall>f b. a_trigger E = Some f \<longrightarrow> hw_only (f b)) \<and>
     (\<forall>D. hw_only (a_wakeup E D)) \<and> (\<forall>D. hw_only (a_callback E D))"

definition ring_ok :: "'g dmap \<Rightarrow> bool" where
  "ring_ok d \<longleftrightarrow>
     dm_dmabuf d \<noteq> None \<and> dm_buffsize d = int (length (the (dm_dmabuf d))) \<and>
     0 < fragment_size d \<and> 0 < nfrags d \<and> bytes_in_use d = nfrags d * fragment_size d \<and>
     bytes_in_use d \<le> dm_buffsize d \<and> dm_buffsize d < 2 ^ 30"

text \<open>The bytes between the device's position and the user's position, and the free space.\<close>

definition pending :: "'g dmap \<Rightarrow> bytes" where
  "pending d = ring_list (nat (bytes_in_use d)) (the (dm_dmabuf d)) (uint (byte_counter d))
     (nat (uint (user_counter d) - uint (byte_counter d)))"

definition counters_ok :: "'g dmap \<Rightarrow> bool" where
  "counters_ok d \<longleftrightarrow> byte_counter d \<le> user_counter d \<and>
     uint (user_counter d) \<le> uint (byte_counter d) + bytes_in_use d \<and> uint (user_counter d) < 2 ^ 63"

definition silent :: "'g dmap \<Rightarrow> bool" where
  "silent d \<longleftrightarrow> (\<forall>i < nat (bytes_in_use d). the (dm_dmabuf d) ! i = dm_neutral d)"

definition raw_play :: "'g dmap \<Rightarrow> bool" where
  "raw_play d \<longleftrightarrow> dma_mode d = PCM_ENABLE_OUTPUT \<and> dm_has DMAP_PREPARED d \<and> \<not> dm_mapped d \<and>
     convert_func (dm_cnv d) = None \<and> \<not> has_device_write d \<and> dm_leftover d = [] \<and> 1 \<le> user_frame_size d \<and>
     ring_ok d \<and> counters_ok d \<and> (underrun_flag d \<longrightarrow> silent d)"

text \<open>The part of this that does not depend on how the data gets to the buffer.\<close>

definition ring_play :: "'g dmap \<Rightarrow> bool" where
  "ring_play d \<longleftrightarrow> dma_mode d = PCM_ENABLE_OUTPUT \<and> dm_has DMAP_PREPARED d \<and> \<not> dm_mapped d \<and> 1 \<le> user_frame_size d \<and>
     ring_ok d \<and> counters_ok d \<and> (underrun_flag d \<longrightarrow> silent d)"

lemma raw_play_iff:
  "raw_play d \<longleftrightarrow> ring_play d \<and> convert_func (dm_cnv d) = None \<and> \<not> has_device_write d \<and> dm_leftover d = []"
  by (auto simp: raw_play_def ring_play_def)

definition writer :: "('g, 'h) audio_env \<Rightarrow> int \<Rightarrow> ('g, 'h) engine \<Rightarrow> bool" where
  "writer E dev s \<longleftrightarrow> \<not> bad_engine E dev s \<and> ad_flags s AND ADEV_NOOUTPUT = 0 \<and>
     ad_open_mode s AND PCM_ENABLE_OUTPUT \<noteq> 0 \<and> ad_open_flags s AND OF_BLOCK = 0 \<and> enable_bits s AND PCM_ENABLE_OUTPUT \<noteq> 0"

definition player :: "('g, 'h) audio_env \<Rightarrow> int \<Rightarrow> ('g, 'h) engine \<Rightarrow> bool" where
  "player E dev s \<longleftrightarrow> writer E dev s \<and> raw_play (dmap_of Play s)"

definition ring_player :: "('g, 'h) audio_env \<Rightarrow> int \<Rightarrow> ('g, 'h) engine \<Rightarrow> bool" where
  "ring_player E dev s \<longleftrightarrow> writer E dev s \<and> ring_play (dmap_of Play s)"

lemma player_ring: "player E dev s \<Longrightarrow> ring_player E dev s"
  by (simp add: player_def ring_player_def raw_play_iff)

lemma writer_frame [simp]:
  "writer E dev (upd_dmap D f s) = writer E dev s" "writer E dev (s\<lparr>ad_hw := h\<rparr>) = writer E dev s"
  "writer E dev (s\<lparr>ad_nonblock := b\<rparr>) = writer E dev s" "writer E dev (bump_seed s) = writer E dev s"
  by (simp_all add: writer_def bad_engine_def bump_seed_def)

lemma dmap_of_frame [simp]:
  "dmap_of D (s\<lparr>ad_nonblock := b\<rparr>) = dmap_of D s" "dmap_of D (bump_seed s) = dmap_of D s"
  by (simp_all add: dmap_of_def bump_seed_def)

lemma ring_facts:
  assumes "ring_ok d"
  shows "0 < bytes_in_use d" and "bytes_in_use d < 2 ^ 30" and "dm_dmabuf d = Some (the (dm_dmabuf d))"
    and "nat (bytes_in_use d) \<le> length (the (dm_dmabuf d))" and "dm_buffsize d = int (length (the (dm_dmabuf d)))"
    and "fragment_size d \<le> bytes_in_use d"
proof -
  show u: "0 < bytes_in_use d" "bytes_in_use d < 2 ^ 30" "dm_dmabuf d = Some (the (dm_dmabuf d))"
    "nat (bytes_in_use d) \<le> length (the (dm_dmabuf d))" "dm_buffsize d = int (length (the (dm_dmabuf d)))"
    using assms by (auto simp: ring_ok_def split: option.splits)
  have "1 * fragment_size d \<le> nfrags d * fragment_size d"
    using assms by (intro mult_right_mono) (auto simp: ring_ok_def)
  then show "fragment_size d \<le> bytes_in_use d" using assms by (simp add: ring_ok_def)
qed

lemma length_pending: "length (pending d) = nat (uint (user_counter d) - uint (byte_counter d))"
  by (simp add: pending_def)

lemma counters_le: "counters_ok d \<Longrightarrow> uint (byte_counter d) \<le> uint (user_counter d)"
  by (simp add: counters_ok_def word_le_def)

lemma pending_fits: "counters_ok d \<Longrightarrow> int (length (pending d)) \<le> bytes_in_use d"
  using counters_le[of d] by (simp add: length_pending counters_ok_def)

lemma free_space_pending:
  assumes "ring_ok d" and "counters_ok d"
  shows "free_space d = bytes_in_use d - int (length (pending d))"
proof -
  let ?x = "uint (byte_counter d) + bytes_in_use d - uint (user_counter d)"
  have x: "0 \<le> ?x" "?x < 2 ^ 31"
    using assms ring_facts[OF assms(1)] counters_le[OF assms(2)] by (auto simp: counters_ok_def)
  have "byte_counter d + word_of_int (bytes_in_use d) - user_counter d = word_of_int ?x" by simp
  then have "free_space d = to_int (word_of_int ?x)" unfolding free_space_def by simp
  also have "\<dots> = ?x" using x uint_of_small[of ?x] by (intro to_int_small[THEN trans]) auto
  finally show ?thesis using counters_le[OF assms(2)] by (simp add: length_pending)
qed

lemma started_ring: "ring_play (dm_set DMAP_STARTED d) = ring_play d" "pending (dm_set DMAP_STARTED d) = pending d"
proof -
  have "dm_has DMAP_PREPARED (dm_set DMAP_STARTED d) = dm_has DMAP_PREPARED d"
    by (auto simp: dm_has_def dm_set_def upd_cnv_def audio_flags bit.conj_disj_distrib2)
  then show "ring_play (dm_set DMAP_STARTED d) = ring_play d"
    by (simp add: ring_play_def ring_ok_def counters_ok_def silent_def)
qed (simp add: pending_def)

lemma started_props:
  "raw_play (dm_set DMAP_STARTED d) = raw_play d" "pending (dm_set DMAP_STARTED d) = pending d"
  by (simp_all add: raw_play_iff started_ring)

section \<open>The start of the device\<close>

lemma hw_only_apply: "hw_only f \<Longrightarrow> \<exists>h. f s = s\<lparr>ad_hw := h\<rparr>"
  by (simp add: hw_only_def)

lemma hw_only_id [simp]: "hw_only (\<lambda>s. s)"
proof -
  have "s = s\<lparr>ad_hw := ad_hw s\<rparr>" for s :: "('g, 'h) engine" by simp
  then show ?thesis unfolding hw_only_def by blast
qed

lemma start_device_hw:
  assumes "\<forall>f a b c e. m = Some f \<longrightarrow> hw_only (f a b c e)"
  shows "\<exists>h. start_device m D s = s\<lparr>ad_hw := h\<rparr>"
  using assms hw_only_apply[OF hw_only_id, of s] by (auto simp: start_device_def Let_def hw_only_def split: option.splits)

lemma trigger_device_hw:
  assumes "quiet_driver E"
  shows "\<exists>h. trigger_device E b s = s\<lparr>ad_hw := h\<rparr>"
  using assms hw_only_apply[OF hw_only_id, of s]
  by (auto simp: trigger_device_def Let_def quiet_driver_def hw_only_def split: option.splits)

lemma launch_starts:
  assumes "quiet_driver E" and "\<not> dm_has DMAP_STARTED (dmap_of Play s)" and "dm_has DMAP_PREPARED (dmap_of Play s)"
    and "user_counter (dmap_of Play s) \<noteq> 0 \<or> has_callback (dmap_of Play s) \<or> mapping_flags (dmap_of Play s) \<noteq> 0"
  shows "\<exists>h. launch_output E s = (Inr (), upd_dmap Play (\<lambda>_. dm_set DMAP_STARTED (dmap_of Play s)) (s\<lparr>ad_hw := h\<rparr>))"
proof -
  obtain h1 where h1: "start_device (a_output_block E) Play s = s\<lparr>ad_hw := h1\<rparr>"
    using start_device_hw[of "a_output_block E" Play s] assms(1) by (auto simp: quiet_driver_def)
  define s1 where "s1 = upd_dmap Play (dm_set DMAP_STARTED) (s\<lparr>ad_hw := h1\<rparr>)"
  obtain h2 where h2: "trigger_device E PCM_ENABLE_OUTPUT s1 = s1\<lparr>ad_hw := h2\<rparr>"
    using trigger_device_hw[OF assms(1)] by blast
  have "s1\<lparr>ad_hw := h2\<rparr> = upd_dmap Play (\<lambda>_. dm_set DMAP_STARTED (dmap_of Play s)) (s\<lparr>ad_hw := h2\<rparr>)"
    by (simp add: s1_def upd_dmap_def dmap_of_def)
  moreover have "launch_output E s = (Inr (), s1\<lparr>ad_hw := h2\<rparr>)"
    using assms(2-4) by (auto simp: launch_output_def Let_def h1 simp flip: s1_def h2)
  ultimately show ?thesis by metis
qed

lemma launch_output_quiet:
  assumes "quiet_driver E" and "dm_has DMAP_PREPARED (dmap_of Play s)"
  shows "\<exists>h d. launch_output E s = (Inr (), upd_dmap Play (\<lambda>_. d) (s\<lparr>ad_hw := h\<rparr>)) \<and>
    (d = dmap_of Play s \<or> d = dm_set DMAP_STARTED (dmap_of Play s))"
proof (cases "dm_has DMAP_STARTED (dmap_of Play s) \<or>
    user_counter (dmap_of Play s) = 0 \<and> \<not> has_callback (dmap_of Play s) \<and> mapping_flags (dmap_of Play s) = 0")
  case True
  have "launch_output E s = (Inr (), s)" using True by (auto simp: launch_output_def Let_def)
  moreover have "s = upd_dmap Play (\<lambda>_. dmap_of Play s) (s\<lparr>ad_hw := ad_hw s\<rparr>)" by simp
  ultimately show ?thesis by metis
next
  case False
  with launch_starts[OF assms(1) _ assms(2)] show ?thesis by blast
qed

lemma quiet_system:
  assumes "quiet_driver E"
  shows "\<exists>h. a_wakeup E D s = s\<lparr>ad_hw := h\<rparr>" and "\<exists>h. a_callback E D s = s\<lparr>ad_hw := h\<rparr>"
  using assms by (simp_all add: quiet_driver_def hw_only_def)

section \<open>A write\<close>

lemma space_in_ring:
  assumes "ring_play (dmap_of Play s)"
  shows "audio_space_in_queue s = Some (bytes_in_use (dmap_of Play s) - int (length (pending (dmap_of Play s))), s)"
  using assms free_space_pending[of "dmap_of Play s"]
  by (simp add: audio_space_in_queue_def Let_def ring_play_def)

lemma output_space_cases:
  assumes "ring_player E dev s" and "ad_nonblock s"
  defines "d \<equiv> dmap_of Play s"
  defines "spc \<equiv> bytes_in_use d - int (length (pending d))" and "offs \<equiv> uint (user_counter d) mod bytes_in_use d"
  shows "find_output_space E s =
    (if spc < user_frame_size d then fail OSS_EAGAIN s else done_with (offs, min (bytes_in_use d - offs) spc) s)"
proof -
  have play: "ring_play d" "ring_ok d" and en: "enable_bits s AND PCM_ENABLE_OUTPUT \<noteq> 0"
    using assms(1) by (auto simp: ring_player_def writer_def ring_play_def d_def)
  note u = ring_facts[OF play(2)]
  obtain w where w: "modu (user_counter d) (bytes_in_use d) = Some w" "to_int w = offs"
    using modu_small[of "bytes_in_use d" "user_counter d"] u by (auto simp: offs_def)
  have offs: "0 \<le> offs" "offs < bytes_in_use d" using u by (simp_all add: offs_def)
  have loop: "space_loop E 10001 0 spc s = (if spc < user_frame_size d then fail OSS_EAGAIN s else done_with spc s)"
    using assms(2) en by (simp add: eval_nat_numeral no_space_def flip: d_def)
  have "1 \<le> user_frame_size d" using play by (simp add: ring_play_def)
  then show ?thesis
    using space_in_ring[of s] play offs
    by (auto simp: find_output_space_def loop w Let_def min_def fail_def simp flip: d_def spc_def)
qed

text \<open>Copying a block to the free part and moving the user's position appends it to what is pending.\<close>

definition put_block :: "bytes \<Rightarrow> bytes \<Rightarrow> 'g dmap \<Rightarrow> 'g dmap" where
  "put_block ys bs d = d\<lparr>dm_dmabuf := Some ys, underrun_flag := False,
     user_counter := user_counter d + word_of_int (int (length bs))\<rparr>"

lemma put_block_ring:
  assumes "ring_play d" and len: "int (length bs) \<le> bytes_in_use d - offs" "int (length bs) + int (length (pending d)) \<le> bytes_in_use d"
    and offs: "offs = uint (user_counter d) mod bytes_in_use d" and no_wrap: "uint (user_counter d) + int (length bs) < 2 ^ 63"
    and ys: "poke offs bs (dm_dmabuf d) = Some ys"
  shows "ring_play (put_block ys bs d)" and "pending (put_block ys bs d) = pending d @ bs"
proof -
  have ring: "ring_ok d" and cnt: "counters_ok d" using assms(1) by (simp_all add: ring_play_def)
  note u = ring_facts[OF ring]
  let ?xs = "the (dm_dmabuf d)"
  have o: "0 \<le> offs" "offs < bytes_in_use d" using u by (simp_all add: offs)
  have ys': "ys = take (nat offs) ?xs @ bs @ drop (nat offs + length bs) ?xs"
    using ys u(3) by (auto simp: poke_def split: option.splits if_splits)
  have fits: "nat offs + length bs \<le> nat (bytes_in_use d)" using len(1) o by linarith
  then have "length ys = length ?xs" using u(4) by (simp add: ys')
  moreover have uc: "uint (user_counter d + word_of_int (int (length bs))) = uint (user_counter d) + int (length bs)"
    using no_wrap by (intro uint_add_small) auto
  moreover have le: "uint (byte_counter d) \<le> uint (user_counter d)" by (rule counters_le[OF cnt])
  ultimately show "ring_play (put_block ys bs d)"
    using assms(1) len(2) no_wrap
    by (auto simp: ring_play_def put_block_def ring_ok_def counters_ok_def length_pending word_le_def dm_has_def dm_mapped_def)
  let ?n = "nat (uint (user_counter d) - uint (byte_counter d))"
  have "nat (uint (user_counter d) + int (length bs) - uint (byte_counter d)) = ?n + length bs" using le by linarith
  moreover have "ring_list (nat (bytes_in_use d)) ys (uint (byte_counter d)) (?n + length bs) =
      ring_list (nat (bytes_in_use d)) ?xs (uint (byte_counter d)) ?n @ bs"
  proof (rule ring_list_block[OF _ fits _ u(4) ys'])
    show "int (nat offs) = (uint (byte_counter d) + int ?n) mod int (nat (bytes_in_use d))"
      using o le u(1) by (simp add: offs)
    show "?n + length bs \<le> nat (bytes_in_use d)" using len(2) le unfolding length_pending by linarith
  qed
  ultimately show "pending (put_block ys bs d) = pending d @ bs"
    by (simp add: pending_def put_block_def uc[simplified])
qed

definition geometry :: "'g dmap \<Rightarrow> int \<times> int \<times> u64 \<times> int \<times> u8" where
  "geometry d = (bytes_in_use d, user_frame_size d, byte_counter d, fragment_size d, dm_neutral d)"

lemma move_wrpointer_quiet:
  fixes s :: "('g, 'h) engine" and l :: int
  assumes "quiet_driver E" and "dm_has DMAP_PREPARED (dmap_of Play s)"
  defines "d \<equiv> (dmap_of Play s)\<lparr>underrun_flag := False, user_counter := user_counter (dmap_of Play s) + word_of_int l\<rparr>"
  shows "\<exists>h d'. move_wrpointer E l s = Some (Inr (), upd_dmap Play (\<lambda>_. d') (s\<lparr>ad_hw := h\<rparr>)) \<and>
    (d' = d \<or> d' = dm_set DMAP_STARTED d)"
proof -
  define s1 where "s1 = upd_dmap Play (\<lambda>_. d) s"
  have s1: "upd_dmap Play (\<lambda>d. d\<lparr>underrun_flag := False, user_counter := user_counter d + word_of_int l\<rparr>) s = s1"
    unfolding s1_def d_def by (rule upd_dmap_const)
  have d: "dmap_of Play s1 = d" "dm_has DMAP_PREPARED d"
    using assms(2) by (simp_all add: s1_def) (simp add: d_def dm_has_def)
  have up: "upd_dmap Play (\<lambda>_. d') (s1\<lparr>ad_hw := h\<rparr>) = upd_dmap Play (\<lambda>_. d') (s\<lparr>ad_hw := h\<rparr>)" for d' h
    by (simp add: s1_def upd_dmap_def)
  have "move_wrpointer E l s = Some (Inr (), s1) \<or> move_wrpointer E l s = Some (launch_output E s1)"
    by (simp add: move_wrpointer_def s1 Let_def done_with_def)
  then consider (stay) "move_wrpointer E l s = Some (Inr (), s1)" | (go) "move_wrpointer E l s = Some (launch_output E s1)"
    by blast
  then show ?thesis
  proof cases
    case stay
    moreover have "s1 = upd_dmap Play (\<lambda>_. d) (s\<lparr>ad_hw := ad_hw s\<rparr>)" by (simp add: s1_def)
    ultimately show ?thesis by metis
  next
    case go
    with launch_output_quiet[OF assms(1), of s1] d up show ?thesis by metis
  qed
qed

text \<open>A block is copied to the free part of the ring and handed over.\<close>

lemma block_moved:
  fixes s :: "('g, 'h) engine" and offs :: int and bs :: bytes
  defines "d \<equiv> dmap_of Play s"
  assumes play: "ring_play d" and q: "quiet_driver E" and offs: "offs = uint (user_counter d) mod bytes_in_use d"
    and fits: "int (length bs) \<le> bytes_in_use d - offs" "int (length bs) + int (length (pending d)) \<le> bytes_in_use d"
    and wrap: "uint (user_counter d) + int (length bs) < 2 ^ 63"
  shows "\<exists>ys h d'. poke offs bs (dm_dmabuf d) = Some ys \<and>
    move_wrpointer E (int (length bs)) (upd_dmap Play (\<lambda>d. d\<lparr>dm_dmabuf := Some ys\<rparr>) s) =
      Some (Inr (), upd_dmap Play (\<lambda>_. d') (s\<lparr>ad_hw := h\<rparr>)) \<and>
    (d' = put_block ys bs d \<or> d' = dm_set DMAP_STARTED (put_block ys bs d)) \<and>
    ring_play d' \<and> pending d' = pending d @ bs \<and> geometry d' = geometry d \<and>
    uint (user_counter d') = uint (user_counter d) + int (length bs)"
proof -
  have ring: "ring_ok d" using play by (simp add: ring_play_def)
  note u = ring_facts[OF ring]
  have offs0: "0 \<le> offs" using u(1) by (simp add: offs)
  have "offs + int (length bs) \<le> int (length (the (dm_dmabuf d)))" using u(4) fits(1) by linarith
  from poke_in[OF offs0 this] obtain ys where ys: "poke offs bs (dm_dmabuf d) = Some ys" using u(3) by metis
  define s1 where "s1 = upd_dmap Play (\<lambda>d. d\<lparr>dm_dmabuf := Some ys\<rparr>) s"
  have s1: "dmap_of Play s1 = d\<lparr>dm_dmabuf := Some ys\<rparr>" by (simp add: s1_def d_def)
  define d1 where "d1 = put_block ys bs d"
  have d1: "(dmap_of Play s1)\<lparr>underrun_flag := False, user_counter := user_counter (dmap_of Play s1) + word_of_int (int (length bs))\<rparr> = d1"
    by (simp add: s1 d1_def put_block_def)
  have "dm_has DMAP_PREPARED (dmap_of Play s1)" using play by (simp add: s1 ring_play_def dm_has_def)
  from move_wrpointer_quiet[OF q this, of "int (length bs)", unfolded d1] obtain h d' where
    mv: "move_wrpointer E (int (length bs)) s1 = Some (Inr (), upd_dmap Play (\<lambda>_. d') (s1\<lparr>ad_hw := h\<rparr>))"
      "d' = d1 \<or> d' = dm_set DMAP_STARTED d1" by blast
  have up: "upd_dmap Play (\<lambda>_. d') (s1\<lparr>ad_hw := h\<rparr>) = upd_dmap Play (\<lambda>_. d') (s\<lparr>ad_hw := h\<rparr>)"
    by (simp add: s1_def upd_dmap_def)
  note put = put_block_ring[OF play fits offs wrap ys, folded d1_def]
  have d': "ring_play d'" "pending d' = pending d @ bs" using put mv(2) started_ring[of d1] by auto
  have "uint (user_counter d1) = uint (user_counter d) + int (length bs)"
    using wrap uint_add_small[of "int (length bs)" "user_counter d"] by (simp add: d1_def put_block_def)
  then have "geometry d' = geometry d" "uint (user_counter d') = uint (user_counter d) + int (length bs)"
    using mv(2) by (auto simp: geometry_def d1_def put_block_def)
  with ys mv[unfolded up] d' show ?thesis unfolding d1_def s1_def by blast
qed

text \<open>What a round that made progress by \<open>l\<close> bytes leaves.\<close>

definition accepted :: "('g, 'h) audio_env \<Rightarrow> int \<Rightarrow> bytes \<Rightarrow> nat \<Rightarrow> ('g, 'h) engine \<Rightarrow> ('g, 'h) engine \<Rightarrow> bool" where
  "accepted E dev uio l s s' \<longleftrightarrow> l \<le> length uio \<and> player E dev s' \<and> ad_nonblock s' \<and>
     pending (dmap_of Play s') = pending (dmap_of Play s) @ take l uio \<and>
     geometry (dmap_of Play s') = geometry (dmap_of Play s) \<and>
     uint (user_counter (dmap_of Play s')) = uint (user_counter (dmap_of Play s)) + int l"

lemma write_raw_ring:
  fixes s :: "('g, 'h) engine" and a m offs :: int
  assumes p: "player E dev s" and nb: "ad_nonblock s" and q: "quiet_driver E"
    and a: "0 < a" "a \<le> int (length uio)" "uint (user_counter (dmap_of Play s)) + a < 2 ^ 63"
    and m: "0 < m" "m \<le> bytes_in_use (dmap_of Play s) - offs" "m + int (length (pending (dmap_of Play s))) \<le> bytes_in_use (dmap_of Play s)"
    and offs: "offs = uint (user_counter (dmap_of Play s)) mod bytes_in_use (dmap_of Play s)"
  shows "\<exists>l s'. write_raw E offs m a uio s = Some (Step (int l) (drop l uio), s') \<and> 0 < l \<and> accepted E dev uio l s s'"
proof -
  define d where "d = dmap_of Play s"
  have play: "raw_play d" "ring_ok d" using p by (auto simp: player_def raw_play_def d_def)
  note u = ring_facts[OF play(2)]
  define l where "l = nat (min a m)"
  have l: "0 < l" "l \<le> length uio" "int l = (if m < a then m else a)" "int l \<le> a" "int l \<le> m"
    using a m by (auto simp: l_def)
  define bs where "bs = take l uio"
  have bs: "length bs = l" using l(2) by (simp add: bs_def)
  have fits: "int (length bs) \<le> bytes_in_use d - offs" "int (length bs) + int (length (pending d)) \<le> bytes_in_use d"
    using l(5) m bs by (auto simp: d_def)
  have wrap: "uint (user_counter d) + int (length bs) < 2 ^ 63" using a(3) l(4) bs by (simp add: d_def)
  have rp: "ring_play d" using play(1) by (simp add: raw_play_iff)
  from block_moved[OF rp[unfolded d_def] q offs fits[unfolded d_def] wrap[unfolded d_def], folded d_def] obtain ys h d' where
    mv: "poke offs bs (dm_dmabuf d) = Some ys"
      "move_wrpointer E (int l) (upd_dmap Play (\<lambda>d. d\<lparr>dm_dmabuf := Some ys\<rparr>) s) = Some (Inr (), upd_dmap Play (\<lambda>_. d') (s\<lparr>ad_hw := h\<rparr>))"
    and d': "d' = put_block ys bs d \<or> d' = dm_set DMAP_STARTED (put_block ys bs d)" "ring_play d'" "pending d' = pending d @ bs"
      "geometry d' = geometry d" "uint (user_counter d') = uint (user_counter d) + int l"
    unfolding bs by blast
  define s2 where "s2 = upd_dmap Play (\<lambda>_. d') (s\<lparr>ad_hw := h\<rparr>)"
  have "raw_play d'" using d'(1,2) play(1) by (auto simp: raw_play_iff put_block_def)
  then have "accepted E dev uio l s s2"
    using p nb d'(3-5) l(2) by (simp add: accepted_def player_def s2_def bs_def d_def)
  moreover have "write_raw E offs m a uio s = Some (Step (int l) (drop l uio), s2)"
    using l(2) by (simp add: write_raw_def uiomove_def mv finish_def flip: l(3) d_def s2_def bs_def)
  ultimately show ?thesis using l(1) by blast
qed

lemma write_round_ring:
  assumes p: "player E dev s" and nb: "ad_nonblock s" and q: "quiet_driver E" and c: "0 < c" "length uio = nat c"
    and no_wrap: "uint (user_counter (dmap_of Play s)) + c < 2 ^ 63"
  defines "d \<equiv> dmap_of Play s" defines "spc \<equiv> bytes_in_use d - int (length (pending d))"
  shows "spc < user_frame_size d \<Longrightarrow> write_round E count c uio s = Some (Return (give_up OSS_EAGAIN count c), s)"
    and "\<not> spc < user_frame_size d \<Longrightarrow> \<exists>l s'. write_round E count c uio s = Some (Step (int l) (drop l uio), s') \<and>
      0 < l \<and> accepted E dev uio l s s'"
proof -
  have play: "raw_play d" "ring_ok d" and cv: "convert_func (dm_cnv d) = None" "\<not> has_device_write d"
    using p by (auto simp: player_def raw_play_def d_def)
  note space = output_space_cases[OF player_ring[OF p] nb, folded d_def, folded spc_def]
  show "write_round E count c uio s = Some (Return (give_up OSS_EAGAIN count c), s)" if "spc < user_frame_size d"
    using that by (simp add: write_round_def space fail_def)
  assume enough: "\<not> spc < user_frame_size d"
  define offs where "offs = uint (user_counter d) mod bytes_in_use d"
  define a where "a = (if 8 < c then c AND NOT 7 else c)"
  have a: "0 < a" "a \<le> c" using aligned_length[OF c(1)] by (simp_all add: a_def)
  have o: "offs < bytes_in_use d" using ring_facts[OF play(2)] by (simp add: offs_def)
  have "\<exists>l s'. write_raw E offs (min (bytes_in_use d - offs) spc) a uio s = Some (Step (int l) (drop l uio), s') \<and>
      0 < l \<and> accepted E dev uio l s s'"
    by (rule write_raw_ring[OF p nb q a(1)])
      (use a c no_wrap o enough play in \<open>auto simp: offs_def spc_def raw_play_def d_def\<close>)
  moreover have "write_round E count c uio s = write_raw E offs (min (bytes_in_use d - offs) spc) a uio s"
    by (simp add: write_round_def space enough cv done_with_def Let_def a_def offs_def flip: d_def)
  ultimately show "\<exists>l s'. write_round E count c uio s = Some (Step (int l) (drop l uio), s') \<and>
      0 < l \<and> accepted E dev uio l s s'" by simp
qed

lemma accepted_trans:
  assumes "accepted E dev uio l s s1" and "accepted E dev (drop l uio) n s1 s2"
  shows "accepted E dev uio (l + n) s s2"
  using assms by (auto simp: accepted_def take_add)

lemma accepted_refl: "player E dev s \<Longrightarrow> ad_nonblock s \<Longrightarrow> accepted E dev uio 0 s s"
  by (simp add: accepted_def)

text \<open>The whole loop: it accepts all data, or stops with less than a frame of space left.\<close>

lemma write_rounds_ring:
  assumes "player E dev s" and "ad_nonblock s" and "quiet_driver E" and "int (length uio) \<le> count"
    and "uint (user_counter (dmap_of Play s)) + int (length uio) < 2 ^ 63"
  shows "\<exists>n s'. accepted E dev uio n s s' \<and>
    write_rounds E count (int (length uio)) 0 uio s =
      Some (if n = length uio then Inr count else give_up OSS_EAGAIN count (int (length uio - n)), s') \<and>
    (n = length uio \<or> bytes_in_use (dmap_of Play s') - int (length (pending (dmap_of Play s'))) < user_frame_size (dmap_of Play s'))"
  using assms
proof (induction "length uio" arbitrary: uio s rule: less_induct)
  case less
  let ?d = "dmap_of Play s"
  show ?case
  proof (cases "uio = []")
    case True
    then show ?thesis using accepted_refl[OF less.prems(1,2)]
      by (intro exI[of _ 0] exI[of _ s]) (simp add: write_rounds.simps done_with_def)
  next
    case False
    then have c: "0 < int (length uio)" "length uio = nat (int (length uio))" by simp_all
    note round = write_round_ring[OF less.prems(1-3) c less.prems(5), of count]
    show ?thesis
    proof (cases "bytes_in_use ?d - int (length (pending ?d)) < user_frame_size ?d")
      case True
      with round(1)[OF True] False accepted_refl[OF less.prems(1,2)] show ?thesis
        by (intro exI[of _ 0] exI[of _ s]) (subst write_rounds.simps, simp)
    next
      case more: False
      from round(2)[OF more] obtain l s1 where
        r: "write_round E count (int (length uio)) uio s = Some (Step (int l) (drop l uio), s1)"
          "0 < l" "accepted E dev uio l s s1" by blast
      have l: "l \<le> length uio" and p1: "player E dev s1" "ad_nonblock s1" and
        uc: "uint (user_counter (dmap_of Play s1)) = uint (user_counter ?d) + int l"
        using r(3) by (simp_all add: accepted_def)
      have "\<exists>n s'. accepted E dev (drop l uio) n s1 s' \<and>
          write_rounds E count (int (length (drop l uio))) 0 (drop l uio) s1 =
            Some (if n = length (drop l uio) then Inr count else give_up OSS_EAGAIN count (int (length (drop l uio) - n)), s') \<and>
          (n = length (drop l uio) \<or> bytes_in_use (dmap_of Play s') - int (length (pending (dmap_of Play s'))) < user_frame_size (dmap_of Play s'))"
        by (rule less.hyps[OF _ p1 less.prems(3)]) (use l r(2) False less.prems uc in \<open>auto simp: of_nat_diff\<close>)
      then obtain n s2 where n: "accepted E dev (drop l uio) n s1 s2"
        "write_rounds E count (int (length uio) - int l) 0 (drop l uio) s1 =
            Some (if n = length uio - l then Inr count else give_up OSS_EAGAIN count (int (length uio - l - n)), s2)"
        "n = length uio - l \<or> bytes_in_use (dmap_of Play s2) - int (length (pending (dmap_of Play s2))) < user_frame_size (dmap_of Play s2)"
        using l by (auto simp: of_nat_diff)
      have "write_rounds E count (int (length uio)) 0 uio s =
          Some (if l + n = length uio then Inr count else give_up OSS_EAGAIN count (int (length uio - (l + n))), s2)"
        by (subst write_rounds.simps) (use c(1) r n(2) l in auto)
      then show ?thesis using accepted_trans[OF r(3) n(1)] n(3) l
        by (intro exI[of _ "l + n"] exI[of _ s2]) auto
    qed
  qed
qed

text \<open>C25: A non-blocking write without a conversion appends to what waits to be played: whatever
  the position of the ring and the length of the data, \<open>oss_audio_write\<close> accepts a prefix of the
  data, which comes after all that was pending, and says how long it is. It accepts all data
  unless the space left is less than a frame of the application, and fails with \<open>EAGAIN\<close> only when
  it accepts nothing.\<close>

theorem write_appends:
  assumes "player E dev s" and "quiet_driver E"
    and "uint (user_counter (dmap_of Play s)) + int (length data) < 2 ^ 63"
  shows "\<exists>n s'. oss_audio_write E dev (Some True) data (int (length data)) s =
      Some (if n = 0 \<and> data \<noteq> [] then Inl OSS_EAGAIN else Inr (int n), s') \<and>
    player E dev s' \<and> n \<le> length data \<and>
    pending (dmap_of Play s') = pending (dmap_of Play s) @ take n data \<and>
    geometry (dmap_of Play s') = geometry (dmap_of Play s) \<and>
    (n = length data \<or> bytes_in_use (dmap_of Play s) - int (length (pending (dmap_of Play s'))) < user_frame_size (dmap_of Play s))"
proof -
  define s0 where "s0 = (bump_seed s)\<lparr>ad_nonblock := True\<rparr>"
  have dm: "dmap_of Play s0 = dmap_of Play s" by (simp add: s0_def)
  have p: "player E dev s0" "ad_nonblock s0" using assms(1) by (simp_all add: player_def s0_def)
  have w: "writer E dev (bump_seed s)" using assms(1) by (simp add: player_def)
  then have nb: "set_nonblock (Some True) (bump_seed s) = s0"
    by (simp add: set_nonblock_def s0_def writer_def)
  have mode: "dma_mode (dmap_of Play s) = PCM_ENABLE_OUTPUT" "dm_has DMAP_PREPARED (dmap_of Play s)" "dm_leftover (dmap_of Play s) = []"
    using assms(1) by (simp_all add: player_def raw_play_def)
  have "start_write E (Some True) (bump_seed s) = done_with () s0"
    by (simp add: start_write_def mode nb dm flush_leftover_def) (simp add: audio_flags mode)
  then have call: "oss_audio_write E dev (Some True) data (int (length data)) s =
      write_rounds E (int (length data)) (int (length data)) 0 data s0"
    using w by (simp add: oss_audio_write_def writer_def Let_def)
  from write_rounds_ring[OF p assms(2), of data "int (length data)"] assms(3) obtain n s' where n:
    "accepted E dev data n s0 s'"
    "write_rounds E (int (length data)) (int (length data)) 0 data s0 =
      Some (if n = length data then Inr (int (length data)) else give_up OSS_EAGAIN (int (length data)) (int (length data - n)), s')"
    "n = length data \<or> bytes_in_use (dmap_of Play s') - int (length (pending (dmap_of Play s'))) < user_frame_size (dmap_of Play s')"
    by (auto simp: dm)
  have "n \<le> length data" using n(1) by (simp add: accepted_def)
  then have "(if n = length data then Inr (int (length data)) else give_up OSS_EAGAIN (int (length data)) (int (length data - n))) =
      (if n = 0 \<and> data \<noteq> [] then Inl OSS_EAGAIN else Inr (int n))"
    by (auto simp: give_up_def of_nat_diff)
  moreover have "bytes_in_use (dmap_of Play s') = bytes_in_use (dmap_of Play s)" "user_frame_size (dmap_of Play s') = user_frame_size (dmap_of Play s)"
    using n(1) by (simp_all add: accepted_def geometry_def dm)
  ultimately show ?thesis
    using n unfolding call by (intro exI[of _ n] exI[of _ s']) (simp add: accepted_def dm)
qed

section \<open>The interrupt\<close>

lemma ring_list_const:
  assumes "0 < N" and "\<forall>i < N. xs ! i = z"
  shows "ring_list N xs t n = replicate n z"
proof -
  have "nat ((t + int k) mod int N) < N" for k
    using assms(1) pos_mod_bound[of "int N" "t + int k"] pos_mod_sign[of "int N" "t + int k"] by linarith
  then show ?thesis using assms(2) by (intro nth_equalityI) (auto simp: ring_list_def)
qed

lemma silent_pending:
  "ring_ok d \<Longrightarrow> silent d \<Longrightarrow> pending d = replicate (length (pending d)) (dm_neutral d)"
  using ring_facts[of d] unfolding pending_def length_ring_list by (intro ring_list_const) (auto simp: silent_def)

definition silenced :: "'g dmap \<Rightarrow> bytes" where
  "silenced d = (if underrun_flag d then the (dm_dmabuf d) else replicate (length (the (dm_dmabuf d))) (dm_neutral d))"

lemma underrun_fill:
  assumes "ring_ok d" and "\<not> dm_mapped d" and "user_counter d \<le> byte_counter d"
  shows "check_underrun d = Some (d\<lparr>play_underruns := play_underruns d + 1, dm_dmabuf := Some (silenced d),
    underrun_flag := True, user_counter := byte_counter d + word_of_int (fragment_size d)\<rparr>)"
proof (cases "underrun_flag d")
  case True
  have "d\<lparr>play_underruns := play_underruns d + 1, underrun_flag := True, user_counter := byte_counter d + word_of_int (fragment_size d)\<rparr> =
      d\<lparr>play_underruns := play_underruns d + 1, dm_dmabuf := Some (silenced d),
        underrun_flag := True, user_counter := byte_counter d + word_of_int (fragment_size d)\<rparr>"
    using True ring_facts(3)[OF assms(1)] by (intro dmap.equality) (simp_all add: silenced_def)
  with True assms show ?thesis by (simp add: check_underrun_def note_underrun_def)
next
  case False
  have "fill (dm_buffsize d) (dm_neutral d) (dm_dmabuf d) = Some (silenced d)"
    using ring_facts(3,5)[OF assms(1)] False by (auto simp: fill_def silenced_def split: option.splits)
  with False assms show ?thesis by (simp add: check_underrun_def note_underrun_def)
qed

text \<open>What the interrupt makes of a buffer, and of the list of bytes that wait in it.\<close>

definition ticked :: "u32 \<Rightarrow> 'g dmap \<Rightarrow> 'g dmap option" where
  "ticked fl d = Option.bind (next_fragment (tick fl d)) check_underrun"

definition after_fragment :: "nat \<Rightarrow> u8 \<Rightarrow> bytes \<Rightarrow> bytes" where
  "after_fragment F z q = (if F < length q then drop F q else replicate F z)"

definition tick_ok :: "'g dmap \<Rightarrow> 'g dmap \<Rightarrow> bool" where
  "tick_ok d d' \<longleftrightarrow> raw_play d' \<and> pending d' = after_fragment (nat (fragment_size d)) (dm_neutral d) (pending d) \<and>
     byte_counter d' = byte_counter d + word_of_int (fragment_size d) \<and>
     geometry d' = geometry (d\<lparr>byte_counter := byte_counter d + word_of_int (fragment_size d)\<rparr>) \<and>
     dm_flags (dm_cnv d') = dm_flags (dm_cnv d) \<and> uint (user_counter d') \<le> uint (user_counter d) + 2 * fragment_size d"

definition advanced :: "'g dmap \<Rightarrow> 'g dmap" where
  "advanced d = d\<lparr>byte_counter := byte_counter d + word_of_int (fragment_size d), interrupt_count := interrupt_count d + 1,
     fragment_counter := (fragment_counter d + 1) smod nfrags d\<rparr>"

lemma next_advanced:
  "ring_ok d \<Longrightarrow> fl AND AINTR_NO_POINTER_UPDATES = 0 \<Longrightarrow> next_fragment (tick fl d) = Some (advanced d)"
  by (simp add: next_fragment_def tick_def ring_ok_def advanced_def)

lemma advanced_byte:
  assumes "raw_play d" and "uint (user_counter d) + 2 * fragment_size d < 2 ^ 63"
  shows "uint (byte_counter (advanced d)) = uint (byte_counter d) + fragment_size d"
proof -
  have "uint (byte_counter d) \<le> uint (user_counter d)" "0 < fragment_size d"
    using assms(1) counters_le[of d] by (simp_all add: raw_play_def ring_ok_def)
  with assms(2) show ?thesis by (simp add: advanced_def uint_add_small)
qed

lemma tick_plenty:
  assumes "raw_play d" and "fl AND AINTR_NO_POINTER_UPDATES = 0" and nw: "uint (user_counter d) + 2 * fragment_size d < 2 ^ 63"
    and more: "fragment_size d < int (length (pending d))"
  shows "ticked fl d = Some (advanced d) \<and> tick_ok d (advanced d)"
proof -
  let ?F = "fragment_size d" and ?d = "advanced d"
  have ring: "ring_ok d" and cnt: "counters_ok d" using assms(1) by (simp_all add: raw_play_def)
  note le = counters_le[OF cnt] and b = advanced_byte[OF assms(1) nw]
  have F: "0 < ?F" using ring by (simp add: ring_ok_def)
  have lt: "uint (byte_counter ?d) < uint (user_counter d)" using more le by (simp add: length_pending b)
  have "check_underrun ?d = Some ?d" using lt by (simp add: check_underrun_def word_le_def) (simp add: advanced_def)
  moreover have "raw_play ?d"
    using assms(1) lt cnt F b
    by (auto simp: advanced_def raw_play_def ring_ok_def counters_ok_def silent_def word_le_def dm_has_def dm_mapped_def)
  moreover have "pending ?d = drop (nat ?F) (pending d)"
  proof -
    have "nat ?F \<le> nat (uint (user_counter d) - uint (byte_counter d))" using lt b by linarith
    moreover have "nat (uint (user_counter d) - uint (byte_counter d)) - nat ?F = nat (uint (user_counter d) - uint (byte_counter ?d))"
      using F b lt by linarith
    moreover have "uint (byte_counter d) + int (nat ?F) = uint (byte_counter ?d)" using F b by simp
    moreover have "the (dm_dmabuf ?d) = the (dm_dmabuf d)" "bytes_in_use ?d = bytes_in_use d" "user_counter ?d = user_counter d"
      by (simp_all add: advanced_def)
    ultimately show ?thesis unfolding pending_def by (simp only: drop_ring_list)
  qed
  ultimately show ?thesis using more F next_advanced[OF ring assms(2)]
    by (auto simp: ticked_def tick_ok_def after_fragment_def geometry_def advanced_def)
qed

lemma tick_empty:
  assumes "raw_play d" and "fl AND AINTR_NO_POINTER_UPDATES = 0" and nw: "uint (user_counter d) + 2 * fragment_size d < 2 ^ 63"
    and less: "\<not> fragment_size d < int (length (pending d))"
  shows "\<exists>d'. ticked fl d = Some d' \<and> tick_ok d d'"
proof -
  let ?F = "fragment_size d" and ?d = "advanced d"
  define d' where "d' = ?d\<lparr>play_underruns := play_underruns ?d + 1, dm_dmabuf := Some (silenced ?d),
    underrun_flag := True, user_counter := byte_counter ?d + word_of_int (fragment_size ?d)\<rparr>"
  have ring: "ring_ok d" and cnt: "counters_ok d" using assms(1) by (simp_all add: raw_play_def)
  note u = ring_facts[OF ring] and le = counters_le[OF cnt] and b = advanced_byte[OF assms(1) nw]
  have F: "0 < ?F" using ring by (simp add: ring_ok_def)
  have "user_counter ?d \<le> byte_counter ?d" 
    using less le b by (simp add: length_pending word_le_def) (simp add: advanced_def)
  moreover have "ring_ok ?d" "\<not> dm_mapped ?d" using assms(1) by (simp_all add: raw_play_def ring_ok_def advanced_def dm_mapped_def)
  ultimately have t: "ticked fl d = Some d'"
    using next_advanced[OF ring assms(2)] underrun_fill[of ?d] by (simp add: ticked_def d'_def)
  have uc: "uint (user_counter d') = uint (byte_counter d) + 2 * ?F" "uint (byte_counter d') = uint (byte_counter d) + ?F"
    using nw le F b uint_add_small[of ?F "byte_counter ?d"] by (simp_all add: d'_def) (simp_all add: advanced_def)
  have sil: "\<forall>i < nat (bytes_in_use d). silenced ?d ! i = dm_neutral d"
    using assms(1) u(4) by (auto simp: silenced_def raw_play_def silent_def advanced_def)
  have "length (silenced ?d) = length (the (dm_dmabuf d))" by (simp add: silenced_def advanced_def)
  then have play: "raw_play d'"
    using assms(1) nw uc F u(6) sil le
    by (simp add: raw_play_def ring_ok_def counters_ok_def silent_def word_le_def dm_has_def dm_mapped_def)
      (simp add: d'_def advanced_def)
  have "silent d'" using sil by (simp add: silent_def d'_def advanced_def)
  moreover have "length (pending d') = nat ?F" by (simp add: length_pending uc)
  ultimately have "pending d' = replicate (nat ?F) (dm_neutral d)"
    using silent_pending[of d'] play by (simp add: raw_play_def) (simp add: d'_def advanced_def)
  moreover have "\<not> nat ?F < length (pending d)" using less F by simp
  moreover have "uint (user_counter d') \<le> uint (user_counter d) + 2 * ?F" using uc le by simp
  moreover have "byte_counter d' = byte_counter d + word_of_int ?F"
    "geometry d' = geometry (d\<lparr>byte_counter := byte_counter d + word_of_int ?F\<rparr>)" "dm_cnv d' = dm_cnv d"
    by (simp_all add: geometry_def d'_def advanced_def)
  ultimately have "tick_ok d d'" using play by (simp add: tick_ok_def after_fragment_def)
  with t show ?thesis by blast
qed

lemma ticked_ok:
  assumes "raw_play d" and "fl AND AINTR_NO_POINTER_UPDATES = 0" and "uint (user_counter d) + 2 * fragment_size d < 2 ^ 63"
  shows "\<exists>d'. ticked fl d = Some d' \<and> tick_ok d d'"
  using tick_plenty[OF assms] tick_empty[OF assms] by blast

lemma frag_index_total:
  assumes "ring_ok d"
  shows "\<exists>q. frag_index c d = Some q"
  using modu_small[of "bytes_in_use d" c] ring_facts[OF assms] by (auto simp: frag_index_def)

lemma qhead_total: "ring_ok d \<Longrightarrow> \<exists>q. dmap_get_qhead d = Some q"
  using frag_index_total[of d] by (auto simp: dmap_get_qhead_def)

lemma output_next_hw:
  assumes "quiet_driver E" and "ring_ok (dmap_of Play s)"
  shows "\<exists>h. output_next E s = Some (s\<lparr>ad_hw := h\<rparr>)"
proof -
  obtain q where q: "dmap_get_qhead (dmap_of Play s) = Some q" using qhead_total[OF assms(2)] by blast
  show ?thesis
  proof (cases "ad_flags s AND ADEV_AUTOMODE \<noteq> 0 \<or> a_output_block E = None")
    case True
    then show ?thesis using hw_only_apply[OF hw_only_id, of s] by (auto simp: output_next_def q Let_def)
  next
    case False
    then obtain f where f: "a_output_block E = Some f" by auto
    with assms(1) have "\<forall>a b c e. hw_only (f a b c e)" by (simp add: quiet_driver_def)
    then show ?thesis using False f by (simp add: output_next_def q Let_def hw_only_def)
  qed
qed

lemma do_outputintr_ring:
  assumes "quiet_driver E" and "raw_play (dmap_of Play s)" and "fl AND AINTR_NO_POINTER_UPDATES = 0"
    and "uint (user_counter (dmap_of Play s)) + 2 * fragment_size (dmap_of Play s) < 2 ^ 63"
  shows "\<exists>d' h. do_outputintr E fl s = Some (upd_dmap Play (\<lambda>_. d') (s\<lparr>ad_hw := h\<rparr>)) \<and> tick_ok (dmap_of Play s) d'"
proof -
  obtain d' where d': "ticked fl (dmap_of Play s) = Some d'" "tick_ok (dmap_of Play s) d'" using ticked_ok[OF assms(2-4)] by blast
  then have play: "raw_play d'" "ring_ok d'" by (simp_all add: tick_ok_def raw_play_def)
  define s1 where "s1 = upd_dmap Play (\<lambda>_. d') s"
  have up: "s1\<lparr>ad_hw := h\<rparr> = upd_dmap Play (\<lambda>_. d') (s\<lparr>ad_hw := h\<rparr>)" for h by (simp add: s1_def upd_dmap_def)
  obtain n where n: "audio_space_in_queue s1 = Some (n, s1)" using space_in_ring[of s1] play raw_play_iff[of d'] by (simp add: s1_def)
  define s2 where "s2 = (if 0 \<le> n \<or> ad_nonblock s1 then wake E Play s1 else s1)"
  obtain h2 where h2: "s2 = s1\<lparr>ad_hw := h2\<rparr>"
  proof (cases "0 \<le> n \<or> ad_nonblock s1")
    case True
    then have "s2 = a_wakeup E Play s1" by (simp add: s2_def wake_def)
    with quiet_system(1)[OF assms(1), of Play s1] that show ?thesis by auto
  next
    case False
    then show ?thesis using that[of "ad_hw s1"] by (simp add: s2_def)
  qed
  obtain h3 where h3: "output_next E s2 = Some (s2\<lparr>ad_hw := h3\<rparr>)"
    using output_next_hw[OF assms(1), of s2] play by (auto simp: h2 s1_def)
  obtain h4 where h4: "callback E Play (s2\<lparr>ad_hw := h3\<rparr>) = s1\<lparr>ad_hw := h4\<rparr>"
  proof (cases "has_callback (dmap_of Play (s2\<lparr>ad_hw := h3\<rparr>))")
    case True
    obtain h where "a_callback E Play (s2\<lparr>ad_hw := h3\<rparr>) = s2\<lparr>ad_hw := h3, ad_hw := h\<rparr>"
      using quiet_system(2)[OF assms(1)] by blast
    with True that[of h] show ?thesis by (simp add: callback_def h2)
  next
    case False
    then show ?thesis using that[of h3] by (simp add: callback_def h2)
  qed
  have "dm_dmabuf (dmap_of Play s) \<noteq> None" using assms(2) by (simp add: raw_play_def ring_ok_def)
  then have "do_outputintr E fl s = Some (s1\<lparr>ad_hw := h4\<rparr>)"
    using d'(1) n h3 h4 by (auto simp: do_outputintr_def ticked_def simp flip: s1_def s2_def)
  then show ?thesis using d'(2) up by auto
qed

text \<open>C26: The interrupt of a device that counts fragments takes the fragment that was played
  from the front of what is pending, when more than a fragment is; otherwise the application was
  too late, an underrun is counted, and what is pending afterwards is a fragment of silence.\<close>

theorem interrupt_consumes:
  assumes "player E dev s" and "quiet_driver E" and "a_get_output_pointer E = None"
    and "dm_has DMAP_STARTED (dmap_of Play s)"
    and "uint (user_counter (dmap_of Play s)) + 2 * fragment_size (dmap_of Play s) < 2 ^ 63"
  defines "d \<equiv> dmap_of Play s"
  shows "\<exists>s'. audio_outputintr E dev 0 s = Some s' \<and> player E dev s' \<and> dm_has DMAP_STARTED (dmap_of Play s') \<and>
    pending (dmap_of Play s') =
      (if fragment_size d < int (length (pending d)) then drop (nat (fragment_size d)) (pending d)
       else replicate (nat (fragment_size d)) (dm_neutral d)) \<and>
    uint (byte_counter (dmap_of Play s')) = uint (byte_counter d) + fragment_size d"
proof -
  have play: "raw_play d" and eng: "\<not> bad_engine E dev s" using assms(1) by (simp_all add: player_def writer_def d_def)
  have "running Play s" using play assms(4) by (simp add: running_def dir_mode_def raw_play_def d_def)
  then have call: "audio_outputintr E dev 0 s = do_outputintr E 0 s"
    using eng assms(3) by (simp add: audio_outputintr_def bad_engine_def)
  from do_outputintr_ring[OF assms(2), of s 0] play assms(5) obtain d' h where
    r: "do_outputintr E 0 s = Some (upd_dmap Play (\<lambda>_. d') (s\<lparr>ad_hw := h\<rparr>))" "tick_ok d d'"
    by (auto simp: d_def)
  have "0 < fragment_size d" using play by (simp add: raw_play_def ring_ok_def)
  moreover have "uint (byte_counter d') = uint (byte_counter d) + fragment_size d"
    using advanced_byte[OF play] assms(5) r(2) by (simp add: tick_ok_def d_def advanced_def)
  ultimately show ?thesis
    using call r assms(1,4)
    by (intro exI[of _ "upd_dmap Play (\<lambda>_. d') (s\<lparr>ad_hw := h\<rparr>)"])
      (auto simp: player_def tick_ok_def after_fragment_def dm_has_def d_def)
qed

section \<open>The application and the device\<close>

text \<open>The pipe between them: the application offers data, and the device fetches the fragment at
  its position and interrupts, as long as more than a fragment is pending. Sessions end
  before the counters reach \<open>2 ^ 63\<close>.\<close>

definition counters_last :: "int \<Rightarrow> ('g, 'h) engine \<Rightarrow> bool" where
  "counters_last n s \<longleftrightarrow> uint (user_counter (dmap_of Play s)) + n < 2 ^ 63"

definition play_offer :: "('g, 'h) audio_env \<Rightarrow> int \<Rightarrow> bytes \<Rightarrow> ('g, 'h) engine \<Rightarrow> nat \<times> ('g, 'h) engine" where
  "play_offer E dev data s =
     (if \<not> counters_last (int (length data)) s then (0, s)
      else case oss_audio_write E dev (Some True) data (int (length data)) s of
        Some (Inr n, s) \<Rightarrow> (nat n, s) | Some (Inl e, s) \<Rightarrow> (0, s) | None \<Rightarrow> (0, s))"

definition heard :: "'g dmap \<Rightarrow> bytes" where
  "heard d = ring_list (nat (bytes_in_use d)) (the (dm_dmabuf d)) (uint (byte_counter d)) (nat (fragment_size d))"

definition play_fetch :: "('g, 'h) audio_env \<Rightarrow> int \<Rightarrow> nat \<Rightarrow> ('g, 'h) engine \<Rightarrow> bytes \<times> ('g, 'h) engine" where
  "play_fetch E dev k s =
     (let d = dmap_of Play s in
      if dm_has DMAP_STARTED d \<and> fragment_size d < uint (user_counter d) - uint (byte_counter d) \<and> counters_last (2 * fragment_size d) s
      then case audio_outputintr E dev 0 s of None \<Rightarrow> ([], s) | Some s' \<Rightarrow> (heard d, s')
      else ([], s))"

definition counting_player :: "('g, 'h) audio_env \<Rightarrow> int \<Rightarrow> ('g, 'h) engine \<Rightarrow> bool" where
  "counting_player E dev s \<longleftrightarrow> player E dev s \<and> quiet_driver E \<and> a_get_output_pointer E = None"

lemma play_offer_law:
  assumes "counting_player E dev s" and "play_offer E dev data s = (n, s')"
  shows "counting_player E dev s' \<and> n \<le> length data \<and>
    pending (dmap_of Play s') = pending (dmap_of Play s) @ take n data"
proof (cases "counters_last (int (length data)) s")
  case False
  with assms show ?thesis by (simp add: play_offer_def)
next
  case True
  have "player E dev s" "quiet_driver E" using assms(1) by (simp_all add: counting_player_def)
  from write_appends[OF this True[unfolded counters_last_def]] obtain m s1 where w:
    "oss_audio_write E dev (Some True) data (int (length data)) s =
      Some (if m = 0 \<and> data \<noteq> [] then Inl OSS_EAGAIN else Inr (int m), s1)" "player E dev s1" "m \<le> length data"
    "pending (dmap_of Play s1) = pending (dmap_of Play s) @ take m data" by blast
  then have "n = m" "s' = s1" using assms(2) True by (auto simp: play_offer_def split: if_splits)
  with w assms(1) show ?thesis by (simp add: counting_player_def)
qed

lemma play_fetch_law:
  assumes "counting_player E dev s" and "play_fetch E dev k s = (out, s')"
  shows "counting_player E dev s' \<and> pending (dmap_of Play s) = out @ pending (dmap_of Play s')"
proof -
  let ?d = "dmap_of Play s"
  show ?thesis
  proof (cases "dm_has DMAP_STARTED ?d \<and> fragment_size ?d < uint (user_counter ?d) - uint (byte_counter ?d) \<and>
      counters_last (2 * fragment_size ?d) s")
    case False
    with assms show ?thesis by (auto simp: play_fetch_def Let_def)
  next
    case True
    have p: "player E dev s" "quiet_driver E" "a_get_output_pointer E = None" using assms(1) by (simp_all add: counting_player_def)
    from interrupt_consumes[OF p] True obtain s1 where i: "audio_outputintr E dev 0 s = Some s1" "player E dev s1"
      "pending (dmap_of Play s1) = (if fragment_size ?d < int (length (pending ?d)) then drop (nat (fragment_size ?d)) (pending ?d)
        else replicate (nat (fragment_size ?d)) (dm_neutral ?d))" by (auto simp: counters_last_def)
    have F: "0 < fragment_size ?d" using p(1) by (simp add: player_def raw_play_def ring_ok_def)
    have "heard ?d = take (nat (fragment_size ?d)) (pending ?d)"
      using True F by (simp add: heard_def pending_def take_ring_list nat_le_eq_zle)
    moreover have "fragment_size ?d < int (length (pending ?d))" using True F by (simp add: length_pending)
    moreover have "out = heard ?d" "s' = s1" using assms(2) True i(1) by (simp_all add: play_fetch_def Let_def)
    ultimately show ?thesis using i p by (simp add: counting_player_def)
  qed
qed

interpretation playback: byte_pipe "counting_player E dev" "\<lambda>s. pending (dmap_of Play s)" "play_offer E dev" "play_fetch E dev"
  for E :: "('g, 'h) audio_env" and dev
  by unfold_locales (use play_offer_law play_fetch_law in blast)+

text \<open>C1: Playback is a pipe: in any session of writes by the application and interrupts of the
  device that never finds less than a fragment, the device plays what was
  pending and then the data that \<open>oss_audio_write\<close> accepted, in order, without loss or repetition,
  and what it has not played yet is pending.\<close>

theorem playback_fifo:
  assumes "player E dev s" and "quiet_driver E" and "a_get_output_pointer E = None"
    and "pipe_run (play_offer E dev) (play_fetch E dev) ops s = (ins, outs, s')"
  shows "player E dev s' \<and> pending (dmap_of Play s) @ ins = outs @ pending (dmap_of Play s')"
  using playback.run_fifo[of E dev s ops ins outs s'] assms by (simp add: counting_player_def)

section \<open>An engine with a buffer of 16 bytes\<close>

definition toy_grc3 :: "unit grc3" where
  "toy_grc3 = \<lparr>grc3_reset = (\<lambda>g. g), grc3_setup = (\<lambda>g s t. g), grc3_convert = (\<lambda>g b q x y n r c i. (0, y, g)), grc3_outsz = (\<lambda>g. 0)\<rparr>"

definition toy_driver :: "(unit, nat) audio_env" where
  "toy_driver = \<lparr>
     a_output_block = Some (\<lambda>a b c e s. s\<lparr>ad_hw := Suc (ad_hw s)\<rparr>), a_start_input = Some (\<lambda>a b c e s. s\<lparr>ad_hw := Suc (ad_hw s)\<rparr>),
     a_prepare_for_output = (\<lambda>f n s. (Inr (), s)), a_prepare_for_input = (\<lambda>f n s. (Inr (), s)), a_halt_io = (\<lambda>s. s),
     a_halt_input = None, a_halt_output = None, a_local_qlen = None, a_trigger = Some (\<lambda>b s. s\<lparr>ad_hw := Suc (ad_hw s)\<rparr>),
     a_set_rate = (\<lambda>r s. (Inr r, s)), a_set_format = (\<lambda>f s. (f, s)), a_set_channels = (\<lambda>c s. (c, s)),
     a_check_input = None, a_check_output = None, a_get_input_pointer = None, a_get_output_pointer = None,
     a_setup_fragments = None, a_device_write = (\<lambda>b p m l s. (Inl OSS_EIO, s)), a_callback = (\<lambda>D s. s),
     a_sleep = (\<lambda>D t s. ((False, False), s)), a_wakeup = (\<lambda>D s. s), a_grc3 = toy_grc3, a_tmpbuf = Some (replicate 32 0),
     a_srcstate = (\<lambda>n. Some ()), num_audio_engines = 1, always_cooked = False, opt_max_intrate = 100, oss_hz = 100\<rparr>"

definition toy_cnv :: "unit cnv_dmap" where
  "toy_cnv = \<lparr>expand_factor = 1024, convert_mode = 0, convert_func = None, dm_flags = DMAP_PREPARED OR DMAP_STARTED,
     tmpbuf_len = 0, tmpbuf_ptr = 0, tmpbuf1 = None, tmpbuf2 = None, srcstate = [], src_quality = 1\<rparr>"

definition toy_dmap :: "unit dmap" where
  "toy_dmap = \<lparr>dm_cnv = toy_cnv, dm_dmabuf = Some (replicate 16 0), dm_phys = 0, dm_buffsize = 16, dm_neutral = 0,
     dma_mode = PCM_ENABLE_OUTPUT, nfrags = 4, fragment_size = 4, bytes_in_use = 16, data_rate = 8000, frame_size = 1,
     user_frame_size = 1, fragsize_rq = 0, low_water = 4, low_water_rq = 4, byte_counter = 8, user_counter = 14,
     interrupt_count = 0, fragment_counter = 2, mapping_flags = 0, play_underruns = 0, rec_overruns = 0, underrun_flag = False,
     num_errors = 0, dm_errors = replicate 5 (0, 0), dm_leftover = [], has_callback = False, has_device_write = False\<rparr>"

definition toy_engine :: "(unit, nat) engine" where
  "toy_engine = \<lparr>ad_enabled = True, ad_flags = 0, ad_open_flags = 0, ad_open_mode = PCM_ENABLE_OUTPUT OR PCM_ENABLE_INPUT,
     ad_dmask = DMASK_OUT OR DMASK_IN,
     user_parms = \<lparr>sp_fmt = AFMT_U8, sp_rate = 8000, sp_channels = 1\<rparr>, hw_parms = \<lparr>sp_fmt = AFMT_U8, sp_rate = 8000, sp_channels = 1\<rparr>,
     ad_go = True, enable_bits = PCM_ENABLE_OUTPUT OR PCM_ENABLE_INPUT, max_block = 0, min_block = 0, min_fragments = 0,
     max_fragments = 0, ad_max_intrate = 0, ad_policy = - 1, ossd_registered = False, ad_nonblock = True, forced_nonblock = False,
     cooked_enable = True, timeout_count = 0, getispace_error_count = 0, setfragment_warned = False, ad_duplex = True,
     dmap_0 = toy_dmap, dmap_1 = toy_dmap\<lparr>dma_mode := PCM_ENABLE_INPUT\<rparr>, sync_seed = 0, ad_hw = 0\<rparr>"

lemmas toy_defs = toy_driver_def toy_cnv_def toy_dmap_def toy_engine_def

lemma toy_player: "player toy_driver 0 toy_engine" "quiet_driver toy_driver" "a_get_output_pointer toy_driver = None"
  "dm_has DMAP_STARTED (dmap_of Play toy_engine)"
proof -
  have "hw_only (\<lambda>s :: (unit, nat) engine. s\<lparr>ad_hw := Suc (ad_hw s)\<rparr>)" unfolding hw_only_def by blast
  then show "quiet_driver toy_driver" by (simp add: quiet_driver_def toy_defs)
  show "player toy_driver 0 toy_engine"
    by (simp add: player_def writer_def bad_engine_def raw_play_def ring_ok_def counters_ok_def dmap_of_def dm_has_def
        dm_mapped_def toy_defs audio_flags)
qed (simp_all add: toy_defs dm_has_def dmap_of_def audio_flags)

lemma toy_fields: "user_counter (dmap_of Play toy_engine) = 14" "fragment_size (dmap_of Play toy_engine) = 4"
  "bytes_in_use (dmap_of Play toy_engine) = 16" "user_frame_size (dmap_of Play toy_engine) = 1"
  "length (pending (dmap_of Play toy_engine)) = 6"
  by (simp_all add: toy_defs dmap_of_def length_pending)

lemma write_appends_witness:
  "\<exists>s'. oss_audio_write toy_driver 0 (Some True) [1, 2, 3] 3 toy_engine = Some (Inr 3, s') \<and>
    pending (dmap_of Play s') = pending (dmap_of Play toy_engine) @ [1, 2, 3]"
  using write_appends[OF toy_player(1,2), of "[1, 2, 3]"] by (auto simp: toy_fields)

lemma interrupt_consumes_witness:
  "\<exists>s'. audio_outputintr toy_driver 0 0 toy_engine = Some s' \<and> player toy_driver 0 s'"
  using interrupt_consumes[OF toy_player(1-4)] by (auto simp: toy_fields)

lemma playback_fifo_witness:
  "\<exists>ins outs s'. pipe_run (play_offer toy_driver 0) (play_fetch toy_driver 0) [Offer [1, 2, 3], Fetch 0] toy_engine = (ins, outs, s') \<and>
    pending (dmap_of Play toy_engine) @ ins = outs @ pending (dmap_of Play s')"
proof -
  obtain ins outs s' where r: "pipe_run (play_offer toy_driver 0) (play_fetch toy_driver 0) [Offer [1, 2, 3], Fetch 0] toy_engine = (ins, outs, s')"
    by (metis prod_cases3)
  with playback_fifo[OF toy_player(1-3) r] show ?thesis by blast
qed

end
