(* ===== verification/Audio_Record_Laws.thy ===== *)
theory Audio_Record_Laws
  imports Audio_Playback_Laws
begin

text \<open>
  Recording without a conversion: the device's buffer refines the list of bytes that were
  recorded and not read. A non-blocking read takes what there is from the front; the device's
  interrupt appends a fragment, and an overrun drops the oldest one.
\<close>

section \<open>The engine that records\<close>

definition captured :: "'g dmap \<Rightarrow> bytes" where
  "captured d = ring_list (nat (bytes_in_use d)) (the (dm_dmabuf d)) (uint (user_counter d))
     (nat (uint (byte_counter d) - uint (user_counter d)))"

definition capture_ok :: "'g dmap \<Rightarrow> bool" where
  "capture_ok d \<longleftrightarrow> user_counter d \<le> byte_counter d \<and>
     uint (byte_counter d) \<le> uint (user_counter d) + bytes_in_use d \<and> uint (byte_counter d) < 2 ^ 63"

definition raw_record :: "'g dmap \<Rightarrow> bool" where
  "raw_record d \<longleftrightarrow> dma_mode d = PCM_ENABLE_INPUT \<and> dm_has DMAP_PREPARED d \<and> \<not> dm_has DMAP_COOKED d \<and>
     ring_ok d \<and> capture_ok d \<and> dm_buffsize d = bytes_in_use d"

definition recorder :: "('g, 'h) audio_env \<Rightarrow> int \<Rightarrow> ('g, 'h) engine \<Rightarrow> bool" where
  "recorder E dev s \<longleftrightarrow> \<not> bad_engine E dev s \<and> ad_flags s AND ADEV_NOINPUT = 0 \<and>
     ad_open_mode s AND PCM_ENABLE_INPUT \<noteq> 0 \<and> ad_open_flags s AND OF_BLOCK = 0 \<and>
     a_get_input_pointer E = None \<and> raw_record (dmap_of Rec s)"

lemma capture_le: "capture_ok d \<Longrightarrow> uint (user_counter d) \<le> uint (byte_counter d)"
  by (simp add: capture_ok_def word_le_def)

lemma length_captured: "length (captured d) = nat (uint (byte_counter d) - uint (user_counter d))"
  by (simp add: captured_def)

lemma input_count_captured:
  assumes "raw_record (dmap_of Rec s)"
  shows "input_count s = int (length (captured (dmap_of Rec s)))"
proof -
  let ?d = "dmap_of Rec s"
  have c: "capture_ok ?d" "ring_ok ?d" using assms by (simp_all add: raw_record_def)
  have "uint (byte_counter ?d - user_counter ?d) = uint (byte_counter ?d) - uint (user_counter ?d)"
    using c(1) by (intro uint_sub_small) (simp add: capture_ok_def)
  moreover have "uint (byte_counter ?d) - uint (user_counter ?d) < 2 ^ 31"
    using c(1) ring_facts[OF c(2)] by (simp add: capture_ok_def)
  ultimately have "to_int (byte_counter ?d - user_counter ?d) = uint (byte_counter ?d) - uint (user_counter ?d)"
    using to_int_small[of "byte_counter ?d - user_counter ?d"] by simp
  then show ?thesis using capture_le[OF c(1)] by (simp add: input_count_def Let_def length_captured)
qed

text \<open>The part of the ring that is read at once: up to the end of the data or of the buffer.\<close>

lemma input_part_captured:
  assumes "raw_record d" and "captured d \<noteq> []"
  defines "offs \<equiv> uint (user_counter d) mod bytes_in_use d"
  defines "n \<equiv> min (int (length (captured d))) (bytes_in_use d - offs)"
  shows "input_part d = Some (offs, n)" and "0 < n"
proof -
  let ?U = "bytes_in_use d"
  have ring: "ring_ok d" and cap: "capture_ok d" and sz: "dm_buffsize d = ?U"
    using assms(1) by (simp_all add: raw_record_def)
  note u = ring_facts[OF ring] and le = capture_le[OF cap]
  have U31: "?U < 2 ^ 31" using u by simp
  obtain w where w: "modu (user_counter d) ?U = Some w" "uint w = offs"
    using modu_small[OF u(1) U31, of "user_counter d"] by (auto simp: offs_def)
  define doffs where "doffs = uint (byte_counter d) mod ?U"
  obtain v where v: "modu (byte_counter d) ?U = Some v" "uint v = doffs"
    using modu_small[OF u(1) U31, of "byte_counter d"] by (auto simp: doffs_def)
  have o: "0 \<le> offs" "offs < ?U" "0 \<le> doffs" "doffs < ?U" using u by (simp_all add: offs_def doffs_def)
  define m where "m = uint (byte_counter d) - uint (user_counter d)"
  have "0 < length (captured d)" using assms(2) by simp
  then have m: "0 < m" "m \<le> ?U" "int (length (captured d)) = m"
    using cap unfolding length_captured m_def by (auto simp: capture_ok_def)
  have d: "doffs = (offs + m) mod ?U" by (simp add: doffs_def offs_def m_def mod_simps)
  have step: "doffs = (if offs + m < ?U then offs + m else offs + m - ?U)"
    using o m mod_pos_pos_trivial[of "offs + m - ?U" ?U] unfolding d by (auto simp: mod_pos_pos_trivial)
  have le': "w \<le> v \<longleftrightarrow> offs \<le> doffs" by (simp add: word_le_def w v)
  have sub: "offs \<le> doffs \<Longrightarrow> to_int (v - w) = doffs - offs"
    using o U31 uint_sub_small[of w v] le' w v to_int_small[of "v - w"] by simp
  have sub': "to_int (word_of_int ?U - w) = ?U - offs"
  proof -
    have "uint (word_of_int ?U :: u64) = ?U" using u by (intro uint_of_small) auto
    moreover from this have "w \<le> word_of_int ?U" using o w by (simp add: word_le_def)
    ultimately show ?thesis
      using uint_sub_small[of w "word_of_int ?U"] w o U31 to_int_small[of "word_of_int ?U - w"] by simp
  qed
  show "0 < n" using m o by (simp add: n_def)
  have "(if w \<le> v then to_int (v - w) else to_int (word_of_int ?U - w)) = (if offs \<le> doffs then doffs - offs else ?U - offs)"
    using le' sub sub' by simp
  then show "input_part d = Some (offs, n)"
    using u(1) o m step by (auto simp: input_part_def w v sz Let_def n_def min_def)
qed

section \<open>A read\<close>

lemma nonblock_data_loop:
  "ad_nonblock s \<Longrightarrow> data_loop E (Suc k) lim n s = (if n < lim then fail OSS_EAGAIN s else done_with () s)"
  by simp

lemma find_space_record:
  assumes "recorder E dev s" and "ad_nonblock s"
  defines "d \<equiv> dmap_of Rec s"
  shows "captured d = [] \<Longrightarrow> find_input_space E s = Some (Inl OSS_EAGAIN, s)"
    and "captured d \<noteq> [] \<Longrightarrow> find_input_space E s =
      Some (Inr (From_Device (uint (user_counter d) mod bytes_in_use d),
        min (int (length (captured d))) (bytes_in_use d - uint (user_counter d) mod bytes_in_use d)), s)"
proof -
  have rec: "raw_record d" "\<not> dm_has DMAP_COOKED d" and nil: "a_get_input_pointer E = None"
    using assms(1) by (simp_all add: recorder_def raw_record_def d_def)
  have adj: "adjust_input E s = Some s" by (simp add: adjust_input_def get_input_pointer_def nil Let_def)
  have loop: "data_loop E 101 1 n s = (if n < 1 then fail OSS_EAGAIN s else done_with () s)" for n
    using nonblock_data_loop[OF assms(2), of E 100 1 n] by (simp add: numeral_eq_Suc)
  have cnt: "input_count s = int (length (captured d))" using input_count_captured[of s] rec by (simp add: d_def)
  have raw: "find_raw_input_space E s = (if captured d = [] then Some (Inl OSS_EAGAIN, s)
      else map_option (\<lambda>p. (Inr p, s)) (input_part d))"
  proof (cases "captured d = []")
    case True
    then have "audio_and (data_loop E 101 1 (input_count s) s) f = Some (Inl OSS_EAGAIN, s)" for f :: "unit \<Rightarrow> _ \<Rightarrow> (int \<times> int, _, _) audio_result"
      unfolding loop cnt by simp
    then show ?thesis using True rec(2) by (simp add: find_raw_input_space_def adj Let_def flip: d_def)
  next
    case False
    then have "audio_and (data_loop E 101 1 (input_count s) s) f = f () s" for f :: "unit \<Rightarrow> _ \<Rightarrow> (int \<times> int, _, _) audio_result"
      unfolding loop cnt using False by (simp add: Suc_le_eq)
    then show ?thesis using False rec(2) by (simp add: find_raw_input_space_def adj Let_def flip: d_def)
  qed
  show "captured d = [] \<Longrightarrow> find_input_space E s = Some (Inl OSS_EAGAIN, s)"
    using rec(2) by (simp add: find_input_space_def raw flip: d_def)
  assume "captured d \<noteq> []"
  with input_part_captured[OF rec(1) this] rec(2) show "find_input_space E s =
      Some (Inr (From_Device (uint (user_counter d) mod bytes_in_use d),
        min (int (length (captured d))) (bytes_in_use d - uint (user_counter d) mod bytes_in_use d)), s)"
    by (simp add: find_input_space_def raw done_with_def flip: d_def)
qed

lemma peek_ring:
  assumes "0 < U" and "0 \<le> n" and "t mod U + n \<le> U" and "nat U \<le> length xs"
  shows "peek (t mod U) n (Some xs) = Some (ring_list (nat U) xs t (nat n))"
proof -
  let ?o = "t mod U"
  have o: "0 \<le> ?o" using assms(1) by simp
  have le: "?o + n \<le> int (length xs)" using assms by linarith
  have "take (nat n) (drop (nat ?o) xs) = ring_list (nat U) xs t (nat n)"
  proof (rule nth_equalityI)
    fix i assume "i < length (take (nat n) (drop (nat ?o) xs))"
    then have n: "i < nat n" "i < length xs - nat ?o" by simp_all
    then have i: "int i < n" "nat ?o + i < length xs" by linarith+
    have "(t + int i) mod U = (?o + int i) mod U" by (simp add: mod_simps)
    also have "\<dots> = ?o + int i" using i o assms(3) by (intro mod_pos_pos_trivial) auto
    finally have "nat ((t + int i) mod int (nat U)) = nat ?o + i" using o assms(1) by (simp add: nat_add_distrib)
    then show "take (nat n) (drop (nat ?o) xs) ! i = ring_list (nat U) xs t (nat n) ! i"
      using i n(1) assms(1) by (simp add: ring_list_def)
  qed (use o le in auto)
  then show ?thesis using o le assms(2) by (simp add: peek_def)
qed

lemma ring_end: "(a + (n - a mod n)) mod n = (0 :: int)"
proof -
  have "a + (n - a mod n) = n * (a div n + 1)" by (simp add: algebra_simps minus_mod_eq_mult_div[symmetric])
  then show ?thesis by simp
qed

text \<open>A round of a read takes \<open>k\<close> bytes from the front: all data, all that the application wants,
  or all up to the end of the buffer.\<close>

definition same_device :: "'g dmap \<Rightarrow> 'g dmap \<Rightarrow> bool" where
  "same_device d d' \<longleftrightarrow> byte_counter d' = byte_counter d \<and> fragment_size d' = fragment_size d \<and>
     nfrags d' = nfrags d \<and> bytes_in_use d' = bytes_in_use d \<and> dm_flags (dm_cnv d') = dm_flags (dm_cnv d)"

definition took :: "('g, 'h) audio_env \<Rightarrow> int \<Rightarrow> nat \<Rightarrow> ('g, 'h) engine \<Rightarrow> ('g, 'h) engine \<Rightarrow> bool" where
  "took E dev k s s' \<longleftrightarrow> recorder E dev s' \<and> ad_nonblock s' \<and> k \<le> length (captured (dmap_of Rec s)) \<and>
     captured (dmap_of Rec s') = drop k (captured (dmap_of Rec s)) \<and>
     same_device (dmap_of Rec s) (dmap_of Rec s') \<and>
     uint (user_counter (dmap_of Rec s')) = uint (user_counter (dmap_of Rec s)) + int k"

lemma took_trans: "took E dev k s s1 \<Longrightarrow> took E dev m s1 s2 \<Longrightarrow> took E dev (k + m) s s2"
  by (auto simp: took_def same_device_def add.commute)

lemma took_refl: "recorder E dev s \<Longrightarrow> ad_nonblock s \<Longrightarrow> took E dev 0 s s"
  by (simp add: took_def same_device_def)

definition taken :: "int \<Rightarrow> 'g dmap \<Rightarrow> nat" where
  "taken c d = nat (min c (min (int (length (captured d))) (bytes_in_use d - uint (user_counter d) mod bytes_in_use d)))"

lemma advance_captured:
  assumes "raw_record d" and "k \<le> length (captured d)"
  defines "d' \<equiv> (upd_cnv (\<lambda>c. c\<lparr>tmpbuf_ptr := 0, tmpbuf_len := 0\<rparr>) d)\<lparr>user_counter := user_counter d + word_of_int (int k)\<rparr>"
  shows "raw_record d'" and "captured d' = drop k (captured d)" and "uint (user_counter d') = uint (user_counter d) + int k"
    and "same_device d d'"
proof -
  have ring: "ring_ok d" and cap: "capture_ok d" using assms(1) by (simp_all add: raw_record_def)
  have le: "uint (user_counter d) + int k \<le> uint (byte_counter d)"
    using assms(2) capture_le[OF cap] by (simp add: length_captured)
  then have uc: "uint (user_counter d + word_of_int (int k)) = uint (user_counter d) + int k"
    using cap by (intro uint_add_small) (auto simp: capture_ok_def)
  then show "uint (user_counter d') = uint (user_counter d) + int k" by (simp add: d'_def)
  show "same_device d d'" by (simp add: same_device_def d'_def upd_cnv_def)
  show "raw_record d'"
    using assms(1) le uc[simplified]
    by (simp add: raw_record_def ring_ok_def capture_ok_def d'_def upd_cnv_def dm_has_def word_le_def)
  have n: "k \<le> nat (uint (byte_counter d) - uint (user_counter d))" using le by linarith
  moreover have "nat (uint (byte_counter d) - (uint (user_counter d) + int k)) = nat (uint (byte_counter d) - uint (user_counter d)) - k"
    using le by linarith
  ultimately show "captured d' = drop k (captured d)"
    using uc[simplified] by (simp add: captured_def d'_def upd_cnv_def drop_ring_list[OF n])
qed

lemma read_round_record:
  assumes "recorder E dev s" and "ad_nonblock s" and "0 < c"
  defines "d \<equiv> dmap_of Rec s"
  shows "captured d = [] \<Longrightarrow> read_round E c s = Some (Inl OSS_EAGAIN, s)"
    and "captured d \<noteq> [] \<Longrightarrow> \<exists>s'. read_round E c s = Some (Inr (take (taken c d) (captured d)), s') \<and>
      took E dev (taken c d) s s' \<and> 0 < taken c d"
proof -
  note space = find_space_record[OF assms(1,2), folded d_def]
  show "captured d = [] \<Longrightarrow> read_round E c s = Some (Inl OSS_EAGAIN, s)" by (simp add: read_round_def space)
  assume ne: "captured d \<noteq> []"
  have rec: "raw_record d" using assms(1) by (simp add: recorder_def d_def)
  then have ring: "ring_ok d" "\<not> dm_has DMAP_COOKED d" by (simp_all add: raw_record_def)
  note u = ring_facts[OF ring(1)]
  let ?o = "uint (user_counter d) mod bytes_in_use d"
  let ?l = "min (int (length (captured d))) (bytes_in_use d - ?o)"
  define k where "k = taken c d"
  have l: "0 < ?l" by (rule input_part_captured(2)[OF rec ne])
  then have k: "int k = (if c < ?l then c else ?l)" "0 < k" "k \<le> length (captured d)" "int k \<le> bytes_in_use d - ?o"
    using assms(3) by (auto simp: k_def taken_def)
  define s' where "s' = move_rdpointer (int k) s"
  have s': "s' = upd_dmap Rec (\<lambda>d. (upd_cnv (\<lambda>c. c\<lparr>tmpbuf_ptr := 0, tmpbuf_len := 0\<rparr>) d)\<lparr>user_counter := user_counter d + word_of_int (int k)\<rparr>) s"
    using ring(2) by (simp add: s'_def move_rdpointer_def move_raw_rdpointer_def upd_cnv_def flip: d_def)
  note adv = advance_captured[OF rec k(3)]
  have "peek ?o (int k) (dm_dmabuf d) = Some (ring_list (nat (bytes_in_use d)) (the (dm_dmabuf d)) (uint (user_counter d)) k)"
    using peek_ring[OF u(1) _ _ u(4), of "int k" "uint (user_counter d)"] k(4) u(3) by simp
  also have "ring_list (nat (bytes_in_use d)) (the (dm_dmabuf d)) (uint (user_counter d)) k = take k (captured d)"
    using k(3) by (simp add: captured_def take_ring_list)
  finally have "peek ?o (int k) (dm_dmabuf d) = Some (take k (captured d))" .
  moreover have "read_round E c s = map_option (\<lambda>bs. (Inr bs, move_rdpointer (if c < ?l then c else ?l) s))
      (source_bytes (From_Device ?o) (if c < ?l then c else ?l) d)"
    by (simp only: read_round_def space(2)[OF ne] audio_and_simps Let_def split flip: d_def)
  ultimately have "read_round E c s = Some (Inr (take k (captured d)), s')"
    unfolding k(1)[symmetric] by (simp add: source_bytes_def s'_def)
  moreover have "took E dev k s s'"
    using assms(1,2) adv k(3) unfolding s' by (simp add: took_def recorder_def bad_engine_def d_def)
  ultimately show "\<exists>s'. read_round E c s = Some (Inr (take (taken c d) (captured d)), s') \<and>
      took E dev (taken c d) s s' \<and> 0 < taken c d" using k(2) by (auto simp flip: k_def)
qed

definition read_result :: "int \<Rightarrow> int \<Rightarrow> bytes \<Rightarrow> (int \<times> bytes) oss_result" where
  "read_result count c out = (if 0 < c \<and> c = count then Inl OSS_EAGAIN else Inr (count - c, out))"

lemma read_rounds_stop:
  assumes "recorder E dev s" and "ad_nonblock s" and "c \<le> 0 \<or> captured (dmap_of Rec s) = []"
  shows "read_rounds E (Suc n) count c out s = Some (read_result count c out, s)"
  using read_round_record(1)[OF assms(1,2)] assms(3)
  by (cases "c \<le> 0") (auto simp: read_result_def give_up_def done_with_def not_le)

lemma read_rounds_step:
  assumes "recorder E dev s" and "ad_nonblock s" and "0 < c" and "captured (dmap_of Rec s) \<noteq> []"
  shows "\<exists>s' k. k = taken c (dmap_of Rec s) \<and> 0 < k \<and> took E dev k s s' \<and>
    read_rounds E (Suc n) count c out s = read_rounds E n count (c - int k) (out @ take k (captured (dmap_of Rec s))) s'"
proof -
  from read_round_record(2)[OF assms] obtain s' where
    r: "read_round E c s = Some (Inr (take (taken c (dmap_of Rec s)) (captured (dmap_of Rec s))), s')"
    "took E dev (taken c (dmap_of Rec s)) s s'" "0 < taken c (dmap_of Rec s)" by blast
  then have "min (length (captured (dmap_of Rec s))) (taken c (dmap_of Rec s)) = taken c (dmap_of Rec s)"
    by (simp add: took_def min_absorb2)
  with r assms(3) show ?thesis by (intro exI[of _ s'] exI[of _ "taken c (dmap_of Rec s)"]) simp
qed

lemma read_rounds_all:
  assumes "recorder E dev s" and "ad_nonblock s" and "0 \<le> count"
  defines "N \<equiv> nat (min count (int (length (captured (dmap_of Rec s)))))"
  shows "\<exists>s'. read_rounds E 1000 count count [] s =
      Some (read_result count (count - int N) (take N (captured (dmap_of Rec s))), s') \<and> took E dev N s s'"
proof (cases "count = 0 \<or> captured (dmap_of Rec s) = []")
  case True
  then have "N = 0" using assms(3) by (auto simp: N_def)
  moreover have "1000 = Suc 999" by simp
  ultimately show ?thesis
    using True read_rounds_stop[OF assms(1,2), of count 999 count "[]"] took_refl[OF assms(1,2)] assms(3) by auto
next
  case False
  let ?d = "dmap_of Rec s"
  have "1000 = Suc (Suc (Suc 997))" by simp
  moreover from read_rounds_step[OF assms(1,2), of count "Suc (Suc 997)" count "[]"] False assms(3) obtain s1 k where
    k: "k = taken count ?d" "0 < k" "took E dev k s s1"
      "read_rounds E (Suc (Suc (Suc 997))) count count [] s = read_rounds E (Suc (Suc 997)) count (count - int k) (take k (captured ?d)) s1"
    by auto
  ultimately have r: "read_rounds E 1000 count count [] s = read_rounds E (Suc (Suc 997)) count (count - int k) (take k (captured ?d)) s1"
    by simp
  let ?d1 = "dmap_of Rec s1"
  have t: "recorder E dev s1" "ad_nonblock s1" "k \<le> length (captured ?d)" "captured ?d1 = drop k (captured ?d)"
    "bytes_in_use ?d1 = bytes_in_use ?d" "uint (user_counter ?d1) = uint (user_counter ?d) + int k"
    using k(3) by (simp_all add: took_def same_device_def)
  have kN: "int k \<le> count" using k(1) assms(3) by (auto simp: taken_def)
  show ?thesis
  proof (cases "count - int k \<le> 0 \<or> captured ?d1 = []")
    case True
    then have "N = k" using kN t(3,4) by (auto simp: N_def min_def)
    with r read_rounds_stop[OF t(1,2) True, of "Suc 997" count "take k (captured ?d)"] k(3) show ?thesis by auto
  next
    case more: False
    then have c1: "0 < count - int k" "captured ?d1 \<noteq> []" by auto
    from read_rounds_step[OF t(1,2) c1, of "Suc 997" count "take k (captured ?d)"] obtain s2 m where
      m: "m = taken (count - int k) ?d1" "took E dev m s1 s2"
        "read_rounds E (Suc (Suc 997)) count (count - int k) (take k (captured ?d)) s1 =
          read_rounds E (Suc 997) count (count - int k - int m) (take k (captured ?d) @ take m (captured ?d1)) s2" by auto
    have raw: "raw_record ?d1" using t(1) by (simp add: recorder_def)
    have "int k = bytes_in_use ?d - uint (user_counter ?d) mod bytes_in_use ?d"
      using k(1,2) c1 t(3,4) by (auto simp: taken_def min_def split: if_splits)
    then have "uint (user_counter ?d1) mod bytes_in_use ?d1 = 0"
      unfolding t(5,6) by (simp only: ring_end)
    moreover have "int (length (captured ?d1)) \<le> bytes_in_use ?d1"
      using raw capture_le[of ?d1] by (auto simp: raw_record_def capture_ok_def length_captured)
    ultimately have m': "int m = min (count - int k) (int (length (captured ?d1)))" using m(1) c1(1) by (auto simp: taken_def)
    then have N: "N = k + m" using kN t(3,4) by (auto simp: N_def min_def of_nat_diff)
    have "took E dev N s s2" unfolding N by (rule took_trans[OF k(3) m(2)])
    moreover have "count - int k - int m \<le> 0 \<or> captured (dmap_of Rec s2) = []"
      using m' m(2) by (auto simp: took_def min_def split: if_splits)
    moreover have "recorder E dev s2" "ad_nonblock s2" using m(2) by (simp_all add: took_def)
    ultimately show ?thesis
      using r m(3) read_rounds_stop[of E dev s2 "count - int k - int m" 997 count "take k (captured ?d) @ take m (captured ?d1)"]
      by (auto simp: N t(4) take_add diff_diff_eq)
  qed
qed

lemma read_takes:
  assumes "recorder E dev s" and "0 \<le> count"
  defines "rec \<equiv> captured (dmap_of Rec s)"
  defines "n \<equiv> min (nat count) (length rec)"
  shows "\<exists>s'. oss_audio_read E dev (Some True) count s =
      Some (if n = 0 \<and> 0 < count then Inl OSS_EAGAIN else Inr (int n, take n rec), s') \<and> took E dev n s s'"
proof -
  define s0 where "s0 = (bump_seed s)\<lparr>ad_nonblock := True\<rparr>"
  have dm: "dmap_of Rec s0 = dmap_of Rec s" by (simp add: s0_def)
  have p: "recorder E dev s0" "ad_nonblock s0"
    using assms(1) unfolding recorder_def dm by (simp_all add: s0_def bump_seed_def bad_engine_def)
  have nb: "set_nonblock (Some True) (bump_seed s) = s0"
    using assms(1) by (simp add: set_nonblock_def s0_def recorder_def bump_seed_def)
  have mode: "dma_mode (dmap_of Rec s) = PCM_ENABLE_INPUT" "dm_has DMAP_PREPARED (dmap_of Rec s)"
    using assms(1) by (simp_all add: recorder_def raw_record_def)
  then have "start_read E (Some True) (bump_seed s) = done_with () s0"
    by (simp add: start_read_def nb dm Let_def) (simp add: audio_flags)
  then have call: "oss_audio_read E dev (Some True) count s = read_rounds E 1000 count count [] s0"
    using assms(1) by (simp add: oss_audio_read_def recorder_def Let_def bump_seed_def bad_engine_def)
  have N: "nat (min count (int (length rec))) = n" using assms(2) by (auto simp: n_def min_def nat_le_iff le_nat_iff)
  from read_rounds_all[OF p assms(2), unfolded dm, folded rec_def, unfolded N] obtain s' where
    r: "read_rounds E 1000 count count [] s0 = Some (read_result count (count - int n) (take n rec), s')" "took E dev n s0 s'"
    by blast
  have "read_result count (count - int n) (take n rec) = (if n = 0 \<and> 0 < count then Inl OSS_EAGAIN else Inr (int n, take n rec))"
    by (simp add: read_result_def)
  with r show ?thesis unfolding call by (intro exI[of _ s']) (simp add: took_def dm rec_def)
qed


section \<open>The interrupt\<close>

text \<open>The device writes a fragment at its position and then interrupts.\<close>

definition dma_fill :: "bytes \<Rightarrow> 'g dmap \<Rightarrow> 'g dmap" where
  "dma_fill bs d = d\<lparr>dm_dmabuf := poke (uint (byte_counter d) mod bytes_in_use d) bs (dm_dmabuf d)\<rparr>"

definition whole_fragments :: "'g dmap \<Rightarrow> bool" where
  "whole_fragments d \<longleftrightarrow> 2 \<le> nfrags d \<and> fragment_size d dvd uint (byte_counter d)"

lemma fragment_room:
  assumes "ring_ok d" and "whole_fragments d"
  shows "uint (byte_counter d) mod bytes_in_use d + fragment_size d \<le> bytes_in_use d"
proof -
  let ?F = "fragment_size d" and ?U = "bytes_in_use d" and ?x = "uint (byte_counter d) mod bytes_in_use d"
  have F: "0 < ?F" "?F dvd ?U" using assms(1) by (simp_all add: ring_ok_def)
  have "?F dvd ?x" using assms(2) F(2) by (simp add: whole_fragments_def dvd_mod)
  then have "?F dvd ?U - ?x" using F(2) by simp
  moreover have "0 < ?U - ?x" using ring_facts(1)[OF assms(1)] by simp
  ultimately show ?thesis using zdvd_imp_le[of ?F "?U - ?x"] by linarith
qed

lemma fragment_room_nat:
  assumes "ring_ok d" and "whole_fragments d" and "int (length bs) = fragment_size d"
  shows "nat (uint (byte_counter d) mod bytes_in_use d) + length bs \<le> nat (bytes_in_use d)"
proof -
  let ?x = "uint (byte_counter d) mod bytes_in_use d"
  have "int (nat ?x) = ?x" using ring_facts(1)[OF assms(1)] by simp
  then show ?thesis using fragment_room[OF assms(1,2)] assms(3) by linarith
qed

lemma dma_fill_props:
  assumes "raw_record d" and "whole_fragments d" and "int (length bs) = fragment_size d"
  shows "\<exists>ys. dma_fill bs d = d\<lparr>dm_dmabuf := Some ys\<rparr> \<and> length ys = length (the (dm_dmabuf d)) \<and>
    ys = take (nat (uint (byte_counter d) mod bytes_in_use d)) (the (dm_dmabuf d)) @ bs @
      drop (nat (uint (byte_counter d) mod bytes_in_use d) + length bs) (the (dm_dmabuf d))"
proof -
  have ring: "ring_ok d" using assms(1) by (simp add: raw_record_def)
  note u = ring_facts[OF ring]
  let ?o = "uint (byte_counter d) mod bytes_in_use d" and ?xs = "the (dm_dmabuf d)"
  have o: "0 \<le> ?o" using u(1) by simp
  have le: "?o + int (length bs) \<le> int (length ?xs)" using fragment_room[OF ring assms(2)] assms(3) u(4) by linarith
  show ?thesis
    using poke_in[OF o le] u(3) o le
    by (intro exI[of _ "take (nat ?o) ?xs @ bs @ drop (nat ?o + length bs) ?xs"]) (auto simp: dma_fill_def)
qed

definition shifted :: "'g dmap \<Rightarrow> 'g dmap" where
  "shifted d = d\<lparr>user_counter := user_counter d + word_of_int (fragment_size d), rec_overruns := rec_overruns d + 1\<rparr>"

lemma drop_overrun_once:
  assumes "user_counter d \<le> byte_counter d" and "0 < bytes_in_use d" and "0 < fragment_size d" "fragment_size d \<le> bytes_in_use d"
    and "bytes_in_use d < 2 ^ 30" and "uint (byte_counter d) \<le> uint (user_counter d) + bytes_in_use d + fragment_size d"
    and "uint (byte_counter d) < 2 ^ 63"
  shows "drop_overrun d = Some (if bytes_in_use d < uint (byte_counter d) - uint (user_counter d) then shifted d else d)"
proof -
  let ?n = "\<lambda>d :: 'a dmap. uint (byte_counter d) - uint (user_counter d)"
  have gap: "to_int (byte_counter e - user_counter e) = ?n e" if "user_counter e \<le> byte_counter e" "?n e < 2 ^ 31" for e :: "'a dmap"
    using that uint_sub_small[of "user_counter e" "byte_counter e"] to_int_small[of "byte_counter e - user_counter e"] by simp
  have n: "?n d < 2 ^ 31" using assms by simp
  have ov: "overrun d \<longleftrightarrow> bytes_in_use d < ?n d"
    using gap[OF assms(1) n] assms(2) by (auto simp: overrun_def word_less_def)
  show ?thesis
  proof (cases "bytes_in_use d < ?n d")
    case False
    then have "rounds k overrun f d = Some d" for k f using ov by (cases k) auto
    with False show ?thesis by (simp add: drop_overrun_def)
  next
    case True
    then obtain k where k: "nat (to_int (byte_counter d - user_counter d)) = Suc k"
      using gap[OF assms(1) n] assms(2) by (metis not0_implies_Suc nat_eq_iff zero_less_nat_eq less_trans less_numeral_extra(3))
    have uc: "uint (user_counter d + word_of_int (fragment_size d)) = uint (user_counter d) + fragment_size d"
      using assms True by (intro uint_add_small) auto
    then have "user_counter (shifted d) \<le> byte_counter (shifted d)" "?n (shifted d) \<le> bytes_in_use d" "bytes_in_use (shifted d) = bytes_in_use d"
      using assms True by (simp_all add: shifted_def word_le_def)
    then have "\<not> overrun (shifted d)" using gap[of "shifted d"] assms(5) by (auto simp: overrun_def)
    then have "rounds k overrun f (shifted d) = Some (shifted d)" for f by (cases k) auto
    with True ov k show ?thesis by (simp add: drop_overrun_def shifted_def)
  qed
qed

lemma qtail_total: "ring_ok d \<Longrightarrow> \<exists>q. dmap_get_qtail d = Some q"
  using frag_index_total[of d] by (auto simp: dmap_get_qtail_def)

lemma start_next_hw:
  assumes "quiet_driver E" and "ring_ok (dmap_of Rec s)"
  shows "\<exists>h. start_next E s = Some (s\<lparr>ad_hw := h\<rparr>)"
proof -
  obtain q where q: "dmap_get_qtail (dmap_of Rec s) = Some q"
    using qtail_total[OF assms(2)] by blast
  show ?thesis
  proof (cases "ad_flags s AND ADEV_AUTOMODE \<noteq> 0 \<or> a_start_input E = None")
    case True
    then show ?thesis using hw_only_apply[OF hw_only_id, of s] by (auto simp: start_next_def q Let_def)
  next
    case False
    then obtain f where f: "a_start_input E = Some f" by auto
    with assms(1) have "\<forall>a b c e. hw_only (f a b c e)" by (simp add: quiet_driver_def)
    then show ?thesis using False f by (simp add: start_next_def q Let_def hw_only_def)
  qed
qed

lemma do_inputintr_quiet:
  assumes "quiet_driver E" and "Option.bind (drop_overrun (tick fl (dmap_of Rec s))) next_fragment = Some d" and "ring_ok d"
  shows "\<exists>h. do_inputintr E fl s = Some (upd_dmap Rec (\<lambda>_. d) (s\<lparr>ad_hw := h\<rparr>))"
proof -
  define s1 where "s1 = upd_dmap Rec (\<lambda>_. d) s"
  obtain h1 where h1: "wake E Rec s1 = s1\<lparr>ad_hw := h1\<rparr>" using quiet_system(1)[OF assms(1)] unfolding wake_def by blast
  obtain h2 where h2: "start_next E (s1\<lparr>ad_hw := h1\<rparr>) = Some (s1\<lparr>ad_hw := h2\<rparr>)"
    using start_next_hw[OF assms(1), of "s1\<lparr>ad_hw := h1\<rparr>"] assms(3) by (auto simp: s1_def)
  obtain h3 where h3: "callback E Rec (s1\<lparr>ad_hw := h2\<rparr>) = s1\<lparr>ad_hw := h3\<rparr>"
  proof (cases "has_callback (dmap_of Rec (s1\<lparr>ad_hw := h2\<rparr>))")
    case True
    obtain h where "a_callback E Rec (s1\<lparr>ad_hw := h2\<rparr>) = s1\<lparr>ad_hw := h2, ad_hw := h\<rparr>"
      using quiet_system(2)[OF assms(1)] by blast
    with True that[of h] show ?thesis by (simp add: callback_def)
  next
    case False
    with that[of h2] show ?thesis by (simp add: callback_def)
  qed
  have "s1\<lparr>ad_hw := h3\<rparr> = upd_dmap Rec (\<lambda>_. d) (s\<lparr>ad_hw := h3\<rparr>)" by (simp add: s1_def upd_dmap_def)
  with h2 h3 assms(2) show ?thesis by (auto simp: do_inputintr_def h1 simp flip: s1_def)
qed

text \<open>The buffer after the interrupt: the fragment is appended, or the oldest fragment makes room.\<close>

definition recorded_fragment :: "bytes \<Rightarrow> 'g dmap \<Rightarrow> 'g dmap \<Rightarrow> bool" where
  "recorded_fragment bs d d' \<longleftrightarrow> raw_record d' \<and> whole_fragments d' \<and> dm_flags (dm_cnv d') = dm_flags (dm_cnv d) \<and>
     captured d' = (if int (length (captured d)) + fragment_size d \<le> bytes_in_use d then captured d @ bs
                    else drop (nat (fragment_size d)) (captured d @ bs))"

lemma fragment_appended:
  assumes "raw_record d" and "whole_fragments d" and "int (length bs) = fragment_size d"
    and "uint (byte_counter d) + fragment_size d < 2 ^ 63"
    and "int (length (captured d)) + fragment_size d \<le> bytes_in_use d"
  defines "d2 \<equiv> advanced (dma_fill bs d)"
  shows "drop_overrun (tick 0 (dma_fill bs d)) = Some (tick 0 (dma_fill bs d))" and "recorded_fragment bs d d2"
proof -
  let ?F = "fragment_size d" and ?U = "bytes_in_use d" and ?u = "uint (user_counter d)" and ?b = "uint (byte_counter d)"
  have ring: "ring_ok d" and cap: "capture_ok d" using assms(1) by (simp_all add: raw_record_def)
  note u = ring_facts[OF ring] and le = capture_le[OF cap]
  have F: "0 < ?F" using ring by (simp add: ring_ok_def)
  from dma_fill_props[OF assms(1-3)] obtain ys where ys: "dma_fill bs d = d\<lparr>dm_dmabuf := Some ys\<rparr>"
    "length ys = length (the (dm_dmabuf d))"
    "ys = take (nat (?b mod ?U)) (the (dm_dmabuf d)) @ bs @ drop (nat (?b mod ?U) + length bs) (the (dm_dmabuf d))" by blast
  have b: "uint (byte_counter d + word_of_int ?F) = ?b + ?F" using assms(4) F by (intro uint_add_small) auto
  have fits: "?b - ?u + ?F \<le> ?U" using assms(5) le by (simp add: length_captured)
  show "drop_overrun (tick 0 (dma_fill bs d)) = Some (tick 0 (dma_fill bs d))"
    using drop_overrun_once[of "tick 0 (dma_fill bs d)"] u F b le fits assms(4) by (simp add: ys(1) tick_def word_le_def)
  let ?n = "nat (?b - ?u)"
  have "captured d2 = captured d @ bs"
  proof -
    have "nat (?b mod ?U) + length bs \<le> nat ?U"
      by (rule fragment_room_nat[OF ring assms(2,3)])
    moreover have "int (nat (?b mod ?U)) = (?u + int ?n) mod int (nat ?U)" using u(1) le by simp
    moreover have "?n + length bs \<le> nat ?U" using fits assms(3) le by linarith
    ultimately have "ring_list (nat ?U) ys ?u (?n + length bs) = ring_list (nat ?U) (the (dm_dmabuf d)) ?u ?n @ bs"
      using ring_list_block[OF _ _ _ u(4) ys(3)] by blast
    moreover have "nat (?b + ?F - ?u) = ?n + length bs" using assms(3) le by linarith
    ultimately show ?thesis by (simp add: captured_def d2_def advanced_def ys(1) b)
  qed
  moreover have "raw_record d2"
    using assms(1,4) b fits le F ys(2)
    by (simp add: raw_record_def ring_ok_def capture_ok_def d2_def advanced_def ys(1) word_le_def dm_has_def)
  moreover have "whole_fragments d2" using assms(2) b by (simp add: whole_fragments_def d2_def advanced_def ys(1))
  ultimately show "recorded_fragment bs d d2" using assms(5) by (simp add: recorded_fragment_def) (simp add: d2_def advanced_def ys(1))
qed

lemma fragment_replaces:
  assumes "raw_record d" and "whole_fragments d" and "int (length bs) = fragment_size d"
    and "uint (byte_counter d) + fragment_size d < 2 ^ 63"
    and "\<not> int (length (captured d)) + fragment_size d \<le> bytes_in_use d"
  defines "d2 \<equiv> advanced (shifted (dma_fill bs d))"
  shows "drop_overrun (tick 0 (dma_fill bs d)) = Some (shifted (tick 0 (dma_fill bs d)))" and "recorded_fragment bs d d2"
proof -
  let ?F = "fragment_size d" and ?U = "bytes_in_use d" and ?u = "uint (user_counter d)" and ?b = "uint (byte_counter d)"
  have ring: "ring_ok d" and cap: "capture_ok d" using assms(1) by (simp_all add: raw_record_def)
  note u = ring_facts[OF ring] and le = capture_le[OF cap]
  have F: "0 < ?F" using ring by (simp add: ring_ok_def)
  have "2 * ?F \<le> nfrags d * ?F" using assms(2) F by (intro mult_right_mono) (auto simp: whole_fragments_def)
  then have F2: "2 * ?F \<le> ?U" using ring by (simp add: ring_ok_def)
  from dma_fill_props[OF assms(1-3)] obtain ys where ys: "dma_fill bs d = d\<lparr>dm_dmabuf := Some ys\<rparr>"
    "length ys = length (the (dm_dmabuf d))"
    "ys = take (nat (?b mod ?U)) (the (dm_dmabuf d)) @ bs @ drop (nat (?b mod ?U) + length bs) (the (dm_dmabuf d))" by blast
  have b: "uint (byte_counter d + word_of_int ?F) = ?b + ?F" using assms(4) F by (intro uint_add_small) auto
  have full: "?U < ?b - ?u + ?F" "?b - ?u \<le> ?U" using assms(5) le cap by (auto simp: length_captured capture_ok_def)
  have uc: "uint (user_counter d + word_of_int ?F) = ?u + ?F" using assms(4) F le by (intro uint_add_small) auto
  show "drop_overrun (tick 0 (dma_fill bs d)) = Some (shifted (tick 0 (dma_fill bs d)))"
    using drop_overrun_once[of "tick 0 (dma_fill bs d)"] u F b le full assms(4) by (simp add: ys(1) tick_def word_le_def)
  let ?n = "nat (?b - ?u - ?F)"
  have n: "int ?n = ?b - ?u - ?F" using full F2 by simp
  have "?F \<le> ?b - ?u" using n by linarith
  then have len: "nat ?F \<le> length (captured d)" unfolding length_captured by (rule nat_mono)
  have "captured d2 = drop (nat ?F) (captured d) @ bs"
  proof -
    have "nat (?b mod ?U) + length bs \<le> nat ?U"
      by (rule fragment_room_nat[OF ring assms(2,3)])
    moreover have "int (nat (?b mod ?U)) = (?u + ?F + int ?n) mod int (nat ?U)" using u(1) n by simp
    moreover have "?n + length bs \<le> nat ?U" using full assms(3) n by linarith
    ultimately have "ring_list (nat ?U) ys (?u + ?F) (?n + length bs) = ring_list (nat ?U) (the (dm_dmabuf d)) (?u + ?F) ?n @ bs"
      using ring_list_block[OF _ _ _ u(4) ys(3)] by blast
    moreover have "nat (?b + ?F - (?u + ?F)) = ?n + length bs" using assms(3) n by linarith
    moreover have "drop (nat ?F) (captured d) = ring_list (nat ?U) (the (dm_dmabuf d)) (?u + ?F) ?n"
    proof -
      have "nat ?F \<le> nat (?b - ?u)" using len by (simp only: length_captured)
      moreover have "nat (?b - ?u) - nat ?F = ?n" using n F by linarith
      ultimately show ?thesis using F by (simp add: captured_def drop_ring_list)
    qed
    ultimately show ?thesis by (simp add: captured_def d2_def advanced_def shifted_def ys(1) b uc)
  qed
  moreover have "raw_record d2"
    using assms(1,4) b uc full le F ys(2)
    by (simp add: raw_record_def ring_ok_def capture_ok_def d2_def advanced_def shifted_def ys(1) word_le_def dm_has_def)
  moreover have "whole_fragments d2" using assms(2) b by (simp add: whole_fragments_def d2_def advanced_def shifted_def ys(1))
  ultimately show "recorded_fragment bs d d2"
    using assms(5) len by (simp add: recorded_fragment_def) (simp add: d2_def advanced_def shifted_def ys(1))
qed

lemma capture_step:
  assumes "raw_record d" and "whole_fragments d" and "int (length bs) = fragment_size d"
    and "uint (byte_counter d) + fragment_size d < 2 ^ 63"
  shows "\<exists>d2. Option.bind (drop_overrun (tick 0 (dma_fill bs d))) next_fragment = Some d2 \<and> recorded_fragment bs d d2"
proof -
  have "nfrags d \<noteq> 0" using assms(2) by (simp add: whole_fragments_def)
  then have nx: "next_fragment (tick 0 (dma_fill bs d)) = Some (advanced (dma_fill bs d))"
    "next_fragment (shifted (tick 0 (dma_fill bs d))) = Some (advanced (shifted (dma_fill bs d)))"
    by (simp_all add: next_fragment_def tick_def shifted_def dma_fill_def advanced_def)
  show ?thesis
  proof (cases "int (length (captured d)) + fragment_size d \<le> bytes_in_use d")
    case True
    from fragment_appended[OF assms True] nx show ?thesis by auto
  next
    case False
    from fragment_replaces[OF assms False] nx show ?thesis by auto
  qed
qed

lemma capture_fills:
  assumes "recorder E dev s" and "quiet_driver E" and "dm_has DMAP_STARTED (dmap_of Rec s)"
    and "whole_fragments (dmap_of Rec s)" and "int (length bs) = fragment_size (dmap_of Rec s)"
    and "uint (byte_counter (dmap_of Rec s)) + fragment_size (dmap_of Rec s) < 2 ^ 63"
  defines "d \<equiv> dmap_of Rec s"
  shows "\<exists>s'. audio_inputintr E dev 0 (upd_dmap Rec (dma_fill bs) s) = Some s' \<and> recorder E dev s' \<and>
    dm_has DMAP_STARTED (dmap_of Rec s') \<and> whole_fragments (dmap_of Rec s') \<and>
    captured (dmap_of Rec s') =
      (if int (length (captured d)) + fragment_size d \<le> bytes_in_use d then captured d @ bs
       else drop (nat (fragment_size d)) (captured d @ bs))"
proof -
  let ?s = "upd_dmap Rec (dma_fill bs) s"
  have raw: "raw_record d" using assms(1) by (simp add: recorder_def d_def)
  from capture_step[OF raw] assms obtain d2 where
    step: "Option.bind (drop_overrun (tick 0 (dma_fill bs d))) next_fragment = Some d2" "recorded_fragment bs d d2" by auto
  then have "ring_ok d2" by (simp add: recorded_fragment_def raw_record_def)
  with do_inputintr_quiet[OF assms(2), of 0 ?s d2] step(1) obtain h where
    intr: "do_inputintr E 0 ?s = Some (upd_dmap Rec (\<lambda>_. d2) (?s\<lparr>ad_hw := h\<rparr>))" by (auto simp: d_def)
  define s' where "s' = upd_dmap Rec (\<lambda>_. d2) (?s\<lparr>ad_hw := h\<rparr>)"
  have "running Rec ?s" using raw assms(3) by (simp add: running_def dir_mode_def raw_record_def dma_fill_def dm_has_def d_def)
  then have "audio_inputintr E dev 0 ?s = do_inputintr E 0 ?s"
    using assms(1) by (simp add: audio_inputintr_def recorder_def bad_engine_def)
  moreover have "dm_flags (dm_cnv d2) = dm_flags (dm_cnv d)" using step(2) by (simp add: recorded_fragment_def)
  ultimately show ?thesis
    using step(2) assms(1,3) intr
    by (intro exI[of _ s']) (auto simp: s'_def recorder_def bad_engine_def recorded_fragment_def dm_has_def d_def)
qed

text \<open>C27: When the device has written a fragment at its position, its interrupt appends the fragment to the
  recorded bytes, wherever the position lies in the ring; if the buffer has no room for it the
  oldest fragment is dropped, and all that stays is in order.\<close>

theorem capture_interrupt:
  assumes "recorder E dev s" and "quiet_driver E" and "dm_has DMAP_STARTED (dmap_of Rec s)"
    and "whole_fragments (dmap_of Rec s)" and "int (length bs) = fragment_size (dmap_of Rec s)"
    and "uint (byte_counter (dmap_of Rec s)) + fragment_size (dmap_of Rec s) < 2 ^ 63"
  defines "d \<equiv> dmap_of Rec s"
  shows "\<exists>s'. audio_inputintr E dev 0 (upd_dmap Rec (dma_fill bs) s) = Some s' \<and> recorder E dev s' \<and>
    dm_has DMAP_STARTED (dmap_of Rec s') \<and> whole_fragments (dmap_of Rec s') \<and>
    captured (dmap_of Rec s') =
      (if int (length (captured d)) + fragment_size d \<le> bytes_in_use d then captured d @ bs
       else drop (nat (fragment_size d)) (captured d @ bs))"
  unfolding d_def by (rule capture_fills[OF assms(1-6)])

section \<open>The device and the application\<close>

text \<open>The pipe between them: the device offers a fragment by writing it to the buffer and interrupting, when
  there is room for it, and the application fetches with a read. Sessions end before the
  counters reach \<open>2 ^ 63\<close>.\<close>

definition rec_offer :: "('g, 'h) audio_env \<Rightarrow> int \<Rightarrow> bytes \<Rightarrow> ('g, 'h) engine \<Rightarrow> nat \<times> ('g, 'h) engine" where
  "rec_offer E dev bs s =
     (let d = dmap_of Rec s in
      if int (length bs) = fragment_size d \<and> uint (byte_counter d) - uint (user_counter d) + fragment_size d \<le> bytes_in_use d \<and>
         uint (byte_counter d) + fragment_size d < 2 ^ 63
      then case audio_inputintr E dev 0 (upd_dmap Rec (dma_fill bs) s) of None \<Rightarrow> (0, s) | Some s' \<Rightarrow> (length bs, s')
      else (0, s))"

definition rec_fetch :: "('g, 'h) audio_env \<Rightarrow> int \<Rightarrow> nat \<Rightarrow> ('g, 'h) engine \<Rightarrow> bytes \<times> ('g, 'h) engine" where
  "rec_fetch E dev k s =
     (case oss_audio_read E dev (Some True) (int k) s of
        Some (Inr (n, bs), s') \<Rightarrow> (bs, s') | Some (Inl e, s') \<Rightarrow> ([], s') | None \<Rightarrow> ([], s))"

definition counting_recorder :: "('g, 'h) audio_env \<Rightarrow> int \<Rightarrow> ('g, 'h) engine \<Rightarrow> bool" where
  "counting_recorder E dev s \<longleftrightarrow> recorder E dev s \<and> quiet_driver E \<and> dm_has DMAP_STARTED (dmap_of Rec s) \<and>
     whole_fragments (dmap_of Rec s)"

lemma rec_offer_law:
  assumes "counting_recorder E dev s" and "rec_offer E dev bs s = (n, s')"
  shows "counting_recorder E dev s' \<and> n \<le> length bs \<and>
    captured (dmap_of Rec s') = captured (dmap_of Rec s) @ take n bs"
proof -
  let ?d = "dmap_of Rec s"
  have c: "recorder E dev s" "quiet_driver E" "dm_has DMAP_STARTED ?d" "whole_fragments ?d"
    using assms(1) by (simp_all add: counting_recorder_def)
  have le: "uint (user_counter ?d) \<le> uint (byte_counter ?d)"
    using c(1) by (intro capture_le) (simp add: recorder_def raw_record_def)
  show ?thesis
  proof (cases "int (length bs) = fragment_size ?d \<and> uint (byte_counter ?d) - uint (user_counter ?d) + fragment_size ?d \<le> bytes_in_use ?d \<and>
      uint (byte_counter ?d) + fragment_size ?d < 2 ^ 63")
    case False
    with assms show ?thesis by (auto simp: rec_offer_def Let_def)
  next
    case True
    then have fits: "int (length (captured ?d)) + fragment_size ?d \<le> bytes_in_use ?d" using le by (simp add: length_captured)
    from capture_fills[OF c, of bs] True fits obtain s1 where
      i: "audio_inputintr E dev 0 (upd_dmap Rec (dma_fill bs) s) = Some s1" "recorder E dev s1" "dm_has DMAP_STARTED (dmap_of Rec s1)"
        "whole_fragments (dmap_of Rec s1)" "captured (dmap_of Rec s1) = captured ?d @ bs" by auto
    then have "n = length bs" "s' = s1" using assms(2) True by (simp_all add: rec_offer_def Let_def)
    with i c(2) show ?thesis by (simp add: counting_recorder_def)
  qed
qed

lemma rec_fetch_law:
  assumes "counting_recorder E dev s" and "rec_fetch E dev k s = (out, s')"
  shows "counting_recorder E dev s' \<and> captured (dmap_of Rec s) = out @ captured (dmap_of Rec s')"
proof -
  let ?d = "dmap_of Rec s" and ?n = "min k (length (captured (dmap_of Rec s)))"
  have c: "recorder E dev s" "quiet_driver E" "dm_has DMAP_STARTED ?d" "whole_fragments ?d"
    using assms(1) by (simp_all add: counting_recorder_def)
  from read_takes[OF c(1), of "int k", unfolded nat_int of_nat_0_less_iff] obtain s1 where
    r: "oss_audio_read E dev (Some True) (int k) s = Some (if ?n = 0 \<and> 0 < k then Inl OSS_EAGAIN else Inr (int ?n, take ?n (captured ?d)), s1)"
      "took E dev ?n s s1" by (metis of_nat_0_le_iff)
  then have "out = take ?n (captured ?d)" "s' = s1" using assms(2) by (auto simp: rec_fetch_def split: if_splits)
  moreover have "counting_recorder E dev s1"
    using r(2) c by (auto simp: took_def same_device_def counting_recorder_def whole_fragments_def dm_has_def)
  ultimately show ?thesis using r(2) by (simp add: took_def)
qed

interpretation recording: byte_pipe "counting_recorder E dev" "\<lambda>s. captured (dmap_of Rec s)" "rec_offer E dev" "rec_fetch E dev"
  for E :: "('g, 'h) audio_env" and dev
  by unfold_locales (use rec_offer_law rec_fetch_law in blast)+


section \<open>An engine that records\<close>

definition toy_recorder :: "(unit, nat) engine" where
  "toy_recorder = toy_engine\<lparr>dmap_1 := toy_dmap\<lparr>dma_mode := PCM_ENABLE_INPUT, byte_counter := 16, user_counter := 10\<rparr>\<rparr>"

lemma toy_recorder: "recorder toy_driver 0 toy_recorder" "dm_has DMAP_STARTED (dmap_of Rec toy_recorder)"
  "whole_fragments (dmap_of Rec toy_recorder)" "fragment_size (dmap_of Rec toy_recorder) = 4"
  "byte_counter (dmap_of Rec toy_recorder) = 16" "length (captured (dmap_of Rec toy_recorder)) = 6" "bytes_in_use (dmap_of Rec toy_recorder) = 16"
  by (simp_all add: recorder_def bad_engine_def raw_record_def ring_ok_def capture_ok_def dmap_of_def dm_has_def
      whole_fragments_def length_captured toy_recorder_def toy_defs audio_flags)


lemma capture_interrupt_witness:
  "\<exists>s'. audio_inputintr toy_driver 0 0 (upd_dmap Rec (dma_fill [1, 2, 3, 4]) toy_recorder) = Some s' \<and>
    captured (dmap_of Rec s') = captured (dmap_of Rec toy_recorder) @ [1, 2, 3, 4]"
  using capture_interrupt[OF toy_recorder(1) toy_player(2) toy_recorder(2,3), of "[1, 2, 3, 4]"] by (auto simp: toy_recorder(4-7))


end
