(* ===== verification/Audio_Fragment_Laws.thy ===== *)
theory Audio_Fragment_Laws
  imports Audio_Record_Laws Audio_Safety
begin

text \<open>
  The choice of the fragments: whatever the application, the options and the driver's limits ask for,
  the fragments fit the buffer, so that the laws of playback and recording apply to what
  \<open>setup_fragments\<close> sets up, unless a fragment has no byte; and when that happens.
\<close>

section \<open>Loops with a bound on their rounds\<close>

lemma rounds_inv:
  assumes "rounds n c f x = Some y" and "P x" and "\<And>x y. P x \<Longrightarrow> c x \<Longrightarrow> f x = Some y \<Longrightarrow> P y"
  shows "P y \<and> \<not> c y"
  using assms(1,2)
proof (induction n arbitrary: x)
  case 0
  then show ?case by (simp split: if_splits)
next
  case (Suc n)
  show ?case
  proof (cases "c x")
    case True
    with Suc.prems obtain z where "f x = Some z" "rounds n c f z = Some y" by (auto simp: bind_eq_Some_conv)
    with Suc.IH[of z] assms(3)[of x z] Suc.prems(2) True show ?thesis by blast
  next
    case False
    with Suc.prems show ?thesis by simp
  qed
qed

text \<open>A loop that doubles a value up to a limit, or halves it down to one, ends when the limit is in reach
  of its rounds.\<close>

lemma rounds_double:
  assumes "\<And>x. P x \<Longrightarrow> c x \<Longrightarrow> \<exists>y. f x = Some y \<and> P y \<and> v y = 2 * (v x :: int)" and "\<And>x. c x \<longleftrightarrow> v x < lim"
    and "P x" and "lim \<le> v x * 2 ^ n"
  shows "\<exists>y. rounds n c f x = Some y"
  using assms(3,4)
proof (induction n arbitrary: x)
  case 0
  then show ?case using assms(2)[of x] by simp
next
  case (Suc n)
  then show ?case using assms(1)[of x] by (cases "c x") (auto simp: ac_simps)
qed

lemma rounds_halve:
  assumes "\<And>x. P x \<Longrightarrow> c x \<Longrightarrow> \<exists>y. f x = Some y \<and> P y \<and> v y = (v x :: int) div 2" and "\<And>x. c x \<longleftrightarrow> lim < v x"
    and "P x" and "v x < 2 ^ n" and "0 \<le> lim"
  shows "\<exists>y. rounds n c f x = Some y"
  using assms(3,4)
proof (induction n arbitrary: x)
  case 0
  then show ?case using assms(2)[of x] assms(5) by simp
next
  case (Suc n)
  show ?case
  proof (cases "c x")
    case True
    with assms(1) Suc.prems(1) obtain y where y: "f x = Some y" "P y" "v y = v x div 2" by blast
    with Suc.prems(2) have "v y < 2 ^ n" by simp
    with Suc.IH[of y] y True show ?thesis by simp
  qed simp
qed

lemmas sdiv_2 = sdiv_nonneg[of _ 2, simplified]

lemma chk_Some [simp]: "chk x = Some y \<longleftrightarrow> c_int x \<and> y = x"
  by (auto simp: chk_def)

section \<open>The number and size of fragments\<close>

text \<open>Fragments that fit: what the adjustments keep.\<close>

definition frags_fit :: "'g dmap \<Rightarrow> bool" where
  "frags_fit d \<longleftrightarrow> 1 \<le> nfrags d \<and> 0 \<le> fragment_size d \<and> nfrags d * fragment_size d \<le> dm_buffsize d"

text \<open>They leave the buffer alone and never use more of it.\<close>

definition same_buffer :: "'g dmap \<Rightarrow> 'g dmap \<Rightarrow> bool" where
  "same_buffer d d' \<longleftrightarrow> dm_buffsize d' = dm_buffsize d \<and> dm_dmabuf d' = dm_dmabuf d \<and> dm_cnv d' = dm_cnv d \<and>
     mapping_flags d' = mapping_flags d \<and> nfrags d' * fragment_size d' \<le> nfrags d * fragment_size d"

lemma double_fits:
  assumes "1 \<le> n" and "0 \<le> z" and "n * z \<le> (b :: int)"
  shows "(n * 2) * (z div 2) \<le> b"
proof -
  have "(n * 2) * (z div 2) \<le> n * z" using assms by (simp add: mult.assoc mult_left_mono)
  with assms(3) show ?thesis by linarith
qed

lemma halve_fits:
  assumes "2 \<le> n" and "0 \<le> z" and "n * z \<le> (b :: int)"
  shows "1 \<le> n div 2" and "(n div 2) * (z * 2) \<le> b"
proof -
  show "1 \<le> n div 2" using assms(1) by linarith
  have "(n div 2 * 2) * z \<le> n * z" using assms by (intro mult_right_mono) auto
  with assms(3) show "(n div 2) * (z * 2) \<le> b" by (simp add: ac_simps)
qed

lemma double_frags_fit:
  assumes "double_frags lim d = Some d'" and "frags_fit d"
  shows "frags_fit d' \<and> same_buffer d d' \<and> lim \<le> nfrags d'"
proof -
  have "(frags_fit d' \<and> same_buffer d d') \<and> \<not> nfrags d' < lim"
    using assms(1)[unfolded double_frags_def]
  proof (rule rounds_inv)
    show "frags_fit d \<and> same_buffer d d" using assms(2) by (simp add: same_buffer_def)
  next
    fix x y :: "'a dmap"
    assume x: "frags_fit x \<and> same_buffer d x"
      and "map_option (\<lambda>n. x\<lparr>nfrags := n, fragment_size := fragment_size x sdiv 2\<rparr>) (chk (nfrags x * 2)) = Some y"
    then have "y = x\<lparr>nfrags := nfrags x * 2, fragment_size := fragment_size x div 2\<rparr>" by (auto simp: frags_fit_def sdiv_2)
    with x double_fits[of "nfrags x" "fragment_size x" "dm_buffsize x"]
      double_fits[of "nfrags x" "fragment_size x" "nfrags d * fragment_size d"] show "frags_fit y \<and> same_buffer d y"
      by (auto simp: frags_fit_def same_buffer_def)
  qed
  then show ?thesis by auto
qed

lemma halve_frags_fit:
  assumes "halve_frags lim d = Some d'" and "frags_fit d" and "1 \<le> lim"
  shows "frags_fit d' \<and> same_buffer d d' \<and> nfrags d' \<le> lim"
proof -
  have "(frags_fit d' \<and> same_buffer d d') \<and> \<not> lim < nfrags d'"
    using assms(1)[unfolded halve_frags_def]
  proof (rule rounds_inv)
    show "frags_fit d \<and> same_buffer d d" using assms(2) by (simp add: same_buffer_def)
  next
    fix x y :: "'a dmap"
    assume x: "frags_fit x \<and> same_buffer d x" and lt: "lim < nfrags x"
      and "map_option (\<lambda>z. x\<lparr>nfrags := nfrags x sdiv 2, fragment_size := z\<rparr>) (chk (fragment_size x * 2)) = Some y"
    then have "y = x\<lparr>nfrags := nfrags x div 2, fragment_size := fragment_size x * 2\<rparr>" by (auto simp: frags_fit_def sdiv_2)
    with x lt assms(3) halve_fits[of "nfrags x" "fragment_size x" "dm_buffsize x"]
      halve_fits[of "nfrags x" "fragment_size x" "nfrags d * fragment_size d"] show "frags_fit y \<and> same_buffer d y"
      by (auto simp: frags_fit_def same_buffer_def)
  qed
  then show ?thesis by auto
qed

lemma adjust_fragments_fit:
  assumes "adjust_fragments s d = Some d'" and "0 \<le> nfrags d" and "0 \<le> fragment_size d"
    and "nfrags d * fragment_size d \<le> dm_buffsize d"
  shows "frags_fit d' \<and> same_buffer d d' \<and> min_fragments s \<le> nfrags d' \<and> bytes_in_use d' = nfrags d' * fragment_size d'"
proof -
  obtain d1 where d1: "set_in_use d = Some d1" using assms(1) by (auto simp: adjust_fragments_def bind_eq_Some_conv)
  define d2 where "d2 = (if nfrags d1 < 2 then d1\<lparr>nfrags := 2, fragment_size := bytes_in_use d1 sdiv 2\<rparr> else d1)"
  obtain d3 d4 d5 d6 where st: "double_frags (min_fragments s) d2 = Some d3"
      "(if 2 \<le> max_fragments s then halve_frags (max_fragments s) d3 else Some d3) = Some d4"
      "double_frags (min_fragments s) d4 = Some d5" "set_in_use d5 = Some d6"
      "d' = (let d = d6\<lparr>low_water_rq := fragment_size d6\<rparr>
       in if nfrags d < 4 \<and> low_water_rq d < bytes_in_use d sdiv 4 then d\<lparr>low_water_rq := bytes_in_use d sdiv 4\<rparr> else d)"
    using assms(1) d1 by (auto simp: adjust_fragments_def bind_eq_Some_conv d2_def Let_def)
  have d1': "d1 = d\<lparr>bytes_in_use := nfrags d * fragment_size d\<rparr>" using d1 by (auto simp: set_in_use_def)
  have nn: "0 \<le> nfrags d * fragment_size d" using assms(2,3) by simp
  have f2: "frags_fit d2 \<and> same_buffer d d2"
    using assms(2-4) nn by (auto simp: d2_def d1' frags_fit_def same_buffer_def sdiv_2 mult.commute)
  have f3: "frags_fit d3 \<and> same_buffer d d3" using double_frags_fit[OF st(1)] f2 by (auto simp: same_buffer_def)
  have f4: "frags_fit d4 \<and> same_buffer d d4"
    using halve_frags_fit[of "max_fragments s" d3 d4] f3 st(2) by (auto simp: same_buffer_def split: if_splits)
  have f5: "frags_fit d5 \<and> same_buffer d d5 \<and> min_fragments s \<le> nfrags d5"
    using double_frags_fit[OF st(3)] f4 by (auto simp: same_buffer_def)
  have "d6 = d5\<lparr>bytes_in_use := nfrags d5 * fragment_size d5\<rparr>" using st(4) by (auto simp: set_in_use_def)
  with f5 show ?thesis unfolding st(5) by (simp add: frags_fit_def same_buffer_def Let_def)
qed

section \<open>The loops end\<close>

lemma double_up_total:
  assumes "1 \<le> sz" and "lim \<le> 2 ^ 30"
  shows "\<exists>y. double_up lim sz = Some y \<and> sz \<le> y \<and> lim \<le> y"
proof -
  have "\<exists>y. double_up lim sz = Some y" unfolding double_up_def
  proof (rule rounds_double[where P = "\<lambda>x. 1 \<le> x" and v = "\<lambda>x. x" and lim = lim])
    fix x :: int assume "1 \<le> x" "x < lim"
    with assms(2) show "\<exists>y. chk (x * 2) = Some y \<and> 1 \<le> y \<and> y = 2 * x" by (simp add: c_int_def)
  qed (use assms in auto)
  then obtain y where y: "double_up lim sz = Some y" by blast
  moreover have "sz \<le> y \<and> \<not> y < lim"
    by (rule rounds_inv[OF y[unfolded double_up_def], of "\<lambda>x. sz \<le> x"]) (use assms(1) in auto)
  ultimately show ?thesis by auto
qed

lemma double_frags_total:
  assumes "1 \<le> nfrags d" and "lim \<le> 2 ^ 30"
  shows "\<exists>y. double_frags lim d = Some y"
  unfolding double_frags_def
proof (rule rounds_double[where P = "\<lambda>d. 1 \<le> nfrags d" and v = nfrags and lim = lim])
  fix x :: "'a dmap" assume "1 \<le> nfrags x" "nfrags x < lim"
  with assms(2) show "\<exists>y. map_option (\<lambda>n. x\<lparr>nfrags := n, fragment_size := fragment_size x sdiv 2\<rparr>) (chk (nfrags x * 2)) = Some y \<and>
      1 \<le> nfrags y \<and> nfrags y = 2 * nfrags x" by (simp add: c_int_def)
qed (use assms in auto)

lemma frag_le_buffer: "frags_fit d \<Longrightarrow> fragment_size d \<le> dm_buffsize d"
  using mult_right_mono[of 1 "nfrags d" "fragment_size d"] by (simp add: frags_fit_def)

lemma halve_frags_total:
  assumes "frags_fit d" and "dm_buffsize d < 2 ^ 30" and "1 \<le> lim" and "nfrags d < 2 ^ 32"
  shows "\<exists>y. halve_frags lim d = Some y"
  unfolding halve_frags_def
proof (rule rounds_halve[where P = "\<lambda>x. frags_fit x \<and> dm_buffsize x = dm_buffsize d" and v = nfrags and lim = lim])
  fix x :: "'a dmap" assume x: "frags_fit x \<and> dm_buffsize x = dm_buffsize d" "lim < nfrags x"
  have z: "fragment_size x \<le> dm_buffsize d" "0 \<le> fragment_size x" using frag_le_buffer[of x] x(1) by (auto simp: frags_fit_def)
  have "1 \<le> nfrags x div 2" "(nfrags x div 2) * (fragment_size x * 2) \<le> dm_buffsize x"
    using halve_fits[of "nfrags x" "fragment_size x" "dm_buffsize x"] x assms(3) by (auto simp: frags_fit_def)
  then show "\<exists>y. map_option (\<lambda>z. x\<lparr>nfrags := nfrags x sdiv 2, fragment_size := z\<rparr>) (chk (fragment_size x * 2)) = Some y \<and>
      (frags_fit y \<and> dm_buffsize y = dm_buffsize d) \<and> nfrags y = nfrags x div 2"
    using x(1) z assms(2) by (simp add: c_int_def frags_fit_def sdiv_2)
qed (use assms in auto)

lemma set_in_use_total:
  assumes "0 \<le> nfrags d * fragment_size d" and "nfrags d * fragment_size d \<le> dm_buffsize d" and "dm_buffsize d < 2 ^ 30"
  shows "set_in_use d = Some (d\<lparr>bytes_in_use := nfrags d * fragment_size d\<rparr>)"
  using assms by (simp add: set_in_use_def chk_def c_int_def)

lemma adjust_fragments_total:
  assumes "0 \<le> nfrags d" and "0 \<le> fragment_size d" and "nfrags d * fragment_size d \<le> dm_buffsize d"
    and "dm_buffsize d < 2 ^ 30" and "nfrags d < 2 ^ 30" and "min_fragments s \<le> 2 ^ 30"
  shows "\<exists>d'. adjust_fragments s d = Some d'"
proof -
  define d1 where "d1 = d\<lparr>bytes_in_use := nfrags d * fragment_size d\<rparr>"
  define d2 where "d2 = (if nfrags d1 < 2 then d1\<lparr>nfrags := 2, fragment_size := bytes_in_use d1 sdiv 2\<rparr> else d1)"
  have nn: "0 \<le> nfrags d * fragment_size d" using assms(1,2) by simp
  have s1: "set_in_use d = Some d1" using set_in_use_total[OF nn assms(3,4)] by (simp add: d1_def)
  have f2: "frags_fit d2 \<and> same_buffer d d2"
    using assms(1-3) nn by (auto simp: d2_def d1_def frags_fit_def same_buffer_def sdiv_2 mult.commute)
  obtain d3 where s3: "double_frags (min_fragments s) d2 = Some d3"
    using double_frags_total[of d2] f2 assms(6) by (auto simp: frags_fit_def)
  have f3: "frags_fit d3 \<and> same_buffer d d3" using double_frags_fit[OF s3] f2 by (auto simp: same_buffer_def)
  have n2: "nfrags d2 < 2 ^ 30" using assms(5) by (simp add: d2_def d1_def)
  have "nfrags d3 < 2 ^ 31"
  proof -
    have "nfrags d3 < 2 ^ 31 \<and> \<not> nfrags d3 < min_fragments s"
      by (rule rounds_inv[OF s3[unfolded double_frags_def], of "\<lambda>x. nfrags x < 2 ^ 31"]) (use n2 assms(6) in auto)
    then show ?thesis by simp
  qed
  then obtain d4 where s4: "(if 2 \<le> max_fragments s then halve_frags (max_fragments s) d3 else Some d3) = Some d4"
    using halve_frags_total[of d3 "max_fragments s"] f3 assms(4) by (cases "2 \<le> max_fragments s") (auto simp: same_buffer_def)
  have f4: "frags_fit d4 \<and> same_buffer d d4"
    using halve_frags_fit[of "max_fragments s" d3 d4] f3 s4 by (auto simp: same_buffer_def split: if_splits)
  obtain d5 where s5: "double_frags (min_fragments s) d4 = Some d5"
    using double_frags_total[of d4] f4 assms(6) by (auto simp: frags_fit_def)
  have f5: "frags_fit d5 \<and> same_buffer d d5" using double_frags_fit[OF s5] f4 by (auto simp: same_buffer_def)
  then have s6: "set_in_use d5 = Some (d5\<lparr>bytes_in_use := nfrags d5 * fragment_size d5\<rparr>)"
    using assms(4) by (intro set_in_use_total) (auto simp: frags_fit_def same_buffer_def)
  show ?thesis by (simp add: adjust_fragments_def s1 s4 s3 s5 s6 flip: d2_def)
qed

section \<open>The request\<close>

lemma clip_block_ge: "8 \<le> clip_block s sz"
  by (simp add: clip_block_def Let_def)

lemma min_fragment_total:
  assumes "0 \<le> sp_rate (hw_parms s)" and "sp_rate (hw_parms s) < 2 ^ 28" and "dm_buffsize (dmap_of D s) < 2 ^ 30"
  shows "\<exists>m. min_fragment D s = Some m \<and> m \<le> 2 ^ 30"
proof -
  let ?d = "dmap_of D s"
  have b: "dm_buffsize ?d sdiv 2 \<le> 2 ^ 30"
    using assms(3) sdiv_2[of "dm_buffsize ?d"] by (cases "0 \<le> dm_buffsize ?d") (auto simp: signed_divide_int_def)
  obtain r where r: "(if data_rate ?d < 8000 then chk (sp_rate (hw_parms s) * 4) else Some (data_rate ?d)) = Some r"
    using assms(1,2) by (cases "data_rate ?d < 8000") (auto simp: chk_def c_int_def)
  define m where "m = (if 0 < ad_max_intrate s then let m = r sdiv ad_max_intrate s
      in if dm_buffsize ?d sdiv 2 < m then dm_buffsize ?d sdiv 2 else m else 0)"
  have "m \<le> 2 ^ 30" using b by (auto simp: m_def Let_def)
  moreover have "min_fragment D s = Some (let m = (if dm_has DMAP_COOKED ?d \<and> m < 256 then 256 else m)
      in if max_block s \<noteq> 0 \<and> max_block s < m then max_block s else m)"
    by (simp add: min_fragment_def Let_def r m_def)
  ultimately show ?thesis by (auto simp: Let_def)
qed

lemma choose_size_total:
  assumes "0 \<le> sp_rate (hw_parms s)" and "sp_rate (hw_parms s) < 2 ^ 28" and "dm_buffsize (dmap_of D s) < 2 ^ 30"
  shows "\<exists>z. choose_size D s sz = Some z \<and> 1 \<le> z"
proof -
  obtain m where m: "min_fragment D s = Some m" "m \<le> 2 ^ 30" using min_fragment_total[OF assms] by blast
  let ?z = "clip_block s sz"
  have z: "1 \<le> ?z" using clip_block_ge[of s sz] by linarith
  obtain y where y: "double_up m ?z = Some y" "?z \<le> y" using double_up_total[OF z m(2)] by blast
  show ?thesis using m(1) y z by (simp add: choose_size_def Let_def)
qed

definition plain_request :: "dir \<Rightarrow> ('g, 'h) engine \<Rightarrow> bool" where
  "plain_request D s \<longleftrightarrow> (let d = dmap_of D s in
     fragsize_rq d = 0 \<or> (fragsize_rq d AND 0xffff < 31 \<and> expand_factor (dm_cnv d) = UNIT_EXPAND \<and> ad_open_flags s AND OF_SMALLFRAGS = 0))"

lemma requested_fragments_total:
  assumes "plain_request D s"
  shows "\<exists>sz mf. requested_fragments D s = Some (sz, mf) \<and> 2 \<le> mf"
proof (cases "fragsize_rq (dmap_of D s) = 0")
  case True
  then show ?thesis by (simp add: requested_fragments_def Let_def)
next
  case False
  let ?d = "dmap_of D s"
  have v: "fragsize_rq ?d AND 0xffff < 31" "expand_factor (dm_cnv ?d) = UNIT_EXPAND" "ad_open_flags s AND OF_SMALLFRAGS = 0"
    using False assms by (auto simp: plain_request_def Let_def)
  then obtain sz where sz: "requested_size (fragsize_rq ?d AND 0xffff) ?d = Some sz" by (auto simp: requested_size_def Let_def)
  have "2 \<le> requested_frags (fragsize_rq ?d) s" by (simp add: requested_frags_def Let_def)
  with sz v False show ?thesis by (simp add: requested_fragments_def Let_def)
qed

lemma policy_fragments_mf: "2 \<le> mf \<Longrightarrow> 2 \<le> snd (policy_fragments s (sz, mf))"
proof -
  assume mf: "2 \<le> mf"
  have "\<forall>(z, n) \<in> set policies. n = 0 \<or> 2 \<le> n" by (simp add: policies_def)
  moreover have "0 \<le> ad_policy s \<Longrightarrow> ad_policy s \<le> 10 \<Longrightarrow> policies ! nat (ad_policy s) \<in> set policies"
    by (intro nth_mem) (simp add: policies_def)
  ultimately show ?thesis using mf by (fastforce simp: policy_fragments_def Let_def split: prod.splits)
qed

lemma sdiv_bound: "0 \<le> b \<Longrightarrow> 1 \<le> z \<Longrightarrow> 0 \<le> b sdiv z \<and> (b sdiv z) * z \<le> (b :: int) \<and> b sdiv z \<le> b"
proof -
  assume a: "0 \<le> b" "1 \<le> z"
  then have "b sdiv z = b div z" by (intro sdiv_nonneg) auto
  moreover have "b div z * z \<le> b" using a pos_mod_sign[of z b] by (simp add: minus_mod_eq_div_mult[symmetric])
  moreover have "0 \<le> b div z" "b div z \<le> b" using a using zdiv_mono2[of b 1 z] by (simp_all add: pos_imp_zdiv_nonneg_iff)
  ultimately show ?thesis by simp
qed

definition policy_size :: "('g, 'h) engine \<Rightarrow> int" where
  "policy_size s = (if 0 \<le> ad_policy s \<and> ad_policy s \<le> 10 \<and> \<not> ossd_registered s \<and> max_block s \<le> 0
     then fst (policies ! nat (ad_policy s)) else 1)"

lemma choose_size_ge:
  assumes "choose_size D s sz = Some z" and "max_block s \<le> 0" and "min_fragment D s = Some m" and "m \<le> 2 ^ 30"
  shows "sz \<le> z"
proof -
  let ?z = "clip_block s sz"
  have z: "1 \<le> ?z" "sz \<le> ?z" using clip_block_ge[of s sz] assms(2) by (auto simp: clip_block_def Let_def)
  obtain y where y: "double_up m ?z = Some y" "?z \<le> y" using double_up_total[OF z(1) assms(4)] by blast
  show ?thesis using assms(1-3) y z by (auto simp: choose_size_def Let_def split: if_splits)
qed

lemma setup_flow:
  assumes "\<not> dm_has DMAP_FRAGFIXED (dmap_of D s)" and "a_setup_fragments E = None" and "plain_request D s"
    and "0 \<le> sp_rate (hw_parms s)" and "sp_rate (hw_parms s) < 2 ^ 28"
    and "0 \<le> dm_buffsize (dmap_of D s)" and "dm_buffsize (dmap_of D s) < 2 ^ 30" and "min_fragments s \<le> 2 ^ 30"
  defines "d \<equiv> dmap_of D s"
  shows "\<exists>s' d' z. setup_fragments E D s = Some s' \<and> dmap_of D s' = d' \<and> frags_fit d' \<and> min_fragments s \<le> nfrags d' \<and>
    bytes_in_use d' = nfrags d' * fragment_size d' \<and> dm_buffsize d' = dm_buffsize d \<and> dm_dmabuf d' = dm_dmabuf d \<and>
    mapping_flags d' = mapping_flags d \<and> 1 \<le> z \<and> policy_size s \<le> z \<and> bytes_in_use d' \<le> (dm_buffsize d sdiv z) * z"
proof -
  define s1 where "s1 = (if ad_max_intrate s = 0 \<or> opt_max_intrate E < ad_max_intrate s then s\<lparr>ad_max_intrate := opt_max_intrate E\<rparr> else s)"
  define s2 where "s2 = upd_dmap D (\<lambda>d. (dm_set DMAP_FRAGFIXED d)\<lparr>low_water_rq := 0, low_water := - 1\<rparr>) s1"
  define s3 where "s3 = block_limits s2"
  have d1: "dmap_of D s1 = d" by (simp add: s1_def d_def dmap_of_def)
  have f2: "hw_parms s3 = hw_parms s" "min_fragments s3 = min_fragments s"
    by (simp_all add: s3_def s2_def s1_def block_limits_def upd_dmap_def)
  have d3: "dmap_of D s3 = dmap_of D s2" by (simp add: s3_def block_limits_def dmap_of_def)
  have b3: "dm_buffsize (dmap_of D s3) = dm_buffsize d" "dm_dmabuf (dmap_of D s3) = dm_dmabuf d"
    by (simp_all add: d3 s2_def d1)
  have "plain_request D s2"
    using assms(3) d1 by (simp add: plain_request_def Let_def s2_def s1_def dm_set_def upd_cnv_def d_def)
  then obtain sz0 mf0 where rq: "requested_fragments D s2 = Some (sz0, mf0)" "2 \<le> mf0" using requested_fragments_total by blast
  obtain sz mf where po: "policy_fragments s2 (sz0, mf0) = (sz, mf)" by fastforce
  with policy_fragments_mf[OF rq(2), of s2 sz0] have mf: "2 \<le> mf" by simp
  obtain z where z: "choose_size D s3 sz = Some z" "1 \<le> z"
    using choose_size_total[of s3 D sz] assms(4,5,7) f2 b3 d_def by auto
  define n where "n = (if D = Play \<and> mf < dm_buffsize d sdiv z then mf else dm_buffsize d sdiv z)"
  define s4 where "s4 = upd_dmap D (\<lambda>d. d\<lparr>fragment_size := z, nfrags := n\<rparr>) s3"
  have q: "0 \<le> dm_buffsize d sdiv z" "(dm_buffsize d sdiv z) * z \<le> dm_buffsize d" "dm_buffsize d sdiv z \<le> dm_buffsize d"
    using sdiv_bound[OF _ z(2)] assms(6) by (auto simp: d_def)
  then have n: "0 \<le> n" "n \<le> dm_buffsize d sdiv z" using mf by (auto simp: n_def)
  then have "n * z \<le> (dm_buffsize d sdiv z) * z" using z(2) by (intro mult_right_mono) auto
  with q n have n2: "n * z \<le> dm_buffsize d" "n \<le> dm_buffsize d" by linarith+
  let ?d4 = "dmap_of D s4"
  have d4: "nfrags ?d4 = n" "fragment_size ?d4 = z" "dm_buffsize ?d4 = dm_buffsize d" "dm_dmabuf ?d4 = dm_dmabuf d"
    using b3 by (simp_all add: s4_def)
  have mf4: "min_fragments s4 = min_fragments s" using f2 by (simp add: s4_def upd_dmap_def)
  obtain d' where adj: "adjust_fragments s4 ?d4 = Some d'"
    using adjust_fragments_total[of ?d4 s4] d4 mf4 n n2 z(2) assms(7,8) by (auto simp: d_def)
  have fit: "frags_fit d' \<and> same_buffer ?d4 d' \<and> min_fragments s4 \<le> nfrags d' \<and> bytes_in_use d' = nfrags d' * fragment_size d'"
    using adjust_fragments_fit[OF adj] d4 n n2 z(2) by simp
  have call: "setup_fragments E D s = Some (upd_dmap D (\<lambda>_. d') s4)"
  proof -
    have e: "?d4 = (dmap_of D s3)\<lparr>fragment_size := z, nfrags := n\<rparr>" "upd_dmap D (\<lambda>_. d') s4 = upd_dmap D (\<lambda>_. d') s3"
      by (simp_all add: s4_def)
    have s1': "\<not> dm_has DMAP_FRAGFIXED (dmap_of D s1)" using assms(1) d1 by (simp add: d_def)
    have "setup_fragments E D s = Option.bind (choose_size D s3 sz) (\<lambda>sz.
        if sz = 0 then None
        else
          let n = dm_buffsize (dmap_of D s3) sdiv sz;
              n = (if D = Play \<and> mf < n then mf else n);
              s = upd_dmap D (\<lambda>d. d\<lparr>fragment_size := sz, nfrags := n\<rparr>) s3
          in map_option (\<lambda>d. upd_dmap D (\<lambda>_. d) s) (adjust_fragments s (dmap_of D s)))"
      using s1' by (simp add: setup_fragments_def assms(2) rq(1) po Let_def cong: if_cong flip: s1_def s2_def s3_def)
    also have "\<dots> = Some (upd_dmap D (\<lambda>_. d') s4)"
      using z adj[unfolded e(1)] by (simp add: Let_def b3 e(2) flip: n_def s4_def)
    finally show ?thesis .
  qed
  have "policy_size s \<le> z"
  proof (cases "0 \<le> ad_policy s \<and> ad_policy s \<le> 10 \<and> \<not> ossd_registered s \<and> max_block s \<le> 0")
    case True
    have same: "ad_policy s2 = ad_policy s" "ossd_registered s2 = ossd_registered s" "max_block s2 = max_block s"
      by (simp_all add: s2_def s1_def upd_dmap_def)
    then have "sz = fst (policies ! nat (ad_policy s))"
      using po True by (auto simp: policy_fragments_def Let_def split: prod.splits)
    moreover have "max_block s3 \<le> 0" using True same by (simp add: s3_def block_limits_def)
    moreover obtain m where "min_fragment D s3 = Some m" "m \<le> 2 ^ 30"
      using min_fragment_total[of s3 D] assms(4,5,7) f2 b3 d_def by auto
    ultimately show ?thesis using choose_size_ge[OF z(1)] True by (simp add: policy_size_def)
  next
    case False
    then show ?thesis using z(2) by (auto simp: policy_size_def)
  qed
  moreover have "nfrags d' * fragment_size d' \<le> (dm_buffsize d sdiv z) * z"
  proof -
    have "nfrags d' * fragment_size d' \<le> n * z" using fit d4 by (simp add: same_buffer_def)
    also have "\<dots> \<le> (dm_buffsize d sdiv z) * z" using n(2) z(2) by (intro mult_right_mono) auto
    finally show ?thesis .
  qed
  moreover have "mapping_flags ?d4 = mapping_flags d" by (simp add: s4_def d3 s2_def d1 dm_set_def upd_cnv_def)
  ultimately show ?thesis
    using fit d4 mf4 z(2) by (intro exI[of _ "upd_dmap D (\<lambda>_. d') s4"] exI[of _ d'] exI[of _ z]) (simp add: call same_buffer_def)
qed


lemma toy_unprepared: "plain_request Play (upd_dmap Play (upd_cnv (\<lambda>c. c\<lparr>dm_flags := 0\<rparr>)) toy_engine)"
  by (simp add: plain_request_def toy_defs dmap_of_def upd_dmap_def upd_cnv_def)


end
