(* ===== verification/Audio_Cooked_Laws.thy ===== *)
theory Audio_Cooked_Laws
  imports Audio_Record_Laws
begin

text \<open>
  Playback with a conversion: the converted bytes of a chunk go to the device's buffer, and what does not
  fit is kept for the next call. Nothing of it is lost or reordered, but the call does not
  count a chunk that was kept in part.
\<close>

section \<open>Copying converted data\<close>

text \<open>What the state of the conversion and the kept data have no part in.\<close>

lemma ring_play_leftover [simp]: "ring_play (d\<lparr>dm_leftover := x\<rparr>) = ring_play d" "pending (d\<lparr>dm_leftover := x\<rparr>) = pending d"
  by (simp_all add: ring_play_def ring_ok_def counters_ok_def silent_def dm_has_def dm_mapped_def pending_def)

lemma ring_play_cnv:
  "dm_flags c = dm_flags (dm_cnv d) \<Longrightarrow> ring_play (d\<lparr>dm_cnv := c\<rparr>) = ring_play d"
  "pending (d\<lparr>dm_cnv := c\<rparr>) = pending d"
  by (simp_all add: ring_play_def ring_ok_def counters_ok_def silent_def dm_has_def dm_mapped_def pending_def)

definition copier :: "('g, 'h) audio_env \<Rightarrow> int \<Rightarrow> ('g, 'h) engine \<Rightarrow> bool" where
  "copier E dev s \<longleftrightarrow> ring_player E dev s \<and> ad_nonblock s \<and> \<not> noninterleaved s"

definition copied :: "('g, 'h) audio_env \<Rightarrow> int \<Rightarrow> bytes \<Rightarrow> ('g, 'h) engine \<Rightarrow> ('g, 'h) engine \<Rightarrow> bool" where
  "copied E dev bs s s' \<longleftrightarrow> copier E dev s' \<and> bytes_in_use (dmap_of Play s') = bytes_in_use (dmap_of Play s) \<and> pending (dmap_of Play s') = pending (dmap_of Play s) @ bs \<and>
     uint (user_counter (dmap_of Play s')) = uint (user_counter (dmap_of Play s)) + int (length bs)"

lemma copied_trans: "copied E dev a s s1 \<Longrightarrow> copied E dev b s1 s2 \<Longrightarrow> copied E dev (a @ b) s s2"
  by (simp add: copied_def)

lemma copied_refl: "copier E dev s \<Longrightarrow> copied E dev [] s s"
  by (simp add: copied_def)

lemma copier_hw:
  "copier E dev s \<Longrightarrow> ring_play d \<Longrightarrow> copier E dev (upd_dmap Play (\<lambda>_. d) (s\<lparr>ad_hw := h\<rparr>))"
  by (simp add: copier_def ring_player_def noninterleaved_def)

lemma copy_step_full:
  assumes "copier E dev s" and "quiet_driver E"
    and "bytes_in_use (dmap_of Play s) - int (length (pending (dmap_of Play s))) < user_frame_size (dmap_of Play s)"
  shows "\<exists>s'. copy_step E buf s = Some (Inl OSS_EAGAIN, s') \<and> copied E dev [] s s' \<and> dm_leftover (dmap_of Play s') = buf"
proof -
  let ?d = "dmap_of Play s"
  have p: "ring_player E dev s" "ad_nonblock s" and rp: "ring_play ?d"
    using assms(1) by (simp_all add: copier_def ring_player_def)
  define s1 where "s1 = store_tmp_data buf s"
  have s1: "dmap_of Play s1 = ?d\<lparr>dm_leftover := buf\<rparr>" by (simp add: s1_def store_tmp_data_def)
  have "dm_has DMAP_PREPARED (dmap_of Play s1)" using rp by (simp add: s1 ring_play_def dm_has_def)
  from launch_output_quiet[OF assms(2) this] obtain h d' where
    l: "launch_output E s1 = (Inr (), upd_dmap Play (\<lambda>_. d') (s1\<lparr>ad_hw := h\<rparr>))"
      "d' = dmap_of Play s1 \<or> d' = dm_set DMAP_STARTED (dmap_of Play s1)" by blast
  have "copy_step E buf s = Some (Inl OSS_EAGAIN, snd (launch_output E s1))"
    using output_space_cases[OF p] assms(3) by (simp add: copy_step_def fail_def s1_def)
  moreover have "ring_play d'" "pending d' = pending ?d" "dm_leftover d' = buf" "user_counter d' = user_counter ?d"
    "bytes_in_use d' = bytes_in_use ?d"
    using l(2) rp by (auto simp: s1 started_ring)
  moreover have "upd_dmap Play (\<lambda>_. d') (s1\<lparr>ad_hw := h\<rparr>) = upd_dmap Play (\<lambda>_. d') (s\<lparr>ad_hw := h\<rparr>)"
    by (simp add: s1_def store_tmp_data_def upd_dmap_def)
  ultimately show ?thesis
    using l(1) copier_hw[OF assms(1), of d' h] by (simp add: copied_def)
qed

lemma copy_step_room:
  assumes "copier E dev s" and "quiet_driver E" and "buf \<noteq> []"
    and "\<not> bytes_in_use (dmap_of Play s) - int (length (pending (dmap_of Play s))) < user_frame_size (dmap_of Play s)"
    and "uint (user_counter (dmap_of Play s)) + int (length buf) < 2 ^ 63"
  shows "\<exists>l s'. copy_step E buf s = Some (Inr l, s') \<and> 0 < l \<and> l \<le> length buf \<and> copied E dev (take l buf) s s' \<and>
    dm_leftover (dmap_of Play s') = dm_leftover (dmap_of Play s)"
proof -
  define d where "d = dmap_of Play s"
  have p: "ring_player E dev s" "ad_nonblock s" and rp: "ring_play d" and ni: "\<not> noninterleaved s"
    using assms(1) by (simp_all add: copier_def ring_player_def d_def)
  have ring: "ring_ok d" "1 \<le> user_frame_size d" using rp by (simp_all add: ring_play_def)
  note u = ring_facts[OF ring(1)]
  define offs where "offs = uint (user_counter d) mod bytes_in_use d"
  define spc where "spc = min (bytes_in_use d - offs) (bytes_in_use d - int (length (pending d)))"
  have fs: "find_output_space E s = Some (Inr (offs, spc), s)"
    using output_space_cases[OF p, folded d_def] assms(4) by (simp add: done_with_def offs_def spc_def flip: d_def)
  have spc: "0 < spc" using assms(4) ring u(1) by (simp add: spc_def offs_def flip: d_def)
  define l where "l = nat (min (int (length buf)) spc)"
  have l: "int l = min (int (length buf)) spc" "0 < l" "l \<le> length buf" using spc assms(3) by (auto simp: l_def)
  define bs where "bs = take l buf"
  have bs: "length bs = l" using l(3) by (simp add: bs_def)
  have fits: "int (length bs) \<le> bytes_in_use d - offs" "int (length bs) + int (length (pending d)) \<le> bytes_in_use d"
    using l(1) by (auto simp: bs spc_def)
  have wrap: "uint (user_counter d) + int (length bs) < 2 ^ 63" using assms(5) l(3) bs by (simp add: d_def)
  from block_moved[OF rp[unfolded d_def] assms(2) offs_def[unfolded d_def] fits[unfolded d_def] wrap[unfolded d_def], folded d_def]
  obtain ys h d' where mv: "poke offs bs (dm_dmabuf d) = Some ys"
      "move_wrpointer E (int l) (upd_dmap Play (\<lambda>d. d\<lparr>dm_dmabuf := Some ys\<rparr>) s) = Some (Inr (), upd_dmap Play (\<lambda>_. d') (s\<lparr>ad_hw := h\<rparr>))"
    and d': "d' = put_block ys bs d \<or> d' = dm_set DMAP_STARTED (put_block ys bs d)" "ring_play d'" "pending d' = pending d @ bs"
      "uint (user_counter d') = uint (user_counter d) + int l" "bytes_in_use d' = bytes_in_use d"
    unfolding bs geometry_def by auto
  have "put_bytes offs bs s = Some (upd_dmap Play (\<lambda>d. d\<lparr>dm_dmabuf := Some ys\<rparr>) s)"
    using ni mv(1) by (simp add: put_bytes_def Let_def flip: d_def)
  then have "copy_step E buf s = Some (Inr l, upd_dmap Play (\<lambda>_. d') (s\<lparr>ad_hw := h\<rparr>))"
    using l(2) mv(2) by (simp add: copy_step_def fs Let_def done_with_def flip: l(1) bs_def)
  moreover have "copied E dev bs s (upd_dmap Play (\<lambda>_. d') (s\<lparr>ad_hw := h\<rparr>))"
    using copier_hw[OF assms(1) d'(2)] d'(3-5) bs by (simp add: copied_def d_def)
  moreover have "dm_leftover d' = dm_leftover d" using d'(1) by (auto simp: put_block_def)
  ultimately show ?thesis using l by (simp add: bs_def d_def)
qed

lemma write_copy_keeps':
  assumes "copier E dev s" and "quiet_driver E" and "uint (user_counter (dmap_of Play s)) + int (length buf) < 2 ^ 63"
  shows "\<exists>r s'. write_copy E buf s = Some (r, s') \<and>
    (r = Inr () \<and> copied E dev buf s s' \<and> dm_leftover (dmap_of Play s') = dm_leftover (dmap_of Play s) \<or>
     r = Inl OSS_EAGAIN \<and> (\<exists>n < length buf. copied E dev (take n buf) s s' \<and> dm_leftover (dmap_of Play s') = drop n buf))"
  using assms
proof (induction "length buf" arbitrary: buf s rule: less_induct)
  case less
  let ?d = "dmap_of Play s"
  show ?case
  proof (cases "buf = []")
    case True
    with copied_refl[OF less.prems(1)] show ?thesis by (simp add: write_copy.simps done_with_def)
  next
    case ne: False
    show ?thesis
    proof (cases "bytes_in_use ?d - int (length (pending ?d)) < user_frame_size ?d")
      case True
      from copy_step_full[OF less.prems(1,2) True] obtain s1 where
        "copy_step E buf s = Some (Inl OSS_EAGAIN, s1)" "copied E dev [] s s1" "dm_leftover (dmap_of Play s1) = buf" by blast
      with ne show ?thesis
        by (subst write_copy.simps) (auto simp: fail_def intro!: exI[of _ 0])
    next
      case False
      from copy_step_room[OF less.prems(1,2) ne False less.prems(3)] obtain l s1 where
        r: "copy_step E buf s = Some (Inr l, s1)" "0 < l" "l \<le> length buf" "copied E dev (take l buf) s s1"
          "dm_leftover (dmap_of Play s1) = dm_leftover ?d" by blast
      have "write_copy E buf s = write_copy E (drop l buf) s1"
        by (subst write_copy.simps) (use ne r in simp)
      moreover from less.hyps[of "drop l buf" s1] r less.prems ne obtain q s2 where
        "write_copy E (drop l buf) s1 = Some (q, s2)"
        "q = Inr () \<and> copied E dev (drop l buf) s1 s2 \<and> dm_leftover (dmap_of Play s2) = dm_leftover (dmap_of Play s1) \<or>
         q = Inl OSS_EAGAIN \<and> (\<exists>n < length buf - l. copied E dev (take n (drop l buf)) s1 s2 \<and> dm_leftover (dmap_of Play s2) = drop (l + n) buf)"
        by (auto simp: copied_def of_nat_diff add.commute)
      ultimately show ?thesis
        using copied_trans[OF r(4), of "drop l buf" s2] copied_trans[OF r(4), of "take n (drop l buf)" s2 for n] r(3,5)
        by (auto simp flip: take_add intro!: exI[of _ s2] exI[of _ "l + n" for n])
    qed
  qed
qed


section \<open>A chunk of a write\<close>

text \<open>A converter changes the states of the resampler only.\<close>

definition keeps_flags :: "'g cnv_dmap \<Rightarrow> ('a, 'g) cnv_result \<Rightarrow> bool" where
  "keeps_flags d r \<longleftrightarrow> (\<forall>x d'. r = Some (x, d') \<longrightarrow> dm_flags d' = dm_flags d)"

lemma keeps_flags_simps [simp]:
  "keeps_flags d None" "keeps_flags d (Some (x, d)) = True" "keeps_flags d (with_dmap d r)"
  by (auto simp: keeps_flags_def with_dmap_def split: option.splits)

lemma keeps_and_then:
  assumes "keeps_flags d r" and "\<And>x d'. r = Some (Inr x, d') \<Longrightarrow> keeps_flags d' (f x d')"
  shows "keeps_flags d (and_then r f)"
proof (cases r)
  case None
  then show ?thesis by (simp add: and_then_def)
next
  case (Some p)
  obtain x d1 where p: "p = (x, d1)" by fastforce
  have d1: "dm_flags d1 = dm_flags d" using assms(1) Some p by (simp add: keeps_flags_def)
  show ?thesis
  proof (cases x)
    case (Inl e)
    with Some p d1 show ?thesis by (simp add: and_then_def keeps_flags_def)
  next
    case (Inr y)
    with assms(2)[of y d1] Some p d1 show ?thesis by (simp add: and_then_def keeps_flags_def)
  qed
qed

lemma keeps_src_channels: "keeps_flags d (src_channels K bits ssize n room channels chs b d)"
proof (induction chs arbitrary: b d)
  case Nil
  then show ?case by simp
next
  case (Cons ch chs)
  have "keeps_flags d (src_channels K bits ssize n room channels chs b (d\<lparr>srcstate := x\<rparr>))" for b x
    using Cons[of "d\<lparr>srcstate := x\<rparr>" b] by (simp add: keeps_flags_def)
  then show ?case by (auto simp: Let_def keeps_flags_def split: option.splits prod.splits if_splits)
qed

lemma keeps_do_src: "keeps_flags d (do_src K channels bits ssize b d)"
  by (simp add: do_src_def Let_def keeps_src_channels)

lemma keeps_src_stage: "keeps_flags d (src_stage K needed channels bits b d)"
  by (auto simp: src_stage_def intro: keeps_and_then keeps_do_src)

lemma run_converter_flags: "keeps_flags d (run_converter K d b source target)"
  by (auto simp: run_converter_def cnv_default_def cnv_srconly_def
      intro!: keeps_and_then keeps_src_stage keeps_do_src split: option.splits converter.splits)

lemma converted_copier:
  assumes "copier E dev s" and "converted E l b1 b2 s = Some (Inr bs, s1)"
  shows "copied E dev [] s s1" and "dm_leftover (dmap_of Play s1) = dm_leftover (dmap_of Play s)"
proof -
  let ?d = "dmap_of Play s"
  from assms(2) obtain b c where
    r: "run_converter (a_grc3 E) (dm_cnv ?d) \<lparr>p1 = b1, p2 = b2, cnt = nat l\<rparr> (user_parms s) (hw_parms s) = Some (Inr b, c)"
      "s1 = upd_dmap Play (\<lambda>d. d\<lparr>dm_cnv := c\<rparr>) s"
    by (auto simp: converted_def Let_def fail_def split: option.splits sum.splits prod.splits)
  then have fl: "dm_flags c = dm_flags (dm_cnv ?d)"
    using run_converter_flags[of "dm_cnv ?d" "a_grc3 E" "\<lparr>p1 = b1, p2 = b2, cnt = nat l\<rparr>" "user_parms s" "hw_parms s"]
    by (simp add: keeps_flags_def)
  show "copied E dev [] s s1" "dm_leftover (dmap_of Play s1) = dm_leftover ?d"
    using assms(1) ring_play_cnv(1)[OF fl] ring_play_cnv(2)[where d = ?d and c = c]
    by (simp_all add: r(2) copied_def copier_def ring_player_def noninterleaved_def)
qed

text \<open>A chunk of a non-blocking write with a conversion is queued completely, in order, what the device's
  buffer has no room for being kept. But when something is kept, the call returns the
  count without this chunk, or \<open>EAGAIN\<close> if it is the first one: an application that sends the rest again, as it
  has to, plays the chunk twice.\<close>

theorem cooked_chunk_miscounted:
  fixes c l0 spc l :: int
  assumes "copier E dev s" and "quiet_driver E" and "frame_size (dmap_of Play s) \<noteq> 0"
  defines "d \<equiv> dmap_of Play s"
  defines "l \<equiv> write_chunk c l0 spc (expand_factor (dm_cnv d)) (frame_size d)"
  assumes "0 \<le> l" and "l \<le> int (length uio)" and "poke 0 (take (nat l) uio) (tmpbuf1 (dm_cnv d)) = Some b1"
    and "tmpbuf2 (dm_cnv d) = Some b2" and "converted E l b1 b2 s = Some (Inr bs, s1)"
    and "uint (user_counter d) + int (length bs) < 2 ^ 63"
  shows "\<exists>r s'. write_converted E count c spc l0 uio s = Some (r, s') \<and> copier E dev s' \<and>
    bytes_in_use (dmap_of Play s') = bytes_in_use d \<and>
    (r = Step l (drop (nat l) uio) \<and> pending (dmap_of Play s') = pending d @ bs \<or>
     r = Return (if c = count then Inl OSS_EAGAIN else Inr (count - c)) \<and>
       pending (dmap_of Play s') @ dm_leftover (dmap_of Play s') = pending d @ bs \<and> dm_leftover (dmap_of Play s') \<noteq> [])"
proof -
  have c1: "copied E dev [] s s1" using converted_copier[OF assms(1,10)] by simp
  then have s1: "copier E dev s1" "uint (user_counter (dmap_of Play s1)) + int (length bs) < 2 ^ 63"
    using assms(11) by (simp_all add: copied_def d_def)
  from write_copy_keeps'[OF s1(1) assms(2) s1(2)] obtain r s' where
    w: "write_copy E bs s1 = Some (r, s')"
      "r = Inr () \<and> copied E dev bs s1 s' \<or>
       r = Inl OSS_EAGAIN \<and> (\<exists>n < length bs. copied E dev (take n bs) s1 s' \<and> dm_leftover (dmap_of Play s') = drop n bs)"
    by blast
  have "uiomove l uio = Some (take (nat l) uio, drop (nat l) uio)" using assms(6,7) by (simp add: uiomove_def)
  then have call: "write_converted E count c spc l0 uio s =
      (case write_copy E bs s1 of None \<Rightarrow> None
       | Some (Inl e, s) \<Rightarrow> Some (Return (if e = OSS_EAGAIN then give_up e count c else Inl e), s)
       | Some (Inr u, s) \<Rightarrow> Some (Step l (drop (nat l) uio), s))"
    unfolding write_converted_def Let_def d_def[symmetric] l_def[symmetric]
    using assms(3,6,8,9,10) by (simp flip: d_def)
  from w(2) show ?thesis
  proof
    assume "r = Inr () \<and> copied E dev bs s1 s'"
    then show ?thesis using call w(1) c1 by (simp add: copied_def d_def)
  next
    assume "r = Inl OSS_EAGAIN \<and> (\<exists>n < length bs. copied E dev (take n bs) s1 s' \<and> dm_leftover (dmap_of Play s') = drop n bs)"
    then show ?thesis using call w(1) c1 by (auto simp: copied_def d_def give_up_def)
  qed
qed

section \<open>The engine with a converter from 8 to 16 bits\<close>

definition toy_cooked :: "(unit, nat) engine" where
  "toy_cooked = upd_dmap Play (upd_cnv (\<lambda>c. c\<lparr>convert_func := Some Cnv_F8_T16, expand_factor := 2048,
     tmpbuf1 := Some (replicate 32 0), tmpbuf2 := Some (replicate 32 0)\<rparr>)) toy_engine"

lemma toy_copier: "copier toy_driver 0 toy_engine" "copier toy_driver 0 toy_cooked"
proof -
  show "copier toy_driver 0 toy_engine"
    using player_ring[OF toy_player(1)] by (simp add: copier_def noninterleaved_def toy_defs)
  then show "copier toy_driver 0 toy_cooked"
    using ring_play_cnv(1)[of _ "dmap_of Play toy_engine"]
    by (simp add: copier_def ring_player_def noninterleaved_def toy_cooked_def upd_cnv_def)
qed


lemma toy_conversion:
  defines "b \<equiv> \<lparr>p1 = [1, 2, 3, 4, 5, 6, 7, 8] @ replicate 24 0, p2 = replicate 32 0, cnt = 8\<rparr>"
  shows "\<exists>bs s1. converted toy_driver 8 (p1 b) (p2 b) toy_cooked = Some (Inr bs, s1) \<and> length bs = 16"
proof -
  have "map_option (\<lambda>b. (cnt b, length (p1 b))) (cnv_F8bits_T16bits b) = Some (16, 32)"
    unfolding b_def by code_simp
  then obtain b' where b': "cnv_F8bits_T16bits b = Some b'" "cnt b' = 16" "length (p1 b') = 32" by auto
  have "convert_func (dm_cnv (dmap_of Play toy_cooked)) = Some Cnv_F8_T16" by (simp add: toy_cooked_def upd_cnv_def)
  moreover have "\<lparr>p1 = p1 b, p2 = p2 b, cnt = nat 8\<rparr> = b" by (simp add: b_def)
  ultimately show ?thesis using b' by (simp add: converted_def run_converter_def with_dmap_def peek_def Let_def)
qed

lemma cooked_chunk_miscounted_witness:
  "\<exists>s'. write_converted toy_driver 8 8 10 8 [1, 2, 3, 4, 5, 6, 7, 8] toy_cooked = Some (Return (Inl OSS_EAGAIN), s') \<and>
    length (pending (dmap_of Play s') @ dm_leftover (dmap_of Play s')) = 22"
proof -
  let ?d = "dmap_of Play toy_cooked"
  have d: "frame_size ?d = 1" "tmpbuf1 (dm_cnv ?d) = Some (replicate 32 0)" "tmpbuf2 (dm_cnv ?d) = Some (replicate 32 0)"
    "user_counter ?d = 14" "expand_factor (dm_cnv ?d) = 2048" "length (pending ?d) = 6" "bytes_in_use ?d = 16"
    using toy_fields by (simp_all add: toy_cooked_def upd_cnv_def length_pending) (simp_all add: toy_defs dmap_of_def)
  have l: "write_chunk 8 8 10 2048 1 = 8" by (simp add: write_chunk_def TMP_CONVERT_MAX_def TMP_CONVERT_BUF_SIZE_def UNIT_EXPAND_def)
  have po: "poke 0 [1, 2, 3, 4, 5, 6, 7, 8] (Some (replicate 32 0)) = Some ([1, 2, 3, 4, 5, 6, 7, 8] @ replicate 24 (0 :: u8))"
    by (simp add: poke_def)
  obtain bs s1 where cv: "converted toy_driver 8 ([1, 2, 3, 4, 5, 6, 7, 8] @ replicate 24 0) (replicate 32 0) toy_cooked = Some (Inr bs, s1)"
      "length bs = 16" using toy_conversion by auto
  have "\<exists>r s'. write_converted toy_driver 8 8 10 8 [1, 2, 3, 4, 5, 6, 7, 8] toy_cooked = Some (r, s') \<and> copier toy_driver 0 s' \<and>
      bytes_in_use (dmap_of Play s') = 16 \<and> (r = Step 8 [] \<and> pending (dmap_of Play s') = pending ?d @ bs \<or>
       r = Return (Inl OSS_EAGAIN) \<and> pending (dmap_of Play s') @ dm_leftover (dmap_of Play s') = pending ?d @ bs \<and>
         dm_leftover (dmap_of Play s') \<noteq> [])"
    using cooked_chunk_miscounted[OF toy_copier(2) toy_player(2), of 8 8 10 "[1, 2, 3, 4, 5, 6, 7, 8]"
        "[1, 2, 3, 4, 5, 6, 7, 8] @ replicate 24 0" "replicate 32 0" bs s1 8] cv
    by (simp add: d l po)
  moreover have "length (pending (dmap_of Play s')) \<le> 16" if "copier toy_driver 0 s'" "bytes_in_use (dmap_of Play s') = 16" for s'
    using pending_fits[of "dmap_of Play s'"] that by (simp add: copier_def ring_player_def ring_play_def)
  moreover have "length (pending ?d @ bs) = 22" using cv(2) d(6) by simp
  ultimately show ?thesis by fastforce
qed

end
