(* ===== verification/Audio_Core_Defects.thy ===== *)
theory Audio_Core_Defects
  imports Audio_Fragment_Laws Audio_Cooked_Laws
begin

text \<open>
  Where the audio core fails: posting silences a byte that waits to be played, a policy that
  applications can choose leaves fragments without bytes, the log of errors is one entry too short, and
  the block size is only reported once.
\<close>

section \<open>Posting\<close>

lemma poke_byte:
  assumes "0 \<le> a" and "nat a < length xs"
  shows "poke a [v] (Some xs) = Some (xs[nat a := v])"
  using poke_in[of a "[v]" xs] assms by (simp add: upd_conv_take_nth_drop)

lemma ring_next: "0 < U \<Longrightarrow> (t mod U + 1) smod U = (t + 1) mod (U :: int)"
proof -
  assume U: "0 < U"
  then have "0 \<le> t mod U + 1" using pos_mod_sign[of U t] by linarith
  then have "(t mod U + 1) smod U = (t mod U + 1) mod U"
    using U sdiv_nonneg[of "t mod U + 1" U] by (simp add: signed_modulo_int_def minus_div_mult_eq_mod)
  then show ?thesis by (simp add: mod_simps)
qed

lemma clear_ring_nth:
  assumes "0 < U" and "nat U \<le> length xs"
  shows "\<exists>ys. clear_ring n (t mod U) U v (Some xs) = Some ys \<and> length ys = length xs \<and>
    (\<forall>i < length xs. ys ! i = (if \<exists>k<n. int i = (t + int k) mod U then v else xs ! i))"
  using assms(2)
proof (induction n arbitrary: t xs)
  case 0
  then show ?case by simp
next
  case (Suc n)
  let ?i = "nat (t mod U)"
  have i: "0 \<le> t mod U" "t mod U < U" using assms(1) by simp_all
  then have lt: "?i < length xs" using Suc.prems by linarith
  define xs1 where "xs1 = xs[?i := v]"
  have "clear_ring (Suc n) (t mod U) U v (Some xs) = clear_ring n ((t + 1) mod U) U v (Some xs1)"
    using assms(1) by (simp add: poke_byte[OF i(1) lt] ring_next xs1_def)
  moreover from Suc.IH[of xs1 "t + 1"] Suc.prems obtain ys where
    ys: "clear_ring n ((t + 1) mod U) U v (Some xs1) = Some ys" "length ys = length xs"
      "\<forall>i < length xs. ys ! i = (if \<exists>k<n. int i = (t + 1 + int k) mod U then v else xs1 ! i)" by (auto simp: xs1_def)
  moreover have "(\<exists>k<Suc n. int i = (t + int k) mod U) \<longleftrightarrow> int i = t mod U \<or> (\<exists>k<n. int i = (t + 1 + int k) mod U)" for i
    by (auto simp: less_Suc_eq_0_disj add.assoc add.commute[of 1])
  moreover have "xs1 ! i = (if int i = t mod U then v else xs ! i)" if "i < length xs" for i
    using that i by (auto simp: xs1_def nth_list_update)
  ultimately show ?case by auto
qed

lemma clear_unused_pending:
  assumes "ring_play d" and "pending d \<noteq> []"
  shows "\<exists>ys. clear_unused d = Some (d\<lparr>dm_dmabuf := Some ys\<rparr>) \<and> ring_play (d\<lparr>dm_dmabuf := Some ys\<rparr>) \<and>
    pending (d\<lparr>dm_dmabuf := Some ys\<rparr>) = dm_neutral d # tl (pending d)"
proof -
  have ring: "ring_ok d" and cnt: "counters_ok d" using assms(1) by (simp_all add: ring_play_def)
  note u = ring_facts[OF ring] and le = counters_le[OF cnt]
  let ?U = "bytes_in_use d" and ?b = "uint (byte_counter d)" and ?c = "uint (user_counter d)" and ?xs = "the (dm_dmabuf d)"
  let ?w = "word_of_int ?U :: u64"
  have U: "uint ?w = ?U" using u by (intro uint_of_small) auto
  have c: "?c < 2 ^ 63" "?c \<le> ?b + ?U" using cnt by (simp_all add: counters_ok_def)
  have bU: "uint (byte_counter d + ?w) = ?b + ?U" using le c u by (intro uint_add_small) auto
  have cU: "uint (user_counter d + ?w) = ?c + ?U" using c u by (intro uint_add_small) auto
  define lim where "lim = (if user_counter d + ?w < byte_counter d + ?w then user_counter d + ?w else byte_counter d + ?w)"
  have lim: "uint lim = ?b + ?U" using le bU cU by (auto simp: lim_def word_less_def)
  have "uint (lim - user_counter d) = ?b + ?U - ?c" using c lim by (subst uint_sub_small) (auto simp: word_le_def)
  then have n: "to_int (lim - user_counter d) + 1 = ?b + ?U - ?c + 1"
    using le u to_int_small[of "lim - user_counter d"] by simp
  define m where "m = nat (?b + ?U - ?c + 1)"
  have m: "0 < m" "int m = ?b + ?U - ?c + 1" using c by (simp_all add: m_def)
  obtain p where p: "modu (user_counter d) ?U = Some p" "to_int p = ?c mod ?U"
    using modu_small[OF u(1), of "user_counter d"] u by auto
  from clear_ring_nth[OF u(1) u(4), of m "?c" "dm_neutral d"] obtain ys where
    ys: "clear_ring m (?c mod ?U) ?U (dm_neutral d) (Some ?xs) = Some ys" "length ys = length ?xs"
      "\<forall>i < length ?xs. ys ! i = (if \<exists>k<m. int i = (?c + int k) mod ?U then dm_neutral d else ?xs ! i)" by blast
  have nm: "nat (?b + ?U - ?c + 1) = m" "\<not> ?b + ?U - ?c + 1 \<le> 0" using m by (simp_all add: m_def)
  have call: "clear_unused d = Some (d\<lparr>dm_dmabuf := Some ys\<rparr>)"
    using p ys(1) u(3) by (simp add: clear_unused_def Let_def n nm flip: lim_def)
  let ?n = "nat (?c - ?b)"
  have n0: "0 < ?n" "int ?n = ?c - ?b" using assms(2) le by (auto simp: pending_def ring_list_def)
  have len: "nat ?U \<le> length ?xs" by (rule u(4))
  have idx: "nat ((?b + int j) mod ?U) < length ?xs" for j
    using u(1) len pos_mod_bound[of ?U "?b + int j"] pos_mod_sign[of ?U "?b + int j"] by linarith
  have cleared: "(\<exists>k<m. (?b + int j) mod ?U = (?c + int k) mod ?U) \<longleftrightarrow> j = 0" if "j < ?n" for j
  proof
    assume "j = 0"
    moreover have "(?b + int 0) mod ?U = (?c + int (m - 1)) mod ?U" using m by (simp add: of_nat_diff)
    ultimately show "\<exists>k<m. (?b + int j) mod ?U = (?c + int k) mod ?U" using m(1) by (metis diff_less less_one)
  next
    assume "\<exists>k<m. (?b + int j) mod ?U = (?c + int k) mod ?U"
    then obtain k where k: "k < m" "(?b + int j) mod ?U = (?c + int k) mod ?U" by blast
    then have "(?b + int j) mod int (nat ?U) = (?b + int (?n + k)) mod int (nat ?U)" using u(1) n0 by simp
    moreover have "?n + k - j \<le> nat ?U" using k(1) m n0 by linarith
    ultimately show "j = 0" using ring_index_eq[of ?b j "nat ?U" "?n + k"] that k(1) m n0 by linarith
  qed
  have nth: "ys ! nat ((?b + int j) mod ?U) = (if j = 0 then dm_neutral d else ?xs ! nat ((?b + int j) mod ?U))" if "j < ?n" for j
    using ys(3) idx[of j] cleared[OF that] u(1) by simp
  have "pending (d\<lparr>dm_dmabuf := Some ys\<rparr>) = dm_neutral d # tl (pending d)"
  proof (rule nth_equalityI)
    fix j assume "j < length (pending (d\<lparr>dm_dmabuf := Some ys\<rparr>))"
    then have j: "j < ?n" by (simp add: pending_def)
    have "nat ?U = nat ?U \<and> int (nat ?U) = ?U" using u(1) by simp
    then show "pending (d\<lparr>dm_dmabuf := Some ys\<rparr>) ! j = (dm_neutral d # tl (pending d)) ! j"
      using nth[OF j] j by (cases j) (simp_all add: pending_def ring_list_def nth_tl)
  qed (use n0 in \<open>simp add: pending_def\<close>)
  moreover have "ring_play (d\<lparr>dm_dmabuf := Some ys\<rparr>)"
  proof -
    have "silent (d\<lparr>dm_dmabuf := Some ys\<rparr>)" if "silent d"
      using that ys(3) len by (auto simp: silent_def)
    then show ?thesis using assms(1) ys(2)
      by (auto simp: ring_play_def ring_ok_def counters_ok_def dm_has_def dm_mapped_def)
  qed
  ultimately show ?thesis using call by blast
qed

text \<open>Posting the data of an application, which starts the device with less than two fragments, silences
  the oldest byte that waits: the loop that clears the unused part of the buffer runs once more
  than the part has bytes, and the position after the unused part is the device's.\<close>

theorem post_clears_first_byte:
  assumes "ring_player E dev s" and "quiet_driver E" and "\<not> dm_has DMAP_STARTED (dmap_of Play s)"
    and "user_counter (dmap_of Play s) \<noteq> 0" and "pending (dmap_of Play s) \<noteq> []"
  shows "\<exists>s'. oss_audio_post E s = Some s' \<and> ring_player E dev s' \<and> dm_has DMAP_STARTED (dmap_of Play s') \<and>
    pending (dmap_of Play s') = dm_neutral (dmap_of Play s) # tl (pending (dmap_of Play s))"
proof -
  let ?d = "dmap_of Play s"
  have rp: "ring_play ?d" and w: "writer E dev s" using assms(1) by (simp_all add: ring_player_def)
  from clear_unused_pending[OF rp assms(5)] obtain ys where
    c: "clear_unused ?d = Some (?d\<lparr>dm_dmabuf := Some ys\<rparr>)" "ring_play (?d\<lparr>dm_dmabuf := Some ys\<rparr>)"
      "pending (?d\<lparr>dm_dmabuf := Some ys\<rparr>) = dm_neutral ?d # tl (pending ?d)" by blast
  define s1 where "s1 = upd_dmap Play (\<lambda>_. ?d\<lparr>dm_dmabuf := Some ys\<rparr>) s"
  have s1: "dmap_of Play s1 = ?d\<lparr>dm_dmabuf := Some ys\<rparr>" by (simp add: s1_def)
  have "\<not> (dm_has DMAP_STARTED (dmap_of Play s1)) \<and> dm_has DMAP_PREPARED (dmap_of Play s1) \<and> user_counter (dmap_of Play s1) \<noteq> 0"
    using assms(3,4) rp by (simp add: s1 dm_has_def ring_play_def)
  with launch_starts[OF assms(2)] obtain h where
    l: "launch_output E s1 = (Inr (), upd_dmap Play (\<lambda>_. dm_set DMAP_STARTED (dmap_of Play s1)) (s1\<lparr>ad_hw := h\<rparr>))" by blast
  have "oss_audio_post E s = Some (snd (launch_output E s1))"
    using w assms(3,4) c(1) by (simp add: oss_audio_post_def Let_def writer_def s1_def)
  then show ?thesis
    using l c(2,3) w by (simp add: ring_player_def s1 started_ring) (simp add: s1_def dm_has_def dm_set_def upd_cnv_def audio_flags bit.conj_disj_distrib2)
qed

section \<open>Fragments without bytes\<close>

text \<open>Policy 10, which \<open>SNDCTL_DSP_POLICY\<close> accepts from every application, asks for fragments of 256
  kilobytes. For a device with a smaller buffer and no largest block the setup leaves fragments of
  no bytes, and a buffer of which no byte is in use; the next
  \<open>SNDCTL_DSP_GETODELAY\<close> divides by its size, which is zero.\<close>

theorem policy_10_empties_buffer:
  assumes "\<not> dm_has DMAP_FRAGFIXED (dmap_of Play s)" and "a_setup_fragments E = None" and "plain_request Play s"
    and "0 \<le> sp_rate (hw_parms s)" and "sp_rate (hw_parms s) < 2 ^ 28"
    and "0 \<le> dm_buffsize (dmap_of Play s)" and "dm_buffsize (dmap_of Play s) < 256 * 1024" and "min_fragments s \<le> 2 ^ 30"
    and "ad_policy s = 10" and "\<not> ossd_registered s" and "max_block s \<le> 0" and "\<not> dm_mapped (dmap_of Play s)"
  shows "\<exists>s'. setup_fragments E Play s = Some s' \<and> fragment_size (dmap_of Play s') = 0 \<and> bytes_in_use (dmap_of Play s') = 0 \<and>
    get_odelay E (upd_dmap Play (\<lambda>d. d\<lparr>dma_mode := PCM_ENABLE_OUTPUT\<rparr>) s') = None"
proof -
  let ?d = "dmap_of Play s"
  from setup_flow[OF assms(1-6) _ assms(8)] assms(7) obtain s' d' z where
    r: "setup_fragments E Play s = Some s'" "dmap_of Play s' = d'" "frags_fit d'" "bytes_in_use d' = nfrags d' * fragment_size d'"
      "mapping_flags d' = mapping_flags ?d" "1 \<le> z" "policy_size s \<le> z" "bytes_in_use d' \<le> (dm_buffsize ?d sdiv z) * z"
    by auto
  have "policy_size s = 256 * 1024" using assms(9-11) by (simp add: policy_size_def policies_def)
  then have "dm_buffsize ?d < z" using r(7) assms(7) by linarith
  then have "dm_buffsize ?d sdiv z = 0" using sdiv_nonneg[of "dm_buffsize ?d" z] assms(6) r(6) by simp
  then have "bytes_in_use d' \<le> 0" using r(8) by simp
  moreover have "fragment_size d' \<le> nfrags d' * fragment_size d'" "0 \<le> fragment_size d'"
    using r(3) mult_right_mono[of 1 "nfrags d'" "fragment_size d'"] by (simp_all add: frags_fit_def)
  ultimately have z: "fragment_size d' = 0" "bytes_in_use d' = 0" using r(4) by auto
  have "get_odelay E (upd_dmap Play (\<lambda>d. d\<lparr>dma_mode := PCM_ENABLE_OUTPUT\<rparr>) s') = None"
    using z assms(12) r(2,5) by (simp add: get_odelay_def round_down_def divu_def dm_mapped_def)
  with r(1,2) z show ?thesis by simp
qed

section \<open>The error log\<close>

lemma move_errors_above: "move_errors n es = Some es' \<Longrightarrow> n < i \<Longrightarrow> i < length es \<Longrightarrow> es' ! i = es ! i"
  by (induction n arbitrary: es) (auto split: if_splits)

lemma move_errors_shift:
  "n < length es \<Longrightarrow> \<exists>es'. move_errors n es = Some es' \<and> length es' = length es \<and> take n (tl es') = take n es"
proof (induction n arbitrary: es)
  case 0
  then show ?case by auto
next
  case (Suc i)
  let ?es = "es[Suc i := es ! i]"
  from Suc.IH[of ?es] Suc.prems obtain es' where
    es': "move_errors i ?es = Some es'" "length es' = length es" "take i (tl es') = take i ?es" by auto
  moreover have "es' ! Suc i = es ! i" using move_errors_above[OF es'(1), of "Suc i"] Suc.prems by simp
  ultimately show ?case
    using Suc.prems by (auto simp: take_Suc_conv_app_nth nth_tl)
qed

lemma move_errors_full: "length es \<le> n \<Longrightarrow> n \<noteq> 0 \<Longrightarrow> move_errors n es = None"
  by (cases n) simp_all

text \<open>The log of errors has five entries. While fewer than five errors are logged, a new error is put in
  front of the others; the sixth error, which an application causes with six obsolete
  \<open>SNDCTL_DSP_SUBDIVIDE\<close> calls, is moved past the end of the arrays.\<close>

theorem sixth_error_overflows:
  assumes "length (dm_errors (dmap_of D s)) = 5" and "0 \<le> num_errors (dmap_of D s)"
  defines "n \<equiv> nat (num_errors (dmap_of D s))"
  shows "if 5 \<le> n then oss_audio_set_error D err parm s = None
    else \<exists>s'. oss_audio_set_error D err parm s = Some s' \<and> num_errors (dmap_of D s') = num_errors (dmap_of D s) + 1 \<and>
      length (dm_errors (dmap_of D s')) = 5 \<and>
      take (Suc n) (dm_errors (dmap_of D s')) = (err, parm) # take n (dm_errors (dmap_of D s))"
proof (cases "5 \<le> n")
  case True
  let ?d = "dmap_of D s"
  have "5 \<le> (if 5 < num_errors ?d then 5 else num_errors ?d)" using True assms(2) by (simp add: n_def le_nat_iff)
  then have "move_errors (nat (if 5 < num_errors ?d then 5 else num_errors ?d)) (dm_errors ?d) = None"
    using assms(1) by (intro move_errors_full) (auto simp: le_nat_iff)
  with True show ?thesis
    by (cases "5 < num_errors ?d") (simp_all add: oss_audio_set_error_def log_error_def MAX_AUDIO_ERRORS_def Let_def)
next
  case False
  let ?d = "dmap_of D s"
  have n: "num_errors ?d = int n" "n < 5" using False assms(2) by (simp_all add: n_def)
  from move_errors_shift[of n "dm_errors ?d"] n(2) assms(1) obtain es where
    es: "move_errors n (dm_errors ?d) = Some es" "length es = 5" "take n (tl es) = take n (dm_errors ?d)" by auto
  obtain e es0 where cons: "es = e # es0" using es(2) by (cases es) auto
  have "oss_audio_set_error D err parm s =
      Some (upd_dmap D (\<lambda>_. ?d\<lparr>num_errors := int n + 1, dm_errors := (err, parm) # es0\<rparr>) s)"
    using n es(1) by (simp add: oss_audio_set_error_def log_error_def MAX_AUDIO_ERRORS_def Let_def cons)
  with False es n cons show ?thesis by simp
qed

section \<open>The block size\<close>

lemma rounds_cnv:
  assumes "rounds n c f x = Some y" and "\<And>x y. f x = Some y \<Longrightarrow> dm_cnv y = dm_cnv x"
  shows "dm_cnv y = dm_cnv x"
  using rounds_inv[OF assms(1), of "\<lambda>z. dm_cnv z = dm_cnv x"] assms(2) by metis

lemma adjust_fragments_cnv:
  assumes "adjust_fragments s d = Some d'"
  shows "dm_cnv d' = dm_cnv d"
proof -
  have dbl: "dm_cnv y = dm_cnv x" if "double_frags lim x = Some y" for lim and x y :: "'a dmap"
    using that unfolding double_frags_def by (rule rounds_cnv) auto
  have hlv: "dm_cnv y = dm_cnv x" if "halve_frags lim x = Some y" for lim and x y :: "'a dmap"
    using that unfolding halve_frags_def by (rule rounds_cnv) auto
  have use: "dm_cnv y = dm_cnv x" if "set_in_use x = Some y" for x y :: "'a dmap" using that by (auto simp: set_in_use_def)
  from assms obtain d1 d3 d4 d5 d6 where
    "set_in_use d = Some d1"
    "double_frags (min_fragments s) (if nfrags d1 < 2 then d1\<lparr>nfrags := 2, fragment_size := bytes_in_use d1 sdiv 2\<rparr> else d1) = Some d3"
    "(if 2 \<le> max_fragments s then halve_frags (max_fragments s) d3 else Some d3) = Some d4"
    "double_frags (min_fragments s) d4 = Some d5" "set_in_use d5 = Some d6" "dm_cnv d' = dm_cnv d6"
    by (auto simp: adjust_fragments_def Let_def bind_eq_Some_conv)
  then show ?thesis using use[of d d1] dbl[of "min_fragments s" "if nfrags d1 < 2 then d1\<lparr>nfrags := 2, fragment_size := bytes_in_use d1 sdiv 2\<rparr> else d1" d3]
    hlv[of "max_fragments s" d3 d4] dbl[of "min_fragments s" d4 d5] use[of d5 d6] by (auto split: if_splits)
qed

lemma setup_fixes:
  assumes "setup_fragments E D s = Some s'" and "a_setup_fragments E = None"
  shows "dm_has DMAP_FRAGFIXED (dmap_of D s')" and "ad_dmask s' = ad_dmask s"
proof -
  have fl: "dm_has DMAP_FRAGFIXED (dm_set DMAP_FRAGFIXED d)" for d :: "'a dmap"
    by (simp add: dm_has_def dm_set_def upd_cnv_def bit.conj_disj_distrib2 or_eq_0_iff audio_flags)
  have bl: "dmap_of D (block_limits s) = dmap_of D s" "ad_dmask (block_limits s) = ad_dmask s" for s :: "('a, 'b) engine"
    by (simp_all add: block_limits_def dmap_of_def)
  have "dm_has DMAP_FRAGFIXED (dmap_of D s') \<and> ad_dmask s' = ad_dmask s"
    using assms fl by (auto simp: setup_fragments_def Let_def bl bind_eq_Some_conv dm_has_def dest!: adjust_fragments_cnv split: if_splits prod.splits)
  then show "dm_has DMAP_FRAGFIXED (dmap_of D s')" "ad_dmask s' = ad_dmask s" by simp_all
qed

text \<open>\<open>SNDCTL_DSP_GETBLKSIZE\<close> gives the size of the fragments only when it is the call that sets them up: once
  they are fixed, it gives 4096 whatever the size of the fragments is.\<close>

theorem block_size_forgotten:
  assumes "getblksize E s = Some (n, s1)" and "a_setup_fragments E = None" and "ad_dmask s = DMASK_OUT"
    and "\<not> dm_has DMAP_FRAGFIXED (dmap_of Play s)"
  shows "n = fragment_size (dmap_of Play s1) \<and> getblksize E s1 = Some (4096, s1)"
proof -
  have m: "DMASK_OUT AND DMASK_OUT \<noteq> 0" "DMASK_OUT AND DMASK_IN = 0" by (simp_all add: audio_flags)
  from assms m obtain s2 where s2: "setup_fragments E Play s = Some s2" "n = fragment_size (dmap_of Play s2)" "s1 = s2"
    by (auto simp: getblksize_def Let_def)
  with setup_fixes[OF s2(1) assms(2)] assms(3) m show ?thesis by (simp add: getblksize_def Let_def)
qed

section \<open>Concrete engines\<close>

definition toy_flags :: "u32 \<Rightarrow> (unit, nat) engine" where
  "toy_flags f = upd_dmap Play (upd_cnv (\<lambda>c. c\<lparr>dm_flags := f\<rparr>)) toy_engine"

lemma post_clears_first_byte_witness:
  "\<exists>s'. oss_audio_post toy_driver (toy_flags DMAP_PREPARED) = Some s' \<and> hd (pending (dmap_of Play s')) = 0"
proof -
  let ?s = "toy_flags DMAP_PREPARED"
  have p: "ring_player toy_driver 0 ?s"
    using player_ring[OF toy_player(1)]
    by (auto simp: ring_player_def toy_flags_def ring_play_def ring_ok_def counters_ok_def silent_def upd_cnv_def dm_has_def dm_mapped_def audio_flags)
  have "\<not> dm_has DMAP_STARTED (dmap_of Play ?s)" "user_counter (dmap_of Play ?s) \<noteq> 0" "pending (dmap_of Play ?s) \<noteq> []"
    "dm_neutral (dmap_of Play ?s) = 0"
    by (simp_all add: toy_flags_def upd_cnv_def dm_has_def audio_flags pending_def ring_list_def) (simp_all add: toy_defs dmap_of_def)
  with post_clears_first_byte[OF p toy_player(2)] show ?thesis by auto
qed

lemma policy_10_empties_buffer_witness:
  "\<exists>s'. setup_fragments toy_driver Play ((toy_flags 0)\<lparr>ad_policy := 10\<rparr>) = Some s' \<and> bytes_in_use (dmap_of Play s') = 0"
proof -
  have "plain_request Play ((toy_flags 0)\<lparr>ad_policy := 10\<rparr>)"
    by (simp add: plain_request_def toy_flags_def toy_defs dmap_of_def upd_dmap_def upd_cnv_def)
  from policy_10_empties_buffer[OF _ _ this, of toy_driver] show ?thesis
    by (auto simp: toy_flags_def toy_defs dmap_of_def upd_dmap_def upd_cnv_def dm_has_def dm_mapped_def)
qed

lemma sixth_error_overflows_witness:
  "oss_audio_set_error Play 1010 0 (upd_dmap Play (\<lambda>d. d\<lparr>num_errors := 5\<rparr>) toy_engine) = None"
  using sixth_error_overflows[of Play "upd_dmap Play (\<lambda>d. d\<lparr>num_errors := 5\<rparr>) toy_engine" 1010 0]
  by (simp add: toy_defs dmap_of_def upd_dmap_def)

lemma block_size_forgotten_witness:
  "\<exists>n s1. getblksize toy_driver ((toy_flags 0)\<lparr>ad_dmask := DMASK_OUT\<rparr>) = Some (n, s1) \<and> getblksize toy_driver s1 = Some (4096, s1)"
proof -
  let ?s = "(toy_flags 0)\<lparr>ad_dmask := DMASK_OUT\<rparr>"
  have s: "\<not> dm_has DMAP_FRAGFIXED (dmap_of Play ?s)" "a_setup_fragments toy_driver = None" "ad_dmask ?s = DMASK_OUT" "plain_request Play ?s"
    "sp_rate (hw_parms ?s) = 8000" "dm_buffsize (dmap_of Play ?s) = 16" "min_fragments ?s = 0"
    by (simp_all add: plain_request_def toy_flags_def toy_defs dmap_of_def upd_dmap_def upd_cnv_def dm_has_def)
  with setup_flow[OF s(1,2,4)] obtain s2 where s2: "setup_fragments toy_driver Play ?s = Some s2" by auto
  then have "getblksize toy_driver ?s = Some (fragment_size (dmap_of Play s2), s2)"
    using s(1,3) by (simp add: getblksize_def Let_def) (simp add: audio_flags)
  with block_size_forgotten[OF this s(2,3,1)] show ?thesis by blast
qed

end
