(* ===== verification/Audio_Device.thy ===== *)
theory Audio_Device
  imports Audio_Intr Audio_Info
begin

text \<open>
  The table of audio engines of \<open>oss_audio_core.c\<close>: what an engine has beside the state of its
  transfers, the methods of its driver (\<open>audiodrv_t\<close>) with the services of the mixers and of the operating
  system, and the global \<open>sync_seed\<close>; the seed that an engine's own operations advance is loaded
  from it and stored back. A method of a driver acts on its own engine. The methods for the mixers are
  those of the mixer core.
\<close>

section \<open>Engines and drivers\<close>

definition OF_NOCONV :: u32 where "OF_NOCONV = 0x10"
definition OF_SMALLBUF :: u32 where "OF_SMALLBUF = 0x80"
definition OF_MEDIUMBUF :: u32 where "OF_MEDIUMBUF = 0x100"
definition DMAP_SMALLBUF :: u32 where "DMAP_SMALLBUF = 0x40"
definition DMAP_MEDIUMBUF :: u32 where "DMAP_MEDIUMBUF = 0x40"
definition SMALL_DMABUF_SIZE :: int where "SMALL_DMABUF_SIZE = 4 * 1024"
definition MEDIUM_DMABUF_SIZE :: int where "MEDIUM_DMABUF_SIZE = 16 * 1024"
definition ADEV_DUPLEX :: u64 where "ADEV_DUPLEX = 0x4"
definition ADEV_OPENED :: u64 where "ADEV_OPENED = 0x100"
definition ADEV_FIXEDRATE :: u64 where "ADEV_FIXEDRATE = 0x2000"
definition ADEV_16BITONLY :: u64 where "ADEV_16BITONLY = 0x4000"
definition ADEV_STEREOONLY :: u64 where "ADEV_STEREOONLY = 0x8000"
definition ADEV_NOMMAP :: u64 where "ADEV_NOMMAP = 0x400000"
definition ADEV_DEFAULT :: u64 where "ADEV_DEFAULT = 0x1"
definition ADEV_VIRTUAL :: u64 where "ADEV_VIRTUAL = 0x80"
definition ADEV_SHADOW :: u64 where "ADEV_SHADOW = 0x10000"
definition ADEV_SPECIAL :: u64 where "ADEV_SPECIAL = 0x200000"
definition DSP_DEFAULT_FMT :: u32 where "DSP_DEFAULT_FMT = AFMT_S16_LE"
definition DSP_DEFAULT_SPEED :: int where "DSP_DEFAULT_SPEED = 48000"

lemmas file_flags = OF_NOCONV_def OF_SMALLBUF_def OF_MEDIUMBUF_def DMAP_SMALLBUF_def DMAP_MEDIUMBUF_def
  SMALL_DMABUF_SIZE_def MEDIUM_DMABUF_SIZE_def ADEV_DUPLEX_def ADEV_OPENED_def ADEV_FIXEDRATE_def
  ADEV_16BITONLY_def ADEV_STEREOONLY_def ADEV_NOMMAP_def

text \<open>The \<open>ioctl\<close> calls that the audio core knows by name: those of the mixer that it handles, and all.
  The others are told apart by their class.\<close>

datatype mixer_cmd =
  READ_PCM | WRITE_PCM | READ_RECLEV | WRITE_RECLEV | READ_RECGAIN | WRITE_RECGAIN | READ_IGAIN | WRITE_IGAIN
| READ_CAPS | READ_DEVMASK | READ_RECMASK | READ_RECSRC | WRITE_RECSRC | Other_Mixer u32

datatype audio_cmd =
  GETVERSION | DSP_SYNC | DSP_POST | DSP_HALT | DSP_HALT_INPUT | DSP_HALT_OUTPUT | DSP_LOW_WATER | DSP_GETFMTS
| DSP_SETFMT | DSP_GETOSPACE | DSP_GETISPACE | DSP_GETODELAY | DSP_SETDUPLEX | DSP_COOKEDMODE | DSP_GETCAPS
| DSP_NONBLOCK | DSP_GETCHANNELMASK | DSP_BIND_CHANNEL | DSP_SETTRIGGER | DSP_GETTRIGGER | DSP_SETSYNCRO
| DSP_SYNCGROUP | DSP_SYNCSTART | DSP_GETERROR | DSP_GETPLAYVOL | DSP_SETPLAYVOL | DSP_GETRECVOL | DSP_SETRECVOL
| DSP_GETOPTR | DSP_GETIPTR | DSP_CURRENT_OPTR | DSP_CURRENT_IPTR | DSP_POLICY | DSP_SETFRAGMENT | DSP_SUBDIVIDE
| DSP_GETBLKSIZE | DSP_SPEED | DSP_STEREO | DSP_CHANNELS | DSP_PROFILE | DSP_SILENCE | DSP_SKIP
| DSP_GET_RECSRC_NAMES | DSP_GET_RECSRC | DSP_SET_RECSRC | DSP_GET_PLAYTGT_NAMES | DSP_GET_PLAYTGT | DSP_SET_PLAYTGT
| SETSONG | SETLABEL | Mixer mixer_cmd | Mixer_Ext u32 | Other_Cmd u32

text \<open>The argument is memory that the caller shares with the call; each call has its own kind.\<close>

record oss_count =
  oc_samples :: int
  oc_fifo_samples :: int

record audio_errinfo =
  ei_play_underruns :: int
  ei_rec_overruns :: int
  ei_play_errorcount :: int
  ei_rec_errorcount :: int
  ei_play_lasterror :: int
  ei_rec_lasterror :: int
  ei_play_errorparm :: int
  ei_rec_errorparm :: int

record syncgroup =
  sg_id :: int
  sg_mode :: u32

datatype ioctl_arg =
  No_Arg | Int_Arg int | Space_Arg audio_buf_info | Ptr_Arg count_info | Count_Arg oss_count
| Error_Arg audio_errinfo | Group_Arg syncgroup | Names_Arg "string list" | Text_Arg string

type_synonym ('g, 'h) ioctl_method =
  "audio_cmd \<Rightarrow> ioctl_arg \<Rightarrow> ('g, 'h) engine \<Rightarrow> (int oss_result \<times> ioctl_arg) \<times> ('g, 'h) engine"

datatype sync_event = SYNC_ATTACH | SYNC_PREPARE | SYNC_TRIGGER

text \<open>What an engine has beside the state of its transfers; the masks are those of the formats of
  the device, and the last fields chain the engines of a synchronisation group.\<close>

record ('g, 'h) adev =
  ad_engine :: "('g, 'h) engine"
  ad_unloaded :: bool
  has_osdev :: bool
  buffer_protected :: "dir \<Rightarrow> bool"
  oformat_mask :: u32
  iformat_mask :: u32
  xformat_mask :: u32
  fixed_rate :: int
  sync_flags :: u32
  sync_group :: int
  sync_mode :: u32
  sync_next :: "nat option"
  ad_caps :: u32
  mixer_dev :: int
  ad_cmd :: string
  ad_label :: string
  ad_song_name :: string
  ad_pid :: int

record ('g, 'h) driver =
  d_audio :: "('g, 'h) audio_env"
  d_open :: "u32 \<Rightarrow> u32 \<Rightarrow> ('g, 'h) engine \<Rightarrow> unit oss_result \<times> ('g, 'h) engine"
  d_close :: "u32 \<Rightarrow> ('g, 'h) engine \<Rightarrow> ('g, 'h) engine"
  d_alloc_buffer :: "(dir \<Rightarrow> ('g, 'h) engine \<Rightarrow> unit oss_result \<times> ('g, 'h) engine) option"
  d_free_buffer :: "(dir \<Rightarrow> ('g, 'h) engine \<Rightarrow> ('g, 'h) engine) option"
  d_sync_control :: "(sync_event \<Rightarrow> u32 \<Rightarrow> ('g, 'h) engine \<Rightarrow> ('g, 'h) engine) option"
  os_alloc_dmabuf :: "dir \<Rightarrow> ('g, 'h) engine \<Rightarrow> unit oss_result \<times> ('g, 'h) engine"
  os_free_dmabuf :: "dir \<Rightarrow> ('g, 'h) engine \<Rightarrow> ('g, 'h) engine"
  d_ioctl :: "('g, 'h) ioctl_method option"
  d_ioctl_override :: "('g, 'h) ioctl_method option"
  d_bind :: "('g, 'h) ioctl_method option"
  num_mixers :: int
  mixer_modified :: "int \<Rightarrow> ('g, 'h) engine \<Rightarrow> ('g, 'h) engine"
  mixer_ioctl :: "int \<Rightarrow> int \<Rightarrow> ('g, 'h) ioctl_method"
  legacy_mixer_ioctl :: "int \<Rightarrow> int \<Rightarrow> ('g, 'h) ioctl_method"
  mixer_ext :: "('g, 'h) ioctl_method"
  opt_cooked :: bool
  opt_src_quality :: int

record ('g, 'h) audio_core =
  ac_engines :: "('g, 'h) adev list"
  ac_seed :: u64

type_synonym ('a, 'g, 'h) core_result = "('a oss_result \<times> ('g, 'h) audio_core) option"

definition load_adev :: "nat \<Rightarrow> ('g, 'h) audio_core \<Rightarrow> ('g, 'h) adev" where
  "load_adev i c = (let a = ac_engines c ! i in a\<lparr>ad_engine := (ad_engine a)\<lparr>sync_seed := ac_seed c\<rparr>\<rparr>)"

definition store_adev :: "nat \<Rightarrow> ('g, 'h) adev \<Rightarrow> ('g, 'h) audio_core \<Rightarrow> ('g, 'h) audio_core" where
  "store_adev i a c = c\<lparr>ac_engines := (ac_engines c)[i := a], ac_seed := sync_seed (ad_engine a)\<rparr>"

definition upd_engine :: "(('g, 'h) engine \<Rightarrow> ('g, 'h) engine) \<Rightarrow> ('g, 'h) adev \<Rightarrow> ('g, 'h) adev" where
  "upd_engine f a = a\<lparr>ad_engine := f (ad_engine a)\<rparr>"

definition valid_dev :: "int \<Rightarrow> ('g, 'h) audio_core \<Rightarrow> bool" where
  "valid_dev dev c \<longleftrightarrow> 0 \<le> dev \<and> dev < int (length (ac_engines c))"

definition bump_core :: "('g, 'h) audio_core \<Rightarrow> ('g, 'h) audio_core" where
  "bump_core c = c\<lparr>ac_seed := ac_seed c + 1\<rparr>"

end
