(* ===== verification/Audio_Files.thy ===== *)
theory Audio_Files
  imports Audio_Device
begin

text \<open>
  Opening and closing audio engines, from \<open>oss_audio_core.c\<close>: the buffers of an engine are allocated and
  cleared when it is opened, and silenced and freed when it is closed.
\<close>

section \<open>Applications that need special treatment\<close>

definition special_apps :: "(string \<times> u32) list" where
  "special_apps = [(''quake'', OF_MMAP), (''quake2'', OF_MMAP), (''q3demo.x86'', OF_MMAP), (''wolfsp.x86'', OF_MMAP),
     (''wolfmp.x86'', OF_MMAP), (''quake3'', OF_MMAP), (''wolf3d'', OF_MMAP), (''rtcw'', OF_MMAP),
     (''artsd'', OF_BLOCK OR OF_NOCONV), (''realplay.bin'', OF_SMALLFRAGS), (''hxplay.bin'', OF_SMALLFRAGS),
     (''auserver'', OF_NOCONV), (''quake3.x86'', OF_MMAP), (''wolf.x86'', OF_MMAP), (''et.x86'', OF_MMAP), (''doom.x86'', OF_MMAP)]"

text \<open>The name of the process is unknown on some systems.\<close>

definition get_open_flags :: "string option \<Rightarrow> u32 \<Rightarrow> u32" where
  "get_open_flags name fl =
     (case name of None \<Rightarrow> fl
      | Some n \<Rightarrow> (case map_of special_apps n of None \<Rightarrow> fl | Some f \<Rightarrow> fl OR f))"

section \<open>Buffers of an engine\<close>

text \<open>The default methods: the operating system sets the buffer, its physical address and size.\<close>

definition default_alloc_buffer ::
  "('g, 'h) driver \<Rightarrow> dir \<Rightarrow> ('g, 'h) engine \<Rightarrow> unit oss_result \<times> ('g, 'h) engine" where
  "default_alloc_buffer V D s = (if dm_dmabuf (dmap_of D s) \<noteq> None then (Inr (), s) else os_alloc_dmabuf V D s)"

definition default_free_buffer :: "('g, 'h) driver \<Rightarrow> dir \<Rightarrow> ('g, 'h) engine \<Rightarrow> ('g, 'h) engine" where
  "default_free_buffer V D s =
     (if dm_dmabuf (dmap_of D s) = None then s
      else upd_dmap D (\<lambda>d. d\<lparr>dm_dmabuf := None, dm_phys := 0\<rparr>) (os_free_dmabuf V D s))"

text \<open>The dynamic fields are cleared, then the buffer is silenced and the queue reset.\<close>

definition zero_dmap :: "'g dmap \<Rightarrow> 'g dmap" where
  "zero_dmap d =
     upd_cnv (\<lambda>c. c\<lparr>expand_factor := 0, convert_mode := 0, convert_func := None, dm_flags := 0, tmpbuf_len := 0, tmpbuf_ptr := 0\<rparr>)
       (d\<lparr>dm_neutral := 0, dma_mode := 0, nfrags := 0, fragment_size := 0, bytes_in_use := 0, data_rate := 0,
          frame_size := 0, user_frame_size := 0, fragsize_rq := 0, low_water := 0, low_water_rq := 0,
          byte_counter := 0, user_counter := 0, interrupt_count := 0, fragment_counter := 0, mapping_flags := 0,
          play_underruns := 0, rec_overruns := 0, underrun_flag := False, num_errors := 0,
          dm_errors := replicate MAX_AUDIO_ERRORS (0, 0), dm_leftover := [], has_device_write := False\<rparr>)"

definition silence :: "'g dmap \<Rightarrow> 'g dmap option" where
  "silence d =
     (if dm_dmabuf d = None then Some d
      else map_option (\<lambda>b. d\<lparr>dm_dmabuf := Some b\<rparr>) (fill (dm_buffsize d) (dm_neutral d) (dm_dmabuf d)))"

definition fresh_dmap :: "bool \<Rightarrow> 'g dmap \<Rightarrow> 'g dmap option" where
  "fresh_dmap prot d =
     map_option (\<lambda>d. upd_cnv (\<lambda>c. c\<lparr>dm_flags := 0\<rparr>)
         ((reset_dmap d)\<lparr>bytes_in_use := dm_buffsize d, frame_size := 1, user_frame_size := 1, has_callback := False\<rparr>))
       (if prot then Some (zero_dmap d) else silence (zero_dmap d))"

text \<open>The buffer belongs to the same device as its engine. A buffer without a physical address
  cannot be mapped.\<close>

definition init_dmap :: "('g, 'h) driver \<Rightarrow> dir \<Rightarrow> ('g, 'h) adev \<Rightarrow> (unit oss_result \<times> ('g, 'h) adev) option" where
  "init_dmap V D a =
     (if \<not> has_osdev a then Some (Inl OSS_EIO, a)
      else
        case (if dm_dmabuf (dmap_of D (ad_engine a)) \<noteq> None then (Inr (), ad_engine a)
              else (case d_alloc_buffer V of None \<Rightarrow> default_alloc_buffer V | Some f \<Rightarrow> f) D (ad_engine a)) of
          (Inl e, s) \<Rightarrow> Some (Inl e, a\<lparr>ad_engine := s\<rparr>)
        | (Inr u, s) \<Rightarrow>
            let s = (if dm_phys (dmap_of D s) = 0 then s\<lparr>ad_flags := ad_flags s OR ADEV_NOMMAP\<rparr> else s)
            in map_option (\<lambda>d. (Inr (), a\<lparr>ad_engine := upd_dmap D (\<lambda>_. d) s\<rparr>))
                 (fresh_dmap (buffer_protected a D) (dmap_of D s)))"

section \<open>Closing\<close>

definition O_ACCMODE :: u32 where "O_ACCMODE = 3"

definition open_mode_of :: "u32 option \<Rightarrow> u32" where
  "open_mode_of file = (case file of None \<Rightarrow> PCM_ENABLE_INPUT OR PCM_ENABLE_OUTPUT | Some m \<Rightarrow> m AND O_ACCMODE)"

definition core_env :: "('g, 'h) driver \<Rightarrow> ('g, 'h) audio_core \<Rightarrow> ('g, 'h) audio_env" where
  "core_env V c = (d_audio V)\<lparr>num_audio_engines := int (length (ac_engines c))\<rparr>"

definition close_dmaps :: "('g, 'h) adev \<Rightarrow> ('g, 'h) engine \<Rightarrow> ('g, 'h) engine option" where
  "close_dmaps a s =
     map_option (\<lambda>s. if ad_dmask s AND DMASK_IN \<noteq> 0 then upd_dmap Rec (\<lambda>d. d\<lparr>has_callback := False\<rparr>) s else s)
       (if ad_dmask s AND DMASK_OUT \<noteq> 0 then
          (let d = (dmap_of Play s)\<lparr>has_callback := False\<rparr> in
           map_option (\<lambda>d. upd_dmap Play (\<lambda>_. d) s) (if buffer_protected a Play then Some d else silence d))
        else Some s)"

definition free_buffer :: "('g, 'h) driver \<Rightarrow> dir \<Rightarrow> ('g, 'h) engine \<Rightarrow> ('g, 'h) engine" where
  "free_buffer V D s =
     (if dm_dmabuf (dmap_of D s) = None then s
      else upd_dmap D (\<lambda>d. d\<lparr>dm_dmabuf := None\<rparr>)
             ((case d_free_buffer V of None \<Rightarrow> default_free_buffer V | Some f \<Rightarrow> f) D s))"

definition free_buffers :: "('g, 'h) driver \<Rightarrow> ('g, 'h) engine \<Rightarrow> ('g, 'h) engine" where
  "free_buffers V s =
     (let s = (if ad_dmask s AND DMASK_OUT \<noteq> 0 then free_buffer V Play s else s)
      in if ad_dmask s AND DMASK_IN \<noteq> 0 \<and> ad_duplex s then free_buffer V Rec s else s)"

definition close_engine ::
  "('g, 'h) driver \<Rightarrow> ('g, 'h) audio_env \<Rightarrow> nat \<Rightarrow> u32 \<Rightarrow> ('g, 'h) adev \<Rightarrow> ('g, 'h) adev option" where
  "close_engine V E fuel m a =
     Option.bind (oss_audio_post E (ad_engine a)) (\<lambda>s.
     Option.bind (oss_audio_sync E fuel s) (\<lambda>s.
     map_option (\<lambda>s. let s = free_buffers V s
         in a\<lparr>ad_engine := s\<lparr>ad_open_mode := 0, ad_flags := ad_flags s AND NOT ADEV_OPENED\<rparr>,
              ad_cmd := [], ad_label := [], ad_song_name := [], ad_pid := - 1\<rparr>)
       (close_dmaps a (d_close V m (a_halt_io E s)))))"

definition oss_audio_release ::
  "(nat \<Rightarrow> ('g, 'h) driver) \<Rightarrow> nat \<Rightarrow> int \<Rightarrow> u32 option \<Rightarrow> ('g, 'h) audio_core \<Rightarrow> ('g, 'h) audio_core option" where
  "oss_audio_release drv fuel dev file c =
     (let c = bump_core c; i = nat dev; a = load_adev i c in
      if \<not> valid_dev dev c then Some c
      else if ad_unloaded a \<or> \<not> ad_enabled (ad_engine a) then Some c
      else map_option (\<lambda>a. store_adev i a c) (close_engine (drv i) (core_env (drv i) c) fuel (open_mode_of file) a))"

section \<open>Opening\<close>

text \<open>What the methods of the driver find when they open the device, and what the engine is set to
  once it is open.\<close>

definition before_open :: "('g, 'h) driver \<Rightarrow> u32 \<Rightarrow> ('g, 'h) engine \<Rightarrow> ('g, 'h) engine" where
  "before_open V m s =
     (let q = (\<lambda>d. upd_cnv (\<lambda>c. c\<lparr>src_quality := opt_src_quality V\<rparr>) d)
      in s\<lparr>ad_open_mode := m, cooked_enable := opt_cooked V, dmap_0 := q (dmap_0 s), dmap_1 := q (dmap_1 s)\<rparr>)"

definition open_dmask :: "u32 \<Rightarrow> ('g, 'h) engine \<Rightarrow> u32" where
  "open_dmask m s =
     (if m = PCM_ENABLE_OUTPUT then DMASK_OUT
      else if m = PCM_ENABLE_INPUT then DMASK_IN
      else if ad_flags s AND ADEV_DUPLEX \<noteq> 0 \<and> ad_duplex s then DMASK_OUT OR DMASK_IN
      else DMASK_OUT)"

definition name_owner :: "bool \<Rightarrow> string option \<times> int \<Rightarrow> ('g, 'h) adev \<Rightarrow> ('g, 'h) adev" where
  "name_owner recursive proc a =
     (let a = a\<lparr>ad_song_name := [], ad_label := [], ad_cmd := []\<rparr> in
      if recursive then a\<lparr>ad_cmd := ''OSS internal'', ad_pid := 0\<rparr>
      else (case fst proc of None \<Rightarrow> a | Some n \<Rightarrow> a\<lparr>ad_cmd := take 15 n, ad_label := take 15 n\<rparr>)\<lparr>ad_pid := snd proc\<rparr>)"

definition mark_open :: "u32 \<Rightarrow> u32 \<Rightarrow> ('g, 'h) adev \<Rightarrow> ('g, 'h) adev" where
  "mark_open m fl a =
     (let s = ad_engine a;
          s = s\<lparr>forced_nonblock := False, setfragment_warned := False, getispace_error_count := 0,
                ad_open_flags := fl, ad_flags := ad_flags s OR ADEV_OPENED, timeout_count := 0, ad_policy := - 1,
                cooked_enable := (if fl AND (OF_NOCONV OR OF_MMAP) \<noteq> 0 then False else cooked_enable s)\<rparr>
      in a\<lparr>sync_next := None, sync_group := 0, sync_flags := 0, ad_engine := s\<lparr>ad_dmask := open_dmask m s\<rparr>\<rparr>)"

text \<open>The size of the buffer that is asked for.\<close>

definition want_buffer :: "dir \<Rightarrow> u32 \<Rightarrow> ('g, 'h) engine \<Rightarrow> 'g dmap \<Rightarrow> 'g dmap" where
  "want_buffer D fl s d =
     (if min_block s * 2 \<le> SMALL_DMABUF_SIZE \<and> fl AND OF_SMALLBUF \<noteq> 0 then dm_set DMAP_SMALLBUF d
      else if D = Rec then dm_clear DMAP_SMALLBUF d
      else if min_block s * 2 \<le> MEDIUM_DMABUF_SIZE \<and> fl AND OF_MEDIUMBUF \<noteq> 0 then dm_set DMAP_MEDIUMBUF d
      else dm_clear (DMAP_SMALLBUF OR DMAP_MEDIUMBUF) d)"

definition open_dmap ::
  "('g, 'h) driver \<Rightarrow> u32 \<Rightarrow> dir \<Rightarrow> ('g, 'h) adev \<Rightarrow> (unit oss_result \<times> ('g, 'h) adev) option" where
  "open_dmap V fl D a =
     (if ad_dmask (ad_engine a) AND (if D = Play then DMASK_OUT else DMASK_IN) = 0 then Some (Inr (), a)
      else init_dmap V D (upd_engine (\<lambda>s. upd_dmap D (want_buffer D fl s) s) a))"

definition open_dmaps ::
  "('g, 'h) driver \<Rightarrow> u32 \<Rightarrow> ('g, 'h) adev \<Rightarrow> (unit oss_result \<times> ('g, 'h) adev) option" where
  "open_dmaps V fl a =
     (case open_dmap V fl Play a of
        None \<Rightarrow> None
      | Some (Inl e, a) \<Rightarrow> Some (Inl e, a)
      | Some (Inr u, a) \<Rightarrow> open_dmap V fl Rec a)"

definition open_format_mask :: "('g, 'h) adev \<Rightarrow> u32" where
  "open_format_mask a =
     (let m = ad_dmask (ad_engine a) in
      if m = DMASK_OUT then oformat_mask a
      else if m = DMASK_IN then iformat_mask a
      else if m = DMASK_OUT OR DMASK_IN then oformat_mask a AND iformat_mask a
      else 0)"

text \<open>The default parameters: the result of setting them is ignored, and no conversion is used.\<close>

definition default_parms ::
  "('g, 'h) audio_env \<Rightarrow> int \<Rightarrow> ('g, 'h) adev \<Rightarrow> ('g, 'h) engine \<Rightarrow> ('g, 'h) engine option" where
  "default_parms E dev a s =
     (let fmt = (if ad_flags s AND ADEV_16BITONLY \<noteq> 0 then AFMT_S16_LE else DSP_DEFAULT_FMT);
          rate = (if ad_flags s AND ADEV_FIXEDRATE \<noteq> 0 \<and> fixed_rate a \<noteq> 0 then fixed_rate a else DSP_DEFAULT_SPEED);
          ch = (if ad_flags s AND ADEV_STEREOONLY \<noteq> 0 then 2 else 1)
      in Option.bind (map_option snd (oss_audio_set_format E dev fmt (xformat_mask a) (s\<lparr>cooked_enable := False\<rparr>))) (\<lambda>s.
         Option.bind (map_option snd (oss_audio_set_channels E dev ch s)) (\<lambda>s.
         map_option snd (oss_audio_set_rate E dev rate s))))"

definition ready_engine ::
  "('g, 'h) audio_env \<Rightarrow> int \<Rightarrow> ('g, 'h) adev \<Rightarrow> ('g, 'h) adev option" where
  "ready_engine E dev a =
     (let a = a\<lparr>xformat_mask := open_format_mask a\<rparr>;
          z = (\<lambda>d. d\<lparr>num_errors := 0\<rparr>);
          s = upd_dmap Rec z (upd_dmap Play z (ad_engine a));
          s = s\<lparr>ad_go := True, enable_bits := ad_open_mode s\<rparr>
      in map_option (\<lambda>s'.
           let s' = s'\<lparr>cooked_enable := cooked_enable s\<rparr>;
               s' = (if ad_dmask s' AND DMASK_OUT \<noteq> 0 then upd_dmap Play (dm_clear DMAP_COOKED) s' else s')
           in a\<lparr>ad_engine := (if ad_dmask s' AND DMASK_IN \<noteq> 0 then upd_dmap Rec (dm_clear DMAP_COOKED) s' else s')\<rparr>)
         (default_parms E dev a s))"

text \<open>\<open>proc\<close> is the name and number of the process. A successful call gives the number of the engine.\<close>

definition oss_audio_open_engine ::
  "(nat \<Rightarrow> ('g, 'h) driver) \<Rightarrow> nat \<Rightarrow> int \<Rightarrow> u32 option \<Rightarrow> bool \<Rightarrow> string option \<times> int \<Rightarrow> u32 \<Rightarrow> ('g, 'h) audio_core
     \<Rightarrow> (int, 'g, 'h) core_result" where
  "oss_audio_open_engine drv fuel dev file recursive proc fl c =
     (let c = bump_core c; i = nat dev; V = drv i; E = core_env V c; a = load_adev i c; m = open_mode_of file;
          fl = get_open_flags (fst proc) fl
      in if \<not> valid_dev dev c then Some (Inl OSS_ENXIO, c)
         else if ad_unloaded a then Some (Inl OSS_ENODEV, c)
         else if \<not> ad_enabled (ad_engine a) then Some (Inl OSS_ENXIO, c)
         else if \<not> has_osdev a then Some (Inl OSS_EIO, c)
         else if ad_open_mode (ad_engine a) \<noteq> 0 then Some (Inl OSS_EBUSY, c)
         else case d_open V m fl (before_open V m (ad_engine a)) of
           (Inl e, s) \<Rightarrow> Some (Inl e, store_adev i (a\<lparr>ad_engine := s\<lparr>ad_open_mode := 0\<rparr>\<rparr>) c)
         | (Inr u, s) \<Rightarrow>
             (case open_dmaps V fl (name_owner recursive proc (mark_open m fl (a\<lparr>ad_engine := s\<rparr>))) of
                None \<Rightarrow> None
              | Some (Inl e, a) \<Rightarrow> map_option (Pair (Inl e)) (oss_audio_release drv fuel dev file (store_adev i a c))
              | Some (Inr u, a) \<Rightarrow> map_option (\<lambda>a. (Inr dev, store_adev i a c)) (ready_engine E dev a)))"

section \<open>Fragments\<close>

definition setfragment_error :: "('g, 'h) engine \<Rightarrow> ('g, 'h) engine option" where
  "setfragment_error s =
     (if setfragment_warned s then Some s
      else map_option (\<lambda>s. s\<lparr>setfragment_warned := True\<rparr>) (oss_audio_set_error Play 1011 0 s))"

end
