(* ===== verification/Audio_Sync.thy ===== *)
theory Audio_Sync
  imports Audio_Files
begin

text \<open>
  Synchronisation groups of \<open>oss_audio_core.c\<close>: engines join a group, which is a chain from its master
  over \<open>sync_next\<close>, and are started together. The number of a group holds the number of its master in
  the lowest 16 bits. A walk along the chain takes at most \<open>fuel\<close> engines; \<open>None\<close> also stands for a
  walk that does not end.
\<close>

section \<open>The trigger\<close>

definition trigger_output :: "('g, 'h) audio_env \<Rightarrow> u32 \<Rightarrow> ('g, 'h) engine \<Rightarrow> (unit, 'g, 'h) audio_result" where
  "trigger_output E v s =
     (if v AND PCM_ENABLE_OUTPUT = 0 \<or> enable_bits s AND PCM_ENABLE_OUTPUT \<noteq> 0 then done_with () s
      else
        let s = (if dm_mapped (dmap_of Play s) then upd_dmap Play (\<lambda>d. d\<lparr>dma_mode := PCM_ENABLE_OUTPUT\<rparr>) s else s)
        in audio_and (prepare_output E s) (\<lambda>_ s.
             let s = snd (launch_output E s)
             in done_with () (s\<lparr>enable_bits := enable_bits s AND PCM_ENABLE_OUTPUT OR v AND PCM_ENABLE_OUTPUT\<rparr>)))"

definition trigger_input :: "('g, 'h) audio_env \<Rightarrow> u32 \<Rightarrow> ('g, 'h) engine \<Rightarrow> (unit, 'g, 'h) audio_result" where
  "trigger_input E v s =
     (if v AND PCM_ENABLE_INPUT = 0 \<or> enable_bits s AND PCM_ENABLE_INPUT \<noteq> 0 then done_with () s
      else
        audio_and (prepare_input E (upd_dmap Rec (\<lambda>d. d\<lparr>dma_mode := PCM_ENABLE_INPUT\<rparr>) s)) (\<lambda>_ s.
          let s = snd (launch_input E s)
          in done_with () (s\<lparr>enable_bits := enable_bits s AND PCM_ENABLE_INPUT OR v AND PCM_ENABLE_INPUT\<rparr>)))"

definition set_trigger :: "('g, 'h) audio_env \<Rightarrow> u32 \<Rightarrow> ('g, 'h) engine \<Rightarrow> (u32, 'g, 'h) audio_result" where
  "set_trigger E v s =
     (case a_trigger E of None \<Rightarrow> fail OSS_EIO s
      | Some trig \<Rightarrow>
          let v = v AND (PCM_ENABLE_INPUT OR PCM_ENABLE_OUTPUT) AND ad_open_mode s in
          if v AND ad_open_mode s = enable_bits s AND ad_open_mode s then done_with v s
          else
            audio_and (trigger_output E v s) (\<lambda>_ s.
            audio_and (trigger_input E v s) (\<lambda>_ s.
              let s = s\<lparr>enable_bits := v\<rparr>
              in done_with v (if v = 0 \<or> ad_go s then trig v s else s))))"

text \<open>What every \<open>ioctl\<close> call does first: the checks, and the method of the driver that takes over the
  call unless it returns \<open>EAGAIN\<close>. The rest of the call continues with the argument that this method
  leaves.\<close>

definition with_engine ::
  "(nat \<Rightarrow> ('g, 'h) driver) \<Rightarrow> int \<Rightarrow> audio_cmd \<Rightarrow> ioctl_arg
     \<Rightarrow> (ioctl_arg \<Rightarrow> ('g, 'h) audio_core \<Rightarrow> ((int oss_result \<times> ioctl_arg) \<times> ('g, 'h) audio_core) option)
     \<Rightarrow> ('g, 'h) audio_core \<Rightarrow> ((int oss_result \<times> ioctl_arg) \<times> ('g, 'h) audio_core) option" where
  "with_engine drv dev cmd arg k c =
     (let c = bump_core c; i = nat dev; a = load_adev i c in
      if \<not> valid_dev dev c then Some ((Inl OSS_ENXIO, arg), c)
      else if ad_unloaded a then Some ((Inl OSS_ENODEV, arg), c)
      else if \<not> ad_enabled (ad_engine a) then Some ((Inl OSS_ENXIO, arg), c)
      else case d_ioctl_override (drv i) of
        None \<Rightarrow> k arg c
      | Some f \<Rightarrow>
          (case f cmd arg (ad_engine a) of ((r, arg), s) \<Rightarrow>
             let c = store_adev i (a\<lparr>ad_engine := s\<rparr>) c
             in if r = Inl OSS_EAGAIN then k arg c else Some ((r, arg), c)))"

definition int_arg :: "ioctl_arg \<Rightarrow> int" where
  "int_arg x = (case x of Int_Arg v \<Rightarrow> v | _ \<Rightarrow> 0)"

definition trigger_call ::
  "(nat \<Rightarrow> ('g, 'h) driver) \<Rightarrow> nat \<Rightarrow> ioctl_arg \<Rightarrow> ('g, 'h) audio_core \<Rightarrow> ((int oss_result \<times> ioctl_arg) \<times> ('g, 'h) audio_core) option" where
  "trigger_call drv i arg c =
     (let a = load_adev i c in
      map_option (\<lambda>(r, s). (case r of Inl e \<Rightarrow> (Inl e, arg) | Inr v \<Rightarrow> (Inr 0, Int_Arg (uint v)), store_adev i (a\<lparr>ad_engine := s\<rparr>) c))
        (set_trigger (core_env (drv i) c) (word_of_int (int_arg arg)) (ad_engine a)))"

section \<open>Joining a group\<close>

definition SYNC_MASTER :: u32 where "SYNC_MASTER = 1"
definition SYNC_SLAVE :: u32 where "SYNC_SLAVE = 2"
definition SYNC_DEVICE_MASK :: int where "SYNC_DEVICE_MASK = 0xffff"

definition upd_adev :: "nat \<Rightarrow> (('g, 'h) adev \<Rightarrow> ('g, 'h) adev) \<Rightarrow> ('g, 'h) audio_core \<Rightarrow> ('g, 'h) audio_core" where
  "upd_adev i f c = store_adev i (f (load_adev i c)) c"

definition xrand :: "u64 \<Rightarrow> u64" where "xrand w = 1664525 * w + 1013904223"

definition new_group :: "nat \<Rightarrow> u64 \<Rightarrow> int" where
  "new_group i w = (signed_take_bit 31 (uint w) AND NOT SYNC_DEVICE_MASK) OR int i"

text \<open>The master of the group that is joined; a new group is one of its own.\<close>

definition sync_attach ::
  "('g, 'h) driver \<Rightarrow> int \<Rightarrow> u32 \<Rightarrow> ('g, 'h) adev \<Rightarrow> ('g, 'h) adev" where
  "sync_attach V g m a =
     (let a = a\<lparr>sync_mode := m, sync_group := g\<rparr> in
      case d_sync_control V of None \<Rightarrow> a | Some f \<Rightarrow> upd_engine (f SYNC_ATTACH m) a)"

definition link_slave :: "nat \<Rightarrow> nat \<Rightarrow> ('g, 'h) audio_core \<Rightarrow> ('g, 'h) audio_core" where
  "link_slave i j c =
     (if i = j then c
      else upd_adev j (\<lambda>a. a\<lparr>sync_next := Some i\<rparr>)
             (upd_adev i (\<lambda>a. a\<lparr>sync_next := sync_next (ac_engines c ! j)\<rparr>) c))"

definition join_group ::
  "('g, 'h) driver \<Rightarrow> nat \<Rightarrow> int \<Rightarrow> u32 \<Rightarrow> ('g, 'h) audio_core \<Rightarrow> (unit oss_result \<times> syncgroup) \<times> ('g, 'h) audio_core" where
  "join_group V i g m c =
     (let j = nat (g AND SYNC_DEVICE_MASK); mst = ac_engines c ! j in
      if length (ac_engines c) \<le> j then ((Inl OSS_EINVAL, \<lparr>sg_id = 0, sg_mode = m\<rparr>), c)
      else if j \<noteq> i \<and> (sync_flags mst AND SYNC_MASTER = 0 \<or> sync_group mst \<noteq> g)
      then ((Inl OSS_EINVAL, \<lparr>sg_id = g, sg_mode = m\<rparr>), c)
      else
        let c = upd_adev i (\<lambda>a. a\<lparr>sync_flags := sync_flags a OR (if j = i then SYNC_MASTER else SYNC_SLAVE)\<rparr>) c;
            m = m AND (PCM_ENABLE_INPUT OR PCM_ENABLE_OUTPUT) AND ad_open_mode (ad_engine (load_adev i c))
        in if m = 0 then ((Inl OSS_EINVAL, \<lparr>sg_id = g, sg_mode = m\<rparr>), upd_adev i (\<lambda>a. a\<lparr>sync_flags := 0\<rparr>) c)
           else
             ((Inr (), \<lparr>sg_id = g, sg_mode = m\<rparr>),
              upd_adev i (upd_engine (\<lambda>s. s\<lparr>ad_go := False\<rparr>)) (link_slave i j (upd_adev i (sync_attach V g m) c))))"

definition handle_syncgroup ::
  "(nat \<Rightarrow> ('g, 'h) driver) \<Rightarrow> nat \<Rightarrow> syncgroup \<Rightarrow> ('g, 'h) audio_core \<Rightarrow> (unit oss_result \<times> syncgroup) \<times> ('g, 'h) audio_core" where
  "handle_syncgroup drv i g c =
     (if sync_group (ac_engines c ! i) \<noteq> 0 then ((Inl OSS_EBUSY, g), c)
      else if sg_id g \<noteq> 0 then join_group (drv i) i (sg_id g) (sg_mode g) c
      else if SYNC_DEVICE_MASK < int i then ((Inl OSS_EIO, g), c)
      else
        let c = c\<lparr>ac_seed := xrand (ac_seed c)\<rparr>
        in join_group (drv i) i (new_group i (ac_seed c)) (sg_mode g) (upd_adev i (\<lambda>a. a\<lparr>sync_next := None\<rparr>) c))"

section \<open>Starting a group\<close>

text \<open>An engine whose driver has a method for groups is prepared and launched, and told so.\<close>

definition sync_input :: "('g, 'h) audio_env \<Rightarrow> ('g, 'h) engine \<Rightarrow> ('g, 'h) engine option" where
  "sync_input E s =
     map_option (\<lambda>s. snd (launch_input E s))
       (if dm_has DMAP_PREPARED (dmap_of Rec s) then Some s
        else map_option snd (prepare_input E (upd_dmap Rec (\<lambda>d. d\<lparr>dma_mode := PCM_ENABLE_INPUT\<rparr>) s)))"

definition sync_output :: "('g, 'h) audio_env \<Rightarrow> ('g, 'h) engine \<Rightarrow> (unit, 'g, 'h) audio_result" where
  "sync_output E s =
     audio_and (prepare_output E (if dm_mapped (dmap_of Play s) then upd_dmap Play (\<lambda>d. d\<lparr>dma_mode := PCM_ENABLE_OUTPUT\<rparr>) s else s))
       (\<lambda>_ s. done_with () (snd (launch_output E s)))"

definition sync_prepare ::
  "('g, 'h) audio_env \<Rightarrow> (sync_event \<Rightarrow> u32 \<Rightarrow> ('g, 'h) engine \<Rightarrow> ('g, 'h) engine) \<Rightarrow> u32 \<Rightarrow> ('g, 'h) engine
     \<Rightarrow> (unit, 'g, 'h) audio_result" where
  "sync_prepare E f m s =
     Option.bind (if m AND PCM_ENABLE_INPUT \<noteq> 0 then sync_input E s else Some s) (\<lambda>s.
     audio_and (if m AND PCM_ENABLE_OUTPUT \<noteq> 0 then sync_output E s else done_with () s) (\<lambda>_ s.
     done_with () (f SYNC_PREPARE m s)))"

text \<open>The trigger call of an engine inside of the kernel; its result is ignored.\<close>

definition set_bits :: "(nat \<Rightarrow> ('g, 'h) driver) \<Rightarrow> nat \<Rightarrow> u32 \<Rightarrow> ('g, 'h) audio_core \<Rightarrow> ('g, 'h) audio_core option" where
  "set_bits drv i v c = map_option snd (with_engine drv (int i) DSP_SETTRIGGER (Int_Arg (uint v)) (trigger_call drv i) c)"

definition announce :: "(nat \<Rightarrow> ('g, 'h) driver) \<Rightarrow> nat \<Rightarrow> ('g, 'h) audio_core \<Rightarrow> (unit, 'g, 'h) core_result" where
  "announce drv i c =
     (let c = upd_adev i (upd_engine (\<lambda>s. s\<lparr>ad_go := False\<rparr>)) c; a = load_adev i c in
      case d_sync_control (drv i) of
        None \<Rightarrow> map_option (Pair (Inr ())) (set_bits drv i 0 c)
      | Some f \<Rightarrow> map_option (\<lambda>(r, s). (r, store_adev i (a\<lparr>ad_engine := s\<rparr>) c))
                    (sync_prepare (core_env (drv i) c) f (sync_mode a) (ad_engine a)))"

primrec announce_all ::
  "(nat \<Rightarrow> ('g, 'h) driver) \<Rightarrow> int \<Rightarrow> nat \<Rightarrow> nat option \<Rightarrow> ('g, 'h) audio_core \<Rightarrow> (unit, 'g, 'h) core_result" where
  "announce_all drv g 0 p c = (if p = None then Some (Inr (), c) else None)"
| "announce_all drv g (Suc fuel) p c =
     (case p of None \<Rightarrow> Some (Inr (), c)
      | Some i \<Rightarrow>
          case (if sync_group (ac_engines c ! i) = g then announce drv i c else Some (Inr (), c)) of
            None \<Rightarrow> None
          | Some (Inl e, c) \<Rightarrow> Some (Inl e, c)
          | Some (Inr u, c) \<Rightarrow> announce_all drv g fuel (sync_next (ac_engines c ! i)) c)"

definition release_engine :: "(nat \<Rightarrow> ('g, 'h) driver) \<Rightarrow> nat \<Rightarrow> ('g, 'h) audio_core \<Rightarrow> ('g, 'h) audio_core option" where
  "release_engine drv i c =
     (let c = upd_adev i (upd_engine (\<lambda>s. s\<lparr>ad_go := True\<rparr>)) c; m = sync_mode (ac_engines c ! i) in
      case d_sync_control (drv i) of
        None \<Rightarrow> set_bits drv i m c
      | Some f \<Rightarrow> Some (upd_adev i (upd_engine (f SYNC_TRIGGER m)) c))"

primrec release_all ::
  "(nat \<Rightarrow> ('g, 'h) driver) \<Rightarrow> int \<Rightarrow> nat \<Rightarrow> nat option \<Rightarrow> ('g, 'h) audio_core \<Rightarrow> ('g, 'h) audio_core option" where
  "release_all drv g 0 p c = (if p = None then Some c else None)"
| "release_all drv g (Suc fuel) p c =
     (case p of None \<Rightarrow> Some c
      | Some i \<Rightarrow>
          if sync_group (ac_engines c ! i) \<noteq> g then release_all drv g fuel (sync_next (ac_engines c ! i)) c
          else Option.bind (release_engine drv i c) (\<lambda>c.
            release_all drv g fuel (sync_next (ac_engines c ! i))
              (upd_adev i (\<lambda>a. a\<lparr>sync_next := None, sync_flags := 0, sync_group := 0\<rparr>) c)))"

definition handle_syncstart ::
  "(nat \<Rightarrow> ('g, 'h) driver) \<Rightarrow> nat \<Rightarrow> nat \<Rightarrow> int \<Rightarrow> ('g, 'h) audio_core \<Rightarrow> (unit, 'g, 'h) core_result" where
  "handle_syncstart drv fuel i g c =
     (let j = nat (g AND SYNC_DEVICE_MASK); mst = ac_engines c ! j in
      if length (ac_engines c) \<le> j then Some (Inl OSS_EINVAL, c)
      else if sync_flags mst AND SYNC_MASTER = 0 \<or> j \<noteq> i then Some (Inl OSS_EPERM, c)
      else if sync_group mst \<noteq> g then Some (Inl OSS_EINVAL, c)
      else case announce_all drv g fuel (Some j) c of
        None \<Rightarrow> None
      | Some (Inl e, c) \<Rightarrow> Some (Inl e, c)
      | Some (Inr u, c) \<Rightarrow> map_option (Pair (Inr ())) (release_all drv g fuel (Some j) c))"

definition oss_audio_start_syncgroup ::
  "(nat \<Rightarrow> ('g, 'h) driver) \<Rightarrow> nat \<Rightarrow> u32 \<Rightarrow> ('g, 'h) audio_core \<Rightarrow> ('g, 'h) audio_core option" where
  "oss_audio_start_syncgroup drv fuel g c =
     map_option snd (handle_syncstart drv fuel (nat (uint g AND SYNC_DEVICE_MASK)) (signed_take_bit 31 (uint g)) c)"

end
