(* ===== verification/Mixer_Names.thy ===== *)
theory Mixer_Names
  imports Oss_Prelude
begin

text \<open>
  The controls of a mixer in the legacy interface (\<open>include/soundcard.h\<close>): their names and numbers, and the
  masks of controls that a mixer has.
\<close>

definition SOUND_DEVICE_NAMES :: "string list" where
  "SOUND_DEVICE_NAMES =
     [''vol'', ''bass'', ''treble'', ''synth'', ''pcm'', ''speaker'', ''line'', ''mic'', ''cd'', ''mix'', ''pcm2'',
      ''rec'', ''igain'', ''ogain'', ''aux1'', ''aux2'', ''aux3'', ''dig1'', ''dig2'', ''dig3'', ''phone'', ''mono'',
      ''video'', ''radio'', ''depth'', ''rear'', ''center'', ''side'']"

definition SOUND_MIXER_NRDEVICES :: nat where "SOUND_MIXER_NRDEVICES = 28"
definition SOUND_CAP_NORECSRC :: u32 where "SOUND_CAP_NORECSRC = 8"

definition sources :: "u32 \<Rightarrow> nat list" where
  "sources m = filter (bit m) [0..<SOUND_MIXER_NRDEVICES]"

definition SOUND_CAP_EXCL_INPUT :: u32 where "SOUND_CAP_EXCL_INPUT = 1"
definition SOUND_CAP_NOLEGACY :: u32 where "SOUND_CAP_NOLEGACY = 4"

definition SOUND_MIXER_RECSRC :: nat where "SOUND_MIXER_RECSRC = 0xff"
definition SOUND_MIXER_DEVMASK :: nat where "SOUND_MIXER_DEVMASK = 0xfe"
definition SOUND_MIXER_RECMASK :: nat where "SOUND_MIXER_RECMASK = 0xfd"
definition SOUND_MIXER_CAPS :: nat where "SOUND_MIXER_CAPS = 0xfc"
definition SOUND_MIXER_STEREODEVS :: nat where "SOUND_MIXER_STEREODEVS = 0xfb"

lemmas mixer_numbers = SOUND_MIXER_RECSRC_def SOUND_MIXER_DEVMASK_def SOUND_MIXER_RECMASK_def
  SOUND_MIXER_CAPS_def SOUND_MIXER_STEREODEVS_def

lemma sources_less: "i \<in> set (sources m) \<Longrightarrow> i < 28"
  by (simp add: sources_def SOUND_MIXER_NRDEVICES_def)

lemma sources_distinct: "distinct (sources m)"
  by (simp add: sources_def)

lemma set_sources: "set (sources m) = {i. i < 28 \<and> bit m i}"
  by (auto simp: sources_def SOUND_MIXER_NRDEVICES_def)

end
