(* ===== verification/Audio_Ioctl.thy ===== *)
theory Audio_Ioctl
  imports Audio_Sync Mixer_Names
begin

text \<open>
  The \<open>ioctl\<close> and \<open>poll\<close> calls on an audio engine, \<open>oss_audio_ioctl\<close> and \<open>oss_audio_chpoll\<close> of
  \<open>oss_audio_core.c\<close>. A call gives its result and the argument as it leaves it; the argument is not copied
  back to the application when the call fails, so it is left as it was then.
\<close>

section \<open>Positions in samples\<close>

definition whole_frame_sizes :: "'g dmap \<Rightarrow> 'g dmap" where
  "whole_frame_sizes d =
     d\<lparr>frame_size := (if frame_size d < 1 then 1 else frame_size d),
       user_frame_size := (if user_frame_size d < 1 then 1 else user_frame_size d)\<rparr>"

text \<open>The number of whole frames up to position \<open>pos\<close>, as a 32 bit word.\<close>

definition samples_done :: "u64 \<Rightarrow> 'g dmap \<Rightarrow> int option" where
  "samples_done pos d =
     Option.bind (round_down (byte_counter d) (bytes_in_use d)) (\<lambda>b.
     map_option (\<lambda>n. uint (ucast n :: u32)) (divu (b + pos) (frame_size d)))"

definition get_long_optr :: "('g, 'h) audio_env \<Rightarrow> ('g, 'h) engine \<Rightarrow> (oss_count \<times> ('g, 'h) engine) option" where
  "get_long_optr E s =
     (if \<not> running Play s then Some (\<lparr>oc_samples = 0, oc_fifo_samples = 0\<rparr>, s)
      else
        let s = upd_dmap Play whole_frame_sizes s; d = dmap_of Play s; e = expand_factor (dm_cnv d) in
        if e = 0 then None
        else
          Option.bind (samples_done (get_output_pointer E s) d) (\<lambda>n.
          map_option (\<lambda>q. (\<lparr>oc_samples = n * UNIT_EXPAND sdiv e, oc_fifo_samples = q\<rparr>, s))
            (case a_local_qlen E of None \<Rightarrow> Some 0 | Some q \<Rightarrow> mul_div (q s sdiv frame_size d) UNIT_EXPAND e)))"

definition get_long_iptr :: "('g, 'h) audio_env \<Rightarrow> ('g, 'h) engine \<Rightarrow> (oss_count \<times> ('g, 'h) engine) option" where
  "get_long_iptr E s =
     (if \<not> running Rec s then Some (\<lparr>oc_samples = 0, oc_fifo_samples = 0\<rparr>, s)
      else
        Option.bind (get_input_pointer E True (upd_dmap Rec whole_frame_sizes s)) (\<lambda>(p, s).
          let d = dmap_of Rec s; e = expand_factor (dm_cnv d) in
          if e = 0 then None
          else map_option (\<lambda>n. (\<lparr>oc_samples = n sdiv e * UNIT_EXPAND, oc_fifo_samples = 0\<rparr>, s)) (samples_done p d)))"

section \<open>The recording source\<close>

text \<open>The controls of a legacy mixer are numbered; the recording sources are those in its mask.\<close>

definition mixer_read ::
  "('g, 'h) driver \<Rightarrow> int \<Rightarrow> mixer_cmd \<Rightarrow> ('g, 'h) engine \<Rightarrow> u32 option \<times> ('g, 'h) engine" where
  "mixer_read V mix cmd s =
     (case legacy_mixer_ioctl V mix (- 1) (Mixer cmd) (Int_Arg 0) s of
        ((Inl e, x), s) \<Rightarrow> (None, s)
      | ((Inr r, x), s) \<Rightarrow> (Some (word_of_int (int_arg x)), s))"

definition has_recsrc :: "('g, 'h) driver \<Rightarrow> int \<Rightarrow> ('g, 'h) engine \<Rightarrow> bool \<times> ('g, 'h) engine" where
  "has_recsrc V mix s =
     (if mix < 0 then (False, s)
      else case mixer_read V mix READ_CAPS s of
        (caps, s) \<Rightarrow> ((case caps of None \<Rightarrow> 0 | Some v \<Rightarrow> v) AND SOUND_CAP_NORECSRC = 0, s))"

definition get_legacy_recsrc_names ::
  "('g, 'h) driver \<Rightarrow> int \<Rightarrow> ('g, 'h) engine \<Rightarrow> string list option \<times> ('g, 'h) engine" where
  "get_legacy_recsrc_names V mix s =
     (case has_recsrc V mix s of
        (False, s) \<Rightarrow> (None, s)
      | (True, s) \<Rightarrow>
          (case mixer_read V mix READ_DEVMASK s of
             (None, s) \<Rightarrow> (None, s)
           | (Some devmask, s) \<Rightarrow>
               (case mixer_read V mix READ_RECMASK s of
                  (None, s) \<Rightarrow> (None, s)
                | (Some recmask, s) \<Rightarrow>
                    let ns = map ((!) SOUND_DEVICE_NAMES) (sources (recmask AND devmask))
                    in (if ns = [] then None else Some ns, s))))"

fun find_source :: "u32 \<Rightarrow> nat \<Rightarrow> nat list \<Rightarrow> nat" where
  "find_source m n [] = 0"
| "find_source m n (i # is) = (if bit m i then n else find_source m (n + 1) is)"

definition get_legacy_recsrc :: "('g, 'h) driver \<Rightarrow> int \<Rightarrow> ('g, 'h) engine \<Rightarrow> int \<times> ('g, 'h) engine" where
  "get_legacy_recsrc V mix s =
     (case has_recsrc V mix s of
        (False, s) \<Rightarrow> (0, s)
      | (True, s) \<Rightarrow>
          (case mixer_read V mix READ_RECSRC s of
             (None, s) \<Rightarrow> (0, s)
           | (Some recsrc, s) \<Rightarrow>
               (case mixer_read V mix READ_RECMASK s of
                  (None, s) \<Rightarrow> (0, s)
                | (Some recmask, s) \<Rightarrow>
                    (if recmask = 0 \<or> recsrc = 0 then 0 else int (find_source recsrc 0 (sources recmask)), s))))"

definition set_legacy_recsrc :: "('g, 'h) driver \<Rightarrow> int \<Rightarrow> int \<Rightarrow> ('g, 'h) engine \<Rightarrow> ('g, 'h) engine" where
  "set_legacy_recsrc V mix v s =
     (case has_recsrc V mix s of
        (False, s) \<Rightarrow> s
      | (True, s) \<Rightarrow>
          (case mixer_read V mix READ_RECMASK s of
             (None, s) \<Rightarrow> s
           | (Some recmask, s) \<Rightarrow>
               if v < 0 \<or> int (length (sources recmask)) \<le> v then s
               else snd (legacy_mixer_ioctl V mix (- 1) (Mixer WRITE_RECSRC)
                           (Int_Arg (signed_take_bit 31 (2 ^ (sources recmask ! nat v)))) s)))"

section \<open>Calls on one engine\<close>

type_synonym ('g, 'h) call_result = "((int oss_result \<times> ioctl_arg) \<times> ('g, 'h) adev) option"

definition OSS_VERSION :: int where "OSS_VERSION = 0x040100"
definition PCM_CAP_DUPLEX :: u32 where "PCM_CAP_DUPLEX = 0x100"
definition PCM_CAP_REALTIME :: u32 where "PCM_CAP_REALTIME = 0x200"
definition PCM_CAP_BATCH :: u32 where "PCM_CAP_BATCH = 0x400"
definition PCM_CAP_TRIGGER :: u32 where "PCM_CAP_TRIGGER = 0x1000"
definition PCM_CAP_MMAP :: u32 where "PCM_CAP_MMAP = 0x2000"
definition PCM_CAP_MULTI :: u32 where "PCM_CAP_MULTI = 0x4000"
definition PCM_CAP_BIND :: u32 where "PCM_CAP_BIND = 0x8000"
definition PCM_CAP_INPUT :: u32 where "PCM_CAP_INPUT = 0x10000"
definition PCM_CAP_OUTPUT :: u32 where "PCM_CAP_OUTPUT = 0x20000"
definition PCM_CAP_VIRTUAL :: u32 where "PCM_CAP_VIRTUAL = 0x40000"
definition PCM_CAP_SPECIAL :: u32 where "PCM_CAP_SPECIAL = 0x1000000"
definition PCM_CAP_DEFAULT :: u32 where "PCM_CAP_DEFAULT = 0x40000000"

text \<open>\<open>returns\<close> also stores the result in the argument; \<open>fills\<close> stores a structure.\<close>

definition reply :: "int oss_result \<Rightarrow> ioctl_arg \<Rightarrow> ('g, 'h) adev \<Rightarrow> ('g, 'h) engine \<Rightarrow> ('g, 'h) call_result" where
  "reply r x a s = Some ((r, x), a\<lparr>ad_engine := s\<rparr>)"

definition returns :: "ioctl_arg \<Rightarrow> ('g, 'h) adev \<Rightarrow> (int, 'g, 'h) audio_result \<Rightarrow> ('g, 'h) call_result" where
  "returns x a r =
     (case r of None \<Rightarrow> None | Some (Inl e, s) \<Rightarrow> reply (Inl e) x a s | Some (Inr v, s) \<Rightarrow> reply (Inr v) (Int_Arg v) a s)"

definition fills ::
  "('b \<Rightarrow> ioctl_arg) \<Rightarrow> ioctl_arg \<Rightarrow> ('g, 'h) adev \<Rightarrow> ('b, 'g, 'h) audio_result \<Rightarrow> ('g, 'h) call_result" where
  "fills f x a r =
     (case r of None \<Rightarrow> None | Some (Inl e, s) \<Rightarrow> reply (Inl e) x a s | Some (Inr v, s) \<Rightarrow> reply (Inr 0) (f v) a s)"

definition done_call :: "ioctl_arg \<Rightarrow> ('g, 'h) adev \<Rightarrow> ('g, 'h) engine option \<Rightarrow> ('g, 'h) call_result" where
  "done_call x a r = Option.bind r (reply (Inr 0) x a)"

definition reject ::
  "dir \<Rightarrow> int \<Rightarrow> int \<Rightarrow> oss_error \<Rightarrow> ioctl_arg \<Rightarrow> ('g, 'h) adev \<Rightarrow> ('g, 'h) call_result" where
  "reject D n parm e x a = Option.bind (oss_audio_set_error D n parm (ad_engine a)) (reply (Inl e) x a)"

text \<open>The call is handed to the driver; \<open>k\<close> continues when the driver does not know it.\<close>

definition by_method ::
  "('g, 'h) ioctl_method option \<Rightarrow> audio_cmd \<Rightarrow> ioctl_arg \<Rightarrow> ('g, 'h) adev
     \<Rightarrow> (ioctl_arg \<Rightarrow> ('g, 'h) engine \<Rightarrow> ('g, 'h) call_result) \<Rightarrow> ('g, 'h) call_result" where
  "by_method m cmd x a k =
     (case m of None \<Rightarrow> k x (ad_engine a)
      | Some f \<Rightarrow> (case f cmd x (ad_engine a) of ((r, x), s) \<Rightarrow> if r = Inl OSS_EINVAL then k x s else reply r x a s))"

definition mode_mask :: "('g, 'h) engine \<Rightarrow> u32" where
  "mode_mask s = ad_open_mode s AND (PCM_ENABLE_INPUT OR PCM_ENABLE_OUTPUT)"

definition getfmts :: "('g, 'h) adev \<Rightarrow> u32" where
  "getfmts a =
     (if mode_mask (ad_engine a) = PCM_ENABLE_OUTPUT then oformat_mask a
      else if mode_mask (ad_engine a) = PCM_ENABLE_INPUT then oformat_mask a
      else xformat_mask a)"

definition setfmt :: "('g, 'h) audio_env \<Rightarrow> int \<Rightarrow> int \<Rightarrow> ('g, 'h) adev \<Rightarrow> (int, 'g, 'h) audio_result" where
  "setfmt E dev v a =
     (let s = ad_engine a;
          m = (if mode_mask s = PCM_ENABLE_OUTPUT then oformat_mask a
               else if mode_mask s = PCM_ENABLE_INPUT then iformat_mask a
               else oformat_mask a AND iformat_mask a)
      in map_option (\<lambda>(r, s). (map_sum id (\<lambda>f. signed_take_bit 31 (uint f)) r, s))
           (oss_audio_set_format E dev (word_of_int v) m s))"

definition low_water_mark :: "int \<Rightarrow> ('g, 'h) engine \<Rightarrow> ('g, 'h) engine" where
  "low_water_mark v s =
     (let f = upd_dmap Rec (\<lambda>d. d\<lparr>low_water := v\<rparr>); g = upd_dmap Play (\<lambda>d. d\<lparr>low_water := v\<rparr>);
          s = (if ad_open_mode s AND PCM_ENABLE_INPUT \<noteq> 0 then f s else s)
      in if ad_open_mode s AND PCM_ENABLE_OUTPUT \<noteq> 0 then g s else s)"

text \<open>\<open>nxt\<close>: the flags of the engine after this one, if any.\<close>

definition getcaps :: "('g, 'h) driver \<Rightarrow> int \<Rightarrow> u64 option \<Rightarrow> ('g, 'h) adev \<Rightarrow> u32" where
  "getcaps V dev nxt a =
     (let s = ad_engine a; fl = ad_flags s;
          inp = (fl AND ADEV_NOINPUT = 0); out = (fl AND ADEV_NOOUTPUT = 0);
          on = (\<lambda>c (f :: u32). if c then f else 0)
      in ad_caps a OR 2 OR PCM_CAP_REALTIME OR on inp PCM_CAP_INPUT OR on out PCM_CAP_OUTPUT
         OR on (fl AND ADEV_VIRTUAL \<noteq> 0) PCM_CAP_VIRTUAL
         OR on (inp \<and> out \<and> fl AND ADEV_DUPLEX \<noteq> 0 \<and> ad_open_mode s = PCM_ENABLE_INPUT OR PCM_ENABLE_OUTPUT) PCM_CAP_DUPLEX
         OR on (0 < dev \<and> fl AND ADEV_SPECIAL \<noteq> 0) PCM_CAP_SPECIAL
         OR on (case nxt of None \<Rightarrow> False | Some f \<Rightarrow> f AND ADEV_SHADOW \<noteq> 0) PCM_CAP_MULTI
         OR on (a_local_qlen (d_audio V) \<noteq> None) PCM_CAP_BATCH
         OR on (a_trigger (d_audio V) \<noteq> None) PCM_CAP_TRIGGER
         OR PCM_CAP_MMAP OR on (d_bind V \<noteq> None) PCM_CAP_BIND
         OR on (fl AND ADEV_DEFAULT \<noteq> 0) PCM_CAP_DEFAULT)"

definition geterror :: "('g, 'h) engine \<Rightarrow> audio_errinfo option \<times> ('g, 'h) engine" where
  "geterror s =
     (let r = dmap_of Rec s;
          s = upd_dmap Rec (\<lambda>d. d\<lparr>rec_overruns := 0\<rparr>) s;
          p = dmap_of Play s;
          s = upd_dmap Play (\<lambda>d. d\<lparr>play_underruns := 0\<rparr>) s
      in (if dm_errors r = [] \<or> dm_errors p = [] then None
          else Some \<lparr>ei_play_underruns = play_underruns p, ei_rec_overruns = rec_overruns r,
                 ei_play_errorcount = num_errors p, ei_rec_errorcount = num_errors r,
                 ei_play_lasterror = fst (dm_errors p ! 0), ei_rec_lasterror = fst (dm_errors r ! 0),
                 ei_play_errorparm = snd (dm_errors p ! 0), ei_rec_errorparm = snd (dm_errors r ! 0)\<rparr>, s))"

definition request_fragments :: "dir \<Rightarrow> int \<Rightarrow> ('g, 'h) engine \<Rightarrow> ('g, 'h) engine option" where
  "request_fragments D v s =
     (if ad_dmask s AND (if D = Play then DMASK_OUT else DMASK_IN) = 0 then Some s
      else map_option (upd_dmap D (\<lambda>d. d\<lparr>fragsize_rq := v\<rparr>))
             (if dm_has DMAP_FRAGFIXED (dmap_of D s) then setfragment_error s else Some s))"

definition setfragment :: "int \<Rightarrow> ('g, 'h) engine \<Rightarrow> ('g, 'h) engine option" where
  "setfragment v s = Option.bind (request_fragments Play v s) (request_fragments Rec v)"

text \<open>The number of channels less one is returned, also when it is an error: \<open>EIO\<close>, minus 5, and \<open>ENXIO\<close>,
  minus 6, are the errors there are.\<close>

definition stereo_error :: "oss_error \<Rightarrow> oss_error" where
  "stereo_error e = (if e = OSS_EIO then OSS_ENXIO else if e = OSS_ENXIO then OSS_E2BIG else e)"

definition set_stereo ::
  "('g, 'h) audio_env \<Rightarrow> int \<Rightarrow> int \<Rightarrow> ioctl_arg \<Rightarrow> ('g, 'h) adev \<Rightarrow> ('g, 'h) call_result" where
  "set_stereo E dev n x a =
     (if 1 < n then reject Play 1009 n OSS_EINVAL x a
      else if n < 0 then reply (Inl OSS_EINVAL) x a (ad_engine a)
      else returns x a (map_option (\<lambda>(r, s). (map_sum stereo_error (\<lambda>v. v - 1) r, s))
             (oss_audio_set_channels E dev (n + 1) (ad_engine a))))"

definition silence_play :: "('g, 'h) engine \<Rightarrow> ('g, 'h) engine option" where
  "silence_play s =
     (let d = dmap_of Play s in
      map_option (\<lambda>b. upd_dmap Play (\<lambda>d. d\<lparr>dm_dmabuf := Some b\<rparr>) s) (fill (dm_buffsize d) (dm_neutral d) (dm_dmabuf d)))"

section \<open>Volumes\<close>

definition has_mixer :: "('g, 'h) driver \<Rightarrow> int \<Rightarrow> bool" where
  "has_mixer V mix \<longleftrightarrow> 0 \<le> mix \<and> mix < num_mixers V"

definition count_setting :: "('g, 'h) driver \<Rightarrow> bool \<Rightarrow> ('g, 'h) adev \<Rightarrow> ('g, 'h) adev" where
  "count_setting V setting a = (if setting \<and> has_mixer V (mixer_dev a) then upd_engine (mixer_modified V (mixer_dev a)) a else a)"

definition via_mixer ::
  "('g, 'h) driver \<Rightarrow> int \<Rightarrow> mixer_cmd \<Rightarrow> ('g, 'h) adev \<Rightarrow> ioctl_arg \<Rightarrow> ('g, 'h) engine
     \<Rightarrow> (int oss_result \<times> ioctl_arg) \<times> ('g, 'h) engine" where
  "via_mixer V dev cmd a x s = mixer_ioctl V (mixer_dev a) dev (Mixer cmd) x s"

definition play_volume ::
  "('g, 'h) driver \<Rightarrow> int \<Rightarrow> audio_cmd \<Rightarrow> ioctl_arg \<Rightarrow> ('g, 'h) adev \<Rightarrow> ('g, 'h) call_result" where
  "play_volume V dev cmd x a =
     (let a = count_setting V (cmd = DSP_SETPLAYVOL) a in
      by_method (d_ioctl V) cmd x a (\<lambda>x s.
        if \<not> has_mixer V (mixer_dev a) then reply (Inl OSS_EINVAL) x a s
        else case via_mixer V dev (if cmd = DSP_GETPLAYVOL then READ_PCM else WRITE_PCM) a x s of
          ((r, x), s) \<Rightarrow> reply r x a s))"

text \<open>The recording level is one of three controls. All that is done with the result for the first is
  that it is dropped.\<close>

definition rec_volume ::
  "('g, 'h) driver \<Rightarrow> int \<Rightarrow> audio_cmd \<Rightarrow> ioctl_arg \<Rightarrow> ('g, 'h) adev \<Rightarrow> ('g, 'h) call_result" where
  "rec_volume V dev cmd x a =
     (let a = count_setting V (cmd = DSP_SETRECVOL) a; get = (cmd = DSP_GETRECVOL) in
      by_method (d_ioctl V) cmd x a (\<lambda>x s.
        if \<not> has_mixer V (mixer_dev a) then reply (Inl OSS_EINVAL) x a s
        else case via_mixer V dev (if get then READ_RECGAIN else WRITE_RECGAIN) a x s of
          ((r, x), s) \<Rightarrow>
            (case via_mixer V dev (if get then READ_RECLEV else WRITE_RECLEV) a x s of
               ((Inr v, x), s) \<Rightarrow> reply (Inr v) x a s
             | ((Inl e, x), s) \<Rightarrow>
                 (case via_mixer V dev (if get then READ_IGAIN else WRITE_IGAIN) a x s of
                    ((r, x), s) \<Rightarrow> reply r x a s))))"

section \<open>The calls\<close>

text \<open>The calls that query the state of the buffers, those that set parameters, and those for the
  routing. A call that no group has goes to the driver.\<close>

definition needs ::
  "dir \<Rightarrow> int \<Rightarrow> ioctl_arg \<Rightarrow> ('g, 'h) adev \<Rightarrow> ('g, 'h) call_result \<Rightarrow> ('g, 'h) call_result" where
  "needs D n x a r =
     (if ad_dmask (ad_engine a) AND (if D = Play then DMASK_OUT else DMASK_IN) = 0 then reject D n 0 OSS_ENOTSUP x a else r)"

definition needs_quietly :: "dir \<Rightarrow> ioctl_arg \<Rightarrow> ('g, 'h) adev \<Rightarrow> ('g, 'h) call_result \<Rightarrow> ('g, 'h) call_result" where
  "needs_quietly D x a r =
     (if ad_dmask (ad_engine a) AND (if D = Play then DMASK_OUT else DMASK_IN) = 0
      then reply (Inl OSS_ENOTSUP) x a (ad_engine a) else r)"

definition info_call ::
  "('g, 'h) driver \<Rightarrow> ('g, 'h) audio_env \<Rightarrow> int \<Rightarrow> u64 option \<Rightarrow> audio_cmd \<Rightarrow> ioctl_arg \<Rightarrow> ('g, 'h) adev
     \<Rightarrow> ('g, 'h) call_result option" where
  "info_call V E dev nxt cmd x a =
     (let s = ad_engine a in
      case cmd of
        DSP_GETFMTS \<Rightarrow> Some (returns x a (done_with (signed_take_bit 31 (uint (getfmts a))) s))
      | DSP_GETOSPACE \<Rightarrow> Some (needs Play 1001 x a (fills Space_Arg x a (get_ospace E s)))
      | DSP_GETISPACE \<Rightarrow> Some (needs Rec 1002 x a (fills Space_Arg x a (get_ispace E s)))
      | DSP_GETODELAY \<Rightarrow> Some (needs Play 1005 x a (returns x a (map_option (\<lambda>v. (Inr v, s)) (get_odelay E s))))
      | DSP_GETOPTR \<Rightarrow> Some (needs Play 1007 x a (fills Ptr_Arg x a (map_option (\<lambda>(v, s). (Inr v, s)) (get_optr E s))))
      | DSP_GETIPTR \<Rightarrow> Some (needs Rec 1008 x a (fills Ptr_Arg x a (map_option (\<lambda>(v, s). (Inr v, s)) (get_iptr E s))))
      | DSP_CURRENT_OPTR \<Rightarrow>
          Some (needs_quietly Play x a (fills Count_Arg x a (map_option (\<lambda>(v, s). (Inr v, s)) (get_long_optr E s))))
      | DSP_CURRENT_IPTR \<Rightarrow>
          Some (needs_quietly Rec x a (fills Count_Arg x a (map_option (\<lambda>(v, s). (Inr v, s)) (get_long_iptr E s))))
      | DSP_GETBLKSIZE \<Rightarrow> Some (returns x a (map_option (\<lambda>(v, s). (Inr v, s)) (getblksize E s)))
      | DSP_GETCAPS \<Rightarrow> Some (returns x a (done_with (signed_take_bit 31 (uint (getcaps V dev nxt a))) s))
      | DSP_GETTRIGGER \<Rightarrow>
          Some (if a_trigger E = None then reply (Inl OSS_EIO) x a s
                else returns x a (done_with (signed_take_bit 31 (uint (enable_bits s AND ad_open_mode s))) s))
      | DSP_GETERROR \<Rightarrow>
          Some (case geterror s of (None, s) \<Rightarrow> None | (Some v, s) \<Rightarrow> fills Error_Arg x a (done_with v s))
      | _ \<Rightarrow> None)"

definition control_call ::
  "('g, 'h) driver \<Rightarrow> ('g, 'h) audio_env \<Rightarrow> nat \<Rightarrow> int \<Rightarrow> audio_cmd \<Rightarrow> ioctl_arg \<Rightarrow> ('g, 'h) adev
     \<Rightarrow> ('g, 'h) call_result option" where
  "control_call V E fuel dev cmd x a =
     (let s = ad_engine a; v = int_arg x in
      case cmd of
        DSP_SYNC \<Rightarrow> Some (done_call x a (oss_audio_sync E fuel s))
      | DSP_POST \<Rightarrow> Some (done_call x a (oss_audio_post E s))
      | DSP_HALT \<Rightarrow> Some (done_call x a (audio_reset_adev E s))
      | DSP_HALT_INPUT \<Rightarrow> Some (done_call x a (Some (audio_reset_input E s)))
      | DSP_HALT_OUTPUT \<Rightarrow> Some (done_call x a (Some (audio_reset_output E s)))
      | DSP_LOW_WATER \<Rightarrow> Some (done_call x a (Some (low_water_mark v s)))
      | DSP_SETFMT \<Rightarrow> Some (returns x a (setfmt E dev v a))
      | DSP_SPEED \<Rightarrow>
          Some (if v < 0 then reply (Inl OSS_EINVAL) x a s else returns x a (oss_audio_set_rate E dev v s))
      | DSP_STEREO \<Rightarrow> Some (set_stereo E dev v x a)
      | DSP_CHANNELS \<Rightarrow>
          Some (if v < 0 then reply (Inl OSS_EINVAL) x a s else returns x a (oss_audio_set_channels E dev v s))
      | DSP_NONBLOCK \<Rightarrow> Some (done_call x a (Some (s\<lparr>forced_nonblock := True\<rparr>)))
      | DSP_COOKEDMODE \<Rightarrow>
          (let s = s\<lparr>cooked_enable := (ad_flags s AND ADEV_NONINTERLEAVED \<noteq> 0 \<or> v \<noteq> 0)\<rparr> in
           Some (case d_ioctl V of None \<Rightarrow> reply (Inr 0) x a s
                 | Some f \<Rightarrow> (case f cmd x s of ((r, x), s) \<Rightarrow> reply (Inr 0) x a s)))
      | DSP_SETTRIGGER \<Rightarrow> Some (fills (\<lambda>w. Int_Arg (uint w)) x a (set_trigger E (word_of_int v) s))
      | DSP_SETSYNCRO \<Rightarrow> Some (reply (Inl OSS_EINVAL) x a (s\<lparr>ad_go := False\<rparr>))
      | DSP_POLICY \<Rightarrow>
          Some (if v < 0 \<or> 10 < v then reply (Inl OSS_EIO) x a s else reply (Inr 0) x a (s\<lparr>ad_policy := v\<rparr>))
      | DSP_SETFRAGMENT \<Rightarrow> Some (done_call x a (setfragment v s))
      | DSP_SUBDIVIDE \<Rightarrow>
          Some (done_call (Int_Arg 0x00040008) a
            (Option.bind (oss_audio_set_error Play 1010 0 s) (setfragment 0x00040008)))
      | DSP_SILENCE \<Rightarrow> Some (done_call x a (silence_play s))
      | DSP_PROFILE \<Rightarrow> Some (reply (Inr 0) x a s)
      | DSP_SKIP \<Rightarrow> Some (reply (Inr 0) x a s)
      | DSP_SETDUPLEX \<Rightarrow>
          Some (if ad_open_mode s \<noteq> PCM_ENABLE_INPUT OR PCM_ENABLE_OUTPUT then reject Play 1006 0 OSS_ENOTSUP x a
                else if ad_flags s AND ADEV_DUPLEX = 0 then reply (Inl OSS_ENOTSUP) x a s
                else by_method (d_ioctl V) cmd x a (\<lambda>x s. reply (Inr 0) x a s))
      | _ \<Rightarrow> None)"

text \<open>The names of the inputs and outputs to choose from, volumes, and labels.\<close>

definition recsrc_names :: "('g, 'h) driver \<Rightarrow> ('g, 'h) adev \<Rightarrow> ('g, 'h) engine \<Rightarrow> ('g, 'h) call_result" where
  "recsrc_names V a s =
     (case get_legacy_recsrc_names V (mixer_dev a) s of
        (Some ns, s) \<Rightarrow> reply (Inr 0) (Names_Arg ns) a s
      | (None, s) \<Rightarrow> reply (Inr 0) (Names_Arg [''default'']) a s)"

definition recsrc_number :: "('g, 'h) driver \<Rightarrow> ('g, 'h) adev \<Rightarrow> ('g, 'h) engine \<Rightarrow> ('g, 'h) call_result" where
  "recsrc_number V a s = (case get_legacy_recsrc V (mixer_dev a) s of (v, s) \<Rightarrow> reply (Inr v) (Int_Arg v) a s)"

definition named ::
  "('g, 'h) driver \<Rightarrow> audio_cmd \<Rightarrow> ioctl_arg \<Rightarrow> (ioctl_arg \<Rightarrow> ('g, 'h) adev \<Rightarrow> ('g, 'h) adev) \<Rightarrow> ('g, 'h) adev \<Rightarrow> ('g, 'h) call_result" where
  "named V cmd x f a =
     (case d_ioctl V of None \<Rightarrow> reply (Inr 0) x (f x a) (ad_engine a)
      | Some m \<Rightarrow>
          (case m cmd x (ad_engine a) of
             ((Inr v, x), s) \<Rightarrow> reply (Inr 0) x a s
           | ((Inl e, x), s) \<Rightarrow> reply (Inr 0) x (f x a) s))"

definition text_arg :: "nat \<Rightarrow> ioctl_arg \<Rightarrow> string" where
  "text_arg n x = (case x of Text_Arg t \<Rightarrow> take (n - 1) t | _ \<Rightarrow> [])"

definition OSS_LONGNAME_SIZE :: nat where "OSS_LONGNAME_SIZE = 64"
definition OSS_LABEL_SIZE :: nat where "OSS_LABEL_SIZE = 16"

definition set_label :: "string \<Rightarrow> ('g, 'h) adev \<Rightarrow> ('g, 'h) adev" where
  "set_label l a = a\<lparr>ad_label := l, ad_cmd := (if ad_cmd a = [] then l else ad_cmd a)\<rparr>"

definition routing_call ::
  "('g, 'h) driver \<Rightarrow> int \<Rightarrow> audio_cmd \<Rightarrow> ioctl_arg \<Rightarrow> ('g, 'h) adev \<Rightarrow> ('g, 'h) call_result option" where
  "routing_call V dev cmd x a =
     (let s = ad_engine a in
      case cmd of
        DSP_GETPLAYVOL \<Rightarrow> Some (play_volume V dev cmd x a)
      | DSP_SETPLAYVOL \<Rightarrow> Some (play_volume V dev cmd x a)
      | DSP_GETRECVOL \<Rightarrow> Some (rec_volume V dev cmd x a)
      | DSP_SETRECVOL \<Rightarrow> Some (rec_volume V dev cmd x a)
      | DSP_GETCHANNELMASK \<Rightarrow>
          Some (case d_bind V of None \<Rightarrow> reply (Inl OSS_EINVAL) x a s | Some f \<Rightarrow> (case f cmd x s of ((r, x), s) \<Rightarrow> reply r x a s))
      | DSP_BIND_CHANNEL \<Rightarrow>
          Some (case d_bind V of None \<Rightarrow> reply (Inl OSS_EINVAL) x a s | Some f \<Rightarrow> (case f cmd x s of ((r, x), s) \<Rightarrow> reply r x a s))
      | DSP_GET_RECSRC_NAMES \<Rightarrow> Some (by_method (d_ioctl V) cmd x a (\<lambda>x. recsrc_names V a))
      | DSP_GET_RECSRC \<Rightarrow> Some (by_method (d_ioctl V) cmd x a (\<lambda>x. recsrc_number V a))
      | DSP_SET_RECSRC \<Rightarrow>
          Some (by_method (d_ioctl V) cmd x a (\<lambda>x s. recsrc_number V a (set_legacy_recsrc V (mixer_dev a) (int_arg x) s)))
      | DSP_GET_PLAYTGT_NAMES \<Rightarrow>
          Some (by_method (d_ioctl V) cmd x a (\<lambda>x s. reply (Inr 0) (Names_Arg [''default'']) a s))
      | DSP_GET_PLAYTGT \<Rightarrow> Some (by_method (d_ioctl V) cmd x a (\<lambda>x s. reply (Inr 0) (Int_Arg 0) a s))
      | DSP_SET_PLAYTGT \<Rightarrow> Some (by_method (d_ioctl V) cmd x a (\<lambda>x s. reply (Inr 0) (Int_Arg 0) a s))
      | SETSONG \<Rightarrow> Some (named V cmd x (\<lambda>x. ad_song_name_update (\<lambda>_. text_arg OSS_LONGNAME_SIZE x)) a)
      | SETLABEL \<Rightarrow> Some (named V cmd x (\<lambda>x. set_label (text_arg OSS_LABEL_SIZE x)) a)
      | _ \<Rightarrow> None)"

definition engine_call ::
  "('g, 'h) driver \<Rightarrow> ('g, 'h) audio_env \<Rightarrow> nat \<Rightarrow> int \<Rightarrow> u64 option \<Rightarrow> audio_cmd \<Rightarrow> ioctl_arg \<Rightarrow> ('g, 'h) adev
     \<Rightarrow> ('g, 'h) call_result" where
  "engine_call V E fuel dev nxt cmd x a =
     (case info_call V E dev nxt cmd x a of Some r \<Rightarrow> r
      | None \<Rightarrow>
          (case control_call V E fuel dev cmd x a of Some r \<Rightarrow> r
           | None \<Rightarrow>
               (case routing_call V dev cmd x a of Some r \<Rightarrow> r
                | None \<Rightarrow>
                    (case d_ioctl V of None \<Rightarrow> reply (Inl OSS_EINVAL) x a (ad_engine a)
                     | Some f \<Rightarrow> (case f cmd x (ad_engine a) of ((r, x), s) \<Rightarrow> reply r x a s)))))"

section \<open>Dispatch\<close>

text \<open>The calls of the mixer for PCM volume and recording level are calls on the engine; the other calls of
  the mixer go there first.\<close>

definition own_cmd :: "audio_cmd \<Rightarrow> audio_cmd" where
  "own_cmd cmd =
     (case cmd of Mixer WRITE_PCM \<Rightarrow> DSP_SETPLAYVOL | Mixer WRITE_RECLEV \<Rightarrow> DSP_SETRECVOL
      | Mixer READ_PCM \<Rightarrow> DSP_GETPLAYVOL | Mixer READ_RECLEV \<Rightarrow> DSP_GETRECVOL | _ \<Rightarrow> cmd)"

definition group_call ::
  "(nat \<Rightarrow> ('g, 'h) driver) \<Rightarrow> nat \<Rightarrow> nat \<Rightarrow> audio_cmd \<Rightarrow> ioctl_arg \<Rightarrow> ('g, 'h) audio_core
     \<Rightarrow> ((int oss_result \<times> ioctl_arg) \<times> ('g, 'h) audio_core) option" where
  "group_call drv fuel i cmd x c =
     (if cmd = DSP_SYNCGROUP then
        (case x of
           Group_Arg g \<Rightarrow> (case handle_syncgroup drv i g c of ((r, g), c) \<Rightarrow> Some ((map_sum id (\<lambda>_. 0) r, Group_Arg g), c))
         | _ \<Rightarrow> None)
      else if cmd = DSP_SYNCSTART then
        map_option (\<lambda>(r, c). ((map_sum id (\<lambda>_. 0) r, x), c)) (handle_syncstart drv fuel i (int_arg x) c)
      else
        let a = load_adev i c;
            nxt = (if i + 1 < length (ac_engines c) then Some (ad_flags (ad_engine (ac_engines c ! (i + 1)))) else None)
        in map_option (\<lambda>(r, a). (r, store_adev i a c)) (engine_call (drv i) (core_env (drv i) c) fuel (int i) nxt cmd x a))"

definition mixer_call ::
  "(nat \<Rightarrow> ('g, 'h) driver) \<Rightarrow> nat \<Rightarrow> nat \<Rightarrow> audio_cmd \<Rightarrow> ioctl_arg \<Rightarrow> ('g, 'h) audio_core
     \<Rightarrow> ((int oss_result \<times> ioctl_arg) \<times> ('g, 'h) audio_core) option" where
  "mixer_call drv fuel i cmd x c =
     (let V = drv i; a = load_adev i c in
      case cmd of
        Mixer m \<Rightarrow>
          (if mixer_dev a = - 1 \<or> num_mixers V \<le> 0 then group_call drv fuel i cmd x c
           else case legacy_mixer_ioctl V (mixer_dev a) (int i) cmd x (ad_engine a) of
             ((r, x), s) \<Rightarrow>
               let c = store_adev i (a\<lparr>ad_engine := s\<rparr>) c
               in if r = Inl OSS_EINVAL then group_call drv fuel i cmd x c else Some ((r, x), c))
      | Mixer_Ext m \<Rightarrow>
          (case mixer_ext V cmd x (ad_engine a) of (r, s) \<Rightarrow> Some (r, store_adev i (a\<lparr>ad_engine := s\<rparr>) c))
      | _ \<Rightarrow> group_call drv fuel i cmd x c)"

definition oss_audio_ioctl ::
  "(nat \<Rightarrow> ('g, 'h) driver) \<Rightarrow> nat \<Rightarrow> int \<Rightarrow> audio_cmd \<Rightarrow> ioctl_arg \<Rightarrow> ('g, 'h) audio_core
     \<Rightarrow> ((int oss_result \<times> ioctl_arg) \<times> ('g, 'h) audio_core) option" where
  "oss_audio_ioctl drv fuel dev cmd x c =
     (if cmd = GETVERSION then Some ((Inr OSS_VERSION, Int_Arg OSS_VERSION), c)
      else with_engine drv dev cmd x (mixer_call drv fuel (nat dev) (own_cmd cmd)) c)"

section \<open>Poll\<close>

record poll_event =
  pe_events :: "16 word"
  pe_revents :: "16 word"
  pe_waits :: bool

definition POLLIN :: "16 word" where "POLLIN = 0x1"
definition POLLOUT :: "16 word" where "POLLOUT = 0x4"
definition POLLRDNORM :: "16 word" where "POLLRDNORM = 0x40"
definition POLLWRNORM :: "16 word" where "POLLWRNORM = 0x100"

definition report :: "16 word \<Rightarrow> poll_event \<Rightarrow> poll_event" where
  "report m ev = ev\<lparr>pe_revents := pe_revents ev OR (m AND pe_events ev)\<rparr>"

text \<open>The limit on the low water mark, a quarter of the buffer; what is ready is compared with the mark.\<close>

definition poll_ready ::
  "dir \<Rightarrow> 16 word \<Rightarrow> audio_buf_info \<Rightarrow> poll_event \<Rightarrow> ('g, 'h) engine \<Rightarrow> (poll_event \<times> ('g, 'h) engine) option" where
  "poll_ready D m bi ev s =
     map_option (\<lambda>n.
         let s = upd_dmap D (\<lambda>d. d\<lparr>low_water := min (low_water d) (n sdiv 4)\<rparr>) s
         in (if bi_bytes bi < low_water (dmap_of D s) then ev\<lparr>pe_waits := True\<rparr> else report m ev, s))
       (chk (bi_fragsize bi * bi_fragstotal bi))"

text \<open>A structure that the query of the space did not fill has unknown contents: \<open>None\<close>.\<close>

definition poll_space ::
  "dir \<Rightarrow> 16 word \<Rightarrow> poll_event \<Rightarrow> (audio_buf_info, 'g, 'h) audio_result \<Rightarrow> (poll_event \<times> ('g, 'h) engine) option" where
  "poll_space D m ev r = (case r of Some (Inr bi, s) \<Rightarrow> poll_ready D m bi ev s | _ \<Rightarrow> None)"

definition chpoll_output ::
  "('g, 'h) audio_env \<Rightarrow> poll_event \<Rightarrow> ('g, 'h) engine \<Rightarrow> (poll_event \<times> ('g, 'h) engine) option" where
  "chpoll_output E ev s =
     (let d = dmap_of Play s in
      if dm_mapped d then Some (if 0 < interrupt_count d then report (POLLOUT OR POLLWRNORM) ev else ev, s)
      else if dma_mode d = PCM_ENABLE_INPUT then map_option (Pair ev) (oss_audio_set_error Play 1015 0 s)
      else poll_space Play (POLLOUT OR POLLWRNORM) ev (get_ospace E s))"

definition chpoll_input ::
  "('g, 'h) audio_env \<Rightarrow> poll_event \<Rightarrow> ('g, 'h) engine \<Rightarrow> (poll_event \<times> ('g, 'h) engine) option" where
  "chpoll_input E ev s =
     (let d = dmap_of Rec s in
      if dm_mapped d then Some (if 0 < interrupt_count d then report (POLLOUT OR POLLWRNORM) ev else ev, s)
      else if dma_mode d \<noteq> PCM_ENABLE_INPUT then map_option (Pair ev) (oss_audio_set_error Rec 1016 0 s)
      else
        Option.bind (if dm_has DMAP_STARTED d then Some s else oss_audio_set_error Rec 1017 0 s) (\<lambda>s.
          poll_space Rec (POLLIN OR POLLRDNORM) ev (get_ispace E s)))"

definition oss_audio_chpoll ::
  "(nat \<Rightarrow> ('g, 'h) driver) \<Rightarrow> int \<Rightarrow> poll_event \<Rightarrow> ('g, 'h) audio_core
     \<Rightarrow> ((unit oss_result \<times> poll_event) \<times> ('g, 'h) audio_core) option" where
  "oss_audio_chpoll drv dev ev c =
     (let i = nat dev; a = load_adev i c; s = ad_engine a; E = core_env (drv i) c;
          asks = (\<lambda>m D. pe_events ev AND m \<noteq> 0 \<and> ad_open_mode s AND dir_mode D \<noteq> 0)
      in if \<not> valid_dev dev c then Some ((Inl OSS_ENXIO, ev), c)
         else
           Option.bind (if asks (POLLOUT OR POLLWRNORM) Play then chpoll_output E ev s else Some (ev, s)) (\<lambda>(ev, s).
           map_option (\<lambda>(ev, s). ((Inr (), ev), store_adev i (a\<lparr>ad_engine := s\<rparr>) c))
             (if asks (POLLIN OR POLLRDNORM) Rec then chpoll_input E ev s else Some (ev, s))))"

end
