(* ===== verification/Audio_Sync_Laws.thy ===== *)
theory Audio_Sync_Laws
  imports Audio_Ioctl Audio_Playback_Laws
begin

text \<open>
  The start of a synchronisation group ends and starts every engine of a well-formed chain. An engine
  that is closed stays in the chain of its group; when it is opened and joins the group again, the chain
  gets a cycle, and the start of the group never ends.
\<close>

section \<open>The table of engines\<close>

definition engine_at :: "('g, 'h) audio_core \<Rightarrow> nat \<Rightarrow> ('g, 'h) adev" where
  "engine_at c i = ac_engines c ! i"

definition table_size :: "('g, 'h) audio_core \<Rightarrow> nat" where
  "table_size c = length (ac_engines c)"

lemma table_size_store [simp]: "table_size (store_adev i a c) = table_size c"
  by (simp add: table_size_def store_adev_def)

lemma engine_at_store [simp]:
  "i < table_size c \<Longrightarrow> engine_at (store_adev i a c) j = (if j = i then a else engine_at c j)"
  by (simp add: table_size_def store_adev_def engine_at_def)

lemma table_of_bump [simp]: "table_size (bump_core c) = table_size c" "engine_at (bump_core c) i = engine_at c i"
  by (simp_all add: table_size_def engine_at_def bump_core_def)

lemma table_of_upd [simp]:
  "table_size (upd_adev i f c) = table_size c"
  "i < table_size c \<Longrightarrow> engine_at (upd_adev i f c) j = (if j = i then f (load_adev i c) else engine_at c j)"
  by (simp_all add: upd_adev_def)

lemma load_adev_fields [simp]:
  "sync_flags (load_adev i c) = sync_flags (engine_at c i)" "sync_group (load_adev i c) = sync_group (engine_at c i)"
  "sync_mode (load_adev i c) = sync_mode (engine_at c i)" "sync_next (load_adev i c) = sync_next (engine_at c i)"
  "ad_unloaded (load_adev i c) = ad_unloaded (engine_at c i)"
  by (simp_all add: load_adev_def engine_at_def Let_def)

lemma load_adev_as: "load_adev i c = (engine_at c i)\<lparr>ad_engine := (ad_engine (engine_at c i))\<lparr>sync_seed := ac_seed c\<rparr>\<rparr>"
  by (simp add: load_adev_def engine_at_def Let_def)

text \<open>\<open>c'\<close> differs from \<open>c\<close> in the state of engine \<open>i\<close> only, which \<open>P\<close> relates.\<close>

definition touches :: "nat \<Rightarrow> (('g, 'h) engine \<Rightarrow> ('g, 'h) engine \<Rightarrow> bool) \<Rightarrow> ('g, 'h) audio_core \<Rightarrow> ('g, 'h) audio_core \<Rightarrow> bool" where
  "touches i P c c' \<longleftrightarrow>
     table_size c' = table_size c \<and> (\<forall>j. j \<noteq> i \<longrightarrow> engine_at c' j = engine_at c j) \<and>
     (\<exists>s. engine_at c' i = (engine_at c i)\<lparr>ad_engine := s\<rparr> \<and> P (ad_engine (engine_at c i)) s)"

lemma touches_trans:
  assumes "touches i P c c1" and "touches i Q c1 c2" and "\<And>s t u. P s t \<Longrightarrow> Q t u \<Longrightarrow> R s u"
  shows "touches i R c c2"
proof -
  obtain s where s: "engine_at c1 i = (engine_at c i)\<lparr>ad_engine := s\<rparr>" "P (ad_engine (engine_at c i)) s"
    using assms(1) unfolding touches_def by blast
  obtain t where t: "engine_at c2 i = (engine_at c1 i)\<lparr>ad_engine := t\<rparr>" "Q (ad_engine (engine_at c1 i)) t"
    using assms(2) unfolding touches_def by blast
  have "engine_at c2 i = (engine_at c i)\<lparr>ad_engine := t\<rparr>" "R (ad_engine (engine_at c i)) t"
    using s t assms(3) by simp_all
  moreover have "table_size c2 = table_size c" "\<forall>j. j \<noteq> i \<longrightarrow> engine_at c2 j = engine_at c j"
    using assms(1,2) unfolding touches_def by simp_all
  ultimately show ?thesis unfolding touches_def by blast
qed

lemma touches_mono: "touches i P c c' \<Longrightarrow> (\<And>s t. P s t \<Longrightarrow> Q s t) \<Longrightarrow> touches i Q c c'"
  by (auto simp: touches_def)

lemma touches_bump:
  assumes "\<And>s. P s s" shows "touches i P c (bump_core c)"
proof -
  have "engine_at c i = (engine_at c i)\<lparr>ad_engine := ad_engine (engine_at c i)\<rparr>" by simp
  with assms show ?thesis unfolding touches_def table_of_bump by blast
qed

lemma touches_store:
  "i < table_size c \<Longrightarrow> P (ad_engine (engine_at c i)) s \<Longrightarrow> touches i P c (store_adev i ((load_adev i c)\<lparr>ad_engine := s\<rparr>) c)"
  by (auto simp: touches_def load_adev_as)

lemma touches_upd:
  assumes "i < table_size c" and "P (ad_engine (engine_at c i)) (f ((ad_engine (engine_at c i))\<lparr>sync_seed := ac_seed c\<rparr>))"
  shows "touches i P c (upd_adev i (upd_engine f) c)"
  using assms by (auto simp: touches_def load_adev_as upd_engine_def)

section \<open>Tame drivers\<close>

text \<open>What the methods that start a device leave alone.\<close>

definition kept :: "('g, 'h) engine \<Rightarrow> ('g, 'h) engine \<Rightarrow> bool" where
  "kept s s' \<longleftrightarrow>
     ad_go s' = ad_go s \<and> ad_enabled s' = ad_enabled s \<and> ad_open_mode s' = ad_open_mode s \<and>
     (\<forall>D. dm_has DMAP_PREPARED (dmap_of D s) \<longrightarrow> dm_has DMAP_PREPARED (dmap_of D s'))"

definition tame_driver :: "('g, 'h) driver \<Rightarrow> bool" where
  "tame_driver V \<longleftrightarrow>
     d_ioctl_override V = None \<and>
     (\<forall>f. a_trigger (d_audio V) = Some f \<longrightarrow> (\<forall>b s. kept s (f b s) \<and> enable_bits (f b s) = enable_bits s)) \<and>
     (\<forall>f. a_output_block (d_audio V) = Some f \<longrightarrow> (\<forall>p n z i s. kept s (f p n z i s))) \<and>
     (\<forall>f. a_start_input (d_audio V) = Some f \<longrightarrow> (\<forall>p n z i s. kept s (f p n z i s))) \<and>
     (\<forall>f. d_sync_control V = Some f \<longrightarrow> (\<forall>e m s. kept s (f e m s)))"

text \<open>Both directions of a mode are prepared.\<close>

definition ready_for :: "u32 \<Rightarrow> ('g, 'h) engine \<Rightarrow> bool" where
  "ready_for m s \<longleftrightarrow>
     (m AND PCM_ENABLE_OUTPUT \<noteq> 0 \<longrightarrow> dm_has DMAP_PREPARED (dmap_of Play s)) \<and>
     (m AND PCM_ENABLE_INPUT \<noteq> 0 \<longrightarrow> dm_has DMAP_PREPARED (dmap_of Rec s))"

lemma kept_refl [simp]: "kept s s" by (simp add: kept_def)

lemma kept_trans: "kept s t \<Longrightarrow> kept t u \<Longrightarrow> kept s u" by (auto simp: kept_def)

lemma kept_fields [simp]:
  "kept s (u\<lparr>enable_bits := b\<rparr>) = kept s u" "kept (s\<lparr>sync_seed := w\<rparr>) u = kept s u"
  "dmap_of D (u\<lparr>ad_go := g\<rparr>) = dmap_of D u" "dmap_of D (u\<lparr>sync_seed := w\<rparr>) = dmap_of D u"
proof -
  have "dmap_of D (u\<lparr>enable_bits := b\<rparr>) = dmap_of D u" "dmap_of D (s\<lparr>sync_seed := w\<rparr>) = dmap_of D s" for D
    by (simp_all add: dmap_of_def)
  then show "kept s (u\<lparr>enable_bits := b\<rparr>) = kept s u" "kept (s\<lparr>sync_seed := w\<rparr>) u = kept s u"
    by (simp_all add: kept_def)
qed (simp_all add: dmap_of_def)

lemma kept_seed [simp]: "kept (s\<lparr>sync_seed := w, ad_go := g\<rparr>) u = kept (s\<lparr>ad_go := g\<rparr>) u"
  by (simp add: kept_def)

lemma kept_ready: "kept s s' \<Longrightarrow> ready_for m s \<Longrightarrow> ready_for m s'" by (auto simp: kept_def ready_for_def)

lemma prepared_upd:
  assumes "\<And>d. dm_has DMAP_PREPARED d \<Longrightarrow> dm_has DMAP_PREPARED (f d)" and "dm_has DMAP_PREPARED (dmap_of D s)"
  shows "dm_has DMAP_PREPARED (dmap_of D (upd_dmap D' f s))"
  using assms by (auto simp: dmap_of_def upd_dmap_def)

lemma kept_upd:
  assumes "\<And>d. dm_has DMAP_PREPARED d \<Longrightarrow> dm_has DMAP_PREPARED (f d)"
  shows "kept s (upd_dmap D f s)"
  by (auto simp: kept_def intro: prepared_upd assms)

lemma prepared_kept_flags:
  "dm_has DMAP_PREPARED d \<Longrightarrow> dm_has DMAP_PREPARED (dm_set f d)"
  "dm_has DMAP_PREPARED (d\<lparr>dma_mode := m\<rparr>) = dm_has DMAP_PREPARED d"
proof -
  have "(w OR f) AND DMAP_PREPARED = 0 \<Longrightarrow> w AND DMAP_PREPARED = 0" for w :: u32
    by (metis bit.conj_disj_distrib2 or_eq_0_iff)
  then show "dm_has DMAP_PREPARED d \<Longrightarrow> dm_has DMAP_PREPARED (dm_set f d)"
    by (auto simp: dm_has_def dm_set_def upd_cnv_def)
qed (simp add: dm_has_def)

lemma kept_mode: "kept s (upd_dmap D (\<lambda>d. d\<lparr>dma_mode := m\<rparr>) s)"
  by (rule kept_upd) (simp add: prepared_kept_flags)

lemma kept_started: "kept s (upd_dmap D (dm_set f) s)"
  by (rule kept_upd) (rule prepared_kept_flags(1))

lemma core_env_methods [simp]:
  "a_trigger (core_env V c) = a_trigger (d_audio V)" "a_output_block (core_env V c) = a_output_block (d_audio V)"
  "a_start_input (core_env V c) = a_start_input (d_audio V)"
  by (simp_all add: core_env_def)

lemma kept_trigger_device: "tame_driver V \<Longrightarrow> kept s (trigger_device (core_env V c) en s)"
  by (auto simp: trigger_device_def tame_driver_def Let_def split: option.split)

lemma kept_start_device:
  "tame_driver V \<Longrightarrow> m = a_output_block (d_audio V) \<or> m = a_start_input (d_audio V) \<Longrightarrow> kept s (start_device m D s)"
  by (auto simp: start_device_def tame_driver_def Let_def split: option.split)

lemma kept_launch_output:
  assumes "tame_driver V" shows "kept s (snd (launch_output (core_env V c) s))"
  using kept_trans [OF kept_start_device [OF assms] kept_trans [OF kept_started kept_trigger_device [OF assms]]]
  by (simp add: launch_output_def Let_def)

lemma kept_launch_input:
  assumes "tame_driver V" shows "kept s (snd (launch_input (core_env V c) s))"
  using kept_trans [OF kept_start_device [OF assms] kept_trans [OF kept_started kept_trigger_device [OF assms]]]
  by (simp add: launch_input_def Let_def)

lemma ready_for_and: "ready_for v s \<Longrightarrow> ready_for (v AND w) s"
proof -
  have "v AND p = 0 \<Longrightarrow> (v AND w) AND p = 0" for p :: u32
    using and.assoc [of v p w] by (simp add: and.assoc and.commute [of w p])
  then show "ready_for v s \<Longrightarrow> ready_for (v AND w) s" by (auto simp: ready_for_def)
qed

lemma prepare_prepared: "dm_has DMAP_PREPARED (dmap_of D s) \<Longrightarrow> prepare E D s = Some (Inr (), s)"
  by (simp add: prepare_def done_with_def)

lemma trigger_output_ok:
  assumes "tame_driver V" and "ready_for v s"
  shows "\<exists>s'. trigger_output (core_env V c) v s = Some (Inr (), s') \<and> kept s s'"
proof -
  define t where "t = (if dm_mapped (dmap_of Play s) then upd_dmap Play (\<lambda>d. d\<lparr>dma_mode := PCM_ENABLE_OUTPUT\<rparr>) s else s)"
  define u where "u = snd (launch_output (core_env V c) t)"
  have k: "kept s t" by (simp add: t_def kept_mode)
  have "kept s u" unfolding u_def by (rule kept_trans [OF k kept_launch_output [OF assms(1)]])
  then have "kept s (u\<lparr>enable_bits := b\<rparr>)" for b by simp
  moreover have "v AND PCM_ENABLE_OUTPUT \<noteq> 0 \<Longrightarrow> prepare_output (core_env V c) t = Some (Inr (), t)"
    using kept_ready [OF k assms(2)] by (simp add: prepare_output_def ready_for_def prepare_prepared)
  ultimately show ?thesis
    unfolding trigger_output_def Let_def t_def [symmetric]
    by (auto simp: audio_and_def done_with_def u_def)
qed

lemma trigger_input_ok:
  assumes "tame_driver V" and "ready_for v s"
  shows "\<exists>s'. trigger_input (core_env V c) v s = Some (Inr (), s') \<and> kept s s'"
proof -
  define t where "t = upd_dmap Rec (\<lambda>d. d\<lparr>dma_mode := PCM_ENABLE_INPUT\<rparr>) s"
  define u where "u = snd (launch_input (core_env V c) t)"
  have k: "kept s t" by (simp add: t_def kept_mode)
  have "kept s u" unfolding u_def by (rule kept_trans [OF k kept_launch_input [OF assms(1)]])
  then have "kept s (u\<lparr>enable_bits := b\<rparr>)" for b by simp
  moreover have "v AND PCM_ENABLE_INPUT \<noteq> 0 \<Longrightarrow> prepare_input (core_env V c) t = Some (Inr (), t)"
    using kept_ready [OF k assms(2)] by (simp add: prepare_input_def ready_for_def prepare_prepared)
  ultimately show ?thesis
    unfolding trigger_input_def Let_def t_def [symmetric]
    by (auto simp: audio_and_def done_with_def u_def)
qed

definition bits_set :: "('g, 'h) driver \<Rightarrow> u32 \<Rightarrow> ('g, 'h) engine \<Rightarrow> ('g, 'h) engine \<Rightarrow> bool" where
  "bits_set V v s s' \<longleftrightarrow>
     kept s s' \<and>
     (a_trigger (d_audio V) \<noteq> None \<longrightarrow>
        enable_bits s' AND ad_open_mode s = v AND (PCM_ENABLE_INPUT OR PCM_ENABLE_OUTPUT) AND ad_open_mode s)"

lemma set_trigger_ok:
  assumes "tame_driver V" and "ready_for v s"
  shows "\<exists>r s'. set_trigger (core_env V c) v s = Some (r, s') \<and> bits_set V v s s' \<and>
    (a_trigger (d_audio V) \<noteq> None \<longrightarrow> r = Inr (v AND (PCM_ENABLE_INPUT OR PCM_ENABLE_OUTPUT) AND ad_open_mode s))"
proof (cases "a_trigger (d_audio V)")
  case None
  then show ?thesis by (simp add: set_trigger_def fail_def bits_set_def)
next
  case (Some trig)
  define w where "w = v AND (PCM_ENABLE_INPUT OR PCM_ENABLE_OUTPUT) AND ad_open_mode s"
  have w: "w AND ad_open_mode s = w" by (simp add: w_def and.assoc)
  have ready: "ready_for w s" unfolding w_def by (intro ready_for_and assms(2))
  obtain s1 where 1: "trigger_output (core_env V c) w s = Some (Inr (), s1)" "kept s s1"
    using trigger_output_ok [OF assms(1) ready] by blast
  obtain s2 where 2: "trigger_input (core_env V c) w s1 = Some (Inr (), s2)" "kept s1 s2"
    using trigger_input_ok [OF assms(1) kept_ready [OF 1(2) ready]] by blast
  define u where "u = s2\<lparr>enable_bits := w\<rparr>"
  define u' where "u' = (if w = 0 \<or> ad_go u then trig w u else u)"
  have "kept s u" using kept_trans [OF 1(2) 2(2)] by (simp add: u_def)
  moreover have "kept u u' \<and> enable_bits u' = w"
    using assms(1) Some by (auto simp: u'_def tame_driver_def u_def)
  ultimately have "bits_set V v s u'" using w by (auto simp: bits_set_def w_def [symmetric] intro: kept_trans)
  moreover have "bits_set V v s s" if "w AND ad_open_mode s = enable_bits s AND ad_open_mode s"
    using that w by (simp add: bits_set_def w_def [symmetric])
  ultimately show ?thesis
    using 1(1) 2(1) Some
    by (auto simp: set_trigger_def Let_def w_def [symmetric] audio_and_def done_with_def u_def u'_def)
qed

section \<open>Visiting one engine\<close>

definition usable :: "nat \<Rightarrow> ('g, 'h) audio_core \<Rightarrow> bool" where
  "usable i c \<longleftrightarrow> i < table_size c \<and> \<not> ad_unloaded (engine_at c i) \<and> ad_enabled (ad_engine (engine_at c i))"

lemma seeded_simps [simp]:
  "bits_set V v (s\<lparr>sync_seed := w\<rparr>) u = bits_set V v s u" "ready_for v (s\<lparr>sync_seed := w\<rparr>) = ready_for v s"
  "ready_for v (s\<lparr>ad_go := g\<rparr>) = ready_for v s"
  by (simp_all add: bits_set_def ready_for_def)

lemma set_bits_ok:
  assumes "usable i c" and "tame_driver (drv i)" and "ready_for v (ad_engine (engine_at c i))"
  shows "\<exists>c'. set_bits drv i v c = Some c' \<and> touches i (bits_set (drv i) v) c c'"
proof -
  define s where "s = ad_engine (load_adev i (bump_core c))"
  have s: "s = (ad_engine (engine_at c i))\<lparr>sync_seed := ac_seed (bump_core c)\<rparr>" by (simp add: s_def load_adev_as)
  obtain r s' where t: "set_trigger (core_env (drv i) (bump_core c)) v s = Some (r, s')" "bits_set (drv i) v s s'"
    using set_trigger_ok [OF assms(2)] assms(3) by (metis s seeded_simps(2))
  define c' where "c' = store_adev i ((load_adev i (bump_core c))\<lparr>ad_engine := s'\<rparr>) (bump_core c)"
  have "valid_dev (int i) (bump_core c)" "ad_enabled s" "\<not> ad_unloaded (load_adev i (bump_core c))"
    using assms(1) by (simp_all add: usable_def valid_dev_def s table_size_def bump_core_def engine_at_def load_adev_def Let_def)
  moreover have "d_ioctl_override (drv i) = None" using assms(2) by (simp add: tame_driver_def)
  ultimately have "set_bits drv i v c = Some c'"
    using t(1) by (simp add: set_bits_def with_engine_def trigger_call_def Let_def int_arg_def s_def [symmetric] c'_def)
  moreover have "touches i (bits_set (drv i) v) (bump_core c) c'"
    unfolding c'_def using assms(1) t(2) by (intro touches_store) (simp_all add: usable_def s)
  then have "touches i (bits_set (drv i) v) c c'" by (simp add: touches_def)
  ultimately show ?thesis by blast
qed

definition halted :: "('g, 'h) engine \<Rightarrow> ('g, 'h) engine \<Rightarrow> bool" where
  "halted s s' \<longleftrightarrow> kept (s\<lparr>ad_go := False\<rparr>) s'"

definition triggered :: "('g, 'h) driver \<Rightarrow> u32 \<Rightarrow> ('g, 'h) engine \<Rightarrow> ('g, 'h) engine \<Rightarrow> bool" where
  "triggered V m s s' \<longleftrightarrow>
     kept (s\<lparr>ad_go := True\<rparr>) s' \<and>
     (d_sync_control V = None \<longrightarrow> a_trigger (d_audio V) \<noteq> None \<longrightarrow>
        enable_bits s' AND ad_open_mode s = m AND (PCM_ENABLE_INPUT OR PCM_ENABLE_OUTPUT) AND ad_open_mode s)"

lemma touches_go: "i < table_size c \<Longrightarrow> touches i (\<lambda>s s'. s' = s\<lparr>sync_seed := ac_seed c, ad_go := g\<rparr>) c (upd_adev i (upd_engine (\<lambda>s. s\<lparr>ad_go := g\<rparr>)) c)"
  by (rule touches_upd) simp_all

lemma touches_usable: "touches i P c c' \<Longrightarrow> (\<And>s s'. P s s' \<Longrightarrow> ad_enabled s' = ad_enabled s) \<Longrightarrow> usable j c' = usable j c"
  by (cases "j = i") (auto simp: touches_def usable_def)

lemma sync_prepare_ok:
  assumes "tame_driver V" and "ready_for m s" and "d_sync_control V = Some f"
  shows "\<exists>s'. sync_prepare (core_env V c) f m s = Some (Inr (), s') \<and> kept s s'"
proof -
  define s1 where "s1 = (if m AND PCM_ENABLE_INPUT \<noteq> 0 then snd (launch_input (core_env V c) s) else s)"
  have 1: "kept s s1" "(if m AND PCM_ENABLE_INPUT \<noteq> 0 then sync_input (core_env V c) s else Some s) = Some s1"
    using assms(2) by (simp_all add: s1_def kept_launch_input [OF assms(1)] sync_input_def ready_for_def)
  define t where "t = (if dm_mapped (dmap_of Play s1) then upd_dmap Play (\<lambda>d. d\<lparr>dma_mode := PCM_ENABLE_OUTPUT\<rparr>) s1 else s1)"
  define s2 where "s2 = (if m AND PCM_ENABLE_OUTPUT \<noteq> 0 then snd (launch_output (core_env V c) t) else s1)"
  have t: "kept s1 t" by (simp add: t_def kept_mode)
  have "prepare_output (core_env V c) t = Some (Inr (), t)" if "m AND PCM_ENABLE_OUTPUT \<noteq> 0"
    using that kept_ready [OF kept_trans [OF 1(1) t] assms(2)] by (simp add: prepare_output_def ready_for_def prepare_prepared)
  then have 2: "(if m AND PCM_ENABLE_OUTPUT \<noteq> 0 then sync_output (core_env V c) s1 else done_with () s1) = Some (Inr (), s2)"
    unfolding sync_output_def t_def [symmetric] by (simp add: audio_and_def done_with_def s2_def)
  have "kept s1 s2" using kept_trans [OF t kept_launch_output [OF assms(1)]] by (simp add: s2_def)
  moreover have "kept s2 (f SYNC_PREPARE m s2)" using assms(1,3) by (simp add: tame_driver_def)
  ultimately have "kept s (f SYNC_PREPARE m s2)" using 1(1) by (blast intro: kept_trans)
  then show ?thesis unfolding sync_prepare_def 1(2) by (simp add: 2 audio_and_def done_with_def)
qed

lemma announce_ok:
  assumes "usable i c" and "tame_driver (drv i)"
    and "d_sync_control (drv i) \<noteq> None \<Longrightarrow> ready_for (sync_mode (engine_at c i)) (ad_engine (engine_at c i))"
  shows "\<exists>c'. announce drv i c = Some (Inr (), c') \<and> touches i halted c c'"
proof -
  define c1 where "c1 = upd_adev i (upd_engine (\<lambda>s. s\<lparr>ad_go := False\<rparr>)) c"
  have i: "i < table_size c" using assms(1) by (simp add: usable_def)
  have 1: "touches i (\<lambda>s s'. s' = s\<lparr>sync_seed := ac_seed c, ad_go := False\<rparr>) c c1"
    unfolding c1_def by (rule touches_go [OF i])
  then have e: "engine_at c1 i = (engine_at c i)\<lparr>ad_engine := (ad_engine (engine_at c i))\<lparr>sync_seed := ac_seed c, ad_go := False\<rparr>\<rparr>"
    by (auto simp: touches_def)
  have halted: "touches i halted c c'" if "touches i kept c1 c'" for c'
    using 1 that by (rule touches_trans) (simp add: halted_def)
  show ?thesis
  proof (cases "d_sync_control (drv i)")
    case None
    have "usable i c1" using assms(1) touches_usable [OF 1] by simp
    moreover have "ready_for 0 (ad_engine (engine_at c1 i))" by (simp add: ready_for_def)
    ultimately obtain c' where "set_bits drv i 0 c1 = Some c'" "touches i (bits_set (drv i) 0) c1 c'"
      using set_bits_ok [of i c1 drv 0] assms(2) by blast
    then show ?thesis
      using None halted touches_mono [of i "bits_set (drv i) 0" c1 c' kept]
      by (auto simp: announce_def c1_def [symmetric] bits_set_def Let_def)
  next
    case (Some f)
    define s where "s = ad_engine (load_adev i c1)"
    have s: "s = (ad_engine (engine_at c1 i))\<lparr>sync_seed := ac_seed c1\<rparr>" by (simp add: s_def load_adev_as)
    obtain s' where p: "sync_prepare (core_env (drv i) c1) f (sync_mode (engine_at c1 i)) s = Some (Inr (), s')" "kept s s'"
      using sync_prepare_ok [OF assms(2) _ Some, of "sync_mode (engine_at c1 i)" s c1] assms(3) Some
      by (auto simp: s e)
    have "touches i kept c1 (store_adev i ((load_adev i c1)\<lparr>ad_engine := s'\<rparr>) c1)"
      using 1 i p(2) by (intro touches_store) (simp_all add: touches_def s)
    then show ?thesis using Some p(1) halted by (auto simp: announce_def c1_def [symmetric] Let_def s_def [symmetric])
  qed
qed

lemma release_engine_ok:
  assumes "usable i c" and "tame_driver (drv i)" and "ready_for (sync_mode (engine_at c i)) (ad_engine (engine_at c i))"
  shows "\<exists>c'. release_engine drv i c = Some c' \<and> touches i (triggered (drv i) (sync_mode (engine_at c i))) c c'"
proof -
  define m where "m = sync_mode (engine_at c i)"
  define c1 where "c1 = upd_adev i (upd_engine (\<lambda>s. s\<lparr>ad_go := True\<rparr>)) c"
  have i: "i < table_size c" using assms(1) by (simp add: usable_def)
  have 1: "touches i (\<lambda>s s'. s' = s\<lparr>sync_seed := ac_seed c, ad_go := True\<rparr>) c c1"
    unfolding c1_def by (rule touches_go [OF i])
  then have e: "engine_at c1 i = (engine_at c i)\<lparr>ad_engine := (ad_engine (engine_at c i))\<lparr>sync_seed := ac_seed c, ad_go := True\<rparr>\<rparr>"
    by (auto simp: touches_def)
  then have m: "sync_mode (ac_engines c1 ! i) = m" by (simp add: m_def flip: engine_at_def)
  show ?thesis
  proof (cases "d_sync_control (drv i)")
    case None
    have "usable i c1" using assms(1) touches_usable [OF 1] by simp
    moreover have "ready_for m (ad_engine (engine_at c1 i))" using assms(3) by (simp add: e m_def)
    ultimately obtain c' where r: "set_bits drv i m c1 = Some c'" "touches i (bits_set (drv i) m) c1 c'"
      using set_bits_ok [of i c1 drv m] assms(2) by blast
    have "touches i (triggered (drv i) m) c c'"
      using 1 r(2) by (rule touches_trans) (simp add: triggered_def bits_set_def)
    then show ?thesis using None r(1) m by (auto simp: release_engine_def c1_def [symmetric] Let_def m_def)
  next
    case (Some f)
    have "kept (s\<lparr>sync_seed := w\<rparr>) (f ev m (s\<lparr>sync_seed := w\<rparr>))" for s w ev
      using assms(2) Some by (simp add: tame_driver_def del: kept_fields)
    then have "kept s (f ev m (s\<lparr>sync_seed := w\<rparr>))" for s w ev by simp
    then have "touches i kept c1 (upd_adev i (upd_engine (f SYNC_TRIGGER m)) c1)"
      using 1 i by (intro touches_upd) (simp_all add: touches_def)
    with 1 have "touches i (triggered (drv i) m) c (upd_adev i (upd_engine (f SYNC_TRIGGER m)) c1)"
      by (rule touches_trans) (simp add: triggered_def Some)
    then show ?thesis using Some m by (simp add: release_engine_def c1_def [symmetric] Let_def m_def)
  qed
qed

section \<open>Chains\<close>

fun chained :: "('g, 'h) audio_core \<Rightarrow> nat option \<Rightarrow> nat list \<Rightarrow> bool" where
  "chained c p [] \<longleftrightarrow> p = None"
| "chained c p (i # is) \<longleftrightarrow> p = Some i \<and> chained c (sync_next (engine_at c i)) is"

lemma chained_cong:
  "(\<And>i. i \<in> set is \<Longrightarrow> sync_next (engine_at c' i) = sync_next (engine_at c i)) \<Longrightarrow> chained c' p is = chained c p is"
  by (induction "is" arbitrary: p) auto

lemma chained_unique: "chained c p is \<Longrightarrow> chained c p js \<Longrightarrow> is = js"
proof (induction "is" arbitrary: p js)
  case Nil then show ?case by (cases js) auto
next
  case (Cons i "is") then show ?case by (cases js) auto
qed

lemma chained_tail: "chained c p (is @ i # js) \<Longrightarrow> chained c (Some i) (i # js)"
  by (induction "is" arbitrary: p) auto

lemma chained_head_fresh: "chained c p (i # is) \<Longrightarrow> i \<notin> set is"
proof
  assume ch: "chained c p (i # is)" and "i \<in> set is"
  then obtain xs ys where xs: "is = xs @ i # ys" by (meson split_list)
  have "chained c (Some i) (i # ys)" using ch chained_tail [of c p "i # xs" i ys] xs by simp
  then have "is = ys" using ch chained_unique by auto
  with xs show False by simp
qed

text \<open>A member of a group that can be started.\<close>

definition startable :: "(nat \<Rightarrow> ('g, 'h) driver) \<Rightarrow> int \<Rightarrow> ('g, 'h) audio_core \<Rightarrow> nat \<Rightarrow> bool" where
  "startable drv g c i \<longleftrightarrow>
     usable i c \<and> tame_driver (drv i) \<and> sync_group (engine_at c i) = g \<and>
     ready_for (sync_mode (engine_at c i)) (ad_engine (engine_at c i))"

lemma touches_at:
  assumes "touches i P c c'"
  obtains s where "engine_at c' i = (engine_at c i)\<lparr>ad_engine := s\<rparr>" "P (ad_engine (engine_at c i)) s"
  using assms unfolding touches_def by blast

lemma touches_next: "touches i P c c' \<Longrightarrow> sync_next (engine_at c' j) = sync_next (engine_at c j)"
  by (cases "j = i") (auto simp: touches_def)

lemma halted_kept: "halted s t \<Longrightarrow> \<not> ad_go t \<and> ad_enabled t = ad_enabled s \<and> (ready_for m s \<longrightarrow> ready_for m t)"
  using kept_ready [of "s\<lparr>ad_go := False\<rparr>" t m] by (auto simp: halted_def) (simp_all add: kept_def)

lemma halted_trans: "halted s t \<Longrightarrow> halted t u \<Longrightarrow> halted s u"
  by (simp add: halted_def kept_def)

lemma startable_announced: "touches i halted c c' \<Longrightarrow> startable drv g c j \<Longrightarrow> startable drv g c' j"
  by (cases "j = i") (auto simp: touches_def startable_def usable_def dest: halted_kept)

definition announced :: "nat set \<Rightarrow> ('g, 'h) audio_core \<Rightarrow> ('g, 'h) audio_core \<Rightarrow> bool" where
  "announced A c c' \<longleftrightarrow>
     table_size c' = table_size c \<and> (\<forall>j. j \<notin> A \<longrightarrow> engine_at c' j = engine_at c j) \<and>
     (\<forall>j \<in> A. \<exists>s. engine_at c' j = (engine_at c j)\<lparr>ad_engine := s\<rparr> \<and> halted (ad_engine (engine_at c j)) s)"

lemma announced_step:
  assumes "touches i halted c c1" and "announced A c1 c'"
  shows "announced (insert i A) c c'"
proof -
  have "\<exists>s. engine_at c' j = (engine_at c j)\<lparr>ad_engine := s\<rparr> \<and> halted (ad_engine (engine_at c j)) s" if "j \<in> insert i A" for j
  proof (cases "j = i")
    case True
    obtain s where s: "engine_at c1 i = (engine_at c i)\<lparr>ad_engine := s\<rparr>" "halted (ad_engine (engine_at c i)) s"
      using assms(1) by (rule touches_at)
    show ?thesis
    proof (cases "i \<in> A")
      case True
      then obtain t where "engine_at c' i = (engine_at c1 i)\<lparr>ad_engine := t\<rparr>" "halted (ad_engine (engine_at c1 i)) t"
        using assms(2) unfolding announced_def by blast
      then show ?thesis using s halted_trans [of _ s t] \<open>j = i\<close> by auto
    next
      case False
      then show ?thesis using s assms(2) \<open>j = i\<close> by (auto simp: announced_def)
    qed
  next
    case False
    have "engine_at c1 j = engine_at c j" using False assms(1) by (simp add: touches_def)
    moreover have "j \<in> A" using False that by simp
    ultimately show ?thesis using assms(2) unfolding announced_def by metis
  qed
  then show ?thesis using assms unfolding announced_def touches_def by simp
qed

lemma announce_all_ok:
  assumes "chained c p is" and "\<And>i. i \<in> set is \<Longrightarrow> startable drv g c i" and "length is \<le> fuel"
  shows "\<exists>c'. announce_all drv g fuel p c = Some (Inr (), c') \<and> announced (set is) c c'"
  using assms
proof (induction "is" arbitrary: p c fuel)
  case Nil
  then have "announce_all drv g fuel p c = Some (Inr (), c)" by (cases fuel) auto
  then show ?case by (simp add: announced_def)
next
  case (Cons i "is")
  obtain n where fuel: "fuel = Suc n" "length is \<le> n" using Cons.prems(3) by (cases fuel) auto
  have st: "startable drv g c i" using Cons.prems(2) by simp
  then obtain c1 where 1: "announce drv i c = Some (Inr (), c1)" "touches i halted c c1"
    using announce_ok [of i c drv] by (auto simp: startable_def)
  have "chained c1 (sync_next (engine_at c1 i)) is"
    using Cons.prems(1) chained_cong [of "is" c1 c] touches_next [OF 1(2)] by simp
  moreover have "startable drv g c1 j" if "j \<in> set is" for j
    using that Cons.prems(2) startable_announced [OF 1(2)] by simp
  ultimately obtain c' where c': "announce_all drv g n (sync_next (engine_at c1 i)) c1 = Some (Inr (), c')" "announced (set is) c1 c'"
    using Cons.IH fuel(2) by blast
  have "announce_all drv g fuel p c = Some (Inr (), c')"
    using Cons.prems(1) st 1(1) c'(1) fuel(1) by (simp add: startable_def engine_at_def)
  moreover have "announced (set (i # is)) c c'" using announced_step [OF 1(2) c'(2)] by simp
  ultimately show ?case by blast
qed

definition released :: "(nat \<Rightarrow> ('g, 'h) driver) \<Rightarrow> ('g, 'h) audio_core \<Rightarrow> ('g, 'h) audio_core \<Rightarrow> nat \<Rightarrow> bool" where
  "released drv c c' j \<longleftrightarrow>
     (\<exists>s. engine_at c' j = (engine_at c j)\<lparr>ad_engine := s, sync_next := None, sync_flags := 0, sync_group := 0\<rparr> \<and>
        triggered (drv j) (sync_mode (engine_at c j)) (ad_engine (engine_at c j)) s)"

lemma release_all_ok:
  assumes "chained c p is" and "\<And>i. i \<in> set is \<Longrightarrow> startable drv g c i" and "length is \<le> fuel"
  shows "\<exists>c'. release_all drv g fuel p c = Some c' \<and> table_size c' = table_size c \<and>
    (\<forall>j. j \<notin> set is \<longrightarrow> engine_at c' j = engine_at c j) \<and> (\<forall>j \<in> set is. released drv c c' j)"
  using assms
proof (induction "is" arbitrary: p c fuel)
  case Nil
  then have "release_all drv g fuel p c = Some c" by (cases fuel) auto
  then show ?case by simp
next
  case (Cons i "is")
  obtain n where fuel: "fuel = Suc n" "length is \<le> n" using Cons.prems(3) by (cases fuel) auto
  have st: "startable drv g c i" using Cons.prems(2) by simp
  have fresh: "i \<notin> set is" using Cons.prems(1) by (rule chained_head_fresh)
  obtain c1 where 1: "release_engine drv i c = Some c1" "touches i (triggered (drv i) (sync_mode (engine_at c i))) c c1"
    using st release_engine_ok [of i c drv] by (auto simp: startable_def)
  obtain s where s: "engine_at c1 i = (engine_at c i)\<lparr>ad_engine := s\<rparr>"
    "triggered (drv i) (sync_mode (engine_at c i)) (ad_engine (engine_at c i)) s" using 1(2) by (rule touches_at)
  define c2 where "c2 = upd_adev i (\<lambda>a. a\<lparr>sync_next := None, sync_flags := 0, sync_group := 0\<rparr>) c1"
  have i: "i < table_size c1" using st 1(2) by (simp add: startable_def usable_def touches_def)
  have 2: "engine_at c2 j = engine_at c j" if "j \<noteq> i" for j
    using that 1(2) i by (simp add: c2_def touches_def)
  have n2: "table_size c2 = table_size c" using 1(2) by (simp add: c2_def touches_def)
  have "chained c2 (sync_next (engine_at c1 i)) is"
    using Cons.prems(1) chained_cong [of "is" c2 c] 2 fresh touches_next [OF 1(2)] by (metis chained.simps(2))
  moreover have "startable drv g c2 j" if "j \<in> set is" for j
  proof -
    have "engine_at c2 j = engine_at c j" using that fresh 2 by metis
    then show ?thesis using that Cons.prems(2) [of j] n2 by (simp add: startable_def usable_def)
  qed
  ultimately obtain c' where c': "release_all drv g n (sync_next (engine_at c1 i)) c2 = Some c'" "table_size c' = table_size c2"
    "\<forall>j. j \<notin> set is \<longrightarrow> engine_at c' j = engine_at c2 j" "\<forall>j \<in> set is. released drv c2 c' j"
    using Cons.IH fuel(2) by blast
  have "release_all drv g fuel p c = Some c'"
    using Cons.prems(1) st 1(1) c'(1) fuel(1) by (simp add: startable_def c2_def engine_at_def)
  moreover have "engine_at c2 i = (engine_at c i)\<lparr>ad_engine := s\<lparr>sync_seed := ac_seed c1\<rparr>, sync_next := None, sync_flags := 0, sync_group := 0\<rparr>"
    using i s(1) by (simp add: c2_def load_adev_as)
  moreover have "triggered (drv i) (sync_mode (engine_at c i)) (ad_engine (engine_at c i)) (s\<lparr>sync_seed := w\<rparr>)" for w
    using s(2) by (simp add: triggered_def kept_def)
  ultimately have "released drv c c' i" using c'(3) fresh by (auto simp: released_def)
  moreover have "released drv c c' j" if "j \<in> set is" for j
  proof -
    have "engine_at c2 j = engine_at c j" using that fresh 2 by metis
    moreover have "released drv c2 c' j" using that c'(4) by blast
    ultimately show ?thesis unfolding released_def by simp
  qed
  ultimately show ?case using \<open>release_all drv g fuel p c = Some c'\<close> c'(2,3) n2 2 by auto
qed

section \<open>Starting a group\<close>


section \<open>A member that is closed\<close>

lemma cycle_never_ends:
  assumes "sync_next (engine_at c i) = Some i" and "sync_group (engine_at c i) = g"
    and "usable i c" and "tame_driver (drv i)" and "d_sync_control (drv i) = None"
  shows "announce_all drv g fuel (Some i) c = None"
  using assms(1-3)
proof (induction fuel arbitrary: c)
  case (Suc n)
  obtain c1 where 1: "announce drv i c = Some (Inr (), c1)" "touches i halted c c1"
    using announce_ok [of i c drv] Suc.prems(3) assms(4,5) by auto
  have "sync_group (engine_at c1 i) = g" using 1(2) Suc.prems(2) by (auto simp: touches_def)
  moreover have "usable i c1" using touches_usable [OF 1(2)] Suc.prems(3) halted_kept by blast
  moreover have "sync_next (engine_at c1 i) = Some i" using touches_next [OF 1(2)] Suc.prems(1) by simp
  ultimately show ?case using Suc.IH 1(1) Suc.prems(2) by (simp add: engine_at_def)
qed simp

lemma release_frame:
  assumes "oss_audio_release drv fuel (int i) file c = Some c'" and "i < table_size c"
  shows "table_size c' = table_size c" "j \<noteq> i \<Longrightarrow> engine_at c' j = engine_at c j"
    "sync_next (engine_at c' i) = sync_next (engine_at c i)"
proof -
  have i: "i < table_size (bump_core c)" using assms(2) by simp
  have "c' = bump_core c \<or> (\<exists>a. c' = store_adev i a (bump_core c) \<and> sync_next a = sync_next (engine_at c i))"
    using assms(1) by (auto simp: oss_audio_release_def Let_def close_engine_def bind_eq_Some_conv split: if_splits)
  then show "table_size c' = table_size c" "j \<noteq> i \<Longrightarrow> engine_at c' j = engine_at c j"
    "sync_next (engine_at c' i) = sync_next (engine_at c i)"
    using i by (auto simp del: table_of_bump(1) simp: table_of_bump(2)) (simp_all add: table_of_bump)
qed

lemma init_dmap_frame: "init_dmap V D a = Some (r, a') \<Longrightarrow> \<exists>s. a' = a\<lparr>ad_engine := s\<rparr>"
  by (auto simp: init_dmap_def Let_def split: if_splits prod.splits sum.splits) (metis adev.surjective adev.update_convs(1))+

lemma open_dmap_frame: "open_dmap V fl D a = Some (r, a') \<Longrightarrow> \<exists>s. a' = a\<lparr>ad_engine := s\<rparr>"
proof (cases "ad_dmask (ad_engine a) AND (if D = Play then DMASK_OUT else DMASK_IN) = 0")
  case True
  assume "open_dmap V fl D a = Some (r, a')"
  then have "a' = a\<lparr>ad_engine := ad_engine a\<rparr>" using True by (simp add: open_dmap_def)
  then show ?thesis by blast
next
  case False
  assume "open_dmap V fl D a = Some (r, a')"
  then show ?thesis using False init_dmap_frame [of V D _ r a'] by (fastforce simp: open_dmap_def upd_engine_def)
qed

lemma open_dmaps_frame:
  assumes "open_dmaps V fl a = Some (r, a')" shows "\<exists>s. a' = a\<lparr>ad_engine := s\<rparr>"
proof -
  obtain r1 a1 where 1: "open_dmap V fl Play a = Some (r1, a1)" using assms by (auto simp: open_dmaps_def split: option.splits)
  then obtain s where "a1 = a\<lparr>ad_engine := s\<rparr>" using open_dmap_frame by blast
  then show ?thesis using assms 1 open_dmap_frame [of V fl Rec a1 r a'] by (auto simp: open_dmaps_def split: sum.splits)
qed

lemma ready_engine_frame: "ready_engine E dev a = Some a' \<Longrightarrow> sync_next a' = sync_next a \<and> sync_group a' = sync_group a \<and> sync_flags a' = sync_flags a"
  by (auto simp: ready_engine_def Let_def)

lemma open_frame:
  assumes "oss_audio_open_engine drv fuel (int i) file recursive proc fl c = Some (Inr n, c')" and "i < table_size c"
  shows "table_size c' = table_size c" "j \<noteq> i \<Longrightarrow> engine_at c' j = engine_at c j"
    "sync_next (engine_at c' i) = None \<and> sync_group (engine_at c' i) = 0 \<and> sync_flags (engine_at c' i) = 0"
proof -
  define c1 where "c1 = bump_core c"
  have i: "i < table_size c1" using assms(2) by (simp add: c1_def)
  obtain a where a: "c' = store_adev i a c1" "sync_next a = None \<and> sync_group a = 0 \<and> sync_flags a = 0"
    using assms(1) by (auto simp: oss_audio_open_engine_def Let_def c1_def [symmetric] mark_open_def name_owner_def
        split: if_splits prod.splits sum.splits option.splits dest!: open_dmaps_frame ready_engine_frame)
  then show "table_size c' = table_size c" "j \<noteq> i \<Longrightarrow> engine_at c' j = engine_at c j"
    "sync_next (engine_at c' i) = None \<and> sync_group (engine_at c' i) = 0 \<and> sync_flags (engine_at c' i) = 0"
    using i by (simp_all add: c1_def)
qed

text \<open>An engine that joins the group of \<open>j\<close> comes right after \<open>j\<close> in the chain.\<close>

lemma join_links:
  assumes "handle_syncgroup drv i \<lparr>sg_id = g, sg_mode = m\<rparr> c = ((Inr (), r), c')" and "g \<noteq> 0"
    and "j = nat (g AND SYNC_DEVICE_MASK)" and "j \<noteq> i" and "i < table_size c"
  shows "sync_next (engine_at c' i) = sync_next (engine_at c j)" "sync_next (engine_at c' j) = Some i"
    "sync_group (engine_at c' i) = g" "sync_group (engine_at c' j) = g"
    "sync_flags (engine_at c' j) AND SYNC_MASTER \<noteq> 0" "j < table_size c" "table_size c' = table_size c"
proof -
  define V where "V = drv i"
  have j: "j < table_size c" "sync_flags (engine_at c j) AND SYNC_MASTER \<noteq> 0" "sync_group (engine_at c j) = g"
    using assms(1-4) by (auto simp: handle_syncgroup_def join_group_def Let_def engine_at_def table_size_def split: if_splits)
  define c1 where "c1 = upd_adev i (\<lambda>a. a\<lparr>sync_flags := sync_flags a OR SYNC_SLAVE\<rparr>) c"
  define m' where "m' = m AND (PCM_ENABLE_INPUT OR PCM_ENABLE_OUTPUT) AND ad_open_mode (ad_engine (load_adev i c1))"
  have c': "c' = upd_adev i (upd_engine (\<lambda>s. s\<lparr>ad_go := False\<rparr>)) (link_slave i j (upd_adev i (sync_attach V g m') c1))"
    using assms(1-4) unfolding handle_syncgroup_def join_group_def Let_def
    by (auto simp: V_def m'_def c1_def split: if_splits)
  have attach: "sync_group (sync_attach V g m' a) = g \<and> sync_next (sync_attach V g m' a) = sync_next a" for a
    by (simp add: sync_attach_def upd_engine_def Let_def split: option.split)
  show "sync_next (engine_at c' i) = sync_next (engine_at c j)" "sync_next (engine_at c' j) = Some i"
    "sync_group (engine_at c' i) = g" "sync_group (engine_at c' j) = g"
    "sync_flags (engine_at c' j) AND SYNC_MASTER \<noteq> 0" "j < table_size c" "table_size c' = table_size c"
    using j assms(4,5) attach
    by (auto simp: c' link_slave_def c1_def upd_engine_def simp flip: engine_at_def)
qed

text \<open>C40: when a member that comes right after the master of its group is closed, opened again and joins the
  group again, the chain of the group has a cycle, and starting the group never returns, whatever the fuel.\<close>

theorem reopened_member_hangs:
  assumes "sync_next (engine_at c j) = Some i" and "i \<noteq> j" and "i < table_size c" and "j = nat (g AND SYNC_DEVICE_MASK)" and "g \<noteq> 0"
    and "oss_audio_release drv f1 (int i) file c = Some c1"
    and "oss_audio_open_engine drv f2 (int i) file' recursive proc fl c1 = Some (Inr n, c2)"
    and "handle_syncgroup drv i \<lparr>sg_id = g, sg_mode = m\<rparr> c2 = ((Inr (), r), c3)"
    and "\<And>k. k \<in> {i, j} \<Longrightarrow> usable k c3 \<and> tame_driver (drv k) \<and> d_sync_control (drv k) = None"
  shows "handle_syncstart drv fuel j g c3 = None \<and> \<not> (\<exists>is. chained c3 (Some j) is)"
proof -
  note rel = release_frame [OF assms(6,3)]
  have i1: "i < table_size c1" using assms(3) rel(1) by simp
  note op = open_frame [OF assms(7) i1]
  have i2: "i < table_size c2" using i1 op(1) by simp
  note join = join_links [OF assms(8,5,4) assms(2) [symmetric] i2]
  have "engine_at c2 j = engine_at c j" using assms(2) rel(2) op(2) by simp
  then have i: "sync_next (engine_at c3 i) = Some i" using join(1) assms(1) by simp
  have "announce_all drv g fuel (Some j) c3 = None"
  proof (cases fuel)
    case (Suc n)
    obtain c4 where 4: "announce drv j c3 = Some (Inr (), c4)" "touches j halted c3 c4"
      using announce_ok [of j c3 drv] assms(9) [of j] by auto
    have "sync_next (engine_at c4 i) = Some i" "sync_group (engine_at c4 i) = g" "usable i c4"
      using 4(2) i join(3) assms(2) assms(9) [of i] touches_usable [OF 4(2)] halted_kept by (auto simp: touches_def)
    then have "announce_all drv g n (Some i) c4 = None" by (rule cycle_never_ends) (use assms(9) [of i] in auto)
    moreover have "sync_next (ac_engines c4 ! j) = Some i" using touches_next [OF 4(2)] join(2) by (simp add: engine_at_def)
    ultimately show ?thesis using Suc 4(1) join(4) by (simp add: engine_at_def)
  qed simp
  then have "handle_syncstart drv fuel j g c3 = None"
    using join(4-7) op(1) rel(1) assms(4)
    by (simp add: handle_syncstart_def Let_def engine_at_def table_size_def)
  moreover have "\<not> chained c3 (Some j) is" for "is"
  proof
    assume ch: "chained c3 (Some j) is"
    then obtain js where "chained c3 (Some i) js" using join(2) by (cases "is") auto
    moreover from this obtain ks where "js = i # ks" "chained c3 (Some i) ks" using i by (cases js) auto
    ultimately show False using chained_unique [of c3 "Some i" js ks] by auto
  qed
  ultimately show ?thesis by blast
qed

section \<open>Two engines\<close>

definition toy_device :: "(unit, nat) driver" where
  "toy_device = \<lparr>
     d_audio = toy_driver, d_open = (\<lambda>m f s. (Inr (), s)), d_close = (\<lambda>m s. s), d_alloc_buffer = None, d_free_buffer = None,
     d_sync_control = None,
     os_alloc_dmabuf = (\<lambda>D s. (Inr (), upd_dmap D (\<lambda>d. d\<lparr>dm_dmabuf := Some (replicate 16 0), dm_phys := 4096, dm_buffsize := 16\<rparr>) s)),
     os_free_dmabuf = (\<lambda>D s. s), d_ioctl = None, d_ioctl_override = None, d_bind = None, num_mixers = 0,
     mixer_modified = (\<lambda>m s. s), mixer_ioctl = (\<lambda>m d cmd x s. ((Inl OSS_EINVAL, x), s)),
     legacy_mixer_ioctl = (\<lambda>m d cmd x s. ((Inl OSS_EINVAL, x), s)), mixer_ext = (\<lambda>cmd x s. ((Inl OSS_EINVAL, x), s)),
     opt_cooked = True, opt_src_quality = 0\<rparr>"

definition toy_adev :: "(unit, nat) adev" where
  "toy_adev = \<lparr>
     ad_engine = toy_engine\<lparr>dmap_0 := toy_dmap\<lparr>dma_mode := 0, user_counter := 0\<rparr>\<rparr>, ad_unloaded = False, has_osdev = True,
     buffer_protected = (\<lambda>D. False), oformat_mask = AFMT_S16_LE, iformat_mask = AFMT_U8, xformat_mask = 0, fixed_rate = 0,
     sync_flags = 0, sync_group = 0x10000, sync_mode = PCM_ENABLE_OUTPUT, sync_next = None,
     ad_caps = 0, mixer_dev = - 1, ad_cmd = [], ad_label = [], ad_song_name = [], ad_pid = - 1\<rparr>"

definition toy_group :: "(unit, nat) audio_core" where
  "toy_group = \<lparr>
     ac_engines = [toy_adev\<lparr>sync_flags := SYNC_MASTER, sync_next := Some 1\<rparr>, toy_adev\<lparr>sync_flags := SYNC_SLAVE\<rparr>], ac_seed = 0\<rparr>"

lemma toy_tame: "tame_driver toy_device"
  by (simp add: tame_driver_def toy_device_def toy_driver_def kept_def dmap_of_def)


text \<open>The second engine is closed, opened, and joins its group again.\<close>

definition closed_core :: "(unit, nat) audio_core" where
  "closed_core = the (oss_audio_release (\<lambda>i. toy_device) 1 1 (Some 2) toy_group)"

definition reopened :: "(int, unit, nat) core_result" where
  "reopened = oss_audio_open_engine (\<lambda>i. toy_device) 1 1 (Some 2) False (None, 0) 0 closed_core"

definition rejoined :: "(unit oss_result \<times> syncgroup) \<times> (unit, nat) audio_core" where
  "rejoined = handle_syncgroup (\<lambda>i. toy_device) 1 \<lparr>sg_id = 0x10000, sg_mode = PCM_ENABLE_OUTPUT\<rparr> (snd (the reopened))"

lemma toy_closed: "\<not> Option.is_none (oss_audio_release (\<lambda>i. toy_device) 1 1 (Some 2) toy_group)"
  by code_simp

lemma toy_reopened: "case reopened of Some (Inr n, c) \<Rightarrow> True | _ \<Rightarrow> False"
  by code_simp

lemma toy_rejoined:
  "case rejoined of ((Inr n, r), c) \<Rightarrow> length (ac_engines c) = 2 \<and>
     list_all (\<lambda>a. \<not> ad_unloaded a \<and> ad_enabled (ad_engine a)) (ac_engines c) | _ \<Rightarrow> False"
  by code_simp

lemma reopened_member_hangs_witness:
  "\<forall>fuel. handle_syncstart (\<lambda>i. toy_device) fuel 0 0x10000 (snd rejoined) = None"
proof
  fix fuel
  have 1: "oss_audio_release (\<lambda>i. toy_device) 1 (int 1) (Some 2) toy_group = Some closed_core"
    using toy_closed by (auto simp: closed_core_def Option.is_none_def)
  obtain n c2 where 2: "oss_audio_open_engine (\<lambda>i. toy_device) 1 (int 1) (Some 2) False (None, 0) 0 closed_core = Some (Inr n, c2)"
    "reopened = Some (Inr n, c2)"
    using toy_reopened by (auto simp: reopened_def split: option.splits sum.splits)
  obtain r c3 where 3: "handle_syncgroup (\<lambda>i. toy_device) 1 \<lparr>sg_id = 0x10000, sg_mode = PCM_ENABLE_OUTPUT\<rparr> c2 = ((Inr (), r), c3)"
    "snd rejoined = c3" and ok: "length (ac_engines c3) = 2" "list_all (\<lambda>a. \<not> ad_unloaded a \<and> ad_enabled (ad_engine a)) (ac_engines c3)"
    using toy_rejoined by (auto simp: rejoined_def 2(2) split: prod.splits sum.splits)
  have use: "usable k c3 \<and> tame_driver toy_device \<and> d_sync_control toy_device = None" if "k \<in> {1, 0}" for k
    using that ok toy_tame by (auto simp: usable_def engine_at_def table_size_def list_all_length toy_device_def)
  show "handle_syncstart (\<lambda>i. toy_device) fuel 0 0x10000 (snd rejoined) = None"
    unfolding 3(2)
    by (rule reopened_member_hangs [OF _ _ _ _ _ 1 2(1) 3(1) use, THEN conjunct1])
      (simp_all add: toy_group_def engine_at_def table_size_def SYNC_DEVICE_MASK_def)
qed

end
