(* ===== verification/Audio_Ioctl_Laws.thy ===== *)
theory Audio_Ioctl_Laws
  imports Audio_Sync_Laws
begin

text \<open>
  What the calls on an engine do: the recording source that was chosen is the one that is read back, the
  trigger bits read back, and the behaviours in which the calls differ from their purpose.
\<close>

section \<open>The recording source\<close>

lemma find_source_nth:
  assumes "distinct ps" and "n < length ps" and "\<And>i. i \<in> set ps \<Longrightarrow> bit m i \<longleftrightarrow> i = ps ! n"
  shows "find_source m k ps = k + n"
  using assms
proof (induction ps arbitrary: n k)
  case (Cons p ps)
  show ?case
  proof (cases n)
    case 0 then show ?thesis using Cons.prems by simp
  next
    case (Suc j)
    have "ps ! j \<noteq> p" using Cons.prems(1,2) Suc nth_mem [of j ps] by auto
    then have "\<not> bit m p" using Cons.prems(3) [of p] Suc by auto
    moreover have "find_source m (k + 1) ps = k + 1 + j"
      using Cons.IH [of j "k + 1"] Cons.prems Suc by auto
    ultimately show ?thesis using Suc by simp
  qed
qed simp

lemma source_mask:
  assumes "p < 32" shows "(word_of_int (signed_take_bit 31 (2 ^ p)) :: u32) = 2 ^ p"
proof (rule bit_word_eqI)
  fix n assume "n < LENGTH(32)"
  then show "bit (word_of_int (signed_take_bit 31 (2 ^ p)) :: u32) n = bit (2 ^ p :: u32) n"
    using assms by (cases "n = 31") (auto simp: bit_simps min_def)
qed

text \<open>What the audio core needs of a mixer that stores the mask of its recording sources, in the states that
  \<open>ok\<close> describes: queries change nothing, and a source that is written is the one that \<open>src\<close> reads.\<close>

locale source_mixer =
  fixes V :: "('g, 'h) driver" and mix :: int and devmask recmask :: u32
    and src :: "('g, 'h) engine \<Rightarrow> u32" and ok :: "('g, 'h) engine \<Rightarrow> bool"
  assumes caps: "ok s \<Longrightarrow> \<exists>r caps. legacy_mixer_ioctl V mix (- 1) (Mixer READ_CAPS) (Int_Arg 0) s = ((Inr r, Int_Arg caps), s) \<and>
        (word_of_int caps :: u32) AND SOUND_CAP_NORECSRC = 0"
    and devmask: "ok s \<Longrightarrow> \<exists>r. legacy_mixer_ioctl V mix (- 1) (Mixer READ_DEVMASK) (Int_Arg 0) s = ((Inr r, Int_Arg (uint devmask)), s)"
    and recmask: "ok s \<Longrightarrow> \<exists>r. legacy_mixer_ioctl V mix (- 1) (Mixer READ_RECMASK) (Int_Arg 0) s = ((Inr r, Int_Arg (uint recmask)), s)"
    and recsrc: "ok s \<Longrightarrow> \<exists>r. legacy_mixer_ioctl V mix (- 1) (Mixer READ_RECSRC) (Int_Arg 0) s = ((Inr r, Int_Arg (uint (src s))), s)"
    and wrote: "ok s \<Longrightarrow> bit recmask p \<Longrightarrow> s' = snd (legacy_mixer_ioctl V mix (- 1) (Mixer WRITE_RECSRC) (Int_Arg (signed_take_bit 31 (2 ^ p))) s) \<Longrightarrow>
        ok s' \<and> src s' = 2 ^ p"
begin

lemma source_reads:
  assumes "ok s"
  shows "0 \<le> mix \<Longrightarrow> has_recsrc V mix s = (True, s)"
    "mixer_read V mix READ_RECMASK s = (Some recmask, s)" "mixer_read V mix READ_DEVMASK s = (Some devmask, s)"
    "mixer_read V mix READ_RECSRC s = (Some (src s), s)"
proof -
  obtain r caps where "legacy_mixer_ioctl V mix (- 1) (Mixer READ_CAPS) (Int_Arg 0) s = ((Inr r, Int_Arg caps), s)"
    "(word_of_int caps :: u32) AND SOUND_CAP_NORECSRC = 0"
    using caps [OF assms] by blast
  then show "0 \<le> mix \<Longrightarrow> has_recsrc V mix s = (True, s)" by (simp add: has_recsrc_def mixer_read_def int_arg_def)
qed (use devmask [OF assms] recmask [OF assms] recsrc [OF assms] in \<open>auto simp: mixer_read_def int_arg_def\<close>)

lemma source_written:
  assumes "ok s" and "0 \<le> mix" and "0 \<le> v" and "v < int (length (sources recmask))"
  shows "ok (set_legacy_recsrc V mix v s) \<and> src (set_legacy_recsrc V mix v s) = 2 ^ (sources recmask ! nat v)"
proof -
  have "sources recmask ! nat v \<in> set (sources recmask)" using assms(3,4) by simp
  then have "bit recmask (sources recmask ! nat v)" by (simp add: set_sources)
  then show ?thesis using assms wrote [OF assms(1)] by (simp add: set_legacy_recsrc_def source_reads)
qed

lemma source_set_get:
  assumes "ok s" and "0 \<le> mix" and "0 \<le> v" and "v < int (length (sources recmask))"
  shows "get_legacy_recsrc V mix (set_legacy_recsrc V mix v s) = (v, set_legacy_recsrc V mix v s)"
proof -
  have p: "sources recmask ! nat v \<in> set (sources recmask)" using assms(3,4) by simp
  then have p28: "sources recmask ! nat v < 28" by (rule sources_less)
  have "find_source (2 ^ (sources recmask ! nat v) :: u32) 0 (sources recmask) = 0 + nat v"
    using assms(3,4) p28
    by (intro find_source_nth sources_distinct) (auto simp: bit_simps dest: sources_less)
  moreover have "recmask \<noteq> 0" using p by (auto simp: sources_def)
  moreover have "(2 :: u32) ^ (sources recmask ! nat v) \<noteq> 0" using p28 by simp
  ultimately show ?thesis
    using assms source_written [OF assms] by (simp add: get_legacy_recsrc_def source_reads)
qed

end

text \<open>A mixer that stores whatever mask is written, in all states.\<close>

definition stores_source ::
  "('g, 'h) driver \<Rightarrow> int \<Rightarrow> u32 \<Rightarrow> u32 \<Rightarrow> (('g, 'h) engine \<Rightarrow> u32) \<Rightarrow> bool" where
  "stores_source V mix devmask recmask src \<longleftrightarrow>
     (\<forall>s x. \<exists>caps. legacy_mixer_ioctl V mix (- 1) (Mixer READ_CAPS) x s = ((Inr 0, Int_Arg caps), s) \<and>
        (word_of_int caps :: u32) AND SOUND_CAP_NORECSRC = 0) \<and>
     (\<forall>s x. legacy_mixer_ioctl V mix (- 1) (Mixer READ_DEVMASK) x s = ((Inr 0, Int_Arg (uint devmask)), s)) \<and>
     (\<forall>s x. legacy_mixer_ioctl V mix (- 1) (Mixer READ_RECMASK) x s = ((Inr 0, Int_Arg (uint recmask)), s)) \<and>
     (\<forall>s x. legacy_mixer_ioctl V mix (- 1) (Mixer READ_RECSRC) x s = ((Inr 0, Int_Arg (uint (src s))), s)) \<and>
     (\<forall>s v. src (snd (legacy_mixer_ioctl V mix (- 1) (Mixer WRITE_RECSRC) (Int_Arg v) s)) = word_of_int v)"

interpretation stored: source_mixer V mix devmask recmask src "\<lambda>s. stores_source V mix devmask recmask src"
proof (unfold_locales, goal_cases)
  case (1 s)
  then show ?case unfolding stores_source_def by blast
next
  case (5 s p s')
  have "p < 32" using bit_imp_le_length [OF 5(2)] by simp
  then have "(word_of_int (signed_take_bit 31 (2 ^ p)) :: u32) = 2 ^ p" by (rule source_mask)
  then show ?case using 5 by (simp add: stores_source_def)
qed (simp_all add: stores_source_def)

lemma recsrc_calls:
  assumes "d_ioctl V = None"
  shows "engine_call V E fuel dev nxt DSP_SET_RECSRC (Int_Arg v) a =
      recsrc_number V a (set_legacy_recsrc V (mixer_dev a) v (ad_engine a))"
    "engine_call V E fuel dev nxt DSP_GET_RECSRC x a = recsrc_number V a (ad_engine a)"
    "engine_call V E fuel dev nxt DSP_GET_RECSRC_NAMES x a = recsrc_names V a (ad_engine a)"
  using assms
  by (simp_all add: engine_call_def info_call_def control_call_def routing_call_def by_method_def int_arg_def Let_def)

text \<open>on an engine whose mixer stores the mask of its recording sources, and whose driver leaves the call
  to the audio core, \<open>SNDCTL_DSP_SET_RECSRC\<close> with the number of a source returns that number, and
  \<open>SNDCTL_DSP_GET_RECSRC\<close> returns it afterwards.\<close>

theorem recsrc_roundtrip:
  assumes "stores_source V (mixer_dev a) devmask recmask src" and "0 \<le> mixer_dev a" and "d_ioctl V = None"
    and "0 \<le> v" and "v < int (length (sources recmask))"
  shows "\<exists>a'. engine_call V E fuel dev nxt DSP_SET_RECSRC (Int_Arg v) a = Some ((Inr v, Int_Arg v), a') \<and>
    engine_call V E fuel dev nxt DSP_GET_RECSRC x a' = Some ((Inr v, Int_Arg v), a')"
  using stored.source_set_get [OF assms(1,2,4,5), of "ad_engine a"]
  by (simp add: recsrc_calls [OF assms(3)] recsrc_number_def reply_def)

text \<open>A mixer of two sources, the line and the microphone, of which only the second has a level.\<close>

definition toy_mixer :: "(unit, nat) driver" where
  "toy_mixer = toy_device\<lparr>legacy_mixer_ioctl := (\<lambda>m d cmd x s.
     if cmd = Mixer READ_CAPS then ((Inr 0, Int_Arg 0), s)
     else if cmd = Mixer READ_DEVMASK then ((Inr 0, Int_Arg (uint (0x80 :: u32))), s)
     else if cmd = Mixer READ_RECMASK then ((Inr 0, Int_Arg (uint (0xC0 :: u32))), s)
     else if cmd = Mixer READ_RECSRC then ((Inr 0, Int_Arg (uint (of_nat (ad_hw s) :: u32))), s)
     else case x of
       Int_Arg v \<Rightarrow> ((Inr 0, x), s\<lparr>ad_hw := unat (word_of_int v :: u32)\<rparr>)
     | _ \<Rightarrow> ((Inl OSS_EINVAL, x), s))\<rparr>"

lemma toy_mixer_stores: "stores_source toy_mixer mix 0x80 0xC0 (\<lambda>s. of_nat (ad_hw s))"
  by (simp add: stores_source_def toy_mixer_def)

lemma toy_sources: "sources 0xC0 = [6, 7]" "sources 0x80 = [7]"
  by code_simp+

definition mixed_adev :: "(unit, nat) adev" where
  "mixed_adev = toy_adev\<lparr>mixer_dev := 0\<rparr>"

lemma recsrc_roundtrip_witness:
  "\<exists>a'. engine_call toy_mixer (core_env toy_mixer toy_group) 0 0 None DSP_SET_RECSRC (Int_Arg 1) mixed_adev = Some ((Inr 1, Int_Arg 1), a') \<and>
    engine_call toy_mixer (core_env toy_mixer toy_group) 0 0 None DSP_GET_RECSRC (Int_Arg 0) a' = Some ((Inr 1, Int_Arg 1), a')"
  by (rule recsrc_roundtrip [OF toy_mixer_stores])
    (simp_all add: mixed_adev_def toy_mixer_def toy_device_def toy_sources)

text \<open>The list of names leaves out the sources without a level; the numbers do not. When the first source has none,
  a name stands for the source before it.\<close>

text \<open>when the first recording source has no level, the first of the names stands for another source
  than the number 0.\<close>

theorem recsrc_names_shifted:
  assumes "stores_source V (mixer_dev a) devmask recmask src" and "0 \<le> mixer_dev a" and "d_ioctl V = None"
    and "sources recmask = p # q # ps" and "sources (recmask AND devmask) = q # ps"
  shows "(\<exists>a'. engine_call V E fuel dev nxt DSP_GET_RECSRC_NAMES x a =
      Some ((Inr 0, Names_Arg (map ((!) SOUND_DEVICE_NAMES) (q # ps))), a')) \<and>
    (\<exists>a'. engine_call V E fuel dev nxt DSP_SET_RECSRC (Int_Arg 0) a = Some ((Inr 0, Int_Arg 0), a') \<and> src (ad_engine a') = 2 ^ p)"
proof -
  have "get_legacy_recsrc_names V (mixer_dev a) (ad_engine a) =
      (Some (map ((!) SOUND_DEVICE_NAMES) (q # ps)), ad_engine a)"
    using assms(2,5) by (simp add: get_legacy_recsrc_names_def stored.source_reads [OF assms(1)])
  then show ?thesis
    using stored.source_set_get [OF assms(1,2), of 0 "ad_engine a"] stored.source_written [OF assms(1,2), of 0 "ad_engine a"] assms(4)
    by (simp add: recsrc_calls [OF assms(3)] recsrc_number_def recsrc_names_def reply_def)
qed

lemma recsrc_names_shifted_witness:
  "\<exists>a'. engine_call toy_mixer (core_env toy_mixer toy_group) 0 0 None DSP_GET_RECSRC_NAMES (Int_Arg 0) mixed_adev = Some ((Inr 0, Names_Arg [''mic'']), a')"
proof -
  have "\<exists>a'. engine_call toy_mixer (core_env toy_mixer toy_group) 0 0 None DSP_GET_RECSRC_NAMES (Int_Arg 0) mixed_adev =
      Some ((Inr 0, Names_Arg (map ((!) SOUND_DEVICE_NAMES) [7])), a')"
    by (rule recsrc_names_shifted [OF toy_mixer_stores, THEN conjunct1])
      (simp_all add: mixed_adev_def toy_mixer_def toy_device_def toy_sources)
  then show ?thesis by (simp add: SOUND_DEVICE_NAMES_def)
qed

section \<open>The trigger\<close>

text \<open>C31: for an engine whose buffers are prepared, \<open>SNDCTL_DSP_SETTRIGGER\<close> succeeds, and
  \<open>SNDCTL_DSP_GETTRIGGER\<close> then returns the bits that were set, as far as the engine is open for them.\<close>

theorem trigger_readback:
  assumes "tame_driver V" and "ready_for v (ad_engine a)" and "a_trigger (d_audio V) \<noteq> None"
  shows "\<exists>x a'. engine_call V (core_env V c) fuel dev nxt DSP_SETTRIGGER (Int_Arg (uint v)) a = Some ((Inr 0, x), a') \<and>
    (\<exists>y. engine_call V (core_env V c) fuel dev nxt DSP_GETTRIGGER z a' =
       Some ((Inr (signed_take_bit 31 (uint (v AND (PCM_ENABLE_INPUT OR PCM_ENABLE_OUTPUT) AND ad_open_mode (ad_engine a)))), y), a'))"
proof -
  define w where "w = v AND (PCM_ENABLE_INPUT OR PCM_ENABLE_OUTPUT) AND ad_open_mode (ad_engine a)"
  obtain s' where s: "set_trigger (core_env V c) v (ad_engine a) = Some (Inr w, s')" "bits_set V v (ad_engine a) s'"
    using set_trigger_ok [OF assms(1,2)] assms(3) unfolding w_def by blast
  then have "enable_bits s' AND ad_open_mode s' = w" using assms(3) by (simp add: bits_set_def kept_def w_def)
  then show ?thesis
    using s(1) assms(3)
    by (simp add: engine_call_def info_call_def control_call_def int_arg_def Let_def fills_def returns_def reply_def done_with_def
        w_def [symmetric])
qed

lemma trigger_readback_witness:
  "\<exists>x a'. engine_call toy_device (core_env toy_device toy_group) 0 0 None DSP_SETTRIGGER (Int_Arg (uint (7 :: u32))) toy_adev =
      Some ((Inr 0, x), a') \<and>
    (\<exists>y. engine_call toy_device (core_env toy_device toy_group) 0 0 None DSP_GETTRIGGER (Int_Arg 0) a' =
       Some ((Inr (signed_take_bit 31 (uint (7 AND (PCM_ENABLE_INPUT OR PCM_ENABLE_OUTPUT) AND ad_open_mode (ad_engine toy_adev)))), y), a'))"
  by (rule trigger_readback [OF toy_tame])
    (simp_all add: ready_for_def toy_adev_def toy_device_def toy_defs dmap_of_def dm_has_def audio_flags)

section \<open>Calls that do something else\<close>

text \<open>The formats that a recording can use are asked for, and those of playback are returned.\<close>

lemma recording_formats_wrong:
  assumes "mode_mask (ad_engine a) = PCM_ENABLE_INPUT"
  shows "engine_call V E fuel dev nxt DSP_GETFMTS x a =
    Some ((Inr (signed_take_bit 31 (uint (oformat_mask a))), Int_Arg (signed_take_bit 31 (uint (oformat_mask a)))), a)"
  using assms
  by (simp add: engine_call_def info_call_def getfmts_def returns_def reply_def done_with_def PCM_ENABLE_INPUT_def PCM_ENABLE_OUTPUT_def)

text \<open>A device without channels: the error is \<open>EIO\<close>, and the call for stereo returns \<open>ENXIO\<close>.\<close>

lemma stereo_wrong_error:
  assumes "\<not> bad_engine E dev (ad_engine a)" and "\<And>ch s. fst (a_set_channels E ch s) < 1" and "n = 0 \<or> n = 1"
  shows "\<exists>s. oss_audio_set_channels E dev (n + 1) (ad_engine a) = Some (Inl OSS_EIO, s) \<and>
    set_stereo E dev n x a = Some ((Inl OSS_ENXIO, x), a\<lparr>ad_engine := s\<rparr>)"
proof -
  obtain ret s where r: "a_set_channels E (signed_take_bit 15 (n + 1)) (bump_seed (ad_engine a)) = (ret, s)" by fastforce
  then have "ret < 1" using assms(2) by (metis fst_conv)
  then have "oss_audio_set_channels E dev (n + 1) (ad_engine a) = Some (Inl OSS_EIO, s)"
    using assms(1,3) r by (auto simp: oss_audio_set_channels_def bad_engine_def bump_seed_def fail_def Let_def)
  then show ?thesis using assms(3) by (auto simp: set_stereo_def returns_def reply_def stereo_error_def)
qed

text \<open>A mixer that knows the first control for the recording level only: the call fails.\<close>

lemma recording_level_dropped:
  assumes "d_ioctl V = None" and "has_mixer V (mixer_dev a)"
    and "mixer_ioctl V (mixer_dev a) dev (Mixer READ_RECGAIN) x (ad_engine a) = ((Inr v, x1), s1)"
    and "mixer_ioctl V (mixer_dev a) dev (Mixer READ_RECLEV) x1 s1 = ((Inl e2, x2), s2)"
    and "mixer_ioctl V (mixer_dev a) dev (Mixer READ_IGAIN) x2 s2 = ((Inl e3, x3), s3)"
  shows "rec_volume V dev DSP_GETRECVOL x a = Some ((Inl e3, x3), a\<lparr>ad_engine := s3\<rparr>)"
  using assms by (simp add: rec_volume_def by_method_def count_setting_def via_mixer_def reply_def)

text \<open>a poll for input on an engine whose recording is mapped returns at once, reports nothing and
  registers nobody to be woken, however many fragments were recorded.\<close>

theorem mapped_input_never_ready:
  assumes "pe_events ev = POLLIN OR POLLRDNORM" and "valid_dev dev c"
    and "dm_mapped (dmap_of Rec (ad_engine (engine_at c (nat dev))))"
  shows "\<exists>c'. oss_audio_chpoll drv dev ev c = Some ((Inr (), ev), c') \<and>
    (\<forall>i. ad_engine (engine_at c' i) = (ad_engine (engine_at c i))\<lparr>sync_seed := sync_seed (ad_engine (engine_at c' i))\<rparr>)"
proof -
  define s where "s = ad_engine (load_adev (nat dev) c)"
  have s: "s = (ad_engine (engine_at c (nat dev)))\<lparr>sync_seed := ac_seed c\<rparr>" by (simp add: s_def load_adev_as)
  have "chpoll_input E ev s = Some (ev, s)" for E
  proof -
    have "(POLLOUT OR POLLWRNORM) AND pe_events ev = 0" by (simp add: assms(1) POLLIN_def POLLOUT_def POLLRDNORM_def POLLWRNORM_def)
    then have "report (POLLOUT OR POLLWRNORM) ev = ev" by (simp add: report_def)
    then show ?thesis using assms(3) by (simp add: chpoll_input_def s)
  qed
  moreover have "pe_events ev AND (POLLOUT OR POLLWRNORM) = 0"
    by (simp add: assms(1) POLLIN_def POLLOUT_def POLLRDNORM_def POLLWRNORM_def)
  ultimately have "oss_audio_chpoll drv dev ev c = Some ((Inr (), ev), store_adev (nat dev) ((load_adev (nat dev) c)\<lparr>ad_engine := s\<rparr>) c)"
    using assms(2) by (simp add: oss_audio_chpoll_def Let_def s_def)
  moreover have "nat dev < table_size c" using assms(2) by (auto simp: valid_dev_def table_size_def)
  ultimately show ?thesis by (auto simp: s)
qed

definition mapped_group :: "(unit, nat) audio_core" where
  "mapped_group = \<lparr>ac_engines = [toy_adev\<lparr>ad_engine := toy_engine\<lparr>dmap_1 := toy_dmap\<lparr>mapping_flags := DMA_MAP_MAPPED\<rparr>\<rparr>\<rparr>], ac_seed = 0\<rparr>"

lemma mapped_input_never_ready_witness:
  "\<exists>c'. oss_audio_chpoll (\<lambda>i. toy_device) 0 \<lparr>pe_events = POLLIN OR POLLRDNORM, pe_revents = 0, pe_waits = False\<rparr> mapped_group =
      Some ((Inr (), \<lparr>pe_events = POLLIN OR POLLRDNORM, pe_revents = 0, pe_waits = False\<rparr>), c')"
proof -
  have m: "dm_mapped (dmap_of Rec (ad_engine (engine_at mapped_group (nat 0))))"
    by (simp add: mapped_group_def engine_at_def dmap_of_def toy_engine_def dm_mapped_def DMA_MAP_MAPPED_def)
  show ?thesis
    using mapped_input_never_ready [of "\<lparr>pe_events = POLLIN OR POLLRDNORM, pe_revents = 0, pe_waits = False\<rparr>", OF _ _ m, of "\<lambda>i. toy_device"]
    by (auto simp: valid_dev_def mapped_group_def)
qed

end
