(* ===== verification/Audio_Files_Laws.thy ===== *)
theory Audio_Files_Laws
  imports Audio_Ioctl_Laws
begin

text \<open>
  The table of engines over a session of opens, calls, transfers, interrupts and closes: every operation
  keeps it well typed, whatever the drivers do.
\<close>

section \<open>Sessions\<close>

datatype core_op =
  Open_Engine int "u32 option" bool "string option \<times> int" u32
| Close_Engine int "u32 option"
| Call int audio_cmd ioctl_arg
| Poll int poll_event
| Write int "bool option" bytes int
| Read int "bool option" int
| Start_Group u32
| Output_Intr int u32
| Input_Intr int u32

definition on_engine ::
  "int \<Rightarrow> (('g, 'h) engine \<Rightarrow> ('a \<times> ('g, 'h) engine) option) \<Rightarrow> ('g, 'h) audio_core \<Rightarrow> ('g, 'h) audio_core option" where
  "on_engine dev f c =
     (let i = nat dev; a = load_adev i c in
      if \<not> valid_dev dev c then Some (bump_core c)
      else map_option (\<lambda>(r, s). store_adev i (a\<lparr>ad_engine := s\<rparr>) c) (f (ad_engine a)))"

definition core_step ::
  "(nat \<Rightarrow> ('g, 'h) driver) \<Rightarrow> nat \<Rightarrow> core_op \<Rightarrow> ('g, 'h) audio_core \<Rightarrow> ('g, 'h) audio_core option" where
  "core_step drv fuel op c =
     (case op of
        Open_Engine dev file recursive proc fl \<Rightarrow> map_option snd (oss_audio_open_engine drv fuel dev file recursive proc fl c)
      | Close_Engine dev file \<Rightarrow> oss_audio_release drv fuel dev file c
      | Call dev cmd x \<Rightarrow> map_option snd (oss_audio_ioctl drv fuel dev cmd x c)
      | Poll dev ev \<Rightarrow> map_option snd (oss_audio_chpoll drv dev ev c)
      | Write dev nb bs n \<Rightarrow> on_engine dev (oss_audio_write (core_env (drv (nat dev)) c) dev nb bs n) c
      | Read dev nb n \<Rightarrow> on_engine dev (oss_audio_read (core_env (drv (nat dev)) c) dev nb n) c
      | Start_Group g \<Rightarrow> oss_audio_start_syncgroup drv fuel g c
      | Output_Intr dev fl \<Rightarrow>
          if valid_dev dev c
          then on_engine dev (\<lambda>s. map_option (Pair ()) (audio_outputintr (core_env (drv (nat dev)) c) dev fl s)) c else Some c
      | Input_Intr dev fl \<Rightarrow>
          if valid_dev dev c
          then on_engine dev (\<lambda>s. map_option (Pair ()) (audio_inputintr (core_env (drv (nat dev)) c) dev fl s)) c else Some c)"

fun core_run ::
  "(nat \<Rightarrow> ('g, 'h) driver) \<Rightarrow> nat \<Rightarrow> core_op list \<Rightarrow> ('g, 'h) audio_core \<Rightarrow> ('g, 'h) audio_core option" where
  "core_run drv fuel [] c = Some c"
| "core_run drv fuel (op # ops) c = Option.bind (core_step drv fuel op c) (core_run drv fuel ops)"

section \<open>Well-typed tables\<close>

text \<open>The names are shorter than their arrays, the links and the group lead to engines of the table, and the
  masks of the groups have no other bits.\<close>

definition adev_typed :: "nat \<Rightarrow> ('g, 'h) adev \<Rightarrow> bool" where
  "adev_typed n a \<longleftrightarrow>
     length (ad_cmd a) < 16 \<and> length (ad_label a) < OSS_LABEL_SIZE \<and> length (ad_song_name a) < OSS_LONGNAME_SIZE \<and>
     (case sync_next a of None \<Rightarrow> True | Some j \<Rightarrow> j < n) \<and>
     (sync_group a \<noteq> 0 \<longrightarrow> nat (sync_group a AND SYNC_DEVICE_MASK) < n) \<and>
     sync_flags a AND (SYNC_MASTER OR SYNC_SLAVE) = sync_flags a \<and>
     sync_mode a AND (PCM_ENABLE_INPUT OR PCM_ENABLE_OUTPUT) = sync_mode a"

definition core_typed :: "nat \<Rightarrow> ('g, 'h) audio_core \<Rightarrow> bool" where
  "core_typed n c \<longleftrightarrow> table_size c = n \<and> (\<forall>i < n. adev_typed n (engine_at c i))"

named_theorems typing \<open>operations that keep the table of engines well typed\<close>

lemma adev_typed_engine [simp]: "adev_typed n (a\<lparr>ad_engine := s\<rparr>) = adev_typed n a"
  by (simp add: adev_typed_def)

lemma adev_typed_upd_engine [simp]: "adev_typed n (upd_engine f a) = adev_typed n a"
  by (simp add: upd_engine_def)

lemma core_typed_seed [simp]: "core_typed n (bump_core c) = core_typed n c" "core_typed n (c\<lparr>ac_seed := w\<rparr>) = core_typed n c"
  by (simp_all add: core_typed_def) (simp add: table_size_def engine_at_def)

lemma typed_load: "core_typed n c \<Longrightarrow> i < n \<Longrightarrow> adev_typed n (load_adev i c)"
  by (simp add: core_typed_def load_adev_as)

lemma typed_store [typing]:
  assumes "core_typed n c" and "i < n \<Longrightarrow> adev_typed n a" shows "core_typed n (store_adev i a c)"
proof (cases "i < table_size c")
  case True
  then show ?thesis using assms by (simp add: core_typed_def)
next
  case False
  then have "ac_engines (store_adev i a c) = ac_engines c" by (simp add: store_adev_def table_size_def list_update_beyond)
  then show ?thesis using assms(1) by (simp add: core_typed_def table_size_def engine_at_def)
qed

lemma typed_upd [typing]:
  "core_typed n c \<Longrightarrow> (i < n \<Longrightarrow> adev_typed n (load_adev i c) \<Longrightarrow> adev_typed n (f (load_adev i c))) \<Longrightarrow> core_typed n (upd_adev i f c)"
  unfolding upd_adev_def by (rule typed_store) (auto intro: typed_load)

section \<open>Opening and closing\<close>

lemma typed_release [typing]:
  assumes "oss_audio_release drv fuel dev file c = Some c'" and "core_typed n c" shows "core_typed n c'"
  using assms typed_load [of n "bump_core c" "nat dev"]
  by (auto simp: oss_audio_release_def Let_def close_engine_def bind_eq_Some_conv adev_typed_def OSS_LABEL_SIZE_def OSS_LONGNAME_SIZE_def
      split: if_splits intro!: typed_store)

lemma typed_opened: "adev_typed n a \<Longrightarrow> adev_typed n (name_owner recursive proc (mark_open m fl a))"
  by (auto simp: adev_typed_def name_owner_def mark_open_def Let_def OSS_LABEL_SIZE_def OSS_LONGNAME_SIZE_def split: option.split)

lemma typed_ready: "ready_engine E dev a = Some a' \<Longrightarrow> adev_typed n a' = adev_typed n a"
proof -
  have "adev_typed n (a\<lparr>xformat_mask := m\<rparr>) = adev_typed n a" for m by (simp add: adev_typed_def)
  then show "ready_engine E dev a = Some a' \<Longrightarrow> adev_typed n a' = adev_typed n a" by (auto simp: ready_engine_def Let_def)
qed

lemma typed_open [typing]:
  assumes "oss_audio_open_engine drv fuel dev file recursive proc fl c = Some (r, c')" and "core_typed n c"
  shows "core_typed n c'"
proof -
  define c1 where "c1 = bump_core c"
  define a where "a = load_adev (nat dev) c1"
  have c1: "core_typed n c1" using assms(2) by (simp add: c1_def)
  have a: "nat dev < n \<Longrightarrow> adev_typed n a" using typed_load [OF c1] by (simp add: a_def)
  then have dmaps: "nat dev < n \<Longrightarrow> adev_typed n a'"
    if "open_dmaps V f (name_owner recursive proc (mark_open m f' (a\<lparr>ad_engine := s\<rparr>))) = Some (q, a')" for V f m f' s q a'
    using open_dmaps_frame [OF that] by (auto intro!: typed_opened)
  show ?thesis
    using assms(1) c1 a dmaps
    by (auto simp: oss_audio_open_engine_def Let_def c1_def [symmetric] a_def [symmetric] typed_ready
        split: if_splits prod.splits sum.splits option.splits intro!: typed_store dest: typed_release)
qed

section \<open>Groups\<close>

lemma typed_with_engine:
  assumes "with_engine drv dev cmd x k c = Some (r, c')" and "core_typed n c"
    and k: "\<And>x c r c'. k x c = Some (r, c') \<Longrightarrow> core_typed n c \<Longrightarrow> nat dev < n \<Longrightarrow> core_typed n c'"
  shows "core_typed n c'"
proof -
  define c1 where "c1 = bump_core c"
  have c1: "core_typed n c1" using assms(2) by (simp add: c1_def)
  have dev: "valid_dev dev c1 \<Longrightarrow> nat dev < n" using c1 by (auto simp: valid_dev_def core_typed_def table_size_def)
  show ?thesis
  proof (cases "\<exists>y c2. k y c2 = Some (r, c') \<and> core_typed n c2 \<and> nat dev < n")
    case True
    then show ?thesis using k by blast
  next
    case False
    have stored: "core_typed n (store_adev (nat dev) ((load_adev (nat dev) c1)\<lparr>ad_engine := s\<rparr>) c1)" for s
      using c1 by (intro typed_store) (auto intro: typed_load)
    have "\<not> k y c1 = Some (r, c')" if "valid_dev dev c1" for y
      using False c1 dev [OF that] by blast
    moreover have "\<not> k y (store_adev (nat dev) ((load_adev (nat dev) c1)\<lparr>ad_engine := s\<rparr>) c1) = Some (r, c')"
      if "valid_dev dev c1" for y s
      using False stored dev [OF that] by blast
    ultimately show ?thesis
      using assms(1) c1 stored
      by (auto simp: with_engine_def Let_def c1_def [symmetric] split: if_splits option.splits prod.splits)
  qed
qed

lemma typed_trigger: "trigger_call drv i x c = Some (r, c') \<Longrightarrow> core_typed n c \<Longrightarrow> core_typed n c'"
  by (auto simp: trigger_call_def Let_def intro!: typed_store intro: typed_load)

lemma typed_set_bits [typing]: "set_bits drv i v c = Some c' \<Longrightarrow> core_typed n c \<Longrightarrow> core_typed n c'"
  unfolding set_bits_def using typed_with_engine [of drv "int i" DSP_SETTRIGGER _ "trigger_call drv i" c _ c' n] typed_trigger
  by fastforce

lemma typed_announce [typing]:
  assumes "announce drv i c = Some (r, c')" and "core_typed n c" shows "core_typed n c'"
proof -
  define c1 where "c1 = upd_adev i (upd_engine (\<lambda>s. s\<lparr>ad_go := False\<rparr>)) c"
  have "core_typed n c1" unfolding c1_def using assms(2) by (intro typed_upd) simp_all
  then show ?thesis
    using assms(1)
    by (auto simp: announce_def Let_def c1_def [symmetric] split: option.splits
        intro: typed_set_bits intro!: typed_store typed_load)
qed

lemma typed_announce_all [typing]:
  "announce_all drv g fuel p c = Some (r, c') \<Longrightarrow> core_typed n c \<Longrightarrow> core_typed n c'"
  by (induction fuel arbitrary: p c) (auto split: if_splits option.splits sum.splits dest: typed_announce)

lemma typed_release_all [typing]:
  "release_all drv g fuel p c = Some c' \<Longrightarrow> core_typed n c \<Longrightarrow> core_typed n c'"
proof (induction fuel arbitrary: p c)
  case (Suc fuel)
  have "core_typed n c1" if "release_engine drv i c = Some c1" for i c1
  proof -
    define c2 where "c2 = upd_adev i (upd_engine (\<lambda>s. s\<lparr>ad_go := True\<rparr>)) c"
    have "core_typed n c2" unfolding c2_def using Suc.prems(2) by (intro typed_upd) simp_all
    then show ?thesis
      using that by (auto simp: release_engine_def Let_def c2_def [symmetric] split: option.splits
          intro: typed_set_bits typed_upd)
  qed
  moreover have "core_typed n (upd_adev i (\<lambda>a. a\<lparr>sync_next := None, sync_flags := 0, sync_group := 0\<rparr>) c1)"
    if "core_typed n c1" for i c1
    using that by (rule typed_upd) (simp add: adev_typed_def)
  ultimately have go: "core_typed n (upd_adev i (\<lambda>a. a\<lparr>sync_next := None, sync_flags := 0, sync_group := 0\<rparr>) c1)"
    if "release_engine drv i c = Some c1" for i c1
    using that by blast
  show ?case
  proof (cases p)
    case (Some i)
    then show ?thesis
      using Suc.prems Suc.IH go [of i] by (cases "release_engine drv i c") (auto split: if_splits)
  qed (use Suc.prems in simp)
qed (auto split: if_splits)

lemma typed_syncstart [typing]:
  assumes "handle_syncstart drv fuel i g c = Some (r, c')" and "core_typed n c" shows "core_typed n c'"
proof (cases "announce_all drv g fuel (Some i) c")
  case None
  then show ?thesis using assms by (auto simp: handle_syncstart_def Let_def split: if_splits)
next
  case (Some x)
  obtain q c1 where x: "x = (q, c1)" by fastforce
  have c1: "core_typed n c1" using typed_announce_all Some assms(2) unfolding x by blast
  have "core_typed n c2" if "release_all drv g fuel (Some i) c1 = Some c2" for c2
    using typed_release_all that c1 by blast
  then show ?thesis
    using assms Some x c1 by (cases q) (auto simp: handle_syncstart_def Let_def split: if_splits)
qed

lemma typed_join [typing]:
  assumes "join_group V i g m c = ((r, sg), c')" and "core_typed n c" and "i < n" shows "core_typed n c'"
proof (cases "c' = c")
  case False
  define j where "j = nat (g AND SYNC_DEVICE_MASK)"
  define f where "f = (if j = i then SYNC_MASTER else SYNC_SLAVE)"
  define c1 where "c1 = upd_adev i (\<lambda>a. a\<lparr>sync_flags := sync_flags a OR f\<rparr>) c"
  define m' where "m' = m AND (PCM_ENABLE_INPUT OR PCM_ENABLE_OUTPUT) AND ad_open_mode (ad_engine (load_adev i c1))"
  have "(w OR f) AND (SYNC_MASTER OR SYNC_SLAVE) = w OR f" if "w AND (SYNC_MASTER OR SYNC_SLAVE) = w" for w
    using that by (simp add: bit.conj_disj_distrib2 f_def SYNC_MASTER_def SYNC_SLAVE_def)
  then have c1: "core_typed n c1"
    unfolding c1_def using assms(2) by (intro typed_upd) (simp_all add: adev_typed_def)
  have j: "j < n" using assms False by (auto simp: join_group_def Let_def j_def core_typed_def table_size_def split: if_splits)
  have "m' AND (PCM_ENABLE_INPUT OR PCM_ENABLE_OUTPUT) = m'" by (simp add: m'_def ac_simps)
  then have attached: "core_typed n (upd_adev i (sync_attach V g m') c1)"
    using c1 j by (intro typed_upd)
      (auto simp: sync_attach_def Let_def adev_typed_def j_def upd_engine_def split: option.split)
  have link: "core_typed n (link_slave i j c2)" if "core_typed n c2" for c2
  proof -
    have "core_typed n (upd_adev i (\<lambda>a. a\<lparr>sync_next := sync_next (ac_engines c2 ! j)\<rparr>) c2)"
      using that j by (intro typed_upd) (auto simp: adev_typed_def core_typed_def engine_at_def)
    then show ?thesis
      using that assms(3) by (auto simp: link_slave_def adev_typed_def intro!: typed_upd)
  qed
  have "c' = upd_adev i (\<lambda>a. a\<lparr>sync_flags := 0\<rparr>) c1 \<or>
    c' = upd_adev i (upd_engine (\<lambda>s. s\<lparr>ad_go := False\<rparr>)) (link_slave i j (upd_adev i (sync_attach V g m') c1))"
    using assms(1) False
    by (auto simp: join_group_def Let_def j_def [symmetric] f_def [symmetric] c1_def [symmetric] m'_def [symmetric] split: if_splits)
  moreover have "core_typed n (upd_adev i (\<lambda>a. a\<lparr>sync_flags := 0\<rparr>) c1)"
    using c1 by (rule typed_upd) (simp add: adev_typed_def)
  moreover have "core_typed n (upd_adev i (upd_engine (\<lambda>s. s\<lparr>ad_go := False\<rparr>)) (link_slave i j (upd_adev i (sync_attach V g m') c1)))"
    using link [OF attached] by (rule typed_upd) simp
  ultimately show ?thesis by blast
qed (use assms in simp)

lemma typed_syncgroup [typing]:
  assumes "handle_syncgroup drv i g c = ((r, sg), c')" and "core_typed n c" and "i < n" shows "core_typed n c'"
proof -
  have "core_typed n (upd_adev i (\<lambda>a. a\<lparr>sync_next := None\<rparr>) (c\<lparr>ac_seed := w\<rparr>))" for w
    using assms(2) by (intro typed_upd) (simp_all add: adev_typed_def)
  then show ?thesis
    using assms by (auto simp: handle_syncgroup_def Let_def split: if_splits intro: typed_join)
qed

section \<open>Calls\<close>

definition typed_call :: "nat \<Rightarrow> ('g, 'h) call_result \<Rightarrow> bool" where
  "typed_call n R \<longleftrightarrow> (\<forall>r a. R = Some (r, a) \<longrightarrow> adev_typed n a)"

lemma typed_replies [intro!]:
  "adev_typed n a \<Longrightarrow> typed_call n (reply r x a s)" "adev_typed n a \<Longrightarrow> typed_call n (returns x a R)"
  "adev_typed n a \<Longrightarrow> typed_call n (fills f x a Q)" "adev_typed n a \<Longrightarrow> typed_call n (done_call x a T)"
  "adev_typed n a \<Longrightarrow> typed_call n (reject D e parm err x a)" "typed_call n None"
  by (auto simp: typed_call_def reply_def returns_def fills_def done_call_def reject_def bind_eq_Some_conv
      split: option.splits sum.splits)

lemma typed_needs [intro!]:
  "adev_typed n a \<Longrightarrow> typed_call n R \<Longrightarrow> typed_call n (needs D e x a R)"
  "adev_typed n a \<Longrightarrow> typed_call n R \<Longrightarrow> typed_call n (needs_quietly D x a R)"
  by (auto simp: needs_def needs_quietly_def)

lemma typed_by_method [intro!]:
  "adev_typed n a \<Longrightarrow> (\<And>x s. typed_call n (k x s)) \<Longrightarrow> typed_call n (by_method m cmd x a k)"
  by (auto simp: by_method_def split: option.split prod.split)

lemma typed_info_call: "adev_typed n a \<Longrightarrow> info_call V E dev nxt cmd x a = Some R \<Longrightarrow> typed_call n R"
  by (cases cmd) (auto simp: info_call_def Let_def split: if_splits option.split prod.split)

lemma typed_control_call: "adev_typed n a \<Longrightarrow> control_call V E fuel dev cmd x a = Some R \<Longrightarrow> typed_call n R"
  by (cases cmd) (auto simp: control_call_def set_stereo_def Let_def split: option.split prod.split)

lemma typed_touch [simp]: "adev_typed n (count_setting V w a) = adev_typed n a"
  by (simp add: count_setting_def)

lemma typed_volume:
  assumes "adev_typed n a"
  shows "typed_call n (play_volume V dev cmd x a)" "typed_call n (rec_volume V dev cmd x a)"
  using assms by (auto simp: play_volume_def rec_volume_def Let_def split: prod.split sum.split)

lemma typed_names:
  assumes "adev_typed n a"
  shows "adev_typed n (a\<lparr>ad_song_name := text_arg OSS_LONGNAME_SIZE x\<rparr>)" "adev_typed n (set_label (text_arg OSS_LABEL_SIZE x) a)"
  using assms
  by (auto simp: adev_typed_def set_label_def text_arg_def OSS_LONGNAME_SIZE_def OSS_LABEL_SIZE_def split: ioctl_arg.split)

lemma typed_routing_call: "adev_typed n a \<Longrightarrow> routing_call V dev cmd x a = Some R \<Longrightarrow> typed_call n R"
  by (cases cmd)
    (auto simp: routing_call_def typed_volume named_def typed_names recsrc_names_def recsrc_number_def Let_def
      split: option.split prod.split sum.split)

lemma typed_engine_call: "adev_typed n a \<Longrightarrow> typed_call n (engine_call V E fuel dev nxt cmd x a)"
  using typed_info_call typed_control_call typed_routing_call
  by (fastforce simp: engine_call_def split: option.split prod.split)

lemma typed_group_call:
  assumes "group_call drv fuel i cmd x c = Some (r, c')" and "core_typed n c" and "i < n" shows "core_typed n c'"
proof -
  have "adev_typed n a" if "engine_call V E fuel dev nxt cmd x (load_adev i c) = Some (q, a)" for V E dev nxt q a
    using typed_engine_call [OF typed_load [OF assms(2,3)]] that unfolding typed_call_def by blast
  then show ?thesis
    using assms
    by (auto simp: group_call_def Let_def split: if_splits prod.splits ioctl_arg.splits
        intro: typed_syncgroup typed_syncstart intro!: typed_store)
qed

lemma typed_mixer_call:
  assumes "mixer_call drv fuel i cmd x c = Some (r, c')" and "core_typed n c" and "i < n" shows "core_typed n c'"
proof -
  have st: "core_typed n (store_adev i ((load_adev i c)\<lparr>ad_engine := s\<rparr>) c)" for s
    using assms(2) by (intro typed_store) (auto intro: typed_load)
  show ?thesis
  proof (cases "\<exists>y c1. group_call drv fuel i cmd y c1 = Some (r, c') \<and> core_typed n c1")
    case True
    then show ?thesis using typed_group_call assms(3) by blast
  next
    case False
    have "group_call drv fuel i cmd y c \<noteq> Some (r, c')" for y using False assms(2) by blast
    moreover have "group_call drv fuel i cmd y (store_adev i ((load_adev i c)\<lparr>ad_engine := s\<rparr>) c) \<noteq> Some (r, c')" for y s
      using False st by blast
    ultimately show ?thesis
      using assms(1) st by (auto simp: mixer_call_def Let_def split: audio_cmd.splits if_splits prod.splits)
  qed
qed

lemma typed_ioctl [typing]:
  "oss_audio_ioctl drv fuel dev cmd x c = Some (r, c') \<Longrightarrow> core_typed n c \<Longrightarrow> core_typed n c'"
  unfolding oss_audio_ioctl_def
  by (auto split: if_splits elim: typed_with_engine intro: typed_mixer_call)

lemma typed_chpoll [typing]:
  assumes "oss_audio_chpoll drv dev ev c = Some (r, c')" and "core_typed n c" shows "core_typed n c'"
proof -
  have "core_typed n (store_adev (nat dev) ((load_adev (nat dev) c)\<lparr>ad_engine := s\<rparr>) c)" for s
    using assms(2) by (intro typed_store) (auto intro: typed_load)
  moreover have "core_typed n (store_adev (nat dev) (load_adev (nat dev) c) c)"
    using assms(2) by (intro typed_store) (auto intro: typed_load)
  ultimately show ?thesis using assms by (auto simp: oss_audio_chpoll_def Let_def bind_eq_Some_conv split: if_splits prod.splits)
qed

lemma typed_on_engine [typing]: "on_engine dev f c = Some c' \<Longrightarrow> core_typed n c \<Longrightarrow> core_typed n c'"
  by (auto simp: on_engine_def Let_def split: if_splits intro!: typed_store intro: typed_load)

lemma typed_step: "core_step drv fuel op c = Some c' \<Longrightarrow> core_typed n c \<Longrightarrow> core_typed n c'"
  by (cases op)
    (auto simp: core_step_def oss_audio_start_syncgroup_def split: if_splits
      intro: typed_open typed_release typed_ioctl typed_chpoll typed_on_engine typed_syncstart)

text \<open>C7: whatever the applications call and the drivers do, in any session the names and labels of the
  engines stay within their arrays, with room for the null that ends them, the links of the synchronisation groups
  stay within the table, and the flags and modes of the groups have no other bits.\<close>

theorem session_typed:
  assumes "core_run drv fuel ops c = Some c'" and "core_typed n c"
  shows "core_typed n c'"
  using assms
  by (induction ops arbitrary: c) (auto simp: bind_eq_Some_conv dest: typed_step)

definition toy_session :: "core_op list" where
  "toy_session =
     [Close_Engine 1 (Some 2), Open_Engine 1 (Some 2) False (Some ''a program with a long name'', 7) 0,
      Call 1 SETLABEL (Text_Arg ''a label of seventeen''), Call 1 DSP_SYNCGROUP (Group_Arg \<lparr>sg_id = 0x10000, sg_mode = PCM_ENABLE_OUTPUT\<rparr>)]"

lemma toy_session_ends: "\<not> Option.is_none (core_run (\<lambda>i. toy_device) 2 toy_session toy_group)"
  by code_simp

lemma session_typed_witness: "core_typed 2 (the (core_run (\<lambda>i. toy_device) 2 toy_session toy_group))"
proof (rule session_typed)
  show "core_run (\<lambda>i. toy_device) 2 toy_session toy_group = Some (the (core_run (\<lambda>i. toy_device) 2 toy_session toy_group))"
    using toy_session_ends by (auto simp: Option.is_none_def)
  have "core_typed 2 toy_group \<longleftrightarrow> list_all (adev_typed 2) (ac_engines toy_group)"
    by (auto simp: core_typed_def list_all_length table_size_def engine_at_def toy_group_def)
  then show "core_typed 2 toy_group"
    by (simp add: toy_group_def toy_adev_def adev_typed_def OSS_LABEL_SIZE_def OSS_LONGNAME_SIZE_def SYNC_MASTER_def SYNC_SLAVE_def
        SYNC_DEVICE_MASK_def PCM_ENABLE_INPUT_def PCM_ENABLE_OUTPUT_def)
qed

end
