(* ===== verification/Audio_Owner_Laws.thy ===== *)
theory Audio_Owner_Laws
  imports Audio_Files_Laws
begin

text \<open>
  Only opening and closing an engine changes the mode in which it is open, so over any session an
  engine that is open is not opened again before it is closed. The lemmas go through every operation of
  the audio core; \<open>keeps_mode\<close> says that what it returns has the mode.
\<close>

section \<open>Drivers that leave the mode alone\<close>

definition mode_kept :: "(('g, 'h) engine \<Rightarrow> ('g, 'h) engine) \<Rightarrow> bool" where
  "mode_kept f \<longleftrightarrow> (\<forall>s. ad_open_mode (f s) = ad_open_mode s)"

definition mode_kept2 :: "(('g, 'h) engine \<Rightarrow> 'a \<times> ('g, 'h) engine) \<Rightarrow> bool" where
  "mode_kept2 f \<longleftrightarrow> (\<forall>s. ad_open_mode (snd (f s)) = ad_open_mode s)"

definition polite :: "('g, 'h) audio_env \<Rightarrow> bool" where
  "polite E \<longleftrightarrow>
     (\<forall>f. a_output_block E = Some f \<longrightarrow> (\<forall>p n z i. mode_kept (f p n z i))) \<and>
     (\<forall>f. a_start_input E = Some f \<longrightarrow> (\<forall>p n z i. mode_kept (f p n z i))) \<and>
     (\<forall>z n. mode_kept2 (a_prepare_for_output E z n) \<and> mode_kept2 (a_prepare_for_input E z n)) \<and>
     mode_kept (a_halt_io E) \<and>
     (\<forall>f. a_halt_input E = Some f \<longrightarrow> mode_kept f) \<and> (\<forall>f. a_halt_output E = Some f \<longrightarrow> mode_kept f) \<and>
     (\<forall>f. a_trigger E = Some f \<longrightarrow> (\<forall>b. mode_kept (f b))) \<and>
     (\<forall>r. mode_kept2 (a_set_rate E r)) \<and> (\<forall>f. mode_kept2 (a_set_format E f)) \<and> (\<forall>ch. mode_kept2 (a_set_channels E ch)) \<and>
     (\<forall>f. a_check_input E = Some f \<longrightarrow> mode_kept2 f) \<and> (\<forall>f. a_check_output E = Some f \<longrightarrow> mode_kept2 f) \<and>
     (\<forall>f D. a_setup_fragments E = Some f \<longrightarrow> mode_kept (f D)) \<and>
     (\<forall>bs p z l. mode_kept2 (a_device_write E bs p z l)) \<and>
     (\<forall>D. mode_kept (a_callback E D)) \<and> (\<forall>D t. mode_kept2 (a_sleep E D t)) \<and> (\<forall>D. mode_kept (a_wakeup E D))"

definition keeps_mode :: "u32 \<Rightarrow> ('a \<times> ('g, 'h) engine) option \<Rightarrow> bool" where
  "keeps_mode m R \<longleftrightarrow> (\<forall>r s. R = Some (r, s) \<longrightarrow> ad_open_mode s = m)"

definition has_mode :: "u32 \<Rightarrow> ('g, 'h) engine option \<Rightarrow> bool" where
  "has_mode m R \<longleftrightarrow> (\<forall>s. R = Some s \<longrightarrow> ad_open_mode s = m)"

named_theorems mode \<open>operations that keep the mode of an engine\<close>

lemma keeps_mode_simps [simp]:
  "keeps_mode m None" "keeps_mode m (Some (r, s)) \<longleftrightarrow> ad_open_mode s = m"
  "keeps_mode m (fail e s) \<longleftrightarrow> ad_open_mode s = m" "keeps_mode m (done_with x s) \<longleftrightarrow> ad_open_mode s = m"
  "has_mode m None" "has_mode m (Some s) \<longleftrightarrow> ad_open_mode s = m"
  by (simp_all add: keeps_mode_def has_mode_def fail_def done_with_def)

lemma keeps_mode_and [intro!]:
  assumes "keeps_mode m R" and "\<And>x s. ad_open_mode s = m \<Longrightarrow> keeps_mode m (f x s)"
  shows "keeps_mode m (audio_and R f)"
  using assms by (auto simp: audio_and_def keeps_mode_def split: option.split sum.split)

lemma keeps_mode_bind [intro!]:
  assumes "has_mode m X" and "\<And>s. ad_open_mode s = m \<Longrightarrow> keeps_mode m (f s)"
  shows "keeps_mode m (Option.bind X f)"
  using assms by (cases X) auto

lemma has_mode_bind [intro!]:
  assumes "has_mode m X" and "\<And>s. ad_open_mode s = m \<Longrightarrow> has_mode m (f s)"
  shows "has_mode m (Option.bind X f)"
  using assms by (cases X) auto

lemma mode_bind_gen:
  "(\<And>x. keeps_mode m (f x)) \<Longrightarrow> keeps_mode m (Option.bind X f)" "(\<And>x. has_mode m (g x)) \<Longrightarrow> has_mode m (Option.bind X g)"
  by (cases X; simp)+

lemmas mode_bind_any =
  mode_bind_gen [where X = "X :: int option" for X] mode_bind_gen [where X = "X :: 'g dmap option" for X]
  mode_bind_gen [where X = "X :: (int \<times> int) option" for X] mode_bind_gen [where X = "X :: u64 option" for X]
  mode_bind_gen [where X = "X :: bytes option" for X] mode_bind_gen [where X = "X :: audio_buf_info option" for X]

lemma mode_bind_pair:
  "keeps_mode m Y \<Longrightarrow> (\<And>r s. ad_open_mode s = m \<Longrightarrow> keeps_mode m (f (r, s))) \<Longrightarrow> keeps_mode m (Option.bind Y f)"
  "keeps_mode m Y \<Longrightarrow> (\<And>r s. ad_open_mode s = m \<Longrightarrow> has_mode m (g (r, s))) \<Longrightarrow> has_mode m (Option.bind Y g)"
  by (cases Y; auto)+

lemma mode_map:
  "keeps_mode m Y \<Longrightarrow> has_mode m (map_option snd Y)"
  "has_mode m X \<Longrightarrow> keeps_mode m (map_option (Pair y) X)"
  "has_mode m X \<Longrightarrow> (\<And>s. ad_open_mode (h s) = ad_open_mode s) \<Longrightarrow> has_mode m (map_option h X)"
  "(\<And>x. ad_open_mode (h' x) = m) \<Longrightarrow> has_mode m (map_option h' Z)"
  "(\<And>x. ad_open_mode (snd (k x)) = m) \<Longrightarrow> keeps_mode m (map_option k Z)"
  by (auto simp: keeps_mode_def has_mode_def) (metis snd_conv)

section \<open>The methods\<close>

lemma polite_methods [simp]:
  assumes "polite E"
  shows "a_output_block E = Some f \<Longrightarrow> ad_open_mode (f p n z i s) = ad_open_mode s"
    "a_start_input E = Some f \<Longrightarrow> ad_open_mode (f p n z i s) = ad_open_mode s"
    "ad_open_mode (snd (a_prepare_for_output E y n s)) = ad_open_mode s"
    "ad_open_mode (snd (a_prepare_for_input E y n s)) = ad_open_mode s"
    "ad_open_mode (a_halt_io E s) = ad_open_mode s"
    "a_halt_input E = Some h \<Longrightarrow> ad_open_mode (h s) = ad_open_mode s"
    "a_halt_output E = Some h \<Longrightarrow> ad_open_mode (h s) = ad_open_mode s"
    "a_trigger E = Some t \<Longrightarrow> ad_open_mode (t b s) = ad_open_mode s"
    "ad_open_mode (snd (a_set_rate E r s)) = ad_open_mode s"
    "ad_open_mode (snd (a_set_format E fm s)) = ad_open_mode s"
    "ad_open_mode (snd (a_set_channels E ch s)) = ad_open_mode s"
    "a_check_input E = Some ci \<Longrightarrow> ad_open_mode (snd (ci s)) = ad_open_mode s"
    "a_check_output E = Some ci \<Longrightarrow> ad_open_mode (snd (ci s)) = ad_open_mode s"
    "a_setup_fragments E = Some sf \<Longrightarrow> ad_open_mode (sf D s) = ad_open_mode s"
    "ad_open_mode (snd (a_device_write E bs q w l s)) = ad_open_mode s"
    "ad_open_mode (a_callback E D s) = ad_open_mode s"
    "ad_open_mode (snd (a_sleep E D tm s)) = ad_open_mode s"
    "ad_open_mode (a_wakeup E D s) = ad_open_mode s"
  using assms by (simp_all add: polite_def mode_kept_def mode_kept2_def)

text \<open>The same for a result that was split.\<close>

lemma polite_results:
  assumes "polite E"
  shows "a_prepare_for_output E y n s = (r1, s') \<Longrightarrow> ad_open_mode s' = ad_open_mode s"
    "a_prepare_for_input E y n s = (r1, s') \<Longrightarrow> ad_open_mode s' = ad_open_mode s"
    "a_set_rate E r s = (r2, s') \<Longrightarrow> ad_open_mode s' = ad_open_mode s"
    "a_set_format E fm s = (r3, s') \<Longrightarrow> ad_open_mode s' = ad_open_mode s"
    "a_set_channels E ch s = (r4, s') \<Longrightarrow> ad_open_mode s' = ad_open_mode s"
    "a_check_input E = Some ci \<Longrightarrow> ci s = (r5, s') \<Longrightarrow> ad_open_mode s' = ad_open_mode s"
    "a_check_output E = Some ci \<Longrightarrow> ci s = (r5, s') \<Longrightarrow> ad_open_mode s' = ad_open_mode s"
    "a_device_write E bs q w l s = (r6, s') \<Longrightarrow> ad_open_mode s' = ad_open_mode s"
    "a_sleep E D tm s = (r7, s') \<Longrightarrow> ad_open_mode s' = ad_open_mode s"
  using polite_methods [OF assms] by (metis snd_conv)+

section \<open>Starting and resetting\<close>

lemma mode_bump [simp]: "ad_open_mode (bump_seed s) = ad_open_mode s"
  by (simp add: bump_seed_def)

lemma mode_launch [simp]:
  assumes "polite E"
  shows "ad_open_mode (snd (launch_output E s)) = ad_open_mode s" "ad_open_mode (snd (launch_input E s)) = ad_open_mode s"
proof -
  have st: "ad_open_mode (start_device m D s) = ad_open_mode s" if "m = a_output_block E \<or> m = a_start_input E" for m D s
    using that assms by (auto simp: start_device_def Let_def split: option.split)
  have tr: "ad_open_mode (trigger_device E en s) = ad_open_mode s" for en s
    using assms by (simp add: trigger_device_def Let_def split: option.split)
  show "ad_open_mode (snd (launch_output E s)) = ad_open_mode s" "ad_open_mode (snd (launch_input E s)) = ad_open_mode s"
    by (simp_all add: launch_output_def launch_input_def Let_def tr st)
qed

lemma mode_reset [simp]:
  assumes "polite E"
  shows "ad_open_mode (audio_reset_input E s) = ad_open_mode s" "ad_open_mode (audio_reset_output E s) = ad_open_mode s"
  using assms
  by (auto simp: audio_reset_input_def audio_reset_output_def reset_dir_def halt_method_def Let_def split: option.split)

lemma mode_set_error [mode]: "ad_open_mode s = m \<Longrightarrow> has_mode m (oss_audio_set_error D n parm s)"
  unfolding oss_audio_set_error_def by (rule mode_map) simp

lemma mode_reset_adev [mode]:
  assumes "polite E" and "ad_open_mode s = m" shows "has_mode m (audio_reset_adev E s)"
proof -
  define s1 where "s1 = (bump_seed s)\<lparr>ad_go := True, enable_bits := ad_open_mode (bump_seed s)\<rparr>"
  have s1: "ad_open_mode s1 = m" using assms(2) by (simp add: s1_def)
  have halt: "ad_open_mode (halt_if_running f D t) = ad_open_mode t" if "\<And>t. ad_open_mode (f t) = ad_open_mode t" for f D t
    using that by (simp add: halt_if_running_def)
  have out: "has_mode m (map_option (\<lambda>b. upd_dmap Play (\<lambda>_. d\<lparr>dm_dmabuf := Some b\<rparr>) s1) z)" for d z
    by (rule mode_map) (simp add: s1)
  show ?thesis
    unfolding audio_reset_adev_def Let_def s1_def [symmetric]
    using assms s1 out by (auto simp: Let_def halt split: option.split)
qed

lemma mode_post [mode]: "polite E \<Longrightarrow> ad_open_mode s = m \<Longrightarrow> has_mode m (oss_audio_post E s)"
  unfolding oss_audio_post_def Let_def by (auto intro: mode_map)

lemma mode_sync_loop: "polite E \<Longrightarrow> ad_open_mode s = m \<Longrightarrow> keeps_mode m (sync_loop E n uc s)"
proof (induction n arbitrary: s)
  case (Suc n)
  show ?case
    unfolding sync_loop.simps Let_def
    using Suc by (auto intro!: mode_bind_any split: prod.split simp: polite_results)
qed simp

lemma mode_drain: "polite E \<Longrightarrow> ad_open_mode s = m \<Longrightarrow> has_mode m (drain_device E fuel n s)"
proof (induction fuel arbitrary: s n)
  case (Suc fuel)
  show ?case
    unfolding drain_device.simps Let_def
    using Suc by (auto intro!: mode_bind_any split: option.split)
qed simp

lemma mode_sync [mode]: "polite E \<Longrightarrow> ad_open_mode s = m \<Longrightarrow> has_mode m (oss_audio_sync E fuel s)"
  unfolding oss_audio_sync_def Let_def
  by (auto intro!: mode_bind_pair(2) mode_sync_loop mode_map(3) mode_drain mode_post)

section \<open>Parameters and preparation\<close>

lemma mode_cook [simp]: "ad_open_mode (cook D s) = ad_open_mode s"
  by (simp add: cook_def)

lemma mode_set_neutral [simp]: "ad_open_mode (set_neutral fmt s) = ad_open_mode s"
  by (simp add: set_neutral_def Let_def)

lemma mode_device_format [simp]: "polite E \<Longrightarrow> ad_open_mode (device_format E fmt ret fm s) = ad_open_mode s"
  by (auto simp: device_format_def polite_results split: prod.split)

lemma mode_check_ac3 [mode]: "ad_open_mode s = m \<Longrightarrow> keeps_mode m (check_ac3 fmt s)"
  unfolding check_ac3_def Let_def by (auto intro!: mode_set_error)

lemma mode_set_format [mode]: "polite E \<Longrightarrow> ad_open_mode s = m \<Longrightarrow> keeps_mode m (oss_audio_set_format E dev fmt fm s)"
  unfolding oss_audio_set_format_def Let_def
  by (auto intro!: mode_check_ac3 simp: polite_results split: prod.split)

lemma mode_set_channels [mode]: "polite E \<Longrightarrow> ad_open_mode s = m \<Longrightarrow> keeps_mode m (oss_audio_set_channels E dev ch s)"
  unfolding oss_audio_set_channels_def Let_def
  by (auto simp: polite_results split: prod.split)

lemma mode_set_rate [mode]: "polite E \<Longrightarrow> ad_open_mode s = m \<Longrightarrow> keeps_mode m (oss_audio_set_rate E dev r s)"
  unfolding oss_audio_set_rate_def Let_def
  by (auto simp: polite_results split: prod.split sum.split)

lemma mode_setup_fragments [mode]:
  assumes "polite E" and "ad_open_mode s = m" shows "has_mode m (setup_fragments E D s)"
proof -
  have m1: "ad_open_mode (block_limits t) = ad_open_mode t" for t :: "('a, 'b) engine" by (simp add: block_limits_def)
  have m2: "ad_open_mode (case a_setup_fragments E of None \<Rightarrow> t | Some f \<Rightarrow> f D' t) = ad_open_mode t" for t D'
    using assms(1) by (simp split: option.split)
  show ?thesis
    unfolding setup_fragments_def Let_def
    by (auto intro!: mode_bind_any mode_map(4) split: prod.split simp: m1 m2 assms(2))
qed

lemma mode_mark_cooked [simp]: "ad_open_mode (mark_cooked E D s) = ad_open_mode s"
  by (simp add: mark_cooked_def Let_def)

lemma mode_setup_conversions [mode]: "ad_open_mode s = m \<Longrightarrow> keeps_mode m (setup_conversions E D s)"
  unfolding setup_conversions_def Let_def by (auto split: option.split prod.split sum.split)

lemma mode_set_rates [mode]: "ad_open_mode s = m \<Longrightarrow> has_mode m (set_rates D s)"
  unfolding set_rates_def by (auto intro!: mode_bind_any)

lemma mode_prepare [mode]: "polite E \<Longrightarrow> ad_open_mode s = m \<Longrightarrow> keeps_mode m (prepare E D s)"
  unfolding prepare_def Let_def
  by (auto intro!: mode_setup_conversions mode_set_rates mode_setup_fragments mode_bind_any
      simp: polite_results split: prod.split sum.split)

lemma mode_prepare_both [mode]:
  "polite E \<Longrightarrow> ad_open_mode s = m \<Longrightarrow> keeps_mode m (prepare_output E s)"
  "polite E \<Longrightarrow> ad_open_mode s = m \<Longrightarrow> keeps_mode m (prepare_input E s)"
  by (simp_all add: prepare_output_def prepare_input_def mode_prepare)

section \<open>Writing\<close>

lemma mode_space [mode]: "ad_open_mode s = m \<Longrightarrow> keeps_mode m (audio_space_in_queue s)"
  unfolding audio_space_in_queue_def Let_def by (auto intro!: mode_map(5))

lemma mode_space_pairs [mode]:
  "ad_open_mode s = m \<Longrightarrow> keeps_mode m (map_option (\<lambda>(len, s). (Inr len, s)) (audio_space_in_queue s))"
  using mode_space [of s m] by (auto simp: keeps_mode_def)

lemma mode_no_space [mode]: "polite E \<Longrightarrow> ad_open_mode s = m \<Longrightarrow> keeps_mode m (no_space E s)"
  unfolding no_space_def by (auto intro!: mode_set_error)

lemma mode_wait_output [mode]: "polite E \<Longrightarrow> ad_open_mode s = m \<Longrightarrow> keeps_mode m (wait_output E len s)"
  unfolding wait_output_def Let_def
  by (auto intro!: mode_bind_any mode_space_pairs simp: polite_results split: prod.split option.split sum.split bool.split)

lemma mode_space_loop [mode]: "polite E \<Longrightarrow> ad_open_mode s = m \<Longrightarrow> keeps_mode m (space_loop E k n len s)"
proof (induction k arbitrary: n len s)
  case (Suc k)
  then show ?case by (auto intro!: mode_wait_output mode_no_space)
qed simp

lemma mode_find_output_space [mode]: "polite E \<Longrightarrow> ad_open_mode s = m \<Longrightarrow> keeps_mode m (find_output_space E s)"
  unfolding find_output_space_def Let_def
  by (auto intro!: mode_bind_pair(1) mode_bind_any mode_space mode_space_loop)

lemma mode_move_wrpointer [mode]: "polite E \<Longrightarrow> ad_open_mode s = m \<Longrightarrow> keeps_mode m (move_wrpointer E len s)"
proof -
  have "keeps_mode k (Some z) \<longleftrightarrow> ad_open_mode (snd z) = k" for k :: u32 and z :: "unit oss_result \<times> ('a, 'b) engine"
    by (cases z) simp
  then show "polite E \<Longrightarrow> ad_open_mode s = m \<Longrightarrow> keeps_mode m (move_wrpointer E len s)"
    by (simp add: move_wrpointer_def Let_def)
qed

lemma mode_put_bytes [mode]: "ad_open_mode s = m \<Longrightarrow> has_mode m (put_bytes offs bs s)"
  unfolding put_bytes_def Let_def by (rule mode_map) simp

lemma mode_copy_step [mode]:
  assumes "polite E" and "ad_open_mode s = m" shows "keeps_mode m (copy_step E buf s)"
proof -
  have st: "ad_open_mode (store_tmp_data bs t) = ad_open_mode t" for bs and t :: "('a, 'b) engine" by (simp add: store_tmp_data_def)
  have "keeps_mode m (find_output_space E s)" using assms by (rule mode_find_output_space)
  then show ?thesis
    unfolding copy_step_def using assms(1)
    by (auto simp: st Let_def split: option.split sum.split prod.split intro!: mode_put_bytes mode_move_wrpointer)
qed

lemma mode_write_copy [mode]: "polite E \<Longrightarrow> ad_open_mode s = m \<Longrightarrow> keeps_mode m (write_copy E buf s)"
proof (induction E buf s rule: write_copy.induct)
  case (1 E buf s)
  have k: "keeps_mode m (copy_step E buf s)" using 1(2,3) by (rule mode_copy_step)
  show ?case
  proof (cases "copy_step E buf s")
    case None
    then show ?thesis using 1(3) by (simp add: write_copy.simps [of E buf])
  next
    case (Some x)
    obtain q t where x: "x = (q, t)" by fastforce
    then have "ad_open_mode t = m" using k Some by simp
    then show ?thesis using 1 Some x by (cases q) (auto simp: write_copy.simps [of E buf])
  qed
qed

lemma mode_finish [mode]: "keeps_mode m R \<Longrightarrow> keeps_mode m (finish l uio R)"
  by (auto simp: finish_def keeps_mode_def)

lemma mode_converted [mode]: "ad_open_mode s = m \<Longrightarrow> keeps_mode m (converted E l b1 b2 s)"
  unfolding converted_def Let_def by (auto intro!: mode_map(5) split: option.split prod.split sum.split)

lemma mode_write_raw [mode]: "polite E \<Longrightarrow> ad_open_mode s = m \<Longrightarrow> keeps_mode m (write_raw E offs spc l uio s)"
  unfolding write_raw_def Let_def
  by (auto intro!: mode_bind_any mode_finish mode_move_wrpointer split: option.split)

lemma mode_write_device [mode]:
  assumes "polite E" and "ad_open_mode s = m" shows "keeps_mode m (write_device E offs spc l uio s)"
proof -
  have t: "ad_open_mode (need_tmpbuf E s) = m" using assms(2) by (simp add: need_tmpbuf_def)
  have dev: "ad_open_mode u = m" if "a_device_write E bs offs spc z (need_tmpbuf E s) = (q, u)" for bs z q u
    using polite_results(8) [OF assms(1) that] t by simp
  define z where "z = (let l = (if spc sdiv 2 < l then spc sdiv 2 else l)
    in if int TMP_CONVERT_BUF_SIZE div 2 < l then int TMP_CONVERT_BUF_SIZE div 2 else l)"
  have w: "write_device E offs spc l uio s =
    (if z < 0 then None
     else case uiomove z uio of None \<Rightarrow> Some (Return (Inl OSS_EFAULT), need_tmpbuf E s)
     | Some (bs, uio) \<Rightarrow>
         if poke 0 bs (tmpbuf1 (dm_cnv (dmap_of Play (need_tmpbuf E s)))) = None then None
         else case a_device_write E bs offs spc z (need_tmpbuf E s) of
           (Inl e, s) \<Rightarrow> Some (Return (Inl e), s)
         | (Inr (l, l2), s) \<Rightarrow> finish l uio (move_wrpointer E l2 s))"
    by (simp only: write_device_def Let_def z_def)
  show ?thesis
  proof (cases "uiomove z uio")
    case None
    then show ?thesis using t by (simp add: w)
  next
    case (Some x)
    obtain bs rest q v where x: "x = (bs, rest)" "a_device_write E bs offs spc z (need_tmpbuf E s) = (q, v)" by fastforce
    then have "ad_open_mode v = m" using dev by blast
    then show ?thesis
      using Some x by (cases q) (auto simp: w intro!: mode_finish mode_move_wrpointer assms(1) split: prod.split)
  qed
qed

lemma mode_write_converted [mode]:
  assumes "polite E" and "ad_open_mode s = m" shows "keeps_mode m (write_converted E count c spc l uio s)"
proof -
  have k: "keeps_mode m (audio_and (converted E z b1 b2 s) (write_copy E))" for z b1 b2
    using assms by (auto intro!: mode_converted mode_write_copy)
  then have "ad_open_mode t = m" if "audio_and (converted E z b1 b2 s) (write_copy E) = Some (q, t)" for z b1 b2 q t
    using that unfolding keeps_mode_def by blast
  then show ?thesis
    unfolding write_converted_def Let_def keeps_mode_def
    by (auto split: option.splits prod.splits sum.splits if_splits)
qed

lemma mode_write_round [mode]:
  assumes "polite E" and "ad_open_mode s = m" shows "keeps_mode m (write_round E count c uio s)"
proof -
  have "keeps_mode m (find_output_space E s)" using assms by (rule mode_find_output_space)
  then show ?thesis
    unfolding write_round_def Let_def using assms(1)
    by (auto intro: mode_write_converted mode_write_device mode_write_raw split: option.split prod.split sum.split)
qed

lemma mode_write_rounds [mode]: "polite E \<Longrightarrow> ad_open_mode s = m \<Longrightarrow> keeps_mode m (write_rounds E count c tm uio s)"
proof (induction E count c tm uio s rule: write_rounds.induct)
  case (1 E count c tm uio s)
  have k: "keeps_mode m (write_round E count c uio s)" using 1(2,3) by (rule mode_write_round)
  show ?case
  proof (cases "write_round E count c uio s")
    case None
    then show ?thesis using 1(3) by (simp add: write_rounds.simps [of E count c])
  next
    case (Some x)
    obtain q t where x: "x = (q, t)" by fastforce
    then have "ad_open_mode t = m" using k Some by simp
    then show ?thesis using 1 Some x by (cases q) (auto simp: write_rounds.simps [of E count c])
  qed
qed

lemma mode_flush [mode]: "polite E \<Longrightarrow> ad_open_mode s = m \<Longrightarrow> keeps_mode m (flush_leftover E s)"
  unfolding flush_leftover_def Let_def store_tmp_data_def by (auto intro!: mode_write_copy)

lemma mode_set_nonblock [simp]: "ad_open_mode (set_nonblock nb s) = ad_open_mode s"
  by (simp add: set_nonblock_def split: option.split)

lemma mode_write [mode]: "polite E \<Longrightarrow> ad_open_mode s = m \<Longrightarrow> keeps_mode m (oss_audio_write E dev nb uio n s)"
  unfolding oss_audio_write_def start_write_def Let_def
  by (auto intro!: mode_prepare_both mode_flush mode_write_rounds)

section \<open>Reading\<close>

lemma mode_get_input_pointer [mode]: "ad_open_mode s = m \<Longrightarrow> keeps_mode m (get_input_pointer E adj s)"
  unfolding get_input_pointer_def Let_def by (auto intro!: mode_bind_any split: option.split)

lemma mode_adjust_input [mode]: "ad_open_mode s = m \<Longrightarrow> has_mode m (adjust_input E s)"
  unfolding adjust_input_def by (auto intro!: mode_map(1) mode_get_input_pointer)

lemma mode_wait_input [mode]:
  assumes "polite E" and "ad_open_mode s = m" shows "keeps_mode m (wait_input E n s)"
proof -
  have "keeps_mode m (case a_sleep E Rec t s of
      ((False, sig), s) \<Rightarrow>
        let s = s\<lparr>timeout_count := timeout_count s + 1\<rparr>
        in (case a_check_input E of None \<Rightarrow> fail OSS_EIO s
            | Some f \<Rightarrow> (case f s of (Inl e, s) \<Rightarrow> fail e s | (Inr u, s) \<Rightarrow> done_with n s))
    | ((True, sig), s) \<Rightarrow> if sig then fail OSS_EINTR s else done_with (input_count s) s)" for t
  proof -
    obtain ok sig u where u: "a_sleep E Rec t s = ((ok, sig), u)" by (metis prod.exhaust)
    then have "ad_open_mode u = m" using polite_results(9) [OF assms(1) u] assms(2) by simp
    then show ?thesis
      using u polite_results(6) [OF assms(1)] by (cases ok) (auto simp: Let_def split: option.split prod.split sum.split)
  qed
  then show ?thesis unfolding wait_input_def by (rule mode_bind_any)
qed

lemma mode_data_loop [mode]: "polite E \<Longrightarrow> ad_open_mode s = m \<Longrightarrow> keeps_mode m (data_loop E k lim n s)"
proof (induction k arbitrary: n s)
  case (Suc k)
  then show ?case by (auto intro!: mode_wait_input)
qed simp

lemma mode_find_raw_input [mode]: "polite E \<Longrightarrow> ad_open_mode s = m \<Longrightarrow> keeps_mode m (find_raw_input_space E s)"
  unfolding find_raw_input_space_def Let_def
  by (auto intro!: mode_adjust_input mode_data_loop mode_map(5))

lemma mode_convert_input [mode]: "ad_open_mode s = m \<Longrightarrow> keeps_mode m (convert_input E l b1 b2 s)"
  unfolding convert_input_def by (auto split: option.split prod.split sum.split)

lemma mode_find_input [mode]:
  assumes "polite E" and "ad_open_mode s = m" shows "keeps_mode m (find_input_space E s)"
proof -
  have "keeps_mode m (find_converted E s)"
    unfolding find_converted_def Let_def using assms
    by (auto intro!: mode_find_raw_input mode_convert_input simp: move_raw_rdpointer_def split: option.split)
  then show ?thesis unfolding find_input_space_def using assms by (auto intro!: mode_find_raw_input)
qed

lemma mode_move_rdpointer [simp]: "ad_open_mode (move_rdpointer len s) = ad_open_mode s"
  by (simp add: move_rdpointer_def move_raw_rdpointer_def Let_def)

lemma mode_read_round [mode]: "polite E \<Longrightarrow> ad_open_mode s = m \<Longrightarrow> keeps_mode m (read_round E c s)"
  unfolding read_round_def Let_def by (auto intro!: mode_find_input mode_map(5))

lemma mode_read_rounds [mode]: "polite E \<Longrightarrow> ad_open_mode s = m \<Longrightarrow> keeps_mode m (read_rounds E n count c out s)"
proof (induction n arbitrary: c out s)
  case (Suc n)
  then have k: "keeps_mode m (read_round E c s)" by (intro mode_read_round)
  show ?case
  proof (cases "read_round E c s")
    case None
    then show ?thesis using Suc.prems by simp
  next
    case (Some x)
    obtain q t where x: "x = (q, t)" by fastforce
    then have "ad_open_mode t = m" using k Some by simp
    then show ?thesis using Suc Some x by (cases q) auto
  qed
qed simp

lemma mode_read [mode]: "polite E \<Longrightarrow> ad_open_mode s = m \<Longrightarrow> keeps_mode m (oss_audio_read E dev nb n s)"
  unfolding oss_audio_read_def start_read_def Let_def
  by (auto intro!: mode_prepare_both mode_read_rounds)

section \<open>Interrupts\<close>

lemma mode_wake [simp]:
  "polite E \<Longrightarrow> ad_open_mode (wake E D s) = ad_open_mode s" "polite E \<Longrightarrow> ad_open_mode (callback E D s) = ad_open_mode s"
  by (simp_all add: wake_def callback_def)

lemma mode_next [mode]:
  assumes "polite E" and "ad_open_mode s = m"
  shows "has_mode m (start_next E s)" "has_mode m (output_next E s)"
  using assms unfolding start_next_def output_next_def Let_def
  by (auto intro!: mode_map(4) split: option.split)

lemma mode_do_intr [mode]:
  assumes "polite E" and "ad_open_mode s = m"
  shows "has_mode m (do_inputintr E fl s)" "has_mode m (do_outputintr E fl s)"
  using assms unfolding do_inputintr_def do_outputintr_def Let_def
  by (auto intro!: mode_bind_any mode_bind_pair(2) mode_space mode_next)

lemma mode_catch_up:
  assumes "polite E"
  shows "ad_open_mode s = m \<Longrightarrow> has_mode m (input_catch_up E fl pos n s)" "ad_open_mode s = m \<Longrightarrow> has_mode m (output_catch_up E fl pos n s)"
  using assms by (induction n arbitrary: s) (auto intro!: mode_bind_any mode_do_intr)

lemma mode_intr [mode]:
  assumes "polite E" and "ad_open_mode s = m"
  shows "has_mode m (audio_inputintr E dev fl s)" "has_mode m (audio_outputintr E dev fl s)"
  using assms unfolding audio_inputintr_def audio_outputintr_def Let_def
  by (auto intro!: mode_bind_any mode_do_intr mode_catch_up split: option.split)

section \<open>Queries\<close>

lemma mode_get_ospace [mode]:
  assumes "polite E" and "ad_open_mode s = m" shows "keeps_mode m (get_ospace E s)"
  unfolding get_ospace_def Let_def using assms
  by (auto intro!: mode_bind_any mode_bind_pair(1) mode_space mode_set_error mode_setup_fragments mode_map(1,5) mode_prepare_both)

lemma mode_get_ispace [mode]:
  assumes "polite E" and "ad_open_mode s = m" shows "keeps_mode m (get_ispace E s)"
proof -
  have "keeps_mode m (idle_input fs t)" if "ad_open_mode t = m" for fs t
    unfolding idle_input_def Let_def using that by (auto intro!: mode_map(2) mode_set_error)
  then show ?thesis
    unfolding get_ispace_def Let_def using assms
    by (auto intro!: mode_bind_any mode_bind_pair(1) mode_set_error mode_setup_fragments mode_prepare_both)
qed

lemma mode_positions [mode]:
  assumes "ad_open_mode s = m"
  shows "keeps_mode m (get_optr E s)" "keeps_mode m (get_iptr E s)" "keeps_mode m (get_long_optr E s)" "keeps_mode m (get_long_iptr E s)"
proof -
  have "keeps_mode m (map_option (\<lambda>(i, d). (i, upd_dmap D (\<lambda>_. d) t)) z)" if "ad_open_mode t = m" for D t z
    using that by (auto intro!: mode_map(5))
  then show "keeps_mode m (get_optr E s)" "keeps_mode m (get_iptr E s)" "keeps_mode m (get_long_optr E s)" "keeps_mode m (get_long_iptr E s)"
    using assms unfolding get_optr_def get_iptr_def get_long_optr_def get_long_iptr_def Let_def
    by (auto intro!: mode_bind_any mode_bind_pair(1) mode_get_input_pointer mode_map(5))
qed

lemma mode_getblksize [mode]:
  assumes "polite E" and "ad_open_mode s = m" shows "keeps_mode m (getblksize E s)"
proof -
  have "keeps_mode m (map_option (\<lambda>s. (fragment_size (dmap_of D s), s)) (setup_fragments E D t))" if "ad_open_mode t = m" for D t
    using mode_setup_fragments [OF assms(1) that] by (auto simp: keeps_mode_def has_mode_def)
  then show ?thesis unfolding getblksize_def Let_def using assms(2) by (auto intro!: mode_bind_pair(1))
qed

section \<open>Calls on an engine\<close>

definition polite_method :: "('g, 'h) ioctl_method \<Rightarrow> bool" where
  "polite_method f \<longleftrightarrow> (\<forall>cmd x. mode_kept2 (f cmd x))"

definition polite_driver :: "('g, 'h) driver \<Rightarrow> bool" where
  "polite_driver V \<longleftrightarrow>
     polite (d_audio V) \<and> (\<forall>f e m. d_sync_control V = Some f \<longrightarrow> mode_kept (f e m)) \<and>
     (\<forall>f. d_ioctl V = Some f \<longrightarrow> polite_method f) \<and> (\<forall>f. d_ioctl_override V = Some f \<longrightarrow> polite_method f) \<and>
     (\<forall>f. d_bind V = Some f \<longrightarrow> polite_method f) \<and> (\<forall>n. mode_kept (mixer_modified V n)) \<and>
     (\<forall>n d. polite_method (mixer_ioctl V n d) \<and> polite_method (legacy_mixer_ioctl V n d)) \<and> polite_method (mixer_ext V)"

lemma polite_core_env [simp]: "polite (core_env V c) = polite (d_audio V)"
  by (simp add: core_env_def polite_def)

lemma polite_driver_methods:
  assumes "polite_driver V"
  shows "polite (d_audio V)" "d_sync_control V = Some f \<Longrightarrow> ad_open_mode (f e m s) = ad_open_mode s"
    "d_ioctl V = Some g \<Longrightarrow> g cmd x s = (r, s') \<Longrightarrow> ad_open_mode s' = ad_open_mode s"
    "d_ioctl_override V = Some g \<Longrightarrow> g cmd x s = (r, s') \<Longrightarrow> ad_open_mode s' = ad_open_mode s"
    "d_bind V = Some g \<Longrightarrow> g cmd x s = (r, s') \<Longrightarrow> ad_open_mode s' = ad_open_mode s"
    "ad_open_mode (mixer_modified V n s) = ad_open_mode s"
    "mixer_ioctl V n d cmd x s = (r, s') \<Longrightarrow> ad_open_mode s' = ad_open_mode s"
    "legacy_mixer_ioctl V n d cmd x s = (r, s') \<Longrightarrow> ad_open_mode s' = ad_open_mode s"
    "mixer_ext V cmd x s = (r, s') \<Longrightarrow> ad_open_mode s' = ad_open_mode s"
  using assms by (auto simp: polite_driver_def polite_method_def mode_kept_def mode_kept2_def) (metis snd_conv)+

definition call_mode :: "u32 \<Rightarrow> ('g, 'h) call_result \<Rightarrow> bool" where
  "call_mode m R \<longleftrightarrow> (\<forall>r a. R = Some (r, a) \<longrightarrow> ad_open_mode (ad_engine a) = m)"

lemma call_mode_replies [intro!]:
  "ad_open_mode s = m \<Longrightarrow> call_mode m (reply r x a s)" "call_mode m None"
  by (simp_all add: call_mode_def reply_def)

lemma call_mode_results [intro!]:
  "keeps_mode m R \<Longrightarrow> call_mode m (returns x a R)" "keeps_mode m Q \<Longrightarrow> call_mode m (fills f x a Q)"
  "has_mode m T \<Longrightarrow> call_mode m (done_call x a T)"
  "ad_open_mode (ad_engine a) = m \<Longrightarrow> call_mode m (reject D e parm err x a)"
proof -
  show "keeps_mode m R \<Longrightarrow> call_mode m (returns x a R)" "keeps_mode m Q \<Longrightarrow> call_mode m (fills f x a Q)"
    by (auto simp: returns_def fills_def keeps_mode_def split: option.split sum.split)
  show "has_mode m T \<Longrightarrow> call_mode m (done_call x a T)" by (cases T) (auto simp: done_call_def)
  show "call_mode m (reject D e parm err x a)" if "ad_open_mode (ad_engine a) = m"
    using mode_set_error [OF that, of D e parm]
    by (cases "oss_audio_set_error D e parm (ad_engine a)") (auto simp: reject_def)
qed

lemma call_mode_needs [intro!]:
  "ad_open_mode (ad_engine a) = m \<Longrightarrow> call_mode m R \<Longrightarrow> call_mode m (needs D e x a R)"
  "ad_open_mode (ad_engine a) = m \<Longrightarrow> call_mode m R \<Longrightarrow> call_mode m (needs_quietly D x a R)"
  by (auto simp: needs_def needs_quietly_def)

lemma call_mode_by_method:
  assumes "polite_driver V" and "ad_open_mode (ad_engine a) = m"
    and "\<And>x s. ad_open_mode s = m \<Longrightarrow> call_mode m (k x s)"
  shows "call_mode m (by_method (d_ioctl V) cmd x a k)"
  using assms polite_driver_methods(3) [OF assms(1)]
  by (auto simp: by_method_def split: option.split prod.split)

lemma mode_ok: "keeps_mode m Y \<Longrightarrow> keeps_mode m (map_option (\<lambda>(v, s). (Inr v, s)) Y)"
  by (auto simp: keeps_mode_def)

lemma mode_const: "ad_open_mode s = m \<Longrightarrow> keeps_mode m (map_option (\<lambda>v. (f v, s)) Y)"
  by (auto simp: keeps_mode_def)

lemma mode_geterror: "geterror s = (r, s') \<Longrightarrow> ad_open_mode s' = ad_open_mode s"
  by (auto simp: geterror_def Let_def)

lemma call_mode_info:
  assumes "polite E" and "ad_open_mode (ad_engine a) = m" and "info_call V E dev nxt cmd x a = Some R"
  shows "call_mode m R"
  using assms(3)
  by (cases cmd)
    (auto simp: info_call_def Let_def assms(1,2) split: if_splits prod.split option.split
      intro!: mode_ok mode_const mode_get_ospace mode_get_ispace mode_positions mode_getblksize dest!: mode_geterror)

lemma mode_setfmt: "polite E \<Longrightarrow> ad_open_mode (ad_engine a) = m \<Longrightarrow> keeps_mode m (setfmt E dev v a)"
  using mode_set_format [of E "ad_engine a" m] by (auto simp: setfmt_def Let_def keeps_mode_def)

lemma mode_setfragment: "ad_open_mode s = m \<Longrightarrow> has_mode m (setfragment v s)"
proof -
  have "has_mode m (setfragment_error t)" if "ad_open_mode t = m" for t :: "('a, 'b) engine"
    unfolding setfragment_error_def using that by (auto intro!: mode_map(3) mode_set_error)
  then have "has_mode m (request_fragments D v t)" if "ad_open_mode t = m" for D and t :: "('a, 'b) engine"
    unfolding request_fragments_def using that by (auto intro!: mode_map(3))
  then show "ad_open_mode s = m \<Longrightarrow> has_mode m (setfragment v s)" unfolding setfragment_def by auto
qed

lemma mode_set_trigger:
  assumes "polite E" and "ad_open_mode s = m" shows "keeps_mode m (set_trigger E v s)"
proof -
  have "keeps_mode m (trigger_output E w t)" "keeps_mode m (trigger_input E w t)" if "ad_open_mode t = m" for w t
    using that assms(1) unfolding trigger_output_def trigger_input_def Let_def by (auto intro!: mode_prepare_both)
  then show ?thesis
    unfolding set_trigger_def Let_def using assms by (auto split: option.split)
qed

lemma mode_silence_play: "ad_open_mode s = m \<Longrightarrow> has_mode m (silence_play s)"
  unfolding silence_play_def Let_def by (rule mode_map(4)) simp

lemma mode_low_water [simp]: "ad_open_mode (low_water_mark v s) = ad_open_mode s"
  by (simp add: low_water_mark_def Let_def)

lemma mode_stereo:
  assumes "polite E" and "ad_open_mode (ad_engine a) = m" shows "call_mode m (set_stereo E dev n x a)"
proof -
  have "keeps_mode m (map_option (\<lambda>(r, s). (map_sum stereo_error (\<lambda>v. v - 1) r, s)) (oss_audio_set_channels E dev (n + 1) (ad_engine a)))"
    using mode_set_channels [OF assms] by (auto simp: keeps_mode_def)
  then show ?thesis unfolding set_stereo_def using assms(2) by auto
qed

lemma call_mode_control:
  assumes "polite_driver V" and "polite E" and "ad_open_mode (ad_engine a) = m" and "control_call V E fuel dev cmd x a = Some R"
  shows "call_mode m R"
proof (cases "cmd = DSP_COOKEDMODE")
  case True
  then show ?thesis
    using assms(4) polite_driver_methods(3) [OF assms(1)] assms(3)
    by (auto simp: control_call_def Let_def split: option.splits prod.split)
next
  case False
  then show ?thesis
    using assms(4)
    by (cases cmd)
      (auto simp: control_call_def Let_def assms(2,3) split: if_splits
        intro!: mode_sync mode_post mode_reset_adev mode_setfmt mode_set_rate mode_set_channels mode_set_trigger mode_setfragment
          mode_silence_play mode_set_error mode_stereo call_mode_by_method [OF assms(1)])
qed

lemma mode_touch [simp]: "polite_driver V \<Longrightarrow> ad_open_mode (ad_engine (count_setting V w a)) = ad_open_mode (ad_engine a)"
  by (simp add: count_setting_def upd_engine_def polite_driver_methods)

lemma call_mode_volume:
  assumes "polite_driver V" and "ad_open_mode (ad_engine a) = m"
  shows "call_mode m (play_volume V dev cmd x a)" "call_mode m (rec_volume V dev cmd x a)"
proof -
  have via: "ad_open_mode s' = ad_open_mode s" if "via_mixer V dev c b x s = (r, s')" for c b x s r s'
    using polite_driver_methods(7) [OF assms(1)] that by (simp add: via_mixer_def)
  show "call_mode m (play_volume V dev cmd x a)"
    unfolding play_volume_def Let_def using assms
    by (auto intro!: call_mode_by_method split: prod.split dest!: via)
  show "call_mode m (rec_volume V dev cmd x a)"
    unfolding rec_volume_def Let_def using assms
    by (auto intro!: call_mode_by_method split: prod.split sum.split dest!: via)
qed

lemma mode_mixer_read: "polite_driver V \<Longrightarrow> mixer_read V n cmd s = (r, s') \<Longrightarrow> ad_open_mode s' = ad_open_mode s"
  by (auto simp: mixer_read_def split: prod.splits sum.splits dest: polite_driver_methods(8))

lemma mode_has_recsrc: "polite_driver V \<Longrightarrow> has_recsrc V n s = (r, s') \<Longrightarrow> ad_open_mode s' = ad_open_mode s"
  by (auto simp: has_recsrc_def split: if_splits prod.splits dest: mode_mixer_read)

lemma mode_recsrc:
  assumes "polite_driver V"
  shows "get_legacy_recsrc_names V n s = (r, s') \<Longrightarrow> ad_open_mode s' = ad_open_mode s"
    "get_legacy_recsrc V n s = (v, s') \<Longrightarrow> ad_open_mode s' = ad_open_mode s"
    "ad_open_mode (set_legacy_recsrc V n w s) = ad_open_mode s"
proof -
  note read = mode_mixer_read [OF assms] mode_has_recsrc [OF assms]
  show "get_legacy_recsrc_names V n s = (r, s') \<Longrightarrow> ad_open_mode s' = ad_open_mode s"
    by (auto simp: get_legacy_recsrc_names_def Let_def split: prod.splits bool.splits option.splits dest!: read)
  show "get_legacy_recsrc V n s = (v, s') \<Longrightarrow> ad_open_mode s' = ad_open_mode s"
    by (auto simp: get_legacy_recsrc_def Let_def split: prod.splits bool.splits option.splits dest!: read)
  have "ad_open_mode (snd (legacy_mixer_ioctl V n d cmd x t)) = ad_open_mode t" for d cmd x t
    using polite_driver_methods(8) [OF assms] by (metis prod.collapse)
  then show "ad_open_mode (set_legacy_recsrc V n w s) = ad_open_mode s"
    by (auto simp: set_legacy_recsrc_def split: prod.split bool.split option.split dest!: read)
qed

lemma call_mode_recsrc:
  assumes "polite_driver V" and "ad_open_mode s = m"
  shows "call_mode m (recsrc_names V a s)" "call_mode m (recsrc_number V a s)"
  using assms mode_recsrc(1,2) [OF assms(1)]
  by (auto simp: recsrc_names_def recsrc_number_def split: prod.split option.split)

lemma call_mode_named:
  assumes "polite_driver V" and "ad_open_mode (ad_engine a) = m"
  shows "call_mode m (named V cmd x f a)"
  using assms polite_driver_methods(3) [OF assms(1)]
  by (auto simp: named_def split: option.split prod.split sum.split)

lemma call_mode_bind:
  assumes "polite_driver V" and "ad_open_mode (ad_engine a) = m"
  shows "call_mode m (case d_bind V of None \<Rightarrow> reply (Inl OSS_EINVAL) x a (ad_engine a)
    | Some f \<Rightarrow> (case f cmd x (ad_engine a) of ((r, x), s) \<Rightarrow> reply r x a s))"
  using assms polite_driver_methods(5) [OF assms(1)] by (auto split: option.split prod.split)

lemma call_mode_routing:
  assumes "polite_driver V" and "ad_open_mode (ad_engine a) = m" and "routing_call V dev cmd x a = Some R"
  shows "call_mode m R"
  using assms(3)
  by (cases cmd)
    (auto simp: routing_call_def Let_def assms(2) mode_recsrc(3) [OF assms(1)]
      intro!: call_mode_volume [OF assms(1)] call_mode_recsrc [OF assms(1)] call_mode_named [OF assms(1)] call_mode_bind [OF assms(1,2)]
        call_mode_by_method [OF assms(1,2)])

lemma call_mode_engine:
  assumes "polite_driver V" and "polite E" and "ad_open_mode (ad_engine a) = m"
  shows "call_mode m (engine_call V E fuel dev nxt cmd x a)"
proof -
  have "call_mode m (case d_ioctl V of None \<Rightarrow> reply (Inl OSS_EINVAL) x a (ad_engine a)
      | Some f \<Rightarrow> (case f cmd x (ad_engine a) of ((r, x), s) \<Rightarrow> reply r x a s))"
    using assms(3) polite_driver_methods(3) [OF assms(1)] by (auto split: option.split prod.split)
  then show ?thesis
    unfolding engine_call_def
    using call_mode_info [OF assms(2,3)] call_mode_control [OF assms] call_mode_routing [OF assms(1,3)]
    by (auto split: option.split)
qed

section \<open>The modes of all engines\<close>

definition modes :: "('g, 'h) audio_core \<Rightarrow> u32 list" where
  "modes c = map (\<lambda>a. ad_open_mode (ad_engine a)) (ac_engines c)"

lemma modes_seed [simp]: "modes (bump_core c) = modes c" "modes (c\<lparr>ac_seed := w\<rparr>) = modes c"
  by (simp_all add: modes_def bump_core_def)

lemma mode_load [simp]: "ad_open_mode (ad_engine (load_adev i c)) = ad_open_mode (ad_engine (engine_at c i))"
  by (simp add: load_adev_as)

lemma modes_store:
  assumes "ad_open_mode (ad_engine a) = ad_open_mode (ad_engine (engine_at c i))" shows "modes (store_adev i a c) = modes c"
  using assms by (cases "i < length (ac_engines c)")
    (simp_all add: modes_def store_adev_def map_update engine_at_def list_update_beyond list_update_same_conv)

lemma modes_store_load:
  "ad_open_mode s = ad_open_mode (ad_engine (engine_at c i)) \<Longrightarrow> modes (store_adev i ((load_adev i c)\<lparr>ad_engine := s\<rparr>) c) = modes c"
  by (rule modes_store) simp

lemma modes_upd:
  "ad_open_mode (ad_engine (f (load_adev i c))) = ad_open_mode (ad_engine (engine_at c i)) \<Longrightarrow> modes (upd_adev i f c) = modes c"
  unfolding upd_adev_def by (rule modes_store)

lemma modes_nth: "i < table_size c \<Longrightarrow> modes c ! i = ad_open_mode (ad_engine (engine_at c i))"
  by (simp add: modes_def table_size_def engine_at_def)

lemma modes_with_engine:
  assumes "with_engine drv dev cmd x k c = Some (r, c')" and "polite_driver (drv (nat dev))"
    and k: "\<And>x c1. k x c1 = Some (r, c') \<Longrightarrow> modes c' = modes c1"
  shows "modes c' = modes c"
proof -
  define c1 where "c1 = bump_core c"
  have st: "modes (store_adev (nat dev) ((load_adev (nat dev) c1)\<lparr>ad_engine := s\<rparr>) c1) = modes c"
    if "d_ioctl_override (drv (nat dev)) = Some f" "f cmd x (ad_engine (load_adev (nat dev) c1)) = (q, s)" for f q s
  proof -
    have "modes (store_adev (nat dev) ((load_adev (nat dev) c1)\<lparr>ad_engine := s\<rparr>) c1) = modes c1"
      using polite_driver_methods(4) [OF assms(2) that] by (intro modes_store_load) simp
    then show ?thesis by (simp add: c1_def)
  qed
  have "modes c1 = modes c" by (simp add: c1_def)
  then show ?thesis
    using assms(1) st
    by (auto simp: with_engine_def Let_def c1_def [symmetric] split: if_splits option.splits prod.splits dest!: k)
qed

lemma modes_trigger_call:
  assumes "trigger_call drv i x c = Some (r, c')" and "polite_driver (drv i)" shows "modes c' = modes c"
proof -
  obtain q s where s: "set_trigger (core_env (drv i) c) (word_of_int (int_arg x)) (ad_engine (load_adev i c)) = Some (q, s)"
    "c' = store_adev i ((load_adev i c)\<lparr>ad_engine := s\<rparr>) c"
    using assms(1) by (auto simp: trigger_call_def Let_def)
  have "keeps_mode (ad_open_mode (ad_engine (engine_at c i))) (Some (q, s))"
    unfolding s(1) [symmetric] using polite_driver_methods(1) [OF assms(2)] by (intro mode_set_trigger) simp_all
  then show ?thesis unfolding s(2) by (intro modes_store_load) simp
qed

lemma modes_set_bits: "set_bits drv i v c = Some c' \<Longrightarrow> polite_driver (drv i) \<Longrightarrow> modes c' = modes c"
  by (auto simp: set_bits_def elim!: modes_with_engine dest: modes_trigger_call)

lemma mode_sync_prepare:
  assumes "polite_driver V" and "d_sync_control V = Some f" and "ad_open_mode s = m"
  shows "keeps_mode m (sync_prepare (core_env V c) f w s)"
proof -
  have E: "polite (core_env V c)" using polite_driver_methods(1) [OF assms(1)] by simp
  have "has_mode m (sync_input (core_env V c) s)"
    unfolding sync_input_def using E assms(3) by (auto intro!: mode_map(3) mode_map(1) mode_prepare_both)
  moreover have "keeps_mode m (sync_output (core_env V c) t)" if "ad_open_mode t = m" for t
    unfolding sync_output_def using E that by (auto intro!: mode_prepare_both)
  ultimately show ?thesis
    unfolding sync_prepare_def using polite_driver_methods(2) [OF assms(1,2)] assms(3) by auto
qed

lemma modes_announce:
  assumes "announce drv i c = Some (r, c')" and "polite_driver (drv i)" shows "modes c' = modes c"
proof -
  define c1 where "c1 = upd_adev i (upd_engine (\<lambda>s. s\<lparr>ad_go := False\<rparr>)) c"
  have 1: "modes c1 = modes c" unfolding c1_def by (rule modes_upd) (simp add: upd_engine_def)
  show ?thesis
  proof (cases "d_sync_control (drv i)")
    case None
    then show ?thesis
      using assms(1) 1 by (auto simp: announce_def Let_def c1_def [symmetric] dest!: modes_set_bits [where drv = drv and i = i, OF _ assms(2)])
  next
    case (Some f)
    obtain q s where s: "sync_prepare (core_env (drv i) c1) f (sync_mode (engine_at c1 i)) (ad_engine (load_adev i c1)) = Some (q, s)"
      "c' = store_adev i ((load_adev i c1)\<lparr>ad_engine := s\<rparr>) c1"
      using assms(1) Some by (auto simp: announce_def Let_def c1_def [symmetric])
    have "keeps_mode (ad_open_mode (ad_engine (engine_at c1 i))) (Some (q, s))"
      unfolding s(1) [symmetric] by (rule mode_sync_prepare [OF assms(2) Some]) simp
    then have "modes c' = modes c1" unfolding s(2) by (intro modes_store_load) simp
    then show ?thesis using 1 by simp
  qed
qed

lemma modes_announce_all:
  assumes "\<And>i. polite_driver (drv i)" and "announce_all drv g fuel p c = Some (r, c')"
  shows "modes c' = modes c"
  using assms(2)
  by (induction fuel arbitrary: p c)
    (auto split: if_splits option.splits sum.splits dest: modes_announce [OF _ assms(1)])

lemma modes_release_engine:
  assumes "release_engine drv i c = Some c'" and "polite_driver (drv i)" shows "modes c' = modes c"
proof -
  define c1 where "c1 = upd_adev i (upd_engine (\<lambda>s. s\<lparr>ad_go := True\<rparr>)) c"
  have 1: "modes c1 = modes c" unfolding c1_def by (rule modes_upd) (simp add: upd_engine_def)
  have "modes (upd_adev i (upd_engine (f SYNC_TRIGGER m)) c1) = modes c1" if "d_sync_control (drv i) = Some f" for f m
    using polite_driver_methods(2) [OF assms(2) that] by (intro modes_upd) (simp add: upd_engine_def)
  then show ?thesis
    using assms(1) 1
    by (auto simp: release_engine_def Let_def c1_def [symmetric] split: option.splits dest!: modes_set_bits [where drv = drv and i = i, OF _ assms(2)])
qed

lemma modes_release_all:
  assumes "\<And>i. polite_driver (drv i)" and "release_all drv g fuel p c = Some c'"
  shows "modes c' = modes c"
  using assms(2)
proof (induction fuel arbitrary: p c)
  case (Suc fuel)
  have clear: "modes (upd_adev i (\<lambda>a. a\<lparr>sync_next := None, sync_flags := 0, sync_group := 0\<rparr>) c1) = modes c1"
    for i and c1 :: "('a, 'b) audio_core" by (rule modes_upd) simp
  show ?case
  proof (cases p)
    case (Some i)
    show ?thesis
    proof (cases "release_engine drv i c")
      case None
      then show ?thesis using Suc Some by (auto split: if_splits)
    next
      case (Some c1)
      then show ?thesis
        using Suc \<open>p = Some i\<close> clear [of i c1] modes_release_engine [OF Some assms(1)] by (auto split: if_splits)
    qed
  qed (use Suc.prems in simp)
qed (auto split: if_splits)

lemma modes_syncstart:
  assumes "\<And>i. polite_driver (drv i)" and "handle_syncstart drv fuel i g c = Some (r, c')"
  shows "modes c' = modes c"
proof (cases "announce_all drv g fuel (Some i) c")
  case None
  then show ?thesis using assms by (auto simp: handle_syncstart_def Let_def split: if_splits)
next
  case (Some x)
  obtain q c1 where x: "x = (q, c1)" by fastforce
  have c1: "modes c1 = modes c" using modes_announce_all [where drv = drv, OF assms(1)] Some unfolding x by blast
  have "modes c2 = modes c1" if "release_all drv g fuel (Some i) c1 = Some c2" for c2
    using modes_release_all [where drv = drv, OF assms(1)] that by blast
  then show ?thesis
    using assms Some x c1 by (cases q) (auto simp: handle_syncstart_def Let_def split: if_splits)
qed

lemma modes_syncgroup:
  assumes "polite_driver (drv i)" and "handle_syncgroup drv i g c = ((r, sg), c')" shows "modes c' = modes c"
proof -
  define V where "V = drv i"
  have V: "polite_driver V" using assms(1) by (simp add: V_def)
  have upd: "modes (upd_adev k f c1) = modes c1" if "\<And>a. ad_open_mode (ad_engine (f a)) = ad_open_mode (ad_engine a)"
    for k f and c1 :: "('a, 'b) audio_core"
    by (rule modes_upd) (simp add: that)
  have go: "modes (upd_adev k (upd_engine f) c1) = modes c1" if "\<And>s. ad_open_mode (f s) = ad_open_mode s"
    for k f and c1 :: "('a, 'b) audio_core"
    by (rule upd) (simp add: upd_engine_def that)
  have attach: "ad_open_mode (ad_engine (sync_attach V n m a)) = ad_open_mode (ad_engine a)" for n m and a :: "('a, 'b) adev"
    using polite_driver_methods(2) [OF V] by (simp add: sync_attach_def upd_engine_def Let_def split: option.split)
  have "modes (link_slave i j c1) = modes c1" for j and c1 :: "('a, 'b) audio_core"
    by (simp add: link_slave_def upd)
  then have "modes c2 = modes c1" if "join_group V i n m c1 = (q, c2)" for n m c1 c2 q
    using that by (auto simp: join_group_def Let_def upd go attach split: if_splits)
  then show ?thesis
    using assms(2) by (auto simp: handle_syncgroup_def Let_def upd V_def [symmetric] split: if_splits)
qed

lemma modes_group_call:
  assumes "\<And>i. polite_driver (drv i)" and "group_call drv fuel i cmd x c = Some (r, c')" shows "modes c' = modes c"
proof -
  have call: "ad_open_mode (ad_engine a) = ad_open_mode (ad_engine (engine_at c i))"
    if "engine_call (drv i) (core_env (drv i) c) fuel (int i) nxt cmd x (load_adev i c) = Some (q, a)" for nxt q a
  proof -
    have "call_mode (ad_open_mode (ad_engine (engine_at c i))) (Some (q, a))"
      unfolding that [symmetric] using polite_driver_methods(1) [OF assms(1)]
      by (intro call_mode_engine assms(1)) simp_all
    then show ?thesis by (simp add: call_mode_def)
  qed
  show ?thesis
    using assms(2)
    by (auto simp: group_call_def Let_def split: if_splits prod.splits ioctl_arg.splits
        dest: modes_syncgroup [where drv = drv, OF assms(1)] modes_syncstart [where drv = drv, OF assms(1)]
        intro: modes_store dest!: call)
qed

lemma modes_mixer_call:
  assumes "\<And>i. polite_driver (drv i)" and "mixer_call drv fuel i cmd x c = Some (r, c')" shows "modes c' = modes c"
proof -
  have st: "modes (store_adev i ((load_adev i c)\<lparr>ad_engine := s\<rparr>) c) = modes c"
    if "ad_open_mode s = ad_open_mode (ad_engine (engine_at c i))" for s
    using that by (rule modes_store_load)
  have leg: "ad_open_mode s = ad_open_mode (ad_engine (engine_at c i))"
    if "legacy_mixer_ioctl (drv i) n d cmd x (ad_engine (load_adev i c)) = (q, s)" for n d cmd x q s
    using polite_driver_methods(8) [OF assms(1) that] by simp
  have ext: "ad_open_mode s = ad_open_mode (ad_engine (engine_at c i))"
    if "mixer_ext (drv i) cmd x (ad_engine (load_adev i c)) = (q, s)" for cmd x q s
    using polite_driver_methods(9) [OF assms(1) that] by simp
  show ?thesis
    using assms(2)
    by (auto simp: mixer_call_def Let_def st split: audio_cmd.splits if_splits prod.splits
        dest!: leg ext modes_group_call [where drv = drv, OF assms(1)])
qed

lemma modes_ioctl:
  assumes "\<And>i. polite_driver (drv i)" and "oss_audio_ioctl drv fuel dev cmd x c = Some (r, c')" shows "modes c' = modes c"
  using assms(2) modes_with_engine [OF _ assms(1)] modes_mixer_call [where drv = drv, OF assms(1)]
  unfolding oss_audio_ioctl_def by (auto split: if_splits)

lemma modes_chpoll:
  assumes "polite_driver (drv (nat dev))" and "oss_audio_chpoll drv dev ev c = Some (r, c')" shows "modes c' = modes c"
proof -
  define m where "m = ad_open_mode (ad_engine (engine_at c (nat dev)))"
  define E where "E = core_env (drv (nat dev)) c"
  have E: "polite E" using polite_driver_methods(1) [OF assms(1)] by (simp add: E_def)
  have ready: "ad_open_mode t' = ad_open_mode t" if "poll_ready D w bi e t = Some (e', t')" for D w bi e e' and t t' :: "('a, 'b) engine"
    using that by (auto simp: poll_ready_def Let_def)
  have space: "ad_open_mode t' = m" if "poll_space D w e R = Some (e', t')" "keeps_mode m R" for D w e e' R and t' :: "('a, 'b) engine"
    using that by (auto simp: poll_space_def keeps_mode_def split: option.splits prod.splits sum.splits dest: ready)
  have err: "ad_open_mode t' = m" if "oss_audio_set_error D k 0 t = Some t'" "ad_open_mode t = m" for D k and t t' :: "('a, 'b) engine"
    using mode_set_error [OF that(2), of D k 0] that(1) by simp
  have isp: "ad_open_mode t' = m" if "poll_space Rec w e (get_ispace E t) = Some (e', t')" "ad_open_mode t = m" for w e e' t t'
    using space [OF that(1) mode_get_ispace [OF E that(2)]] .
  have out: "ad_open_mode t' = m" if "chpoll_output E e t = Some (e', t')" "ad_open_mode t = m" for e e' t t'
    using that mode_get_ospace [OF E that(2)] space err by (auto simp: chpoll_output_def Let_def split: if_splits)
  have inp: "ad_open_mode t' = m" if "chpoll_input E e t = Some (e', t')" "ad_open_mode t = m" for e e' t t'
    using that by (auto simp: chpoll_input_def Let_def bind_eq_Some_conv split: if_splits dest: isp err)
  have store: "modes (store_adev (nat dev) ((load_adev (nat dev) c)\<lparr>ad_engine := t\<rparr>) c) = modes c" if "ad_open_mode t = m" for t
    using that by (intro modes_store_load) (simp add: m_def)
  have "ad_open_mode (ad_engine (load_adev (nat dev) c)) = m" by (simp add: m_def)
  moreover have "modes (store_adev (nat dev) (load_adev (nat dev) c) c) = modes c" by (rule modes_store) simp
  ultimately show ?thesis
    using assms(2)
    by (auto simp: oss_audio_chpoll_def Let_def E_def [symmetric] bind_eq_Some_conv split: if_splits prod.splits
        intro!: store dest: out inp)
qed

lemma modes_on_engine:
  assumes "keeps_mode (ad_open_mode (ad_engine (engine_at c (nat dev)))) (f (ad_engine (load_adev (nat dev) c)))"
    and "on_engine dev f c = Some c'"
  shows "modes c' = modes c"
  using assms by (auto simp: on_engine_def Let_def keeps_mode_def split: if_splits intro!: modes_store_load)

section \<open>Exclusive use\<close>

lemma engine_at_store_other [simp]: "i \<noteq> k \<Longrightarrow> engine_at (store_adev k a c) i = engine_at c i"
  by (simp add: engine_at_def store_adev_def)

lemma release_size: "oss_audio_release drv fuel dev file c = Some c' \<Longrightarrow> table_size c' = table_size c"
  by (auto simp: oss_audio_release_def Let_def split: if_splits)

lemma release_other:
  assumes "oss_audio_release drv fuel dev file c = Some c'" and "dev \<noteq> int i"
  shows "engine_at c' i = engine_at c i"
proof -
  have "i \<noteq> nat dev" if "valid_dev dev c1" for c1 :: "('a, 'b) audio_core" using that assms(2) by (auto simp: valid_dev_def)
  then show ?thesis using assms(1) by (auto simp: oss_audio_release_def Let_def split: if_splits)
qed

lemma open_other:
  assumes "oss_audio_open_engine drv fuel dev file recursive proc fl c = Some (r, c')"
  shows "table_size c' = table_size c" "dev \<noteq> int i \<Longrightarrow> engine_at c' i = engine_at c i"
proof -
  define c1 where "c1 = bump_core c"
  define V where "V = drv (nat dev)"
  have 1: "engine_at c1 i = engine_at c i" "table_size c1 = table_size c" by (simp_all add: c1_def)
  have dev: "i \<noteq> nat dev" if "valid_dev dev c1" "dev \<noteq> int i" using that by (auto simp: valid_dev_def)
  have cases: "c' = c1 \<or> (\<exists>a. valid_dev dev c1 \<and>
      (c' = store_adev (nat dev) a c1 \<or> oss_audio_release drv fuel dev file (store_adev (nat dev) a c1) = Some c'))"
    using assms
    by (auto simp: oss_audio_open_engine_def Let_def c1_def [symmetric] V_def [symmetric]
        split: if_splits prod.splits sum.splits option.splits)
  then show "table_size c' = table_size c" using 1 release_size by fastforce
  show "engine_at c' i = engine_at c i" if d: "dev \<noteq> int i"
  proof -
    have "engine_at c2 i = engine_at c i" if "oss_audio_release drv fuel dev file (store_adev (nat dev) a c1) = Some c2" "valid_dev dev c1" for a c2
      using release_other [OF that(1) d] dev [OF that(2) d] 1 by simp
    then show ?thesis using cases 1 dev [OF _ d] by auto
  qed
qed

lemma open_busy:
  "ad_open_mode (ad_engine (engine_at c i)) \<noteq> 0 \<Longrightarrow>
    \<exists>e. oss_audio_open_engine drv fuel (int i) file recursive proc fl c = Some (Inl e, bump_core c)"
  by (auto simp: oss_audio_open_engine_def Let_def)

definition own_mode :: "nat \<Rightarrow> ('g, 'h) audio_core \<Rightarrow> u32" where
  "own_mode i c = ad_open_mode (ad_engine (engine_at c i))"

lemma step_keeps_mode:
  assumes polite: "\<And>i. polite_driver (drv i)" and step: "core_step drv fuel op c = Some c'"
    and "\<And>file. op \<noteq> Close_Engine (int i) file" and "i < table_size c" and "own_mode i c \<noteq> 0"
  shows "own_mode i c' = own_mode i c \<and> table_size c' = table_size c"
proof -
  have all: ?thesis if m: "modes c' = modes c"
  proof -
    have "table_size c' = table_size c" using arg_cong [OF m, of length] by (simp add: modes_def table_size_def)
    then show ?thesis using m modes_nth [of i c] modes_nth [of i c'] assms(4) by (simp add: own_mode_def)
  qed
  have E: "polite (core_env (drv k) c)" for k using polite_driver_methods(1) [OF polite] by simp
  show ?thesis
  proof (cases op)
    case (Open_Engine dev fd recursive proc fl)
    then obtain r where o: "oss_audio_open_engine drv fuel dev fd recursive proc fl c = Some (r, c')"
      using step by (auto simp: core_step_def)
    show ?thesis
    proof (cases "dev = int i")
      case True
      then have "c' = bump_core c"
        using o open_busy [OF assms(5) [unfolded own_mode_def], of drv fuel fd recursive proc fl] by auto
      then show ?thesis by (simp add: own_mode_def)
    next
      case False
      then show ?thesis using open_other [OF o] by (simp add: own_mode_def)
    qed
  next
    case (Close_Engine dev fd)
    then show ?thesis
      using step assms(3) [of fd] release_other [of drv fuel dev fd c c' i] release_size [of drv fuel dev fd c c']
      by (auto simp: core_step_def own_mode_def)
  next
    case (Call dev cmd x)
    then have "modes c' = modes c" using step modes_ioctl [where drv = drv, OF polite] by (auto simp: core_step_def)
    then show ?thesis by (rule all)
  next
    case (Poll dev ev)
    then have "modes c' = modes c" using step modes_chpoll [where drv = drv, OF polite] by (auto simp: core_step_def)
    then show ?thesis by (rule all)
  next
    case (Write dev nb bs n)
    then have "on_engine dev (oss_audio_write (core_env (drv (nat dev)) c) dev nb bs n) c = Some c'"
      using step by (simp add: core_step_def)
    then have "modes c' = modes c" by (rule modes_on_engine [rotated]) (rule mode_write [OF E], simp)
    then show ?thesis by (rule all)
  next
    case (Read dev nb n)
    then have "on_engine dev (oss_audio_read (core_env (drv (nat dev)) c) dev nb n) c = Some c'"
      using step by (simp add: core_step_def)
    then have "modes c' = modes c" by (rule modes_on_engine [rotated]) (rule mode_read [OF E], simp)
    then show ?thesis by (rule all)
  next
    case (Start_Group g)
    then have "modes c' = modes c"
      using step modes_syncstart [where drv = drv, OF polite] by (auto simp: core_step_def oss_audio_start_syncgroup_def)
    then show ?thesis by (rule all)
  next
    case (Output_Intr dev fl)
    then have "c' = c \<or> on_engine dev (\<lambda>s. map_option (Pair ()) (audio_outputintr (core_env (drv (nat dev)) c) dev fl s)) c = Some c'"
      using step by (auto simp: core_step_def split: if_splits)
    then have "modes c' = modes c"
      by (elim disjE) (simp, rule modes_on_engine [rotated], assumption, rule mode_map(2), rule mode_intr [OF E], simp)
    then show ?thesis by (rule all)
  next
    case (Input_Intr dev fl)
    then have "c' = c \<or> on_engine dev (\<lambda>s. map_option (Pair ()) (audio_inputintr (core_env (drv (nat dev)) c) dev fl s)) c = Some c'"
      using step by (auto simp: core_step_def split: if_splits)
    then have "modes c' = modes c"
      by (elim disjE) (simp, rule modes_on_engine [rotated], assumption, rule mode_map(2), rule mode_intr [OF E], simp)
    then show ?thesis by (rule all)
  qed
qed

text \<open>C6: with drivers that leave the mode of the engine alone, an engine that is open stays open in its mode
  over any session in which it is not closed, and every attempt to open it fails and changes nothing but the global
  seed.\<close>

theorem open_exclusive:
  assumes "\<And>k. polite_driver (drv k)" and "core_run drv fuel ops c = Some c'"
    and "\<And>file. Close_Engine (int i) file \<notin> set ops" and "i < table_size c" and "own_mode i c \<noteq> 0"
  shows "own_mode i c' = own_mode i c \<and>
    (\<exists>e. oss_audio_open_engine drv f (int i) file recursive proc fl c' = Some (Inl e, bump_core c'))"
proof -
  have "own_mode i c' = own_mode i c"
    using assms(2-5)
  proof (induction ops arbitrary: c)
    case (Cons op ops)
    obtain c1 where 1: "core_step drv fuel op c = Some c1" "core_run drv fuel ops c1 = Some c'"
      using Cons.prems(1) by (auto simp: bind_eq_Some_conv)
    have "own_mode i c1 = own_mode i c \<and> table_size c1 = table_size c"
      using Cons.prems by (intro step_keeps_mode [OF assms(1) 1(1)]) auto
    then show ?case using Cons.IH [OF 1(2)] Cons.prems by simp
  qed simp
  then show ?thesis using open_busy [of c' i] assms(5) by (simp add: own_mode_def)
qed

lemma toy_polite: "polite_driver toy_device"
proof -
  have "polite toy_driver"
    unfolding polite_def mode_kept_def mode_kept2_def toy_driver_def audio_env.simps by (intro conjI) auto
  moreover have "d_audio toy_device = toy_driver" by (simp add: toy_device_def)
  moreover have "polite_method (\<lambda>cmd x s. ((Inl OSS_EINVAL, x), s))" "mode_kept (\<lambda>s. s)"
    by (simp_all add: polite_method_def mode_kept_def mode_kept2_def)
  ultimately show ?thesis by (simp add: polite_driver_def toy_device_def)
qed

lemma open_exclusive_witness:
  "own_mode 0 (the (core_run (\<lambda>i. toy_device) 2 toy_session toy_group)) = PCM_ENABLE_OUTPUT OR PCM_ENABLE_INPUT"
proof -
  have r: "core_run (\<lambda>i. toy_device) 2 toy_session toy_group = Some (the (core_run (\<lambda>i. toy_device) 2 toy_session toy_group))"
    using toy_session_ends by (auto simp: Option.is_none_def)
  have n: "Close_Engine (int 0) fd \<notin> set toy_session" for fd
    by (simp add: toy_session_def)
  have m: "own_mode 0 toy_group = PCM_ENABLE_OUTPUT OR PCM_ENABLE_INPUT"
    by (simp add: own_mode_def toy_group_def toy_adev_def toy_engine_def engine_at_def)
  have z: "own_mode 0 toy_group \<noteq> 0" unfolding m by (simp add: PCM_ENABLE_OUTPUT_def PCM_ENABLE_INPUT_def)
  have s: "0 < table_size toy_group" by (simp add: toy_group_def table_size_def)
  show ?thesis
    using open_exclusive [of "\<lambda>i. toy_device", OF toy_polite r n s z, THEN conjunct1] unfolding m .
qed

end
