(* ===== verification/Mixer_Core.thy ===== *)
theory Mixer_Core
  imports Mixer_Names
begin

text \<open>
  The mixer core, \<open>kernel/framework/mixer/oss_mixer_core.c\<close> with \<open>mixer_core.h\<close>: the table of mixers,
  the legacy calls, and the extension tree of each mixer, an array of entries that are linked to
  their parents by number. \<open>None\<close> is an access outside of the arrays, or a string that does not fit its array.
  The driver of a mixer acts on the hardware, of type \<open>'h\<close>. Memory that is allocated holds
  what \<open>me_memory\<close> says; \<open>PMALLOC\<close> never returns \<open>NULL\<close> (\<open>Oss_Memblk\<close>).
\<close>

section \<open>Data\<close>

datatype mixt =
  MIXT_DEVROOT | MIXT_GROUP | MIXT_ONOFF | MIXT_ENUM | MIXT_MONOSLIDER | MIXT_STEREOSLIDER | MIXT_MESSAGE
| MIXT_MONOVU | MIXT_STEREOVU | MIXT_MONOPEAK | MIXT_STEREOPEAK | MIXT_RADIOGROUP | MIXT_MARKER | MIXT_VALUE
| MIXT_HEXVALUE | MIXT_MONODB | MIXT_STEREODB | MIXT_SLIDER | MIXT_3D | MIXT_MONOSLIDER16 | MIXT_STEREOSLIDER16
| MIXT_MUTE | MIXT_ENUM_MULTI

definition MIXF_READABLE :: u32 where "MIXF_READABLE = 0x1"
definition MIXF_WRITEABLE :: u32 where "MIXF_WRITEABLE = 0x2"
definition MIXF_POLL :: u32 where "MIXF_POLL = 0x4"
definition MIXF_FLAT :: u32 where "MIXF_FLAT = 0x40"
definition MIXF_LEGACY :: u32 where "MIXF_LEGACY = 0x80"
definition MIXF_MAINVOL :: u32 where "MIXF_MAINVOL = 0x400"
definition MIXF_PCMVOL :: u32 where "MIXF_PCMVOL = 0x800"
definition MIXF_RECVOL :: u32 where "MIXF_RECVOL = 0x1000"
definition MIXF_MONVOL :: u32 where "MIXF_MONVOL = 0x2000"
definition MIXF_DESCR :: u32 where "MIXF_DESCR = 0x8000"

lemmas mixf_defs = MIXF_READABLE_def MIXF_WRITEABLE_def MIXF_POLL_def MIXF_FLAT_def MIXF_LEGACY_def
  MIXF_MAINVOL_def MIXF_PCMVOL_def MIXF_RECVOL_def MIXF_MONVOL_def MIXF_DESCR_def

definition OSS_ID_SIZE :: nat where "OSS_ID_SIZE = 16"
definition OSS_ENUM_MAXVALUE :: int where "OSS_ENUM_MAXVALUE = 255"
definition OSS_ENUM_STRINGSIZE :: nat where "OSS_ENUM_STRINGSIZE = 3000"
definition MAX_MIXER_DEV :: int where "MAX_MIXER_DEV = 16"

text \<open>The names of the values of a control: one array of characters, which is empty behind those
  that are listed, and the index at which each name starts.\<close>

record enuminfo =
  en_dev :: int
  en_ctrl :: int
  en_nvalues :: int
  en_version :: int
  en_index :: "int list"
  en_strings :: string

text \<open>The function of a control: the two of the mixer core, or one of a driver, by number.\<close>

datatype mixer_fn = Mixer_Ext_Rw | Mixer_Ext_Recrw | Driver_Fn nat

record mixext =
  x_dev :: int
  x_ctrl :: int
  x_type :: mixt
  x_max :: int
  x_min :: int
  x_flags :: u32
  x_id :: string
  x_parent :: int
  x_time :: u32
  x_root :: "string \<times> string"
  x_present :: bytes
  x_control_no :: int
  x_desc :: u32
  x_extname :: string
  x_updates :: u32
  x_rgb :: int
  x_handler :: "mixer_fn option"
  x_enum :: "enuminfo option"
  x_descr :: "string option"

record mixer_info =
  mi_id :: string
  mi_name :: string
  mi_modify_counter :: u32

record mixer_value =
  mv_dev :: int
  mv_ctrl :: int
  mv_value :: int
  mv_time :: u32

record mixerinfo =
  im_dev :: int
  im_id :: string
  im_name :: string
  im_modify_counter :: u32
  im_card :: int
  im_port :: int
  im_handle :: string
  im_enabled :: bool
  im_caps :: u32
  im_flags :: u32
  im_nrext :: int
  im_priority :: int
  im_devnode :: string
  im_legacy :: int

text \<open>The calls on mixers. \<open>Mixer_Other\<close> and \<open>Foreign\<close> are calls of the mixer's class and of another
  class that the core does not know, with their directions; \<open>Info_Call\<close> the calls that describe devices of
  other kinds, which \<open>oss_mixer_ext\<close> answers for all of them.\<close>

datatype mix_ioctl =
  MIXER_READ nat | MIXER_WRITE nat | MIXER_INFO | OSS_GETVERSION | Mixer_Other bool bool nat
| MIX_NRMIX | MIX_NREXT | MIX_EXTINFO | MIX_ENUMINFO | MIX_DESCRIPTION | MIX_READ | MIX_WRITE | MIXERINFO
| RENUM_MIXERDEVS | Info_Call nat | Foreign bool bool nat

datatype mix_arg =
  Null_Arg | Mix_Int int | Mix_Info mixer_info | Mix_Ext mixext | Mix_Enum enuminfo | Mix_Value mixer_value
| Mix_Device mixerinfo | Mix_Map "int list"

definition ioc_out :: "mix_ioctl \<Rightarrow> bool" where
  "ioc_out cmd = (case cmd of Mixer_Other r w n \<Rightarrow> r | Foreign r w n \<Rightarrow> r | RENUM_MIXERDEVS \<Rightarrow> False | _ \<Rightarrow> True)"

definition ioc_in :: "mix_ioctl \<Rightarrow> bool" where
  "ioc_in cmd = (case cmd of Mixer_Other r w n \<Rightarrow> w | Foreign r w n \<Rightarrow> w | MIXER_READ n \<Rightarrow> False | MIXER_INFO \<Rightarrow> False
     | OSS_GETVERSION \<Rightarrow> False | MIX_NRMIX \<Rightarrow> False | _ \<Rightarrow> True)"

definition mixer_class :: "mix_ioctl \<Rightarrow> bool" where
  "mixer_class cmd = (case cmd of MIXER_READ n \<Rightarrow> True | MIXER_WRITE n \<Rightarrow> True | MIXER_INFO \<Rightarrow> True
     | OSS_GETVERSION \<Rightarrow> True | Mixer_Other r w n \<Rightarrow> True | _ \<Rightarrow> False)"

definition mix_int :: "mix_arg \<Rightarrow> int" where
  "mix_int x = (case x of Mix_Int v \<Rightarrow> v | _ \<Rightarrow> 0)"

section \<open>State\<close>

type_synonym 'h legacy_method = "int \<Rightarrow> int \<Rightarrow> mix_ioctl \<Rightarrow> mix_arg \<Rightarrow> 'h \<Rightarrow> (int oss_result \<times> mix_arg) \<times> 'h"

record 'h mixdev =
  mx_name :: string
  mx_id :: string
  mx_ioctl :: "'h legacy_method option"
  mx_modify_counter :: u32
  nr_extra_ext :: int
  mx_create :: "nat option"
  nr_ext :: int
  names_checked :: bool
  max_ext :: int
  mx_time :: u32
  extensions :: "mixext list option"
  ignore_mask :: u32
  mx_card :: int
  mx_port :: int
  mx_enabled :: bool
  mx_unloaded :: bool
  mx_caps :: u32
  mx_flags :: u32
  mx_handle :: string
  mx_os_id :: nat
  mx_priority :: int
  mx_devnode :: string
  mx_real_dev :: int
  mx_create_vmix :: "nat option"

text \<open>The table has \<open>MAX_MIXER_DEV\<close> entries; those behind the mixers are \<open>NULL\<close>. It is
  allocated with the first mixer.\<close>

record 'h mixer_core =
  mc_table :: bool
  mixers :: "'h mixdev list"
  mc_hw :: 'h

type_synonym ('a, 'h) mixer_result = "('a oss_result \<times> 'h mixer_core) option"

text \<open>What surrounds the mixer core: the functions of drivers, which may call the core themselves, the
  clock, the contents of new memory and the calls for devices of other kinds.\<close>

record 'h mixer_env =
  me_handler :: "nat \<Rightarrow> int \<Rightarrow> int \<Rightarrow> mix_ioctl \<Rightarrow> int \<Rightarrow> 'h mixer_core \<Rightarrow> (int, 'h) mixer_result"
  me_create :: "nat \<Rightarrow> int \<Rightarrow> 'h mixer_core \<Rightarrow> 'h mixer_core option"
  me_jiffies :: "'h \<Rightarrow> u32"
  me_memory :: mixext
  me_info :: "nat \<Rightarrow> int \<Rightarrow> mix_arg \<Rightarrow> 'h mixer_core \<Rightarrow> ((int oss_result \<times> mix_arg) \<times> 'h mixer_core) option"

definition mixer_at :: "'h mixer_core \<Rightarrow> int \<Rightarrow> 'h mixdev option" where
  "mixer_at c dev = (if 0 \<le> dev \<and> dev < int (length (mixers c)) then Some (mixers c ! nat dev) else None)"

definition put_mixer :: "int \<Rightarrow> 'h mixdev \<Rightarrow> 'h mixer_core \<Rightarrow> 'h mixer_core" where
  "put_mixer dev m c = c\<lparr>mixers := (mixers c)[nat dev := m]\<rparr>"

definition on_mixer ::
  "int \<Rightarrow> ('h mixdev \<Rightarrow> ('a \<times> 'h mixdev) option) \<Rightarrow> 'h mixer_core \<Rightarrow> ('a \<times> 'h mixer_core) option" where
  "on_mixer dev f c =
     (case mixer_at c dev of None \<Rightarrow> None
      | Some m \<Rightarrow> map_option (\<lambda>(r, m). (r, put_mixer dev m c)) (f m))"

definition mixer_off :: "'h mixdev \<Rightarrow> bool" where
  "mixer_off m \<longleftrightarrow> \<not> mx_enabled m \<or> mx_unloaded m"

section \<open>Legacy calls\<close>

definition get_mixer_info :: "'h mixdev \<Rightarrow> mixer_info" where
  "get_mixer_info m = \<lparr>mi_id = mx_id m, mi_name = take 31 (mx_name m), mi_modify_counter = mx_modify_counter m\<rparr>"

definition oss_legacy_mixer_ioctl ::
  "int \<Rightarrow> int \<Rightarrow> mix_ioctl \<Rightarrow> mix_arg \<Rightarrow> 'h mixer_core \<Rightarrow> (int oss_result \<times> mix_arg) \<times> 'h mixer_core" where
  "oss_legacy_mixer_ioctl mixdev audiodev cmd x c =
     (if \<not> ioc_out cmd \<and> \<not> ioc_in cmd then ((Inl OSS_EINVAL, x), c)
      else if x = Null_Arg then ((Inl OSS_EINVAL, x), c)
      else if \<not> mixer_class cmd then ((Inl OSS_EINVAL, x), c)
      else case mixer_at c mixdev of None \<Rightarrow> ((Inl OSS_EIO, x), c)
      | Some m \<Rightarrow>
          if cmd = MIXER_INFO then ((Inr 0, Mix_Info (get_mixer_info m)), c)
          else if mixer_off m then ((Inl OSS_ENXIO, x), c)
          else
            case mx_ioctl m of None \<Rightarrow> ((Inl OSS_EINVAL, x), c)
            | Some f \<Rightarrow>
                let c = (if ioc_in cmd then put_mixer mixdev (m\<lparr>mx_modify_counter := mx_modify_counter m + 1\<rparr>) c else c)
                in case f mixdev audiodev cmd x (mc_hw c) of (r, h) \<Rightarrow> (r, c\<lparr>mc_hw := h\<rparr>))"

section \<open>Initial volumes\<close>

text \<open>The table of configured volumes. The result says which array of levels the driver is given.\<close>

record vol_entry =
  vl_num :: int
  vl_name :: string
  vl_levels :: "int list"

datatype levels_ref = Muted_Levels | Own_Levels | Default_Levels | Stored_Levels nat

definition default_mixer_levels :: "int list" where
  "default_mixer_levels =
     [0x3232, 0x3232, 0x3232, 0x4b4b, 0x3232, 0x1515, 0x2020, 0x2020, 0x4b4b, 0x0000, 0x4b4b, 0x4b4b, 0x4b4b, 0x4b4b,
      0x2020, 0x2020, 0x1515] @ replicate 15 0"

definition find_volumes :: "string \<Rightarrow> vol_entry list \<Rightarrow> nat option" where
  "find_volumes name vs = List.find (\<lambda>i. vl_name (vs ! i) = name) [0..<length vs]"

definition load_mixer_volumes ::
  "bool \<Rightarrow> string \<Rightarrow> int list option \<Rightarrow> bool \<Rightarrow> vol_entry list \<Rightarrow> (levels_ref \<times> vol_entry list) option" where
  "load_mixer_volumes muted name levels present vs =
     (let own = (case levels of None \<Rightarrow> Default_Levels | Some l \<Rightarrow> Own_Levels);
          lv = (case levels of None \<Rightarrow> default_mixer_levels | Some l \<Rightarrow> l)
      in if muted then Some (Muted_Levels, vs)
         else case find_volumes name vs of
           Some i \<Rightarrow> Some (Stored_Levels i, if present then vs[i := (vs ! i)\<lparr>vl_num := int i\<rparr>] else vs)
         | None \<Rightarrow>
             if MAX_MIXER_DEV \<le> int (length vs) then Some (own, vs)
             else if 32 \<le> length name \<or> length lv < 32 then None
             else Some (Stored_Levels (length vs),
                    vs @ [\<lparr>vl_num = (if present then int (length vs) else - 1), vl_name = name, vl_levels = take 32 lv\<rparr>]))"

section \<open>Entries\<close>

definition ext_at :: "'h mixdev \<Rightarrow> int \<Rightarrow> mixext option" where
  "ext_at m i =
     (case extensions m of None \<Rightarrow> None
      | Some xs \<Rightarrow> if 0 \<le> i \<and> i < int (length xs) then Some (xs ! nat i) else None)"

definition put_ext :: "int \<Rightarrow> mixext \<Rightarrow> 'h mixdev \<Rightarrow> 'h mixdev" where
  "put_ext i e m = m\<lparr>extensions := map_option (\<lambda>xs. xs[nat i := e]) (extensions m)\<rparr>"

text \<open>The root entry. An array that exists is used again, whatever its size.\<close>

definition mixer_ext_create_device ::
  "'h mixer_env \<Rightarrow> u32 \<Rightarrow> int \<Rightarrow> int \<Rightarrow> 'h mixdev \<Rightarrow> (unit \<times> 'h mixdev) option" where
  "mixer_ext_create_device E now dev maxentries m =
     (let m = (if max_ext m = 0
               then m\<lparr>max_ext := maxentries + 1, extensions := Some (replicate (nat (maxentries + 1)) (me_memory E))\<rparr> else m);
          m = m\<lparr>nr_ext := 1, mx_time := now\<rparr>
      in map_option (\<lambda>e. ((), put_ext 0
             (e\<lparr>x_dev := dev, x_ctrl := - 1, x_type := MIXT_DEVROOT, x_max := 0, x_min := 0, x_flags := 0, x_id := ''DEVROOT'',
                x_parent := 0, x_time := now, x_handler := None, x_root := (take 15 (mx_id m), take 47 (mx_name m))\<rparr>) m))
           (ext_at m 0))"

text \<open>The parent that is asked for when it is a group, otherwise the root.\<close>

definition parent_of :: "int \<Rightarrow> 'h mixdev \<Rightarrow> int option" where
  "parent_of parent m =
     (let p = (if parent < 0 \<or> nr_ext m \<le> parent then 0 else parent)
      in map_option (\<lambda>e. if x_type e \<noteq> MIXT_DEVROOT \<and> x_type e \<noteq> MIXT_GROUP then 0 else p) (ext_at m p))"

definition new_entry :: "mixext \<Rightarrow> 'h mixdev \<Rightarrow> (int oss_result \<times> 'h mixdev) option" where
  "new_entry e m =
     (if ext_at m (nr_ext m) = None then None
      else Some (Inr (nr_ext m), (put_ext (nr_ext m) e m)\<lparr>nr_ext := nr_ext m + 1\<rparr>))"

definition old_entry :: "'h mixdev \<Rightarrow> mixext option" where
  "old_entry m = ext_at m (nr_ext m)"

definition mixer_ext_create_group_flags ::
  "int \<Rightarrow> int \<Rightarrow> string \<Rightarrow> u32 \<Rightarrow> 'h mixdev \<Rightarrow> (int oss_result \<times> 'h mixdev) option" where
  "mixer_ext_create_group_flags dev parent name fl m =
     (if extensions m = None then Some (Inl OSS_EFAULT, m)
      else case parent_of parent m of None \<Rightarrow> None
      | Some p \<Rightarrow>
          if max_ext m \<le> nr_ext m then Some (Inl OSS_ENOSPC, m)
          else if OSS_ID_SIZE \<le> length name then None
          else case old_entry m of None \<Rightarrow> None
          | Some e \<Rightarrow>
              new_entry (e\<lparr>x_dev := dev, x_ctrl := - 1, x_type := MIXT_GROUP, x_max := 0, x_min := 0,
                  x_flags := fl AND NOT MIXF_DESCR OR MIXF_FLAT, x_id := name, x_parent := p, x_handler := None, x_enum := None,
                  x_present := replicate 32 0xff, x_time := mx_time m, x_control_no := - 1, x_desc := 0, x_root := ([], [])\<rparr>) m)"

definition mixer_ext_create_group :: "int \<Rightarrow> int \<Rightarrow> string \<Rightarrow> 'h mixdev \<Rightarrow> (int oss_result \<times> 'h mixdev) option" where
  "mixer_ext_create_group dev parent name = mixer_ext_create_group_flags dev parent name 0"

definition mixer_ext_truncate :: "int \<Rightarrow> 'h mixdev \<Rightarrow> 'h mixdev" where
  "mixer_ext_truncate i m =
     (if i < nr_ext m then m\<lparr>nr_ext := i, mx_modify_counter := mx_modify_counter m + 1, mx_time := mx_time m + 1\<rparr> else m)"

end
