(* ===== verification/Mixer_Ext.thy ===== *)
theory Mixer_Ext
  imports Mixer_Core
begin

text \<open>
  The tree of controls of a mixer in \<open>oss_mixer_core.c\<close>: the names of controls, which are made from the
  names of the groups above them, the choices of enumerations, the creation of controls, and \<open>touch_mixer\<close>,
  which makes the tree from the masks of the legacy interface when it is used for the first time.
\<close>

section \<open>Choices of an enumeration\<close>

text \<open>The names are separated by spaces, which become the ends of the strings.\<close>

fun rebuild_from :: "nat \<Rightarrow> int \<Rightarrow> int list \<Rightarrow> string \<Rightarrow> int \<times> int list \<times> string" where
  "rebuild_from i n ix [] = (n, ix, [])"
| "rebuild_from i n ix (ch # s) =
     (if n < OSS_ENUM_MAXVALUE \<and> ch = CHR '' '' then
        (case rebuild_from (i + 1) (n + 1) (ix[nat n := int i + 1]) s of (n, ix, s) \<Rightarrow> (n, ix, CHR 0x00 # s))
      else case rebuild_from (i + 1) n ix s of (n, ix, s) \<Rightarrow> (n, ix, ch # s))"

definition c_string :: "string \<Rightarrow> string" where
  "c_string s = takeWhile (\<lambda>ch. ch \<noteq> CHR 0x00) s"

definition rebuild_list :: "enuminfo \<Rightarrow> enuminfo" where
  "rebuild_list e =
     (let s = en_strings e; l = length (c_string s) in
      case rebuild_from 0 1 ((en_index e)[0 := 0]) (take l s) of
        (n, ix, t) \<Rightarrow> e\<lparr>en_nvalues := n, en_index := ix, en_strings := t @ drop l s\<rparr>)"

text \<open>What \<open>mixer_ext_set_enum\<close> does with a mixer that was touched.\<close>

definition set_enum :: "enuminfo \<Rightarrow> 'h mixdev \<Rightarrow> (unit oss_result \<times> 'h mixdev) option" where
  "set_enum ent m =
     (let i = en_ctrl ent in
      if i < 0 \<or> nr_ext m \<le> i then Some (Inl OSS_EIDRM, m)
      else case ext_at m i of None \<Rightarrow> None
      | Some e \<Rightarrow>
          if en_nvalues ent \<le> 0 then Some (Inr (), put_ext i (e\<lparr>x_enum := Some (rebuild_list ent)\<rparr>) m)
          else if OSS_ENUM_MAXVALUE \<le> en_nvalues ent then Some (Inl OSS_EIO, put_ext i (e\<lparr>x_enum := None\<rparr>) m)
          else Some (Inr (), put_ext i (e\<lparr>x_enum := Some ent\<rparr>) m))"

definition strings_enum :: "int \<Rightarrow> int \<Rightarrow> string \<Rightarrow> int \<Rightarrow> enuminfo option" where
  "strings_enum dev i s version =
     (if OSS_ENUM_STRINGSIZE \<le> length s then None
      else Some \<lparr>en_dev = dev, en_ctrl = i, en_nvalues = 0, en_version = version,
                 en_index = replicate (nat OSS_ENUM_MAXVALUE) 0, en_strings = s\<rparr>)"

section \<open>Names of controls\<close>

definition lower_char :: "char \<Rightarrow> char" where
  "lower_char ch = (let n = of_char ch :: nat in if 65 \<le> n \<and> n \<le> 90 then char_of (n + 32) else ch)"

definition store_name :: "string \<Rightarrow> mixext \<Rightarrow> mixext" where
  "store_name name e = e\<lparr>x_extname := map lower_char (take 31 (dropWhile (\<lambda>ch. ch = CHR ''.'') name))\<rparr>"

definition cut_name :: "string \<Rightarrow> string" where
  "cut_name name =
     (case dropWhile (\<lambda>ch. ch \<noteq> CHR ''_'') name of
        [] \<Rightarrow> (case name of [] \<Rightarrow> [] | ch # s \<Rightarrow> if ch = CHR ''@'' then s else name)
      | ch # s \<Rightarrow> s)"

definition mixer_defs :: "(string \<times> string) list" where
  "mixer_defs =
    [(''setup.mon1l'', ''OFF A0 A1 A2 A3 A4 A5 A6 A7 B0 B1 B2 B3 B4 B5 B6 B7''),
     (''setup.mon1r'', ''OFF A0 A1 A2 A3 A4 A5 A6 A7 B0 B1 B2 B3 B4 B5 B6 B7''),
     (''setup.mon2l'', ''OFF A0 A1 A2 A3 A4 A5 A6 A7 B0 B1 B2 B3 B4 B5 B6 B7''),
     (''setup.mon2r'', ''OFF A0 A1 A2 A3 A4 A5 A6 A7 B0 B1 B2 B3 B4 B5 B6 B7''),
     (''fpga.srcclock'', ''44.1K 48K PLL AES''),
     (''fpga.clock'', ''44.1K 48K PLL AES''),
     (''fpga.pll'', ''PORTA PORTB TIMER1 EXTERNAL''),
     (''aes.mode'', ''CONSUMER PRO''),
     (''aes.copy'', ''INHIBITED PERMITTED''),
     (''aes.audio'', ''AUDIO DATA''),
     (''aes.preemph'', ''NONE 50/15us''),
     (''digi32.sync'', ''EXTERNAL INTERNAL''),
     (''digi32.aesmode'', ''CONSUMER PRO''),
     (''digi32.input'', ''OPTICAL RCA INTERNAL XLR''),
     (''out1.src'', ''CODEC DSP''),
     (''in.src'', ''CODEC LINE OPTICAL COAX''),
     (''reverb.type'', ''ROOM1 ROOM2 ROOM3 HALL1 HALL2 PLATE DELAY PANDELAY''),
     (''chorus.type'', ''CHORUS1 CHORUS2 CHORUS3 CHORUS4 FBCHORUS FLANGER SHORTDELAY FBDELAY''),
     (''digi96.sync'', ''EXTERNAL INTERNAL''),
     (''digi96.input'', ''OPTICAL COAXIAL INTERNAL XLR''),
     (''digi96.sel'', ''BYPASS NORMAL''),
     (''digi96.mode'', ''SPDIF AESEBU ADAT''),
     (''digi96.data'', ''AUDIO DATA''),
     (''envy24.sync'', ''INTERNAL SPDIF WCLOCK''),
     (''envy24.spdin'', ''COAX OPTICAL''),
     (''gain.out1/2'', ''+4DB CONSUMER -10DB''),
     (''gain.out3/4'', ''+4DB CONSUMER -10DB''),
     (''gain.out5/6'', ''+4DB CONSUMER -10DB''),
     (''gain.out7/8'', ''+4DB CONSUMER -10DB''),
     (''gain.in1/2'', ''+4DB CONSUMER -10DB''),
     (''gain.in3/4'', ''+4DB CONSUMER -10DB''),
     (''gain.in5/6'', ''+4DB CONSUMER -10DB''),
     (''gain.in7/8'', ''+4DB CONSUMER -10DB''),
     (''gain.out1'', ''+4DB CONSUMER -10DB''),
     (''gain.out2'', ''+4DB CONSUMER -10DB''),
     (''gain.out3'', ''+4DB CONSUMER -10DB''),
     (''gain.out4'', ''+4DB CONSUMER -10DB''),
     (''gain.out5'', ''+4DB CONSUMER -10DB''),
     (''gain.out6'', ''+4DB CONSUMER -10DB''),
     (''gain.out7'', ''+4DB CONSUMER -10DB''),
     (''gain.out8'', ''+4DB CONSUMER -10DB''),
     (''gain.in1'', ''+4DB CONSUMER -10DB''),
     (''gain.in2'', ''+4DB CONSUMER -10DB''),
     (''gain.in3'', ''+4DB CONSUMER -10DB''),
     (''gain.in4'', ''+4DB CONSUMER -10DB''),
     (''gain.in5'', ''+4DB CONSUMER -10DB''),
     (''gain.in6'', ''+4DB CONSUMER -10DB''),
     (''gain.in7'', ''+4DB CONSUMER -10DB''),
     (''gain.in8'', ''+4DB CONSUMER -10DB''),
     (''route.out1/2'', ''DMA MONITOR IN1/2 IN3/4 IN5/6 IN7/8 SPDIF''),
     (''route.out3/4'', ''DMA MONITOR IN1/2 IN3/4 IN5/6 IN7/8 SPDIF''),
     (''route.out5/6'', ''DMA MONITOR IN1/2 IN3/4 IN5/6 IN7/8 SPDIF''),
     (''route.out7/8'', ''DMA MONITOR IN1/2 IN3/4 IN5/6 IN7/8 SPDIF''),
     (''route.spdif'', ''DMA MONITOR IN1/2 IN3/4 IN5/6 IN7/8 SPDIF''),
     (''route.out1'', ''DMA MONITOR IN1 IN2 IN3 IN4 IN5 IN6 IN7 IN8 SPDIFL SPDIFR''),
     (''route.out2'', ''DMA MONITOR IN1 IN2 IN3 IN4 IN5 IN6 IN7 IN8 SPDIFL SPDIFR''),
     (''route.out3'', ''DMA MONITOR IN1 IN2 IN3 IN4 IN5 IN6 IN7 IN8 SPDIFL SPDIFR''),
     (''route.out4'', ''DMA MONITOR IN1 IN2 IN3 IN4 IN5 IN6 IN7 IN8 SPDIFL SPDIFR''),
     (''route.out5'', ''DMA MONITOR IN1 IN2 IN3 IN4 IN5 IN6 IN7 IN8 SPDIFL SPDIFR''),
     (''route.out6'', ''DMA MONITOR IN1 IN2 IN3 IN4 IN5 IN6 IN7 IN8 SPDIFL SPDIFR''),
     (''route.out7'', ''DMA MONITOR IN1 IN2 IN3 IN4 IN5 IN6 IN7 IN8 SPDIFL SPDIFR''),
     (''route.out8'', ''DMA MONITOR IN1 IN2 IN3 IN4 IN5 IN6 IN7 IN8 SPDIFL SPDIFR''),
     (''route.spdifl'', ''DMA MONITOR IN1 IN2 IN3 IN4 IN5 IN6 IN7 IN8 SPDIFL SPDIFR''),
     (''route.spdifr'', ''DMA MONITOR IN1 IN2 IN3 IN4 IN5 IN6 IN7 IN8 SPDIFL SPDIFR''),
     (''ews88d.spdin'', ''OPTICAL COAX''),
     (''ews88d.optout'', ''SPDIF ADAT''),
     (''codec.recsrc'', ''ANALOG OPTICAL COAX CD AUX''),
     (''route.front'', ''DMA ANALOGIN DIGITALIN''),
     (''route.rear'', ''DMA ANALOGIN DIGITALIN''),
     (''route.surround'', ''DMA ANALOGIN DIGITALIN''),
     (''route.c/l'', ''DMA ANALOGIN DIGITALIN''),
     (''route.spdifout'', ''DMA ANALOGIN DIGITALIN''),
     (''lynxone.sync'', ''INTERNAL DIGITAL EXTW EXT27 EXT13 HDRW HDR27 HDR13''),
     (''lynxone.format'', ''AESEBU SPDIF''),
     (''lynxone.trim'', ''+4DB -10DB''),
     (''spkmode'', ''FRONT SURR FRONT+SURR DISCRETE 3D''),
     (''ext.recsrc'', ''SPDIF_OUT I2S_OUT SPDIF_IN I2S_IN AC97 SRC''),
     (''ext.loopback'', ''DSP0 DSP1 DSP2 DSP3''),
     (''3dsurround.mode'', ''OFF NORMAL 2X 3X''),
     (''spdout.pro'', ''Consumer Professional''),
     (''spdout.audio'', ''AUDIO DATA''),
     (''spdout.rate'', ''48000 44100 32000''),
     (''spdif.mode'', ''CONSUMER PRO''),
     (''spdif.audio'', ''AUDIO DATA''),
     (''spdif.copyright'', ''YES NO''),
     (''spdif.generat'', ''COPY ORIGINAL''),
     (''spdif.preemph'', ''OFF 50/16usec''),
     (''mixext.spkmode'', ''FRONT SPREAD''),
     (''effects.reverb.preset'', ''SMALL_ROOM MEDIUM_ROOM LARGE_ROOM SMALL_HALL LARGE_HALL'')]"

definition find_enum_defs :: "int \<Rightarrow> int \<Rightarrow> mixext \<Rightarrow> 'h mixdev \<Rightarrow> 'h mixdev option" where
  "find_enum_defs dev i e m =
     (case map_of mixer_defs (x_extname e) of None \<Rightarrow> Some m
      | Some s \<Rightarrow> Option.bind (strings_enum dev i s 0) (\<lambda>ent. map_option snd (set_enum ent m)))"

text \<open>The types whose names are made from the name of their group.\<close>

definition named_type :: "mixt \<Rightarrow> bool" where
  "named_type t \<longleftrightarrow> t \<in> {MIXT_STEREOSLIDER, MIXT_STEREOSLIDER16, MIXT_STEREODB, MIXT_STEREOVU, MIXT_MONODB,
     MIXT_MONOSLIDER, MIXT_MONOSLIDER16, MIXT_SLIDER, MIXT_MONOVU, MIXT_MONOPEAK, MIXT_STEREOPEAK, MIXT_ONOFF, MIXT_MUTE,
     MIXT_ENUM, MIXT_VALUE, MIXT_HEXVALUE, MIXT_3D}"

definition expand_name :: "int \<Rightarrow> int \<Rightarrow> 'h mixdev \<Rightarrow> 'h mixdev option" where
  "expand_name dev i m =
     (case ext_at m i of None \<Rightarrow> None
      | Some e \<Rightarrow>
          if x_type e = MIXT_DEVROOT then Some (put_ext i (e\<lparr>x_extname := []\<rparr>) m)
          else if x_type e = MIXT_GROUP then
            map_option (\<lambda>p. let name = cut_name (x_id e)
                in put_ext i (store_name (if x_extname p = [] then name else x_extname p @ ''.'' @ name) e) m)
              (ext_at m (x_parent e))
          else if named_type (x_type e) then
            Option.bind (ext_at m (x_parent e)) (\<lambda>p.
              if x_id e = [] \<or> hd (x_id e) = CHR ''-'' then Some (put_ext i (e\<lparr>x_extname := x_extname p\<rparr>) m)
              else
                let e = store_name (x_extname p @ ''.'' @ cut_name (x_id e)) e; m = put_ext i e m
                in if x_type e = MIXT_ENUM then find_enum_defs dev i e m else Some m)
          else Some m)"

fun expand_all :: "int \<Rightarrow> int list \<Rightarrow> 'h mixdev \<Rightarrow> 'h mixdev option" where
  "expand_all dev [] m = Some m"
| "expand_all dev (i # is) m = Option.bind (expand_name dev i m) (expand_all dev is)"

text \<open>Equal names are told apart by numbers at their ends.\<close>

fun decimal :: "nat \<Rightarrow> string" where
  "decimal n = (if n < 10 then [char_of (48 + n)] else decimal (n div 10) @ [char_of (48 + n mod 10)])"

definition add_number :: "nat \<Rightarrow> string \<Rightarrow> string" where
  "add_number k s = (let t = take 31 (decimal k) in take (min (length s) (31 - length t)) s @ t)"

definition same_name :: "string \<Rightarrow> mixext \<Rightarrow> bool" where
  "same_name t e \<longleftrightarrow> x_type e \<noteq> MIXT_GROUP \<and> x_extname e = t"

fun number_dupes :: "string \<Rightarrow> nat \<Rightarrow> nat list \<Rightarrow> mixext list \<Rightarrow> mixext list" where
  "number_dupes t k [] xs = xs"
| "number_dupes t k (j # js) xs =
     (if same_name t (xs ! j) then number_dupes t (k + 1) js (xs[j := (xs ! j)\<lparr>x_extname := add_number k t\<rparr>])
      else number_dupes t k js xs)"

fun fix_dupes :: "nat \<Rightarrow> nat list \<Rightarrow> mixext list \<Rightarrow> mixext list" where
  "fix_dupes n [] xs = xs"
| "fix_dupes n (i # is) xs =
     fix_dupes n is
       (if x_type (xs ! i) \<noteq> MIXT_GROUP \<and> list_ex (\<lambda>j. same_name (x_extname (xs ! i)) (xs ! j)) [i + 1..<n]
        then number_dupes (x_extname (xs ! i)) 1 [i..<n] xs else xs)"

definition expand_names :: "int \<Rightarrow> 'h mixdev \<Rightarrow> 'h mixdev option" where
  "expand_names dev m =
     (let n = nr_ext m; m = m\<lparr>names_checked := True\<rparr> in
      if n < 1 then Some m
      else map_option (\<lambda>m. m\<lparr>extensions := map_option (fix_dupes (nat n) [0..<nat n]) (extensions m)\<rparr>)
             (expand_all dev (map int [0..<nat n]) m))"

section \<open>Groups\<close>

text \<open>All groups above a group are unflattened; the numbers of the parents decrease.\<close>

function unflatten_group :: "int \<Rightarrow> 'h mixdev \<Rightarrow> 'h mixdev option" where
  "unflatten_group g m =
     (if g \<le> 0 \<or> nr_ext m \<le> g then Some m
      else case ext_at m g of None \<Rightarrow> None
      | Some e \<Rightarrow>
          if x_type e \<noteq> MIXT_GROUP \<or> x_flags e AND MIXF_FLAT = 0 then Some m
          else
            let m = put_ext g (e\<lparr>x_flags := x_flags e AND NOT MIXF_FLAT\<rparr>) m
            in if g \<le> x_parent e then Some m else unflatten_group (x_parent e) m)"
  by auto
termination by (relation "measure (\<lambda>(g, m). nat g)") auto

declare unflatten_group.simps [simp del]

definition bump_ext :: "mixext \<Rightarrow> mixext" where
  "bump_ext e = e\<lparr>x_updates := x_updates e + 1\<rparr>"

text \<open>The walk from a group to the root: a walk that is longer than the array runs in a cycle.\<close>

fun touch_from :: "nat \<Rightarrow> int \<Rightarrow> int \<Rightarrow> 'h mixdev \<Rightarrow> 'h mixdev option" where
  "touch_from 0 g i m = None"
| "touch_from (Suc fuel) g i m =
     (case ext_at m i of None \<Rightarrow> None
      | Some e \<Rightarrow>
          if x_type e = MIXT_DEVROOT then Some (put_ext i (bump_ext e) m)
          else if x_type e \<noteq> MIXT_GROUP then Some m
          else if g \<le> x_parent e then Some (put_ext i (bump_ext e) m)
          else Option.bind (unflatten_group (x_parent e) (put_ext i (bump_ext e) m)) (touch_from fuel g (x_parent e)))"

definition touch_parents :: "int \<Rightarrow> 'h mixdev \<Rightarrow> 'h mixdev option" where
  "touch_parents g m = (if g \<le> 0 \<or> nr_ext m \<le> g then Some m else touch_from (nat (nr_ext m)) g g m)"

section \<open>Controls\<close>

definition tall_type :: "mixt \<Rightarrow> bool" where
  "tall_type t \<longleftrightarrow> t \<in> {MIXT_SLIDER, MIXT_MONOSLIDER, MIXT_STEREOSLIDER, MIXT_MONOSLIDER16, MIXT_STEREOSLIDER16,
     MIXT_MONOVU, MIXT_STEREOVU, MIXT_MONOPEAK, MIXT_STEREOPEAK, MIXT_MONODB, MIXT_STEREODB, MIXT_3D}"

definition control_flags :: "mixer_fn option \<Rightarrow> u32 \<Rightarrow> u32" where
  "control_flags f fl =
     (let fl = fl AND NOT MIXF_DESCR in if f = None then fl AND NOT (MIXF_READABLE OR MIXF_WRITEABLE) else fl)"

definition mixer_ext_create_control ::
  "int \<Rightarrow> int \<Rightarrow> int \<Rightarrow> mixer_fn option \<Rightarrow> mixt \<Rightarrow> string \<Rightarrow> int \<Rightarrow> u32 \<Rightarrow> 'h mixdev
     \<Rightarrow> (int oss_result \<times> 'h mixdev) option" where
  "mixer_ext_create_control dev parent ctrl f t name maxvalue fl m =
     (if extensions m = None then Some (Inl OSS_EFAULT, m)
      else if max_ext m \<le> nr_ext m then Some (Inl OSS_ENOSPC, m)
      else case parent_of parent m of None \<Rightarrow> None
      | Some p \<Rightarrow>
          case old_entry m of None \<Rightarrow> None
          | Some e \<Rightarrow>
              let i = nr_ext m; name = take 15 name;
                  e = e\<lparr>x_dev := dev, x_ctrl := ctrl, x_type := t, x_max := maxvalue, x_min := 0,
                        x_flags := control_flags f fl, x_id := name, x_parent := p, x_time := mx_time m, x_handler := f,
                        x_enum := None, x_root := ([], []), x_present := replicate 32 0xff, x_control_no := - 1, x_desc := 0\<rparr>;
                  m = (put_ext i (if names_checked m then e else e\<lparr>x_extname := name\<rparr>) m)\<lparr>nr_ext := i + 1\<rparr>
              in Option.bind (if names_checked m then expand_names dev m else Some m) (\<lambda>m.
                 Option.bind (if tall_type t then unflatten_group p m else Some m) (\<lambda>m.
                 map_option (Pair (Inr i)) (touch_parents p m))))"

end
