(* ===== verification/Mixer_Touch.thy ===== *)
theory Mixer_Touch
  imports Mixer_Ext
begin

text \<open>
  The functions of the controls that the mixer core makes itself, and \<open>touch_mixer\<close>: the first use of a mixer
  makes its tree, first the controls of the legacy interface, then a marker, then those of the
  driver. \<open>touch_mixer\<close> does nothing for a mixer that has a tree, so the operations that it uses itself are
  the ones of \<open>Mixer_Ext\<close>, which do not touch the mixer.
\<close>

section \<open>Functions of legacy controls\<close>

definition mixer_ext_rw :: "int \<Rightarrow> int \<Rightarrow> mix_ioctl \<Rightarrow> int \<Rightarrow> 'h mixer_core \<Rightarrow> int oss_result \<times> 'h mixer_core" where
  "mixer_ext_rw dev ctrl cmd v c =
     (let call = (\<lambda>n. case oss_legacy_mixer_ioctl dev (- 1) n (Mix_Int v) c of
          ((Inl e, x), c) \<Rightarrow> (Inl e, c) | ((Inr r, x), c) \<Rightarrow> (Inr (mix_int x), c))
      in if cmd = MIX_READ then call (MIXER_READ (nat ctrl))
         else if cmd = MIX_WRITE then call (MIXER_WRITE (nat ctrl))
         else (Inl OSS_EINVAL, c))"

definition read_mask :: "int \<Rightarrow> nat \<Rightarrow> 'h mixer_core \<Rightarrow> u32 oss_result \<times> 'h mixer_core" where
  "read_mask dev n c =
     (case oss_legacy_mixer_ioctl dev (- 1) (MIXER_READ n) (Mix_Int 0) c of
        ((Inl e, x), c) \<Rightarrow> (Inl e, c)
      | ((Inr r, x), c) \<Rightarrow> (Inr (word_of_int (mix_int x)), c))"

definition source_bit :: "u32 \<Rightarrow> int \<Rightarrow> int" where
  "source_bit m ctrl = (if m AND push_bit (nat ctrl) 1 \<noteq> 0 then 1 else 0)"

definition mixer_ext_recrw :: "int \<Rightarrow> int \<Rightarrow> mix_ioctl \<Rightarrow> int \<Rightarrow> 'h mixer_core \<Rightarrow> int oss_result \<times> 'h mixer_core" where
  "mixer_ext_recrw dev ctrl cmd v c =
     (case read_mask dev SOUND_MIXER_CAPS c of (caps, c) \<Rightarrow>
      (case read_mask dev SOUND_MIXER_RECSRC c of
         (Inl e, c) \<Rightarrow> (Inl e, c)
       | (Inr m, c) \<Rightarrow>
           if cmd = MIX_READ then (Inr (source_bit m ctrl), c)
           else
             let caps = (case caps of Inl e \<Rightarrow> SOUND_CAP_EXCL_INPUT | Inr w \<Rightarrow> w);
                 m = (if caps AND SOUND_CAP_EXCL_INPUT \<noteq> 0 then 0 else m);
                 m = (if v \<noteq> 0 then m OR push_bit (nat ctrl) 1 else m AND NOT (push_bit (nat ctrl) 1))
             in if m = 0 then (Inr 1, c)
                else
                  case oss_legacy_mixer_ioctl dev (- 1) (MIXER_WRITE SOUND_MIXER_RECSRC) (Mix_Int (signed_take_bit 31 (uint m))) c of
                    ((Inl e, x), c) \<Rightarrow> (Inl e, c)
                  | ((Inr r, x), c) \<Rightarrow> (Inr (source_bit (word_of_int (mix_int x)) ctrl), c)))"

section \<open>Export of the legacy controls\<close>

text \<open>The numbers of the controls are those of \<open>SOUND_DEVICE_NAMES\<close>.\<close>

definition volume_flags :: "nat \<Rightarrow> u32" where
  "volume_flags i =
     (if i \<in> {0, 21, 25, 26, 27} then MIXF_MAINVOL
      else if i \<in> {4, 10} then MIXF_PCMVOL
      else if i \<in> {11, 12} then MIXF_RECVOL
      else if i \<in> {3, 5, 6, 14, 15, 16, 7, 8, 17, 18, 19, 20, 22, 23} then MIXF_MONVOL
      else 0)"

definition control_scope :: "nat \<Rightarrow> u32 \<Rightarrow> u32" where
  "control_scope i d =
     (let d = (if i \<in> {11, 12} then d AND 1 else d);
          d = (if i \<in> {4, 10, 0, 1, 2, 3, 9, 25, 26, 27} then d AND 2 else d)
      in if i \<in> {5, 6, 7, 8, 14, 15, 16, 17, 18, 19, 21, 20, 23, 22} then d AND 3 else d)"

definition jack_color :: "nat \<Rightarrow> int \<Rightarrow> int" where
  "jack_color i d =
     (if i = 7 then 0xe88c99 else if i = 6 then 0x7aabde else if i = 0 then 0xb3c98c else if i = 25 then 0x2b2926
      else if i = 27 then 0xd1ccc4 else if i = 26 then 0xe89e47 else d)"

definition edit_ext :: "int oss_result \<Rightarrow> (mixext \<Rightarrow> mixext) \<Rightarrow> 'h mixdev \<Rightarrow> 'h mixdev" where
  "edit_ext r f m =
     (case r of Inl e \<Rightarrow> m
      | Inr i \<Rightarrow> if i < 0 \<or> nr_ext m \<le> i then m else case ext_at m i of None \<Rightarrow> m | Some e \<Rightarrow> put_ext i (f e) m)"

definition export_slider :: "int \<Rightarrow> u32 \<Rightarrow> nat \<Rightarrow> int \<Rightarrow> 'h mixdev \<Rightarrow> 'h mixdev option" where
  "export_slider dev stereo i g m =
     map_option (\<lambda>(r, m). edit_ext r (\<lambda>e. e\<lparr>x_control_no := int i, x_desc := control_scope i (x_desc e),
                                            x_rgb := jack_color i (x_rgb e)\<rparr>) m)
       (mixer_ext_create_control dev g (int i) (Some Mixer_Ext_Rw)
          (if bit stereo i then MIXT_STEREOSLIDER else MIXT_MONOSLIDER) [] 100
          (volume_flags i OR MIXF_READABLE OR MIXF_WRITEABLE) m)"

definition export_switch :: "int \<Rightarrow> u32 \<Rightarrow> nat \<Rightarrow> int \<Rightarrow> 'h mixdev \<Rightarrow> 'h mixdev option" where
  "export_switch dev rm i g m =
     (if \<not> bit rm i then Some m
      else map_option (\<lambda>(r, m). edit_ext r (\<lambda>e. e\<lparr>x_desc := x_desc e AND 4\<rparr>) m)
        (mixer_ext_create_control dev g (int i) (Some Mixer_Ext_Recrw) MIXT_ONOFF ''REC'' 1
           (MIXF_READABLE OR MIXF_WRITEABLE OR MIXF_RECVOL) m))"

definition export_control :: "int \<Rightarrow> u32 \<Rightarrow> u32 \<Rightarrow> nat \<Rightarrow> 'h mixdev \<Rightarrow> 'h mixdev option" where
  "export_control dev stereo rm i m =
     (case mixer_ext_create_group_flags dev 0 (SOUND_DEVICE_NAMES ! i) MIXF_LEGACY m of
        None \<Rightarrow> None
      | Some (Inl e, m) \<Rightarrow> Some m
      | Some (Inr g, m) \<Rightarrow>
          if g \<le> 0 then Some m else Option.bind (export_slider dev stereo i g m) (export_switch dev rm i g))"

fun export_controls :: "int \<Rightarrow> u32 \<Rightarrow> u32 \<Rightarrow> nat list \<Rightarrow> 'h mixdev \<Rightarrow> 'h mixdev option" where
  "export_controls dev stereo rm [] m = Some m"
| "export_controls dev stereo rm (i # is) m =
     Option.bind (export_control dev stereo rm i m) (export_controls dev stereo rm is)"

section \<open>The first use\<close>

text \<open>The number of entries to make room for, and the masks of the capabilities, the controls and the
  sources unless one of the last two is not known.\<close>

definition touch_masks :: "int \<Rightarrow> u32 \<Rightarrow> int \<Rightarrow> 'h mixer_core \<Rightarrow> (int \<times> (u32 \<times> u32 \<times> u32) option) \<times> 'h mixer_core" where
  "touch_masks dev ignored extra c =
     (let n = max 20 extra in
      case read_mask dev SOUND_MIXER_CAPS c of (caps, c) \<Rightarrow>
      let caps = (case caps of Inl e \<Rightarrow> 0 | Inr w \<Rightarrow> w) in
      case read_mask dev SOUND_MIXER_DEVMASK c of
        (Inl e, c) \<Rightarrow> ((n, None), c)
      | (Inr dm, c) \<Rightarrow>
          let dm = dm AND NOT ignored; n = (n + int (length (sources dm))) * 2 in
          case read_mask dev SOUND_MIXER_RECMASK c of
            (Inl e, c) \<Rightarrow> ((n, None), c)
          | (Inr rm, c) \<Rightarrow> ((n + int (length (sources rm)) + 5, Some (caps, dm, rm)), c))"

definition export_legacy :: "int \<Rightarrow> (u32 \<times> u32 \<times> u32) option \<Rightarrow> 'h mixer_core \<Rightarrow> 'h mixer_core option" where
  "export_legacy dev masks c =
     (case masks of None \<Rightarrow> Some c
      | Some (caps, dm, rm) \<Rightarrow>
          (case read_mask dev SOUND_MIXER_STEREODEVS c of (st, c) \<Rightarrow>
             if caps AND SOUND_CAP_NOLEGACY \<noteq> 0 then Some c
             else map_option snd (on_mixer dev (\<lambda>m. map_option (Pair ())
                    (export_controls dev (case st of Inl e \<Rightarrow> - 1 | Inr w \<Rightarrow> w) rm (sources dm) m)) c)))"

definition touch_mixer :: "'h mixer_env \<Rightarrow> int \<Rightarrow> 'h mixer_core \<Rightarrow> 'h mixer_core option" where
  "touch_mixer E dev c =
     (case mixer_at c dev of
        None \<Rightarrow> if mc_table c \<and> 0 \<le> dev \<and> dev < MAX_MIXER_DEV then Some c else None
      | Some m \<Rightarrow>
          if mixer_off m \<or> 0 < nr_ext m then Some c
          else
            case touch_masks dev (ignore_mask m) (nr_extra_ext m) c of ((n, masks), c) \<Rightarrow>
            Option.bind (on_mixer dev (mixer_ext_create_device E (me_jiffies E (mc_hw c)) dev n) c) (\<lambda>(_, c).
            Option.bind (export_legacy dev masks c) (\<lambda>c.
            Option.bind (on_mixer dev (mixer_ext_create_control dev 0 0 None MIXT_MARKER [] 0 0) c) (\<lambda>(_, c).
            Option.bind (case mx_create m of None \<Rightarrow> Some c | Some k \<Rightarrow> me_create E k dev c) (\<lambda>c.
            map_option snd (on_mixer dev (\<lambda>m. map_option (Pair ()) (expand_names dev m)) c))))))"

end
