(* ===== verification/Mixer_Calls.thy ===== *)
theory Mixer_Calls
  imports Mixer_Touch
begin

text \<open>
  The operations that drivers and applications call in \<open>oss_mixer_core.c\<close>: choices and descriptions of controls,
  the functions that make a driver's part of the tree, the \<open>ioctl\<close> calls on the tree and the installation of
  mixers. A call that fails leaves its argument as it was, or as it is then in memory.
\<close>

section \<open>Operations for drivers\<close>

definition known_mixer :: "'h mixer_core \<Rightarrow> int \<Rightarrow> bool" where
  "known_mixer c dev \<longleftrightarrow> 0 \<le> dev \<and> dev < int (length (mixers c))"

text \<open>An operation on a mixer that is touched first.\<close>

definition touched ::
  "'h mixer_env \<Rightarrow> int \<Rightarrow> ('h mixdev \<Rightarrow> ('a oss_result \<times> 'h mixdev) option) \<Rightarrow> 'h mixer_core \<Rightarrow> ('a, 'h) mixer_result" where
  "touched E dev f c =
     (if \<not> known_mixer c dev then Some (Inl OSS_ENXIO, c)
      else Option.bind (touch_mixer E dev c) (on_mixer dev f))"

definition mixer_ext_set_enum :: "'h mixer_env \<Rightarrow> enuminfo \<Rightarrow> 'h mixer_core \<Rightarrow> (unit, 'h) mixer_result" where
  "mixer_ext_set_enum E ent = touched E (en_dev ent) (set_enum ent)"

definition mixer_ext_set_strings ::
  "'h mixer_env \<Rightarrow> int \<Rightarrow> int \<Rightarrow> string \<Rightarrow> int \<Rightarrow> 'h mixer_core \<Rightarrow> (unit, 'h) mixer_result" where
  "mixer_ext_set_strings E dev i s version c =
     Option.bind (strings_enum dev i s version) (\<lambda>ent. mixer_ext_set_enum E ent c)"

text \<open>The description is copied to a block of its length, and its last character is then replaced by the
  null. An empty description has a block of no bytes.\<close>

definition set_description :: "int \<Rightarrow> string \<Rightarrow> 'h mixdev \<Rightarrow> (unit oss_result \<times> 'h mixdev) option" where
  "set_description i s m =
     (if i < 0 \<or> nr_ext m \<le> i then Some (Inl OSS_EIDRM, m)
      else case ext_at m i of None \<Rightarrow> None
      | Some e \<Rightarrow>
          let l = min (length s) OSS_ENUM_STRINGSIZE in
          if l = 0 then None
          else Some (Inr (), put_ext i (e\<lparr>x_descr := Some (take (l - 1) s), x_flags := x_flags e OR MIXF_DESCR\<rparr>) m))"

definition mixer_ext_set_description ::
  "'h mixer_env \<Rightarrow> int \<Rightarrow> int \<Rightarrow> string \<Rightarrow> 'h mixer_core \<Rightarrow> (unit, 'h) mixer_result" where
  "mixer_ext_set_description E dev i s = touched E dev (set_description i s)"

definition mixer_find_ext :: "'h mixer_env \<Rightarrow> int \<Rightarrow> int \<Rightarrow> 'h mixer_core \<Rightarrow> (mixext option \<times> 'h mixer_core) option" where
  "mixer_find_ext E dev i c =
     (if \<not> known_mixer c dev then Some (None, c)
      else Option.bind (touch_mixer E dev c) (on_mixer dev (\<lambda>m.
        if i < 0 \<or> nr_ext m \<le> i then Some (None, m) else map_option (\<lambda>e. (Some e, m)) (ext_at m i))))"

definition mixer_ext_set_init_fn :: "int \<Rightarrow> nat option \<Rightarrow> int \<Rightarrow> 'h mixer_core \<Rightarrow> (unit, 'h) mixer_result" where
  "mixer_ext_set_init_fn dev f nextra c =
     (if \<not> known_mixer c dev then Some (Inl OSS_ENXIO, c)
      else on_mixer dev (\<lambda>m. Some (Inr (), m\<lparr>nr_extra_ext := nextra, mx_create := f\<rparr>)) c)"

definition mixer_ext_rebuild_all :: "'h mixer_env \<Rightarrow> int \<Rightarrow> nat option \<Rightarrow> int \<Rightarrow> 'h mixer_core \<Rightarrow> (unit, 'h) mixer_result" where
  "mixer_ext_rebuild_all E dev f nextra c =
     (case mixer_at c dev of None \<Rightarrow> Some (Inl OSS_ENXIO, c)
      | Some m \<Rightarrow>
          map_option (Pair (Inr ()))
            (Option.bind (touch_mixer E dev (put_mixer dev (m\<lparr>nr_ext := 0, nr_extra_ext := nextra, mx_create := f\<rparr>) c)) (\<lambda>c.
               case Option.bind (mixer_at c dev) mx_create_vmix of None \<Rightarrow> Some c | Some k \<Rightarrow> me_create E k dev c)))"

definition mixer_ext_set_vmix_init_fn :: "'h mixer_env \<Rightarrow> int \<Rightarrow> nat \<Rightarrow> int \<Rightarrow> 'h mixer_core \<Rightarrow> (unit, 'h) mixer_result" where
  "mixer_ext_set_vmix_init_fn E dev f nextra c =
     (case mixer_at c dev of None \<Rightarrow> Some (Inl OSS_ENXIO, c)
      | Some m \<Rightarrow>
          Option.bind (touch_mixer E dev (put_mixer dev (m\<lparr>nr_extra_ext := nr_extra_ext m + nextra, mx_create_vmix := Some f\<rparr>) c))
            (\<lambda>c. Option.bind (me_create E f dev c)
              (on_mixer dev (\<lambda>m. map_option (Pair (Inr ())) (expand_names dev m)))))"

section \<open>Calls on controls\<close>

type_synonym 'h mix_reply = "((int oss_result \<times> mix_arg) \<times> 'h mixer_core) option"

definition polled :: "mixt \<Rightarrow> bool" where
  "polled t \<longleftrightarrow> t \<in> {MIXT_MONOPEAK, MIXT_STEREOPEAK, MIXT_MONOVU, MIXT_STEREOVU}"

text \<open>A control that an argument names: \<open>k\<close> continues with the entry. \<open>y\<close> is the argument of a
  call that fails.\<close>

definition with_ext ::
  "'h mixer_env \<Rightarrow> int \<Rightarrow> int \<Rightarrow> mix_arg \<Rightarrow> (mixext \<Rightarrow> 'h mixer_core \<Rightarrow> 'h mix_reply) \<Rightarrow> 'h mixer_core \<Rightarrow> 'h mix_reply" where
  "with_ext E dev i y k c =
     Option.bind (touch_mixer E dev c) (\<lambda>c.
       case mixer_at c dev of None \<Rightarrow> None
       | Some m \<Rightarrow>
           if i < 0 \<or> nr_ext m \<le> i then Some ((Inl OSS_EIDRM, y), c)
           else Option.bind (ext_at m i) (\<lambda>e. k e c))"

definition oss_mixer_ext_info :: "'h mixer_env \<Rightarrow> mixext \<Rightarrow> 'h mixer_core \<Rightarrow> 'h mix_reply" where
  "oss_mixer_ext_info E ent c =
     (case mixer_at c (x_dev ent) of None \<Rightarrow> Some ((Inl OSS_ENXIO, Mix_Ext ent), c)
      | Some m \<Rightarrow>
          if mixer_off m then Some ((Inl OSS_ENXIO, Mix_Ext ent), c)
          else with_ext E (x_dev ent) (x_ctrl ent) (Mix_Ext ent) (\<lambda>e c.
            let fl = (if polled (x_type e) then x_flags e OR MIXF_POLL else x_flags e);
                fl = (if fl AND MIXF_WRITEABLE = 0 then fl OR MIXF_POLL else fl)
            in Some ((Inr 0, Mix_Ext (e\<lparr>x_flags := fl, x_ctrl := x_ctrl ent\<rparr>)), c)) c)"

definition zero_enum :: enuminfo where
  "zero_enum = \<lparr>en_dev = 0, en_ctrl = 0, en_nvalues = 0, en_version = 0, en_index = replicate (nat OSS_ENUM_MAXVALUE) 0, en_strings = []\<rparr>"

definition mixer_ext_get_enuminfo :: "'h mixer_env \<Rightarrow> enuminfo \<Rightarrow> 'h mixer_core \<Rightarrow> 'h mix_reply" where
  "mixer_ext_get_enuminfo E ent c =
     (let y = Mix_Enum zero_enum in
      if \<not> known_mixer c (en_dev ent) then Some ((Inl OSS_ENXIO, y), c)
      else with_ext E (en_dev ent) (en_ctrl ent) y (\<lambda>e c.
        Some (case x_enum e of None \<Rightarrow> ((Inl OSS_EIO, y), c) | Some n \<Rightarrow> ((Inr 0, Mix_Enum (n\<lparr>en_ctrl := en_ctrl ent\<rparr>)), c))) c)"

definition mixer_ext_get_description :: "'h mixer_env \<Rightarrow> enuminfo \<Rightarrow> 'h mixer_core \<Rightarrow> 'h mix_reply" where
  "mixer_ext_get_description E ent c =
     (let y = Mix_Enum zero_enum in
      if \<not> known_mixer c (en_dev ent) then Some ((Inl OSS_ENXIO, y), c)
      else with_ext E (en_dev ent) (en_ctrl ent) y (\<lambda>e c.
        Some (case x_descr e of None \<Rightarrow> ((Inl OSS_EIO, y), c)
              | Some s \<Rightarrow> ((Inr 0, Mix_Enum (zero_enum\<lparr>en_strings := take (OSS_ENUM_STRINGSIZE - 1) s, en_ctrl := en_ctrl ent\<rparr>)), c))) c)"

definition call_handler ::
  "'h mixer_env \<Rightarrow> mixer_fn \<Rightarrow> int \<Rightarrow> int \<Rightarrow> mix_ioctl \<Rightarrow> int \<Rightarrow> 'h mixer_core \<Rightarrow> (int, 'h) mixer_result" where
  "call_handler E f dev ctrl cmd v c =
     (case f of Mixer_Ext_Rw \<Rightarrow> Some (mixer_ext_rw dev ctrl cmd v c)
      | Mixer_Ext_Recrw \<Rightarrow> Some (mixer_ext_recrw dev ctrl cmd v c)
      | Driver_Fn k \<Rightarrow> me_handler E k dev ctrl cmd v c)"

definition give_value :: "mixer_value \<Rightarrow> (int, 'h) mixer_result \<Rightarrow> 'h mix_reply" where
  "give_value val r =
     map_option (\<lambda>(r, c). ((r, case r of Inl e \<Rightarrow> Mix_Value val | Inr v \<Rightarrow> Mix_Value (val\<lparr>mv_value := v\<rparr>)), c)) r"

definition mixer_ext_read :: "'h mixer_env \<Rightarrow> mixer_value \<Rightarrow> 'h mixer_core \<Rightarrow> 'h mix_reply" where
  "mixer_ext_read E val c =
     (let dev = mv_dev val; y = Mix_Value val in
      case mixer_at c dev of None \<Rightarrow> Some ((Inl OSS_ENXIO, y), c)
      | Some m \<Rightarrow>
          if mixer_off m then Some ((Inl OSS_ENXIO, y), c)
          else with_ext E dev (mv_ctrl val) y (\<lambda>e c.
            if mv_time val \<noteq> x_time e then Some ((Inl OSS_EIDRM, y), c)
            else case x_handler e of None \<Rightarrow> Some ((Inl OSS_EFAULT, y), c)
            | Some f \<Rightarrow>
                if x_flags e AND MIXF_READABLE = 0 then Some ((Inl OSS_EFAULT, y), c)
                else give_value val (call_handler E f dev (x_ctrl e) MIX_READ (mv_value val) c)) c)"

definition count_write :: "int \<Rightarrow> int \<Rightarrow> int oss_result \<times> 'h mixer_core \<Rightarrow> (int, 'h) mixer_result" where
  "count_write dev i rc =
     (case rc of
        (Inl e, c) \<Rightarrow> Some (Inl e, c)
      | (Inr v, c) \<Rightarrow>
          if v < 0 then Some (Inr v, c)
          else on_mixer dev (\<lambda>m. map_option (\<lambda>e. (Inr v, put_ext i (bump_ext e) m)) (ext_at m i)) c)"

definition mixer_ext_write :: "'h mixer_env \<Rightarrow> mixer_value \<Rightarrow> 'h mixer_core \<Rightarrow> 'h mix_reply" where
  "mixer_ext_write E val c =
     (let dev = mv_dev val; y = Mix_Value val in
      case mixer_at c dev of None \<Rightarrow> Some ((Inl OSS_ENXIO, y), c)
      | Some m \<Rightarrow>
          if mixer_off m then Some ((Inl OSS_ENXIO, y), c)
          else with_ext E dev (mv_ctrl val) y (\<lambda>e c.
            case x_handler e of None \<Rightarrow> Some ((Inl OSS_EFAULT, y), c)
            | Some f \<Rightarrow>
                if x_flags e AND MIXF_WRITEABLE = 0 then Some ((Inl OSS_EFAULT, y), c)
                else if mv_time val \<noteq> x_time e then Some ((Inl OSS_EIDRM, y), c)
                else
                  Option.bind (on_mixer dev (\<lambda>m. Some ((), m\<lparr>mx_modify_counter := mx_modify_counter m + 1\<rparr>)) c) (\<lambda>(_, c).
                  give_value val (Option.bind (call_handler E f dev (x_ctrl e) MIX_WRITE (mv_value val) c)
                    (count_write dev (mv_ctrl val))))) c)"

section \<open>The dispatcher\<close>

datatype dev_class = Dev_Mixer | Dev_Other

definition OSS_VERSION_NUMBER :: int where "OSS_VERSION_NUMBER = 0x040100"
definition HARD_MAX_AUDIO_DEVFILES :: int where "HARD_MAX_AUDIO_DEVFILES = 256"

definition mixerinfo_of :: "int \<Rightarrow> 'h mixdev \<Rightarrow> mixerinfo" where
  "mixerinfo_of dev m = \<lparr>im_dev = dev, im_id = mx_id m, im_name = take 31 (mx_name m), im_modify_counter = mx_modify_counter m,
     im_card = mx_card m, im_port = mx_port m, im_handle = mx_handle m, im_enabled = (\<not> mixer_off m), im_caps = mx_caps m,
     im_flags = mx_flags m, im_nrext = nr_ext m, im_priority = mx_priority m, im_devnode = mx_devnode m,
     im_legacy = mx_real_dev m\<rparr>"

definition get_mixerinfo :: "'h mixer_env \<Rightarrow> int \<Rightarrow> dev_class \<Rightarrow> mixerinfo \<Rightarrow> 'h mixer_core \<Rightarrow> 'h mix_reply" where
  "get_mixerinfo E orig cl info c =
     (let y = Mix_Device info in
      if im_dev info = - 1 \<and> cl \<noteq> Dev_Mixer then Some ((Inl OSS_EINVAL, y), c)
      else
        let dev = (if im_dev info = - 1 then orig else im_dev info) in
        if \<not> known_mixer c dev then Some ((Inl OSS_ENXIO, y), c)
        else Option.bind (touch_mixer E dev c) (\<lambda>c.
          map_option (\<lambda>m. ((Inr 0, Mix_Device (mixerinfo_of dev m)), c)) (mixer_at c dev)))"

fun renum_mixers :: "int list \<Rightarrow> 'h mixdev list \<Rightarrow> bool \<times> 'h mixdev list" where
  "renum_mixers (d # ds) (m # ms) =
     (if HARD_MAX_AUDIO_DEVFILES \<le> d then (False, m # ms)
      else case renum_mixers ds ms of (ok, ms) \<Rightarrow> (ok, m\<lparr>mx_real_dev := d\<rparr> # ms))"
| "renum_mixers ds ms = (True, ms)"

definition count_entries :: "'h mixer_env \<Rightarrow> int \<Rightarrow> int \<Rightarrow> 'h mixer_core \<Rightarrow> 'h mix_reply" where
  "count_entries E orig v c =
     (let dev = (if v = - 1 then orig else v); y = Mix_Int 0 in
      case mixer_at c dev of None \<Rightarrow> Some ((Inl OSS_ENXIO, y), c)
      | Some m \<Rightarrow>
          if mixer_off m then Some ((Inl OSS_ENXIO, y), c)
          else Option.bind (touch_mixer E dev c) (\<lambda>c.
            map_option (\<lambda>m. ((Inr (nr_ext m), Mix_Int (nr_ext m)), c)) (mixer_at c dev)))"

text \<open>\<open>root\<close>: the process belongs to the superuser.\<close>

definition oss_mixer_ext ::
  "'h mixer_env \<Rightarrow> bool \<Rightarrow> int \<Rightarrow> dev_class \<Rightarrow> mix_ioctl \<Rightarrow> mix_arg \<Rightarrow> 'h mixer_core \<Rightarrow> 'h mix_reply" where
  "oss_mixer_ext E root orig cl cmd x c =
     (let n = int (length (mixers c)); bad = Some ((Inl OSS_EFAULT, x), c) in
      case cmd of
        MIX_NRMIX \<Rightarrow> Some ((Inr n, Mix_Int n), c)
      | MIX_NREXT \<Rightarrow> count_entries E orig (mix_int x) c
      | MIX_EXTINFO \<Rightarrow> (case x of Mix_Ext e \<Rightarrow> oss_mixer_ext_info E e c | _ \<Rightarrow> bad)
      | MIX_ENUMINFO \<Rightarrow> (case x of Mix_Enum e \<Rightarrow> mixer_ext_get_enuminfo E e c | _ \<Rightarrow> bad)
      | MIX_DESCRIPTION \<Rightarrow> (case x of Mix_Enum e \<Rightarrow> mixer_ext_get_description E e c | _ \<Rightarrow> bad)
      | MIX_READ \<Rightarrow> (case x of Mix_Value v \<Rightarrow> mixer_ext_read E v c | _ \<Rightarrow> bad)
      | MIX_WRITE \<Rightarrow> (case x of Mix_Value v \<Rightarrow> mixer_ext_write E v c | _ \<Rightarrow> bad)
      | OSS_GETVERSION \<Rightarrow> Some ((Inr OSS_VERSION_NUMBER, Mix_Int OSS_VERSION_NUMBER), c)
      | MIXERINFO \<Rightarrow> (case x of Mix_Device i \<Rightarrow> get_mixerinfo E orig cl i c | _ \<Rightarrow> bad)
      | RENUM_MIXERDEVS \<Rightarrow>
          (case x of
             Mix_Map ds \<Rightarrow>
               if \<not> root \<or> int (length ds) \<noteq> n then Some ((Inl OSS_EINVAL, x), c)
               else (case renum_mixers ds (mixers c) of
                       (ok, ms) \<Rightarrow> Some ((if ok then Inr 0 else Inl OSS_EINVAL, x), c\<lparr>mixers := ms\<rparr>))
           | _ \<Rightarrow> bad)
      | Info_Call k \<Rightarrow> me_info E k orig x c
      | _ \<Rightarrow> Some ((Inl OSS_EINVAL, x), c))"

text \<open>A file that exists is opened whatever its mixer is; the checks are made for those that do not exist,
  through the \<open>NULL\<close> of the table.\<close>

definition oss_mixer_open :: "int \<Rightarrow> 'h mixer_core \<Rightarrow> unit oss_result option" where
  "oss_mixer_open dev c = (if known_mixer c dev then Some (Inr ()) else if \<not> mc_table c then Some (Inr ()) else None)"

definition direct_call :: "mix_ioctl \<Rightarrow> bool" where
  "direct_call cmd = (case cmd of Info_Call k \<Rightarrow> True
     | _ \<Rightarrow> cmd \<in> {MIXERINFO, RENUM_MIXERDEVS, MIX_EXTINFO, MIX_ENUMINFO, MIX_READ, MIX_WRITE, MIX_NRMIX})"

definition oss_mixer_ioctl :: "'h mixer_env \<Rightarrow> bool \<Rightarrow> int \<Rightarrow> mix_ioctl \<Rightarrow> mix_arg \<Rightarrow> 'h mixer_core \<Rightarrow> 'h mix_reply" where
  "oss_mixer_ioctl E root dev cmd x c =
     (if cmd = OSS_GETVERSION then Some ((Inr OSS_VERSION_NUMBER, Mix_Int OSS_VERSION_NUMBER), c)
      else if direct_call cmd then oss_mixer_ext E root dev Dev_Mixer cmd x c
      else case mixer_at c dev of None \<Rightarrow> Some ((Inl OSS_ENXIO, x), c)
      | Some m \<Rightarrow>
          if mixer_off m then Some ((Inl OSS_ENODEV, x), c)
          else case oss_legacy_mixer_ioctl dev (- 1) cmd x c of
            ((r, x), c) \<Rightarrow> if r = Inl OSS_EINVAL then oss_mixer_ext E root dev Dev_Mixer cmd x c else Some ((r, x), c))"

section \<open>Installation\<close>

record osdev =
  od_nick :: string
  od_handle :: string
  od_cardnum :: int
  od_num_mixers :: int
  od_first_mixer :: int
  od_os_id :: nat

definition two_digits :: "nat \<Rightarrow> string" where
  "two_digits n = (if n < 10 then ''0'' else []) @ decimal n"

definition node_name :: "osdev \<Rightarrow> string" where
  "node_name od = ''oss/'' @ od_nick od @ ''/mix'' @ decimal (nat (od_num_mixers od - 1))"

definition fresh_mixer :: "'h mixdev" where
  "fresh_mixer = \<lparr>mx_name = [], mx_id = [], mx_ioctl = None, mx_modify_counter = 0, nr_extra_ext = 0, mx_create = None, nr_ext = 0,
     names_checked = False, max_ext = 0, mx_time = 0, extensions = None, ignore_mask = 0, mx_card = 0, mx_port = 0,
     mx_enabled = False, mx_unloaded = False, mx_caps = 0, mx_flags = 0, mx_handle = [], mx_os_id = 0, mx_priority = 0,
     mx_devnode = [], mx_real_dev = 0, mx_create_vmix = None\<rparr>"

definition returning_mixer :: "osdev \<Rightarrow> 'h mixdev list \<Rightarrow> nat option" where
  "returning_mixer od ms = List.find (\<lambda>i. mx_unloaded (ms ! i) \<and> mx_os_id (ms ! i) = od_os_id od) [0..<length ms]"

definition set_up_mixer ::
  "u32 \<Rightarrow> osdev \<Rightarrow> string \<Rightarrow> 'h legacy_method option \<Rightarrow> int \<Rightarrow> 'h mixdev \<Rightarrow> 'h mixdev" where
  "set_up_mixer now od name f num m =
     m\<lparr>mx_id := od_nick od, mx_ioctl := f, mx_name := take 63 name, mx_os_id := od_os_id od, max_ext := 0, nr_ext := 0,
       names_checked := False, extensions := None, mx_time := now, ignore_mask := 0, mx_card := od_cardnum od,
       mx_enabled := True, mx_unloaded := False, mx_flags := 0, mx_caps := 0, mx_priority := 0, mx_real_dev := num,
       mx_devnode := ''/dev/'' @ node_name od\<rparr>"

definition oss_install_mixer ::
  "'h mixer_env \<Rightarrow> int \<Rightarrow> osdev \<Rightarrow> string \<Rightarrow> 'h legacy_method option \<Rightarrow> 'h mixer_core \<Rightarrow> int oss_result \<times> osdev \<times> 'h mixer_core" where
  "oss_install_mixer E vers od name f c =
     (let c = c\<lparr>mc_table := True\<rparr>; ms = mixers c; now = me_jiffies E (mc_hw c);
          first = (\<lambda>num od. if od_first_mixer od = - 1 then od\<lparr>od_first_mixer := num\<rparr> else od) in
      if MAX_MIXER_DEV - 1 \<le> int (length ms) then (Inl OSS_EIO, od, c)
      else if vers \<noteq> 2 then (Inl OSS_EIO, od, c)
      else case returning_mixer od ms of
        Some i \<Rightarrow>
          (Inr (int i), first (int i) od, c\<lparr>mixers := ms[i := set_up_mixer now od name f (int i) (ms ! i)]\<rparr>)
      | None \<Rightarrow>
          let num = int (length ms);
              m = fresh_mixer\<lparr>mx_handle := od_handle od @ ''-mx'' @ two_digits (nat (od_num_mixers od + 1)), mx_port := od_num_mixers od\<rparr>;
              od = od\<lparr>od_num_mixers := od_num_mixers od + 1\<rparr>
          in (Inr num, first num od, c\<lparr>mixers := ms @ [set_up_mixer now od name f num m]\<rparr>))"

end
