(* ===== verification/Mixer_Tree_Laws.thy ===== *)
theory Mixer_Tree_Laws
  imports Mixer_Calls
begin

text \<open>
  The tree of a mixer stays a tree: the parent of an entry is a group or the root and has a smaller number.
  That is why the walks to the root end and no operation leaves the arrays, whatever the drivers
  and the applications do in a session.
\<close>

section \<open>What the operations on entries keep\<close>

text \<open>The part of an entry that only its creation sets.\<close>

type_synonym entry = "mixt \<times> int \<times> int \<times> string \<times> mixer_fn option \<times> int \<times> u32"

definition link :: "mixext \<Rightarrow> entry" where
  "link e = (x_type e, x_parent e, x_ctrl e, x_id e, x_handler e, x_max e, x_time e)"

definition skel :: "'h mixdev \<Rightarrow> entry list option" where
  "skel m = map_option (map link) (extensions m)"

definition same_tree :: "'h mixdev \<Rightarrow> 'h mixdev \<Rightarrow> bool" where
  "same_tree m m' \<longleftrightarrow> skel m' = skel m \<and> nr_ext m' = nr_ext m \<and> max_ext m' = max_ext m \<and> mixer_off m' = mixer_off m \<and>
     mx_time m' = mx_time m \<and> mx_ioctl m' = mx_ioctl m"

lemma same_tree_refl [simp]: "same_tree m m" by (simp add: same_tree_def)

lemma same_tree_trans: "same_tree m1 m2 \<Longrightarrow> same_tree m2 m3 \<Longrightarrow> same_tree m1 m3" by (simp add: same_tree_def)

lemma ext_at_link: "map_option link (ext_at m i) =
    (case skel m of None \<Rightarrow> None | Some xs \<Rightarrow> if 0 \<le> i \<and> i < int (length xs) then Some (xs ! nat i) else None)"
  by (auto simp: ext_at_def skel_def split: option.splits)

lemma ext_at_same: "same_tree m m' \<Longrightarrow> map_option link (ext_at m' i) = map_option link (ext_at m i)"
  by (simp add: ext_at_link same_tree_def)

lemma same_tree_ext:
  assumes "same_tree m m'" and "ext_at m i = Some e"
  obtains e' where "ext_at m' i = Some e'" and "link e' = link e"
  using ext_at_same [OF assms(1), of i] assms(2) by (auto simp: map_option_case split: option.splits)

lemma same_tree_put:
  assumes "ext_at m i = Some e" and "link e' = link e" shows "same_tree m (put_ext i e' m)"
proof -
  have "map link (xs[nat i := e']) = map link xs" if "extensions m = Some xs" for xs
    using assms that by (auto simp: ext_at_def map_update list_update_same_conv split: if_splits)
  then show ?thesis by (cases "extensions m") (auto simp: same_tree_def skel_def put_ext_def mixer_off_def)
qed

lemma link_updates [simp]:
  "link (e\<lparr>x_flags := fl\<rparr>) = link e" "link (bump_ext e) = link e" "link (e\<lparr>x_extname := s\<rparr>) = link e"
  "link (e\<lparr>x_enum := n\<rparr>) = link e" "link (store_name s e) = link e" "link (e\<lparr>x_descr := d\<rparr>) = link e"
  "link (e\<lparr>x_control_no := k, x_desc := w, x_rgb := z\<rparr>) = link e" "link (e\<lparr>x_desc := w\<rparr>) = link e"
  by (simp_all add: link_def bump_ext_def store_name_def)

section \<open>Trees\<close>

definition group_type :: "mixt \<Rightarrow> bool" where
  "group_type t \<longleftrightarrow> t = MIXT_DEVROOT \<or> t = MIXT_GROUP"

definition rooted :: "entry list \<Rightarrow> nat \<Rightarrow> bool" where
  "rooted ls n \<longleftrightarrow> n \<le> length ls \<and> fst (ls ! 0) = MIXT_DEVROOT \<and>
     (\<forall>i. 0 < i \<and> i < n \<longrightarrow> (let p = fst (snd (ls ! i)) in 0 \<le> p \<and> p < int i \<and> group_type (fst (ls ! nat p))))"

definition tree :: "'h mixdev \<Rightarrow> bool" where
  "tree m \<longleftrightarrow> (case skel m of None \<Rightarrow> False
     | Some ls \<Rightarrow> max_ext m = int (length ls) \<and> 0 < nr_ext m \<and> nr_ext m \<le> max_ext m \<and> rooted ls (nat (nr_ext m)))"

text \<open>Before the first use a mixer has no entries; afterwards it always has its root.\<close>

definition mix_ok :: "'h mixdev \<Rightarrow> bool" where
  "mix_ok m \<longleftrightarrow> tree m \<or> (extensions m = None \<and> nr_ext m = 0 \<and> max_ext m = 0)"

lemma tree_same: "same_tree m m' \<Longrightarrow> tree m \<Longrightarrow> tree m'"
  by (cases "skel m") (simp_all add: tree_def same_tree_def)

lemma tree_ext:
  assumes "tree m" and "0 \<le> i" and "i < nr_ext m" obtains e where "ext_at m i = Some e"
  using assms by (auto simp: tree_def skel_def ext_at_def split: option.splits)

lemma tree_slot:
  assumes "tree m" and "nr_ext m < max_ext m" obtains e where "ext_at m (nr_ext m) = Some e"
  using assms by (auto simp: tree_def skel_def ext_at_def split: option.splits)

lemma ext_link_nth:
  "ext_at m i = Some e \<Longrightarrow> skel m = Some ls \<Longrightarrow> 0 \<le> i \<and> i < int (length ls) \<and> ls ! nat i = link e"
  by (auto simp: ext_at_def skel_def split: if_splits)

lemma tree_root: "tree m \<Longrightarrow> ext_at m 0 = Some e \<Longrightarrow> x_type e = MIXT_DEVROOT"
  by (auto simp: tree_def rooted_def link_def dest: ext_link_nth split: option.splits)

lemma tree_parent:
  assumes "tree m" and "ext_at m i = Some e" and "0 < i" and "i < nr_ext m"
  obtains p where "ext_at m (x_parent e) = Some p" and "0 \<le> x_parent e" and "x_parent e < i" and "group_type (x_type p)"
proof -
  obtain ls where ls: "skel m = Some ls" "rooted ls (nat (nr_ext m))" "nr_ext m \<le> int (length ls)"
    using assms(1) by (auto simp: tree_def split: option.splits)
  have i: "ls ! nat i = link e" using ext_link_nth [OF assms(2) ls(1)] by simp
  then have p: "0 \<le> x_parent e" "x_parent e < i" "group_type (fst (ls ! nat (x_parent e)))"
    using ls(2) assms(3,4) by (auto simp: rooted_def link_def Let_def dest!: spec [of _ "nat i"])
  then obtain q where q: "ext_at m (x_parent e) = Some q" using tree_ext [OF assms(1), of "x_parent e"] assms(4) by auto
  have "ls ! nat (x_parent e) = link q" using ext_link_nth [OF q ls(1)] by simp
  then have "group_type (x_type q)" using p(3) by (simp add: link_def)
  then show ?thesis using that q p(1,2) by blast
qed

text \<open>An operation on the entries that keeps the tree.\<close>

definition keeps :: "'h mixdev \<Rightarrow> 'h mixdev option \<Rightarrow> bool" where
  "keeps m r \<longleftrightarrow> (\<exists>m'. r = Some m' \<and> same_tree m m')"

lemma keepsI: "same_tree m m' \<Longrightarrow> keeps m (Some m')" by (simp add: keeps_def)

lemma keeps_Some [simp]: "keeps m (Some m') = same_tree m m'" by (simp add: keeps_def)

lemma keeps_bind: "keeps m r \<Longrightarrow> (\<And>m'. same_tree m m' \<Longrightarrow> keeps m' (f m')) \<Longrightarrow> keeps m (Option.bind r f)"
  by (auto simp: keeps_def intro: same_tree_trans) (meson same_tree_trans)

lemma keeps_put: "ext_at m i = Some e \<Longrightarrow> link e' = link e \<Longrightarrow> keeps m (Some (put_ext i e' m))"
  by (intro keepsI same_tree_put)

lemma keeps_after: "same_tree m m' \<Longrightarrow> keeps m' r \<Longrightarrow> keeps m r"
  by (auto simp: keeps_def intro: same_tree_trans)

section \<open>Names and groups\<close>

lemma keeps_unflatten: "tree m \<Longrightarrow> keeps m (unflatten_group g m)"
proof (induction g m rule: unflatten_group.induct)
  case (1 g m)
  show ?case
  proof (cases "g \<le> 0 \<or> nr_ext m \<le> g")
    case True then show ?thesis by (simp add: unflatten_group.simps [of g])
  next
    case False
    then obtain e where e: "ext_at m g = Some e" using tree_ext [OF "1.prems"] by (metis not_le order_less_imp_le)
    show ?thesis
    proof (cases "x_type e \<noteq> MIXT_GROUP \<or> x_flags e AND MIXF_FLAT = 0")
      case True then show ?thesis using False e by (simp add: unflatten_group.simps [of g])
    next
      case flat: False
      define m1 where "m1 = put_ext g (e\<lparr>x_flags := x_flags e AND NOT MIXF_FLAT\<rparr>) m"
      have s: "same_tree m m1" unfolding m1_def using e by (intro same_tree_put) simp_all
      have "keeps m1 (unflatten_group (x_parent e) m1)" if "\<not> g \<le> x_parent e"
        using "1.IH" [OF False e flat m1_def that] tree_same [OF s "1.prems"] .
      then have "keeps m (unflatten_group (x_parent e) m1)" if "\<not> g \<le> x_parent e"
        using that keeps_after [OF s] by blast
      then show ?thesis using False e flat keepsI [OF s]
        by (simp add: unflatten_group.simps [of g] Let_def m1_def [symmetric])
    qed
  qed
qed

lemma keeps_touch_from: "tree m \<Longrightarrow> 0 \<le> i \<Longrightarrow> i < nr_ext m \<Longrightarrow> nat i < fuel \<Longrightarrow> keeps m (touch_from fuel g i m)"
proof (induction fuel arbitrary: i m)
  case (Suc fuel)
  obtain e where e: "ext_at m i = Some e" using tree_ext Suc.prems by blast
  define m1 where "m1 = put_ext i (bump_ext e) m"
  have s: "same_tree m m1" unfolding m1_def using e by (intro same_tree_put) simp_all
  have t: "tree m1" using tree_same [OF s Suc.prems(1)] .
  have "keeps m1 (Option.bind (unflatten_group (x_parent e) m1) (touch_from fuel g (x_parent e)))" if "x_type e \<noteq> MIXT_DEVROOT"
  proof (rule keeps_bind [OF keeps_unflatten [OF t]])
    fix m2 assume s2: "same_tree m1 m2"
    have "i \<noteq> 0" using that tree_root [OF Suc.prems(1)] e by auto
    then have "0 < i" using Suc.prems(2) by simp
    then have p: "0 \<le> x_parent e" "x_parent e < i" using tree_parent [OF Suc.prems(1) e _ Suc.prems(3)] by auto
    have "nr_ext m2 = nr_ext m" using s s2 by (simp add: same_tree_def)
    then show "keeps m2 (touch_from fuel g (x_parent e) m2)"
      using p Suc.prems(3,4) by (intro Suc.IH tree_same [OF s2 t]) simp_all
  qed
  then show ?case using e keepsI [OF s] keeps_after [OF s] by (simp add: m1_def [symmetric])
qed simp

lemma keeps_touch_parents: "tree m \<Longrightarrow> keeps m (touch_parents g m)"
  by (auto simp: touch_parents_def intro!: keeps_touch_from)

lemma keeps_set_enum:
  assumes "tree m" shows "\<exists>r m'. set_enum ent m = Some (r, m') \<and> same_tree m m'"
proof (cases "en_ctrl ent < 0 \<or> nr_ext m \<le> en_ctrl ent")
  case True then show ?thesis by (simp add: set_enum_def Let_def)
next
  case False
  then obtain e where e: "ext_at m (en_ctrl ent) = Some e" using tree_ext [OF assms, of "en_ctrl ent"] by auto
  have "same_tree m (put_ext (en_ctrl ent) (e\<lparr>x_enum := n\<rparr>) m)" for n using e by (intro same_tree_put) simp_all
  then show ?thesis using False e by (simp add: set_enum_def Let_def)
qed

lemma mixer_defs_short: "list_all (\<lambda>(n, s). length s < 100) mixer_defs"
  by code_simp

lemma keeps_find_enum:
  assumes "tree m" shows "keeps m (find_enum_defs dev i e m)"
proof (cases "map_of mixer_defs (x_extname e)")
  case (Some s)
  then have "(x_extname e, s) \<in> set mixer_defs" by (rule map_of_SomeD)
  then have "length s < 100" using mixer_defs_short by (auto simp: list_all_iff)
  then show ?thesis
    using keeps_set_enum [OF assms] Some
    by (auto simp: find_enum_defs_def strings_enum_def OSS_ENUM_STRINGSIZE_def keeps_def) (metis option.simps(9) snd_conv)
qed (simp add: find_enum_defs_def)

lemma keeps_expand_name:
  assumes "tree m" and "0 \<le> i" and "i < nr_ext m" shows "keeps m (expand_name dev i m)"
proof -
  obtain e where e: "ext_at m i = Some e" using tree_ext [OF assms] .
  have put: "same_tree m (put_ext i (store_name s e) m)" "same_tree m (put_ext i (e\<lparr>x_extname := s\<rparr>) m)" for s
    using e by (auto intro: same_tree_put)
  obtain p where p: "x_type e = MIXT_DEVROOT \<or> ext_at m (x_parent e) = Some p"
  proof (cases "i = 0")
    case True then show ?thesis using tree_root [OF assms(1)] e that by auto
  next
    case False then show ?thesis using tree_parent [OF assms(1) e _ assms(3)] assms(2) that by auto
  qed
  have "keeps m (find_enum_defs dev i (store_name s e) (put_ext i (store_name s e) m))" for s
    by (rule keeps_after [OF put(1)], rule keeps_find_enum, rule tree_same [OF put(1) assms(1)])
  then show ?thesis using e p by (auto simp: expand_name_def Let_def put)
qed

lemma keeps_expand_all:
  "tree m \<Longrightarrow> list_all (\<lambda>i. 0 \<le> i \<and> i < nr_ext m) is \<Longrightarrow> keeps m (expand_all dev is m)"
proof (induction "is" arbitrary: m)
  case (Cons i "is")
  show ?case
    unfolding expand_all.simps
  proof (rule keeps_bind)
    show "keeps m (expand_name dev i m)" using Cons.prems by (auto intro: keeps_expand_name)
    show "keeps m' (expand_all dev is m')" if "same_tree m m'" for m'
      using Cons.prems that by (intro Cons.IH tree_same [OF that]) (simp_all add: same_tree_def)
  qed
qed simp

lemma link_number_dupes: "map link (number_dupes t k js xs) = map link xs"
proof (induction js arbitrary: k xs)
  case (Cons j js)
  have "map link (xs[j := (xs ! j)\<lparr>x_extname := s\<rparr>]) = map link xs" for s
    by (cases "j < length xs") (simp_all add: map_update list_update_same_conv list_update_beyond)
  then show ?case using Cons.IH by simp
qed simp

lemma link_fix_dupes: "map link (fix_dupes n is xs) = map link xs"
  by (induction "is" arbitrary: xs) (simp_all add: link_number_dupes)

lemma keeps_expand_names:
  assumes "tree m" shows "keeps m (expand_names dev m)"
proof -
  define m1 where "m1 = m\<lparr>names_checked := True\<rparr>"
  have s: "same_tree m m1" by (simp add: same_tree_def m1_def skel_def mixer_off_def)
  have "list_all (\<lambda>i. 0 \<le> i \<and> i < nr_ext m1) (map int [0..<nat (nr_ext m)])"
    by (auto simp: list_all_iff m1_def)
  then obtain m2 where m2: "expand_all dev (map int [0..<nat (nr_ext m)]) m1 = Some m2" "same_tree m1 m2"
    using keeps_expand_all [OF tree_same [OF s assms]] unfolding keeps_def by blast
  have "same_tree m2 (m2\<lparr>extensions := map_option (fix_dupes n is) (extensions m2)\<rparr>)" for n "is"
    by (cases "extensions m2") (simp_all add: same_tree_def skel_def mixer_off_def link_fix_dupes)
  then have "same_tree m (m2\<lparr>extensions := map_option (fix_dupes n is) (extensions m2)\<rparr>)" for n "is"
    using same_tree_trans [OF same_tree_trans [OF s m2(2)]] by blast
  then show ?thesis using m2(1) s by (simp add: expand_names_def Let_def m1_def [symmetric])
qed

section \<open>New entries\<close>

text \<open>The entries that are in use.\<close>

definition shape :: "'h mixdev \<Rightarrow> entry list" where
  "shape m = take (nat (nr_ext m)) (case skel m of None \<Rightarrow> [] | Some ls \<Rightarrow> ls)"

definition extends :: "entry list \<Rightarrow> 'h mixdev \<Rightarrow> 'h mixdev \<Rightarrow> bool" where
  "extends ls m m' \<longleftrightarrow> tree m' \<and> shape m' = shape m @ ls \<and> nr_ext m' = nr_ext m + int (length ls) \<and>
     max_ext m' = max_ext m \<and> mixer_off m' = mixer_off m \<and> mx_time m' = mx_time m \<and> mx_ioctl m' = mx_ioctl m"

lemma extends_same: "tree m \<Longrightarrow> same_tree m m' \<Longrightarrow> extends [] m m'"
  by (auto simp: extends_def shape_def tree_same) (auto simp: same_tree_def)

lemma extends_trans: "extends xs m1 m2 \<Longrightarrow> extends ys m2 m3 \<Longrightarrow> extends (xs @ ys) m1 m3"
  by (simp add: extends_def)

lemma extends_then_same: "extends xs m1 m2 \<Longrightarrow> same_tree m2 m3 \<Longrightarrow> extends xs m1 m3"
  using extends_trans [of xs m1 m2 "[]" m3] extends_same [of m2 m3] by (simp add: extends_def)

lemma length_shape: "tree m \<Longrightarrow> length (shape m) = nat (nr_ext m)"
  by (auto simp: tree_def shape_def split: option.splits)

lemma shape_nth: "tree m \<Longrightarrow> 0 \<le> i \<Longrightarrow> i < nr_ext m \<Longrightarrow> ext_at m i = Some e \<Longrightarrow> shape m ! nat i = link e"
  by (auto simp: tree_def shape_def dest: ext_link_nth split: option.splits)

lemma shape_root: "tree m \<Longrightarrow> fst (shape m ! 0) = MIXT_DEVROOT"
  by (auto simp: tree_def shape_def rooted_def split: option.splits)

text \<open>New entries have the time of their tree.\<close>

definition entry_time :: "entry \<Rightarrow> u32" where
  "entry_time e = (case e of (ty, p, ctrl, name, f, mv, t) \<Rightarrow> t)"

lemma entry_time_link: "entry_time (link e) = x_time e" by (simp add: entry_time_def link_def)

definition renews :: "'h mixdev \<Rightarrow> 'h mixdev \<Rightarrow> bool" where
  "renews m m' \<longleftrightarrow> (\<exists>ls. extends ls m m' \<and> (\<forall>e \<in> set ls. entry_time e = mx_time m))"

lemma renews_refl: "tree m \<Longrightarrow> renews m m"
  using extends_same [of m m] by (fastforce simp: renews_def)

lemma renews_tree: "renews m m' \<Longrightarrow> tree m' \<and> max_ext m' = max_ext m \<and> mixer_off m' = mixer_off m \<and> mx_time m' = mx_time m"
  by (auto simp: renews_def extends_def)

lemma parent_found:
  assumes "tree m"
  obtains p where "parent_of parent m = Some p" and "0 \<le> p" and "p < nr_ext m" and "group_type (fst (shape m ! nat p))"
    and "0 \<le> parent \<Longrightarrow> parent < nr_ext m \<Longrightarrow> group_type (fst (shape m ! nat parent)) \<Longrightarrow> p = parent"
proof -
  define q where "q = (if parent < 0 \<or> nr_ext m \<le> parent then 0 else parent)"
  have n: "0 < nr_ext m" using assms by (auto simp: tree_def split: option.splits)
  then have q: "0 \<le> q" "q < nr_ext m" by (auto simp: q_def)
  then obtain e where e: "ext_at m q = Some e" using tree_ext [OF assms] by blast
  note root = shape_root [OF assms]
  have sh: "fst (shape m ! nat q) = x_type e" using shape_nth [OF assms q e] by (simp add: link_def)
  show ?thesis
  proof (cases "group_type (x_type e)")
    case True
    then have "parent_of parent m = Some q" using e by (auto simp: parent_of_def q_def [symmetric] group_type_def)
    then show ?thesis using that [of q] q sh True by (auto simp: q_def)
  next
    case False
    then have "parent_of parent m = Some 0" using e by (auto simp: parent_of_def q_def [symmetric] group_type_def)
    moreover have "\<not> (0 \<le> parent \<and> parent < nr_ext m \<and> group_type (fst (shape m ! nat parent)))"
      using sh False by (auto simp: q_def)
    ultimately show ?thesis using that [of 0] n root by (simp add: group_type_def)
  qed
qed

lemma rooted_Suc:
  assumes "rooted ls n" and "0 < n" and "n < length ls" and "0 \<le> fst (snd x)" and "fst (snd x) < int n"
    and "group_type (fst (ls ! nat (fst (snd x))))"
  shows "rooted (ls[n := x]) (Suc n)"
  unfolding rooted_def Let_def
proof (intro conjI allI impI)
  fix i assume i: "0 < i \<and> i < Suc n"
  define q where "q = fst (snd ((ls[n := x]) ! i))"
  have "0 \<le> q \<and> q < int i \<and> group_type (fst (ls ! nat q))"
  proof (cases "i = n")
    case True then show ?thesis using assms(3-6) by (simp add: q_def)
  next
    case False then show ?thesis using assms(1) i by (auto simp: q_def rooted_def Let_def)
  qed
  moreover from this have "nat q \<noteq> n" using i by linarith
  ultimately have "0 \<le> q \<and> q < int i \<and> group_type (fst ((ls[n := x]) ! nat q))" by (metis nth_list_update_neq)
  then show "0 \<le> fst (snd ((ls[n := x]) ! i))" "fst (snd ((ls[n := x]) ! i)) < int i"
    "group_type (fst ((ls[n := x]) ! nat (fst (snd ((ls[n := x]) ! i)))))" by (simp_all add: q_def)
qed (use assms(1-3) in \<open>simp_all add: rooted_def\<close>)

lemma add_entry:
  assumes "tree m" and "nr_ext m < max_ext m" and "0 \<le> x_parent e" and "x_parent e < nr_ext m"
    and "group_type (fst (shape m ! nat (x_parent e)))"
  shows "extends [link e] m ((put_ext (nr_ext m) e m)\<lparr>nr_ext := nr_ext m + 1\<rparr>)"
proof -
  obtain xs where xs: "extensions m = Some xs" using assms(1) by (auto simp: tree_def skel_def split: option.splits)
  define n where "n = nat (nr_ext m)"
  have n: "0 < n" "n < length xs" "nr_ext m = int n" "max_ext m = int (length xs)"
    using assms(1,2) xs by (auto simp: tree_def skel_def n_def)
  have li: "rooted (map link xs) n" using assms(1) xs by (simp add: tree_def skel_def n_def)
  have g: "group_type (fst (map link xs ! nat (x_parent e)))"
    using assms(3-5) n xs by (simp add: shape_def skel_def)
  have up: "map link (xs[n := e]) = (map link xs)[n := link e]" by (simp add: map_update)
  have "rooted ((map link xs)[n := link e]) (Suc n)"
    using n(1,2,3) assms(3,4) g by (intro rooted_Suc [OF li]) (simp_all add: link_def)
  then have "tree ((put_ext (nr_ext m) e m)\<lparr>nr_ext := nr_ext m + 1\<rparr>)"
    using n xs up by (simp add: tree_def skel_def put_ext_def nat_add_distrib)
  then show ?thesis
    using n xs up by (simp add: extends_def shape_def skel_def put_ext_def nat_add_distrib take_Suc_conv_app_nth mixer_off_def)
qed

lemma group_created:
  assumes "tree m" and "length name < OSS_ID_SIZE"
  shows "\<exists>r m'. mixer_ext_create_group_flags dev parent name fl m = Some (r, m') \<and> renews m m'"
    "nr_ext m < max_ext m \<Longrightarrow>
      \<exists>m' p. mixer_ext_create_group_flags dev parent name fl m = Some (Inr (nr_ext m), m') \<and>
        extends [(MIXT_GROUP, p, - 1, name, None, 0, mx_time m)] m m' \<and> (parent = 0 \<longrightarrow> p = 0)"
proof -
  have n: "0 < nr_ext m" using assms(1) by (auto simp: tree_def split: option.splits)
  obtain p where p: "parent_of parent m = Some p" "0 \<le> p" "p < nr_ext m" "group_type (fst (shape m ! nat p))"
    "0 \<le> parent \<and> parent < nr_ext m \<and> group_type (fst (shape m ! nat parent)) \<longrightarrow> p = parent"
    using parent_found [OF assms(1), of parent] by metis
  then have root: "parent = 0 \<longrightarrow> p = 0" using shape_root [OF assms(1)] n by (auto simp: group_type_def)
  have some: "extensions m \<noteq> None" using assms(1) by (auto simp: tree_def skel_def split: option.splits)
  have full: "mixer_ext_create_group_flags dev parent name fl m = Some (Inl OSS_ENOSPC, m)" if "max_ext m \<le> nr_ext m"
    using that some p(1) by (simp add: mixer_ext_create_group_flags_def)
  show room: "\<exists>m' p. mixer_ext_create_group_flags dev parent name fl m = Some (Inr (nr_ext m), m') \<and>
      extends [(MIXT_GROUP, p, - 1, name, None, 0, mx_time m)] m m' \<and> (parent = 0 \<longrightarrow> p = 0)" if n: "nr_ext m < max_ext m"
  proof -
    obtain e where e: "ext_at m (nr_ext m) = Some e" using tree_slot [OF assms(1) n] .
    define e' where "e' = e\<lparr>x_dev := dev, x_ctrl := - 1, x_type := MIXT_GROUP, x_max := 0, x_min := 0,
        x_flags := fl AND NOT MIXF_DESCR OR MIXF_FLAT, x_id := name, x_parent := p, x_handler := None, x_enum := None,
        x_present := replicate 32 0xff, x_time := mx_time m, x_control_no := - 1, x_desc := 0, x_root := ([], [])\<rparr>"
    have l: "link e' = (MIXT_GROUP, p, - 1, name, None, 0, mx_time m)" "x_parent e' = p" by (simp_all add: e'_def link_def)
    have "extends [link e'] m ((put_ext (nr_ext m) e' m)\<lparr>nr_ext := nr_ext m + 1\<rparr>)"
      using p by (intro add_entry [OF assms(1) n]) (simp_all add: l)
    moreover have "mixer_ext_create_group_flags dev parent name fl m =
        Some (Inr (nr_ext m), (put_ext (nr_ext m) e' m)\<lparr>nr_ext := nr_ext m + 1\<rparr>)"
      using some p(1) n assms(2) e
      by (simp add: mixer_ext_create_group_flags_def old_entry_def new_entry_def e'_def)
    ultimately show ?thesis using root by (auto simp: l(1))
  qed
  show "\<exists>r m'. mixer_ext_create_group_flags dev parent name fl m = Some (r, m') \<and> renews m m'"
    using full room renews_refl [OF assms(1)]
    by (cases "nr_ext m < max_ext m") (force simp: renews_def entry_time_def, auto)
qed

lemma names_put: "names_checked (put_ext i e m) = names_checked m"
  by (simp add: put_ext_def)

lemma map_option_bind: "map_option f (Option.bind x g) = Option.bind x (\<lambda>y. map_option f (g y))"
  by (cases x) simp_all

lemma control_created:
  assumes "tree m"
  shows "\<exists>r m'. mixer_ext_create_control dev parent ctrl f t name mv fl m = Some (r, m') \<and> renews m m'"
    "nr_ext m < max_ext m \<Longrightarrow>
      \<exists>m' p. mixer_ext_create_control dev parent ctrl f t name mv fl m = Some (Inr (nr_ext m), m') \<and>
        extends [(t, p, ctrl, take 15 name, f, mv, mx_time m)] m m' \<and>
        (0 \<le> parent \<and> parent < nr_ext m \<and> group_type (fst (shape m ! nat parent)) \<longrightarrow> p = parent)"
proof -
  obtain p where p: "parent_of parent m = Some p" "0 \<le> p" "p < nr_ext m" "group_type (fst (shape m ! nat p))"
    "0 \<le> parent \<and> parent < nr_ext m \<and> group_type (fst (shape m ! nat parent)) \<longrightarrow> p = parent"
    using parent_found [OF assms, of parent] by metis
  have some: "extensions m \<noteq> None" using assms by (auto simp: tree_def skel_def split: option.splits)
  have full: "mixer_ext_create_control dev parent ctrl f t name mv fl m = Some (Inl OSS_ENOSPC, m)" if "max_ext m \<le> nr_ext m"
    using that some by (simp add: mixer_ext_create_control_def)
  show room: "\<exists>m' p. mixer_ext_create_control dev parent ctrl f t name mv fl m = Some (Inr (nr_ext m), m') \<and>
      extends [(t, p, ctrl, take 15 name, f, mv, mx_time m)] m m' \<and>
      (0 \<le> parent \<and> parent < nr_ext m \<and> group_type (fst (shape m ! nat parent)) \<longrightarrow> p = parent)" if n: "nr_ext m < max_ext m"
  proof -
    obtain e where e: "ext_at m (nr_ext m) = Some e" using tree_slot [OF assms n] .
    define e1 where "e1 = e\<lparr>x_dev := dev, x_ctrl := ctrl, x_type := t, x_max := mv, x_min := 0,
        x_flags := control_flags f fl, x_id := take 15 name, x_parent := p, x_time := mx_time m, x_handler := f,
        x_enum := None, x_root := ([], []), x_present := replicate 32 0xff, x_control_no := - 1, x_desc := 0\<rparr>"
    define e2 where "e2 = (if names_checked m then e1 else e1\<lparr>x_extname := take 15 name\<rparr>)"
    define m1 where "m1 = (put_ext (nr_ext m) e2 m)\<lparr>nr_ext := nr_ext m + 1\<rparr>"
    have l: "link e2 = (t, p, ctrl, take 15 name, f, mv, mx_time m)" "x_parent e2 = p" by (simp_all add: e2_def e1_def link_def)
    have x: "extends [(t, p, ctrl, take 15 name, f, mv, mx_time m)] m m1"
      unfolding m1_def l(1) [symmetric] using p by (intro add_entry [OF assms n]) (simp_all add: l)
    then have t1: "tree m1" by (simp add: extends_def)
    define rest where "rest = Option.bind (if names_checked m1 then expand_names dev m1 else Some m1) (\<lambda>m.
        Option.bind (if tall_type t then unflatten_group p m else Some m) (touch_parents p))"
    have "keeps m1 rest"
      unfolding rest_def
      by (intro keeps_bind)
        (auto simp: keeps_expand_names keeps_unflatten keeps_touch_parents t1 dest: tree_same [OF _ t1]
          intro: keeps_unflatten keeps_touch_parents tree_same)
    then obtain m2 where m2: "rest = Some m2" "same_tree m1 m2" by (auto simp: keeps_def)
    have "mixer_ext_create_control dev parent ctrl f t name mv fl m = map_option (Pair (Inr (nr_ext m))) rest"
      using p(1) n e unfolding mixer_ext_create_control_def if_not_P [OF some] old_entry_def Let_def
      by (cases "names_checked m"; cases "tall_type t")
        (simp_all add: rest_def map_option_bind m1_def e2_def e1_def names_put)
    then show ?thesis using m2 extends_then_same [OF x m2(2)] p(5) by auto
  qed
  show "\<exists>r m'. mixer_ext_create_control dev parent ctrl f t name mv fl m = Some (r, m') \<and> renews m m'"
    using full room renews_refl [OF assms]
    by (cases "nr_ext m < max_ext m") (force simp: renews_def entry_time_def, auto)
qed

end
