(* ===== verification/Mixer_Export_Laws.thy ===== *)
theory Mixer_Export_Laws
  imports Mixer_Tree_Laws
begin

text \<open>
  What \<open>touch_mixer\<close> makes of the masks of the legacy interface: the tree is the root, for each control a group
  with a slider and, when it is a recording source, a switch, and a marker. The room that was reserved is enough.
\<close>

section \<open>One control\<close>

definition legacy_entries :: "u32 \<Rightarrow> u32 \<Rightarrow> u32 \<Rightarrow> int \<Rightarrow> nat \<Rightarrow> entry list" where
  "legacy_entries t stereo rm g i =
     [(MIXT_GROUP, 0, - 1, SOUND_DEVICE_NAMES ! i, None, 0, t),
      (if bit stereo i then MIXT_STEREOSLIDER else MIXT_MONOSLIDER, g, int i, [], Some Mixer_Ext_Rw, 100, t)] @
     (if bit rm i then [(MIXT_ONOFF, g, int i, ''REC'', Some Mixer_Ext_Recrw, 1, t)] else [])"

fun legacy_list :: "u32 \<Rightarrow> u32 \<Rightarrow> u32 \<Rightarrow> int \<Rightarrow> nat list \<Rightarrow> entry list" where
  "legacy_list t stereo rm g [] = []"
| "legacy_list t stereo rm g (i # is) =
     legacy_entries t stereo rm g i @ legacy_list t stereo rm (g + int (length (legacy_entries t stereo rm g i))) is"

lemma length_legacy: "length (legacy_entries t stereo rm g i) = 2 + (if bit rm i then 1 else 0)"
  by (simp add: legacy_entries_def)

lemma length_legacy_list: "length (legacy_list t stereo rm g is) = 2 * length is + length (filter (bit rm) is)"
  by (induction "is" arbitrary: g) (simp_all add: length_legacy)

lemma device_names_short: "i < 28 \<Longrightarrow> length (SOUND_DEVICE_NAMES ! i) < OSS_ID_SIZE"
proof -
  have "list_all (\<lambda>s. length s < OSS_ID_SIZE) SOUND_DEVICE_NAMES" by code_simp
  moreover have "length SOUND_DEVICE_NAMES = 28" by (simp add: SOUND_DEVICE_NAMES_def)
  ultimately show "i < 28 \<Longrightarrow> length (SOUND_DEVICE_NAMES ! i) < OSS_ID_SIZE" by (simp add: list_all_length)
qed

lemma same_edit:
  assumes "\<And>e. link (f e) = link e" shows "same_tree m (edit_ext r f m)"
  using assms by (auto simp: edit_ext_def intro: same_tree_put split: sum.splits option.splits)

lemma extends_tree: "extends ls m m' \<Longrightarrow> tree m'" by (simp add: extends_def)

lemma extends_nr: "extends ls m m' \<Longrightarrow> nr_ext m' = nr_ext m + int (length ls) \<and> max_ext m' = max_ext m"
  by (simp add: extends_def)

text \<open>The group of the control is the parent that is asked for.\<close>

lemma extends_group:
  assumes "extends ((MIXT_GROUP, x) # ls) m m'" and "tree m"
  shows "0 \<le> nr_ext m \<and> nr_ext m < nr_ext m' \<and> group_type (fst (shape m' ! nat (nr_ext m)))"
proof -
  have "0 < nr_ext m" using assms(2) by (auto simp: tree_def split: option.splits)
  then show ?thesis using assms by (simp add: extends_def length_shape nth_append group_type_def)
qed

lemma slider_exported:
  assumes "tree m" and "nr_ext m < max_ext m" and "0 \<le> g" and "g < nr_ext m" and "group_type (fst (shape m ! nat g))" and "mx_time m = t"
  shows "\<exists>m'. export_slider dev stereo i g m = Some m' \<and>
    extends [(if bit stereo i then MIXT_STEREOSLIDER else MIXT_MONOSLIDER, g, int i, [], Some Mixer_Ext_Rw, 100, t)] m m'"
proof -
  define ty where "ty = (if bit stereo i then MIXT_STEREOSLIDER else MIXT_MONOSLIDER)"
  obtain m1 where c: "mixer_ext_create_control dev g (int i) (Some Mixer_Ext_Rw) ty [] 100
      (volume_flags i OR MIXF_READABLE OR MIXF_WRITEABLE) m = Some (Inr (nr_ext m), m1)"
    "extends [(ty, g, int i, [], Some Mixer_Ext_Rw, 100, t)] m m1"
    using control_created(2) [OF assms(1,2), of dev g "int i" "Some Mixer_Ext_Rw" ty "[]" 100] assms(3-6) by fastforce
  then show ?thesis
    unfolding export_slider_def ty_def [symmetric] c(1) by (auto intro!: extends_then_same [OF c(2)] same_edit)
qed

lemma switch_exported:
  assumes "tree m" and "bit rm i \<Longrightarrow> nr_ext m < max_ext m" and "0 \<le> g" and "g < nr_ext m" and "group_type (fst (shape m ! nat g))" and "mx_time m = t"
  shows "\<exists>m'. export_switch dev rm i g m = Some m' \<and>
    extends (if bit rm i then [(MIXT_ONOFF, g, int i, ''REC'', Some Mixer_Ext_Recrw, 1, t)] else []) m m'"
proof (cases "bit rm i")
  case True
  obtain m1 where c: "mixer_ext_create_control dev g (int i) (Some Mixer_Ext_Recrw) MIXT_ONOFF ''REC'' 1
      (MIXF_READABLE OR MIXF_WRITEABLE OR MIXF_RECVOL) m = Some (Inr (nr_ext m), m1)"
    "extends [(MIXT_ONOFF, g, int i, ''REC'', Some Mixer_Ext_Recrw, 1, t)] m m1"
    using control_created(2) [OF assms(1) assms(2) [OF True], of dev g "int i" "Some Mixer_Ext_Recrw" MIXT_ONOFF "''REC''" 1] assms(3-6)
    by fastforce
  show ?thesis
    unfolding export_switch_def c(1) using True by (auto intro!: extends_then_same [OF c(2)] same_edit)
next
  case False then show ?thesis using extends_same [OF assms(1)] by (simp add: export_switch_def)
qed

lemma control_exported:
  assumes "tree m" and "i < 28" and "nr_ext m + int (length (legacy_entries t stereo rm (nr_ext m) i)) \<le> max_ext m" and "mx_time m = t"
  shows "\<exists>m'. export_control dev stereo rm i m = Some m' \<and> extends (legacy_entries t stereo rm (nr_ext m) i) m m'"
proof -
  define g where "g = nr_ext m"
  have g: "0 < g" using assms(1) by (auto simp: g_def tree_def split: option.splits)
  have room: "g < max_ext m" "g + 1 < max_ext m" "bit rm i \<Longrightarrow> g + 2 < max_ext m"
    using assms(3) by (auto simp: g_def length_legacy)
  obtain m1 where m1: "mixer_ext_create_group_flags dev 0 (SOUND_DEVICE_NAMES ! i) MIXF_LEGACY m = Some (Inr g, m1)"
    "extends [(MIXT_GROUP, 0, - 1, SOUND_DEVICE_NAMES ! i, None, 0, t)] m m1"
    using group_created(2) [OF assms(1) device_names_short [OF assms(2)], of dev 0 MIXF_LEGACY] room(1) assms(4) by (auto simp: g_def)
  note t1 = extends_tree [OF m1(2)]
  have gm1: "0 \<le> g" "g < nr_ext m1" "group_type (fst (shape m1 ! nat g))" "nr_ext m1 = g + 1" "max_ext m1 = max_ext m"
    using extends_group [OF m1(2) assms(1)] extends_nr [OF m1(2)] by (simp_all add: g_def)
  have time1: "mx_time m1 = t" using m1(2) assms(4) by (simp add: extends_def)
  obtain m2 where m2: "export_slider dev stereo i g m1 = Some m2"
    "extends [(if bit stereo i then MIXT_STEREOSLIDER else MIXT_MONOSLIDER, g, int i, [], Some Mixer_Ext_Rw, 100, t)] m1 m2"
    using slider_exported [OF t1 _ gm1(1-3) time1, of dev stereo i] room(2) gm1(4,5) by auto
  have x2: "extends ([(MIXT_GROUP, 0, - 1, SOUND_DEVICE_NAMES ! i, None, 0, t)] @
      [(if bit stereo i then MIXT_STEREOSLIDER else MIXT_MONOSLIDER, g, int i, [], Some Mixer_Ext_Rw, 100, t)]) m m2"
    using m1(2) m2(2) by (rule extends_trans)
  then have gm2: "g < nr_ext m2" "group_type (fst (shape m2 ! nat g))" "nr_ext m2 = g + 2" "max_ext m2 = max_ext m"
    using extends_group [of _ _ m m2] extends_nr [OF x2] assms(1) by (auto simp: g_def)
  have time2: "mx_time m2 = t" using x2 assms(4) by (simp add: extends_def)
  obtain m3 where m3: "export_switch dev rm i g m2 = Some m3"
    "extends (if bit rm i then [(MIXT_ONOFF, g, int i, ''REC'', Some Mixer_Ext_Recrw, 1, t)] else []) m2 m3"
    using switch_exported [OF extends_tree [OF x2] _ gm1(1) gm2(1,2) time2, of rm i dev] room(3) gm2(3,4) by auto
  have "extends (legacy_entries t stereo rm g i) m m3"
    using extends_trans [OF x2 m3(2)] by (simp add: legacy_entries_def)
  then show ?thesis using m1(1) m2(1) m3(1) g by (simp add: export_control_def g_def [symmetric])
qed

lemma controls_exported:
  assumes "tree m" and "\<And>i. i \<in> set js \<Longrightarrow> i < 28" and "nr_ext m + int (length (legacy_list t stereo rm (nr_ext m) js)) \<le> max_ext m" and "mx_time m = t"
  shows "\<exists>m'. export_controls dev stereo rm js m = Some m' \<and> extends (legacy_list t stereo rm (nr_ext m) js) m m'"
  using assms
proof (induction js arbitrary: m)
  case Nil then show ?case using extends_same by fastforce
next
  case (Cons i js)
  define ls where "ls = legacy_entries t stereo rm (nr_ext m) i"
  have "nr_ext m + int (length ls) \<le> max_ext m" using Cons.prems(3) by (simp add: ls_def)
  then obtain m1 where m1: "export_control dev stereo rm i m = Some m1" "extends ls m m1"
    using control_exported [OF Cons.prems(1) _ _ Cons.prems(4), of i stereo rm dev] Cons.prems(2) [of i] by (auto simp: ls_def)
  have nr: "nr_ext m1 = nr_ext m + int (length ls)" "max_ext m1 = max_ext m" using extends_nr [OF m1(2)] by simp_all
  have time: "mx_time m1 = t" using m1(2) Cons.prems(4) by (simp add: extends_def)
  obtain m2 where m2: "export_controls dev stereo rm js m1 = Some m2" "extends (legacy_list t stereo rm (nr_ext m1) js) m1 m2"
    using Cons.IH [OF extends_tree [OF m1(2)] _ _ time] Cons.prems(2,3) nr by (auto simp: ls_def)
  have "extends (ls @ legacy_list t stereo rm (nr_ext m1) js) m m2" using m1(2) m2(2) by (rule extends_trans)
  then show ?case using m1(1) m2(1) nr(1) by (simp add: ls_def)
qed

section \<open>Without room\<close>

text \<open>An array that is too small ends the export of controls early; what exists is a tree.\<close>

definition grows :: "'h mixdev \<Rightarrow> 'h mixdev option \<Rightarrow> bool" where
  "grows m r \<longleftrightarrow> (\<exists>m'. r = Some m' \<and> tree m' \<and> max_ext m' = max_ext m \<and> mixer_off m' = mixer_off m)"

lemma grows_bind: "grows m r \<Longrightarrow> (\<And>m'. tree m' \<Longrightarrow> grows m' (f m')) \<Longrightarrow> grows m (Option.bind r f)"
  by (force simp: grows_def)

lemma grows_edit:
  assumes "tree m" and "\<And>e. link (f e) = link e"
  shows "grows m (map_option (\<lambda>(r, m). edit_ext r f m) (mixer_ext_create_control dev parent ctrl h t name mv fl m))"
proof -
  obtain r m' where m': "mixer_ext_create_control dev parent ctrl h t name mv fl m = Some (r, m')" "tree m'" "max_ext m' = max_ext m"
    "mixer_off m' = mixer_off m"
    using control_created(1) [OF assms(1), of dev parent ctrl h t name mv fl] by (auto dest: renews_tree)
  have "same_tree m' (edit_ext r f m')" using assms(2) by (rule same_edit)
  then show ?thesis using m' tree_same [OF _ m'(2)] by (simp add: grows_def same_tree_def)
qed

lemma grows_control: "tree m \<Longrightarrow> i < 28 \<Longrightarrow> grows m (export_control dev stereo rm i m)"
proof -
  assume m: "tree m" "i < 28"
  obtain r m1 where m1: "mixer_ext_create_group_flags dev 0 (SOUND_DEVICE_NAMES ! i) MIXF_LEGACY m = Some (r, m1)"
    "tree m1" "max_ext m1 = max_ext m" "mixer_off m1 = mixer_off m"
    using group_created(1) [OF m(1) device_names_short [OF m(2)], of dev 0 MIXF_LEGACY] by (auto dest: renews_tree)
  have "grows m2 (export_switch dev rm i g m2)" if "tree m2" for g m2
    using grows_edit [OF that] that by (simp add: export_switch_def grows_def)
  moreover have "grows m1 (export_slider dev stereo i g m1)" for g
    unfolding export_slider_def by (rule grows_edit [OF m1(2)]) simp
  ultimately have "grows m1 (Option.bind (export_slider dev stereo i g m1) (export_switch dev rm i g))" for g
    by (intro grows_bind)
  then have "grows m (Option.bind (export_slider dev stereo i g m1) (export_switch dev rm i g))" for g
    using m1(3,4) by (simp add: grows_def)
  moreover have "grows m (Some m1)" using m1(2-4) by (simp add: grows_def)
  ultimately show ?thesis by (cases r) (simp_all add: export_control_def m1(1))
qed

lemma grows_controls: "tree m \<Longrightarrow> (\<And>i. i \<in> set is \<Longrightarrow> i < 28) \<Longrightarrow> grows m (export_controls dev stereo rm is m)"
proof (induction "is" arbitrary: m)
  case (Cons i "is") then show ?case by (auto intro!: grows_bind grows_control)
qed (simp add: grows_def)

end
