(* ===== verification/Mixer_Session.thy ===== *)
theory Mixer_Session
  imports Mixer_Export_Laws
begin

text \<open>
  Sessions of all operations of the mixer core. An operation on one mixer that keeps its tree is an \<open>editor\<close>, a locale
  whose lemmas lift it to the table of mixers; the operations of drivers are interpreted as editors. The result is
  that no session leaves the arrays of the core, and that it keeps the tree of every mixer.
\<close>

section \<open>The table\<close>

definition core_ok :: "'h mixer_core \<Rightarrow> bool" where
  "core_ok c \<longleftrightarrow> int (length (mixers c)) < MAX_MIXER_DEV \<and> list_all mix_ok (mixers c)"

text \<open>The entries that exist stay where they are: what a function of a driver may do to the core.\<close>

definition settled :: "'h mixer_core \<Rightarrow> 'h mixer_core \<Rightarrow> bool" where
  "settled c c' \<longleftrightarrow> core_ok c' \<and> list_all2 (\<lambda>m m'. max_ext m \<le> max_ext m') (mixers c) (mixers c')"

definition settles :: "'h mixer_core \<Rightarrow> ('a \<times> 'h mixer_core) option \<Rightarrow> bool" where
  "settles c r \<longleftrightarrow> (\<exists>x c'. r = Some (x, c') \<and> settled c c')"

definition polite_env :: "'h mixer_env \<Rightarrow> bool" where
  "polite_env E \<longleftrightarrow>
     (\<forall>k dev ctrl cmd v c. core_ok c \<longrightarrow> known_mixer c dev \<longrightarrow> settles c (me_handler E k dev ctrl cmd v c)) \<and>
     (\<forall>k dev c. core_ok c \<longrightarrow> known_mixer c dev \<longrightarrow> settles c (map_option (Pair ()) (me_create E k dev c))) \<and>
     (\<forall>k dev x c. core_ok c \<longrightarrow> settles c (me_info E k dev x c))"

lemma settled_refl [simp]: "core_ok c \<Longrightarrow> settled c c" by (simp add: settled_def list.rel_refl)

lemma settled_ok: "settled c c' \<Longrightarrow> core_ok c'" by (simp add: settled_def)

lemma list_all2_chain:
  assumes "list_all2 P xs ys" and "list_all2 P ys zs" and "\<And>x y z. P x y \<Longrightarrow> P y z \<Longrightarrow> P x z" shows "list_all2 P xs zs"
  using list_all2_trans [OF assms(3) assms(1,2)] .

lemma settled_trans: "settled c1 c2 \<Longrightarrow> settled c2 c3 \<Longrightarrow> settled c1 c3"
  by (auto simp: settled_def elim: list_all2_chain)

lemma settled_length: "settled c c' \<Longrightarrow> length (mixers c') = length (mixers c)"
  by (auto simp: settled_def dest: list_all2_lengthD)

lemma settled_known: "settled c c' \<Longrightarrow> known_mixer c' dev = known_mixer c dev"
  by (simp add: known_mixer_def settled_length)

lemma settles_Some [simp]: "settles c (Some (x, c')) = settled c c'" by (simp add: settles_def)

lemma settles_bind: "settles c r \<Longrightarrow> (\<And>x c'. settled c c' \<Longrightarrow> settles c' (f (x, c'))) \<Longrightarrow> settles c (Option.bind r f)"
  by (force simp: settles_def intro: settled_trans)

lemma settles_map: "settles c r \<Longrightarrow> settles c (map_option (\<lambda>(x, c). (g x c, c)) r)"
  by (auto simp: settles_def)

lemma settles_after: "settled c c' \<Longrightarrow> settles c' r \<Longrightarrow> settles c r"
  by (auto simp: settles_def intro: settled_trans)

lemma known_at: "known_mixer c dev \<Longrightarrow> mixer_at c dev = Some (mixers c ! nat dev)"
  by (simp add: known_mixer_def mixer_at_def)

lemma at_known: "mixer_at c dev = Some m \<Longrightarrow> known_mixer c dev \<and> m = mixers c ! nat dev"
  by (auto simp: known_mixer_def mixer_at_def split: if_splits)

lemma at_ok: "core_ok c \<Longrightarrow> mixer_at c dev = Some m \<Longrightarrow> mix_ok m"
  by (auto simp: core_ok_def mixer_at_def list_all_length split: if_splits)

lemma at_None: "mixer_at c dev = None \<longleftrightarrow> \<not> known_mixer c dev"
  by (simp add: known_mixer_def mixer_at_def)

lemma settled_put:
  assumes "core_ok c" and "mixer_at c dev = Some m" and "mix_ok m'" and "max_ext m \<le> max_ext m'"
  shows "settled c (put_mixer dev m' c)"
  using assms at_known [OF assms(2)]
  by (auto simp: settled_def core_ok_def put_mixer_def list_all_length list_all2_conv_all_nth nth_list_update known_mixer_def)

lemma settled_hw: "settled c (c'\<lparr>mc_hw := h\<rparr>) = settled c c'"
  by (simp add: settled_def core_ok_def)

lemma mix_ok_same: "same_tree m m' \<Longrightarrow> mix_ok m \<Longrightarrow> mix_ok m'"
  by (auto simp: mix_ok_def dest: tree_same) (simp_all add: same_tree_def skel_def)

lemma tree_ok: "tree m \<Longrightarrow> mix_ok m" by (simp add: mix_ok_def)

lemma ok_tree: "mix_ok m \<Longrightarrow> 0 < nr_ext m \<Longrightarrow> tree m" by (auto simp: mix_ok_def)

section \<open>Editors\<close>

text \<open>An operation that works on every mixer, whether its tree exists or not.\<close>

locale editor =
  fixes edit :: "'p \<Rightarrow> 'h mixdev \<Rightarrow> ('a \<times> 'h mixdev) option" and valid :: "'p \<Rightarrow> bool"
  assumes edited: "valid p \<Longrightarrow> mix_ok m \<Longrightarrow> \<exists>r m'. edit p m = Some (r, m') \<and> mix_ok m' \<and> max_ext m \<le> max_ext m'"
begin

lemma on_core: "valid p \<Longrightarrow> core_ok c \<Longrightarrow> known_mixer c dev \<Longrightarrow> settles c (on_mixer dev (edit p) c)"
proof -
  assume a: "valid p" "core_ok c" "known_mixer c dev"
  define m where "m = mixers c ! nat dev"
  have m: "mixer_at c dev = Some m" using known_at [OF a(3)] by (simp add: m_def)
  obtain r m' where "edit p m = Some (r, m')" "mix_ok m'" "max_ext m \<le> max_ext m'"
    using edited [OF a(1) at_ok [OF a(2) m]] by blast
  then show ?thesis using m settled_put [OF a(2) m] by (simp add: on_mixer_def)
qed

end

text \<open>An operation on the entries that exist.\<close>

lemma edited_fresh:
  assumes "mix_ok m" and "\<not> tree m" shows "extensions m = None" "nr_ext m = 0" "max_ext m = 0"
  using assms by (auto simp: mix_ok_def)

lemma expand_fresh: "\<not> tree m \<Longrightarrow> mix_ok m \<Longrightarrow> \<exists>m'. expand_names dev m = Some m' \<and> mix_ok m' \<and> max_ext m' = max_ext m"
  using edited_fresh [of m] by (simp add: expand_names_def Let_def) (simp add: mix_ok_def)

interpretation expander: editor "\<lambda>dev m. map_option (Pair ()) (expand_names dev m)" "\<lambda>dev. True"
proof
  fix dev and m :: "'h mixdev" assume m: "mix_ok m"
  show "\<exists>r m'. map_option (Pair ()) (expand_names dev m) = Some (r, m') \<and> mix_ok m' \<and> max_ext m \<le> max_ext m'"
  proof (cases "tree m")
    case True
    then obtain m' where "expand_names dev m = Some m'" "same_tree m m'" using keeps_expand_names unfolding keeps_def by blast
    then show ?thesis using mix_ok_same [OF _ m] by (auto simp: same_tree_def)
  next
    case False then show ?thesis using expand_fresh [OF False m, of dev] by auto
  qed
qed

interpretation grouper: editor "\<lambda>(dev, parent, name, fl). mixer_ext_create_group_flags dev parent name fl"
  "\<lambda>(dev, parent, name, fl). length name < OSS_ID_SIZE"
proof (unfold_locales, clarify)
  fix dev parent and name :: string and fl :: u32 and m :: "'h mixdev" assume n: "length name < OSS_ID_SIZE" and m: "mix_ok m"
  show "\<exists>r m'. mixer_ext_create_group_flags dev parent name fl m = Some (r, m') \<and> mix_ok m' \<and> max_ext m \<le> max_ext m'"
  proof (cases "tree m")
    case True then show ?thesis using group_created(1) [OF True n, of dev parent fl] by (auto simp: mix_ok_def dest: renews_tree)
  next
    case False then show ?thesis using m edited_fresh [OF m] by (simp add: mixer_ext_create_group_flags_def)
  qed
qed

interpretation controller: editor
  "\<lambda>(dev, parent, ctrl, f, t, name, mv, fl). mixer_ext_create_control dev parent ctrl f t name mv fl" "\<lambda>p. True"
proof (unfold_locales, clarify)
  fix dev parent ctrl f t and name :: string and mv fl and m :: "'h mixdev" assume m: "mix_ok m"
  show "\<exists>r m'. mixer_ext_create_control dev parent ctrl f t name mv fl m = Some (r, m') \<and> mix_ok m' \<and> max_ext m \<le> max_ext m'"
  proof (cases "tree m")
    case True then show ?thesis using control_created(1) [OF True, of dev parent ctrl f t name mv fl] by (auto simp: mix_ok_def dest: renews_tree)
  next
    case False then show ?thesis using m edited_fresh [OF m] by (simp add: mixer_ext_create_control_def)
  qed
qed

lemma tree_truncate: "tree m \<Longrightarrow> 1 \<le> i \<Longrightarrow> tree (mixer_ext_truncate i m)"
  by (cases "extensions m") (auto simp: mixer_ext_truncate_def tree_def skel_def rooted_def)

interpretation truncater: editor "\<lambda>i m. Some ((), mixer_ext_truncate i m)" "\<lambda>i. 1 \<le> i"
proof (unfold_locales, intro exI conjI)
  fix i :: int and m :: "'h mixdev" assume "1 \<le> i" and m: "mix_ok m"
  show "mix_ok (mixer_ext_truncate i m)"
  proof (cases "tree m")
    case True then show ?thesis using tree_truncate [OF True \<open>1 \<le> i\<close>] by (simp add: mix_ok_def)
  next
    case False then show ?thesis using m \<open>1 \<le> i\<close> edited_fresh [OF m] by (simp add: mixer_ext_truncate_def)
  qed
  show "max_ext m \<le> max_ext (mixer_ext_truncate i m)" by (simp add: mixer_ext_truncate_def)
qed (rule refl)

section \<open>The first use\<close>

text \<open>A mixer whose tree is made anew: nothing of the old one is used but its array.\<close>

definition vacant :: "'h mixdev \<Rightarrow> bool" where
  "vacant m \<longleftrightarrow> nr_ext m = 0 \<and> (case extensions m of None \<Rightarrow> max_ext m = 0 | Some xs \<Rightarrow> max_ext m = int (length xs) \<and> xs \<noteq> [])"

lemma ok_vacant: "mix_ok m \<Longrightarrow> nr_ext m \<le> 0 \<Longrightarrow> vacant m"
  by (auto simp: mix_ok_def vacant_def tree_def split: option.splits)

lemma vacant_same: "same_tree m m' \<Longrightarrow> vacant m = vacant m'"
  by (cases "extensions m"; cases "extensions m'") (auto simp: same_tree_def vacant_def skel_def dest: map_eq_imp_length_eq)

lemma tree_root_only:
  assumes "extensions m = Some xs" and "xs \<noteq> []" and "max_ext m = int (length xs)" and "nr_ext m = 1" and "x_type (xs ! 0) = MIXT_DEVROOT"
  shows "tree m"
  using assms by (cases xs) (simp_all add: tree_def skel_def rooted_def link_def)

definition root_entry :: "u32 \<Rightarrow> entry" where "root_entry t = (MIXT_DEVROOT, 0, - 1, ''DEVROOT'', None, 0, t)"

lemma device_created:
  assumes "vacant m" and "0 < n"
  shows "\<exists>m'. mixer_ext_create_device E now dev n m = Some ((), m') \<and> tree m' \<and> nr_ext m' = 1 \<and> shape m' = [root_entry now] \<and> mx_time m' = now \<and>
    max_ext m' = (if max_ext m = 0 then n + 1 else max_ext m) \<and> mixer_off m' = mixer_off m \<and> mx_ioctl m' = mx_ioctl m"
proof -
  define xs where "xs = (if max_ext m = 0 then replicate (nat (n + 1)) (me_memory E) else the (extensions m))"
  define r where "r = (xs ! 0)\<lparr>x_dev := dev, x_ctrl := - 1, x_type := MIXT_DEVROOT, x_max := 0, x_min := 0, x_flags := 0, x_id := ''DEVROOT'',
      x_parent := 0, x_time := now, x_handler := None, x_root := (take 15 (mx_id m), take 47 (mx_name m))\<rparr>"
  define m1 where "m1 = m\<lparr>max_ext := int (length xs), extensions := Some xs, nr_ext := 1, mx_time := now\<rparr>"
  have xs: "xs \<noteq> []" "int (length xs) = (if max_ext m = 0 then n + 1 else max_ext m)"
    using assms by (auto simp: xs_def vacant_def split: option.splits)
  have m1: "(if max_ext m = 0 then m\<lparr>max_ext := n + 1, extensions := Some (replicate (nat (n + 1)) (me_memory E))\<rparr> else m)
      \<lparr>nr_ext := 1, mx_time := now\<rparr> = m1"
    using assms by (auto simp: m1_def xs_def vacant_def split: option.splits)
  have "ext_at m1 0 = Some (xs ! 0)" using xs(1) by (simp add: m1_def ext_at_def)
  then have "mixer_ext_create_device E now dev n m = Some ((), put_ext 0 r m1)"
    unfolding mixer_ext_create_device_def Let_def m1 by (simp add: r_def m1_def)
  moreover have "extensions (put_ext 0 r m1) = Some (xs[0 := r])" by (simp add: put_ext_def m1_def)
  then have "tree (put_ext 0 r m1)" by (rule tree_root_only) (simp_all add: put_ext_def m1_def r_def xs(1))
  moreover have "shape (put_ext 0 r m1) = [root_entry now]"
    using xs(1) by (cases xs) (simp_all add: shape_def skel_def put_ext_def m1_def link_def r_def root_entry_def)
  ultimately show ?thesis using xs(2) by (simp add: put_ext_def m1_def mixer_off_def)
qed

text \<open>What the legacy calls leave alone.\<close>

definition quiet :: "'h mixer_core \<Rightarrow> 'h mixer_core \<Rightarrow> bool" where
  "quiet c c' \<longleftrightarrow> list_all2 same_tree (mixers c) (mixers c')"

lemma quiet_refl [simp]: "quiet c c" by (simp add: quiet_def list.rel_refl)

lemma quiet_trans: "quiet c1 c2 \<Longrightarrow> quiet c2 c3 \<Longrightarrow> quiet c1 c3"
  unfolding quiet_def by (rule list_all2_chain) (auto intro: same_tree_trans)

lemma quiet_hw [simp]: "quiet c (c'\<lparr>mc_hw := h\<rparr>) = quiet c c'" by (simp add: quiet_def)

lemma quiet_put: "mixer_at c dev = Some m \<Longrightarrow> same_tree m m' \<Longrightarrow> quiet c (put_mixer dev m' c)"
  by (auto simp: quiet_def put_mixer_def list_all2_conv_all_nth nth_list_update known_mixer_def dest!: at_known)

lemma quiet_at: "quiet c c' \<Longrightarrow> mixer_at c dev = Some m \<Longrightarrow> \<exists>m'. mixer_at c' dev = Some m' \<and> same_tree m m'"
  by (auto simp: quiet_def mixer_at_def list_all2_conv_all_nth split: if_splits)

lemma quiet_settled: "core_ok c \<Longrightarrow> quiet c c' \<Longrightarrow> settled c c'"
  by (auto simp: quiet_def settled_def core_ok_def list_all_length list_all2_conv_all_nth same_tree_def intro: mix_ok_same)

lemma quiet_legacy: "quiet c (snd (oss_legacy_mixer_ioctl dev audiodev cmd x c))"
proof (cases "mixer_at c dev")
  case (Some m)
  have "same_tree m (m\<lparr>mx_modify_counter := k\<rparr>)" for k by (simp add: same_tree_def skel_def mixer_off_def)
  then show ?thesis using Some quiet_put [OF Some]
    by (auto simp: oss_legacy_mixer_ioctl_def Let_def split: option.splits prod.splits)
qed (auto simp: oss_legacy_mixer_ioctl_def)

lemma quiet_read: "read_mask dev n c = (r, c') \<Longrightarrow> quiet c c'"
  using quiet_legacy [of c dev "- 1" "MIXER_READ n" "Mix_Int 0"]
  by (auto simp: read_mask_def split: prod.splits sum.splits)

lemma quiet_masks: "touch_masks dev ign extra c = (r, c') \<Longrightarrow> quiet c c'"
  by (auto simp: touch_masks_def Let_def dest!: quiet_read intro: quiet_trans split: prod.splits sum.splits)

lemma masks_room: "touch_masks dev ign extra c = ((n, masks), c') \<Longrightarrow> 20 \<le> n"
  by (auto simp: touch_masks_def Let_def split: prod.splits sum.splits)

lemma quiet_rw: "mixer_ext_rw dev ctrl cmd v c = (r, c') \<Longrightarrow> quiet c c'"
  using quiet_legacy [of c dev "- 1" "MIXER_READ (nat ctrl)" "Mix_Int v"] quiet_legacy [of c dev "- 1" "MIXER_WRITE (nat ctrl)" "Mix_Int v"]
  by (auto simp: mixer_ext_rw_def split: prod.splits sum.splits if_splits)

lemma quiet_recrw: "mixer_ext_recrw dev ctrl cmd v c = (r, c') \<Longrightarrow> quiet c c'"
proof -
  assume call: "mixer_ext_recrw dev ctrl cmd v c = (r, c')"
  obtain caps c1 where c1: "read_mask dev SOUND_MIXER_CAPS c = (caps, c1)" by fastforce
  obtain m c2 where c2: "read_mask dev SOUND_MIXER_RECSRC c1 = (m, c2)" by fastforce
  have q: "quiet c c2" using quiet_read [OF c1] quiet_read [OF c2] by (rule quiet_trans)
  have w: "quiet c2 (snd (oss_legacy_mixer_ioctl dev (- 1) (MIXER_WRITE SOUND_MIXER_RECSRC) (Mix_Int w) c2))" for w
    by (rule quiet_legacy)
  show ?thesis
  proof (cases m)
    case (Inl e) then show ?thesis using call q by (simp add: mixer_ext_recrw_def c1 c2)
  next
    case (Inr m)
    have "c' = c2 \<or> (\<exists>w. c' = snd (oss_legacy_mixer_ioctl dev (- 1) (MIXER_WRITE SOUND_MIXER_RECSRC) (Mix_Int w) c2))"
      using call by (auto simp: mixer_ext_recrw_def c1 c2 Inr Let_def split: if_splits prod.splits sum.splits) (metis snd_conv)+
    then show ?thesis using q w quiet_trans by blast
  qed
qed

text \<open>A mixer that is touched has a tree, unless it is switched off.\<close>

lemma on_mixer_some:
  "mixer_at c dev = Some m \<Longrightarrow> f m = Some (r, m') \<Longrightarrow> on_mixer dev f c = Some (r, put_mixer dev m' c)"
  by (simp add: on_mixer_def)

lemma at_put: "mixer_at c dev = Some m \<Longrightarrow> mixer_at (put_mixer dev m' c) dev = Some m'"
  by (auto simp: mixer_at_def put_mixer_def split: if_splits)

lemma export_settles:
  assumes "core_ok c" and "mixer_at c dev = Some m" and "tree m"
  shows "\<exists>c'. export_legacy dev masks c = Some c' \<and> settled c c'"
proof (cases masks)
  case None then show ?thesis using assms(1) by (simp add: export_legacy_def)
next
  case (Some w)
  obtain caps dm rm where w: "w = (caps, dm, rm)" by (cases w)
  obtain st c1 where c1: "read_mask dev SOUND_MIXER_STEREODEVS c = (st, c1)" by fastforce
  note q = quiet_read [OF c1]
  obtain m1 where m1: "mixer_at c1 dev = Some m1" "same_tree m m1" using quiet_at [OF q assms(2)] by blast
  have "grows m1 (export_controls dev st' rm (sources dm) m1)" for st'
    using tree_same [OF m1(2) assms(3)] by (rule grows_controls) (rule sources_less)
  then obtain m2 where m2: "export_controls dev (case st of Inl e \<Rightarrow> - 1 | Inr w \<Rightarrow> w) rm (sources dm) m1 = Some m2"
    "tree m2" "max_ext m2 = max_ext m1" unfolding grows_def by blast
  have s1: "settled c c1" using assms(1) q by (rule quiet_settled)
  have "settled c1 (put_mixer dev m2 c1)"
    by (rule settled_put [OF settled_ok [OF s1] m1(1) tree_ok [OF m2(2)]]) (simp add: m2(3))
  then have "settled c (put_mixer dev m2 c1)" using settled_trans [OF s1] by blast
  then show ?thesis using s1 m1(1) m2(1) by (simp add: export_legacy_def Some w c1 on_mixer_def)
qed

lemma settled_replaced:
  assumes "core_ok c" and "mixer_at c dev = Some m0" and "quiet (put_mixer dev m c) c'" and "mix_ok m2" and "max_ext m0 \<le> max_ext m2"
  shows "settled c (put_mixer dev m2 c')"
proof -
  have n: "length (mixers c') = length (mixers c)" "nat dev < length (mixers c)" "m0 = mixers c ! nat dev"
    using assms(2,3) at_known [OF assms(2)] by (auto simp: quiet_def put_mixer_def known_mixer_def dest: list_all2_lengthD)
  have same: "same_tree (mixers c ! i) (mixers c' ! i)" if "i < length (mixers c)" "i \<noteq> nat dev" for i
    using assms(3) that by (auto simp: quiet_def put_mixer_def list_all2_conv_all_nth)
  have "mix_ok (mixers c ! i)" if "i < length (mixers c)" for i using assms(1) that by (simp add: core_ok_def list_all_length)
  then show ?thesis
    using n same assms(1,4,5) mix_ok_same [OF same]
    by (auto simp: settled_def core_ok_def put_mixer_def list_all_length list_all2_conv_all_nth nth_list_update same_tree_def)
qed

lemma settled_at: "settled c c' \<Longrightarrow> mixer_at c dev = Some m \<Longrightarrow> \<exists>m'. mixer_at c' dev = Some m' \<and> max_ext m \<le> max_ext m'"
  by (auto simp: settled_def mixer_at_def list_all2_conv_all_nth split: if_splits)

lemma made_settles:
  assumes E: "polite_env E" and c: "core_ok c" and k: "known_mixer c dev"
  shows "settles c (Option.bind (on_mixer dev (mixer_ext_create_control dev 0 0 None MIXT_MARKER [] 0 0) c) (\<lambda>(_, c).
     map_option (Pair ()) (Option.bind (case f of None \<Rightarrow> Some c | Some k \<Rightarrow> me_create E k dev c) (\<lambda>c.
       map_option snd (on_mixer dev (\<lambda>m. map_option (Pair ()) (expand_names dev m)) c)))))"
proof (rule settles_bind, goal_cases)
  case 1
  show ?case using controller.on_core [OF _ c k, of "(dev, 0, 0, None, MIXT_MARKER, [], 0, 0)"] by simp
next
  case (2 x c1)
  have c1: "core_ok c1" "known_mixer c1 dev" using settled_ok [OF 2] settled_known [OF 2] k by simp_all
  obtain c2 where c2: "(case f of None \<Rightarrow> Some c1 | Some k \<Rightarrow> me_create E k dev c1) = Some c2" "settled c1 c2"
  proof (cases f)
    case None then show ?thesis using that c1(1) by simp
  next
    case (Some n)
    have "settles c1 (map_option (Pair ()) (me_create E n dev c1))" using E c1 unfolding polite_env_def by blast
    then show ?thesis using that Some by (auto simp: settles_def)
  qed
  have "settles c2 (on_mixer dev (\<lambda>m. map_option (Pair ()) (expand_names dev m)) c2)"
    using expander.on_core [where p = dev and c = c2 and dev = dev] settled_ok [OF c2(2)] settled_known [OF c2(2)] c1(2) by simp
  then show ?case using c2 by (auto simp: settles_def intro: settled_trans)
qed

lemma touch_vacant:
  assumes E: "polite_env E" and c: "core_ok c" "mixer_at c dev = Some m0" and m: "vacant m" "max_ext m0 \<le> max_ext m" "\<not> mixer_off m"
  shows "settles c (map_option (Pair ()) (touch_mixer E dev (put_mixer dev m c)))"
proof -
  obtain n masks c1 where c1: "touch_masks dev (ignore_mask m) (nr_extra_ext m) (put_mixer dev m c) = ((n, masks), c1)"
    by (metis surj_pair)
  note q = quiet_masks [OF c1]
  note at = at_put [OF c(2), of m]
  obtain m1 where m1: "mixer_at c1 dev = Some m1" "same_tree m m1" using quiet_at [OF q at] by blast
  have v1: "vacant m1" "max_ext m1 = max_ext m" using m(1) m1(2) vacant_same [OF m1(2)] by (simp_all add: same_tree_def)
  define now where "now = me_jiffies E (mc_hw c1)"
  obtain m2 where m2: "mixer_ext_create_device E now dev n m1 = Some ((), m2)" "tree m2"
    "max_ext m2 = (if max_ext m1 = 0 then n + 1 else max_ext m1)"
    using device_created [OF v1(1), of n E now dev] masks_room [OF c1] by auto
  have "max_ext m0 \<le> max_ext m2" using m(2) v1(2) m2(3) masks_room [OF c1] by auto
  then have s2: "settled c (put_mixer dev m2 c1)" by (rule settled_replaced [OF c q tree_ok [OF m2(2)]])
  obtain c3 where c3: "export_legacy dev masks (put_mixer dev m2 c1) = Some c3" "settled (put_mixer dev m2 c1) c3"
    using export_settles [OF settled_ok [OF s2] at_put [OF m1(1)] m2(2)] by blast
  have s3: "settled c c3" using settled_trans [OF s2 c3(2)] .
  have "known_mixer c3 dev" using settled_known [OF s3] at_known [OF c(2)] by simp
  note made = made_settles [OF E settled_ok [OF s3] this, of "mx_create m"]
  have "touch_mixer E dev (put_mixer dev m c) =
      Option.bind (on_mixer dev (mixer_ext_create_control dev 0 0 None MIXT_MARKER [] 0 0) c3) (\<lambda>(_, c).
        Option.bind (case mx_create m of None \<Rightarrow> Some c | Some k \<Rightarrow> me_create E k dev c) (\<lambda>c.
          map_option snd (on_mixer dev (\<lambda>m. map_option (Pair ()) (expand_names dev m)) c)))"
    using m(1,3) at on_mixer_some [where f = "mixer_ext_create_device E now dev n", OF m1(1) m2(1)] c3(1)
    by (simp add: touch_mixer_def c1 now_def vacant_def)
  then show ?thesis using settles_after [OF s3 made] by (simp add: map_option_bind case_prod_unfold)
qed

lemma touch_settles:
  assumes "polite_env E" and "core_ok c" and "known_mixer c dev"
  shows "settles c (map_option (Pair ()) (touch_mixer E dev c))"
proof -
  define m where "m = mixers c ! nat dev"
  have m: "mixer_at c dev = Some m" using known_at [OF assms(3)] by (simp add: m_def)
  show ?thesis
  proof (cases "mixer_off m \<or> 0 < nr_ext m")
    case True then show ?thesis using assms(2) m by (simp add: touch_mixer_def)
  next
    case False
    then have "vacant m" using ok_vacant [OF at_ok [OF assms(2) m]] by simp
    moreover have "put_mixer dev m c = c" by (simp add: put_mixer_def m_def)
    ultimately show ?thesis using touch_vacant [OF assms(1,2) m, of m] False by simp
  qed
qed

section \<open>Operations and calls\<close>

lemma touched_settles:
  assumes "polite_env E" and "core_ok c" and "\<And>c'. settled c c' \<Longrightarrow> settles c' (on_mixer dev f c')"
  shows "settles c (touched E dev f c)"
proof (cases "known_mixer c dev")
  case True
  obtain c1 where c1: "touch_mixer E dev c = Some c1" "settled c c1"
    using touch_settles [OF assms(1,2) True] by (auto simp: settles_def)
  then show ?thesis using settles_after [OF c1(2) assms(3) [OF c1(2)]] True by (simp add: touched_def)
qed (simp add: touched_def assms(2))

text \<open>A call on a control: only entries that exist are used.\<close>

lemma with_ext_settles:
  assumes "polite_env E" and "core_ok c" and "known_mixer c dev"
    and "\<And>e c' m. settled c c' \<Longrightarrow> mixer_at c' dev = Some m \<Longrightarrow> ext_at m i = Some e \<Longrightarrow> settles c' (k e c')"
  shows "settles c (with_ext E dev i y k c)"
proof -
  obtain c1 where c1: "touch_mixer E dev c = Some c1" "settled c c1"
    using touch_settles [OF assms(1,2,3)] by (auto simp: settles_def)
  define m where "m = mixers c1 ! nat dev"
  have m: "mixer_at c1 dev = Some m" using settled_known [OF c1(2), of dev] assms(3) known_at [of c1 dev] by (simp add: m_def)
  show ?thesis
  proof (cases "i < 0 \<or> nr_ext m \<le> i")
    case True then show ?thesis using c1 m by (simp add: with_ext_def)
  next
    case False
    then have "tree m" using ok_tree [OF at_ok [OF settled_ok [OF c1(2)] m]] by simp
    then obtain e where e: "ext_at m i = Some e" using tree_ext [of m i] False by auto
    then show ?thesis using False c1 m settles_after [OF c1(2) assms(4) [OF c1(2) m e]] by (simp add: with_ext_def)
  qed
qed

lemma put_ext_settled:
  assumes "core_ok c" and "mixer_at c dev = Some m" and "ext_at m i = Some e" and "link e' = link e"
  shows "settled c (put_mixer dev (put_ext i e' m) c)"
  using mix_ok_same [OF same_tree_put [OF assms(3,4)] at_ok [OF assms(1,2)]]
  by (intro settled_put [OF assms(1,2)]) (simp_all add: put_ext_def)

lemma counter_settled:
  assumes "core_ok c" and "mixer_at c dev = Some m"
  shows "settled c (put_mixer dev (m\<lparr>mx_modify_counter := k\<rparr>) c)"
proof -
  have "same_tree m (m\<lparr>mx_modify_counter := k\<rparr>)" by (simp add: same_tree_def skel_def mixer_off_def)
  then show ?thesis using mix_ok_same [OF _ at_ok [OF assms]] by (intro settled_put [OF assms]) simp_all
qed

lemma handler_settles:
  assumes "polite_env E" and "core_ok c" and "known_mixer c dev" shows "settles c (call_handler E f dev ctrl cmd v c)"
proof (cases f)
  case Mixer_Ext_Rw
  then show ?thesis using quiet_settled [OF assms(2) quiet_rw] by (auto simp: call_handler_def settles_def) (metis surj_pair)
next
  case Mixer_Ext_Recrw
  then show ?thesis using quiet_settled [OF assms(2) quiet_recrw] by (auto simp: call_handler_def settles_def) (metis surj_pair)
next
  case (Driver_Fn k) then show ?thesis using assms by (simp add: call_handler_def polite_env_def)
qed

lemma give_settles: "settles c r \<Longrightarrow> settles c (give_value val r)"
  by (auto simp: give_value_def settles_def)

lemma read_settles: "polite_env E \<Longrightarrow> core_ok c \<Longrightarrow> settles c (mixer_ext_read E val c)"
  by (auto simp: mixer_ext_read_def Let_def at_known split: option.splits
      intro!: with_ext_settles give_settles handler_settles settled_refl intro: settled_ok at_known [THEN conjunct1])

lemma count_settles:
  assumes "core_ok c" and "mixer_at c dev = Some m" and "ext_at m i = Some e"
  shows "settles c (count_write dev i (r, c))"
  using put_ext_settled [OF assms, of "bump_ext e"] assms
  by (auto simp: count_write_def on_mixer_def split: sum.splits)

lemma tree_at:
  assumes "settled c c'" and "core_ok c" and "mixer_at c dev = Some m" and "ext_at m i = Some e"
  obtains m' e' where "mixer_at c' dev = Some m'" and "ext_at m' i = Some e'"
proof -
  obtain m' where m': "mixer_at c' dev = Some m'" "max_ext m \<le> max_ext m'" using settled_at [OF assms(1,3)] by blast
  have "extensions m \<noteq> None" using assms(4) by (simp add: ext_at_def split: option.splits)
  then have "tree m" using at_ok [OF assms(2,3)] by (auto simp: mix_ok_def)
  then have i: "0 \<le> i" "i < max_ext m" using assms(4) by (auto simp: tree_def skel_def ext_at_def split: option.splits if_splits)
  then have "tree m'" using m'(2) at_ok [OF settled_ok [OF assms(1)] m'(1)] by (auto simp: mix_ok_def)
  then obtain e' where "ext_at m' i = Some e'"
    using i m'(2) by (auto simp: tree_def skel_def ext_at_def split: option.splits)
  then show ?thesis using that m'(1) by blast
qed

lemma write_settles:
  assumes E: "polite_env E" and c: "core_ok c" shows "settles c (mixer_ext_write E val c)"
proof -
  have body: "settles c1 (Option.bind (on_mixer (mv_dev val) (\<lambda>m. Some ((), m\<lparr>mx_modify_counter := mx_modify_counter m + 1\<rparr>)) c1) (\<lambda>(_, c).
      give_value val (Option.bind (call_handler E f (mv_dev val) ctrl MIX_WRITE (mv_value val) c)
        (count_write (mv_dev val) (mv_ctrl val)))))"
    if c1: "core_ok c1" and m: "mixer_at c1 (mv_dev val) = Some m" and e: "ext_at m (mv_ctrl val) = Some e" for c1 m e f ctrl
  proof -
    define m1 where "m1 = m\<lparr>mx_modify_counter := mx_modify_counter m + 1\<rparr>"
    define c2 where "c2 = put_mixer (mv_dev val) m1 c1"
    have s2: "settled c1 c2" unfolding c2_def m1_def using c1 m by (rule counter_settled)
    have at2: "mixer_at c2 (mv_dev val) = Some m1" "ext_at m1 (mv_ctrl val) = Some e"
      using at_put [OF m] e by (simp_all add: c2_def m1_def ext_at_def)
    obtain r c3 where c3: "call_handler E f (mv_dev val) ctrl MIX_WRITE (mv_value val) c2 = Some (r, c3)" "settled c2 c3"
      using handler_settles [OF E settled_ok [OF s2]] at_known [OF at2(1)] unfolding settles_def by blast
    obtain m3 e3 where m3: "mixer_at c3 (mv_dev val) = Some m3" "ext_at m3 (mv_ctrl val) = Some e3"
      using tree_at [OF c3(2) settled_ok [OF s2] at2] .
    have "settles c3 (count_write (mv_dev val) (mv_ctrl val) (r, c3))"
      using settled_ok [OF c3(2)] m3 by (rule count_settles)
    then have "settles c1 (give_value val (count_write (mv_dev val) (mv_ctrl val) (r, c3)))"
      using settles_after [OF settled_trans [OF s2 c3(2)]] by (intro give_settles) blast
    then show ?thesis using m c3(1) by (simp add: on_mixer_def c2_def m1_def)
  qed
  show ?thesis
  proof (cases "mixer_at c (mv_dev val)")
    case None then show ?thesis using c by (simp add: mixer_ext_write_def Let_def)
  next
    case (Some m)
    have k: "known_mixer c (mv_dev val)" using at_known [OF Some] by simp
    show ?thesis
      using c Some unfolding mixer_ext_write_def Let_def
      by (auto simp: settled_ok intro!: with_ext_settles [OF E c k] body split: option.splits)
  qed
qed

lemma info_settles: "polite_env E \<Longrightarrow> core_ok c \<Longrightarrow> settles c (oss_mixer_ext_info E ent c)"
  by (auto simp: oss_mixer_ext_info_def Let_def settled_ok at_known split: option.splits intro!: with_ext_settles dest: at_known)

lemma enuminfo_settles: "polite_env E \<Longrightarrow> core_ok c \<Longrightarrow> settles c (mixer_ext_get_enuminfo E ent c)"
  by (auto simp: mixer_ext_get_enuminfo_def Let_def settled_ok split: option.splits intro!: with_ext_settles)

lemma description_settles: "polite_env E \<Longrightarrow> core_ok c \<Longrightarrow> settles c (mixer_ext_get_description E ent c)"
  by (auto simp: mixer_ext_get_description_def Let_def settled_ok split: option.splits intro!: with_ext_settles)

lemma touch_then:
  assumes "polite_env E" and "core_ok c" and "known_mixer c dev"
  shows "\<exists>c' m. touch_mixer E dev c = Some c' \<and> settled c c' \<and> mixer_at c' dev = Some m"
proof -
  obtain c' where c': "touch_mixer E dev c = Some c'" "settled c c'" using touch_settles [OF assms] by (auto simp: settles_def)
  then show ?thesis using settled_known [OF c'(2), of dev] assms(3) known_at [of c' dev] by auto
qed

lemma find_ext_settles: "polite_env E \<Longrightarrow> core_ok c \<Longrightarrow> settles c (mixer_find_ext E dev i c)"
proof (cases "known_mixer c dev")
  case True
  assume a: "polite_env E" "core_ok c"
  obtain c' m where c': "touch_mixer E dev c = Some c'" "settled c c'" "mixer_at c' dev = Some m"
    using touch_then [OF a True] by blast
  have "put_mixer dev m c' = c'" using at_known [OF c'(3)] by (simp add: put_mixer_def)
  moreover have "\<exists>e. ext_at m i = Some e" if "0 \<le> i" "i < nr_ext m"
    using tree_ext [OF ok_tree [OF at_ok [OF settled_ok [OF c'(2)] c'(3)]]] that by (metis order_le_less_trans)
  ultimately show ?thesis using True c' by (auto simp: mixer_find_ext_def on_mixer_def)
qed (simp add: mixer_find_ext_def)

lemma mixerinfo_settles: "polite_env E \<Longrightarrow> core_ok c \<Longrightarrow> settles c (get_mixerinfo E orig cl info c)"
  using touch_then [of E c "if im_dev info = - 1 then orig else im_dev info"]
  by (auto simp: get_mixerinfo_def Let_def split: if_splits)

lemma count_entries_settles:
  assumes "polite_env E" and "core_ok c" shows "settles c (count_entries E orig v c)"
proof -
  define dev where "dev = (if v = - 1 then orig else v)"
  show ?thesis
  proof (cases "mixer_at c dev")
    case None then show ?thesis using assms(2) by (simp add: count_entries_def Let_def dev_def [symmetric])
  next
    case (Some m)
    then show ?thesis
      using touch_then [OF assms, of dev] at_known [OF Some] assms(2) by (auto simp: count_entries_def Let_def dev_def [symmetric])
  qed
qed

lemma renum_same: "list_all2 same_tree ms (snd (renum_mixers ds ms))"
  by (induction ds ms rule: renum_mixers.induct)
    (auto simp: list.rel_refl same_tree_def skel_def mixer_off_def split: prod.splits)

lemma ext_call_settles:
  assumes "polite_env E" and "core_ok c" shows "settles c (oss_mixer_ext E root orig cl cmd x c)"
proof (cases cmd)
  case RENUM_MIXERDEVS
  have q: "settled c (c\<lparr>mixers := ms\<rparr>)" if "renum_mixers ds (mixers c) = (ok, ms)" for ds ok ms
    using renum_same [of "mixers c" ds] that by (intro quiet_settled [OF assms(2)]) (simp add: quiet_def)
  show ?thesis using RENUM_MIXERDEVS assms(2) q by (cases x) (auto simp: oss_mixer_ext_def Let_def split: prod.splits)
next
  case (Info_Call k) then show ?thesis using assms by (simp add: oss_mixer_ext_def polite_env_def)
qed (use assms in \<open>auto simp: oss_mixer_ext_def read_settles write_settles info_settles enuminfo_settles description_settles
    mixerinfo_settles count_entries_settles Let_def split: mix_arg.splits\<close>)

lemma ioctl_settles:
  assumes "polite_env E" and "core_ok c" shows "settles c (oss_mixer_ioctl E root dev cmd x c)"
proof -
  obtain r y c' where l: "oss_legacy_mixer_ioctl dev (- 1) cmd x c = ((r, y), c')" by (metis surj_pair)
  have "quiet c c'" using quiet_legacy [of c dev "- 1" cmd x] l by simp
  then have s: "settled c c'" using assms(2) by (intro quiet_settled)
  then show ?thesis
    using assms settles_after [OF s ext_call_settles [OF assms(1) settled_ok [OF s]]]
    by (auto simp: oss_mixer_ioctl_def l ext_call_settles split: option.splits)
qed

section \<open>Sessions\<close>

text \<open>What drivers and applications do with the mixer core, with the conditions under which a driver may do it.\<close>

datatype 'h mixer_op =
  Install_Mixer int osdev string "'h legacy_method option"
| Add_Group int int string u32
| Add_Control int int int "mixer_fn option" mixt string int u32
| Cut_Tree int int
| Name_Choices int int string int
| Describe int int string
| Set_Init int "nat option" int
| Rebuild_All int "nat option" int
| Set_Vmix int nat int
| Find_Entry int int
| Mixer_Call bool int mix_ioctl mix_arg
| Audio_Mixer_Call int int mix_ioctl mix_arg
| Core_Call bool int dev_class mix_ioctl mix_arg

definition allowed :: "'h mixer_op \<Rightarrow> 'h mixer_core \<Rightarrow> bool" where
  "allowed a c =
     (case a of
        Add_Group dev p name fl \<Rightarrow> known_mixer c dev \<and> length name < OSS_ID_SIZE
      | Add_Control dev p ctrl f t name mv fl \<Rightarrow> known_mixer c dev
      | Cut_Tree dev i \<Rightarrow> known_mixer c dev \<and> 1 \<le> i
      | Name_Choices dev i s v \<Rightarrow> length s < OSS_ENUM_STRINGSIZE
      | Describe dev i s \<Rightarrow> s \<noteq> []
      | Rebuild_All dev f n \<Rightarrow> (case mixer_at c dev of None \<Rightarrow> True | Some m \<Rightarrow> \<not> mixer_off m)
      | _ \<Rightarrow> True)"

definition mixer_step :: "'h mixer_env \<Rightarrow> 'h mixer_op \<Rightarrow> 'h mixer_core \<Rightarrow> 'h mixer_core option" where
  "mixer_step E a c =
     (case a of
        Install_Mixer vers od name f \<Rightarrow> (case oss_install_mixer E vers od name f c of (r, od, c) \<Rightarrow> Some c)
      | Add_Group dev p name fl \<Rightarrow> map_option snd (on_mixer dev (mixer_ext_create_group_flags dev p name fl) c)
      | Add_Control dev p ctrl f t name mv fl \<Rightarrow> map_option snd (on_mixer dev (mixer_ext_create_control dev p ctrl f t name mv fl) c)
      | Cut_Tree dev i \<Rightarrow> map_option snd (on_mixer dev (\<lambda>m. Some ((), mixer_ext_truncate i m)) c)
      | Name_Choices dev i s v \<Rightarrow> map_option snd (mixer_ext_set_strings E dev i s v c)
      | Describe dev i s \<Rightarrow> map_option snd (mixer_ext_set_description E dev i s c)
      | Set_Init dev f n \<Rightarrow> map_option snd (mixer_ext_set_init_fn dev f n c)
      | Rebuild_All dev f n \<Rightarrow> map_option snd (mixer_ext_rebuild_all E dev f n c)
      | Set_Vmix dev f n \<Rightarrow> map_option snd (mixer_ext_set_vmix_init_fn E dev f n c)
      | Find_Entry dev i \<Rightarrow> map_option snd (mixer_find_ext E dev i c)
      | Mixer_Call root dev cmd x \<Rightarrow> map_option snd (oss_mixer_ioctl E root dev cmd x c)
      | Audio_Mixer_Call dev audiodev cmd x \<Rightarrow> Some (snd (oss_legacy_mixer_ioctl dev audiodev cmd x c))
      | Core_Call root orig cl cmd x \<Rightarrow> map_option snd (oss_mixer_ext E root orig cl cmd x c))"

text \<open>The result says as well whether every operation was allowed in its state.\<close>

fun mixer_session :: "'h mixer_env \<Rightarrow> 'h mixer_op list \<Rightarrow> 'h mixer_core \<Rightarrow> (bool \<times> 'h mixer_core) option" where
  "mixer_session E [] c = Some (True, c)"
| "mixer_session E (a # as) c =
     (if allowed a c then Option.bind (mixer_step E a c) (mixer_session E as) else Some (False, c))"

lemma settled_edit:
  assumes "core_ok c" and "mixer_at c dev = Some m" and "same_tree m m'" shows "settled c (put_mixer dev m' c)"
  using assms(1) quiet_put [OF assms(2,3)] by (rule quiet_settled)

text \<open>An editor that answers with an error or a value, on a mixer that is touched first.\<close>

locale checked_editor = editor edit valid
  for edit :: "'p \<Rightarrow> 'h mixdev \<Rightarrow> ('a oss_result \<times> 'h mixdev) option" and valid
begin

lemma touched_core: "valid p \<Longrightarrow> polite_env E \<Longrightarrow> core_ok c \<Longrightarrow> settles c (touched E dev (edit p) c)"
proof (cases "known_mixer c dev")
  case True
  assume "valid p" "polite_env E" "core_ok c"
  then show ?thesis using True by (intro touched_settles on_core) (simp_all add: settled_ok settled_known)
qed (simp add: touched_def)

end

interpretation enumerator: checked_editor set_enum "\<lambda>e. True"
proof
  fix e and m :: "'h mixdev" assume m: "mix_ok m"
  show "\<exists>r m'. set_enum e m = Some (r, m') \<and> mix_ok m' \<and> max_ext m \<le> max_ext m'"
  proof (cases "tree m")
    case True
    then obtain r m' where "set_enum e m = Some (r, m')" "same_tree m m'" using keeps_set_enum by blast
    then show ?thesis using mix_ok_same [OF _ m] by (auto simp: same_tree_def)
  next
    case False then show ?thesis using m edited_fresh [OF m] by (cases "en_ctrl e < 0") (simp_all add: set_enum_def Let_def)
  qed
qed

interpretation describer: checked_editor "\<lambda>(i, s). set_description i s" "\<lambda>(i, s). s \<noteq> []"
proof (unfold_locales, clarify)
  fix i and s :: string and m :: "'h mixdev" assume s: "s \<noteq> []" and m: "mix_ok m"
  show "\<exists>r m'. set_description i s m = Some (r, m') \<and> mix_ok m' \<and> max_ext m \<le> max_ext m'"
  proof (cases "i < 0 \<or> nr_ext m \<le> i")
    case True then show ?thesis using m by (simp add: set_description_def)
  next
    case False
    then have "tree m" using ok_tree [OF m] by simp
    then obtain e where e: "ext_at m i = Some e" using tree_ext [of m i] False by auto
    have "same_tree m (put_ext i (e\<lparr>x_descr := d, x_flags := fl\<rparr>) m)" for d fl by (rule same_tree_put [OF e]) simp
    then show ?thesis
      using False e s mix_ok_same [OF _ m] by (auto simp: set_description_def Let_def same_tree_def OSS_ENUM_STRINGSIZE_def)
  qed
qed

lemma strings_settles:
  "polite_env E \<Longrightarrow> core_ok c \<Longrightarrow> length s < OSS_ENUM_STRINGSIZE \<Longrightarrow> settles c (mixer_ext_set_strings E dev i s v c)"
  by (auto simp: mixer_ext_set_strings_def mixer_ext_set_enum_def strings_enum_def intro: enumerator.touched_core)

lemma describe_settles: "polite_env E \<Longrightarrow> core_ok c \<Longrightarrow> s \<noteq> [] \<Longrightarrow> settles c (mixer_ext_set_description E dev i s c)"
  using describer.touched_core [of "(i, s)"] by (simp add: mixer_ext_set_description_def)

lemma rebuild_settles:
  assumes "polite_env E" and "core_ok c" and "\<And>m. mixer_at c dev = Some m \<Longrightarrow> \<not> mixer_off m"
  shows "settles c (mixer_ext_rebuild_all E dev f n c)"
proof (cases "mixer_at c dev")
  case None then show ?thesis using assms(2) by (simp add: mixer_ext_rebuild_all_def)
next
  case (Some m)
  define m1 where "m1 = m\<lparr>nr_ext := 0, nr_extra_ext := n, mx_create := f\<rparr>"
  have "vacant m1" using at_ok [OF assms(2) Some]
    by (auto simp: m1_def vacant_def mix_ok_def tree_def skel_def split: option.splits)
  then have "settles c (map_option (Pair ()) (touch_mixer E dev (put_mixer dev m1 c)))"
    using assms(3) [OF Some] by (intro touch_vacant [OF assms(1,2) Some]) (simp_all add: m1_def mixer_off_def)
  then obtain c1 where c1: "touch_mixer E dev (put_mixer dev m1 c) = Some c1" "settled c c1" by (auto simp: settles_def)
  have "settles c1 (map_option (Pair ()) (case v of None \<Rightarrow> Some c1 | Some k \<Rightarrow> me_create E k dev c1))" for v
    using assms(1) settled_ok [OF c1(2)] settled_known [OF c1(2)] at_known [OF Some] by (cases v) (auto simp: polite_env_def)
  from settles_after [OF c1(2) this] show ?thesis
    using Some c1(1) by (auto simp: mixer_ext_rebuild_all_def m1_def [symmetric] settles_def)
qed

lemma vmix_settles:
  assumes "polite_env E" and "core_ok c" shows "settles c (mixer_ext_set_vmix_init_fn E dev f n c)"
proof (cases "mixer_at c dev")
  case None then show ?thesis using assms(2) by (simp add: mixer_ext_set_vmix_init_fn_def)
next
  case (Some m)
  define m1 where "m1 = m\<lparr>nr_extra_ext := nr_extra_ext m + n, mx_create_vmix := Some f\<rparr>"
  have "same_tree m m1" by (simp add: m1_def same_tree_def skel_def mixer_off_def)
  then have s: "settled c (put_mixer dev m1 c)" using assms(2) Some by (intro settled_edit)
  obtain c1 where c1: "touch_mixer E dev (put_mixer dev m1 c) = Some c1" "settled (put_mixer dev m1 c) c1"
    using touch_then [OF assms(1) settled_ok [OF s]] settled_known [OF s] at_known [OF Some] by blast
  have "settles c1 (map_option (Pair ()) (me_create E f dev c1))"
    using assms(1) settled_ok [OF c1(2)] settled_known [OF c1(2)] settled_known [OF s] at_known [OF Some] by (simp add: polite_env_def)
  then obtain c2 where c2: "me_create E f dev c1 = Some c2" "settled c1 c2" by (auto simp: settles_def)
  have s2: "settled c c2" using settled_trans [OF settled_trans [OF s c1(2)] c2(2)] .
  have "settles c2 (on_mixer dev (\<lambda>m. map_option (Pair ()) (expand_names dev m)) c2)"
    using settled_ok [OF s2] settled_known [OF s2] at_known [OF Some] by (intro expander.on_core) simp_all
  then obtain c3 where c3: "on_mixer dev (\<lambda>m. map_option (Pair ()) (expand_names dev m)) c2 = Some ((), c3)" "settled c2 c3"
    by (auto simp: settles_def)
  then have "on_mixer dev (\<lambda>m. map_option (Pair (Inr () :: unit oss_result)) (expand_names dev m)) c2 = Some (Inr (), c3)"
    by (auto simp: on_mixer_def split: option.splits)
  then show ?thesis
    using Some c1(1) c2(1) settled_trans [OF s2 c3(2)] by (simp add: mixer_ext_set_vmix_init_fn_def m1_def [symmetric])
qed

lemma set_up_ok: "mix_ok (set_up_mixer now od name f num m)"
  by (simp add: mix_ok_def set_up_mixer_def)

lemma returning_less: "returning_mixer od ms = Some i \<Longrightarrow> i < length ms"
  by (auto simp: returning_mixer_def find_Some_iff)

lemma install_ok:
  assumes "core_ok c" shows "core_ok (snd (snd (oss_install_mixer E vers od name f c)))"
proof -
  have "list_all mix_ok ((mixers c)[i := set_up_mixer now od name f num m])" for i now num m
    using assms set_up_ok by (auto simp: core_ok_def list_all_iff dest!: set_update_subset_insert [THEN subsetD])
  then show ?thesis
    using assms set_up_ok
    by (auto simp: oss_install_mixer_def Let_def core_ok_def MAX_MIXER_DEV_def split: option.splits)
qed

lemma settles_step: "settles c r \<Longrightarrow> \<exists>c'. map_option snd r = Some c' \<and> core_ok c'"
  by (auto simp: settles_def dest: settled_ok)

lemma step_ok:
  assumes "polite_env E" and "core_ok c" and "allowed a c"
  shows "\<exists>c'. mixer_step E a c = Some c' \<and> core_ok c'"
proof (cases a)
  case (Install_Mixer vers od name f)
  then show ?thesis using install_ok [OF assms(2), of E vers od name f] by (auto simp: mixer_step_def split: prod.splits)
next
  case (Add_Group dev p name fl)
  then have "settles c (on_mixer dev (mixer_ext_create_group_flags dev p name fl) c)"
    using assms(3) grouper.on_core [of "(dev, p, name, fl)", OF _ assms(2)] by (simp add: allowed_def)
  from settles_step [OF this] show ?thesis by (simp add: mixer_step_def Add_Group)
next
  case (Add_Control dev p ctrl f t name mv fl)
  then have "settles c (on_mixer dev (mixer_ext_create_control dev p ctrl f t name mv fl) c)"
    using assms(3) controller.on_core [where p = "(dev, p, ctrl, f, t, name, mv, fl)", OF _ assms(2)] by (simp add: allowed_def)
  from settles_step [OF this] show ?thesis by (simp add: mixer_step_def Add_Control)
next
  case (Cut_Tree dev i)
  then have "settles c (on_mixer dev (\<lambda>m. Some ((), mixer_ext_truncate i m)) c)"
    using assms(3) truncater.on_core [of i, OF _ assms(2)] by (simp add: allowed_def)
  from settles_step [OF this] show ?thesis by (simp add: mixer_step_def Cut_Tree)
next
  case (Name_Choices dev i s v)
  then show ?thesis using settles_step [OF strings_settles [OF assms(1,2)]] assms(3) by (simp add: mixer_step_def allowed_def)
next
  case (Describe dev i s)
  then show ?thesis using settles_step [OF describe_settles [OF assms(1,2)]] assms(3) by (simp add: mixer_step_def allowed_def)
next
  case (Set_Init dev f n)
  have "same_tree (mixers c ! nat dev) ((mixers c ! nat dev)\<lparr>nr_extra_ext := n, mx_create := f\<rparr>)"
    by (simp add: same_tree_def skel_def mixer_off_def)
  then have "settles c (mixer_ext_set_init_fn dev f n c)"
    using settled_edit [OF assms(2) known_at] assms(2)
    by (cases "known_mixer c dev") (simp_all add: mixer_ext_set_init_fn_def on_mixer_def known_at [of c dev])
  from settles_step [OF this] show ?thesis by (simp add: mixer_step_def Set_Init)
next
  case (Rebuild_All dev f n)
  then show ?thesis
    using settles_step [OF rebuild_settles [OF assms(1,2)], of dev] assms(3)
    by (cases "mixer_at c dev") (simp_all add: mixer_step_def allowed_def)
next
  case (Set_Vmix dev f n)
  then show ?thesis using settles_step [OF vmix_settles [OF assms(1,2)]] by (simp add: mixer_step_def)
next
  case (Find_Entry dev i)
  then show ?thesis using settles_step [OF find_ext_settles [OF assms(1,2)]] by (simp add: mixer_step_def)
next
  case (Mixer_Call root dev cmd x)
  then show ?thesis using settles_step [OF ioctl_settles [OF assms(1,2)]] by (simp add: mixer_step_def)
next
  case (Audio_Mixer_Call dev audiodev cmd x)
  then show ?thesis using settled_ok [OF quiet_settled [OF assms(2) quiet_legacy]] by (simp add: mixer_step_def)
next
  case (Core_Call root orig cl cmd x)
  then show ?thesis using settles_step [OF ext_call_settles [OF assms(1,2)]] by (simp add: mixer_step_def)
qed

lemma mixer_session_ok:
  assumes "polite_env E" and "core_ok c"
  shows "\<exists>ok c'. mixer_session E as c = Some (ok, c') \<and> core_ok c'"
  using assms(2)
proof (induction "as" arbitrary: c)
  case (Cons a "as")
  show ?case
  proof (cases "allowed a c")
    case True
    obtain c1 where "mixer_step E a c = Some c1" "core_ok c1" using step_ok [OF assms(1) Cons.prems True] by blast
    then show ?thesis using Cons.IH [of c1] True by simp
  next
    case False then show ?thesis using Cons.prems by auto
  qed
qed auto

text \<open>C5: a session of the mixer core in which drivers keep to the rules always returns, leaves no array, follows no
  cycle of entries, and keeps the entries of every mixer a tree: each has a group or the root as its parent, with a
  smaller number.\<close>

theorem mixer_session_safe:
  assumes "polite_env E" and "core_ok c"
  shows "\<exists>ok c'. mixer_session E as c = Some (ok, c') \<and> core_ok c'"
  using assms by (rule mixer_session_ok)

text \<open>A card that stores its masks and levels, and an environment without functions of drivers. Its
  hardware is the source mask and the levels.\<close>

type_synonym sb_hw = "u32 \<times> (nat \<Rightarrow> int)"

definition sb_ioctl :: "sb_hw legacy_method" where
  "sb_ioctl dev audiodev cmd x h =
     (case cmd of
        MIXER_READ n \<Rightarrow>
          if n = SOUND_MIXER_CAPS then ((Inr 0, Mix_Int 1), h)
          else if n = SOUND_MIXER_DEVMASK then ((Inr 0, Mix_Int 0xC1), h)
          else if n = SOUND_MIXER_RECMASK then ((Inr 0, Mix_Int 0xC0), h)
          else if n = SOUND_MIXER_STEREODEVS then ((Inr 0, Mix_Int 0x41), h)
          else if n = SOUND_MIXER_RECSRC then ((Inr 0, Mix_Int (uint (fst h))), h)
          else if n < SOUND_MIXER_NRDEVICES then ((Inr 0, Mix_Int (snd h n)), h) else ((Inl OSS_EINVAL, x), h)
      | MIXER_WRITE n \<Rightarrow>
          if n = SOUND_MIXER_RECSRC then
            (let w = word_of_int (mix_int x) AND 0xC0 in ((Inr 0, Mix_Int (uint w)), (w, snd h)))
          else if n < SOUND_MIXER_NRDEVICES then
            (let v = mix_int x mod 0x10000 in ((Inr 0, Mix_Int v), (fst h, (snd h)(n := v))))
          else ((Inl OSS_EINVAL, x), h)
      | _ \<Rightarrow> ((Inl OSS_EINVAL, x), h))"

definition blank_ext :: mixext where
  "blank_ext = \<lparr>x_dev = 0, x_ctrl = 0, x_type = MIXT_DEVROOT, x_max = 0, x_min = 0, x_flags = 0, x_id = [], x_parent = 0, x_time = 0,
     x_root = ([], []), x_present = [], x_control_no = 0, x_desc = 0, x_extname = [], x_updates = 0, x_rgb = 0, x_handler = None,
     x_enum = None, x_descr = None\<rparr>"

definition plain_env :: "'h mixer_env" where
  "plain_env = \<lparr>me_handler = (\<lambda>k dev ctrl cmd v c. Some (Inr 0, c)), me_create = (\<lambda>k dev c. Some c), me_jiffies = (\<lambda>h. 7),
     me_memory = blank_ext, me_info = (\<lambda>k dev x c. Some ((Inl OSS_EINVAL, x), c))\<rparr>"

definition sb_card :: osdev where
  "sb_card = \<lparr>od_nick = ''sb'', od_handle = ''PCI0'', od_cardnum = 0, od_num_mixers = 0, od_first_mixer = - 1, od_os_id = 3\<rparr>"

definition no_mixers :: "sb_hw mixer_core" where
  "no_mixers = \<lparr>mc_table = False, mixers = [], mc_hw = (0x40, \<lambda>n. 0x3232)\<rparr>"

lemma plain_polite: "polite_env plain_env" by (simp add: polite_env_def plain_env_def)

lemma no_mixers_ok: "core_ok no_mixers" by (simp add: core_ok_def no_mixers_def MAX_MIXER_DEV_def)

definition sb_ops :: "sb_hw mixer_op list" where
  "sb_ops = [Install_Mixer 2 sb_card ''Sound Blaster'' (Some sb_ioctl), Core_Call True 0 Dev_Mixer MIX_NREXT (Mix_Int 0),
     Add_Group 0 0 ''loopback'' 0, Name_Choices 0 1 ''OFF ON'' 0, Cut_Tree 0 5, Describe 0 1 ''volume'', Rebuild_All 0 (Some 0) 5]"

lemma mixer_session_safe_witness:
  "\<exists>ok c'. mixer_session plain_env sb_ops no_mixers = Some (ok, c') \<and> core_ok c'"
  by (rule mixer_session_safe [OF plain_polite no_mixers_ok])

end
