(* ===== verification/Mixer_Laws.thy ===== *)
theory Mixer_Laws
  imports Mixer_Session
begin

text \<open>
  What the mixer core promises: the tree that the first use of a mixer makes of the masks of its driver, choices
  of an enumeration that read back, levels that reach the hardware and read back, the switches of recording sources,
  and handles of controls that are gone.
\<close>

section \<open>The first use\<close>

text \<open>A method that answers a query for a mask, in every state of the hardware that is in order.\<close>

definition answers :: "('h \<Rightarrow> bool) \<Rightarrow> 'h legacy_method \<Rightarrow> int \<Rightarrow> nat \<Rightarrow> u32 \<Rightarrow> bool" where
  "answers ok f dev n w \<longleftrightarrow> (\<forall>x h. ok h \<longrightarrow> (\<exists>r. f dev (- 1) (MIXER_READ n) x h = ((Inr r, Mix_Int (uint w)), h)))"

lemma read_mask_answer:
  assumes "mixer_at c dev = Some m" and "mx_ioctl m = Some f" and "\<not> mixer_off m" and "answers ok f dev n w"
    and "ok (mc_hw c)"
  shows "read_mask dev n c = (Inr w, c)"
proof -
  obtain r where "f dev (- 1) (MIXER_READ n) (Mix_Int 0) (mc_hw c) = ((Inr r, Mix_Int (uint w)), mc_hw c)"
    using assms(4,5) unfolding answers_def by blast
  then show ?thesis using assms(1-3)
  by (simp add: read_mask_def oss_legacy_mixer_ioctl_def ioc_out_def ioc_in_def mixer_class_def mix_int_def Let_def)
qed

lemma touch_masks_answers:
  assumes "mixer_at c dev = Some m" and "mx_ioctl m = Some f" and "\<not> mixer_off m"
    and "answers ok f dev SOUND_MIXER_CAPS caps" and "answers ok f dev SOUND_MIXER_DEVMASK dm" and "answers ok f dev SOUND_MIXER_RECMASK rm"
    and "ok (mc_hw c)"
  shows "touch_masks dev ign extra c =
    (((max 20 extra + int (length (sources (dm AND NOT ign)))) * 2 + int (length (sources rm)) + 5,
      Some (caps, dm AND NOT ign, rm)), c)"
  by (simp add: touch_masks_def Let_def read_mask_answer [OF assms(1-3) assms(4,7)] read_mask_answer [OF assms(1-3) assms(5,7)]
      read_mask_answer [OF assms(1-3) assms(6,7)])

lemma switches_le: "length (filter (bit rm) (sources dm)) \<le> length (sources rm)"
proof -
  have "distinct (filter (bit rm) (sources dm))" using sources_distinct by simp
  moreover have "set (filter (bit rm) (sources dm)) \<subseteq> set (sources rm)" by (auto simp: set_sources)
  ultimately show ?thesis by (metis card_mono distinct_card finite_set sources_distinct)
qed

definition marker_entry :: "u32 \<Rightarrow> entry" where "marker_entry t = (MIXT_MARKER, 0, 0, [], None, 0, t)"

text \<open>C11: the first use of a mixer without controls of its driver makes the root, the group, the slider and, for
  recording sources, the switch of each control in the masks of the driver, and a marker; no entry is dropped.\<close>

theorem touch_exports_masks:
  assumes m: "mixer_at c dev = Some m" "mx_ioctl m = Some f" "\<not> mixer_off m" "mix_ok m" "nr_ext m = 0" "extensions m = None"
    "mx_create m = None" and cap: "caps AND SOUND_CAP_NOLEGACY = 0"
    and ans: "answers ok f dev SOUND_MIXER_CAPS caps" "answers ok f dev SOUND_MIXER_DEVMASK dm" "answers ok f dev SOUND_MIXER_RECMASK rm"
      "answers ok f dev SOUND_MIXER_STEREODEVS st" "ok (mc_hw c)"
  shows "\<exists>c' m'. touch_mixer E dev c = Some c' \<and> mixer_at c' dev = Some m' \<and> tree m' \<and>
    (let t = me_jiffies E (mc_hw c) in
       shape m' = root_entry t # legacy_list t st rm 1 (sources (dm AND NOT (ignore_mask m))) @ [marker_entry t])"
proof -
  define dm' where "dm' = dm AND NOT (ignore_mask m)"
  define n where "n = (max 20 (nr_extra_ext m) + int (length (sources dm'))) * 2 + int (length (sources rm)) + 5"
  have masks: "touch_masks dev (ignore_mask m) (nr_extra_ext m) c = ((n, Some (caps, dm', rm)), c)"
    by (simp add: touch_masks_answers [OF m(1-3) ans(1-3,5)] n_def dm'_def)
  define now where "now = me_jiffies E (mc_hw c)"
  have v: "vacant m" "max_ext m = 0" using m(4-6) by (simp_all add: vacant_def mix_ok_def tree_def skel_def)
  have "0 < n" by (simp add: n_def)
  then obtain m1 where m1: "mixer_ext_create_device E now dev n m = Some ((), m1)" "tree m1" "nr_ext m1 = 1" "max_ext m1 = n + 1"
    "mixer_off m1 = mixer_off m" "mx_ioctl m1 = mx_ioctl m" "shape m1 = [root_entry now]" "mx_time m1 = now"
    using device_created [OF v(1), of n E now dev] v(2) by auto
  define c1 where "c1 = put_mixer dev m1 c"
  have c1: "on_mixer dev (mixer_ext_create_device E now dev n) c = Some ((), c1)" "mixer_at c1 dev = Some m1"
    using on_mixer_some [where f = "mixer_ext_create_device E now dev n", OF m(1) m1(1)] at_put [OF m(1)] by (simp_all add: c1_def)
  define ls where "ls = legacy_list now st rm 1 (sources dm')"
  have len: "int (length ls) + 2 \<le> n + 1"
    using switches_le [of rm dm'] by (simp add: ls_def length_legacy_list n_def)
  obtain m2 where m2: "export_controls dev st rm (sources dm') m1 = Some m2" "extends ls m1 m2"
    using controls_exported [OF m1(2) sources_less [of _ dm'] _ m1(8), where js = "sources dm'" and stereo = st and rm = rm and dev = dev] len m1(3,4) by (auto simp: ls_def)
  have "read_mask dev SOUND_MIXER_STEREODEVS c1 = (Inr st, c1)"
    using read_mask_answer [OF c1(2) _ _ ans(4)] m(2,3) m1(5,6) ans(5) by (simp add: c1_def put_mixer_def)
  then have x: "export_legacy dev (Some (caps, dm', rm)) c1 = Some (put_mixer dev m2 c1)"
    using c1(2) m2(1) cap by (simp add: export_legacy_def on_mixer_def)
  define c2 where "c2 = put_mixer dev m2 c1"
  have at2: "mixer_at c2 dev = Some m2" using at_put [OF c1(2)] by (simp add: c2_def)
  have nr2: "nr_ext m2 < max_ext m2" "0 < nr_ext m2" using extends_nr [OF m2(2)] m1(3,4) len by simp_all
  have r2: "shape m2 ! 0 = root_entry now"
    using m2(2) m1(7) by (simp add: extends_def)
  have t2: "mx_time m2 = now" using m2(2) m1(8) by (simp add: extends_def)
  obtain m3 where m3: "mixer_ext_create_control dev 0 0 None MIXT_MARKER [] 0 0 m2 = Some (Inr (nr_ext m2), m3)" "extends [marker_entry now] m2 m3"
    using control_created(2) [OF extends_tree [OF m2(2)] nr2(1), of dev 0 0 None MIXT_MARKER "[]" 0 0] nr2(2) r2 t2
    by (auto simp: group_type_def root_entry_def marker_entry_def)
  define c3 where "c3 = put_mixer dev m3 c2"
  have at3: "mixer_at c3 dev = Some m3" using at_put [OF at2] by (simp add: c3_def)
  obtain m4 where m4: "expand_names dev m3 = Some m4" "same_tree m3 m4"
    using keeps_expand_names [OF extends_tree [OF m3(2)]] unfolding keeps_def by blast
  have "extends (ls @ [marker_entry now]) m1 m4"
    using extends_then_same [OF extends_trans [OF m2(2) m3(2)] m4(2)] by simp
  then have t4: "tree m4" "shape m4 = root_entry now # ls @ [marker_entry now]"
    using m1(7) by (simp_all add: extends_def)
  have "on_mixer dev (mixer_ext_create_control dev 0 0 None MIXT_MARKER [] 0 0) c2 = Some (Inr (nr_ext m2), c3)"
    "on_mixer dev (\<lambda>m. map_option (Pair ()) (expand_names dev m)) c3 = Some ((), put_mixer dev m4 c3)"
    using at2 m3(1) at3 m4(1) by (simp_all add: on_mixer_def c3_def)
  then have "touch_mixer E dev c = Some (put_mixer dev m4 c3)"
    using m(1,3,5,7) masks c1(1) x by (simp add: touch_mixer_def now_def c2_def)
  then show ?thesis using t4 at_put [OF at3] by (auto simp: ls_def dm'_def now_def Let_def)
qed

definition sb_core :: "sb_hw mixer_core" where
  "sb_core = snd (snd (oss_install_mixer plain_env 2 sb_card ''Sound Blaster'' (Some sb_ioctl) no_mixers))"

lemma sb_mixers: "mixers sb_core = [set_up_mixer 7 (sb_card\<lparr>od_num_mixers := 1\<rparr>) ''Sound Blaster'' (Some sb_ioctl) 0
    (fresh_mixer\<lparr>mx_handle := ''PCI0-mx'' @ two_digits 1, mx_port := 0\<rparr>)]"
  by (simp add: sb_core_def oss_install_mixer_def no_mixers_def returning_mixer_def Let_def MAX_MIXER_DEV_def plain_env_def
      sb_card_def)

lemma sb_answers: "answers (\<lambda>h. True) sb_ioctl dev SOUND_MIXER_CAPS 1" "answers (\<lambda>h. True) sb_ioctl dev SOUND_MIXER_DEVMASK 0xC1"
  "answers (\<lambda>h. True) sb_ioctl dev SOUND_MIXER_RECMASK 0xC0" "answers (\<lambda>h. True) sb_ioctl dev SOUND_MIXER_STEREODEVS 0x41"
  by (simp_all add: answers_def sb_ioctl_def mixer_numbers)

lemma touch_exports_masks_witness:
  "\<exists>c' m'. touch_mixer plain_env 0 sb_core = Some c' \<and> mixer_at c' 0 = Some m' \<and> tree m' \<and>
    shape m' =
      [(MIXT_DEVROOT, 0, - 1, ''DEVROOT'', None, 0, 7),
       (MIXT_GROUP, 0, - 1, ''vol'', None, 0, 7), (MIXT_STEREOSLIDER, 1, 0, [], Some Mixer_Ext_Rw, 100, 7),
       (MIXT_GROUP, 0, - 1, ''line'', None, 0, 7), (MIXT_STEREOSLIDER, 3, 6, [], Some Mixer_Ext_Rw, 100, 7),
         (MIXT_ONOFF, 3, 6, ''REC'', Some Mixer_Ext_Recrw, 1, 7),
       (MIXT_GROUP, 0, - 1, ''mic'', None, 0, 7), (MIXT_MONOSLIDER, 6, 7, [], Some Mixer_Ext_Rw, 100, 7),
         (MIXT_ONOFF, 6, 7, ''REC'', Some Mixer_Ext_Recrw, 1, 7),
       (MIXT_MARKER, 0, 0, [], None, 0, 7)]"
proof -
  have "\<exists>c' m'. touch_mixer plain_env 0 sb_core = Some c' \<and> mixer_at c' 0 = Some m' \<and> tree m' \<and>
      shape m' = root_entry 7 # legacy_list 7 0x41 0xC0 1 (sources (0xC1 AND NOT (ignore_mask (mixers sb_core ! 0)))) @ [marker_entry 7]"
    using touch_exports_masks [OF _ _ _ _ _ _ _ _ sb_answers TrueI, of sb_core 0 "mixers sb_core ! 0" plain_env]
    by (simp add: mixer_at_def sb_mixers set_up_mixer_def mixer_off_def mix_ok_def fresh_mixer_def SOUND_CAP_NOLEGACY_def plain_env_def)
  moreover have "root_entry 7 # legacy_list 7 0x41 0xC0 1 (sources (0xC1 AND NOT (ignore_mask (mixers sb_core ! 0)))) @ [marker_entry 7] =
      [(MIXT_DEVROOT, 0, - 1, ''DEVROOT'', None, 0, 7),
       (MIXT_GROUP, 0, - 1, ''vol'', None, 0, 7), (MIXT_STEREOSLIDER, 1, 0, [], Some Mixer_Ext_Rw, 100, 7),
       (MIXT_GROUP, 0, - 1, ''line'', None, 0, 7), (MIXT_STEREOSLIDER, 3, 6, [], Some Mixer_Ext_Rw, 100, 7),
         (MIXT_ONOFF, 3, 6, ''REC'', Some Mixer_Ext_Recrw, 1, 7),
       (MIXT_GROUP, 0, - 1, ''mic'', None, 0, 7), (MIXT_MONOSLIDER, 6, 7, [], Some Mixer_Ext_Rw, 100, 7),
         (MIXT_ONOFF, 6, 7, ''REC'', Some Mixer_Ext_Recrw, 1, 7),
       (MIXT_MARKER, 0, 0, [], None, 0, 7)]"
    unfolding sb_mixers by code_simp
  ultimately show ?thesis by simp
qed

section \<open>Calls that reach the driver\<close>

text \<open>A legacy call on a mixer that is in use.\<close>

lemma legacy_call:
  assumes "mixer_at c dev = Some m" and "mx_ioctl m = Some f" and "\<not> mixer_off m" and "x \<noteq> Null_Arg"
  shows "oss_legacy_mixer_ioctl dev a (MIXER_READ n) x c =
      (case f dev a (MIXER_READ n) x (mc_hw c) of (r, h) \<Rightarrow> (r, c\<lparr>mc_hw := h\<rparr>))"
    "oss_legacy_mixer_ioctl dev a (MIXER_WRITE n) x c =
      (case f dev a (MIXER_WRITE n) x (mc_hw c) of (r, h) \<Rightarrow>
         (r, (put_mixer dev (m\<lparr>mx_modify_counter := mx_modify_counter m + 1\<rparr>) c)\<lparr>mc_hw := h\<rparr>))"
  using assms by (auto simp: oss_legacy_mixer_ioctl_def ioc_out_def ioc_in_def mixer_class_def Let_def put_mixer_def split: prod.splits)

definition valid_handle :: "int \<Rightarrow> int \<Rightarrow> mixext \<Rightarrow> 'h mixdev \<Rightarrow> 'h mixer_core \<Rightarrow> bool" where
  "valid_handle dev i e m c \<longleftrightarrow> mixer_at c dev = Some m \<and> \<not> mixer_off m \<and> 0 \<le> i \<and> i < nr_ext m \<and> ext_at m i = Some e"

text \<open>What a call on a control needs: the time of its creation, and the right.\<close>

lemma read_call:
  assumes "valid_handle dev i e m c" and "x_handler e = Some f" and "x_flags e AND MIXF_READABLE \<noteq> 0"
  shows "oss_mixer_ioctl E root n MIX_READ (Mix_Value \<lparr>mv_dev = dev, mv_ctrl = i, mv_value = v, mv_time = x_time e\<rparr>) c =
    give_value \<lparr>mv_dev = dev, mv_ctrl = i, mv_value = v, mv_time = x_time e\<rparr> (call_handler E f dev (x_ctrl e) MIX_READ v c)"
  using assms
  by (simp add: valid_handle_def oss_mixer_ioctl_def direct_call_def oss_mixer_ext_def mixer_ext_read_def Let_def with_ext_def touch_mixer_def)

lemma write_call:
  assumes "valid_handle dev i e m c" and "x_handler e = Some f" and "x_flags e AND MIXF_WRITEABLE \<noteq> 0"
  shows "oss_mixer_ioctl E root n MIX_WRITE (Mix_Value \<lparr>mv_dev = dev, mv_ctrl = i, mv_value = v, mv_time = x_time e\<rparr>) c =
    give_value \<lparr>mv_dev = dev, mv_ctrl = i, mv_value = v, mv_time = x_time e\<rparr>
      (Option.bind (call_handler E f dev (x_ctrl e) MIX_WRITE v (put_mixer dev (m\<lparr>mx_modify_counter := mx_modify_counter m + 1\<rparr>) c))
        (count_write dev i))"
  using assms
  by (simp add: valid_handle_def oss_mixer_ioctl_def direct_call_def oss_mixer_ext_def mixer_ext_write_def Let_def with_ext_def touch_mixer_def
      on_mixer_def)

text \<open>The mixers that differ in their counters only.\<close>

definition counted :: "'h mixdev \<Rightarrow> 'h mixdev \<Rightarrow> bool" where
  "counted m m' \<longleftrightarrow> (\<exists>k. m' = m\<lparr>mx_modify_counter := k\<rparr>)"

lemma counted_usable: "counted m m' \<Longrightarrow> valid_handle dev i e m c \<Longrightarrow> mixer_at c' dev = Some m' \<Longrightarrow> valid_handle dev i e m' c'"
  by (auto simp: counted_def valid_handle_def mixer_off_def ext_at_def)

lemma at_hw: "mixer_at (c\<lparr>mc_hw := h\<rparr>) dev = mixer_at c dev" by (simp add: mixer_at_def)

lemma counted_refl: "counted m m" unfolding counted_def by (rule exI [of _ "mx_modify_counter m"]) simp

lemma counted_bump: "counted m (m\<lparr>mx_modify_counter := k\<rparr>)" unfolding counted_def by blast

lemma counted_trans: "counted m1 m2 \<Longrightarrow> counted m2 m3 \<Longrightarrow> counted m1 m3" by (auto simp: counted_def)

text \<open>The entries after a write: one was counted.\<close>

definition entry_kept :: "mixext \<Rightarrow> mixext \<Rightarrow> bool" where
  "entry_kept e e' \<longleftrightarrow> x_handler e' = x_handler e \<and> x_ctrl e' = x_ctrl e \<and> x_flags e' = x_flags e \<and> x_time e' = x_time e"

lemma count_kept:
  assumes "valid_handle dev i e m c" and "0 \<le> r"
  shows "\<exists>c' m'. count_write dev i (Inr r, c) = Some (Inr r, c') \<and> mixer_at c' dev = Some m' \<and> mc_hw c' = mc_hw c \<and>
    mx_ioctl m' = mx_ioctl m \<and> (\<forall>j ej. valid_handle dev j ej m c \<longrightarrow> (\<exists>ej'. valid_handle dev j ej' m' c' \<and> entry_kept ej ej'))"
proof -
  define m' where "m' = put_ext i (bump_ext e) m"
  have at: "mixer_at (put_mixer dev m' c) dev = Some m'" using assms(1) by (intro at_put) (simp add: valid_handle_def)
  have "\<exists>ej'. valid_handle dev j ej' m' (put_mixer dev m' c) \<and> entry_kept ej ej'" if "valid_handle dev j ej m c" for j ej
  proof (cases "j = i")
    case True
    then have "ext_at m' j = Some (bump_ext e)" using assms(1) by (auto simp: valid_handle_def m'_def put_ext_def ext_at_def split: option.splits if_splits)
    then show ?thesis using that at assms(1) True
      by (auto simp: valid_handle_def entry_kept_def bump_ext_def m'_def put_ext_def mixer_off_def)
  next
    case False
    then have "ext_at m' j = Some ej"
      using that assms(1) by (auto simp: valid_handle_def m'_def put_ext_def ext_at_def nth_list_update split: option.splits if_splits)
    then show ?thesis using that at by (auto simp: valid_handle_def entry_kept_def m'_def put_ext_def mixer_off_def)
  qed
  moreover have "count_write dev i (Inr r, c) = Some (Inr r, put_mixer dev m' c)" "mc_hw (put_mixer dev m' c) = mc_hw c"
    using assms by (simp_all add: count_write_def on_mixer_def valid_handle_def m'_def put_mixer_def)
  moreover have "mx_ioctl m' = mx_ioctl m" by (simp add: m'_def put_ext_def)
  ultimately show ?thesis using at by blast
qed

section \<open>Levels\<close>

text \<open>A driver that keeps a level, rounded by \<open>near\<close>, and answers with it.\<close>

definition keeps_level :: "('h \<Rightarrow> bool) \<Rightarrow> 'h legacy_method \<Rightarrow> int \<Rightarrow> nat \<Rightarrow> ('h \<Rightarrow> int) \<Rightarrow> (int \<Rightarrow> int) \<Rightarrow> bool" where
  "keeps_level ok f dev k lev near \<longleftrightarrow>
     (\<forall>v h. ok h \<longrightarrow> (\<exists>r. f dev (- 1) (MIXER_READ k) (Mix_Int v) h = ((Inr r, Mix_Int (lev h)), h))) \<and>
     (\<forall>v h. ok h \<longrightarrow> (\<exists>r h'. f dev (- 1) (MIXER_WRITE k) (Mix_Int v) h = ((Inr r, Mix_Int (lev h')), h') \<and>
       lev h' = near v \<and> 0 \<le> near v \<and> ok h'))"

definition control_value :: "int \<Rightarrow> int \<Rightarrow> mixext \<Rightarrow> int \<Rightarrow> mix_arg" where
  "control_value dev i e v = Mix_Value \<lparr>mv_dev = dev, mv_ctrl = i, mv_value = v, mv_time = x_time e\<rparr>"

lemma level_handler:
  assumes "mixer_at c dev = Some m" and "\<not> mixer_off m" and "mx_ioctl m = Some f" and "keeps_level ok f dev (nat ctrl) lev near"
    and "ok (mc_hw c)"
  shows "call_handler E Mixer_Ext_Rw dev ctrl MIX_READ v c = Some (Inr (lev (mc_hw c)), c)"
    "\<exists>h. call_handler E Mixer_Ext_Rw dev ctrl MIX_WRITE v c =
       Some (Inr (lev h), (put_mixer dev (m\<lparr>mx_modify_counter := mx_modify_counter m + 1\<rparr>) c)\<lparr>mc_hw := h\<rparr>) \<and>
       lev h = near v \<and> 0 \<le> near v \<and> ok h"
proof -
  show "call_handler E Mixer_Ext_Rw dev ctrl MIX_READ v c = Some (Inr (lev (mc_hw c)), c)"
  proof -
    obtain r where "f dev (- 1) (MIXER_READ (nat ctrl)) (Mix_Int v) (mc_hw c) = ((Inr r, Mix_Int (lev (mc_hw c))), mc_hw c)"
      using assms(4,5) unfolding keeps_level_def by blast
    then show ?thesis by (simp add: call_handler_def mixer_ext_rw_def legacy_call [OF assms(1,3,2)] mix_int_def)
  qed
  obtain r h where "f dev (- 1) (MIXER_WRITE (nat ctrl)) (Mix_Int v) (mc_hw c) = ((Inr r, Mix_Int (lev h)), h)" "lev h = near v"
      "0 \<le> near v" "ok h"
    using assms(4,5) unfolding keeps_level_def by blast
  then show "\<exists>h. call_handler E Mixer_Ext_Rw dev ctrl MIX_WRITE v c =
       Some (Inr (lev h), (put_mixer dev (m\<lparr>mx_modify_counter := mx_modify_counter m + 1\<rparr>) c)\<lparr>mc_hw := h\<rparr>) \<and>
       lev h = near v \<and> 0 \<le> near v \<and> ok h"
    by (intro exI [of _ h]) (simp add: call_handler_def mixer_ext_rw_def legacy_call [OF assms(1,3,2)] mix_int_def)
qed

text \<open>Counting a call twice, and the entry.\<close>

lemma written:
  assumes u: "valid_handle dev i e m c" and h: "x_handler e = Some f" and w: "x_flags e AND MIXF_WRITEABLE \<noteq> 0"
    and c0: "c0 = put_mixer dev (m\<lparr>mx_modify_counter := mx_modify_counter m + 1\<rparr>) c"
    and call: "call_handler E f dev (x_ctrl e) MIX_WRITE v c0 = Some (Inr r, c1)" "0 \<le> r" "mixer_at c1 dev = Some m1" "counted m m1"
  shows "\<exists>c' m'. oss_mixer_ioctl E root n MIX_WRITE (control_value dev i e v) c = Some ((Inr r, control_value dev i e r), c') \<and>
    mixer_at c' dev = Some m' \<and> mc_hw c' = mc_hw c1 \<and> mx_ioctl m' = mx_ioctl m \<and>
    (\<forall>j ej. valid_handle dev j ej m c \<longrightarrow> (\<exists>ej'. valid_handle dev j ej' m' c' \<and> entry_kept ej ej'))"
proof -
  have u1: "valid_handle dev j ej m1 c1" if "valid_handle dev j ej m c" for j ej using counted_usable [OF call(4) that call(3)] .
  obtain c' m' where c': "count_write dev i (Inr r, c1) = Some (Inr r, c')" "mixer_at c' dev = Some m'" "mc_hw c' = mc_hw c1"
    "mx_ioctl m' = mx_ioctl m1" "\<forall>j ej. valid_handle dev j ej m1 c1 \<longrightarrow> (\<exists>ej'. valid_handle dev j ej' m' c' \<and> entry_kept ej ej')"
    using count_kept [OF u1 [OF u] call(2)] by blast
  have "oss_mixer_ioctl E root n MIX_WRITE (control_value dev i e v) c = Some ((Inr r, control_value dev i e r), c')"
    unfolding control_value_def write_call [OF u h w] using c'(1) by (simp add: c0 [symmetric] call(1) give_value_def)
  moreover have "mx_ioctl m' = mx_ioctl m" using c'(4) call(4) by (auto simp: counted_def)
  ultimately show ?thesis using c'(2,3,5) u1 by blast
qed

text \<open>C18: writing a level with \<open>SNDCTL_MIX_WRITE\<close> sets the level of the hardware, as the driver rounds it, and returns
  the level that was set, and \<open>SNDCTL_MIX_READ\<close> returns it afterwards.\<close>

theorem level_roundtrip:
  assumes u: "valid_handle dev i e m c" and h: "x_handler e = Some Mixer_Ext_Rw"
    and fl: "x_flags e AND MIXF_READABLE \<noteq> 0" "x_flags e AND MIXF_WRITEABLE \<noteq> 0"
    and f: "mx_ioctl m = Some f" "keeps_level ok f dev (nat (x_ctrl e)) lev near" "ok (mc_hw c)"
  shows "\<exists>c' c''. oss_mixer_ioctl E root n MIX_WRITE (control_value dev i e v) c =
      Some ((Inr (near v), control_value dev i e (near v)), c') \<and> lev (mc_hw c') = near v \<and> ok (mc_hw c') \<and>
    oss_mixer_ioctl E root n MIX_READ (control_value dev i e u') c' = Some ((Inr (near v), control_value dev i e (near v)), c'')"
proof -
  define m1 where "m1 = m\<lparr>mx_modify_counter := mx_modify_counter m + 1\<rparr>"
  define c1 where "c1 = put_mixer dev m1 c"
  have at: "mixer_at c dev = Some m" "\<not> mixer_off m" using u by (simp_all add: valid_handle_def)
  have at1: "mixer_at c1 dev = Some m1" "\<not> mixer_off m1" "mx_ioctl m1 = Some f" "mc_hw c1 = mc_hw c"
    using at_put [OF at(1)] at(2) f(1) by (simp_all add: c1_def m1_def mixer_off_def put_mixer_def)
  define m2 where "m2 = m1\<lparr>mx_modify_counter := mx_modify_counter m1 + 1\<rparr>"
  obtain h' where h': "call_handler E Mixer_Ext_Rw dev (x_ctrl e) MIX_WRITE v c1 = Some (Inr (lev h'), (put_mixer dev m2 c1)\<lparr>mc_hw := h'\<rparr>)"
    "lev h' = near v" "0 \<le> near v" "ok h'"
    using level_handler(2) [OF at1(1-3) f(2)] f(3) unfolding m2_def at1(4) by blast
  have at2: "mixer_at ((put_mixer dev m2 c1)\<lparr>mc_hw := h'\<rparr>) dev = Some m2" "counted m m2"
    using at_put [OF at1(1), of m2] by (simp_all add: at_hw m2_def m1_def counted_refl counted_bump)
  obtain c' m' where c': "oss_mixer_ioctl E root n MIX_WRITE (control_value dev i e v) c = Some ((Inr (lev h'), control_value dev i e (lev h')), c')"
    "mixer_at c' dev = Some m'" "mc_hw c' = h'" "mx_ioctl m' = mx_ioctl m"
    "\<forall>j ej. valid_handle dev j ej m c \<longrightarrow> (\<exists>ej'. valid_handle dev j ej' m' c' \<and> entry_kept ej ej')"
    using written [OF u h fl(2) c1_def [unfolded m1_def] h'(1) _ at2, of root n] h'(2,3) by auto
  obtain e' where e': "valid_handle dev i e' m' c'" "entry_kept e e'" using c'(5) u by blast
  have r: "call_handler E Mixer_Ext_Rw dev (x_ctrl e) MIX_READ u' c' = Some (Inr (lev h'), c')"
    using level_handler(1) [OF c'(2) _ _ f(2)] e'(1) c'(3,4) f(1) h'(4) by (simp add: valid_handle_def)
  have "oss_mixer_ioctl E root n MIX_READ (control_value dev i e u') c' = Some ((Inr (lev h'), control_value dev i e (lev h')), c')"
    using read_call [OF e'(1), of Mixer_Ext_Rw] e'(2) h fl(1) r by (simp add: control_value_def entry_kept_def give_value_def)
  then show ?thesis using c'(1,3) h'(2,4) by auto
qed

lemma sb_level: "k < 28 \<Longrightarrow> keeps_level (\<lambda>h. True) sb_ioctl dev k (\<lambda>h. snd h k) (\<lambda>v. v mod 0x10000)"
  by (simp add: keeps_level_def sb_ioctl_def mixer_numbers SOUND_MIXER_NRDEVICES_def Let_def mix_int_def)

text \<open>A mixer in use: the group, the slider and the switch of the line input, and the switch of the microphone.\<close>

definition used_ext :: "mixt \<Rightarrow> int \<Rightarrow> int \<Rightarrow> mixer_fn option \<Rightarrow> mixext" where
  "used_ext t p ctrl f = blank_ext\<lparr>x_type := t, x_parent := p, x_ctrl := ctrl, x_handler := f, x_time := 7,
     x_flags := MIXF_READABLE OR MIXF_WRITEABLE\<rparr>"

definition used_exts :: "mixext list" where
  "used_exts = [used_ext MIXT_DEVROOT 0 (- 1) None, used_ext MIXT_GROUP 0 (- 1) None, used_ext MIXT_STEREOSLIDER 1 6 (Some Mixer_Ext_Rw),
     used_ext MIXT_ONOFF 1 6 (Some Mixer_Ext_Recrw), used_ext MIXT_ONOFF 1 7 (Some Mixer_Ext_Recrw), blank_ext, blank_ext, blank_ext]"

definition sb_mixer :: "sb_hw mixdev" where
  "sb_mixer = fresh_mixer\<lparr>mx_ioctl := Some sb_ioctl, mx_enabled := True, nr_ext := 5, max_ext := 8, mx_time := 7,
     extensions := Some used_exts\<rparr>"

definition sb_used :: "sb_hw mixer_core" where
  "sb_used = \<lparr>mc_table = True, mixers = [sb_mixer], mc_hw = (0x40, \<lambda>n. 0x3232)\<rparr>"

lemma sb_usable: "0 \<le> i \<Longrightarrow> i < 5 \<Longrightarrow> valid_handle 0 i (used_exts ! nat i) sb_mixer sb_used"
  by (simp add: valid_handle_def mixer_at_def sb_used_def sb_mixer_def fresh_mixer_def mixer_off_def ext_at_def used_exts_def)

lemma used_flags: "MIXF_READABLE \<noteq> 0" "MIXF_WRITEABLE \<noteq> 0"
  by (simp_all add: mixf_defs)

lemma used_nths: "used_exts ! 2 = used_ext MIXT_STEREOSLIDER 1 6 (Some Mixer_Ext_Rw)"
  "used_exts ! 3 = used_ext MIXT_ONOFF 1 6 (Some Mixer_Ext_Recrw)" "used_exts ! 4 = used_ext MIXT_ONOFF 1 7 (Some Mixer_Ext_Recrw)"
  by (simp_all add: used_exts_def)

lemma level_roundtrip_witness:
  "\<exists>c' c''. oss_mixer_ioctl plain_env True 0 MIX_WRITE (control_value 0 2 (used_exts ! nat 2) 0x4b4b) sb_used =
      Some ((Inr 0x4b4b, control_value 0 2 (used_exts ! nat 2) 0x4b4b), c') \<and> snd (mc_hw c') 6 = 0x4b4b \<and>
    oss_mixer_ioctl plain_env True 0 MIX_READ (control_value 0 2 (used_exts ! nat 2) 0) c' =
      Some ((Inr 0x4b4b, control_value 0 2 (used_exts ! nat 2) 0x4b4b), c'')"
  using level_roundtrip [OF sb_usable, where f = sb_ioctl and lev = "\<lambda>h. snd h 6" and ok = "\<lambda>h. True" and i = 2 and near = "\<lambda>v. v mod 0x10000"
      and v = "0x4b4b" and u' = 0]
  by (simp add: used_nths used_ext_def sb_mixer_def used_flags sb_level)

section \<open>Recording sources\<close>

text \<open>A driver that keeps the mask of the recording sources, when it is one of sources that it has, and of a single
  one when they exclude each other.\<close>

definition source_request :: "u32 \<Rightarrow> u32 \<Rightarrow> u32 \<Rightarrow> bool" where
  "source_request caps rm w \<longleftrightarrow> w \<noteq> 0 \<and> w AND rm = w \<and> (caps AND SOUND_CAP_EXCL_INPUT \<noteq> 0 \<longrightarrow> (\<exists>k. w = 2 ^ k))"

definition keeps_sources :: "('h \<Rightarrow> bool) \<Rightarrow> 'h legacy_method \<Rightarrow> int \<Rightarrow> u32 \<Rightarrow> u32 \<Rightarrow> ('h \<Rightarrow> u32) \<Rightarrow> bool" where
  "keeps_sources ok f dev caps rm src \<longleftrightarrow>
     answers ok f dev SOUND_MIXER_CAPS caps \<and>
     (\<forall>x h. ok h \<longrightarrow> (\<exists>r. f dev (- 1) (MIXER_READ SOUND_MIXER_RECSRC) x h = ((Inr r, Mix_Int (uint (src h))), h))) \<and>
     (\<forall>v h. ok h \<longrightarrow> source_request caps rm (word_of_int v) \<longrightarrow>
        (\<exists>r h'. f dev (- 1) (MIXER_WRITE SOUND_MIXER_RECSRC) (Mix_Int v) h = ((Inr r, Mix_Int (uint (src h'))), h') \<and>
           src h' = word_of_int v \<and> ok h'))"

definition source_set :: "u32 \<Rightarrow> nat set" where "source_set w = {k. bit w k}"

text \<open>The sources after a switch was turned on or off. Exclusive sources replace each other; the last source
  stays on.\<close>

definition next_sources :: "bool \<Rightarrow> nat \<Rightarrow> bool \<Rightarrow> nat set \<Rightarrow> nat set" where
  "next_sources excl k on S =
     (if on then (if excl then {k} else insert k S)
      else if excl \<or> S \<subseteq> {k} then S else S - {k})"

lemma source_set_0: "source_set w = {} \<longleftrightarrow> w = 0"
  by (auto simp: source_set_def intro: bit_word_eqI)

lemma source_bit_set: "source_bit w k = (if nat k \<in> source_set w then 1 else 0)"
proof -
  have "w AND 2 ^ nat k = 0 \<longleftrightarrow> \<not> bit w (nat k)" by (rule and_exp_eq_0_iff_not_bit)
  then show ?thesis by (simp add: source_bit_def source_set_def push_bit_of_1)
qed

lemma signed_mask: "(word_of_int (signed_take_bit 31 (uint (w :: u32))) :: u32) = w"
proof (rule bit_word_eqI)
  fix n assume "n < LENGTH(32)"
  then show "bit (word_of_int (signed_take_bit 31 (uint w)) :: u32) n = bit w n"
    by (cases "n = 31") (auto simp: bit_simps min_def)
qed

lemma source_handler:
  assumes at: "mixer_at c dev = Some m" "\<not> mixer_off m" "mx_ioctl m = Some f" and keeps: "keeps_sources ok f dev caps rm src" "ok (mc_hw c)"
  shows "call_handler E Mixer_Ext_Recrw dev ctrl MIX_READ v c = Some (Inr (source_bit (src (mc_hw c)) ctrl), c)"
    "bit rm (nat ctrl) \<Longrightarrow> src (mc_hw c) AND rm = src (mc_hw c) \<Longrightarrow> src (mc_hw c) \<noteq> 0 \<Longrightarrow>
     \<exists>r c' m'. call_handler E Mixer_Ext_Recrw dev ctrl MIX_WRITE v c = Some (Inr r, c') \<and> 0 \<le> r \<and> mixer_at c' dev = Some m' \<and>
       counted m m' \<and> ok (mc_hw c') \<and> (v \<noteq> 0 \<longrightarrow> r = 1) \<and>
       source_set (src (mc_hw c')) =
         next_sources (caps AND SOUND_CAP_EXCL_INPUT \<noteq> 0) (nat ctrl) (v \<noteq> 0) (source_set (src (mc_hw c)))"
proof -
  have masks: "read_mask dev SOUND_MIXER_CAPS c = (Inr caps, c)"
    using keeps by (intro read_mask_answer [OF at(1,3,2), where ok = ok]) (simp_all add: keeps_sources_def)
  have rec: "read_mask dev SOUND_MIXER_RECSRC c = (Inr (src (mc_hw c)), c)"
  proof -
    obtain r where "f dev (- 1) (MIXER_READ SOUND_MIXER_RECSRC) (Mix_Int 0) (mc_hw c) = ((Inr r, Mix_Int (uint (src (mc_hw c)))), mc_hw c)"
      using keeps unfolding keeps_sources_def by blast
    then show ?thesis by (simp add: read_mask_def legacy_call [OF at(1,3,2)] mix_int_def)
  qed
  show "call_handler E Mixer_Ext_Recrw dev ctrl MIX_READ v c = Some (Inr (source_bit (src (mc_hw c)) ctrl), c)"
    by (simp add: call_handler_def mixer_ext_recrw_def masks rec)
  assume rm: "bit rm (nat ctrl)" "src (mc_hw c) AND rm = src (mc_hw c)" "src (mc_hw c) \<noteq> 0"
  define s where "s = src (mc_hw c)"
  define base where "base = (if caps AND SOUND_CAP_EXCL_INPUT \<noteq> 0 then 0 else s)"
  define w where "w = (if v \<noteq> 0 then base OR 2 ^ nat ctrl else base AND NOT (2 ^ nat ctrl))"
  have srm: "bit rm k" if "bit s k" for k using rm(2) that by (metis bit_and_iff s_def)
  have k: "nat ctrl < 32" using bit_imp_le_length [OF rm(1)] by simp
  have wset: "source_set w = (if v \<noteq> 0 then insert (nat ctrl) (source_set base) else source_set base - {nat ctrl})"
    using k by (auto simp: source_set_def w_def bit_simps dest: bit_imp_le_length)
  have body: "mixer_ext_recrw dev ctrl MIX_WRITE v c =
      (if w = 0 then (Inr 1, c)
       else case oss_legacy_mixer_ioctl dev (- 1) (MIXER_WRITE SOUND_MIXER_RECSRC) (Mix_Int (signed_take_bit 31 (uint w))) c of
         ((Inl e, x), c) \<Rightarrow> (Inl e, c) | ((Inr r, x), c) \<Rightarrow> (Inr (source_bit (word_of_int (mix_int x)) ctrl), c))"
    unfolding mixer_ext_recrw_def masks prod.case rec by (simp add: w_def base_def s_def Let_def)
  have bset: "source_set base = (if caps AND SOUND_CAP_EXCL_INPUT \<noteq> 0 then {} else source_set s)"
    by (simp add: base_def source_set_def)
  have wrm: "w AND rm = w"
  proof (rule bit_word_eqI)
    fix n
    have "bit rm n" if "bit w n"
      using that rm(1) srm [of n] by (auto simp: w_def base_def bit_simps split: if_splits)
    then show "bit (w AND rm) n = bit w n" by (auto simp: bit_and_iff)
  qed
  show "\<exists>r c' m'. call_handler E Mixer_Ext_Recrw dev ctrl MIX_WRITE v c = Some (Inr r, c') \<and> 0 \<le> r \<and> mixer_at c' dev = Some m' \<and>
       counted m m' \<and> ok (mc_hw c') \<and> (v \<noteq> 0 \<longrightarrow> r = 1) \<and>
       source_set (src (mc_hw c')) =
         next_sources (caps AND SOUND_CAP_EXCL_INPUT \<noteq> 0) (nat ctrl) (v \<noteq> 0) (source_set (src (mc_hw c)))"
  proof (cases "w = 0")
    case True
    then have "call_handler E Mixer_Ext_Recrw dev ctrl MIX_WRITE v c = Some (Inr 1, c)"
      by (simp add: call_handler_def body)
    moreover have "source_set s = next_sources (caps AND SOUND_CAP_EXCL_INPUT \<noteq> 0) (nat ctrl) (v \<noteq> 0) (source_set s)"
      using True wset bset source_set_0 [of w] by (auto simp: next_sources_def split: if_splits)
    ultimately show ?thesis using at(1) counted_refl keeps(2) by (fastforce simp: s_def [symmetric])
  next
    case False
    define m1 where "m1 = m\<lparr>mx_modify_counter := mx_modify_counter m + 1\<rparr>"
    have "caps AND SOUND_CAP_EXCL_INPUT \<noteq> 0 \<Longrightarrow> w = 2 ^ nat ctrl" using False by (simp add: w_def base_def split: if_splits)
    then have "source_request caps rm w" using False wrm by (auto simp: source_request_def)
    then obtain r h where h: "f dev (- 1) (MIXER_WRITE SOUND_MIXER_RECSRC) (Mix_Int (signed_take_bit 31 (uint w))) (mc_hw c) =
        ((Inr r, Mix_Int (uint (src h))), h)" "src h = w" "ok h"
      using keeps signed_mask [of w] unfolding keeps_sources_def by metis
    have "call_handler E Mixer_Ext_Recrw dev ctrl MIX_WRITE v c = Some (Inr (source_bit w ctrl), (put_mixer dev m1 c)\<lparr>mc_hw := h\<rparr>)"
      using False h by (simp add: call_handler_def body legacy_call [OF at(1,3,2)] m1_def mix_int_def)
    moreover have "source_set w = next_sources (caps AND SOUND_CAP_EXCL_INPUT \<noteq> 0) (nat ctrl) (v \<noteq> 0) (source_set s)"
      using False wset bset source_set_0 [of w] by (auto simp: next_sources_def split: if_splits)
    moreover have "v \<noteq> 0 \<longrightarrow> source_bit w ctrl = 1" "0 \<le> source_bit w ctrl" using wset by (simp_all add: source_bit_set)
    ultimately show ?thesis
      using h(2,3) at_put [OF at(1), of m1] counted_bump [of m] by (fastforce simp: at_hw m1_def s_def [symmetric])
  qed
qed

text \<open>C12: \<open>SNDCTL_MIX_WRITE\<close> on the switch of a recording source turns the source on, in place of the others when
  the driver says that they exclude each other, or off unless it is the last one; a card that records from something never
  ends up without a source. \<open>SNDCTL_MIX_READ\<close> on any of the switches then returns whether its source is on.\<close>

theorem recording_switch:
  assumes u: "valid_handle dev i e m c" "valid_handle dev j e2 m c" and h: "x_handler e = Some Mixer_Ext_Recrw" "x_handler e2 = Some Mixer_Ext_Recrw"
    and fl: "x_flags e AND MIXF_WRITEABLE \<noteq> 0" "x_flags e2 AND MIXF_READABLE \<noteq> 0"
    and f: "mx_ioctl m = Some f" "keeps_sources ok f dev caps rm src" "ok (mc_hw c)"
    and s: "bit rm (nat (x_ctrl e))" "src (mc_hw c) AND rm = src (mc_hw c)" "src (mc_hw c) \<noteq> 0"
  shows "\<exists>r c' c''. oss_mixer_ioctl E root n MIX_WRITE (control_value dev i e v) c = Some ((Inr r, control_value dev i e r), c') \<and>
    source_set (src (mc_hw c')) =
      next_sources (caps AND SOUND_CAP_EXCL_INPUT \<noteq> 0) (nat (x_ctrl e)) (v \<noteq> 0) (source_set (src (mc_hw c))) \<and>
    source_set (src (mc_hw c')) \<noteq> {} \<and> ok (mc_hw c') \<and>
    (let on = (if nat (x_ctrl e2) \<in> source_set (src (mc_hw c')) then 1 else 0) in
     oss_mixer_ioctl E root n MIX_READ (control_value dev j e2 w) c' = Some ((Inr on, control_value dev j e2 on), c''))"
proof -
  define m1 where "m1 = m\<lparr>mx_modify_counter := mx_modify_counter m + 1\<rparr>"
  define c1 where "c1 = put_mixer dev m1 c"
  have at: "mixer_at c dev = Some m" "\<not> mixer_off m" using u(1) by (simp_all add: valid_handle_def)
  have at1: "mixer_at c1 dev = Some m1" "\<not> mixer_off m1" "mx_ioctl m1 = Some f" "mc_hw c1 = mc_hw c"
    using at_put [OF at(1)] at(2) f(1) by (simp_all add: c1_def m1_def mixer_off_def put_mixer_def)
  let ?S = "next_sources (caps AND SOUND_CAP_EXCL_INPUT \<noteq> 0) (nat (x_ctrl e)) (v \<noteq> 0) (source_set (src (mc_hw c)))"
  obtain r c2 m2 where w: "call_handler E Mixer_Ext_Recrw dev (x_ctrl e) MIX_WRITE v c1 = Some (Inr r, c2)" "0 \<le> r"
    "mixer_at c2 dev = Some m2" "counted m1 m2" "source_set (src (mc_hw c2)) = ?S" "ok (mc_hw c2)"
    using source_handler(2) [OF at1(1-3) f(2) _ s(1)] s(2,3) f(3) at1(4) by metis
  have cm: "counted m m2" using counted_trans [OF counted_bump w(4) [unfolded m1_def]] .
  obtain c' m' where c': "oss_mixer_ioctl E root n MIX_WRITE (control_value dev i e v) c = Some ((Inr r, control_value dev i e r), c')"
    "mixer_at c' dev = Some m'" "mc_hw c' = mc_hw c2" "mx_ioctl m' = mx_ioctl m"
    "\<forall>j ej. valid_handle dev j ej m c \<longrightarrow> (\<exists>ej'. valid_handle dev j ej' m' c' \<and> entry_kept ej ej')"
    using written [OF u(1) h(1) fl(1) c1_def [unfolded m1_def] w(1,2,3) cm, of root n] by auto
  obtain e' where e': "valid_handle dev j e' m' c'" "entry_kept e2 e'" using c'(5) u(2) by blast
  have "call_handler E Mixer_Ext_Recrw dev (x_ctrl e2) MIX_READ w c' = Some (Inr (source_bit (src (mc_hw c')) (x_ctrl e2)), c')"
    using source_handler(1) [OF c'(2) _ _ f(2)] e'(1) c'(3,4) w(6) f(1) by (simp add: valid_handle_def)
  then have "oss_mixer_ioctl E root n MIX_READ (control_value dev j e2 w) c' =
      Some ((Inr (source_bit (src (mc_hw c')) (x_ctrl e2)), control_value dev j e2 (source_bit (src (mc_hw c')) (x_ctrl e2))), c')"
    using read_call [OF e'(1), of Mixer_Ext_Recrw] e'(2) h(2) fl(2) by (simp add: control_value_def entry_kept_def give_value_def)
  moreover have "?S \<noteq> {}" using s(3) by (auto simp: next_sources_def source_set_0)
  ultimately show ?thesis using c'(1,3) w(5,6) by (auto simp: Let_def source_bit_set)
qed

lemma sb_sources: "keeps_sources (\<lambda>h. True) sb_ioctl dev 1 0xC0 fst"
  by (simp add: keeps_sources_def sb_answers) (simp add: sb_ioctl_def mixer_numbers Let_def mix_int_def source_request_def)

lemma recording_switch_witness:
  "\<exists>r c' c''. oss_mixer_ioctl plain_env True 0 MIX_WRITE (control_value 0 4 (used_exts ! nat 4) 1) sb_used =
      Some ((Inr r, control_value 0 4 (used_exts ! nat 4) r), c') \<and>
    source_set (fst (mc_hw c')) = {7} \<and>
    oss_mixer_ioctl plain_env True 0 MIX_READ (control_value 0 3 (used_exts ! nat 3) 0) c' =
      Some ((Inr 0, control_value 0 3 (used_exts ! nat 3) 0), c'')"
proof -
  have "bit (0xC0 :: u32) 7" by code_simp
  then have "\<exists>r c' c''. oss_mixer_ioctl plain_env True 0 MIX_WRITE (control_value 0 4 (used_exts ! nat 4) 1) sb_used =
      Some ((Inr r, control_value 0 4 (used_exts ! nat 4) r), c') \<and>
    source_set (fst (mc_hw c')) = next_sources ((1 :: u32) AND SOUND_CAP_EXCL_INPUT \<noteq> 0) (nat (x_ctrl (used_exts ! nat 4)))
      ((1 :: int) \<noteq> 0) (source_set (fst (mc_hw sb_used))) \<and>
    source_set (fst (mc_hw c')) \<noteq> {} \<and> True \<and>
    (let on = (if nat (x_ctrl (used_exts ! nat 3)) \<in> source_set (fst (mc_hw c')) then 1 else 0) in
     oss_mixer_ioctl plain_env True 0 MIX_READ (control_value 0 3 (used_exts ! nat 3) 0) c' =
       Some ((Inr on, control_value 0 3 (used_exts ! nat 3) on), c''))"
    by (intro recording_switch [OF sb_usable sb_usable, where f = sb_ioctl and rm = "0xC0" and ok = "\<lambda>h. True"])
      (simp_all add: used_nths used_ext_def sb_mixer_def used_flags sb_sources sb_used_def)
  moreover have "next_sources ((1 :: u32) AND SOUND_CAP_EXCL_INPUT \<noteq> 0) (nat (x_ctrl (used_exts ! nat 4))) ((1 :: int) \<noteq> 0) S = {7}" for S
    by (simp add: next_sources_def SOUND_CAP_EXCL_INPUT_def used_nths used_ext_def)
  ultimately show ?thesis by (auto simp: Let_def used_nths used_ext_def)
qed

section \<open>Handles\<close>

text \<open>The operations that add entries to one mixer.\<close>

definition adds_to :: "int \<Rightarrow> 'h mixer_op \<Rightarrow> bool" where
  "adds_to dev a =
     (case a of Add_Group d p name fl \<Rightarrow> d = dev | Add_Control d p ctrl f t name mv fl \<Rightarrow> d = dev | _ \<Rightarrow> False)"

text \<open>All entries from \<open>k\<close> on have the time of the tree.\<close>

definition renewed :: "int \<Rightarrow> u32 \<Rightarrow> 'h mixdev \<Rightarrow> bool" where
  "renewed k t m \<longleftrightarrow> tree m \<and> \<not> mixer_off m \<and> 0 \<le> k \<and> mx_time m = t \<and> (\<forall>e \<in> set (drop (nat k) (shape m)). entry_time e = t)"

lemma renews_renewed:
  assumes "renewed k t m" and "renews m m'" shows "renewed k t m'"
proof -
  obtain ls where ls: "extends ls m m'" "\<forall>e \<in> set ls. entry_time e = t" using assms by (auto simp: renews_def renewed_def)
  then have "set (drop (nat k) (shape m')) \<subseteq> set (drop (nat k) (shape m)) \<union> set ls"
    by (auto simp: extends_def dest: in_set_dropD)
  then show ?thesis using assms(1) ls by (auto simp: renewed_def extends_def)
qed

lemma step_renewed:
  assumes "adds_to dev a" and "allowed a c" and "mixer_at c dev = Some m" and "renewed k t m"
  shows "\<exists>c' m'. mixer_step E a c = Some c' \<and> mixer_at c' dev = Some m' \<and> renewed k t m'"
proof -
  have t: "tree m" using assms(4) by (simp add: renewed_def)
  have step: "\<exists>c' m'. map_option snd (on_mixer dev f c) = Some c' \<and> mixer_at c' dev = Some m' \<and> renewed k t m'"
    if "\<exists>r m'. f m = Some (r, m') \<and> renews m m'" for f :: "'a mixdev \<Rightarrow> (int oss_result \<times> 'a mixdev) option"
    using that assms(3,4) at_put [OF assms(3)] renews_renewed by (fastforce simp: on_mixer_def)
  show ?thesis
  proof (cases a)
    case (Add_Group d p name fl)
    then show ?thesis
      using assms(1,2) step [of "mixer_ext_create_group_flags dev p name fl"] group_created(1) [OF t, of name dev p fl] by (simp add: adds_to_def allowed_def mixer_step_def)
  next
    case (Add_Control d p ctrl f ty name mv fl)
    then show ?thesis
      using assms(1) step [of "mixer_ext_create_control dev p ctrl f ty name mv fl"] control_created(1) [OF t, of dev p ctrl f ty name mv fl] by (simp add: adds_to_def mixer_step_def)
  qed (use assms(1) in \<open>simp_all add: adds_to_def\<close>)
qed

lemma session_renewed:
  assumes "list_all (adds_to dev) as" and "mixer_at c dev = Some m" and "renewed k t m" and "mixer_session E as c = Some (ok, c')"
  shows "\<exists>m'. mixer_at c' dev = Some m' \<and> renewed k t m'"
  using assms
proof (induction "as" arbitrary: c m)
  case (Cons a "as")
  show ?case
  proof (cases "allowed a c")
    case True
    obtain c1 m1 where c1: "mixer_step E a c = Some c1" "mixer_at c1 dev = Some m1" "renewed k t m1"
      using step_renewed [OF _ True Cons.prems(2,3), of E] Cons.prems(1) by auto
    then show ?thesis using Cons.IH [OF _ c1(2,3)] Cons.prems(1,4) True by simp
  next
    case False then show ?thesis using Cons.prems by auto
  qed
qed auto

lemma truncate_renewed:
  assumes "tree m" and "\<not> mixer_off m" and "1 \<le> k" and "k < nr_ext m"
  shows "renewed k (mx_time m + 1) (mixer_ext_truncate k m)"
proof -
  have "tree (mixer_ext_truncate k m)" using assms(1,3) by (rule tree_truncate)
  moreover have "length (shape (mixer_ext_truncate k m)) \<le> nat k"
    using assms(4) by (simp add: shape_def mixer_ext_truncate_def)
  ultimately show ?thesis using assms by (simp add: renewed_def mixer_ext_truncate_def mixer_off_def)
qed

text \<open>C20: when a driver cuts a tree, and makes other entries in the place of those that it removed, the handle of a removed
  entry is dead: \<open>SNDCTL_MIX_READ\<close> with it fails with \<open>EIDRM\<close>, \<open>SNDCTL_MIX_WRITE\<close> fails, and neither
  changes anything.\<close>

theorem stale_handle_refused:
  assumes u: "valid_handle dev i e m c" "tree m" "x_time e = mx_time m" and k: "1 \<le> k" "k \<le> i"
    and as: "list_all (adds_to dev) as" "mixer_session E (Cut_Tree dev k # as) c = Some (ok, c')"
  shows "(\<exists>x. oss_mixer_ioctl E root n MIX_READ (control_value dev i e v) c' = Some ((Inl OSS_EIDRM, x), c')) \<and>
    (\<exists>err x. oss_mixer_ioctl E root n MIX_WRITE (control_value dev i e v) c' = Some ((Inl err, x), c'))"
proof -
  have at: "mixer_at c dev = Some m" "\<not> mixer_off m" "k < nr_ext m" using u(1) k by (simp_all add: valid_handle_def)
  define m1 where "m1 = mixer_ext_truncate k m"
  have "mixer_session E as (put_mixer dev m1 c) = Some (ok, c')"
    using as(2) at(1) k(1) at_known [OF at(1)] by (simp add: allowed_def mixer_step_def on_mixer_def m1_def)
  then obtain m' where m': "mixer_at c' dev = Some m'" "renewed k (mx_time m + 1) m'"
    using session_renewed [OF as(1) at_put [OF at(1)] truncate_renewed [OF u(2) at(2) k(1) at(3)], of E ok c'] by (auto simp: m1_def)
  have t: "tree m'" "\<not> mixer_off m'" "0 < nr_ext m'" using m'(2) by (auto simp: renewed_def tree_def split: option.splits)
  have "\<exists>e'. ext_at m' i = Some e' \<and> x_time e' = x_time e + 1" if i: "i < nr_ext m'"
  proof -
    obtain e' where e': "ext_at m' i = Some e'" using tree_ext [OF t(1), of i] i k by auto
    have "drop (nat k) (shape m') ! (nat i - nat k) = link e'"
      using shape_nth [OF t(1) _ i e'] k length_shape [OF t(1)] i by simp
    then have "link e' \<in> set (drop (nat k) (shape m'))"
      using length_shape [OF t(1)] i k by (metis diff_less_mono in_set_conv_nth length_drop nat_less_eq_zless nat_mono order_trans zero_le_one)
    then have "entry_time (link e') = mx_time m + 1" using m'(2) by (simp add: renewed_def)
    then show ?thesis using e' u(3) by (simp add: entry_time_link)
  qed
  then have gone: "nr_ext m' \<le> i \<or> (\<exists>e'. ext_at m' i = Some e' \<and> x_time e' \<noteq> x_time e)"
    by (metis add.commute add_cancel_right_right linorder_not_less one_neq_zero)
  have "\<exists>x. oss_mixer_ioctl E root n MIX_READ (control_value dev i e v) c' = Some ((Inl OSS_EIDRM, x), c')"
    using gone m'(1) t k
    by (auto simp: oss_mixer_ioctl_def direct_call_def oss_mixer_ext_def control_value_def mixer_ext_read_def Let_def with_ext_def touch_mixer_def)
  moreover have "\<exists>err x. oss_mixer_ioctl E root n MIX_WRITE (control_value dev i e v) c' = Some ((Inl err, x), c')"
    using gone m'(1) t k
    by (auto simp: oss_mixer_ioctl_def direct_call_def oss_mixer_ext_def control_value_def mixer_ext_write_def Let_def with_ext_def touch_mixer_def
        split: option.splits)
  ultimately show ?thesis by blast
qed

lemma sb_tree: "tree sb_mixer"
proof -
  have "let p = fst (snd (map link used_exts ! i)) in 0 \<le> p \<and> p < int i \<and> group_type (fst (map link used_exts ! nat p))"
    if "0 < i \<and> i < 5" for i
  proof -
    have "i = 1 \<or> i = 2 \<or> i = 3 \<or> i = 4" using that by arith
    then show ?thesis by (elim disjE) (simp_all add: used_exts_def used_ext_def link_def group_type_def)
  qed
  then have "rooted (map link used_exts) 5"
    by (simp add: rooted_def) (simp add: used_exts_def used_ext_def link_def)
  then show ?thesis by (simp add: tree_def skel_def sb_mixer_def fresh_mixer_def) (simp add: used_exts_def)
qed

lemma stale_handle_refused_witness:
  "\<exists>c'. map_option snd (mixer_session plain_env [Cut_Tree 0 2, Add_Group 0 0 ''new'' 0, Add_Group 0 0 ''newer'' 0] sb_used) = Some c' \<and>
    (\<exists>x. oss_mixer_ioctl plain_env True 0 MIX_READ (control_value 0 3 (used_exts ! nat 3) 0) c' = Some ((Inl OSS_EIDRM, x), c'))"
proof -
  have "core_ok sb_used" using sb_tree by (simp add: core_ok_def sb_used_def mix_ok_def MAX_MIXER_DEV_def)
  then obtain ok c' where c': "mixer_session plain_env [Cut_Tree 0 2, Add_Group 0 0 ''new'' 0, Add_Group 0 0 ''newer'' 0] sb_used = Some (ok, c')"
    using mixer_session_ok [OF plain_polite] by blast
  have "\<exists>x. oss_mixer_ioctl plain_env True 0 MIX_READ (control_value 0 3 (used_exts ! nat 3) 0) c' = Some ((Inl OSS_EIDRM, x), c')"
    by (rule stale_handle_refused [OF sb_usable sb_tree _ _ _ _ c', THEN conjunct1])
      (simp_all add: used_nths used_ext_def sb_mixer_def adds_to_def)
  then show ?thesis using c' by simp
qed

end
