(* ===== verification/Mixer_Choice_Laws.thy ===== *)
theory Mixer_Choice_Laws
  imports Mixer_Laws
begin

text \<open>
  The choices of an enumeration read back: a driver gives the names in one string, the mixer core cuts it at the
  spaces and keeps the index of each name, and an application finds the names at the indexes.
\<close>

section \<open>Cutting a string\<close>

definition word_name :: "string \<Rightarrow> bool" where
  "word_name s \<longleftrightarrow> CHR '' '' \<notin> set s \<and> CHR 0x00 \<notin> set s"

text \<open>The names with a separator between them, and where they start.\<close>

fun joined :: "char \<Rightarrow> string list \<Rightarrow> string" where
  "joined ch [] = []"
| "joined ch [s] = s"
| "joined ch (s # ss) = s @ ch # joined ch ss"

fun starts :: "nat \<Rightarrow> string list \<Rightarrow> nat list" where
  "starts i [] = []"
| "starts i (s # ss) = i # starts (i + length s + 1) ss"

lemma length_starts [simp]: "length (starts i ss) = length ss"
  by (induction ss arbitrary: i) simp_all

lemma joined_Cons: "ss \<noteq> [] \<Longrightarrow> joined ch (s # ss) = s @ ch # joined ch ss"
  by (cases ss) simp_all

lemma rebuild_skip:
  "CHR '' '' \<notin> set s \<Longrightarrow>
   rebuild_from i n ix (s @ r) = (case rebuild_from (i + length s) n ix r of (n, ix, t) \<Rightarrow> (n, ix, s @ t))"
  by (induction s arbitrary: i) (auto split: prod.splits)

text \<open>The index of the name that is being read was stored before; those in front of it stay.\<close>

lemma rebuild_names:
  assumes "ss \<noteq> []" and "list_all word_name ss" and "int n + int (length ss) \<le> OSS_ENUM_MAXVALUE + 1" and "0 < n"
    and "n + length ss \<le> length ix + 1" and "n \<le> length ix" and "ix ! (n - 1) = int i"
  shows "\<exists>ix'. rebuild_from i (int n) ix (joined CHR '' '' ss) = (int n + int (length ss) - 1, ix', joined CHR 0x00 ss) \<and>
    length ix' = length ix \<and> (\<forall>j < n. ix' ! j = ix ! j) \<and> (\<forall>j < length ss. ix' ! (n - 1 + j) = int (starts i ss ! j))"
  using assms
proof (induction ss arbitrary: i n ix)
  case (Cons s ss)
  have s: "CHR '' '' \<notin> set s" using Cons.prems(2) by (simp add: word_name_def)
  show ?case
  proof (cases "ss = []")
    case True then show ?thesis using rebuild_skip [OF s, of i "int n" ix "[]"] Cons.prems by simp
  next
    case False
    define p where "p = i + length s + 1"
    have len: "0 < length ss" using False by simp
    have room: "int n < OSS_ENUM_MAXVALUE" "n < length ix" using Cons.prems(3,5) len unfolding list.size by linarith+
    obtain ix' where ix': "rebuild_from p (int (n + 1)) (ix[n := int p]) (joined CHR '' '' ss) =
        (int (n + 1) + int (length ss) - 1, ix', joined CHR 0x00 ss)"
      "length ix' = length ix" "\<forall>j < n + 1. ix' ! j = ix[n := int p] ! j" "\<forall>j < length ss. ix' ! (n + j) = int (starts p ss ! j)"
      using Cons.IH [of "n + 1" "ix[n := int p]" p] False Cons.prems room by auto
    have "rebuild_from i (int n) ix (joined CHR '' '' (s # ss)) =
        (int n + int (length (s # ss)) - 1, ix', joined CHR 0x00 (s # ss))"
      using ix'(1) room(1) by (simp add: joined_Cons False rebuild_skip [OF s] p_def add.commute)
    moreover have "\<forall>j < n. ix' ! j = ix ! j" using ix'(3) by simp
    moreover have "ix' ! (n - 1 + j) = int (starts i (s # ss) ! j)" if j: "j < length (s # ss)" for j
    proof (cases j)
      case 0 then show ?thesis using Cons.prems(4,7) ix'(3) by simp
    next
      case (Suc q)
      then have "n - 1 + j = n + q" using Cons.prems(4) by simp
      then show ?thesis using ix'(4) j Suc by (simp add: p_def)
    qed
    ultimately show ?thesis using ix'(2) by blast
  qed
qed simp

lemma joined_read:
  assumes "list_all word_name ss" and "j < length ss"
  shows "i \<le> starts i ss ! j \<and> c_string (drop (starts i ss ! j - i) (joined CHR 0x00 ss)) = ss ! j"
  using assms
proof (induction ss arbitrary: i j)
  case (Cons s ss)
  have s: "takeWhile (\<lambda>ch. ch \<noteq> CHR 0x00) s = s" using Cons.prems(1) by (auto simp: word_name_def takeWhile_eq_all_conv)
  show ?case
  proof (cases j)
    case 0
    have "c_string (joined CHR 0x00 (s # ss)) = s"
    proof (cases "ss = []")
      case True then show ?thesis using s by (simp add: c_string_def)
    next
      case False
      have "takeWhile (\<lambda>ch. ch \<noteq> CHR 0x00) (s @ CHR 0x00 # r) = s" for r
        using s by (subst takeWhile_append2) (auto simp: takeWhile_eq_all_conv)
      then show ?thesis using False by (simp add: joined_Cons c_string_def)
    qed
    then show ?thesis using 0 by simp
  next
    case (Suc q)
    define p where "p = i + length s + 1"
    have ih: "p \<le> starts p ss ! q" "c_string (drop (starts p ss ! q - p) (joined CHR 0x00 ss)) = ss ! q"
      using Cons.IH [of q p] Cons.prems Suc by simp_all
    have "ss \<noteq> []" using Cons.prems(2) Suc by auto
    moreover have "starts i (s # ss) ! j = starts p ss ! q" by (simp add: Suc p_def)
    moreover have "drop (starts p ss ! q - i) (s @ CHR 0x00 # joined CHR 0x00 ss) = drop (starts p ss ! q - p) (joined CHR 0x00 ss)"
      using ih(1) by (simp add: p_def Suc_diff_Suc drop_Cons' )
    ultimately show ?thesis using ih Suc by (simp add: joined_Cons p_def)
  qed
qed simp

lemma joined_no_null: "list_all word_name ss \<Longrightarrow> CHR 0x00 \<notin> set (joined CHR '' '' ss)"
proof (induction ss)
  case (Cons s ss) then show ?case by (cases "ss = []") (auto simp: joined_Cons word_name_def)
qed simp

section \<open>Choices\<close>

lemma enum_names:
  assumes "ss \<noteq> []" and "list_all word_name ss" and "int (length ss) \<le> OSS_ENUM_MAXVALUE" and "en_strings e = joined CHR '' '' ss"
    and "length (en_index e) = nat OSS_ENUM_MAXVALUE"
  shows "en_nvalues (rebuild_list e) = int (length ss) \<and>
    (\<forall>j < length ss. c_string (drop (nat (en_index (rebuild_list e) ! j)) (en_strings (rebuild_list e))) = ss ! j)"
proof -
  define s where "s = joined CHR '' '' ss"
  have c: "c_string s = s" using joined_no_null [OF assms(2)] by (auto simp: s_def c_string_def takeWhile_eq_all_conv)
  obtain ix where ix: "rebuild_from 0 (int 1) ((en_index e)[0 := 0]) s = (int 1 + int (length ss) - 1, ix, joined CHR 0x00 ss)"
    "\<forall>j < length ss. ix ! (1 - 1 + j) = int (starts 0 ss ! j)"
    using rebuild_names [OF assms(1,2), of 1 "(en_index e)[0 := 0]" 0] assms(3,5) by (auto simp: s_def OSS_ENUM_MAXVALUE_def)
  have "rebuild_list e = e\<lparr>en_nvalues := int (length ss), en_index := ix, en_strings := joined CHR 0x00 ss\<rparr>"
    using ix(1) assms(4) c by (simp add: rebuild_list_def s_def [symmetric])
  then show ?thesis using ix(2) joined_read [OF assms(2), of _ 0] by simp
qed

text \<open>C19: the names that a driver gives a control with \<open>mixer_ext_set_strings\<close>, in one string with spaces between
  them, are those that an application finds with \<open>SNDCTL_MIX_ENUMINFO\<close>: as many, in the same order, each at
  its index.\<close>

theorem choices_roundtrip:
  assumes u: "valid_handle dev i e m c" and ss: "ss \<noteq> []" "list_all word_name ss" "int (length ss) \<le> OSS_ENUM_MAXVALUE"
    "length (joined CHR '' '' ss) < OSS_ENUM_STRINGSIZE"
  shows "\<exists>c' n. mixer_ext_set_strings E dev i (joined CHR '' '' ss) version c = Some (Inr (), c') \<and>
    oss_mixer_ioctl E root k MIX_ENUMINFO (Mix_Enum (zero_enum\<lparr>en_dev := dev, en_ctrl := i\<rparr>)) c' = Some ((Inr 0, Mix_Enum n), c') \<and>
    en_nvalues n = int (length ss) \<and>
    (\<forall>j < length ss. c_string (drop (nat (en_index n ! j)) (en_strings n)) = ss ! j)"
proof -
  obtain ent where ent: "strings_enum dev i (joined CHR '' '' ss) version = Some ent"
    "en_dev ent = dev" "en_ctrl ent = i" "en_nvalues ent = 0" "en_strings ent = joined CHR '' '' ss"
    "length (en_index ent) = nat OSS_ENUM_MAXVALUE"
    using ss(4) by (simp add: strings_enum_def)
  define n where "n = rebuild_list ent"
  define m' where "m' = put_ext i (e\<lparr>x_enum := Some n\<rparr>) m"
  have at: "mixer_at c dev = Some m" "0 < nr_ext m" "ext_at m i = Some e" "known_mixer c dev"
    using u at_known by (auto simp: valid_handle_def)
  have set: "mixer_ext_set_strings E dev i (joined CHR '' '' ss) version c = Some (Inr (), put_mixer dev m' c)"
    using u at ent
    by (simp add: mixer_ext_set_strings_def mixer_ext_set_enum_def touched_def touch_mixer_def on_mixer_def set_enum_def Let_def
        valid_handle_def m'_def n_def)
  have at': "mixer_at (put_mixer dev m' c) dev = Some m'" "known_mixer (put_mixer dev m' c) dev"
    using at_put [OF at(1)] at_known by blast+
  have "ext_at m' i = Some (e\<lparr>x_enum := Some n\<rparr>)"
    using at(3) by (auto simp: m'_def put_ext_def ext_at_def split: option.splits if_splits)
  moreover have "nr_ext m' = nr_ext m" "mixer_off m' = mixer_off m" by (simp_all add: m'_def put_ext_def mixer_off_def)
  ultimately have get: "oss_mixer_ioctl E root k MIX_ENUMINFO (Mix_Enum (zero_enum\<lparr>en_dev := dev, en_ctrl := i\<rparr>)) (put_mixer dev m' c) =
      Some ((Inr 0, Mix_Enum (n\<lparr>en_ctrl := i\<rparr>)), put_mixer dev m' c)"
    using u at' at(2)
    by (simp add: oss_mixer_ioctl_def direct_call_def oss_mixer_ext_def mixer_ext_get_enuminfo_def Let_def with_ext_def touch_mixer_def valid_handle_def)
  show ?thesis
    using set get enum_names [OF ss(1-3) ent(5,6)] by (intro exI conjI) (assumption | simp add: n_def)+
qed

lemma choices_roundtrip_witness:
  "\<exists>c' n. mixer_ext_set_strings plain_env 0 3 ''OFF LOW HIGH'' 0 sb_used = Some (Inr (), c') \<and>
    oss_mixer_ioctl plain_env True 0 MIX_ENUMINFO (Mix_Enum (zero_enum\<lparr>en_dev := 0, en_ctrl := 3\<rparr>)) c' = Some ((Inr 0, Mix_Enum n), c') \<and>
    en_nvalues n = 3 \<and> c_string (drop (nat (en_index n ! 2)) (en_strings n)) = ''HIGH''"
  using choices_roundtrip [OF sb_usable, of 3 "[''OFF'', ''LOW'', ''HIGH'']" plain_env 0 True 0]
  by (fastforce simp: word_name_def OSS_ENUM_MAXVALUE_def OSS_ENUM_STRINGSIZE_def)

end
