(* ===== verification/Audio_Mixer_Laws.thy ===== *)
theory Audio_Mixer_Laws
  imports Audio_Ioctl_Laws Mixer_Laws
begin

text \<open>
  The audio core on top of the mixer core: the services for mixers that \<open>Audio_Ioctl\<close> takes from the driver are
  those of \<open>Mixer_Core\<close>, and the hardware of an engine is the table of mixers. The contract of
  \<open>source_mixer\<close> holds, so a recording source that an application chooses at the audio device reaches the driver
  of the mixer and reads back.
\<close>

section \<open>The services of the mixer core\<close>

text \<open>The numbers of the calls (\<open>include/soundcard.h\<close>).\<close>

definition mix_cmd :: "mixer_cmd \<Rightarrow> mix_ioctl" where
  "mix_cmd cmd =
     (case cmd of
        READ_PCM \<Rightarrow> MIXER_READ 4 | WRITE_PCM \<Rightarrow> MIXER_WRITE 4
      | READ_RECLEV \<Rightarrow> MIXER_READ 11 | WRITE_RECLEV \<Rightarrow> MIXER_WRITE 11
      | READ_RECGAIN \<Rightarrow> MIXER_READ 119 | WRITE_RECGAIN \<Rightarrow> MIXER_WRITE 119
      | READ_IGAIN \<Rightarrow> MIXER_READ 12 | WRITE_IGAIN \<Rightarrow> MIXER_WRITE 12
      | READ_CAPS \<Rightarrow> MIXER_READ SOUND_MIXER_CAPS | READ_DEVMASK \<Rightarrow> MIXER_READ SOUND_MIXER_DEVMASK
      | READ_RECMASK \<Rightarrow> MIXER_READ SOUND_MIXER_RECMASK | READ_RECSRC \<Rightarrow> MIXER_READ SOUND_MIXER_RECSRC
      | WRITE_RECSRC \<Rightarrow> MIXER_WRITE SOUND_MIXER_RECSRC | Other_Mixer n \<Rightarrow> Mixer_Other True True (unat n))"

text \<open>The calls that the audio core makes have an integer as their argument.\<close>

definition to_mix :: "ioctl_arg \<Rightarrow> mix_arg" where
  "to_mix x = (case x of No_Arg \<Rightarrow> Null_Arg | _ \<Rightarrow> Mix_Int (int_arg x))"

definition from_mix :: "ioctl_arg \<Rightarrow> mix_arg \<Rightarrow> ioctl_arg" where
  "from_mix x y = (case y of Mix_Int v \<Rightarrow> (case x of Int_Arg w \<Rightarrow> Int_Arg v | _ \<Rightarrow> x) | _ \<Rightarrow> x)"

definition core_call :: "int \<Rightarrow> int \<Rightarrow> ('g, 'h mixer_core) ioctl_method" where
  "core_call mix audiodev cmd x s =
     (case cmd of
        Mixer cmd \<Rightarrow>
          (case oss_legacy_mixer_ioctl mix audiodev (mix_cmd cmd) (to_mix x) (ad_hw s) of
             ((r, y), c) \<Rightarrow> ((r, from_mix x y), s\<lparr>ad_hw := c\<rparr>))
      | _ \<Rightarrow> ((Inl OSS_EINVAL, x), s))"

text \<open>The volumes go to the method of the mixer's driver, without the checks of the core.\<close>

definition direct_mixer_call :: "int \<Rightarrow> int \<Rightarrow> ('g, 'h mixer_core) ioctl_method" where
  "direct_mixer_call mix audiodev cmd x s =
     (case (cmd, Option.bind (mixer_at (ad_hw s) mix) mx_ioctl) of
        (Mixer cmd, Some f) \<Rightarrow>
          (case f mix audiodev (mix_cmd cmd) (to_mix x) (mc_hw (ad_hw s)) of
             ((r, y), h) \<Rightarrow> ((r, from_mix x y), s\<lparr>ad_hw := (ad_hw s)\<lparr>mc_hw := h\<rparr>\<rparr>))
      | _ \<Rightarrow> ((Inl OSS_EINVAL, x), s))"

definition count_change :: "int \<Rightarrow> ('g, 'h mixer_core) engine \<Rightarrow> ('g, 'h mixer_core) engine" where
  "count_change mix s =
     (case mixer_at (ad_hw s) mix of None \<Rightarrow> s
      | Some m \<Rightarrow> s\<lparr>ad_hw := put_mixer mix (m\<lparr>mx_modify_counter := mx_modify_counter m + 1\<rparr>) (ad_hw s)\<rparr>)"

definition over_core :: "('g, 'h mixer_core) driver \<Rightarrow> ('g, 'h mixer_core) driver" where
  "over_core V = V\<lparr>legacy_mixer_ioctl := core_call, mixer_ioctl := direct_mixer_call, mixer_modified := count_change\<rparr>"

section \<open>The recording source\<close>

text \<open>An engine whose mixer is in the table and switched on, with a method that keeps the mask of its sources.\<close>

definition sourced :: "('h \<Rightarrow> bool) \<Rightarrow> int \<Rightarrow> 'h legacy_method \<Rightarrow> u32 \<Rightarrow> u32 \<Rightarrow> u32 \<Rightarrow> ('h \<Rightarrow> u32) \<Rightarrow> ('g, 'h mixer_core) engine \<Rightarrow> bool" where
  "sourced ok mix f caps dm rm src s \<longleftrightarrow>
     (\<exists>m. mixer_at (ad_hw s) mix = Some m \<and> \<not> mixer_off m \<and> mx_ioctl m = Some f) \<and>
     keeps_sources ok f mix caps rm src \<and> answers ok f mix SOUND_MIXER_DEVMASK dm \<and> answers ok f mix SOUND_MIXER_RECMASK rm \<and>
     ok (mc_hw (ad_hw s)) \<and>
     caps AND SOUND_CAP_NORECSRC = 0"

lemma core_answer:
  assumes "mixer_at (ad_hw s) mix = Some m" and "\<not> mixer_off m" and "mx_ioctl m = Some f" and "answers ok f mix n w"
    and "ok (mc_hw (ad_hw s))" and "mix_cmd cmd = MIXER_READ n"
  shows "\<exists>r. core_call mix (- 1) (Mixer cmd) (Int_Arg 0) s = ((Inr r, Int_Arg (uint w)), s)"
proof -
  obtain r where "f mix (- 1) (MIXER_READ n) (Mix_Int 0) (mc_hw (ad_hw s)) = ((Inr r, Mix_Int (uint w)), mc_hw (ad_hw s))"
    using assms(4,5) unfolding answers_def by blast
  then show ?thesis using assms(6) by (simp add: core_call_def legacy_call [OF assms(1,3,2)] to_mix_def from_mix_def int_arg_def)
qed

interpretation cored: source_mixer "over_core V" mix dm rm "\<lambda>s. src (mc_hw (ad_hw s))" "sourced ok mix f caps dm rm src"
proof (unfold_locales, goal_cases)
  case (1 s)
  then obtain m where m: "mixer_at (ad_hw s) mix = Some m" "\<not> mixer_off m" "mx_ioctl m = Some f"
    "answers ok f mix SOUND_MIXER_CAPS caps" "ok (mc_hw (ad_hw s))" "caps AND SOUND_CAP_NORECSRC = 0"
    by (auto simp: sourced_def keeps_sources_def)
  then show ?case using core_answer [OF m(1-5), of READ_CAPS] by (fastforce simp: over_core_def mix_cmd_def)
next
  case (2 s)
  then obtain m where m: "mixer_at (ad_hw s) mix = Some m" "\<not> mixer_off m" "mx_ioctl m = Some f" "answers ok f mix SOUND_MIXER_DEVMASK dm" "ok (mc_hw (ad_hw s))"
    by (auto simp: sourced_def)
  then show ?case using core_answer [OF m(1-5), of READ_DEVMASK] by (simp add: over_core_def mix_cmd_def)
next
  case (3 s)
  then obtain m where m: "mixer_at (ad_hw s) mix = Some m" "\<not> mixer_off m" "mx_ioctl m = Some f" "answers ok f mix SOUND_MIXER_RECMASK rm" "ok (mc_hw (ad_hw s))"
    by (auto simp: sourced_def)
  then show ?case using core_answer [OF m(1-5), of READ_RECMASK] by (simp add: over_core_def mix_cmd_def)
next
  case (4 s)
  then obtain m where m: "mixer_at (ad_hw s) mix = Some m" "\<not> mixer_off m" "mx_ioctl m = Some f" "keeps_sources ok f mix caps rm src" "ok (mc_hw (ad_hw s))"
    by (auto simp: sourced_def)
  then obtain r where "f mix (- 1) (MIXER_READ SOUND_MIXER_RECSRC) (Mix_Int 0) (mc_hw (ad_hw s)) =
      ((Inr r, Mix_Int (uint (src (mc_hw (ad_hw s))))), mc_hw (ad_hw s))"
    unfolding keeps_sources_def by blast
  then show ?case by (simp add: over_core_def core_call_def mix_cmd_def to_mix_def from_mix_def int_arg_def legacy_call [OF m(1,3,2)])
next
  case (5 s p s')
  then obtain m where m: "mixer_at (ad_hw s) mix = Some m" "\<not> mixer_off m" "mx_ioctl m = Some f" "keeps_sources ok f mix caps rm src" "ok (mc_hw (ad_hw s))"
    by (auto simp: sourced_def)
  define m1 where "m1 = m\<lparr>mx_modify_counter := mx_modify_counter m + 1\<rparr>"
  have p: "p < 32" using bit_imp_le_length [OF 5(2)] by simp
  have w: "(word_of_int (signed_take_bit 31 (2 ^ p)) :: u32) = 2 ^ p" by (rule source_mask [OF p])
  have "(2 ^ p :: u32) AND rm = 2 ^ p"
    using 5(2) by (intro bit_word_eqI) (auto simp: bit_simps)
  moreover have "(2 :: u32) ^ p \<noteq> 0" using p by simp
  ultimately have "source_request caps rm (2 ^ p)" by (auto simp: source_request_def)
  then obtain r h where h: "f mix (- 1) (MIXER_WRITE SOUND_MIXER_RECSRC) (Mix_Int (signed_take_bit 31 (2 ^ p))) (mc_hw (ad_hw s)) =
      ((Inr r, Mix_Int (uint (src h))), h)" "src h = 2 ^ p" "ok h"
    using m(4,5) w unfolding keeps_sources_def by metis
  have s': "s' = s\<lparr>ad_hw := (put_mixer mix m1 (ad_hw s))\<lparr>mc_hw := h\<rparr>\<rparr>"
    using 5(3) h(1) by (simp add: over_core_def core_call_def mix_cmd_def to_mix_def int_arg_def legacy_call [OF m(1,3,2)] m1_def)
  then show ?case
    using 5(1) h(2,3) at_put [OF m(1), of m1] m(2,3) by (simp add: sourced_def at_hw m1_def mixer_off_def)
qed

text \<open>C8: an application that chooses a recording source at the audio device, by its number, gets that number back from
  the call and from \<open>SNDCTL_DSP_GET_RECSRC\<close>, and the driver of the mixer records from that source alone.\<close>

theorem recsrc_reaches_mixer:
  assumes "sourced ok (mixer_dev a) f caps dm rm src (ad_engine a)" and "0 \<le> mixer_dev a" and "d_ioctl V = None"
    and "0 \<le> v" and "v < int (length (sources rm))"
  shows "\<exists>a'. engine_call (over_core V) E fuel dev nxt DSP_SET_RECSRC (Int_Arg v) a = Some ((Inr v, Int_Arg v), a') \<and>
    source_set (src (mc_hw (ad_hw (ad_engine a')))) = {sources rm ! nat v} \<and> ok (mc_hw (ad_hw (ad_engine a'))) \<and>
    engine_call (over_core V) E fuel dev nxt DSP_GET_RECSRC x a' = Some ((Inr v, Int_Arg v), a')"
proof -
  define s' where "s' = set_legacy_recsrc (over_core V) (mixer_dev a) v (ad_engine a)"
  have "sources rm ! nat v < 28" using assms(4,5) by (intro sources_less [of _ rm]) simp
  then have "source_set (2 ^ (sources rm ! nat v)) = {sources rm ! nat v}"
    by (auto simp: source_set_def bit_simps)
  then have "source_set (src (mc_hw (ad_hw s'))) = {sources rm ! nat v}" "ok (mc_hw (ad_hw s'))"
    using cored.source_written [OF assms(1,2,4,5), of V] by (simp_all add: s'_def sourced_def)
  moreover have d: "d_ioctl (over_core V) = None" using assms(3) by (simp add: over_core_def)
  moreover have "get_legacy_recsrc (over_core V) (mixer_dev a) s' = (v, s')"
    using cored.source_set_get [OF assms(1,2,4,5), of V] by (simp add: s'_def)
  ultimately show ?thesis by (simp add: recsrc_calls [OF d] recsrc_number_def reply_def s'_def [symmetric])
qed

text \<open>A device that does nothing by itself, and an engine with its mixer.\<close>

definition still_driver :: "(unit, 'h) driver" where
  "still_driver = \<lparr>
     d_audio = \<lparr>
       a_output_block = None, a_start_input = None, a_prepare_for_output = (\<lambda>f n s. (Inr (), s)),
       a_prepare_for_input = (\<lambda>f n s. (Inr (), s)), a_halt_io = (\<lambda>s. s), a_halt_input = None, a_halt_output = None,
       a_local_qlen = None, a_trigger = None, a_set_rate = (\<lambda>r s. (Inr r, s)), a_set_format = (\<lambda>f s. (f, s)),
       a_set_channels = (\<lambda>c s. (c, s)), a_check_input = None, a_check_output = None, a_get_input_pointer = None,
       a_get_output_pointer = None, a_setup_fragments = None, a_device_write = (\<lambda>b p m l s. (Inl OSS_EIO, s)),
       a_callback = (\<lambda>D s. s), a_sleep = (\<lambda>D t s. ((False, False), s)), a_wakeup = (\<lambda>D s. s), a_grc3 = toy_grc3,
       a_tmpbuf = None, a_srcstate = (\<lambda>n. None), num_audio_engines = 1, always_cooked = False, opt_max_intrate = 100,
       oss_hz = 100\<rparr>,
     d_open = (\<lambda>m f s. (Inr (), s)), d_close = (\<lambda>m s. s), d_alloc_buffer = None, d_free_buffer = None,
     d_sync_control = None, os_alloc_dmabuf = (\<lambda>D s. (Inl OSS_ENOMEM, s)), os_free_dmabuf = (\<lambda>D s. s), d_ioctl = None,
     d_ioctl_override = None, d_bind = None, num_mixers = 1, mixer_modified = (\<lambda>m s. s),
     mixer_ioctl = (\<lambda>m d cmd x s. ((Inl OSS_EINVAL, x), s)), legacy_mixer_ioctl = (\<lambda>m d cmd x s. ((Inl OSS_EINVAL, x), s)),
     mixer_ext = (\<lambda>cmd x s. ((Inl OSS_EINVAL, x), s)), opt_cooked = True, opt_src_quality = 0\<rparr>"

definition still_engine :: "'h \<Rightarrow> (unit, 'h) engine" where
  "still_engine h = \<lparr>ad_enabled = True, ad_flags = 0, ad_open_flags = 0, ad_open_mode = PCM_ENABLE_INPUT, ad_dmask = DMASK_IN,
     user_parms = \<lparr>sp_fmt = AFMT_U8, sp_rate = 8000, sp_channels = 1\<rparr>, hw_parms = \<lparr>sp_fmt = AFMT_U8, sp_rate = 8000, sp_channels = 1\<rparr>,
     ad_go = True, enable_bits = PCM_ENABLE_INPUT, max_block = 0, min_block = 0, min_fragments = 0,
     max_fragments = 0, ad_max_intrate = 0, ad_policy = - 1, ossd_registered = False, ad_nonblock = True, forced_nonblock = False,
     cooked_enable = True, timeout_count = 0, getispace_error_count = 0, setfragment_warned = False, ad_duplex = False,
     dmap_0 = toy_dmap, dmap_1 = toy_dmap\<lparr>dma_mode := PCM_ENABLE_INPUT\<rparr>, sync_seed = 0, ad_hw = h\<rparr>"

definition still_adev :: "'h \<Rightarrow> (unit, 'h) adev" where
  "still_adev h = \<lparr>ad_engine = still_engine h, ad_unloaded = False, has_osdev = True, buffer_protected = (\<lambda>D. False), oformat_mask = 0,
     iformat_mask = AFMT_U8, xformat_mask = 0, fixed_rate = 0, sync_flags = 0, sync_group = 0, sync_mode = 0, sync_next = None,
     ad_caps = 0, mixer_dev = 0, ad_cmd = [], ad_label = [], ad_song_name = [], ad_pid = - 1\<rparr>"

lemma recsrc_reaches_mixer_witness:
  "\<exists>a'. engine_call (over_core still_driver) (d_audio still_driver) 0 0 None DSP_SET_RECSRC (Int_Arg 1) (still_adev sb_used) = Some ((Inr 1, Int_Arg 1), a') \<and>
    source_set (fst (mc_hw (ad_hw (ad_engine a')))) = {7} \<and>
    engine_call (over_core still_driver) (d_audio still_driver) 0 0 None DSP_GET_RECSRC (Int_Arg 0) a' = Some ((Inr 1, Int_Arg 1), a')"
proof -
  have "sourced (\<lambda>h. True) (mixer_dev (still_adev sb_used)) sb_ioctl 1 0xC1 0xC0 fst (ad_engine (still_adev sb_used))"
    using sb_sources sb_answers by (simp add: sourced_def still_adev_def still_engine_def mixer_at_def sb_used_def sb_mixer_def fresh_mixer_def
        mixer_off_def SOUND_CAP_NORECSRC_def)
  from recsrc_reaches_mixer [OF this, of still_driver 1 "d_audio still_driver" 0 0 None "Int_Arg 0"] show ?thesis
    by (simp add: toy_sources still_adev_def) (simp add: still_driver_def)
qed

end
