(* ===== verification/Ac97.thy ===== *)
theory Ac97
  imports Mixer_Calls
begin

text \<open>
  The AC97 codec as a mixer, \<open>kernel/framework/ac97/oss_ac97.c\<close> with \<open>include/ac97.h\<close>: the state of a codec, its
  registers, which the host's driver reads and writes, and the legacy calls that the mixer core makes. The host is of type
  \<open>'s\<close>. A function that would index \<open>mix_cvt\<close> outside of the array is \<open>None\<close>. The array of levels, which the
  mixer core allots and nobody else uses, is a part of the codec here; the calls come after the installation, which provides it.
\<close>

section \<open>State\<close>

text \<open>The host's functions return the value that was read, or a negative number when a write fails. \<open>spdif_flag\<close> is the
  static variable of \<open>ac97_spdifout_ctl\<close>, which all codecs share.\<close>

record 's ac97_devc =
  is_ok :: bool
  ac_name :: string
  ac_hw :: 's
  ac_read :: "int \<Rightarrow> 's \<Rightarrow> int \<times> 's"
  ac_write :: "int \<Rightarrow> u16 \<Rightarrow> 's \<Rightarrow> int \<times> 's"
  ac97_id :: u16
  ac_mixer :: int
  mastervol_bits :: int
  pcmvol_bits :: int
  rearvol_bits :: int
  centervol_bits :: int
  sidevol_bits :: int
  auxvol_bits :: int
  enh_bits :: int
  micboost :: u16
  levels :: "int list"
  recdevs :: u32
  overrides :: "nat option list"
  devmask :: u32
  recmask :: u32
  var_rate_support :: bool
  ac_fixed_rate :: bool
  playrate_support :: nat
  spdifout_support :: nat
  spdif_slot :: u16
  spdifin_support :: nat
  mixer_ext :: nat
  enh_3d :: u16
  extmixlevels :: "int list"
  client_mixer_init :: "nat option"
  spdif_flag :: bool

text \<open>What surrounds the codec: the functions that override controls, those that create controls for the host's driver, the
  negative code of each error, and the configuration.\<close>

record 's ac97_env =
  ac_override :: "nat \<Rightarrow> int \<Rightarrow> int \<Rightarrow> mix_ioctl \<Rightarrow> int \<Rightarrow> 's ac97_devc \<Rightarrow> int oss_result \<times> 's ac97_devc"
  ac_client :: "nat \<Rightarrow> int \<Rightarrow> 's ac97_devc mixer_core \<Rightarrow> (int, 's ac97_devc) mixer_result"
  ac_errno :: "oss_error \<Rightarrow> int"
  ac97_recselect :: bool
  ac97_amplifier :: int

definition SOUND_MASK :: "nat \<Rightarrow> u32" where "SOUND_MASK k = push_bit k 1"

definition SOUND_MASKS :: "nat list \<Rightarrow> u32" where "SOUND_MASKS ks = fold (\<lambda>k m. m OR SOUND_MASK k) ks 0"

text \<open>The controls by their numbers (\<open>SOUND_MIXER_VOLUME\<close> and so on).\<close>

abbreviation (input) VOLUME :: nat where "VOLUME \<equiv> 0"
abbreviation (input) BASS :: nat where "BASS \<equiv> 1"
abbreviation (input) TREBLE :: nat where "TREBLE \<equiv> 2"
abbreviation (input) PCM :: nat where "PCM \<equiv> 4"
abbreviation (input) SPEAKER :: nat where "SPEAKER \<equiv> 5"
abbreviation (input) LINE :: nat where "LINE \<equiv> 6"
abbreviation (input) MIC :: nat where "MIC \<equiv> 7"
abbreviation (input) CD :: nat where "CD \<equiv> 8"
abbreviation (input) ALTPCM :: nat where "ALTPCM \<equiv> 10"
abbreviation (input) IGAIN :: nat where "IGAIN \<equiv> 12"
abbreviation (input) LINE1 :: nat where "LINE1 \<equiv> 14"
abbreviation (input) PHONE :: nat where "PHONE \<equiv> 20"
abbreviation (input) MONO :: nat where "MONO \<equiv> 21"
abbreviation (input) VIDEO :: nat where "VIDEO \<equiv> 22"
abbreviation (input) DEPTH :: nat where "DEPTH \<equiv> 24"
abbreviation (input) REARVOL :: nat where "REARVOL \<equiv> 25"
abbreviation (input) CENTERVOL :: nat where "CENTERVOL \<equiv> 26"
abbreviation (input) SIDEVOL :: nat where "SIDEVOL \<equiv> 27"

definition MIXER_DEVS :: u32 where
  "MIXER_DEVS = SOUND_MASKS [LINE1, VIDEO, MIC, VOLUME, LINE, SPEAKER, CD, PHONE, MONO, PCM, IGAIN]"

definition EXTRA_DEVS :: u32 where "EXTRA_DEVS = SOUND_MASKS [REARVOL, CENTERVOL, SIDEVOL]"

definition REC_DEVS :: u32 where
  "REC_DEVS = SOUND_MASKS [LINE1, MIC, PHONE, CD, LINE, VOLUME, MONO, VIDEO]"

definition STEREO_DEVS :: u32 where
  "STEREO_DEVS = (MIXER_DEVS OR EXTRA_DEVS) AND NOT (SOUND_MASKS [MIC, SPEAKER, BASS, TREBLE, MONO])"

definition ac97_default_levels :: "int list" where
  "ac97_default_levels =
     [0x4b4b, 0x3232, 0x3232, 0x4b4b, 0x4b4b, 0x8000, 0x2020, 0x0000, 0x4b4b, 0x0000, 0x4b4b, 0x4b4b, 0x4b4b, 0x4b4b, 0x2020,
      0x2020, 0x1515, 0x0101, 0x0000, 0x0000, 0x0000, 0x4b4b, 0x0000, 0x0000, 0x0000, 0x4b4b, 0x4b4b, 0x4b4b] @ replicate 4 0"

definition mix_cvt :: "int list" where
  "mix_cvt =
     [0, 0, 3, 7, 10, 13, 16, 19, 21, 23, 26, 28, 30, 32, 34, 35, 37, 39, 40, 42,
      43, 45, 46, 47, 49, 50, 51, 52, 53, 55, 56, 57, 58, 59, 60, 61, 62, 63, 64, 65,
      65, 66, 67, 68, 69, 70, 70, 71, 72, 73, 73, 74, 75, 75, 76, 77, 77, 78, 79, 79,
      80, 81, 81, 82, 82, 83, 84, 84, 85, 85, 86, 86, 87, 87, 88, 88, 89, 89, 90, 90,
      91, 91, 92, 92, 93, 93, 94, 94, 95, 95, 96, 96, 96, 97, 97, 98, 98, 98, 99, 99,
      100]"

definition cvt_at :: "int \<Rightarrow> int option" where
  "cvt_at i = (if 0 \<le> i \<and> i \<le> 100 then Some (mix_cvt ! nat i) else None)"

section \<open>Registers\<close>

definition codec_read :: "int \<Rightarrow> 's ac97_devc \<Rightarrow> u16 \<times> 's ac97_devc" where
  "codec_read reg d = (case ac_read d reg (ac_hw d) of (v, h) \<Rightarrow> (word_of_int v, d\<lparr>ac_hw := h\<rparr>))"

definition codec_write :: "int \<Rightarrow> u16 \<Rightarrow> 's ac97_devc \<Rightarrow> int \<times> 's ac97_devc" where
  "codec_write reg v d = (case ac_write d reg v (ac_hw d) of (r, h) \<Rightarrow> (r, d\<lparr>ac_hw := h\<rparr>))"

text \<open>The two ways in which they are used: a write whose result is not looked at, and a change of a register.\<close>

definition codec_set :: "int \<Rightarrow> u16 \<Rightarrow> 's ac97_devc \<Rightarrow> 's ac97_devc" where
  "codec_set reg v d = snd (codec_write reg v d)"

definition codec_change :: "int \<Rightarrow> (u16 \<Rightarrow> u16) \<Rightarrow> 's ac97_devc \<Rightarrow> 's ac97_devc" where
  "codec_change reg f d = (case codec_read reg d of (v, d) \<Rightarrow> codec_set reg (f v) d)"

section \<open>Levels and recording sources\<close>

definition record_select :: "u32 \<Rightarrow> nat option" where
  "record_select m = List.find (\<lambda>i. m = SOUND_MASK ([MIC, CD, VIDEO, LINE1, LINE, VOLUME, MONO, PHONE] ! i)) [0..<8]"

definition ac97_set_recmask :: "u32 \<Rightarrow> 's ac97_devc \<Rightarrow> int \<times> 's ac97_devc" where
  "ac97_set_recmask pmask d =
     (let m = pmask AND recmask d; m = m AND (m XOR recdevs d) in
      if m = 0 then (sint (recdevs d), d)
      else
        let (m, sel) = (case record_select m of Some i \<Rightarrow> (m, word_of_nat i) | None \<Rightarrow> (SOUND_MASK MIC, 0));
            d = codec_set 0x1a (sel OR push_bit 8 sel) (d\<lparr>recdevs := m\<rparr>)
        in (sint m, d\<lparr>levels := (levels d)[31 := sint m]\<rparr>))"

definition ac97_mixer_get :: "int \<Rightarrow> 's ac97_devc \<Rightarrow> int oss_result" where
  "ac97_mixer_get dev d =
     (if dev < 0 \<or> int SOUND_MIXER_NRDEVICES \<le> dev then Inl OSS_EINVAL
      else if SOUND_MASK (nat dev) AND devmask d = 0 then Inl OSS_EINVAL
      else Inr (levels d ! nat dev))"

definition mix_scale :: "int \<Rightarrow> int \<Rightarrow> int \<Rightarrow> int option" where
  "mix_scale left right bits =
     (let backwards = bits < 0; bits = nat \<bar>bits\<bar>; mute = (if left OR right = 0 then 0x8000 else 0) in
      Option.bind (cvt_at (if backwards then 100 - left else left)) (\<lambda>l.
      Option.bind (cvt_at (if backwards then 100 - right else right)) (\<lambda>r.
        Some (mute OR push_bit 8 ((100 - l) * (2 ^ bits - 1) div 100) OR ((100 - r) * (2 ^ bits - 1) div 100)))))"

definition clamp_level :: "nat \<Rightarrow> int \<Rightarrow> int \<times> int" where
  "clamp_level dev v =
     (if SOUND_MASK dev AND STEREO_DEVS = 0 then (min 100 (v AND 0xff), min 100 (v AND 0xff))
      else (min 100 (v AND 0xff), min 100 (drop_bit 8 v AND 0xff)))"

definition write_scaled :: "int \<Rightarrow> int \<Rightarrow> int \<Rightarrow> int \<Rightarrow> 's ac97_devc \<Rightarrow> 's ac97_devc option" where
  "write_scaled reg left right bits d = map_option (\<lambda>v. codec_set reg (word_of_int v) d) (mix_scale left right bits)"

definition level_byte :: "nat \<Rightarrow> 's ac97_devc \<Rightarrow> int" where "level_byte dev d = levels d ! dev AND 0xff"

text \<open>The switch over the controls; \<open>Inl\<close> for one without a register.\<close>

definition codec_control :: "nat \<Rightarrow> int \<Rightarrow> int \<Rightarrow> 's ac97_devc \<Rightarrow> 's ac97_devc oss_result option" where
  "codec_control dev left right d =
     (if dev = VOLUME then
        Option.bind (if SOUND_MASK ALTPCM AND devmask d = 0 then write_scaled 0x04 left right (mastervol_bits d) d else Some d)
          (\<lambda>d. map_option Inr (write_scaled 0x02 left right (mastervol_bits d) d))
      else if dev = TREBLE then map_option Inr (write_scaled 0x08 left (level_byte TREBLE d) 4 d)
      else if dev = BASS then map_option Inr (write_scaled 0x08 (level_byte BASS d) left 4 d)
      else if dev = DEPTH then
        map_option (\<lambda>v. Inr (codec_set 0x22 (word_of_int (v * (2 ^ nat (enh_bits d) - 1) div 100)) d)) (cvt_at left)
      else if dev = SPEAKER then
        map_option (\<lambda>v. Inr (codec_set 0x0a (word_of_int (v AND 0x801F)) d)) (mix_scale 0 left 5)
      else if dev = PHONE then map_option Inr (write_scaled 0x0c 0 left (mastervol_bits d) d)
      else if dev = MONO then map_option Inr (write_scaled 0x06 0 left (mastervol_bits d) d)
      else if dev = MIC then
        map_option (\<lambda>v. Inr (codec_set 0x0e (word_of_int v AND NOT 0x40 OR micboost d) d)) (mix_scale 0 left (mastervol_bits d))
      else if dev = LINE then map_option Inr (write_scaled 0x10 left right 5 d)
      else if dev = CD then map_option Inr (write_scaled 0x12 left right 5 d)
      else if dev = VIDEO then map_option Inr (write_scaled 0x14 left right 5 d)
      else if dev = LINE1 then map_option Inr (write_scaled 0x16 left right 5 d)
      else if dev = PCM then map_option Inr (write_scaled 0x18 left right (pcmvol_bits d) d)
      else if dev = IGAIN then map_option Inr (write_scaled 0x1c left right (- 4) d)
      else if dev = ALTPCM then map_option Inr (write_scaled 0x04 left right (mastervol_bits d) d)
      else if dev = REARVOL then map_option Inr (write_scaled 0x38 left right (rearvol_bits d) d)
      else if dev = CENTERVOL then map_option Inr (write_scaled 0x36 left right (centervol_bits d) d)
      else if dev = SIDEVOL then map_option Inr (write_scaled 0x1c left right (sidevol_bits d) d)
      else Some (Inl OSS_EINVAL))"

definition ac97_mixer_set :: "int \<Rightarrow> int \<Rightarrow> 's ac97_devc \<Rightarrow> (int oss_result \<times> 's ac97_devc) option" where
  "ac97_mixer_set dev v d =
     (if dev < 0 \<or> int SOUND_MIXER_NRDEVICES \<le> dev then Some (Inl OSS_EINVAL, d)
      else if SOUND_MASK (nat dev) AND devmask d = 0 then Some (Inl OSS_EINVAL, d)
      else case clamp_level (nat dev) v of (left, right) \<Rightarrow>
        case codec_control (nat dev) left right d of
          None \<Rightarrow> None
        | Some (Inl e) \<Rightarrow> Some (Inl e, d)
        | Some (Inr d) \<Rightarrow>
            let v = left OR push_bit 8 right in Some (Inr v, d\<lparr>levels := (levels d)[nat dev := v]\<rparr>))"

fun set_levels :: "nat list \<Rightarrow> 's ac97_devc \<Rightarrow> 's ac97_devc option" where
  "set_levels [] d = Some d"
| "set_levels (i # is) d =
     (if SOUND_MASK i AND devmask d = 0 then set_levels is d
      else Option.bind (ac97_mixer_set (int i) (levels d ! i) d) (\<lambda>(r, d). set_levels is d))"

definition ac97_mixer_reset :: "'s ac97_devc \<Rightarrow> 's ac97_devc option" where
  "ac97_mixer_reset d =
     map_option (\<lambda>d.
       let d = d\<lparr>recmask := REC_DEVS AND devmask d\<rparr>;
           d = (if levels d ! 31 = 0 then d\<lparr>levels := (levels d)[31 := sint (SOUND_MASK LINE)]\<rparr> else d)
       in snd (ac97_set_recmask (word_of_int (levels d ! 31)) d))
     (set_levels [0..<SOUND_MIXER_NRDEVICES] d)"

section \<open>Calls of drivers\<close>

fun set_all :: "u32 \<Rightarrow> int \<Rightarrow> nat list \<Rightarrow> 's ac97_devc \<Rightarrow> 's ac97_devc option" where
  "set_all m level [] d = Some d"
| "set_all m level (i # is) d =
     (if m AND SOUND_MASK i = 0 then set_all m level is d
      else Option.bind (ac97_mixer_set (int i) level d) (\<lambda>(r, d). set_all m level is d))"

definition ac97_remove_control :: "u32 \<Rightarrow> int \<Rightarrow> 's ac97_devc \<Rightarrow> 's ac97_devc option" where
  "ac97_remove_control m level d =
     (if \<not> is_ok d then Some d
      else
        let d = d\<lparr>devmask := devmask d AND NOT m\<rparr>;
            d = d\<lparr>recmask := REC_DEVS AND devmask d\<rparr>;
            d = d\<lparr>recdevs := recdevs d AND recmask d\<rparr>;
            d = (if recmask d = 0 then snd (ac97_set_recmask (SOUND_MASK LINE) d) else d)
        in set_all m level [0..<SOUND_MIXER_NRDEVICES] d)"

text \<open>The codec is the hardware of the mixer core, and its mixer is \<open>ac_mixer\<close>.\<close>

definition errno_value :: "'s ac97_env \<Rightarrow> int oss_result \<Rightarrow> int" where
  "errno_value S r = (case r of Inl e \<Rightarrow> ac_errno S e | Inr v \<Rightarrow> v)"

definition ac97_override_control ::
  "'s ac97_env \<Rightarrow> int \<Rightarrow> nat \<Rightarrow> int \<Rightarrow> 's ac97_devc mixer_core \<Rightarrow> 's ac97_devc mixer_core option" where
  "ac97_override_control S ctrl f level c =
     (let d = mc_hw c; dev = ac_mixer d in
      if \<not> is_ok d then Some c
      else if ctrl < 0 \<or> int SOUND_MIXER_NRDEVICES \<le> ctrl then Some c
      else
        let old = errno_value S (ac97_mixer_get ctrl d) in
        case ac97_mixer_set ctrl level d of None \<Rightarrow> None
        | Some (r, d) \<Rightarrow>
            let d = d\<lparr>overrides := (overrides d)[nat ctrl := Some f]\<rparr> in
            case mixer_at c dev of None \<Rightarrow> None
            | Some m \<Rightarrow>
                let c = put_mixer dev (m\<lparr>ignore_mask := ignore_mask m OR SOUND_MASK (nat ctrl)\<rparr>) c
                in Some (c\<lparr>mc_hw := snd (ac_override S f dev (- 1) (MIXER_WRITE (nat ctrl)) old d)\<rparr>))"

definition find_current_recsrc :: int where "find_current_recsrc = int IGAIN"

definition find_current_monsrc :: "'s ac97_devc \<Rightarrow> int" where
  "find_current_monsrc d = (case List.find (bit (recdevs d)) [0..<32] of Some i \<Rightarrow> int i | None \<Rightarrow> int MIC)"

section \<open>Calls of the mixer core\<close>

definition cmd_number :: "mix_ioctl \<Rightarrow> nat" where
  "cmd_number cmd =
     (case cmd of MIXER_READ n \<Rightarrow> n | MIXER_WRITE n \<Rightarrow> n | Mixer_Other r w n \<Rightarrow> n | MIXER_INFO \<Rightarrow> 101 | OSS_GETVERSION \<Rightarrow> 118 | _ \<Rightarrow> 0)"

definition call_override_func ::
  "'s ac97_env \<Rightarrow> int \<Rightarrow> mix_ioctl \<Rightarrow> int \<Rightarrow> 's ac97_devc \<Rightarrow> int oss_result \<times> 's ac97_devc" where
  "call_override_func S audiodev cmd v d =
     (let ctrl = cmd_number cmd in
      if \<not> is_ok d then (Inl OSS_EIO, d)
      else if SOUND_MIXER_NRDEVICES \<le> ctrl then (Inl OSS_EINVAL, d)
      else case overrides d ! ctrl of None \<Rightarrow> (Inl OSS_EINVAL, d)
      | Some f \<Rightarrow>
          (case ac_override S f (ac_mixer d) audiodev cmd v d of
             (Inl e, d) \<Rightarrow> (Inl e, d)
           | (Inr r, d) \<Rightarrow> (Inr r, d\<lparr>levels := (levels d)[ctrl := r]\<rparr>)))"

text \<open>\<open>return *arg = ...\<close>\<close>

definition in_arg :: "'s ac97_env \<Rightarrow> int oss_result \<times> 'd \<Rightarrow> (int oss_result \<times> mix_arg) \<times> 'd" where
  "in_arg S = (\<lambda>(r, d). ((r, Mix_Int (errno_value S r)), d))"

definition set_micboost :: "bool \<Rightarrow> 's ac97_devc \<Rightarrow> 's ac97_devc" where
  "set_micboost on d =
     (case codec_read 0x0e d of (v, d) \<Rightarrow>
        let d = d\<lparr>micboost := (if on then 0x40 else 0)\<rparr> in codec_set 0x0e (v AND NOT 0x40 OR micboost d) d)"

definition overridden :: "nat \<Rightarrow> 's ac97_devc \<Rightarrow> bool" where
  "overridden ctrl d \<longleftrightarrow> ctrl < SOUND_MIXER_NRDEVICES \<and> overrides d ! ctrl \<noteq> None"

definition codec_write_call :: "'s ac97_env \<Rightarrow> int \<Rightarrow> mix_ioctl \<Rightarrow> int \<Rightarrow> 's ac97_devc \<Rightarrow> (int oss_result \<times> 's ac97_devc) option" where
  "codec_write_call S audiodev cmd v d =
     (let n = cmd_number cmd in
      if n = SOUND_MIXER_RECSRC then
        Some (if ac97_recselect S then (Inr (sint (SOUND_MASK MIC)), d)
              else case ac97_set_recmask (word_of_int v) d of (r, d) \<Rightarrow> (Inr r, d))
      else if overridden n d then Some (call_override_func S audiodev cmd v d)
      else ac97_mixer_set (int n) v d)"

definition codec_read_call :: "'s ac97_env \<Rightarrow> int \<Rightarrow> mix_ioctl \<Rightarrow> 's ac97_devc \<Rightarrow> int oss_result \<times> 's ac97_devc" where
  "codec_read_call S audiodev cmd d =
     (let n = cmd_number cmd in
      if n = SOUND_MIXER_RECSRC then (Inr (if ac97_recselect S then sint (SOUND_MASK MIC) else sint (recdevs d)), d)
      else if n = SOUND_MIXER_DEVMASK then (Inr (sint (devmask d)), d)
      else if n = SOUND_MIXER_STEREODEVS then (Inr (sint STEREO_DEVS), d)
      else if n = SOUND_MIXER_RECMASK then (Inr (if ac97_recselect S then 0 else sint (recmask d)), d)
      else if n = SOUND_MIXER_CAPS then (Inr (sint SOUND_CAP_EXCL_INPUT), d)
      else if overridden n d then call_override_func S audiodev cmd 0 d
      else (ac97_mixer_get (int n) d, d))"

definition ac97_mixer_ioctl ::
  "'s ac97_env \<Rightarrow> int \<Rightarrow> mix_ioctl \<Rightarrow> mix_arg \<Rightarrow> 's ac97_devc \<Rightarrow> ((int oss_result \<times> mix_arg) \<times> 's ac97_devc) option" where
  "ac97_mixer_ioctl S audiodev cmd x d =
     (let v = mix_int x in
      if cmd = MIXER_WRITE 119 then map_option (in_arg S) (ac97_mixer_set find_current_recsrc v d)
      else if cmd = MIXER_READ 119 then Some (in_arg S (ac97_mixer_get find_current_recsrc d, d))
      else if cmd = MIXER_WRITE 120 then map_option (in_arg S) (ac97_mixer_set (find_current_monsrc d) v d)
      else if cmd = MIXER_READ 120 then Some (in_arg S (ac97_mixer_get (find_current_monsrc d) d, d))
      else if cmd = MIXER_WRITE 111 then
        Some (if v \<noteq> 0 \<and> v \<noteq> 1 then ((Inl OSS_EINVAL, x), d) else in_arg S (Inr v, set_micboost (v = 1) d))
      else if mixer_class cmd then
        if ioc_in cmd then
          if cmd_number cmd \<noteq> SOUND_MIXER_RECSRC \<and> SOUND_MIXER_NRDEVICES < cmd_number cmd then Some ((Inl OSS_EINVAL, x), d)
          else map_option (in_arg S) (codec_write_call S audiodev cmd v d)
        else Some (in_arg S (codec_read_call S audiodev cmd d))
      else Some ((Inl OSS_EINVAL, x), d))"

text \<open>The method that the driver installs. The mixer core takes a call to return: one that leaves an array, which
  \<open>Ac97_Laws\<close> excludes, is answered with an error.\<close>

definition ac97_mixer_driver :: "'s ac97_env \<Rightarrow> 's ac97_devc legacy_method" where
  "ac97_mixer_driver S dev audiodev cmd x d =
     (case ac97_mixer_ioctl S audiodev cmd x d of Some r \<Rightarrow> r | None \<Rightarrow> ((Inl OSS_EFAULT, x), d))"

end
