(* ===== verification/Ac97_Install.thy ===== *)
theory Ac97_Install
  imports Ac97
begin

text \<open>
  Installation of an AC97 codec (\<open>ac97_install_full\<close>, \<open>ac97_install\<close>, \<open>ac97_init_ext\<close>): the table of the known codecs with
  what each of them needs, the detection of what the codec can do, and its entry into the table of mixers; and the
  sampling rates (\<open>ac97_varrate\<close>, \<open>ac97_playrate\<close>, \<open>ac97_recrate\<close>). The delay after the reset is left out.
\<close>

section \<open>Known codecs\<close>

text \<open>What the switch over the codec's number does for one of them: settings and accesses to its registers. The
  kinds of S/PDIF outputs and inputs and of mixer extensions have the numbers of \<open>ac97.h\<close>.\<close>

datatype quirk =
  Alt_Pcm | Enh_Bits int | Center_Bits int | Rear_Bits int | Spdif_Out nat | Spdif_In nat | Mixer_Ext nat
| Poke int u16 | Change int u16 u16 | If_Sense quirk | If_Spdif quirk

abbreviation (input) CS_SPDIFOUT :: nat where "CS_SPDIFOUT \<equiv> 1"
abbreviation (input) AD_SPDIFOUT :: nat where "AD_SPDIFOUT \<equiv> 2"
abbreviation (input) STAC_SPDIFOUT :: nat where "STAC_SPDIFOUT \<equiv> 3"
abbreviation (input) ALC_SPDIFOUT :: nat where "ALC_SPDIFOUT \<equiv> 4"
abbreviation (input) VIA_SPDIFOUT :: nat where "VIA_SPDIFOUT \<equiv> 5"
abbreviation (input) CMI_SPDIFOUT :: nat where "CMI_SPDIFOUT \<equiv> 6"
abbreviation (input) YMF_SPDIFOUT :: nat where "YMF_SPDIFOUT \<equiv> 7"
abbreviation (input) CX_SPDIFOUT :: nat where "CX_SPDIFOUT \<equiv> 8"
abbreviation (input) ALC_SPDIFIN :: nat where "ALC_SPDIFIN \<equiv> 1"
abbreviation (input) CMI_SPDIFIN :: nat where "CMI_SPDIFIN \<equiv> 2"
abbreviation (input) ALC650_MIXER_EXT :: nat where "ALC650_MIXER_EXT \<equiv> 1"
abbreviation (input) AD1980_MIXER_EXT :: nat where "AD1980_MIXER_EXT \<equiv> 2"
abbreviation (input) VIA1616_MIXER_EXT :: nat where "VIA1616_MIXER_EXT \<equiv> 3"
abbreviation (input) CMI9739_MIXER_EXT :: nat where "CMI9739_MIXER_EXT \<equiv> 4"
abbreviation (input) CMI9780_MIXER_EXT :: nat where "CMI9780_MIXER_EXT \<equiv> 5"
abbreviation (input) STAC9758_MIXER_EXT :: nat where "STAC9758_MIXER_EXT \<equiv> 6"
abbreviation (input) WM9704_MIXER_EXT :: nat where "WM9704_MIXER_EXT \<equiv> 7"

text \<open>A change keeps some bits of a register and sets others.\<close>

fun apply_quirk :: "u32 \<Rightarrow> quirk \<Rightarrow> 's ac97_devc \<Rightarrow> 's ac97_devc" where
  "apply_quirk flags Alt_Pcm d = d\<lparr>devmask := devmask d OR SOUND_MASK ALTPCM\<rparr>"
| "apply_quirk flags (Enh_Bits n) d = d\<lparr>enh_bits := n\<rparr>"
| "apply_quirk flags (Center_Bits n) d = d\<lparr>centervol_bits := n\<rparr>"
| "apply_quirk flags (Rear_Bits n) d = d\<lparr>rearvol_bits := n\<rparr>"
| "apply_quirk flags (Spdif_Out n) d = d\<lparr>spdifout_support := n\<rparr>"
| "apply_quirk flags (Spdif_In n) d = d\<lparr>spdifin_support := n\<rparr>"
| "apply_quirk flags (Mixer_Ext n) d = d\<lparr>mixer_ext := n\<rparr>"
| "apply_quirk flags (Poke reg v) d = codec_set reg v d"
| "apply_quirk flags (Change reg keep v) d = codec_change reg (\<lambda>w. w AND keep OR v) d"
| "apply_quirk flags (If_Sense q) d = (if flags AND 2 \<noteq> 0 then apply_quirk flags q d else d)"
| "apply_quirk flags (If_Spdif q) d =
     (case codec_read 0x28 d of (v, d) \<Rightarrow> if v AND 0x04 \<noteq> 0 then apply_quirk flags q d else d)"

definition codecs :: "(u32 list \<times> string \<times> quirk list) list" where
  "codecs =
    [([0], ''Unknown'', []),
     ([0x414b4d00], ''AK4540'', []),
     ([0x83847600], ''STAC9700'', []),
     ([0xc250c250, 0x83847601], ''STAC9701'', []),
     ([0x83847609], ''STAC9721'', []),
     ([0x83847604], ''STAC9704'', []),
     ([0x83847605], ''STAC9705'', []),
     ([0x83847608], ''STAC9708'', [Alt_Pcm, Poke 0x6E 8, Enh_Bits 2]),
     ([0x83847644], ''STAC9744'', []),
     ([0x83847650], ''STAC9750'', [Spdif_Out STAC_SPDIFOUT, Enh_Bits 3]),
     ([0x83847652], ''STAC9752'', [Spdif_Out STAC_SPDIFOUT, Enh_Bits 3]),
     ([0x83847656], ''STAC9756'', [Spdif_Out STAC_SPDIFOUT, Enh_Bits 3]),
     ([0x83847666], ''STAC9766'', [Enh_Bits 3, Spdif_Out STAC_SPDIFOUT]),
     ([0x83847658], ''STAC9758'', [Enh_Bits 3, Spdif_Out STAC_SPDIFOUT, Mixer_Ext STAC9758_MIXER_EXT]),
     ([0x54524108, 0x54524128], ''TR28028'', [Alt_Pcm]),
     ([0x54524103, 0x54524123], ''TR28023'', []),
     ([0x454d4328], ''EM28028'', [Change 0x2a (NOT 3800) 0xE0, Alt_Pcm]),
     ([0x43585428, 0x43585429], ''CX20468'', [Spdif_Out CX_SPDIFOUT]),
     ([0x43525900], ''CS4297'', []),
     ([0x43525910], ''CS4297A'', [Spdif_Out CS_SPDIFOUT]),
     ([0x43525920], ''CS4294'', []),
     ([0x43525930], ''CS4299'', [Spdif_Out CS_SPDIFOUT]),
     ([0x43525970], ''CS4202'', [Spdif_Out CS_SPDIFOUT]),
     ([0x43525950], ''CS4205'', [Spdif_Out CS_SPDIFOUT]),
     ([0x4144303], ''AD1819B'', []),
     ([0x41445340], ''AD1881'', []),
     ([0x41445348], ''AD1881A'', []),
     ([0x41445360], ''AD1885'', []),
     ([0x41445361], ''AD1886'', [Change 0x72 (NOT 0xEF) 0x10, Spdif_Out AD_SPDIFOUT]),
     ([0x41445362], ''AD1887'', []),
     ([0x41445368], ''AD1888'', [Spdif_Out AD_SPDIFOUT, Mixer_Ext AD1980_MIXER_EXT, Poke 0x76 0xC420, Center_Bits 6,
        Rear_Bits 6, Poke 0x04 0x0808]),
     ([0x41445370], ''AD1980'', [Spdif_Out AD_SPDIFOUT, Mixer_Ext AD1980_MIXER_EXT, Poke 0x76 0xC420]),
     ([0x41445372], ''AD1981'', [Spdif_Out AD_SPDIFOUT, If_Sense (Change 0x72 (NOT 0xe00) 0x400)]),
     ([0x41445374], ''AD1981B'', [Spdif_Out AD_SPDIFOUT, If_Sense (Change 0x72 0xffff 0x0800)]),
     ([0x41445375], ''AD1985'', [Spdif_Out AD_SPDIFOUT, Mixer_Ext AD1980_MIXER_EXT, If_Sense (Change 0x72 (NOT 0xe00) 0x400),
        Poke 0x76 0xC420]),
     ([0x574d4c00], ''WM9701A'', []),
     ([0x574d4c03], ''WM9703'', []),
     ([0x574d4c04], ''WM9704'', [Mixer_Ext WM9704_MIXER_EXT, Change 0x5A 0xffff 0x80]),
     ([0x45838308], ''ES19XX'', []),
     ([0x49434511], ''ICE1232/VT1611A'', []),
     ([0x56494161, 0x56494170], ''VT1612A'', [If_Spdif (Spdif_Out VIA_SPDIFOUT), Mixer_Ext VIA1616_MIXER_EXT,
        Change 0x2a (NOT 0x3800) 0, Poke 0x5a 0x0230]),
     ([0x49434551], ''VT1616'', [If_Spdif (Spdif_Out VIA_SPDIFOUT), Mixer_Ext VIA1616_MIXER_EXT, Mixer_Ext VIA1616_MIXER_EXT,
        Change 0x2a (NOT 0x3800) 0, Poke 0x5a 0x0230]),
     ([0x49434552], ''VT1616A'', [Spdif_Out VIA_SPDIFOUT, Mixer_Ext VIA1616_MIXER_EXT]),
     ([0x56494182], ''VT1618'', [Spdif_Out VIA_SPDIFOUT, Mixer_Ext VIA1616_MIXER_EXT]),
     ([0x414c4326], ''ALC100'', [Enh_Bits 2]),
     ([0x414c4710], ''ALC200P'', [Enh_Bits 2]),
     ([0x414c4740], ''ALC202'', [Spdif_Out ALC_SPDIFOUT, Enh_Bits 2]),
     ([0x414c4770], ''ALC203'', [Spdif_Out ALC_SPDIFOUT, Enh_Bits 2]),
     ([0x000f8384], ''EV1938'', []),
     ([0x414c4750, 0x414c4752], ''ALC250'', [Spdif_Out ALC_SPDIFOUT, Spdif_In ALC_SPDIFIN, Enh_Bits 2]),
     ([0x414c4720], ''ALC650'', [Spdif_Out ALC_SPDIFOUT, Mixer_Ext ALC650_MIXER_EXT, Enh_Bits 2]),
     ([0x414c4760, 0x414c4761], ''ALC655'', [Spdif_Out ALC_SPDIFOUT, Spdif_In ALC_SPDIFIN, Mixer_Ext ALC650_MIXER_EXT, Enh_Bits 2]),
     ([0x414c4780], ''ALC658'', [Spdif_Out ALC_SPDIFOUT, Spdif_In ALC_SPDIFIN, Mixer_Ext ALC650_MIXER_EXT, Enh_Bits 2]),
     ([0x414c4790], ''ALC850'', [Spdif_Out ALC_SPDIFOUT, Spdif_In ALC_SPDIFIN, Mixer_Ext ALC650_MIXER_EXT, Enh_Bits 2]),
     ([0x434d4941], ''CMI9738'', [Alt_Pcm]),
     ([0x434d4961], ''CMI9739'', [Spdif_Out CMI_SPDIFOUT, Spdif_In CMI_SPDIFIN, Mixer_Ext CMI9739_MIXER_EXT]),
     ([0x434d4983], ''CMI9761A'', [Spdif_Out CMI_SPDIFOUT, Spdif_In CMI_SPDIFIN, Mixer_Ext CMI9739_MIXER_EXT]),
     ([0x434d4969], ''CMI9780'', []),
     ([0x594d4800], ''YMF743'', []),
     ([0x594d4803], ''YMF753'', [Spdif_Out YMF_SPDIFOUT, Change 0x66 0xffff 0x9])]"

definition find_codec :: "u32 \<Rightarrow> (string \<times> quirk list) option" where
  "find_codec i = map_option snd (List.find (\<lambda>(ids, name, qs). i \<in> set ids) codecs)"

definition hex_digit :: "nat \<Rightarrow> char" where "hex_digit n = ''0123456789abcdef'' ! (n mod 16)"

definition hex4 :: "u16 \<Rightarrow> string" where
  "hex4 w = (let n = unat w in map hex_digit [n div 4096, n div 256, n div 16, n])"

text \<open>The last four bits of the numbers of Cirrus Logic's codecs are a revision.\<close>

definition codec_key :: "u32 \<Rightarrow> u32" where
  "codec_key i = i AND (if i AND 0xffff0000 = 0x43520000 then 0xFFFFFFF0 else 0xFFFFFFFF)"

definition identify :: "u32 \<Rightarrow> u16 \<Rightarrow> u16 \<Rightarrow> 's ac97_devc \<Rightarrow> 's ac97_devc" where
  "identify flags tmp tmp2 d =
     (case find_codec (codec_key (push_bit 16 (ucast tmp) OR ucast tmp2)) of
        None \<Rightarrow> d\<lparr>ac_name := ''0x'' @ hex4 tmp @ hex4 tmp2\<rparr>
      | Some (name, qs) \<Rightarrow> fold (apply_quirk flags) qs (d\<lparr>ac_name := name\<rparr>))"

section \<open>Installation\<close>

definition fresh_codec :: "bool \<Rightarrow> 's \<Rightarrow> (int \<Rightarrow> 's \<Rightarrow> int \<times> 's) \<Rightarrow> (int \<Rightarrow> u16 \<Rightarrow> 's \<Rightarrow> int \<times> 's) \<Rightarrow> 's ac97_devc" where
  "fresh_codec flag h rd wr = \<lparr>is_ok = False, ac_name = ''AC97'', ac_hw = h, ac_read = rd, ac_write = wr, ac97_id = 0, ac_mixer = 0,
     mastervol_bits = 0, pcmvol_bits = 0, rearvol_bits = 0, centervol_bits = 0, sidevol_bits = 0, auxvol_bits = 0, enh_bits = 0,
     micboost = 0, levels = [], recdevs = 0, overrides = replicate SOUND_MIXER_NRDEVICES None, devmask = 0, recmask = 0,
     var_rate_support = False, ac_fixed_rate = False, playrate_support = 0, spdifout_support = 0, spdif_slot = 0, spdifin_support = 0,
     mixer_ext = 0, enh_3d = 0, extmixlevels = replicate 10 0, client_mixer_init = None,
     spdif_flag = flag\<rparr>"

definition reg_bit :: "int \<Rightarrow> u16 \<Rightarrow> 's ac97_devc \<Rightarrow> bool \<times> 's ac97_devc" where
  "reg_bit reg m d = (case codec_read reg d of (v, d) \<Rightarrow> (v AND m \<noteq> 0, d))"

text \<open>Power, and the identity of the codec. \<open>AC97_INVERTED\<close> is the first flag.\<close>

definition wake_up :: "'s ac97_env \<Rightarrow> u32 \<Rightarrow> 's ac97_devc \<Rightarrow> (u16 \<times> u16) oss_result \<times> 's ac97_devc" where
  "wake_up S flags d =
     (case codec_write 0x00 0x00 d of (r, d) \<Rightarrow>
      if r < 0 then (Inl OSS_EIO, d)
      else
        let d = codec_set 0x26 0x00 d;
            on = (if ac97_amplifier S \<noteq> - 1 then ac97_amplifier S \<noteq> 0 else flags AND 1 = 0);
            d = codec_change 0x26 (\<lambda>w. if on then w AND NOT 0x8000 else w OR 0x8000) d;
            d = codec_set 0x20 0x00 d
        in case codec_read 0x7c d of (tmp, d) \<Rightarrow>
             if tmp = 0xffff then (Inl OSS_EIO, d)
             else case codec_read 0x7e d of (tmp2, d) \<Rightarrow> (Inr (tmp, tmp2), d))"

definition detect :: "'s ac97_devc \<Rightarrow> 's ac97_devc" where
  "detect d =
     (case codec_read 0x00 d of (v, d) \<Rightarrow>
      let d = d\<lparr>ac97_id := v, enh_3d := drop_bit 10 v AND 0x1f, devmask := MIXER_DEVS, ac_fixed_rate := False\<rparr> in
      case reg_bit 0x28 0x1 d of (var, d) \<Rightarrow>
      let d = d\<lparr>var_rate_support := var\<rparr> in
      case reg_bit 0x28 0x4 d of (spdif, d) \<Rightarrow>
      let d = d\<lparr>spdifout_support := (if spdif then 1 else 0), mixer_ext := 0, playrate_support := 0\<rparr> in
      case reg_bit 0x28 0x1C0 d of (six, d) \<Rightarrow>
      let d = (if six then d\<lparr>playrate_support := 2\<rparr>
               else case reg_bit 0x28 0x80 d of (four, d) \<Rightarrow> if four then d\<lparr>playrate_support := 1\<rparr> else d) in
      d\<lparr>enh_bits := 4, micboost := 0x40, pcmvol_bits := 5, rearvol_bits := 5, sidevol_bits := 5, centervol_bits := 5, auxvol_bits := 5,
        extmixlevels := (extmixlevels d)[0 := 0x0404, 1 := 0x0404, 2 := 0x0404]\<rparr>)"

definition finish_detection :: "'s ac97_devc \<Rightarrow> 's ac97_devc" where
  "finish_detection d =
     (let d = (if ac_fixed_rate d then codec_change 0x2a (\<lambda>w. w AND NOT 0x0001) (snd (codec_read 0x28 d)) else snd (codec_read 0x28 d));
          d = (if ac97_id d AND 0x0004 \<noteq> 0 then d\<lparr>devmask := devmask d OR SOUND_MASKS [BASS, TREBLE]\<rparr> else d);
          d = (if enh_3d d \<noteq> 0 then codec_change 0x20 (\<lambda>w. w OR 0x2000) (d\<lparr>devmask := devmask d OR SOUND_MASK DEPTH\<rparr>) else d)
      in case codec_read 0x02 (codec_set 0x02 0x20 d) of (v, d) \<Rightarrow>
         let d = d\<lparr>mastervol_bits := (if v AND 0x1f = 0x1f then 5 else 6)\<rparr>;
             d = (if playrate_support d = 3 then d\<lparr>devmask := devmask d OR SOUND_MASKS [REARVOL, CENTERVOL, SIDEVOL]\<rparr> else d);
             d = (if playrate_support d = 2 then d\<lparr>devmask := devmask d OR SOUND_MASKS [REARVOL, CENTERVOL]\<rparr> else d)
         in if playrate_support d = 1 then d\<lparr>devmask := devmask d OR SOUND_MASK REARVOL\<rparr> else d)"

text \<open>The levels that \<open>load_mixer_volumes\<close> refers to.\<close>

definition loaded_levels :: "levels_ref \<Rightarrow> vol_entry list \<Rightarrow> int list" where
  "loaded_levels ref vs =
     (case ref of Muted_Levels \<Rightarrow> replicate 32 0 | Own_Levels \<Rightarrow> ac97_default_levels | Default_Levels \<Rightarrow> default_mixer_levels
      | Stored_Levels i \<Rightarrow> vl_levels (vs ! i))"

definition has_extensions :: "'s ac97_env \<Rightarrow> 's ac97_devc \<Rightarrow> bool" where
  "has_extensions S d \<longleftrightarrow> mixer_ext d \<noteq> 0 \<or> spdifout_support d \<noteq> 0 \<or> spdifin_support d \<noteq> 0 \<or> ac97_recselect S"

text \<open>What the installations of codecs share: the configured volumes and the number of codecs.\<close>

record ac97_shared =
  ac_muted :: bool
  ac_volumes :: "vol_entry list"
  nr_ac97 :: nat

definition enter_mixer ::
  "u32 \<Rightarrow> int \<Rightarrow> 's ac97_devc mixer_core \<Rightarrow> ac97_shared \<Rightarrow> (ac97_shared \<times> 's ac97_devc mixer_core) option" where
  "enter_mixer key num c g =
     Option.bind (mixer_at c num) (\<lambda>m.
       let c = put_mixer num (m\<lparr>mx_priority := 2\<rparr>) c;
           d = (mc_hw c)\<lparr>recdevs := 0, ac_mixer := num, is_ok := True\<rparr>
       in Option.bind (load_mixer_volumes (ac_muted g) (ac_name d @ ''_'' @ decimal (nr_ac97 g)) (Some ac97_default_levels) True (ac_volumes g))
            (\<lambda>(ref, vs).
              Option.bind (ac97_mixer_reset (d\<lparr>levels := loaded_levels ref vs\<rparr>)) (\<lambda>d.
                let d = (if key = 0x41445368
                         then codec_change 0x1c (\<lambda>w. w AND NOT 0x8000) (codec_change 0x04 (\<lambda>w. w AND NOT 0x8000) d) else d)
                in Some (g\<lparr>ac_volumes := vs, nr_ac97 := nr_ac97 g + 1\<rparr>, c\<lparr>mc_hw := codec_set 0x0a 0x8000 d\<rparr>))))"

definition ac97_install_full ::
  "'s ac97_env \<Rightarrow> 's ac97_devc mixer_env \<Rightarrow> nat \<Rightarrow> string \<Rightarrow> (int \<Rightarrow> 's \<Rightarrow> int \<times> 's) \<Rightarrow> (int \<Rightarrow> u16 \<Rightarrow> 's \<Rightarrow> int \<times> 's) \<Rightarrow> osdev \<Rightarrow>
   u32 \<Rightarrow> ac97_shared \<times> 's ac97_devc mixer_core \<Rightarrow> (int oss_result \<times> osdev \<times> ac97_shared \<times> 's ac97_devc mixer_core) option" where
  "ac97_install_full S E init host rd wr od flags gc =
     (case gc of (g, c) \<Rightarrow>
      case wake_up S flags (fresh_codec (spdif_flag (mc_hw c)) (ac_hw (mc_hw c)) rd wr) of
        (Inl e, d) \<Rightarrow> Some (Inl e, od, g, c\<lparr>mc_hw := d\<rparr>)
      | (Inr (tmp, tmp2), d) \<Rightarrow>
          let d = finish_detection (identify flags tmp tmp2 (detect d)) in
          if 100 \<le> length host + length (ac_name d) + 3 then None
          else
            case oss_install_mixer E 2 od (host @ '' ('' @ ac_name d @ '')'') (Some (ac97_mixer_driver S)) (c\<lparr>mc_hw := d\<rparr>) of
              (r, od, c) \<Rightarrow>
                Option.bind (case r of Inl e \<Rightarrow> Some (g, c)
                             | Inr num \<Rightarrow> enter_mixer (codec_key (push_bit 16 (ucast tmp) OR ucast tmp2)) num c g) (\<lambda>(g, c).
                if has_extensions S (mc_hw c)
                then map_option (\<lambda>(x, c). (r, od, g, c)) (mixer_ext_set_init_fn (ac_mixer (mc_hw c)) (Some init) 60 c)
                else Some (r, od, g, c)))"

definition ac97_install ::
  "'s ac97_env \<Rightarrow> 's ac97_devc mixer_env \<Rightarrow> nat \<Rightarrow> string \<Rightarrow> (int \<Rightarrow> 's \<Rightarrow> int \<times> 's) \<Rightarrow> (int \<Rightarrow> u16 \<Rightarrow> 's \<Rightarrow> int \<times> 's) \<Rightarrow> osdev \<Rightarrow>
   ac97_shared \<times> 's ac97_devc mixer_core \<Rightarrow> (int oss_result \<times> osdev \<times> ac97_shared \<times> 's ac97_devc mixer_core) option" where
  "ac97_install S E init host rd wr od gc = ac97_install_full S E init host rd wr od 0 gc"

definition ac97_init_ext ::
  "'s ac97_env \<Rightarrow> nat \<Rightarrow> int \<Rightarrow> nat option \<Rightarrow> int \<Rightarrow> 's ac97_devc mixer_core \<Rightarrow> (unit, 's ac97_devc) mixer_result" where
  "ac97_init_ext S init dev func nextra c =
     (if dev < 0 then Some (Inl OSS_EIO, c)
      else
        let nextra = (if has_extensions S (mc_hw c) then nextra + 50 else nextra);
            c = c\<lparr>mc_hw := (mc_hw c)\<lparr>client_mixer_init := func\<rparr>\<rparr>
        in mixer_ext_set_init_fn dev (Some init) nextra c)"

section \<open>Sampling rates\<close>

definition ac97_varrate :: "'s ac97_devc \<Rightarrow> bool \<times> 's ac97_devc" where
  "ac97_varrate d =
     (if ac_fixed_rate d \<or> \<not> is_ok d then (False, d)
      else case reg_bit 0x28 0x0001 d of (var, d) \<Rightarrow>
        let d = (if var then d\<lparr>var_rate_support := True\<rparr> else d) in (var_rate_support d, d))"

text \<open>A chain of comparisons, each of which reads the register.\<close>

fun reads_any :: "int \<Rightarrow> u16 list \<Rightarrow> 's ac97_devc \<Rightarrow> bool \<times> 's ac97_devc" where
  "reads_any reg [] d = (False, d)"
| "reads_any reg (v # vs) d = (case codec_read reg d of (w, d) \<Rightarrow> if w = v then (True, d) else reads_any reg vs d)"

definition is_analog_devices :: "u16 list \<Rightarrow> 's ac97_devc \<Rightarrow> bool \<times> 's ac97_devc" where
  "is_analog_devices vs d = (case reads_any 0x7c [0x4144] d of (ad, d) \<Rightarrow> if ad then reads_any 0x7e vs d else (False, d))"

text \<open>The two families of codecs with rate registers of their own.\<close>

definition rate_family :: "'s ac97_devc \<Rightarrow> nat \<times> 's ac97_devc" where
  "rate_family d =
     (case is_analog_devices [0x5303] d of (old, d) \<Rightarrow>
      if old then (1, d)
      else case is_analog_devices [0x5348, 0x5360, 0x5361, 0x5362] d of (new, d) \<Rightarrow> (if new then 2 else 0, d))"

definition ac97_playrate :: "int \<Rightarrow> 's ac97_devc \<Rightarrow> bool \<times> 's ac97_devc" where
  "ac97_playrate srate d =
     (if \<not> is_ok d then (False, d)
      else case rate_family d of (f, d) \<Rightarrow>
        (True,
         if f = 1 then codec_set 0x7A (word_of_int srate) (codec_set 0x76 0x0404 (codec_set 0x74 0x1901 d))
         else if f = 2 then codec_set 0x2c (word_of_int srate) (codec_change 0x2a (\<lambda>w. w OR 0x01) (codec_set 0x76 0x0404 d))
         else if playrate_support d = 2 then
           codec_change 0x2a (\<lambda>w. w OR 0x01) (codec_set 0x30 (word_of_int srate) (codec_set 0x2e (word_of_int srate) (codec_set 0x2c (word_of_int srate) d)))
         else codec_change 0x2a (\<lambda>w. w OR 0x01) (codec_set 0x2c (word_of_int srate) d)))"

definition ac97_recrate :: "int \<Rightarrow> 's ac97_devc \<Rightarrow> bool \<times> 's ac97_devc" where
  "ac97_recrate srate d =
     (if \<not> is_ok d then (False, d)
      else case rate_family d of (f, d) \<Rightarrow>
        (True,
         if f = 1 then codec_set 0x78 (word_of_int srate) (codec_set 0x76 0x0404 (codec_set 0x74 0x1901 d))
         else if f = 2 then codec_set 0x32 (word_of_int srate) (codec_change 0x2a (\<lambda>w. w OR 0x01) (codec_set 0x76 0x0404 d))
         else codec_change 0x2a (\<lambda>w. w OR 0x01) (codec_set 0x32 (word_of_int srate) d)))"

end
