(* ===== verification/Ac97_Ext.thy ===== *)
theory Ac97_Ext
  imports Ac97_Install Audio_Format
begin

text \<open>
  The extensions of AC97 codecs, \<open>kernel/framework/ac97/ac97_ext.inc\<close>: the controls of S/PDIF inputs and outputs and of
  the features of single chips, as functions of the mixer core's extension tree, and their creation.
\<close>

section \<open>Fields of registers\<close>

definition ext_bit :: "int \<Rightarrow> u16 \<Rightarrow> 's ac97_devc \<Rightarrow> int \<times> 's ac97_devc" where
  "ext_bit reg m d = (case codec_read reg d of (v, d) \<Rightarrow> (if v AND m \<noteq> 0 then 1 else 0, d))"

definition ext_field :: "int \<Rightarrow> u16 \<Rightarrow> nat \<Rightarrow> 's ac97_devc \<Rightarrow> int \<times> 's ac97_devc" where
  "ext_field reg m sh d = (case codec_read reg d of (v, d) \<Rightarrow> (uint (drop_bit sh (v AND m)), d))"

definition ext_switch :: "int \<Rightarrow> u16 \<Rightarrow> bool \<Rightarrow> 's ac97_devc \<Rightarrow> 's ac97_devc" where
  "ext_switch reg m on d = codec_change reg (\<lambda>w. if on then w OR m else w AND NOT m) d"

section \<open>S/PDIF input\<close>

definition spdifin_chip :: "('s ac97_devc \<Rightarrow> int \<times> 's ac97_devc) \<Rightarrow> ('s ac97_devc \<Rightarrow> int \<times> 's ac97_devc) \<Rightarrow> 's ac97_devc \<Rightarrow> int \<times> 's ac97_devc" where
  "spdifin_chip alc cmi d =
     (if spdifin_support d = ALC_SPDIFIN then alc d else if spdifin_support d = CMI_SPDIFIN then cmi d else (0, d))"

definition spdifin_read :: "int \<Rightarrow> 's ac97_devc \<Rightarrow> int \<times> 's ac97_devc" where
  "spdifin_read ctrl =
     (if ctrl = 1 then spdifin_chip (ext_bit 0x7A 0x8000) (ext_bit 0x6c 0x1)
      else if ctrl = 2 then spdifin_chip (ext_bit 0x60 0x1) (ext_bit 0x68 0x1)
      else if ctrl = 3 then spdifin_chip (ext_bit 0x60 0x2) (ext_bit 0x68 0x1)
      else if ctrl = 4 then spdifin_chip (ext_bit 0x60 0x4) (ext_bit 0x68 0x4)
      else if ctrl = 5 then spdifin_chip (ext_field 0x60 0x38 3) (ext_field 0x68 0x38 3)
      else if ctrl = 6 then spdifin_chip (ext_bit 0x60 0xc0) (ext_bit 0x68 0xc0)
      else if ctrl = 7 then spdifin_chip (ext_field 0x60 0x7f00 8) (ext_field 0x68 0x7f00 8)
      else if ctrl = 8 then spdifin_chip (ext_bit 0x60 0x8000) (ext_bit 0x68 0x8000)
      else if ctrl = 9 then spdifin_chip (ext_field 0x62 0xf 0) (ext_field 0x6a 0xf 0)
      else if ctrl = 10 then spdifin_chip (ext_field 0x62 0xf0 4) (ext_field 0x6a 0xf0 4)
      else if ctrl = 11 then
        (\<lambda>d. case spdifin_chip (ext_field 0x62 0xf00 8) (ext_field 0x6a 0xf00 8) d of (v, d) \<Rightarrow>
               (if v = 0 then 44100 else if v = 2 then 48000 else if v = 3 then 32000 else v, d))
      else if ctrl = 12 then spdifin_chip (ext_field 0x62 0x3000 12) (ext_field 0x6a 0x3000 12)
      else if ctrl = 13 then spdifin_chip (ext_bit 0x62 0x4000) (Pair 0)
      else if ctrl = 14 then spdifin_chip (ext_bit 0x62 0x8000) (Pair 0)
      else if ctrl = 15 then spdifin_chip (ext_bit 0x6A 0x2000) (ext_bit 0x6c 0x8)
      else Pair 0)"

definition spdifin_write :: "int \<Rightarrow> bool \<Rightarrow> 's ac97_devc \<Rightarrow> 's ac97_devc" where
  "spdifin_write ctrl on d =
     (if ctrl = 1 then
        (if spdifin_support d = ALC_SPDIFIN then ext_switch 0x6a 0x8000 on (ext_switch 0x7a 0x2 on d)
         else if spdifin_support d = CMI_SPDIFIN then ext_switch 0x6c 0x10 on (ext_switch 0x6c 0x1 on d) else d)
      else if ctrl = 15 then
        (if spdifin_support d = ALC_SPDIFIN then ext_switch 0x6a 0x2000 on d
         else if spdifin_support d = CMI_SPDIFIN then ext_switch 0x6c 0x8 on d else d)
      else d)"

definition ac97_spdifin_ctl :: "int \<Rightarrow> mix_ioctl \<Rightarrow> int \<Rightarrow> 's ac97_devc \<Rightarrow> int \<times> 's ac97_devc" where
  "ac97_spdifin_ctl ctrl cmd v d =
     (if cmd = MIX_READ then spdifin_read ctrl d
      else if cmd = MIX_WRITE then (v, spdifin_write ctrl (v \<noteq> 0) d) else (v, d))"

section \<open>S/PDIF output\<close>

text \<open>Three groups of chips keep the control of the S/PDIF output in different registers. The last one is that of AC97 2.2.\<close>

definition standard_spdif :: "'s ac97_devc \<Rightarrow> bool" where
  "standard_spdif d \<longleftrightarrow>
     spdifout_support d \<in> {AD_SPDIFOUT, ALC_SPDIFOUT, VIA_SPDIFOUT, STAC_SPDIFOUT, CMI_SPDIFOUT, YMF_SPDIFOUT}"

definition ac97_enable_spdif :: "'s ac97_devc \<Rightarrow> 's ac97_devc" where
  "ac97_enable_spdif d =
     (if spdifout_support d = CS_SPDIFOUT then codec_change 0x68 (\<lambda>w. w OR 0x8000) d
      else if spdifout_support d = CX_SPDIFOUT then codec_change 0x5c (\<lambda>w. w OR 0x08) d
      else if standard_spdif d then codec_change 0x2a (\<lambda>w. w AND 0xffc3 OR 0x4 OR spdif_slot d) d
      else d)"

definition ac97_disable_spdif :: "'s ac97_devc \<Rightarrow> 's ac97_devc" where
  "ac97_disable_spdif d =
     (if spdifout_support d = CS_SPDIFOUT then codec_change 0x68 (\<lambda>w. w AND NOT 0x8000) d
      else if standard_spdif d then codec_change 0x2a (\<lambda>w. w AND 0xffc3 AND NOT 0x4) d
      else if spdifout_support d = CX_SPDIFOUT then codec_change 0x5c (\<lambda>w. w AND NOT 0x8) d
      else d)"

text \<open>The bits of the switches: the register and the bit, for the chips that have it.\<close>

definition spdifout_bit :: "int \<Rightarrow> 's ac97_devc \<Rightarrow> (int \<times> u16) option" where
  "spdifout_bit ctrl d =
     (if ctrl \<in> {2, 3, 4} then
        let b = (if ctrl = 2 then 0x1 else if ctrl = 3 then 0x2 else 0x4) in
        (if spdifout_support d = CS_SPDIFOUT then Some (0x68, b)
         else if spdifout_support d = CX_SPDIFOUT then Some (0x5c, b)
         else if standard_spdif d then Some (0x3a, b) else None)
      else if ctrl = 5 then
        (if spdifout_support d = CS_SPDIFOUT then Some (0x68, 0x8) else if standard_spdif d then Some (0x3a, 0x8) else None)
      else if ctrl = 9 then
        (if spdifout_support d = CS_SPDIFOUT then Some (0x68, 0x4000) else if standard_spdif d then Some (0x3a, 0x8000) else None)
      else None)"

text \<open>Analog input to the S/PDIF output; the bit of CMI's chips is written but not read.\<close>

definition spdifout_adc :: "bool \<Rightarrow> 's ac97_devc \<Rightarrow> (int \<times> u16) option" where
  "spdifout_adc reading d =
     (if spdifout_support d = ALC_SPDIFOUT then Some (0x6a, 0x1000)
      else if spdifout_support d = AD_SPDIFOUT then Some (0x74, 0x4)
      else if spdifout_support d = CS_SPDIFOUT then Some (0x5e, 0x800)
      else if spdifout_support d = STAC_SPDIFOUT then Some (0x6a, 0x2)
      else if spdifout_support d = CMI_SPDIFOUT \<and> \<not> reading then Some (0x6c, 0x2)
      else if spdifout_support d = YMF_SPDIFOUT then Some (0x66, 0x2) else None)"

definition spdifout_read :: "int \<Rightarrow> 's ac97_devc \<Rightarrow> int \<times> 's ac97_devc" where
  "spdifout_read ctrl d =
     (if ctrl = 1 then
        (if spdifout_support d = CS_SPDIFOUT then ext_bit 0x68 0x8000 d
         else if spdifout_support d = CX_SPDIFOUT then ext_bit 0x5c 0x08 d
         else if standard_spdif d then ext_bit 0x2a 0x4 d else (0, d))
      else if ctrl = 8 then
        (if spdifout_support d = CS_SPDIFOUT then
           (case codec_read 0x68 d of (v, d) \<Rightarrow> (if v AND 0x1000 = 0x1000 then 0 else 1, d))
         else if standard_spdif d then
           (case codec_read 0x3a d of (v, d) \<Rightarrow>
              (let t = v AND 0x3000 in if t = 0x2000 then 0 else if t = 0 then 1 else if t = 0x3000 then 2 else 0, d))
         else (0, d))
      else case (if ctrl = 10 then spdifout_adc True d else spdifout_bit ctrl d) of
             Some (reg, b) \<Rightarrow> ext_bit reg b d | None \<Rightarrow> (0, d))"

definition spdifout_rate :: "int \<Rightarrow> 's ac97_devc \<Rightarrow> 's ac97_devc" where
  "spdifout_rate v d =
     (if spdifout_support d = CS_SPDIFOUT then
        (if v = 0 then codec_change 0x68 (\<lambda>w. w AND 0xEFFF OR 0x1000) d
         else if v = 1 then codec_change 0x68 (\<lambda>w. w AND 0xEFFF) d else d)
      else if standard_spdif d then
        (if v = 0 then codec_change 0x3a (\<lambda>w. w AND 0xcfff OR 0x2000) d
         else if v = 1 then codec_change 0x3a (\<lambda>w. w AND 0xcfff) d
         else if v = 2 then codec_change 0x3a (\<lambda>w. w AND 0xcfff OR 0x3000) d else d)
      else d)"

definition spdifout_write :: "int \<Rightarrow> int \<Rightarrow> 's ac97_devc \<Rightarrow> 's ac97_devc" where
  "spdifout_write ctrl v d =
     (if ctrl = 1 then
        (if v \<noteq> 0 then (ac97_enable_spdif d)\<lparr>spdif_flag := True\<rparr> else (ac97_disable_spdif d)\<lparr>spdif_flag := False\<rparr>)
      else if ctrl = 8 then spdifout_rate v d
      else case (if ctrl = 10 then spdifout_adc False d else spdifout_bit ctrl d) of
             Some (reg, b) \<Rightarrow> ext_switch reg b (v \<noteq> 0) d | None \<Rightarrow> d)"

text \<open>The output is off while it is changed.\<close>

definition ac97_spdifout_ctl :: "int \<Rightarrow> mix_ioctl \<Rightarrow> int \<Rightarrow> 's ac97_devc \<Rightarrow> int \<times> 's ac97_devc" where
  "ac97_spdifout_ctl ctrl cmd v d =
     (if cmd = MIX_READ then spdifout_read ctrl d
      else if cmd = MIX_WRITE then
        (let d = spdifout_write ctrl v (ac97_disable_spdif d) in (v, if spdif_flag d then ac97_enable_spdif d else d))
      else (v, d))"

definition spdif_setup :: "int \<Rightarrow> u32 \<Rightarrow> 's ac97_devc \<Rightarrow> 's ac97_devc" where
  "spdif_setup speed bits d =
     (case ac97_spdifout_ctl 8 MIX_READ 0 d of (v, d) \<Rightarrow>
      let rate = (\<lambda>k d. if v \<noteq> k then snd (ac97_spdifout_ctl 8 MIX_WRITE k d) else d);
          d = (if speed = 48000 then rate 0 d else if speed = 44100 then rate 1 d else if speed = 32000 then rate 2 d else d)
      in snd (ac97_spdifout_ctl 3 MIX_WRITE (if bits = AFMT_AC3 then 1 else 0) d))"

text \<open>The counter of the mixer is advanced as well.\<close>

definition ac97_spdif_setup :: "int \<Rightarrow> int \<Rightarrow> u32 \<Rightarrow> 's ac97_devc mixer_core \<Rightarrow> 's ac97_devc mixer_core option" where
  "ac97_spdif_setup dev speed bits c =
     map_option (\<lambda>m. (put_mixer dev (m\<lparr>mx_modify_counter := mx_modify_counter m + 1\<rparr>) c)\<lparr>mc_hw := spdif_setup speed bits (mc_hw c)\<rparr>)
       (mixer_at c dev)"

section \<open>Features of single chips\<close>

definition mixext_read :: "int \<Rightarrow> 's ac97_devc \<Rightarrow> int \<times> 's ac97_devc" where
  "mixext_read ctrl d =
     (let x = mixer_ext d in
      if ctrl = 1 then (extmixlevels d ! 0, d)
      else if ctrl = 2 then (extmixlevels d ! 1, d)
      else if ctrl = 3 then (extmixlevels d ! 2, d)
      else if ctrl = 5 then
        (if x = ALC650_MIXER_EXT then ext_bit 0x6A 0x200 d
         else if x = CMI9739_MIXER_EXT then ext_bit 0x64 0x400 d
         else if x = STAC9758_MIXER_EXT then ext_bit 0x64 0x50 d
         else if x = AD1980_MIXER_EXT then (case ext_bit 0x76 0x800 d of (v, d) \<Rightarrow> (1 - v, d)) else (0, d))
      else if ctrl = 4 then
        (if x = ALC650_MIXER_EXT then ext_bit 0x6A 0x400 d
         else if x = CMI9739_MIXER_EXT then ext_bit 0x64 0x1000 d
         else if x = STAC9758_MIXER_EXT then ext_bit 0x64 0x0C d
         else if x = AD1980_MIXER_EXT then (case ext_bit 0x76 0x1000 d of (v, d) \<Rightarrow> (1 - v, d)) else (0, d))
      else if ctrl = 6 then
        (if x = ALC650_MIXER_EXT then ext_bit 0x6A 0x1 d
         else if x = AD1980_MIXER_EXT then ext_bit 0x76 0x80 d
         else if x = VIA1616_MIXER_EXT then ext_bit 0x5a 0x8000 d else (0, d))
      else if ctrl = 7 then
        (if x = AD1980_MIXER_EXT then ext_bit 0x76 0x2 d
         else if x = CMI9739_MIXER_EXT then ext_bit 0x64 0x1 d else (0, d))
      else if ctrl = 9 then
        (if x = ALC650_MIXER_EXT then ext_bit 0x6A 0x4 d
         else if x = AD1980_MIXER_EXT then ext_bit 0x76 0x100 d
         else if x = VIA1616_MIXER_EXT then ext_bit 0x5a 0x1000 d else (0, d))
      else if ctrl = 10 then
        (if x = ALC650_MIXER_EXT then ext_bit 0x6A 0x2 d
         else if x = VIA1616_MIXER_EXT then ext_bit 0x5a 0x800 d else (0, d))
      else (0, d))"

text \<open>The volumes of the speakers: the register of the chip that has one is written.\<close>

definition ext_volume :: "int \<Rightarrow> int \<Rightarrow> 's ac97_devc \<Rightarrow> (int \<times> 's ac97_devc) option" where
  "ext_volume ctrl v d =
     (let left = min 100 (v AND 0xff); right = min 100 (drop_bit 8 v AND 0xff); v = left OR push_bit 8 right;
          kept = (\<lambda>d. (v, d\<lparr>extmixlevels := (extmixlevels d)[nat (ctrl - 1) := v]\<rparr>)) in
      map_option kept
        (if ctrl = 1 \<and> mixer_ext d = ALC650_MIXER_EXT then write_scaled 0x66 left right (centervol_bits d) d
         else if ctrl = 2 \<and> mixer_ext d = ALC650_MIXER_EXT then write_scaled 0x64 left right (rearvol_bits d) d
         else if ctrl = 3 \<and> mixer_ext d = CMI9780_MIXER_EXT then write_scaled 0x60 left right (sidevol_bits d) d
         else Some d))"

definition mixext_switch :: "int \<Rightarrow> bool \<Rightarrow> 's ac97_devc \<Rightarrow> 's ac97_devc" where
  "mixext_switch ctrl on d =
     (let x = mixer_ext d; cmi = (x = CMI9739_MIXER_EXT \<or> x = CMI9780_MIXER_EXT) in
      if ctrl = 5 then
        (if x = ALC650_MIXER_EXT then ext_switch 0x6a 0x200 on d
         else if cmi then ext_switch 0x64 0x400 on d
         else if x = STAC9758_MIXER_EXT then ext_switch 0x64 0x50 on d
         else if x = AD1980_MIXER_EXT then ext_switch 0x76 0x800 (\<not> on) d else d)
      else if ctrl = 4 then
        (if x = ALC650_MIXER_EXT then ext_switch 0x6a 0x400 on d
         else if cmi then ext_switch 0x64 0x1000 on d
         else if x = STAC9758_MIXER_EXT then ext_switch 0x64 0xC on d
         else if x = AD1980_MIXER_EXT then ext_switch 0x76 0x1000 (\<not> on) d else d)
      else if ctrl = 6 then
        (if x = ALC650_MIXER_EXT then ext_switch 0x6a 0x1 on (ext_switch 0x6a 0x200 on d)
         else if x = AD1980_MIXER_EXT then ext_switch 0x76 0x80 on d
         else if x = VIA1616_MIXER_EXT then ext_switch 0x5a 0x8000 on d else d)
      else if ctrl = 7 then
        (if x = AD1980_MIXER_EXT then ext_switch 0x76 0x2 on d else if cmi then ext_switch 0x64 0x1 on d else d)
      else if ctrl = 9 then
        (if x = ALC650_MIXER_EXT then ext_switch 0x6a 0x4 on d
         else if x = AD1980_MIXER_EXT then ext_switch 0x76 0x300 on d
         else if x = VIA1616_MIXER_EXT then ext_switch 0x5a 0x1000 on d else d)
      else if ctrl = 10 then
        (if x = ALC650_MIXER_EXT then ext_switch 0x6a 0x2 on d
         else if x = VIA1616_MIXER_EXT then ext_switch 0x5a 0x800 on d else d)
      else d)"

definition ac97_mixext_ctl :: "int \<Rightarrow> mix_ioctl \<Rightarrow> int \<Rightarrow> 's ac97_devc \<Rightarrow> (int \<times> 's ac97_devc) option" where
  "ac97_mixext_ctl ctrl cmd v d =
     (if cmd = MIX_READ then Some (mixext_read ctrl d)
      else if cmd = MIX_WRITE then
        (if 1 \<le> ctrl \<and> ctrl \<le> 3 then ext_volume ctrl v d else Some (v, mixext_switch ctrl (v \<noteq> 0) d))
      else Some (v, d))"

definition ac97_micboost_ctl :: "mix_ioctl \<Rightarrow> int \<Rightarrow> 's ac97_devc \<Rightarrow> int oss_result \<times> 's ac97_devc" where
  "ac97_micboost_ctl cmd v d =
     (if cmd = MIX_READ then (Inr (if micboost d \<noteq> 0 then 1 else 0), d)
      else if cmd = MIX_WRITE then (Inr (if v \<noteq> 0 then 1 else 0), set_micboost (v \<noteq> 0) d)
      else (Inl OSS_EINVAL, d))"

definition ac97_recselect_ctl :: "int \<Rightarrow> mix_ioctl \<Rightarrow> int \<Rightarrow> 's ac97_devc \<Rightarrow> int oss_result \<times> 's ac97_devc" where
  "ac97_recselect_ctl ctrl cmd v d =
     (if ctrl < 0 \<or> 1 < ctrl then (Inl OSS_EINVAL, d)
      else case codec_read 0x1a d of (w, d) \<Rightarrow>
        let sh = nat ctrl * 8 in
        if cmd = MIX_READ then (Inr (uint (drop_bit sh w AND 0x07)), d)
        else if cmd = MIX_WRITE then
          (if v < 0 \<or> 7 < v then (Inl OSS_EINVAL, d)
           else (Inr v, codec_set 0x1a (w AND NOT (push_bit sh 0x7) OR push_bit sh (word_of_int v)) d))
        else (Inl OSS_EINVAL, d))"

section \<open>The functions as the mixer core calls them\<close>

text \<open>The numbers of the functions in the environment of the mixer core.\<close>

abbreviation (input) SPDIFIN_CTL :: nat where "SPDIFIN_CTL \<equiv> 1"
abbreviation (input) SPDIFOUT_CTL :: nat where "SPDIFOUT_CTL \<equiv> 2"
abbreviation (input) MIXEXT_CTL :: nat where "MIXEXT_CTL \<equiv> 3"
abbreviation (input) MICBOOST_CTL :: nat where "MICBOOST_CTL \<equiv> 4"
abbreviation (input) RECSELECT_CTL :: nat where "RECSELECT_CTL \<equiv> 5"

definition ext_function :: "nat \<Rightarrow> int \<Rightarrow> mix_ioctl \<Rightarrow> int \<Rightarrow> 's ac97_devc \<Rightarrow> (int oss_result \<times> 's ac97_devc) option" where
  "ext_function k ctrl cmd v d =
     (if k = SPDIFIN_CTL then Some (map_prod Inr id (ac97_spdifin_ctl ctrl cmd v d))
      else if k = SPDIFOUT_CTL then Some (map_prod Inr id (ac97_spdifout_ctl ctrl cmd v d))
      else if k = MIXEXT_CTL then map_option (map_prod Inr id) (ac97_mixext_ctl ctrl cmd v d)
      else if k = MICBOOST_CTL then Some (ac97_micboost_ctl cmd v d)
      else Some (ac97_recselect_ctl ctrl cmd v d))"

definition on_codec ::
  "int \<Rightarrow> ('s ac97_devc \<Rightarrow> (int oss_result \<times> 's ac97_devc) option) \<Rightarrow> 's ac97_devc mixer_core \<Rightarrow> (int, 's ac97_devc) mixer_result" where
  "on_codec dev f c =
     Option.bind (mixer_at c dev) (\<lambda>m. map_option (\<lambda>(r, d). (r, c\<lparr>mc_hw := d\<rparr>)) (f (mc_hw c)))"

section \<open>Creation of the controls\<close>

text \<open>A step of an initialization: an error ends it.\<close>

definition if_ok ::
  "(int, 'h) mixer_result \<Rightarrow> (int \<Rightarrow> 'h mixer_core \<Rightarrow> (int, 'h) mixer_result) \<Rightarrow> (int, 'h) mixer_result" where
  "if_ok r f = Option.bind r (\<lambda>(x, c). case x of Inl e \<Rightarrow> Some (Inl e, c) | Inr v \<Rightarrow> f v c)"

definition READ_WRITE :: u32 where "READ_WRITE = MIXF_READABLE OR MIXF_WRITEABLE"

fun add_controls ::
  "int \<Rightarrow> int \<Rightarrow> nat \<Rightarrow> (int \<times> mixt \<times> string \<times> int \<times> u32) list \<Rightarrow> 'h mixer_core \<Rightarrow> (int, 'h) mixer_result" where
  "add_controls dev grp k [] c = Some (Inr 0, c)"
| "add_controls dev grp k ((ctrl, t, name, mx, fl) # cs) c =
     if_ok (on_mixer dev (mixer_ext_create_control dev grp ctrl (Some (Driver_Fn k)) t name mx fl) c)
       (\<lambda>i. add_controls dev grp k cs)"

definition add_group :: "int \<Rightarrow> string \<Rightarrow> u32 \<Rightarrow> 'h mixer_core \<Rightarrow> (int, 'h) mixer_result" where
  "add_group dev name fl = on_mixer dev (mixer_ext_create_group_flags dev 0 name fl)"

definition spdifin_ext_init :: "int \<Rightarrow> 'h mixer_core \<Rightarrow> (int, 'h) mixer_result" where
  "spdifin_ext_init dev c =
     if_ok (add_group dev ''SPDIN'' MIXF_FLAT c) (\<lambda>grp. add_controls dev grp SPDIFIN_CTL
       [(1, MIXT_ONOFF, ''SPDIN_Enable'', 1, READ_WRITE), (15, MIXT_ONOFF, ''SPDIN_Monitor'', 1, READ_WRITE),
        (2, MIXT_VALUE, ''SPDIN_Pro'', 1, MIXF_READABLE), (3, MIXT_VALUE, ''SPDIN_Audio'', 1, MIXF_READABLE),
        (4, MIXT_VALUE, ''SPDIN_Copy'', 1, MIXF_READABLE), (5, MIXT_VALUE, ''SPDIN_Pre-emph'', 1, MIXF_READABLE),
        (6, MIXT_VALUE, ''SPDIN_Mode'', 1, MIXF_READABLE), (7, MIXT_VALUE, ''SPDIN_CATEGORY'', 1, MIXF_READABLE),
        (8, MIXT_VALUE, ''SPDIN_GenLevel'', 1, MIXF_READABLE), (9, MIXT_VALUE, ''SPDIN_Source'', 1, MIXF_READABLE),
        (10, MIXT_VALUE, ''SPDIN_Channel'', 1, MIXF_READABLE), (11, MIXT_VALUE, ''SPDIN_Rate'', 1, MIXF_READABLE),
        (12, MIXT_VALUE, ''SPDIN_Clock'', 1, MIXF_READABLE), (13, MIXT_VALUE, ''SPDIN_Signal'', 1, MIXF_READABLE),
        (14, MIXT_VALUE, ''SPDIN_VBit'', 1, MIXF_READABLE)])"

definition spdifout_ext_init :: "int \<Rightarrow> 'h mixer_core \<Rightarrow> (int, 'h) mixer_result" where
  "spdifout_ext_init dev c =
     if_ok (add_group dev ''SPDOUT'' MIXF_FLAT c) (\<lambda>grp. add_controls dev grp SPDIFOUT_CTL
       [(1, MIXT_ONOFF, ''SPDOUT_ENABLE'', 1, READ_WRITE), (10, MIXT_ONOFF, ''SPDOUT_ADC/DAC'', 1, READ_WRITE),
        (2, MIXT_ENUM, ''SPDOUT_Pro'', 2, READ_WRITE), (3, MIXT_ENUM, ''SPDOUT_Audio'', 2, READ_WRITE),
        (4, MIXT_ONOFF, ''SPDOUT_Copy'', 1, READ_WRITE), (5, MIXT_ONOFF, ''SPDOUT_Pre-emph'', 1, READ_WRITE),
        (8, MIXT_ENUM, ''SPDOUT_Rate'', 3, READ_WRITE), (9, MIXT_ONOFF, ''SPDOUT_VBit'', 1, READ_WRITE)])"

text \<open>The selectors of the recording source with \<open>ac97_recselect\<close>; the result of naming the choices is not looked at.\<close>

definition RECSEL_NAMES :: string where "RECSEL_NAMES = ''MIC CD VIDEO AUX LINE STEREOMIX MONOMIX PHONE''"

definition add_selector ::
  "'s ac97_devc mixer_env \<Rightarrow> int \<Rightarrow> int \<Rightarrow> int \<Rightarrow> string \<Rightarrow> 's ac97_devc mixer_core \<Rightarrow> (int, 's ac97_devc) mixer_result" where
  "add_selector E dev grp ctrl name c =
     if_ok (on_mixer dev (mixer_ext_create_control dev grp ctrl (Some (Driver_Fn RECSELECT_CTL)) MIXT_ENUM name 8 READ_WRITE) c)
       (\<lambda>ctl c. map_option (\<lambda>(r, c). (Inr ctl, c)) (mixer_ext_set_strings E dev ctl RECSEL_NAMES 0 c))"

definition add_selectors ::
  "'s ac97_devc mixer_env \<Rightarrow> int \<Rightarrow> 's ac97_devc mixer_core \<Rightarrow> (int, 's ac97_devc) mixer_result" where
  "add_selectors E dev c =
     if_ok (add_group dev ''AC97_RECSEL'' MIXF_FLAT c) (\<lambda>grp c.
       if_ok (add_selector E dev grp 1 ''LEFT'' c) (\<lambda>i. add_selector E dev grp 0 ''RIGHT''))"

definition add_volume :: "int \<Rightarrow> int \<Rightarrow> int \<Rightarrow> string \<Rightarrow> 's ac97_devc mixer_core \<Rightarrow> (int, 's ac97_devc) mixer_result" where
  "add_volume dev grp ctrl name c =
     if_ok (add_controls dev grp MIXEXT_CTL [(ctrl, MIXT_STEREOSLIDER, name, 100, READ_WRITE)] c)
       (\<lambda>i. on_codec dev (\<lambda>d. map_option (map_prod Inr id) (ac97_mixext_ctl ctrl MIX_WRITE 0x6464 d)))"

definition chip_switches :: "nat \<Rightarrow> (int \<times> mixt \<times> string \<times> int \<times> u32) list" where
  "chip_switches x =
     (if x \<in> {CMI9739_MIXER_EXT, CMI9780_MIXER_EXT, ALC650_MIXER_EXT, AD1980_MIXER_EXT, STAC9758_MIXER_EXT}
      then [(5, MIXT_ONOFF, ''REAR2LINEJACK'', 1, READ_WRITE)] else []) @
     (if x \<in> {CMI9739_MIXER_EXT, CMI9780_MIXER_EXT, ALC650_MIXER_EXT, AD1980_MIXER_EXT, STAC9758_MIXER_EXT}
      then [(4, MIXT_ONOFF, ''CENTER2MICJACK'', 1, READ_WRITE)] else []) @
     (if x \<in> {AD1980_MIXER_EXT, VIA1616_MIXER_EXT, ALC650_MIXER_EXT} then [(6, MIXT_ENUM, ''SPKMODE'', 2, READ_WRITE)] else []) @
     (if x \<in> {AD1980_MIXER_EXT, VIA1616_MIXER_EXT, ALC650_MIXER_EXT} then [(9, MIXT_ONOFF, ''MIX-LFE2FRONT'', 1, READ_WRITE)] else []) @
     (if x \<in> {VIA1616_MIXER_EXT, ALC650_MIXER_EXT} then [(10, MIXT_ONOFF, ''MIX-REAR2FRONT'', 1, READ_WRITE)] else []) @
     (if x \<in> {AD1980_MIXER_EXT, CMI9739_MIXER_EXT, CMI9780_MIXER_EXT} then [(7, MIXT_ONOFF, ''MICBOOST'', 1, READ_WRITE)] else [])"

definition ac97_mixext_init ::
  "'s ac97_env \<Rightarrow> 's ac97_devc mixer_env \<Rightarrow> int \<Rightarrow> 's ac97_devc mixer_core \<Rightarrow> (int, 's ac97_devc) mixer_result" where
  "ac97_mixext_init S E dev c =
     (let x = mixer_ext (mc_hw c) in
      if_ok (add_controls dev 0 MICBOOST_CTL [(0, MIXT_ONOFF, ''micboost'', 1, READ_WRITE)] c) (\<lambda>i c.
      if_ok (if ac97_recselect S then add_selectors E dev c else Some (Inr 0, c)) (\<lambda>i c.
      if_ok (add_group dev ''AC97_MIXEXT'' (if x \<noteq> ALC650_MIXER_EXT then MIXF_FLAT else 0) c) (\<lambda>grp c.
      if_ok (if x = ALC650_MIXER_EXT \<or> x = CMI9780_MIXER_EXT
             then if_ok (add_volume dev grp 1 ''CENTERVOL'' c) (\<lambda>i c.
                  if_ok (add_volume dev grp 2 ''REARVOL'' c) (\<lambda>i c.
                  add_volume dev grp 3 ''SIDEVOL'' c))
             else Some (Inr 0, c)) (\<lambda>i c.
      add_controls dev grp MIXEXT_CTL (chip_switches x) c)))))"

definition ac97mixer_ext_init ::
  "'s ac97_env \<Rightarrow> 's ac97_devc mixer_env \<Rightarrow> int \<Rightarrow> 's ac97_devc mixer_core \<Rightarrow> (int, 's ac97_devc) mixer_result" where
  "ac97mixer_ext_init S E dev c =
     if_ok (case client_mixer_init (mc_hw c) of None \<Rightarrow> Some (Inr 0, c) | Some f \<Rightarrow> ac_client S f dev c) (\<lambda>i c.
     if_ok (if 0 < mixer_ext (mc_hw c) \<or> ac97_recselect S then ac97_mixext_init S E dev c else Some (Inr 0, c)) (\<lambda>i c.
     if_ok (if spdifout_support (mc_hw c) \<noteq> 0 then spdifout_ext_init dev c else Some (Inr 0, c)) (\<lambda>i c.
     if_ok (if spdifin_support (mc_hw c) \<noteq> 0 then spdifin_ext_init dev c else Some (Inr 0, c)) (\<lambda>i c.
     Some (Inr 0, c)))))"

text \<open>The environment of a mixer core whose hardware is the codec: its functions have the numbers above, and its
  initialization the number \<open>init\<close>.\<close>

definition codec_env :: "'s ac97_env \<Rightarrow> nat \<Rightarrow> 's ac97_devc mixer_env \<Rightarrow> 's ac97_devc mixer_env" where
  "codec_env S init E =
     E\<lparr>me_handler := (\<lambda>k dev ctrl cmd v c.
          if 1 \<le> k \<and> k \<le> RECSELECT_CTL then on_codec dev (ext_function k ctrl cmd v) c else me_handler E k dev ctrl cmd v c),
        me_create := (\<lambda>k dev c. if k = init then map_option snd (ac97mixer_ext_init S E dev c) else me_create E k dev c)\<rparr>"

end
