(* ===== verification/Ac97_Laws.thy ===== *)
theory Ac97_Laws
  imports Ac97_Ext Mixer_Laws
begin

text \<open>
  What the AC97 driver promises: volumes become attenuations that fit the registers of the codec, the registers
  follow the levels and the selected source over any calls, and no call leaves an array.
\<close>

section \<open>Attenuation\<close>

lemma cvt_values: "list_all (\<lambda>v. 0 \<le> v \<and> v \<le> 100) mix_cvt" "length mix_cvt = 101" "sorted mix_cvt"
  by code_simp+

lemma cvt_range: "0 \<le> i \<Longrightarrow> i \<le> 100 \<Longrightarrow> \<exists>v. cvt_at i = Some v \<and> 0 \<le> v \<and> v \<le> 100"
  using cvt_values(1,2) by (auto simp: cvt_at_def list_all_length)

lemma cvt_mono: "cvt_at i = Some v \<Longrightarrow> cvt_at j = Some w \<Longrightarrow> i \<le> j \<Longrightarrow> v \<le> w"
  using sorted_nth_mono [OF cvt_values(3)] cvt_values(2) by (auto simp: cvt_at_def split: if_splits)

text \<open>The attenuation of one channel, and the two fields of a register.\<close>

definition attenuation :: "nat \<Rightarrow> int \<Rightarrow> int" where
  "attenuation bits v = (100 - mix_cvt ! nat v) * (2 ^ bits - 1) div 100"

definition percent :: "int \<Rightarrow> bool" where "percent v \<longleftrightarrow> 0 \<le> v \<and> v \<le> 100"

definition volume_field :: "nat \<Rightarrow> u16 \<Rightarrow> int" where
  "volume_field sh w = uint (drop_bit sh w AND 0x3f)"

lemma scaled: assumes "percent l" and "percent r" shows "\<exists>v. mix_scale l r bits = Some v"
proof -
  have "\<exists>c. cvt_at (if b then 100 - i else i) = Some c" if "percent i" for b i
    using that by (simp add: cvt_at_def percent_def)
  then obtain c c' where "cvt_at (if bits < 0 then 100 - l else l) = Some c" "cvt_at (if bits < 0 then 100 - r else r) = Some c'"
    using assms by metis
  then show ?thesis by (simp add: mix_scale_def Let_def)
qed

lemma attenuation_range:
  assumes "percent v" shows "0 \<le> attenuation bits v" "attenuation bits v < 2 ^ bits"
proof -
  obtain c where c: "mix_cvt ! nat v = c" "0 \<le> c" "c \<le> 100"
    using cvt_range [of v] assms by (auto simp: percent_def cvt_at_def)
  have p: "(0::int) \<le> 2 ^ bits - 1" by simp
  then show "0 \<le> attenuation bits v" using c by (simp add: attenuation_def pos_imp_zdiv_nonneg_iff)
  have "(100 - c) * (2 ^ bits - 1) \<le> 100 * (2 ^ bits - 1)" using c p by (intro mult_right_mono) simp_all
  then have "(100 - c) * (2 ^ bits - 1) div 100 \<le> 100 * (2 ^ bits - 1) div 100" by (intro zdiv_mono1) simp_all
  also have "100 * (2 ^ bits - 1) div 100 = (2 ^ bits - 1 :: int)" by simp
  finally show "attenuation bits v < 2 ^ bits" using c(1) by (simp add: attenuation_def)
qed

lemma attenuation_mono:
  assumes "percent v" and "percent w" and "v \<le> w" shows "attenuation bits w \<le> attenuation bits v"
proof -
  have "mix_cvt ! nat v \<le> mix_cvt ! nat w"
    by (rule cvt_mono [of v _ w]) (use assms in \<open>simp_all add: cvt_at_def percent_def\<close>)
  then have "(100 - mix_cvt ! nat w) * (2 ^ bits - 1) \<le> (100 - mix_cvt ! nat v) * (2 ^ bits - 1)" by (intro mult_right_mono) simp_all
  then show ?thesis unfolding attenuation_def by (intro zdiv_mono1) simp_all
qed

lemma scale_percent:
  assumes "percent l" and "percent r"
  shows "mix_scale l r (int bits) =
     Some ((if l = 0 \<and> r = 0 then 0x8000 else 0) OR push_bit 8 (attenuation bits l) OR attenuation bits r)"
proof -
  have c: "cvt_at l = Some (mix_cvt ! nat l)" "cvt_at r = Some (mix_cvt ! nat r)"
    using assms by (simp_all add: cvt_at_def percent_def)
  have z: "l OR r = 0 \<longleftrightarrow> l = 0 \<and> r = 0" by (rule or_eq_0_iff)
  show ?thesis by (simp add: mix_scale_def c attenuation_def z del: push_bit_eq_mult)
qed

text \<open>The fields are apart.\<close>

lemma fields_apart:
  fixes a b m :: int
  assumes a: "0 \<le> a" "a < 64" and b: "0 \<le> b" "b < 64" and m: "m = 0 \<or> m = 0x8000"
  defines "v \<equiv> m OR push_bit 8 a OR b"
  shows "uint (word_of_int v :: u16) = v" "volume_field 8 (word_of_int v) = a" "volume_field 0 (word_of_int v) = b"
    "bit (word_of_int v :: u16) 15 \<longleftrightarrow> m \<noteq> 0"
proof -
  have t: "take_bit 6 a = a" "take_bit 6 b = b" using a b by (simp_all add: take_bit_int_eq_self)
  then have t16: "take_bit 16 b = b" "take_bit 8 a = a" "drop_bit 8 b = 0"
    using a b by (simp_all add: take_bit_int_eq_self drop_bit_eq_div)
  have m16: "take_bit 16 m = m" "drop_bit 8 m AND 0x3f = 0" "m AND 0x3f = 0"
    using m by (auto simp: take_bit_int_eq_self drop_bit_eq_div)
  have six: "x AND 0x3f = take_bit 6 x" for x :: int by (simp add: take_bit_eq_mask mask_eq_exp_minus_1)
  have v16: "take_bit 16 v = v" by (simp add: v_def take_bit_or take_bit_push_bit m16(1) t16 del: push_bit_eq_mult)
  then show u: "uint (word_of_int v :: u16) = v" by (simp add: uint_word_of_int_eq v16)
  have "drop_bit 8 v = drop_bit 8 m OR a" by (simp add: v_def drop_bit_or t16(3) drop_bit_push_bit_int del: push_bit_eq_mult)
  then show "volume_field 8 (word_of_int v) = a"
    using t(1) m16(2) by (simp add: volume_field_def uint_and unsigned_drop_bit_eq u v16 six take_bit_or)
  have "take_bit 6 v = b" using t(2) m16(3) by (simp add: v_def six take_bit_or take_bit_push_bit del: push_bit_eq_mult)
  then show "volume_field 0 (word_of_int v) = b" by (simp add: volume_field_def uint_and u v16 six)
  have "\<not> bit a 7" "\<not> bit b 15"
    using t(1) t16 bit_take_bit_iff [of 6 a 7] bit_take_bit_iff [of 6 b 15] t(2) by simp_all
  then have "bit v 15 \<longleftrightarrow> bit m 15" by (simp add: v_def bit_or_iff bit_push_bit_iff del: push_bit_eq_mult)
  then show "bit (word_of_int v :: u16) 15 \<longleftrightarrow> m \<noteq> 0" using m by (auto simp: bit_word_of_int_iff bit_iff_odd [of m])
qed

lemma attenuation_six: "percent v \<Longrightarrow> bits \<le> 6 \<Longrightarrow> attenuation bits v < 64"
  using attenuation_range(2) [of v bits] power_increasing [of bits 6 "2::int"] by simp

lemma attenuation_ends: "attenuation bits 100 = 0" "attenuation bits 0 = 2 ^ bits - 1"
  by (simp_all add: attenuation_def mix_cvt_def)

text \<open>C38: every pair of volumes from 0 to 100 has a register value with both fields in the bits of the register; the
  value is muted exactly for silence, the loudest volume is not attenuated, the smallest is attenuated most,
  and a louder volume is never attenuated more.\<close>

theorem volume_encoding:
  assumes "percent l" and "percent r" and "percent l'" and "percent r'" and "bits \<le> 6"
  shows "\<exists>w w'. mix_scale l r (int bits) = Some (uint w) \<and> mix_scale l' r' (int bits) = Some (uint w') \<and>
    volume_field 8 w < 2 ^ bits \<and> volume_field 0 w < 2 ^ bits \<and> (bit w 15 \<longleftrightarrow> l = 0 \<and> r = 0) \<and>
    (l = 100 \<longrightarrow> volume_field 8 w = 0) \<and> (l = 0 \<longrightarrow> volume_field 8 w = 2 ^ bits - 1) \<and>
    (l \<le> l' \<longrightarrow> volume_field 8 w' \<le> volume_field 8 w) \<and> (r \<le> r' \<longrightarrow> volume_field 0 w' \<le> volume_field 0 w)"
proof -
  have enc: "\<exists>w. mix_scale x y (int bits) = Some (uint w) \<and> volume_field 8 w = attenuation bits x \<and>
      volume_field 0 w = attenuation bits y \<and> (bit w 15 \<longleftrightarrow> x = 0 \<and> y = 0)" if "percent x" "percent y" for x y
  proof (intro exI conjI)
    let ?m = "if x = 0 \<and> y = 0 then 0x8000 else 0 :: int"
    have m: "?m = 0 \<or> ?m = 0x8000" by simp
    note f = fields_apart [OF attenuation_range(1) [OF that(1)] attenuation_six [OF that(1) assms(5)]
        attenuation_range(1) [OF that(2)] attenuation_six [OF that(2) assms(5)] m]
    show "mix_scale x y (int bits) = Some (uint (word_of_int (?m OR push_bit 8 (attenuation bits x) OR attenuation bits y) :: u16))"
      unfolding f(1) by (rule scale_percent [OF that])
    show "volume_field 8 (word_of_int (?m OR push_bit 8 (attenuation bits x) OR attenuation bits y)) = attenuation bits x" by (rule f(2))
    show "volume_field 0 (word_of_int (?m OR push_bit 8 (attenuation bits x) OR attenuation bits y)) = attenuation bits y" by (rule f(3))
    show "bit (word_of_int (?m OR push_bit 8 (attenuation bits x) OR attenuation bits y) :: u16) 15 \<longleftrightarrow> x = 0 \<and> y = 0"
      unfolding f(4) by simp
  qed
  obtain w where w: "mix_scale l r (int bits) = Some (uint w)" "volume_field 8 w = attenuation bits l"
      "volume_field 0 w = attenuation bits r" "bit w 15 \<longleftrightarrow> l = 0 \<and> r = 0"
    using enc [OF assms(1,2)] by blast
  obtain w' where w': "mix_scale l' r' (int bits) = Some (uint w')" "volume_field 8 w' = attenuation bits l'"
      "volume_field 0 w' = attenuation bits r'"
    using enc [OF assms(3,4)] by blast
  show ?thesis
    using w w' assms by (intro exI [of _ w] exI [of _ w']) (simp add: attenuation_range attenuation_mono attenuation_ends)
qed

lemma volume_encoding_witness:
  "\<exists>w w'. mix_scale 0 0 (int 5) = Some (uint w) \<and> mix_scale 40 100 (int 5) = Some (uint w') \<and>
    volume_field 8 w < 2 ^ 5 \<and> volume_field 0 w < 2 ^ 5 \<and> (bit w 15 \<longleftrightarrow> (0::int) = 0 \<and> (0::int) = 0) \<and>
    ((0::int) = 100 \<longrightarrow> volume_field 8 w = 0) \<and> ((0::int) = 0 \<longrightarrow> volume_field 8 w = 2 ^ 5 - 1) \<and>
    ((0::int) \<le> 40 \<longrightarrow> volume_field 8 w' \<le> volume_field 8 w) \<and> ((0::int) \<le> 100 \<longrightarrow> volume_field 0 w' \<le> volume_field 0 w)"
  by (rule volume_encoding) (simp_all add: percent_def)

end
