(* ===== verification/Spec2Isabelle.thy ===== *)
theory Spec2Isabelle
  imports Midi_Queue_Reach Oss_Memblk Midi_Parser_Laws Spdif_Laws Midi_Timers_Laws Audio_Defects Audio_Safety
    Midi_Mtc_Laws Midi_File_Laws Midi_Output_Laws Audio_Core_Defects Audio_Owner_Laws
    Mixer_Choice_Laws Audio_Mixer_Laws Ac97_Laws
begin

text \<open>
  A verification development for the core of Open Sound System, the sound system of
  \<open>src/kernel\<close>: device drivers register devices with a framework (\<open>kernel/framework\<close>), which
  implements the device files, the mixers, the MIDI and the audio processing on top of them.
  The development models parts of the framework that carry logic of their own.

  \<^bold>\<open>Conventions.\<close> \<open>Oss_Prelude\<close> holds the machine types, the error codes (the values of a
  datatype; a function that returns a negative code or a value returns \<open>Inl\<close> or \<open>Inr\<close>), byte
  memories and the arithmetic of rings. A C struct is a record, a table of pointers is a list of
  options with \<open>None\<close> for \<open>NULL\<close>, and an operation is a function from the old to the new state.
  Where C is undefined (a null pointer, a division by zero, an access outside a buffer) or a loop
  of calls runs out of fuel, the result is \<open>None\<close> or a value that says so; theorems about
  safety state that this does not happen. Mutexes are not modelled: an operation is a step. What
  the operating system, the hardware or an application does is a parameter.

  \<^bold>\<open>MIDI messages\<close> (\<open>kernel/framework/midi/oss_midi_queue.c\<close>). \<open>Midi_Queue\<close> models the ring of
  bytes with its index of records at the byte level. \<open>Midi_Queue_Laws\<close> relates it to a list of
  messages: an invariant, and one refinement lemma for each operation. \<open>Byte_Pipe\<close> states the
  contract of a byte pipe as a locale, which the queue interprets, and \<open>Midi_Queue_Reach\<close> lifts
  the laws to sessions: nothing is lost, duplicated or reordered in the traditional mode, while
  packets with headers can be written past the end of the ring.

  \<^bold>\<open>The MIDI parser\<close> (\<open>oss_midi_parser.c\<close>). \<open>Midi_Parser\<close> is the scanner with its running status, the
  dispatch of messages and the decoder of MIDI time code; a callback is an event in the result.
  \<open>Midi_Parser_Laws\<close> shows the round trip with an encoder, that no input leaves the buffer, that
  realtime bytes are transparent, how system exclusive messages are cut, and what a running
  status with one data byte loses.

  \<^bold>\<open>MIDI timers\<close> (\<open>oss_midi_timers.c\<close>, \<open>oss_default_timer.c\<close>). \<open>Midi_Timers\<close> has the tables of
  drivers and instances and the queueing of wake-up times; \<open>update_timer_state\<close> and
  \<open>timer_callback\<close> call each other, with fuel. \<open>Default_Timer\<close> is the driver on the system clock.
  \<open>Midi_Timers_Laws\<close> shows that every operation keeps the tables consistent and which deadline
  the clock is armed for, and three defects in the conversions of time.

  \<^bold>\<open>The MIDI core\<close> (\<open>oss_midi_core.c\<close>, \<open>oss_midi_mapper.c\<close>) ties queues, timers and drivers of MIDI ports
  together. \<open>Midi_Core\<close> has the state, a table of ports and a table of clients inside the state of the
  timer core, and the input from drivers; \<open>Midi_Output\<close> the handler that sends queued records and the
  waits for it, \<open>Midi_Files\<close> open, binding, close, read and write, \<open>Midi_Ports\<close> the ioctls, poll, the shared
  device file and the installation of ports. The output handler and the timers call each other and a
  write may wait for ever, so these take fuel; \<open>midi_write_sends\<close> says how much is enough. \<open>Midi_Core_Laws\<close> interprets
  the byte pipe on the core's input, from the driver to the reader, \<open>Midi_Output_Laws\<close> shows that a write sends its
  bytes in order, \<open>Midi_Mtc_Laws\<close> runs the time code generator against the decoder of the parser, and
  \<open>Midi_File_Laws\<close> shows that ports are exclusive as long as memory lasts, what happens when it does not, and
  where reads and closes lose data and clients.

  \<^bold>\<open>Memory blocks\<close> (\<open>osscore/oss_memblk.c\<close>). \<open>Oss_Memblk\<close>: chains of blocks on an explicit heap.

  \<^bold>\<open>S/PDIF\<close> (\<open>audio/oss_spdif.c\<close>). \<open>Spdif\<close> models the manager of the channel status bits, its
  sessions and its mixer controls; \<open>Spdif_Laws\<close> has the read-back of controls, the isolation of
  sessions and the error paths of installation.

  \<^bold>\<open>Audio formats\<close> (\<open>audio/oss_audiofmt.c\<close>, \<open>audiocnv.inc\<close>, \<open>ulaw.h\<close>). \<open>Audio_Format\<close> has the table
  of formats and the stages of a conversion on two byte buffers; \<open>Audio_Convert\<close> the converters,
  the resampling stages around the functions of the resampler, and the setup that selects a
  converter. \<open>Audio_Format_Laws\<close> refines the default converter from a specification on frames of
  samples, \<open>Audio_Codecs\<close> states what formats keep of a sample as two locales interpreted for
  every format, \<open>Audio_Laws\<close> shows round trips and the correctness of the selected converter,
  \<open>Audio_Safety\<close> the bounds of the buffers and the resampler's states, and \<open>Audio_Defects\<close> the
  samples that come out wrong.

  \<^bold>\<open>The audio core\<close> (\<open>audio/oss_audio_core.c\<close>, \<open>audio_core.h\<close>). \<open>Audio_Dmap\<close> has the state, one engine
  with its playback and its recording buffer, the hardware and the rest of the system, and the choice
  of the fragments; a driver is a record of methods that may change the whole state. \<open>Audio_Engine\<close>
  has formats, channels and rates, the preparation and start of a device, resets, post and sync;
  \<open>Audio_Write\<close> and \<open>Audio_Read\<close> the paths of the data, with and without conversions, \<open>Audio_Intr\<close>
  the interrupts and \<open>Audio_Info\<close> the queries of positions and space. Loops that wait for the device
  take as many rounds as their counters in the code allow, the others a bound that is enough or else the result
  says that the code does not return. \<open>Audio_Ring\<close> reads a buffer with its two counters as
  a list of bytes, \<open>Audio_Playback_Laws\<close> shows that a write appends to it and that an
  interrupt takes a fragment from it, and \<open>Audio_Record_Laws\<close> the same of the interrupts and reads of a recording;
  both interpret the byte pipe. \<open>Audio_Fragment_Laws\<close> shows that the choice of the fragments ends
  and that they fit the buffer, \<open>Audio_Cooked_Laws\<close> what happens to converted data that does not
  fit, and \<open>Audio_Core_Defects\<close> the cases in which the core does something else than it means to.

  The table of engines is built on top of this. \<open>Audio_Device\<close> has what an engine has beside its transfers and the
  remaining methods of drivers: a method acts on its own engine, and the global \<open>sync_seed\<close> is
  loaded into the engine that an operation works on and stored back. \<open>Audio_Files\<close> opens and
  releases engines, \<open>Audio_Sync\<close> has the trigger and the synchronisation groups, and
  \<open>Audio_Ioctl\<close> the \<open>ioctl\<close> dispatcher, in groups of calls, and poll. The walks along the chain of a group
  take fuel; the length of the chain is enough (\<open>Audio_Sync_Laws\<close>), and no fuel is enough for the
  cycle that a reopened member makes. \<open>Audio_Ioctl_Laws\<close> shows what single calls promise, over a mixer whose contract
  is a locale, \<open>Audio_Files_Laws\<close> has sessions of all operations and the typing of the
  table that they keep, and \<open>Audio_Owner_Laws\<close> that an open engine is exclusive; each operation and method there
  has its lemma for the open mode.

  \<^bold>\<open>The mixer core\<close> (\<open>mixer/oss_mixer_core.c\<close>, \<open>mixerdefs.h\<close>, \<open>mixer_core.h\<close>). \<open>Mixer_Names\<close> has the numbers and masks of
  the legacy interface, \<open>Mixer_Core\<close> the table of mixers with the array of entries of each, and the legacy calls;
  a method of a driver acts on the hardware, while the functions of a driver's controls and the functions that make them
  act on the whole core. \<open>Mixer_Ext\<close> has the names of controls, the choices and the creation of controls, \<open>Mixer_Touch\<close>
  the controls of the core itself and \<open>touch_mixer\<close>, which makes the tree at the first use, \<open>Mixer_Calls\<close> the operations
  for drivers, the \<open>ioctl\<close> calls and the installation. \<open>PMALLOC\<close> never returns \<open>NULL\<close> and memory has the contents of a
  parameter. The walk of \<open>touch_parents\<close> to the root has as many rounds as there are entries, and a longer one is a cycle.
  \<open>Mixer_Tree_Laws\<close> shows that every operation keeps the entries a tree, \<open>Mixer_Export_Laws\<close> what the export of the
  legacy controls adds to it, and \<open>Mixer_Session\<close> lifts the operations, as editors, to the table and to sessions.
  \<open>Mixer_Laws\<close> and \<open>Mixer_Choice_Laws\<close> have the behaviour that applications see: the tree of a mixer, levels, recording
  switches, choices and dead handles. \<open>Audio_Mixer_Laws\<close> puts the audio core on top of the mixer core, by interpreting the
  contract of a mixer on it.

  \<^bold>\<open>AC97 codecs\<close> (\<open>ac97/oss_ac97.c\<close>, \<open>ac97_ext.inc\<close>, \<open>ac97.h\<close>), the mixer of most cards. \<open>Ac97\<close> has the state of a codec, its
  registers, which the functions of the host's driver access, and the legacy calls of the mixer core; \<open>Ac97_Install\<close> the
  table of known codecs, the installation and the sampling rates; \<open>Ac97_Ext\<close> the controls of the extension tree, as
  functions that the mixer core calls. \<open>Ac97_Laws\<close> shows how volumes are encoded in the registers.

  \<^bold>\<open>Not modelled.\<close> Of the audio core the virtual device files with their choice of an engine, mmap,
  the status reports, the history of applications and the installation of devices; the list of
  applications of \<open>APPLIST_SUPPORT\<close>, which no system enables; of the mixer core the calls that describe devices of
  other kinds, which are a parameter, and the measurement of timings; the virtual mixer and the
  arithmetic of the resampler (\<open>grc3\<close>). They are left to extensions of this development. The drivers under
  \<open>kernel/drv\<close>, the operating system glue and the command line programs are outside its scope.
\<close>

end
